(* ===== verification/Prelude.thy ===== *)
theory Prelude
  imports Complex_Main "HOL-Library.Word" "HOL-Library.Char_ord" "HOL-Library.List_Lexorder"
begin

text \<open>
  Shared vocabulary of the development: the machine integer types, the result type that
  every fallible C++ function returns (the error on the left, the value on the right),
  the \<open>FUM_TRY\<close> propagation as \<open>fum_try\<close>, loops that stop at the first error,
  the decimal rendering of \<open>std::to_string\<close>, and the searches of
  \<open>std::string_view\<close>.  Strings are byte strings: a \<open>char\<close> is one byte, and the order on
  them is the lexicographic order on unsigned bytes, as \<open>std::string\<close> compares.
\<close>

named_theorems result_simps \<open>evaluation of fallible calls\<close>
named_theorems codec_simps \<open>evaluation of JSON encoders and decoders\<close>
named_theorems frame_simps \<open>fields an operation leaves alone\<close>

type_synonym u8 = "8 word"
type_synonym u32 = "32 word"
type_synonym u64 = "64 word"

abbreviation u64_max :: u64 where
  "u64_max \<equiv> 0xFFFFFFFFFFFFFFFF"

abbreviation u32_max :: u32 where
  "u32_max \<equiv> 0xFFFFFFFF"

subsection \<open>Propagating errors\<close>

fun fum_try :: "'e + 'a \<Rightarrow> ('a \<Rightarrow> 'e + 'b) \<Rightarrow> 'e + 'b" where
  "fum_try (Inl e) f = Inl e"
| "fum_try (Inr a) f = f a"

lemma fum_try_Inr_iff:
  "fum_try r f = Inr b \<longleftrightarrow> (\<exists>a. r = Inr a \<and> f a = Inr b)"
  by (cases r) auto

lemma fum_try_InrE:
  assumes "fum_try r f = Inr b"
  obtains a where "r = Inr a" "f a = Inr b"
  using assms by (cases r) auto

lemma fum_try_Inl_iff:
  "fum_try r f = Inl e \<longleftrightarrow> r = Inl e \<or> (\<exists>a. r = Inr a \<and> f a = Inl e)"
  by (cases r) auto

lemma fum_try_cong [fundef_cong]:
  assumes "r = r'" "\<And>a. r' = Inr a \<Longrightarrow> f a = g a"
  shows "fum_try r f = fum_try r' g"
  using assms by (cases r') auto

text \<open>Evaluate the first call before looking at the rest of the chain.\<close>

lemma fum_try_weak_cong: "r = r' \<Longrightarrow> fum_try r f = fum_try r' f"
  by simp

text \<open>\<open>for (item : items) { FUM_TRY(x, f(item)); out.push_back(x); }\<close>\<close>

fun map_result :: "('a \<Rightarrow> 'e + 'b) \<Rightarrow> 'a list \<Rightarrow> 'e + 'b list" where
  "map_result f [] = Inr []"
| "map_result f (x # xs) = fum_try (f x) (\<lambda>y. fum_try (map_result f xs) (\<lambda>ys. Inr (y # ys)))"

lemma map_result_cong [fundef_cong]:
  assumes "xs = ys" "\<And>x. x \<in> set ys \<Longrightarrow> f x = g x"
  shows "map_result f xs = map_result g ys"
  using assms by (induction ys arbitrary: xs) auto

lemma map_result_map:
  assumes "\<And>x. x \<in> set xs \<Longrightarrow> f (g x) = Inr x"
  shows "map_result f (map g xs) = Inr xs"
  using assms by (induction xs) auto

lemma map_result_map_comp: "map_result f (map g xs) = map_result (f \<circ> g) xs"
  by (induction xs) auto

lemma map_result_all:
  assumes "map_result f xs = Inr ys" "\<And>x y. x \<in> set xs \<Longrightarrow> f x = Inr y \<Longrightarrow> P y"
  shows "\<forall>y \<in> set ys. P y"
  using assms
proof (induction xs arbitrary: ys)
  case Nil
  then show ?case by simp
next
  case (Cons x xs)
  then obtain y zs where y: "f x = Inr y" "map_result f xs = Inr zs" "ys = y # zs"
    by (auto simp: fum_try_Inr_iff)
  have "P y" by (rule Cons.prems(2) [OF _ y(1)]) simp
  moreover have "\<forall>z \<in> set zs. P z"
    by (rule Cons.IH [OF y(2)]) (auto intro: Cons.prems(2))
  ultimately show ?case using y(3) by simp
qed

fun the_value :: "'e + 'a \<Rightarrow> 'a \<Rightarrow> 'a" where
  "the_value (Inr a) d = a"
| "the_value (Inl e) d = d"

fun has_value :: "'e + 'a \<Rightarrow> bool" where
  "has_value (Inr a) = True"
| "has_value (Inl e) = False"

lemma has_value_iff: "has_value r \<longleftrightarrow> (\<exists>a. r = Inr a)"
  by (cases r) auto

declare fum_try.simps [result_simps] fum_try_Inr_iff [result_simps]

subsection \<open>Decimal rendering of unsigned numbers\<close>

definition digit_char :: "nat \<Rightarrow> char" where
  "digit_char d = char_of (48 + d)"

definition is_digit :: "char \<Rightarrow> bool" where
  "is_digit c \<longleftrightarrow> CHR ''0'' \<le> c \<and> c \<le> CHR ''9''"

definition digit_value :: "char \<Rightarrow> nat" where
  "digit_value c = of_char c - 48"

fun dec_digits :: "nat \<Rightarrow> string" where
  "dec_digits n = (if n < 10 then [digit_char n] else dec_digits (n div 10) @ [digit_char (n mod 10)])"

declare dec_digits.simps [simp del]

definition dec_value :: "string \<Rightarrow> nat" where
  "dec_value s = foldl (\<lambda>a c. a * 10 + digit_value c) 0 s"

definition u64_to_string :: "u64 \<Rightarrow> string" where
  "u64_to_string w = dec_digits (unat w)"

definition u32_to_string :: "u32 \<Rightarrow> string" where
  "u32_to_string w = dec_digits (unat w)"

definition int_to_string :: "int \<Rightarrow> string" where
  "int_to_string i = (if i < 0 then CHR ''-'' # dec_digits (nat (- i)) else dec_digits (nat i))"

lemma less_10_cases:
  "d < (10::nat) \<Longrightarrow> d = 0 \<or> d = 1 \<or> d = 2 \<or> d = 3 \<or> d = 4 \<or> d = 5 \<or> d = 6 \<or> d = 7 \<or> d = 8 \<or> d = 9"
  by presburger

lemma is_digit_iff: "is_digit c \<longleftrightarrow> 48 \<le> (of_char c :: nat) \<and> (of_char c :: nat) \<le> 57"
  by (simp add: is_digit_def less_eq_char_def)

lemma of_char_digit_char: "d < 10 \<Longrightarrow> of_char (digit_char d) = 48 + d"
  by (simp add: digit_char_def)

lemma is_digit_digit_char [simp]: "d < 10 \<Longrightarrow> is_digit (digit_char d)"
  by (simp add: is_digit_iff of_char_digit_char)

lemma digit_value_digit_char [simp]: "d < 10 \<Longrightarrow> digit_value (digit_char d) = d"
  by (simp add: digit_value_def of_char_digit_char)

lemma dec_digits_not_Nil [simp]: "dec_digits n \<noteq> []"
  by (subst dec_digits.simps) simp

lemma dec_digits_small: "n < 10 \<Longrightarrow> dec_digits n = [digit_char n]"
  by (subst dec_digits.simps) simp

lemma dec_digits_big: "\<not> n < 10 \<Longrightarrow> dec_digits n = dec_digits (n div 10) @ [digit_char (n mod 10)]"
  by (subst dec_digits.simps) simp

lemma dec_digits_all_digits: "\<forall>c \<in> set (dec_digits n). is_digit c"
proof (induction n rule: dec_digits.induct)
  case (1 n)
  then show ?case
    by (cases "n < 10") (auto simp: dec_digits_small dec_digits_big)
qed

lemma dec_value_append: "dec_value (s @ [c]) = dec_value s * 10 + digit_value c"
  by (simp add: dec_value_def)

lemma dec_value_dec_digits [simp]: "dec_value (dec_digits n) = n"
proof (induction n rule: dec_digits.induct)
  case (1 n)
  show ?case
  proof (cases "n < 10")
    case True
    then show ?thesis by (simp add: dec_digits_small dec_value_def)
  next
    case False
    with 1 show ?thesis by (simp add: dec_digits_big dec_value_append)
  qed
qed

lemma dec_digits_inject [simp]: "dec_digits m = dec_digits n \<longleftrightarrow> m = n"
  by (metis dec_value_dec_digits)

lemma hd_dec_digits: "hd (dec_digits n) = CHR ''0'' \<Longrightarrow> n = 0"
proof (induction n rule: dec_digits.induct)
  case (1 n)
  show ?case
  proof (cases "n < 10")
    case True
    have "digit_value (CHR ''0'') = 0" by (simp add: digit_value_def)
    moreover have "digit_value (digit_char n) = n" using True by simp
    moreover have "digit_char n = CHR ''0''"
      using "1.prems" True by (simp add: dec_digits_small)
    ultimately show ?thesis by simp
  next
    case False
    then have "hd (dec_digits (n div 10)) = CHR ''0''"
      using "1.prems" by (simp add: dec_digits_big hd_append)
    with "1.IH" False show ?thesis by auto
  qed
qed

lemma dec_digits_no_leading_zero:
  assumes "length (dec_digits n) > 1"
  shows "hd (dec_digits n) \<noteq> CHR ''0''"
proof
  assume "hd (dec_digits n) = CHR ''0''"
  then have "n = 0" by (rule hd_dec_digits)
  with assms show False by (simp add: dec_digits_small)
qed

lemma not_digit_notin_dec_digits: "\<not> is_digit c \<Longrightarrow> c \<notin> set (dec_digits n)"
  using dec_digits_all_digits by blast

subsection \<open>Searching and slicing byte strings\<close>

fun index_of :: "char \<Rightarrow> string \<Rightarrow> nat option" where
  "index_of c [] = None"
| "index_of c (x # xs) = (if x = c then Some 0 else map_option Suc (index_of c xs))"

definition str_find :: "string \<Rightarrow> char \<Rightarrow> nat \<Rightarrow> nat option" where
  "str_find s c pos = map_option (\<lambda>i. pos + i) (index_of c (drop pos s))"

definition substr :: "string \<Rightarrow> nat \<Rightarrow> nat \<Rightarrow> string" where
  "substr s pos n = take n (drop pos s)"

lemma index_of_None_iff: "index_of c s = None \<longleftrightarrow> c \<notin> set s"
  by (induction s) auto

lemma index_of_append: "c \<notin> set xs \<Longrightarrow> index_of c (xs @ c # ys) = Some (length xs)"
  by (induction xs) auto

lemma index_of_SomeD:
  "index_of c s = Some i \<Longrightarrow> i < length s \<and> s ! i = c \<and> c \<notin> set (take i s)"
proof (induction s arbitrary: i)
  case Nil
  then show ?case by simp
next
  case (Cons x xs)
  show ?case
  proof (cases "x = c")
    case True
    with Cons.prems show ?thesis by simp
  next
    case False
    with Cons.prems obtain j where "index_of c xs = Some j" "i = Suc j" by auto
    with Cons.IH [of j] False show ?thesis by simp
  qed
qed

lemma str_find_append:
  assumes "c \<notin> set xs"
  shows "str_find (xs @ c # ys) c 0 = Some (length xs)"
  using assms by (simp add: str_find_def index_of_append)

lemma str_find_skip:
  assumes "c \<notin> set xs"
  shows "str_find (ps @ xs @ c # ys) c (length ps) = Some (length ps + length xs)"
  using assms by (simp add: str_find_def index_of_append)

lemma str_find_bounds: "str_find s c p = Some i \<Longrightarrow> p \<le> i \<and> i < length s"
  by (auto simp: str_find_def dest!: index_of_SomeD)

subsection \<open>Lists\<close>

lemma list_all_filter_None: "filter P xs = [] \<longleftrightarrow> (\<forall>x \<in> set xs. \<not> P x)"
  by (induction xs) auto

fun join_with :: "string \<Rightarrow> string list \<Rightarrow> string" where
  "join_with sep [] = []"
| "join_with sep [x] = x"
| "join_with sep (x # y # zs) = x @ sep @ join_with sep (y # zs)"

lemma map_of_sort_key:
  "distinct (map fst xs) \<Longrightarrow> map_of (sort_key fst xs) = map_of xs"
  by (rule map_of_inject_set [THEN iffD2]) (simp_all add: distinct_map)

end
