(* ===== verification/Core_Result.thy ===== *)
theory Core_Result
  imports Prelude
begin

text \<open>
  Errors and checked arithmetic (\<open>core/result\<close>, \<open>core/checked\<close>): the failure
  classification, the error record, its rendering, and the size arithmetic that refuses to
  wrap around.
\<close>

datatype error_code =
    EC_ok
  | EC_invalid_argument
  | EC_not_found
  | EC_already_exists
  | EC_conflict
  | EC_precondition_failed
  | EC_fenced
  | EC_stale
  | EC_integrity_failure
  | EC_corrupt
  | EC_io_error
  | EC_timeout
  | EC_cancelled
  | EC_unsupported
  | EC_not_integrated
  | EC_policy_denied
  | EC_incompatible
  | EC_irreversible
  | EC_resource_exhausted
  | EC_internal
  | EC_closed

fun error_code_name :: "error_code \<Rightarrow> string" where
  "error_code_name EC_ok = ''ok''"
| "error_code_name EC_invalid_argument = ''invalid-argument''"
| "error_code_name EC_not_found = ''not-found''"
| "error_code_name EC_already_exists = ''already-exists''"
| "error_code_name EC_conflict = ''conflict''"
| "error_code_name EC_precondition_failed = ''precondition-failed''"
| "error_code_name EC_fenced = ''fenced''"
| "error_code_name EC_stale = ''stale''"
| "error_code_name EC_integrity_failure = ''integrity-failure''"
| "error_code_name EC_corrupt = ''corrupt''"
| "error_code_name EC_io_error = ''io-error''"
| "error_code_name EC_timeout = ''timeout''"
| "error_code_name EC_cancelled = ''cancelled''"
| "error_code_name EC_unsupported = ''unsupported''"
| "error_code_name EC_not_integrated = ''not-integrated''"
| "error_code_name EC_policy_denied = ''policy-denied''"
| "error_code_name EC_incompatible = ''incompatible''"
| "error_code_name EC_irreversible = ''irreversible''"
| "error_code_name EC_resource_exhausted = ''resource-exhausted''"
| "error_code_name EC_internal = ''internal''"
| "error_code_name EC_closed = ''closed''"

record error =
  err_code :: error_code
  err_message :: string
  err_detail :: string

type_synonym 'a result = "error + 'a"
type_synonym status = "error + unit"

definition make_error :: "error_code \<Rightarrow> string \<Rightarrow> string \<Rightarrow> error" where
  "make_error c m d = \<lparr>err_code = c, err_message = m, err_detail = d\<rparr>"

definition fail :: "error_code \<Rightarrow> string \<Rightarrow> string \<Rightarrow> 'a result" where
  "fail c m d = Inl (make_error c m d)"

abbreviation ok_status :: status where
  "ok_status \<equiv> Inr ()"

definition error_to_string :: "error \<Rightarrow> string" where
  "error_to_string e =
     error_code_name (err_code e) @ '': '' @ err_message e @
     (if err_detail e \<noteq> [] then '' ['' @ err_detail e @ '']'' else [])"

lemma fail_not_Inr [simp]: "fail c m d \<noteq> Inr x" "Inr x \<noteq> fail c m d"
  by (simp_all add: fail_def)

lemma fail_eq_Inl: "fail c m d = Inl e \<longleftrightarrow> e = make_error c m d"
  by (auto simp: fail_def)

lemma fum_try_fail [simp, result_simps]: "fum_try (fail c m d) f = fail c m d"
  by (simp add: fail_def)

lemma has_value_fail [simp]: "\<not> has_value (fail c m d)"
  by (simp add: fail_def)

lemma err_code_make_error [simp]: "err_code (make_error c m d) = c"
  by (simp add: make_error_def)

lemma error_code_name_inject: "error_code_name a = error_code_name b \<Longrightarrow> a = b"
  by (cases a; cases b; simp)

subsection \<open>Checked arithmetic\<close>

definition add_u64 :: "u64 \<Rightarrow> u64 \<Rightarrow> u64 result" where
  "add_u64 a b =
     (if a > u64_max - b
      then fail EC_resource_exhausted ''integer overflow in addition''
             (''add_u64('' @ u64_to_string a @ '', '' @ u64_to_string b @ '')'')
      else Inr (a + b))"

definition mul_u64 :: "u64 \<Rightarrow> u64 \<Rightarrow> u64 result" where
  "mul_u64 a b =
     (if a \<noteq> 0 \<and> b > u64_max div a
      then fail EC_resource_exhausted ''integer overflow in multiplication''
             (''mul_u64('' @ u64_to_string a @ '', '' @ u64_to_string b @ '')'')
      else Inr (a * b))"

definition require_bound :: "u64 \<Rightarrow> u64 \<Rightarrow> string \<Rightarrow> status" where
  "require_bound value limit what =
     (if value > limit
      then fail EC_resource_exhausted (what @ '' exceeds the configured bound'')
             (u64_to_string value @ '' > '' @ u64_to_string limit)
      else ok_status)"

lemma u64_max_eq: "(u64_max :: u64) = - 1"
  by simp

lemma unat_u64_max: "unat (u64_max :: u64) = 2 ^ 64 - 1"
  by simp

lemma unat_u64_less: "unat (a :: u64) < 2 ^ 64"
  using unsigned_less [of a] by simp

lemma add_u64_guard: "(a :: u64) > u64_max - b \<longleftrightarrow> unat a + unat b \<ge> 2 ^ 64"
proof -
  have b: "unat b \<le> 18446744073709551615"
    using unat_u64_less [of b] by simp
  then have "unat (u64_max - b) = 2 ^ 64 - 1 - unat b"
    by (subst unat_sub) (simp_all add: word_le_nat_alt)
  then show ?thesis
    using b by (auto simp: word_less_nat_alt)
qed

lemma mul_u64_guard:
  assumes "(a :: u64) \<noteq> 0"
  shows "b > u64_max div a \<longleftrightarrow> unat a * unat b \<ge> 2 ^ 64"
proof -
  have pos: "unat a > 0" using assms by (simp add: unat_gt_0)
  have "b > u64_max div a \<longleftrightarrow> (2 ^ 64 - 1) div unat a < unat b"
    by (simp add: word_less_nat_alt unat_div)
  also have "\<dots> \<longleftrightarrow> \<not> unat b * unat a \<le> 2 ^ 64 - 1"
    using less_eq_div_iff_mult_less_eq [OF pos] by (metis not_le)
  finally show ?thesis by (auto simp: mult.commute)
qed

end
