(* ===== verification/Core_Crc.thy ===== *)
theory Core_Crc
  imports Core_Result
begin

unbundle bit_operations_syntax

text \<open>
  CRC-32C (\<open>core/crc\<close>): the 256-entry table built at compile time, the table-driven update
  the journal uses for its record checksums, and the bit-serial shift register that the table
  abbreviates, as the reference the routine is proved equal to.
\<close>

abbreviation crc_polynomial :: u32 where
  "crc_polynomial \<equiv> 0x82F63B78"

definition crc_bit :: "u32 \<Rightarrow> u32" where
  "crc_bit crc = (if crc AND 1 \<noteq> 0 then drop_bit 1 crc XOR crc_polynomial else drop_bit 1 crc)"

definition crc_build_table :: "u32 list" where
  "crc_build_table = map (\<lambda>i. (crc_bit ^^ 8) (word_of_nat i)) [0..<256]"

definition byte_u32 :: "char \<Rightarrow> u32" where
  "byte_u32 c = word_of_nat (of_char c)"

definition crc_byte :: "u32 \<Rightarrow> char \<Rightarrow> u32" where
  "crc_byte crc raw =
     crc_build_table ! unat ((crc XOR byte_u32 raw) AND 0xFF) XOR drop_bit 8 crc"

definition crc32c_seeded :: "u32 \<Rightarrow> string \<Rightarrow> u32" where
  "crc32c_seeded seed data = NOT (foldl crc_byte (NOT seed) data)"

definition crc32c :: "string \<Rightarrow> u32" where
  "crc32c data = crc32c_seeded 0 data"

text \<open>The reference: eight shift-register steps per byte, no table.\<close>

definition crc_byte_serial :: "u32 \<Rightarrow> char \<Rightarrow> u32" where
  "crc_byte_serial crc raw = (crc_bit ^^ 8) (crc XOR byte_u32 raw)"

definition crc32c_serial :: "string \<Rightarrow> u32" where
  "crc32c_serial data = NOT (foldl crc_byte_serial (NOT 0) data)"

subsection \<open>The shift register is linear\<close>

lemma unat_byte_u32: "unat (byte_u32 c) = of_char c"
proof -
  have "(of_char c :: nat) < 256" by simp
  then have "(of_char c :: nat) < 2 ^ LENGTH(32)" by (rule order.strict_trans2) simp
  then show ?thesis by (simp add: byte_u32_def unat_of_nat take_bit_nat_eq_self)
qed

lemma crc_bit_alt:
  "crc_bit c = (if bit c 0 then drop_bit 1 c XOR crc_polynomial else drop_bit 1 c)"
proof -
  have "c AND 1 \<noteq> 0 \<longleftrightarrow> bit c 0"
    by (simp add: and_one_eq odd_iff_mod_2_eq_one bit_0)
  then show ?thesis unfolding crc_bit_def by presburger
qed

lemma crc_bit_xor: "crc_bit (a XOR b) = crc_bit a XOR crc_bit b"
  unfolding crc_bit_alt bit_xor_iff drop_bit_xor
  by (cases "bit a 0"; cases "bit b 0") (simp_all add: ac_simps)

lemma crc_bit_pow_xor: "(crc_bit ^^ n) (a XOR b) = (crc_bit ^^ n) a XOR (crc_bit ^^ n) b"
  by (induction n arbitrary: a b) (simp_all add: crc_bit_xor)

lemma crc_bit_pow_shift:
  assumes "\<And>i. i < n \<Longrightarrow> \<not> bit (x :: u32) i"
  shows "(crc_bit ^^ n) x = drop_bit n x"
  using assms
proof (induction n)
  case 0
  then show ?case by simp
next
  case (Suc n)
  then have eq: "(crc_bit ^^ n) x = drop_bit n x" and low: "\<not> bit x n" by simp_all
  from low have "\<not> bit (drop_bit n x) 0" by (simp add: bit_drop_bit_eq)
  then have "crc_bit (drop_bit n x) = drop_bit 1 (drop_bit n x)"
    unfolding crc_bit_alt by presburger
  then show ?case by (simp add: eq)
qed

lemma and_255: "(x :: u32) AND 0xFF = take_bit 8 x"
proof -
  have "(0xFF :: u32) = mask 8" by (simp add: mask_eq_exp_minus_1)
  then show ?thesis by (simp only: take_bit_eq_mask)
qed

lemma crc_split: "(x :: u32) = take_bit 8 x XOR push_bit 8 (drop_bit 8 x)"
  by (rule bit_eqI) (auto simp: bit_simps)

lemma crc_pow_split: "(crc_bit ^^ 8) x = (crc_bit ^^ 8) (take_bit 8 x) XOR drop_bit 8 x"
proof -
  have "(crc_bit ^^ 8) (push_bit 8 (drop_bit 8 x)) = drop_bit 8 (push_bit 8 (drop_bit 8 x))"
    by (rule crc_bit_pow_shift) (simp add: bit_simps)
  also have "\<dots> = drop_bit 8 x"
    by (rule bit_eqI) (auto simp: bit_simps dest: bit_imp_le_length)
  finally show ?thesis
    using crc_bit_pow_xor [of 8 "take_bit 8 x" "push_bit 8 (drop_bit 8 x)"] crc_split [of x]
    by simp
qed

lemma unat_take_bit_8: "unat (take_bit 8 (x :: u32)) < 256"
proof -
  have "unat (take_bit 8 x) = take_bit 8 (unat x)"
    by (simp add: unsigned_take_bit_eq)
  then show ?thesis
    using take_bit_nat_less_exp [of 8 "unat x"] by simp
qed

lemma crc_table_entry: "crc_build_table ! unat (take_bit 8 (x :: u32)) = (crc_bit ^^ 8) (take_bit 8 x)"
  using unat_take_bit_8 [of x] by (simp add: crc_build_table_def)

lemma drop_bit_byte: "drop_bit 8 (byte_u32 c) = 0"
proof -
  have "unat (drop_bit 8 (byte_u32 c)) = of_char c div 256"
    by (simp add: drop_bit_eq_div unat_div unat_byte_u32)
  also have "\<dots> = 0" by (rule div_less) simp
  finally show ?thesis by (simp add: unat_eq_zero)
qed

lemma crc_byte_eq_serial: "crc_byte crc raw = crc_byte_serial crc raw"
  unfolding crc_byte_def crc_byte_serial_def and_255 crc_table_entry
  by (subst (2) crc_pow_split) (simp add: drop_bit_xor drop_bit_byte)

subsection \<open>Properties of the checksum\<close>

lemma crc32c_eq_serial: "crc32c data = crc32c_serial data"
proof -
  have "crc_byte = crc_byte_serial"
    by (rule ext, rule ext) (rule crc_byte_eq_serial)
  then show ?thesis
    by (simp add: crc32c_def crc32c_seeded_def crc32c_serial_def)
qed

lemma crc32c_seeded_append: "crc32c_seeded (crc32c_seeded s a) b = crc32c_seeded s (a @ b)"
  by (simp add: crc32c_seeded_def)

text \<open>
  C18: the table-driven checksum computes CRC-32C: byte by byte through the compile-time table it
  reaches the value of the bit-serial division by the Castagnoli polynomial, and feeding a text in two
  pieces through the seed gives the checksum of the whole.
\<close>

theorem crc32c_table_correct:
  "crc32c (a @ b) = crc32c_serial (a @ b) \<and> crc32c_seeded (crc32c a) b = crc32c (a @ b)"
  by (simp add: crc32c_eq_serial [symmetric] crc32c_seeded_append) (simp add: crc32c_def crc32c_seeded_append)

lemma funpow_numeral_inner: "(f ^^ numeral n) x = (f ^^ pred_numeral n) (f x)"
  by (simp add: numeral_eq_Suc funpow_swap1)

text \<open>The check value of the polynomial's catalogue entry.\<close>

lemma crc32c_check: "crc32c ''123456789'' = 0xE3069283"
  unfolding crc32c_eq_serial
  by (simp add: crc32c_serial_def crc_byte_serial_def byte_u32_def crc_bit_def funpow_numeral_inner)

end
