(* ===== verification/Core_Hash.thy ===== *)
theory Core_Hash
  imports Core_Crc "HOL-Library.While_Combinator"
begin

text \<open>
  SHA-256 (\<open>core/hash\<close>): the message schedule and the compression function, the streaming
  object with its 64-byte buffer, its padding loop, the one-shot entry points and the
  hexadecimal rendering.  The reference is the textbook definition, which pads the whole message and
  folds the compression function over its blocks; the streaming object is proved to implement
  it for every way of cutting the message into updates.
\<close>

text \<open>The round constants of \<open>kK\<close>, in decimal: \<open>0x428a2f98\<close> is the first, \<open>0xc67178f2\<close> the last.\<close>

definition sha_k :: "u32 list" where
  "sha_k = [
    1116352408, 1899447441, 3049323471, 3921009573, 961987163, 1508970993, 2453635748, 2870763221,
    3624381080, 310598401, 607225278, 1426881987, 1925078388, 2162078206, 2614888103, 3248222580,
    3835390401, 4022224774, 264347078, 604807628, 770255983, 1249150122, 1555081692, 1996064986,
    2554220882, 2821834349, 2952996808, 3210313671, 3336571891, 3584528711, 113926993, 338241895,
    666307205, 773529912, 1294757372, 1396182291, 1695183700, 1986661051, 2177026350, 2456956037,
    2730485921, 2820302411, 3259730800, 3345764771, 3516065817, 3600352804, 4094571909, 275423344,
    430227734, 506948616, 659060556, 883997877, 958139571, 1322822218, 1537002063, 1747873779,
    1955562222, 2024104815, 2227730452, 2361852424, 2428436474, 2756734187, 3204031479, 3329325298]"

definition rotr :: "u32 \<Rightarrow> nat \<Rightarrow> u32" where
  "rotr v n = drop_bit n v OR push_bit (32 - n) v"

definition sha_load_word :: "string \<Rightarrow> nat \<Rightarrow> u32" where
  "sha_load_word block i =
     push_bit 24 (byte_u32 (block ! (i * 4))) OR
     push_bit 16 (byte_u32 (block ! (i * 4 + 1))) OR
     push_bit 8 (byte_u32 (block ! (i * 4 + 2))) OR
     byte_u32 (block ! (i * 4 + 3))"

definition sha_extend :: "u32 list \<Rightarrow> nat \<Rightarrow> u32 list" where
  "sha_extend w i =
     (let s0 = rotr (w ! (i - 15)) 7 XOR rotr (w ! (i - 15)) 18 XOR drop_bit 3 (w ! (i - 15));
          s1 = rotr (w ! (i - 2)) 17 XOR rotr (w ! (i - 2)) 19 XOR drop_bit 10 (w ! (i - 2))
      in w @ [w ! (i - 16) + s0 + w ! (i - 7) + s1])"

definition sha_schedule :: "string \<Rightarrow> u32 list" where
  "sha_schedule block = foldl sha_extend (map (sha_load_word block) [0..<16]) [16..<64]"

type_synonym sha_vars = "u32 \<times> u32 \<times> u32 \<times> u32 \<times> u32 \<times> u32 \<times> u32 \<times> u32"

fun sha_round :: "u32 list \<Rightarrow> sha_vars \<Rightarrow> nat \<Rightarrow> sha_vars" where
  "sha_round w (a, b, c, d, e, f, g, h) i =
     (let s1 = rotr e 6 XOR rotr e 11 XOR rotr e 25;
          ch = (e AND f) XOR (NOT e AND g);
          temp1 = h + s1 + ch + sha_k ! i + w ! i;
          s0 = rotr a 2 XOR rotr a 13 XOR rotr a 22;
          maj = (a AND b) XOR (a AND c) XOR (b AND c);
          temp2 = s0 + maj
      in (temp1 + temp2, a, b, c, d + temp1, e, f, g))"

fun sha_add_vars :: "sha_vars \<Rightarrow> sha_vars \<Rightarrow> sha_vars" where
  "sha_add_vars (a0, b0, c0, d0, e0, f0, g0, h0) (a, b, c, d, e, f, g, h) =
     (a0 + a, b0 + b, c0 + c, d0 + d, e0 + e, f0 + f, g0 + g, h0 + h)"

definition sha_compress :: "sha_vars \<Rightarrow> string \<Rightarrow> sha_vars" where
  "sha_compress st block =
     (let w = sha_schedule block in sha_add_vars st (foldl (sha_round w) st [0..<64]))"

definition sha_initial :: sha_vars where
  "sha_initial =
     (0x6a09e667, 0xbb67ae85, 0x3c6ef372, 0xa54ff53a, 0x510e527f, 0x9b05688c, 0x1f83d9ab, 0x5be0cd19)"

record sha_stream =
  sha_state :: sha_vars
  sha_buffer :: string
  sha_buffered :: nat
  sha_total :: u64
  sha_finished :: bool

definition sha_new :: sha_stream where
  "sha_new = \<lparr>sha_state = sha_initial, sha_buffer = replicate 64 (CHR 0x00), sha_buffered = 0,
              sha_total = 0, sha_finished = False\<rparr>"

text \<open>\<open>std::memcpy\<close> into the buffer at an offset.\<close>

definition mem_copy :: "string \<Rightarrow> nat \<Rightarrow> string \<Rightarrow> string" where
  "mem_copy buf off src = take off buf @ src @ drop (off + length src) buf"

function sha_whole_blocks :: "sha_vars \<Rightarrow> nat \<Rightarrow> string \<Rightarrow> sha_vars \<times> nat" where
  "sha_whole_blocks st offset data =
     (if offset + 64 \<le> length data
      then sha_whole_blocks (sha_compress st (substr data offset 64)) (offset + 64) data
      else (st, offset))"
  by auto
termination by (relation "measure (\<lambda>(st, offset, data). length data - offset)") auto

declare sha_whole_blocks.simps [simp del]

definition sha_fill :: "sha_stream \<Rightarrow> string \<Rightarrow> sha_stream \<times> nat" where
  "sha_fill s data =
     (if sha_buffered s > 0
      then let need = 64 - sha_buffered s;
               n = (if length data < need then length data else need);
               buf = mem_copy (sha_buffer s) (sha_buffered s) (take n data);
               filled = sha_buffered s + n
           in (if filled = 64
               then s\<lparr>sha_state := sha_compress (sha_state s) buf, sha_buffer := buf, sha_buffered := 0\<rparr>
               else s\<lparr>sha_buffer := buf, sha_buffered := filled\<rparr>, n)
      else (s, 0))"

definition sha_update :: "sha_stream \<Rightarrow> string \<Rightarrow> sha_stream" where
  "sha_update s data =
     (if sha_finished s then s
      else let s1 = s\<lparr>sha_total := sha_total s + word_of_nat (length data)\<rparr>;
               (s2, offset) = sha_fill s1 data;
               (st, offset) = sha_whole_blocks (sha_state s2) offset data;
               s3 = s2\<lparr>sha_state := st\<rparr>
           in if offset < length data
              then s3\<lparr>sha_buffer := mem_copy (sha_buffer s3) 0 (drop offset data),
                       sha_buffered := length data - offset\<rparr>
              else s3)"

definition sha_zero_fill :: "sha_stream \<Rightarrow> sha_stream option" where
  "sha_zero_fill s = while_option (\<lambda>s. sha_buffered s \<noteq> 56) (\<lambda>s. sha_update s [CHR 0x00]) s"

definition u8_char :: "u64 \<Rightarrow> char" where
  "u8_char w = char_of (unat (w AND 0xFF))"

definition sha_length_bytes :: "u64 \<Rightarrow> string" where
  "sha_length_bytes bit_length = map (\<lambda>i. u8_char (drop_bit ((7 - i) * 8) bit_length)) [0..<8]"

fun sha_output :: "sha_vars \<Rightarrow> u8 list" where
  "sha_output (a, b, c, d, e, f, g, h) =
     concat (map (\<lambda>v :: u32. [ucast (drop_bit 24 v AND 0xFF), ucast (drop_bit 16 v AND 0xFF),
                               ucast (drop_bit 8 v AND 0xFF), ucast (v AND 0xFF)])
       [a, b, c, d, e, f, g, h])"

definition sha_finish :: "sha_stream \<Rightarrow> (sha_stream \<times> u8 list) option" where
  "sha_finish s =
     (if sha_finished s then Some (s, sha_output (sha_state s))
      else let bit_length = sha_total s * 8
           in map_option
                (\<lambda>z. let t = sha_update z (sha_length_bytes bit_length)
                     in (t\<lparr>sha_finished := True\<rparr>, sha_output (sha_state t)))
                (sha_zero_fill (sha_update s [CHR 0x80])))"

definition sha256 :: "string \<Rightarrow> u8 list" where
  "sha256 data = snd (the (sha_finish (sha_update sha_new data)))"

definition sha256_pair :: "string \<Rightarrow> string \<Rightarrow> u8 list" where
  "sha256_pair a b = snd (the (sha_finish (sha_update (sha_update sha_new a) b)))"

subsection \<open>Hexadecimal\<close>

definition hex_digits :: string where
  "hex_digits = ''0123456789abcdef''"

definition hex_byte :: "u8 \<Rightarrow> string" where
  "hex_byte b = [hex_digits ! unat (drop_bit 4 b AND 0x0F), hex_digits ! unat (b AND 0x0F)]"

definition to_hex :: "u8 list \<Rightarrow> string" where
  "to_hex digest = concat (map hex_byte digest)"

definition hex_nibble :: "char \<Rightarrow> int" where
  "hex_nibble c =
     (if CHR ''0'' \<le> c \<and> c \<le> CHR ''9'' then of_char c - 48
      else if CHR ''a'' \<le> c \<and> c \<le> CHR ''f'' then of_char c - 97 + 10
      else if CHR ''A'' \<le> c \<and> c \<le> CHR ''F'' then of_char c - 65 + 10
      else - 1)"

fun from_hex_loop :: "string \<Rightarrow> u8 list result" where
  "from_hex_loop (h # l # rest) =
     (if hex_nibble h < 0 \<or> hex_nibble l < 0
      then fail EC_invalid_argument ''digest hex contains a non-hex character'' ''''
      else fum_try (from_hex_loop rest)
             (\<lambda>bs. Inr (word_of_int (push_bit 4 (hex_nibble h) OR hex_nibble l) # bs)))"
| "from_hex_loop _ = Inr []"

definition from_hex :: "string \<Rightarrow> u8 list result" where
  "from_hex hex =
     (if length hex \<noteq> 64
      then fail EC_invalid_argument ''digest hex length must be 64'' (dec_digits (length hex))
      else from_hex_loop hex)"

definition sha256_hex :: "string \<Rightarrow> string" where
  "sha256_hex data = to_hex (sha256 data)"

definition constant_time_equal :: "string \<Rightarrow> string \<Rightarrow> bool" where
  "constant_time_equal a b =
     (if length a \<noteq> length b then False
      else foldl (\<lambda>diff (x, y). diff OR (of_char x XOR of_char y)) (0 :: u8) (zip a b) = 0)"

subsection \<open>The textbook definition\<close>

function sha_absorb :: "sha_vars \<Rightarrow> string \<Rightarrow> sha_vars" where
  "sha_absorb st m = (if length m < 64 then st else sha_absorb (sha_compress st (take 64 m)) (drop 64 m))"
  by auto
termination by (relation "measure (\<lambda>(st, m). length m)") auto

declare sha_absorb.simps [simp del]

definition sha_padded :: "string \<Rightarrow> string" where
  "sha_padded m =
     m @ [CHR 0x80] @ replicate ((119 - length m mod 64) mod 64) (CHR 0x00) @
     sha_length_bytes (word_of_nat (length m) * 8)"

definition sha_reference :: "string \<Rightarrow> u8 list" where
  "sha_reference m = sha_output (sha_absorb sha_initial (sha_padded m))"

definition sha_rest :: "string \<Rightarrow> string" where
  "sha_rest m = drop (64 * (length m div 64)) m"

lemma sha_absorb_short: "length m < 64 \<Longrightarrow> sha_absorb st m = st"
  by (simp add: sha_absorb.simps)

lemma sha_absorb_long:
  "64 \<le> length m \<Longrightarrow> sha_absorb st m = sha_absorb (sha_compress st (take 64 m)) (drop 64 m)"
  by (subst sha_absorb.simps) simp

lemma sha_rest_short: "length m < 64 \<Longrightarrow> sha_rest m = m"
  by (simp add: sha_rest_def)

lemma sha_rest_long: "64 \<le> length m \<Longrightarrow> sha_rest m = sha_rest (drop 64 m)"
proof -
  assume "64 \<le> length m"
  then have "length m div 64 = Suc ((length m - 64) div 64)"
    by (metis Suc_eq_plus1 add.commute div_add_self2 le_add_diff_inverse zero_neq_numeral)
  then show ?thesis by (simp add: sha_rest_def add.commute)
qed

lemma length_sha_rest: "length (sha_rest m) = length m mod 64"
  by (simp add: sha_rest_def minus_mult_div_eq_mod)

lemma sha_absorb_append: "sha_absorb st (m @ d) = sha_absorb (sha_absorb st m) (sha_rest m @ d)"
proof (induction st m rule: sha_absorb.induct)
  case (1 st m)
  show ?case
  proof (cases "length m < 64")
    case True
    then show ?thesis by (simp add: sha_absorb_short sha_rest_short)
  next
    case False
    then have "sha_absorb st (m @ d) = sha_absorb (sha_compress st (take 64 m)) (drop 64 m @ d)"
      by (subst sha_absorb_long) simp_all
    also have "\<dots> = sha_absorb (sha_absorb st m) (sha_rest m @ d)"
      using 1 [OF False] False by (simp add: sha_absorb_long [of m] sha_rest_long [of m])
    finally show ?thesis .
  qed
qed

lemma sha_rest_append: "sha_rest (m @ d) = sha_rest (sha_rest m @ d)"
proof (induction m rule: length_induct)
  case (1 m)
  show ?case
  proof (cases "length m < 64")
    case True
    then show ?thesis by (simp add: sha_rest_short)
  next
    case False
    have "sha_rest (m @ d) = sha_rest (drop 64 m @ d)"
      using False by (subst sha_rest_long) simp_all
    also have "\<dots> = sha_rest (sha_rest (drop 64 m) @ d)"
      using 1 False by simp
    also have "\<dots> = sha_rest (sha_rest m @ d)"
      using False by (simp add: sha_rest_long [of m])
    finally show ?thesis .
  qed
qed

subsection \<open>The stream implements it\<close>

text \<open>A stream that has taken the message \<open>m\<close>: whole blocks compressed, the rest buffered.\<close>

definition sha_holds :: "sha_stream \<Rightarrow> string \<Rightarrow> bool" where
  "sha_holds s m \<longleftrightarrow>
     sha_state s = sha_absorb sha_initial m \<and> sha_buffered s = length m mod 64 \<and>
     take (sha_buffered s) (sha_buffer s) = sha_rest m \<and> length (sha_buffer s) = 64 \<and>
     sha_total s = word_of_nat (length m) \<and> \<not> sha_finished s"

lemma length_mem_copy:
  "off + length src \<le> length buf \<Longrightarrow> length (mem_copy buf off src) = length buf"
  by (simp add: mem_copy_def)

lemma take_mem_copy:
  "off + length src \<le> length buf \<Longrightarrow> take (off + length src) (mem_copy buf off src) = take off buf @ src"
  by (simp add: mem_copy_def)

lemma sha_whole_blocks_eq:
  assumes "offset \<le> length data"
  shows "\<exists>off. sha_whole_blocks st offset data = (sha_absorb st (drop offset data), off) \<and>
    off \<le> length data \<and> drop off data = sha_rest (drop offset data)"
  using assms
proof (induction st offset data rule: sha_whole_blocks.induct)
  case (1 st offset data)
  show ?case
  proof (cases "offset + 64 \<le> length data")
    case True
    have long: "64 \<le> length (drop offset data)" using True by simp
    have twice: "drop 64 (drop offset data) = drop (offset + 64) data"
      by (simp add: add.commute)
    have step: "sha_whole_blocks st offset data =
        sha_whole_blocks (sha_compress st (take 64 (drop offset data))) (offset + 64) data"
      using True by (subst sha_whole_blocks.simps) (simp add: substr_def)
    show ?thesis
      unfolding step sha_absorb_long [OF long] sha_rest_long [OF long] twice
      using "1.IH" [OF True True] by (simp only: substr_def)
  next
    case False
    then have short: "length (drop offset data) < 64" by auto
    have "sha_whole_blocks st offset data = (st, offset)"
      using False by (subst sha_whole_blocks.simps) simp
    then show ?thesis
      unfolding sha_absorb_short [OF short] sha_rest_short [OF short]
      using "1.prems" by simp
  qed
qed

lemma sha_whole_blocksE:
  assumes "offset \<le> length data"
  obtains off where "sha_whole_blocks st offset data = (sha_absorb st (drop offset data), off)"
    "off \<le> length data" "drop off data = sha_rest (drop offset data)"
    "length data - off = length (drop offset data) mod 64"
proof -
  from sha_whole_blocks_eq [OF assms, of st] obtain off where
    off: "sha_whole_blocks st offset data = (sha_absorb st (drop offset data), off)"
      "off \<le> length data" "drop off data = sha_rest (drop offset data)" by blast
  have "length data - off = length (drop offset data) mod 64"
    by (metis length_drop length_sha_rest off(3))
  with off show thesis by (rule that)
qed

lemma sha_fill_spec:
  assumes b: "sha_buffered s < 64" and len: "length (sha_buffer s) = 64"
    and r: "r = take (sha_buffered s) (sha_buffer s)"
  obtains s2 off where "sha_fill s d = (s2, off)" "off \<le> length d" "length (sha_buffer s2) = 64"
    "sha_total s2 = sha_total s" "sha_finished s2 = sha_finished s"
    "(sha_buffered s2 = 0 \<and> sha_absorb (sha_state s) (r @ d) = sha_absorb (sha_state s2) (drop off d) \<and>
        sha_rest (r @ d) = sha_rest (drop off d)) \<or>
     (off = length d \<and> sha_state s2 = sha_state s \<and> length (r @ d) < 64 \<and>
        sha_buffered s2 = length (r @ d) \<and> take (length (r @ d)) (sha_buffer s2) = r @ d)"
proof (cases "sha_buffered s = 0")
  case True
  show thesis
    by (rule that [of s 0]) (use True len r in \<open>simp_all add: sha_fill_def\<close>)
next
  case False
  have lr: "length r = sha_buffered s" using b len r by simp
  define n where "n = min (length d) (64 - sha_buffered s)"
  define buf where "buf = mem_copy (sha_buffer s) (sha_buffered s) (take n d)"
  have n: "(if length d < 64 - sha_buffered s then length d else 64 - sha_buffered s) = n"
    by (simp add: n_def)
  have fits: "sha_buffered s + length (take n d) \<le> length (sha_buffer s)"
    using b len by (simp add: n_def)
  have lbuf: "length buf = 64"
    unfolding buf_def length_mem_copy [OF fits] by (rule len)
  have tn: "length (take n d) = n" by (simp add: n_def)
  have tbuf: "take (sha_buffered s + n) buf = r @ take n d"
    using take_mem_copy [OF fits] by (simp only: buf_def r tn)
  show thesis
  proof (cases "sha_buffered s + n = 64")
    case True
    have whole: "buf = r @ take n d" using tbuf True lbuf by simp
    have nd: "n \<le> length d" by (simp add: n_def)
    have long: "64 \<le> length (r @ d)" using True nd lr by simp
    have "64 - sha_buffered s = n" using True by simp
    then have split: "take 64 (r @ d) = buf" "drop 64 (r @ d) = drop n d"
      using lr b by (simp_all add: whole)
    have fill: "sha_fill s d =
        (s\<lparr>sha_state := sha_compress (sha_state s) buf, sha_buffer := buf, sha_buffered := 0\<rparr>, n)"
      using False True by (simp add: sha_fill_def Let_def n buf_def)
    show thesis
      by (rule that [OF fill])
        (use nd lbuf sha_absorb_long [OF long, of "sha_state s"] sha_rest_long [OF long] split in simp_all)
  next
    case less: False
    then have nd: "n = length d" using b by (auto simp: n_def)
    have fill: "sha_fill s d = (s\<lparr>sha_buffer := buf, sha_buffered := sha_buffered s + n\<rparr>, n)"
      using False less by (simp add: sha_fill_def Let_def n buf_def)
    have lt: "sha_buffered s + n < 64" using less fits len tn by simp
    show thesis
      by (rule that [OF fill]) (use nd lt lr lbuf tbuf in simp_all)
  qed
qed

lemma sha_update_holds:
  assumes h: "sha_holds s m"
  shows "sha_holds (sha_update s d) (m @ d)"
proof -
  define s1 where "s1 = s\<lparr>sha_total := sha_total s + word_of_nat (length d)\<rparr>"
  have b: "sha_buffered s1 < 64" and len: "length (sha_buffer s1) = 64"
    and r: "sha_rest m = take (sha_buffered s1) (sha_buffer s1)"
    using h by (auto simp: s1_def sha_holds_def)
  obtain s2 off where fill: "sha_fill s1 d = (s2, off)" "off \<le> length d"
      "length (sha_buffer s2) = 64" "sha_total s2 = sha_total s1" "sha_finished s2 = sha_finished s1"
    and cases: "(sha_buffered s2 = 0 \<and>
        sha_absorb (sha_state s1) (sha_rest m @ d) = sha_absorb (sha_state s2) (drop off d) \<and>
        sha_rest (sha_rest m @ d) = sha_rest (drop off d)) \<or>
     (off = length d \<and> sha_state s2 = sha_state s1 \<and> length (sha_rest m @ d) < 64 \<and>
        sha_buffered s2 = length (sha_rest m @ d) \<and>
        take (length (sha_rest m @ d)) (sha_buffer s2) = sha_rest m @ d)"
    by (rule sha_fill_spec [OF b len r])
  obtain off' where whole: "sha_whole_blocks (sha_state s2) off d = (sha_absorb (sha_state s2) (drop off d), off')"
      "off' \<le> length d" "drop off' d = sha_rest (drop off d)"
      "length d - off' = length (drop off d) mod 64"
    by (rule sha_whole_blocksE [OF fill(2)])
  define s3 where "s3 = s2\<lparr>sha_state := sha_absorb (sha_state s2) (drop off d)\<rparr>"
  have nf0: "\<not> sha_finished s" using h by (simp add: sha_holds_def)
  have upd: "sha_update s d =
      (if off' < length d
       then s3\<lparr>sha_buffer := mem_copy (sha_buffer s3) 0 (drop off' d), sha_buffered := length d - off'\<rparr>
       else s3)"
    using nf0 by (simp add: sha_update_def fill(1) whole(1) Let_def s3_def flip: s1_def)
  have st: "sha_state s1 = sha_absorb sha_initial m" using h by (simp add: s1_def sha_holds_def)
  have total: "sha_total s3 = word_of_nat (length (m @ d))" and nf: "\<not> sha_finished s3"
    using h fill(4,5) by (simp_all add: s3_def s1_def sha_holds_def)
  from cases show ?thesis
  proof (elim disjE conjE)
    assume zero: "sha_buffered s2 = 0"
      and ab: "sha_absorb (sha_state s1) (sha_rest m @ d) = sha_absorb (sha_state s2) (drop off d)"
      and re: "sha_rest (sha_rest m @ d) = sha_rest (drop off d)"
    have state: "sha_state s3 = sha_absorb sha_initial (m @ d)"
      using ab by (simp add: s3_def sha_absorb_append [of _ m] st)
    have rest: "sha_rest (m @ d) = drop off' d"
      by (simp only: sha_rest_append [of m] re whole(3))
    then have lr: "length (m @ d) mod 64 = length d - off'"
      by (metis length_drop length_sha_rest)
    show ?thesis
    proof (cases "off' < length d")
      case True
      have fit: "0 + length (drop off' d) \<le> length (sha_buffer s3)"
        using fill(3) whole(4) by (simp add: s3_def less_imp_le)
      show ?thesis
        using True state rest lr total nf fill(3) length_mem_copy [OF fit] take_mem_copy [OF fit]
        by (simp add: upd sha_holds_def s3_def)
    next
      case False
      then show ?thesis
        using state rest lr total nf fill(3) zero by (simp add: upd sha_holds_def s3_def)
    qed
  next
    assume full: "off = length d" and same: "sha_state s2 = sha_state s1"
      and lt: "length (sha_rest m @ d) < 64"
      and buffered: "sha_buffered s2 = length (sha_rest m @ d)"
      and buffer: "take (length (sha_rest m @ d)) (sha_buffer s2) = sha_rest m @ d"
    have "\<not> off' < length d" using whole(4) full by simp
    moreover have "sha_rest (m @ d) = sha_rest m @ d"
      unfolding sha_rest_append [of m] by (rule sha_rest_short [OF lt])
    moreover have "length (m @ d) mod 64 = length (sha_rest m @ d)"
      by (metis calculation(2) length_sha_rest)
    moreover have "sha_state s3 = sha_absorb sha_initial (m @ d)"
      unfolding sha_absorb_append [of _ m] st [symmetric] sha_absorb_short [OF lt]
      using full same by (simp add: s3_def sha_absorb_short)
    ultimately show ?thesis
      using total nf fill(3) buffered buffer by (simp add: upd sha_holds_def s3_def)
  qed
qed

lemma sha_new_holds: "sha_holds sha_new []"
  by (simp add: sha_holds_def sha_new_def sha_absorb_short sha_rest_short)

lemma sha_pad_step:
  assumes "x < 64" and "Suc k = (120 - x) mod 64"
  shows "k = (120 - (if Suc x = 64 then 0 else Suc x)) mod 64"
proof (cases "x \<le> 56")
  case True
  then have "120 - x = 64 + (56 - x)" by simp
  then have "(120 - x) mod 64 = (56 - x) mod 64" by (simp only: mod_add_self1)
  then have "x < 56" "Suc k = 56 - x" using assms True by (auto simp: le_eq_less_or_eq)
  moreover have "120 - Suc x = 64 + (55 - x)" using \<open>x < 56\<close> by simp
  then have "(120 - Suc x) mod 64 = (55 - x) mod 64" by (simp only: mod_add_self1)
  ultimately show ?thesis by simp
next
  case False
  with assms show ?thesis by auto
qed

lemma sha_pad_zero:
  assumes "x < (64 :: nat)" and "64 dvd 120 - x"
  shows "x = 56"
proof -
  from assms(2) obtain q where q: "120 - x = 64 * q" by (rule dvdE)
  with assms(1) have "q = 1" by simp
  with q show ?thesis by simp
qed

text \<open>The padding loop ends: every zero byte moves the fill level one step towards 56.\<close>

lemma sha_zero_fill_holds:
  assumes "sha_holds s m"
  shows "\<exists>t. sha_zero_fill s = Some t \<and>
    sha_holds t (m @ replicate ((120 - length m mod 64) mod 64) (CHR 0x00))"
  using assms
proof (induction "(120 - length m mod 64) mod 64" arbitrary: s m)
  case 0
  have "64 dvd 120 - length m mod 64"
    unfolding dvd_eq_mod_eq_0 by (rule "0.hyps" [symmetric])
  then have "length m mod 64 = 56" by (intro sha_pad_zero) simp_all
  then have "sha_buffered s = 56" using "0.prems" by (simp add: sha_holds_def)
  then show ?case
    using "0.hyps" "0.prems" unfolding sha_zero_fill_def by (subst while_option_unfold) simp
next
  case (Suc k)
  have ne: "length m mod 64 \<noteq> 56" using Suc.hyps by auto
  let ?s = "sha_update s [CHR 0x00]"
  let ?m = "m @ [CHR 0x00]"
  have h: "sha_holds ?s ?m" by (rule sha_update_holds [OF Suc.prems])
  have k: "k = (120 - length ?m mod 64) mod 64"
    using sha_pad_step [OF _ Suc.hyps(2)] by (simp add: mod_Suc)
  have "sha_buffered s \<noteq> 56" using ne Suc.prems by (simp add: sha_holds_def)
  then have step: "sha_zero_fill s = sha_zero_fill ?s"
    unfolding sha_zero_fill_def by (subst while_option_unfold) simp
  have zeros: "?m @ replicate k (CHR 0x00) = m @ replicate (Suc k) (CHR 0x00)" by simp
  have "\<exists>t. sha_zero_fill ?s = Some t \<and> sha_holds t (?m @ replicate k (CHR 0x00))"
    using Suc.hyps(1) [OF k h] by (simp only: k [symmetric])
  then show ?case
    unfolding step zeros Suc.hyps(2) .
qed

lemma length_sha_length_bytes: "length (sha_length_bytes w) = 8"
  by (simp add: sha_length_bytes_def)

lemma sha_pad_length: "((120 - length (m @ [c]) mod 64) mod 64) = (119 - length m mod 64) mod 64"
  by (simp add: mod_Suc)

lemma sha_finish_holds:
  assumes "sha_holds s m"
  shows "\<exists>t. sha_finish s = Some (t, sha_reference m)"
proof -
  let ?m = "m @ [CHR 0x80]"
  have nf: "\<not> sha_finished s" and total: "sha_total s = word_of_nat (length m)"
    using assms by (simp_all add: sha_holds_def)
  have "sha_holds (sha_update s [CHR 0x80]) ?m" by (rule sha_update_holds [OF assms])
  from sha_zero_fill_holds [OF this] obtain z where
    z: "sha_zero_fill (sha_update s [CHR 0x80]) = Some z"
      "sha_holds z (?m @ replicate ((119 - length m mod 64) mod 64) (CHR 0x00))"
    unfolding sha_pad_length by blast
  let ?t = "sha_update z (sha_length_bytes (sha_total s * 8))"
  have "sha_holds ?t ((?m @ replicate ((119 - length m mod 64) mod 64) (CHR 0x00)) @
      sha_length_bytes (sha_total s * 8))"
    by (rule sha_update_holds [OF z(2)])
  then have "sha_state ?t = sha_absorb sha_initial (sha_padded m)"
    by (simp add: sha_holds_def sha_padded_def total)
  then show ?thesis
    using nf z(1) by (simp add: sha_finish_def sha_reference_def Let_def)
qed

fun sha_feed :: "sha_stream \<Rightarrow> string list \<Rightarrow> sha_stream" where
  "sha_feed s [] = s"
| "sha_feed s (d # ds) = sha_feed (sha_update s d) ds"

lemma sha_feed_holds: "sha_holds s m \<Longrightarrow> sha_holds (sha_feed s ds) (m @ concat ds)"
proof (induction ds arbitrary: s m)
  case Nil
  then show ?case by simp
next
  case (Cons d ds)
  from Cons.IH [OF sha_update_holds [OF Cons.prems, of d]] show ?case by simp
qed

text \<open>
  C15: however the message is cut into updates, the stream's \<open>finish\<close> returns, and returns the
  digest the SHA-256 definition gives for the whole message: padding included, the
  streaming object of \<open>core/hash\<close> is a refinement of the one-shot function.
\<close>

theorem sha_stream_refines:
  "\<exists>t. sha_finish (sha_feed sha_new chunks) = Some (t, sha_reference (concat chunks))"
  using sha_finish_holds [OF sha_feed_holds [OF sha_new_holds]] by simp

lemma sha256_eq_reference: "sha256 m = sha_reference m"
proof -
  have "sha_holds (sha_update sha_new m) m"
    using sha_update_holds [OF sha_new_holds, of m] by simp
  from sha_finish_holds [OF this] show ?thesis by (auto simp: sha256_def)
qed

lemma sha256_pair_eq: "sha256_pair a b = sha256 (a @ b)"
proof -
  have "sha_holds (sha_update (sha_update sha_new a) b) (a @ b)"
    using sha_update_holds [OF sha_update_holds [OF sha_new_holds, of a], of b] by simp
  from sha_finish_holds [OF this] show ?thesis
    by (auto simp: sha256_pair_def sha256_eq_reference)
qed

subsection \<open>Hexadecimal round trip\<close>

lemma length_sha256: "length (sha256 m) = 32"
  by (cases "sha_absorb sha_initial (sha_padded m)" rule: sha_output.cases)
    (simp add: sha256_eq_reference sha_reference_def)

lemma length_to_hex: "length (to_hex bs) = 2 * length bs"
  by (induction bs) (simp_all add: to_hex_def hex_byte_def)

lemma length_sha256_hex: "length (sha256_hex m) = 64"
  by (simp add: sha256_hex_def length_to_hex length_sha256)

lemma sha256_hex_nonempty [simp]: "sha256_hex m \<noteq> []" "[] \<noteq> sha256_hex m"
  using length_sha256_hex [of m] by auto

lemma hex_nibble_digit: "n < 16 \<Longrightarrow> hex_nibble (hex_digits ! n) = int n"
proof -
  have "list_all (\<lambda>n. hex_nibble (hex_digits ! n) = int n) [0..<16]" by code_simp
  then show "n < 16 \<Longrightarrow> hex_nibble (hex_digits ! n) = int n" by (simp add: list_all_iff)
qed

lemma unat_nibble: "unat ((b :: u8) AND 0x0F) < 16"
proof -
  have "(0x0F :: u8) = mask 4" by (simp add: mask_eq_exp_minus_1)
  then have "b AND 0x0F = take_bit 4 b" by (simp only: take_bit_eq_mask)
  then have "unat (b AND 0x0F) = take_bit 4 (unat b)" by (simp only: unsigned_take_bit_eq)
  then show ?thesis using take_bit_nat_less_exp [of 4 "unat b"] by simp
qed

lemma join_nibbles:
  "word_of_int (push_bit 4 (int (unat (drop_bit 4 b AND 0x0F))) OR int (unat (b AND 0x0F))) = (b :: u8)"
proof -
  have m: "(0x0F :: u8) = mask 4" by (simp add: mask_eq_exp_minus_1)
  have len: "LENGTH(8) = 8" by simp
  show ?thesis
  proof (rule bit_eqI, unfold m)
    fix n
    assume n: "possible_bit TYPE(u8) n"
    then have n8: "n < 8" by simp
    show "bit (word_of_int (push_bit 4 (int (unat (drop_bit 4 b AND mask 4))) OR
          int (unat (b AND mask 4))) :: u8) n = bit b n"
    proof (cases "4 \<le> n")
      case True
      then have "4 + (n - 4) = n" "n - 4 < 4" using n8 by simp_all
      then show ?thesis using True n8
        by (simp add: bit_word_of_int_iff bit_or_iff bit_push_bit_iff bit_uint_iff
            bit_and_iff bit_drop_bit_eq bit_mask_iff)
    next
      case False
      then show ?thesis using n8
        by (simp add: bit_word_of_int_iff bit_or_iff bit_push_bit_iff bit_uint_iff
            bit_and_iff bit_drop_bit_eq bit_mask_iff)
    qed
  qed
qed

lemma from_hex_loop_to_hex: "from_hex_loop (to_hex bs) = Inr bs"
proof (induction bs)
  case Nil
  then show ?case by (simp add: to_hex_def)
next
  case (Cons b bs)
  have "to_hex (b # bs) = hex_digits ! unat (drop_bit 4 b AND 0x0F) #
      hex_digits ! unat (b AND 0x0F) # to_hex bs"
    by (simp add: to_hex_def hex_byte_def)
  then show ?case
    using Cons by (simp only: from_hex_loop.simps hex_nibble_digit [OF unat_nibble] join_nibbles
        fum_try.simps) simp
qed

text \<open>
  A rendered digest reads back as itself: every 32-byte digest survives the
  hexadecimal rendering and the parser's length and character checks.
\<close>

theorem from_hex_to_hex: "length bs = 32 \<Longrightarrow> from_hex (to_hex bs) = Inr bs"
  by (simp add: from_hex_def length_to_hex from_hex_loop_to_hex)

lemma from_hex_to_hex_witness: "from_hex (to_hex (replicate 32 0xAB)) = Inr (replicate 32 0xAB)"
  by (rule from_hex_to_hex) simp

lemma u8_xor_zero: "(a XOR b = 0) \<longleftrightarrow> a = (b :: u8)"
  by (metis bit.xor_cancel_right xor.comm_neutral xor.left_commute xor_self_eq)

lemma u8_or_zero: "(a OR b = 0) \<longleftrightarrow> a = 0 \<and> b = (0 :: u8)"
  by (auto simp: bit_eq_iff bit_or_iff)

lemma constant_time_equal_fold:
  "length a = length b \<Longrightarrow>
   foldl (\<lambda>diff (x, y). diff OR (of_char x XOR of_char y)) (d :: u8) (zip a b) = 0 \<longleftrightarrow> d = 0 \<and> a = b"
proof (induction a b arbitrary: d rule: list_induct2)
  case Nil
  then show ?case by simp
next
  case (Cons x xs y ys)
  have "(of_char x :: u8) = of_char y \<longleftrightarrow> x = y"
  proof
    assume "(of_char x :: u8) = of_char y"
    then have "unat (of_char x :: u8) = unat (of_char y :: u8)" by simp
    moreover have "unat (of_char c :: u8) = of_char c" for c
    proof -
      have "(of_char c :: nat) < 2 ^ LENGTH(8)" by simp
      then have "unat (word_of_nat (of_char c) :: u8) = of_char c"
        by (simp add: unat_of_nat take_bit_nat_eq_self)
      then show ?thesis by (simp only: of_nat_of_char)
    qed
    ultimately show "x = y" by simp
  qed simp
  then have "d OR (of_char x XOR of_char y) = 0 \<longleftrightarrow> d = 0 \<and> x = y"
    using u8_xor_zero by (simp add: u8_or_zero)
  with Cons.IH show ?case by auto
qed

lemma constant_time_equal_iff: "constant_time_equal a b \<longleftrightarrow> a = b"
  by (auto simp: constant_time_equal_def constant_time_equal_fold)

end
