(* ===== verification/Core_Ids.thy ===== *)
theory Core_Ids
  imports Core_Hash
begin

text \<open>
  Identities (\<open>core/ids\<close>): the strongly typed identifiers are byte strings checked by one
  validator, digests are the hexadecimal text of a SHA-256 value, counters are 64-bit numbers
  that refuse to wrap, and the fence token names who may change a campaign.  A type synonym
  stands for each identifier tag: the tag exists at compile time only, and \<open>make_X\<close>, which
  trusts its argument, is the identity.
\<close>

type_synonym component_id = string
type_synonym artifact_id = string
type_synonym build_id = string
type_synonym target_id = string
type_synonym campaign_id = string
type_synonym stage_id = string
type_synonym attempt_id = string
type_synonym authority_id = string
type_synonym policy_id = string
type_synonym evidence_id = string
type_synonym decision_id = string
type_synonym step_id = string
type_synonym record_id = string
type_synonym adapter_id = string
type_synonym signer_id = string
type_synonym digest = string

definition max_identifier_length :: nat where
  "max_identifier_length = 128"

definition identifier_char :: "char \<Rightarrow> bool" where
  "identifier_char c \<longleftrightarrow>
     (CHR ''a'' \<le> c \<and> c \<le> CHR ''z'') \<or> (CHR ''A'' \<le> c \<and> c \<le> CHR ''Z'') \<or>
     (CHR ''0'' \<le> c \<and> c \<le> CHR ''9'') \<or>
     c = CHR ''.'' \<or> c = CHR ''-'' \<or> c = CHR ''_'' \<or> c = CHR '':'' \<or> c = CHR ''/'' \<or> c = CHR ''@''"

fun identifier_chars :: "string \<Rightarrow> string \<Rightarrow> status" where
  "identifier_chars what [] = ok_status"
| "identifier_chars what (c # cs) =
     (if \<not> identifier_char c
      then fail EC_invalid_argument (what @ '' contains a character outside the permitted set'') [c]
      else identifier_chars what cs)"

definition validate_identifier :: "string \<Rightarrow> string \<Rightarrow> status" where
  "validate_identifier t what =
     (if t = [] then fail EC_invalid_argument (what @ '' must not be empty'') ''''
      else if length t > max_identifier_length
      then fail EC_invalid_argument (what @ '' is longer than the permitted bound'')
             (dec_digits (length t) @ '' > '' @ dec_digits max_identifier_length)
      else identifier_chars what t)"

definition parse_id :: "string \<Rightarrow> string result" where
  "parse_id t = fum_try (validate_identifier t ''identifier'') (\<lambda>_. Inr t)"

definition digest_parse :: "string \<Rightarrow> digest result" where
  "digest_parse hex = (if hex = [] then Inr [] else fum_try (from_hex hex) (\<lambda>_. Inr hex))"

definition digest_of_text :: "string \<Rightarrow> digest" where
  "digest_of_text payload = sha256_hex payload"

definition digest_combine :: "digest \<Rightarrow> digest \<Rightarrow> digest" where
  "digest_combine a b = sha256_hex (a @ '':'' @ b)"

definition counter_try_next :: "u64 \<Rightarrow> u64 result" where
  "counter_try_next v =
     (if v = u64_max then fail EC_resource_exhausted ''counter exhausted'' '''' else Inr (v + 1))"

record fence_token =
  fen_campaign :: campaign_id
  fen_generation :: u64
  fen_incarnation :: u64
  fen_attempt :: attempt_id
  fen_authority :: authority_id

definition fence_to_string :: "fence_token \<Rightarrow> string" where
  "fence_to_string tok =
     ''campaign='' @ (if fen_campaign tok = [] then ''<none>'' else fen_campaign tok) @
     '' generation='' @ u64_to_string (fen_generation tok) @
     '' incarnation='' @ u64_to_string (fen_incarnation tok) @
     '' attempt='' @ (if fen_attempt tok = [] then ''<none>'' else fen_attempt tok) @
     '' authority='' @ (if fen_authority tok = [] then ''<none>'' else fen_authority tok)"

text \<open>The well-formed identifier, as a predicate.\<close>

definition valid_id :: "string \<Rightarrow> bool" where
  "valid_id t \<longleftrightarrow> t \<noteq> [] \<and> length t \<le> max_identifier_length \<and> list_all identifier_char t"

lemma identifier_chars_ok: "identifier_chars what t = Inr u \<longleftrightarrow> list_all identifier_char t"
  by (induction t) auto

lemma validate_identifier_iff: "validate_identifier t what = Inr u \<longleftrightarrow> valid_id t"
  by (auto simp: validate_identifier_def valid_id_def identifier_chars_ok)

lemma parse_id_iff: "parse_id t = Inr i \<longleftrightarrow> i = t \<and> valid_id t"
  by (auto simp: parse_id_def fum_try_Inr_iff validate_identifier_iff)

lemma parse_id_valid [simp, codec_simps]: "valid_id t \<Longrightarrow> parse_id t = Inr t"
  by (simp add: parse_id_iff)

lemma valid_id_nonempty: "valid_id t \<Longrightarrow> t \<noteq> []"
  by (simp add: valid_id_def)

lemma not_valid_id_Nil [simp]: "\<not> valid_id []"
  by (simp add: valid_id_def)

definition valid_digest :: "digest \<Rightarrow> bool" where
  "valid_digest d \<longleftrightarrow> digest_parse d = Inr d"

lemma digest_parse_valid [simp, codec_simps]: "valid_digest d \<Longrightarrow> digest_parse d = Inr d"
  by (simp add: valid_digest_def)

lemma digest_parse_Nil [simp, codec_simps]: "digest_parse [] = Inr []"
  by (simp add: digest_parse_def)

lemma digest_parse_sha256 [simp, codec_simps]: "digest_parse (sha256_hex m) = Inr (sha256_hex m)"
  by (simp add: digest_parse_def sha256_hex_def from_hex_def length_to_hex length_sha256
      from_hex_loop_to_hex)

lemma valid_digest_computed [simp]:
  "valid_digest (digest_of_text m)" "valid_digest (digest_combine a b)" "valid_digest []"
  by (simp_all add: valid_digest_def digest_of_text_def digest_combine_def)

lemma digest_combine_nonempty [simp]: "digest_combine a b \<noteq> []" "[] \<noteq> digest_combine a b"
  by (simp_all add: digest_combine_def)

lemma counter_try_next_iff:
  "counter_try_next v = Inr w \<longleftrightarrow> v \<noteq> u64_max \<and> w = v + 1"
  by (auto simp: counter_try_next_def)

lemma unat_plus_one: "v \<noteq> u64_max \<Longrightarrow> unat (v + 1) = Suc (unat (v :: u64))"
proof -
  assume "v \<noteq> u64_max"
  then have "1 + v \<noteq> 0"
    by (metis add.commute eq_neg_iff_add_eq_0 u64_max_eq)
  then show ?thesis by (simp add: unatSuc add.commute)
qed

lemma counter_try_next_less: "counter_try_next v = Inr w \<Longrightarrow> v < w \<and> unat w = unat v + 1"
  by (auto simp: counter_try_next_iff word_less_nat_alt unat_plus_one)

end
