(* ===== verification/Core_Json.thy ===== *)
theory Core_Json
  imports Core_Ids
begin

text \<open>
  JSON values (\<open>core/json\<close>, class \<open>Value\<close>): the tree, its typed accessors, the ordered
  object members with replace-in-place \<open>set\<close>, and \<open>push\<close>.  Numbers keep the three kinds of
  the code: a signed 64-bit integer (as an \<open>int\<close>), an unsigned one, and a double.  A finite
  double is its sign bit and its magnitude.
\<close>

datatype double =
    D_nan
  | D_infinite bool
  | D_finite bool rat

datatype json =
    JNull
  | JBool bool
  | JInt int
  | JUint u64
  | JReal double
  | JString string
  | JArray "json list"
  | JObject "(string \<times> json) list"

fun json_is_object :: "json \<Rightarrow> bool" where
  "json_is_object (JObject ms) = True"
| "json_is_object _ = False"

fun json_is_array :: "json \<Rightarrow> bool" where
  "json_is_array (JArray xs) = True"
| "json_is_array _ = False"

fun json_is_null :: "json \<Rightarrow> bool" where
  "json_is_null JNull = True"
| "json_is_null _ = False"

fun json_as_bool :: "json \<Rightarrow> bool result" where
  "json_as_bool (JBool b) = Inr b"
| "json_as_bool _ = fail EC_invalid_argument ''json value is not a boolean'' ''''"

definition int64_max :: int where
  "int64_max = 2 ^ 63 - 1"

text \<open>\<open>static_cast\<close> of an integral double in range.\<close>

definition signed_magnitude :: "bool \<Rightarrow> rat \<Rightarrow> int" where
  "signed_magnitude neg m = (if neg then - \<lfloor>m\<rfloor> else \<lfloor>m\<rfloor>)"

definition rat_integral :: "rat \<Rightarrow> bool" where
  "rat_integral m \<longleftrightarrow> of_int \<lfloor>m\<rfloor> = m"

fun json_as_int :: "json \<Rightarrow> int result" where
  "json_as_int (JInt i) = Inr i"
| "json_as_int (JUint w) =
     (if uint w > int64_max
      then fail EC_invalid_argument ''json integer does not fit in int64'' ''''
      else Inr (uint w))"
| "json_as_int (JReal (D_finite neg m)) =
     (if \<not> rat_integral m \<or> m > 9200000000000000000
      then fail EC_invalid_argument ''json number is not an integer'' ''''
      else Inr (signed_magnitude neg m))"
| "json_as_int (JReal _) = fail EC_invalid_argument ''json number is not an integer'' ''''"
| "json_as_int _ = fail EC_invalid_argument ''json value is not a number'' ''''"

fun json_as_uint :: "json \<Rightarrow> u64 result" where
  "json_as_uint (JUint w) = Inr w"
| "json_as_uint (JInt i) =
     (if i < 0 then fail EC_invalid_argument ''json integer is negative'' ''''
      else Inr (word_of_int i))"
| "json_as_uint (JReal (D_finite neg m)) =
     (if \<not> rat_integral m \<or> (neg \<and> m > 0) \<or> m > 18000000000000000000
      then fail EC_invalid_argument ''json number is not an unsigned integer'' ''''
      else Inr (word_of_int (signed_magnitude neg m)))"
| "json_as_uint (JReal _) = fail EC_invalid_argument ''json number is not an unsigned integer'' ''''"
| "json_as_uint _ = fail EC_invalid_argument ''json value is not a number'' ''''"

fun json_as_string :: "json \<Rightarrow> string result" where
  "json_as_string (JString s) = Inr s"
| "json_as_string _ = fail EC_invalid_argument ''json value is not a string'' ''''"

fun json_items :: "json \<Rightarrow> json list" where
  "json_items (JArray xs) = xs"
| "json_items _ = []"

fun json_members :: "json \<Rightarrow> (string \<times> json) list" where
  "json_members (JObject ms) = ms"
| "json_members _ = []"

fun json_find :: "json \<Rightarrow> string \<Rightarrow> json option" where
  "json_find (JObject ms) key = map_of ms key"
| "json_find _ key = None"

definition json_require :: "(json \<Rightarrow> 'a result) \<Rightarrow> json \<Rightarrow> string \<Rightarrow> 'a result" where
  "json_require as_kind v key =
     (case json_find v key of
        None \<Rightarrow> fail EC_invalid_argument ''required json member is missing'' key
      | Some found \<Rightarrow> as_kind found)"

definition json_require_string :: "json \<Rightarrow> string \<Rightarrow> string result" where
  "json_require_string = json_require json_as_string"

definition json_require_uint :: "json \<Rightarrow> string \<Rightarrow> u64 result" where
  "json_require_uint = json_require json_as_uint"

definition json_require_bool :: "json \<Rightarrow> string \<Rightarrow> bool result" where
  "json_require_bool = json_require json_as_bool"

text \<open>The idiom \<open>if (const json::Value* m = value.find(key); m != nullptr) { ... }\<close>.\<close>

definition json_optional :: "(json \<Rightarrow> 'a result) \<Rightarrow> json \<Rightarrow> string \<Rightarrow> 'a \<Rightarrow> 'a result" where
  "json_optional dec v key dflt =
     (case json_find v key of None \<Rightarrow> Inr dflt | Some found \<Rightarrow> dec found)"

definition json_opt_string :: "json \<Rightarrow> string \<Rightarrow> string \<Rightarrow> string result" where
  "json_opt_string v key dflt = json_optional json_as_string v key dflt"

definition json_opt_bool :: "json \<Rightarrow> string \<Rightarrow> bool \<Rightarrow> bool result" where
  "json_opt_bool v key dflt = json_optional json_as_bool v key dflt"

fun members_set :: "(string \<times> json) list \<Rightarrow> string \<Rightarrow> json \<Rightarrow> (string \<times> json) list" where
  "members_set [] key v = [(key, v)]"
| "members_set ((k, x) # ms) key v = (if k = key then (k, v) # ms else (k, x) # members_set ms key v)"

fun json_set :: "json \<Rightarrow> string \<Rightarrow> json \<Rightarrow> json" where
  "json_set (JObject ms) key v = JObject (members_set ms key v)"
| "json_set _ key v = JObject [(key, v)]"

fun members_erase :: "(string \<times> json) list \<Rightarrow> string \<Rightarrow> (string \<times> json) list" where
  "members_erase [] key = []"
| "members_erase ((k, x) # ms) key = (if k = key then ms else (k, x) # members_erase ms key)"

fun json_erase :: "json \<Rightarrow> string \<Rightarrow> json" where
  "json_erase (JObject ms) key = JObject (members_erase ms key)"
| "json_erase v key = v"

fun json_push :: "json \<Rightarrow> json \<Rightarrow> json" where
  "json_push (JArray xs) v = JArray (xs @ [v])"
| "json_push _ v = JArray [v]"

text \<open>A chain of \<open>set\<close> calls on a fresh object, and of \<open>push\<close> calls on a fresh array.\<close>

definition json_build :: "(string \<times> json) list \<Rightarrow> json" where
  "json_build ms = foldl (\<lambda>obj (k, v). json_set obj k v) (JObject []) ms"

definition json_list :: "('a \<Rightarrow> json) \<Rightarrow> 'a list \<Rightarrow> json" where
  "json_list f xs = foldl (\<lambda>arr x. json_push arr (f x)) (JArray []) xs"

subsection \<open>Objects behave like maps\<close>

lemma map_of_members_set: "map_of (members_set ms k v) = (map_of ms)(k \<mapsto> v)"
  by (induction ms k v rule: members_set.induct) auto

lemma json_find_set:
  "json_is_object obj \<Longrightarrow> json_find (json_set obj k v) k' = (if k' = k then Some v else json_find obj k')"
  by (cases obj) (simp_all add: map_of_members_set)

lemma members_set_new: "k \<notin> fst ` set ms \<Longrightarrow> members_set ms k v = ms @ [(k, v)]"
  by (induction ms) (auto split: prod.splits)

lemma json_build_append:
  "distinct (map fst (ms @ ns)) \<Longrightarrow>
   foldl (\<lambda>obj (k, v). json_set obj k v) (JObject ms) ns = JObject (ms @ ns)"
proof (induction ns arbitrary: ms)
  case Nil
  then show ?case by simp
next
  case (Cons n ns)
  obtain k v where n: "n = (k, v)" by (cases n)
  with Cons.prems have "k \<notin> fst ` set ms" by auto
  with Cons.IH [of "ms @ [n]"] Cons.prems n show ?case
    by (simp add: members_set_new)
qed

lemma json_build_eq: "distinct (map fst ms) \<Longrightarrow> json_build ms = JObject ms"
  using json_build_append [of "[]" ms] by (simp add: json_build_def)

lemma json_list_append: "foldl (\<lambda>arr x. json_push arr (f x)) (JArray ys) xs = JArray (ys @ map f xs)"
  by (induction xs arbitrary: ys) simp_all

lemma json_list_eq [simp, codec_simps]: "json_list f xs = JArray (map f xs)"
  by (simp add: json_list_def json_list_append)

lemma json_is_object_build [simp, codec_simps]: "json_is_object (json_build ms)"
proof -
  have "json_is_object obj \<Longrightarrow> json_is_object (foldl (\<lambda>obj (k, v). json_set obj k v) obj ms)" for obj
  proof (induction ms arbitrary: obj)
    case Nil
    then show ?case by simp
  next
    case (Cons m ms)
    then have "json_is_object (json_set obj (fst m) (snd m))" by (cases obj) simp_all
    with Cons.IH show ?case by (simp add: case_prod_beta)
  qed
  then show ?thesis by (simp add: json_build_def)
qed

lemma json_find_build [simp, codec_simps]: "json_find (json_build ms) k = map_of (rev ms) k"
proof -
  have "json_is_object obj \<Longrightarrow>
    json_find (foldl (\<lambda>obj (k, v). json_set obj k v) obj ms) k =
      (case map_of (rev ms) k of None \<Rightarrow> json_find obj k | Some v \<Rightarrow> Some v)" for obj
  proof (induction ms arbitrary: obj)
    case Nil
    then show ?case by simp
  next
    case (Cons m ms)
    have "json_is_object (json_set obj (fst m) (snd m))" using Cons.prems by (cases obj) simp_all
    from Cons.IH [OF this] Cons.prems show ?case
      by (cases m) (simp add: json_find_set map_add_def split: option.splits)
  qed
  from this [of "JObject []"] show ?thesis
    by (simp add: json_build_def split: option.splits)
qed

lemma json_as_uint_ucast [simp, codec_simps]:
  "json_as_uint (JUint w) = Inr w" by simp

declare json_require_def [codec_simps] json_require_string_def [codec_simps]
  json_require_uint_def [codec_simps] json_require_bool_def [codec_simps]
  json_optional_def [codec_simps] json_opt_string_def [codec_simps] json_opt_bool_def [codec_simps]

text \<open>What a value becomes on its way through the text form: a small unsigned number reads back signed.\<close>

fun json_norm :: "json \<Rightarrow> json" where
  "json_norm (JUint w) = (if uint w \<le> int64_max then JInt (uint w) else JUint w)"
| "json_norm (JArray xs) = JArray (map json_norm xs)"
| "json_norm (JObject ms) = JObject (map (\<lambda>(k, v). (k, json_norm v)) ms)"
| "json_norm v = v"

lemma json_find_norm [simp]: "json_find (json_norm v) key = map_option json_norm (json_find v key)"
proof (cases v)
  case (JObject ms)
  have "map_of (map (\<lambda>(k, v). (k, json_norm v)) ms) key = map_option json_norm (map_of ms key)"
    by (induction ms) auto
  with JObject show ?thesis by simp
qed auto

lemma json_as_uint_norm [simp]: "json_as_uint (json_norm v) = json_as_uint v"
  by (cases v) auto

lemma json_as_int_norm [simp]: "json_as_int (json_norm v) = json_as_int v"
  by (cases v) auto

lemma json_as_string_norm [simp]: "json_as_string (json_norm v) = json_as_string v"
  by (cases v) auto

lemma json_as_bool_norm [simp]: "json_as_bool (json_norm v) = json_as_bool v"
  by (cases v) auto

lemma json_is_object_norm [simp]: "json_is_object (json_norm v) = json_is_object v"
  by (cases v) auto

lemma json_is_array_norm [simp]: "json_is_array (json_norm v) = json_is_array v"
  by (cases v) auto

lemma json_items_norm [simp]: "json_items (json_norm v) = map json_norm (json_items v)"
  by (cases v) auto

lemma json_require_norm:
  "(\<And>x. as_kind (json_norm x) = as_kind x) \<Longrightarrow>
   json_require as_kind (json_norm v) key = json_require as_kind v key"
  by (simp add: json_require_def split: option.split)

lemma json_optional_norm:
  "(\<And>x. dec (json_norm x) = dec x) \<Longrightarrow>
   json_optional dec (json_norm v) key d = json_optional dec v key d"
  by (simp add: json_optional_def split: option.split)

lemma json_accessors_norm [simp]:
  "json_require_string (json_norm v) key = json_require_string v key"
  "json_require_uint (json_norm v) key = json_require_uint v key"
  "json_require_bool (json_norm v) key = json_require_bool v key"
  "json_opt_string (json_norm v) key s = json_opt_string v key s"
  "json_opt_bool (json_norm v) key b = json_opt_bool v key b"
  by (simp_all add: json_require_string_def json_require_uint_def json_require_bool_def
      json_opt_string_def json_opt_bool_def json_require_norm json_optional_norm)

lemma map_result_norm:
  "(\<And>x. f (json_norm x) = f x) \<Longrightarrow> map_result f (map json_norm xs) = map_result f xs"
  by (simp add: map_result_map_comp comp_def)

end
