(* ===== verification/Core_Json_Text.thy ===== *)
theory Core_Json_Text
  imports Core_Json
begin

text \<open>
  The text form of JSON values (\<open>core/json\<close>): string escaping, the rendering of doubles, and the
  compact and the indented writer.
\<close>

subsection \<open>Decimal and binary doubles\<close>

text \<open>
  What \<open>std::to_chars\<close> promises for a double: the shortest decimal that reads back, the one
  nearest to the value if there are several, in positional or exponent notation, whichever is
  shorter.  Magnitudes are rationals.
\<close>

definition pow_int :: "rat \<Rightarrow> int \<Rightarrow> rat" where
  "pow_int b k = (if k \<ge> 0 then b ^ nat k else 1 / b ^ nat (- k))"

definition round_half_even :: "rat \<Rightarrow> int" where
  "round_half_even r =
     (let f = \<lfloor>r\<rfloor>; d = r - of_int f in
      if d < 1 / 2 then f else if d > 1 / 2 then f + 1 else if even f then f else f + 1)"

fun bit_length :: "nat \<Rightarrow> nat" where
  "bit_length n = (if n = 0 then 0 else Suc (bit_length (n div 2)))"

declare bit_length.simps [simp del]

definition floor_log :: "rat \<Rightarrow> (nat \<Rightarrow> nat) \<Rightarrow> rat \<Rightarrow> int" where
  "floor_log b len q =
     (let (n, d) = quotient_of q;
          k = int (len (nat n)) - int (len (nat d))
      in if pow_int b k \<le> q then k else k - 1)"

definition floor_log2 :: "rat \<Rightarrow> int" where
  "floor_log2 q = floor_log 2 bit_length q"

definition floor_log10 :: "rat \<Rightarrow> int" where
  "floor_log10 q = floor_log 10 (\<lambda>n. length (dec_digits n)) q"

text \<open>Rounding a positive rational to the nearest double; None on overflow.\<close>

definition round_double :: "rat \<Rightarrow> rat option" where
  "round_double q =
     (if q = 0 then Some 0
      else let e = max (floor_log2 q - 52) (- 1074);
               v = of_int (round_half_even (q / pow_int 2 e)) * pow_int 2 e
           in if v \<ge> 2 ^ 1024 then None else Some v)"

text \<open>Digits and decimal exponent of the shortest decimal.\<close>

definition decimal_candidate :: "rat \<Rightarrow> nat \<Rightarrow> (int \<times> int) option" where
  "decimal_candidate m n =
     (let e = floor_log10 m - int n + 1;
          lo = \<lfloor>m / pow_int 10 e\<rfloor>;
          val = (\<lambda>d. of_int d * pow_int 10 e);
          ok = (\<lambda>d. d > 0 \<and> round_double (val d) = Some m)
      in if ok lo \<and> ok (lo + 1) then if m - val lo \<le> val (lo + 1) - m then Some (lo, e) else Some (lo + 1, e)
         else if ok lo then Some (lo, e)
         else if ok (lo + 1) then Some (lo + 1, e) else None)"

fun first_candidate :: "rat \<Rightarrow> nat list \<Rightarrow> int \<times> int" where
  "first_candidate m [] = (\<lfloor>m\<rfloor>, 0)"
| "first_candidate m (n # ns) =
     (case decimal_candidate m n of Some c \<Rightarrow> c | None \<Rightarrow> first_candidate m ns)"

definition positional_text :: "rat \<Rightarrow> string \<Rightarrow> int \<Rightarrow> string" where
  "positional_text m ds e =
     (if e \<ge> 0 then dec_digits (nat \<lfloor>m\<rfloor>)
      else if nat (- e) < length ds
      then take (length ds - nat (- e)) ds @ ''.'' @ drop (length ds - nat (- e)) ds
      else ''0.'' @ replicate (nat (- e) - length ds) (CHR ''0'') @ ds)"

definition exponent_text :: "string \<Rightarrow> int \<Rightarrow> string" where
  "exponent_text ds e =
     (let x = e + int (length ds) - 1;
          xs = dec_digits (nat \<bar>x\<bar>)
      in take 1 ds @ (if length ds > 1 then ''.'' @ drop 1 ds else []) @ ''e'' @
         (if x < 0 then ''-'' else ''+'') @ (if length xs < 2 then ''0'' else []) @ xs)"

definition to_chars_double :: "bool \<Rightarrow> rat \<Rightarrow> string" where
  "to_chars_double neg m =
     (if neg then ''-'' else []) @
     (if m = 0 then ''0''
      else let (d, e) = first_candidate m [1..<18];
               ds = dec_digits (nat d);
               positional = positional_text m ds e;
               exponent = exponent_text ds e
           in if length positional \<le> length exponent then positional else exponent)"

subsection \<open>The writer\<close>

definition hex_lower :: "nat \<Rightarrow> char" where
  "hex_lower n = hex_digits ! n"

definition escape_char :: "char \<Rightarrow> string" where
  "escape_char c =
     (if c = CHR 0x22 then [CHR 0x5C, CHR 0x22]
      else if c = CHR 0x5C then [CHR 0x5C, CHR 0x5C]
      else if c = CHR 0x08 then [CHR 0x5C, CHR ''b'']
      else if c = CHR 0x0C then [CHR 0x5C, CHR ''f'']
      else if c = CHR 0x0A then [CHR 0x5C, CHR ''n'']
      else if c = CHR 0x0D then [CHR 0x5C, CHR ''r'']
      else if c = CHR 0x09 then [CHR 0x5C, CHR ''t'']
      else if c < CHR 0x20
      then [CHR 0x5C, CHR ''u'', CHR ''0'', CHR ''0'', hex_lower (of_char c div 16), hex_lower (of_char c mod 16)]
      else [c])"

definition append_escaped :: "string \<Rightarrow> string" where
  "append_escaped t = CHR 0x22 # concat (map escape_char t) @ [CHR 0x22]"

fun append_real :: "double \<Rightarrow> string" where
  "append_real (D_finite neg m) =
     (let t = to_chars_double neg m in
      t @ (if list_ex (\<lambda>c. c \<in> {CHR ''.'', CHR ''e'', CHR ''E''}) t then [] else ''.0''))"
| "append_real _ = ''null''"

text \<open>
  \<open>dump_into\<close> with an indent; an indent of 0 is the compact form \<open>dump\<close>.
\<close>

definition json_pad :: "nat \<Rightarrow> nat \<Rightarrow> string" where
  "json_pad indent depth = (if indent > 0 then CHR 0x0A # replicate (indent * depth) (CHR '' '') else [])"

function json_dump_at :: "nat \<Rightarrow> nat \<Rightarrow> json \<Rightarrow> string" where
  "json_dump_at indent depth JNull = ''null''"
| "json_dump_at indent depth (JBool b) = (if b then ''true'' else ''false'')"
| "json_dump_at indent depth (JInt i) = int_to_string i"
| "json_dump_at indent depth (JUint w) = u64_to_string w"
| "json_dump_at indent depth (JReal r) = append_real r"
| "json_dump_at indent depth (JString s) = append_escaped s"
| "json_dump_at indent depth (JArray xs) =
     (if xs = [] then ''[]''
      else ''['' @ join_with '','' (map (\<lambda>x. json_pad indent (depth + 1) @ json_dump_at indent (depth + 1) x) xs) @
           json_pad indent depth @ '']'')"
| "json_dump_at indent depth (JObject ms) =
     (if ms = [] then ''{}''
      else ''{'' @ join_with '',''
             (map (\<lambda>m. json_pad indent (depth + 1) @ append_escaped (fst m) @ '':'' @
                       (if indent > 0 then '' '' else []) @ json_dump_at indent (depth + 1) (snd m)) ms) @
           json_pad indent depth @ ''}'')"
  by pat_completeness auto
termination
proof (relation "measure (\<lambda>(i, d, v). size v)", goal_cases)
  case 1
  then show ?case by simp
next
  case (2 i d xs x)
  then show ?case by (simp add: size_list_estimation' less_Suc_eq_le)
next
  case (3 i d ms m)
  then have "m \<in> set ms" by simp
  then have "size (snd m) < size_list (size_prod (\<lambda>_. 0) size) ms"
    by (rule size_list_estimation) (cases m, simp)
  then show ?case by simp
qed

definition json_dump :: "json \<Rightarrow> string" where
  "json_dump v = json_dump_at 0 0 v"

definition json_dump_pretty :: "nat \<Rightarrow> json \<Rightarrow> string" where
  "json_dump_pretty indent v = json_dump_at indent 0 v"

end
