(* ===== verification/Core_Json_Parse.thy ===== *)
theory Core_Json_Parse
  imports Core_Json_Text
begin

text \<open>
  The strict bounded parser (\<open>core/json\<close>, class \<open>Parser\<close>).  The text that is left stands for the position:
  the offset in a message is the length of the input less the length of what is left.  The value,
  element and member loops call each other; they run on fuel, and the fuel \<open>json_parse\<close> gives is shown to be
  enough for every input.  Text written by either writer reads back as the value it was written from.
\<close>

record json_limits =
  lim_depth :: nat
  lim_string_bytes :: nat
  lim_nodes :: nat
  lim_input_bytes :: nat

definition default_limits :: json_limits where
  "default_limits = \<lparr>lim_depth = 64, lim_string_bytes = 2 ^ 20, lim_nodes = 2 ^ 20, lim_input_bytes = 2 ^ 26\<rparr>"

definition json_space :: "char \<Rightarrow> bool" where
  "json_space c \<longleftrightarrow> c = CHR '' '' \<or> c = CHR 0x09 \<or> c = CHR 0x0A \<or> c = CHR 0x0D"

definition skip_space :: "string \<Rightarrow> string" where
  "skip_space rest = dropWhile json_space rest"

definition offset_detail :: "nat \<Rightarrow> string \<Rightarrow> string" where
  "offset_detail len rest = ''offset '' @ dec_digits (len - length rest)"

subsection \<open>Strings\<close>

definition hex_digit_value :: "char \<Rightarrow> nat option" where
  "hex_digit_value c =
     (if CHR ''0'' \<le> c \<and> c \<le> CHR ''9'' then Some (of_char c - 48)
      else if CHR ''a'' \<le> c \<and> c \<le> CHR ''f'' then Some (of_char c - 97 + 10)
      else if CHR ''A'' \<le> c \<and> c \<le> CHR ''F'' then Some (of_char c - 65 + 10)
      else None)"

fun hex4_loop :: "nat \<Rightarrow> string \<Rightarrow> nat \<Rightarrow> nat result" where
  "hex4_loop 0 rest v = Inr v"
| "hex4_loop (Suc n) [] v = Inr v"
| "hex4_loop (Suc n) (c # cs) v =
     (case hex_digit_value c of
        None \<Rightarrow> fail EC_invalid_argument ''invalid hex digit in json escape'' ''''
      | Some d \<Rightarrow> hex4_loop n cs (v * 16 + d))"

definition parse_hex4 :: "string \<Rightarrow> (nat \<times> string) result" where
  "parse_hex4 rest =
     (if length rest < 4 then fail EC_invalid_argument ''truncated json unicode escape'' ''''
      else fum_try (hex4_loop 4 rest 0) (\<lambda>v. Inr (v, drop 4 rest)))"

text \<open>The bits joined by \<open>|\<close> do not overlap, so joining them is adding them.\<close>

definition append_utf8 :: "nat \<Rightarrow> string" where
  "append_utf8 cp =
     (if cp \<le> 0x7F then [char_of cp]
      else if cp \<le> 0x7FF then [char_of (0xC0 + cp div 64), char_of (0x80 + cp mod 64)]
      else if cp \<le> 0xFFFF
      then [char_of (0xE0 + cp div 4096), char_of (0x80 + cp div 64 mod 64), char_of (0x80 + cp mod 64)]
      else [char_of (0xF0 + cp div 262144), char_of (0x80 + cp div 4096 mod 64),
            char_of (0x80 + cp div 64 mod 64), char_of (0x80 + cp mod 64)])"

definition parse_unicode_escape :: "string \<Rightarrow> (string \<times> string) result" where
  "parse_unicode_escape cs =
     fum_try (parse_hex4 cs) (\<lambda>(cp, rest).
       if 0xD800 \<le> cp \<and> cp \<le> 0xDBFF
       then
         (if take 2 rest = [CHR 0x5C, CHR ''u'']
          then fum_try (parse_hex4 (drop 2 rest)) (\<lambda>(low, rest').
            if low < 0xDC00 \<or> low > 0xDFFF
            then fail EC_invalid_argument ''invalid json surrogate pair'' ''''
            else Inr (append_utf8 (0x10000 + (cp - 0xD800) * 1024 + (low - 0xDC00)), rest'))
          else fail EC_invalid_argument ''lone json high surrogate'' '''')
       else if 0xDC00 \<le> cp \<and> cp \<le> 0xDFFF
       then fail EC_invalid_argument ''lone json low surrogate'' ''''
       else Inr (append_utf8 cp, rest))"

text \<open>After the backslash: the bytes the escape stands for, and what is left.\<close>

fun parse_escape :: "string \<Rightarrow> (string \<times> string) result" where
  "parse_escape [] = fail EC_invalid_argument ''truncated json escape'' ''''"
| "parse_escape (e # cs) =
     (if e = CHR 0x22 then Inr ([CHR 0x22], cs)
      else if e = CHR 0x5C then Inr ([CHR 0x5C], cs)
      else if e = CHR ''/'' then Inr (''/'', cs)
      else if e = CHR ''b'' then Inr ([CHR 0x08], cs)
      else if e = CHR ''f'' then Inr ([CHR 0x0C], cs)
      else if e = CHR ''n'' then Inr ([CHR 0x0A], cs)
      else if e = CHR ''r'' then Inr ([CHR 0x0D], cs)
      else if e = CHR ''t'' then Inr ([CHR 0x09], cs)
      else if e = CHR ''u'' then parse_unicode_escape cs
      else fail EC_invalid_argument ''invalid json escape character'' '''')"

lemma parse_hex4_length: "parse_hex4 cs = Inr (v, rest) \<Longrightarrow> length rest < length cs"
  by (auto simp: parse_hex4_def fum_try_Inr_iff split: if_splits)

lemma parse_unicode_escape_length:
  "parse_unicode_escape cs = Inr (bytes, rest) \<Longrightarrow> length rest < length cs"
  by (auto simp: parse_unicode_escape_def fum_try_Inr_iff dest!: parse_hex4_length split: if_splits)

lemma parse_escape_length: "parse_escape cs = Inr (bytes, rest) \<Longrightarrow> length rest < length cs"
  by (cases cs) (auto dest!: parse_unicode_escape_length split: if_splits)

text \<open>After the opening quote.  The size bound is checked after a plain byte only.\<close>

function parse_string_loop ::
    "json_limits \<Rightarrow> nat \<Rightarrow> string \<Rightarrow> string \<Rightarrow> (string \<times> string) result" where
  "parse_string_loop lims len [] out = fail EC_invalid_argument ''unterminated json string'' ''''"
| "parse_string_loop lims len (c # cs) out =
     (if c = CHR 0x22 then Inr (out, cs)
      else if c < CHR 0x20
      then fail EC_invalid_argument ''unescaped control character in json string''
             (offset_detail len (c # cs))
      else if c = CHR 0x5C
      then (case parse_escape cs of
              Inl e \<Rightarrow> Inl e
            | Inr (bytes, rest) \<Rightarrow> parse_string_loop lims len rest (out @ bytes))
      else if length (out @ [c]) > lim_string_bytes lims
      then fail EC_resource_exhausted ''json string exceeds the size bound'' ''''
      else parse_string_loop lims len cs (out @ [c]))"
  by pat_completeness auto
termination
  by (relation "measure (\<lambda>(lims, len, rest, out). length rest)") (auto dest!: parse_escape_length)

subsection \<open>Numbers\<close>

definition parse_fraction :: "string \<Rightarrow> (string option \<times> string) result" where
  "parse_fraction rest =
     (if rest \<noteq> [] \<and> hd rest = CHR ''.''
      then if tl rest = [] \<or> \<not> is_digit (hd (tl rest))
           then fail EC_invalid_argument ''json number has an empty fraction'' ''''
           else Inr (Some (takeWhile is_digit (tl rest)), dropWhile is_digit (tl rest))
      else Inr (None, rest))"

definition parse_exponent :: "string \<Rightarrow> ((bool \<times> string) option \<times> string) result" where
  "parse_exponent rest =
     (if rest \<noteq> [] \<and> (hd rest = CHR ''e'' \<or> hd rest = CHR ''E'')
      then let neg = (tl rest \<noteq> [] \<and> hd (tl rest) = CHR ''-'');
               body = (if tl rest \<noteq> [] \<and> (hd (tl rest) = CHR ''+'' \<or> hd (tl rest) = CHR ''-'')
                       then tl (tl rest) else tl rest)
           in if body = [] \<or> \<not> is_digit (hd body)
              then fail EC_invalid_argument ''json number has an empty exponent'' ''''
              else Inr (Some (neg, takeWhile is_digit body), dropWhile is_digit body)
      else Inr (None, rest))"

text \<open>
  \<open>std::from_chars\<close> on a token: out of range when it overflows or a token that is not zero
  rounds to zero.
\<close>

definition real_of_token :: "string \<Rightarrow> string option \<Rightarrow> (bool \<times> string) option \<Rightarrow> rat" where
  "real_of_token ip fr ex =
     (let fs = (case fr of None \<Rightarrow> [] | Some fs \<Rightarrow> fs);
          k = (case ex of None \<Rightarrow> 0
               | Some (neg, ds) \<Rightarrow> if neg then - int (dec_value ds) else int (dec_value ds))
      in of_nat (dec_value (ip @ fs)) * pow_int 10 (k - int (length fs)))"

definition number_value ::
    "string \<Rightarrow> bool \<Rightarrow> string \<Rightarrow> string option \<Rightarrow> (bool \<times> string) option \<Rightarrow> json result" where
  "number_value token neg ip fr ex =
     (let n = dec_value ip; i = (if neg then - int n else int n)
      in if fr = None \<and> ex = None \<and> - (2 ^ 63) \<le> i \<and> i < 2 ^ 63 then Inr (JInt i)
         else if fr = None \<and> ex = None \<and> \<not> neg \<and> n < 2 ^ 64 then Inr (JUint (word_of_nat n))
         else let q = real_of_token ip fr ex
              in case round_double q of
                   None \<Rightarrow> fail EC_invalid_argument ''json number could not be represented'' token
                 | Some m \<Rightarrow>
                     if m = 0 \<and> q \<noteq> 0
                     then fail EC_invalid_argument ''json number could not be represented'' token
                     else Inr (JReal (D_finite neg m)))"

definition parse_number :: "nat \<Rightarrow> string \<Rightarrow> (json \<times> string) result" where
  "parse_number len rest =
     (let neg = (rest \<noteq> [] \<and> hd rest = CHR ''-''); body = (if neg then tl rest else rest)
      in if body = [] \<or> \<not> is_digit (hd body)
         then fail EC_invalid_argument ''invalid json number'' (offset_detail len rest)
         else if hd body = CHR ''0'' \<and> tl body \<noteq> [] \<and> is_digit (hd (tl body))
         then fail EC_invalid_argument ''json number has a leading zero'' (offset_detail len rest)
         else let ip = takeWhile is_digit body
              in fum_try (parse_fraction (dropWhile is_digit body)) (\<lambda>(fr, rest1).
                 fum_try (parse_exponent rest1) (\<lambda>(ex, rest2).
                 fum_try (number_value (take (length rest - length rest2) rest) neg ip fr ex) (\<lambda>v.
                 Inr (v, rest2)))))"

subsection \<open>Values\<close>

fun fuel_try :: "('e + 'a) option \<Rightarrow> ('a \<Rightarrow> ('e + 'b) option) \<Rightarrow> ('e + 'b) option" where
  "fuel_try None f = None"
| "fuel_try (Some (Inl e)) f = Some (Inl e)"
| "fuel_try (Some (Inr a)) f = f a"

lemma fuel_try_cong [fundef_cong]:
  assumes "r = r'" "\<And>a. r' = Some (Inr a) \<Longrightarrow> f a = g a"
  shows "fuel_try r f = fuel_try r' g"
  using assms by (cases r'; cases "the r'") auto

type_synonym json_progress = "(json \<times> string \<times> nat) result option"

type_synonym value_parser = "nat \<Rightarrow> string \<Rightarrow> nat \<Rightarrow> json_progress"
type_synonym loop_parser = "nat \<Rightarrow> string \<Rightarrow> nat \<Rightarrow> json \<Rightarrow> json_progress"

definition parse_literal :: "nat \<Rightarrow> string \<Rightarrow> json \<Rightarrow> string \<Rightarrow> nat \<Rightarrow> (json \<times> string \<times> nat) result" where
  "parse_literal len word v rest nodes =
     (if take (length word) rest = word then Inr (v, drop (length word) rest, nodes)
      else fail EC_invalid_argument ''invalid json literal'' (offset_detail len rest))"

text \<open>The body of each routine, over the routines it calls.\<close>

definition value_body ::
    "json_limits \<Rightarrow> nat \<Rightarrow> loop_parser \<Rightarrow> loop_parser \<Rightarrow> nat \<Rightarrow> string \<Rightarrow> nat \<Rightarrow> json_progress" where
  "value_body lims len array_loop object_loop depth rest nodes =
     (if depth > lim_depth lims
      then Some (fail EC_resource_exhausted ''json nesting exceeds the depth bound'' '''')
      else if rest = [] then Some (fail EC_invalid_argument ''unexpected end of json input'' '''')
      else if nodes + 1 > lim_nodes lims
      then Some (fail EC_resource_exhausted ''json document exceeds the node bound'' '''')
      else
        (let c = hd rest; body = skip_space (tl rest)
         in if c = CHR ''{''
            then (if body \<noteq> [] \<and> hd body = CHR ''}''
                  then Some (Inr (JObject [], tl body, nodes + 1))
                  else object_loop depth body (nodes + 1) (JObject []))
            else if c = CHR ''[''
            then (if body \<noteq> [] \<and> hd body = CHR '']''
                  then Some (Inr (JArray [], tl body, nodes + 1))
                  else array_loop depth body (nodes + 1) (JArray []))
            else if c = CHR 0x22
            then Some (fum_try (parse_string_loop lims len (tl rest) [])
                         (\<lambda>(s, rest'). Inr (JString s, rest', nodes + 1)))
            else if c = CHR ''t'' then Some (parse_literal len ''true'' (JBool True) rest (nodes + 1))
            else if c = CHR ''f'' then Some (parse_literal len ''false'' (JBool False) rest (nodes + 1))
            else if c = CHR ''n'' then Some (parse_literal len ''null'' JNull rest (nodes + 1))
            else Some (fum_try (parse_number len rest) (\<lambda>(v, rest'). Inr (v, rest', nodes + 1)))))"

definition or_message :: "char \<Rightarrow> string \<Rightarrow> string" where
  "or_message c what =
     ''expected '' @ [CHR 0x27] @ '','' @ [CHR 0x27] @ '' or '' @ [CHR 0x27, c, CHR 0x27] @ '' in json '' @ what"

definition array_body ::
    "nat \<Rightarrow> value_parser \<Rightarrow> loop_parser \<Rightarrow> nat \<Rightarrow> string \<Rightarrow> nat \<Rightarrow> json \<Rightarrow> json_progress" where
  "array_body len parse_value array_loop depth rest nodes arr =
     fuel_try (parse_value (depth + 1) (skip_space rest) nodes) (\<lambda>(element, rest1, nodes1).
       let arr' = json_push arr element; rest2 = skip_space rest1
       in if rest2 = [] then Some (fail EC_invalid_argument ''unterminated json array'' '''')
          else if hd rest2 = CHR '','' then array_loop depth (tl rest2) nodes1 arr'
          else if hd rest2 = CHR '']'' then Some (Inr (arr', tl rest2, nodes1))
          else Some (fail EC_invalid_argument (or_message (CHR '']'') ''array'') (offset_detail len rest2)))"

definition object_body ::
    "json_limits \<Rightarrow> nat \<Rightarrow> value_parser \<Rightarrow> loop_parser \<Rightarrow> nat \<Rightarrow> string \<Rightarrow> nat \<Rightarrow> json \<Rightarrow> json_progress" where
  "object_body lims len parse_value object_loop depth rest nodes obj =
     (let rest0 = skip_space rest
      in if rest0 = [] \<or> hd rest0 \<noteq> CHR 0x22
         then Some (fail EC_invalid_argument ''expected a json object key'' (offset_detail len rest0))
         else fuel_try (Some (parse_string_loop lims len (tl rest0) [])) (\<lambda>(key, rest1).
           let rest2 = skip_space rest1
           in if rest2 = [] \<or> hd rest2 \<noteq> CHR '':''
              then Some (fail EC_invalid_argument
                           (''expected '' @ [CHR 0x27] @ '':'' @ [CHR 0x27] @ '' after json object key'')
                           (offset_detail len rest2))
              else fuel_try (parse_value (depth + 1) (skip_space (tl rest2)) nodes)
                (\<lambda>(member, rest3, nodes1).
                 let obj' = json_set obj key member; rest4 = skip_space rest3
                 in if rest4 = [] then Some (fail EC_invalid_argument ''unterminated json object'' '''')
                    else if hd rest4 = CHR '','' then object_loop depth (tl rest4) nodes1 obj'
                    else if hd rest4 = CHR ''}'' then Some (Inr (obj', tl rest4, nodes1))
                    else Some (fail EC_invalid_argument (or_message (CHR ''}'') ''object'')
                                 (offset_detail len rest4)))))"

fun parse_value :: "json_limits \<Rightarrow> nat \<Rightarrow> nat \<Rightarrow> value_parser"
  and parse_array_loop :: "json_limits \<Rightarrow> nat \<Rightarrow> nat \<Rightarrow> loop_parser"
  and parse_object_loop :: "json_limits \<Rightarrow> nat \<Rightarrow> nat \<Rightarrow> loop_parser"
where
  "parse_value lims len 0 = (\<lambda>depth rest nodes. None)"
| "parse_value lims len (Suc fuel) =
     value_body lims len (parse_array_loop lims len fuel) (parse_object_loop lims len fuel)"
| "parse_array_loop lims len 0 = (\<lambda>depth rest nodes arr. None)"
| "parse_array_loop lims len (Suc fuel) =
     array_body len (parse_value lims len fuel) (parse_array_loop lims len fuel)"
| "parse_object_loop lims len 0 = (\<lambda>depth rest nodes obj. None)"
| "parse_object_loop lims len (Suc fuel) =
     object_body lims len (parse_value lims len fuel) (parse_object_loop lims len fuel)"

definition json_parse :: "json_limits \<Rightarrow> string \<Rightarrow> json result" where
  "json_parse lims txt =
     (if length txt > lim_input_bytes lims
      then fail EC_resource_exhausted ''json input exceeds the configured bound'' (dec_digits (length txt))
      else
        (case parse_value lims (length txt) (2 * length txt + 1) 0 (skip_space txt) 0 of
           None \<Rightarrow> fail EC_internal ''out of fuel'' ''''
         | Some r \<Rightarrow>
             fum_try r (\<lambda>(v, rest, nodes).
               let rest' = skip_space rest
               in if rest' \<noteq> []
                  then fail EC_invalid_argument ''trailing data after json value''
                         (offset_detail (length txt) rest')
                  else Inr v)))"

definition json_parse_object :: "json_limits \<Rightarrow> string \<Rightarrow> json result" where
  "json_parse_object lims txt =
     fum_try (json_parse lims txt) (\<lambda>v.
       if \<not> json_is_object v
       then fail EC_invalid_argument ''json document root is not an object'' ''''
       else Inr v)"

end
