(* ===== verification/Core_Time.thy ===== *)
theory Core_Time
  imports Core_Result
begin

text \<open>
  Time (\<open>core/time\<close>): timestamps and durations are nanosecond counts; the ISO-8601 rendering and
  its parser.  The calendar conversions \<open>gmtime_r\<close> and \<open>timegm\<close> of the C library are written out
  for the proleptic Gregorian calendar, in years that start in March.  Every 64-bit timestamp
  survives rendering and parsing, except those in the last second before the epoch, which
  the parser mistakes for a conversion failure.
\<close>

type_synonym timestamp = int
type_synonym duration = int

definition from_millis :: "int \<Rightarrow> duration" where
  "from_millis v = v * 1000000"

definition from_seconds :: "int \<Rightarrow> duration" where
  "from_seconds v = v * 1000000000"

text \<open>C++ division truncates towards zero.\<close>

definition c_div :: "int \<Rightarrow> int \<Rightarrow> int" where
  "c_div a b = (if a < 0 then - ((- a) div b) else a div b)"

definition c_mod :: "int \<Rightarrow> int \<Rightarrow> int" where
  "c_mod a b = a - c_div a b * b"

subsection \<open>The calendar\<close>

text \<open>Days before year \<open>y\<close> of a 400-year cycle, years starting on the first of March.\<close>

definition cycle_days :: "int \<Rightarrow> int" where
  "cycle_days y = 365 * y + y div 4 - y div 100 + y div 400"

definition cycle_year :: "int \<Rightarrow> int" where
  "cycle_year doe = (let y = doe div 366 in if cycle_days (y + 1) \<le> doe then y + 1 else y)"

definition month_start :: "int \<Rightarrow> int" where
  "month_start m =
     (if m = 0 then 0 else if m = 1 then 31 else if m = 2 then 61 else if m = 3 then 92
      else if m = 4 then 122 else if m = 5 then 153 else if m = 6 then 184 else if m = 7 then 214
      else if m = 8 then 245 else if m = 9 then 275 else if m = 10 then 306 else 337)"

definition month_of_day :: "int \<Rightarrow> int" where
  "month_of_day d =
     (if d < 31 then 0 else if d < 61 then 1 else if d < 92 then 2 else if d < 122 then 3
      else if d < 153 then 4 else if d < 184 then 5 else if d < 214 then 6 else if d < 245 then 7
      else if d < 275 then 8 else if d < 306 then 9 else if d < 337 then 10 else 11)"

record civil =
  civ_year :: int
  civ_month :: int
  civ_day :: int
  civ_hour :: int
  civ_minute :: int
  civ_second :: int

definition gmtime :: "int \<Rightarrow> civil" where
  "gmtime seconds =
     (let day = seconds div 86400 + 719468;
          rest = seconds mod 86400;
          cycle = day div 146097;
          doe = day mod 146097;
          year = cycle_year doe;
          doy = doe - cycle_days year;
          mp = month_of_day doy
      in \<lparr>civ_year = 400 * cycle + year + (if mp \<ge> 10 then 1 else 0),
          civ_month = (if mp < 10 then mp + 3 else mp - 9),
          civ_day = doy - month_start mp + 1,
          civ_hour = rest div 3600, civ_minute = rest mod 3600 div 60, civ_second = rest mod 60\<rparr>)"

definition timegm :: "civil \<Rightarrow> int" where
  "timegm c =
     (let year = (if civ_month c \<le> 2 then civ_year c - 1 else civ_year c);
          mp = (if civ_month c \<le> 2 then civ_month c + 9 else civ_month c - 3);
          day = 146097 * (year div 400) + cycle_days (year mod 400) + month_start mp +
                civ_day c - 1 - 719468
      in 86400 * day + 3600 * civ_hour c + 60 * civ_minute c + civ_second c)"

subsection \<open>Rendering and parsing\<close>

definition pad_digits :: "nat \<Rightarrow> int \<Rightarrow> string" where
  "pad_digits width v =
     (let s = int_to_string v in
      if v < 0 then CHR ''-'' # replicate (width - length s) (CHR ''0'') @ tl s
      else replicate (width - length s) (CHR ''0'') @ s)"

definition to_iso8601 :: "timestamp \<Rightarrow> string" where
  "to_iso8601 nanos =
     (let seconds0 = c_div nanos 1000000000;
          fraction0 = c_mod nanos 1000000000;
          fraction = (if fraction0 < 0 then fraction0 + 1000000000 else fraction0);
          seconds = (if fraction0 < 0 then seconds0 - 1 else seconds0);
          utc = gmtime seconds
      in pad_digits 4 (civ_year utc) @ ''-'' @ pad_digits 2 (civ_month utc) @ ''-'' @
         pad_digits 2 (civ_day utc) @ ''T'' @ pad_digits 2 (civ_hour utc) @ '':'' @
         pad_digits 2 (civ_minute utc) @ '':'' @ pad_digits 2 (civ_second utc) @ ''.'' @
         pad_digits 9 fraction @ ''Z'')"

fun digits_value :: "string \<Rightarrow> int \<Rightarrow> int option" where
  "digits_value [] acc = Some acc"
| "digits_value (c # cs) acc =
     (if is_digit c then digits_value cs (acc * 10 + int (digit_value c)) else None)"

definition iso_digits :: "string \<Rightarrow> nat \<Rightarrow> nat \<Rightarrow> int result" where
  "iso_digits t offset count =
     (case digits_value (substr t offset count) 0 of
        None \<Rightarrow> fail EC_invalid_argument ''timestamp contains a non-digit'' t
      | Some v \<Rightarrow> Inr v)"

fun iso_fraction :: "string \<Rightarrow> string \<Rightarrow> int \<Rightarrow> int \<Rightarrow> int result" where
  "iso_fraction t [] scale acc = Inr acc"
| "iso_fraction t (c # cs) scale acc =
     (if \<not> is_digit c
      then fail EC_invalid_argument ''timestamp fraction contains a non-digit'' t
      else if scale > 0 then iso_fraction t cs (scale div 10) (acc + int (digit_value c) * scale)
      else iso_fraction t cs scale acc)"

definition parse_iso8601 :: "string \<Rightarrow> timestamp result" where
  "parse_iso8601 t =
     (if length t < 20 \<or> t ! 4 \<noteq> CHR ''-'' \<or> t ! 7 \<noteq> CHR ''-'' \<or> t ! 10 \<noteq> CHR ''T'' \<or>
         t ! 13 \<noteq> CHR '':'' \<or> t ! 16 \<noteq> CHR '':'' \<or> last t \<noteq> CHR ''Z''
      then fail EC_invalid_argument ''timestamp is not ISO-8601 UTC'' t
      else
        fum_try (iso_digits t 0 4) (\<lambda>year. fum_try (iso_digits t 5 2) (\<lambda>month.
        fum_try (iso_digits t 8 2) (\<lambda>day. fum_try (iso_digits t 11 2) (\<lambda>hour.
        fum_try (iso_digits t 14 2) (\<lambda>minute. fum_try (iso_digits t 17 2) (\<lambda>second.
        if month < 1 \<or> month > 12 \<or> day < 1 \<or> day > 31 \<or> hour > 23 \<or> minute > 59 \<or> second > 60
        then fail EC_invalid_argument ''timestamp component out of range'' t
        else fum_try
          (if length t > 20
           then if t ! 19 \<noteq> CHR ''.'' \<or> length t < 22
                then fail EC_invalid_argument ''timestamp fraction is malformed'' t
                else iso_fraction t (butlast (drop 20 t)) 100000000 0
           else Inr 0) (\<lambda>fraction.
        let seconds = timegm \<lparr>civ_year = year, civ_month = month, civ_day = day, civ_hour = hour,
                              civ_minute = minute, civ_second = second\<rparr>
        in if seconds = - 1 then fail EC_invalid_argument ''timestamp could not be converted'' t
           else Inr (seconds * 1000000000 + fraction)))))))))"

subsection \<open>The calendar round trip\<close>

lemma int_div_bounds: "0 < k \<Longrightarrow> k * (x div k) \<le> x \<and> x < k * (x div k) + (k :: int)"
proof -
  assume k: "0 < k"
  have "x = k * (x div k) + x mod k" by simp
  moreover have "0 \<le> x mod k" "x mod k < k" using k by simp_all
  ultimately show ?thesis by linarith
qed

lemma int_div_step:
  assumes "0 < (k :: int)"
  shows "x div k \<le> (x + 1) div k \<and> (x + 1) div k \<le> x div k + 1"
proof
  show "x div k \<le> (x + 1) div k" using assms by (simp add: zdiv_mono1)
  have "(x + 1) div k \<le> (x + k) div k" using assms by (intro zdiv_mono1) simp_all
  then show "(x + 1) div k \<le> x div k + 1" using assms by simp
qed

text \<open>The linear part of the bounds, with the quotients as variables.\<close>

lemma cycle_linear:
  fixes y q4 q100 doe :: int
  assumes "y < 399" "y + 1 < 4 * q4 + 4" "100 * q100 \<le> y + 1" "doe < 366 * y + 366"
  shows "doe - (365 * (y + 1) + q4 - q100) \<le> 365"
proof -
  have "doe \<le> 365 + 365 * y + 365 + q4 - q100" using assms by linarith
  then show ?thesis by (simp add: algebra_simps)
qed

lemma cycle_below:
  fixes y q4 q100 doe :: int
  assumes "0 \<le> y" "4 * q4 \<le> y" "y < 100 * q100 + 100" "366 * y \<le> doe" "0 \<le> q100"
  shows "365 * y + q4 - q100 \<le> doe"
  using assms by linarith

lemma cycle_year_bounds:
  assumes "0 \<le> doe" "doe < 146097"
  shows "0 \<le> cycle_year doe \<and> cycle_year doe < 400 \<and> cycle_days (cycle_year doe) \<le> doe \<and>
         doe - cycle_days (cycle_year doe) \<le> 365"
proof -
  define y where "y = doe div 366"
  have y: "0 \<le> y" "y < 400" "366 * y \<le> doe" "doe < 366 * y + 366"
    using assms by (auto simp: y_def)
  have d400: "y div 400 = 0" using y by simp
  have c: "cycle_days y = 365 * y + y div 4 - y div 100"
    by (simp add: cycle_days_def d400)
  show ?thesis
  proof (cases "cycle_days (y + 1) \<le> doe")
    case True
    have "y \<noteq> 399"
    proof
      assume "y = 399"
      with True assms show False by (simp add: cycle_days_def)
    qed
    then have y1: "y + 1 < 400" using y by simp
    then have "(y + 1) div 400 = 0" using y by simp
    then have "cycle_days (y + 1) = 365 * (y + 1) + (y + 1) div 4 - (y + 1) div 100"
      by (simp add: cycle_days_def)
    moreover have "doe - (365 * (y + 1) + (y + 1) div 4 - (y + 1) div 100) \<le> 365"
      by (rule cycle_linear) (use y y1 int_div_bounds [of 4 "y + 1"] int_div_bounds [of 100 "y + 1"] in simp_all)
    ultimately have "doe - cycle_days (y + 1) \<le> 365" by (simp only:)
    then show ?thesis
      using True y y1 by (simp add: cycle_year_def Let_def flip: y_def)
  next
    case False
    have "cycle_days (y + 1) \<le> cycle_days y + 366"
    proof (cases "y = 399")
      case True
      then show ?thesis by (simp add: cycle_days_def)
    next
      case False
      then have "(y + 1) div 400 = 0" using y by simp
      moreover have "(y + 1) div 4 - (y + 1) div 100 \<le> (y div 4 + 1) - y div 100"
        by (intro diff_mono) (simp_all add: int_div_step)
      ultimately show ?thesis by (simp add: cycle_days_def d400)
    qed
    then have "doe - cycle_days y \<le> 365" using False by linarith
    moreover have "cycle_days y \<le> doe"
      unfolding c
      by (rule cycle_below) (use y int_div_bounds [of 4 y] int_div_bounds [of 100 y] in simp_all)
    ultimately show ?thesis
      using False y by (simp add: cycle_year_def Let_def flip: y_def)
  qed
qed

lemma month_of_day_bounds:
  assumes "0 \<le> d" "d \<le> 365"
  shows "0 \<le> month_of_day d \<and> month_of_day d \<le> 11 \<and> month_start (month_of_day d) \<le> d \<and>
         d - month_start (month_of_day d) \<le> 30"
  using assms by (simp add: month_of_day_def month_start_def)

lemma gmtime_parts:
  fixes s :: int
  defines "day \<equiv> s div 86400 + 719468"
  obtains cycle year mp dom where
    "day = 146097 * cycle + cycle_days year + month_start mp + dom - 1"
    "0 \<le> year" "year < 400" "0 \<le> mp" "mp \<le> 11" "1 \<le> dom" "dom \<le> 31"
    "gmtime s = \<lparr>civ_year = 400 * cycle + year + (if mp \<ge> 10 then 1 else 0),
       civ_month = (if mp < 10 then mp + 3 else mp - 9), civ_day = dom,
       civ_hour = s mod 86400 div 3600, civ_minute = s mod 86400 mod 3600 div 60,
       civ_second = s mod 86400 mod 60\<rparr>"
    "cycle = day div 146097"
proof -
  define doe where "doe = day mod 146097"
  have doe: "0 \<le> doe" "doe < 146097" by (simp_all add: doe_def)
  define year where "year = cycle_year doe"
  define doy where "doy = doe - cycle_days year"
  have y: "0 \<le> year" "year < 400" "0 \<le> doy" "doy \<le> 365"
    using cycle_year_bounds [OF doe] by (simp_all add: year_def doy_def)
  define mp where "mp = month_of_day doy"
  have m: "0 \<le> mp" "mp \<le> 11" "month_start mp \<le> doy" "doy - month_start mp \<le> 30"
    using month_of_day_bounds [OF y(3,4)] by (simp_all add: mp_def)
  have "day = 146097 * (day div 146097) + doe" by (simp add: doe_def)
  then have split: "day = 146097 * (day div 146097) + cycle_days year + month_start mp +
      (doy - month_start mp + 1) - 1" by (simp add: doy_def)
  have g: "gmtime s = \<lparr>civ_year = 400 * (day div 146097) + year + (if mp \<ge> 10 then 1 else 0),
       civ_month = (if mp < 10 then mp + 3 else mp - 9), civ_day = doy - month_start mp + 1,
       civ_hour = s mod 86400 div 3600, civ_minute = s mod 86400 mod 3600 div 60,
       civ_second = s mod 86400 mod 60\<rparr>"
    by (simp only: gmtime_def Let_def day_def doe_def year_def doy_def mp_def)
  show thesis
    by (rule that [OF split y(1,2) m(1,2) _ _ g]) (use m in simp_all)
qed

lemma day_clock_split:
  fixes r :: int
  shows "3600 * (r div 3600) + 60 * (r mod 3600 div 60) + r mod 60 = r"
proof -
  have "r mod 60 = r mod 3600 mod 60" by (simp add: mod_mod_cancel)
  moreover have "60 * (r mod 3600 div 60) + r mod 3600 mod 60 = r mod 3600" by simp
  moreover have "3600 * (r div 3600) + r mod 3600 = r" by simp
  ultimately show ?thesis by linarith
qed

text \<open>\<open>timegm\<close> undoes \<open>gmtime_r\<close>, for every second of the proleptic calendar.\<close>

lemma timegm_gmtime: "timegm (gmtime s) = s"
proof -
  obtain cycle year mp dom where
    day: "s div 86400 + 719468 = 146097 * cycle + cycle_days year + month_start mp + dom - 1"
    and b: "0 \<le> year" "year < 400" "0 \<le> mp" "mp \<le> 11"
    and g: "gmtime s = \<lparr>civ_year = 400 * cycle + year + (if mp \<ge> 10 then 1 else 0),
       civ_month = (if mp < 10 then mp + 3 else mp - 9), civ_day = dom,
       civ_hour = s mod 86400 div 3600, civ_minute = s mod 86400 mod 3600 div 60,
       civ_second = s mod 86400 mod 60\<rparr>"
    using gmtime_parts [of s] by metis
  have yd: "(400 * cycle + year) div 400 = cycle" "(400 * cycle + year) mod 400 = year"
    using b by (simp_all add: div_add1_eq)
  have "timegm (gmtime s) =
      86400 * (146097 * cycle + cycle_days year + month_start mp + dom - 1 - 719468) +
      (3600 * (s mod 86400 div 3600) + 60 * (s mod 86400 mod 3600 div 60) + s mod 86400 mod 60)"
    unfolding g timegm_def using b
    by (cases "mp < 10") (simp_all add: Let_def yd)
  also have "\<dots> = 86400 * (s div 86400) + s mod 86400"
    unfolding day_clock_split by (simp only: day [symmetric] add_diff_cancel_right')
  also have "\<dots> = s" by simp
  finally show ?thesis .
qed

lemma gmtime_ranges:
  "1 \<le> civ_month (gmtime s) \<and> civ_month (gmtime s) \<le> 12 \<and>
   1 \<le> civ_day (gmtime s) \<and> civ_day (gmtime s) \<le> 31 \<and>
   0 \<le> civ_hour (gmtime s) \<and> civ_hour (gmtime s) \<le> 23 \<and>
   0 \<le> civ_minute (gmtime s) \<and> civ_minute (gmtime s) \<le> 59 \<and>
   0 \<le> civ_second (gmtime s) \<and> civ_second (gmtime s) \<le> 59"
proof -
  obtain cycle year mp dom where
    b: "0 \<le> mp" "mp \<le> 11" "1 \<le> dom" "dom \<le> 31"
    and g: "gmtime s = \<lparr>civ_year = 400 * cycle + year + (if mp \<ge> 10 then 1 else 0),
       civ_month = (if mp < 10 then mp + 3 else mp - 9), civ_day = dom,
       civ_hour = s mod 86400 div 3600, civ_minute = s mod 86400 mod 3600 div 60,
       civ_second = s mod 86400 mod 60\<rparr>"
    using gmtime_parts [of s] by metis
  define h m t where "h = s mod 86400 div 3600" and "m = s mod 86400 mod 3600 div 60"
    and "t = s mod 86400 mod 60"
  have "h < 24" "m < 60" by (simp_all add: h_def m_def div_less_iff_less_mult)
  moreover have "0 \<le> h" "0 \<le> m" by (simp_all add: h_def m_def pos_imp_zdiv_nonneg_iff)
  moreover have "t < 60" "0 \<le> t" by (simp_all add: t_def)
  moreover have "civ_month (gmtime s) = (if mp < 10 then mp + 3 else mp - 9)" "civ_day (gmtime s) = dom"
    "civ_hour (gmtime s) = h" "civ_minute (gmtime s) = m" "civ_second (gmtime s) = t"
    unfolding g h_def m_def t_def by simp_all
  ultimately show ?thesis
    using b by (cases "mp < 10") simp_all
qed

text \<open>The years of 64-bit nanosecond timestamps have four digits.\<close>

definition int64_range :: "int \<Rightarrow> bool" where
  "int64_range v \<longleftrightarrow> - (2 ^ 63) \<le> v \<and> v < 2 ^ 63"

lemma gmtime_year_range:
  assumes "- 9223372037 \<le> s" "s \<le> 9223372036"
  shows "1000 \<le> civ_year (gmtime s) \<and> civ_year (gmtime s) \<le> 9999"
proof -
  obtain cycle year mp where
    b: "0 \<le> year" "year < 400"
    and g: "civ_year (gmtime s) = 400 * cycle + year + (if mp \<ge> (10 :: int) then 1 else 0)"
    and c: "cycle = (s div 86400 + 719468) div 146097"
    using gmtime_parts [of s] by (metis civil.select_convs(1))
  have lo: "- 106752 \<le> s div 86400" using zdiv_mono1 [OF assms(1), of 86400] by simp
  have hi: "s div 86400 \<le> 106751" using zdiv_mono1 [OF assms(2), of 86400] by simp
  have "(612716 :: int) div 146097 \<le> cycle" unfolding c using lo by (intro zdiv_mono1) simp_all
  moreover have "cycle \<le> (826219 :: int) div 146097" unfolding c using hi by (intro zdiv_mono1) simp_all
  ultimately have "4 \<le> cycle" "cycle \<le> 5" by simp_all
  then show ?thesis using b by (simp add: g)
qed

subsection \<open>The text round trip\<close>

lemma dec_value_Cons: "dec_value (c # cs) = digit_value c * 10 ^ length cs + dec_value cs"
proof (induction cs rule: rev_induct)
  case Nil
  then show ?case by (simp add: dec_value_def)
next
  case (snoc x xs)
  have "dec_value (c # xs @ [x]) = dec_value ((c # xs) @ [x])" by simp
  also have "\<dots> = (digit_value c * 10 ^ length xs + dec_value xs) * 10 + digit_value x"
    unfolding dec_value_append snoc.IH ..
  finally show ?case by (simp add: dec_value_append algebra_simps)
qed

lemma dec_value_zeros: "dec_value (replicate k (CHR ''0'') @ s) = dec_value s"
proof (induction k)
  case 0
  then show ?case by simp
next
  case (Suc k)
  have "digit_value (CHR ''0'') = 0" by (simp add: digit_value_def)
  then show ?case using Suc by (simp add: dec_value_Cons)
qed

lemma digits_value_all:
  "list_all is_digit s \<Longrightarrow> digits_value s acc = Some (acc * 10 ^ length s + int (dec_value s))"
proof (induction s arbitrary: acc)
  case Nil
  then show ?case by (simp add: dec_value_def)
next
  case (Cons c cs)
  then show ?case by (simp add: dec_value_Cons algebra_simps)
qed

lemma iso_fraction_all:
  "list_all is_digit cs \<Longrightarrow> length cs = Suc k \<Longrightarrow>
   iso_fraction t cs (10 ^ k) acc = Inr (acc + int (dec_value cs))"
proof (induction k arbitrary: cs acc)
  case 0
  then obtain c where "cs = [c]" by (auto simp: length_Suc_conv)
  with 0 show ?case by (simp add: dec_value_Cons) (simp add: dec_value_def)
next
  case (Suc k)
  then obtain c cs' where cs: "cs = c # cs'" "length cs' = Suc k" by (auto simp: length_Suc_conv)
  with Suc.prems Suc.IH [of cs'] show ?case by (simp add: dec_value_Cons algebra_simps)
qed

lemma length_dec_digits_le:
  "n < 10 ^ Suc w \<Longrightarrow> length (dec_digits n) \<le> Suc w"
proof (induction w arbitrary: n)
  case 0
  then show ?case by (simp add: dec_digits_small)
next
  case (Suc w)
  show ?case
  proof (cases "n < 10")
    case True
    then show ?thesis by (simp add: dec_digits_small)
  next
    case False
    have "n div 10 < 10 ^ Suc w" using Suc.prems by (simp add: div_less_iff_less_mult mult.commute)
    from Suc.IH [OF this] False show ?thesis by (simp add: dec_digits_big)
  qed
qed

lemma pad_digits_spec:
  assumes "0 \<le> v" "v < 10 ^ Suc w"
  shows "length (pad_digits (Suc w) v) = Suc w \<and> list_all is_digit (pad_digits (Suc w) v) \<and>
         int (dec_value (pad_digits (Suc w) v)) = v"
proof -
  have "nat v < 10 ^ Suc w" using assms by (metis nat_less_iff of_nat_numeral of_nat_power)
  from length_dec_digits_le [OF this] have "length (dec_digits (nat v)) \<le> Suc w" .
  moreover have p: "pad_digits (Suc w) v =
      replicate (Suc w - length (dec_digits (nat v))) (CHR ''0'') @ dec_digits (nat v)"
    using assms by (simp add: pad_digits_def int_to_string_def Let_def)
  moreover have "is_digit (CHR ''0'')" by (simp add: is_digit_iff)
  ultimately show ?thesis
    using assms dec_digits_all_digits [of "nat v"]
    by (auto simp: dec_value_zeros list_all_iff)
qed

lemma pad_digitsE:
  assumes "0 \<le> v" "v < 10 ^ w" "w \<noteq> 0"
  obtains ds where "pad_digits w v = ds" "length ds = w" "digits_value ds 0 = Some v"
    "list_all is_digit ds" "int (dec_value ds) = v"
proof -
  from assms(3) obtain w' where w: "w = Suc w'" by (cases w) auto
  have p: "length (pad_digits w v) = w" "list_all is_digit (pad_digits w v)"
    "int (dec_value (pad_digits w v)) = v"
    using pad_digits_spec [of v w'] assms(1,2) unfolding w by blast+
  show thesis
    by (rule that [OF refl p(1) _ p(2,3)]) (simp add: digits_value_all p(2,3))
qed

definition iso_text :: "string \<Rightarrow> string \<Rightarrow> string \<Rightarrow> string \<Rightarrow> string \<Rightarrow> string \<Rightarrow> string \<Rightarrow> string" where
  "iso_text y mo d h mi s f =
     y @ ''-'' @ mo @ ''-'' @ d @ ''T'' @ h @ '':'' @ mi @ '':'' @ s @ ''.'' @ f @ ''Z''"

lemma iso_text_slices:
  assumes "length y = 4" "length mo = 2" "length d = 2" "length h = 2" "length mi = 2"
    "length s = 2" "length f = 9"
  defines "t \<equiv> iso_text y mo d h mi s f"
  shows "length t = 30 \<and> t ! 4 = CHR ''-'' \<and> t ! 7 = CHR ''-'' \<and> t ! 10 = CHR ''T'' \<and>
    t ! 13 = CHR '':'' \<and> t ! 16 = CHR '':'' \<and> t ! 19 = CHR ''.'' \<and> last t = CHR ''Z'' \<and>
    substr t 0 4 = y \<and> substr t 5 2 = mo \<and> substr t 8 2 = d \<and> substr t 11 2 = h \<and>
    substr t 14 2 = mi \<and> substr t 17 2 = s \<and> butlast (drop 20 t) = f"
proof -
  obtain y0 y1 y2 y3 where "y = [y0, y1, y2, y3]"
    using assms(1) by (auto simp: length_Suc_conv numeral_eq_Suc)
  moreover obtain m0 m1 where "mo = [m0, m1]"
    using assms(2) by (auto simp: length_Suc_conv numeral_eq_Suc)
  moreover obtain d0 d1 where "d = [d0, d1]"
    using assms(3) by (auto simp: length_Suc_conv numeral_eq_Suc)
  moreover obtain h0 h1 where "h = [h0, h1]"
    using assms(4) by (auto simp: length_Suc_conv numeral_eq_Suc)
  moreover obtain i0 i1 where "mi = [i0, i1]"
    using assms(5) by (auto simp: length_Suc_conv numeral_eq_Suc)
  moreover obtain s0 s1 where "s = [s0, s1]"
    using assms(6) by (auto simp: length_Suc_conv numeral_eq_Suc)
  ultimately show ?thesis
    using assms(7) by (simp add: t_def iso_text_def substr_def butlast_append)
qed

text \<open>Truncating division with the code's correction is division rounding down.\<close>

lemma c_div_floor:
  assumes "0 < b"
  shows "(if c_mod a b < 0 then c_div a b - 1 else c_div a b) = a div b \<and>
         (if c_mod a b < 0 then c_mod a b + b else c_mod a b) = a mod b"
proof (cases "a < 0")
  case False
  then have "c_mod a b = a mod b" by (simp add: c_mod_def c_div_def minus_div_mult_eq_mod)
  then show ?thesis using assms False by (simp add: c_div_def not_less)
next
  case True
  have m: "c_mod a b = - ((- a) mod b)"
    using True by (simp add: c_mod_def c_div_def minus_mod_eq_div_mult [symmetric])
  show ?thesis
  proof (cases "(- a) mod b = 0")
    case zero: True
    then have "b dvd a" by (simp add: mod_eq_0_iff_dvd)
    then show ?thesis using True m zero by (simp add: c_div_def dvd_neg_div)
  next
    case nz: False
    then have "a mod b \<noteq> 0" by (simp add: mod_eq_0_iff_dvd)
    then have "(- a) div b = - (a div b) - 1" "(- a) mod b = b - a mod b"
      using assms by (simp_all add: zdiv_zminus1_eq_if zmod_zminus1_eq_if)
    moreover have "(- a) mod b > 0" using nz assms by (simp add: order.not_eq_order_implies_strict)
    ultimately show ?thesis using True m by (simp add: c_div_def)
  qed
qed

lemma iso8601_render_parse:
  assumes "int64_range n"
  shows "parse_iso8601 (to_iso8601 n) =
    (if - 1000000000 \<le> n \<and> n < 0
     then fail EC_invalid_argument ''timestamp could not be converted'' (to_iso8601 n)
     else Inr n)"
proof -
  define s f where "s = n div 1000000000" and "f = n mod 1000000000"
  have nsf: "s * 1000000000 + f = n" by (simp add: s_def f_def)
  have f: "0 \<le> f" "f < 10 ^ 9" by (simp_all add: f_def)
  have "- 9223372037 \<le> s"
    using zdiv_mono1 [of "- (2 ^ 63)" n 1000000000] assms by (simp add: s_def int64_range_def)
  moreover have "s \<le> 9223372036"
    using zdiv_mono1 [of n "2 ^ 63" 1000000000] assms by (simp add: s_def int64_range_def)
  ultimately have year: "1000 \<le> civ_year (gmtime s)" "civ_year (gmtime s) \<le> 9999"
    using gmtime_year_range by simp_all
  note r = gmtime_ranges [of s]
  define u where "u = gmtime s"
  have text_eq: "to_iso8601 n = iso_text (pad_digits 4 (civ_year u)) (pad_digits 2 (civ_month u))
      (pad_digits 2 (civ_day u)) (pad_digits 2 (civ_hour u)) (pad_digits 2 (civ_minute u))
      (pad_digits 2 (civ_second u)) (pad_digits 9 f)"
    using c_div_floor [of 1000000000 n]
    by (simp add: to_iso8601_def Let_def iso_text_def u_def s_def f_def split: if_splits)
  obtain y where y: "pad_digits 4 (civ_year u) = y" "length y = 4" "digits_value y 0 = Some (civ_year u)"
    by (rule pad_digitsE [of "civ_year u" 4]) (use year in \<open>simp_all add: u_def\<close>)
  obtain mo where mo: "pad_digits 2 (civ_month u) = mo" "length mo = 2" "digits_value mo 0 = Some (civ_month u)"
    by (rule pad_digitsE [of "civ_month u" 2]) (use r in \<open>simp_all add: u_def\<close>)
  obtain d where d: "pad_digits 2 (civ_day u) = d" "length d = 2" "digits_value d 0 = Some (civ_day u)"
    by (rule pad_digitsE [of "civ_day u" 2]) (use r in \<open>simp_all add: u_def\<close>)
  obtain h where h: "pad_digits 2 (civ_hour u) = h" "length h = 2" "digits_value h 0 = Some (civ_hour u)"
    by (rule pad_digitsE [of "civ_hour u" 2]) (use r in \<open>simp_all add: u_def\<close>)
  obtain mi where mi: "pad_digits 2 (civ_minute u) = mi" "length mi = 2" "digits_value mi 0 = Some (civ_minute u)"
    by (rule pad_digitsE [of "civ_minute u" 2]) (use r in \<open>simp_all add: u_def\<close>)
  obtain se where se: "pad_digits 2 (civ_second u) = se" "length se = 2" "digits_value se 0 = Some (civ_second u)"
    by (rule pad_digitsE [of "civ_second u" 2]) (use r in \<open>simp_all add: u_def\<close>)
  obtain fr where fr: "pad_digits 9 f = fr" "length fr = 9" "list_all is_digit fr" "int (dec_value fr) = f"
    by (rule pad_digitsE [OF f]) simp_all
  let ?t = "iso_text y mo d h mi se fr"
  have frac: "iso_fraction ?t fr 100000000 0 = Inr f"
    using iso_fraction_all [OF fr(3), of 8 ?t 0] fr(2,4) by simp
  have civil: "\<lparr>civ_year = civ_year u, civ_month = civ_month u, civ_day = civ_day u,
      civ_hour = civ_hour u, civ_minute = civ_minute u, civ_second = civ_second u\<rparr> = u" by simp
  have range: "\<not> (civ_month u < 1 \<or> civ_month u > 12 \<or> civ_day u < 1 \<or> civ_day u > 31 \<or>
      civ_hour u > 23 \<or> civ_minute u > 59 \<or> civ_second u > 60)"
    using r by (auto simp: u_def)
  have minus: "s = - 1 \<longleftrightarrow> - 1000000000 \<le> n \<and> n < 0"
    using nsf f by (auto simp: s_def)
  have "parse_iso8601 ?t =
    (if s = - 1 then fail EC_invalid_argument ''timestamp could not be converted'' ?t else Inr n)"
    using iso_text_slices [OF y(2) mo(2) d(2) h(2) mi(2) se(2) fr(2)] range
    by (simp add: parse_iso8601_def iso_digits_def y(3) mo(3) d(3) h(3) mi(3) se(3) frac civil
        timegm_gmtime u_def [symmetric] Let_def)
      (simp add: u_def timegm_gmtime nsf)
  then show ?thesis
    unfolding text_eq y(1) mo(1) d(1) h(1) mi(1) se(1) fr(1) minus .
qed

text \<open>
  C19: every 64-bit timestamp reads back from its rendering to the nanosecond, before and after the epoch,
  except in the last second of 1969, where the parser takes the valid result -1 of
  \<open>timegm\<close> for a failure.
\<close>

theorem iso8601_roundtrip:
  assumes "int64_range n"
  shows "parse_iso8601 (to_iso8601 n) =
    (if - 1000000000 \<le> n \<and> n < 0
     then fail EC_invalid_argument ''timestamp could not be converted'' (to_iso8601 n)
     else Inr n)"
  using assms by (rule iso8601_render_parse)

lemma iso8601_roundtrip_witness:
  "parse_iso8601 (to_iso8601 1700000000123456789) = Inr 1700000000123456789"
  using iso8601_roundtrip [of 1700000000123456789] by (simp add: int64_range_def)

definition ts_ok :: "timestamp \<Rightarrow> bool" where
  "ts_ok t \<longleftrightarrow> int64_range t \<and> \<not> (- 1000000000 \<le> t \<and> t < 0)"

lemma parse_iso8601_ok [simp, codec_simps]: "ts_ok t \<Longrightarrow> parse_iso8601 (to_iso8601 t) = Inr t"
  by (simp add: ts_ok_def iso8601_render_parse)

lemma ts_ok_zero [simp]: "ts_ok 0"
  by (simp add: ts_ok_def int64_range_def)

end
