(* ===== verification/Model_Version.thy ===== *)
theory Model_Version
  imports Core_Json "HOL-Library.Product_Lexorder"
begin

text \<open>
  Versions and constraints (\<open>model/version\<close>): the parser of \<open>major.minor.patch[-prerelease]\<close>,
  the comparison in which a release outranks its prereleases, single constraints and comma
  separated ranges.  The lemmas show that the comparison is the strict lexicographic order on a key,
  and that rendering and parsing are inverse.
\<close>

record version =
  ver_major :: u32
  ver_minor :: u32
  ver_patch :: u32
  ver_prerelease :: string
  ver_text :: string

definition version_text_of :: "u32 \<Rightarrow> u32 \<Rightarrow> u32 \<Rightarrow> string \<Rightarrow> string" where
  "version_text_of major minor patch prerelease =
     u32_to_string major @ ''.'' @ u32_to_string minor @ ''.'' @ u32_to_string patch @
     (if prerelease \<noteq> [] then CHR ''-'' # prerelease else [])"

definition make_version :: "u32 \<Rightarrow> u32 \<Rightarrow> u32 \<Rightarrow> string \<Rightarrow> version" where
  "make_version major minor patch prerelease =
     \<lparr>ver_major = major, ver_minor = minor, ver_patch = patch, ver_prerelease = prerelease,
      ver_text = version_text_of major minor patch prerelease\<rparr>"

text \<open>\<open>Version()\<close>: no text, which is how the code tells an unreported version.\<close>

definition empty_version :: version where
  "empty_version = \<lparr>ver_major = 0, ver_minor = 0, ver_patch = 0, ver_prerelease = [], ver_text = []\<rparr>"

definition ver_empty :: "version \<Rightarrow> bool" where
  "ver_empty v \<longleftrightarrow> ver_text v = []"

text \<open>\<open>std::from_chars\<close> on a whole token, for an unsigned 32-bit result.\<close>

definition from_chars_u32 :: "string \<Rightarrow> u32 option" where
  "from_chars_u32 t =
     (if t \<noteq> [] \<and> list_all is_digit t \<and> dec_value t < 2 ^ 32
      then Some (word_of_nat (dec_value t)) else None)"

definition parse_component :: "string \<Rightarrow> u32 result" where
  "parse_component t =
     (if t = [] then fail EC_invalid_argument ''version component is empty'' ''''
      else if length t > 1 \<and> hd t = CHR ''0''
      then fail EC_invalid_argument ''version component has a leading zero'' t
      else (case from_chars_u32 t of
              None \<Rightarrow> fail EC_invalid_argument ''version component is not a number'' t
            | Some value \<Rightarrow> Inr value))"

definition prerelease_char :: "char \<Rightarrow> bool" where
  "prerelease_char c \<longleftrightarrow>
     (CHR ''a'' \<le> c \<and> c \<le> CHR ''z'') \<or> (CHR ''A'' \<le> c \<and> c \<le> CHR ''Z'') \<or>
     (CHR ''0'' \<le> c \<and> c \<le> CHR ''9'') \<or> c = CHR ''.'' \<or> c = CHR ''-''"

definition valid_prerelease :: "string \<Rightarrow> bool" where
  "valid_prerelease t \<longleftrightarrow> t \<noteq> [] \<and> list_all prerelease_char t"

definition version_parse :: "string \<Rightarrow> version result" where
  "version_parse t =
     (if t = [] \<or> length t > 64
      then fail EC_invalid_argument ''version text length is out of range'' t
      else case str_find t (CHR ''.'') 0 of
        None \<Rightarrow> fail EC_invalid_argument ''version must have major.minor.patch'' t
      | Some first_dot \<Rightarrow>
        (case str_find t (CHR ''.'') (first_dot + 1) of
           None \<Rightarrow> fail EC_invalid_argument ''version must have major.minor.patch'' t
         | Some second_dot \<Rightarrow>
           let tail = drop (second_dot + 1) t;
               dash = str_find tail (CHR ''-'') 0;
               prerelease = (case dash of None \<Rightarrow> [] | Some d \<Rightarrow> drop (d + 1) tail);
               patch_part = (case dash of None \<Rightarrow> tail | Some d \<Rightarrow> take d tail)
           in if dash \<noteq> None \<and> \<not> valid_prerelease prerelease
              then fail EC_invalid_argument ''version prerelease tag is malformed'' t
              else fum_try (parse_component (substr t 0 first_dot)) (\<lambda>major.
                   fum_try (parse_component (substr t (first_dot + 1) (second_dot - first_dot - 1))) (\<lambda>minor.
                   fum_try (parse_component patch_part) (\<lambda>patch.
                   Inr (make_version major minor patch prerelease))))))"

definition ver_compare :: "version \<Rightarrow> version \<Rightarrow> int" where
  "ver_compare a b =
     (if ver_major a \<noteq> ver_major b then if ver_major a < ver_major b then - 1 else 1
      else if ver_minor a \<noteq> ver_minor b then if ver_minor a < ver_minor b then - 1 else 1
      else if ver_patch a \<noteq> ver_patch b then if ver_patch a < ver_patch b then - 1 else 1
      else if ver_prerelease a = ver_prerelease b then 0
      else if ver_prerelease a = [] then 1
      else if ver_prerelease b = [] then - 1
      else if ver_prerelease a < ver_prerelease b then - 1 else 1)"

definition ver_eq :: "version \<Rightarrow> version \<Rightarrow> bool" where
  "ver_eq a b \<longleftrightarrow> ver_compare a b = 0"

definition ver_less :: "version \<Rightarrow> version \<Rightarrow> bool" where
  "ver_less a b \<longleftrightarrow> ver_compare a b < 0"

definition ver_greater :: "version \<Rightarrow> version \<Rightarrow> bool" where
  "ver_greater a b \<longleftrightarrow> ver_compare a b > 0"

definition release_distance :: "version \<Rightarrow> version \<Rightarrow> int" where
  "release_distance a b =
     (uint (ver_major a) * 1000000 + uint (ver_minor a) * 1000 + uint (ver_patch a)) -
     (uint (ver_major b) * 1000000 + uint (ver_minor b) * 1000 + uint (ver_patch b))"

datatype constraint_operator =
    CO_equal | CO_not_equal | CO_less | CO_less_equal | CO_greater | CO_greater_equal
  | CO_compatible_major | CO_compatible_minor

fun constraint_operator_symbol :: "constraint_operator \<Rightarrow> string" where
  "constraint_operator_symbol CO_equal = ''=''"
| "constraint_operator_symbol CO_not_equal = ''!=''"
| "constraint_operator_symbol CO_less = ''<''"
| "constraint_operator_symbol CO_less_equal = ''<=''"
| "constraint_operator_symbol CO_greater = ''>''"
| "constraint_operator_symbol CO_greater_equal = ''>=''"
| "constraint_operator_symbol CO_compatible_major = ''^''"
| "constraint_operator_symbol CO_compatible_minor = ''~''"

record version_constraint =
  con_op :: constraint_operator
  con_version :: version

definition trim_spaces :: "string \<Rightarrow> string" where
  "trim_spaces t =
     rev (dropWhile (\<lambda>c. c = CHR '' '') (rev (dropWhile (\<lambda>c. c = CHR '' '') t)))"

definition constraint_prefix :: "string \<Rightarrow> constraint_operator \<times> nat" where
  "constraint_prefix body =
     (if take 2 body = ''!='' then (CO_not_equal, 2)
      else if take 2 body = ''>='' then (CO_greater_equal, 2)
      else if take 2 body = ''<='' then (CO_less_equal, 2)
      else if take 1 body = ''>'' then (CO_greater, 1)
      else if take 1 body = ''<'' then (CO_less, 1)
      else if take 1 body = ''='' then (CO_equal, 1)
      else if take 1 body = ''^'' then (CO_compatible_major, 1)
      else if take 1 body = ''~'' then (CO_compatible_minor, 1)
      else (CO_equal, 0))"

definition constraint_parse :: "string \<Rightarrow> version_constraint result" where
  "constraint_parse t =
     (let body = trim_spaces t;
          (op, consumed) = constraint_prefix body
      in fum_try (version_parse (dropWhile (\<lambda>c. c = CHR '' '') (drop consumed body))) (\<lambda>parsed.
         Inr \<lparr>con_op = op, con_version = parsed\<rparr>))"

definition constraint_matches :: "version_constraint \<Rightarrow> version \<Rightarrow> bool" where
  "constraint_matches c candidate =
     (let order = ver_compare candidate (con_version c) in
      case con_op c of
        CO_equal \<Rightarrow> order = 0
      | CO_not_equal \<Rightarrow> order \<noteq> 0
      | CO_less \<Rightarrow> order < 0
      | CO_less_equal \<Rightarrow> order \<le> 0
      | CO_greater \<Rightarrow> order > 0
      | CO_greater_equal \<Rightarrow> order \<ge> 0
      | CO_compatible_major \<Rightarrow> ver_major candidate = ver_major (con_version c) \<and> order \<ge> 0
      | CO_compatible_minor \<Rightarrow>
          ver_major candidate = ver_major (con_version c) \<and>
          ver_minor candidate = ver_minor (con_version c) \<and> order \<ge> 0)"

definition constraint_to_string :: "version_constraint \<Rightarrow> string" where
  "constraint_to_string c = constraint_operator_symbol (con_op c) @ ver_text (con_version c)"

type_synonym version_range = "version_constraint list"

function version_range_loop :: "string \<Rightarrow> nat \<Rightarrow> version_range \<Rightarrow> version_range result" where
  "version_range_loop t start acc =
     (if start \<le> length t then
        let comma = str_find t (CHR '','') start;
            piece = (case comma of None \<Rightarrow> drop start t | Some i \<Rightarrow> substr t start (i - start))
        in fum_try (if piece \<noteq> [] then fum_try (constraint_parse piece) (\<lambda>c. Inr (acc @ [c])) else Inr acc)
             (\<lambda>acc'. case comma of None \<Rightarrow> Inr acc' | Some i \<Rightarrow> version_range_loop t (i + 1) acc')
      else Inr acc)"
  by auto
termination
  by (relation "measure (\<lambda>(t, start, acc). Suc (length t) - start)")
    (auto dest: str_find_bounds [OF sym])

declare version_range_loop.simps [simp del]

definition version_range_parse :: "string \<Rightarrow> version_range result" where
  "version_range_parse t =
     (if length t > 512 then fail EC_invalid_argument ''version range text is too long'' ''''
      else fum_try (version_range_loop t 0 []) (\<lambda>constraints.
           if constraints = [] then fail EC_invalid_argument ''version range is empty'' ''''
           else Inr constraints))"

definition range_admits :: "version_range \<Rightarrow> version \<Rightarrow> bool" where
  "range_admits cs candidate \<longleftrightarrow> cs = [] \<or> list_all (\<lambda>c. constraint_matches c candidate) cs"

definition range_to_string :: "version_range \<Rightarrow> string" where
  "range_to_string cs = join_with '','' (map constraint_to_string cs)"

subsection \<open>The comparison is a total order on a key\<close>

definition ver_key :: "version \<Rightarrow> u32 \<times> u32 \<times> u32 \<times> bool \<times> string" where
  "ver_key v = (ver_major v, ver_minor v, ver_patch v, ver_prerelease v = [], ver_prerelease v)"

lemma ver_compare_cases:
  "ver_compare a b = (if ver_key a = ver_key b then 0 else if ver_key a < ver_key b then - 1 else 1)"
  by (auto simp: ver_compare_def ver_key_def)

lemma ver_eq_key: "ver_eq a b \<longleftrightarrow> ver_key a = ver_key b"
  by (simp add: ver_eq_def ver_compare_cases)

lemma ver_less_key: "ver_less a b \<longleftrightarrow> ver_key a < ver_key b"
  by (auto simp: ver_less_def ver_compare_cases)

lemma ver_greater_key: "ver_greater a b \<longleftrightarrow> ver_key b < ver_key a"
  by (auto simp: ver_greater_def ver_compare_cases)

lemma ver_eq_refl [simp]: "ver_eq a a"
  by (simp add: ver_eq_key)

lemma ver_eq_sym: "ver_eq a b \<longleftrightarrow> ver_eq b a"
  by (auto simp: ver_eq_key)

lemma ver_eq_trans: "ver_eq a b \<Longrightarrow> ver_eq b c \<Longrightarrow> ver_eq a c"
  by (simp add: ver_eq_key)

lemma ver_trichotomy: "ver_less a b \<or> ver_eq a b \<or> ver_greater a b"
  unfolding ver_less_key ver_eq_key ver_greater_key by auto

subsection \<open>Rendering and parsing are inverse\<close>

lemma digit_list_all: "list_all is_digit (dec_digits n)"
  using dec_digits_all_digits by (simp add: list_all_iff)

lemma parse_component_u32 [simp]: "parse_component (u32_to_string w) = Inr w"
proof -
  have "unat w < 2 ^ 32" using unsigned_less [of w] by simp
  moreover have "\<not> (length (u32_to_string w) > 1 \<and> hd (u32_to_string w) = CHR ''0'')"
    unfolding u32_to_string_def using dec_digits_no_leading_zero by blast
  ultimately show ?thesis
    by (simp add: parse_component_def from_chars_u32_def u32_to_string_def digit_list_all)
qed

definition version_wf :: "version \<Rightarrow> bool" where
  "version_wf v \<longleftrightarrow>
     ver_text v = version_text_of (ver_major v) (ver_minor v) (ver_patch v) (ver_prerelease v) \<and>
     length (ver_text v) \<le> 64 \<and> (ver_prerelease v = [] \<or> valid_prerelease (ver_prerelease v))"

lemma version_wf_make:
  "version_wf v \<Longrightarrow> make_version (ver_major v) (ver_minor v) (ver_patch v) (ver_prerelease v) = v"
  by (simp add: make_version_def version_wf_def)

lemma u32_to_string_not_digit: "\<not> is_digit c \<Longrightarrow> c \<notin> set (u32_to_string w)"
  by (simp add: u32_to_string_def not_digit_notin_dec_digits)

lemma dot_dash_not_digit [simp]:
  "\<not> is_digit (CHR ''.'')" "\<not> is_digit (CHR ''-'')" "\<not> is_digit (CHR '','')" "\<not> is_digit (CHR '' '')"
  by (simp_all add: is_digit_iff)

lemma version_text_not_Nil [simp]: "version_text_of a b c p \<noteq> []"
  by (simp add: version_text_of_def)

lemma version_parse_render:
  assumes len: "length (version_text_of a b c p) \<le> 64" and p: "p = [] \<or> valid_prerelease p"
  shows "version_parse (version_text_of a b c p) = Inr (make_version a b c p)"
proof -
  let ?A = "u32_to_string a" and ?B = "u32_to_string b" and ?C = "u32_to_string c"
  define tail where "tail = ?C @ (if p \<noteq> [] then CHR ''-'' # p else [])"
  define t where "t = version_text_of a b c p"
  have t: "t = ?A @ CHR ''.'' # ?B @ CHR ''.'' # tail"
    by (simp add: t_def version_text_of_def tail_def)
  have f1: "str_find t (CHR ''.'') 0 = Some (length ?A)"
    unfolding t by (rule str_find_append) (simp add: u32_to_string_not_digit)
  have f2: "str_find t (CHR ''.'') (length ?A + 1) = Some (length ?A + 1 + length ?B)"
    using str_find_skip [of "CHR ''.''" ?B "?A @ [CHR ''.'']" tail]
    unfolding t by (simp add: u32_to_string_not_digit)
  have tl: "drop (length ?A + 1 + length ?B + 1) t = tail"
    unfolding t by simp
  have s1: "substr t 0 (length ?A) = ?A" unfolding t by (simp add: substr_def)
  have s2: "substr t (length ?A + 1) (length ?A + 1 + length ?B - length ?A - 1) = ?B"
    unfolding t by (simp add: substr_def)
  have dash: "str_find tail (CHR ''-'') 0 = (if p = [] then None else Some (length ?C))"
  proof (cases "p = []")
    case True
    then show ?thesis
      by (simp add: tail_def str_find_def index_of_None_iff u32_to_string_not_digit)
  next
    case False
    then show ?thesis
      using str_find_append [of "CHR ''-''" ?C p] by (simp add: tail_def u32_to_string_not_digit)
  qed
  have cut: "(case (if p = [] then None else Some (length ?C)) of None \<Rightarrow> [] | Some d \<Rightarrow> drop (d + 1) tail) = p"
    "(case (if p = [] then None else Some (length ?C)) of None \<Rightarrow> tail | Some d \<Rightarrow> take d tail) = ?C"
    by (simp_all add: tail_def)
  have ne: "t \<noteq> []" "\<not> length t > 64" using len by (simp_all add: t_def)
  have "version_parse t = Inr (make_version a b c p)"
    unfolding version_parse_def f1 using ne p
    by (simp only: if_False simp_thms option.case f2 Let_def tl dash cut s1 s2
        parse_component_u32 fum_try.simps) auto
  then show ?thesis by (simp add: t_def)
qed

lemma version_parse_text [simp, codec_simps]: "version_wf v \<Longrightarrow> version_parse (ver_text v) = Inr v"
  by (metis version_parse_render version_wf_def version_wf_make)

lemma version_text_chars:
  assumes "version_wf v" and "x \<in> set (ver_text v)"
  shows "prerelease_char x"
proof -
  have digit: "prerelease_char c" if "is_digit c" for c
    using that by (simp add: prerelease_char_def is_digit_def)
  have "prerelease_char c" if "c \<in> set (u32_to_string w)" for c w
    using that dec_digits_all_digits by (auto simp: u32_to_string_def intro: digit)
  moreover have "prerelease_char (CHR ''.'')" "prerelease_char (CHR ''-'')"
    by (simp_all add: prerelease_char_def)
  ultimately show ?thesis
    using assms by (auto simp: version_wf_def version_text_of_def valid_prerelease_def list_all_iff
        split: if_splits)
qed

lemma version_text_hd:
  assumes "version_wf v"
  shows "is_digit (hd (ver_text v))" "ver_text v \<noteq> []"
proof -
  obtain d ds where d: "u32_to_string (ver_major v) = d # ds"
    by (metis dec_digits_not_Nil list.exhaust u32_to_string_def)
  moreover have "is_digit d"
    using dec_digits_all_digits [of "unat (ver_major v)"] d by (simp add: u32_to_string_def)
  ultimately show "is_digit (hd (ver_text v))" "ver_text v \<noteq> []"
    using assms by (simp_all add: version_wf_def version_text_of_def)
qed

lemma trim_spaces_id:
  assumes "t \<noteq> []" "hd t \<noteq> CHR '' ''" "last t \<noteq> CHR '' ''"
  shows "trim_spaces t = t"
proof -
  have "dropWhile (\<lambda>c. c = CHR '' '') t = t"
    using assms(1,2) by (cases t) simp_all
  moreover have "dropWhile (\<lambda>c. c = CHR '' '') (rev t) = rev t"
    using assms(1,3) by (cases "rev t") (auto simp: last_rev [of "rev t", simplified] hd_rev)
  ultimately show ?thesis by (simp add: trim_spaces_def)
qed

definition constraint_wf :: "version_constraint \<Rightarrow> bool" where
  "constraint_wf c \<longleftrightarrow> version_wf (con_version c)"

lemma constraint_symbol_not_Nil [simp]: "constraint_operator_symbol op \<noteq> []"
  by (cases op) simp_all

lemma constraint_prefix_symbol:
  assumes "is_digit d"
  shows "constraint_prefix (constraint_operator_symbol op @ d # ds) =
    (op, length (constraint_operator_symbol op))"
proof -
  have "d \<noteq> CHR ''=''" using assms by (auto simp: is_digit_iff)
  then show ?thesis by (cases op) (simp_all add: constraint_prefix_def numeral_2_eq_2)
qed

lemma constraint_parse_to_string:
  assumes "constraint_wf c"
  shows "constraint_parse (constraint_to_string c) = Inr c"
proof -
  let ?v = "ver_text (con_version c)" and ?s = "constraint_operator_symbol (con_op c)"
  have wf: "version_wf (con_version c)" using assms by (simp add: constraint_wf_def)
  obtain d ds where v: "?v = d # ds" and d: "is_digit d"
    using version_text_hd [OF wf] by (cases ?v) auto
  have "\<not> prerelease_char (CHR '' '')" by (simp add: prerelease_char_def less_eq_char_def)
  then have last: "last ?v \<noteq> CHR '' ''"
    using version_text_chars [OF wf, of "last ?v"] v by (metis last_in_set list.distinct(1))
  have "hd ?s \<noteq> CHR '' ''" by (cases "con_op c") simp_all
  then have trim: "trim_spaces (?s @ ?v) = ?s @ ?v"
    using last v by (intro trim_spaces_id) simp_all
  have "d \<noteq> CHR '' ''" using d by (auto simp: is_digit_iff)
  then have front: "dropWhile (\<lambda>c. c = CHR '' '') ?v = ?v" using v by simp
  have prefix: "constraint_prefix (?s @ ?v) = (con_op c, length ?s)"
    unfolding v by (rule constraint_prefix_symbol [OF d])
  show ?thesis
    unfolding constraint_parse_def constraint_to_string_def Let_def trim prefix
    by (simp add: front version_parse_text [OF wf])
qed

lemma comma_notin_constraint:
  assumes "constraint_wf c"
  shows "CHR '','' \<notin> set (constraint_to_string c)"
proof -
  have "\<not> prerelease_char (CHR '','')" by (simp add: prerelease_char_def less_eq_char_def)
  then have "CHR '','' \<notin> set (ver_text (con_version c))"
    using version_text_chars [of "con_version c"] assms by (auto simp: constraint_wf_def)
  then show ?thesis by (cases "con_op c") (simp_all add: constraint_to_string_def)
qed

lemma version_range_loop_render:
  assumes "list_all constraint_wf cs" "cs \<noteq> []"
  shows "version_range_loop (pre @ range_to_string cs) (length pre) acc = Inr (acc @ cs)"
  using assms
proof (induction cs arbitrary: pre acc)
  case Nil
  then show ?case by simp
next
  case (Cons c cs)
  let ?p = "constraint_to_string c"
  have c: "constraint_wf c" using Cons.prems by simp
  note nocomma = comma_notin_constraint [OF c] and parse = constraint_parse_to_string [OF c]
  have ne: "?p \<noteq> []" by (simp add: constraint_to_string_def)
  show ?case
  proof (cases cs)
    case Nil
    have r: "range_to_string [c] = ?p" by (simp add: range_to_string_def)
    have "str_find (pre @ ?p) (CHR '','') (length pre) = None"
      using nocomma by (simp add: str_find_def index_of_None_iff)
    then show ?thesis
      unfolding Nil r by (subst version_range_loop.simps)
        (use ne parse in \<open>simp add: Let_def range_to_string_def\<close>)
  next
    case (Cons c' cs')
    then have r: "range_to_string (c # cs) = ?p @ CHR '','' # range_to_string cs"
      by (simp add: range_to_string_def)
    have find: "str_find (pre @ ?p @ CHR '','' # range_to_string cs) (CHR '','') (length pre) =
        Some (length pre + length ?p)"
      by (rule str_find_skip [OF nocomma])
    have IH: "version_range_loop ((pre @ ?p @ '','') @ range_to_string cs)
        (length (pre @ ?p @ '','')) (acc @ [c]) = Inr ((acc @ [c]) @ cs)"
      by (rule Cons.IH) (use Cons Cons.prems in simp_all)
    show ?thesis
      unfolding r
      by (subst version_range_loop.simps) (use find ne parse IH in \<open>simp add: substr_def Let_def\<close>)
  qed
qed

text \<open>
  A version range renders to a text that parses back to the same constraints, in the same
  order, whenever the range is not empty, its versions are well formed and the text is within the parser's
  bound; the versions, the operators and the separators all survive.
\<close>

theorem version_range_roundtrip:
  assumes "list_all constraint_wf cs" "cs \<noteq> []" "length (range_to_string cs) \<le> 512"
  shows "version_range_parse (range_to_string cs) = Inr cs"
  using version_range_loop_render [OF assms(1,2), of "[]" "[]"] assms(2,3)
  by (simp add: version_range_parse_def)

lemma version_range_roundtrip_witness:
  "version_range_parse (range_to_string
     [\<lparr>con_op = CO_greater_equal, con_version = make_version 1 2 0 []\<rparr>,
      \<lparr>con_op = CO_compatible_minor, con_version = make_version 1 4 2 ''rc.1''\<rparr>]) =
   Inr [\<lparr>con_op = CO_greater_equal, con_version = make_version 1 2 0 []\<rparr>,
        \<lparr>con_op = CO_compatible_minor, con_version = make_version 1 4 2 ''rc.1''\<rparr>]"
  by (rule version_range_roundtrip) code_simp+

end
