(* ===== verification/Model_Skew.thy ===== *)
theory Model_Skew
  imports Model_Version "HOL-Library.Multiset"
begin

text \<open>
  Version skew (\<open>model/skew\<close>): the budget with its waivers, the normalised distance kept at its
  32-bit width, the assessment of the live mix, and the JSON form of the budget.  The lemmas
  give the assessment a declarative reading and show that it does not depend on the order in
  which the live targets are listed.
\<close>

record skew_budget =
  sk_max_major :: u32
  sk_max_minor :: u32
  sk_max_patch :: u32
  sk_allowed_pairs :: "(version \<times> version) list"

definition default_skew_budget :: skew_budget where
  "default_skew_budget =
     \<lparr>sk_max_major = 0, sk_max_minor = 1, sk_max_patch = 8, sk_allowed_pairs = []\<rparr>"

definition skew_validate :: "skew_budget \<Rightarrow> status" where
  "skew_validate b =
     (if sk_max_major b > 64 \<or> sk_max_minor b > 4096 \<or> sk_max_patch b > 100000
      then fail EC_invalid_argument ''skew limits exceed the permitted bounds'' ''''
      else if length (sk_allowed_pairs b) > 64
      then fail EC_invalid_argument ''too many skew waivers declared'' ''''
      else if list_ex (\<lambda>(x, y). ver_empty x \<or> ver_empty y) (sk_allowed_pairs b)
      then fail EC_invalid_argument ''a skew waiver names an empty version'' ''''
      else ok_status)"

definition pair_allowed :: "skew_budget \<Rightarrow> version \<Rightarrow> version \<Rightarrow> bool" where
  "pair_allowed b x y =
     list_ex (\<lambda>(p, q). (ver_eq p x \<and> ver_eq q y) \<or> (ver_eq p y \<and> ver_eq q x)) (sk_allowed_pairs b)"

definition component_delta :: "u32 \<Rightarrow> u32 \<Rightarrow> u32" where
  "component_delta newest observed = (if newest > observed then newest - observed else 0)"

definition normalized_distance :: "version \<Rightarrow> version \<Rightarrow> u32" where
  "normalized_distance observed newest =
     component_delta (ver_major newest) (ver_major observed) * 1000000 +
     component_delta (ver_minor newest) (ver_minor observed) * 1000 +
     component_delta (ver_patch newest) (ver_patch observed)"

record skew_violation =
  sv_subject :: string
  sv_detail :: string
  sv_distance :: int

record skew_assessment =
  sa_within_budget :: bool
  sa_worst_distance :: u32
  sa_violations :: "skew_violation list"
  sa_summary :: string

definition skew_message :: "string \<Rightarrow> u32 \<Rightarrow> u32 \<Rightarrow> version \<Rightarrow> version \<Rightarrow> string" where
  "skew_message kind delta limit observed newest =
     kind @ '' skew '' @ u32_to_string delta @ '' exceeds the budget of '' @ u32_to_string limit @
     '' ('' @ ver_text observed @ '' vs '' @ ver_text newest @ '')''"

text \<open>One target of the loop: the violation it raises, if any.\<close>

definition skew_violation_of ::
    "skew_budget \<Rightarrow> version \<Rightarrow> string \<Rightarrow> version \<Rightarrow> skew_violation option" where
  "skew_violation_of b newest subject observed =
     (let major_delta = component_delta (ver_major newest) (ver_major observed);
          minor_delta = component_delta (ver_minor newest) (ver_minor observed);
          patch_delta = component_delta (ver_patch newest) (ver_patch observed);
          distance = uint (normalized_distance observed newest);
          violation = (\<lambda>detail. Some \<lparr>sv_subject = subject, sv_detail = detail, sv_distance = distance\<rparr>)
      in if ver_greater observed newest
         then violation (''the live target runs '' @ ver_text observed @
                ('', which is newer than the campaign artifact '' @ ver_text newest))
         else if major_delta > sk_max_major b
         then violation (skew_message ''major'' major_delta (sk_max_major b) observed newest)
         else if major_delta = 0 \<and> minor_delta > sk_max_minor b
         then violation (skew_message ''minor'' minor_delta (sk_max_minor b) observed newest)
         else if major_delta = 0 \<and> minor_delta = 0 \<and> patch_delta > sk_max_patch b
         then violation (skew_message ''patch'' patch_delta (sk_max_patch b) observed newest)
         else None)"

definition skew_step ::
    "skew_budget \<Rightarrow> version \<Rightarrow> skew_assessment \<times> nat \<Rightarrow> string \<times> version \<Rightarrow> skew_assessment \<times> nat" where
  "skew_step b newest acc entry =
     (let (a, mixed) = acc; (subject, observed) = entry;
          worst = a\<lparr>sa_worst_distance :=
                     max (sa_worst_distance a) (normalized_distance observed newest)\<rparr>
      in if ver_empty observed
         then (a\<lparr>sa_within_budget := False,
                 sa_violations := sa_violations a @
                   [\<lparr>sv_subject = subject,
                     sv_detail = ''the target reports no version while a campaign is in flight'',
                     sv_distance = 0\<rparr>]\<rparr>, mixed)
         else if ver_eq observed newest then (a, mixed)
         else if pair_allowed b observed newest then (worst, mixed + 1)
         else (case skew_violation_of b newest subject observed of
                 Some v \<Rightarrow> (worst\<lparr>sa_within_budget := False,
                                  sa_violations := sa_violations a @ [v]\<rparr>, mixed + 1)
               | None \<Rightarrow> (worst, mixed + 1)))"

definition skew_initial :: skew_assessment where
  "skew_initial =
     \<lparr>sa_within_budget = True, sa_worst_distance = 0, sa_violations = [], sa_summary = ''''\<rparr>"

definition skew_summary :: "skew_budget \<Rightarrow> skew_assessment \<times> nat \<Rightarrow> string" where
  "skew_summary b acc =
     (let (a, mixed) = acc in
      if sa_within_budget a
      then ''skew within budget: '' @ dec_digits mixed @
           '' target(s) on a different version, worst normalized distance '' @
           u32_to_string (sa_worst_distance a) @ '' (limits '' @ u32_to_string (sk_max_major b) @
           '' major / '' @ u32_to_string (sk_max_minor b) @ '' minor / '' @
           u32_to_string (sk_max_patch b) @ '' patch)''
      else ''skew budget exceeded with '' @ dec_digits (length (sa_violations a)) @
           '' violation(s)'')"

definition assess_skew :: "skew_budget \<Rightarrow> (string \<times> version) list \<Rightarrow> version \<Rightarrow> skew_assessment" where
  "assess_skew b live newest =
     (let acc = foldl (skew_step b newest) (skew_initial, 0) (sort_key fst live)
      in (fst acc)\<lparr>sa_summary := skew_summary b acc\<rparr>)"

subsection \<open>JSON\<close>

definition skew_pair_to_json :: "version \<times> version \<Rightarrow> json" where
  "skew_pair_to_json p =
     json_build [(''from'', JString (ver_text (fst p))), (''to'', JString (ver_text (snd p)))]"

definition skew_to_json :: "skew_budget \<Rightarrow> json" where
  "skew_to_json b =
     json_build
       [(''max_major_skew'', JUint (ucast (sk_max_major b))),
        (''max_minor_skew'', JUint (ucast (sk_max_minor b))),
        (''max_patch_skew'', JUint (ucast (sk_max_patch b))),
        (''allowed_pairs'', json_list skew_pair_to_json (sk_allowed_pairs b))]"

definition skew_limit_field :: "json \<Rightarrow> string \<Rightarrow> u32 \<Rightarrow> u32 result" where
  "skew_limit_field v key dflt =
     json_optional (\<lambda>item. fum_try (json_as_uint item) (\<lambda>parsed.
       if parsed > 0xFFFFFFFF then fail EC_invalid_argument ''skew limit is out of range'' key
       else Inr (ucast parsed))) v key dflt"

definition skew_pair_from_json :: "json \<Rightarrow> (version \<times> version) result" where
  "skew_pair_from_json item =
     fum_try (json_require_string item ''from'') (\<lambda>from_text.
     fum_try (json_require_string item ''to'') (\<lambda>to_text.
     fum_try (version_parse from_text) (\<lambda>x.
     fum_try (version_parse to_text) (\<lambda>y. Inr (x, y)))))"

definition skew_from_json :: "json \<Rightarrow> skew_budget result" where
  "skew_from_json v =
     (if \<not> json_is_object v
      then fail EC_invalid_argument ''skew budget must be a json object'' ''''
      else
        fum_try (skew_limit_field v ''max_major_skew'' (sk_max_major default_skew_budget)) (\<lambda>major.
        fum_try (skew_limit_field v ''max_minor_skew'' (sk_max_minor default_skew_budget)) (\<lambda>minor.
        fum_try (skew_limit_field v ''max_patch_skew'' (sk_max_patch default_skew_budget)) (\<lambda>patch.
        fum_try (json_optional (\<lambda>pairs.
            if \<not> json_is_array pairs
            then fail EC_invalid_argument ''allowed_pairs must be an array'' ''''
            else map_result skew_pair_from_json (json_items pairs)) v ''allowed_pairs'' []) (\<lambda>pairs.
        let out = \<lparr>sk_max_major = major, sk_max_minor = minor, sk_max_patch = patch,
                   sk_allowed_pairs = pairs\<rparr>
        in fum_try (skew_validate out) (\<lambda>_. Inr out))))))"

definition skew_wf :: "skew_budget \<Rightarrow> bool" where
  "skew_wf b \<longleftrightarrow> skew_validate b = ok_status \<and>
     (\<forall>(x, y) \<in> set (sk_allowed_pairs b). version_wf x \<and> version_wf y)"

lemma uint_ucast_u32_u64: "uint (ucast (w :: u32) :: u64) = uint w"
  using uint_lt2p [of w] by (simp add: unsigned_ucast_eq take_bit_int_eq_self)

lemma ucast_u32_bound: "\<not> (ucast (w :: u32) :: u64) > 0xFFFFFFFF"
proof -
  have "uint w < 2 ^ 32" using uint_lt2p [of w] by simp
  then show ?thesis by (simp add: word_less_def uint_ucast_u32_u64)
qed

lemma ucast_ucast_u32 [simp]: "ucast (ucast (w :: u32) :: u64) = w"
  by (rule bit_word_eqI) (auto simp: bit_simps dest: bit_imp_le_length)

lemma skew_limit_field_Some:
  "json_find v key = Some (JUint (ucast w)) \<Longrightarrow> skew_limit_field v key dflt = Inr w"
  using ucast_u32_bound [of w] by (simp add: skew_limit_field_def json_optional_def)

lemma skew_pair_roundtrip:
  "version_wf x \<Longrightarrow> version_wf y \<Longrightarrow> skew_pair_from_json (skew_pair_to_json (x, y)) = Inr (x, y)"
  by (simp add: skew_pair_from_json_def skew_pair_to_json_def codec_simps)

lemma skew_budget_eta [simp]:
  "\<lparr>sk_max_major = sk_max_major b, sk_max_minor = sk_max_minor b, sk_max_patch = sk_max_patch b,
    sk_allowed_pairs = sk_allowed_pairs b\<rparr> = b"
  by simp

lemma skew_roundtrip:
  assumes "skew_wf b"
  shows "skew_from_json (skew_to_json b) = Inr b"
proof -
  have pairs: "map_result skew_pair_from_json (map skew_pair_to_json (sk_allowed_pairs b)) =
      Inr (sk_allowed_pairs b)"
    using assms by (intro map_result_map) (auto simp: skew_wf_def skew_pair_roundtrip)
  have "skew_validate b = ok_status" using assms by (simp add: skew_wf_def)
  then show ?thesis
    unfolding skew_from_json_def
    using pairs by (simp add: skew_to_json_def skew_limit_field_Some json_optional_def Let_def)
qed

lemma skew_from_json_norm: "skew_from_json (json_norm v) = skew_from_json v"
proof -
  have field: "skew_limit_field (json_norm v) key dflt = skew_limit_field v key dflt" for key dflt
    by (simp add: skew_limit_field_def json_optional_def split: option.split)
  have pair: "skew_pair_from_json (json_norm x) = skew_pair_from_json x" for x
    by (simp add: skew_pair_from_json_def json_require_string_def json_require_def split: option.split)
  have "skew_pair_from_json \<circ> json_norm = skew_pair_from_json" by (simp add: pair fun_eq_iff)
  then show ?thesis
    by (simp add: skew_from_json_def field json_optional_def map_result_map_comp
        split: option.split cong: if_cong)
qed

definition violation_to_json :: "skew_violation \<Rightarrow> json" where
  "violation_to_json v = json_build
     [(''subject'', JString (sv_subject v)), (''detail'', JString (sv_detail v)),
      (''distance'', JInt (sv_distance v))]"

definition assessment_to_json :: "skew_assessment \<Rightarrow> json" where
  "assessment_to_json a = json_build
     [(''within_budget'', JBool (sa_within_budget a)),
      (''worst_distance'', JUint (ucast (sa_worst_distance a))),
      (''summary'', JString (sa_summary a)),
      (''violations'', json_list violation_to_json (sa_violations a))]"

subsection \<open>Reading the assessment\<close>

text \<open>When one live target is within budget.\<close>

definition skew_entry_ok :: "skew_budget \<Rightarrow> version \<Rightarrow> string \<times> version \<Rightarrow> bool" where
  "skew_entry_ok b newest entry \<longleftrightarrow>
     (let v = snd entry;
          major_delta = component_delta (ver_major newest) (ver_major v);
          minor_delta = component_delta (ver_minor newest) (ver_minor v);
          patch_delta = component_delta (ver_patch newest) (ver_patch v)
      in \<not> ver_empty v \<and>
         (ver_eq v newest \<or> pair_allowed b v newest \<or>
          \<not> ver_greater v newest \<and> major_delta \<le> sk_max_major b \<and>
          (major_delta = 0 \<longrightarrow> minor_delta \<le> sk_max_minor b) \<and>
          (major_delta = 0 \<and> minor_delta = 0 \<longrightarrow> patch_delta \<le> sk_max_patch b)))"

lemma skew_violation_of_None:
  "skew_violation_of b newest subject v = None \<longleftrightarrow>
     \<not> ver_greater v newest \<and>
     component_delta (ver_major newest) (ver_major v) \<le> sk_max_major b \<and>
     (component_delta (ver_major newest) (ver_major v) = 0 \<longrightarrow>
        component_delta (ver_minor newest) (ver_minor v) \<le> sk_max_minor b) \<and>
     (component_delta (ver_major newest) (ver_major v) = 0 \<and>
      component_delta (ver_minor newest) (ver_minor v) = 0 \<longrightarrow>
        component_delta (ver_patch newest) (ver_patch v) \<le> sk_max_patch b)"
  by (auto simp: skew_violation_of_def Let_def not_less)

lemma skew_violation_of_subject:
  "skew_violation_of b newest subject v = Some viol \<Longrightarrow> sv_subject viol = subject"
  by (auto simp: skew_violation_of_def Let_def split: if_splits)

lemma skew_step_within:
  "sa_within_budget (fst (skew_step b newest acc e)) \<longleftrightarrow>
     sa_within_budget (fst acc) \<and> skew_entry_ok b newest e"
proof -
  obtain a mixed subject v where [simp]: "acc = (a, mixed)" "e = (subject, v)"
    by (cases acc, cases e)
  show ?thesis
    using skew_violation_of_None [of b newest subject v]
    by (cases "skew_violation_of b newest subject v")
      (auto simp: skew_step_def skew_entry_ok_def Let_def)
qed

lemma skew_step_subjects:
  "map sv_subject (sa_violations (fst (skew_step b newest acc e))) =
     map sv_subject (sa_violations (fst acc)) @ (if skew_entry_ok b newest e then [] else [fst e])"
proof -
  obtain a mixed subject v where [simp]: "acc = (a, mixed)" "e = (subject, v)"
    by (cases acc, cases e)
  show ?thesis
    using skew_violation_of_None [of b newest subject v]
      skew_violation_of_subject [of b newest subject v]
    by (cases "skew_violation_of b newest subject v")
      (auto simp: skew_step_def skew_entry_ok_def Let_def)
qed

lemma skew_fold_within:
  "sa_within_budget (fst (foldl (skew_step b newest) acc es)) \<longleftrightarrow>
     sa_within_budget (fst acc) \<and> (\<forall>e \<in> set es. skew_entry_ok b newest e)"
  by (induction es arbitrary: acc) (auto simp: skew_step_within)

lemma skew_fold_subjects:
  "map sv_subject (sa_violations (fst (foldl (skew_step b newest) acc es))) =
     map sv_subject (sa_violations (fst acc)) @ map fst (filter (\<lambda>e. \<not> skew_entry_ok b newest e) es)"
  by (induction es arbitrary: acc) (simp_all add: skew_step_subjects)

lemma assess_skew_within:
  "sa_within_budget (assess_skew b live newest) \<longleftrightarrow> (\<forall>e \<in> set live. skew_entry_ok b newest e)"
  by (simp add: assess_skew_def Let_def skew_fold_within skew_initial_def)

lemma assess_skew_subjects:
  "map sv_subject (sa_violations (assess_skew b live newest)) =
     sort (map fst (filter (\<lambda>e. \<not> skew_entry_ok b newest e) live))"
proof -
  have "map fst (filter P (sort_key fst live)) = sort (map fst (filter P live))" for P :: "string \<times> version \<Rightarrow> bool"
  proof (rule properties_for_sort [symmetric])
    show "mset (map fst (filter P (sort_key fst live))) = mset (map fst (filter P live))"
      by (simp add: mset_filter)
    show "sorted (map fst (filter P (sort_key fst live)))"
      by (simp add: sorted_filter)
  qed
  then show ?thesis
    by (simp add: assess_skew_def Let_def skew_fold_subjects skew_initial_def)
qed

text \<open>
  The assessment of the live mix says what the budget means.  It is within budget exactly
  when every live target reports a version that is the newest one, or is waived against it, or
  trails it within the limits; the violations name exactly the other targets, in subject order;
  and listing the live targets in another order changes nothing in the answer.
\<close>

theorem assess_skew_correct:
  "(sa_within_budget (assess_skew b live newest) \<longleftrightarrow> (\<forall>e \<in> set live. skew_entry_ok b newest e)) \<and>
   map sv_subject (sa_violations (assess_skew b live newest)) =
     sort (map fst (filter (\<lambda>e. \<not> skew_entry_ok b newest e) live)) \<and>
   (mset live' = mset live \<and> distinct (map fst live) \<longrightarrow>
     assess_skew b live' newest = assess_skew b live newest)"
proof (intro conjI impI)
  assume h: "mset live' = mset live \<and> distinct (map fst live)"
  then have "set live' = set live" by (metis set_mset_mset)
  then have "inj_on fst (set live')" using h by (simp add: distinct_map)
  then have "sort_key fst live' = sort_key fst live"
    using h by (intro sort_key_inj_key_eq) simp_all
  then show "assess_skew b live' newest = assess_skew b live newest"
    by (simp add: assess_skew_def)
qed (rule assess_skew_within, rule assess_skew_subjects)

lemma assess_skew_witness:
  "sa_within_budget (assess_skew default_skew_budget
     [(''b'', make_version 1 4 0 []), (''a'', make_version 1 3 0 [])] (make_version 1 4 0 [])) \<and>
   assess_skew default_skew_budget
     [(''b'', make_version 1 4 0 []), (''a'', make_version 1 3 0 [])] (make_version 1 4 0 []) =
   assess_skew default_skew_budget
     [(''a'', make_version 1 3 0 []), (''b'', make_version 1 4 0 [])] (make_version 1 4 0 [])"
proof -
  have e: "skew_entry_ok default_skew_budget (make_version 1 4 0 []) (''b'', make_version 1 4 0 [])"
    "skew_entry_ok default_skew_budget (make_version 1 4 0 []) (''a'', make_version 1 3 0 [])"
    by code_simp+
  show ?thesis
    using assess_skew_correct [of default_skew_budget
        "[(''a'', make_version 1 3 0 []), (''b'', make_version 1 4 0 [])]" "make_version 1 4 0 []"
        "[(''b'', make_version 1 4 0 []), (''a'', make_version 1 3 0 [])]"]
      assess_skew_correct [of default_skew_budget
        "[(''b'', make_version 1 4 0 []), (''a'', make_version 1 3 0 [])]" "make_version 1 4 0 []" "[]"] e
    by (simp add: add_mset_commute)
qed

subsection \<open>The 32-bit distance\<close>

lemma unat_component_delta:
  "unat (component_delta a b) = unat a - unat b"
  by (auto simp: component_delta_def word_less_nat_alt word_le_nat_alt unat_sub not_less)

lemma unat_distance:
  assumes "unat a * 1000000 + unat b * 1000 + unat c < 2 ^ 32"
  shows "unat ((a :: u32) * 1000000 + b * 1000 + c) = unat a * 1000000 + unat b * 1000 + unat c"
proof -
  have eq: "a * 1000000 + b * 1000 + c = word_of_nat (unat a * 1000000 + unat b * 1000 + unat c)"
    by simp
  show ?thesis
    unfolding eq using assms by (simp add: unat_of_nat take_bit_nat_eq_self del: of_nat_add of_nat_mult)
qed

text \<open>
  The normalised distance is the exact weighted sum of the three deltas as long as that sum
  fits 32 bits.  (Past that it wraps around: \<open>normalized_distance_wraps\<close> is a target thousands
  of releases behind that scores zero.)
\<close>

theorem normalized_distance_bounds:
  "(unat (ver_major newest) - unat (ver_major v)) * 1000000 +
   (unat (ver_minor newest) - unat (ver_minor v)) * 1000 +
   (unat (ver_patch newest) - unat (ver_patch v)) < 2 ^ 32 \<Longrightarrow>
   unat (normalized_distance v newest) =
     (unat (ver_major newest) - unat (ver_major v)) * 1000000 +
     (unat (ver_minor newest) - unat (ver_minor v)) * 1000 +
     (unat (ver_patch newest) - unat (ver_patch v))"
  unfolding normalized_distance_def
  by (subst unat_distance) (simp_all add: unat_component_delta)

lemma normalized_distance_bounds_witness:
  "unat (normalized_distance (make_version 1 2 3 []) (make_version 1 4 9 [])) = 2006"
  using normalized_distance_bounds [of "make_version 1 4 9 []" "make_version 1 2 3 []"]
  by (simp add: make_version_def)

lemma normalized_distance_wraps:
  "ver_less (make_version 0 0 0 []) (make_version 4294 967 296 []) \<and>
   normalized_distance (make_version 0 0 0 []) (make_version 4294 967 296 []) = 0"
  by (simp add: ver_less_def ver_compare_def normalized_distance_def component_delta_def
      make_version_def word_less_def)

end
