(* ===== verification/Model_Lifecycle.thy ===== *)
theory Model_Lifecycle
  imports Core_Result
begin

text \<open>
  The upgrade lifecycle (\<open>model/lifecycle\<close>): campaign, attempt and stage states, the rule
  table with the guards each move needs, its evaluation, and the step relation the table induces.
  A campaign only ever moves through \<open>evaluate_transition\<close>; the runs of the relation
  are what the later theories reason about.
\<close>

datatype upgrade_state =
    US_proposed
  | US_validated
  | US_prepared
  | US_staged
  | US_activating
  | US_verifying
  | US_completed
  | US_blocked
  | US_paused
  | US_failed
  | US_rollback_planned
  | US_rolling_back
  | US_rolled_back

fun upgrade_state_name :: "upgrade_state \<Rightarrow> string" where
  "upgrade_state_name US_proposed = ''proposed''"
| "upgrade_state_name US_validated = ''validated''"
| "upgrade_state_name US_prepared = ''prepared''"
| "upgrade_state_name US_staged = ''staged''"
| "upgrade_state_name US_activating = ''activating''"
| "upgrade_state_name US_verifying = ''verifying''"
| "upgrade_state_name US_completed = ''completed''"
| "upgrade_state_name US_blocked = ''blocked''"
| "upgrade_state_name US_paused = ''paused''"
| "upgrade_state_name US_failed = ''failed''"
| "upgrade_state_name US_rollback_planned = ''rollback-planned''"
| "upgrade_state_name US_rolling_back = ''rolling-back''"
| "upgrade_state_name US_rolled_back = ''rolled-back''"

text \<open>\<open>static_cast<UpgradeState>(i)\<close> for \<open>i < kUpgradeStateCount\<close>.\<close>

definition all_upgrade_states :: "upgrade_state list" where
  "all_upgrade_states =
     [US_proposed, US_validated, US_prepared, US_staged,
      US_activating, US_verifying, US_completed, US_blocked,
      US_paused, US_failed, US_rollback_planned, US_rolling_back,
      US_rolled_back]"

fun parse_by_name :: "('a \<Rightarrow> string) \<Rightarrow> 'a list \<Rightarrow> string \<Rightarrow> 'a option" where
  "parse_by_name name [] t = None"
| "parse_by_name name (s # ss) t = (if t = name s then Some s else parse_by_name name ss t)"

definition parse_upgrade_state :: "string \<Rightarrow> upgrade_state result" where
  "parse_upgrade_state t =
     (case parse_by_name upgrade_state_name all_upgrade_states t of
        Some s \<Rightarrow> Inr s
      | None \<Rightarrow> fail EC_invalid_argument ''unknown upgrade state'' t)"

definition upgrade_state_is_terminal :: "upgrade_state \<Rightarrow> bool" where
  "upgrade_state_is_terminal s \<longleftrightarrow> s = US_completed \<or> s = US_rolled_back"

definition upgrade_state_is_active :: "upgrade_state \<Rightarrow> bool" where
  "upgrade_state_is_active s \<longleftrightarrow> s = US_activating \<or> s = US_verifying \<or> s = US_rolling_back"

definition upgrade_state_permits_pause :: "upgrade_state \<Rightarrow> bool" where
  "upgrade_state_permits_pause s \<longleftrightarrow>
     s = US_validated \<or> s = US_prepared \<or> s = US_staged \<or> s = US_paused \<or> s = US_blocked"

definition upgrade_state_is_pre_activation :: "upgrade_state \<Rightarrow> bool" where
  "upgrade_state_is_pre_activation s \<longleftrightarrow>
     s = US_proposed \<or> s = US_validated \<or> s = US_prepared \<or> s = US_staged \<or> s = US_paused \<or>
     s = US_blocked"

datatype attempt_state =
    AS_created
  | AS_preparing
  | AS_prepared
  | AS_activating
  | AS_activated
  | AS_verifying
  | AS_verified
  | AS_failed
  | AS_aborted
  | AS_rolled_back
  | AS_abandoned
  | AS_rolling_back

fun attempt_state_name :: "attempt_state \<Rightarrow> string" where
  "attempt_state_name AS_created = ''created''"
| "attempt_state_name AS_preparing = ''preparing''"
| "attempt_state_name AS_prepared = ''prepared''"
| "attempt_state_name AS_activating = ''activating''"
| "attempt_state_name AS_activated = ''activated''"
| "attempt_state_name AS_verifying = ''verifying''"
| "attempt_state_name AS_verified = ''verified''"
| "attempt_state_name AS_failed = ''failed''"
| "attempt_state_name AS_aborted = ''aborted''"
| "attempt_state_name AS_rolled_back = ''rolled-back''"
| "attempt_state_name AS_abandoned = ''abandoned''"
| "attempt_state_name AS_rolling_back = ''rolling-back''"

definition attempt_state_is_terminal :: "attempt_state \<Rightarrow> bool" where
  "attempt_state_is_terminal s \<longleftrightarrow>
     s = AS_verified \<or> s = AS_failed \<or> s = AS_aborted \<or> s = AS_rolled_back \<or> s = AS_abandoned"

definition attempt_state_is_in_flight :: "attempt_state \<Rightarrow> bool" where
  "attempt_state_is_in_flight s \<longleftrightarrow>
     s = AS_preparing \<or> s = AS_activating \<or> s = AS_verifying \<or> s = AS_rolling_back"

definition attempt_state_is_recoverable :: "attempt_state \<Rightarrow> bool" where
  "attempt_state_is_recoverable s \<longleftrightarrow> s = AS_prepared \<or> s = AS_activated \<or> s = AS_verified"

datatype stage_state =
    SS_pending
  | SS_preparing
  | SS_prepared
  | SS_activating
  | SS_activating_partial
  | SS_verifying
  | SS_completed
  | SS_failed
  | SS_blocked
  | SS_skipped

fun stage_state_name :: "stage_state \<Rightarrow> string" where
  "stage_state_name SS_pending = ''pending''"
| "stage_state_name SS_preparing = ''preparing''"
| "stage_state_name SS_prepared = ''prepared''"
| "stage_state_name SS_activating = ''activating''"
| "stage_state_name SS_activating_partial = ''activating-partial''"
| "stage_state_name SS_verifying = ''verifying''"
| "stage_state_name SS_completed = ''completed''"
| "stage_state_name SS_failed = ''failed''"
| "stage_state_name SS_blocked = ''blocked''"
| "stage_state_name SS_skipped = ''skipped''"

definition stage_state_is_terminal :: "stage_state \<Rightarrow> bool" where
  "stage_state_is_terminal s \<longleftrightarrow> s = SS_completed \<or> s = SS_failed \<or> s = SS_skipped"

subsection \<open>Guards and rules\<close>

record transition_guards =
  g_preflight_current :: bool
  g_artifact_integrity_verified :: bool
  g_rollback_plan_recorded :: bool
  g_irreversible_acknowledged :: bool
  g_adapter_supports_strategy :: bool
  g_staging_complete :: bool
  g_activation_complete :: bool
  g_verification_fresh_passed :: bool
  g_skew_within_budget :: bool
  g_drain_satisfied :: bool
  g_all_stages_complete :: bool
  g_failure_recorded :: bool
  g_rollback_eligible :: bool
  g_rollback_complete :: bool
  g_manual_release_required :: bool

definition no_guards :: transition_guards where
  "no_guards =
     \<lparr>g_preflight_current = False,
      g_artifact_integrity_verified = False,
      g_rollback_plan_recorded = False,
      g_irreversible_acknowledged = False,
      g_adapter_supports_strategy = False,
      g_staging_complete = False,
      g_activation_complete = False,
      g_verification_fresh_passed = False,
      g_skew_within_budget = False,
      g_drain_satisfied = False,
      g_all_stages_complete = False,
      g_failure_recorded = False,
      g_rollback_eligible = False,
      g_rollback_complete = False,
      g_manual_release_required = False\<rparr>"

datatype guard =
    G_preflight_current
  | G_artifact_integrity_verified
  | G_rollback_plan_recorded
  | G_irreversible_acknowledged
  | G_adapter_supports_strategy
  | G_staging_complete
  | G_activation_complete
  | G_verification_fresh_passed
  | G_skew_within_budget
  | G_drain_satisfied
  | G_all_stages_complete
  | G_failure_recorded
  | G_rollback_eligible
  | G_rollback_complete
  | G_manual_release_required

fun guard_value :: "transition_guards \<Rightarrow> guard \<Rightarrow> bool" where
  "guard_value gs G_preflight_current = g_preflight_current gs"
| "guard_value gs G_artifact_integrity_verified = g_artifact_integrity_verified gs"
| "guard_value gs G_rollback_plan_recorded = g_rollback_plan_recorded gs"
| "guard_value gs G_irreversible_acknowledged = g_irreversible_acknowledged gs"
| "guard_value gs G_adapter_supports_strategy = g_adapter_supports_strategy gs"
| "guard_value gs G_staging_complete = g_staging_complete gs"
| "guard_value gs G_activation_complete = g_activation_complete gs"
| "guard_value gs G_verification_fresh_passed = g_verification_fresh_passed gs"
| "guard_value gs G_skew_within_budget = g_skew_within_budget gs"
| "guard_value gs G_drain_satisfied = g_drain_satisfied gs"
| "guard_value gs G_all_stages_complete = g_all_stages_complete gs"
| "guard_value gs G_failure_recorded = g_failure_recorded gs"
| "guard_value gs G_rollback_eligible = g_rollback_eligible gs"
| "guard_value gs G_rollback_complete = g_rollback_complete gs"
| "guard_value gs G_manual_release_required = g_manual_release_required gs"

fun describe_guard :: "guard \<Rightarrow> string" where
  "describe_guard G_preflight_current = ''preflight-current''"
| "describe_guard G_artifact_integrity_verified = ''artifact-integrity-verified''"
| "describe_guard G_rollback_plan_recorded = ''rollback-plan-recorded''"
| "describe_guard G_irreversible_acknowledged = ''irreversible-acknowledged''"
| "describe_guard G_adapter_supports_strategy = ''adapter-supports-strategy''"
| "describe_guard G_staging_complete = ''staging-complete''"
| "describe_guard G_activation_complete = ''activation-complete''"
| "describe_guard G_verification_fresh_passed = ''verification-fresh-passed''"
| "describe_guard G_skew_within_budget = ''skew-within-budget''"
| "describe_guard G_drain_satisfied = ''drain-satisfied''"
| "describe_guard G_all_stages_complete = ''all-stages-complete''"
| "describe_guard G_failure_recorded = ''failure-recorded''"
| "describe_guard G_rollback_eligible = ''rollback-eligible''"
| "describe_guard G_rollback_complete = ''rollback-complete''"
| "describe_guard G_manual_release_required = ''manual-release-required''"

record rule =
  rule_from :: upgrade_state
  rule_to :: upgrade_state
  rule_requirements :: "guard list"
  rule_requirement_count :: nat
  rule_description :: string

definition lifecycle_rules :: "rule list" where
  "lifecycle_rules = [
    \<lparr>rule_from = US_proposed, rule_to = US_validated, rule_requirements = [G_preflight_current, G_artifact_integrity_verified], rule_requirement_count = 2,
     rule_description = ''preflight must be current and artifact integrity verified''\<rparr>,
    \<lparr>rule_from = US_blocked, rule_to = US_validated, rule_requirements = [G_preflight_current, G_artifact_integrity_verified], rule_requirement_count = 2,
     rule_description = ''a blocked campaign may return to validated once preflight is current again''\<rparr>,
    \<lparr>rule_from = US_paused, rule_to = US_validated, rule_requirements = [G_preflight_current, G_artifact_integrity_verified], rule_requirement_count = 2,
     rule_description = ''a paused campaign resumes at validated when preflight is still current''\<rparr>,
    \<lparr>rule_from = US_validated, rule_to = US_prepared, rule_requirements = [G_rollback_plan_recorded, G_irreversible_acknowledged], rule_requirement_count = 2,
     rule_description = ''prepare requires a recorded rollback plan and explicit acknowledgement of irreversible steps''\<rparr>,
    \<lparr>rule_from = US_prepared, rule_to = US_staged, rule_requirements = [G_adapter_supports_strategy, G_staging_complete], rule_requirement_count = 2,
     rule_description = ''staging requires adapter support for the selected strategy and completed preparation on every target''\<rparr>,
    \<lparr>rule_from = US_staged, rule_to = US_activating, rule_requirements = [G_skew_within_budget, G_drain_satisfied], rule_requirement_count = 2,
     rule_description = ''activation requires the version skew budget and drain obligations to hold''\<rparr>,
    \<lparr>rule_from = US_activating, rule_to = US_verifying, rule_requirements = [G_activation_complete], rule_requirement_count = 1,
     rule_description = ''verification begins only after every target in the stage reports the new version''\<rparr>,
    \<lparr>rule_from = US_verifying, rule_to = US_staged, rule_requirements = [G_skew_within_budget, G_drain_satisfied], rule_requirement_count = 2,
     rule_description = ''the next stage begins from staged once verification passes''\<rparr>,
    \<lparr>rule_from = US_verifying, rule_to = US_completed, rule_requirements = [G_verification_fresh_passed, G_all_stages_complete], rule_requirement_count = 2,
     rule_description = ''completion requires fresh passing verification for every stage''\<rparr>,
    \<lparr>rule_from = US_verifying, rule_to = US_failed, rule_requirements = [G_failure_recorded], rule_requirement_count = 1,
     rule_description = ''a failed verification records a failure''\<rparr>,
    \<lparr>rule_from = US_activating, rule_to = US_failed, rule_requirements = [G_failure_recorded], rule_requirement_count = 1,
     rule_description = ''a failed activation records a failure''\<rparr>,
    \<lparr>rule_from = US_staged, rule_to = US_failed, rule_requirements = [G_failure_recorded], rule_requirement_count = 1,
     rule_description = ''a failed preparation records a failure''\<rparr>,
    \<lparr>rule_from = US_prepared, rule_to = US_failed, rule_requirements = [G_failure_recorded], rule_requirement_count = 1,
     rule_description = ''an aborted prepared campaign records a failure''\<rparr>,
    \<lparr>rule_from = US_paused, rule_to = US_failed, rule_requirements = [G_failure_recorded], rule_requirement_count = 1,
     rule_description = ''an aborted paused campaign records a failure''\<rparr>,
    \<lparr>rule_from = US_validated, rule_to = US_failed, rule_requirements = [G_failure_recorded], rule_requirement_count = 1,
     rule_description = ''an aborted validated campaign records a failure''\<rparr>,
    \<lparr>rule_from = US_failed, rule_to = US_rollback_planned, rule_requirements = [G_rollback_eligible], rule_requirement_count = 1,
     rule_description = ''rollback must be eligible and explicitly planned''\<rparr>,
    \<lparr>rule_from = US_rollback_planned, rule_to = US_rolling_back, rule_requirements = [G_rollback_eligible], rule_requirement_count = 1,
     rule_description = ''rollback execution requires rollback eligibility''\<rparr>,
    \<lparr>rule_from = US_rolling_back, rule_to = US_rolled_back, rule_requirements = [G_rollback_complete], rule_requirement_count = 1,
     rule_description = ''rolled back requires every rollback step to complete''\<rparr>,
    \<lparr>rule_from = US_rolling_back, rule_to = US_failed, rule_requirements = [G_failure_recorded], rule_requirement_count = 1,
     rule_description = ''a failed rollback records a failure''\<rparr>,
    \<lparr>rule_from = US_validated, rule_to = US_paused, rule_requirements = [G_manual_release_required], rule_requirement_count = 0,
     rule_description = ''a validated campaign can be paused before execution''\<rparr>,
    \<lparr>rule_from = US_prepared, rule_to = US_paused, rule_requirements = [G_manual_release_required], rule_requirement_count = 0,
     rule_description = ''a prepared campaign can be paused before execution''\<rparr>,
    \<lparr>rule_from = US_staged, rule_to = US_paused, rule_requirements = [G_manual_release_required], rule_requirement_count = 0,
     rule_description = ''a staged campaign can be paused between stages''\<rparr>,
    \<lparr>rule_from = US_paused, rule_to = US_staged, rule_requirements = [G_staging_complete], rule_requirement_count = 1,
     rule_description = ''resuming a staged campaign requires staging to still be complete''\<rparr>,
    \<lparr>rule_from = US_blocked, rule_to = US_paused, rule_requirements = [G_manual_release_required], rule_requirement_count = 0,
     rule_description = ''a blocked campaign can be parked by an operator''\<rparr>,
    \<lparr>rule_from = US_blocked, rule_to = US_failed, rule_requirements = [G_failure_recorded], rule_requirement_count = 1,
     rule_description = ''a blocked campaign that cannot proceed is failed so rollback can be planned''\<rparr>,
    \<lparr>rule_from = US_proposed, rule_to = US_blocked, rule_requirements = [G_failure_recorded], rule_requirement_count = 1,
     rule_description = ''a proposed campaign can be blocked when preflight cannot proceed''\<rparr>,
    \<lparr>rule_from = US_validated, rule_to = US_blocked, rule_requirements = [G_failure_recorded], rule_requirement_count = 1,
     rule_description = ''a validated campaign can be blocked when a gate fails''\<rparr>,
    \<lparr>rule_from = US_prepared, rule_to = US_blocked, rule_requirements = [G_failure_recorded], rule_requirement_count = 1,
     rule_description = ''a prepared campaign can be blocked when a gate fails''\<rparr>,
    \<lparr>rule_from = US_staged, rule_to = US_blocked, rule_requirements = [G_failure_recorded], rule_requirement_count = 1,
     rule_description = ''a staged campaign can be blocked when a gate fails''\<rparr>,
    \<lparr>rule_from = US_activating, rule_to = US_blocked, rule_requirements = [G_failure_recorded], rule_requirement_count = 1,
     rule_description = ''an activating campaign can be blocked when a gate fails''\<rparr>,
    \<lparr>rule_from = US_verifying, rule_to = US_blocked, rule_requirements = [G_failure_recorded], rule_requirement_count = 1,
     rule_description = ''a verifying campaign can be blocked when a gate fails''\<rparr>,
    \<lparr>rule_from = US_paused, rule_to = US_paused, rule_requirements = [], rule_requirement_count = 0,
     rule_description = ''pause is idempotent''\<rparr>,
    \<lparr>rule_from = US_blocked, rule_to = US_blocked, rule_requirements = [], rule_requirement_count = 0,
     rule_description = ''block is idempotent''\<rparr>]"

record transition_verdict =
  tv_allowed :: bool
  tv_unmet :: "string list"
  tv_reason :: string

definition explain_verdict :: "transition_verdict \<Rightarrow> string" where
  "explain_verdict v =
     (if tv_allowed v then ''allowed''
      else tv_reason v @
           (if tv_unmet v \<noteq> [] then '' (unmet: '' @ join_with '', '' (tv_unmet v) @ '')'' else []))"

text \<open>The first rule for the pair decides.\<close>

fun find_rule :: "rule list \<Rightarrow> upgrade_state \<Rightarrow> upgrade_state \<Rightarrow> rule option" where
  "find_rule [] from to = None"
| "find_rule (r # rs) from to =
     (if rule_from r \<noteq> from \<or> rule_to r \<noteq> to then find_rule rs from to else Some r)"

definition rule_unmet :: "transition_guards \<Rightarrow> rule \<Rightarrow> string list" where
  "rule_unmet gs r =
     map describe_guard
       (filter (\<lambda>g. \<not> guard_value gs g) (take (rule_requirement_count r) (rule_requirements r)))"

definition evaluate_transition ::
    "upgrade_state \<Rightarrow> upgrade_state \<Rightarrow> transition_guards \<Rightarrow> transition_verdict" where
  "evaluate_transition from to gs =
     (if from = to
      then \<lparr>tv_allowed = True, tv_unmet = [], tv_reason = ''no-op transition''\<rparr>
      else if upgrade_state_is_terminal from
      then \<lparr>tv_allowed = False, tv_unmet = [''terminal-state''],
            tv_reason = ''state '' @ upgrade_state_name from @ '' is terminal''\<rparr>
      else case find_rule lifecycle_rules from to of
        Some r \<Rightarrow> \<lparr>tv_allowed = (rule_unmet gs r = []), tv_unmet = rule_unmet gs r,
                   tv_reason = rule_description r\<rparr>
      | None \<Rightarrow> \<lparr>tv_allowed = False, tv_unmet = [''undefined-transition''],
                 tv_reason = ''transition '' @ upgrade_state_name from @ '' -> '' @
                             upgrade_state_name to @ '' is not part of the lifecycle''\<rparr>)"

definition allowed_transitions :: "upgrade_state \<Rightarrow> upgrade_state list" where
  "allowed_transitions from =
     filter (\<lambda>to. to \<noteq> from \<and> find_rule lifecycle_rules from to \<noteq> None) all_upgrade_states"

subsection \<open>What the table means\<close>

text \<open>The lifecycle, state by state: which moves leave it and what each one needs.\<close>

fun lifecycle_spec :: "upgrade_state \<Rightarrow> upgrade_state \<Rightarrow> transition_guards \<Rightarrow> bool" where
  "lifecycle_spec US_proposed to g =
     (to = US_validated \<and> g_preflight_current g \<and> g_artifact_integrity_verified g \<or>
      to = US_blocked \<and> g_failure_recorded g)"
| "lifecycle_spec US_validated to g =
     (to = US_prepared \<and> g_rollback_plan_recorded g \<and> g_irreversible_acknowledged g \<or>
      to = US_paused \<or> (to = US_failed \<or> to = US_blocked) \<and> g_failure_recorded g)"
| "lifecycle_spec US_prepared to g =
     (to = US_staged \<and> g_adapter_supports_strategy g \<and> g_staging_complete g \<or>
      to = US_paused \<or> (to = US_failed \<or> to = US_blocked) \<and> g_failure_recorded g)"
| "lifecycle_spec US_staged to g =
     (to = US_activating \<and> g_skew_within_budget g \<and> g_drain_satisfied g \<or>
      to = US_paused \<or> (to = US_failed \<or> to = US_blocked) \<and> g_failure_recorded g)"
| "lifecycle_spec US_activating to g =
     (to = US_verifying \<and> g_activation_complete g \<or>
      (to = US_failed \<or> to = US_blocked) \<and> g_failure_recorded g)"
| "lifecycle_spec US_verifying to g =
     (to = US_staged \<and> g_skew_within_budget g \<and> g_drain_satisfied g \<or>
      to = US_completed \<and> g_verification_fresh_passed g \<and> g_all_stages_complete g \<or>
      (to = US_failed \<or> to = US_blocked) \<and> g_failure_recorded g)"
| "lifecycle_spec US_completed to g = False"
| "lifecycle_spec US_blocked to g =
     (to = US_validated \<and> g_preflight_current g \<and> g_artifact_integrity_verified g \<or>
      to = US_paused \<or> to = US_failed \<and> g_failure_recorded g)"
| "lifecycle_spec US_paused to g =
     (to = US_validated \<and> g_preflight_current g \<and> g_artifact_integrity_verified g \<or>
      to = US_staged \<and> g_staging_complete g \<or> to = US_failed \<and> g_failure_recorded g)"
| "lifecycle_spec US_failed to g = (to = US_rollback_planned \<and> g_rollback_eligible g)"
| "lifecycle_spec US_rollback_planned to g = (to = US_rolling_back \<and> g_rollback_eligible g)"
| "lifecycle_spec US_rolling_back to g =
     (to = US_rolled_back \<and> g_rollback_complete g \<or> to = US_failed \<and> g_failure_recorded g)"
| "lifecycle_spec US_rolled_back to g = False"

text \<open>The table without its descriptions, and with the counted guards only.\<close>

definition rule_move :: "rule \<Rightarrow> upgrade_state \<times> upgrade_state \<times> guard list" where
  "rule_move r = (rule_from r, rule_to r, take (rule_requirement_count r) (rule_requirements r))"

fun find_move ::
    "(upgrade_state \<times> upgrade_state \<times> guard list) list \<Rightarrow> upgrade_state \<Rightarrow> upgrade_state \<Rightarrow> guard list option" where
  "find_move [] from to = None"
| "find_move ((f, t, gs) # ms) from to = (if f = from \<and> t = to then Some gs else find_move ms from to)"

lemma find_move_rule:
  "find_move (map rule_move rs) from to =
     map_option (\<lambda>r. take (rule_requirement_count r) (rule_requirements r)) (find_rule rs from to)"
  by (induction rs) (auto simp: rule_move_def)

lemma find_move_filter:
  "find_move ms from to = find_move (filter (\<lambda>m. fst m = from) ms) from to"
  by (induction ms) auto

lemma lifecycle_moves:
  "map rule_move lifecycle_rules =
    [(US_proposed, US_validated, [G_preflight_current, G_artifact_integrity_verified]),
     (US_blocked, US_validated, [G_preflight_current, G_artifact_integrity_verified]),
     (US_paused, US_validated, [G_preflight_current, G_artifact_integrity_verified]),
     (US_validated, US_prepared, [G_rollback_plan_recorded, G_irreversible_acknowledged]),
     (US_prepared, US_staged, [G_adapter_supports_strategy, G_staging_complete]),
     (US_staged, US_activating, [G_skew_within_budget, G_drain_satisfied]),
     (US_activating, US_verifying, [G_activation_complete]),
     (US_verifying, US_staged, [G_skew_within_budget, G_drain_satisfied]),
     (US_verifying, US_completed, [G_verification_fresh_passed, G_all_stages_complete]),
     (US_verifying, US_failed, [G_failure_recorded]),
     (US_activating, US_failed, [G_failure_recorded]),
     (US_staged, US_failed, [G_failure_recorded]),
     (US_prepared, US_failed, [G_failure_recorded]),
     (US_paused, US_failed, [G_failure_recorded]),
     (US_validated, US_failed, [G_failure_recorded]),
     (US_failed, US_rollback_planned, [G_rollback_eligible]),
     (US_rollback_planned, US_rolling_back, [G_rollback_eligible]),
     (US_rolling_back, US_rolled_back, [G_rollback_complete]),
     (US_rolling_back, US_failed, [G_failure_recorded]),
     (US_validated, US_paused, []),
     (US_prepared, US_paused, []),
     (US_staged, US_paused, []),
     (US_paused, US_staged, [G_staging_complete]),
     (US_blocked, US_paused, []),
     (US_blocked, US_failed, [G_failure_recorded]),
     (US_proposed, US_blocked, [G_failure_recorded]),
     (US_validated, US_blocked, [G_failure_recorded]),
     (US_prepared, US_blocked, [G_failure_recorded]),
     (US_staged, US_blocked, [G_failure_recorded]),
     (US_activating, US_blocked, [G_failure_recorded]),
     (US_verifying, US_blocked, [G_failure_recorded]),
     (US_paused, US_paused, []),
     (US_blocked, US_blocked, [])]"
  by (simp add: lifecycle_rules_def rule_move_def numeral_2_eq_2)

lemma evaluate_move:
  "tv_allowed (evaluate_transition from to g) \<longleftrightarrow>
     from = to \<or> \<not> upgrade_state_is_terminal from \<and>
     (case find_move (filter (\<lambda>m. fst m = from) (map rule_move lifecycle_rules)) from to of
        None \<Rightarrow> False | Some gs \<Rightarrow> list_all (guard_value g) gs)"
  by (subst find_move_filter [symmetric])
    (auto simp: evaluate_transition_def find_move_rule rule_unmet_def list_all_iff filter_empty_conv
      split: option.split)

lemma evaluate_transition_spec:
  "tv_allowed (evaluate_transition from to g) \<longleftrightarrow> from = to \<or> lifecycle_spec from to g"
  unfolding evaluate_move lifecycle_moves
  by (cases "from"; (simp add: upgrade_state_is_terminal_def); (cases to; simp))

lemma evaluate_allowedI: "lifecycle_spec from to g \<Longrightarrow> tv_allowed (evaluate_transition from to g)"
  by (simp add: evaluate_transition_spec)

lemma verdict_unmet_iff: "tv_unmet (evaluate_transition from to g) = [] \<longleftrightarrow> tv_allowed (evaluate_transition from to g)"
  by (simp add: evaluate_transition_def split: option.split)

lemma upgrade_state_name_inject: "upgrade_state_name a = upgrade_state_name b \<longleftrightarrow> a = b"
  by (cases a; cases b; simp)

lemma attempt_state_name_inject: "attempt_state_name a = attempt_state_name b \<longleftrightarrow> a = b"
  by (cases a; cases b; simp)

lemma stage_state_name_inject: "stage_state_name a = stage_state_name b \<longleftrightarrow> a = b"
  by (cases a; cases b; simp)

lemma all_upgrade_states_set: "x \<in> set all_upgrade_states"
  by (cases x) (simp_all add: all_upgrade_states_def)

lemma parse_by_name_inj:
  assumes "\<And>a b. name a = name b \<Longrightarrow> a = b" "s \<in> set ss"
  shows "parse_by_name name ss (name s) = Some s"
  using assms by (induction ss) auto

lemma parse_by_name_Some: "parse_by_name name ss t = Some s \<Longrightarrow> name s = t \<and> s \<in> set ss"
  by (induction ss) (auto split: if_splits)

lemma parse_upgrade_state_name [simp, codec_simps]:
  "parse_upgrade_state (upgrade_state_name s) = Inr s"
  using parse_by_name_inj [of upgrade_state_name s all_upgrade_states]
  by (simp add: parse_upgrade_state_def upgrade_state_name_inject all_upgrade_states_set)

subsection \<open>Runs of the lifecycle\<close>

inductive lifecycle_step :: "upgrade_state \<Rightarrow> transition_guards \<Rightarrow> upgrade_state \<Rightarrow> bool" where
  step: "\<lbrakk>from \<noteq> to; tv_allowed (evaluate_transition from to g)\<rbrakk> \<Longrightarrow> lifecycle_step from g to"

text \<open>A run keeps the moves it made, newest first.\<close>

inductive lifecycle_run ::
    "upgrade_state \<Rightarrow> (upgrade_state \<times> transition_guards \<times> upgrade_state) list \<Rightarrow> upgrade_state \<Rightarrow> bool"
  for init where
  start: "lifecycle_run init [] init"
| move: "\<lbrakk>lifecycle_run init tr s; lifecycle_step s g t\<rbrakk> \<Longrightarrow> lifecycle_run init ((s, g, t) # tr) t"

inductive_cases lifecycle_stepE: "lifecycle_step from g to"
inductive_simps lifecycle_step_iff: "lifecycle_step from g to"

lemma lifecycle_step_spec: "lifecycle_step s g t \<longleftrightarrow> s \<noteq> t \<and> lifecycle_spec s t g"
  by (auto simp: lifecycle_step_iff evaluate_transition_spec)

lemma terminal_no_step: "upgrade_state_is_terminal s \<Longrightarrow> \<not> lifecycle_step s g t"
  by (auto simp: lifecycle_step_spec upgrade_state_is_terminal_def)

text \<open>What a run must have done to stand where it stands.\<close>

definition activated_with :: "(upgrade_state \<times> transition_guards \<times> upgrade_state) list \<Rightarrow> bool" where
  "activated_with tr \<longleftrightarrow>
     (\<exists>g. (US_staged, g, US_activating) \<in> set tr \<and> g_skew_within_budget g \<and> g_drain_satisfied g)"

definition verified_with :: "(upgrade_state \<times> transition_guards \<times> upgrade_state) list \<Rightarrow> bool" where
  "verified_with tr \<longleftrightarrow>
     (\<exists>g. (US_activating, g, US_verifying) \<in> set tr \<and> g_activation_complete g)"

definition completed_with :: "(upgrade_state \<times> transition_guards \<times> upgrade_state) list \<Rightarrow> bool" where
  "completed_with tr \<longleftrightarrow>
     (\<exists>g. (US_verifying, g, US_completed) \<in> set tr \<and> g_verification_fresh_passed g \<and>
          g_all_stages_complete g)"

definition rolled_back_with :: "(upgrade_state \<times> transition_guards \<times> upgrade_state) list \<Rightarrow> bool" where
  "rolled_back_with tr \<longleftrightarrow>
     (\<exists>g. (US_failed, g, US_rollback_planned) \<in> set tr \<and> g_rollback_eligible g) \<and>
     (\<exists>g. (US_rollback_planned, g, US_rolling_back) \<in> set tr \<and> g_rollback_eligible g) \<and>
     (\<exists>g. (US_rolling_back, g, US_rolled_back) \<in> set tr \<and> g_rollback_complete g)"

fun run_obligation ::
    "upgrade_state \<Rightarrow> (upgrade_state \<times> transition_guards \<times> upgrade_state) list \<Rightarrow> bool" where
  "run_obligation US_activating tr = activated_with tr"
| "run_obligation US_verifying tr = (activated_with tr \<and> verified_with tr)"
| "run_obligation US_completed tr = (activated_with tr \<and> verified_with tr \<and> completed_with tr)"
| "run_obligation US_rollback_planned tr =
     (\<exists>g. (US_failed, g, US_rollback_planned) \<in> set tr \<and> g_rollback_eligible g)"
| "run_obligation US_rolling_back tr =
     ((\<exists>g. (US_failed, g, US_rollback_planned) \<in> set tr \<and> g_rollback_eligible g) \<and>
      (\<exists>g. (US_rollback_planned, g, US_rolling_back) \<in> set tr \<and> g_rollback_eligible g))"
| "run_obligation US_rolled_back tr = rolled_back_with tr"
| "run_obligation _ tr = True"

lemma run_obligation_step:
  assumes "run_obligation s tr" "lifecycle_spec s t g"
  shows "run_obligation t ((s, g, t) # tr)"
  using assms
  by (cases s; (cases t; (simp add: activated_with_def verified_with_def completed_with_def
      rolled_back_with_def; blast?)))

lemma run_obligation_run: "lifecycle_run US_proposed tr s \<Longrightarrow> run_obligation s tr"
  by (induction rule: lifecycle_run.induct) (auto simp: lifecycle_step_spec run_obligation_step)

text \<open>
  Nothing reaches completion by a short cut.  Whatever moves a campaign makes and
  whatever its guards say at each of them, if it stands in \<open>completed\<close> then it was activated
  with the skew budget and the drain obligations established, moved to verification with the
  activation complete, and was closed with fresh passing verification of all its stages; and if
  it stands in \<open>rolled_back\<close> the rollback was planned and executed under the eligibility guard
  and closed with every rollback step complete.
\<close>

theorem lifecycle_run_obligations:
  assumes "lifecycle_run US_proposed tr s"
  shows "(s = US_completed \<longrightarrow> activated_with tr \<and> verified_with tr \<and> completed_with tr) \<and>
         (s = US_rolled_back \<longrightarrow> rolled_back_with tr)"
  using run_obligation_run [OF assms] by auto

definition all_guards :: transition_guards where
  "all_guards =
     \<lparr>g_preflight_current = True, g_artifact_integrity_verified = True,
      g_rollback_plan_recorded = True, g_irreversible_acknowledged = True,
      g_adapter_supports_strategy = True, g_staging_complete = True, g_activation_complete = True,
      g_verification_fresh_passed = True, g_skew_within_budget = True, g_drain_satisfied = True,
      g_all_stages_complete = True, g_failure_recorded = True, g_rollback_eligible = True,
      g_rollback_complete = True, g_manual_release_required = True\<rparr>"

lemma run_cons:
  assumes "lifecycle_step s g t" "lifecycle_run t tr u"
  shows "lifecycle_run s (tr @ [(s, g, t)]) u"
  using assms(2,1)
proof (induction rule: lifecycle_run.induct)
  case start
  then show ?case using lifecycle_run.move [OF lifecycle_run.start] by fastforce
next
  case (move tr u g' v)
  then show ?case by (simp add: lifecycle_run.move)
qed

lemma forward_run: "\<exists>tr. lifecycle_run US_proposed tr US_completed"
proof -
  have "lifecycle_step US_proposed all_guards US_validated"
    "lifecycle_step US_validated all_guards US_prepared"
    "lifecycle_step US_prepared all_guards US_staged"
    "lifecycle_step US_staged all_guards US_activating"
    "lifecycle_step US_activating all_guards US_verifying"
    "lifecycle_step US_verifying all_guards US_completed"
    by (simp_all add: lifecycle_step_spec all_guards_def)
  then show ?thesis by (meson lifecycle_run.intros)
qed

lemma lifecycle_completed_witness:
  "\<exists>tr. lifecycle_run US_proposed tr US_completed \<and> activated_with tr \<and> verified_with tr \<and>
        completed_with tr"
proof -
  obtain tr where tr: "lifecycle_run US_proposed tr US_completed" using forward_run by blast
  with lifecycle_run_obligations [OF tr] show ?thesis by blast
qed

text \<open>
  C16: no state is a trap: from every state some sequence of admissible moves ends in
  \<open>completed\<close> or \<open>rolled_back\<close>, and those two allow no move at all.
\<close>

theorem lifecycle_no_trap:
  "(\<exists>tr t. lifecycle_run s tr t \<and> upgrade_state_is_terminal t) \<and>
   (\<forall>t. upgrade_state_is_terminal t \<longrightarrow> allowed_transitions t = [] \<and> (\<forall>g u. \<not> lifecycle_step t g u))"
proof -
  have ends: "\<exists>tr t. lifecycle_run US_failed tr t \<and> upgrade_state_is_terminal t"
  proof -
    have "lifecycle_step US_failed all_guards US_rollback_planned"
      "lifecycle_step US_rollback_planned all_guards US_rolling_back"
      "lifecycle_step US_rolling_back all_guards US_rolled_back"
      by (simp_all add: lifecycle_step_spec all_guards_def)
    then have "\<exists>tr. lifecycle_run US_failed tr US_rolled_back"
      by (meson lifecycle_run.intros)
    then show ?thesis by (auto simp: upgrade_state_is_terminal_def)
  qed
  have via: "\<exists>tr t. lifecycle_run s tr t \<and> upgrade_state_is_terminal t"
    if "lifecycle_step s g u" "\<exists>tr t. lifecycle_run u tr t \<and> upgrade_state_is_terminal t" for s g u
    using that run_cons by blast
  have fail: "lifecycle_step s all_guards US_failed"
    if "s \<in> {US_validated, US_prepared, US_staged, US_activating, US_verifying, US_blocked,
             US_paused, US_rolling_back}" for s
    using that by (auto simp: lifecycle_step_spec all_guards_def)
  have "\<exists>tr t. lifecycle_run s tr t \<and> upgrade_state_is_terminal t"
  proof (cases s)
    case US_proposed
    then show ?thesis using forward_run by (auto simp: upgrade_state_is_terminal_def)
  next
    case US_rollback_planned
    have "lifecycle_step US_rollback_planned all_guards US_rolling_back"
      by (simp add: lifecycle_step_spec all_guards_def)
    then show ?thesis unfolding US_rollback_planned
      by (rule via) (rule via [OF fail ends], simp)
  next
    case US_completed
    then show ?thesis using lifecycle_run.start by (auto simp: upgrade_state_is_terminal_def)
  next
    case US_rolled_back
    then show ?thesis using lifecycle_run.start by (auto simp: upgrade_state_is_terminal_def)
  next
    case US_failed
    then show ?thesis using ends by simp
  qed (use via [OF fail ends, of s] in simp_all)
  moreover have "allowed_transitions t = []" if "upgrade_state_is_terminal t" for t
  proof -
    have "find_rule lifecycle_rules t u = None" for u
      using that find_move_rule [of lifecycle_rules t u]
      by (auto simp: upgrade_state_is_terminal_def lifecycle_moves)
    then show ?thesis by (simp add: allowed_transitions_def)
  qed
  ultimately show ?thesis using terminal_no_step by blast
qed

lemma lifecycle_no_trap_witness:
  "(\<exists>tr t. lifecycle_run US_blocked tr t \<and> upgrade_state_is_terminal t) \<and>
   allowed_transitions US_completed = [] \<and> \<not> lifecycle_step US_rolled_back all_guards US_proposed"
  using lifecycle_no_trap [of US_blocked] by (simp add: upgrade_state_is_terminal_def)

end
