(* ===== verification/Model_Artifact.thy ===== *)
theory Model_Artifact
  imports Model_Version Core_Time
begin

text \<open>
  Artifacts (\<open>model/artifact\<close>): identity, provenance hooks, rollback compatibility, the descriptor
  with its validation and its JSON form, and the two integrity checks, over bytes in memory and
  over a file read in 64 KiB pieces.
\<close>

definition require_identifier :: "json \<Rightarrow> string \<Rightarrow> string \<Rightarrow> string result" where
  "require_identifier v key what =
     fum_try (json_require_string v key) (\<lambda>t.
     fum_try (validate_identifier t what) (\<lambda>_. Inr t))"

definition require_string_array :: "json \<Rightarrow> string \<Rightarrow> string list result" where
  "require_string_array v key =
     (case json_find v key of
        None \<Rightarrow> Inr []
      | Some found \<Rightarrow>
          if \<not> json_is_array found
          then fail EC_invalid_argument ''json member must be an array'' key
          else map_result json_as_string (json_items found))"

datatype component_type = CT_software | CT_firmware | CT_control_plane | CT_driver | CT_agent

fun component_type_name :: "component_type \<Rightarrow> string" where
  "component_type_name CT_software = ''software''"
| "component_type_name CT_firmware = ''firmware''"
| "component_type_name CT_control_plane = ''control-plane''"
| "component_type_name CT_driver = ''driver''"
| "component_type_name CT_agent = ''agent''"

definition parse_component_type :: "string \<Rightarrow> component_type result" where
  "parse_component_type t =
     (if t = ''software'' then Inr CT_software
      else if t = ''firmware'' then Inr CT_firmware
      else if t = ''control-plane'' then Inr CT_control_plane
      else if t = ''driver'' then Inr CT_driver
      else if t = ''agent'' then Inr CT_agent
      else fail EC_invalid_argument ''unknown component type'' t)"

record signer_provenance =
  sig_signer :: signer_id
  sig_key_id :: string
  sig_algorithm :: string
  sig_attestation_ref :: string
  sig_source_revision :: string
  sig_build_system :: string

definition no_signer :: signer_provenance where
  "no_signer = \<lparr>sig_signer = [], sig_key_id = [], sig_algorithm = [], sig_attestation_ref = [],
                sig_source_revision = [], sig_build_system = []\<rparr>"

definition sig_declared :: "signer_provenance \<Rightarrow> bool" where
  "sig_declared s \<longleftrightarrow> sig_signer s \<noteq> []"

record capability_requirement =
  cap_name :: string
  cap_minimum :: string

record rollback_compatibility =
  rbc_reversible :: bool
  rbc_rollback_artifact :: artifact_id
  rbc_boundary :: string
  rbc_irreversible_steps :: "step_id list"
  rbc_notes :: string

definition no_rollback :: rollback_compatibility where
  "no_rollback = \<lparr>rbc_reversible = False, rbc_rollback_artifact = [], rbc_boundary = [],
                  rbc_irreversible_steps = [], rbc_notes = []\<rparr>"

definition has_irreversible_steps :: "rollback_compatibility \<Rightarrow> bool" where
  "has_irreversible_steps r \<longleftrightarrow> rbc_irreversible_steps r \<noteq> [] \<or> \<not> rbc_reversible r"

record schema_protocol_versions =
  spv_schema :: "string list"
  spv_protocol :: "string list"

record artifact_descriptor =
  art_id :: artifact_id
  art_component :: component_id
  art_version :: version
  art_build :: build_id
  art_component_type :: component_type
  art_digest :: digest
  art_size_bytes :: u64
  art_provenance :: signer_provenance
  art_platforms :: "string list"
  art_capabilities :: "capability_requirement list"
  art_versions :: schema_protocol_versions
  art_rollback :: rollback_compatibility
  art_created_at :: timestamp
  art_media_type :: string

definition empty_artifact :: artifact_descriptor where
  "empty_artifact =
     \<lparr>art_id = [], art_component = [], art_version = empty_version, art_build = [],
      art_component_type = CT_software, art_digest = [], art_size_bytes = 0,
      art_provenance = no_signer, art_platforms = [], art_capabilities = [],
      art_versions = \<lparr>spv_schema = [], spv_protocol = []\<rparr>, art_rollback = no_rollback,
      art_created_at = 0, art_media_type = ''application/octet-stream''\<rparr>"

abbreviation max_artifact_bytes :: u64 where
  "max_artifact_bytes \<equiv> 8589934592"

definition supported_on :: "artifact_descriptor \<Rightarrow> string \<Rightarrow> bool" where
  "supported_on a platform \<longleftrightarrow>
     (if art_platforms a = [] then False else list_ex (\<lambda>p. p = platform) (art_platforms a))"

definition artifact_validate :: "artifact_descriptor \<Rightarrow> status" where
  "artifact_validate a =
     (if art_id a = [] then fail EC_invalid_argument ''artifact id is required'' ''''
      else if art_component a = []
      then fail EC_invalid_argument ''artifact component id is required'' ''''
      else if art_build a = [] then fail EC_invalid_argument ''artifact build id is required'' ''''
      else if ver_empty (art_version a)
      then fail EC_invalid_argument ''artifact version is required'' ''''
      else if art_digest a = [] then fail EC_invalid_argument ''artifact digest is required'' ''''
      else fum_try (require_bound (art_size_bytes a) max_artifact_bytes ''artifact size'') (\<lambda>_.
        if art_size_bytes a = 0
        then fail EC_invalid_argument ''artifact size must be greater than zero'' ''''
        else if art_platforms a = []
        then fail EC_invalid_argument ''artifact must declare at least one supported platform'' ''''
        else if sig_declared (art_provenance a) \<and>
                (sig_key_id (art_provenance a) = [] \<or> sig_algorithm (art_provenance a) = [])
        then fail EC_invalid_argument ''a declared signer requires a key id and an algorithm'' ''''
        else if \<not> rbc_reversible (art_rollback a) \<and> rbc_boundary (art_rollback a) = []
        then fail EC_invalid_argument
               ''an artifact that is not reversible must declare its irreversible boundary'' ''''
        else ok_status))"

subsection \<open>JSON\<close>

definition signer_to_json :: "signer_provenance \<Rightarrow> json" where
  "signer_to_json s = json_build
     [(''signer'', JString (sig_signer s)), (''key_id'', JString (sig_key_id s)),
      (''algorithm'', JString (sig_algorithm s)),
      (''attestation_ref'', JString (sig_attestation_ref s)),
      (''source_revision'', JString (sig_source_revision s)),
      (''build_system'', JString (sig_build_system s))]"

text \<open>\<open>if (!text.empty()) { FUM_TRY(out.field, Id::parse(text)); }\<close>\<close>

definition parse_id_or_empty :: "string \<Rightarrow> string result" where
  "parse_id_or_empty t = (if t \<noteq> [] then parse_id t else Inr [])"

definition signer_from_json :: "json \<Rightarrow> signer_provenance result" where
  "signer_from_json v =
     (if \<not> json_is_object v then fail EC_invalid_argument ''provenance must be a json object'' ''''
      else
        fum_try (json_require_string v ''signer'') (\<lambda>signer_text.
        fum_try (parse_id_or_empty signer_text) (\<lambda>signer.
        fum_try (json_opt_string v ''key_id'' []) (\<lambda>key_id.
        fum_try (json_opt_string v ''algorithm'' []) (\<lambda>algorithm.
        fum_try (if signer \<noteq> []
                 then fum_try (validate_identifier key_id ''key id'') (\<lambda>_.
                   if algorithm = []
                   then fail EC_invalid_argument ''a declared signer requires an algorithm'' ''''
                   else ok_status)
                 else ok_status) (\<lambda>_.
        fum_try (json_opt_string v ''attestation_ref'' []) (\<lambda>attestation.
        fum_try (json_opt_string v ''source_revision'' []) (\<lambda>revision.
        fum_try (json_opt_string v ''build_system'' []) (\<lambda>build_system.
        Inr \<lparr>sig_signer = signer, sig_key_id = key_id, sig_algorithm = algorithm,
             sig_attestation_ref = attestation, sig_source_revision = revision,
             sig_build_system = build_system\<rparr>)))))))))"

definition capability_to_json :: "capability_requirement \<Rightarrow> json" where
  "capability_to_json c =
     json_build [(''name'', JString (cap_name c)), (''minimum'', JString (cap_minimum c))]"

definition capability_from_json :: "json \<Rightarrow> capability_requirement result" where
  "capability_from_json v =
     (if \<not> json_is_object v
      then fail EC_invalid_argument ''capability requirement must be an object'' ''''
      else
        fum_try (require_identifier v ''name'' ''capability name'') (\<lambda>name.
        fum_try (json_require_string v ''minimum'') (\<lambda>minimum.
        Inr \<lparr>cap_name = name, cap_minimum = minimum\<rparr>)))"

definition rollback_to_json :: "rollback_compatibility \<Rightarrow> json" where
  "rollback_to_json r = json_build
     [(''reversible'', JBool (rbc_reversible r)),
      (''rollback_artifact'', JString (rbc_rollback_artifact r)),
      (''boundary'', JString (rbc_boundary r)),
      (''irreversible_steps'', json_list JString (rbc_irreversible_steps r)),
      (''notes'', JString (rbc_notes r))]"

definition step_id_from_json :: "json \<Rightarrow> step_id result" where
  "step_id_from_json item = fum_try (json_as_string item) parse_id"

definition irreversible_steps_from_json :: "json \<Rightarrow> step_id list result" where
  "irreversible_steps_from_json v =
     (case json_find v ''irreversible_steps'' of
        None \<Rightarrow> Inr []
      | Some found \<Rightarrow>
          if json_is_null found then Inr []
          else if \<not> json_is_array found
          then fail EC_invalid_argument ''irreversible_steps must be an array'' ''''
          else map_result step_id_from_json (json_items found))"

definition rollback_from_json :: "json \<Rightarrow> rollback_compatibility result" where
  "rollback_from_json v =
     (if \<not> json_is_object v
      then fail EC_invalid_argument ''rollback metadata must be an object'' ''''
      else
        fum_try (json_require_bool v ''reversible'') (\<lambda>reversible.
        fum_try (json_optional (\<lambda>x. fum_try (json_as_string x) parse_id_or_empty) v
                   ''rollback_artifact'' []) (\<lambda>artifact.
        fum_try (json_opt_string v ''boundary'' []) (\<lambda>boundary.
        fum_try (irreversible_steps_from_json v) (\<lambda>steps.
        fum_try (json_opt_string v ''notes'' []) (\<lambda>notes.
        if \<not> reversible \<and> boundary = []
        then fail EC_invalid_argument
               ''an artifact marked irreversible must declare its boundary'' ''''
        else Inr \<lparr>rbc_reversible = reversible, rbc_rollback_artifact = artifact,
                  rbc_boundary = boundary, rbc_irreversible_steps = steps, rbc_notes = notes\<rparr>))))))"

definition schema_to_json :: "schema_protocol_versions \<Rightarrow> json" where
  "schema_to_json s = json_build
     [(''schema_versions'', json_list JString (spv_schema s)),
      (''protocol_versions'', json_list JString (spv_protocol s))]"

definition schema_from_json :: "json \<Rightarrow> schema_protocol_versions result" where
  "schema_from_json v =
     (if \<not> json_is_object v
      then fail EC_invalid_argument ''schema/protocol metadata must be an object'' ''''
      else
        fum_try (require_string_array v ''schema_versions'') (\<lambda>schema.
        fum_try (require_string_array v ''protocol_versions'') (\<lambda>protocol.
        Inr \<lparr>spv_schema = schema, spv_protocol = protocol\<rparr>)))"

definition artifact_to_json :: "artifact_descriptor \<Rightarrow> json" where
  "artifact_to_json a = json_build
     ([(''artifact_id'', JString (art_id a)), (''component_id'', JString (art_component a)),
       (''version'', JString (ver_text (art_version a))), (''build_id'', JString (art_build a)),
       (''component_type'', JString (component_type_name (art_component_type a))),
       (''digest'', JString (art_digest a)), (''size_bytes'', JUint (art_size_bytes a))] @
      (if sig_declared (art_provenance a)
       then [(''provenance'', signer_to_json (art_provenance a))] else []) @
      [(''platforms'', json_list JString (art_platforms a)),
       (''capabilities'', json_list capability_to_json (art_capabilities a)),
       (''versions'', schema_to_json (art_versions a)),
       (''rollback'', rollback_to_json (art_rollback a)),
       (''created_at'', JString (to_iso8601 (art_created_at a))),
       (''media_type'', JString (art_media_type a))])"

definition capabilities_from_json :: "json \<Rightarrow> capability_requirement list result" where
  "capabilities_from_json found =
     (if \<not> json_is_array found
      then fail EC_invalid_argument ''capabilities must be an array'' ''''
      else map_result capability_from_json (json_items found))"

definition timestamp_from_json :: "json \<Rightarrow> timestamp result" where
  "timestamp_from_json item = fum_try (json_as_string item) parse_iso8601"

definition required_id :: "json \<Rightarrow> string \<Rightarrow> string \<Rightarrow> string result" where
  "required_id v key what = fum_try (require_identifier v key what) parse_id"

definition artifact_from_json :: "json \<Rightarrow> artifact_descriptor result" where
  "artifact_from_json v =
     (if \<not> json_is_object v
      then fail EC_invalid_argument ''artifact descriptor must be a json object'' ''''
      else
        fum_try (required_id v ''artifact_id'' ''artifact id'') (\<lambda>aid.
        fum_try (required_id v ''component_id'' ''component id'') (\<lambda>component.
        fum_try (fum_try (json_require_string v ''version'') version_parse) (\<lambda>version.
        fum_try (required_id v ''build_id'' ''build id'') (\<lambda>build.
        fum_try (fum_try (json_require_string v ''component_type'') parse_component_type) (\<lambda>ctype.
        fum_try (fum_try (json_require_string v ''digest'') digest_parse) (\<lambda>dig.
        fum_try (json_require_uint v ''size_bytes'') (\<lambda>size_bytes.
        fum_try (json_optional signer_from_json v ''provenance'' no_signer) (\<lambda>provenance.
        fum_try (require_string_array v ''platforms'') (\<lambda>platforms.
        fum_try (json_optional capabilities_from_json v ''capabilities'' []) (\<lambda>capabilities.
        fum_try (json_optional schema_from_json v ''versions'' \<lparr>spv_schema = [], spv_protocol = []\<rparr>) (\<lambda>versions.
        fum_try (json_optional rollback_from_json v ''rollback'' no_rollback) (\<lambda>rollback.
        fum_try (json_optional timestamp_from_json v ''created_at'' 0) (\<lambda>created.
        fum_try (json_opt_string v ''media_type'' ''application/octet-stream'') (\<lambda>media.
        let out = \<lparr>art_id = aid, art_component = component, art_version = version,
                   art_build = build, art_component_type = ctype, art_digest = dig,
                   art_size_bytes = size_bytes, art_provenance = provenance,
                   art_platforms = platforms, art_capabilities = capabilities,
                   art_versions = versions, art_rollback = rollback, art_created_at = created,
                   art_media_type = media\<rparr>
        in fum_try (artifact_validate out) (\<lambda>_. Inr out))))))))))))))))"

subsection \<open>Integrity\<close>

record integrity_assessment =
  int_verified :: bool
  int_observed :: digest
  int_declared :: digest
  int_bytes :: u64
  int_detail :: string

definition integrity_to_json :: "integrity_assessment \<Rightarrow> json" where
  "integrity_to_json i = json_build
     [(''verified'', JBool (int_verified i)), (''observed_digest'', JString (int_observed i)),
      (''declared_digest'', JString (int_declared i)), (''bytes'', JUint (int_bytes i)),
      (''detail'', JString (int_detail i))]"

definition verify_artifact_bytes :: "artifact_descriptor \<Rightarrow> string \<Rightarrow> integrity_assessment" where
  "verify_artifact_bytes a payload =
     (let observed = digest_of_text payload;
          bytes = word_of_nat (length payload) :: u64;
          verified = (observed = art_digest a \<and> bytes = art_size_bytes a)
      in \<lparr>int_verified = verified, int_observed = observed, int_declared = art_digest a,
          int_bytes = bytes,
          int_detail =
            (if verified then ''digest and size match the descriptor''
             else if observed \<noteq> art_digest a
             then ''digest mismatch: declared '' @ art_digest a @ '', observed '' @ observed
             else ''size mismatch: declared '' @ u64_to_string (art_size_bytes a) @
                  '', observed '' @ u64_to_string bytes)\<rparr>)"

text \<open>
  The file check, over what the file system answers: the result of the size query, and the
  content if the file opens.  The loop reads 64 KiB at a time and stops after the first short read.
\<close>

definition read_chunk :: nat where
  "read_chunk = 65536"

function hash_file_loop :: "sha_stream \<Rightarrow> u64 \<Rightarrow> string \<Rightarrow> sha_stream \<times> u64" where
  "hash_file_loop stream tot rest =
     (let got = take read_chunk rest;
          stream' = (if got \<noteq> [] then sha_update stream got else stream);
          tot' = (if got \<noteq> [] then tot + word_of_nat (length got) else tot)
      in if length got < read_chunk then (stream', tot')
         else hash_file_loop stream' tot' (drop read_chunk rest))"
  by auto
termination
  by (relation "measure (\<lambda>(stream, tot, rest). length rest)") (auto simp: read_chunk_def)

declare hash_file_loop.simps [simp del]

definition verify_artifact_file ::
    "artifact_descriptor \<Rightarrow> string \<Rightarrow> u64 result \<Rightarrow> string option \<Rightarrow> integrity_assessment" where
  "verify_artifact_file a path file_size content =
     (let start = \<lparr>int_verified = False, int_observed = [], int_declared = art_digest a,
                   int_bytes = 0, int_detail = []\<rparr>
      in case file_size of
           Inl e \<Rightarrow> start\<lparr>int_detail := error_to_string e\<rparr>
         | Inr n \<Rightarrow>
           (case content of
              None \<Rightarrow> start\<lparr>int_bytes := n, int_detail := ''could not open artifact payload: '' @ path\<rparr>
            | Some bytes \<Rightarrow>
                let (stream, tot) = hash_file_loop sha_new 0 bytes;
                    observed = the_value (digest_parse (to_hex (snd (the (sha_finish stream))))) [];
                    verified = (observed = art_digest a \<and> tot = art_size_bytes a)
                in \<lparr>int_verified = verified, int_observed = observed, int_declared = art_digest a,
                    int_bytes = tot,
                    int_detail = (if verified then ''digest and size match the descriptor''
                      else ''payload on disk does not match the descriptor digest'')\<rparr>))"

lemma hash_file_loop_holds:
  "sha_holds stream m \<Longrightarrow>
   sha_holds (fst (hash_file_loop stream tot rest)) (m @ rest) \<and>
   snd (hash_file_loop stream tot rest) = tot + word_of_nat (length rest)"
proof (induction stream tot rest arbitrary: m rule: hash_file_loop.induct)
  case (1 stream tot rest)
  define got where "got = take read_chunk rest"
  define stream' where "stream' = (if got \<noteq> [] then sha_update stream got else stream)"
  define tot' where "tot' = (if got \<noteq> [] then tot + word_of_nat (length got) else tot)"
  have h: "sha_holds stream' (m @ got)"
    using sha_update_holds [OF "1.prems", of got] "1.prems" by (simp add: stream'_def)
  have t: "tot' = tot + word_of_nat (length got)" by (simp add: tot'_def)
  have step: "hash_file_loop stream tot rest =
      (if length got < read_chunk then (stream', tot')
       else hash_file_loop stream' tot' (drop read_chunk rest))"
    by (subst hash_file_loop.simps) (simp only: Let_def got_def stream'_def tot'_def)
  show ?case
  proof (cases "length got < read_chunk")
    case True
    then have "got = rest" by (simp add: got_def)
    with True h t step show ?thesis by simp
  next
    case False
    have split: "rest = got @ drop read_chunk rest" by (simp add: got_def)
    have len: "length rest = length got + length (drop read_chunk rest)"
      by (subst split) simp
    from "1.IH" [OF got_def stream'_def tot'_def False h]
    have "sha_holds (fst (hash_file_loop stream' tot' (drop read_chunk rest)))
        ((m @ got) @ drop read_chunk rest) \<and>
      snd (hash_file_loop stream' tot' (drop read_chunk rest)) =
        tot' + word_of_nat (length (drop read_chunk rest))" .
    moreover have "(m @ got) @ drop read_chunk rest = m @ rest" by (simp add: got_def)
    moreover have "tot' + word_of_nat (length (drop read_chunk rest)) = tot + word_of_nat (length rest)"
      unfolding t len of_nat_add by (simp only: add.assoc)
    ultimately show ?thesis
      unfolding step using False by (simp only: if_False simp_thms)
  qed
qed

text \<open>
  Reading the artifact from disk in pieces reaches the same verdict as hashing the whole payload,
  with the same observed digest and byte count, whatever the size query said; and a verdict
  of verified means that the SHA-256 digest and the byte count of the payload are those the
  descriptor declares.
\<close>

theorem verify_file_agrees:
  "int_verified (verify_artifact_file a path (Inr n) (Some payload)) =
     int_verified (verify_artifact_bytes a payload) \<and>
   int_observed (verify_artifact_file a path (Inr n) (Some payload)) =
     int_observed (verify_artifact_bytes a payload) \<and>
   int_bytes (verify_artifact_file a path (Inr n) (Some payload)) =
     int_bytes (verify_artifact_bytes a payload) \<and>
   (int_verified (verify_artifact_bytes a payload) \<longleftrightarrow>
      art_digest a = to_hex (sha_reference payload) \<and>
      art_size_bytes a = word_of_nat (length payload))"
proof -
  from hash_file_loop_holds [OF sha_new_holds, of 0 payload]
  obtain stream tot where loop: "hash_file_loop sha_new 0 payload = (stream, tot)"
      "sha_holds stream payload" "tot = word_of_nat (length payload)"
    by (cases "hash_file_loop sha_new 0 payload") simp
  from sha_finish_holds [OF loop(2)] obtain t where "sha_finish stream = Some (t, sha_reference payload)"
    by blast
  then have fin: "to_hex (snd (the (sha_finish stream))) = sha256_hex payload"
    by (simp add: sha256_hex_def sha256_eq_reference)
  show ?thesis
    by (auto simp: verify_artifact_file_def verify_artifact_bytes_def Let_def loop(1,3) fin
        digest_of_text_def) (auto simp: sha256_hex_def sha256_eq_reference)
qed

subsection \<open>Validation and round trip\<close>

lemma artifact_validate_iff:
  "artifact_validate a = Inr u \<longleftrightarrow>
     art_id a \<noteq> [] \<and> art_component a \<noteq> [] \<and> art_build a \<noteq> [] \<and> \<not> ver_empty (art_version a) \<and>
     art_digest a \<noteq> [] \<and> art_size_bytes a \<le> max_artifact_bytes \<and> art_size_bytes a \<noteq> 0 \<and>
     art_platforms a \<noteq> [] \<and>
     (sig_declared (art_provenance a) \<longrightarrow>
        sig_key_id (art_provenance a) \<noteq> [] \<and> sig_algorithm (art_provenance a) \<noteq> []) \<and>
     (rbc_reversible (art_rollback a) \<or> rbc_boundary (art_rollback a) \<noteq> [])"
  by (auto simp: artifact_validate_def require_bound_def fum_try_Inr_iff not_less)

definition signer_wf :: "signer_provenance \<Rightarrow> bool" where
  "signer_wf s \<longleftrightarrow> s = no_signer \<or>
     valid_id (sig_signer s) \<and> valid_id (sig_key_id s) \<and> sig_algorithm s \<noteq> []"

definition rollback_wf :: "rollback_compatibility \<Rightarrow> bool" where
  "rollback_wf r \<longleftrightarrow>
     (rbc_rollback_artifact r = [] \<or> valid_id (rbc_rollback_artifact r)) \<and>
     list_all valid_id (rbc_irreversible_steps r) \<and> (rbc_reversible r \<or> rbc_boundary r \<noteq> [])"

definition artifact_wf :: "artifact_descriptor \<Rightarrow> bool" where
  "artifact_wf a \<longleftrightarrow>
     valid_id (art_id a) \<and> valid_id (art_component a) \<and> valid_id (art_build a) \<and>
     version_wf (art_version a) \<and> valid_digest (art_digest a) \<and>
     signer_wf (art_provenance a) \<and> list_all (\<lambda>c. valid_id (cap_name c)) (art_capabilities a) \<and>
     rollback_wf (art_rollback a) \<and> ts_ok (art_created_at a) \<and> artifact_validate a = ok_status"

lemma validate_identifier_valid [simp, codec_simps]: "valid_id t \<Longrightarrow> validate_identifier t what = Inr ()"
  by (simp add: validate_identifier_iff)

lemma parse_id_or_empty_simps [simp, codec_simps]:
  "parse_id_or_empty [] = Inr []" "valid_id t \<Longrightarrow> parse_id_or_empty t = Inr t"
  by (simp_all add: parse_id_or_empty_def valid_id_nonempty)

lemma parse_component_type_name [simp, codec_simps]:
  "parse_component_type (component_type_name c) = Inr c"
  by (cases c) (simp_all add: parse_component_type_def)

lemma map_result_strings [simp, codec_simps]: "map_result json_as_string (map JString xs) = Inr xs"
  by (rule map_result_map) simp

lemma map_result_step_ids [simp, codec_simps]:
  "list_all valid_id xs \<Longrightarrow> map_result step_id_from_json (map JString xs) = Inr xs"
  by (rule map_result_map) (simp add: step_id_from_json_def list_all_iff)

lemma capability_roundtrip:
  "valid_id (cap_name c) \<Longrightarrow> capability_from_json (capability_to_json c) = Inr c"
  by (simp add: capability_from_json_def capability_to_json_def require_identifier_def codec_simps)

lemma signer_roundtrip:
  "signer_wf s \<Longrightarrow> sig_declared s \<Longrightarrow> signer_from_json (signer_to_json s) = Inr s"
  by (auto simp: signer_from_json_def signer_to_json_def signer_wf_def sig_declared_def no_signer_def
      codec_simps valid_id_nonempty cong: fum_try_weak_cong)

lemma rollback_roundtrip:
  "rollback_wf r \<Longrightarrow> rollback_from_json (rollback_to_json r) = Inr r"
  by (auto simp: rollback_from_json_def rollback_to_json_def rollback_wf_def
      irreversible_steps_from_json_def codec_simps cong: fum_try_weak_cong)

lemma schema_roundtrip: "schema_from_json (schema_to_json s) = Inr s"
  by (simp add: schema_from_json_def schema_to_json_def require_string_array_def codec_simps)

lemma capabilities_roundtrip:
  "list_all (\<lambda>c. valid_id (cap_name c)) cs \<Longrightarrow>
   capabilities_from_json (JArray (map capability_to_json cs)) = Inr cs"
  by (simp add: capabilities_from_json_def map_result_map capability_roundtrip list_all_iff)

lemma artifact_descriptor_eta [simp]:
  "art_provenance a = p \<Longrightarrow>
   \<lparr>art_id = art_id a,
    art_component = art_component a,
    art_version = art_version a,
    art_build = art_build a,
    art_component_type = art_component_type a,
    art_digest = art_digest a,
    art_size_bytes = art_size_bytes a,
    art_provenance = p,
    art_platforms = art_platforms a,
    art_capabilities = art_capabilities a,
    art_versions = art_versions a,
    art_rollback = art_rollback a,
    art_created_at = art_created_at a,
    art_media_type = art_media_type a\<rparr> = a"
  by auto

lemma artifact_roundtrip:
  assumes "artifact_wf a"
  shows "artifact_from_json (artifact_to_json a) = Inr a"
proof -
  note wf = assms [unfolded artifact_wf_def]
  show ?thesis
  proof (cases "sig_declared (art_provenance a)")
    case True
    then show ?thesis
      using wf by (simp add: artifact_from_json_def artifact_to_json_def required_id_def
          require_identifier_def require_string_array_def timestamp_from_json_def
          codec_simps signer_roundtrip rollback_roundtrip schema_roundtrip capabilities_roundtrip
          Let_def cong: fum_try_weak_cong)
  next
    case False
    then have "art_provenance a = no_signer"
      using wf by (auto simp: signer_wf_def sig_declared_def)
    then show ?thesis
      using wf False by (simp add: artifact_from_json_def artifact_to_json_def required_id_def
          require_identifier_def require_string_array_def timestamp_from_json_def
          codec_simps rollback_roundtrip schema_roundtrip capabilities_roundtrip
          Let_def cong: fum_try_weak_cong)
  qed
qed

end
