(* ===== verification/Model_Target.thy ===== *)
theory Model_Target
  imports Model_Artifact "HOL-Library.Multiset"
begin

text \<open>
  Targets and evidence (\<open>model/target\<close>, \<open>model/evidence\<close>): strategies, the claims an adapter makes
  about itself, target descriptors with their JSON form, inventory snapshots, and the freshness
  of evidence, which is bound to the incarnation that observed it.
\<close>

datatype strategy_kind =
    SK_in_place
  | SK_restart_based
  | SK_redundant_pair_rolling
  | SK_control_plane_generation_handoff

fun strategy_index :: "strategy_kind \<Rightarrow> nat" where
  "strategy_index SK_in_place = 0"
| "strategy_index SK_restart_based = 1"
| "strategy_index SK_redundant_pair_rolling = 2"
| "strategy_index SK_control_plane_generation_handoff = 3"

lemma strategy_index_inject: "strategy_index a = strategy_index b \<longleftrightarrow> a = b"
  by (cases a; cases b; simp)

text \<open>Strategies are ordered by their underlying value, as the code sorts them.\<close>

instantiation strategy_kind :: linorder
begin

definition less_eq_strategy_kind :: "strategy_kind \<Rightarrow> strategy_kind \<Rightarrow> bool" where
  "less_eq_strategy_kind a b \<longleftrightarrow> strategy_index a \<le> strategy_index b"

definition less_strategy_kind :: "strategy_kind \<Rightarrow> strategy_kind \<Rightarrow> bool" where
  "less_strategy_kind a b \<longleftrightarrow> strategy_index a < strategy_index b"

instance
  by standard (auto simp: less_eq_strategy_kind_def less_strategy_kind_def strategy_index_inject
      dest: antisym)

end

fun strategy_kind_name :: "strategy_kind \<Rightarrow> string" where
  "strategy_kind_name SK_in_place = ''in-place''"
| "strategy_kind_name SK_restart_based = ''restart-based''"
| "strategy_kind_name SK_redundant_pair_rolling = ''redundant-pair-rolling''"
| "strategy_kind_name SK_control_plane_generation_handoff = ''control-plane-generation-handoff''"

definition parse_strategy_kind :: "string \<Rightarrow> strategy_kind result" where
  "parse_strategy_kind t =
     (if t = ''in-place'' then Inr SK_in_place
      else if t = ''restart-based'' then Inr SK_restart_based
      else if t = ''redundant-pair-rolling'' then Inr SK_redundant_pair_rolling
      else if t = ''control-plane-generation-handoff'' then Inr SK_control_plane_generation_handoff
      else fail EC_invalid_argument ''unknown upgrade strategy'' t)"

datatype adapter_kind = AK_synthetic | AK_local_process | AK_external

fun adapter_kind_name :: "adapter_kind \<Rightarrow> string" where
  "adapter_kind_name AK_synthetic = ''synthetic''"
| "adapter_kind_name AK_local_process = ''local-process''"
| "adapter_kind_name AK_external = ''external''"

definition parse_adapter_kind :: "string \<Rightarrow> adapter_kind result" where
  "parse_adapter_kind t =
     (if t = ''synthetic'' then Inr AK_synthetic
      else if t = ''local-process'' then Inr AK_local_process
      else if t = ''external'' then Inr AK_external
      else fail EC_invalid_argument ''unknown adapter kind'' t)"

record adapter_claims =
  acl_strategies :: "strategy_kind list"
  acl_supports_prepare :: bool
  acl_supports_rollback :: bool
  acl_supports_health_probe :: bool
  acl_supports_version_observation :: bool
  acl_supports_generation_handoff :: bool
  acl_requires_service_removal :: bool
  acl_max_parallel :: u32
  acl_declared_limits :: "string list"

definition claims_support :: "adapter_claims \<Rightarrow> strategy_kind \<Rightarrow> bool" where
  "claims_support c k = list_ex (\<lambda>s. s = k) (acl_strategies c)"

fun adjacent_equal :: "'a list \<Rightarrow> bool" where
  "adjacent_equal (x # y # zs) = (x = y \<or> adjacent_equal (y # zs))"
| "adjacent_equal _ = False"

definition claims_validate :: "adapter_claims \<Rightarrow> status" where
  "claims_validate c =
     (if acl_strategies c = []
      then fail EC_invalid_argument ''an adapter must claim at least one strategy'' ''''
      else if adjacent_equal (sort (acl_strategies c))
      then fail EC_invalid_argument ''adapter claims a strategy twice'' ''''
      else if claims_support c SK_control_plane_generation_handoff \<and>
              \<not> acl_supports_generation_handoff c
      then fail EC_invalid_argument
             ''generation handoff strategy claimed without the generation handoff capability'' ''''
      else if claims_support c SK_redundant_pair_rolling \<and> \<not> acl_supports_health_probe c
      then fail EC_invalid_argument ''rolling replacement requires a health probe capability'' ''''
      else if acl_max_parallel c = 0
      then fail EC_invalid_argument ''max_parallel_activations must be at least 1'' ''''
      else if acl_max_parallel c > 256
      then fail EC_invalid_argument ''max_parallel_activations exceeds the permitted bound'' ''''
      else ok_status)"

definition claims_to_json :: "adapter_claims \<Rightarrow> json" where
  "claims_to_json c = json_build
     [(''strategies'', json_list (\<lambda>k. JString (strategy_kind_name k)) (acl_strategies c)),
      (''supports_prepare'', JBool (acl_supports_prepare c)),
      (''supports_rollback'', JBool (acl_supports_rollback c)),
      (''supports_health_probe'', JBool (acl_supports_health_probe c)),
      (''supports_version_observation'', JBool (acl_supports_version_observation c)),
      (''supports_generation_handoff'', JBool (acl_supports_generation_handoff c)),
      (''requires_service_removal'', JBool (acl_requires_service_removal c)),
      (''max_parallel_activations'', JUint (ucast (acl_max_parallel c))),
      (''declared_limits'', json_list JString (acl_declared_limits c))]"

text \<open>
  The parallelism limit is read leniently: a value that is not an unsigned number counts as 0, and a
  larger one is cut to 32 bits.  The declared limits are written but never read back.
\<close>

definition claims_from_json :: "json \<Rightarrow> adapter_claims result" where
  "claims_from_json v =
     (if \<not> json_is_object v then fail EC_invalid_argument ''adapter claims must be an object'' ''''
      else case json_find v ''strategies'' of
        None \<Rightarrow> fail EC_invalid_argument ''adapter claims require a strategies array'' ''''
      | Some kinds \<Rightarrow>
        if \<not> json_is_array kinds
        then fail EC_invalid_argument ''adapter claims require a strategies array'' ''''
        else
          fum_try (map_result (\<lambda>item. fum_try (json_as_string item) parse_strategy_kind)
                     (json_items kinds)) (\<lambda>strategies.
          fum_try (json_opt_bool v ''supports_prepare'' False) (\<lambda>prepare.
          fum_try (json_opt_bool v ''supports_rollback'' False) (\<lambda>rollback.
          fum_try (json_opt_bool v ''supports_health_probe'' False) (\<lambda>health.
          fum_try (json_opt_bool v ''supports_version_observation'' False) (\<lambda>observation.
          fum_try (json_opt_bool v ''supports_generation_handoff'' False) (\<lambda>handoff.
          fum_try (json_opt_bool v ''requires_service_removal'' False) (\<lambda>drain.
          let parallel = (case json_find v ''max_parallel_activations'' of
                            None \<Rightarrow> 1
                          | Some p \<Rightarrow> ucast (the_value (json_as_uint p) 0));
              out = \<lparr>acl_strategies = strategies, acl_supports_prepare = prepare,
                     acl_supports_rollback = rollback, acl_supports_health_probe = health,
                     acl_supports_version_observation = observation,
                     acl_supports_generation_handoff = handoff,
                     acl_requires_service_removal = drain, acl_max_parallel = parallel,
                     acl_declared_limits = []\<rparr>
          in fum_try (claims_validate out) (\<lambda>_. Inr out)))))))))"

record target_descriptor =
  tgt_id :: target_id
  tgt_component :: component_id
  tgt_display_name :: string
  tgt_installed_version :: version
  tgt_installed_build :: build_id
  tgt_platform :: string
  tgt_capabilities :: "string list"
  tgt_adapter :: adapter_id
  tgt_adapter_kind :: adapter_kind
  tgt_claims :: adapter_claims
  tgt_authority :: authority_id
  tgt_redundancy_group :: string
  tgt_is_control_plane :: bool
  tgt_generation_capable :: bool

definition has_capability :: "target_descriptor \<Rightarrow> string \<Rightarrow> bool" where
  "has_capability d name = list_ex (\<lambda>c. c = name) (tgt_capabilities d)"

definition target_validate :: "target_descriptor \<Rightarrow> status" where
  "target_validate d =
     (if tgt_id d = [] then fail EC_invalid_argument ''target id is required'' ''''
      else if tgt_component d = []
      then fail EC_invalid_argument ''target component id is required'' ''''
      else if tgt_platform d = [] then fail EC_invalid_argument ''target platform is required'' ''''
      else if tgt_adapter d = [] then fail EC_invalid_argument ''target adapter id is required'' ''''
      else if tgt_authority d = [] then fail EC_invalid_argument ''target authority is required'' ''''
      else claims_validate (tgt_claims d))"

definition target_to_json :: "target_descriptor \<Rightarrow> json" where
  "target_to_json d = json_build
     [(''target_id'', JString (tgt_id d)), (''component_id'', JString (tgt_component d)),
      (''display_name'', JString (tgt_display_name d)),
      (''installed_version'', JString (ver_text (tgt_installed_version d))),
      (''installed_build'', JString (tgt_installed_build d)),
      (''platform'', JString (tgt_platform d)),
      (''capabilities'', json_list JString (tgt_capabilities d)),
      (''adapter_id'', JString (tgt_adapter d)),
      (''adapter_kind'', JString (adapter_kind_name (tgt_adapter_kind d))),
      (''claims'', claims_to_json (tgt_claims d)),
      (''authority'', JString (tgt_authority d)),
      (''redundancy_group'', JString (tgt_redundancy_group d)),
      (''is_control_plane'', JBool (tgt_is_control_plane d)),
      (''generation_capable'', JBool (tgt_generation_capable d))]"

definition optional_id :: "json \<Rightarrow> string \<Rightarrow> string result" where
  "optional_id v key = fum_try (json_opt_string v key []) parse_id"

definition target_from_json :: "json \<Rightarrow> target_descriptor result" where
  "target_from_json v =
     (if \<not> json_is_object v
      then fail EC_invalid_argument ''target descriptor must be a json object'' ''''
      else
        fum_try (optional_id v ''target_id'') (\<lambda>tid.
        fum_try (optional_id v ''component_id'') (\<lambda>component.
        fum_try (json_opt_string v ''display_name'' []) (\<lambda>display_name.
        fum_try (fum_try (json_require_string v ''installed_version'') version_parse) (\<lambda>version.
        fum_try (fum_try (json_opt_string v ''installed_build'' []) parse_id_or_empty) (\<lambda>build.
        fum_try (json_opt_string v ''platform'' []) (\<lambda>platform.
        fum_try (case json_find v ''capabilities'' of
                   None \<Rightarrow> Inr []
                 | Some caps \<Rightarrow> if json_is_array caps
                                then map_result json_as_string (json_items caps) else Inr [])
          (\<lambda>capabilities.
        fum_try (optional_id v ''adapter_id'') (\<lambda>adapter.
        fum_try (json_optional (\<lambda>k. fum_try (json_as_string k) parse_adapter_kind) v
                   ''adapter_kind'' AK_synthetic) (\<lambda>kind.
        fum_try (case json_find v ''claims'' of
                   None \<Rightarrow> fail EC_invalid_argument ''target descriptor requires adapter claims'' ''''
                 | Some c \<Rightarrow> claims_from_json c) (\<lambda>claims.
        fum_try (optional_id v ''authority'') (\<lambda>authority.
        fum_try (json_opt_string v ''redundancy_group'' []) (\<lambda>group.
        fum_try (json_opt_bool v ''is_control_plane'' False) (\<lambda>control_plane.
        fum_try (json_opt_bool v ''generation_capable'' False) (\<lambda>generation_capable.
        let out = \<lparr>tgt_id = tid, tgt_component = component, tgt_display_name = display_name,
                   tgt_installed_version = version, tgt_installed_build = build,
                   tgt_platform = platform, tgt_capabilities = capabilities,
                   tgt_adapter = adapter, tgt_adapter_kind = kind, tgt_claims = claims,
                   tgt_authority = authority, tgt_redundancy_group = group,
                   tgt_is_control_plane = control_plane,
                   tgt_generation_capable = generation_capable\<rparr>
        in fum_try (target_validate out) (\<lambda>_. Inr out))))))))))))))))"

record inventory_snapshot =
  inv_revision :: u64
  inv_incarnation :: u64
  inv_observed_at :: timestamp
  inv_validity :: duration
  inv_targets :: "target_descriptor list"

definition inv_find :: "inventory_snapshot \<Rightarrow> target_id \<Rightarrow> target_descriptor option" where
  "inv_find snap tid = List.find (\<lambda>d. tgt_id d = tid) (inv_targets snap)"

definition members_of :: "inventory_snapshot \<Rightarrow> component_id \<Rightarrow> target_descriptor list" where
  "members_of snap component =
     sort_key tgt_id (filter (\<lambda>d. tgt_component d = component) (inv_targets snap))"

subsection \<open>Freshness\<close>

record freshness_verdict =
  fre_fresh :: bool
  fre_age :: duration
  fre_reason :: string

definition evaluate_freshness ::
    "timestamp \<Rightarrow> duration \<Rightarrow> u64 \<Rightarrow> timestamp \<Rightarrow> u64 \<Rightarrow> freshness_verdict" where
  "evaluate_freshness observed_at validity observed_in now current =
     (let age = now - observed_at;
          verdict = (\<lambda>fresh reason. \<lparr>fre_fresh = fresh, fre_age = age, fre_reason = reason\<rparr>)
      in if observed_in \<noteq> current
         then verdict False (''observed in incarnation '' @ u64_to_string observed_in @
                '' but the current incarnation is '' @ u64_to_string current)
         else if validity = 0 \<or> validity < 0
         then verdict False ''evidence declares no positive validity window''
         else if age < 0
         then verdict False ''evidence is stamped in the future relative to the runtime clock''
         else if age > validity
         then verdict False (''evidence is older than its validity window ('' @ int_to_string age @
                ''ns > '' @ int_to_string validity @ ''ns)'')
         else verdict True ''fresh'')"

definition freshness_to_json :: "freshness_verdict \<Rightarrow> json" where
  "freshness_to_json v = json_build
     [(''fresh'', JBool (fre_fresh v)), (''age_nanos'', JInt (fre_age v)),
      (''reason'', JString (fre_reason v))]"

datatype evidence_source =
    ES_inventory_probe | ES_adapter_observation | ES_health_probe | ES_compatibility_registry
  | ES_drain_fabric | ES_configuration_fabric | ES_operator_declaration | ES_persisted_record

fun evidence_source_name :: "evidence_source \<Rightarrow> string" where
  "evidence_source_name ES_inventory_probe = ''inventory-probe''"
| "evidence_source_name ES_adapter_observation = ''adapter-observation''"
| "evidence_source_name ES_health_probe = ''health-probe''"
| "evidence_source_name ES_compatibility_registry = ''compatibility-registry''"
| "evidence_source_name ES_drain_fabric = ''drain-fabric''"
| "evidence_source_name ES_configuration_fabric = ''configuration-fabric''"
| "evidence_source_name ES_operator_declaration = ''operator-declaration''"
| "evidence_source_name ES_persisted_record = ''persisted-record''"

record 'a evidence =
  evd_value :: 'a
  evd_observed_at :: timestamp
  evd_validity :: duration
  evd_incarnation :: u64
  evd_source :: evidence_source
  evd_origin :: string

definition evd_present :: "'a evidence \<Rightarrow> bool" where
  "evd_present e \<longleftrightarrow> evd_observed_at e \<noteq> 0"

definition evd_freshness :: "'a evidence \<Rightarrow> timestamp \<Rightarrow> u64 \<Rightarrow> freshness_verdict" where
  "evd_freshness e now current =
     (if \<not> evd_present e
      then \<lparr>fre_fresh = False, fre_age = 0, fre_reason = ''no evidence has been observed''\<rparr>
      else evaluate_freshness (evd_observed_at e) (evd_validity e) (evd_incarnation e) now current)"

definition evd_is_fresh :: "'a evidence \<Rightarrow> timestamp \<Rightarrow> u64 \<Rightarrow> bool" where
  "evd_is_fresh e now current = fre_fresh (evd_freshness e now current)"

lemma evaluate_freshness_iff:
  "fre_fresh (evaluate_freshness observed_at validity observed_in now current) \<longleftrightarrow>
     observed_in = current \<and> 0 < validity \<and> observed_at \<le> now \<and> now \<le> observed_at + validity"
  by (auto simp: evaluate_freshness_def Let_def)

lemma evd_is_fresh_iff:
  "evd_is_fresh e now current \<longleftrightarrow>
     evd_observed_at e \<noteq> 0 \<and> evd_incarnation e = current \<and> 0 < evd_validity e \<and>
     evd_observed_at e \<le> now \<and> now \<le> evd_observed_at e + evd_validity e"
  by (simp add: evd_is_fresh_def evd_freshness_def evd_present_def evaluate_freshness_iff)

text \<open>
  Evidence is fresh exactly when it was observed, in the incarnation that asks, and the
  clock stands inside its positive validity window.  So evidence observed by an earlier
  incarnation is never fresh again, however it is loaded and whatever the clock says, and once
  evidence has expired it stays expired as time passes.
\<close>

theorem evidence_freshness:
  "(evd_is_fresh e now current \<longleftrightarrow>
      evd_observed_at e \<noteq> 0 \<and> evd_incarnation e = current \<and> 0 < evd_validity e \<and>
      evd_observed_at e \<le> now \<and> now \<le> evd_observed_at e + evd_validity e) \<and>
   (\<not> evd_is_fresh e now current \<and> evd_observed_at e \<le> now \<and> now \<le> later \<longrightarrow>
      \<not> evd_is_fresh e later current)"
  by (auto simp: evd_is_fresh_iff)

lemma evidence_freshness_witness:
  "\<not> evd_is_fresh \<lparr>evd_value = (), evd_observed_at = 100, evd_validity = 30, evd_incarnation = 1,
      evd_source = ES_health_probe, evd_origin = ''probe''\<rparr> 131 1 \<and>
   \<not> evd_is_fresh \<lparr>evd_value = (), evd_observed_at = 100, evd_validity = 30, evd_incarnation = 1,
      evd_source = ES_health_probe, evd_origin = ''probe''\<rparr> 200 1"
  using evidence_freshness [of "\<lparr>evd_value = (), evd_observed_at = 100, evd_validity = 30,
      evd_incarnation = 1, evd_source = ES_health_probe, evd_origin = ''probe''\<rparr>" 131 1 200]
  by simp

subsection \<open>Claims and round trips\<close>

lemma adjacent_equal_sorted: "sorted xs \<Longrightarrow> adjacent_equal xs \<longleftrightarrow> \<not> distinct xs"
proof (induction xs rule: adjacent_equal.induct)
  case (1 x y zs)
  then show ?case by (auto simp: order.antisym)
qed simp_all

lemma adjacent_equal_sort: "adjacent_equal (sort xs) \<longleftrightarrow> \<not> distinct (xs :: 'a :: linorder list)"
  by (simp add: adjacent_equal_sorted)

lemma claims_support_iff: "claims_support c k \<longleftrightarrow> k \<in> set (acl_strategies c)"
  by (auto simp: claims_support_def list_ex_iff)

lemma claims_validate_iff:
  "claims_validate c = Inr u \<longleftrightarrow>
     acl_strategies c \<noteq> [] \<and> distinct (acl_strategies c) \<and>
     (SK_control_plane_generation_handoff \<in> set (acl_strategies c) \<longrightarrow> acl_supports_generation_handoff c) \<and>
     (SK_redundant_pair_rolling \<in> set (acl_strategies c) \<longrightarrow> acl_supports_health_probe c) \<and>
     acl_max_parallel c \<noteq> 0 \<and> acl_max_parallel c \<le> 256"
  by (auto simp: claims_validate_def adjacent_equal_sort claims_support_iff not_less)

lemma parse_strategy_kind_name [simp, codec_simps]: "parse_strategy_kind (strategy_kind_name k) = Inr k"
  by (cases k) (simp_all add: parse_strategy_kind_def)

lemma parse_adapter_kind_name [simp, codec_simps]: "parse_adapter_kind (adapter_kind_name k) = Inr k"
  by (cases k) (simp_all add: parse_adapter_kind_def)

lemma ucast_u32_u64_down [simp]: "(ucast (ucast (w :: u32) :: u64) :: u32) = w"
  by (rule bit_word_eqI) (auto simp: bit_simps dest: bit_imp_le_length)

lemma strategies_roundtrip:
  "map_result (\<lambda>item. fum_try (json_as_string item) parse_strategy_kind)
     (map (\<lambda>k. JString (strategy_kind_name k)) ks) = Inr ks"
  by (rule map_result_map) simp

lemma claims_roundtrip:
  assumes "claims_validate c = ok_status" "acl_declared_limits c = []"
  shows "claims_from_json (claims_to_json c) = Inr c"
  using assms by (cases c) (simp add: claims_from_json_def claims_to_json_def codec_simps
      strategies_roundtrip Let_def cong: fum_try_weak_cong)

definition target_wf :: "target_descriptor \<Rightarrow> bool" where
  "target_wf d \<longleftrightarrow>
     valid_id (tgt_id d) \<and> valid_id (tgt_component d) \<and> version_wf (tgt_installed_version d) \<and>
     (tgt_installed_build d = [] \<or> valid_id (tgt_installed_build d)) \<and> valid_id (tgt_adapter d) \<and>
     valid_id (tgt_authority d) \<and> target_validate d = ok_status \<and>
     acl_declared_limits (tgt_claims d) = []"

lemma target_validate_claims: "target_validate d = ok_status \<Longrightarrow> claims_validate (tgt_claims d) = ok_status"
  by (auto simp: target_validate_def split: if_splits)

lemma target_roundtrip:
  assumes "target_wf d"
  shows "target_from_json (target_to_json d) = Inr d"
proof -
  note wf = assms [unfolded target_wf_def]
  have "claims_from_json (claims_to_json (tgt_claims d)) = Inr (tgt_claims d)"
    using wf target_validate_claims by (intro claims_roundtrip) auto
  moreover have "parse_id_or_empty (tgt_installed_build d) = Inr (tgt_installed_build d)"
    using wf by auto
  ultimately show ?thesis
    using wf by (cases d) (simp add: target_from_json_def target_to_json_def optional_id_def codec_simps
        Let_def cong: fum_try_weak_cong)
qed

end
