(* ===== verification/Model_Policy.thy ===== *)
theory Model_Policy
  imports Model_Skew Model_Target Core_Json_Text
begin

text \<open>
  The operating policy (\<open>model/policy\<close>): validity windows, counts and switches with their defaults,
  validation, the JSON form (windows in whole milliseconds) and the fingerprint.
\<close>

record policy =
  pol_id :: policy_id
  pol_revision :: u64
  pol_name :: string
  pol_inventory_validity :: duration
  pol_artifact_validity :: duration
  pol_compatibility_validity :: duration
  pol_health_validity :: duration
  pol_verification_validity :: duration
  pol_preflight_validity :: duration
  pol_attempt_lease :: duration
  pol_max_attempts_per_target :: u32
  pol_max_retries_per_operation :: u32
  pol_max_stages :: u32
  pol_max_targets :: u32
  pol_max_concurrent_activations :: u32
  pol_max_decisions_per_campaign :: u32
  pol_max_operations_per_attempt :: u32
  pol_max_provenance_records :: u32
  pol_require_signature_declaration :: bool
  pol_require_health_gate :: bool
  pol_allow_irreversible_acknowledgement :: bool
  pol_stop_on_first_stage_failure :: bool
  pol_default_skew_budget :: skew_budget

definition default_policy :: policy where
  "default_policy =
     \<lparr>pol_id = [], pol_revision = 0, pol_name = ''default'',
      pol_inventory_validity = from_seconds 30, pol_artifact_validity = from_seconds 300,
      pol_compatibility_validity = from_seconds 300, pol_health_validity = from_seconds 30,
      pol_verification_validity = from_seconds 60, pol_preflight_validity = from_seconds 120,
      pol_attempt_lease = from_seconds 300,
      pol_max_attempts_per_target = 3, pol_max_retries_per_operation = 2, pol_max_stages = 64,
      pol_max_targets = 512, pol_max_concurrent_activations = 4,
      pol_max_decisions_per_campaign = 512, pol_max_operations_per_attempt = 32,
      pol_max_provenance_records = 100000,
      pol_require_signature_declaration = True, pol_require_health_gate = True,
      pol_allow_irreversible_acknowledgement = True, pol_stop_on_first_stage_failure = True,
      pol_default_skew_budget = default_skew_budget\<rparr>"

definition policy_windows :: "policy \<Rightarrow> duration list" where
  "policy_windows p =
     [pol_inventory_validity p, pol_artifact_validity p, pol_compatibility_validity p,
      pol_health_validity p, pol_verification_validity p, pol_preflight_validity p,
      pol_attempt_lease p]"

definition policy_validate :: "policy \<Rightarrow> status" where
  "policy_validate p =
     (if pol_id p = [] then fail EC_invalid_argument ''policy id is required'' ''''
      else if pol_max_attempts_per_target p = 0 \<or> pol_max_attempts_per_target p > 64
      then fail EC_invalid_argument ''max_attempts_per_target is out of range'' ''''
      else if pol_max_retries_per_operation p > 16
      then fail EC_invalid_argument ''max_retries_per_operation is out of range'' ''''
      else if pol_max_stages p = 0 \<or> pol_max_stages p > 4096
      then fail EC_invalid_argument ''max_stages is out of range'' ''''
      else if pol_max_targets p = 0 \<or> pol_max_targets p > 100000
      then fail EC_invalid_argument ''max_targets is out of range'' ''''
      else if pol_max_concurrent_activations p = 0 \<or> pol_max_concurrent_activations p > 256
      then fail EC_invalid_argument ''max_concurrent_activations is out of range'' ''''
      else if pol_max_decisions_per_campaign p = 0 \<or> pol_max_decisions_per_campaign p > 100000
      then fail EC_invalid_argument ''max_decisions_per_campaign is out of range'' ''''
      else if pol_max_operations_per_attempt p = 0 \<or> pol_max_operations_per_attempt p > 1024
      then fail EC_invalid_argument ''max_operations_per_attempt is out of range'' ''''
      else if pol_max_provenance_records p = 0 \<or> pol_max_provenance_records p > 10000000
      then fail EC_invalid_argument ''max_provenance_records is out of range'' ''''
      else if list_ex (\<lambda>w. w = 0 \<or> w < 0) (policy_windows p)
      then fail EC_invalid_argument ''every validity window must be a positive duration'' ''''
      else skew_validate (pol_default_skew_budget p))"

definition millis_json :: "duration \<Rightarrow> json" where
  "millis_json d = JInt (c_div d 1000000)"

definition policy_to_json :: "policy \<Rightarrow> json" where
  "policy_to_json p = json_build
     [(''policy_id'', JString (pol_id p)), (''revision'', JUint (pol_revision p)),
      (''name'', JString (pol_name p)),
      (''inventory_validity_ms'', millis_json (pol_inventory_validity p)),
      (''artifact_validity_ms'', millis_json (pol_artifact_validity p)),
      (''compatibility_validity_ms'', millis_json (pol_compatibility_validity p)),
      (''health_validity_ms'', millis_json (pol_health_validity p)),
      (''verification_validity_ms'', millis_json (pol_verification_validity p)),
      (''preflight_validity_ms'', millis_json (pol_preflight_validity p)),
      (''attempt_lease_ms'', millis_json (pol_attempt_lease p)),
      (''max_attempts_per_target'', JUint (ucast (pol_max_attempts_per_target p))),
      (''max_retries_per_operation'', JUint (ucast (pol_max_retries_per_operation p))),
      (''max_stages'', JUint (ucast (pol_max_stages p))),
      (''max_targets'', JUint (ucast (pol_max_targets p))),
      (''max_concurrent_activations'', JUint (ucast (pol_max_concurrent_activations p))),
      (''max_decisions_per_campaign'', JUint (ucast (pol_max_decisions_per_campaign p))),
      (''max_operations_per_attempt'', JUint (ucast (pol_max_operations_per_attempt p))),
      (''max_provenance_records'', JUint (ucast (pol_max_provenance_records p))),
      (''require_signature_declaration'', JBool (pol_require_signature_declaration p)),
      (''require_health_gate'', JBool (pol_require_health_gate p)),
      (''allow_irreversible_acknowledgement'', JBool (pol_allow_irreversible_acknowledgement p)),
      (''stop_on_first_stage_failure'', JBool (pol_stop_on_first_stage_failure p)),
      (''default_skew_budget'', skew_to_json (pol_default_skew_budget p))]"

definition policy_window_field :: "json \<Rightarrow> string \<Rightarrow> duration \<Rightarrow> duration result" where
  "policy_window_field v key dflt =
     json_optional (\<lambda>item. fum_try (json_as_int item) (\<lambda>millis.
       if millis \<le> 0 then fail EC_invalid_argument ''policy duration must be positive'' key
       else Inr (from_millis millis))) v key dflt"

definition policy_count_field :: "json \<Rightarrow> string \<Rightarrow> u32 \<Rightarrow> u32 result" where
  "policy_count_field v key dflt =
     json_optional (\<lambda>item. fum_try (json_as_uint item) (\<lambda>numeric.
       if numeric > 0xFFFFFFFF then fail EC_invalid_argument ''policy count is out of range'' key
       else Inr (ucast numeric))) v key dflt"

definition policy_from_json :: "json \<Rightarrow> policy result" where
  "policy_from_json v =
     (if \<not> json_is_object v then fail EC_invalid_argument ''policy must be a json object'' ''''
      else let d = default_policy in
        fum_try (fum_try (json_require_string v ''policy_id'') parse_id) (\<lambda>pid.
        fum_try (json_require_uint v ''revision'') (\<lambda>revision.
        fum_try (json_opt_string v ''name'' (pol_name d)) (\<lambda>name.
        fum_try (policy_window_field v ''inventory_validity_ms'' (pol_inventory_validity d)) (\<lambda>inventory.
        fum_try (policy_window_field v ''artifact_validity_ms'' (pol_artifact_validity d)) (\<lambda>artifact.
        fum_try (policy_window_field v ''compatibility_validity_ms'' (pol_compatibility_validity d)) (\<lambda>compatibility.
        fum_try (policy_window_field v ''health_validity_ms'' (pol_health_validity d)) (\<lambda>health.
        fum_try (policy_window_field v ''verification_validity_ms'' (pol_verification_validity d)) (\<lambda>verification.
        fum_try (policy_window_field v ''preflight_validity_ms'' (pol_preflight_validity d)) (\<lambda>preflight.
        fum_try (policy_window_field v ''attempt_lease_ms'' (pol_attempt_lease d)) (\<lambda>lease.
        fum_try (policy_count_field v ''max_attempts_per_target'' (pol_max_attempts_per_target d)) (\<lambda>attempts.
        fum_try (policy_count_field v ''max_retries_per_operation'' (pol_max_retries_per_operation d)) (\<lambda>retries.
        fum_try (policy_count_field v ''max_stages'' (pol_max_stages d)) (\<lambda>stages.
        fum_try (policy_count_field v ''max_targets'' (pol_max_targets d)) (\<lambda>targets.
        fum_try (policy_count_field v ''max_concurrent_activations'' (pol_max_concurrent_activations d)) (\<lambda>concurrent.
        fum_try (policy_count_field v ''max_decisions_per_campaign'' (pol_max_decisions_per_campaign d)) (\<lambda>decisions.
        fum_try (policy_count_field v ''max_operations_per_attempt'' (pol_max_operations_per_attempt d)) (\<lambda>operations.
        fum_try (json_optional (\<lambda>item. fum_try (json_as_uint item) (\<lambda>numeric.
            if numeric > 0xFFFFFFFF
            then fail EC_invalid_argument ''max_provenance_records is out of range'' ''''
            else Inr (ucast numeric))) v ''max_provenance_records'' (pol_max_provenance_records d)) (\<lambda>provenance.
        fum_try (json_opt_bool v ''require_signature_declaration'' (pol_require_signature_declaration d)) (\<lambda>signature.
        fum_try (json_opt_bool v ''require_health_gate'' (pol_require_health_gate d)) (\<lambda>health_gate.
        fum_try (json_opt_bool v ''allow_irreversible_acknowledgement'' (pol_allow_irreversible_acknowledgement d)) (\<lambda>irreversible.
        fum_try (json_opt_bool v ''stop_on_first_stage_failure'' (pol_stop_on_first_stage_failure d)) (\<lambda>stop_first.
        fum_try (json_optional skew_from_json v ''default_skew_budget'' (pol_default_skew_budget d)) (\<lambda>budget.
        let out = \<lparr>pol_id = pid, pol_revision = revision, pol_name = name,
              pol_inventory_validity = inventory, pol_artifact_validity = artifact,
              pol_compatibility_validity = compatibility, pol_health_validity = health,
              pol_verification_validity = verification, pol_preflight_validity = preflight,
              pol_attempt_lease = lease, pol_max_attempts_per_target = attempts,
              pol_max_retries_per_operation = retries, pol_max_stages = stages,
              pol_max_targets = targets, pol_max_concurrent_activations = concurrent,
              pol_max_decisions_per_campaign = decisions,
              pol_max_operations_per_attempt = operations,
              pol_max_provenance_records = provenance,
              pol_require_signature_declaration = signature,
              pol_require_health_gate = health_gate,
              pol_allow_irreversible_acknowledgement = irreversible,
              pol_stop_on_first_stage_failure = stop_first, pol_default_skew_budget = budget\<rparr>
        in fum_try (policy_validate out) (\<lambda>_. Inr out)))))))))))))))))))))))))"

definition policy_fingerprint :: "policy \<Rightarrow> string" where
  "policy_fingerprint p = sha256_hex (json_dump (policy_to_json p))"

subsection \<open>Round trip\<close>

text \<open>Windows survive when they are whole milliseconds.\<close>

definition policy_wf :: "policy \<Rightarrow> bool" where
  "policy_wf p \<longleftrightarrow>
     valid_id (pol_id p) \<and> policy_validate p = ok_status \<and> skew_wf (pol_default_skew_budget p) \<and>
     list_all (\<lambda>w. 1000000 dvd w) (policy_windows p)"

lemma policy_window_Some:
  assumes "json_find v key = Some (millis_json w)" "1000000 dvd w" "0 < w"
  shows "policy_window_field v key dflt = Inr w"
proof -
  obtain k where k: "w = 1000000 * k" using assms(2) by (rule dvdE)
  then have "c_div w 1000000 = k" "0 < k" using assms(3) by (simp_all add: c_div_def)
  with assms(1) k show ?thesis
    by (simp add: policy_window_field_def json_optional_def millis_json_def from_millis_def)
qed

lemma policy_count_Some:
  "json_find v key = Some (JUint (ucast w)) \<Longrightarrow> policy_count_field v key dflt = Inr w"
  using ucast_u32_bound [of w] by (simp add: policy_count_field_def json_optional_def)

lemma policy_windows_positive:
  "policy_validate p = ok_status \<Longrightarrow> list_all (\<lambda>w. 0 < w) (policy_windows p)"
  by (auto simp: policy_validate_def list_all_iff list_ex_iff split: if_splits)

lemma policy_eta [simp]:
  "\<lparr>pol_id = pol_id p,
    pol_revision = pol_revision p,
    pol_name = pol_name p,
    pol_inventory_validity = pol_inventory_validity p,
    pol_artifact_validity = pol_artifact_validity p,
    pol_compatibility_validity = pol_compatibility_validity p,
    pol_health_validity = pol_health_validity p,
    pol_verification_validity = pol_verification_validity p,
    pol_preflight_validity = pol_preflight_validity p,
    pol_attempt_lease = pol_attempt_lease p,
    pol_max_attempts_per_target = pol_max_attempts_per_target p,
    pol_max_retries_per_operation = pol_max_retries_per_operation p,
    pol_max_stages = pol_max_stages p,
    pol_max_targets = pol_max_targets p,
    pol_max_concurrent_activations = pol_max_concurrent_activations p,
    pol_max_decisions_per_campaign = pol_max_decisions_per_campaign p,
    pol_max_operations_per_attempt = pol_max_operations_per_attempt p,
    pol_max_provenance_records = pol_max_provenance_records p,
    pol_require_signature_declaration = pol_require_signature_declaration p,
    pol_require_health_gate = pol_require_health_gate p,
    pol_allow_irreversible_acknowledgement = pol_allow_irreversible_acknowledgement p,
    pol_stop_on_first_stage_failure = pol_stop_on_first_stage_failure p,
    pol_default_skew_budget = pol_default_skew_budget p\<rparr> = p"
  by simp

lemma policy_roundtrip:
  assumes "policy_wf p"
  shows "policy_from_json (policy_to_json p) = Inr p"
proof -
  note wf = assms [unfolded policy_wf_def]
  note pos = policy_windows_positive [of p]
  have win: "policy_window_field v key d = Inr w"
    if "json_find v key = Some (millis_json w)" "w \<in> set (policy_windows p)" for v key d w
    using that wf pos by (intro policy_window_Some) (simp_all add: list_all_iff)
  note small = ucast_u32_bound [of "pol_max_provenance_records p"]
  show ?thesis
    unfolding policy_from_json_def policy_to_json_def
    using wf small by (simp add: codec_simps win policy_windows_def policy_count_Some
        skew_roundtrip Let_def cong: fum_try_weak_cong)
qed

end
