(* ===== verification/Core_Json_Roundtrip.thy ===== *)
theory Core_Json_Roundtrip
  imports Core_Json_Parse
begin

text \<open>
  The parser of \<open>core/json\<close> against its writer.  Each routine returns less text than it was given,
  so the fuel of \<open>json_parse\<close> is enough for every input and more of it changes nothing; a value that
  \<open>dump_into\<close> wrote, compact or indented, is read back off the front of any text it begins.
\<close>

subsection \<open>Every routine consumes input\<close>

lemma skip_space_length: "length (skip_space rest) \<le> length rest"
  by (simp add: skip_space_def length_dropWhile_le)

lemma parse_string_loop_length:
  "parse_string_loop lims len cs out = Inr (s, rest) \<Longrightarrow> length rest < length cs"
proof (induction lims len cs out rule: parse_string_loop.induct)
  case (1 lims len out)
  then show ?case by simp
next
  case (2 lims len c cs out)
  consider (close) "c = CHR 0x22" | (bad) "c \<noteq> CHR 0x22" "c < CHR 0x20"
    | (esc) "c = CHR 0x5C" | (plain) "c \<noteq> CHR 0x22" "\<not> c < CHR 0x20" "c \<noteq> CHR 0x5C" by blast
  then show ?case
  proof cases
    case esc
    then obtain bytes rest' where e: "parse_escape cs = Inr (bytes, rest')"
        "parse_string_loop lims len rest' (out @ bytes) = Inr (s, rest)"
      using "2.prems" by (auto split: sum.splits prod.splits if_splits)
    with "2.IH"(1) [OF _ _ _ e(1) refl] esc "2.prems" have "length rest < length rest'"
      by (auto split: if_splits)
    with parse_escape_length [OF e(1)] show ?thesis by simp
  next
    case plain
    with 2 show ?thesis by (auto split: if_splits)
  qed (use "2.prems" in \<open>auto split: if_splits\<close>)
qed

lemma dropWhile_tl_length:
  "cs \<noteq> [] \<Longrightarrow> length (dropWhile P (tl cs)) < length cs"
  using length_dropWhile_le [of P "tl cs"] by (cases cs) auto

lemma parse_fraction_length: "parse_fraction cs = Inr (fr, rest) \<Longrightarrow> length rest \<le> length cs"
  by (auto simp: parse_fraction_def dest: dropWhile_tl_length [of cs is_digit] split: if_splits)

lemma parse_exponent_length:
  assumes "parse_exponent cs = Inr (ex, rest)"
  shows "length rest \<le> length cs"
proof -
  have "length (dropWhile is_digit (tl cs)) \<le> length cs"
    using length_dropWhile_le [of is_digit "tl cs"] by simp
  moreover have "length (dropWhile is_digit (tl (tl cs))) \<le> length cs"
    using length_dropWhile_le [of is_digit "tl (tl cs)"] by simp
  ultimately show ?thesis
    using assms by (auto simp: parse_exponent_def Let_def split: if_splits)
qed

lemma parse_number_length:
  assumes "parse_number len cs = Inr (v, rest)"
  shows "length rest < length cs"
proof -
  let ?body = "if cs \<noteq> [] \<and> hd cs = CHR ''-'' then tl cs else cs"
  have b: "?body \<noteq> []" "is_digit (hd ?body)"
    using assms by (auto simp: parse_number_def Let_def split: if_splits)
  from b have "length (dropWhile is_digit ?body) < length ?body"
    using length_dropWhile_le [of is_digit "tl ?body"] by (cases ?body) (auto split: if_splits)
  moreover have "length ?body \<le> length cs" by simp
  moreover obtain fr rest1 ex where
    "parse_fraction (dropWhile is_digit ?body) = Inr (fr, rest1)" "parse_exponent rest1 = Inr (ex, rest)"
    using assms by (auto simp: parse_number_def Let_def fum_try_Inr_iff split: if_splits)
  ultimately show ?thesis
    using parse_fraction_length parse_exponent_length by fastforce
qed

lemma parse_literal_length:
  "parse_literal len word v cs nodes = Inr (x, rest, n) \<Longrightarrow> word \<noteq> [] \<Longrightarrow> cs \<noteq> [] \<Longrightarrow>
   length rest < length cs"
  by (auto simp: parse_literal_def split: if_splits)

lemma fuel_try_Some_iff:
  "fuel_try r f = Some (Inr b) \<longleftrightarrow> (\<exists>a. r = Some (Inr a) \<and> f a = Some (Inr b))"
  by (cases "(r, f)" rule: fuel_try.cases) auto

lemma fuel_try_None_iff: "fuel_try r f = None \<longleftrightarrow> r = None \<or> (\<exists>a. r = Some (Inr a) \<and> f a = None)"
  by (cases "(r, f)" rule: fuel_try.cases) auto

text \<open>What a value and a loop parser promise: whatever they return is shorter than what they got.\<close>

definition value_shortens :: "value_parser \<Rightarrow> bool" where
  "value_shortens p \<longleftrightarrow> (\<forall>d cs n v rest m. p d cs n = Some (Inr (v, rest, m)) \<longrightarrow> length rest < length cs)"

definition loop_shortens :: "loop_parser \<Rightarrow> bool" where
  "loop_shortens p \<longleftrightarrow> (\<forall>d cs n a v rest m. p d cs n a = Some (Inr (v, rest, m)) \<longrightarrow> length rest < length cs)"

lemma skip_tl_length: "cs \<noteq> [] \<Longrightarrow> length (skip_space (tl cs)) < length cs"
  using skip_space_length [of "tl cs"] by (cases cs) auto

lemma value_body_shortens:
  assumes "loop_shortens p" "loop_shortens q"
  shows "value_shortens (value_body lims len p q)"
  unfolding value_shortens_def
proof (intro allI impI)
  fix d cs n v rest m
  assume r: "value_body lims len p q d cs n = Some (Inr (v, rest, m))"
  then have ne: "cs \<noteq> []" by (auto simp: value_body_def split: if_splits)
  note sk = skip_tl_length [OF ne]
  have loops: "length rest < length cs" if "p d b k a = Some (Inr (v, rest, m))" "length b < length cs" for b k a
    using that assms(1) unfolding loop_shortens_def by (meson order_less_trans)
  have loops': "length rest < length cs" if "q d b k a = Some (Inr (v, rest, m))" "length b < length cs" for b k a
    using that assms(2) unfolding loop_shortens_def by (meson order_less_trans)
  have str: "length rest < length cs" if "parse_string_loop lims len (tl cs) [] = Inr (s, rest)" for s
    using parse_string_loop_length [OF that] by simp
  let ?body = "skip_space (tl cs)"
  have tlb: "length (tl ?body) < length cs" using sk by simp
  consider (obj) "hd cs = CHR ''{''" | (arr) "hd cs = CHR ''[''" | (scalar) "hd cs \<noteq> CHR ''{''" "hd cs \<noteq> CHR ''[''"
    by blast
  then show "length rest < length cs"
  proof cases
    case obj
    with r have "rest = tl ?body \<or> q d ?body (n + 1) (JObject []) = Some (Inr (v, rest, m))"
      by (auto simp: value_body_def Let_def split: if_splits)
    with loops' sk tlb show ?thesis by blast
  next
    case arr
    with r have "rest = tl ?body \<or> p d ?body (n + 1) (JArray []) = Some (Inr (v, rest, m))"
      by (auto simp: value_body_def Let_def split: if_splits)
    with loops sk tlb show ?thesis by blast
  next
    case scalar
    with r ne show ?thesis
      by (auto simp: value_body_def Let_def fum_try_Inr_iff
          dest: str parse_number_length parse_literal_length split: if_splits prod.splits)
  qed
qed

lemma array_body_shortens:
  assumes "value_shortens pv" "loop_shortens p"
  shows "loop_shortens (array_body len pv p)"
  unfolding loop_shortens_def
proof (intro allI impI)
  fix d cs n a v rest m
  assume "array_body len pv p d cs n a = Some (Inr (v, rest, m))"
  then obtain e rest1 n1 where pv: "pv (d + 1) (skip_space cs) n = Some (Inr (e, rest1, n1))"
    and cont: "(let a' = json_push a e; rest2 = skip_space rest1
       in if rest2 = [] then Some (fail EC_invalid_argument ''unterminated json array'' '''')
          else if hd rest2 = CHR '','' then p d (tl rest2) n1 a'
          else if hd rest2 = CHR '']'' then Some (Inr (a', tl rest2, n1))
          else Some (fail EC_invalid_argument (or_message (CHR '']'') ''array'') (offset_detail len rest2)))
       = Some (Inr (v, rest, m))"
    by (auto simp: array_body_def fuel_try_Some_iff)
  have l1: "length rest1 < length cs"
    using pv assms(1) skip_space_length [of cs] unfolding value_shortens_def by (meson order_less_le_trans)
  have l2: "length (tl (skip_space rest1)) \<le> length rest1"
    using skip_space_length [of rest1] by simp
  have "length rest < length (tl (skip_space rest1))" if "p d (tl (skip_space rest1)) n1 (json_push a e) = Some (Inr (v, rest, m))"
    using that assms(2) unfolding loop_shortens_def by blast
  then show "length rest < length cs"
    using cont l1 l2 by (auto simp: Let_def split: if_splits)
qed

lemma object_body_shortens:
  assumes "value_shortens pv" "loop_shortens p"
  shows "loop_shortens (object_body lims len pv p)"
  unfolding loop_shortens_def
proof (intro allI impI)
  fix d cs n a v rest m
  assume r: "object_body lims len pv p d cs n a = Some (Inr (v, rest, m))"
  then have ne: "skip_space cs \<noteq> []" by (auto simp: object_body_def Let_def split: if_splits)
  from r obtain key rest1 e rest3 n1 where
    key: "parse_string_loop lims len (tl (skip_space cs)) [] = Inr (key, rest1)"
    and pv: "pv (d + 1) (skip_space (tl (skip_space rest1))) n = Some (Inr (e, rest3, n1))"
    and cont: "(let a' = json_set a key e; rest4 = skip_space rest3
       in if rest4 = [] then Some (fail EC_invalid_argument ''unterminated json object'' '''')
          else if hd rest4 = CHR '','' then p d (tl rest4) n1 a'
          else if hd rest4 = CHR ''}'' then Some (Inr (a', tl rest4, n1))
          else Some (fail EC_invalid_argument (or_message (CHR ''}'') ''object'') (offset_detail len rest4)))
       = Some (Inr (v, rest, m))"
    by (auto simp: object_body_def Let_def fuel_try_Some_iff split: if_splits)
  have "length rest1 < length cs"
    using parse_string_loop_length [OF key] skip_space_length [of cs] by simp
  moreover have "length rest3 < length (skip_space (tl (skip_space rest1)))"
    using pv assms(1) unfolding value_shortens_def by blast
  moreover have "length (skip_space (tl (skip_space rest1))) \<le> length rest1"
    using skip_space_length [of "tl (skip_space rest1)"] skip_space_length [of rest1] by simp
  moreover have "length (tl (skip_space rest3)) \<le> length rest3"
    using skip_space_length [of rest3] by simp
  moreover have "length rest < length (tl (skip_space rest3))" if "p d (tl (skip_space rest3)) n1 (json_set a key e) = Some (Inr (v, rest, m))"
    using that assms(2) unfolding loop_shortens_def by blast
  ultimately show "length rest < length cs"
    using cont by (auto simp: Let_def split: if_splits)
qed

lemma parsers_shorten:
  "value_shortens (parse_value lims len fuel) \<and> loop_shortens (parse_array_loop lims len fuel) \<and>
   loop_shortens (parse_object_loop lims len fuel)"
proof (induction fuel)
  case 0
  then show ?case by (simp add: value_shortens_def loop_shortens_def)
next
  case (Suc fuel)
  then show ?case
    by (simp add: value_body_shortens array_body_shortens object_body_shortens)
qed

lemma parse_value_shorter:
  "parse_value lims len fuel d cs n = Some (Inr (v, rest, m)) \<Longrightarrow> length rest < length cs"
  using parsers_shorten [of lims len fuel] unfolding value_shortens_def by blast

subsection \<open>The fuel is enough, and more of it changes nothing\<close>

definition value_extends :: "value_parser \<Rightarrow> value_parser \<Rightarrow> bool" where
  "value_extends p p' \<longleftrightarrow> (\<forall>d cs n r. p d cs n = Some r \<longrightarrow> p' d cs n = Some r)"

definition loop_extends :: "loop_parser \<Rightarrow> loop_parser \<Rightarrow> bool" where
  "loop_extends p p' \<longleftrightarrow> (\<forall>d cs n a r. p d cs n a = Some r \<longrightarrow> p' d cs n a = Some r)"

lemma fuel_try_extends:
  assumes "fuel_try r f = Some x" "\<And>y. r = Some y \<Longrightarrow> r' = Some y"
    "\<And>a y. f a = Some y \<Longrightarrow> g a = Some y"
  shows "fuel_try r' g = Some x"
proof (cases r)
  case None
  with assms(1) show ?thesis by simp
next
  case (Some y)
  with assms show ?thesis by (cases y) simp_all
qed

lemma value_body_extends:
  assumes "loop_extends p p'" "loop_extends q q'"
  shows "value_extends (value_body lims len p q) (value_body lims len p' q')"
  using assms by (auto simp: value_extends_def loop_extends_def value_body_def Let_def)

lemma array_body_extends:
  assumes "value_extends pv pv'" "loop_extends p p'"
  shows "loop_extends (array_body len pv p) (array_body len pv' p')"
  unfolding loop_extends_def array_body_def
  by (intro allI impI, erule fuel_try_extends)
    (use assms in \<open>auto simp: value_extends_def loop_extends_def Let_def\<close>)

lemma object_body_extends:
  assumes "value_extends pv pv'" "loop_extends p p'"
  shows "loop_extends (object_body lims len pv p) (object_body lims len pv' p')"
  unfolding loop_extends_def
proof (intro allI impI)
  fix d cs n a r
  assume "object_body lims len pv p d cs n a = Some r"
  then show "object_body lims len pv' p' d cs n a = Some r"
    unfolding object_body_def Let_def
    by (auto split: if_splits elim!: fuel_try_extends)
      (use assms in \<open>auto simp: value_extends_def loop_extends_def elim!: fuel_try_extends split: if_splits prod.splits\<close>)
qed

lemma parsers_extend_Suc:
  "value_extends (parse_value lims len fuel) (parse_value lims len (Suc fuel)) \<and>
   loop_extends (parse_array_loop lims len fuel) (parse_array_loop lims len (Suc fuel)) \<and>
   loop_extends (parse_object_loop lims len fuel) (parse_object_loop lims len (Suc fuel))"
proof (induction fuel)
  case 0
  then show ?case by (simp add: value_extends_def loop_extends_def)
next
  case (Suc fuel)
  then show ?case
    unfolding parse_value.simps(2) parse_array_loop.simps(2) parse_object_loop.simps(2)
    by (intro conjI value_body_extends array_body_extends object_body_extends)
      (simp_all add: parse_value.simps(2))
qed

lemma parse_value_more_fuel:
  assumes "parse_value lims len fuel d cs n = Some r" "fuel \<le> fuel'"
  shows "parse_value lims len fuel' d cs n = Some r"
  using assms(2)
proof (induction fuel' rule: dec_induct)
  case base
  show ?case by (rule assms(1))
next
  case (step k)
  then show ?case using parsers_extend_Suc [of lims len k] unfolding value_extends_def by blast
qed

definition value_answers :: "nat \<Rightarrow> value_parser \<Rightarrow> bool" where
  "value_answers k p \<longleftrightarrow> (\<forall>d cs n. 2 * length cs + 1 \<le> k \<longrightarrow> p d cs n \<noteq> None)"

definition loop_answers :: "nat \<Rightarrow> loop_parser \<Rightarrow> bool" where
  "loop_answers k p \<longleftrightarrow> (\<forall>d cs n a. 2 * length cs + 2 \<le> k \<longrightarrow> p d cs n a \<noteq> None)"

lemma length_tl_le: "length (tl xs) \<le> length xs"
  by simp

lemma value_body_answers:
  assumes "loop_answers k p" "loop_answers k q"
  shows "value_answers (Suc k) (value_body lims len p q)"
  unfolding value_answers_def
proof (intro allI impI)
  fix d n and cs :: string
  assume k: "2 * length cs + 1 \<le> Suc k"
  show "value_body lims len p q d cs n \<noteq> None"
  proof (cases "cs = []")
    case True
    then show ?thesis by (simp add: value_body_def)
  next
    case False
    then have "2 * length (skip_space (tl cs)) + 2 \<le> k"
      using skip_tl_length [OF False] k by linarith
    then have "p d (skip_space (tl cs)) m a \<noteq> None" "q d (skip_space (tl cs)) m a \<noteq> None" for m a
      using assms unfolding loop_answers_def by blast+
    then show ?thesis by (auto simp: value_body_def Let_def split: if_splits)
  qed
qed

lemma array_body_answers:
  assumes "value_answers k pv" "loop_answers k p" "value_shortens pv"
  shows "loop_answers (Suc k) (array_body len pv p)"
  unfolding loop_answers_def
proof (intro allI impI)
  fix d n a and cs :: string
  assume k: "2 * length cs + 2 \<le> Suc k"
  have "pv (d + 1) (skip_space cs) n \<noteq> None"
    using assms(1) k skip_space_length [of cs] unfolding value_answers_def by simp
  moreover have "p d (tl (skip_space rest1)) m a' \<noteq> None"
    if "pv (d + 1) (skip_space cs) n = Some (Inr (e, rest1, m))" for e rest1 m a'
  proof -
    have "length rest1 < length (skip_space cs)"
      using that assms(3) unfolding value_shortens_def by blast
    then have "2 * length (tl (skip_space rest1)) + 2 \<le> k"
      using k skip_space_length [of cs] skip_space_length [of rest1] length_tl_le [of "skip_space rest1"]
      by linarith
    with assms(2) show ?thesis unfolding loop_answers_def by blast
  qed
  ultimately show "array_body len pv p d cs n a \<noteq> None"
    by (auto simp: array_body_def fuel_try_None_iff Let_def split: if_splits)
qed

lemma object_body_answers:
  assumes "value_answers k pv" "loop_answers k p" "value_shortens pv"
  shows "loop_answers (Suc k) (object_body lims len pv p)"
  unfolding loop_answers_def
proof (intro allI impI)
  fix d n a and cs :: string
  assume k: "2 * length cs + 2 \<le> Suc k"
  have short: "length (skip_space (tl (skip_space rest1))) < length cs"
    if "parse_string_loop lims len (tl (skip_space cs)) [] = Inr (key, rest1)" for key rest1
    using parse_string_loop_length [OF that] skip_space_length [of cs] skip_space_length [of rest1]
      skip_space_length [of "tl (skip_space rest1)"] by simp
  have pv: "pv (Suc d) (skip_space (tl (skip_space rest1))) n \<noteq> None"
    if "parse_string_loop lims len (tl (skip_space cs)) [] = Inr (key, rest1)" for key rest1
    using assms(1) k short [OF that] unfolding value_answers_def by simp
  have p: "p d (tl (skip_space rest3)) m a' \<noteq> None"
    if "parse_string_loop lims len (tl (skip_space cs)) [] = Inr (key, rest1)"
      and "pv (Suc d) (skip_space (tl (skip_space rest1))) n = Some (Inr (e, rest3, m))"
    for key rest1 e rest3 m a'
  proof -
    have "length rest3 < length (skip_space (tl (skip_space rest1)))"
      using that(2) assms(3) unfolding value_shortens_def by blast
    then have "2 * length (tl (skip_space rest3)) + 2 \<le> k"
      using k short [OF that(1)] skip_space_length [of rest3] length_tl_le [of "skip_space rest3"]
      by linarith
    with assms(2) show ?thesis unfolding loop_answers_def by blast
  qed
  show "object_body lims len pv p d cs n a \<noteq> None"
  proof
    assume "object_body lims len pv p d cs n a = None"
    then show False
      by (auto simp: object_body_def fuel_try_None_iff Let_def simp del: not_None_eq
          dest: pv p split: if_splits)
  qed
qed

lemma parsers_answer:
  "value_answers fuel (parse_value lims len fuel) \<and> loop_answers fuel (parse_array_loop lims len fuel) \<and>
   loop_answers fuel (parse_object_loop lims len fuel)"
proof (induction fuel)
  case 0
  then show ?case by (simp add: value_answers_def loop_answers_def)
next
  case (Suc fuel)
  with parsers_shorten [of lims len fuel] show ?case
    by (simp add: value_body_answers array_body_answers object_body_answers)
qed

lemma parse_value_fuel_enough:
  "2 * length cs + 1 \<le> fuel \<Longrightarrow> parse_value lims len fuel d cs n \<noteq> None"
  using parsers_answer [of fuel lims len] unfolding value_answers_def by blast

text \<open>The branch of \<open>json_parse\<close> for running out of fuel is never taken.\<close>

lemma json_parse_fuel_enough:
  "parse_value lims (length txt) (2 * length txt + 1) 0 (skip_space txt) 0 \<noteq> None"
  by (rule parse_value_fuel_enough) (use skip_space_length [of "txt"] in simp)

lemma json_parse_any_fuel:
  assumes "parse_value lims (length txt) fuel 0 (skip_space txt) 0 = Some r"
  shows "parse_value lims (length txt) (2 * length txt + 1) 0 (skip_space txt) 0 = Some r"
proof -
  obtain r' where r': "parse_value lims (length txt) (2 * length txt + 1) 0 (skip_space txt) 0 = Some r'"
    using json_parse_fuel_enough by blast
  have "parse_value lims (length txt) (max fuel (2 * length txt + 1)) 0 (skip_space txt) 0 = Some r"
    by (rule parse_value_more_fuel [OF assms]) simp
  moreover have "parse_value lims (length txt) (max fuel (2 * length txt + 1)) 0 (skip_space txt) 0 = Some r'"
    by (rule parse_value_more_fuel [OF r']) simp
  ultimately show ?thesis using r' by simp
qed

subsection \<open>Written strings and integers read back\<close>

lemma hex_digit_value_digits: "n < 16 \<Longrightarrow> hex_digit_value (hex_digits ! n) = Some n"
proof -
  have "list_all (\<lambda>n. hex_digit_value (hex_digits ! n) = Some n) [0..<16]" by code_simp
  then show "n < 16 \<Longrightarrow> hex_digit_value (hex_digits ! n) = Some n" by (simp add: list_all_iff)
qed

lemma parse_hex4_low:
  assumes "n < 256"
  shows "parse_hex4 (CHR ''0'' # CHR ''0'' # hex_digits ! (n div 16) # hex_digits ! (n mod 16) # rest) =
    Inr (n, rest)"
proof -
  have "n div 16 < 16" using assms by simp
  moreover have "hex_digit_value (CHR ''0'') = Some 0" by code_simp
  moreover have four: "(4 :: nat) = Suc (Suc (Suc (Suc 0)))" by simp
  ultimately show ?thesis
    unfolding parse_hex4_def four by (simp add: hex_digit_value_digits)
qed

lemma parse_escaped_char:
  assumes "length out < lim_string_bytes lims"
  shows "parse_string_loop lims len (escape_char c @ rest) out = parse_string_loop lims len rest (out @ [c])"
proof (cases "c < CHR 0x20 \<and> c \<notin> {CHR 0x08, CHR 0x0C, CHR 0x0A, CHR 0x0D, CHR 0x09}")
  case True
  then have n: "of_char c < (32 :: nat)" by (simp add: less_char_def)
  then have "c \<noteq> CHR 0x22" "c \<noteq> CHR 0x5C" by auto
  with True have e: "escape_char c = [CHR 0x5C, CHR ''u'', CHR ''0'', CHR ''0'',
      hex_digits ! (of_char c div 16), hex_digits ! (of_char c mod 16)]"
    by (simp add: escape_char_def hex_lower_def)
  have "parse_unicode_escape (CHR ''0'' # CHR ''0'' # hex_digits ! (of_char c div 16) #
      hex_digits ! (of_char c mod 16) # rest) = Inr ([c], rest)"
    using n by (simp add: parse_unicode_escape_def parse_hex4_low append_utf8_def)
  then show ?thesis by (simp add: e)
next
  case False
  then show ?thesis
    using assms by (auto simp: escape_char_def)
qed

lemma parse_string_loop_escaped:
  assumes "length out + length s \<le> lim_string_bytes lims"
  shows "parse_string_loop lims len (concat (map escape_char s) @ CHR 0x22 # rest) out = Inr (out @ s, rest)"
  using assms
proof (induction s arbitrary: out)
  case Nil
  then show ?case by simp
next
  case (Cons c s)
  then show ?case by (simp add: parse_escaped_char)
qed

definition json_stop :: "string \<Rightarrow> bool" where
  "json_stop rest \<longleftrightarrow> rest = [] \<or> hd rest \<in> {CHR '','', CHR '']'', CHR ''}'', CHR 0x0A}"

lemma json_stop_number:
  assumes "json_stop rest"
  shows "rest = [] \<or> \<not> is_digit (hd rest)" "parse_fraction rest = Inr (None, rest)"
    "parse_exponent rest = Inr (None, rest)"
proof -
  have "\<not> is_digit c" if "c \<in> {CHR '','', CHR '']'', CHR ''}'', CHR 0x0A}" for c
    using that by (auto simp: is_digit_def)
  then show "rest = [] \<or> \<not> is_digit (hd rest)" using assms by (auto simp: json_stop_def)
  show "parse_fraction rest = Inr (None, rest)" "parse_exponent rest = Inr (None, rest)"
    using assms by (auto simp: json_stop_def parse_fraction_def parse_exponent_def)
qed

lemma takeWhile_digits:
  assumes "json_stop rest"
  shows "takeWhile is_digit (dec_digits n @ rest) = dec_digits n" "dropWhile is_digit (dec_digits n @ rest) = rest"
proof -
  have all: "\<forall>c \<in> set (dec_digits n). is_digit c" by (rule dec_digits_all_digits)
  have "takeWhile is_digit rest = []" "dropWhile is_digit rest = rest"
    using json_stop_number(1) [OF assms] by (cases rest; simp)+
  with all show "takeWhile is_digit (dec_digits n @ rest) = dec_digits n"
    "dropWhile is_digit (dec_digits n @ rest) = rest" by simp_all
qed

lemma parse_number_digits:
  assumes "json_stop rest"
  shows "parse_number len ((if neg then [CHR ''-''] else []) @ dec_digits n @ rest) =
    fum_try (number_value ((if neg then [CHR ''-''] else []) @ dec_digits n) neg (dec_digits n) None None)
      (\<lambda>v. Inr (v, rest))"
proof -
  let ?t = "(if neg then [CHR ''-''] else []) @ dec_digits n @ rest"
  obtain c cs where d: "dec_digits n = c # cs" "is_digit c"
    using dec_digits_all_digits [of n] by (cases "dec_digits n") auto
  have "c \<noteq> CHR ''-''" using d(2) by (auto simp: is_digit_def)
  then have neg: "(?t \<noteq> [] \<and> hd ?t = CHR ''-'') = neg" by (simp add: d)
  have body: "(if neg then tl ?t else ?t) = dec_digits n @ rest" by simp
  have zero: "\<not> (hd (dec_digits n @ rest) = CHR ''0'' \<and> tl (dec_digits n @ rest) \<noteq> [] \<and>
      is_digit (hd (tl (dec_digits n @ rest))))"
  proof (cases "cs = []")
    case True
    then show ?thesis using json_stop_number(1) [OF assms] by (simp add: d)
  next
    case False
    then have "hd (dec_digits n) \<noteq> CHR ''0''"
      by (intro dec_digits_no_leading_zero) (simp add: d)
    then show ?thesis by (simp add: d)
  qed
  have tok: "take (length ?t - length rest) ?t = (if neg then [CHR ''-''] else []) @ dec_digits n"
    by simp
  have start: "\<not> (dec_digits n @ rest = [] \<or> \<not> is_digit (hd (dec_digits n @ rest)))"
    using d(2) by (simp add: d)
  show ?thesis
    unfolding parse_number_def Let_def neg body if_not_P [OF start] if_not_P [OF zero]
      takeWhile_digits [OF assms] json_stop_number(2,3) [OF assms] fum_try.simps case_prod_conv tok ..
qed

lemma number_value_int:
  "- (2 ^ 63) \<le> (if neg then - int n else int n) \<Longrightarrow> (if neg then - int n else int n) < 2 ^ 63 \<Longrightarrow>
   number_value token neg (dec_digits n) None None = Inr (JInt (if neg then - int n else int n))"
  unfolding number_value_def Let_def dec_value_dec_digits by simp

lemma parse_number_int:
  assumes "json_stop rest" "- (2 ^ 63) \<le> i" "i < 2 ^ 63"
  shows "parse_number len (int_to_string i @ rest) = Inr (JInt i, rest)"
proof (cases "i < 0")
  case True
  then show ?thesis
    using parse_number_digits [OF assms(1), of len True "nat (- i)"] assms
      number_value_int [of True "nat (- i)"] by (simp add: int_to_string_def)
next
  case False
  then show ?thesis
    using parse_number_digits [OF assms(1), of len False "nat i"] assms
      number_value_int [of False "nat i"] by (simp add: int_to_string_def)
qed

lemma number_value_uint:
  "number_value token False (dec_digits (unat (w :: u64))) None None = Inr (json_norm (JUint w))"
proof (cases "uint w \<le> int64_max")
  case True
  moreover have "- (2 ^ 63) \<le> uint w" by (rule order_trans [OF _ unsigned_greater_eq]) simp
  ultimately show ?thesis
    using number_value_int [of False "unat w" token] by (simp add: int64_max_def)
next
  case False
  then have "\<not> int (unat w) < 2 ^ 63" by (simp add: int64_max_def)
  moreover have "unat w < 2 ^ 64" using unsigned_less [of w] by simp
  ultimately show ?thesis
    unfolding number_value_def Let_def dec_value_dec_digits if_False using False by simp
qed

lemma parse_number_uint:
  assumes "json_stop rest"
  shows "parse_number len (u64_to_string w @ rest) = Inr (json_norm (JUint w), rest)"
  using parse_number_digits [OF assms, of len False "unat w"] number_value_uint [of _ w]
  by (simp add: u64_to_string_def del: json_norm.simps)


subsection \<open>Written values read back\<close>

fun json_ok :: "json \<Rightarrow> bool" where
  "json_ok (JInt i) \<longleftrightarrow> - (2 ^ 63) \<le> i \<and> i < 2 ^ 63"
| "json_ok (JReal r) \<longleftrightarrow> False"
| "json_ok (JArray xs) \<longleftrightarrow> (\<forall>x \<in> set xs. json_ok x)"
| "json_ok (JObject ms) \<longleftrightarrow> distinct (map fst ms) \<and> (\<forall>m \<in> set ms. json_ok (snd m))"
| "json_ok v \<longleftrightarrow> True"

text \<open>A value at depth \<open>d\<close> meets the limits when \<open>k\<close> more nodes are left for it.\<close>

fun json_nodes :: "json \<Rightarrow> nat" where
  "json_nodes (JArray xs) = Suc (sum_list (map json_nodes xs))"
| "json_nodes (JObject ms) = Suc (sum_list (map (\<lambda>m. json_nodes (snd m)) ms))"
| "json_nodes v = 1"

fun json_depth :: "json \<Rightarrow> nat" where
  "json_depth (JArray xs) = Max (insert 0 ((\<lambda>x. Suc (json_depth x)) ` set xs))"
| "json_depth (JObject ms) = Max (insert 0 ((\<lambda>m. Suc (json_depth (snd m))) ` set ms))"
| "json_depth v = 0"

fun json_widest :: "json \<Rightarrow> nat" where
  "json_widest (JString s) = length s"
| "json_widest (JArray xs) = Max (insert 0 (json_widest ` set xs))"
| "json_widest (JObject ms) = Max (insert 0 ((\<lambda>m. max (length (fst m)) (json_widest (snd m))) ` set ms))"
| "json_widest v = 0"

definition json_start :: "string \<Rightarrow> bool" where
  "json_start cs \<longleftrightarrow> cs \<noteq> [] \<and> \<not> json_space (hd cs) \<and> hd cs \<noteq> CHR '']'' \<and> hd cs \<noteq> CHR ''}''"

lemma skip_space_start: "json_start cs \<Longrightarrow> skip_space cs = cs"
  by (cases cs) (simp_all add: json_start_def skip_space_def)

lemma json_start_append: "json_start cs \<Longrightarrow> json_start (cs @ ds)"
  by (simp add: json_start_def)

lemma digit_start: "is_digit c \<Longrightarrow> json_start (c # cs)"
  by (auto simp: json_start_def json_space_def is_digit_def)

lemma json_start_dec: "json_start (dec_digits n)"
  using dec_digits_all_digits [of n] digit_start by (cases "dec_digits n") auto

lemma json_start_dump: "json_ok v \<Longrightarrow> json_start (json_dump_at indent dep v)"
proof (cases v)
  case (JInt i)
  then show ?thesis
    using json_start_dec by (simp add: int_to_string_def) (simp add: json_start_def json_space_def)
next
  case (JUint w)
  then show ?thesis using json_start_dec by (simp add: u64_to_string_def)
qed (auto simp: json_start_def json_space_def append_escaped_def)

lemma skip_space_replicate: "skip_space (json_pad indent dep @ cs) = skip_space cs"
proof -
  have "\<forall>c \<in> set (json_pad indent dep). json_space c"
    by (simp add: json_pad_def json_space_def set_replicate_conv_if)
  then show ?thesis unfolding skip_space_def by simp
qed

lemma skip_space_pad: "json_start cs \<Longrightarrow> skip_space (json_pad indent dep @ cs) = cs"
  by (simp add: skip_space_replicate skip_space_start)

lemma skip_space_pad_close:
  "c \<in> {CHR '']'', CHR ''}''} \<Longrightarrow> skip_space (json_pad indent dep @ c # cs) = c # cs"
  unfolding skip_space_replicate by (auto simp: skip_space_def json_space_def)

lemma json_stop_pad_close: "c \<in> {CHR '']'', CHR ''}''} \<Longrightarrow> json_stop (json_pad indent dep @ c # cs)"
  by (auto simp: json_pad_def json_stop_def)

text \<open>With enough fuel the parser reads \<open>v\<close> off the front of its text.\<close>

definition reads_back :: "json_limits \<Rightarrow> nat \<Rightarrow> nat \<Rightarrow> json \<Rightarrow> bool" where
  "reads_back lims len indent v \<longleftrightarrow>
     (\<forall>d dep rest n. d + json_depth v \<le> lim_depth lims \<and> n + json_nodes v \<le> lim_nodes lims \<and>
        json_widest v \<le> lim_string_bytes lims \<and> json_stop rest \<longrightarrow>
        (\<exists>F. \<forall>f \<ge> F. parse_value lims len f d (json_dump_at indent dep v @ rest) n =
           Some (Inr (json_norm v, rest, n + json_nodes v))))"

lemma reads_backE:
  assumes "reads_back lims len indent v" "d + json_depth v \<le> lim_depth lims"
    "n + json_nodes v \<le> lim_nodes lims" "json_widest v \<le> lim_string_bytes lims" "json_stop rest"
  obtains F where "\<And>f. f \<ge> F \<Longrightarrow> parse_value lims len f d (json_dump_at indent dep v @ rest) n =
    Some (Inr (json_norm v, rest, n + json_nodes v))"
  using assms unfolding reads_back_def by blast

lemma array_loop_reads_back:
  assumes "xs \<noteq> []" "\<And>x. x \<in> set xs \<Longrightarrow> json_ok x \<and> reads_back lims len indent x"
    and "\<And>x. x \<in> set xs \<Longrightarrow> Suc d + json_depth x \<le> lim_depth lims \<and> json_widest x \<le> lim_string_bytes lims"
    and "n + sum_list (map json_nodes xs) \<le> lim_nodes lims"
  shows "\<exists>F. \<forall>f \<ge> F. parse_array_loop lims len f d
      (join_with '','' (map (\<lambda>x. json_pad indent k @ json_dump_at indent k x) xs) @
       json_pad indent k' @ CHR '']'' # rest) n (JArray ys) =
    Some (Inr (JArray (ys @ map json_norm xs), rest, n + sum_list (map json_nodes xs)))"
  using assms
proof (induction xs arbitrary: n ys rule: induct_list012)
  case 1
  then show ?case by simp
next
  case (2 x)
  have stop: "json_stop (json_pad indent k' @ CHR '']'' # rest)" by (rule json_stop_pad_close) simp
  note prems = 2
  obtain F where F: "\<And>f. f \<ge> F \<Longrightarrow>
      parse_value lims len f (Suc d) (json_dump_at indent k x @ json_pad indent k' @ CHR '']'' # rest) n =
      Some (Inr (json_norm x, json_pad indent k' @ CHR '']'' # rest, n + json_nodes x))"
    by (rule reads_backE [of lims len indent x "Suc d" n]) (use prems stop in auto)
  have st: "skip_space (json_pad indent k @ json_dump_at indent k x @ json_pad indent k' @ CHR '']'' # rest) =
      json_dump_at indent k x @ json_pad indent k' @ CHR '']'' # rest"
    using 2 by (intro skip_space_pad json_start_append json_start_dump) simp
  show ?case
  proof (intro exI [of _ "Suc F"] allI impI)
    fix f assume "Suc F \<le> f"
    then obtain g where "f = Suc g" "F \<le> g" by (cases f) auto
    then show "parse_array_loop lims len f d
      (join_with '','' (map (\<lambda>x. json_pad indent k @ json_dump_at indent k x) [x]) @
       json_pad indent k' @ CHR '']'' # rest) n (JArray ys) =
      Some (Inr (JArray (ys @ map json_norm [x]), rest, n + sum_list (map json_nodes [x])))"
      by (simp add: array_body_def st F skip_space_pad_close)
  qed
next
  case (3 x y zs)
  let ?tail = "join_with '','' (map (\<lambda>x. json_pad indent k @ json_dump_at indent k x) (y # zs)) @
       json_pad indent k' @ CHR '']'' # rest"
  have stop: "json_stop (CHR '','' # ?tail)" by (simp add: json_stop_def)
  note prems = "3.prems"
  obtain F where F: "\<And>f. f \<ge> F \<Longrightarrow>
      parse_value lims len f (Suc d) (json_dump_at indent k x @ CHR '','' # ?tail) n =
      Some (Inr (json_norm x, CHR '','' # ?tail, n + json_nodes x))"
    by (rule reads_backE [of lims len indent x "Suc d" n]) (use prems stop in auto)
  have "\<exists>F. \<forall>f \<ge> F. parse_array_loop lims len f d ?tail (n + json_nodes x) (JArray (ys @ [json_norm x])) =
      Some (Inr (JArray ((ys @ [json_norm x]) @ map json_norm (y # zs)), rest,
        n + json_nodes x + sum_list (map json_nodes (y # zs))))"
    by (rule "3.IH"(2)) (use "3.prems" in auto)
  then obtain G where G: "\<And>f. f \<ge> G \<Longrightarrow>
      parse_array_loop lims len f d ?tail (n + json_nodes x) (JArray (ys @ [json_norm x])) =
      Some (Inr (JArray ((ys @ [json_norm x]) @ map json_norm (y # zs)), rest,
        n + json_nodes x + sum_list (map json_nodes (y # zs))))" by blast
  have st: "skip_space (json_pad indent k @ json_dump_at indent k x @ CHR '','' # ?tail) =
      json_dump_at indent k x @ CHR '','' # ?tail"
    using "3.prems" by (intro skip_space_pad json_start_append json_start_dump) simp
  have sc: "skip_space (CHR '','' # cs) = CHR '','' # cs" for cs by (simp add: skip_space_def json_space_def)
  show ?case
  proof (intro exI [of _ "Suc (max F G)"] allI impI)
    fix f assume "Suc (max F G) \<le> f"
    then obtain g where "f = Suc g" "F \<le> g" "G \<le> g" by (cases f) auto
    then show "parse_array_loop lims len f d
      (join_with '','' (map (\<lambda>x. json_pad indent k @ json_dump_at indent k x) (x # y # zs)) @
       json_pad indent k' @ CHR '']'' # rest) n (JArray ys) =
      Some (Inr (JArray (ys @ map json_norm (x # y # zs)), rest, n + sum_list (map json_nodes (x # y # zs))))"
      using st F G by (simp add: array_body_def sc add.assoc)
  qed
qed


definition member_text :: "nat \<Rightarrow> nat \<Rightarrow> string \<times> json \<Rightarrow> string" where
  "member_text indent k m =
     json_pad indent k @ append_escaped (fst m) @ '':'' @ (if indent > 0 then '' '' else []) @
     json_dump_at indent k (snd m)"

lemma json_set_member:
  "fst m \<notin> fst ` set ms \<Longrightarrow> json_set (JObject ms) (fst m) v = JObject (ms @ [(fst m, v)])"
  by (simp add: members_set_new)

lemma object_body_member:
  assumes "json_ok (snd m)" "length (fst m) \<le> lim_string_bytes lims"
    and "pv (Suc d) (json_dump_at indent k (snd m) @ rest) n = Some (Inr (v, rest1, n1))"
  shows "object_body lims len pv loop d (member_text indent k m @ rest) n obj =
    (let obj' = json_set obj (fst m) v; rest4 = skip_space rest1
     in if rest4 = [] then Some (fail EC_invalid_argument ''unterminated json object'' '''')
        else if hd rest4 = CHR '','' then loop d (tl rest4) n1 obj'
        else if hd rest4 = CHR ''}'' then Some (Inr (obj', tl rest4, n1))
        else Some (fail EC_invalid_argument (or_message (CHR ''}'') ''object'') (offset_detail len rest4)))"
proof -
  let ?val = "(if indent > 0 then '' '' else []) @ json_dump_at indent k (snd m) @ rest"
  have s1: "skip_space (member_text indent k m @ rest) =
      CHR 0x22 # concat (map escape_char (fst m)) @ CHR 0x22 # CHR '':'' # ?val"
    unfolding member_text_def append_assoc skip_space_replicate
    by (simp add: append_escaped_def skip_space_def json_space_def)
  have s2: "parse_string_loop lims len (concat (map escape_char (fst m)) @ CHR 0x22 # CHR '':'' # ?val) [] =
      Inr (fst m, CHR '':'' # ?val)"
    using parse_string_loop_escaped [of "[]" "fst m"] assms(2) by simp
  have s3: "skip_space (CHR '':'' # ?val) = CHR '':'' # ?val" by (simp add: skip_space_def json_space_def)
  have "skip_space (json_dump_at indent k (snd m) @ rest) = json_dump_at indent k (snd m) @ rest"
    by (intro skip_space_start json_start_append json_start_dump assms(1))
  then have s4: "skip_space ?val = json_dump_at indent k (snd m) @ rest"
    by (cases "indent = 0") (simp_all add: skip_space_def json_space_def)
  show ?thesis
    unfolding object_body_def Let_def s1 list.sel s2 fuel_try.simps case_prod_conv s3 s4
    by (simp add: assms(3))
qed

lemma object_loop_reads_back:
  assumes "ms \<noteq> []" "\<And>m. m \<in> set ms \<Longrightarrow> json_ok (snd m) \<and> reads_back lims len indent (snd m)"
    and "\<And>m. m \<in> set ms \<Longrightarrow> Suc d + json_depth (snd m) \<le> lim_depth lims \<and>
      json_widest (snd m) \<le> lim_string_bytes lims \<and> length (fst m) \<le> lim_string_bytes lims"
    and "n + sum_list (map (\<lambda>m. json_nodes (snd m)) ms) \<le> lim_nodes lims"
    and "distinct (map fst (ys @ ms))"
  shows "\<exists>F. \<forall>f \<ge> F. parse_object_loop lims len f d
      (join_with '','' (map (member_text indent k) ms) @ json_pad indent k' @ CHR ''}'' # rest) n (JObject ys) =
    Some (Inr (JObject (ys @ map (\<lambda>(k, v). (k, json_norm v)) ms), rest,
      n + sum_list (map (\<lambda>m. json_nodes (snd m)) ms)))"
  using assms
proof (induction ms arbitrary: n ys rule: induct_list012)
  case 1
  then show ?case by simp
next
  case (2 m)
  have stop: "json_stop (json_pad indent k' @ CHR ''}'' # rest)" by (rule json_stop_pad_close) simp
  note prems = 2
  obtain F where F: "\<And>f. f \<ge> F \<Longrightarrow>
      parse_value lims len f (Suc d) (json_dump_at indent k (snd m) @ json_pad indent k' @ CHR ''}'' # rest) n =
      Some (Inr (json_norm (snd m), json_pad indent k' @ CHR ''}'' # rest, n + json_nodes (snd m)))"
    by (rule reads_backE [of lims len indent "snd m" "Suc d" n]) (use prems stop in auto)
  have new: "fst m \<notin> fst ` set ys" using 2 by auto
  show ?case
  proof (intro exI [of _ "Suc F"] allI impI)
    fix f assume "Suc F \<le> f"
    then obtain g where g: "f = Suc g" "F \<le> g" by (cases f) auto
    have "object_body lims len (parse_value lims len g) (parse_object_loop lims len g) d
        (member_text indent k m @ json_pad indent k' @ CHR ''}'' # rest) n (JObject ys) =
      Some (Inr (JObject (ys @ [(fst m, json_norm (snd m))]), rest, n + json_nodes (snd m)))"
      by (subst object_body_member [where m = m and indent = indent and k = k and pv = "parse_value lims len g",
            OF _ _ F [OF g(2)]])
        (use 2 new in \<open>simp_all add: skip_space_pad_close json_set_member del: json_set.simps\<close>)
    then show "parse_object_loop lims len f d
      (join_with '','' (map (member_text indent k) [m]) @ json_pad indent k' @ CHR ''}'' # rest) n (JObject ys) =
      Some (Inr (JObject (ys @ map (\<lambda>(k, v). (k, json_norm v)) [m]), rest,
        n + sum_list (map (\<lambda>m. json_nodes (snd m)) [m])))"
      by (simp add: g(1) case_prod_beta)
  qed
next
  case (3 m m2 ms)
  let ?tail = "join_with '','' (map (member_text indent k) (m2 # ms)) @ json_pad indent k' @ CHR ''}'' # rest"
  have stop: "json_stop (CHR '','' # ?tail)" by (simp add: json_stop_def)
  note prems = "3.prems"
  obtain F where F: "\<And>f. f \<ge> F \<Longrightarrow>
      parse_value lims len f (Suc d) (json_dump_at indent k (snd m) @ CHR '','' # ?tail) n =
      Some (Inr (json_norm (snd m), CHR '','' # ?tail, n + json_nodes (snd m)))"
    by (rule reads_backE [of lims len indent "snd m" "Suc d" n]) (use prems stop in auto)
  have new: "fst m \<notin> fst ` set ys" using "3.prems" by auto
  have "\<exists>F. \<forall>f \<ge> F. parse_object_loop lims len f d ?tail (n + json_nodes (snd m))
      (JObject (ys @ [(fst m, json_norm (snd m))])) =
      Some (Inr (JObject ((ys @ [(fst m, json_norm (snd m))]) @ map (\<lambda>(k, v). (k, json_norm v)) (m2 # ms)), rest,
        n + json_nodes (snd m) + sum_list (map (\<lambda>m. json_nodes (snd m)) (m2 # ms))))"
    by (rule "3.IH"(2)) (use "3.prems" in auto)
  then obtain G where G: "\<And>f. f \<ge> G \<Longrightarrow>
      parse_object_loop lims len f d ?tail (n + json_nodes (snd m)) (JObject (ys @ [(fst m, json_norm (snd m))])) =
      Some (Inr (JObject ((ys @ [(fst m, json_norm (snd m))]) @ map (\<lambda>(k, v). (k, json_norm v)) (m2 # ms)), rest,
        n + json_nodes (snd m) + sum_list (map (\<lambda>m. json_nodes (snd m)) (m2 # ms))))" by blast
  have sc: "skip_space (CHR '','' # cs) = CHR '','' # cs" for cs by (simp add: skip_space_def json_space_def)
  show ?case
  proof (intro exI [of _ "Suc (max F G)"] allI impI)
    fix f assume "Suc (max F G) \<le> f"
    then obtain g where g: "f = Suc g" "F \<le> g" "G \<le> g" by (cases f) auto
    have "object_body lims len (parse_value lims len g) (parse_object_loop lims len g) d
        (member_text indent k m @ CHR '','' # ?tail) n (JObject ys) =
      parse_object_loop lims len g d ?tail (n + json_nodes (snd m)) (JObject (ys @ [(fst m, json_norm (snd m))]))"
      by (subst object_body_member [where m = m and indent = indent and k = k and pv = "parse_value lims len g",
            OF _ _ F [OF g(2)]])
        (use "3.prems" new in \<open>simp_all add: sc json_set_member del: json_set.simps\<close>)
    then show "parse_object_loop lims len f d
      (join_with '','' (map (member_text indent k) (m # m2 # ms)) @ json_pad indent k' @ CHR ''}'' # rest) n (JObject ys) =
      Some (Inr (JObject (ys @ map (\<lambda>(k, v). (k, json_norm v)) (m # m2 # ms)), rest,
        n + sum_list (map (\<lambda>m. json_nodes (snd m)) (m # m2 # ms))))"
      using G [OF g(3)] by (simp add: g(1) case_prod_beta add.assoc)
  qed
qed


lemma value_body_scalar:
  assumes "d \<le> lim_depth lims" "n + 1 \<le> lim_nodes lims" "cs \<noteq> []"
  shows "hd cs = CHR 0x22 \<Longrightarrow> value_body lims len p q d cs n =
      Some (fum_try (parse_string_loop lims len (tl cs) []) (\<lambda>(s, rest). Inr (JString s, rest, n + 1)))"
    and "hd cs = CHR ''t'' \<Longrightarrow> value_body lims len p q d cs n =
      Some (parse_literal len ''true'' (JBool True) cs (n + 1))"
    and "hd cs = CHR ''f'' \<Longrightarrow> value_body lims len p q d cs n =
      Some (parse_literal len ''false'' (JBool False) cs (n + 1))"
    and "hd cs = CHR ''n'' \<Longrightarrow> value_body lims len p q d cs n = Some (parse_literal len ''null'' JNull cs (n + 1))"
    and "is_digit (hd cs) \<or> hd cs = CHR ''-'' \<Longrightarrow> value_body lims len p q d cs n =
      Some (fum_try (parse_number len cs) (\<lambda>(v, rest). Inr (v, rest, n + 1)))"
  using assms by (auto simp: value_body_def Let_def is_digit_def)

lemma value_body_container:
  assumes "d \<le> lim_depth lims" "n + 1 \<le> lim_nodes lims"
  shows "value_body lims len p q d (CHR ''['' # cs) n =
      (if skip_space cs \<noteq> [] \<and> hd (skip_space cs) = CHR '']''
       then Some (Inr (JArray [], tl (skip_space cs), n + 1)) else p d (skip_space cs) (n + 1) (JArray []))"
    and "value_body lims len p q d (CHR ''{'' # cs) n =
      (if skip_space cs \<noteq> [] \<and> hd (skip_space cs) = CHR ''}''
       then Some (Inr (JObject [], tl (skip_space cs), n + 1)) else q d (skip_space cs) (n + 1) (JObject []))"
  using assms by (simp_all add: value_body_def Let_def)

lemma reads_back_scalar:
  assumes "\<And>d dep rest n f. d + json_depth v \<le> lim_depth lims \<Longrightarrow> n + json_nodes v \<le> lim_nodes lims \<Longrightarrow>
    json_widest v \<le> lim_string_bytes lims \<Longrightarrow> json_stop rest \<Longrightarrow>
    parse_value lims len (Suc f) d (json_dump_at indent dep v @ rest) n =
      Some (Inr (json_norm v, rest, n + json_nodes v))"
  shows "reads_back lims len indent v"
  unfolding reads_back_def
proof (intro allI impI exI [of _ "Suc 0"])
  fix d dep rest n f
  assume "d + json_depth v \<le> lim_depth lims \<and> n + json_nodes v \<le> lim_nodes lims \<and>
    json_widest v \<le> lim_string_bytes lims \<and> json_stop rest" "Suc 0 \<le> f"
  then show "parse_value lims len f d (json_dump_at indent dep v @ rest) n =
      Some (Inr (json_norm v, rest, n + json_nodes v))"
    using assms [of d n rest "f - 1" dep] by simp
qed

lemma hd_number_text:
  "is_digit (hd (dec_digits n @ rest)) \<or> hd (dec_digits n @ rest) = CHR ''-''"
  using dec_digits_all_digits [of n] by (cases "dec_digits n") auto

lemma parse_value_int:
  assumes "json_stop rest" "d \<le> lim_depth lims" "n + 1 \<le> lim_nodes lims" "- (2 ^ 63) \<le> i" "i < 2 ^ 63"
  shows "parse_value lims len (Suc f) d (int_to_string i @ rest) n = Some (Inr (JInt i, rest, n + 1))"
proof -
  have "is_digit (hd (int_to_string i @ rest)) \<or> hd (int_to_string i @ rest) = CHR ''-''"
    using hd_number_text by (simp add: int_to_string_def)
  moreover have "int_to_string i @ rest \<noteq> []" by (simp add: int_to_string_def)
  ultimately show ?thesis
    using assms by (simp add: value_body_scalar(5) parse_number_int)
qed

lemma parse_value_uint:
  assumes "json_stop rest" "d \<le> lim_depth lims" "n + 1 \<le> lim_nodes lims"
  shows "parse_value lims len (Suc f) d (u64_to_string w @ rest) n =
    Some (Inr (json_norm (JUint w), rest, n + 1))"
proof -
  have "is_digit (hd (u64_to_string w @ rest)) \<or> hd (u64_to_string w @ rest) = CHR ''-''"
    unfolding u64_to_string_def by (rule hd_number_text)
  moreover have "u64_to_string w @ rest \<noteq> []" by (simp add: u64_to_string_def)
  ultimately show ?thesis
    using assms by (simp add: value_body_scalar(5) parse_number_uint del: json_norm.simps)
qed

lemma parse_value_string:
  assumes "d \<le> lim_depth lims" "n + 1 \<le> lim_nodes lims" "length s \<le> lim_string_bytes lims"
  shows "parse_value lims len (Suc f) d (append_escaped s @ rest) n = Some (Inr (JString s, rest, n + 1))"
  using assms parse_string_loop_escaped [of "[]" s lims len rest]
  by (simp add: append_escaped_def value_body_scalar(1))

lemma join_with_not_closed:
  assumes "xs \<noteq> []" "\<And>x cs. x \<in> set xs \<Longrightarrow> skip_space (f x @ cs) \<noteq> [] \<and> hd (skip_space (f x @ cs)) \<noteq> c"
  shows "skip_space (join_with '','' (map f xs) @ rest) \<noteq> [] \<and> hd (skip_space (join_with '','' (map f xs) @ rest)) \<noteq> c"
proof -
  obtain y ys where xs: "xs = y # ys" using assms(1) by (cases xs) auto
  have "\<exists>cs. join_with '','' (map f xs) @ rest = f y @ cs" by (cases ys) (auto simp: xs)
  then obtain cs where "join_with '','' (map f xs) @ rest = f y @ cs" by blast
  with assms(2) [of y cs] xs show ?thesis by simp
qed

lemma loop_skip_space:
  "parse_array_loop lims len f d (skip_space cs) n a = parse_array_loop lims len f d cs n a"
  "parse_object_loop lims len f d (skip_space cs) n a = parse_object_loop lims len f d cs n a"
  by (cases f; simp add: array_body_def object_body_def skip_space_def)+

lemma Max_insert_image_bound:
  fixes f :: "'a \<Rightarrow> nat"
  shows "finite A \<Longrightarrow> Max (insert 0 (f ` A)) \<le> k \<longleftrightarrow> (\<forall>x \<in> A. f x \<le> k)"
  by (subst Max_le_iff) auto

lemma reads_back_array:
  assumes "\<And>x. x \<in> set xs \<Longrightarrow> json_ok x \<and> reads_back lims len indent x"
  shows "reads_back lims len indent (JArray xs)"
  unfolding reads_back_def
proof (intro allI impI)
  fix d dep rest n
  assume lim: "d + json_depth (JArray xs) \<le> lim_depth lims \<and> n + json_nodes (JArray xs) \<le> lim_nodes lims \<and>
    json_widest (JArray xs) \<le> lim_string_bytes lims \<and> json_stop rest"
  have "json_depth (JArray xs) \<le> lim_depth lims - d" using lim by linarith
  then have depth: "Suc (json_depth x) \<le> lim_depth lims - d" if "x \<in> set xs" for x
    using that unfolding json_depth.simps by (subst (asm) Max_insert_image_bound) auto
  have wide: "json_widest x \<le> lim_string_bytes lims" if "x \<in> set xs" for x
    using lim that unfolding json_widest.simps by (subst (asm) Max_insert_image_bound) auto
  have dn: "d \<le> lim_depth lims" "n + 1 \<le> lim_nodes lims" using lim by auto
  show "\<exists>F. \<forall>f \<ge> F. parse_value lims len f d (json_dump_at indent dep (JArray xs) @ rest) n =
      Some (Inr (json_norm (JArray xs), rest, n + json_nodes (JArray xs)))"
  proof (cases "xs = []")
    case True
    have "parse_value lims len f d (json_dump_at indent dep (JArray xs) @ rest) n =
      Some (Inr (json_norm (JArray xs), rest, n + json_nodes (JArray xs)))" if "Suc 0 \<le> f" for f
      using that True dn by (cases f) (simp_all add: value_body_container skip_space_def json_space_def)
    then show ?thesis by blast
  next
    case False
    let ?body = "join_with '','' (map (\<lambda>x. json_pad indent (dep + 1) @ json_dump_at indent (dep + 1) x) xs) @
       json_pad indent dep @ CHR '']'' # rest"
    have sub: "Suc d + json_depth x \<le> lim_depth lims \<and> json_widest x \<le> lim_string_bytes lims"
      if "x \<in> set xs" for x
      using depth [OF that] wide [OF that] by linarith
    have nodes: "n + 1 + sum_list (map json_nodes xs) \<le> lim_nodes lims" using lim by simp
    obtain F where F: "\<And>f. f \<ge> F \<Longrightarrow> parse_array_loop lims len f d ?body (n + 1) (JArray []) =
        Some (Inr (JArray ([] @ map json_norm xs), rest, n + 1 + sum_list (map json_nodes xs)))"
      using array_loop_reads_back [OF False assms sub nodes] by blast
    have "skip_space ?body \<noteq> [] \<and> hd (skip_space ?body) \<noteq> CHR '']''"
    proof (rule join_with_not_closed [OF False])
      fix x cs assume "x \<in> set xs"
      then have "json_start (json_dump_at indent (dep + 1) x)" using assms by (simp add: json_start_dump)
      then show "skip_space ((json_pad indent (dep + 1) @ json_dump_at indent (dep + 1) x) @ cs) \<noteq> [] \<and>
        hd (skip_space ((json_pad indent (dep + 1) @ json_dump_at indent (dep + 1) x) @ cs)) \<noteq> CHR '']''"
        by (simp add: skip_space_pad json_start_append) (simp add: json_start_def)
    qed
    then have "parse_value lims len (Suc f) d (json_dump_at indent dep (JArray xs) @ rest) n =
      Some (Inr (json_norm (JArray xs), rest, n + json_nodes (JArray xs)))" if "F \<le> f" for f
      using False F [OF that] dn by (simp add: value_body_container loop_skip_space)
    then have "parse_value lims len f d (json_dump_at indent dep (JArray xs) @ rest) n =
      Some (Inr (json_norm (JArray xs), rest, n + json_nodes (JArray xs)))" if "Suc F \<le> f" for f
      using that by (metis Suc_le_D Suc_le_mono)
    then show ?thesis by blast
  qed
qed


lemma member_text_start:
  "skip_space (member_text indent k m @ cs) \<noteq> [] \<and> hd (skip_space (member_text indent k m @ cs)) \<noteq> CHR ''}''"
  unfolding member_text_def append_assoc skip_space_replicate
  by (simp add: append_escaped_def skip_space_def json_space_def)

lemma reads_back_object:
  assumes "\<And>m. m \<in> set ms \<Longrightarrow> json_ok (snd m) \<and> reads_back lims len indent (snd m)" "distinct (map fst ms)"
  shows "reads_back lims len indent (JObject ms)"
  unfolding reads_back_def
proof (intro allI impI)
  fix d dep rest n
  assume lim: "d + json_depth (JObject ms) \<le> lim_depth lims \<and> n + json_nodes (JObject ms) \<le> lim_nodes lims \<and>
    json_widest (JObject ms) \<le> lim_string_bytes lims \<and> json_stop rest"
  have "json_depth (JObject ms) \<le> lim_depth lims - d" using lim by linarith
  then have depth: "Suc (json_depth (snd m)) \<le> lim_depth lims - d" if "m \<in> set ms" for m
    using that unfolding json_depth.simps by (subst (asm) Max_insert_image_bound) auto
  have wide: "max (length (fst m)) (json_widest (snd m)) \<le> lim_string_bytes lims" if "m \<in> set ms" for m
    using lim that unfolding json_widest.simps by (subst (asm) Max_insert_image_bound) auto
  have dn: "d \<le> lim_depth lims" "n + 1 \<le> lim_nodes lims" using lim by auto
  show "\<exists>F. \<forall>f \<ge> F. parse_value lims len f d (json_dump_at indent dep (JObject ms) @ rest) n =
      Some (Inr (json_norm (JObject ms), rest, n + json_nodes (JObject ms)))"
  proof (cases "ms = []")
    case True
    have "parse_value lims len f d (json_dump_at indent dep (JObject ms) @ rest) n =
      Some (Inr (json_norm (JObject ms), rest, n + json_nodes (JObject ms)))" if "Suc 0 \<le> f" for f
      using that True dn by (cases f) (simp_all add: value_body_container skip_space_def json_space_def)
    then show ?thesis by blast
  next
    case False
    let ?body = "join_with '','' (map (member_text indent (dep + 1)) ms) @ json_pad indent dep @ CHR ''}'' # rest"
    have sub: "Suc d + json_depth (snd m) \<le> lim_depth lims \<and> json_widest (snd m) \<le> lim_string_bytes lims \<and>
        length (fst m) \<le> lim_string_bytes lims" if "m \<in> set ms" for m
      using depth [OF that] wide [OF that] by linarith
    have nodes: "n + 1 + sum_list (map (\<lambda>m. json_nodes (snd m)) ms) \<le> lim_nodes lims" using lim by simp
    have dist: "distinct (map fst ([] @ ms))" using assms(2) by simp
    obtain F where F: "\<And>f. f \<ge> F \<Longrightarrow> parse_object_loop lims len f d ?body (n + 1) (JObject []) =
        Some (Inr (JObject ([] @ map (\<lambda>(k, v). (k, json_norm v)) ms), rest,
          n + 1 + sum_list (map (\<lambda>m. json_nodes (snd m)) ms)))"
      using object_loop_reads_back [OF False assms(1) sub nodes dist] by blast
    have "skip_space ?body \<noteq> [] \<and> hd (skip_space ?body) \<noteq> CHR ''}''"
      by (rule join_with_not_closed [OF False]) (rule member_text_start)
    then have "parse_value lims len (Suc f) d (CHR ''{'' # ?body) n =
      Some (Inr (json_norm (JObject ms), rest, n + json_nodes (JObject ms)))" if "F \<le> f" for f
      using F [OF that] dn by (simp add: value_body_container loop_skip_space)
    moreover have "json_dump_at indent dep (JObject ms) @ rest = CHR ''{'' # ?body"
      using False by (simp add: member_text_def [abs_def])
    ultimately have "parse_value lims len f d (json_dump_at indent dep (JObject ms) @ rest) n =
      Some (Inr (json_norm (JObject ms), rest, n + json_nodes (JObject ms)))" if "Suc F \<le> f" for f
      using that by (metis Suc_le_D Suc_le_mono)
    then show ?thesis by blast
  qed
qed

lemma json_reads_back: "json_ok v \<Longrightarrow> reads_back lims len indent v"
proof (induction v)
  case JNull
  then show ?case by (intro reads_back_scalar) (simp add: value_body_scalar(4) parse_literal_def)
next
  case (JBool b)
  then show ?case
    by (intro reads_back_scalar) (cases b; simp add: value_body_scalar(2,3) parse_literal_def)
next
  case (JInt i)
  then show ?case by (intro reads_back_scalar) (simp add: parse_value_int del: parse_value.simps)
next
  case (JUint w)
  then show ?case
    by (intro reads_back_scalar) (simp add: parse_value_uint del: parse_value.simps json_norm.simps)
next
  case (JReal r)
  then show ?case by simp
next
  case (JString s)
  then show ?case by (intro reads_back_scalar) (simp add: parse_value_string del: parse_value.simps)
next
  case (JArray xs)
  then show ?case by (intro reads_back_array) simp
next
  case (JObject ms)
  then show ?case by (intro reads_back_object) (auto simp: prod_set_defs)
qed

definition json_within :: "json_limits \<Rightarrow> json \<Rightarrow> bool" where
  "json_within lims v \<longleftrightarrow>
     json_ok v \<and> json_depth v \<le> lim_depth lims \<and> json_nodes v \<le> lim_nodes lims \<and>
     json_widest v \<le> lim_string_bytes lims"

lemma json_parse_dump_at:
  assumes "json_within lims v" "length (json_dump_at indent 0 v) \<le> lim_input_bytes lims"
  shows "json_parse lims (json_dump_at indent 0 v) = Inr (json_norm v)"
proof -
  let ?t = "json_dump_at indent 0 v"
  have "json_start ?t" using assms(1) by (simp add: json_within_def json_start_dump)
  then have st: "skip_space ?t = ?t" by (rule skip_space_start)
  have "reads_back lims (length ?t) indent v" using assms(1) by (simp add: json_within_def json_reads_back)
  then obtain F where "parse_value lims (length ?t) F 0 (?t @ []) 0 = Some (Inr (json_norm v, [], 0 + json_nodes v))"
    by (rule reads_backE [where d = 0 and n = 0 and rest = "[]" and dep = 0])
      (use assms(1) in \<open>auto simp: json_within_def json_stop_def\<close>)
  then have "parse_value lims (length ?t) (2 * length ?t + 1) 0 (skip_space ?t) 0 =
      Some (Inr (json_norm v, [], json_nodes v))"
    by (intro json_parse_any_fuel [where fuel = F]) (simp add: st)
  then show ?thesis using assms(2) by (simp add: json_parse_def skip_space_def)
qed

subsection \<open>The length of the text bounds the nodes and the strings\<close>

lemma join_with_length: "length (join_with sep xs) \<ge> sum_list (map length xs)"
  by (induction sep xs rule: join_with.induct) auto

lemma escape_char_length: "length (escape_char c) \<ge> 1"
  by (simp add: escape_char_def)

lemma append_escaped_length: "length s \<le> length (append_escaped s)"
proof -
  have "length s \<le> length (concat (map escape_char s))"
  proof (induction s)
    case (Cons c s)
    then show ?case using escape_char_length [of c] by simp
  qed simp
  then show ?thesis by (simp add: append_escaped_def)
qed

lemma sum_list_map_le:
  fixes f :: "'a \<Rightarrow> nat"
  shows "(\<And>x. x \<in> set xs \<Longrightarrow> f x \<le> g x) \<Longrightarrow> sum_list (map f xs) \<le> sum_list (map g xs)"
  by (rule sum_list_mono)

lemma json_nodes_length: "json_ok v \<Longrightarrow> json_nodes v \<le> length (json_dump_at indent dep v)"
proof (induction v arbitrary: dep)
  case (JInt i)
  then show ?case by (simp add: int_to_string_def Suc_le_eq)
next
  case (JUint w)
  then show ?case by (simp add: u64_to_string_def Suc_le_eq)
next
  case (JArray xs)
  let ?f = "\<lambda>x. json_pad indent (dep + 1) @ json_dump_at indent (dep + 1) x"
  have "sum_list (map json_nodes xs) \<le> sum_list (map (\<lambda>x. length (?f x)) xs)"
    using JArray by (intro sum_list_map_le) (auto intro: trans_le_add2)
  also have "\<dots> \<le> length (join_with '','' (map ?f xs))"
    using join_with_length [of "map ?f xs" "'',''"] by (simp add: comp_def)
  finally show ?case by simp
next
  case (JObject ms)
  have ih: "json_nodes (snd m) \<le> length (json_dump_at indent (dep + 1) (snd m))" if "m \<in> set ms" for m
    using JObject.IH [OF that, of "snd m"] JObject.prems that by (cases m) auto
  have "json_nodes (snd m) \<le> length (member_text indent (dep + 1) m)" if "m \<in> set ms" for m
    using ih [OF that] by (simp add: member_text_def)
  then have "sum_list (map (\<lambda>m. json_nodes (snd m)) ms) \<le> sum_list (map (\<lambda>m. length (member_text indent (dep + 1) m)) ms)"
    by (rule sum_list_map_le)
  also have "\<dots> \<le> length (join_with '','' (map (member_text indent (dep + 1)) ms))"
    using join_with_length [of "map (member_text indent (dep + 1)) ms" "'',''"] by (simp add: comp_def)
  finally show ?case by (simp add: member_text_def [abs_def])
qed (auto simp: append_escaped_def)

lemma join_with_element_length: "x \<in> set xs \<Longrightarrow> length x \<le> length (join_with sep xs)"
  by (induction sep xs rule: join_with.induct) auto

lemma json_widest_length: "json_widest v \<le> length (json_dump_at indent dep v)"
proof (induction v arbitrary: dep)
  case (JString s)
  then show ?case by (simp add: append_escaped_length)
next
  case (JArray xs)
  let ?f = "\<lambda>x. json_pad indent (dep + 1) @ json_dump_at indent (dep + 1) x"
  have "json_widest x \<le> length (json_dump_at indent dep (JArray xs))" if "x \<in> set xs" for x
  proof -
    have "json_widest x \<le> length (?f x)" using JArray [OF that] by (simp add: trans_le_add2)
    also have "\<dots> \<le> length (join_with '','' (map ?f xs))"
      by (rule join_with_element_length) (use that in simp)
    finally show ?thesis using that by auto
  qed
  then show ?case by (simp del: json_dump_at.simps)
next
  case (JObject ms)
  have "max (length (fst m)) (json_widest (snd m)) \<le> length (json_dump_at indent dep (JObject ms))"
    if "m \<in> set ms" for m
  proof -
    have "json_widest (snd m) \<le> length (json_dump_at indent (dep + 1) (snd m))"
      using JObject [OF that, of "snd m"] by (cases m) auto
    then have "max (length (fst m)) (json_widest (snd m)) \<le> length (member_text indent (dep + 1) m)"
      using append_escaped_length [of "fst m"] by (simp add: member_text_def)
    also have "\<dots> \<le> length (join_with '','' (map (member_text indent (dep + 1)) ms))"
      by (rule join_with_element_length) (use that in simp)
    finally show ?thesis using that by (auto simp: member_text_def [abs_def])
  qed
  then show ?case by (simp del: json_dump_at.simps)
qed simp_all

text \<open>So a text of at most a mebibyte is only bounded by its depth under the default limits.\<close>

lemma json_within_default:
  assumes "json_ok v" "json_depth v \<le> 64" "length (json_dump_at indent 0 v) \<le> 2 ^ 20"
  shows "json_within default_limits v" "length (json_dump_at indent 0 v) \<le> lim_input_bytes default_limits"
  using assms json_nodes_length [OF assms(1), of indent 0] json_widest_length [of v indent 0]
  by (simp_all add: json_within_def default_limits_def)

text \<open>
  C23: every JSON value the program writes reads back: whatever the indent, a value without floating point
  numbers and without repeated members, within the depth, node, string and input bounds, is parsed from
  its own text as itself (a small unsigned number as the signed one with the same value), and
  the parser always answers: no input makes it run out of fuel.
\<close>

theorem json_text_roundtrip:
  "(json_within lims v \<and> length (json_dump_at indent 0 v) \<le> lim_input_bytes lims \<longrightarrow>
      json_parse lims (json_dump_at indent 0 v) = Inr (json_norm v)) \<and>
   parse_value lims (length t) (2 * length t + 1) 0 (skip_space t) 0 \<noteq> None"
  using json_parse_dump_at json_parse_fuel_enough by blast

definition sample_document :: json where
  "sample_document = JObject
     [(''seq'', JUint 7), (''name'', JString [CHR 0x22, CHR 0x0A, CHR 0x01]), (''list'', JArray [JNull, JInt (- 3)])]"

lemma json_text_roundtrip_witness:
  "json_parse default_limits (json_dump_at 2 0 sample_document) = Inr (json_norm sample_document) \<and>
   json_norm sample_document \<noteq> sample_document"
proof -
  have ok: "json_ok sample_document" "json_depth sample_document \<le> 64"
    by (simp_all add: sample_document_def)
  have "length (json_dump_at 2 0 sample_document) \<le> 100" by code_simp
  then have "length (json_dump_at 2 0 sample_document) \<le> 2 ^ 20" by simp
  from json_within_default [OF ok this]
  have "json_parse default_limits (json_dump_at 2 0 sample_document) = Inr (json_norm sample_document)"
    using json_text_roundtrip [of default_limits sample_document 2 "[]"] by blast
  then show ?thesis by (simp add: sample_document_def int64_max_def)
qed

end
