(* ===== verification/Model_Provenance.thy ===== *)
theory Model_Provenance
  imports Model_Artifact Core_Json_Roundtrip
begin

text \<open>
  The provenance ledger (\<open>model/provenance\<close>): the record of an artifact applied to a target, its JSON
  form, the digest that chains it to its predecessor, and the verification of an ordered
  ledger.  The verification is read declaratively, and tampering is shown to need a SHA-256 collision.
\<close>

datatype provenance_outcome =
    PO_verified | PO_applied | PO_rolled_back | PO_failed | PO_aborted | PO_superseded

fun provenance_outcome_name :: "provenance_outcome \<Rightarrow> string" where
  "provenance_outcome_name PO_verified = ''verified''"
| "provenance_outcome_name PO_applied = ''applied''"
| "provenance_outcome_name PO_rolled_back = ''rolled-back''"
| "provenance_outcome_name PO_failed = ''failed''"
| "provenance_outcome_name PO_aborted = ''aborted''"
| "provenance_outcome_name PO_superseded = ''superseded''"

definition parse_provenance_outcome :: "string \<Rightarrow> provenance_outcome result" where
  "parse_provenance_outcome t =
     (if t = ''verified'' then Inr PO_verified
      else if t = ''applied'' then Inr PO_applied
      else if t = ''rolled-back'' then Inr PO_rolled_back
      else if t = ''failed'' then Inr PO_failed
      else if t = ''aborted'' then Inr PO_aborted
      else if t = ''superseded'' then Inr PO_superseded
      else fail EC_invalid_argument ''unknown provenance outcome'' t)"

record provenance_record =
  prov_id :: record_id
  prov_sequence :: u64
  prov_campaign :: campaign_id
  prov_generation :: u64
  prov_stage :: stage_id
  prov_attempt :: attempt_id
  prov_target :: target_id
  prov_component :: component_id
  prov_artifact :: artifact_id
  prov_build :: build_id
  prov_from_version :: version
  prov_to_version :: version
  prov_digest :: digest
  prov_outcome :: provenance_outcome
  prov_authority :: authority_id
  prov_incarnation :: u64
  prov_recorded_at :: timestamp
  prov_previous :: digest
  prov_chain :: digest
  prov_detail :: string

definition provenance_to_json :: "provenance_record \<Rightarrow> json" where
  "provenance_to_json r = json_build
     [(''record_id'', JString (prov_id r)), (''sequence'', JUint (prov_sequence r)),
      (''campaign_id'', JString (prov_campaign r)), (''generation'', JUint (prov_generation r)),
      (''stage_id'', JString (prov_stage r)), (''attempt_id'', JString (prov_attempt r)),
      (''target_id'', JString (prov_target r)), (''component_id'', JString (prov_component r)),
      (''artifact_id'', JString (prov_artifact r)), (''build_id'', JString (prov_build r)),
      (''from_version'', JString (ver_text (prov_from_version r))),
      (''to_version'', JString (ver_text (prov_to_version r))),
      (''digest'', JString (prov_digest r)),
      (''outcome'', JString (provenance_outcome_name (prov_outcome r))),
      (''authority'', JString (prov_authority r)), (''incarnation'', JUint (prov_incarnation r)),
      (''recorded_at'', JString (to_iso8601 (prov_recorded_at r))),
      (''previous_chain'', JString (prov_previous r)), (''chain'', JString (prov_chain r)),
      (''detail'', JString (prov_detail r))]"

definition string_then :: "json \<Rightarrow> string \<Rightarrow> (string \<Rightarrow> 'a result) \<Rightarrow> 'a result" where
  "string_then v key parse = fum_try (json_require_string v key) parse"

definition provenance_from_json :: "json \<Rightarrow> provenance_record result" where
  "provenance_from_json v =
     (if \<not> json_is_object v
      then fail EC_invalid_argument ''provenance record must be a json object'' ''''
      else
        fum_try (string_then v ''record_id'' parse_id) (\<lambda>rid.
        fum_try (json_require_uint v ''sequence'') (\<lambda>sequence.
        fum_try (string_then v ''campaign_id'' parse_id) (\<lambda>campaign.
        fum_try (json_require_uint v ''generation'') (\<lambda>generation.
        fum_try (string_then v ''stage_id'' parse_id) (\<lambda>stage.
        fum_try (string_then v ''attempt_id'' parse_id) (\<lambda>attempt.
        fum_try (string_then v ''target_id'' parse_id) (\<lambda>target.
        fum_try (string_then v ''component_id'' parse_id) (\<lambda>component.
        fum_try (string_then v ''artifact_id'' parse_id) (\<lambda>artifact.
        fum_try (string_then v ''build_id'' parse_id) (\<lambda>build.
        fum_try (string_then v ''from_version'' version_parse) (\<lambda>from_version.
        fum_try (string_then v ''to_version'' version_parse) (\<lambda>to_version.
        fum_try (string_then v ''digest'' digest_parse) (\<lambda>dig.
        fum_try (string_then v ''outcome'' parse_provenance_outcome) (\<lambda>outcome.
        fum_try (string_then v ''authority'' parse_id) (\<lambda>authority.
        fum_try (json_require_uint v ''incarnation'') (\<lambda>incarnation.
        fum_try (string_then v ''recorded_at'' parse_iso8601) (\<lambda>recorded.
        fum_try (string_then v ''previous_chain'' digest_parse) (\<lambda>previous.
        fum_try (string_then v ''chain'' digest_parse) (\<lambda>chain.
        fum_try (json_opt_string v ''detail'' []) (\<lambda>detail.
        Inr \<lparr>prov_id = rid, prov_sequence = sequence, prov_campaign = campaign,
             prov_generation = generation, prov_stage = stage, prov_attempt = attempt,
             prov_target = target, prov_component = component, prov_artifact = artifact,
             prov_build = build, prov_from_version = from_version, prov_to_version = to_version,
             prov_digest = dig, prov_outcome = outcome, prov_authority = authority,
             prov_incarnation = incarnation, prov_recorded_at = recorded,
             prov_previous = previous, prov_chain = chain, prov_detail = detail\<rparr>)))))))))))))))))))))"

definition provenance_material :: "provenance_record \<Rightarrow> digest \<Rightarrow> string" where
  "provenance_material r previous_chain =
     previous_chain @ ''|'' @
     json_dump (json_erase (json_erase (provenance_to_json r) ''previous_chain'') ''chain'')"

definition compute_chain :: "provenance_record \<Rightarrow> digest \<Rightarrow> digest" where
  "compute_chain r previous_chain = digest_of_text (provenance_material r previous_chain)"

record ledger_verification =
  lv_valid :: bool
  lv_records :: nat
  lv_first_bad_index :: nat
  lv_reason :: string

text \<open>The loop carries the index, the sequence of the preceding record and the chain so far.\<close>

fun verify_ledger_loop ::
    "nat \<Rightarrow> nat \<Rightarrow> u64 option \<Rightarrow> digest \<Rightarrow> provenance_record list \<Rightarrow> ledger_verification" where
  "verify_ledger_loop n i last_sequence previous [] =
     \<lparr>lv_valid = True, lv_records = n, lv_first_bad_index = 0, lv_reason = ''ledger verified''\<rparr>"
| "verify_ledger_loop n i last_sequence previous (r # rs) =
     (let bad = (\<lambda>reason. \<lparr>lv_valid = False, lv_records = n, lv_first_bad_index = i, lv_reason = reason\<rparr>)
      in if (case last_sequence of None \<Rightarrow> False | Some q \<Rightarrow> prov_sequence r \<le> q)
         then bad ''provenance sequence is not strictly increasing''
         else if prov_previous r \<noteq> previous
         then bad ''provenance chain link does not match the preceding record''
         else if compute_chain r previous \<noteq> prov_chain r
         then bad ''provenance record content does not match its chain digest''
         else verify_ledger_loop n (i + 1) (Some (prov_sequence r)) (prov_chain r) rs)"

definition verify_ledger :: "provenance_record list \<Rightarrow> ledger_verification" where
  "verify_ledger rs = verify_ledger_loop (length rs) 0 None [] rs"

subsection \<open>What a valid ledger is\<close>

fun chain_from :: "digest \<Rightarrow> provenance_record list \<Rightarrow> bool" where
  "chain_from previous [] = True"
| "chain_from previous (r # rs) =
     (prov_previous r = previous \<and> prov_chain r = compute_chain r previous \<and>
      chain_from (prov_chain r) rs)"

definition chain_head :: "digest \<Rightarrow> provenance_record list \<Rightarrow> digest" where
  "chain_head previous rs = (if rs = [] then previous else prov_chain (last rs))"

definition ledger_valid :: "provenance_record list \<Rightarrow> bool" where
  "ledger_valid rs \<longleftrightarrow> sorted_wrt (<) (map prov_sequence rs) \<and> chain_from [] rs"

lemma sorted_wrt_less_Cons:
  "sorted_wrt (<) (x # y # zs) \<longleftrightarrow> x < y \<and> sorted_wrt (<) (y # (zs :: 'a :: order list))"
  by auto

lemma verify_ledger_loop_valid:
  "lv_valid (verify_ledger_loop n i q previous rs) \<longleftrightarrow>
     chain_from previous rs \<and>
     sorted_wrt (<) ((case q of None \<Rightarrow> [] | Some x \<Rightarrow> [x]) @ map prov_sequence rs)"
proof (induction rs arbitrary: i q previous)
  case Nil
  then show ?case by (simp split: option.split)
next
  case (Cons r rs)
  show ?case
    by (cases q) (auto simp: Let_def Cons.IH not_le)
qed

lemma verify_ledger_iff: "lv_valid (verify_ledger rs) \<longleftrightarrow> ledger_valid rs"
  by (auto simp: verify_ledger_def verify_ledger_loop_valid ledger_valid_def)

lemma chain_from_append:
  "chain_from previous (xs @ ys) \<longleftrightarrow> chain_from previous xs \<and> chain_from (chain_head previous xs) ys"
  by (induction xs arbitrary: previous) (auto simp: chain_head_def)

lemma ledger_valid_append:
  "ledger_valid (rs @ [r]) \<longleftrightarrow>
     ledger_valid rs \<and> (\<forall>x \<in> set rs. prov_sequence x < prov_sequence r) \<and>
     prov_previous r = chain_head [] rs \<and> prov_chain r = compute_chain r (chain_head [] rs)"
  by (auto simp: ledger_valid_def chain_from_append sorted_wrt_append)

text \<open>A valid ledger cut short is still valid.\<close>

lemma ledger_valid_prefix: "ledger_valid (xs @ ys) \<Longrightarrow> ledger_valid xs"
  by (auto simp: ledger_valid_def chain_from_append sorted_wrt_append)

text \<open>The materials that were hashed, oldest first.\<close>

fun ledger_materials :: "digest \<Rightarrow> provenance_record list \<Rightarrow> string list" where
  "ledger_materials previous [] = []"
| "ledger_materials previous (r # rs) =
     provenance_material r previous # ledger_materials (prov_chain r) rs"

definition sha_collision :: "string \<Rightarrow> string \<Rightarrow> bool" where
  "sha_collision x y \<longleftrightarrow> x \<noteq> y \<and> sha256_hex x = sha256_hex y"

lemma ledger_materials_append:
  "ledger_materials previous (xs @ ys) =
     ledger_materials previous xs @ ledger_materials (chain_head previous xs) ys"
  by (induction xs arbitrary: previous) (auto simp: chain_head_def)

lemma bar_not_hex: "CHR ''|'' \<notin> set (sha256_hex m)"
proof -
  have digit: "hex_digits ! n \<noteq> CHR ''|''" if "n < 16" for n
  proof -
    have "hex_digits ! n \<in> set hex_digits" using that by (intro nth_mem) (simp add: hex_digits_def)
    moreover have "CHR ''|'' \<notin> set hex_digits" by (simp add: hex_digits_def)
    ultimately show ?thesis by metis
  qed
  have nib: "unat (drop_bit 4 b AND 0x0F) < 16" "unat (b AND 0x0F) < 16" for b :: u8
    by (rule unat_nibble)+
  show ?thesis
    by (auto simp: sha256_hex_def to_hex_def hex_byte_def) (metis digit nib)+
qed

lemma material_previous:
  assumes "provenance_material r p = provenance_material s q" "CHR ''|'' \<notin> set p" "CHR ''|'' \<notin> set q"
  shows "p = q"
proof -
  have "takeWhile (\<lambda>c. c \<noteq> CHR ''|'') (provenance_material x y) = y" if "CHR ''|'' \<notin> set y" for x y
    unfolding provenance_material_def using that by (subst takeWhile_append2) auto
  with assms show ?thesis by metis
qed

lemma chain_head_no_bar:
  "chain_from [] rs \<Longrightarrow> CHR ''|'' \<notin> set (chain_head [] rs)"
proof (cases rs rule: rev_cases)
  case (snoc ys y)
  moreover assume "chain_from [] rs"
  ultimately show ?thesis
    by (simp add: chain_from_append chain_head_def compute_chain_def digest_of_text_def bar_not_hex)
qed (simp add: chain_head_def)

text \<open>The hashed text determines the content of the record, link and digest apart.\<close>

definition provenance_content :: "provenance_record \<Rightarrow> json" where
  "provenance_content r = json_erase (json_erase (provenance_to_json r) ''previous_chain'') ''chain''"

lemma json_norm_uint_eq: "json_norm (JUint a) = json_norm (JUint b) \<longleftrightarrow> a = b"
  by (metis json_as_uint_norm json_as_uint_ucast sum.inject(2))

lemma json_dump_norm_eq:
  assumes "json_ok v" "json_ok w" "json_dump v = json_dump w"
  shows "json_norm v = json_norm w"
proof -
  let ?t = "json_dump_at 0 0 v"
  let ?n = "length ?t + json_depth v + json_depth w"
  let ?lims = "\<lparr>lim_depth = ?n, lim_string_bytes = ?n, lim_nodes = ?n, lim_input_bytes = ?n\<rparr>"
  have same: "json_dump_at 0 0 w = ?t" using assms(3) by (simp add: json_dump_def)
  have "json_within ?lims v"
    using json_nodes_length [OF assms(1), of 0 0] json_widest_length [of v 0 0] assms(1)
    by (simp add: json_within_def)
  from json_parse_dump_at [OF this, of 0] have "json_parse ?lims ?t = Inr (json_norm v)" by simp
  moreover have "json_within ?lims w"
    using json_nodes_length [OF assms(2), of 0 0] json_widest_length [of w 0 0] assms(2)
    by (simp add: json_within_def same)
  from json_parse_dump_at [OF this, of 0] have "json_parse ?lims ?t = Inr (json_norm w)" by (simp add: same)
  ultimately show ?thesis by simp
qed

text \<open>The outcome is read back from its name.\<close>

lemma parse_provenance_outcome_name [simp, codec_simps]:
  "parse_provenance_outcome (provenance_outcome_name k) = Inr k"
  by (cases k) (simp_all add: parse_provenance_outcome_def)

lemma provenance_outcome_name_eq: "provenance_outcome_name k = provenance_outcome_name l \<longleftrightarrow> k = l"
  by (metis parse_provenance_outcome_name sum.inject(2))

text \<open>The members of the two objects, in the order they are written.\<close>

definition provenance_links :: "provenance_record \<Rightarrow> (string \<times> json) list" where
  "provenance_links r = [(''previous_chain'', JString (prov_previous r)), (''chain'', JString (prov_chain r))]"

definition provenance_members :: "provenance_record \<Rightarrow> (string \<times> json) list" where
  "provenance_members r =
     [(''record_id'', JString (prov_id r)), (''sequence'', JUint (prov_sequence r)),
      (''campaign_id'', JString (prov_campaign r)), (''generation'', JUint (prov_generation r)),
      (''stage_id'', JString (prov_stage r)), (''attempt_id'', JString (prov_attempt r)),
      (''target_id'', JString (prov_target r)), (''component_id'', JString (prov_component r)),
      (''artifact_id'', JString (prov_artifact r)), (''build_id'', JString (prov_build r)),
      (''from_version'', JString (ver_text (prov_from_version r))),
      (''to_version'', JString (ver_text (prov_to_version r))), (''digest'', JString (prov_digest r)),
      (''outcome'', JString (provenance_outcome_name (prov_outcome r))),
      (''authority'', JString (prov_authority r)), (''incarnation'', JUint (prov_incarnation r)),
      (''recorded_at'', JString (to_iso8601 (prov_recorded_at r)))]"

abbreviation provenance_detail_member :: "provenance_record \<Rightarrow> (string \<times> json) list" where
  "provenance_detail_member r \<equiv> [(''detail'', JString (prov_detail r))]"

lemma provenance_object:
  "provenance_to_json r = JObject (provenance_members r @ provenance_links r @ provenance_detail_member r)"
  by (simp add: provenance_to_json_def json_build_eq provenance_members_def provenance_links_def)

lemma provenance_content_object:
  "provenance_content r = JObject (provenance_members r @ provenance_detail_member r)"
  by (simp add: provenance_content_def provenance_object provenance_members_def provenance_links_def)

lemma provenance_content_ok: "json_ok (provenance_content r)"
  by (simp add: provenance_content_object provenance_members_def)

lemma content_determines_json:
  assumes "json_norm (provenance_content r) = json_norm (provenance_content s)"
    and "prov_previous r = prov_previous s" "prov_chain r = prov_chain s"
  shows "provenance_to_json r = provenance_to_json s"
  using assms by (simp add: provenance_content_object provenance_object provenance_members_def provenance_links_def
      json_norm_uint_eq del: json_norm.simps(1))

lemma material_content:
  assumes "provenance_material r p = provenance_material s p"
  shows "json_norm (provenance_content r) = json_norm (provenance_content s)"
  by (rule json_dump_norm_eq) (use assms in \<open>simp_all add: provenance_content_ok provenance_material_def flip: provenance_content_def\<close>)

text \<open>
  Records as the engine makes them: versions that were parsed or are absent, and a time that \<open>to_iso8601\<close> renders
  faithfully.
\<close>

definition version_known :: "version \<Rightarrow> bool" where
  "version_known v \<longleftrightarrow> version_wf v \<or> v = empty_version"

definition record_readable :: "provenance_record \<Rightarrow> bool" where
  "record_readable r \<longleftrightarrow>
     version_known (prov_from_version r) \<and> version_known (prov_to_version r) \<and> ts_ok (prov_recorded_at r)"

lemma version_known_text:
  assumes "version_known v" "version_known w" "ver_text v = ver_text w"
  shows "v = w"
proof -
  have empty: "ver_text empty_version = []" by (simp add: empty_version_def)
  show ?thesis using assms unfolding version_known_def
    by (metis empty sum.inject(2) version_parse_text version_text_hd(2))
qed

lemma iso8601_eq:
  assumes "ts_ok t" "ts_ok u" "to_iso8601 t = to_iso8601 u"
  shows "t = u"
  using parse_iso8601_ok [OF assms(1)] parse_iso8601_ok [OF assms(2)] assms(3) by (metis sum.inject(2))

lemma provenance_json_fields:
  assumes "provenance_to_json r = provenance_to_json s"
  shows "prov_id r = prov_id s" "prov_sequence r = prov_sequence s" "prov_campaign r = prov_campaign s"
    "prov_generation r = prov_generation s" "prov_stage r = prov_stage s" "prov_attempt r = prov_attempt s"
    "prov_target r = prov_target s" "prov_component r = prov_component s" "prov_artifact r = prov_artifact s"
    "prov_build r = prov_build s" "ver_text (prov_from_version r) = ver_text (prov_from_version s)"
    "ver_text (prov_to_version r) = ver_text (prov_to_version s)" "prov_digest r = prov_digest s"
    "prov_outcome r = prov_outcome s" "prov_authority r = prov_authority s" "prov_incarnation r = prov_incarnation s"
    "to_iso8601 (prov_recorded_at r) = to_iso8601 (prov_recorded_at s)" "prov_previous r = prov_previous s"
    "prov_chain r = prov_chain s" "prov_detail r = prov_detail s"
  using assms by (simp_all add: provenance_object provenance_members_def provenance_links_def provenance_outcome_name_eq)

lemma readable_json_eq:
  assumes "record_readable r" "record_readable s" "provenance_to_json r = provenance_to_json s"
  shows "r = s"
proof -
  note fields = provenance_json_fields [OF assms(3)]
  have "prov_from_version r = prov_from_version s" "prov_to_version r = prov_to_version s"
    by (rule version_known_text; use assms(1,2) fields(11,12) in \<open>simp add: record_readable_def\<close>)+
  moreover have "prov_recorded_at r = prov_recorded_at s"
    by (rule iso8601_eq [OF _ _ fields(17)]) (use assms(1,2) in \<open>simp_all add: record_readable_def\<close>)
  ultimately show ?thesis
    by (intro provenance_record.equality) (rule fields | assumption | simp)+
qed

lemma readable_ledgers_eq:
  assumes "\<forall>r \<in> set xs \<union> set ys. record_readable r" "map provenance_to_json xs = map provenance_to_json ys"
  shows "xs = ys"
  using assms by (induction xs ys rule: list_induct2') (auto intro: readable_json_eq)

lemma chained_head_not_Nil: "chain_from [] rs \<Longrightarrow> rs \<noteq> [] \<Longrightarrow> chain_head [] rs \<noteq> []"
  by (cases rs rule: rev_cases)
    (auto simp: chain_from_append chain_head_def compute_chain_def digest_of_text_def)

lemma ledger_tamper:
  assumes "chain_from [] xs" "chain_from [] ys" "chain_head [] xs = chain_head [] ys"
    "\<forall>m \<in> set (ledger_materials [] xs). \<forall>m' \<in> set (ledger_materials [] ys). \<not> sha_collision m m'"
  shows "map provenance_to_json xs = map provenance_to_json ys"
  using assms
proof (induction xs arbitrary: ys rule: rev_induct)
  case Nil
  then show ?case using chained_head_not_Nil [of ys] by (cases ys) (auto simp: chain_head_def)
next
  case (snoc x xs)
  then obtain y ys' where ys: "ys = ys' @ [y]"
    using chained_head_not_Nil [of "xs @ [x]"] by (cases ys rule: rev_cases) (auto simp: chain_head_def)
  note prems = snoc.prems [unfolded ys]
  have cx: "chain_from [] xs" "prov_previous x = chain_head [] xs" "prov_chain x = compute_chain x (chain_head [] xs)"
    and cy: "chain_from [] ys'" "prov_previous y = chain_head [] ys'" "prov_chain y = compute_chain y (chain_head [] ys')"
    using prems(1,2) by (simp_all add: chain_from_append)
  let ?mx = "provenance_material x (chain_head [] xs)" and ?my = "provenance_material y (chain_head [] ys')"
  have chains: "prov_chain x = prov_chain y" using prems(3) by (simp add: chain_head_def)
  then have "sha256_hex ?mx = sha256_hex ?my"
    using cx(3) cy(3) by (simp add: compute_chain_def digest_of_text_def)
  moreover have "\<not> sha_collision ?mx ?my" using prems(4) by (simp add: ledger_materials_append)
  ultimately have mat: "?mx = ?my" by (simp add: sha_collision_def)
  then have head: "chain_head [] xs = chain_head [] ys'"
    by (rule material_previous) (rule chain_head_no_bar [OF cx(1)], rule chain_head_no_bar [OF cy(1)])
  from material_content [OF mat [folded head]] have "provenance_to_json x = provenance_to_json y"
    by (rule content_determines_json) (simp_all add: chains cx(2) cy(2) head)
  moreover have "map provenance_to_json xs = map provenance_to_json ys'"
    by (rule snoc.IH [OF cx(1) cy(1) head]) (use prems(4) in \<open>auto simp: ledger_materials_append\<close>)
  ultimately show ?case by (simp add: ys)
qed

text \<open>
  C6: the ledger verification accepts exactly the ledgers whose sequence numbers increase strictly
  and in which every record's link and digest are those recomputed from its content and its predecessor;
  and two accepted ledgers that end in the same digest hold, record by record, the same members (the same records, where
  their versions were parsed or absent and their times are faithfully rendered), unless two of
  the hashed texts form a SHA-256 collision: no record can be edited, replaced, reordered, inserted or removed under an
  unchanged head, even when every later link is recomputed.
\<close>

theorem ledger_tamper_evident:
  "(lv_valid (verify_ledger xs) \<longleftrightarrow> ledger_valid xs) \<and>
   (lv_valid (verify_ledger xs) \<and> lv_valid (verify_ledger ys) \<and> chain_head [] xs = chain_head [] ys \<longrightarrow>
      map provenance_to_json xs = map provenance_to_json ys \<and>
        ((\<forall>r \<in> set xs \<union> set ys. record_readable r) \<longrightarrow> xs = ys) \<or>
      (\<exists>m \<in> set (ledger_materials [] xs). \<exists>m' \<in> set (ledger_materials [] ys). sha_collision m m'))"
  using ledger_tamper [of xs ys] readable_ledgers_eq [of xs ys] by (auto simp: verify_ledger_iff ledger_valid_def)

definition sample_record :: provenance_record where
  "sample_record =
     \<lparr>prov_id = ''r1'', prov_sequence = 1, prov_campaign = ''c'', prov_generation = 1,
      prov_stage = ''s'', prov_attempt = ''a'', prov_target = ''t'', prov_component = ''k'',
      prov_artifact = ''x'', prov_build = ''b'', prov_from_version = make_version 1 0 0 [],
      prov_to_version = make_version 1 1 0 [], prov_digest = [], prov_outcome = PO_applied,
      prov_authority = ''ops'', prov_incarnation = 1, prov_recorded_at = 0, prov_previous = [],
      prov_chain = [], prov_detail = []\<rparr>"

definition sample_provenance :: "u64 \<Rightarrow> digest \<Rightarrow> provenance_record" where
  "sample_provenance n previous =
     (let r = sample_record\<lparr>prov_sequence := n, prov_previous := previous\<rparr>
      in r\<lparr>prov_chain := compute_chain r previous\<rparr>)"

lemma compute_chain_own_fields [simp]:
  "compute_chain (r\<lparr>prov_chain := d\<rparr>) p = compute_chain r p"
  by (simp add: compute_chain_def provenance_material_def provenance_to_json_def json_build_def)

definition sample_ledger :: "provenance_record list" where
  "sample_ledger =
     (let r = sample_provenance 1 [] in [r, sample_provenance 2 (prov_chain r)])"

lemma sample_ledger_valid: "ledger_valid sample_ledger"
  by (simp add: sample_ledger_def ledger_valid_def sample_provenance_def Let_def)

text \<open>The sample ledger with the authority of its first record changed and both digests recomputed.\<close>

definition forged_ledger :: "provenance_record list" where
  "forged_ledger =
     (let r = sample_record\<lparr>prov_authority := ''mallory''\<rparr>;
          first = r\<lparr>prov_chain := compute_chain r []\<rparr>
      in [first, sample_provenance 2 (prov_chain first)])"

lemma sample_record_first: "prov_sequence sample_record = 1" "prov_previous sample_record = []"
  by (simp_all add: sample_record_def)

lemma forged_ledger_valid: "ledger_valid forged_ledger"
  by (simp add: sample_record_first forged_ledger_def ledger_valid_def sample_provenance_def Let_def)

lemma sample_versions: "version_known (make_version 1 0 0 [])" "version_known (make_version 1 1 0 [])"
  by code_simp+

lemma samples_readable: "\<forall>r \<in> set sample_ledger \<union> set forged_ledger. record_readable r"
  by (simp add: sample_ledger_def forged_ledger_def sample_provenance_def Let_def record_readable_def
      sample_record_def sample_versions)

lemma ledger_tamper_evident_witness:
  "lv_valid (verify_ledger sample_ledger) \<and> lv_valid (verify_ledger forged_ledger) \<and> sample_ledger \<noteq> forged_ledger \<and>
   {chain_head [] sample_ledger} \<inter> {chain_head [] forged_ledger} \<subseteq>
     {h. \<exists>m \<in> set (ledger_materials [] sample_ledger). \<exists>m' \<in> set (ledger_materials [] forged_ledger). sha_collision m m'}"
proof -
  have "sample_ledger \<noteq> forged_ledger"
    by (simp add: sample_ledger_def forged_ledger_def sample_provenance_def sample_record_def Let_def)
  then show ?thesis
    using ledger_tamper_evident [of sample_ledger forged_ledger] ledger_tamper_evident [of forged_ledger sample_ledger]
      sample_ledger_valid forged_ledger_valid samples_readable
    by (auto simp: Un_commute)
qed

subsection \<open>Round trip\<close>

definition provenance_wf :: "provenance_record \<Rightarrow> bool" where
  "provenance_wf r \<longleftrightarrow>
     valid_id (prov_id r) \<and> valid_id (prov_campaign r) \<and> valid_id (prov_stage r) \<and>
     valid_id (prov_attempt r) \<and> valid_id (prov_target r) \<and> valid_id (prov_component r) \<and>
     valid_id (prov_artifact r) \<and> valid_id (prov_build r) \<and> version_wf (prov_from_version r) \<and>
     version_wf (prov_to_version r) \<and> valid_digest (prov_digest r) \<and> valid_id (prov_authority r) \<and>
     ts_ok (prov_recorded_at r) \<and> valid_digest (prov_previous r) \<and> valid_digest (prov_chain r)"

lemma provenance_roundtrip:
  "provenance_wf r \<Longrightarrow> provenance_from_json (provenance_to_json r) = Inr r"
  by (simp add: provenance_from_json_def provenance_to_json_def provenance_wf_def string_then_def
      codec_simps cong: fum_try_weak_cong)

end
