(* ===== verification/Model_Decision.thy ===== *)
theory Model_Decision
  imports Model_Provenance Model_Lifecycle
begin

text \<open>
  Decisions (\<open>model/decision\<close>): what was asked, under which policy, what was selected and why; the
  fingerprint that leaves out the id, the timestamp and the observing incarnation; the JSON
  form and the explanation.
\<close>

datatype decision_kind =
    DK_plan | DK_preflight | DK_admit | DK_stage | DK_activate | DK_verify | DK_block | DK_pause
  | DK_resume | DK_abort | DK_rollback | DK_reconcile | DK_fence

fun decision_kind_name :: "decision_kind \<Rightarrow> string" where
  "decision_kind_name DK_plan = ''plan''"
| "decision_kind_name DK_preflight = ''preflight''"
| "decision_kind_name DK_admit = ''admit''"
| "decision_kind_name DK_stage = ''stage''"
| "decision_kind_name DK_activate = ''activate''"
| "decision_kind_name DK_verify = ''verify''"
| "decision_kind_name DK_block = ''block''"
| "decision_kind_name DK_pause = ''pause''"
| "decision_kind_name DK_resume = ''resume''"
| "decision_kind_name DK_abort = ''abort''"
| "decision_kind_name DK_rollback = ''rollback''"
| "decision_kind_name DK_reconcile = ''reconcile''"
| "decision_kind_name DK_fence = ''fence''"

definition all_decision_kinds :: "decision_kind list" where
  "all_decision_kinds =
     [DK_plan, DK_preflight, DK_admit, DK_stage, DK_activate, DK_verify, DK_block, DK_pause,
      DK_resume, DK_abort, DK_rollback, DK_reconcile, DK_fence]"

definition parse_decision_kind :: "string \<Rightarrow> decision_kind result" where
  "parse_decision_kind t =
     (case parse_by_name decision_kind_name all_decision_kinds t of
        Some k \<Rightarrow> Inr k
      | None \<Rightarrow> fail EC_invalid_argument ''unknown decision kind'' t)"

datatype decision_outcome = DO_allow | DO_deny | DO_defer

fun decision_outcome_name :: "decision_outcome \<Rightarrow> string" where
  "decision_outcome_name DO_allow = ''allow''"
| "decision_outcome_name DO_deny = ''deny''"
| "decision_outcome_name DO_defer = ''defer''"

definition parse_decision_outcome :: "string \<Rightarrow> decision_outcome result" where
  "parse_decision_outcome t =
     (if t = ''allow'' then Inr DO_allow
      else if t = ''deny'' then Inr DO_deny
      else if t = ''defer'' then Inr DO_defer
      else fail EC_invalid_argument ''unknown decision outcome'' t)"

record decision_input =
  din_name :: string
  din_value :: string

record decision_evidence =
  dev_id :: evidence_id
  dev_source :: string
  dev_summary :: string

record rejected_alternative =
  rej_action :: string
  rej_reason :: string

record decision =
  dec_id :: decision_id
  dec_kind :: decision_kind
  dec_outcome :: decision_outcome
  dec_campaign :: campaign_id
  dec_generation :: u64
  dec_authority :: authority_id
  dec_incarnation :: u64
  dec_epoch :: u64
  dec_policy :: policy_id
  dec_policy_revision :: u64
  dec_inputs :: "decision_input list"
  dec_evidence :: "decision_evidence list"
  dec_selected :: string
  dec_rejected :: "rejected_alternative list"
  dec_rationale :: string
  dec_at :: timestamp

definition input_to_json :: "decision_input \<Rightarrow> json" where
  "input_to_json i = json_build [(''name'', JString (din_name i)), (''value'', JString (din_value i))]"

definition evidence_to_json :: "string \<Rightarrow> decision_evidence \<Rightarrow> json" where
  "evidence_to_json id_key e = json_build
     [(id_key, JString (dev_id e)), (''source'', JString (dev_source e)),
      (''summary'', JString (dev_summary e))]"

definition alternative_to_json :: "rejected_alternative \<Rightarrow> json" where
  "alternative_to_json a =
     json_build [(''action'', JString (rej_action a)), (''reason'', JString (rej_reason a))]"

definition decision_material :: "decision \<Rightarrow> json" where
  "decision_material d = json_build
     [(''kind'', JString (decision_kind_name (dec_kind d))),
      (''outcome'', JString (decision_outcome_name (dec_outcome d))),
      (''campaign'', JString (dec_campaign d)), (''generation'', JUint (dec_generation d)),
      (''authority'', JString (dec_authority d)), (''epoch'', JUint (dec_epoch d)),
      (''policy'', JString (dec_policy d)), (''policy_revision'', JUint (dec_policy_revision d)),
      (''inputs'', json_list input_to_json (dec_inputs d)),
      (''evidence'', json_list (evidence_to_json ''id'') (dec_evidence d)),
      (''selected'', JString (dec_selected d)),
      (''rejected'', json_list alternative_to_json (dec_rejected d)),
      (''rationale'', JString (dec_rationale d))]"

definition decision_fingerprint :: "decision \<Rightarrow> string" where
  "decision_fingerprint d = sha256_hex (json_dump (decision_material d))"

definition decision_to_json :: "decision \<Rightarrow> json" where
  "decision_to_json d = json_build
     [(''decision_id'', JString (dec_id d)),
      (''kind'', JString (decision_kind_name (dec_kind d))),
      (''outcome'', JString (decision_outcome_name (dec_outcome d))),
      (''campaign'', JString (dec_campaign d)), (''generation'', JUint (dec_generation d)),
      (''authority'', JString (dec_authority d)), (''incarnation'', JUint (dec_incarnation d)),
      (''epoch'', JUint (dec_epoch d)), (''policy'', JString (dec_policy d)),
      (''policy_revision'', JUint (dec_policy_revision d)),
      (''inputs'', json_list input_to_json (dec_inputs d)),
      (''evidence'', json_list (evidence_to_json ''evidence_id'') (dec_evidence d)),
      (''selected'', JString (dec_selected d)),
      (''rejected'', json_list alternative_to_json (dec_rejected d)),
      (''rationale'', JString (dec_rationale d)),
      (''at'', JString (to_iso8601 (dec_at d))),
      (''fingerprint'', JString (decision_fingerprint d))]"

text \<open>\<open>if (member != nullptr && member->is_array()) { for ... }\<close>: anything else reads as empty.\<close>

definition lenient_array :: "(json \<Rightarrow> 'a result) \<Rightarrow> json \<Rightarrow> string \<Rightarrow> 'a list result" where
  "lenient_array dec v key =
     (case json_find v key of
        None \<Rightarrow> Inr []
      | Some found \<Rightarrow> if json_is_array found then map_result dec (json_items found) else Inr [])"

definition input_from_json :: "json \<Rightarrow> decision_input result" where
  "input_from_json item =
     fum_try (json_require_string item ''name'') (\<lambda>name.
     fum_try (json_require_string item ''value'') (\<lambda>val.
     Inr \<lparr>din_name = name, din_value = val\<rparr>))"

definition evidence_from_json :: "json \<Rightarrow> decision_evidence result" where
  "evidence_from_json item =
     fum_try (string_then item ''evidence_id'' parse_id) (\<lambda>eid.
     fum_try (json_require_string item ''source'') (\<lambda>src.
     fum_try (json_require_string item ''summary'') (\<lambda>summary.
     Inr \<lparr>dev_id = eid, dev_source = src, dev_summary = summary\<rparr>)))"

definition alternative_from_json :: "json \<Rightarrow> rejected_alternative result" where
  "alternative_from_json item =
     fum_try (json_require_string item ''action'') (\<lambda>action.
     fum_try (json_require_string item ''reason'') (\<lambda>reason.
     Inr \<lparr>rej_action = action, rej_reason = reason\<rparr>))"

definition decision_from_json :: "json \<Rightarrow> decision result" where
  "decision_from_json v =
     (if \<not> json_is_object v then fail EC_invalid_argument ''decision must be a json object'' ''''
      else
        fum_try (string_then v ''decision_id'' parse_id) (\<lambda>did.
        fum_try (string_then v ''kind'' parse_decision_kind) (\<lambda>kind.
        fum_try (string_then v ''outcome'' parse_decision_outcome) (\<lambda>outcome.
        fum_try (string_then v ''campaign'' parse_id) (\<lambda>campaign.
        fum_try (json_require_uint v ''generation'') (\<lambda>generation.
        fum_try (string_then v ''authority'' parse_id) (\<lambda>authority.
        fum_try (json_optional json_as_uint v ''incarnation'' 0) (\<lambda>incarnation.
        fum_try (json_optional json_as_uint v ''epoch'' 0) (\<lambda>epoch.
        fum_try (string_then v ''policy'' parse_id) (\<lambda>pol.
        fum_try (json_require_uint v ''policy_revision'') (\<lambda>revision.
        fum_try (lenient_array input_from_json v ''inputs'') (\<lambda>inputs.
        fum_try (lenient_array evidence_from_json v ''evidence'') (\<lambda>evidence.
        fum_try (json_require_string v ''selected'') (\<lambda>selected.
        fum_try (lenient_array alternative_from_json v ''rejected'') (\<lambda>rejected.
        fum_try (json_require_string v ''rationale'') (\<lambda>rationale.
        fum_try (json_optional timestamp_from_json v ''at'' 0) (\<lambda>stamp.
        Inr \<lparr>dec_id = did, dec_kind = kind, dec_outcome = outcome, dec_campaign = campaign,
             dec_generation = generation, dec_authority = authority,
             dec_incarnation = incarnation, dec_epoch = epoch, dec_policy = pol,
             dec_policy_revision = revision, dec_inputs = inputs, dec_evidence = evidence,
             dec_selected = selected, dec_rejected = rejected, dec_rationale = rationale,
             dec_at = stamp\<rparr>)))))))))))))))))"

definition explain_decision :: "decision \<Rightarrow> string" where
  "explain_decision d =
     decision_kind_name (dec_kind d) @ '' decision '' @ decision_outcome_name (dec_outcome d) @ '': '' @
     dec_selected d @ [CHR 0x0A] @ ''  rationale: '' @ dec_rationale d @
     [CHR 0x0A] @ ''  campaign='' @ dec_campaign d @
     '' generation='' @ u64_to_string (dec_generation d) @ '' authority='' @ dec_authority d @
     '' epoch='' @ u64_to_string (dec_epoch d) @ '' policy='' @ dec_policy d @ ''@'' @
     u64_to_string (dec_policy_revision d) @ [CHR 0x0A] @ ''  inputs:'' @
     concat (map (\<lambda>i. [CHR 0x0A] @ ''    '' @ din_name i @ ''='' @ din_value i) (dec_inputs d)) @
     (if dec_evidence d \<noteq> []
      then [CHR 0x0A] @ ''  evidence:'' @
           concat (map (\<lambda>e. [CHR 0x0A] @ ''    '' @ dev_source e @ '' '' @ dev_id e @ '': '' @ dev_summary e)
             (dec_evidence d))
      else []) @
     (if dec_rejected d \<noteq> []
      then [CHR 0x0A] @ ''  rejected alternatives:'' @
           concat (map (\<lambda>a. [CHR 0x0A] @ ''    '' @ rej_action a @ '': '' @ rej_reason a) (dec_rejected d))
      else []) @
     [CHR 0x0A] @ ''  fingerprint: '' @ decision_fingerprint d"

subsection \<open>Properties\<close>

lemma decision_fingerprint_frame [frame_simps]:
  "decision_fingerprint (d\<lparr>dec_id := i\<rparr>) = decision_fingerprint d"
  "decision_fingerprint (d\<lparr>dec_at := t\<rparr>) = decision_fingerprint d"
  "decision_fingerprint (d\<lparr>dec_incarnation := n\<rparr>) = decision_fingerprint d"
  by (simp_all add: decision_fingerprint_def decision_material_def)

lemma decision_kind_name_inject: "decision_kind_name a = decision_kind_name b \<Longrightarrow> a = b"
  by (cases a; cases b; simp)

lemma parse_decision_kind_name [simp, codec_simps]: "parse_decision_kind (decision_kind_name k) = Inr k"
proof -
  have "k \<in> set all_decision_kinds" by (cases k) (simp_all add: all_decision_kinds_def)
  then show ?thesis
    using parse_by_name_inj [of decision_kind_name k all_decision_kinds, OF decision_kind_name_inject] by (simp add: parse_decision_kind_def)
qed

lemma parse_decision_outcome_name [simp, codec_simps]:
  "parse_decision_outcome (decision_outcome_name k) = Inr k"
  by (cases k) (simp_all add: parse_decision_outcome_def)

lemma lenient_array_map:
  assumes "json_find v key = Some (JArray (map enc xs))" "\<And>x. x \<in> set xs \<Longrightarrow> dec (enc x) = Inr x"
  shows "lenient_array dec v key = Inr xs"
  using assms(2) by (simp add: lenient_array_def assms(1) map_result_map)

definition decision_wf :: "decision \<Rightarrow> bool" where
  "decision_wf d \<longleftrightarrow>
     valid_id (dec_id d) \<and> valid_id (dec_campaign d) \<and> valid_id (dec_authority d) \<and>
     valid_id (dec_policy d) \<and> list_all (\<lambda>e. valid_id (dev_id e)) (dec_evidence d) \<and> ts_ok (dec_at d)"

lemma decision_roundtrip:
  assumes "decision_wf d"
  shows "decision_from_json (decision_to_json d) = Inr d"
proof -
  have i: "input_from_json (input_to_json x) = Inr x" for x
    by (simp add: input_from_json_def input_to_json_def codec_simps)
  have a: "alternative_from_json (alternative_to_json x) = Inr x" for x
    by (simp add: alternative_from_json_def alternative_to_json_def codec_simps)
  have e: "evidence_from_json (evidence_to_json ''evidence_id'' x) = Inr x"
    if "x \<in> set (dec_evidence d)" for x
    using that assms by (simp add: evidence_from_json_def evidence_to_json_def string_then_def
        decision_wf_def list_all_iff codec_simps)
  have ins: "lenient_array input_from_json (decision_to_json d) ''inputs'' = Inr (dec_inputs d)"
    by (rule lenient_array_map [where enc = input_to_json]) (simp_all add: decision_to_json_def i)
  have als: "lenient_array alternative_from_json (decision_to_json d) ''rejected'' = Inr (dec_rejected d)"
    by (rule lenient_array_map [where enc = alternative_to_json]) (simp_all add: decision_to_json_def a)
  have evs: "lenient_array evidence_from_json (decision_to_json d) ''evidence'' = Inr (dec_evidence d)"
    by (rule lenient_array_map [where enc = "evidence_to_json ''evidence_id''"])
      (simp_all add: decision_to_json_def e)
  show ?thesis
    unfolding decision_from_json_def ins als evs
    using assms by (simp add: decision_to_json_def decision_wf_def string_then_def timestamp_from_json_def
        codec_simps cong: fum_try_weak_cong)
qed

end
