(* ===== verification/Model_Plan.thy ===== *)
theory Model_Plan
  imports Model_Policy Model_Decision
begin

text \<open>
  Upgrade plans (first half of \<open>model/campaign\<close>): plan steps, stage plans, plan rejections, the
  request and the plan, with their JSON forms and the plan fingerprint.
\<close>

definition string_array :: "json \<Rightarrow> string \<Rightarrow> string list result" where
  "string_array v key =
     (case json_find v key of
        None \<Rightarrow> Inr []
      | Some found \<Rightarrow>
          if json_is_null found then Inr []
          else if \<not> json_is_array found
          then fail EC_invalid_argument ''json member must be an array'' key
          else map_result json_as_string (json_items found))"

text \<open>The array of strings is read whole before the identifiers in it are parsed.\<close>

definition id_array :: "json \<Rightarrow> string \<Rightarrow> string list result" where
  "id_array v key = fum_try (string_array v key) (map_result parse_id)"

record plan_step =
  stp_id :: step_id
  stp_action :: string
  stp_description :: string
  stp_irreversible :: bool
  stp_irreversible_reason :: string

definition step_to_json :: "plan_step \<Rightarrow> json" where
  "step_to_json s = json_build
     [(''step_id'', JString (stp_id s)), (''action'', JString (stp_action s)),
      (''description'', JString (stp_description s)), (''irreversible'', JBool (stp_irreversible s)),
      (''irreversible_reason'', JString (stp_irreversible_reason s))]"

definition step_from_json :: "json \<Rightarrow> plan_step result" where
  "step_from_json v =
     (if \<not> json_is_object v then fail EC_invalid_argument ''plan step must be a json object'' ''''
      else
        fum_try (string_then v ''step_id'' parse_id) (\<lambda>sid.
        fum_try (json_require_string v ''action'') (\<lambda>action.
        fum_try (json_opt_string v ''description'' []) (\<lambda>description.
        fum_try (json_opt_bool v ''irreversible'' False) (\<lambda>irreversible.
        fum_try (json_opt_string v ''irreversible_reason'' []) (\<lambda>reason.
        if irreversible \<and> reason = []
        then fail EC_invalid_argument ''an irreversible step must carry an explicit reason'' sid
        else Inr \<lparr>stp_id = sid, stp_action = action, stp_description = description,
                  stp_irreversible = irreversible, stp_irreversible_reason = reason\<rparr>))))))"

record stage_plan =
  stg_id :: stage_id
  stg_name :: string
  stg_targets :: "target_id list"
  stg_steps :: "plan_step list"
  stg_requires_service_removal :: bool
  stg_redundancy_group :: string
  stg_max_parallel :: u32

definition stage_to_json :: "stage_plan \<Rightarrow> json" where
  "stage_to_json s = json_build
     [(''stage_id'', JString (stg_id s)), (''name'', JString (stg_name s)),
      (''targets'', json_list JString (stg_targets s)),
      (''steps'', json_list step_to_json (stg_steps s)),
      (''requires_service_removal'', JBool (stg_requires_service_removal s)),
      (''redundancy_group'', JString (stg_redundancy_group s)),
      (''max_parallel'', JUint (ucast (stg_max_parallel s)))]"

definition stage_from_json :: "json \<Rightarrow> stage_plan result" where
  "stage_from_json v =
     (if \<not> json_is_object v then fail EC_invalid_argument ''stage plan must be a json object'' ''''
      else
        fum_try (string_then v ''stage_id'' parse_id) (\<lambda>sid.
        fum_try (json_opt_string v ''name'' []) (\<lambda>name.
        fum_try (id_array v ''targets'') (\<lambda>targets.
        fum_try (lenient_array step_from_json v ''steps'') (\<lambda>steps.
        fum_try (json_opt_bool v ''requires_service_removal'' False) (\<lambda>drain.
        fum_try (json_opt_string v ''redundancy_group'' []) (\<lambda>group.
        fum_try (json_optional (\<lambda>p. fum_try (json_as_uint p) (\<lambda>n. Inr (ucast n))) v
                   ''max_parallel'' 1) (\<lambda>parallel.
        if parallel = (0 :: u32)
        then fail EC_invalid_argument ''stage max_parallel must be at least 1'' sid
        else Inr \<lparr>stg_id = sid, stg_name = name, stg_targets = targets, stg_steps = steps,
                  stg_requires_service_removal = drain, stg_redundancy_group = group,
                  stg_max_parallel = parallel\<rparr>))))))))"

datatype plan_rejection_code =
    PR_no_targets | PR_unknown_target | PR_mixed_component | PR_platform_unsupported
  | PR_capability_missing | PR_strategy_unsupported | PR_duplicate_target
  | PR_integrity_unverified | PR_version_regression | PR_skew_unsatisfiable
  | PR_irreversible_unacknowledged | PR_target_limit_exceeded | PR_stage_limit_exceeded
  | PR_adapter_claim_conflict | PR_artifact_component_mismatch | PR_already_at_version

fun plan_rejection_name :: "plan_rejection_code \<Rightarrow> string" where
  "plan_rejection_name PR_no_targets = ''no-targets''"
| "plan_rejection_name PR_unknown_target = ''unknown-target''"
| "plan_rejection_name PR_mixed_component = ''mixed-component''"
| "plan_rejection_name PR_platform_unsupported = ''platform-unsupported''"
| "plan_rejection_name PR_capability_missing = ''capability-missing''"
| "plan_rejection_name PR_strategy_unsupported = ''strategy-unsupported''"
| "plan_rejection_name PR_duplicate_target = ''duplicate-target''"
| "plan_rejection_name PR_integrity_unverified = ''integrity-unverified''"
| "plan_rejection_name PR_version_regression = ''version-regression''"
| "plan_rejection_name PR_skew_unsatisfiable = ''skew-unsatisfiable''"
| "plan_rejection_name PR_irreversible_unacknowledged = ''irreversible-unacknowledged''"
| "plan_rejection_name PR_target_limit_exceeded = ''target-limit-exceeded''"
| "plan_rejection_name PR_stage_limit_exceeded = ''stage-limit-exceeded''"
| "plan_rejection_name PR_adapter_claim_conflict = ''adapter-claim-conflict''"
| "plan_rejection_name PR_artifact_component_mismatch = ''artifact-component-mismatch''"
| "plan_rejection_name PR_already_at_version = ''already-at-version''"

definition all_plan_rejections :: "plan_rejection_code list" where
  "all_plan_rejections =
     [PR_no_targets, PR_unknown_target, PR_mixed_component, PR_platform_unsupported,
      PR_capability_missing, PR_strategy_unsupported, PR_duplicate_target,
      PR_integrity_unverified, PR_version_regression, PR_skew_unsatisfiable,
      PR_irreversible_unacknowledged, PR_target_limit_exceeded, PR_stage_limit_exceeded,
      PR_adapter_claim_conflict, PR_artifact_component_mismatch, PR_already_at_version]"

definition parse_plan_rejection :: "string \<Rightarrow> plan_rejection_code result" where
  "parse_plan_rejection t =
     (case parse_by_name plan_rejection_name all_plan_rejections t of
        Some k \<Rightarrow> Inr k
      | None \<Rightarrow> fail EC_invalid_argument ''unknown plan rejection code'' t)"

record plan_rejection =
  prj_code :: plan_rejection_code
  prj_subject :: string
  prj_detail :: string

definition rejection_to_json :: "plan_rejection \<Rightarrow> json" where
  "rejection_to_json r = json_build
     [(''code'', JString (plan_rejection_name (prj_code r))), (''subject'', JString (prj_subject r)),
      (''detail'', JString (prj_detail r))]"

definition rejection_from_json :: "json \<Rightarrow> plan_rejection result" where
  "rejection_from_json v =
     fum_try (string_then v ''code'' parse_plan_rejection) (\<lambda>code.
     fum_try (json_require_string v ''subject'') (\<lambda>subject.
     fum_try (json_require_string v ''detail'') (\<lambda>detail.
     Inr \<lparr>prj_code = code, prj_subject = subject, prj_detail = detail\<rparr>)))"

record upgrade_plan_request =
  req_campaign :: campaign_id
  req_component :: component_id
  req_artifact :: artifact_descriptor
  req_targets :: "target_id list"
  req_strategy :: strategy_kind
  req_skew_budget :: skew_budget
  req_authority :: authority_id
  req_acknowledge_irreversible :: bool
  req_acknowledged_steps :: "step_id list"
  req_max_parallel :: u32
  req_description :: string
  req_requested_at :: timestamp

definition request_to_json :: "upgrade_plan_request \<Rightarrow> json" where
  "request_to_json r = json_build
     [(''campaign_id'', JString (req_campaign r)), (''component_id'', JString (req_component r)),
      (''artifact'', artifact_to_json (req_artifact r)),
      (''targets'', json_list JString (req_targets r)),
      (''strategy'', JString (strategy_kind_name (req_strategy r))),
      (''skew_budget'', skew_to_json (req_skew_budget r)),
      (''authority'', JString (req_authority r)),
      (''acknowledge_irreversible_steps'', JBool (req_acknowledge_irreversible r)),
      (''acknowledged_irreversible_steps'', json_list JString (req_acknowledged_steps r)),
      (''max_parallel_activations'', JUint (ucast (req_max_parallel r))),
      (''description'', JString (req_description r)),
      (''requested_at'', JString (to_iso8601 (req_requested_at r)))]"

text \<open>An empty timestamp text is left at the default.\<close>

definition timestamp_or_empty :: "json \<Rightarrow> timestamp result" where
  "timestamp_or_empty item =
     fum_try (json_as_string item) (\<lambda>t. if t \<noteq> [] then parse_iso8601 t else Inr 0)"

definition required_artifact :: "json \<Rightarrow> string \<Rightarrow> artifact_descriptor result" where
  "required_artifact v message =
     (case json_find v ''artifact'' of
        None \<Rightarrow> fail EC_invalid_argument message ''''
      | Some a \<Rightarrow> artifact_from_json a)"

definition request_from_json :: "json \<Rightarrow> upgrade_plan_request result" where
  "request_from_json v =
     (if \<not> json_is_object v then fail EC_invalid_argument ''plan request must be a json object'' ''''
      else
        fum_try (string_then v ''campaign_id'' parse_id) (\<lambda>campaign.
        fum_try (string_then v ''component_id'' parse_id) (\<lambda>component.
        fum_try (required_artifact v ''plan request requires an artifact'') (\<lambda>artifact.
        fum_try (id_array v ''targets'') (\<lambda>targets.
        fum_try (json_optional (\<lambda>s. fum_try (json_as_string s) parse_strategy_kind) v
                   ''strategy'' SK_in_place) (\<lambda>strategy.
        fum_try (json_optional skew_from_json v ''skew_budget'' default_skew_budget) (\<lambda>budget.
        fum_try (string_then v ''authority'' parse_id) (\<lambda>authority.
        fum_try (json_opt_bool v ''acknowledge_irreversible_steps'' False) (\<lambda>acknowledge.
        fum_try (id_array v ''acknowledged_irreversible_steps'') (\<lambda>steps.
        fum_try (json_optional (\<lambda>p. fum_try (json_as_uint p) (\<lambda>n. Inr (ucast n))) v
                   ''max_parallel_activations'' 1) (\<lambda>parallel.
        fum_try (json_opt_string v ''description'' []) (\<lambda>description.
        fum_try (json_optional timestamp_or_empty v ''requested_at'' 0) (\<lambda>requested.
        Inr \<lparr>req_campaign = campaign, req_component = component, req_artifact = artifact,
             req_targets = targets, req_strategy = strategy, req_skew_budget = budget,
             req_authority = authority, req_acknowledge_irreversible = acknowledge,
             req_acknowledged_steps = steps, req_max_parallel = parallel,
             req_description = description, req_requested_at = requested\<rparr>)))))))))))))"

record upgrade_plan =
  pln_campaign :: campaign_id
  pln_generation :: u64
  pln_authority :: authority_id
  pln_component :: component_id
  pln_artifact :: artifact_descriptor
  pln_strategy :: strategy_kind
  pln_stages :: "stage_plan list"
  pln_skew_budget :: skew_budget
  pln_rejections :: "plan_rejection list"
  pln_irreversible_steps :: "step_id list"
  pln_policy :: policy_id
  pln_policy_revision :: u64
  pln_created_at :: timestamp
  pln_description :: string

definition empty_plan :: upgrade_plan where
  "empty_plan =
     \<lparr>pln_campaign = [], pln_generation = 0, pln_authority = [], pln_component = [],
      pln_artifact = empty_artifact, pln_strategy = SK_in_place, pln_stages = [],
      pln_skew_budget = default_skew_budget, pln_rejections = [], pln_irreversible_steps = [],
      pln_policy = [], pln_policy_revision = 0, pln_created_at = 0, pln_description = []\<rparr>"

definition plan_executable :: "upgrade_plan \<Rightarrow> bool" where
  "plan_executable p \<longleftrightarrow> pln_rejections p = []"

definition plan_target_count :: "upgrade_plan \<Rightarrow> nat" where
  "plan_target_count p = foldl (\<lambda>n s. n + length (stg_targets s)) 0 (pln_stages p)"

definition plan_to_json :: "upgrade_plan \<Rightarrow> json" where
  "plan_to_json p = json_build
     [(''campaign_id'', JString (pln_campaign p)), (''generation'', JUint (pln_generation p)),
      (''authority'', JString (pln_authority p)), (''component_id'', JString (pln_component p)),
      (''artifact'', artifact_to_json (pln_artifact p)),
      (''strategy'', JString (strategy_kind_name (pln_strategy p))),
      (''stages'', json_list stage_to_json (pln_stages p)),
      (''skew_budget'', skew_to_json (pln_skew_budget p)),
      (''rejections'', json_list rejection_to_json (pln_rejections p)),
      (''irreversible_steps'', json_list JString (pln_irreversible_steps p)),
      (''policy'', JString (pln_policy p)), (''policy_revision'', JUint (pln_policy_revision p)),
      (''created_at'', JString (to_iso8601 (pln_created_at p))),
      (''description'', JString (pln_description p))]"

definition plan_fingerprint :: "upgrade_plan \<Rightarrow> string" where
  "plan_fingerprint p = sha256_hex (json_dump (plan_to_json p))"

definition plan_from_json :: "json \<Rightarrow> upgrade_plan result" where
  "plan_from_json v =
     (if \<not> json_is_object v then fail EC_invalid_argument ''upgrade plan must be a json object'' ''''
      else
        fum_try (string_then v ''campaign_id'' parse_id) (\<lambda>campaign.
        fum_try (json_require_uint v ''generation'') (\<lambda>generation.
        fum_try (string_then v ''authority'' parse_id) (\<lambda>authority.
        fum_try (string_then v ''component_id'' parse_id) (\<lambda>component.
        fum_try (required_artifact v ''upgrade plan requires an artifact'') (\<lambda>artifact.
        fum_try (string_then v ''strategy'' parse_strategy_kind) (\<lambda>strategy.
        fum_try (lenient_array stage_from_json v ''stages'') (\<lambda>stages.
        fum_try (json_optional skew_from_json v ''skew_budget'' default_skew_budget) (\<lambda>budget.
        fum_try (lenient_array rejection_from_json v ''rejections'') (\<lambda>rejections.
        fum_try (id_array v ''irreversible_steps'') (\<lambda>steps.
        fum_try (string_then v ''policy'' parse_id) (\<lambda>pol.
        fum_try (json_require_uint v ''policy_revision'') (\<lambda>revision.
        fum_try (json_optional timestamp_from_json v ''created_at'' 0) (\<lambda>created.
        fum_try (json_opt_string v ''description'' []) (\<lambda>description.
        Inr \<lparr>pln_campaign = campaign, pln_generation = generation, pln_authority = authority,
             pln_component = component, pln_artifact = artifact, pln_strategy = strategy,
             pln_stages = stages, pln_skew_budget = budget, pln_rejections = rejections,
             pln_irreversible_steps = steps, pln_policy = pol, pln_policy_revision = revision,
             pln_created_at = created, pln_description = description\<rparr>)))))))))))))))"

subsection \<open>Round trips\<close>

definition step_wf :: "plan_step \<Rightarrow> bool" where
  "step_wf s \<longleftrightarrow> valid_id (stp_id s) \<and> (stp_irreversible s \<longrightarrow> stp_irreversible_reason s \<noteq> [])"

definition stage_wf :: "stage_plan \<Rightarrow> bool" where
  "stage_wf s \<longleftrightarrow>
     valid_id (stg_id s) \<and> list_all valid_id (stg_targets s) \<and> list_all step_wf (stg_steps s) \<and>
     stg_max_parallel s \<noteq> 0"

definition plan_wf :: "upgrade_plan \<Rightarrow> bool" where
  "plan_wf p \<longleftrightarrow>
     valid_id (pln_campaign p) \<and> valid_id (pln_authority p) \<and> valid_id (pln_component p) \<and>
     artifact_wf (pln_artifact p) \<and> list_all stage_wf (pln_stages p) \<and>
     skew_wf (pln_skew_budget p) \<and> list_all valid_id (pln_irreversible_steps p) \<and>
     valid_id (pln_policy p) \<and> ts_ok (pln_created_at p)"

lemma string_array_Some [simp]:
  "json_find v key = Some (JArray (map JString xs)) \<Longrightarrow> string_array v key = Inr xs"
  by (simp add: string_array_def)

lemma id_array_Some:
  "json_find v key = Some (JArray (map JString xs)) \<Longrightarrow> list_all valid_id xs \<Longrightarrow> id_array v key = Inr xs"
  using map_result_map [of xs parse_id "\<lambda>x. x"] by (simp add: id_array_def list_all_iff)

lemma step_roundtrip: "step_wf s \<Longrightarrow> step_from_json (step_to_json s) = Inr s"
  by (auto simp: step_from_json_def step_to_json_def step_wf_def string_then_def codec_simps)

lemma stage_roundtrip:
  assumes "stage_wf s"
  shows "stage_from_json (stage_to_json s) = Inr s"
proof -
  note wf = assms [unfolded stage_wf_def]
  have t: "id_array (stage_to_json s) ''targets'' = Inr (stg_targets s)"
    using wf by (intro id_array_Some) (simp_all add: stage_to_json_def)
  have "lenient_array step_from_json (stage_to_json s) ''steps'' = Inr (stg_steps s)"
    by (rule lenient_array_map [where enc = step_to_json])
      (use wf in \<open>simp_all add: stage_to_json_def step_roundtrip list_all_iff\<close>)
  then show ?thesis
    unfolding stage_from_json_def t
    using wf by (simp add: string_then_def codec_simps cong: fum_try_weak_cong)
      (simp add: stage_to_json_def codec_simps)
qed

lemma plan_rejection_name_inject: "plan_rejection_name a = plan_rejection_name b \<Longrightarrow> a = b"
  by (cases a; cases b; simp)

lemma parse_plan_rejection_name [simp, codec_simps]: "parse_plan_rejection (plan_rejection_name k) = Inr k"
proof -
  have "k \<in> set all_plan_rejections" by (cases k) (simp_all add: all_plan_rejections_def)
  then show ?thesis
    using parse_by_name_inj [of plan_rejection_name k all_plan_rejections, OF plan_rejection_name_inject]
    by (simp add: parse_plan_rejection_def)
qed

lemma rejection_roundtrip: "rejection_from_json (rejection_to_json r) = Inr r"
  by (simp add: rejection_from_json_def rejection_to_json_def string_then_def codec_simps)

lemma plan_roundtrip:
  assumes "plan_wf p"
  shows "plan_from_json (plan_to_json p) = Inr p"
proof -
  note wf = assms [unfolded plan_wf_def]
  have stages: "lenient_array stage_from_json (plan_to_json p) ''stages'' = Inr (pln_stages p)"
    by (rule lenient_array_map [where enc = stage_to_json])
      (use wf in \<open>simp_all add: plan_to_json_def stage_roundtrip list_all_iff\<close>)
  have rejections: "lenient_array rejection_from_json (plan_to_json p) ''rejections'' = Inr (pln_rejections p)"
    by (rule lenient_array_map [where enc = rejection_to_json])
      (simp_all add: plan_to_json_def rejection_roundtrip)
  have steps: "id_array (plan_to_json p) ''irreversible_steps'' = Inr (pln_irreversible_steps p)"
    using wf by (intro id_array_Some) (simp_all add: plan_to_json_def)
  have art: "required_artifact (plan_to_json p) m = Inr (pln_artifact p)" for m
    using wf by (simp add: required_artifact_def plan_to_json_def artifact_roundtrip)
  show ?thesis
    unfolding plan_from_json_def stages rejections steps art
    using wf by (simp add: plan_to_json_def string_then_def timestamp_from_json_def skew_roundtrip
        codec_simps cong: fum_try_weak_cong)
qed

definition request_wf :: "upgrade_plan_request \<Rightarrow> bool" where
  "request_wf r \<longleftrightarrow>
     valid_id (req_campaign r) \<and> valid_id (req_component r) \<and> artifact_wf (req_artifact r) \<and>
     list_all valid_id (req_targets r) \<and> skew_wf (req_skew_budget r) \<and>
     valid_id (req_authority r) \<and> list_all valid_id (req_acknowledged_steps r) \<and>
     ts_ok (req_requested_at r)"

lemma to_iso8601_not_Nil [simp]: "to_iso8601 t \<noteq> []"
  by (simp add: to_iso8601_def Let_def)

lemma timestamp_or_empty_ok [simp, codec_simps]:
  "ts_ok t \<Longrightarrow> timestamp_or_empty (JString (to_iso8601 t)) = Inr t"
  by (simp add: timestamp_or_empty_def)

lemma request_roundtrip:
  assumes "request_wf r"
  shows "request_from_json (request_to_json r) = Inr r"
proof -
  note wf = assms [unfolded request_wf_def]
  have targets: "id_array (request_to_json r) ''targets'' = Inr (req_targets r)"
    using wf by (intro id_array_Some) (simp_all add: request_to_json_def)
  have steps: "id_array (request_to_json r) ''acknowledged_irreversible_steps'' = Inr (req_acknowledged_steps r)"
    using wf by (intro id_array_Some) (simp_all add: request_to_json_def)
  have art: "required_artifact (request_to_json r) m = Inr (req_artifact r)" for m
    using wf by (simp add: required_artifact_def request_to_json_def artifact_roundtrip)
  show ?thesis
    unfolding request_from_json_def targets steps art
    using wf by (simp add: request_to_json_def string_then_def skew_roundtrip
        codec_simps cong: fum_try_weak_cong)
qed

end
