(* ===== verification/Model_Campaign.thy ===== *)
theory Model_Campaign
  imports Model_Plan
begin

text \<open>
  The durable records (second half of \<open>model/campaign\<close>): stage progress, preflight verdicts and
  tickets, the campaign record, the attempt record and target observations, with their JSON
  forms.  A loaded campaign never carries its skew assessment, and an attempt that is rolling
  back is shown not to survive its own JSON form.
\<close>

record stage_progress =
  spg_id :: stage_id
  spg_state :: stage_state
  spg_attempts :: "attempt_id list"
  spg_started_at :: timestamp
  spg_completed_at :: timestamp
  spg_detail :: string

definition progress_to_json :: "stage_progress \<Rightarrow> json" where
  "progress_to_json s = json_build
     [(''stage_id'', JString (spg_id s)), (''state'', JString (stage_state_name (spg_state s))),
      (''attempts'', json_list JString (spg_attempts s)),
      (''started_at'', JString (to_iso8601 (spg_started_at s))),
      (''completed_at'', JString (to_iso8601 (spg_completed_at s))),
      (''detail'', JString (spg_detail s))]"

definition all_stage_states :: "stage_state list" where
  "all_stage_states =
     [SS_pending, SS_preparing, SS_prepared, SS_activating, SS_activating_partial, SS_verifying,
      SS_completed, SS_failed, SS_blocked, SS_skipped]"

definition parse_stage_state :: "string \<Rightarrow> stage_state result" where
  "parse_stage_state t =
     (case parse_by_name stage_state_name all_stage_states t of
        Some s \<Rightarrow> Inr s
      | None \<Rightarrow> fail EC_invalid_argument ''unknown stage state'' t)"

definition progress_from_json :: "json \<Rightarrow> stage_progress result" where
  "progress_from_json v =
     fum_try (string_then v ''stage_id'' parse_id) (\<lambda>sid.
     fum_try (string_then v ''state'' parse_stage_state) (\<lambda>state.
     fum_try (id_array v ''attempts'') (\<lambda>attempts.
     fum_try (json_optional timestamp_from_json v ''started_at'' 0) (\<lambda>started.
     fum_try (json_optional timestamp_from_json v ''completed_at'' 0) (\<lambda>completed.
     fum_try (json_opt_string v ''detail'' []) (\<lambda>detail.
     Inr \<lparr>spg_id = sid, spg_state = state, spg_attempts = attempts, spg_started_at = started,
          spg_completed_at = completed, spg_detail = detail\<rparr>))))))"

record preflight_target_verdict =
  ptv_target :: target_id
  ptv_compatible :: bool
  ptv_integrity_verified :: bool
  ptv_platform_supported :: bool
  ptv_strategy_supported :: bool
  ptv_capabilities_satisfied :: bool
  ptv_rollback_available :: bool
  ptv_reasons :: "string list"

definition ptv_admissible :: "preflight_target_verdict \<Rightarrow> bool" where
  "ptv_admissible v \<longleftrightarrow>
     ptv_compatible v \<and> ptv_integrity_verified v \<and> ptv_platform_supported v \<and>
     ptv_strategy_supported v \<and> ptv_capabilities_satisfied v"

definition verdict_to_json :: "preflight_target_verdict \<Rightarrow> json" where
  "verdict_to_json v = json_build
     [(''target_id'', JString (ptv_target v)), (''compatible'', JBool (ptv_compatible v)),
      (''integrity_verified'', JBool (ptv_integrity_verified v)),
      (''platform_supported'', JBool (ptv_platform_supported v)),
      (''strategy_supported'', JBool (ptv_strategy_supported v)),
      (''capabilities_satisfied'', JBool (ptv_capabilities_satisfied v)),
      (''rollback_available'', JBool (ptv_rollback_available v)),
      (''reasons'', json_list JString (ptv_reasons v))]"

definition verdict_from_json :: "json \<Rightarrow> preflight_target_verdict result" where
  "verdict_from_json v =
     fum_try (string_then v ''target_id'' parse_id) (\<lambda>tid.
     fum_try (json_opt_bool v ''compatible'' False) (\<lambda>compatible.
     fum_try (json_opt_bool v ''integrity_verified'' False) (\<lambda>integrity.
     fum_try (json_opt_bool v ''platform_supported'' False) (\<lambda>platform.
     fum_try (json_opt_bool v ''strategy_supported'' False) (\<lambda>strategy.
     fum_try (json_opt_bool v ''capabilities_satisfied'' False) (\<lambda>capabilities.
     fum_try (json_opt_bool v ''rollback_available'' False) (\<lambda>rollback.
     fum_try (string_array v ''reasons'') (\<lambda>reasons.
     Inr \<lparr>ptv_target = tid, ptv_compatible = compatible, ptv_integrity_verified = integrity,
          ptv_platform_supported = platform, ptv_strategy_supported = strategy,
          ptv_capabilities_satisfied = capabilities, ptv_rollback_available = rollback,
          ptv_reasons = reasons\<rparr>))))))))"

record preflight_ticket =
  tik_campaign :: campaign_id
  tik_generation :: u64
  tik_incarnation :: u64
  tik_epoch :: u64
  tik_issued_at :: timestamp
  tik_expires_at :: timestamp
  tik_fingerprint :: string
  tik_passed :: bool
  tik_authority :: authority_id
  tik_policy :: policy_id
  tik_policy_revision :: u64

definition no_ticket :: preflight_ticket where
  "no_ticket = \<lparr>tik_campaign = [], tik_generation = 0, tik_incarnation = 0, tik_epoch = 0,
                tik_issued_at = 0, tik_expires_at = 0, tik_fingerprint = [], tik_passed = False,
                tik_authority = [], tik_policy = [], tik_policy_revision = 0\<rparr>"

definition ticket_to_json :: "preflight_ticket \<Rightarrow> json" where
  "ticket_to_json t = json_build
     [(''campaign_id'', JString (tik_campaign t)), (''generation'', JUint (tik_generation t)),
      (''incarnation'', JUint (tik_incarnation t)), (''epoch'', JUint (tik_epoch t)),
      (''issued_at'', JString (to_iso8601 (tik_issued_at t))),
      (''expires_at'', JString (to_iso8601 (tik_expires_at t))),
      (''fingerprint'', JString (tik_fingerprint t)), (''passed'', JBool (tik_passed t)),
      (''authority'', JString (tik_authority t)), (''policy'', JString (tik_policy t)),
      (''policy_revision'', JUint (tik_policy_revision t))]"

definition ticket_from_json :: "json \<Rightarrow> preflight_ticket result" where
  "ticket_from_json v =
     fum_try (string_then v ''campaign_id'' parse_id) (\<lambda>campaign.
     fum_try (json_require_uint v ''generation'') (\<lambda>generation.
     fum_try (json_require_uint v ''incarnation'') (\<lambda>incarnation.
     fum_try (json_require_uint v ''epoch'') (\<lambda>epoch.
     fum_try (string_then v ''issued_at'' parse_iso8601) (\<lambda>issued.
     fum_try (string_then v ''expires_at'' parse_iso8601) (\<lambda>expires.
     fum_try (json_require_string v ''fingerprint'') (\<lambda>fingerprint.
     fum_try (json_require_bool v ''passed'') (\<lambda>passed.
     fum_try (string_then v ''authority'' parse_id) (\<lambda>authority.
     fum_try (string_then v ''policy'' parse_id) (\<lambda>pol.
     fum_try (json_require_uint v ''policy_revision'') (\<lambda>revision.
     Inr \<lparr>tik_campaign = campaign, tik_generation = generation, tik_incarnation = incarnation,
          tik_epoch = epoch, tik_issued_at = issued, tik_expires_at = expires,
          tik_fingerprint = fingerprint, tik_passed = passed, tik_authority = authority,
          tik_policy = pol, tik_policy_revision = revision\<rparr>)))))))))))"

record campaign_record =
  cmp_id :: campaign_id
  cmp_generation :: u64
  cmp_epoch :: u64
  cmp_authority :: authority_id
  cmp_component :: component_id
  cmp_state :: upgrade_state
  cmp_strategy :: strategy_kind
  cmp_artifact :: artifact_descriptor
  cmp_plan :: upgrade_plan
  cmp_stages :: "stage_progress list"
  cmp_active_stage :: nat
  cmp_revision :: u64
  cmp_owner_incarnation :: u64
  cmp_created_at :: timestamp
  cmp_updated_at :: timestamp
  cmp_irreversible_acknowledged :: bool
  cmp_acknowledged_steps :: "step_id list"
  cmp_block_reason :: string
  cmp_failure_reason :: string
  cmp_pause_reason :: string
  cmp_rollback_plan :: string
  cmp_rollback_artifact :: string
  cmp_rollback_eligible :: bool
  cmp_rollback_performed :: bool
  cmp_attempts_started :: u32
  cmp_decisions_recorded :: u32
  cmp_ticket :: preflight_ticket
  cmp_last_skew :: skew_assessment

definition campaign_to_json :: "campaign_record \<Rightarrow> json" where
  "campaign_to_json c = json_build
     ([(''campaign_id'', JString (cmp_id c)), (''generation'', JUint (cmp_generation c)),
       (''epoch'', JUint (cmp_epoch c)), (''authority'', JString (cmp_authority c)),
       (''component_id'', JString (cmp_component c)),
       (''state'', JString (upgrade_state_name (cmp_state c))),
       (''strategy'', JString (strategy_kind_name (cmp_strategy c)))] @
      (if art_id (cmp_artifact c) \<noteq> [] then [(''artifact'', artifact_to_json (cmp_artifact c))] else []) @
      (if pln_campaign (cmp_plan c) \<noteq> [] then [(''plan'', plan_to_json (cmp_plan c))] else []) @
      [(''stages'', json_list progress_to_json (cmp_stages c)),
       (''active_stage'', JUint (word_of_nat (cmp_active_stage c))),
       (''revision'', JUint (cmp_revision c)),
       (''owner_incarnation'', JUint (cmp_owner_incarnation c)),
       (''created_at'', JString (to_iso8601 (cmp_created_at c))),
       (''updated_at'', JString (to_iso8601 (cmp_updated_at c))),
       (''irreversible_acknowledged'', JBool (cmp_irreversible_acknowledged c)),
       (''acknowledged_steps'', json_list JString (cmp_acknowledged_steps c)),
       (''block_reason'', JString (cmp_block_reason c)),
       (''failure_reason'', JString (cmp_failure_reason c)),
       (''pause_reason'', JString (cmp_pause_reason c)),
       (''rollback_plan'', JString (cmp_rollback_plan c)),
       (''rollback_artifact'', JString (cmp_rollback_artifact c)),
       (''rollback_eligible'', JBool (cmp_rollback_eligible c)),
       (''rollback_performed'', JBool (cmp_rollback_performed c)),
       (''attempts_started'', JUint (ucast (cmp_attempts_started c))),
       (''decisions_recorded'', JUint (ucast (cmp_decisions_recorded c)))] @
      (if tik_issued_at (cmp_ticket c) \<noteq> 0 then [(''ticket'', ticket_to_json (cmp_ticket c))] else []))"

definition unassessed_skew :: skew_assessment where
  "unassessed_skew =
     \<lparr>sa_within_budget = False, sa_worst_distance = 0, sa_violations = [],
      sa_summary = ''not assessed since this record was loaded''\<rparr>"

definition u32_or_zero :: "json \<Rightarrow> string \<Rightarrow> u32 result" where
  "u32_or_zero v key =
     json_optional (\<lambda>x. fum_try (json_as_uint x) (\<lambda>n. Inr (ucast n))) v key 0"

definition campaign_from_json :: "json \<Rightarrow> campaign_record result" where
  "campaign_from_json v =
     (if \<not> json_is_object v then fail EC_invalid_argument ''campaign record must be a json object'' ''''
      else
        fum_try (string_then v ''campaign_id'' parse_id) (\<lambda>cid.
        fum_try (json_require_uint v ''generation'') (\<lambda>generation.
        fum_try (json_require_uint v ''epoch'') (\<lambda>epoch.
        fum_try (string_then v ''authority'' parse_id) (\<lambda>authority.
        fum_try (string_then v ''component_id'' parse_id) (\<lambda>component.
        fum_try (string_then v ''state'' parse_upgrade_state) (\<lambda>state.
        fum_try (string_then v ''strategy'' parse_strategy_kind) (\<lambda>strategy.
        fum_try (json_optional artifact_from_json v ''artifact'' empty_artifact) (\<lambda>artifact.
        fum_try (json_optional plan_from_json v ''plan'' empty_plan) (\<lambda>plan.
        fum_try (lenient_array progress_from_json v ''stages'') (\<lambda>stages.
        fum_try (json_optional (\<lambda>x. fum_try (json_as_uint x) (\<lambda>n. Inr (unat n))) v ''active_stage'' 0) (\<lambda>active.
        fum_try (json_require_uint v ''revision'') (\<lambda>revision.
        fum_try (json_require_uint v ''owner_incarnation'') (\<lambda>owner.
        fum_try (json_optional timestamp_from_json v ''created_at'' 0) (\<lambda>created.
        fum_try (json_optional timestamp_from_json v ''updated_at'' 0) (\<lambda>updated.
        fum_try (json_opt_bool v ''irreversible_acknowledged'' False) (\<lambda>acknowledged.
        fum_try (id_array v ''acknowledged_steps'') (\<lambda>steps.
        fum_try (json_opt_string v ''block_reason'' []) (\<lambda>block_reason.
        fum_try (json_opt_string v ''failure_reason'' []) (\<lambda>failure_reason.
        fum_try (json_opt_string v ''pause_reason'' []) (\<lambda>pause_reason.
        fum_try (json_opt_string v ''rollback_plan'' []) (\<lambda>rollback_plan.
        fum_try (json_opt_string v ''rollback_artifact'' []) (\<lambda>rollback_artifact.
        fum_try (json_opt_bool v ''rollback_eligible'' False) (\<lambda>eligible.
        fum_try (json_opt_bool v ''rollback_performed'' False) (\<lambda>performed.
        fum_try (u32_or_zero v ''attempts_started'') (\<lambda>attempts.
        fum_try (u32_or_zero v ''decisions_recorded'') (\<lambda>decisions.
        fum_try (json_optional ticket_from_json v ''ticket'' no_ticket) (\<lambda>ticket.
        Inr \<lparr>cmp_id = cid, cmp_generation = generation, cmp_epoch = epoch,
             cmp_authority = authority, cmp_component = component, cmp_state = state,
             cmp_strategy = strategy, cmp_artifact = artifact, cmp_plan = plan,
             cmp_stages = stages, cmp_active_stage = active, cmp_revision = revision,
             cmp_owner_incarnation = owner, cmp_created_at = created, cmp_updated_at = updated,
             cmp_irreversible_acknowledged = acknowledged, cmp_acknowledged_steps = steps,
             cmp_block_reason = block_reason, cmp_failure_reason = failure_reason,
             cmp_pause_reason = pause_reason, cmp_rollback_plan = rollback_plan,
             cmp_rollback_artifact = rollback_artifact, cmp_rollback_eligible = eligible,
             cmp_rollback_performed = performed, cmp_attempts_started = attempts,
             cmp_decisions_recorded = decisions, cmp_ticket = ticket,
             cmp_last_skew = unassessed_skew\<rparr>))))))))))))))))))))))))))))"

record attempt_record =
  att_id :: attempt_id
  att_campaign :: campaign_id
  att_generation :: u64
  att_stage :: stage_id
  att_target :: target_id
  att_artifact :: artifact_id
  att_build :: build_id
  att_from_version :: version
  att_to_version :: version
  att_state :: attempt_state
  att_owner :: u64
  att_authority :: authority_id
  att_revision :: u64
  att_operation_index :: u64
  att_completed_operations :: "string list"
  att_activation_observed :: bool
  att_retries :: u32
  att_last_error :: string
  att_started_at :: timestamp
  att_updated_at :: timestamp
  att_evidence_at :: timestamp
  att_evidence_validity :: duration
  att_observed_version :: version
  att_observed_build :: build_id

definition attempt_to_json :: "attempt_record \<Rightarrow> json" where
  "attempt_to_json a = json_build
     [(''attempt_id'', JString (att_id a)), (''campaign_id'', JString (att_campaign a)),
      (''generation'', JUint (att_generation a)), (''stage_id'', JString (att_stage a)),
      (''target_id'', JString (att_target a)), (''artifact_id'', JString (att_artifact a)),
      (''build_id'', JString (att_build a)),
      (''from_version'', JString (ver_text (att_from_version a))),
      (''to_version'', JString (ver_text (att_to_version a))),
      (''state'', JString (attempt_state_name (att_state a))),
      (''owner_incarnation'', JUint (att_owner a)), (''authority'', JString (att_authority a)),
      (''revision'', JUint (att_revision a)), (''operation_index'', JUint (att_operation_index a)),
      (''completed_operations'', json_list JString (att_completed_operations a)),
      (''activation_observed'', JBool (att_activation_observed a)),
      (''retries'', JUint (ucast (att_retries a))), (''last_error'', JString (att_last_error a)),
      (''started_at'', JString (to_iso8601 (att_started_at a))),
      (''updated_at'', JString (to_iso8601 (att_updated_at a))),
      (''evidence_at'', JString (to_iso8601 (att_evidence_at a))),
      (''evidence_validity_ms'', millis_json (att_evidence_validity a)),
      (''observed_version'', JString (ver_text (att_observed_version a))),
      (''observed_build'', JString (att_observed_build a))]"

text \<open>The decoding loop runs up to and including \<open>abandoned\<close>, which is not the last state.\<close>

definition parsed_attempt_states :: "attempt_state list" where
  "parsed_attempt_states =
     [AS_created, AS_preparing, AS_prepared, AS_activating, AS_activated, AS_verifying, AS_verified,
      AS_failed, AS_aborted, AS_rolled_back, AS_abandoned]"

definition parse_attempt_state :: "string \<Rightarrow> attempt_state result" where
  "parse_attempt_state t =
     (case parse_by_name attempt_state_name parsed_attempt_states t of
        Some s \<Rightarrow> Inr s
      | None \<Rightarrow> fail EC_invalid_argument ''unknown attempt state'' t)"

definition version_or_empty :: "json \<Rightarrow> version result" where
  "version_or_empty item =
     fum_try (json_as_string item) (\<lambda>t. if t \<noteq> [] then version_parse t else Inr empty_version)"

definition build_or_empty :: "json \<Rightarrow> build_id result" where
  "build_or_empty item = fum_try (json_as_string item) parse_id_or_empty"

definition attempt_from_json :: "json \<Rightarrow> attempt_record result" where
  "attempt_from_json v =
     (if \<not> json_is_object v then fail EC_invalid_argument ''attempt record must be a json object'' ''''
      else
        fum_try (string_then v ''attempt_id'' parse_id) (\<lambda>aid.
        fum_try (string_then v ''campaign_id'' parse_id) (\<lambda>campaign.
        fum_try (json_require_uint v ''generation'') (\<lambda>generation.
        fum_try (string_then v ''stage_id'' parse_id) (\<lambda>stage.
        fum_try (string_then v ''target_id'' parse_id) (\<lambda>target.
        fum_try (string_then v ''artifact_id'' parse_id) (\<lambda>artifact.
        fum_try (string_then v ''build_id'' parse_id) (\<lambda>build.
        fum_try (string_then v ''from_version'' version_parse) (\<lambda>from_version.
        fum_try (string_then v ''to_version'' version_parse) (\<lambda>to_version.
        fum_try (string_then v ''state'' parse_attempt_state) (\<lambda>state.
        fum_try (json_require_uint v ''owner_incarnation'') (\<lambda>owner.
        fum_try (string_then v ''authority'' parse_id) (\<lambda>authority.
        fum_try (json_require_uint v ''revision'') (\<lambda>revision.
        fum_try (json_require_uint v ''operation_index'') (\<lambda>operation_index.
        fum_try (string_array v ''completed_operations'') (\<lambda>operations.
        fum_try (json_opt_bool v ''activation_observed'' False) (\<lambda>observed.
        fum_try (u32_or_zero v ''retries'') (\<lambda>retries.
        fum_try (json_opt_string v ''last_error'' []) (\<lambda>last_error.
        fum_try (json_optional timestamp_from_json v ''started_at'' 0) (\<lambda>started.
        fum_try (json_optional timestamp_from_json v ''updated_at'' 0) (\<lambda>updated.
        fum_try (json_optional timestamp_or_empty v ''evidence_at'' 0) (\<lambda>evidence.
        fum_try (json_optional (\<lambda>x. fum_try (json_as_int x) (\<lambda>millis.
            Inr (if millis > 0 then from_millis millis else 0))) v ''evidence_validity_ms'' 0) (\<lambda>validity.
        fum_try (json_optional version_or_empty v ''observed_version'' empty_version) (\<lambda>observed_version.
        fum_try (json_optional build_or_empty v ''observed_build'' []) (\<lambda>observed_build.
        Inr \<lparr>att_id = aid, att_campaign = campaign, att_generation = generation,
             att_stage = stage, att_target = target, att_artifact = artifact, att_build = build,
             att_from_version = from_version, att_to_version = to_version, att_state = state,
             att_owner = owner, att_authority = authority, att_revision = revision,
             att_operation_index = operation_index, att_completed_operations = operations,
             att_activation_observed = observed, att_retries = retries,
             att_last_error = last_error, att_started_at = started, att_updated_at = updated,
             att_evidence_at = evidence, att_evidence_validity = validity,
             att_observed_version = observed_version,
             att_observed_build = observed_build\<rparr>)))))))))))))))))))))))))"

record target_observation =
  obs_target :: target_id
  obs_version :: version
  obs_build :: build_id
  obs_healthy :: bool
  obs_health_known :: bool
  obs_health_detail :: string
  obs_observed_at :: timestamp
  obs_incarnation :: u64
  obs_source :: string

definition observation_to_json :: "target_observation \<Rightarrow> json" where
  "observation_to_json t = json_build
     [(''target_id'', JString (obs_target t)), (''version'', JString (ver_text (obs_version t))),
      (''build_id'', JString (obs_build t)), (''healthy'', JBool (obs_healthy t)),
      (''health_known'', JBool (obs_health_known t)),
      (''health_detail'', JString (obs_health_detail t)),
      (''observed_at'', JString (to_iso8601 (obs_observed_at t))),
      (''incarnation'', JUint (obs_incarnation t)), (''source'', JString (obs_source t))]"

definition observation_from_json :: "json \<Rightarrow> target_observation result" where
  "observation_from_json v =
     fum_try (string_then v ''target_id'' parse_id) (\<lambda>tid.
     fum_try (string_then v ''version'' version_parse) (\<lambda>version.
     fum_try (string_then v ''build_id'' parse_id_or_empty) (\<lambda>build.
     fum_try (json_require_bool v ''healthy'') (\<lambda>healthy.
     fum_try (json_opt_bool v ''health_known'' True) (\<lambda>known.
     fum_try (json_opt_string v ''health_detail'' []) (\<lambda>detail.
     fum_try (string_then v ''observed_at'' parse_iso8601) (\<lambda>observed.
     fum_try (json_require_uint v ''incarnation'') (\<lambda>incarnation.
     fum_try (json_opt_string v ''source'' []) (\<lambda>src.
     Inr \<lparr>obs_target = tid, obs_version = version, obs_build = build, obs_healthy = healthy,
          obs_health_known = known, obs_health_detail = detail, obs_observed_at = observed,
          obs_incarnation = incarnation, obs_source = src\<rparr>)))))))))"

subsection \<open>Round trips\<close>

lemma parse_stage_state_name [simp, codec_simps]: "parse_stage_state (stage_state_name s) = Inr s"
proof -
  have "s \<in> set all_stage_states" by (cases s) (simp_all add: all_stage_states_def)
  then show ?thesis
    using parse_by_name_inj [of stage_state_name s all_stage_states]
    by (simp add: parse_stage_state_def stage_state_name_inject)
qed

lemma parse_attempt_state_name [simp, codec_simps]:
  "s \<noteq> AS_rolling_back \<Longrightarrow> parse_attempt_state (attempt_state_name s) = Inr s"
proof -
  assume "s \<noteq> AS_rolling_back"
  then have "s \<in> set parsed_attempt_states" by (cases s) (simp_all add: parsed_attempt_states_def)
  then show ?thesis
    using parse_by_name_inj [of attempt_state_name s parsed_attempt_states]
    by (simp add: parse_attempt_state_def attempt_state_name_inject)
qed

definition progress_wf :: "stage_progress \<Rightarrow> bool" where
  "progress_wf s \<longleftrightarrow>
     valid_id (spg_id s) \<and> list_all valid_id (spg_attempts s) \<and> ts_ok (spg_started_at s) \<and>
     ts_ok (spg_completed_at s)"

lemma progress_roundtrip:
  assumes "progress_wf s"
  shows "progress_from_json (progress_to_json s) = Inr s"
proof -
  note wf = assms [unfolded progress_wf_def]
  have a: "id_array (progress_to_json s) ''attempts'' = Inr (spg_attempts s)"
    using wf by (intro id_array_Some) (simp_all add: progress_to_json_def)
  show ?thesis
    unfolding progress_from_json_def a
    using wf by (simp add: progress_to_json_def string_then_def timestamp_from_json_def codec_simps)
qed

lemma verdict_roundtrip:
  "valid_id (ptv_target v) \<Longrightarrow> verdict_from_json (verdict_to_json v) = Inr v"
  by (simp add: verdict_from_json_def verdict_to_json_def string_then_def codec_simps)

definition ticket_wf :: "preflight_ticket \<Rightarrow> bool" where
  "ticket_wf t \<longleftrightarrow>
     valid_id (tik_campaign t) \<and> ts_ok (tik_issued_at t) \<and> ts_ok (tik_expires_at t) \<and>
     valid_id (tik_authority t) \<and> valid_id (tik_policy t)"

lemma ticket_roundtrip: "ticket_wf t \<Longrightarrow> ticket_from_json (ticket_to_json t) = Inr t"
  by (simp add: ticket_from_json_def ticket_to_json_def ticket_wf_def string_then_def codec_simps
      cong: fum_try_weak_cong)

definition observation_wf :: "target_observation \<Rightarrow> bool" where
  "observation_wf t \<longleftrightarrow>
     valid_id (obs_target t) \<and> version_wf (obs_version t) \<and>
     (obs_build t = [] \<or> valid_id (obs_build t)) \<and> ts_ok (obs_observed_at t)"

lemma parse_id_or_empty_wf [simp]:
  "t = [] \<or> valid_id t \<Longrightarrow> parse_id_or_empty t = Inr t"
  by auto

lemma observation_roundtrip:
  "observation_wf t \<Longrightarrow> observation_from_json (observation_to_json t) = Inr t"
  by (simp add: observation_from_json_def observation_to_json_def observation_wf_def string_then_def
      codec_simps cong: fum_try_weak_cong)

definition attempt_wf :: "attempt_record \<Rightarrow> bool" where
  "attempt_wf a \<longleftrightarrow>
     valid_id (att_id a) \<and> valid_id (att_campaign a) \<and> valid_id (att_stage a) \<and>
     valid_id (att_target a) \<and> valid_id (att_artifact a) \<and> valid_id (att_build a) \<and>
     version_wf (att_from_version a) \<and> version_wf (att_to_version a) \<and> valid_id (att_authority a) \<and>
     ts_ok (att_started_at a) \<and> ts_ok (att_updated_at a) \<and> ts_ok (att_evidence_at a) \<and>
     0 \<le> att_evidence_validity a \<and> 1000000 dvd att_evidence_validity a \<and>
     (att_observed_version a = empty_version \<or> version_wf (att_observed_version a)) \<and>
     (att_observed_build a = [] \<or> valid_id (att_observed_build a))"

lemma millis_roundtrip:
  assumes "0 \<le> w" "1000000 dvd w"
  shows "(if c_div w 1000000 > 0 then from_millis (c_div w 1000000) else 0) = w"
proof -
  obtain k where "w = 1000000 * k" using assms(2) by (rule dvdE)
  with assms(1) show ?thesis by (simp add: c_div_def from_millis_def)
qed

lemma version_or_empty_wf [simp]:
  "v = empty_version \<or> version_wf v \<Longrightarrow> version_or_empty (JString (ver_text v)) = Inr v"
  using version_text_hd by (auto simp: version_or_empty_def empty_version_def)

lemma attempt_fields:
  assumes "attempt_wf a"
  shows "attempt_from_json (attempt_to_json a) =
    fum_try (parse_attempt_state (attempt_state_name (att_state a))) (\<lambda>s. Inr (a\<lparr>att_state := s\<rparr>))"
proof -
  note wf = assms [unfolded attempt_wf_def]
  have ops: "string_array (attempt_to_json a) ''completed_operations'' = Inr (att_completed_operations a)"
    by (rule string_array_Some) (simp add: attempt_to_json_def)
  show ?thesis
  proof (cases "parse_attempt_state (attempt_state_name (att_state a))")
    case (Inl e)
    then show ?thesis
      unfolding attempt_from_json_def
      using wf by (simp add: attempt_to_json_def string_then_def codec_simps cong: fum_try_weak_cong)
  next
    case (Inr s)
    then show ?thesis
      unfolding attempt_from_json_def ops
      using wf millis_roundtrip by (simp add: attempt_to_json_def string_then_def timestamp_from_json_def
          u32_or_zero_def millis_json_def build_or_empty_def codec_simps cong: fum_try_weak_cong)
  qed
qed

lemma attempt_roundtrip:
  assumes "attempt_wf a" "att_state a \<noteq> AS_rolling_back"
  shows "attempt_from_json (attempt_to_json a) = Inr a"
  using assms(2) by (simp add: attempt_fields [OF assms(1)])

lemma attempt_rolling_back:
  assumes "attempt_wf a" "att_state a = AS_rolling_back"
  shows "attempt_from_json (attempt_to_json a) =
    fail EC_invalid_argument ''unknown attempt state'' ''rolling-back''"
  by (simp add: attempt_fields [OF assms(1)] assms(2) parse_attempt_state_def parsed_attempt_states_def)

text \<open>
  C17: a well-formed attempt survives its JSON form exactly when it is not rolling back: the
  decoder does not know the state name it writes for \<open>rolling_back\<close> and refuses the record.
\<close>

theorem attempt_codec:
  assumes "attempt_wf a"
  shows "attempt_from_json (attempt_to_json a) =
    (if att_state a = AS_rolling_back
     then fail EC_invalid_argument ''unknown attempt state'' ''rolling-back''
     else Inr a)"
  using attempt_roundtrip [OF assms] attempt_rolling_back [OF assms] by simp

definition sample_attempt :: attempt_record where
  "sample_attempt =
     \<lparr>att_id = ''a1'', att_campaign = ''c'', att_generation = 1, att_stage = ''s'', att_target = ''t'',
      att_artifact = ''x'', att_build = ''b'', att_from_version = make_version 1 0 0 [],
      att_to_version = make_version 1 1 0 [], att_state = AS_rolling_back, att_owner = 1,
      att_authority = ''ops'', att_revision = 3, att_operation_index = 2,
      att_completed_operations = [''prepare''], att_activation_observed = True, att_retries = 0,
      att_last_error = [], att_started_at = 0, att_updated_at = 0, att_evidence_at = 0,
      att_evidence_validity = 0, att_observed_version = empty_version, att_observed_build = []\<rparr>"

lemma attempt_codec_witness:
  "attempt_from_json (attempt_to_json sample_attempt) =
     fail EC_invalid_argument ''unknown attempt state'' ''rolling-back'' \<and>
   attempt_from_json (attempt_to_json (sample_attempt\<lparr>att_state := AS_activating\<rparr>)) =
     Inr (sample_attempt\<lparr>att_state := AS_activating\<rparr>)"
proof -
  have "attempt_wf sample_attempt" "attempt_wf (sample_attempt\<lparr>att_state := AS_activating\<rparr>)"
    by code_simp+
  then show ?thesis
    using attempt_codec [of sample_attempt] attempt_codec [of "sample_attempt\<lparr>att_state := AS_activating\<rparr>"]
    by (simp add: sample_attempt_def)
qed

definition campaign_wf :: "campaign_record \<Rightarrow> bool" where
  "campaign_wf c \<longleftrightarrow>
     valid_id (cmp_id c) \<and> valid_id (cmp_authority c) \<and> valid_id (cmp_component c) \<and>
     (cmp_artifact c = empty_artifact \<or> artifact_wf (cmp_artifact c)) \<and>
     (cmp_plan c = empty_plan \<or> plan_wf (cmp_plan c)) \<and>
     list_all progress_wf (cmp_stages c) \<and> cmp_active_stage c < 2 ^ 64 \<and>
     ts_ok (cmp_created_at c) \<and> ts_ok (cmp_updated_at c) \<and>
     list_all valid_id (cmp_acknowledged_steps c) \<and>
     (cmp_ticket c = no_ticket \<or> ticket_wf (cmp_ticket c) \<and> tik_issued_at (cmp_ticket c) \<noteq> 0)"

lemma map_of_optional_member [simp]:
  "map_of (if c then [(n, v)] else []) k = (if c \<and> k = n then Some v else None)"
  "rev (if c then [x] else []) = (if c then [x] else [])"
  by simp_all

lemma campaign_artifact_field:
  "campaign_wf c \<Longrightarrow>
   json_optional artifact_from_json (campaign_to_json c) ''artifact'' empty_artifact = Inr (cmp_artifact c)"
  by (auto simp: campaign_to_json_def campaign_wf_def json_optional_def artifact_roundtrip
      artifact_wf_def map_add_def empty_artifact_def)

lemma campaign_plan_field:
  "campaign_wf c \<Longrightarrow>
   json_optional plan_from_json (campaign_to_json c) ''plan'' empty_plan = Inr (cmp_plan c)"
  by (auto simp: campaign_to_json_def campaign_wf_def json_optional_def plan_roundtrip
      plan_wf_def map_add_def empty_plan_def)

lemma campaign_ticket_field:
  "campaign_wf c \<Longrightarrow>
   json_optional ticket_from_json (campaign_to_json c) ''ticket'' no_ticket = Inr (cmp_ticket c)"
  by (auto simp: campaign_to_json_def campaign_wf_def json_optional_def ticket_roundtrip
      map_add_def no_ticket_def)

lemma campaign_roundtrip:
  assumes "campaign_wf c"
  shows "campaign_from_json (campaign_to_json c) = Inr (c\<lparr>cmp_last_skew := unassessed_skew\<rparr>)"
proof -
  note wf = assms [unfolded campaign_wf_def]
  have stages: "lenient_array progress_from_json (campaign_to_json c) ''stages'' = Inr (cmp_stages c)"
    by (rule lenient_array_map [where enc = progress_to_json])
      (use wf in \<open>simp_all add: campaign_to_json_def progress_roundtrip list_all_iff map_add_def\<close>)
  have steps: "id_array (campaign_to_json c) ''acknowledged_steps'' = Inr (cmp_acknowledged_steps c)"
    using wf by (intro id_array_Some) (simp_all add: campaign_to_json_def map_add_def)
  have active: "unat (word_of_nat (cmp_active_stage c) :: u64) = cmp_active_stage c"
    using wf by (simp add: unat_of_nat take_bit_nat_eq_self)
  show ?thesis
    unfolding campaign_from_json_def campaign_artifact_field [OF assms] campaign_plan_field [OF assms]
      campaign_ticket_field [OF assms] stages steps
    using wf active by (simp add: campaign_to_json_def string_then_def timestamp_from_json_def map_add_def
        u32_or_zero_def codec_simps cong: fum_try_weak_cong)
qed

text \<open>
  A well-formed campaign record survives its JSON form field by field, plan, stages, ticket and
  artifact included, except for its skew assessment, which always loads as not assessed and
  out of budget.
\<close>

theorem campaign_codec:
  "campaign_wf c \<Longrightarrow>
   campaign_from_json (campaign_to_json c) = Inr (c\<lparr>cmp_last_skew := unassessed_skew\<rparr>)"
  by (rule campaign_roundtrip)

definition sample_campaign :: campaign_record where
  "sample_campaign =
     \<lparr>cmp_id = ''c'', cmp_generation = 1, cmp_epoch = 2, cmp_authority = ''ops'', cmp_component = ''k'',
      cmp_state = US_rolling_back, cmp_strategy = SK_restart_based, cmp_artifact = empty_artifact,
      cmp_plan = empty_plan,
      cmp_stages = [\<lparr>spg_id = ''s'', spg_state = SS_verifying, spg_attempts = [''a1'', ''a2''],
        spg_started_at = 0, spg_completed_at = 0, spg_detail = ''two attempts''\<rparr>],
      cmp_active_stage = 0, cmp_revision = 7, cmp_owner_incarnation = 3, cmp_created_at = 0,
      cmp_updated_at = 0, cmp_irreversible_acknowledged = True, cmp_acknowledged_steps = [''step-1''],
      cmp_block_reason = [], cmp_failure_reason = ''health'', cmp_pause_reason = [],
      cmp_rollback_plan = ''plan'', cmp_rollback_artifact = [], cmp_rollback_eligible = True,
      cmp_rollback_performed = False, cmp_attempts_started = 2, cmp_decisions_recorded = 5,
      cmp_ticket = \<lparr>tik_campaign = ''c'', tik_generation = 1, tik_incarnation = 3, tik_epoch = 2,
        tik_issued_at = 1000, tik_expires_at = 2000, tik_fingerprint = ''f'', tik_passed = True,
        tik_authority = ''ops'', tik_policy = ''p'', tik_policy_revision = 1\<rparr>,
      cmp_last_skew = \<lparr>sa_within_budget = True, sa_worst_distance = 0, sa_violations = [],
        sa_summary = ''within''\<rparr>\<rparr>"

lemma campaign_codec_witness:
  "campaign_from_json (campaign_to_json sample_campaign) =
     Inr (sample_campaign\<lparr>cmp_last_skew := unassessed_skew\<rparr>)"
proof (rule campaign_codec)
  have "ts_ok 1000" "ts_ok 2000" by code_simp+
  then show "campaign_wf sample_campaign"
    by (simp add: campaign_wf_def sample_campaign_def progress_wf_def ticket_wf_def valid_id_def
        identifier_char_def max_identifier_length_def)
qed

end
