(* ===== verification/Ports.thy ===== *)
theory Ports
  imports Model_Campaign
begin

text \<open>
  The interfaces to the other fabric systems and to the target adapters (\<open>ports/ports\<close>): the requests
  and answers that cross them with their JSON forms, the idempotency key of an adapter call, and the
  adapter registry.  What stands behind a port is not under \<open>src\<close>: the operations that call
  one take its answer as an argument.
\<close>

subsection \<open>Compatibility registry\<close>

record compatibility_query =
  cq_component :: component_id
  cq_from_version :: version
  cq_to_version :: version
  cq_to_build :: build_id
  cq_platform :: string
  cq_capabilities :: "string list"
  cq_strategy :: strategy_kind
  cq_incarnation :: u64
  cq_at :: timestamp

record compatibility_verdict =
  cv_answered :: bool
  cv_compatible :: bool
  cv_registry_revision :: string
  cv_registry_policy :: string
  cv_constraints :: "string list"
  cv_blockers :: "string list"
  cv_rollback_supported :: bool
  cv_rollback_boundary :: string
  cv_rollback_artifact_known :: bool
  cv_validity :: duration
  cv_detail :: string

definition no_verdict :: compatibility_verdict where
  "no_verdict =
     \<lparr>cv_answered = False, cv_compatible = False, cv_registry_revision = [], cv_registry_policy = [],
      cv_constraints = [], cv_blockers = [], cv_rollback_supported = False,
      cv_rollback_boundary = [], cv_rollback_artifact_known = False,
      cv_validity = from_seconds 300, cv_detail = []\<rparr>"

definition compatibility_to_json :: "compatibility_verdict \<Rightarrow> json" where
  "compatibility_to_json v = json_build
     [(''answered'', JBool (cv_answered v)), (''compatible'', JBool (cv_compatible v)),
      (''registry_revision'', JString (cv_registry_revision v)),
      (''registry_policy'', JString (cv_registry_policy v)),
      (''evaluated_constraints'', json_list JString (cv_constraints v)),
      (''blockers'', json_list JString (cv_blockers v)),
      (''rollback_supported'', JBool (cv_rollback_supported v)),
      (''rollback_boundary'', JString (cv_rollback_boundary v)),
      (''rollback_artifact_known'', JBool (cv_rollback_artifact_known v)),
      (''validity_nanos'', JInt (cv_validity v)), (''detail'', JString (cv_detail v))]"

subsection \<open>Rollout, drain, configuration and artifact source\<close>

record rollout_request =
  rr_campaign :: campaign_id
  rr_authority :: authority_id
  rr_component :: component_id
  rr_description :: string
  rr_target_count :: nat
  rr_incarnation :: u64
  rr_at :: timestamp

record rollout_admission =
  ra_admitted :: bool
  ra_change_id :: string
  ra_window :: string
  ra_constraints :: "string list"
  ra_detail :: string

definition admission_to_json :: "rollout_admission \<Rightarrow> json" where
  "admission_to_json a = json_build
     [(''admitted'', JBool (ra_admitted a)), (''change_id'', JString (ra_change_id a)),
      (''window'', JString (ra_window a)), (''constraints'', json_list JString (ra_constraints a)),
      (''detail'', JString (ra_detail a))]"

record drain_request =
  dr_target :: target_id
  dr_component :: component_id
  dr_reason :: string
  dr_correlation :: string
  dr_at :: timestamp

record drain_ticket =
  dt_ticket :: string
  dt_target :: target_id
  dt_acquired_at :: timestamp
  dt_expires_at :: timestamp
  dt_validity :: duration
  dt_valid :: bool
  dt_detail :: string

definition drain_to_json :: "drain_ticket \<Rightarrow> json" where
  "drain_to_json t = json_build
     [(''ticket'', JString (dt_ticket t)), (''target_id'', JString (dt_target t)),
      (''acquired_at'', JString (to_iso8601 (dt_acquired_at t))),
      (''expires_at'', JString (to_iso8601 (dt_expires_at t))),
      (''validity_nanos'', JInt (dt_validity t)), (''valid'', JBool (dt_valid t)),
      (''detail'', JString (dt_detail t))]"

record configuration_delivery =
  cd_target :: target_id
  cd_component :: component_id
  cd_version :: version
  cd_build :: build_id
  cd_revision :: string
  cd_at :: timestamp

record artifact_payload =
  apl_path :: string
  apl_bytes :: u64
  apl_present :: bool
  apl_detail :: string

definition no_payload :: artifact_payload where
  "no_payload = \<lparr>apl_path = [], apl_bytes = 0, apl_present = False, apl_detail = []\<rparr>"

subsection \<open>Health\<close>

record health_report =
  hr_healthy :: bool
  hr_checks :: "string list"
  hr_detail :: string
  hr_observed_at :: timestamp
  hr_validity :: duration
  hr_incarnation :: u64

definition no_health :: health_report where
  "no_health = \<lparr>hr_healthy = False, hr_checks = [], hr_detail = [], hr_observed_at = 0,
                hr_validity = from_seconds 30, hr_incarnation = 0\<rparr>"

definition health_to_json :: "health_report \<Rightarrow> json" where
  "health_to_json h = json_build
     [(''healthy'', JBool (hr_healthy h)), (''checks'', json_list JString (hr_checks h)),
      (''detail'', JString (hr_detail h)), (''observed_at'', JString (to_iso8601 (hr_observed_at h))),
      (''validity_nanos'', JInt (hr_validity h)), (''incarnation'', JUint (hr_incarnation h))]"

subsection \<open>Target adapters\<close>

record operation_key =
  opk_campaign :: campaign_id
  opk_generation :: u64
  opk_stage :: stage_id
  opk_target :: target_id
  opk_operation :: string
  opk_index :: u64

definition operation_key_to_string :: "operation_key \<Rightarrow> string" where
  "operation_key_to_string k =
     opk_campaign k @ ''/'' @ u64_to_string (opk_generation k) @ ''/'' @ opk_stage k @ ''/'' @
     opk_target k @ ''/'' @ opk_operation k @ ''#'' @ u64_to_string (opk_index k)"

record target_operation =
  top_fence :: fence_token
  top_key :: operation_key
  top_target :: target_descriptor
  top_artifact :: artifact_descriptor
  top_payload_path :: string
  top_strategy :: strategy_kind
  top_now :: timestamp
  top_epoch :: u64
  top_retry :: bool

definition operation_to_json :: "target_operation \<Rightarrow> json" where
  "operation_to_json t = json_build
     [(''fence'', JString (fence_to_string (top_fence t))),
      (''operation_key'', JString (operation_key_to_string (top_key t))),
      (''target_id'', JString (tgt_id (top_target t))),
      (''artifact_id'', JString (art_id (top_artifact t))),
      (''artifact_digest'', JString (art_digest (top_artifact t))),
      (''payload_path'', JString (top_payload_path t)),
      (''strategy'', JString (strategy_kind_name (top_strategy t))),
      (''now'', JString (to_iso8601 (top_now t))), (''epoch'', JUint (top_epoch t)),
      (''retry'', JBool (top_retry t))]"

record prepare_outcome =
  po_prepared :: bool
  po_already_prepared :: bool
  po_detail :: string
  po_steps :: "string list"

definition prepare_to_json :: "prepare_outcome \<Rightarrow> json" where
  "prepare_to_json p = json_build
     [(''prepared'', JBool (po_prepared p)), (''already_prepared'', JBool (po_already_prepared p)),
      (''detail'', JString (po_detail p)), (''steps'', json_list JString (po_steps p))]"

record activate_outcome =
  ao_activated :: bool
  ao_already_active :: bool
  ao_restart_performed :: bool
  ao_observed_version :: version
  ao_observed_build :: build_id
  ao_detail :: string

definition activate_to_json :: "activate_outcome \<Rightarrow> json" where
  "activate_to_json a = json_build
     [(''activated'', JBool (ao_activated a)), (''already_active'', JBool (ao_already_active a)),
      (''restart_performed'', JBool (ao_restart_performed a)),
      (''observed_version'', JString (ver_text (ao_observed_version a))),
      (''observed_build'', JString (ao_observed_build a)), (''detail'', JString (ao_detail a))]"

record verify_outcome =
  vo_verified :: bool
  vo_healthy :: bool
  vo_observed_version :: version
  vo_observed_build :: build_id
  vo_checks :: "string list"
  vo_detail :: string
  vo_observed_at :: timestamp
  vo_validity :: duration
  vo_incarnation :: u64

definition verify_to_json :: "verify_outcome \<Rightarrow> json" where
  "verify_to_json v = json_build
     [(''verified'', JBool (vo_verified v)), (''healthy'', JBool (vo_healthy v)),
      (''observed_version'', JString (ver_text (vo_observed_version v))),
      (''observed_build'', JString (vo_observed_build v)),
      (''checks'', json_list JString (vo_checks v)), (''detail'', JString (vo_detail v)),
      (''observed_at'', JString (to_iso8601 (vo_observed_at v))),
      (''validity_nanos'', JInt (vo_validity v)), (''incarnation'', JUint (vo_incarnation v))]"

record rollback_outcome =
  ro_rolled_back :: bool
  ro_already_rolled_back :: bool
  ro_observed_version :: version
  ro_observed_build :: build_id
  ro_detail :: string

definition rollback_outcome_to_json :: "rollback_outcome \<Rightarrow> json" where
  "rollback_outcome_to_json r = json_build
     [(''rolled_back'', JBool (ro_rolled_back r)),
      (''already_rolled_back'', JBool (ro_already_rolled_back r)),
      (''observed_version'', JString (ver_text (ro_observed_version r))),
      (''observed_build'', JString (ro_observed_build r)), (''detail'', JString (ro_detail r))]"

definition no_prepare :: prepare_outcome where
  "no_prepare = \<lparr>po_prepared = False, po_already_prepared = False, po_detail = [], po_steps = []\<rparr>"

definition no_activate :: activate_outcome where
  "no_activate = \<lparr>ao_activated = False, ao_already_active = False, ao_restart_performed = False,
                  ao_observed_version = empty_version, ao_observed_build = [], ao_detail = []\<rparr>"

definition no_verify :: verify_outcome where
  "no_verify = \<lparr>vo_verified = False, vo_healthy = False, vo_observed_version = empty_version,
                vo_observed_build = [], vo_checks = [], vo_detail = [], vo_observed_at = 0,
                vo_validity = from_seconds 60, vo_incarnation = 0\<rparr>"

definition no_rollback_outcome :: rollback_outcome where
  "no_rollback_outcome = \<lparr>ro_rolled_back = False, ro_already_rolled_back = False,
                ro_observed_version = empty_version, ro_observed_build = [], ro_detail = []\<rparr>"

subsection \<open>The adapter registry\<close>

text \<open>
  The registry is a vector of shared adapters kept in the order of their identities; an adapter
  is the pair of its identity and its behaviour \<open>'a\<close>.  Replacing keeps the position, adding sorts.
\<close>

type_synonym 'a adapter_registry = "(adapter_id \<times> 'a) list"

fun registry_replace :: "'a adapter_registry \<Rightarrow> adapter_id \<Rightarrow> 'a \<Rightarrow> 'a adapter_registry option" where
  "registry_replace [] i a = None"
| "registry_replace (x # xs) i a =
     (if fst x = i then Some ((i, a) # xs) else map_option (Cons x) (registry_replace xs i a))"

definition registry_add :: "(adapter_id \<times> 'a) option \<Rightarrow> 'a adapter_registry \<Rightarrow> 'a adapter_registry" where
  "registry_add entry reg =
     (case entry of
        None \<Rightarrow> reg
      | Some (i, a) \<Rightarrow>
          (case registry_replace reg i a of
             Some reg' \<Rightarrow> reg'
           | None \<Rightarrow> sort_key fst (reg @ [(i, a)])))"

definition registry_find :: "'a adapter_registry \<Rightarrow> adapter_id \<Rightarrow> 'a option" where
  "registry_find reg i = map_option snd (List.find (\<lambda>x. fst x = i) reg)"

definition registry_all :: "'a adapter_registry \<Rightarrow> 'a list" where
  "registry_all reg = map snd reg"

definition registry_size :: "'a adapter_registry \<Rightarrow> nat" where
  "registry_size reg = length reg"

definition registry_wf :: "'a adapter_registry \<Rightarrow> bool" where
  "registry_wf reg \<longleftrightarrow> sorted (map fst reg) \<and> distinct (map fst reg)"

lemma find_map_of: "map_option snd (List.find (\<lambda>x. fst x = i) reg) = map_of reg i"
  by (induction reg) auto

lemma registry_find_map_of: "registry_find reg i = map_of reg i"
  by (simp add: registry_find_def find_map_of)

lemma registry_replace_None: "registry_replace reg i a = None \<longleftrightarrow> i \<notin> fst ` set reg"
  by (induction reg) auto

lemma registry_replace_Some:
  "registry_replace reg i a = Some reg' \<Longrightarrow>
   map fst reg' = map fst reg \<and> map_of reg' = (map_of reg)(i \<mapsto> a)"
  by (induction reg arbitrary: reg') (auto split: if_splits)

lemma registry_add_wf: "registry_wf reg \<Longrightarrow> registry_wf (registry_add entry reg)"
proof (cases entry)
  case (Some p)
  assume wf: "registry_wf reg"
  obtain i a where p: "p = (i, a)" by force
  show ?thesis
  proof (cases "registry_replace reg i a")
    case None
    then have "i \<notin> fst ` set reg" by (simp add: registry_replace_None)
    moreover have "distinct (map fst (sort_key fst xs)) \<longleftrightarrow> distinct (map fst xs)"
      for xs :: "'a adapter_registry"
      by (simp add: distinct_map)
    ultimately show ?thesis
      using wf Some p None by (simp add: registry_add_def registry_wf_def)
  next
    case Some': (Some reg')
    with wf Some p registry_replace_Some [OF Some'] show ?thesis
      by (simp add: registry_add_def registry_wf_def)
  qed
qed (simp add: registry_add_def)

lemma registry_find_add:
  assumes "registry_wf reg"
  shows "registry_find (registry_add (Some (i, a)) reg) j =
    (if j = i then Some a else registry_find reg j)"
proof (cases "registry_replace reg i a")
  case None
  then have new: "i \<notin> fst ` set reg" by (simp add: registry_replace_None)
  then have "distinct (map fst (reg @ [(i, a)]))" using assms by (simp add: registry_wf_def)
  then have "map_of (sort_key fst (reg @ [(i, a)])) = map_of (reg @ [(i, a)])" by (rule map_of_sort_key)
  moreover have "map_of (reg @ [(i, a)]) j = (if j = i then Some a else map_of reg j)"
  proof -
    have "map_of reg i = None" using new by (simp add: map_of_eq_None_iff)
    then show ?thesis by (simp add: map_add_def split: option.split)
  qed
  ultimately show ?thesis
    using None by (simp add: registry_find_map_of registry_add_def)
next
  case (Some reg')
  with registry_replace_Some [OF Some] show ?thesis
    by (simp add: registry_find_map_of registry_add_def)
qed

subsection \<open>Idempotency keys\<close>

lemma append_delim_eq:
  assumes "c \<notin> set xs" "c \<notin> set ys" "xs @ c # us = ys @ c # vs"
  shows "xs = ys \<and> us = vs"
  using assms
proof (induction xs arbitrary: ys)
  case Nil
  then show ?case by (cases ys) auto
next
  case (Cons x xs)
  then show ?case by (cases ys) auto
qed

lemma append_delim_eq_last:
  assumes "c \<notin> set us" "c \<notin> set vs" "xs @ c # us = ys @ c # vs"
  shows "xs = ys \<and> us = vs"
  using assms
proof -
  have "rev us @ c # rev xs = rev vs @ c # rev ys"
    using assms(3) by (metis append.assoc append_Cons append_Nil rev.simps(2) rev_append)
  with assms(1,2) have "rev us = rev vs \<and> rev xs = rev ys"
    using append_delim_eq [of c "rev us" "rev vs" "rev xs" "rev ys"] by simp
  then show ?thesis by simp
qed

lemma slash_hash_not_digit [simp]:
  "CHR ''/'' \<notin> set (u64_to_string w)" "CHR ''#'' \<notin> set (u64_to_string w)"
  by (simp_all add: u64_to_string_def not_digit_notin_dec_digits is_digit_iff)

lemma u64_to_string_inject [simp]: "u64_to_string a = u64_to_string b \<longleftrightarrow> a = b"
  by (simp add: u64_to_string_def word_unat_eq_iff)

lemma operation_key_inject:
  assumes "opk_campaign k = opk_campaign l" "opk_stage k = opk_stage l"
    and "CHR ''/'' \<notin> set (opk_operation k)" "CHR ''/'' \<notin> set (opk_operation l)"
    and "operation_key_to_string k = operation_key_to_string l"
  shows "k = l"
proof -
  have e1: "u64_to_string (opk_generation k) @ CHR ''/'' # (opk_stage k @ ''/'' @ opk_target k @ ''/'' @
      opk_operation k @ ''#'' @ u64_to_string (opk_index k)) =
    u64_to_string (opk_generation l) @ CHR ''/'' # (opk_stage l @ ''/'' @ opk_target l @ ''/'' @
      opk_operation l @ ''#'' @ u64_to_string (opk_index l))"
    using assms(1,5) by (simp add: operation_key_to_string_def)
  have g: "opk_generation k = opk_generation l"
    using append_delim_eq [OF _ _ e1] by simp
  have e2: "(opk_target k @ CHR ''/'' # opk_operation k) @ CHR ''#'' # u64_to_string (opk_index k) =
      (opk_target l @ CHR ''/'' # opk_operation l) @ CHR ''#'' # u64_to_string (opk_index l)"
    using append_delim_eq [OF _ _ e1] assms(2) by simp
  then have e3: "opk_target k @ CHR ''/'' # opk_operation k = opk_target l @ CHR ''/'' # opk_operation l"
    and i: "opk_index k = opk_index l"
    using append_delim_eq_last [OF _ _ e2] by simp_all
  have "opk_target k = opk_target l" "opk_operation k = opk_operation l"
    using append_delim_eq_last [OF assms(3,4) e3] by simp_all
  with assms(1,2) g i show ?thesis by simp
qed

text \<open>
  Within a stage, two operations have the same key text exactly when they are the same operation
  (generation, target, name and index), as long as the operation names contain no slash: the
  rendering that adapters use to recognise a repeated request is injective there.  (Across
  stages it is not: \<open>operation_key_collision\<close>.)
\<close>

theorem operation_key_injective:
  assumes "opk_campaign k = opk_campaign l" "opk_stage k = opk_stage l"
    and "CHR ''/'' \<notin> set (opk_operation k)" "CHR ''/'' \<notin> set (opk_operation l)"
  shows "operation_key_to_string k = operation_key_to_string l \<longleftrightarrow> k = l"
  using operation_key_inject [OF assms] by auto

lemma operation_key_injective_witness:
  "operation_key_to_string \<lparr>opk_campaign = ''c'', opk_generation = 1, opk_stage = ''s/1'', opk_target = ''t'',
     opk_operation = ''prepare'', opk_index = 1\<rparr> \<noteq>
   operation_key_to_string \<lparr>opk_campaign = ''c'', opk_generation = 1, opk_stage = ''s/1'', opk_target = ''t'',
     opk_operation = ''prepare'', opk_index = 2\<rparr>"
  by (subst operation_key_injective) simp_all

lemma operation_key_collision:
  "\<exists>k l. k \<noteq> l \<and> operation_key_to_string k = operation_key_to_string l \<and>
     valid_id (opk_stage k) \<and> valid_id (opk_target k) \<and> valid_id (opk_stage l) \<and> valid_id (opk_target l)"
proof -
  define k where "k = \<lparr>opk_campaign = ''c'', opk_generation = 1, opk_stage = ''s/t'', opk_target = ''u'',
      opk_operation = ''prepare'', opk_index = 1\<rparr>"
  define l where "l = k\<lparr>opk_stage := ''s'', opk_target := ''t/u''\<rparr>"
  have "k \<noteq> l" "operation_key_to_string k = operation_key_to_string l"
    by (simp_all add: k_def l_def operation_key_to_string_def)
  moreover have "valid_id (opk_stage k)" "valid_id (opk_target k)" "valid_id (opk_stage l)" "valid_id (opk_target l)"
    by (simp_all add: k_def l_def valid_id_def max_identifier_length_def identifier_char_def)
  ultimately show ?thesis by blast
qed

end
