(* ===== verification/Engine_Planner.thy ===== *)
theory Engine_Planner
  imports Model_Campaign "HOL-Library.Multiset"
begin

text \<open>
  Plan construction (\<open>engine/planner\<close>): the selection of targets, the rejections it collects, the
  stages of each strategy, and the acknowledgement of irreversible steps.  An executable plan
  is shown to cover each selected target in exactly one stage, to mix no two members of a redundancy group
  in a stage of a rolling upgrade, and to satisfy every check on every target.
\<close>

definition plan_reject :: "plan_rejection_code \<Rightarrow> string \<Rightarrow> string \<Rightarrow> plan_rejection" where
  "plan_reject code subject detail = \<lparr>prj_code = code, prj_subject = subject, prj_detail = detail\<rparr>"

definition missing_capabilities :: "target_descriptor \<Rightarrow> artifact_descriptor \<Rightarrow> string list" where
  "missing_capabilities d a =
     filter (\<lambda>name. \<not> has_capability d name) (map cap_name (art_capabilities a))"

definition plain_step :: "string \<Rightarrow> string \<Rightarrow> string \<Rightarrow> plan_step" where
  "plain_step sid action description =
     \<lparr>stp_id = sid, stp_action = action, stp_description = description, stp_irreversible = False,
      stp_irreversible_reason = []\<rparr>"

definition activate_step :: "string \<Rightarrow> artifact_descriptor \<Rightarrow> strategy_kind \<Rightarrow> plan_step" where
  "activate_step stage a strategy =
     (let rb = art_rollback a;
          sid = stage @ ''/activate'';
          base = plain_step sid ''activate''
                   (''activate the artifact with strategy '' @ strategy_kind_name strategy);
          s1 = (if \<not> rbc_reversible rb
                then base\<lparr>stp_irreversible := True,
                          stp_irreversible_reason :=
                            (if rbc_boundary rb = []
                             then ''the artifact declares the upgrade irreversible''
                             else rbc_boundary rb)\<rparr>
                else base)
      in foldl (\<lambda>s step. if step = sid \<or> step = ''activate''
                         then s\<lparr>stp_irreversible := True,
                                stp_irreversible_reason :=
                                  (if rbc_boundary rb = [] then ''declared irreversible step''
                                   else rbc_boundary rb)\<rparr>
                         else s) s1 (rbc_irreversible_steps rb))"

definition handoff_step :: "string \<Rightarrow> plan_step" where
  "handoff_step stage =
     \<lparr>stp_id = stage @ ''/generation-handoff'', stp_action = ''generation-handoff'',
      stp_description = ''hand control-plane authority to the new generation'',
      stp_irreversible = True,
      stp_irreversible_reason =
        ''a completed generation handoff cannot be reverted in place; the previous generation is retired''\<rparr>"

definition make_stage ::
    "string \<Rightarrow> nat \<Rightarrow> target_descriptor list \<Rightarrow> artifact_descriptor \<Rightarrow> strategy_kind \<Rightarrow> u32 \<Rightarrow> stage_plan" where
  "make_stage campaign index targets a strategy max_parallel =
     (let sid = campaign @ '':stage-'' @ dec_digits (index + 1)
      in \<lparr>stg_id = sid, stg_name = ''stage-'' @ dec_digits (index + 1),
          stg_targets = map tgt_id targets,
          stg_steps =
            [plain_step (sid @ ''/prepare'') ''prepare'' ''deliver and verify the artifact on the target'',
             activate_step sid a strategy] @
            (if strategy = SK_control_plane_generation_handoff then [handoff_step sid] else []) @
            [plain_step (sid @ ''/verify'') ''verify''
               ''post-activation verification with fresh health and version evidence'',
             plain_step (sid @ ''/rollback'') ''rollback'' ''return the target to its previous version''],
          stg_requires_service_removal = list_ex (\<lambda>d. acl_requires_service_removal (tgt_claims d)) targets,
          stg_redundancy_group =
            foldl (\<lambda>g d. if g = [] \<and> tgt_redundancy_group d \<noteq> [] then tgt_redundancy_group d else g) [] targets,
          stg_max_parallel = (if max_parallel = 0 then 1 else max_parallel)\<rparr>)"

subsection \<open>Targets and their rejections\<close>

definition requested_targets ::
    "upgrade_plan_request \<Rightarrow> inventory_snapshot \<Rightarrow> target_descriptor list \<times> plan_rejection list" where
  "requested_targets req snap =
     (if req_targets req = []
      then (filter (\<lambda>d. tgt_component d = req_component req) (inv_targets snap), [])
      else foldl (\<lambda>(sel, rej) tid.
             case inv_find snap tid of
               None \<Rightarrow> (sel, rej @ [plan_reject PR_unknown_target tid
                         ''the target is not present in the resolved inventory''])
             | Some d \<Rightarrow> (sel @ [d], rej)) ([], []) (req_targets req))"

fun duplicate_rejections :: "target_descriptor list \<Rightarrow> plan_rejection list" where
  "duplicate_rejections (x # y # zs) =
     (if tgt_id y = tgt_id x
      then [plan_reject PR_duplicate_target (tgt_id y) ''the same target was requested more than once'']
      else []) @ duplicate_rejections (y # zs)"
| "duplicate_rejections _ = []"

definition target_rejections :: "upgrade_plan_request \<Rightarrow> target_descriptor \<Rightarrow> plan_rejection list" where
  "target_rejections req d =
     (let a = req_artifact req; to_version = art_version a; missing = missing_capabilities d a
      in (if tgt_component d \<noteq> req_component req
          then [plan_reject PR_mixed_component (tgt_id d)
                  (''target belongs to component '' @ tgt_component d)] else []) @
         (if \<not> supported_on a (tgt_platform d)
          then [plan_reject PR_platform_unsupported (tgt_id d)
                  (''the artifact does not declare platform '' @ tgt_platform d)] else []) @
         (if missing \<noteq> []
          then [plan_reject PR_capability_missing (tgt_id d)
                  (''missing capabilities:'' @ concat (map (\<lambda>n. '' '' @ n) missing))] else []) @
         (if \<not> claims_support (tgt_claims d) (req_strategy req)
          then [plan_reject PR_strategy_unsupported (tgt_id d)
                  (''the adapter does not claim strategy '' @ strategy_kind_name (req_strategy req))]
          else []) @
         (if \<not> ver_empty (tgt_installed_version d) \<and> ver_greater (tgt_installed_version d) to_version
          then [plan_reject PR_version_regression (tgt_id d)
                  (''installed version '' @ ver_text (tgt_installed_version d) @
                   '' is newer than the requested '' @ ver_text to_version)] else []) @
         (if ver_eq (tgt_installed_version d) to_version \<and> \<not> ver_empty to_version
          then [plan_reject PR_already_at_version (tgt_id d)
                  (''the target already runs '' @ ver_text to_version)] else []))"

subsection \<open>Stages\<close>

text \<open>The \<open>std::map\<close> of redundancy groups: names in order, members in selection order.\<close>

definition redundancy_groups :: "target_descriptor list \<Rightarrow> (string \<times> target_descriptor list) list" where
  "redundancy_groups selected =
     map (\<lambda>g. (g, filter (\<lambda>d. tgt_redundancy_group d = g) selected))
       (sort (remdups (filter (\<lambda>g. g \<noteq> []) (map tgt_redundancy_group selected))))"

definition rolling_wave :: "(string \<times> target_descriptor list) list \<Rightarrow> nat \<Rightarrow> target_descriptor list" where
  "rolling_wave groups index =
     concat (map (\<lambda>(g, ms). if index < length ms then [ms ! index] else []) groups)"

lemma rolling_wave_bound:
  "rolling_wave groups index \<noteq> [] \<Longrightarrow> index < sum_list (map (\<lambda>(g, ms). length ms) groups)"
proof (induction groups)
  case Nil
  then show ?case by (simp add: rolling_wave_def)
next
  case (Cons x xs)
  then show ?case by (cases x) (auto simp: rolling_wave_def split: if_splits)
qed

function rolling_waves ::
    "(string \<times> target_descriptor list) list \<Rightarrow> nat \<Rightarrow> (nat \<times> target_descriptor list) list" where
  "rolling_waves groups index =
     (if rolling_wave groups index = [] then []
      else (index, rolling_wave groups index) # rolling_waves groups (index + 1))"
  by auto
termination
  by (relation "measure (\<lambda>(groups, index). sum_list (map (\<lambda>(g, ms). length ms) groups) - index)")
    (auto dest!: rolling_wave_bound)

declare rolling_waves.simps [simp del]

definition rolling_rejections :: "target_descriptor list \<Rightarrow> plan_rejection list" where
  "rolling_rejections selected =
     map (\<lambda>d. plan_reject PR_strategy_unsupported (tgt_id d)
            ''rolling replacement requires the target to belong to a redundancy group'')
       (filter (\<lambda>d. tgt_redundancy_group d = []) selected) @
     map (\<lambda>(g, ms). plan_reject PR_strategy_unsupported g
            ''redundant-pair rolling requires at least two members in the group'')
       (filter (\<lambda>(g, ms). length ms < 2) (redundancy_groups selected))"

definition plan_stages :: "upgrade_plan_request \<Rightarrow> target_descriptor list \<Rightarrow> stage_plan list" where
  "plan_stages req selected =
     (let campaign = req_campaign req; a = req_artifact req; strategy = req_strategy req
      in case strategy of
           SK_in_place \<Rightarrow> [make_stage campaign 0 selected a strategy (req_max_parallel req)]
         | SK_control_plane_generation_handoff \<Rightarrow>
             [make_stage campaign 0 selected a strategy (req_max_parallel req)]
         | SK_restart_based \<Rightarrow>
             map (\<lambda>i. make_stage campaign i [selected ! i] a strategy 1) [0..<length selected]
         | SK_redundant_pair_rolling \<Rightarrow>
             map (\<lambda>(index, wave). make_stage campaign index wave a strategy (req_max_parallel req))
               (rolling_waves (redundancy_groups selected) 0))"

definition plan_irreversible_ids :: "stage_plan list \<Rightarrow> step_id list" where
  "plan_irreversible_ids stages =
     map stp_id (filter stp_irreversible (concat (map stg_steps stages)))"

definition plan_selection ::
    "upgrade_plan_request \<Rightarrow> inventory_snapshot \<Rightarrow> target_descriptor list" where
  "plan_selection req snap = sort_key tgt_id (fst (requested_targets req snap))"

definition plan_rejections :: "upgrade_plan_request \<Rightarrow> inventory_snapshot \<Rightarrow> policy \<Rightarrow> plan_rejection list" where
  "plan_rejections req snap p =
     (let selected = plan_selection req snap;
          stages = plan_stages req selected;
          irreversible = plan_irreversible_ids stages
      in (if art_component (req_artifact req) \<noteq> req_component req
          then [plan_reject PR_artifact_component_mismatch (req_component req)
                  (''the artifact belongs to component '' @ art_component (req_artifact req))] else []) @
         snd (requested_targets req snap) @
         duplicate_rejections selected @
         (if selected = []
          then [plan_reject PR_no_targets (req_component req) ''no target matches the requested component'']
          else []) @
         (if length selected > unat (pol_max_targets p)
          then [plan_reject PR_target_limit_exceeded (req_component req)
                  (''the plan covers '' @ dec_digits (length selected) @
                   '' targets but the policy permits '' @ u32_to_string (pol_max_targets p))] else []) @
         concat (map (target_rejections req) selected) @
         (if req_strategy req = SK_redundant_pair_rolling then rolling_rejections selected else []) @
         (if length stages > unat (pol_max_stages p)
          then [plan_reject PR_stage_limit_exceeded (req_component req)
                  (''the plan needs '' @ dec_digits (length stages) @
                   '' stages but the policy permits '' @ u32_to_string (pol_max_stages p))] else []) @
         (if irreversible \<noteq> [] \<and> \<not> req_acknowledge_irreversible req
          then [plan_reject PR_irreversible_unacknowledged (req_campaign req)
                  (''the plan contains '' @ dec_digits (length irreversible) @
                   '' irreversible step(s) that were not acknowledged by the operator'')] else []))"

definition build_plan ::
    "upgrade_plan_request \<Rightarrow> inventory_snapshot \<Rightarrow> policy option \<Rightarrow> timestamp \<Rightarrow> upgrade_plan result" where
  "build_plan req snap pol now =
     (case pol of
        None \<Rightarrow> fail EC_invalid_argument ''planner requires a policy'' ''''
      | Some p \<Rightarrow>
        if req_campaign req = []
        then fail EC_invalid_argument ''plan request must carry a campaign id'' ''''
        else if req_authority req = []
        then fail EC_invalid_argument ''plan request must carry an authority'' ''''
        else
          fum_try (skew_validate (req_skew_budget req)) (\<lambda>_.
          fum_try (artifact_validate (req_artifact req)) (\<lambda>_.
          let stages = plan_stages req (plan_selection req snap)
          in Inr \<lparr>pln_campaign = req_campaign req, pln_generation = 1,
                  pln_authority = req_authority req, pln_component = req_component req,
                  pln_artifact = req_artifact req, pln_strategy = req_strategy req,
                  pln_stages = stages, pln_skew_budget = req_skew_budget req,
                  pln_rejections = plan_rejections req snap p,
                  pln_irreversible_steps = plan_irreversible_ids stages,
                  pln_policy = pol_id p, pln_policy_revision = pol_revision p,
                  pln_created_at = now, pln_description = req_description req\<rparr>)))"


subsection \<open>What an empty rejection list means\<close>

definition target_admissible :: "upgrade_plan_request \<Rightarrow> target_descriptor \<Rightarrow> bool" where
  "target_admissible req d \<longleftrightarrow>
     (let a = req_artifact req in
      tgt_component d = req_component req \<and>
      tgt_platform d \<in> set (art_platforms a) \<and>
      (\<forall>c \<in> set (art_capabilities a). cap_name c \<in> set (tgt_capabilities d)) \<and>
      req_strategy req \<in> set (acl_strategies (tgt_claims d)) \<and>
      (ver_less (tgt_installed_version d) (art_version a) \<or>
       ver_empty (tgt_installed_version d) \<and> \<not> ver_eq (tgt_installed_version d) (art_version a)))"

definition plan_admissible :: "upgrade_plan_request \<Rightarrow> inventory_snapshot \<Rightarrow> policy \<Rightarrow> bool" where
  "plan_admissible req snap p \<longleftrightarrow>
     (let selected = plan_selection req snap; stages = plan_stages req selected in
      art_component (req_artifact req) = req_component req \<and>
      (\<forall>tid \<in> set (req_targets req). inv_find snap tid \<noteq> None) \<and>
      distinct (map tgt_id selected) \<and> selected \<noteq> [] \<and>
      length selected \<le> unat (pol_max_targets p) \<and>
      (\<forall>d \<in> set selected. target_admissible req d) \<and>
      (req_strategy req = SK_redundant_pair_rolling \<longrightarrow>
         (\<forall>d \<in> set selected. tgt_redundancy_group d \<noteq> [] \<and>
            (\<exists>e \<in> set selected. tgt_id e \<noteq> tgt_id d \<and>
               tgt_redundancy_group e = tgt_redundancy_group d))) \<and>
      length stages \<le> unat (pol_max_stages p) \<and>
      (plan_irreversible_ids stages = [] \<or> req_acknowledge_irreversible req))"

lemma plan_reject_simps [simp]: "[plan_reject a b c] \<noteq> []"
  by simp

lemma sorted_adjacent_distinct:
  "sorted (map tgt_id xs) \<Longrightarrow> duplicate_rejections xs = [] \<longleftrightarrow> distinct (map tgt_id xs)"
proof (induction xs rule: duplicate_rejections.induct)
  case (1 x y zs)
  then show ?case by (force simp: less_le order.antisym split: if_splits)
qed auto

lemma missing_capabilities_Nil:
  "missing_capabilities d a = [] \<longleftrightarrow> (\<forall>c \<in> set (art_capabilities a). cap_name c \<in> set (tgt_capabilities d))"
  by (auto simp: missing_capabilities_def has_capability_def list_ex_iff filter_empty_conv)

lemma supported_on_iff: "supported_on a pf \<longleftrightarrow> pf \<in> set (art_platforms a)"
  by (auto simp: supported_on_def list_ex_iff)

lemma target_rejections_Nil:
  assumes "\<not> ver_empty (art_version (req_artifact req))"
  shows "target_rejections req d = [] \<longleftrightarrow> target_admissible req d"
proof -
  have v: "\<not> ver_greater i w \<and> \<not> ver_eq i w \<longleftrightarrow> ver_less i w" for i w
    by (auto simp: ver_less_key ver_eq_key ver_greater_key)
  have v2: "(ver_empty i \<or> \<not> ver_greater i w) \<and> \<not> ver_eq i w \<longleftrightarrow>
      ver_less i w \<or> ver_empty i \<and> \<not> ver_eq i w" for i w
    using v [of i w] by (auto simp: ver_less_key ver_eq_key ver_greater_key)
  show ?thesis
    using assms v2 [of "tgt_installed_version d" "art_version (req_artifact req)"]
    by (auto simp: target_rejections_def target_admissible_def Let_def missing_capabilities_Nil
        supported_on_iff claims_support_iff)
qed

lemma requested_fold:
  fixes snap :: inventory_snapshot
  defines "f \<equiv> \<lambda>(sel, rej) tid. case inv_find snap tid of
               None \<Rightarrow> (sel, rej @ [plan_reject PR_unknown_target tid
                         ''the target is not present in the resolved inventory''])
             | Some d \<Rightarrow> (sel @ [d], rej)"
  shows "foldl f (sel, rej) tids =
    (sel @ List.map_filter (inv_find snap) tids,
     rej @ map (\<lambda>tid. plan_reject PR_unknown_target tid
            ''the target is not present in the resolved inventory'')
       (filter (\<lambda>tid. inv_find snap tid = None) tids))"
proof (induction tids arbitrary: sel rej)
  case Nil
  then show ?case by (simp add: map_filter_simps)
next
  case (Cons t ts)
  then show ?case by (cases "inv_find snap t") (simp_all add: f_def map_filter_simps)
qed

lemma requested_targets_found:
  "fst (requested_targets req snap) =
     (if req_targets req = [] then filter (\<lambda>d. tgt_component d = req_component req) (inv_targets snap)
      else List.map_filter (inv_find snap) (req_targets req))"
  by (simp add: requested_targets_def requested_fold)

lemma requested_targets_unknown:
  "snd (requested_targets req snap) = [] \<longleftrightarrow> (\<forall>tid \<in> set (req_targets req). inv_find snap tid \<noteq> None)"
  by (auto simp: requested_targets_def requested_fold filter_empty_conv)

lemma plan_selection_sorted: "sorted (map tgt_id (plan_selection req snap))"
  by (simp add: plan_selection_def)

lemma redundancy_groups_mem:
  "(g, ms) \<in> set (redundancy_groups sel) \<longleftrightarrow>
     g \<noteq> [] \<and> g \<in> tgt_redundancy_group ` set sel \<and> ms = filter (\<lambda>d. tgt_redundancy_group d = g) sel"
  by (auto simp: redundancy_groups_def)

lemma length_filter_two:
  assumes "distinct (map f xs)" "x \<in> set xs" "P x"
  shows "2 \<le> length (filter P xs) \<longleftrightarrow> (\<exists>y \<in> set xs. f y \<noteq> f x \<and> P y)"
proof
  assume two: "2 \<le> length (filter P xs)"
  show "\<exists>y \<in> set xs. f y \<noteq> f x \<and> P y"
  proof (rule ccontr)
    assume "\<not> ?thesis"
    then have sub: "f ` set (filter P xs) \<subseteq> {f x}" by auto
    have "distinct (map f (filter P xs))" using assms(1) by (rule distinct_map_filter)
    then have "length (filter P xs) = card (f ` set (filter P xs))"
      by (metis distinct_card length_map set_map)
    also have "\<dots> \<le> 1" using card_mono [OF _ sub] by simp
    finally show False using two by simp
  qed
next
  assume "\<exists>y \<in> set xs. f y \<noteq> f x \<and> P y"
  then obtain y where y: "y \<in> set xs" "f y \<noteq> f x" "P y" by blast
  have "card {x, y} \<le> card (set (filter P xs))"
    by (rule card_mono) (use y assms in auto)
  also have "\<dots> \<le> length (filter P xs)" by (rule card_length)
  finally show "2 \<le> length (filter P xs)" using y(2) by (cases "x = y") auto
qed

lemma rolling_rejections_Nil:
  assumes "distinct (map tgt_id sel)"
  shows "rolling_rejections sel = [] \<longleftrightarrow>
    (\<forall>d \<in> set sel. tgt_redundancy_group d \<noteq> [] \<and>
       (\<exists>e \<in> set sel. tgt_id e \<noteq> tgt_id d \<and> tgt_redundancy_group e = tgt_redundancy_group d))"
proof -
  have "rolling_rejections sel = [] \<longleftrightarrow>
     (\<forall>d \<in> set sel. tgt_redundancy_group d \<noteq> []) \<and>
     (\<forall>g ms. (g, ms) \<in> set (redundancy_groups sel) \<longrightarrow> 2 \<le> length ms)"
    by (simp add: rolling_rejections_def filter_empty_conv split_beta not_less)
      (metis fst_conv snd_conv prod.collapse)
  also have "\<dots> \<longleftrightarrow> (\<forall>d \<in> set sel. tgt_redundancy_group d \<noteq> [] \<and>
      2 \<le> length (filter (\<lambda>e. tgt_redundancy_group e = tgt_redundancy_group d) sel))"
    by (auto simp: redundancy_groups_mem)
  also have "\<dots> \<longleftrightarrow> (\<forall>d \<in> set sel. tgt_redundancy_group d \<noteq> [] \<and>
       (\<exists>e \<in> set sel. tgt_id e \<noteq> tgt_id d \<and> tgt_redundancy_group e = tgt_redundancy_group d))"
    by (intro ball_cong refl conj_cong length_filter_two [OF assms]) simp_all
  finally show ?thesis .
qed

lemma plan_rejections_Nil:
  assumes "\<not> ver_empty (art_version (req_artifact req))"
  shows "plan_rejections req snap p = [] \<longleftrightarrow> plan_admissible req snap p"
proof (cases "distinct (map tgt_id (plan_selection req snap))")
  case True
  then show ?thesis
    by (auto simp: plan_rejections_def plan_admissible_def Let_def requested_targets_unknown
        sorted_adjacent_distinct [OF plan_selection_sorted] target_rejections_Nil [OF assms]
        rolling_rejections_Nil [OF True] not_less)
next
  case False
  then show ?thesis
    by (simp add: plan_rejections_def plan_admissible_def Let_def
        sorted_adjacent_distinct [OF plan_selection_sorted])
qed

subsection \<open>The stages partition the selection\<close>

lemma make_stage_targets [simp]: "stg_targets (make_stage c i ts a k m) = map tgt_id ts"
  by (simp add: make_stage_def Let_def)

lemma rolling_waves_unfold:
  "rolling_waves groups i =
     (if rolling_wave groups i = [] then [] else (i, rolling_wave groups i) # rolling_waves groups (i + 1))"
  by (rule rolling_waves.simps)

lemma rolling_wave_drop:
  "mset (rolling_wave groups i) + mset (concat (map (drop (i + 1) \<circ> snd) groups)) =
   mset (concat (map (drop i \<circ> snd) groups))"
  by (induction groups) (auto simp: rolling_wave_def Cons_nth_drop_Suc [symmetric])

lemma rolling_wave_Nil: "rolling_wave groups i = [] \<Longrightarrow> concat (map (drop i \<circ> snd) groups) = []"
  by (induction groups) (auto simp: rolling_wave_def split: if_splits)

lemma rolling_waves_mset:
  "mset (concat (map snd (rolling_waves groups i))) = mset (concat (map (drop i \<circ> snd) groups))"
proof (induction groups i rule: rolling_waves.induct)
  case (1 groups i)
  show ?case
  proof (cases "rolling_wave groups i = []")
    case True
    then show ?thesis by (subst rolling_waves_unfold) (simp add: rolling_wave_Nil)
  next
    case False
    with 1 rolling_wave_drop [of groups i] show ?thesis
      by (subst rolling_waves_unfold) (simp add: comp_def)
  qed
qed

lemma mset_by_group:
  assumes "distinct gs"
  shows "mset (concat (map (\<lambda>g. filter (\<lambda>d. f d = g) xs) gs)) = mset (filter (\<lambda>d. f d \<in> set gs) xs)"
  using assms
proof (induction gs)
  case Nil
  then show ?case by simp
next
  case (Cons g gs)
  have "mset (filter (\<lambda>d. f d \<in> set (g # gs)) xs) =
      mset (filter (\<lambda>d. f d = g) xs) + mset (filter (\<lambda>d. f d \<in> set gs) xs)"
    using Cons.prems by (induction xs) auto
  with Cons show ?case by simp
qed

lemma redundancy_groups_mset:
  "mset (concat (map snd (redundancy_groups sel))) = mset (filter (\<lambda>d. tgt_redundancy_group d \<noteq> []) sel)"
proof -
  define gs where "gs = sort (remdups (filter (\<lambda>g. g \<noteq> []) (map tgt_redundancy_group sel)))"
  have "mset (concat (map snd (redundancy_groups sel))) = mset (filter (\<lambda>d. tgt_redundancy_group d \<in> set gs) sel)"
    using mset_by_group [of gs tgt_redundancy_group sel]
    by (simp add: redundancy_groups_def gs_def comp_def)
  also have "filter (\<lambda>d. tgt_redundancy_group d \<in> set gs) sel =
      filter (\<lambda>d. tgt_redundancy_group d \<noteq> []) sel"
    by (rule filter_cong) (auto simp: gs_def)
  finally show ?thesis .
qed

lemma plan_stages_cover:
  assumes "req_strategy req = SK_redundant_pair_rolling \<Longrightarrow> \<forall>d \<in> set sel. tgt_redundancy_group d \<noteq> []"
  shows "mset (concat (map stg_targets (plan_stages req sel))) = mset (map tgt_id sel)"
proof (cases "req_strategy req")
  case SK_restart_based
  have "concat (map (\<lambda>i. [tgt_id (sel ! i)]) [0..<length sel]) = map (tgt_id \<circ> (!) sel) [0..<length sel]"
    by (simp add: concat_map_singleton comp_def)
  also have "\<dots> = map tgt_id sel" by (simp only: map_nth flip: map_map)
  finally have "concat (map (\<lambda>i. [tgt_id (sel ! i)]) [0..<length sel]) = map tgt_id sel" .
  with SK_restart_based show ?thesis by (simp add: plan_stages_def Let_def comp_def)
next
  case SK_redundant_pair_rolling
  have "concat (map stg_targets (plan_stages req sel)) =
      map tgt_id (concat (map snd (rolling_waves (redundancy_groups sel) 0)))"
    by (simp add: plan_stages_def Let_def SK_redundant_pair_rolling map_concat comp_def case_prod_beta)
  moreover have "mset (concat (map snd (rolling_waves (redundancy_groups sel) 0))) = mset sel"
    using rolling_waves_mset [of "redundancy_groups sel" 0] redundancy_groups_mset [of sel]
      assms [OF SK_redundant_pair_rolling]
    by (simp add: comp_def)
  ultimately show ?thesis by (metis mset_map)
qed (simp_all add: plan_stages_def Let_def)


text \<open>A rolling stage takes one member of each group.\<close>

lemma rolling_waves_index: "(i, w) \<in> set (rolling_waves groups j) \<Longrightarrow> w = rolling_wave groups i"
proof (induction groups j rule: rolling_waves.induct)
  case (1 groups j)
  then show ?case
    by (subst (asm) (2) rolling_waves_unfold) (auto split: if_splits)
qed

lemma rolling_wave_group:
  assumes "distinct (map fst groups)" "\<forall>(g, ms) \<in> set groups. \<forall>d \<in> set ms. f d = g"
    "d \<in> set (rolling_wave groups i)" "e \<in> set (rolling_wave groups i)" "f d = f e"
  shows "d = e"
proof -
  have pick: "\<exists>ms. (f x, ms) \<in> set groups \<and> i < length ms \<and> x = ms ! i"
    if x: "x \<in> set (rolling_wave groups i)" for x
  proof -
    from x obtain g ms where "(g, ms) \<in> set groups" "i < length ms" "x = ms ! i"
      by (auto simp: rolling_wave_def split: if_splits)
    moreover from this assms(2) have "f x = g" by fastforce
    ultimately show ?thesis by blast
  qed
  from pick [OF assms(3)] pick [OF assms(4)] assms(1,5) show ?thesis
    by (metis map_of_eq_Some_iff option.inject)
qed

lemma redundancy_groups_distinct: "distinct (map fst (redundancy_groups sel))"
  by (simp add: redundancy_groups_def comp_def)

lemma plan_stages_separate:
  assumes "req_strategy req = SK_redundant_pair_rolling" "distinct (map tgt_id sel)"
    "stage \<in> set (plan_stages req sel)" "d \<in> set sel" "e \<in> set sel"
    "tgt_id d \<in> set (stg_targets stage)" "tgt_id e \<in> set (stg_targets stage)"
    "tgt_redundancy_group d = tgt_redundancy_group e"
  shows "d = e"
proof -
  from assms(1,3) obtain i w where w: "(i, w) \<in> set (rolling_waves (redundancy_groups sel) 0)"
      "stg_targets stage = map tgt_id w"
    by (auto simp: plan_stages_def Let_def)
  have wave: "w = rolling_wave (redundancy_groups sel) i" by (rule rolling_waves_index [OF w(1)])
  have "set w \<subseteq> set sel"
    unfolding wave by (auto simp: rolling_wave_def redundancy_groups_mem dest!: nth_mem split: if_splits)
  with assms(2,4-7) w(2) have "d \<in> set w" "e \<in> set w"
    by (auto simp: distinct_map inj_on_def)
  moreover have "\<forall>(g, ms) \<in> set (redundancy_groups sel). \<forall>d \<in> set ms. tgt_redundancy_group d = g"
    by (auto simp: redundancy_groups_mem)
  ultimately show ?thesis
    using rolling_wave_group [OF redundancy_groups_distinct] assms(8) unfolding wave by blast
qed

lemma build_plan_Inr:
  "build_plan req snap (Some p) now = Inr plan \<longleftrightarrow>
     req_campaign req \<noteq> [] \<and> req_authority req \<noteq> [] \<and>
     skew_validate (req_skew_budget req) = ok_status \<and> artifact_validate (req_artifact req) = ok_status \<and>
     plan = \<lparr>pln_campaign = req_campaign req, pln_generation = 1,
                  pln_authority = req_authority req, pln_component = req_component req,
                  pln_artifact = req_artifact req, pln_strategy = req_strategy req,
                  pln_stages = plan_stages req (plan_selection req snap),
                  pln_skew_budget = req_skew_budget req,
                  pln_rejections = plan_rejections req snap p,
                  pln_irreversible_steps = plan_irreversible_ids (plan_stages req (plan_selection req snap)),
                  pln_policy = pol_id p, pln_policy_revision = pol_revision p,
                  pln_created_at = now, pln_description = req_description req\<rparr>"
  by (auto simp: build_plan_def Let_def fum_try_Inr_iff)

lemma build_plan_stages:
  "build_plan req snap (Some p) now = Inr plan \<Longrightarrow>
   pln_stages plan = plan_stages req (plan_selection req snap)"
  by (auto simp: build_plan_Inr)

lemma build_plan_executable:
  assumes "build_plan req snap (Some p) now = Inr plan"
  shows "plan_executable plan \<longleftrightarrow> plan_admissible req snap p"
  using assms by (auto simp: build_plan_Inr plan_executable_def artifact_validate_iff plan_rejections_Nil)

lemma build_plan_partition:
  assumes "build_plan req snap (Some p) now = Inr plan" "plan_executable plan"
  shows "mset (concat (map stg_targets (pln_stages plan))) = mset (map tgt_id (plan_selection req snap))"
    "distinct (concat (map stg_targets (pln_stages plan)))"
proof -
  have adm: "plan_admissible req snap p" using assms build_plan_executable by blast
  have st: "pln_stages plan = plan_stages req (plan_selection req snap)"
    by (rule build_plan_stages [OF assms(1)])
  show m: "mset (concat (map stg_targets (pln_stages plan))) = mset (map tgt_id (plan_selection req snap))"
    unfolding st by (rule plan_stages_cover) (use adm in \<open>simp add: plan_admissible_def Let_def\<close>)
  show "distinct (concat (map stg_targets (pln_stages plan)))"
    using adm mset_eq_imp_distinct_iff [OF m] by (simp add: plan_admissible_def Let_def)
qed

lemma plan_selection_requested:
  assumes "plan_admissible req snap p"
  shows "tgt_id ` set (plan_selection req snap) =
    (if req_targets req = []
     then tgt_id ` {d \<in> set (inv_targets snap). tgt_component d = req_component req}
     else set (req_targets req))"
proof -
  have f: "inv_find snap t = Some d \<Longrightarrow> tgt_id d = t" for t d
    by (auto simp: inv_find_def find_Some_iff)
  have "tgt_id ` set (List.map_filter (inv_find snap) (req_targets req)) = set (req_targets req)"
    if "\<forall>t \<in> set (req_targets req). inv_find snap t \<noteq> None"
    using that f by (force simp: map_filter_def image_iff)
  with assms show ?thesis
    by (simp add: plan_selection_def requested_targets_found plan_admissible_def Let_def)
qed

subsection \<open>The order of the inventory does not matter\<close>

lemma inv_find_perm:
  assumes "mset (inv_targets s) = mset (inv_targets s')" "distinct (map tgt_id (inv_targets s))"
  shows "inv_find s t = inv_find s' t"
proof -
  have d': "distinct (map tgt_id (inv_targets s'))"
    using mset_eq_imp_distinct_iff [of "map tgt_id (inv_targets s)" "map tgt_id (inv_targets s')"] assms
    by simp
  have find: "List.find (\<lambda>d. tgt_id d = t) xs = Some d \<longleftrightarrow> d \<in> set xs \<and> tgt_id d = t"
    if "distinct (map tgt_id xs)" for xs d
    using that by (induction xs) (auto simp: image_iff)
  have "set (inv_targets s) = set (inv_targets s')" using assms(1) by (rule mset_eq_setD)
  then show ?thesis
    unfolding inv_find_def
    by (intro option.expand) (metis find [OF assms(2)] find [OF d'] option.collapse option.exhaust_sel
        | metis find [OF assms(2)] find [OF d'] option.sel option.collapse)+
qed

lemma plan_selection_perm:
  assumes "mset (inv_targets s) = mset (inv_targets s')" "distinct (map tgt_id (inv_targets s))"
  shows "plan_selection req s = plan_selection req s'"
    "snd (requested_targets req s) = snd (requested_targets req s')"
proof -
  have f: "inv_find s = inv_find s'" by (rule ext) (rule inv_find_perm [OF assms])
  show "snd (requested_targets req s) = snd (requested_targets req s')"
    by (simp add: requested_targets_def f)
  show "plan_selection req s = plan_selection req s'"
  proof (cases "req_targets req = []")
    case True
    have "inj_on tgt_id (set (inv_targets s))"
      using assms(2) by (simp add: distinct_map)
    then show ?thesis
      unfolding plan_selection_def requested_targets_found
      using True assms(1)
      by (intro sort_key_inj_key_eq) (auto intro: inj_on_subset simp: mset_filter)
  next
    case False
    then show ?thesis by (simp add: plan_selection_def requested_targets_found f)
  qed
qed

lemma build_plan_perm:
  assumes "mset (inv_targets s) = mset (inv_targets s')" "distinct (map tgt_id (inv_targets s))"
  shows "build_plan req s p now = build_plan req s' p now"
  by (simp add: build_plan_def plan_rejections_def plan_selection_perm [OF assms] split: option.split)


subsection \<open>A rolling upgrade of two redundant pairs\<close>

definition sample_artifact :: artifact_descriptor where
  "sample_artifact = empty_artifact\<lparr>art_id := ''art-2'', art_component := ''svc'',
     art_version := make_version 1 2 0 [], art_build := ''build-2'', art_digest := ''sha256:00'',
     art_size_bytes := 10, art_platforms := [''linux''],
     art_rollback := no_rollback\<lparr>rbc_reversible := True\<rparr>\<rparr>"

definition sample_target :: "string \<Rightarrow> string \<Rightarrow> target_descriptor" where
  "sample_target tid grp =
     \<lparr>tgt_id = tid, tgt_component = ''svc'', tgt_display_name = tid,
      tgt_installed_version = make_version 1 1 0 [], tgt_installed_build = ''build-1'',
      tgt_platform = ''linux'', tgt_capabilities = [], tgt_adapter = ''adapter'',
      tgt_adapter_kind = AK_synthetic,
      tgt_claims =
        \<lparr>acl_strategies = [SK_in_place, SK_redundant_pair_rolling], acl_supports_prepare = True,
         acl_supports_rollback = True, acl_supports_health_probe = True,
         acl_supports_version_observation = True, acl_supports_generation_handoff = False,
         acl_requires_service_removal = False, acl_max_parallel = 1, acl_declared_limits = []\<rparr>,
      tgt_authority = ''ops'', tgt_redundancy_group = grp, tgt_is_control_plane = False,
      tgt_generation_capable = False\<rparr>"

definition sample_inventory :: inventory_snapshot where
  "sample_inventory =
     \<lparr>inv_revision = 1, inv_incarnation = 1, inv_observed_at = 1000, inv_validity = from_seconds 30,
      inv_targets = [sample_target ''b1'' ''right'', sample_target ''a1'' ''left'',
                     sample_target ''a2'' ''left'', sample_target ''b2'' ''right'']\<rparr>"

definition sample_request :: upgrade_plan_request where
  "sample_request =
     \<lparr>req_campaign = ''camp'', req_component = ''svc'', req_artifact = sample_artifact,
      req_targets = [], req_strategy = SK_redundant_pair_rolling,
      req_skew_budget = default_skew_budget, req_authority = ''ops'',
      req_acknowledge_irreversible = False, req_acknowledged_steps = [], req_max_parallel = 2,
      req_description = [], req_requested_at = 0\<rparr>"

definition sample_policy :: policy where
  "sample_policy = default_policy\<lparr>pol_id := ''policy'', pol_revision := 1\<rparr>"

lemma sample_target_fields [simp]:
  "tgt_id (sample_target t g) = t" "tgt_redundancy_group (sample_target t g) = g"
  "tgt_component (sample_target t g) = ''svc''" "tgt_platform (sample_target t g) = ''linux''"
  "tgt_capabilities (sample_target t g) = []"
  "tgt_installed_version (sample_target t g) = make_version 1 1 0 []"
  "acl_strategies (tgt_claims (sample_target t g)) = [SK_in_place, SK_redundant_pair_rolling]"
  "\<not> acl_requires_service_removal (tgt_claims (sample_target t g))"
  by (simp_all add: sample_target_def)

lemma sample_selection:
  "plan_selection sample_request sample_inventory =
     [sample_target ''a1'' ''left'', sample_target ''a2'' ''left'',
      sample_target ''b1'' ''right'', sample_target ''b2'' ''right'']"
  by (simp add: plan_selection_def requested_targets_def sample_request_def sample_inventory_def)

lemma sample_groups:
  "redundancy_groups (plan_selection sample_request sample_inventory) =
     [(''left'', [sample_target ''a1'' ''left'', sample_target ''a2'' ''left'']),
      (''right'', [sample_target ''b1'' ''right'', sample_target ''b2'' ''right''])]"
  by (simp add: redundancy_groups_def sample_selection)

lemma sample_waves:
  "rolling_waves
     [(''left'', [sample_target ''a1'' ''left'', sample_target ''a2'' ''left'']),
      (''right'', [sample_target ''b1'' ''right'', sample_target ''b2'' ''right''])] 0 =
   [(0, [sample_target ''a1'' ''left'', sample_target ''b1'' ''right'']),
    (1, [sample_target ''a2'' ''left'', sample_target ''b2'' ''right''])]"
  by (subst rolling_waves_unfold, simp add: rolling_wave_def,
      subst rolling_waves_unfold, simp add: rolling_wave_def,
      subst rolling_waves_unfold, simp add: rolling_wave_def)

lemma sample_stages:
  "plan_stages sample_request (plan_selection sample_request sample_inventory) =
     [make_stage ''camp'' 0 [sample_target ''a1'' ''left'', sample_target ''b1'' ''right'']
        sample_artifact SK_redundant_pair_rolling 2,
      make_stage ''camp'' 1 [sample_target ''a2'' ''left'', sample_target ''b2'' ''right'']
        sample_artifact SK_redundant_pair_rolling 2]"
  unfolding plan_stages_def sample_groups sample_waves Let_def
  by (simp add: sample_request_def)

lemma sample_irreversible:
  "plan_irreversible_ids (plan_stages sample_request (plan_selection sample_request sample_inventory)) = []"
  unfolding sample_stages
  by (simp add: plan_irreversible_ids_def make_stage_def Let_def plain_step_def activate_step_def
      sample_artifact_def no_rollback_def)

lemma sample_target_admissible: "target_admissible sample_request (sample_target t g)"
  by (simp add: target_admissible_def sample_request_def sample_artifact_def empty_artifact_def
      ver_less_key ver_key_def make_version_def Let_def)

lemma sample_admissible: "plan_admissible sample_request sample_inventory sample_policy"
  unfolding plan_admissible_def Let_def sample_irreversible unfolding sample_stages unfolding sample_selection
  by (simp add: sample_target_admissible)
    (simp add: sample_request_def sample_artifact_def sample_policy_def default_policy_def)

definition sample_plan :: upgrade_plan where
  "sample_plan = the_value (build_plan sample_request sample_inventory (Some sample_policy) 2000) empty_plan"

lemma sample_plan_built:
  "build_plan sample_request sample_inventory (Some sample_policy) 2000 = Inr sample_plan"
proof -
  have "artifact_validate sample_artifact = ok_status"
    by (simp add: artifact_validate_iff sample_artifact_def empty_artifact_def no_signer_def sig_declared_def
        no_rollback_def ver_empty_def make_version_def version_text_of_def)
  moreover have "skew_validate default_skew_budget = ok_status"
    by (simp add: skew_validate_def default_skew_budget_def)
  ultimately show ?thesis
    by (simp add: sample_plan_def build_plan_def sample_request_def Let_def)
qed

lemma sample_plan_executable: "plan_executable sample_plan"
  using build_plan_executable [OF sample_plan_built] sample_admissible by simp

lemma sample_plan_stages:
  "map stg_targets (pln_stages sample_plan) = [[''a1'', ''b1''], [''a2'', ''b2'']]"
  by (simp add: build_plan_stages [OF sample_plan_built] sample_stages)

text \<open>
  C5: a plan that was built is executable exactly when the request is admissible: the artifact belongs
  to the component, every requested target is known and named once, the target and stage limits of
  the policy hold, every target passes the component, platform, capability, strategy and version checks,
  every member of a rolling upgrade has a partner in its group, and irreversible steps are
  acknowledged.  The rejection list misses no reason and invents none.
\<close>

theorem plan_executable_iff_admissible:
  assumes "build_plan req snap (Some p) now = Inr plan"
  shows "plan_executable plan \<longleftrightarrow> plan_admissible req snap p"
  by (rule build_plan_executable [OF assms])

theorem plan_executable_iff_admissible_witness:
  "plan_executable sample_plan \<and> plan_admissible sample_request sample_inventory sample_policy"
  using plan_executable_iff_admissible [OF sample_plan_built] sample_admissible by simp

text \<open>Each stage has targets and one bound on the activations in flight, that of the request.\<close>

definition stage_parallelism :: "upgrade_plan_request \<Rightarrow> nat" where
  "stage_parallelism req =
     (if req_strategy req = SK_restart_based \<or> req_max_parallel req = 0 then 1 else unat (req_max_parallel req))"

lemma rolling_waves_nonempty: "(i, w) \<in> set (rolling_waves groups j) \<Longrightarrow> w \<noteq> []"
proof (induction groups j rule: rolling_waves.induct)
  case (1 groups j)
  from 1(2) show ?case
    by (subst (asm) rolling_waves_unfold) (auto split: if_splits dest: 1(1))
qed

lemma make_stage_parallel [simp]:
  "stg_max_parallel (make_stage c i ts a k m) = (if m = 0 then 1 else m)"
  by (simp add: make_stage_def Let_def)

lemma plan_stages_shape:
  assumes "sel \<noteq> []" "stage \<in> set (plan_stages req sel)"
  shows "stg_targets stage \<noteq> []" "unat (stg_max_parallel stage) = stage_parallelism req"
  using assms
  by (auto simp: plan_stages_def stage_parallelism_def Let_def dest: rolling_waves_nonempty split: strategy_kind.splits)

text \<open>
  C13: the stages of an executable plan partition the requested targets: no target is in two stages or
  twice in one, no stage is empty, and the targets of all stages are the requested ones (or, when none is named, the
  targets of the component in the inventory); and every stage carries as its limit of parallel activations the one
  requested, taken as one when it is zero, and always one when the targets are restarted one by one.
\<close>

theorem plan_stages_partition:
  assumes "build_plan req snap (Some p) now = Inr plan" "plan_executable plan"
  shows "distinct (concat (map stg_targets (pln_stages plan))) \<and>
    set (concat (map stg_targets (pln_stages plan))) =
      (if req_targets req = []
       then tgt_id ` {d \<in> set (inv_targets snap). tgt_component d = req_component req}
       else set (req_targets req)) \<and>
    (\<forall>stage \<in> set (pln_stages plan).
       stg_targets stage \<noteq> [] \<and> unat (stg_max_parallel stage) = stage_parallelism req \<and>
       (req_strategy req = SK_restart_based \<longrightarrow> length (stg_targets stage) = 1))"
proof -
  have adm: "plan_admissible req snap p" using assms build_plan_executable by blast
  have "set (concat (map stg_targets (pln_stages plan))) = tgt_id ` set (plan_selection req snap)"
    using mset_eq_setD [OF build_plan_partition(1) [OF assms]] by (simp only: list.set_map)
  moreover have "stg_targets stage \<noteq> []" "unat (stg_max_parallel stage) = stage_parallelism req"
    "req_strategy req = SK_restart_based \<Longrightarrow> length (stg_targets stage) = 1"
    if "stage \<in> set (pln_stages plan)" for stage
    using that plan_stages_shape [of "plan_selection req snap" stage req] adm
    by (auto simp: build_plan_stages [OF assms(1)] plan_admissible_def Let_def plan_stages_def)
  ultimately show ?thesis
    using build_plan_partition(2) [OF assms] plan_selection_requested [OF adm] by simp
qed

theorem plan_stages_partition_witness:
  "distinct (concat (map stg_targets (pln_stages sample_plan))) \<and>
   set (concat (map stg_targets (pln_stages sample_plan))) = {''a1'', ''a2'', ''b1'', ''b2''} \<and>
   list_all (\<lambda>stage. stg_targets stage \<noteq> [] \<and> unat (stg_max_parallel stage) = stage_parallelism sample_request)
     (pln_stages sample_plan)"
proof -
  note parts = plan_stages_partition [OF sample_plan_built sample_plan_executable]
  have "list_all (\<lambda>stage. stg_targets stage \<noteq> [] \<and> unat (stg_max_parallel stage) = stage_parallelism sample_request)
      (pln_stages sample_plan)"
    using parts by (simp add: list_all_iff)
  with parts show ?thesis unfolding sample_plan_stages by (simp add: sample_request_def) blast
qed

text \<open>
  C14: an executable rolling plan never upgrades two members of one redundancy group in the same
  stage.
\<close>

theorem rolling_stage_keeps_partner:
  assumes "build_plan req snap (Some p) now = Inr plan" "plan_executable plan"
    and "req_strategy req = SK_redundant_pair_rolling" "stage \<in> set (pln_stages plan)"
    and "d \<in> set (plan_selection req snap)" "e \<in> set (plan_selection req snap)"
    and "tgt_id d \<in> set (stg_targets stage)" "tgt_redundancy_group d = tgt_redundancy_group e"
    and "tgt_id d \<noteq> tgt_id e"
  shows "tgt_id e \<notin> set (stg_targets stage)"
proof
  assume e: "tgt_id e \<in> set (stg_targets stage)"
  have adm: "plan_admissible req snap p" using assms build_plan_executable by blast
  have "stage \<in> set (plan_stages req (plan_selection req snap))"
    using assms(4) by (simp add: build_plan_stages [OF assms(1)])
  then have "d = e"
    using plan_stages_separate [OF assms(3) _ _ assms(5,6,7) e assms(8)] adm
    by (simp add: plan_admissible_def Let_def)
  with assms(9) show False by simp
qed

theorem rolling_stage_keeps_partner_witness:
  "''a2'' \<notin> set (stg_targets (hd (pln_stages sample_plan)))"
proof -
  have ne: "pln_stages sample_plan \<noteq> []" using sample_plan_stages by auto
  then have hd: "stg_targets (hd (pln_stages sample_plan)) = [''a1'', ''b1'']"
    using sample_plan_stages by (cases "pln_stages sample_plan") auto
  have "tgt_id (sample_target ''a2'' ''left'') \<notin> set (stg_targets (hd (pln_stages sample_plan)))"
    by (rule rolling_stage_keeps_partner [OF sample_plan_built sample_plan_executable _ _,
          where d = "sample_target ''a1'' ''left''"])
      (use ne in \<open>simp_all add: hd sample_selection\<close>, simp_all add: sample_request_def)
  then show ?thesis by simp
qed

text \<open>
  Planning does not depend on the order in which the inventory lists its targets: two snapshots with
  the same targets, each named once, give the same plan, rejections included.
\<close>

theorem plan_order_independent:
  assumes "mset (inv_targets s) = mset (inv_targets s')" "distinct (map tgt_id (inv_targets s))"
  shows "build_plan req s p now = build_plan req s' p now"
  by (rule build_plan_perm [OF assms])

theorem plan_order_independent_witness:
  "build_plan sample_request (sample_inventory\<lparr>inv_targets := rev (inv_targets sample_inventory)\<rparr>)
     (Some sample_policy) 2000 = Inr sample_plan"
  using plan_order_independent [of sample_inventory
      "sample_inventory\<lparr>inv_targets := rev (inv_targets sample_inventory)\<rparr>" sample_request
      "Some sample_policy" 2000] sample_plan_built
  by (simp add: sample_inventory_def)

end
