(* ===== verification/Engine_Preflight.thy ===== *)
theory Engine_Preflight
  imports Ports
begin

text \<open>
  Preflight (\<open>engine/preflight\<close>): the gates a campaign has to pass before it may be started, the
  report with its blockers and target verdicts, and the ticket bound to the generation, the epoch and
  the process incarnation.  A report passes exactly when every gate does.
\<close>

record preflight_input =
  pfi_campaign :: "campaign_record option"
  pfi_plan :: "upgrade_plan option"
  pfi_policy :: "policy option"
  pfi_inventory :: inventory_snapshot
  pfi_integrity :: integrity_assessment
  pfi_payload :: artifact_payload
  pfi_verdicts :: "string \<rightharpoonup> compatibility_verdict"
  pfi_now :: timestamp
  pfi_incarnation :: u64
  pfi_epoch :: u64
  pfi_registry_integrated :: bool
  pfi_drain_integrated :: bool
  pfi_source_integrated :: bool
  pfi_evidence_fresh :: bool

definition no_integrity :: integrity_assessment where
  "no_integrity = \<lparr>int_verified = False, int_observed = [], int_declared = [], int_bytes = 0,
                   int_detail = []\<rparr>"

record preflight_report =
  pfr_campaign :: campaign_id
  pfr_generation :: u64
  pfr_incarnation :: u64
  pfr_epoch :: u64
  pfr_authority :: authority_id
  pfr_passed :: bool
  pfr_issued_at :: timestamp
  pfr_expires_at :: timestamp
  pfr_integrity :: integrity_assessment
  pfr_targets :: "preflight_target_verdict list"
  pfr_blockers :: "string list"
  pfr_skew :: skew_assessment
  pfr_fingerprint :: string
  pfr_policy :: string
  pfr_policy_revision :: u64

definition empty_report :: preflight_report where
  "empty_report =
     \<lparr>pfr_campaign = [], pfr_generation = 0, pfr_incarnation = 0, pfr_epoch = 0, pfr_authority = [],
      pfr_passed = False, pfr_issued_at = 0, pfr_expires_at = 0, pfr_integrity = no_integrity,
      pfr_targets = [], pfr_blockers = [], pfr_skew = skew_initial, pfr_fingerprint = [],
      pfr_policy = [], pfr_policy_revision = 0\<rparr>"

definition report_ticket :: "preflight_report \<Rightarrow> preflight_ticket" where
  "report_ticket r =
     \<lparr>tik_campaign = pfr_campaign r, tik_generation = pfr_generation r,
      tik_incarnation = pfr_incarnation r, tik_epoch = pfr_epoch r, tik_issued_at = pfr_issued_at r,
      tik_expires_at = pfr_expires_at r, tik_fingerprint = pfr_fingerprint r,
      tik_passed = pfr_passed r, tik_authority = pfr_authority r, tik_policy = pfr_policy r,
      tik_policy_revision = pfr_policy_revision r\<rparr>"

definition report_to_json :: "preflight_report \<Rightarrow> json" where
  "report_to_json r = json_build
     [(''campaign_id'', JString (pfr_campaign r)), (''generation'', JUint (pfr_generation r)),
      (''incarnation'', JUint (pfr_incarnation r)), (''epoch'', JUint (pfr_epoch r)),
      (''authority'', JString (pfr_authority r)), (''passed'', JBool (pfr_passed r)),
      (''issued_at'', JString (to_iso8601 (pfr_issued_at r))),
      (''expires_at'', JString (to_iso8601 (pfr_expires_at r))),
      (''integrity'', integrity_to_json (pfr_integrity r)),
      (''targets'', json_list verdict_to_json (pfr_targets r)),
      (''blockers'', json_list JString (pfr_blockers r)),
      (''skew'', assessment_to_json (pfr_skew r)), (''fingerprint'', JString (pfr_fingerprint r)),
      (''policy'', JString (pfr_policy r)), (''policy_revision'', JUint (pfr_policy_revision r))]"

subsection \<open>The gates\<close>

definition preflight_live :: "inventory_snapshot \<Rightarrow> upgrade_plan \<Rightarrow> (string \<times> version) list" where
  "preflight_live snap plan =
     map (\<lambda>d. (tgt_id d, tgt_installed_version d))
       (filter (\<lambda>d. tgt_component d = pln_component plan) (inv_targets snap))"

definition preflight_planned :: "inventory_snapshot \<Rightarrow> upgrade_plan \<Rightarrow> target_descriptor list" where
  "preflight_planned snap plan =
     sort_key tgt_id (List.map_filter (inv_find snap) (concat (map stg_targets (pln_stages plan))))"

text \<open>Compatible, rollback available, and the reasons the registry gives.\<close>

definition registry_findings ::
    "preflight_input \<Rightarrow> upgrade_plan \<Rightarrow> target_descriptor \<Rightarrow> bool \<times> bool \<times> string list" where
  "registry_findings inp plan d =
     (if \<not> pfi_registry_integrated inp
      then (False, False, [''compatibility registry is not integrated''])
      else
        (case pfi_verdicts inp (tgt_id d) of
           None \<Rightarrow> (False, False, [''the compatibility registry did not answer for this target''])
         | Some v \<Rightarrow>
             if \<not> cv_answered v
             then (False, False, [''the compatibility registry did not answer for this target''])
             else
               (cv_compatible v,
                cv_rollback_supported v \<or> rbc_rollback_artifact (art_rollback (pln_artifact plan)) \<noteq> [] \<or>
                  rbc_reversible (art_rollback (pln_artifact plan)),
                map (\<lambda>b. ''registry: '' @ b) (cv_blockers v) @
                (if \<not> cv_compatible v
                 then [''registry revision '' @ cv_registry_revision v @
                       '' declares this upgrade incompatible'']
                 else []))))"

definition preflight_verdict ::
    "preflight_input \<Rightarrow> upgrade_plan \<Rightarrow> target_descriptor \<Rightarrow> preflight_target_verdict" where
  "preflight_verdict inp plan d =
     (let a = pln_artifact plan;
          missing = filter (\<lambda>c. \<not> has_capability d (cap_name c)) (art_capabilities a);
          (compatible, rollback, reasons) = registry_findings inp plan d;
          platform = supported_on a (tgt_platform d);
          strategy = claims_support (tgt_claims d) (pln_strategy plan)
      in \<lparr>ptv_target = tgt_id d, ptv_compatible = compatible,
          ptv_integrity_verified = int_verified (pfi_integrity inp),
          ptv_platform_supported = platform, ptv_strategy_supported = strategy,
          ptv_capabilities_satisfied = (missing = []), ptv_rollback_available = rollback,
          ptv_reasons =
            map (\<lambda>c. ''missing capability '' @ cap_name c) missing @ reasons @
            (if \<not> platform then [''artifact does not declare platform '' @ tgt_platform d] else []) @
            (if \<not> strategy
             then [''adapter does not claim strategy '' @ strategy_kind_name (pln_strategy plan)]
             else []) @
            (if \<not> rollback
             then [''no rollback path is declared for this target; the campaign may still proceed but rollback will be refused'']
             else [])\<rparr>)"

definition admission_blockers ::
    "preflight_input \<Rightarrow> upgrade_plan \<Rightarrow> policy \<Rightarrow> string list" where
  "admission_blockers inp plan p =
     map (\<lambda>r. ''plan rejected: '' @ plan_rejection_name (prj_code r) @ '' for '' @ prj_subject r @
              '': '' @ prj_detail r) (pln_rejections plan) @
     (if \<not> pfi_source_integrated inp
      then [''artifact source is not integrated: artifact bytes cannot be resolved or verified'']
      else if \<not> apl_present (pfi_payload inp)
      then [''artifact payload is unavailable: '' @ apl_detail (pfi_payload inp)] else []) @
     (if \<not> int_verified (pfi_integrity inp)
      then [''artifact integrity is not verified: '' @ int_detail (pfi_integrity inp)] else []) @
     (if pol_require_signature_declaration p \<and> \<not> sig_declared (art_provenance (pln_artifact plan))
      then [''the artifact declares no signer provenance and the policy requires it''] else []) @
     (if \<not> pfi_registry_integrated inp
      then [''the Fabric Compatibility Registry is not integrated: compatibility cannot be asserted'']
      else []) @
     (if \<not> pfi_evidence_fresh inp then [''compatibility evidence is not fresh''] else []) @
     (if list_ex stg_requires_service_removal (pln_stages plan) \<and> \<not> pfi_drain_integrated inp
      then [''the plan requires service removal but the Drain/Maintenance Fabric is not integrated'']
      else [])"

definition target_blockers ::
    "preflight_target_verdict list \<Rightarrow> skew_assessment \<Rightarrow> string list" where
  "target_blockers verdicts skew =
     (if verdicts = [] then [''no target could be resolved from the current inventory''] else []) @
     map (\<lambda>v. ''target '' @ ptv_target v @ '' is not admissible: '' @
              (if ptv_reasons v = [] then ''unspecified'' else hd (ptv_reasons v)))
       (filter (\<lambda>v. \<not> ptv_admissible v) verdicts) @
     (if \<not> sa_within_budget skew
      then [''the planned version mix exceeds the skew budget: '' @ sa_summary skew] else [])"

definition preflight_material ::
    "preflight_report \<Rightarrow> upgrade_plan \<Rightarrow> inventory_snapshot \<Rightarrow> json" where
  "preflight_material r plan snap = json_build
     [(''campaign'', JString (pfr_campaign r)), (''generation'', JUint (pfr_generation r)),
      (''epoch'', JUint (pfr_epoch r)), (''artifact'', JString (art_digest (pln_artifact plan))),
      (''inventory_revision'', JUint (inv_revision snap)), (''passed'', JBool (pfr_passed r)),
      (''targets'', json_list verdict_to_json (pfr_targets r)),
      (''blockers'', json_list JString (pfr_blockers r))]"

definition run_preflight :: "preflight_input \<Rightarrow> preflight_report" where
  "run_preflight inp =
     (case (pfi_campaign inp, pfi_plan inp, pfi_policy inp) of
        (Some c, Some plan, Some p) \<Rightarrow>
          (let snap = pfi_inventory inp;
               skew = assess_skew (pln_skew_budget plan) (preflight_live snap plan)
                        (art_version (pln_artifact plan));
               verdicts = map (preflight_verdict inp plan) (preflight_planned snap plan);
               blockers = admission_blockers inp plan p @ target_blockers verdicts skew;
               report =
                 \<lparr>pfr_campaign = cmp_id c, pfr_generation = cmp_generation c,
                  pfr_incarnation = pfi_incarnation inp, pfr_epoch = pfi_epoch inp,
                  pfr_authority = cmp_authority c, pfr_passed = (blockers = []),
                  pfr_issued_at = pfi_now inp,
                  pfr_expires_at = pfi_now inp + pol_preflight_validity p,
                  pfr_integrity = pfi_integrity inp, pfr_targets = verdicts,
                  pfr_blockers = blockers, pfr_skew = skew, pfr_fingerprint = [],
                  pfr_policy = pol_id p, pfr_policy_revision = pol_revision p\<rparr>
           in report\<lparr>pfr_fingerprint :=
                sha256_hex (json_dump (preflight_material report plan snap))\<rparr>)
      | _ \<Rightarrow> empty_report\<lparr>pfr_blockers := [''preflight requires a campaign, a plan and a policy'']\<rparr>)"

subsection \<open>What passing means\<close>

definition preflight_target_ok :: "preflight_input \<Rightarrow> upgrade_plan \<Rightarrow> target_descriptor \<Rightarrow> bool" where
  "preflight_target_ok inp plan d \<longleftrightarrow>
     (\<exists>v. pfi_verdicts inp (tgt_id d) = Some v \<and> cv_answered v \<and> cv_compatible v) \<and>
     tgt_platform d \<in> set (art_platforms (pln_artifact plan)) \<and>
     pln_strategy plan \<in> set (acl_strategies (tgt_claims d)) \<and>
     (\<forall>c \<in> set (art_capabilities (pln_artifact plan)). cap_name c \<in> set (tgt_capabilities d))"

definition preflight_gates :: "preflight_input \<Rightarrow> bool" where
  "preflight_gates inp \<longleftrightarrow>
     (\<exists>c plan p. pfi_campaign inp = Some c \<and> pfi_plan inp = Some plan \<and> pfi_policy inp = Some p \<and>
        plan_executable plan \<and>
        pfi_source_integrated inp \<and> apl_present (pfi_payload inp) \<and>
        int_verified (pfi_integrity inp) \<and>
        (pol_require_signature_declaration p \<longrightarrow> sig_declared (art_provenance (pln_artifact plan))) \<and>
        pfi_registry_integrated inp \<and> pfi_evidence_fresh inp \<and>
        ((\<exists>s \<in> set (pln_stages plan). stg_requires_service_removal s) \<longrightarrow> pfi_drain_integrated inp) \<and>
        preflight_planned (pfi_inventory inp) plan \<noteq> [] \<and>
        (\<forall>d \<in> set (preflight_planned (pfi_inventory inp) plan). preflight_target_ok inp plan d) \<and>
        (\<forall>e \<in> set (preflight_live (pfi_inventory inp) plan).
           skew_entry_ok (pln_skew_budget plan) (art_version (pln_artifact plan)) e))"

lemma registry_compatible:
  "fst (registry_findings inp plan d) \<longleftrightarrow>
     pfi_registry_integrated inp \<and>
     (\<exists>v. pfi_verdicts inp (tgt_id d) = Some v \<and> cv_answered v \<and> cv_compatible v)"
  by (simp add: registry_findings_def split: option.split)

lemma preflight_verdict_admissible:
  "ptv_admissible (preflight_verdict inp plan d) \<longleftrightarrow>
     int_verified (pfi_integrity inp) \<and> pfi_registry_integrated inp \<and> preflight_target_ok inp plan d"
proof -
  obtain a b e where f: "registry_findings inp plan d = (a, b, e)" by (cases "registry_findings inp plan d")
  have a: "a \<longleftrightarrow> pfi_registry_integrated inp \<and>
      (\<exists>v. pfi_verdicts inp (tgt_id d) = Some v \<and> cv_answered v \<and> cv_compatible v)"
    using registry_compatible [of inp plan d] by (simp add: f)
  show ?thesis
    by (auto simp: preflight_verdict_def Let_def f a ptv_admissible_def preflight_target_ok_def supported_on_def list_ex_iff claims_support_iff has_capability_def
        filter_empty_conv)
qed

lemma admission_blockers_Nil:
  "admission_blockers inp plan p = [] \<longleftrightarrow>
     plan_executable plan \<and> pfi_source_integrated inp \<and> apl_present (pfi_payload inp) \<and>
     int_verified (pfi_integrity inp) \<and>
     (pol_require_signature_declaration p \<longrightarrow> sig_declared (art_provenance (pln_artifact plan))) \<and>
     pfi_registry_integrated inp \<and> pfi_evidence_fresh inp \<and>
     ((\<exists>s \<in> set (pln_stages plan). stg_requires_service_removal s) \<longrightarrow> pfi_drain_integrated inp)"
  by (auto simp: admission_blockers_def plan_executable_def list_ex_iff)

lemma target_blockers_Nil:
  "target_blockers vs skew = [] \<longleftrightarrow>
     vs \<noteq> [] \<and> (\<forall>v \<in> set vs. ptv_admissible v) \<and> sa_within_budget skew"
  by (auto simp: target_blockers_def filter_empty_conv)

lemma run_preflight_passed:
  "pfr_passed (run_preflight inp) \<longleftrightarrow> pfr_blockers (run_preflight inp) = []"
  by (simp add: run_preflight_def Let_def empty_report_def split: option.split)

lemma run_preflight_gates: "pfr_passed (run_preflight inp) \<longleftrightarrow> preflight_gates inp"
proof (cases "\<exists>c plan p. pfi_campaign inp = Some c \<and> pfi_plan inp = Some plan \<and> pfi_policy inp = Some p")
  case True
  then obtain c plan p where i: "pfi_campaign inp = Some c" "pfi_plan inp = Some plan" "pfi_policy inp = Some p"
    by blast
  show ?thesis
    by (auto simp: run_preflight_def i Let_def admission_blockers_Nil target_blockers_Nil
        preflight_verdict_admissible assess_skew_within preflight_gates_def)
next
  case False
  then show ?thesis
    by (auto simp: run_preflight_def preflight_gates_def empty_report_def split: option.split)
qed

text \<open>
  C11: preflight passes exactly when every gate does: the plan is executable, the artifact source is
  there, its payload is present and its integrity is verified, the signature declaration the policy wants is there,
  the compatibility registry is wired and answered yes for every planned target, the drain fabric is
  wired when a stage removes a service, every planned target still offers the platform, strategy and
  capabilities, and the live version mix is inside the skew budget.  A missing answer, a missing port or
  an empty target list blocks: preflight fails closed.
\<close>

theorem preflight_passes_iff_gates: "pfr_passed (run_preflight inp) \<longleftrightarrow> preflight_gates inp"
  by (rule run_preflight_gates)

lemma run_preflight_bound:
  assumes "pfi_campaign inp = Some c" "pfi_plan inp = Some plan" "pfi_policy inp = Some p"
  shows "report_ticket (run_preflight inp) =
    \<lparr>tik_campaign = cmp_id c, tik_generation = cmp_generation c, tik_incarnation = pfi_incarnation inp,
     tik_epoch = pfi_epoch inp, tik_issued_at = pfi_now inp,
     tik_expires_at = pfi_now inp + pol_preflight_validity p,
     tik_fingerprint = pfr_fingerprint (run_preflight inp), tik_passed = preflight_gates inp,
     tik_authority = cmp_authority c, tik_policy = pol_id p, tik_policy_revision = pol_revision p\<rparr>"
  using run_preflight_gates [of inp]
  by (simp add: run_preflight_def assms Let_def report_ticket_def)

end
