(* ===== verification/Engine_Verification.thy ===== *)
theory Engine_Verification
  imports Ports
begin

text \<open>
  Post-activation verification (\<open>engine/verification\<close>): what an adapter reports after an activation, the
  version, build, freshness and health findings, and the verdict.  An installer that says it
  succeeded does not make a target verified.
\<close>

record verification_input =
  vfi_artifact :: "artifact_descriptor option"
  vfi_outcome :: verify_outcome
  vfi_policy :: "policy option"
  vfi_now :: timestamp
  vfi_incarnation :: u64
  vfi_require_health :: bool
  vfi_health :: health_report

definition has_health_evidence :: "verification_input \<Rightarrow> bool" where
  "has_health_evidence inp \<longleftrightarrow> hr_observed_at (vfi_health inp) \<noteq> 0"

record verification_result =
  vfr_verified :: bool
  vfr_freshness :: freshness_verdict
  vfr_failures :: "string list"
  vfr_summary :: string

definition no_freshness :: freshness_verdict where
  "no_freshness = \<lparr>fre_fresh = False, fre_age = 0, fre_reason = []\<rparr>"

definition verification_to_json :: "verification_result \<Rightarrow> json" where
  "verification_to_json r = json_build
     [(''verified'', JBool (vfr_verified r)), (''summary'', JString (vfr_summary r)),
      (''freshness'', freshness_to_json (vfr_freshness r)),
      (''failures'', json_list JString (vfr_failures r))]"

definition identity_failures :: "artifact_descriptor \<Rightarrow> verify_outcome \<Rightarrow> string list" where
  "identity_failures a v =
     (if \<not> vo_verified v then [''adapter did not confirm the activation: '' @ vo_detail v] else []) @
     (if \<not> ver_eq (vo_observed_version v) (art_version a)
      then [''observed version '' @ ver_text (vo_observed_version v) @
            '' does not match the artifact version '' @ ver_text (art_version a)] else []) @
     (if art_build a \<noteq> [] \<and> vo_observed_build v \<noteq> [] \<and> vo_observed_build v \<noteq> art_build a
      then [''observed build '' @ vo_observed_build v @ '' does not match the artifact build '' @
            art_build a] else []) @
     (if vo_observed_build v = []
      then [''the adapter did not report a build identity after activation''] else [])"

definition health_failures :: "verification_input \<Rightarrow> string list" where
  "health_failures inp =
     (if \<not> vfi_require_health inp then []
      else
        (if \<not> vo_healthy (vfi_outcome inp)
         then [''the adapter reported the target as unhealthy after activation''] else []) @
        (if \<not> has_health_evidence inp then []
         else
           (let h = vfi_health inp;
                freshness = evaluate_freshness (hr_observed_at h) (hr_validity h) (hr_incarnation h)
                              (vfi_now inp) (vfi_incarnation inp)
            in (if \<not> fre_fresh freshness
                then [''health evidence is not fresh: '' @ fre_reason freshness] else []) @
               (if \<not> hr_healthy h
                then [''the health gate reports the target as unhealthy: '' @ hr_detail h] else []))))"

definition assess_verification :: "verification_input \<Rightarrow> verification_result" where
  "assess_verification inp =
     (case (vfi_artifact inp, vfi_policy inp) of
        (Some a, Some p) \<Rightarrow>
          (let v = vfi_outcome inp;
               freshness = evaluate_freshness (vo_observed_at v) (vo_validity v) (vo_incarnation v)
                             (vfi_now inp) (vfi_incarnation inp);
               failures = identity_failures a v @
                 (if \<not> fre_fresh freshness
                  then [''verification evidence is not fresh: '' @ fre_reason freshness] else []) @
                 health_failures inp
           in \<lparr>vfr_verified = (failures = []), vfr_freshness = freshness, vfr_failures = failures,
               vfr_summary =
                 (if failures = []
                  then ''post-activation verification passed for '' @ ver_text (vo_observed_version v) @
                       '' (build '' @ vo_observed_build v @ '')''
                  else ''post-activation verification failed with '' @ dec_digits (length failures) @
                       '' finding(s)'')\<rparr>)
      | _ \<Rightarrow> \<lparr>vfr_verified = False, vfr_freshness = no_freshness, vfr_failures = [''missing-input''],
              vfr_summary = ''verification requires an artifact and a policy''\<rparr>)"

subsection \<open>What verified means\<close>

definition evidence_current :: "timestamp \<Rightarrow> duration \<Rightarrow> u64 \<Rightarrow> timestamp \<Rightarrow> u64 \<Rightarrow> bool" where
  "evidence_current observed_at validity observed_in now current \<longleftrightarrow>
     observed_in = current \<and> 0 < validity \<and> observed_at \<le> now \<and> now \<le> observed_at + validity"

lemma freshness_current:
  "fre_fresh (evaluate_freshness t w i now current) \<longleftrightarrow> evidence_current t w i now current"
  by (simp add: evaluate_freshness_iff evidence_current_def)

definition verification_holds :: "verification_input \<Rightarrow> bool" where
  "verification_holds inp \<longleftrightarrow>
     (\<exists>a p. vfi_artifact inp = Some a \<and> vfi_policy inp = Some p \<and>
        (let v = vfi_outcome inp; h = vfi_health inp in
         vo_verified v \<and> ver_eq (vo_observed_version v) (art_version a) \<and>
         vo_observed_build v \<noteq> [] \<and> (art_build a = [] \<or> vo_observed_build v = art_build a) \<and>
         evidence_current (vo_observed_at v) (vo_validity v) (vo_incarnation v) (vfi_now inp)
           (vfi_incarnation inp) \<and>
         (vfi_require_health inp \<longrightarrow>
            vo_healthy v \<and>
            (hr_observed_at h = 0 \<or>
               hr_healthy h \<and>
               evidence_current (hr_observed_at h) (hr_validity h) (hr_incarnation h) (vfi_now inp)
                 (vfi_incarnation inp)))))"

lemma assess_verification_iff: "vfr_verified (assess_verification inp) \<longleftrightarrow> verification_holds inp"
  by (auto simp: assess_verification_def verification_holds_def Let_def identity_failures_def
      health_failures_def freshness_current has_health_evidence_def split: option.splits)

text \<open>
  C12: a target is verified exactly when the adapter confirmed the activation, the observed version is the
  artifact's, a build identity was reported and agrees with the artifact's, the evidence is fresh in
  this incarnation, and, where health is required, the target is healthy and any health evidence there is is
  fresh and healthy.  The adapter's own confirmation is necessary and never enough.
\<close>

theorem verified_iff_evidence_holds:
  "vfr_verified (assess_verification inp) \<longleftrightarrow> verification_holds inp"
  by (rule assess_verification_iff)

lemma stale_incarnation_never_verifies:
  "vo_incarnation (vfi_outcome inp) \<noteq> vfi_incarnation inp \<Longrightarrow> \<not> vfr_verified (assess_verification inp)"
  by (auto simp: assess_verification_iff verification_holds_def evidence_current_def Let_def)

end
