(* ===== verification/Engine_Reconcile.thy ===== *)
theory Engine_Reconcile
  imports Model_Campaign
begin

text \<open>
  Restart reconciliation (\<open>engine/reconcile\<close>): which attempts are abandoned, which campaigns are
  blocked and which preflight tickets are dropped when a new process incarnation starts.
\<close>

datatype reconcile_kind = RK_abandon_attempt | RK_block_campaign | RK_invalidate_ticket | RK_note

fun reconcile_kind_name :: "reconcile_kind \<Rightarrow> string" where
  "reconcile_kind_name RK_abandon_attempt = ''abandon-attempt''"
| "reconcile_kind_name RK_block_campaign = ''block-campaign''"
| "reconcile_kind_name RK_invalidate_ticket = ''invalidate-ticket''"
| "reconcile_kind_name RK_note = ''note''"

record reconcile_action =
  rca_kind :: reconcile_kind
  rca_subject :: string
  rca_reason :: string

record reconcile_report =
  rcr_actions :: "reconcile_action list"
  rcr_abandoned :: nat
  rcr_blocked :: nat
  rcr_invalidated :: nat
  rcr_incarnation :: u64

definition action_to_json :: "reconcile_action \<Rightarrow> json" where
  "action_to_json a = json_build
     [(''kind'', JString (reconcile_kind_name (rca_kind a))), (''subject'', JString (rca_subject a)),
      (''reason'', JString (rca_reason a))]"

definition reconcile_to_json :: "reconcile_report \<Rightarrow> json" where
  "reconcile_to_json r = json_build
     [(''abandoned_attempts'', JUint (word_of_nat (rcr_abandoned r))),
      (''blocked_campaigns'', JUint (word_of_nat (rcr_blocked r))),
      (''invalidated_tickets'', JUint (word_of_nat (rcr_invalidated r))),
      (''incarnation'', JUint (rcr_incarnation r)),
      (''actions'', json_list action_to_json (rcr_actions r))]"

definition reconcile_attempt :: "u64 \<Rightarrow> reconcile_report \<Rightarrow> attempt_record \<Rightarrow> reconcile_report" where
  "reconcile_attempt current r a =
     (if \<not> attempt_state_is_in_flight (att_state a) then r
      else if att_owner a \<noteq> current
      then r\<lparr>rcr_actions := rcr_actions r @
               [\<lparr>rca_kind = RK_abandon_attempt, rca_subject = att_id a,
                 rca_reason = ''attempt was owned by incarnation '' @ u64_to_string (att_owner a) @
                   '' and cannot be resumed by incarnation '' @ u64_to_string current\<rparr>],
             rcr_abandoned := rcr_abandoned r + 1\<rparr>
      else r)"

definition campaign_interrupted :: "upgrade_state \<Rightarrow> bool" where
  "campaign_interrupted s \<longleftrightarrow> s = US_activating \<or> s = US_verifying \<or> s = US_rolling_back"

definition reconcile_block :: "reconcile_report \<Rightarrow> campaign_record \<Rightarrow> reconcile_report" where
  "reconcile_block r c =
     (if campaign_interrupted (cmp_state c)
      then r\<lparr>rcr_actions := rcr_actions r @
               [\<lparr>rca_kind = RK_block_campaign, rca_subject = cmp_id c,
                 rca_reason = ''campaign was '' @ upgrade_state_name (cmp_state c) @
                   '' when incarnation '' @ u64_to_string (cmp_owner_incarnation c) @
                   '' stopped; it is blocked until an operator resumes it under a fresh preflight''\<rparr>],
             rcr_blocked := rcr_blocked r + 1\<rparr>
      else r)"

definition ticket_lapsed :: "u64 \<Rightarrow> timestamp \<Rightarrow> preflight_ticket \<Rightarrow> bool" where
  "ticket_lapsed current now t \<longleftrightarrow>
     tik_issued_at t \<noteq> 0 \<and> (tik_incarnation t \<noteq> current \<or> tik_expires_at t < now)"

definition reconcile_ticket ::
    "u64 \<Rightarrow> timestamp \<Rightarrow> reconcile_report \<Rightarrow> campaign_record \<Rightarrow> reconcile_report" where
  "reconcile_ticket current now r c =
     (let t = cmp_ticket c in
      if ticket_lapsed current now t
      then r\<lparr>rcr_actions := rcr_actions r @
               [\<lparr>rca_kind = RK_invalidate_ticket, rca_subject = cmp_id c,
                 rca_reason =
                   (if tik_incarnation t \<noteq> current
                    then ''preflight ticket was issued in incarnation '' @
                         u64_to_string (tik_incarnation t)
                    else ''preflight ticket expired while the runtime was not running'')\<rparr>],
             rcr_invalidated := rcr_invalidated r + 1\<rparr>
      else r)"

definition plan_reconciliation ::
    "campaign_record list \<Rightarrow> attempt_record list \<Rightarrow> u64 \<Rightarrow> timestamp \<Rightarrow> reconcile_report" where
  "plan_reconciliation campaigns attempts current now =
     (let r0 = \<lparr>rcr_actions = [], rcr_abandoned = 0, rcr_blocked = 0, rcr_invalidated = 0,
                rcr_incarnation = current\<rparr>;
          r1 = foldl (reconcile_attempt current) r0 attempts
      in foldl (\<lambda>r c. reconcile_ticket current now (reconcile_block r c) c) r1 campaigns)"

subsection \<open>Subjects of the actions\<close>

definition actions_on :: "reconcile_kind \<Rightarrow> reconcile_report \<Rightarrow> string list" where
  "actions_on k r = map rca_subject (filter (\<lambda>a. rca_kind a = k) (rcr_actions r))"

definition attempt_orphaned :: "u64 \<Rightarrow> attempt_record \<Rightarrow> bool" where
  "attempt_orphaned current a \<longleftrightarrow> attempt_state_is_in_flight (att_state a) \<and> att_owner a \<noteq> current"

lemma reconcile_attempts_subjects:
  "actions_on k (foldl (reconcile_attempt current) r as) =
     actions_on k r @ (if k = RK_abandon_attempt then map att_id (filter (attempt_orphaned current) as) else [])"
  "rcr_abandoned (foldl (reconcile_attempt current) r as) =
     rcr_abandoned r + length (filter (attempt_orphaned current) as)"
  "rcr_blocked (foldl (reconcile_attempt current) r as) = rcr_blocked r"
  "rcr_invalidated (foldl (reconcile_attempt current) r as) = rcr_invalidated r"
  by (induction as arbitrary: r)
    (auto simp: reconcile_attempt_def actions_on_def attempt_orphaned_def)

lemma reconcile_campaign_subjects:
  fixes current now
  defines "step \<equiv> \<lambda>r c. reconcile_ticket current now (reconcile_block r c) c"
  shows "actions_on RK_abandon_attempt (foldl step r cs) = actions_on RK_abandon_attempt r"
    "actions_on RK_block_campaign (foldl step r cs) =
       actions_on RK_block_campaign r @ map cmp_id (filter (\<lambda>c. campaign_interrupted (cmp_state c)) cs)"
    "actions_on RK_invalidate_ticket (foldl step r cs) =
       actions_on RK_invalidate_ticket r @ map cmp_id (filter (\<lambda>c. ticket_lapsed current now (cmp_ticket c)) cs)"
    "rcr_abandoned (foldl step r cs) = rcr_abandoned r"
    "rcr_blocked (foldl step r cs) = rcr_blocked r + length (filter (\<lambda>c. campaign_interrupted (cmp_state c)) cs)"
    "rcr_invalidated (foldl step r cs) =
       rcr_invalidated r + length (filter (\<lambda>c. ticket_lapsed current now (cmp_ticket c)) cs)"
  by (induction cs arbitrary: r)
    (simp_all add: step_def reconcile_ticket_def reconcile_block_def actions_on_def Let_def)

end
