(* ===== verification/Core_Fs.thy ===== *)
theory Core_Fs
  imports Core_Ids
begin

text \<open>
  The parts of \<open>core/fs\<close> that decide something: joining paths, the bounded whole-file read and the
  append-only writer with its size limit.  What the operating system does with a request is an
  argument: a write may be cut short and a flush or a sync may fail.
\<close>

definition fs_join :: "string \<Rightarrow> string \<Rightarrow> string" where
  "fs_join parent child =
     (if parent = [] then child
      else if child = [] then parent
      else (if last parent \<noteq> CHR ''/'' \<and> last parent \<noteq> CHR 0x5C then parent @ ''/'' else parent) @ child)"

definition fs_is_absolute :: "string \<Rightarrow> bool" where
  "fs_is_absolute path \<longleftrightarrow>
     (length path \<ge> 2 \<and> path ! 1 = CHR '':'') \<or>
     (path \<noteq> [] \<and> (hd path = CHR ''/'' \<or> hd path = CHR 0x5C))"

text \<open>\<open>read_file\<close> of a file with the given content, which the system reads in full.\<close>

definition fs_read_file :: "string \<Rightarrow> u64 \<Rightarrow> string result" where
  "fs_read_file content max_bytes =
     fum_try (require_bound (word_of_nat (length content)) max_bytes ''file size'') (\<lambda>_. Inr content)"

subsection \<open>The append-only writer\<close>

datatype disk =
    Disk_ok
  | Disk_short nat
  | Disk_flush_fails
  | Disk_sync_fails

record file_writer =
  fw_open :: bool
  fw_path :: string
  fw_limit :: u64
  fw_written :: u64
  fw_bytes :: string

definition no_writer :: file_writer where
  "no_writer = \<lparr>fw_open = False, fw_path = [], fw_limit = 0, fw_written = 0, fw_bytes = []\<rparr>"

definition writer_open_append :: "string \<Rightarrow> string \<Rightarrow> u64 \<Rightarrow> file_writer result" where
  "writer_open_append path content max_bytes =
     (let written = word_of_nat (length content)
      in if written > max_bytes
         then fail EC_resource_exhausted ''append target already exceeds the configured bound'' path
         else Inr \<lparr>fw_open = True, fw_path = path, fw_limit = max_bytes, fw_written = written,
                   fw_bytes = content\<rparr>)"

definition disk_accepts :: "disk \<Rightarrow> string \<Rightarrow> string" where
  "disk_accepts d data = (case d of Disk_short n \<Rightarrow> take n data | _ \<Rightarrow> data)"

definition writer_append :: "disk \<Rightarrow> file_writer \<Rightarrow> string \<Rightarrow> status \<times> file_writer" where
  "writer_append d w data =
     (if \<not> fw_open w then (fail EC_closed ''file writer is not open'' (fw_path w), w)
      else case add_u64 (fw_written w) (word_of_nat (length data)) of
        Inl e \<Rightarrow> (Inl e, w)
      | Inr projected \<Rightarrow>
          if projected > fw_limit w
          then (fail EC_resource_exhausted ''append would exceed the configured bound''
                  (fw_path w @ '': '' @ u64_to_string projected @ '' > '' @ u64_to_string (fw_limit w)), w)
          else
            (let got = disk_accepts d data; w' = w\<lparr>fw_bytes := fw_bytes w @ got\<rparr>
             in if length got \<noteq> length data
                then (fail EC_io_error ''short write during append'' (fw_path w), w')
                else (ok_status, w'\<lparr>fw_written := projected\<rparr>)))"

definition writer_flush :: "disk \<Rightarrow> file_writer \<Rightarrow> status" where
  "writer_flush d w =
     (if \<not> fw_open w then fail EC_closed ''file writer is not open'' (fw_path w)
      else if d = Disk_flush_fails then fail EC_io_error ''could not flush file'' (fw_path w)
      else ok_status)"

definition writer_sync :: "disk \<Rightarrow> file_writer \<Rightarrow> status" where
  "writer_sync d w =
     fum_try (writer_flush d w) (\<lambda>_.
       if d = Disk_sync_fails then fail EC_io_error ''could not flush file to disk'' (fw_path w)
       else ok_status)"

definition writer_close :: "disk \<Rightarrow> file_writer \<Rightarrow> status \<times> file_writer" where
  "writer_close d w =
     (if \<not> fw_open w then (ok_status, w) else (writer_sync d w, w\<lparr>fw_open := False\<rparr>))"

subsection \<open>What the writer keeps\<close>

text \<open>A writer that has not failed knows its file's size, which stays within the limit.\<close>

definition writer_wf :: "file_writer \<Rightarrow> bool" where
  "writer_wf w \<longleftrightarrow> unat (fw_written w) = length (fw_bytes w) \<and> fw_written w \<le> fw_limit w"

lemma writer_open_append_wf:
  "writer_open_append path content m = Inr w \<Longrightarrow> length content < 2 ^ 64 \<Longrightarrow>
   writer_wf w \<and> fw_open w \<and> fw_bytes w = content \<and> fw_limit w = m \<and> fw_path w = path"
  by (auto simp: writer_open_append_def writer_wf_def Let_def unat_of_nat take_bit_nat_eq_self not_less
      split: if_splits)

lemma writer_append_ok:
  assumes "writer_append d w data = (Inr u, w')" "writer_wf w" "length data < 2 ^ 64"
  shows "fw_bytes w' = fw_bytes w @ data \<and> writer_wf w' \<and> fw_open w' \<and> fw_limit w' = fw_limit w \<and>
    fw_path w' = fw_path w"
proof -
  have len: "unat (word_of_nat (length data) :: u64) = length data"
    using assms(3) by (simp add: unat_of_nat take_bit_nat_eq_self)
  from assms(1) obtain projected where p: "add_u64 (fw_written w) (word_of_nat (length data)) = Inr projected"
      "projected \<le> fw_limit w" "length (disk_accepts d data) = length data"
      "w' = w\<lparr>fw_bytes := fw_bytes w @ disk_accepts d data, fw_written := projected\<rparr>" "fw_open w"
    by (auto simp: writer_append_def Let_def fail_def not_less split: if_splits sum.splits)
  have data: "disk_accepts d data = data"
    using p(3) by (auto simp: disk_accepts_def split: disk.splits)
  have "unat projected = unat (fw_written w) + length data"
    using p(1) add_u64_guard [of "word_of_nat (length data)" "fw_written w"] len
    by (auto simp: add_u64_def unat_word_ariths split: if_splits)
  with assms(2) p data show ?thesis by (simp add: writer_wf_def)
qed

lemma writer_append_fails:
  "writer_append d w data = (Inl e, w') \<Longrightarrow>
   \<exists>n. fw_bytes w' = fw_bytes w @ take n data \<and> fw_written w' = fw_written w \<and> fw_open w' = fw_open w \<and>
     fw_limit w' = fw_limit w"
  by (auto simp: writer_append_def Let_def disk_accepts_def intro: exI [of _ 0] split: if_splits sum.splits disk.splits)

end
