(* ===== verification/Store_Journal.thy ===== *)
theory Store_Journal
  imports Core_Fs Core_Json_Roundtrip Core_Time Model_Lifecycle
begin

text \<open>
  The append-only journal (\<open>store/journal\<close>): the file header, the framing of a record with its length,
  checksum, chain digest and JSON payload, appending, and the replay that \<open>open\<close> runs over the bytes it
  finds.  The replay stops at the first frame it cannot trust.
\<close>

unbundle bit_operations_syntax

datatype journal_record_type =
    JT_boot
  | JT_epoch
  | JT_policy
  | JT_campaign
  | JT_attempt
  | JT_provenance
  | JT_decision
  | JT_ticket
  | JT_note
  | JT_snapshot
  | JT_shutdown

definition all_journal_record_types :: "journal_record_type list" where
  "all_journal_record_types =
     [JT_boot, JT_epoch, JT_policy, JT_campaign, JT_attempt, JT_provenance, JT_decision, JT_ticket,
      JT_note, JT_snapshot, JT_shutdown]"

text \<open>The switch has no case for \<open>snapshot\<close>.\<close>

fun journal_record_type_name :: "journal_record_type \<Rightarrow> string" where
  "journal_record_type_name JT_boot = ''boot''"
| "journal_record_type_name JT_epoch = ''epoch''"
| "journal_record_type_name JT_policy = ''policy''"
| "journal_record_type_name JT_campaign = ''campaign''"
| "journal_record_type_name JT_attempt = ''attempt''"
| "journal_record_type_name JT_provenance = ''provenance''"
| "journal_record_type_name JT_decision = ''decision''"
| "journal_record_type_name JT_ticket = ''ticket''"
| "journal_record_type_name JT_note = ''note''"
| "journal_record_type_name JT_shutdown = ''shutdown''"
| "journal_record_type_name JT_snapshot = ''unknown''"

definition parse_journal_record_type :: "string \<Rightarrow> journal_record_type result" where
  "parse_journal_record_type t =
     (case parse_by_name journal_record_type_name all_journal_record_types t of
        Some k \<Rightarrow> Inr k
      | None \<Rightarrow> fail EC_invalid_argument ''unknown journal record type'' t)"

record journal_options =
  jop_max_record_bytes :: u64
  jop_max_file_bytes :: u64
  jop_max_records :: nat
  jop_sync_on_append :: bool

definition default_journal_options :: journal_options where
  "default_journal_options =
     \<lparr>jop_max_record_bytes = 1048576, jop_max_file_bytes = 536870912, jop_max_records = 2000000,
      jop_sync_on_append = True\<rparr>"

record journal_record =
  jrc_sequence :: u64
  jrc_type :: journal_record_type
  jrc_at :: timestamp
  jrc_data :: json
  jrc_previous :: digest
  jrc_chain :: digest

record recovery_report =
  rcv_records_replayed :: nat
  rcv_truncated_tail :: bool
  rcv_bytes_ignored :: nat
  rcv_chain_valid :: bool
  rcv_sequence_valid :: bool
  rcv_clean_shutdown :: bool
  rcv_empty :: bool
  rcv_detail :: string
  rcv_damage_reason :: string
  rcv_last_sequence :: u64
  rcv_last_boot_incarnation :: u64
  rcv_last_epoch :: u64
  rcv_damaged_records :: nat
  rcv_rejected_records :: nat
  rcv_rejected_reason :: string

definition fresh_recovery :: recovery_report where
  "fresh_recovery =
     \<lparr>rcv_records_replayed = 0, rcv_truncated_tail = False, rcv_bytes_ignored = 0, rcv_chain_valid = True,
      rcv_sequence_valid = True, rcv_clean_shutdown = False, rcv_empty = True, rcv_detail = [],
      rcv_damage_reason = [], rcv_last_sequence = 0, rcv_last_boot_incarnation = 0, rcv_last_epoch = 0,
      rcv_damaged_records = 0, rcv_rejected_records = 0, rcv_rejected_reason = []\<rparr>"

definition recovery_to_json :: "recovery_report \<Rightarrow> json" where
  "recovery_to_json r = json_build
     [(''records_replayed'', JUint (word_of_nat (rcv_records_replayed r))),
      (''truncated_tail'', JBool (rcv_truncated_tail r)),
      (''bytes_ignored'', JUint (word_of_nat (rcv_bytes_ignored r))),
      (''chain_valid'', JBool (rcv_chain_valid r)), (''sequence_valid'', JBool (rcv_sequence_valid r)),
      (''clean_shutdown'', JBool (rcv_clean_shutdown r)), (''empty'', JBool (rcv_empty r)),
      (''detail'', JString (rcv_detail r)), (''damage_reason'', JString (rcv_damage_reason r)),
      (''last_sequence'', JUint (rcv_last_sequence r)),
      (''last_boot_incarnation'', JUint (rcv_last_boot_incarnation r)),
      (''last_epoch'', JUint (rcv_last_epoch r)),
      (''damaged_records'', JUint (word_of_nat (rcv_damaged_records r))),
      (''rejected_records'', JUint (word_of_nat (rcv_rejected_records r))),
      (''rejected_reason'', JString (rcv_rejected_reason r))]"

subsection \<open>Bytes\<close>

definition put_u32 :: "u32 \<Rightarrow> string" where
  "put_u32 v = map (\<lambda>i. char_of (unat (drop_bit (8 * i) v AND 0xFF))) [0, 1, 2, 3]"

definition put_u64 :: "u64 \<Rightarrow> string" where
  "put_u64 v = map (\<lambda>i. char_of (unat (drop_bit (8 * i) v AND 0xFF))) [0..<8]"

definition read_u32 :: "string \<Rightarrow> nat \<Rightarrow> u32" where
  "read_u32 buffer offset =
     byte_u32 (buffer ! offset) OR push_bit 8 (byte_u32 (buffer ! (offset + 1))) OR
     push_bit 16 (byte_u32 (buffer ! (offset + 2))) OR push_bit 24 (byte_u32 (buffer ! (offset + 3)))"

definition file_magic :: string where
  "file_magic = ''FUMJRNL1''"

definition record_magic :: string where
  "record_magic = ''FUMR''"

definition header_bytes :: nat where
  "header_bytes = 8 + 4 + 4 + 8"

definition record_prefix_bytes :: nat where
  "record_prefix_bytes = 4 + 4 + 4 + 32"

definition file_header :: "timestamp \<Rightarrow> string" where
  "file_header created = file_magic @ put_u32 1 @ put_u32 0 @ put_u64 (word_of_int created)"

subsection \<open>Replaying one frame\<close>

text \<open>What a damaged frame does to the report.\<close>

record frame_damage =
  fdm_reason :: string
  fdm_counted :: bool
  fdm_chain_broken :: bool
  fdm_sequence_broken :: bool

datatype frame_result =
    Frame_error error
  | Frame_damage frame_damage
  | Frame_record journal_record nat

definition damaged :: "string \<Rightarrow> frame_result" where
  "damaged reason = Frame_damage
     \<lparr>fdm_reason = reason, fdm_counted = True, fdm_chain_broken = False, fdm_sequence_broken = False\<rparr>"

definition damaged_unless :: "'a result \<Rightarrow> (error \<Rightarrow> string) \<Rightarrow> ('a \<Rightarrow> frame_result) \<Rightarrow> frame_result" where
  "damaged_unless r reason k = (case r of Inl e \<Rightarrow> damaged (reason e) | Inr a \<Rightarrow> k a)"

text \<open>From the JSON of the payload to the record, against the chain and the sequence so far.\<close>

definition read_payload ::
    "nat \<Rightarrow> digest \<Rightarrow> u64 \<Rightarrow> nat \<Rightarrow> digest \<Rightarrow> string \<Rightarrow> json \<Rightarrow> nat \<Rightarrow> frame_result" where
  "read_payload offset chain last_sequence replayed record_chain payload v consumed =
     (let here = '' at offset '' @ dec_digits offset
      in damaged_unless (json_require_uint v ''seq'') (\<lambda>e. ''record has no sequence number'' @ here) (\<lambda>sequence.
         damaged_unless (json_require_string v ''type'') (\<lambda>e. ''record has no type'' @ here) (\<lambda>type_text.
         damaged_unless (parse_journal_record_type type_text)
           (\<lambda>e. ''record type is unknown'' @ here @ '': '' @ type_text) (\<lambda>record_type.
         damaged_unless (json_require_string v ''at'') (\<lambda>e. ''record has no timestamp'' @ here) (\<lambda>at_text.
         damaged_unless (parse_iso8601 at_text)
           (\<lambda>e. ''record timestamp is malformed'' @ here @ '': '' @ at_text) (\<lambda>at_time.
         damaged_unless (json_require_string v ''prev_chain'') (\<lambda>e. ''record has no chain link'' @ here) (\<lambda>prev_text.
         damaged_unless (digest_parse prev_text) (\<lambda>e. ''record chain link is malformed'' @ here) (\<lambda>previous.
         if previous \<noteq> chain
         then Frame_damage \<lparr>fdm_reason = ''chain link mismatch'' @ here, fdm_counted = True,
                fdm_chain_broken = True, fdm_sequence_broken = False\<rparr>
         else if digest_of_text (chain @ ''|'' @ payload) \<noteq> record_chain
         then Frame_damage \<lparr>fdm_reason = ''record digest mismatch'' @ here, fdm_counted = True,
                fdm_chain_broken = True, fdm_sequence_broken = False\<rparr>
         else if replayed \<noteq> 0 \<and> sequence \<le> last_sequence
         then Frame_damage \<lparr>fdm_reason = ''sequence number did not advance'' @ here, fdm_counted = True,
                fdm_chain_broken = False, fdm_sequence_broken = True\<rparr>
         else Frame_record
           \<lparr>jrc_sequence = sequence, jrc_type = record_type, jrc_at = at_time,
            jrc_data = (case json_find v ''data'' of Some d \<Rightarrow> d | None \<Rightarrow> JObject []),
            jrc_previous = previous, jrc_chain = record_chain\<rparr> consumed))))))))"

definition read_frame ::
    "journal_options \<Rightarrow> nat \<Rightarrow> digest \<Rightarrow> u64 \<Rightarrow> nat \<Rightarrow> string \<Rightarrow> frame_result" where
  "read_frame opts offset chain last_sequence replayed rest =
     (let here = '' at offset '' @ dec_digits offset
      in if length rest < record_prefix_bytes
         then Frame_damage \<lparr>fdm_reason = ''record prefix is truncated'' @ here, fdm_counted = False,
                fdm_chain_broken = False, fdm_sequence_broken = False\<rparr>
         else if take 4 rest \<noteq> record_magic
         then damaged (''record magic mismatch'' @ here)
         else
           (let payload_len = read_u32 rest 4; crc = read_u32 rest 8; n = unat payload_len;
                payload = take n (drop record_prefix_bytes rest)
            in if payload_len = 0 \<or> (ucast payload_len :: u64) > jop_max_record_bytes opts
               then damaged (''record length '' @ u32_to_string payload_len @
                      '' is outside the permitted range'' @ here)
               else if record_prefix_bytes + n > length rest
               then Frame_damage \<lparr>fdm_reason = ''record payload runs past the end of the file'' @ here,
                      fdm_counted = False, fdm_chain_broken = False, fdm_sequence_broken = False\<rparr>
               else if crc32c payload \<noteq> crc
               then damaged (''checksum mismatch'' @ here @ '' (stored '' @ u32_to_string crc @
                      '', computed '' @ u32_to_string (crc32c payload) @ '', length '' @
                      u32_to_string payload_len @ '')'')
               else case digest_parse (to_hex (map of_char (take 32 (drop 12 rest)))) of
                 Inl e \<Rightarrow> Frame_error e
               | Inr record_chain \<Rightarrow>
                   damaged_unless (json_parse default_limits payload)
                     (\<lambda>e. ''record payload is not valid json'' @ here @ '': '' @ error_to_string e)
                     (\<lambda>v. read_payload offset chain last_sequence replayed record_chain payload v
                            (record_prefix_bytes + n))))"

subsection \<open>The replay loop\<close>

record replay_state =
  rps_records :: "journal_record list"
  rps_chain :: digest
  rps_last_sequence :: u64
  rps_replayed :: nat
  rps_damage :: "frame_damage option"

definition replay_start :: replay_state where
  "replay_start = \<lparr>rps_records = [], rps_chain = [], rps_last_sequence = 0, rps_replayed = 0, rps_damage = None\<rparr>"

definition replay_record :: "replay_state \<Rightarrow> journal_record \<Rightarrow> replay_state" where
  "replay_record st r =
     st\<lparr>rps_records := rps_records st @ [r], rps_chain := jrc_chain r, rps_last_sequence := jrc_sequence r,
        rps_replayed := rps_replayed st + 1\<rparr>"

lemma read_payload_consumed:
  "read_payload offset chain ls k rc payload v n = Frame_record r m \<Longrightarrow> m = n"
  by (auto simp: read_payload_def damaged_unless_def damaged_def Let_def split: if_splits sum.splits)

lemma read_frame_consumed:
  "read_frame opts offset chain ls k rest = Frame_record r n \<Longrightarrow> 0 < n \<and> n \<le> length rest"
  by (auto simp: read_frame_def damaged_unless_def damaged_def Let_def record_prefix_bytes_def
      dest!: read_payload_consumed split: if_splits sum.splits)

text \<open>The replay over the bytes that are left; what it leaves unread is ignored by the journal.\<close>

function replay_loop ::
    "journal_options \<Rightarrow> nat \<Rightarrow> string \<Rightarrow> replay_state \<Rightarrow> (replay_state \<times> string) result" where
  "replay_loop opts tot rest st =
     (if rest = [] then Inr (st, rest)
      else case read_frame opts (tot - length rest) (rps_chain st) (rps_last_sequence st) (rps_replayed st) rest of
        Frame_error e \<Rightarrow> Inl e
      | Frame_damage d \<Rightarrow> Inr (st\<lparr>rps_damage := Some d\<rparr>, rest)
      | Frame_record r n \<Rightarrow>
          (let st' = replay_record st r
           in if rps_replayed st' > jop_max_records opts
              then fail EC_resource_exhausted ''journal holds more records than the configured bound''
                     (dec_digits (rps_replayed st'))
              else replay_loop opts tot (drop n rest) st'))"
  by auto
termination
  by (relation "measure (\<lambda>(opts, tot, rest, st). length rest)") (auto dest!: read_frame_consumed)

declare replay_loop.simps [simp del]

text \<open>The two scans from the newest record back.\<close>

definition data_uint :: "journal_record \<Rightarrow> string \<Rightarrow> u64 \<Rightarrow> u64" where
  "data_uint r key old =
     (case json_find (jrc_data r) key of None \<Rightarrow> old | Some v \<Rightarrow> the_value (json_as_uint v) old)"

fun scan_boot :: "journal_record list \<Rightarrow> u64 \<times> u64 \<Rightarrow> u64 \<times> u64" where
  "scan_boot [] (epoch, incarnation) = (epoch, incarnation)"
| "scan_boot (r # rs) (epoch, incarnation) =
     (let found = (data_uint r ''epoch'' epoch, data_uint r ''incarnation'' incarnation)
      in if jrc_type r = JT_boot \<or> jrc_type r = JT_snapshot then found else scan_boot rs found)"

fun scan_shutdown :: "journal_record list \<Rightarrow> bool" where
  "scan_shutdown [] = False"
| "scan_shutdown (r # rs) =
     (if jrc_type r = JT_shutdown then True
      else if jrc_type r = JT_boot then False
      else scan_shutdown rs)"

definition recovery_of :: "replay_state \<Rightarrow> string \<Rightarrow> recovery_report" where
  "recovery_of st rest =
     (let (epoch, incarnation) = scan_boot (rev (rps_records st)) (0, 0);
          bad = rps_damage st;
          chain_ok = (case bad of Some d \<Rightarrow> \<not> fdm_chain_broken d | None \<Rightarrow> True);
          sequence_ok = (case bad of Some d \<Rightarrow> \<not> fdm_sequence_broken d | None \<Rightarrow> True);
          reason = (case bad of Some d \<Rightarrow> fdm_reason d | None \<Rightarrow> [])
      in \<lparr>rcv_records_replayed = rps_replayed st, rcv_truncated_tail = (bad \<noteq> None),
          rcv_bytes_ignored = length rest, rcv_chain_valid = chain_ok, rcv_sequence_valid = sequence_ok,
          rcv_clean_shutdown = scan_shutdown (rev (rps_records st)), rcv_empty = (rps_replayed st = 0),
          rcv_detail =
            (if \<not> chain_ok then ''journal hash chain is broken at the first damaged record''
             else if \<not> sequence_ok then ''journal sequence numbers are not strictly increasing''
             else if bad \<noteq> None
             then ''journal tail was damaged or incomplete; the damaged records were ignored''
             else ''journal replayed cleanly'') @
            (if reason \<noteq> [] then ''; '' @ reason else []),
          rcv_damage_reason = reason, rcv_last_sequence = rps_last_sequence st,
          rcv_last_boot_incarnation = incarnation, rcv_last_epoch = epoch,
          rcv_damaged_records = (case bad of Some d \<Rightarrow> if fdm_counted d then 1 else 0 | None \<Rightarrow> 0),
          rcv_rejected_records = 0, rcv_rejected_reason = []\<rparr>)"

subsection \<open>The journal\<close>

record journal =
  jnl_path :: string
  jnl_options :: journal_options
  jnl_writer :: file_writer
  jnl_records :: "journal_record list"
  jnl_recovery :: recovery_report
  jnl_chain :: digest
  jnl_last_sequence :: u64
  jnl_open :: bool
  jnl_tail_damaged :: bool

definition journal_options_validate :: "journal_options \<Rightarrow> status" where
  "journal_options_validate opts =
     (if jop_max_record_bytes opts < 1024 \<or> jop_max_record_bytes opts > 1073741824
      then fail EC_invalid_argument ''max_record_bytes is out of range'' ''''
      else if jop_max_file_bytes opts < jop_max_record_bytes opts
      then fail EC_invalid_argument ''max_file_bytes must cover one record'' ''''
      else if jop_max_records opts = 0
      then fail EC_invalid_argument ''max_records must be positive'' ''''
      else ok_status)"

text \<open>The offset of the first record in what was read.\<close>

definition check_header :: "string \<Rightarrow> string \<Rightarrow> nat result" where
  "check_header path existing =
     (if length existing \<ge> header_bytes
      then if take 8 existing \<noteq> file_magic
           then fail EC_corrupt ''journal file magic does not match'' path
           else if read_u32 existing 8 \<noteq> 1
           then fail EC_corrupt ''journal format version is not supported'' (u32_to_string (read_u32 existing 8))
           else Inr header_bytes
      else if existing \<noteq> [] then fail EC_corrupt ''journal file is too short to hold a header'' path
      else Inr 0)"

definition journal_open ::
    "disk \<Rightarrow> string \<Rightarrow> journal_options \<Rightarrow> string option \<Rightarrow> timestamp \<Rightarrow> journal result" where
  "journal_open d path opts content now =
     fum_try (journal_options_validate opts) (\<lambda>_.
     fum_try (case content of
                None \<Rightarrow> Inr []
              | Some bytes \<Rightarrow> fs_read_file bytes (jop_max_file_bytes opts + 1048576)) (\<lambda>existing.
     fum_try (check_header path existing) (\<lambda>offset.
     fum_try (replay_loop opts (length existing) (drop offset existing) replay_start) (\<lambda>(st, rest).
     fum_try (writer_open_append path existing (jop_max_file_bytes opts)) (\<lambda>writer.
     fum_try (if existing = []
              then let (status, w) = writer_append d writer (file_header now)
                   in fum_try status (\<lambda>_. fum_try (writer_sync d w) (\<lambda>_. Inr w))
              else Inr writer) (\<lambda>writer.
     Inr \<lparr>jnl_path = path, jnl_options = opts, jnl_writer = writer, jnl_records = rps_records st,
          jnl_recovery = recovery_of st rest, jnl_chain = rps_chain st,
          jnl_last_sequence = rps_last_sequence st, jnl_open = True,
          jnl_tail_damaged = (rps_damage st \<noteq> None)\<rparr>))))))"

text \<open>The payload and the frame of the next record.\<close>

definition record_body :: "u64 \<Rightarrow> journal_record_type \<Rightarrow> timestamp \<Rightarrow> digest \<Rightarrow> json \<Rightarrow> string" where
  "record_body sequence k at_time chain data = json_dump (json_build
     [(''seq'', JUint sequence), (''type'', JString (journal_record_type_name k)),
      (''at'', JString (to_iso8601 at_time)), (''prev_chain'', JString chain), (''data'', data)])"

definition frame_bytes :: "u8 list \<Rightarrow> string \<Rightarrow> string" where
  "frame_bytes chain_bytes body =
     record_magic @ put_u32 (word_of_nat (length body)) @ put_u32 (crc32c body) @ map (\<lambda>b. char_of (unat b)) chain_bytes @ body"

definition write_record ::
    "disk \<Rightarrow> journal \<Rightarrow> journal_record_type \<Rightarrow> json \<Rightarrow> timestamp \<Rightarrow> bool \<Rightarrow> status \<times> journal" where
  "write_record d j k data at_time allow_recovery_tail =
     (if \<not> jnl_open j then (fail EC_closed ''journal is not open'' (jnl_path j), j)
      else if jnl_tail_damaged j \<and> \<not> allow_recovery_tail
      then (fail EC_corrupt ''journal tail is damaged; refusing to append after the damage'' (jnl_path j), j)
      else if length (jnl_records j) \<ge> jop_max_records (jnl_options j)
      then (fail EC_resource_exhausted ''journal reached the configured record bound'' (jnl_path j), j)
      else case counter_try_next (jnl_last_sequence j) of
        Inl e \<Rightarrow> (Inl e, j)
      | Inr sequence \<Rightarrow>
          (let body = record_body sequence k at_time (jnl_chain j) data
           in if (word_of_nat (length body) :: u64) > jop_max_record_bytes (jnl_options j)
              then (fail EC_resource_exhausted ''journal record exceeds the configured bound''
                      (dec_digits (length body)), j)
              else
                (let chain = digest_of_text (jnl_chain j @ ''|'' @ body)
                 in case from_hex chain of
                   Inl e \<Rightarrow> (Inl e, j)
                 | Inr chain_bytes \<Rightarrow>
                     (let (appended, w) = writer_append d (jnl_writer j) (frame_bytes chain_bytes body);
                          status = fum_try appended (\<lambda>_.
                            if jop_sync_on_append (jnl_options j) then writer_sync d w else ok_status);
                          r = \<lparr>jrc_sequence = sequence, jrc_type = k, jrc_at = at_time, jrc_data = data,
                               jrc_previous = jnl_chain j, jrc_chain = chain\<rparr>
                      in case status of
                        Inl e \<Rightarrow> (Inl e, j\<lparr>jnl_writer := w\<rparr>)
                      | Inr _ \<Rightarrow> (ok_status,
                          j\<lparr>jnl_writer := w, jnl_records := jnl_records j @ [r],
                            jnl_recovery := (jnl_recovery j)\<lparr>rcv_records_replayed := length (jnl_records j) + 1,
                              rcv_empty := False, rcv_last_sequence := sequence\<rparr>,
                            jnl_chain := chain, jnl_last_sequence := sequence\<rparr>)))))"

definition journal_append ::
    "disk \<Rightarrow> journal \<Rightarrow> journal_record_type \<Rightarrow> json \<Rightarrow> timestamp \<Rightarrow> status \<times> journal" where
  "journal_append d j k data at_time = write_record d j k data at_time False"

definition journal_sync :: "disk \<Rightarrow> journal \<Rightarrow> status" where
  "journal_sync d j = writer_sync d (jnl_writer j)"

definition journal_close :: "disk \<Rightarrow> journal \<Rightarrow> timestamp \<Rightarrow> status \<times> journal" where
  "journal_close d j now =
     (if \<not> jnl_open j then (ok_status, j)
      else
        (let (status, j1) =
               (if \<not> jnl_tail_damaged j
                then write_record d j JT_shutdown (json_build [(''reason'', JString ''clean shutdown'')]) now True
                else (ok_status, j));
             synced = writer_sync d (jnl_writer j1);
             (closed, w) = writer_close d (jnl_writer j1)
         in (fum_try status (\<lambda>_. fum_try synced (\<lambda>_. closed)), j1\<lparr>jnl_writer := w, jnl_open := False\<rparr>)))"

end
