(* ===== verification/Store_Frames.thy ===== *)
theory Store_Frames
  imports Store_Journal
begin

text \<open>
  The frame of a record read back by the replay: a whole frame gives the record, the torn start of one
  is damage, and a run of chained frames replays to the run of its records.
\<close>

subsection \<open>Frames read back\<close>

lemma put_u32_bytes:
  "put_u32 v = [char_of (unat (v AND 0xFF)), char_of (unat (drop_bit 8 v AND 0xFF)),
    char_of (unat (drop_bit 16 v AND 0xFF)), char_of (unat (drop_bit 24 v AND 0xFF))]"
  by (simp add: put_u32_def)

lemma length_put_u32 [simp]: "length (put_u32 v) = 4"
  by (simp add: put_u32_def)

lemma length_put_u64 [simp]: "length (put_u64 v) = 8"
  by (simp add: put_u64_def)

lemma byte_u32_char: "byte_u32 (char_of (unat ((v :: u32) AND 0xFF))) = v AND 0xFF"
proof -
  have m: "(0xFF :: u32) = mask 8" by (simp add: mask_eq_exp_minus_1)
  have "unat (v AND 0xFF) = take_bit 8 (unat v)"
    unfolding m by (simp only: take_bit_eq_mask [symmetric] unsigned_take_bit_eq)
  then have "unat (v AND 0xFF) < 256" using take_bit_nat_less_exp [of 8 "unat v"] by simp
  then have "of_char (char_of (unat (v AND 0xFF)) :: char) = unat (v AND 0xFF)" by simp
  then show ?thesis by (simp add: byte_u32_def)
qed

lemma read_put_u32:
  assumes "n = length xs"
  shows "read_u32 (xs @ put_u32 v @ ys) n = v"
proof -
  have m: "(0xFF :: u32) = mask 8" by (simp add: mask_eq_exp_minus_1)
  have "read_u32 (xs @ put_u32 v @ ys) n =
      (v AND 0xFF) OR push_bit 8 (drop_bit 8 v AND 0xFF) OR push_bit 16 (drop_bit 16 v AND 0xFF) OR
      push_bit 24 (drop_bit 24 v AND 0xFF)"
    unfolding assms read_u32_def put_u32_bytes
    by (simp add: nth_append byte_u32_char)
  also have "\<dots> = v"
  proof (rule bit_eqI)
    fix n assume "possible_bit TYPE(32 word) n"
    consider "n < 8" | "8 \<le> n" "n < 16" | "16 \<le> n" "n < 24" | "24 \<le> n" by linarith
    then show "bit ((v AND 0xFF) OR push_bit 8 (drop_bit 8 v AND 0xFF) OR push_bit 16 (drop_bit 16 v AND 0xFF) OR
      push_bit 24 (drop_bit 24 v AND 0xFF)) n = bit v n"
      unfolding m by cases (auto simp: bit_simps dest: bit_imp_le_length)
  qed
  finally show ?thesis .
qed

lemma map_of_char_bytes: "map of_char (map (\<lambda>b. char_of (unat b)) bs) = (bs :: u8 list)"
proof -
  have "of_char (char_of (unat b) :: char) = b" for b :: u8
  proof -
    have "unat b < 256" using unsigned_less [of b] by simp
    then have "of_char (char_of (unat b) :: char) = unat b" by simp
    then have "(word_of_nat (of_char (char_of (unat b) :: char)) :: u8) = word_of_nat (unat b)" by (simp only:)
    also have "\<dots> = b" by simp
    finally show ?thesis by (simp only: of_nat_of_char)
  qed
  then show ?thesis by (simp add: comp_def)
qed


lemma json_dump_object:
  "json_dump_at indent dep (JObject ms) =
     (if ms = [] then ''{}''
      else ''{'' @ join_with '','' (map (member_text indent (dep + 1)) ms) @ json_pad indent dep @ ''}'')"
  by (simp add: member_text_def [abs_def])

lemma json_dump_norm: "json_dump_at indent dep (json_norm v) = json_dump_at indent dep v"
proof (induction v arbitrary: dep)
  case (JUint w)
  have "int_to_string (uint w) = u64_to_string w" by (simp add: int_to_string_def u64_to_string_def not_less)
  then show ?case by simp
next
  case (JArray xs)
  then have "map (\<lambda>x. json_pad indent (dep + 1) @ json_dump_at indent (dep + 1) x) (map json_norm xs) =
      map (\<lambda>x. json_pad indent (dep + 1) @ json_dump_at indent (dep + 1) x) xs" by simp
  then show ?case by (simp del: map_map)
next
  case (JObject ms)
  have "json_dump_at indent (dep + 1) (json_norm (snd m)) = json_dump_at indent (dep + 1) (snd m)"
    if "m \<in> set ms" for m
    using JObject [OF that, of "snd m"] by (cases m) auto
  then have "map (member_text indent (dep + 1)) (map (\<lambda>(k, v). (k, json_norm v)) ms) =
      map (member_text indent (dep + 1)) ms"
    by (auto simp: member_text_def)
  then show ?case by (simp add: json_dump_object del: map_map json_dump_at.simps)
qed simp_all

definition data_fits :: "json \<Rightarrow> bool" where
  "data_fits data \<longleftrightarrow> json_ok data \<and> json_depth data \<le> 63"

lemma json_norm_idem [simp]: "json_norm (json_norm v) = json_norm v"
proof (induction v)
  case (JObject ms)
  have "json_norm (json_norm (snd m)) = json_norm (snd m)" if "m \<in> set ms" for m
    using JObject [OF that, of "snd m"] by (cases m) auto
  then show ?case by auto
qed auto

lemma json_ok_norm: "json_ok v \<Longrightarrow> json_ok (json_norm v)"
proof (induction v)
  case (JUint w)
  have "- (2 ^ 63) \<le> uint w" by (rule order_trans [OF _ unsigned_greater_eq]) simp
  then show ?case by (simp add: int64_max_def)
next
  case (JObject ms)
  have "json_ok (json_norm (snd m))" if "m \<in> set ms" for m
    using JObject.IH [OF that, of "snd m"] JObject.prems that by (cases m) auto
  moreover have "map fst (map (\<lambda>(k, v). (k, json_norm v)) ms) = map fst ms" by auto
  ultimately show ?case using JObject.prems by (auto simp del: map_map)
qed auto

lemma json_depth_norm: "json_depth (json_norm v) = json_depth v"
proof (induction v)
  case (JArray xs)
  then have "(\<lambda>x. Suc (json_depth x)) ` set (map json_norm xs) = (\<lambda>x. Suc (json_depth x)) ` set xs"
    by (auto simp: image_image intro!: image_cong)
  then show ?case by simp
next
  case (JObject ms)
  have "json_depth (json_norm (snd m)) = json_depth (snd m)" if "m \<in> set ms" for m
    using JObject [OF that, of "snd m"] by (cases m) auto
  then have "(\<lambda>m. Suc (json_depth (snd m))) ` set (map (\<lambda>(k, v). (k, json_norm v)) ms) =
      (\<lambda>m. Suc (json_depth (snd m))) ` set ms"
    by (auto simp: image_image case_prod_beta intro!: image_cong)
  then show ?case by simp
qed simp_all

lemma data_fits_norm: "data_fits data \<Longrightarrow> data_fits (json_norm data)"
  by (simp add: data_fits_def json_ok_norm json_depth_norm)

definition record_json :: "u64 \<Rightarrow> journal_record_type \<Rightarrow> timestamp \<Rightarrow> digest \<Rightarrow> json \<Rightarrow> json" where
  "record_json sequence k at_time chain data = JObject
     [(''seq'', JUint sequence), (''type'', JString (journal_record_type_name k)),
      (''at'', JString (to_iso8601 at_time)), (''prev_chain'', JString chain), (''data'', data)]"

lemma record_body_json: "record_body s k t c data = json_dump (record_json s k t c data)"
  by (simp add: record_body_def record_json_def json_build_eq)

lemma record_body_norm: "record_body s k t c (json_norm data) = record_body s k t c data"
proof -
  have "json_norm (record_json s k t c (json_norm data)) = json_norm (record_json s k t c data)"
    by (simp add: record_json_def)
  then show ?thesis
    unfolding record_body_json json_dump_def by (metis json_dump_norm)
qed

lemma record_body_nonempty: "record_body s k t c data \<noteq> []"
  by (simp add: record_body_json json_dump_def record_json_def)

lemma parse_record_body:
  assumes "data_fits data" "length (record_body s k t c data) \<le> 2 ^ 20"
  shows "json_parse default_limits (record_body s k t c data) = Inr (json_norm (record_json s k t c data))"
proof -
  have "json_ok (record_json s k t c data)" "json_depth (record_json s k t c data) \<le> 64"
    using assms(1) by (simp_all add: record_json_def data_fits_def)
  from json_within_default [OF this, of 0] show ?thesis
    using assms(2) unfolding record_body_json json_dump_def by (intro json_parse_dump_at) simp_all
qed

lemma parse_journal_record_type_name [simp]:
  "parse_journal_record_type (journal_record_type_name k) = Inr k"
proof -
  have "journal_record_type_name a = journal_record_type_name b \<Longrightarrow> a = b" for a b
    by (cases a; cases b; simp)
  moreover have "k \<in> set all_journal_record_types"
    by (cases k) (simp_all add: all_journal_record_types_def)
  ultimately show ?thesis
    by (simp add: parse_journal_record_type_def parse_by_name_inj)
qed

text \<open>A record that may follow a given chain head and sequence number, and that fits the parser's bounds.\<close>

definition record_follows :: "journal_options \<Rightarrow> digest \<Rightarrow> u64 \<Rightarrow> bool \<Rightarrow> journal_record \<Rightarrow> bool" where
  "record_follows opts chain last_sequence first r \<longleftrightarrow>
     (let body = record_body (jrc_sequence r) (jrc_type r) (jrc_at r) chain (jrc_data r)
      in jrc_previous r = chain \<and> jrc_chain r = digest_of_text (chain @ ''|'' @ body) \<and>
         (first \<or> last_sequence < jrc_sequence r) \<and> ts_ok (jrc_at r) \<and> data_fits (jrc_data r) \<and>
         length body \<le> unat (jop_max_record_bytes opts) \<and> length body \<le> 2 ^ 20 \<and>
         (chain = [] \<or> valid_digest chain))"

definition record_frame :: "digest \<Rightarrow> journal_record \<Rightarrow> string" where
  "record_frame chain r =
     (let body = record_body (jrc_sequence r) (jrc_type r) (jrc_at r) chain (jrc_data r)
      in frame_bytes (sha256 (chain @ ''|'' @ body)) body)"

definition record_norm :: "journal_record \<Rightarrow> journal_record" where
  "record_norm r = r\<lparr>jrc_data := json_norm (jrc_data r)\<rparr>"

lemma length_record_frame:
  "length (record_frame chain r) =
     44 + length (record_body (jrc_sequence r) (jrc_type r) (jrc_at r) chain (jrc_data r))"
  by (simp add: record_frame_def frame_bytes_def record_magic_def Let_def length_sha256)

definition frame_prefix :: "u8 list \<Rightarrow> string \<Rightarrow> string" where
  "frame_prefix bs body =
     record_magic @ put_u32 (word_of_nat (length body)) @ put_u32 (crc32c body) @
     map (\<lambda>b. char_of (unat b)) bs"

lemma frame_bytes_prefix: "frame_bytes bs body @ ys = frame_prefix bs body @ body @ ys"
  by (simp add: frame_bytes_def frame_prefix_def)

lemma length_frame_prefix: "length bs = 32 \<Longrightarrow> length (frame_prefix bs body) = 44"
  by (simp add: frame_prefix_def record_magic_def)

lemma frame_fields:
  assumes "length bs = 32" "length body < 2 ^ 32"
  shows "take 4 (frame_prefix bs body @ ys) = record_magic"
    "read_u32 (frame_prefix bs body @ ys) 8 = crc32c body"
    "take 32 (drop 12 (frame_prefix bs body @ ys)) = map (\<lambda>b. char_of (unat b)) bs"
    "drop 44 (frame_prefix bs body @ ys) = ys"
    "unat (read_u32 (frame_prefix bs body @ ys) 4) = length body"
proof -
  have "read_u32 (frame_prefix bs body @ ys) 4 = word_of_nat (length body)"
    unfolding frame_prefix_def append_assoc by (rule read_put_u32) (simp add: record_magic_def)
  then show "unat (read_u32 (frame_prefix bs body @ ys) 4) = length body"
    using assms(2) by (simp add: unat_of_nat take_bit_nat_eq_self)
  show "read_u32 (frame_prefix bs body @ ys) 8 = crc32c body"
    unfolding frame_prefix_def append_assoc
    using read_put_u32 [of 8 "record_magic @ put_u32 (word_of_nat (length body))"]
    by (simp add: record_magic_def)
qed (use assms in \<open>simp_all add: frame_prefix_def record_magic_def\<close>)

lemma read_payload_follows:
  fixes r chain opts
  defines "body \<equiv> record_body (jrc_sequence r) (jrc_type r) (jrc_at r) chain (jrc_data r)"
  assumes "record_follows opts chain ls (k = 0) r"
  shows "read_payload offset chain ls k (jrc_chain r) body
      (json_norm (record_json (jrc_sequence r) (jrc_type r) (jrc_at r) chain (jrc_data r))) n =
    Frame_record (record_norm r) n"
proof -
  have f: "jrc_previous r = chain" "jrc_chain r = digest_of_text (chain @ ''|'' @ body)"
    "k = 0 \<or> ls < jrc_sequence r" "ts_ok (jrc_at r)" "digest_parse chain = Inr chain"
    using assms(2) by (auto simp: record_follows_def Let_def body_def)
  have s: "\<not> (k \<noteq> 0 \<and> jrc_sequence r \<le> ls)" using f(3) by auto
  let ?v = "record_json (jrc_sequence r) (jrc_type r) (jrc_at r) chain (jrc_data r)"
  have v: "json_require_uint ?v ''seq'' = Inr (jrc_sequence r)"
    "json_require_string ?v ''type'' = Inr (journal_record_type_name (jrc_type r))"
    "json_require_string ?v ''at'' = Inr (to_iso8601 (jrc_at r))"
    "json_require_string ?v ''prev_chain'' = Inr chain"
    "json_find ?v ''data'' = Some (jrc_data r)"
    by (simp_all add: record_json_def codec_simps)
  have "read_payload offset chain ls k (jrc_chain r) body (json_norm ?v) n =
    Frame_record \<lparr>jrc_sequence = jrc_sequence r, jrc_type = jrc_type r, jrc_at = jrc_at r,
      jrc_data = json_norm (jrc_data r), jrc_previous = chain, jrc_chain = jrc_chain r\<rparr> n"
    unfolding read_payload_def Let_def
    using s f by (simp add: v damaged_unless_def del: json_norm.simps json_find.simps)
  also have "\<dots> = Frame_record (record_norm r) n"
    using f(1) by (simp add: record_norm_def)
  finally show ?thesis .
qed

text \<open>A record whose sequence number is not new is damage, whatever the chain says.\<close>

lemma read_payload_stale:
  assumes "record_follows opts chain ls first r" "jrc_sequence r \<le> ls'" "k \<noteq> 0"
  shows "\<exists>b. read_payload offset chain' ls' k rc payload
      (json_norm (record_json (jrc_sequence r) (jrc_type r) (jrc_at r) chain (jrc_data r))) n = Frame_damage b"
proof -
  let ?v = "record_json (jrc_sequence r) (jrc_type r) (jrc_at r) chain (jrc_data r)"
  have f: "ts_ok (jrc_at r)" "digest_parse chain = Inr chain"
    using assms(1) by (auto simp: record_follows_def Let_def)
  have v: "json_require_uint ?v ''seq'' = Inr (jrc_sequence r)"
    "json_require_string ?v ''type'' = Inr (journal_record_type_name (jrc_type r))"
    "json_require_string ?v ''at'' = Inr (to_iso8601 (jrc_at r))"
    "json_require_string ?v ''prev_chain'' = Inr chain"
    by (simp_all add: record_json_def codec_simps)
  show ?thesis
    unfolding read_payload_def Let_def
    using assms(2,3) f by (simp add: v damaged_unless_def del: json_norm.simps json_find.simps)
qed

lemma record_follows_bounds:
  assumes "record_follows opts chain ls first r"
  shows "0 < length (record_body (jrc_sequence r) (jrc_type r) (jrc_at r) chain (jrc_data r))"
    "length (record_body (jrc_sequence r) (jrc_type r) (jrc_at r) chain (jrc_data r)) < 2 ^ 32"
  using assms record_body_nonempty [of "jrc_sequence r" "jrc_type r" "jrc_at r" chain "jrc_data r"]
  by (auto simp: record_follows_def Let_def)

lemma payload_length_ok:
  assumes "0 < n" "n < 2 ^ 32" "n \<le> unat (m :: u64)" "unat (w :: u32) = n"
  shows "\<not> (w = 0 \<or> (ucast w :: u64) > m)"
proof -
  have "unat (ucast w :: u64) = n"
    using assms(2,4) by (simp add: unsigned_ucast_eq take_bit_nat_eq_self)
  with assms show ?thesis by (auto simp: word_less_nat_alt)
qed

lemma read_frame_payload:
  assumes "record_follows opts chain ls first r"
  shows "read_frame opts offset chain' ls' k (record_frame chain r @ ys) =
    read_payload offset chain' ls' k (jrc_chain r)
      (record_body (jrc_sequence r) (jrc_type r) (jrc_at r) chain (jrc_data r))
      (json_norm (record_json (jrc_sequence r) (jrc_type r) (jrc_at r) chain (jrc_data r)))
      (length (record_frame chain r))"
proof -
  define body where "body = record_body (jrc_sequence r) (jrc_type r) (jrc_at r) chain (jrc_data r)"
  define bs where "bs = sha256 (chain @ ''|'' @ body)"
  have bs: "length bs = 32" by (simp add: bs_def length_sha256)
  have body: "0 < length body" "length body < 2 ^ 32" "length body \<le> unat (jop_max_record_bytes opts)"
    "data_fits (jrc_data r)" "length body \<le> 2 ^ 20" "jrc_chain r = digest_of_text (chain @ ''|'' @ body)"
    using record_follows_bounds [OF assms] assms by (auto simp: record_follows_def Let_def body_def)
  let ?f = "frame_prefix bs body @ body @ ys"
  have frame: "record_frame chain r @ ys = ?f"
    by (simp add: record_frame_def Let_def body_def bs_def frame_bytes_prefix)
  note fields = frame_fields [OF bs body(2), of "body @ ys"]
  have len: "length ?f = 44 + length body + length ys" using length_frame_prefix [OF bs] by simp
  have short: "\<not> length ?f < record_prefix_bytes" unfolding len record_prefix_bytes_def by simp
  have magic: "\<not> take 4 ?f \<noteq> record_magic" using fields(1) by simp
  have range: "\<not> (read_u32 ?f 4 = 0 \<or> (ucast (read_u32 ?f 4) :: u64) > jop_max_record_bytes opts)"
    by (rule payload_length_ok [OF body(1-3) fields(5)])
  have past: "\<not> record_prefix_bytes + length body > length ?f" unfolding len record_prefix_bytes_def by simp
  have payload: "take (length body) (drop record_prefix_bytes ?f) = body"
    using fields(4) by (simp add: record_prefix_bytes_def)
  have crc: "\<not> crc32c body \<noteq> read_u32 ?f 8" using fields(2) by simp
  have chain_ok: "digest_parse (to_hex (map of_char (take 32 (drop 12 ?f)) :: u8 list)) = Inr (jrc_chain r)"
    unfolding fields(3) map_of_char_bytes
    using body(6) by (simp add: bs_def digest_of_text_def sha256_hex_def [symmetric])
  have parsed: "json_parse default_limits body =
      Inr (json_norm (record_json (jrc_sequence r) (jrc_type r) (jrc_at r) chain (jrc_data r)))"
    unfolding body_def by (rule parse_record_body) (use body in \<open>simp_all add: body_def\<close>)
  have size: "length (record_frame chain r) = record_prefix_bytes + length body"
    by (simp add: length_record_frame record_prefix_bytes_def body_def)
  show ?thesis
    unfolding frame read_frame_def Let_def if_not_P [OF short] if_not_P [OF magic] if_not_P [OF range]
      fields(5) if_not_P [OF past] payload if_not_P [OF crc] chain_ok sum.case parsed damaged_unless_def size
    by (simp only: body_def)
qed

lemma read_frame_follows:
  assumes "record_follows opts chain ls (k = 0) r"
  shows "read_frame opts offset chain ls k (record_frame chain r @ ys) =
    Frame_record (record_norm r) (length (record_frame chain r))"
  unfolding read_frame_payload [OF assms] by (rule read_payload_follows [OF assms])

text \<open>The start of a frame, cut before its end, is not a frame.\<close>

lemma read_frame_torn:
  assumes "record_follows opts chain ls first r" "n < length (record_frame chain r)"
  shows "\<exists>d. read_frame opts offset chain' ls' k (take n (record_frame chain r)) = Frame_damage d"
proof (cases "n < record_prefix_bytes")
  case True
  then show ?thesis using assms(2) by (simp add: read_frame_def Let_def)
next
  case False
  define body where "body = record_body (jrc_sequence r) (jrc_type r) (jrc_at r) chain (jrc_data r)"
  define bs where "bs = sha256 (chain @ ''|'' @ body)"
  have bs: "length bs = 32" by (simp add: bs_def length_sha256)
  have body: "0 < length body" "length body < 2 ^ 32" "length body \<le> unat (jop_max_record_bytes opts)"
    using record_follows_bounds [OF assms(1)] assms(1) by (auto simp: record_follows_def Let_def body_def)
  let ?f = "frame_prefix bs body @ take (n - 44) body"
  have "record_frame chain r = frame_bytes bs body"
    unfolding record_frame_def Let_def body_def bs_def ..
  then have frame: "take n (record_frame chain r) = ?f"
    using frame_bytes_prefix [of bs body "[]"] length_frame_prefix [OF bs, of body] False
    by (simp add: record_prefix_bytes_def)
  note fields = frame_fields [OF bs body(2), of "take (n - 44) body"]
  have len: "length ?f = 44 + min (length body) (n - 44)" using length_frame_prefix [OF bs] by simp
  have short: "\<not> length ?f < record_prefix_bytes" unfolding len record_prefix_bytes_def by simp
  have magic: "\<not> take 4 ?f \<noteq> record_magic" using fields(1) by simp
  have range: "\<not> (read_u32 ?f 4 = 0 \<or> (ucast (read_u32 ?f 4) :: u64) > jop_max_record_bytes opts)"
    by (rule payload_length_ok [OF body(1-3) fields(5)])
  have "n < 44 + length body" using assms(2) by (simp add: length_record_frame body_def)
  then have past: "record_prefix_bytes + length body > length ?f"
    using False unfolding len record_prefix_bytes_def by simp
  show ?thesis
    unfolding frame read_frame_def Let_def if_not_P [OF short] if_not_P [OF magic] if_not_P [OF range]
      fields(5) if_P [OF past] by blast
qed

subsection \<open>Replaying frames\<close>

fun frames :: "digest \<Rightarrow> journal_record list \<Rightarrow> string" where
  "frames chain [] = []"
| "frames chain (r # rs) = record_frame chain r @ frames (jrc_chain r) rs"

fun records_follow :: "journal_options \<Rightarrow> digest \<Rightarrow> u64 \<Rightarrow> bool \<Rightarrow> journal_record list \<Rightarrow> bool" where
  "records_follow opts chain ls first [] = True"
| "records_follow opts chain ls first (r # rs) =
     (record_follows opts chain ls first r \<and> records_follow opts (jrc_chain r) (jrc_sequence r) False rs)"

definition last_chain :: "digest \<Rightarrow> journal_record list \<Rightarrow> digest" where
  "last_chain chain rs = (if rs = [] then chain else jrc_chain (last rs))"

definition last_seq :: "u64 \<Rightarrow> journal_record list \<Rightarrow> u64" where
  "last_seq ls rs = (if rs = [] then ls else jrc_sequence (last rs))"

lemma frames_append: "frames chain (rs @ qs) = frames chain rs @ frames (last_chain chain rs) qs"
  by (induction rs arbitrary: chain) (auto simp: last_chain_def)

lemma records_follow_append:
  "records_follow opts chain ls first (rs @ qs) \<longleftrightarrow>
     records_follow opts chain ls first rs \<and>
     records_follow opts (last_chain chain rs) (last_seq ls rs) (first \<and> rs = []) qs"
  by (induction rs arbitrary: chain ls first) (auto simp: last_chain_def last_seq_def)

definition replay_records :: "replay_state \<Rightarrow> journal_record list \<Rightarrow> replay_state" where
  "replay_records st rs = foldl replay_record st (map record_norm rs)"

lemma replay_records_fields:
  "rps_records (replay_records st rs) = rps_records st @ map record_norm rs"
  "rps_chain (replay_records st rs) = last_chain (rps_chain st) rs"
  "rps_last_sequence (replay_records st rs) = last_seq (rps_last_sequence st) rs"
  "rps_replayed (replay_records st rs) = rps_replayed st + length rs"
  "rps_damage (replay_records st rs) = rps_damage st"
  unfolding replay_records_def
  by (induction rs arbitrary: st)
    (auto simp: replay_record_def record_norm_def last_chain_def last_seq_def)

lemma record_frame_nonempty [simp]: "record_frame chain r \<noteq> []"
  using length_record_frame [of chain r] by auto

lemma replay_loop_frames:
  assumes "records_follow opts (rps_chain st) (rps_last_sequence st) (rps_replayed st = 0) rs"
    "rps_replayed st + length rs \<le> jop_max_records opts"
  shows "replay_loop opts tot (frames (rps_chain st) rs @ rest) st = replay_loop opts tot rest (replay_records st rs)"
  using assms
proof (induction rs arbitrary: st)
  case Nil
  then show ?case by (simp add: replay_records_def)
next
  case (Cons r rs)
  let ?st = "replay_record st (record_norm r)"
  have st: "rps_chain ?st = jrc_chain r" "rps_last_sequence ?st = jrc_sequence r"
    "rps_replayed ?st = rps_replayed st + 1"
    by (simp_all add: replay_record_def record_norm_def)
  have ne: "\<not> (frames (rps_chain st) (r # rs) @ rest = [])"
    by simp
  have "replay_loop opts tot (frames (rps_chain st) (r # rs) @ rest) st =
      replay_loop opts tot (frames (jrc_chain r) rs @ rest) ?st"
    using Cons.prems ne read_frame_follows [of opts "rps_chain st" "rps_last_sequence st" "rps_replayed st" r]
    by (subst replay_loop.simps) (simp add: Let_def st)
  also have "\<dots> = replay_loop opts tot rest (replay_records ?st rs)"
    using Cons.IH [of ?st] Cons.prems by (simp add: st)
  finally show ?case by (simp add: replay_records_def)
qed

lemma replay_loop_stops:
  "replay_loop opts tot [] st = Inr (st, [])"
  by (simp add: replay_loop.simps)

lemma replay_loop_torn:
  assumes "record_follows opts chain ls first r" "0 < n" "n < length (record_frame chain r)"
  shows "\<exists>d. replay_loop opts tot (take n (record_frame chain r)) st =
    Inr (st\<lparr>rps_damage := Some d\<rparr>, take n (record_frame chain r))"
proof -
  obtain d where "read_frame opts (tot - length (take n (record_frame chain r))) (rps_chain st)
      (rps_last_sequence st) (rps_replayed st) (take n (record_frame chain r)) = Frame_damage d"
    using read_frame_torn [OF assms(1,3)] by blast
  moreover have "take n (record_frame chain r) \<noteq> []" using assms(2,3) by auto
  ultimately show ?thesis by (subst replay_loop.simps) auto
qed

end
