(* ===== verification/Store_Recovery.thy ===== *)
theory Store_Recovery
  imports Store_Frames
begin

text \<open>
  What the journal guarantees: the bytes a journal has written are its header and the frames of its
  records, and replaying any prefix of them, as a crash may leave it, gives back exactly the records
  whose frames are whole.
\<close>

subsection \<open>The invariant of a journal\<close>

text \<open>
  The options the guarantees need: valid, a record bound within the parser's default text bound, and a
  file bound far enough from the end of the 64-bit range that the slack the read adds does not wrap.
\<close>

definition options_ok :: "journal_options \<Rightarrow> bool" where
  "options_ok opts \<longleftrightarrow> journal_options_validate opts = ok_status \<and> jop_max_record_bytes opts \<le> 1048576 \<and>
     jop_max_file_bytes opts \<le> 4611686018427387904"

text \<open>
  An open, undamaged journal: its file is the header and the frames of its records, chained from the
  empty digest with growing sequence numbers, and its counters are those of the last record.
\<close>

definition journal_wf :: "journal \<Rightarrow> bool" where
  "journal_wf j \<longleftrightarrow>
     jnl_open j \<and> \<not> jnl_tail_damaged j \<and> options_ok (jnl_options j) \<and>
     fw_open (jnl_writer j) \<and> writer_wf (jnl_writer j) \<and>
     fw_limit (jnl_writer j) = jop_max_file_bytes (jnl_options j) \<and>
     (\<exists>created. fw_bytes (jnl_writer j) = file_header created @ frames [] (jnl_records j)) \<and>
     records_follow (jnl_options j) [] 0 True (jnl_records j) \<and>
     length (jnl_records j) \<le> jop_max_records (jnl_options j) \<and>
     jnl_chain j = last_chain [] (jnl_records j) \<and> jnl_last_sequence j = last_seq 0 (jnl_records j)"

lemma length_file_header: "length (file_header created) = header_bytes"
  by (simp add: file_header_def file_magic_def header_bytes_def)

lemma check_header_ok: "check_header path (file_header created @ rest) = Inr header_bytes"
proof -
  have "read_u32 (file_magic @ put_u32 1 @ put_u32 0 @ put_u64 (word_of_int created) @ rest) 8 = 1"
    by (rule read_put_u32) (simp add: file_magic_def)
  then have "read_u32 (file_header created @ rest) 8 = 1" by (simp add: file_header_def)
  moreover have "take 8 (file_header created @ rest) = file_magic"
    by (simp add: file_header_def file_magic_def)
  ultimately show ?thesis by (simp add: check_header_def length_file_header)
qed

lemma json_ok_norm_iff: "json_ok (json_norm d) \<longleftrightarrow> json_ok d"
proof
  show "json_ok (json_norm d) \<Longrightarrow> json_ok d"
  proof (induction d)
    case (JObject ms)
    have "json_ok (snd m)" if "m \<in> set ms" for m
      using JObject.IH [OF that, of "snd m"] JObject.prems that by (cases m) fastforce
    moreover have "map fst (map (\<lambda>(k, v). (k, json_norm v)) ms) = map fst ms" by auto
    ultimately show ?case using JObject.prems by (simp del: map_map)
  qed auto
qed (rule json_ok_norm)

lemma data_fits_norm_iff: "data_fits (json_norm d) \<longleftrightarrow> data_fits d"
  by (simp add: data_fits_def json_ok_norm_iff json_depth_norm)

lemma records_follow_norm:
  "records_follow opts chain ls first (map record_norm rs) = records_follow opts chain ls first rs"
proof (induction rs arbitrary: chain ls first)
  case (Cons r rs)
  have "record_follows opts chain ls first (record_norm r) = record_follows opts chain ls first r"
    by (simp add: record_follows_def record_norm_def Let_def record_body_norm data_fits_norm_iff)
  with Cons show ?case by (simp add: record_norm_def)
qed simp

lemma frames_norm: "frames chain (map record_norm rs) = frames chain rs"
  by (induction rs arbitrary: chain) (simp_all add: record_frame_def record_norm_def Let_def record_body_norm)

lemma last_norm:
  "last_chain chain (map record_norm rs) = last_chain chain rs" "last_seq ls (map record_norm rs) = last_seq ls rs"
  by (simp_all add: last_chain_def last_seq_def last_map record_norm_def)

lemma last_chain_valid:
  "records_follow opts chain ls first rs \<Longrightarrow> valid_digest chain \<Longrightarrow> valid_digest (last_chain chain rs)"
proof (induction rs arbitrary: chain ls first)
  case (Cons r rs)
  then have "valid_digest (jrc_chain r)" by (auto simp: record_follows_def Let_def)
  with Cons have "valid_digest (last_chain (jrc_chain r) rs)" by auto
  then show ?case by (simp add: last_chain_def split: if_splits)
qed (simp add: last_chain_def)

subsection \<open>Appending\<close>

definition next_record :: "journal \<Rightarrow> journal_record_type \<Rightarrow> json \<Rightarrow> timestamp \<Rightarrow> journal_record" where
  "next_record j k data at_time =
     (let sequence = jnl_last_sequence j + 1
      in \<lparr>jrc_sequence = sequence, jrc_type = k, jrc_at = at_time, jrc_data = data,
          jrc_previous = jnl_chain j,
          jrc_chain = digest_of_text (jnl_chain j @ ''|'' @ record_body sequence k at_time (jnl_chain j) data)\<rparr>)"

lemma from_hex_digest: "from_hex (digest_of_text m) = Inr (sha256 m)"
  using from_hex_loop_to_hex [of "sha256 m"]
  by (simp add: digest_of_text_def sha256_hex_def from_hex_def length_to_hex length_sha256)

lemma next_record_frame:
  "record_frame (jnl_chain j) (next_record j k data t) =
     (let body = record_body (jnl_last_sequence j + 1) k t (jnl_chain j) data
      in frame_bytes (sha256 (jnl_chain j @ ''|'' @ body)) body)"
  by (simp add: record_frame_def next_record_def Let_def)

lemma write_record_acknowledged:
  assumes "write_record d j k data t tail = (Inr u, j')"
  obtains w' where
    "counter_try_next (jnl_last_sequence j) = Inr (jnl_last_sequence j + 1)"
    "jnl_open j" "\<not> jnl_tail_damaged j \<or> tail" "length (jnl_records j) < jop_max_records (jnl_options j)"
    "(word_of_nat (length (record_body (jnl_last_sequence j + 1) k t (jnl_chain j) data)) :: u64)
       \<le> jop_max_record_bytes (jnl_options j)"
    "writer_append d (jnl_writer j) (record_frame (jnl_chain j) (next_record j k data t)) = (Inr (), w')"
    "j' = j\<lparr>jnl_writer := w', jnl_records := jnl_records j @ [next_record j k data t],
       jnl_recovery := (jnl_recovery j)\<lparr>rcv_records_replayed := length (jnl_records j) + 1,
         rcv_empty := False, rcv_last_sequence := jnl_last_sequence j + 1\<rparr>,
       jnl_chain := jrc_chain (next_record j k data t), jnl_last_sequence := jnl_last_sequence j + 1\<rparr>"
proof -
  define body where "body = record_body (jnl_last_sequence j + 1) k t (jnl_chain j) data"
  define frame where "frame = frame_bytes (sha256 (jnl_chain j @ CHR ''|'' # body)) body"
  have n: "counter_try_next (jnl_last_sequence j) = Inr (jnl_last_sequence j + 1)"
    using assms by (auto simp: write_record_def counter_try_next_def fail_def split: if_splits)
  obtain a w' where app: "writer_append d (jnl_writer j) frame = (a, w')" by force
  note steps = write_record_def Let_def body_def [symmetric] from_hex_digest n app [unfolded frame_def]
  have a: "a = Inr ()"
    using assms by (cases a) (auto simp: steps fail_def split: if_splits)
  show thesis
  proof (rule that [of w'])
    show "writer_append d (jnl_writer j) (record_frame (jnl_chain j) (next_record j k data t)) = (Inr (), w')"
      using app a by (simp add: next_record_frame body_def [symmetric] frame_def Let_def)
    show "j' = j\<lparr>jnl_writer := w', jnl_records := jnl_records j @ [next_record j k data t],
       jnl_recovery := (jnl_recovery j)\<lparr>rcv_records_replayed := length (jnl_records j) + 1,
         rcv_empty := False, rcv_last_sequence := jnl_last_sequence j + 1\<rparr>,
       jnl_chain := jrc_chain (next_record j k data t), jnl_last_sequence := jnl_last_sequence j + 1\<rparr>"
      using assms by (auto simp: steps a fail_def next_record_def split: if_splits sum.splits)
  qed (use n assms in \<open>auto simp: write_record_def Let_def body_def [symmetric] fail_def not_less split: if_splits\<close>)
qed

text \<open>The size of a payload is that of a string in memory, so it is below the 64-bit range.\<close>

definition payload_small :: "journal \<Rightarrow> journal_record_type \<Rightarrow> json \<Rightarrow> timestamp \<Rightarrow> bool" where
  "payload_small j k data t \<longleftrightarrow>
     length (record_body (jnl_last_sequence j + 1) k t (jnl_chain j) data) < 9223372036854775808"

lemma next_record_follows:
  assumes "journal_wf j" "counter_try_next (jnl_last_sequence j) = Inr (jnl_last_sequence j + 1)"
    "(word_of_nat (length (record_body (jnl_last_sequence j + 1) k t (jnl_chain j) data)) :: u64)
       \<le> jop_max_record_bytes (jnl_options j)"
    "data_fits data" "ts_ok t" "payload_small j k data t"
  shows "record_follows (jnl_options j) (jnl_chain j) (jnl_last_sequence j) (jnl_records j = [])
      (next_record j k data t)" (is "record_follows _ _ _ _ ?r")
    and "length (record_frame (jnl_chain j) (next_record j k data t)) < 2 ^ 64"
proof -
  note wf = assms(1) [unfolded journal_wf_def]
  let ?body = "record_body (jnl_last_sequence j + 1) k t (jnl_chain j) data"
  have body: "length ?body < 2 ^ 63" using assms(6) by (simp add: payload_small_def)
  then have len: "length ?body \<le> unat (jop_max_record_bytes (jnl_options j))"
    using assms(3) by (simp add: word_le_nat_alt unat_of_nat take_bit_nat_eq_self)
  have "unat (jop_max_record_bytes (jnl_options j)) \<le> 2 ^ 20"
    using wf by (simp add: options_ok_def word_le_nat_alt)
  with len have short: "length ?body \<le> 2 ^ 20" by simp
  have chain: "valid_digest (jnl_chain j)" using wf last_chain_valid by auto
  show follows: "record_follows (jnl_options j) (jnl_chain j) (jnl_last_sequence j) (jnl_records j = []) ?r"
    using counter_try_next_less [OF assms(2)] len short chain assms(4,5)
    by (simp add: record_follows_def next_record_def Let_def)
  show "length (record_frame (jnl_chain j) (next_record j k data t)) < 2 ^ 64"
    using short by (simp add: next_record_frame Let_def frame_bytes_def record_magic_def length_sha256)
qed

lemma write_record_wf:
  assumes "journal_wf j" "write_record d j k data t tail = (Inr u, j')" "data_fits data" "ts_ok t"
    "payload_small j k data t"
  shows "journal_wf j' \<and> jnl_records j' = jnl_records j @ [next_record j k data t] \<and>
    jnl_options j' = jnl_options j"
proof -
  note wf = assms(1) [unfolded journal_wf_def]
  let ?r = "next_record j k data t"
  let ?body = "record_body (jnl_last_sequence j + 1) k t (jnl_chain j) data"
  from assms(2) obtain w' where n: "counter_try_next (jnl_last_sequence j) = Inr (jnl_last_sequence j + 1)"
    and room: "length (jnl_records j) < jop_max_records (jnl_options j)"
    and small: "(word_of_nat (length ?body) :: u64) \<le> jop_max_record_bytes (jnl_options j)"
    and app: "writer_append d (jnl_writer j) (record_frame (jnl_chain j) ?r) = (Inr (), w')"
    and j': "j' = j\<lparr>jnl_writer := w', jnl_records := jnl_records j @ [?r],
       jnl_recovery := (jnl_recovery j)\<lparr>rcv_records_replayed := length (jnl_records j) + 1,
         rcv_empty := False, rcv_last_sequence := jnl_last_sequence j + 1\<rparr>,
       jnl_chain := jrc_chain ?r, jnl_last_sequence := jnl_last_sequence j + 1\<rparr>"
    by (rule write_record_acknowledged)
  note follows = next_record_follows [OF assms(1) n small assms(3-5)]
  from writer_append_ok [OF app _ follows(2)] wf
  have w': "fw_bytes w' = fw_bytes (jnl_writer j) @ record_frame (jnl_chain j) ?r" "writer_wf w'" "fw_open w'"
    "fw_limit w' = fw_limit (jnl_writer j)" by auto
  have "records_follow (jnl_options j) [] 0 True (jnl_records j @ [?r])"
    using wf follows(1) by (simp add: records_follow_append)
  moreover have "frames [] (jnl_records j @ [?r]) = frames [] (jnl_records j) @ record_frame (jnl_chain j) ?r"
    using wf by (simp add: frames_append)
  moreover have "last_chain [] (jnl_records j @ [?r]) = jrc_chain ?r"
    "last_seq 0 (jnl_records j @ [?r]) = jnl_last_sequence j + 1"
    by (simp_all add: last_chain_def last_seq_def next_record_def Let_def)
  ultimately show ?thesis
    using wf w' room unfolding j' journal_wf_def by (auto simp: Suc_le_eq)
qed

subsection \<open>Replaying what a crash left\<close>

text \<open>How many frames are whole within the first \<open>n\<close> bytes.\<close>

fun whole_frames :: "digest \<Rightarrow> journal_record list \<Rightarrow> nat \<Rightarrow> nat" where
  "whole_frames chain [] n = 0"
| "whole_frames chain (r # rs) n =
     (if length (record_frame chain r) \<le> n
      then Suc (whole_frames (jrc_chain r) rs (n - length (record_frame chain r))) else 0)"

lemma whole_frames_le: "whole_frames chain rs n \<le> length rs"
  by (induction rs arbitrary: chain n) auto

lemma whole_frames_all: "length (frames chain rs) \<le> n \<Longrightarrow> whole_frames chain rs n = length rs"
  by (induction rs arbitrary: chain n) auto

definition torn :: "digest \<Rightarrow> journal_record list \<Rightarrow> nat \<Rightarrow> bool" where
  "torn chain rs n \<longleftrightarrow>
     length (frames chain (take (whole_frames chain rs n) rs)) < min n (length (frames chain rs))"

lemma replay_loop_cut:
  assumes "records_follow opts (rps_chain st) (rps_last_sequence st) (rps_replayed st = 0) rs"
    "rps_replayed st + length rs \<le> jop_max_records opts" "rps_damage st = None"
  shows "\<exists>bad rest. replay_loop opts tot (take n (frames (rps_chain st) rs)) st =
      Inr ((replay_records st (take (whole_frames (rps_chain st) rs n) rs))\<lparr>rps_damage := bad\<rparr>, rest) \<and>
    (bad \<noteq> None \<longleftrightarrow> torn (rps_chain st) rs n)"
  using assms
proof (induction rs arbitrary: st n)
  case Nil
  then show ?case by (simp add: replay_loop_stops replay_records_def torn_def)
next
  case (Cons r rs)
  let ?f = "record_frame (rps_chain st) r" and ?st = "replay_record st (record_norm r)"
  have one: "record_follows opts (rps_chain st) (rps_last_sequence st) (rps_replayed st = 0) r"
    using Cons.prems by simp
  have st: "rps_chain ?st = jrc_chain r" "rps_last_sequence ?st = jrc_sequence r"
    "rps_replayed ?st = rps_replayed st + 1" "rps_damage ?st = None"
    using Cons.prems by (simp_all add: replay_record_def record_norm_def)
  show ?case
  proof (cases "length ?f \<le> n")
    case True
    have "replay_loop opts tot (?f @ take (n - length ?f) (frames (jrc_chain r) rs)) st =
        replay_loop opts tot (take (n - length ?f) (frames (jrc_chain r) rs)) ?st"
      using Cons.prems read_frame_follows [OF one]
      by (subst replay_loop.simps) (simp add: Let_def st)
    moreover have "take n (frames (rps_chain st) (r # rs)) = ?f @ take (n - length ?f) (frames (jrc_chain r) rs)"
      using True by simp
    moreover have "torn (rps_chain st) (r # rs) n = torn (jrc_chain r) rs (n - length ?f)"
      using True by (auto simp: torn_def)
    moreover have "replay_records ?st (take m rs) = replay_records st (r # take m rs)" for m
      by (simp add: replay_records_def)
    ultimately show ?thesis
      using Cons.IH [of ?st "n - length ?f"] Cons.prems True by (simp add: st)
  next
    case False
    then have take: "take n (frames (rps_chain st) (r # rs)) = take n ?f" by simp
    show ?thesis
    proof (cases "n = 0")
      case True
      then show ?thesis using Cons.prems by (simp add: replay_loop_stops replay_records_def torn_def)
    next
      case pos: False
      with replay_loop_torn [OF one, of n tot st] False obtain b where
        "replay_loop opts tot (take n ?f) st = Inr (st\<lparr>rps_damage := Some b\<rparr>, take n ?f)" by auto
      with take False pos show ?thesis by (auto simp: replay_records_def torn_def)
    qed
  qed
qed

lemma journal_wf_size:
  assumes "journal_wf j"
  shows "length (fw_bytes (jnl_writer j)) \<le> unat (jop_max_file_bytes (jnl_options j))"
proof -
  have a: "unat (fw_written (jnl_writer j)) = length (fw_bytes (jnl_writer j))"
    "fw_written (jnl_writer j) \<le> jop_max_file_bytes (jnl_options j)"
    using assms by (auto simp: journal_wf_def writer_wf_def)
  from a(2) have "unat (fw_written (jnl_writer j)) \<le> unat (jop_max_file_bytes (jnl_options j))"
    by (simp add: word_le_nat_alt)
  with a(1) show ?thesis by simp
qed

text \<open>Opening a file whose replay is known.\<close>

lemma read_bound_slack:
  assumes "options_ok opts" "length bytes \<le> unat (jop_max_file_bytes opts)"
  shows "fs_read_file bytes (jop_max_file_bytes opts + 1048576) = Inr bytes"
    "\<not> (word_of_nat (length bytes) :: u64) > jop_max_file_bytes opts" "length bytes < 2 ^ 64"
proof -
  have big: "unat (jop_max_file_bytes opts) \<le> 2 ^ 62"
    using assms(1) by (simp add: options_ok_def word_le_nat_alt)
  with assms(2) have size: "length bytes \<le> 2 ^ 62" by simp
  then show "length bytes < 2 ^ 64" by simp
  have u: "unat (word_of_nat (length bytes) :: u64) = length bytes"
    using size by (simp only: unat_of_nat) (rule mod_less, simp)
  have "unat (jop_max_file_bytes opts + 1048576) = unat (jop_max_file_bytes opts) + 1048576"
    using big by (simp add: unat_word_ariths)
  then have "(word_of_nat (length bytes) :: u64) \<le> jop_max_file_bytes opts + 1048576"
    using assms(2) u by (simp only: word_le_nat_alt)
  then show "fs_read_file bytes (jop_max_file_bytes opts + 1048576) = Inr bytes"
    by (simp add: fs_read_file_def require_bound_def not_less)
  show "\<not> (word_of_nat (length bytes) :: u64) > jop_max_file_bytes opts"
    using assms(2) u by (simp add: word_less_nat_alt not_less)
qed

lemma journal_open_replay:
  assumes opts: "options_ok opts" and bytes: "bytes = file_header created @ body"
    and len: "length bytes \<le> unat (jop_max_file_bytes opts)"
    and replay: "replay_loop opts (length bytes) body replay_start = Inr (st, rest)"
  shows "\<exists>j. journal_open d path opts (Some bytes) now = Inr j \<and> jnl_records j = rps_records st \<and>
    jnl_tail_damaged j = (rps_damage st \<noteq> None) \<and> rcv_truncated_tail (jnl_recovery j) = jnl_tail_damaged j \<and>
    rcv_records_replayed (jnl_recovery j) = rps_replayed st \<and> jnl_options j = opts \<and> jnl_open j \<and>
    jnl_chain j = rps_chain st \<and> jnl_last_sequence j = rps_last_sequence st \<and>
    fw_open (jnl_writer j) \<and> writer_wf (jnl_writer j) \<and> fw_bytes (jnl_writer j) = bytes \<and>
    fw_limit (jnl_writer j) = jop_max_file_bytes opts"
proof -
  note bounds = read_bound_slack [OF opts len]
  obtain wr where wr: "writer_open_append path bytes (jop_max_file_bytes opts) = Inr wr"
    using bounds(2) by (simp add: writer_open_append_def Let_def)
  from writer_open_append_wf [OF wr bounds(3)]
  have wr': "writer_wf wr" "fw_open wr" "fw_bytes wr = bytes" "fw_limit wr = jop_max_file_bytes opts" by auto
  have header: "check_header path bytes = Inr header_bytes" unfolding bytes by (rule check_header_ok)
  have drop: "drop header_bytes bytes = body" unfolding bytes by (simp add: length_file_header)
  have valid: "journal_options_validate opts = Inr ()" using opts by (simp add: options_ok_def)
  have ne: "bytes \<noteq> []" unfolding bytes by (simp add: file_header_def file_magic_def)
  show ?thesis
    unfolding journal_open_def
    using replay bounds(1) wr header valid drop ne wr'
    by (simp add: recovery_of_def Let_def case_prod_beta)
qed

lemma replay_start_simps [simp]:
  "rps_chain replay_start = []" "rps_last_sequence replay_start = 0" "rps_replayed replay_start = 0"
  "rps_damage replay_start = None" "rps_records replay_start = []"
  by (simp_all add: replay_start_def)

text \<open>The journal that opening a cut of a journal's file gives.\<close>

lemma journal_open_cut:
  assumes wf: "journal_wf j" and n: "header_bytes \<le> n"
  defines "m \<equiv> whole_frames [] (jnl_records j) (n - header_bytes)"
  shows "\<exists>j'. journal_open d path (jnl_options j) (Some (take n (fw_bytes (jnl_writer j)))) now = Inr j' \<and>
    jnl_records j' = map record_norm (take m (jnl_records j)) \<and>
    jnl_tail_damaged j' = torn [] (jnl_records j) (n - header_bytes) \<and>
    rcv_truncated_tail (jnl_recovery j') = jnl_tail_damaged j' \<and>
    rcv_records_replayed (jnl_recovery j') = m \<and>
    jnl_options j' = jnl_options j \<and> jnl_open j' \<and>
    jnl_chain j' = last_chain [] (take m (jnl_records j)) \<and>
    jnl_last_sequence j' = last_seq 0 (take m (jnl_records j)) \<and>
    fw_open (jnl_writer j') \<and> writer_wf (jnl_writer j') \<and> fw_bytes (jnl_writer j') = take n (fw_bytes (jnl_writer j)) \<and>
    fw_limit (jnl_writer j') = jop_max_file_bytes (jnl_options j)"
proof -
  note w = wf [unfolded journal_wf_def]
  let ?opts = "jnl_options j" and ?cut = "take n (fw_bytes (jnl_writer j))"
  obtain created where bytes: "fw_bytes (jnl_writer j) = file_header created @ frames [] (jnl_records j)"
    using w by blast
  have cut: "?cut = file_header created @ take (n - header_bytes) (frames [] (jnl_records j))"
    unfolding bytes using n by (simp add: length_file_header)
  have opts: "options_ok ?opts" and len: "length ?cut \<le> unat (jop_max_file_bytes ?opts)"
    using w journal_wf_size [OF wf] by simp_all
  from w have follow: "records_follow ?opts (rps_chain replay_start) (rps_last_sequence replay_start)
      (rps_replayed replay_start = 0) (jnl_records j)"
    and count: "rps_replayed replay_start + length (jnl_records j) \<le> jop_max_records ?opts"
    by simp_all
  from replay_loop_cut [OF follow count, of "length ?cut" "n - header_bytes"] obtain bad rest where
    replay: "replay_loop ?opts (length ?cut) (take (n - header_bytes) (frames [] (jnl_records j))) replay_start =
      Inr ((replay_records replay_start (take m (jnl_records j)))\<lparr>rps_damage := bad\<rparr>, rest)"
    and bad: "bad \<noteq> None \<longleftrightarrow> torn [] (jnl_records j) (n - header_bytes)"
    unfolding replay_start_simps m_def by blast
  have m: "min (length (jnl_records j)) m = m" by (simp add: m_def whole_frames_le min_absorb2)
  from journal_open_replay [OF opts cut len replay, of d path now] bad m show ?thesis
    by (simp add: replay_records_fields)
qed

lemma whole_frames_length: "length (frames chain (take (whole_frames chain rs n) rs)) \<le> n"
proof (induction rs arbitrary: chain n)
  case (Cons r rs)
  show ?case
    using Cons.IH [of "jrc_chain r" "n - length (record_frame chain r)"] by (auto split: if_splits)
qed simp

lemma not_torn_cut:
  assumes "\<not> torn chain rs n"
  shows "take n (frames chain rs) = frames chain (take (whole_frames chain rs n) rs)"
proof -
  let ?m = "whole_frames chain rs n"
  have all: "frames chain rs = frames chain (take ?m rs) @ frames (last_chain chain (take ?m rs)) (drop ?m rs)"
    by (metis append_take_drop_id frames_append)
  note sizes = arg_cong [OF all, of length]
  have "length (frames chain (take ?m rs)) = min n (length (frames chain rs))"
    using assms whole_frames_length [of chain rs n] sizes by (auto simp: torn_def)
  with sizes show ?thesis by (subst all) (auto simp: min_def split: if_splits)
qed

lemma journal_open_cut_wf:
  assumes wf: "journal_wf j" and n: "header_bytes \<le> n"
    and op: "journal_open d path (jnl_options j) (Some (take n (fw_bytes (jnl_writer j)))) now = Inr j'"
    and clean: "\<not> jnl_tail_damaged j'"
  shows "journal_wf j'"
proof -
  note w = wf [unfolded journal_wf_def]
  let ?m = "whole_frames [] (jnl_records j) (n - header_bytes)"
  from journal_open_cut [OF wf n, of d path now] op
  have j': "jnl_records j' = map record_norm (take ?m (jnl_records j))"
    "jnl_tail_damaged j' = torn [] (jnl_records j) (n - header_bytes)"
    "jnl_options j' = jnl_options j" "jnl_open j'" "jnl_chain j' = last_chain [] (take ?m (jnl_records j))"
    "jnl_last_sequence j' = last_seq 0 (take ?m (jnl_records j))"
    "fw_open (jnl_writer j')" "writer_wf (jnl_writer j')"
    "fw_bytes (jnl_writer j') = take n (fw_bytes (jnl_writer j))"
    "fw_limit (jnl_writer j') = jop_max_file_bytes (jnl_options j)"
    by auto
  obtain created where bytes: "fw_bytes (jnl_writer j) = file_header created @ frames [] (jnl_records j)"
    using w by blast
  have "take n (fw_bytes (jnl_writer j)) = file_header created @ frames [] (take ?m (jnl_records j))"
    unfolding bytes using n not_torn_cut [of "[]" "jnl_records j" "n - header_bytes"] clean j'(2)
    by (simp add: length_file_header)
  moreover have "records_follow (jnl_options j) [] 0 True (take ?m (jnl_records j))"
    using w records_follow_append [of "jnl_options j" "[]" 0 True "take ?m (jnl_records j)" "drop ?m (jnl_records j)"]
    by simp
  ultimately show ?thesis
    using w j' clean by (auto simp: journal_wf_def frames_norm records_follow_norm last_norm)
qed

lemma journal_open_fresh:
  assumes "journal_open d path opts content now = Inr j" "content = None \<or> content = Some []" "options_ok opts"
  shows "journal_wf j \<and> jnl_records j = [] \<and> jnl_options j = opts"
proof -
  have valid: "journal_options_validate opts = Inr ()" "0 < jop_max_records opts"
    using assms(3) by (auto simp: options_ok_def journal_options_validate_def split: if_splits)
  obtain wr where wr: "writer_open_append path [] (jop_max_file_bytes opts) = Inr wr"
    by (simp add: writer_open_append_def)
  from writer_open_append_wf [OF this]
  have wr': "writer_wf wr" "fw_open wr" "fw_bytes wr = []" "fw_limit wr = jop_max_file_bytes opts" by auto
  obtain a w' where app: "writer_append d wr (file_header now) = (a, w')" by force
  have a: "a = Inr ()" and j: "jnl_writer j = w'" "jnl_records j = []" "jnl_options j = opts" "jnl_open j"
    "\<not> jnl_tail_damaged j" "jnl_chain j = []" "jnl_last_sequence j = 0"
    using assms(1,2) app wr valid
    by (auto simp: journal_open_def fs_read_file_def check_header_def replay_loop_stops replay_start_def
        fum_try_Inr_iff header_bytes_def)
  have "length (file_header now) < 2 ^ 64" by (simp add: length_file_header header_bytes_def)
  from writer_append_ok [OF _ wr'(1) this] app a wr' j
  show ?thesis using assms(3) by (auto simp: journal_wf_def last_chain_def last_seq_def)
qed

subsection \<open>The runs of a journal\<close>

text \<open>
  What a journal's file goes through: it is created, grows by acknowledged appends, and is opened again
  after a crash that kept some prefix of it, as long as the cut fell between two frames.
\<close>

inductive journal_run :: "journal \<Rightarrow> bool" where
  created: "journal_open d path opts content now = Inr j \<Longrightarrow> content = None \<or> content = Some [] \<Longrightarrow>
    options_ok opts \<Longrightarrow> journal_run j"
| appended: "journal_run j \<Longrightarrow> journal_append d j k data t = (Inr (), j') \<Longrightarrow> data_fits data \<Longrightarrow> ts_ok t \<Longrightarrow>
    payload_small j k data t \<Longrightarrow> journal_run j'"
| restarted: "journal_run j \<Longrightarrow> header_bytes \<le> n \<Longrightarrow>
    journal_open d path (jnl_options j) (Some (take n (fw_bytes (jnl_writer j)))) now = Inr j' \<Longrightarrow>
    \<not> jnl_tail_damaged j' \<Longrightarrow> journal_run j'"

lemma journal_run_wf: "journal_run j \<Longrightarrow> journal_wf j"
proof (induction rule: journal_run.induct)
  case (created d path opts content now j)
  then show ?case using journal_open_fresh by blast
next
  case (appended j d k data t j')
  then show ?case using write_record_wf unfolding journal_append_def by blast
next
  case (restarted j n d path now j')
  then show ?case using journal_open_cut_wf by blast
qed

text \<open>An append that fails leaves the file as it is, or with a prefix of the frame it was to write.\<close>

lemma writer_append_disk:
  assumes "writer_append d w data = (a, w')"
  shows "(\<exists>e. a = Inl e \<and> w' = w) \<or>
    (\<exists>w2 n. writer_append Disk_ok w data = (Inr (), w2) \<and> fw_open w2 \<and> fw_bytes w2 = fw_bytes w @ data \<and>
       fw_bytes w' = fw_bytes w @ take n data \<and> (a = Inr () \<longrightarrow> w' = w2))"
  using assms
  by (auto simp: writer_append_def Let_def disk_accepts_def fail_def intro: exI [of _ "length data"]
      split: if_splits sum.splits disk.splits)

lemma journal_append_disk:
  assumes "journal_append d j k data t = (status, j')"
  shows "(\<exists>e. status = Inl e \<and> j' = j) \<or>
    (\<exists>j2 n. journal_append Disk_ok j k data t = (Inr (), j2) \<and>
       length (fw_bytes (jnl_writer j)) \<le> n \<and>
       fw_bytes (jnl_writer j') = take n (fw_bytes (jnl_writer j2)) \<and>
       (status = Inr () \<longrightarrow> j' = j2))"
proof -
  define body where "body = record_body (jnl_last_sequence j + 1) k t (jnl_chain j) data"
  define frame where "frame = frame_bytes (sha256 (jnl_chain j @ CHR ''|'' # body)) body"
  obtain a w' where app: "writer_append d (jnl_writer j) frame = (a, w')" by force
  note steps = journal_append_def write_record_def Let_def counter_try_next_iff from_hex_digest
    app [unfolded frame_def] body_def [symmetric]
  show ?thesis
  proof (cases "\<exists>e. status = Inl e \<and> j' = j")
    case False
    then have n: "counter_try_next (jnl_last_sequence j) = Inr (jnl_last_sequence j + 1)"
      and guards: "jnl_open j" "\<not> jnl_tail_damaged j" "\<not> length (jnl_records j) \<ge> jop_max_records (jnl_options j)"
        "\<not> (word_of_nat (length body) :: u64) > jop_max_record_bytes (jnl_options j)"
      using assms by (auto simp: steps fail_def split: if_splits sum.splits)
    have ran: "jnl_writer j' = w'" "a = Inl e \<Longrightarrow> status = Inl e" for e
      using assms guards by (auto simp: steps n fail_def split: sum.splits if_splits)
    from writer_append_disk [OF app] consider e where "a = Inl e" "w' = jnl_writer j" |
      w2 n where "writer_append Disk_ok (jnl_writer j) frame = (Inr (), w2)" "fw_open w2"
        "fw_bytes w2 = fw_bytes (jnl_writer j) @ frame" "fw_bytes w' = fw_bytes (jnl_writer j) @ take n frame"
        "a = Inr () \<longrightarrow> w' = w2"
      by blast
    then show ?thesis
    proof cases
      case 1
      then show ?thesis using assms guards False by (auto simp: steps n fail_def)
    next
      case 2
      note ok = 2(1) [unfolded frame_def]
      obtain j2 where j2: "journal_append Disk_ok j k data t = (Inr (), j2)" "jnl_writer j2 = w2"
        using guards 2(2) by (auto simp: steps n ok writer_sync_def writer_flush_def)
      have "status = Inr () \<longrightarrow> j' = j2"
        using assms guards 2 j2 by (cases a) (auto simp: steps n ok writer_sync_def writer_flush_def fail_def split: if_splits sum.splits)
      with j2 2 ran show ?thesis
        by (intro disjI2 exI [of _ j2] exI [of _ "length (fw_bytes (jnl_writer j)) + n"]) auto
    qed
  qed blast
qed


lemma whole_frames_snoc:
  "length (frames chain rs) \<le> n \<Longrightarrow>
   take (whole_frames chain (rs @ [r]) n) (rs @ [r]) = rs \<or> take (whole_frames chain (rs @ [r]) n) (rs @ [r]) = rs @ [r]"
  by (induction rs arbitrary: chain n) auto

lemma journal_run_file:
  assumes "journal_run j"
  shows "length (fw_bytes (jnl_writer j)) = header_bytes + length (frames [] (jnl_records j))"
  using journal_run_wf [OF assms] by (auto simp: journal_wf_def length_file_header)

lemma torn_whole: "length (frames chain rs) \<le> n \<Longrightarrow> \<not> torn chain rs n"
  by (simp add: torn_def whole_frames_all)

subsection \<open>Properties\<close>


text \<open>
  What a crash may take away after an append.  The contract of the disk: the bytes whose sync succeeded stay.  The journal
  was synced before; the bytes of the append are owed only when the append ran a sync of the whole file that succeeded.
\<close>

definition owed_bytes :: "disk \<Rightarrow> journal \<Rightarrow> journal \<Rightarrow> nat" where
  "owed_bytes d j j1 =
     (if jop_sync_on_append (jnl_options j) \<and> writer_sync d (jnl_writer j1) = ok_status
      then length (fw_bytes (jnl_writer j1)) else length (fw_bytes (jnl_writer j)))"

lemma fum_try_acknowledged: "fum_try a (\<lambda>_. b) = ok_status \<Longrightarrow> b = ok_status"
  by (cases a) simp_all

lemma acknowledged_append_synced:
  assumes "journal_append d j k data t = (Inr (), j1)" "jop_sync_on_append (jnl_options j)"
  shows "writer_sync d (jnl_writer j1) = ok_status"
  using assms
  by (auto simp: journal_append_def write_record_def Let_def fail_def dest: fum_try_acknowledged
      split: if_splits sum.splits prod.splits)


text \<open>
  A crash while the 24 header bytes are being written leaves a file that no later open accepts: it is
  refused as corrupt before any record is looked at, whatever the disk and however often it is retried.
\<close>

theorem journal_torn_header_refused:
  assumes "options_ok opts" "0 < n" "n < header_bytes"
  shows "journal_open d path opts (Some (take n (file_header created))) now =
    fail EC_corrupt ''journal file is too short to hold a header'' path"
proof -
  have "\<not> jop_max_record_bytes opts < 1024" "\<not> jop_max_file_bytes opts < jop_max_record_bytes opts"
    using assms(1) by (auto simp: options_ok_def journal_options_validate_def split: if_splits)
  then have "1024 \<le> unat (jop_max_file_bytes opts)"
    by (simp add: not_less word_le_nat_alt)
  then have "length (take n (file_header created)) \<le> unat (jop_max_file_bytes opts)"
    using assms(3) by (simp add: length_file_header header_bytes_def)
  moreover have "take n (file_header created) \<noteq> []"
    using assms(2) by (simp add: file_header_def file_magic_def)
  ultimately show ?thesis
    using assms read_bound_slack(1) [OF assms(1)] by (auto simp: journal_open_def options_ok_def check_header_def length_file_header header_bytes_def)
qed

lemma replay_loop_stale:
  assumes "record_follows opts chain ls first r" "jrc_sequence r \<le> rps_last_sequence st" "rps_replayed st \<noteq> 0"
  shows "\<exists>b. replay_loop opts tot (record_frame chain r) st =
    Inr (st\<lparr>rps_damage := Some b\<rparr>, record_frame chain r)"
proof -
  obtain b where "read_frame opts (tot - length (record_frame chain r)) (rps_chain st) (rps_last_sequence st)
      (rps_replayed st) (record_frame chain r) = Frame_damage b"
    using read_frame_payload [OF assms(1), where ys = "[]"] read_payload_stale [OF assms] by fastforce
  then show ?thesis by (subst replay_loop.simps) auto
qed

lemma failed_sync_append:
  assumes "journal_append Disk_sync_fails j k data t = (Inl e, j1)" "j1 \<noteq> j"
  obtains w ja where "writer_append Disk_ok (jnl_writer j) (record_frame (jnl_chain j) (next_record j k data t)) = (Inr (), w)"
    "j1 = j\<lparr>jnl_writer := w\<rparr>" "journal_append Disk_ok j k data t = (Inr (), ja)" "jnl_writer ja = w"
proof -
  define body where "body = record_body (jnl_last_sequence j + 1) k t (jnl_chain j) data"
  define frame where "frame = frame_bytes (sha256 (jnl_chain j @ CHR ''|'' # body)) body"
  obtain a w where app: "writer_append Disk_sync_fails (jnl_writer j) frame = (a, w)" by force
  note steps = journal_append_def write_record_def Let_def counter_try_next_iff from_hex_digest
    app [unfolded frame_def] body_def [symmetric]
  have n: "counter_try_next (jnl_last_sequence j) = Inr (jnl_last_sequence j + 1)"
    and guards: "jnl_open j" "\<not> jnl_tail_damaged j" "\<not> length (jnl_records j) \<ge> jop_max_records (jnl_options j)"
      "\<not> (word_of_nat (length body) :: u64) > jop_max_record_bytes (jnl_options j)"
    using assms by (auto simp: steps fail_def split: if_splits sum.splits)
  have j1: "j1 = j\<lparr>jnl_writer := w\<rparr>"
    using assms guards by (auto simp: steps n fail_def split: if_splits sum.splits)
  have "w \<noteq> jnl_writer j" using assms(2) j1 by auto
  then have a: "a = Inr ()" and ok: "writer_append Disk_ok (jnl_writer j) frame = (Inr (), w)" and op: "fw_open w"
    using app by (auto simp: writer_append_def Let_def disk_accepts_def fail_def split: if_splits sum.splits)
  note ok' = ok [unfolded frame_def]
  obtain ja where ja: "journal_append Disk_ok j k data t = (Inr (), ja)" "jnl_writer ja = w"
    using guards op by (auto simp: steps n ok' writer_sync_def writer_flush_def)
  have "frame = record_frame (jnl_chain j) (next_record j k data t)"
    by (simp add: frame_def next_record_frame body_def Let_def)
  then show thesis using that ok j1 ja by simp
qed

text \<open>
  C22: a record acknowledged after a failed sync is lost.  When the sync of one append fails, the frame is in
  the file but not in the journal's state; the next append is acknowledged with the same sequence number and
  the same chain link, so the next open reads the first frame, refuses the second one as damage and refuses to append.
\<close>

theorem journal_lost_after_failed_sync:
  assumes "journal_run j" and first: "journal_append Disk_sync_fails j k1 d1 t1 = (Inl e, j1)" "j1 \<noteq> j"
    and second: "journal_append Disk_ok j1 k2 d2 t2 = (Inr (), j2)"
    and fits: "data_fits d1" "ts_ok t1" "payload_small j k1 d1 t1" "data_fits d2" "ts_ok t2" "payload_small j k2 d2 t2"
  shows "jnl_records j2 = jnl_records j @ [next_record j k2 d2 t2] \<and>
    (\<exists>j3. journal_open d path (jnl_options j) (Some (fw_bytes (jnl_writer j2))) now = Inr j3 \<and>
       jnl_records j3 = map record_norm (jnl_records j @ [next_record j k1 d1 t1]) \<and> jnl_tail_damaged j3)"
proof -
  let ?r1 = "next_record j k1 d1 t1" and ?r2 = "next_record j k2 d2 t2" and ?opts = "jnl_options j"
  note wf = journal_run_wf [OF assms(1), unfolded journal_wf_def]
  from failed_sync_append [OF first] obtain w ja where
    w: "writer_append Disk_ok (jnl_writer j) (record_frame (jnl_chain j) ?r1) = (Inr (), w)"
    and j1: "j1 = j\<lparr>jnl_writer := w\<rparr>"
    and ja: "journal_append Disk_ok j k1 d1 t1 = (Inr (), ja)" "jnl_writer ja = w" .
  have "write_record Disk_ok j k1 d1 t1 False = (Inr (), ja)" using ja by (simp add: journal_append_def)
  from write_record_wf [OF journal_run_wf [OF assms(1)] this fits(1-3)]
  have ja_wf: "journal_wf ja" "jnl_records ja = jnl_records j @ [?r1]" "jnl_options ja = ?opts" by auto
  have n1: "next_record j1 k2 d2 t2 = ?r2" by (simp add: j1 next_record_def)
  have write2: "write_record Disk_ok j1 k2 d2 t2 False = (Inr (), j2)"
    using second by (simp add: journal_append_def)
  obtain w2 where n: "counter_try_next (jnl_last_sequence j) = Inr (jnl_last_sequence j + 1)"
    and app2: "writer_append Disk_ok w (record_frame (jnl_chain j) ?r2) = (Inr (), w2)"
    and j2: "jnl_writer j2 = w2" "jnl_records j2 = jnl_records j @ [?r2]"
    and small: "(word_of_nat (length (record_body (jnl_last_sequence j + 1) k2 t2 (jnl_chain j) d2)) :: u64)
      \<le> jop_max_record_bytes ?opts"
    by (rule write_record_acknowledged [OF write2]) (simp_all add: j1 n1 [unfolded j1])
  note r2 = next_record_follows [OF journal_run_wf [OF assms(1)] n small fits(4-6)]
  have wa: "fw_bytes w = fw_bytes (jnl_writer ja)" "writer_wf w" "fw_limit w = jop_max_file_bytes ?opts"
    using ja(2) ja_wf by (auto simp: journal_wf_def)
  from writer_append_ok [OF app2 wa(2) r2(2)] wa
  have w2: "fw_bytes w2 = fw_bytes w @ record_frame (jnl_chain j) ?r2" "writer_wf w2"
    "fw_limit w2 = jop_max_file_bytes ?opts" by auto
  from ja_wf(1) obtain created where bytes: "fw_bytes w = file_header created @ frames [] (jnl_records ja)"
    using wa(1) by (auto simp: journal_wf_def)
  have file2: "fw_bytes w2 = file_header created @ (frames [] (jnl_records ja) @ record_frame (jnl_chain j) ?r2)"
    by (simp add: w2 bytes)
  have len: "length (fw_bytes w2) \<le> unat (jop_max_file_bytes ?opts)"
    using w2(2,3) by (auto simp: writer_wf_def word_le_nat_alt)
  let ?st = "replay_records replay_start (jnl_records ja)"
  have st: "rps_chain ?st = jrc_chain ?r1" "rps_last_sequence ?st = jrc_sequence ?r1" "rps_replayed ?st \<noteq> 0"
    "rps_records ?st = map record_norm (jnl_records ja)" "rps_damage ?st = None"
    by (simp_all add: replay_records_fields ja_wf(2) last_chain_def last_seq_def)
  have same: "jrc_sequence ?r2 \<le> jrc_sequence ?r1" by (simp add: next_record_def Let_def)
  let ?f2 = "record_frame (jnl_chain j) ?r2"
  have "replay_loop ?opts (length (fw_bytes w2)) (frames [] (jnl_records ja) @ ?f2) replay_start =
      replay_loop ?opts (length (fw_bytes w2)) ?f2 ?st"
    using replay_loop_frames [of ?opts replay_start "jnl_records ja" "length (fw_bytes w2)" ?f2] ja_wf(1,3)
    by (simp add: journal_wf_def)
  moreover obtain b where "replay_loop ?opts (length (fw_bytes w2)) ?f2 ?st = Inr (?st\<lparr>rps_damage := Some b\<rparr>, ?f2)"
    using replay_loop_stale [OF r2(1) same [folded st(2)] st(3)] by blast
  ultimately have "replay_loop ?opts (length (fw_bytes w2)) (frames [] (jnl_records ja) @ ?f2) replay_start =
      Inr (?st\<lparr>rps_damage := Some b\<rparr>, ?f2)" by simp
  from journal_open_replay [OF _ file2 len this, of d path now] wf show ?thesis
    by (auto simp: j2 replay_records_fields ja_wf(2))
qed

text \<open>A healthy disk acknowledges an append that fits the bounds.\<close>

lemma append_healthy:
  assumes guards: "jnl_open j" "\<not> jnl_tail_damaged j" and opts: "options_ok (jnl_options j)"
    and writer: "fw_open (jnl_writer j)" "writer_wf (jnl_writer j)"
      "fw_limit (jnl_writer j) = jop_max_file_bytes (jnl_options j)"
    and room: "jnl_last_sequence j \<noteq> u64_max" "length (jnl_records j) < jop_max_records (jnl_options j)"
    and size: "length (record_body (jnl_last_sequence j + 1) k t (jnl_chain j) data)
      \<le> unat (jop_max_record_bytes (jnl_options j))"
    and space: "length (fw_bytes (jnl_writer j)) + length (record_frame (jnl_chain j) (next_record j k data t)) \<le>
       unat (jop_max_file_bytes (jnl_options j))"
  shows "payload_small j k data t"
    and "\<exists>j'. journal_append Disk_ok j k data t = (Inr (), j') \<and>
      writer_append Disk_ok (jnl_writer j) (record_frame (jnl_chain j) (next_record j k data t)) = (Inr (), jnl_writer j')"
proof -
  define body where "body = record_body (jnl_last_sequence j + 1) k t (jnl_chain j) data"
  define frame where "frame = frame_bytes (sha256 (jnl_chain j @ CHR ''|'' # body)) body"
  show small: "payload_small j k data t"
    using size opts by (auto simp: payload_small_def options_ok_def word_le_nat_alt)
  have u: "unat (word_of_nat (length body) :: u64) = length body"
    using small by (simp add: payload_small_def body_def unat_of_nat)
  have len: "\<not> (word_of_nat (length body) :: u64) > jop_max_record_bytes (jnl_options j)"
    using size u by (simp add: word_less_nat_alt body_def not_less)
  have frame: "record_frame (jnl_chain j) (next_record j k data t) = frame"
    by (simp add: frame_def next_record_frame body_def Let_def)
  have written: "unat (fw_written (jnl_writer j)) = length (fw_bytes (jnl_writer j))"
    using writer by (simp add: writer_wf_def)
  have big: "unat (jop_max_file_bytes (jnl_options j)) \<le> 2 ^ 62"
    using opts by (simp add: options_ok_def word_le_nat_alt)
  have fits: "length (fw_bytes (jnl_writer j)) + length frame \<le> unat (jop_max_file_bytes (jnl_options j))"
    using space by (simp add: frame)
  then have uf: "unat (word_of_nat (length frame) :: u64) = length frame"
    using big by (simp add: unat_of_nat)
  have sum: "unat (fw_written (jnl_writer j) + word_of_nat (length frame)) =
      length (fw_bytes (jnl_writer j)) + length frame"
    using fits big written uf by (simp add: unat_word_ariths)
  have add: "add_u64 (fw_written (jnl_writer j)) (word_of_nat (length frame)) =
      Inr (fw_written (jnl_writer j) + word_of_nat (length frame))"
    using add_u64_guard [of "word_of_nat (length frame)" "fw_written (jnl_writer j)"] fits big written uf
    by (simp add: add_u64_def)
  obtain w' where app: "writer_append Disk_ok (jnl_writer j) frame = (Inr (), w')" "fw_open w'"
    using writer add sum fits by (simp add: writer_append_def Let_def disk_accepts_def word_less_nat_alt)
  obtain j' where "journal_append Disk_ok j k data t = (Inr (), j')" "jnl_writer j' = w'"
    using guards room len app(2)
    by (auto simp: journal_append_def write_record_def Let_def counter_try_next_def from_hex_digest
        app(1) [unfolded frame_def] body_def [symmetric] writer_sync_def writer_flush_def)
  with app(1) frame show "\<exists>j'. journal_append Disk_ok j k data t = (Inr (), j') \<and>
      writer_append Disk_ok (jnl_writer j) (record_frame (jnl_chain j) (next_record j k data t)) = (Inr (), jnl_writer j')"
    by auto
qed

text \<open>
  A healthy append is acknowledged.  As long as the sequence number, the number of records, the size of
  the record and the size of the file stay within their bounds, an append to such a journal on a disk that
  accepts it succeeds and adds exactly that record, and the journal can go on.
\<close>

theorem journal_append_accepted:
  assumes "journal_run j" "jnl_last_sequence j \<noteq> u64_max"
    "length (jnl_records j) < jop_max_records (jnl_options j)"
    "length (record_body (jnl_last_sequence j + 1) k t (jnl_chain j) data) \<le> unat (jop_max_record_bytes (jnl_options j))"
    "length (fw_bytes (jnl_writer j)) + length (record_frame (jnl_chain j) (next_record j k data t)) \<le>
       unat (jop_max_file_bytes (jnl_options j))"
    "data_fits data" "ts_ok t"
  shows "\<exists>j'. journal_append Disk_ok j k data t = (Inr (), j') \<and> journal_run j' \<and>
    jnl_records j' = jnl_records j @ [next_record j k data t]"
proof -
  note w = journal_run_wf [OF assms(1), unfolded journal_wf_def]
  have small: "payload_small j k data t"
    and ok: "\<exists>j'. journal_append Disk_ok j k data t = (Inr (), j') \<and>
      writer_append Disk_ok (jnl_writer j) (record_frame (jnl_chain j) (next_record j k data t)) = (Inr (), jnl_writer j')"
    using w assms(2-5) by (blast intro: append_healthy)+
  from ok obtain j' where j': "journal_append Disk_ok j k data t = (Inr (), j')" by blast
  with write_record_wf [OF journal_run_wf [OF assms(1)] _ assms(6,7) small, of Disk_ok False]
    journal_run.appended [OF assms(1) j' assms(6,7) small]
  show ?thesis by (auto simp: journal_append_def)
qed

subsection \<open>Witnesses\<close>

definition sample_empty :: journal where
  "sample_empty =
     \<lparr>jnl_path = ''journal'', jnl_options = default_journal_options,
      jnl_writer = \<lparr>fw_open = True, fw_path = ''journal'', fw_limit = 536870912, fw_written = 24,
        fw_bytes = file_header 0\<rparr>,
      jnl_records = [], jnl_recovery = recovery_of replay_start [], jnl_chain = [], jnl_last_sequence = 0,
      jnl_open = True, jnl_tail_damaged = False\<rparr>"

definition sample_note :: json where
  "sample_note = JObject [(''note'', JString ''hi'')]"

lemma sample_empty_opened:
  "journal_open Disk_ok ''journal'' default_journal_options None 0 = Inr sample_empty"
  by (simp add: journal_open_def journal_options_validate_def default_journal_options_def check_header_def
      header_bytes_def replay_loop_stops writer_open_append_def writer_append_def disk_accepts_def
      writer_sync_def writer_flush_def add_u64_def length_file_header sample_empty_def)

lemma default_options_ok: "options_ok default_journal_options"
  by (simp add: options_ok_def journal_options_validate_def default_journal_options_def)

lemma sample_empty_run: "journal_run sample_empty"
  by (rule journal_run.created [OF sample_empty_opened]) (simp_all add: default_options_ok)

lemma sample_fields:
  "jnl_records sample_empty = []" "jnl_last_sequence sample_empty = 0" "jnl_chain sample_empty = []"
  "jnl_options sample_empty = default_journal_options"
  "fw_bytes (jnl_writer sample_empty) = file_header 0" "jnl_open sample_empty" "\<not> jnl_tail_damaged sample_empty"
  by (simp_all add: sample_empty_def)

lemma sample_body:
  "length (record_body 1 JT_note 0 [] sample_note) \<le> 200 \<and> 60 < length (record_body 1 JT_note 0 [] sample_note)"
  unfolding sample_note_def by code_simp

lemma sample_fits: "data_fits sample_note" "ts_ok 0" "payload_small sample_empty JT_note sample_note 0"
  using sample_body by (simp_all add: data_fits_def sample_note_def payload_small_def sample_fields)

lemma sample_frame:
  "length (record_frame [] (next_record sample_empty JT_note sample_note 0)) \<le> 244 \<and>
   104 < length (record_frame [] (next_record sample_empty JT_note sample_note 0))"
  using sample_body by (simp add: next_record_frame [of sample_empty, unfolded sample_fields] Let_def frame_bytes_def
      record_magic_def length_sha256)

definition sample_journal :: journal where
  "sample_journal = snd (journal_append Disk_ok sample_empty JT_note sample_note 0)"

lemma sample_append:
  "journal_append Disk_ok sample_empty JT_note sample_note 0 = (Inr (), sample_journal)"
  "writer_append Disk_ok (jnl_writer sample_empty) (record_frame [] (next_record sample_empty JT_note sample_note 0)) =
     (Inr (), jnl_writer sample_journal)"
proof -
  note w = journal_run_wf [OF sample_empty_run, unfolded journal_wf_def]
  from append_healthy(2) [of sample_empty JT_note 0 sample_note] w
  obtain j' where "journal_append Disk_ok sample_empty JT_note sample_note 0 = (Inr (), j')"
    "writer_append Disk_ok (jnl_writer sample_empty) (record_frame [] (next_record sample_empty JT_note sample_note 0)) =
       (Inr (), jnl_writer j')"
    using sample_body sample_frame
    by (auto simp: sample_fields default_journal_options_def length_file_header header_bytes_def)
  then show "journal_append Disk_ok sample_empty JT_note sample_note 0 = (Inr (), sample_journal)"
    "writer_append Disk_ok (jnl_writer sample_empty) (record_frame [] (next_record sample_empty JT_note sample_note 0)) =
       (Inr (), jnl_writer sample_journal)"
    by (simp_all add: sample_journal_def)
qed

lemma sample_journal_run: "journal_run sample_journal"
  by (rule journal_run.appended [OF sample_empty_run sample_append(1) sample_fits])

lemma sample_journal_records:
  "jnl_records sample_journal = [next_record sample_empty JT_note sample_note 0]"
  "jnl_options sample_journal = default_journal_options"
  using write_record_wf [OF journal_run_wf [OF sample_empty_run] sample_append(1) [unfolded journal_append_def] sample_fits]
  by (simp_all add: sample_fields)

theorem journal_append_accepted_witness:
  "\<exists>j'. journal_append Disk_ok sample_empty JT_note sample_note 0 = (Inr (), j') \<and> journal_run j' \<and>
    jnl_records j' = [next_record sample_empty JT_note sample_note 0]"
  using journal_append_accepted [of sample_empty JT_note 0 sample_note] sample_empty_run sample_fits
    sample_body sample_frame
  by (simp add: sample_fields default_journal_options_def length_file_header header_bytes_def)



theorem journal_torn_header_refused_witness:
  "journal_open Disk_ok ''journal'' default_journal_options (Some (take 10 (file_header 0))) 7 =
    fail EC_corrupt ''journal file is too short to hold a header'' ''journal''"
  by (rule journal_torn_header_refused [OF default_options_ok]) (simp_all add: header_bytes_def)

lemma append_failing_sync:
  assumes ok: "journal_append Disk_ok j k data t = (Inr (), j')" and "jop_sync_on_append (jnl_options j)"
    and app: "writer_append Disk_ok (jnl_writer j) (record_frame (jnl_chain j) (next_record j k data t)) = (Inr (), w)"
  shows "\<exists>e. journal_append Disk_sync_fails j k data t = (Inl e, j\<lparr>jnl_writer := w\<rparr>)"
proof -
  define body where "body = record_body (jnl_last_sequence j + 1) k t (jnl_chain j) data"
  have frame: "record_frame (jnl_chain j) (next_record j k data t) =
      frame_bytes (sha256 (jnl_chain j @ CHR ''|'' # body)) body"
    by (simp add: next_record_frame body_def Let_def)
  have app': "writer_append Disk_sync_fails (jnl_writer j) (frame_bytes (sha256 (jnl_chain j @ CHR ''|'' # body)) body) = (Inr (), w)"
    and op: "fw_open w"
    using app by (auto simp: frame writer_append_def Let_def disk_accepts_def fail_def split: if_splits sum.splits)
  have "write_record Disk_ok j k data t False = (Inr (), j')" using ok by (simp add: journal_append_def)
  then have n: "counter_try_next (jnl_last_sequence j) = Inr (jnl_last_sequence j + 1)"
    and guards: "jnl_open j" "\<not> jnl_tail_damaged j" "length (jnl_records j) < jop_max_records (jnl_options j)"
      "(word_of_nat (length body) :: u64) \<le> jop_max_record_bytes (jnl_options j)"
    by (auto elim: write_record_acknowledged simp: body_def)
  show ?thesis
    using guards assms(2) op
    by (simp add: journal_append_def write_record_def Let_def n from_hex_digest app' body_def [symmetric] not_le not_less
        writer_sync_def writer_flush_def fail_def)
qed

lemma sample_failed_sync:
  obtains e j1 where "journal_append Disk_sync_fails sample_empty JT_note sample_note 0 = (Inl e, j1)"
    "j1 \<noteq> sample_empty" "j1 = sample_empty\<lparr>jnl_writer := jnl_writer sample_journal\<rparr>"
proof -
  let ?j1 = "sample_empty\<lparr>jnl_writer := jnl_writer sample_journal\<rparr>"
  from append_failing_sync [OF sample_append(1)] sample_append(2) obtain e where
    "journal_append Disk_sync_fails sample_empty JT_note sample_note 0 = (Inl e, ?j1)"
    by (auto simp: sample_fields default_journal_options_def)
  moreover have "length (fw_bytes (jnl_writer sample_empty)) < length (fw_bytes (jnl_writer sample_journal))"
    using journal_run_file [OF sample_journal_run] sample_frame
    by (simp add: sample_journal_records sample_fields length_file_header header_bytes_def)
  then have "jnl_writer ?j1 \<noteq> jnl_writer sample_empty" by auto
  then have "?j1 \<noteq> sample_empty" by metis
  ultimately show thesis using that by blast
qed

lemma sample_epoch_body:
  "length (record_body 1 JT_epoch 0 [] sample_note) \<le> 200"
  unfolding sample_note_def by code_simp

theorem journal_lost_after_failed_sync_witness:
  "\<exists>j1 j2 j3. journal_append Disk_ok j1 JT_epoch sample_note 0 = (Inr (), j2) \<and>
    journal_open Disk_ok ''journal'' default_journal_options (Some (fw_bytes (jnl_writer j2))) 7 = Inr j3 \<and>
    map jrc_type (jnl_records j2) = [JT_epoch] \<and> map jrc_type (jnl_records j3) = [JT_note]"
proof -
  from sample_failed_sync obtain e j1 where
    j1: "journal_append Disk_sync_fails sample_empty JT_note sample_note 0 = (Inl e, j1)" "j1 \<noteq> sample_empty"
      "j1 = sample_empty\<lparr>jnl_writer := jnl_writer sample_journal\<rparr>" .
  have small: "payload_small sample_empty JT_epoch sample_note 0"
    using sample_epoch_body by (simp add: payload_small_def sample_fields)
  have next1: "next_record j1 JT_epoch sample_note 0 = next_record sample_empty JT_epoch sample_note 0"
    by (simp add: j1(3) next_record_def)
  have "length (record_frame [] (next_record sample_empty JT_epoch sample_note 0)) \<le> 244"
    using sample_epoch_body by (simp add: next_record_frame [of sample_empty, unfolded sample_fields] Let_def
        frame_bytes_def record_magic_def length_sha256)
  moreover have "length (fw_bytes (jnl_writer sample_journal)) \<le> 1000"
    using journal_run_file [OF sample_journal_run] sample_frame
    by (simp add: sample_journal_records header_bytes_def)
  ultimately obtain j2 where j2: "journal_append Disk_ok j1 JT_epoch sample_note 0 = (Inr (), j2)"
    using append_healthy(2) [of j1 JT_epoch 0 sample_note] sample_epoch_body
      journal_run_wf [OF sample_journal_run, unfolded journal_wf_def]
    by (auto simp: next1, auto simp: j1(3) sample_fields sample_journal_records default_options_ok)
      (auto simp: default_journal_options_def)
  have "map jrc_type (jnl_records j2) = [JT_epoch] \<and>
    (\<exists>j3. journal_open Disk_ok ''journal'' default_journal_options (Some (fw_bytes (jnl_writer j2))) 7 = Inr j3 \<and>
       map jrc_type (jnl_records j3) = [JT_note])"
    using journal_lost_after_failed_sync [OF sample_empty_run j1(1,2) j2 sample_fits sample_fits(1,2) small,
      of Disk_ok "''journal''" 7]
    by (auto simp: sample_fields record_norm_def next_record_def Let_def)
  then show ?thesis
    by (elim conjE exE) (rule exI [of _ j1], rule exI [of _ j2], rule exI, intro conjI, rule j2, assumption+)
qed

end
