(* ===== verification/Model_Codecs.thy ===== *)
theory Model_Codecs
  imports Model_Campaign
begin

text \<open>
  The JSON forms of the durable records as one contract: a record of the right kind is written and read
  back, and reading does not see the difference between a value and what its text form reads back as.
  Each of the six record kinds of the store meets it.
\<close>

named_theorems norm_simps \<open>decoders do not see the normalisation of a value\<close>

declare json_optional_norm [norm_simps] json_require_norm [norm_simps] map_result_norm [norm_simps]

lemma json_is_null_norm [simp]: "json_is_null (json_norm v) = json_is_null v"
  by (cases v) auto

lemma string_then_norm [norm_simps]: "string_then (json_norm v) key p = string_then v key p"
  by (simp add: string_then_def)

lemma require_identifier_norm [norm_simps]:
  "require_identifier (json_norm v) key what = require_identifier v key what"
  "required_id (json_norm v) key what = required_id v key what"
  by (simp_all add: require_identifier_def required_id_def)

lemma string_arrays_norm [norm_simps]:
  "require_string_array (json_norm v) key = require_string_array v key"
  "string_array (json_norm v) key = string_array v key"
  "id_array (json_norm v) key = id_array v key"
  by (simp_all add: require_string_array_def string_array_def id_array_def map_result_norm split: option.split)

lemma lenient_array_norm [norm_simps]:
  "(\<And>x. dec (json_norm x) = dec x) \<Longrightarrow> lenient_array dec (json_norm v) key = lenient_array dec v key"
  by (simp add: lenient_array_def map_result_norm split: option.split)

lemma scalar_decoders_norm [norm_simps]:
  "timestamp_from_json (json_norm v) = timestamp_from_json v"
  "timestamp_or_empty (json_norm v) = timestamp_or_empty v"
  "version_or_empty (json_norm v) = version_or_empty v"
  "build_or_empty (json_norm v) = build_or_empty v"
  "u32_or_zero (json_norm v) key = u32_or_zero v key"
  "step_id_from_json (json_norm v) = step_id_from_json v"
  by (simp_all add: timestamp_from_json_def timestamp_or_empty_def version_or_empty_def build_or_empty_def
      u32_or_zero_def step_id_from_json_def norm_simps)

subsection \<open>Artifacts and plans\<close>

lemma artifact_parts_norm [norm_simps]:
  "signer_from_json (json_norm v) = signer_from_json v"
  "capability_from_json (json_norm v) = capability_from_json v"
  "irreversible_steps_from_json (json_norm v) = irreversible_steps_from_json v"
  "schema_from_json (json_norm v) = schema_from_json v"
  by (simp_all add: signer_from_json_def capability_from_json_def irreversible_steps_from_json_def
      schema_from_json_def norm_simps split: option.split)

lemma capabilities_norm [norm_simps]: "capabilities_from_json (json_norm v) = capabilities_from_json v"
  by (simp add: capabilities_from_json_def norm_simps)

lemma rollback_norm [norm_simps]: "rollback_from_json (json_norm v) = rollback_from_json v"
  by (simp add: rollback_from_json_def norm_simps)

lemma artifact_norm [norm_simps]: "artifact_from_json (json_norm v) = artifact_from_json v"
  by (simp add: artifact_from_json_def norm_simps Let_def)

lemma plan_parts_norm [norm_simps]:
  "step_from_json (json_norm v) = step_from_json v"
  "rejection_from_json (json_norm v) = rejection_from_json v"
  "required_artifact (json_norm v) message = required_artifact v message"
  by (simp_all add: step_from_json_def rejection_from_json_def required_artifact_def norm_simps split: option.split)

lemma stage_norm [norm_simps]: "stage_from_json (json_norm v) = stage_from_json v"
  by (simp add: stage_from_json_def norm_simps)

declare skew_from_json_norm [norm_simps]

lemma plan_norm [norm_simps]: "plan_from_json (json_norm v) = plan_from_json v"
  by (simp add: plan_from_json_def norm_simps)

subsection \<open>The durable records\<close>

lemma ticket_norm [norm_simps]: "ticket_from_json (json_norm v) = ticket_from_json v"
  by (simp add: ticket_from_json_def norm_simps)

lemma progress_norm [norm_simps]: "progress_from_json (json_norm v) = progress_from_json v"
  by (simp add: progress_from_json_def norm_simps)

lemma campaign_norm [norm_simps]: "campaign_from_json (json_norm v) = campaign_from_json v"
  by (simp add: campaign_from_json_def norm_simps)

lemma attempt_norm [norm_simps]: "attempt_from_json (json_norm v) = attempt_from_json v"
  by (simp add: attempt_from_json_def norm_simps)

lemma provenance_norm [norm_simps]: "provenance_from_json (json_norm v) = provenance_from_json v"
  by (simp add: provenance_from_json_def norm_simps)

lemma decision_parts_norm [norm_simps]:
  "input_from_json (json_norm v) = input_from_json v"
  "evidence_from_json (json_norm v) = evidence_from_json v"
  "alternative_from_json (json_norm v) = alternative_from_json v"
  by (simp_all add: input_from_json_def evidence_from_json_def alternative_from_json_def norm_simps)

lemma decision_norm [norm_simps]: "decision_from_json (json_norm v) = decision_from_json v"
  by (simp add: decision_from_json_def norm_simps)

lemma policy_fields_norm [norm_simps]:
  "policy_window_field (json_norm v) key d = policy_window_field v key d"
  "policy_count_field (json_norm v) key n = policy_count_field v key n"
  by (simp_all add: policy_window_field_def policy_count_field_def norm_simps)

lemma policy_norm [norm_simps]: "policy_from_json (json_norm v) = policy_from_json v"
  by (simp add: policy_from_json_def norm_simps Let_def)

subsection \<open>The contract\<close>

text \<open>What a record becomes when it is written and read back is \<open>load\<close> of it.\<close>

locale codec =
  fixes enc :: "'a \<Rightarrow> json" and dec :: "json \<Rightarrow> 'a result" and ok :: "'a \<Rightarrow> bool" and load :: "'a \<Rightarrow> 'a"
  assumes dec_enc: "ok a \<Longrightarrow> dec (enc a) = Inr (load a)"
    and dec_norm: "dec (json_norm v) = dec v"
begin

lemma read_back: "ok a \<Longrightarrow> dec (json_norm (enc a)) = Inr (load a)"
  by (simp add: dec_norm dec_enc)

text \<open>A record stored as the only member of a payload is found in it, in memory and from the file.\<close>

lemma read_member:
  assumes "ok a" "json_find p m = Some (enc a)"
  shows "\<exists>v. json_find p m = Some v \<and> dec v = Inr (load a)"
    and "\<exists>v. json_find (json_norm p) m = Some v \<and> dec v = Inr (load a)"
  using assms by (auto simp: dec_enc read_back)

text \<open>A stored list reads back item by item.\<close>

lemma read_items:
  assumes "\<And>a. a \<in> set xs \<Longrightarrow> ok a"
  shows "map dec (map enc xs) = map (Inr \<circ> load) xs" "map dec (map json_norm (map enc xs)) = map (Inr \<circ> load) xs"
  using assms by (auto simp: dec_enc read_back)

end

definition attempt_storable :: "attempt_record \<Rightarrow> bool" where
  "attempt_storable a \<longleftrightarrow> attempt_wf a \<and> att_state a \<noteq> AS_rolling_back"

definition campaign_loaded :: "campaign_record \<Rightarrow> campaign_record" where
  "campaign_loaded c = c\<lparr>cmp_last_skew := unassessed_skew\<rparr>"

interpretation campaign_io: codec campaign_to_json campaign_from_json campaign_wf campaign_loaded
  by unfold_locales (simp_all add: campaign_roundtrip campaign_loaded_def norm_simps)

interpretation attempt_io: codec attempt_to_json attempt_from_json attempt_storable id
  by unfold_locales (simp_all add: attempt_storable_def attempt_roundtrip norm_simps)

interpretation provenance_io: codec provenance_to_json provenance_from_json provenance_wf id
  by unfold_locales (simp_all add: provenance_roundtrip norm_simps)

interpretation decision_io: codec decision_to_json decision_from_json decision_wf id
  by unfold_locales (simp_all add: decision_roundtrip norm_simps)

interpretation policy_io: codec policy_to_json policy_from_json policy_wf id
  by unfold_locales (simp_all add: policy_roundtrip norm_simps)

interpretation ticket_io: codec ticket_to_json ticket_from_json ticket_wf id
  by unfold_locales (simp_all add: ticket_roundtrip norm_simps)

end
