(* ===== verification/Store_State.thy ===== *)
theory Store_State
  imports Store_Journal Model_Codecs "HOL-Library.AList"
begin

text \<open>
  The durable store (\<open>store/state\<close>): the tables in memory, what applying a journal record does to them,
  recovery, opening with or without repair, the operations that append before they change the memory,
  and compaction.  The unordered maps of the code are association lists with distinct keys; every
  listing of them is sorted, as in the code.
\<close>

subsection \<open>Tables\<close>

type_synonym 'a table = "(string \<times> 'a) list"

definition table_get :: "'a table \<Rightarrow> string \<Rightarrow> 'a option" where
  "table_get t k = map_of t k"

definition table_put :: "'a table \<Rightarrow> string \<Rightarrow> 'a \<Rightarrow> 'a table" where
  "table_put t k v = AList.update k v t"

definition table_list :: "('a \<Rightarrow> string) \<Rightarrow> 'a table \<Rightarrow> 'a list" where
  "table_list key t = sort_key key (map snd t)"

definition table_ok :: "'a table \<Rightarrow> bool" where
  "table_ok t \<longleftrightarrow> distinct (map fst t)"

text \<open>What the code relies on in a keyed container.\<close>

locale keyed_table =
  fixes empty :: 't and get :: "'t \<Rightarrow> string \<Rightarrow> 'v option" and put :: "'t \<Rightarrow> string \<Rightarrow> 'v \<Rightarrow> 't"
    and entries :: "'t \<Rightarrow> nat" and ok :: "'t \<Rightarrow> bool"
  assumes get_empty: "get empty k = None"
    and get_put: "get (put t k v) k' = (if k' = k then Some v else get t k')"
    and entries_put: "ok t \<Longrightarrow> entries (put t k v) = (if get t k = None then Suc (entries t) else entries t)"
    and ok_empty: "ok empty" "entries empty = 0"
    and ok_put: "ok t \<Longrightarrow> ok (put t k v)"
begin

lemma get_put_same: "get (put t k v) k = Some v"
  by (simp add: get_put)

lemma put_put: "get (put (put t k v) k w) k' = get (put t k w) k'"
  by (simp add: get_put)

text \<open>Filling a table leaves the last value stored under each key.\<close>

lemma get_fill:
  "get (foldl (\<lambda>t (k, v). put t k v) t kvs) k =
    (case map_of (rev kvs) k of None \<Rightarrow> get t k | Some v \<Rightarrow> Some v)"
  by (induction kvs arbitrary: t) (auto simp: get_put map_add_def split: option.splits)

lemma ok_fill: "ok t \<Longrightarrow> ok (foldl (\<lambda>t (k, v). put t k v) t kvs)"
  by (induction kvs arbitrary: t) (auto simp: ok_put)

text \<open>A bound that is checked before a new key is stored is kept.\<close>

lemma bound_kept:
  "ok t \<Longrightarrow> entries t \<le> n \<Longrightarrow> get t k \<noteq> None \<or> entries t < n \<Longrightarrow> entries (put t k v) \<le> n"
  by (auto simp: entries_put)

end

lemma length_alist_update:
  "length (AList.update k v t) = (if map_of t k = None then Suc (length t) else length t)"
  by (induction t) auto

interpretation store_table: keyed_table "[]" table_get table_put length table_ok
  by unfold_locales
    (simp_all add: table_get_def table_put_def table_ok_def update_conv' length_alist_update distinct_update)

text \<open>The members of a JSON object are such a container too.\<close>

lemma members_set_keys: "fst ` set (members_set ms k v) = insert k (fst ` set ms)"
  by (induction ms k v rule: members_set.induct) auto

lemma distinct_members_set: "distinct (map fst ms) \<Longrightarrow> distinct (map fst (members_set ms k v))"
  by (induction ms k v rule: members_set.induct) (auto simp: members_set_keys)

lemma length_members_set: "length (members_set ms k v) = (if map_of ms k = None then Suc (length ms) else length ms)"
  by (induction ms k v rule: members_set.induct) auto

interpretation members_table: keyed_table "[]" "map_of" members_set length "\<lambda>ms. distinct (map fst ms)"
  by unfold_locales (simp_all add: map_of_members_set length_members_set distinct_members_set)

subsection \<open>The store\<close>

record store_options =
  sto_directory :: string
  sto_journal :: journal_options
  sto_max_campaigns :: nat
  sto_max_attempts :: nat
  sto_max_provenance :: nat
  sto_max_decisions :: nat
  sto_repair :: bool

record store_stats =
  sts_campaigns :: nat
  sts_attempts :: nat
  sts_provenance :: nat
  sts_decisions :: nat
  sts_journal :: nat
  sts_epoch :: u64
  sts_incarnation :: u64
  sts_sequence :: u64

definition stats_to_json :: "store_stats \<Rightarrow> json" where
  "stats_to_json t = json_build
     [(''campaigns'', JUint (word_of_nat (sts_campaigns t))), (''attempts'', JUint (word_of_nat (sts_attempts t))),
      (''provenance_records'', JUint (word_of_nat (sts_provenance t))),
      (''decisions'', JUint (word_of_nat (sts_decisions t))),
      (''journal_records'', JUint (word_of_nat (sts_journal t))),
      (''epoch'', JUint (sts_epoch t)), (''incarnation'', JUint (sts_incarnation t)),
      (''provenance_sequence'', JUint (sts_sequence t))]"

definition no_stats :: store_stats where
  "no_stats = \<lparr>sts_campaigns = 0, sts_attempts = 0, sts_provenance = 0, sts_decisions = 0, sts_journal = 0,
               sts_epoch = 0, sts_incarnation = 0, sts_sequence = 0\<rparr>"

record durable_store =
  dst_options :: store_options
  dst_journal :: journal
  dst_recovery :: recovery_report
  dst_campaigns :: "campaign_record table"
  dst_attempts :: "attempt_record table"
  dst_decisions :: "decision list table"
  dst_policies :: "policy table"
  dst_tickets :: "preflight_ticket table"
  dst_provenance :: "provenance_record list"
  dst_chain :: digest
  dst_sequence :: u64
  dst_epoch :: u64
  dst_incarnation :: u64
  dst_stats :: store_stats
  dst_rejected :: nat
  dst_rejected_reason :: string

text \<open>A journal object that was never opened.\<close>

definition empty_journal :: journal where
  "empty_journal =
     \<lparr>jnl_path = [], jnl_options = default_journal_options, jnl_writer = no_writer, jnl_records = [],
      jnl_recovery = fresh_recovery, jnl_chain = [], jnl_last_sequence = 0, jnl_open = False,
      jnl_tail_damaged = False\<rparr>"

definition new_store :: "store_options \<Rightarrow> journal \<Rightarrow> durable_store" where
  "new_store opts j =
     \<lparr>dst_options = opts, dst_journal = j, dst_recovery = fresh_recovery, dst_campaigns = [],
      dst_attempts = [], dst_decisions = [], dst_policies = [], dst_tickets = [], dst_provenance = [],
      dst_chain = [], dst_sequence = 0, dst_epoch = 1, dst_incarnation = 1, dst_stats = no_stats,
      dst_rejected = 0, dst_rejected_reason = []\<rparr>"

definition rebuild_stats :: "durable_store \<Rightarrow> durable_store" where
  "rebuild_stats s = s\<lparr>dst_stats :=
     \<lparr>sts_campaigns = length (dst_campaigns s), sts_attempts = length (dst_attempts s),
      sts_provenance = length (dst_provenance s),
      sts_decisions = sum_list (map (\<lambda>(k, ds). length ds) (dst_decisions s)),
      sts_journal = length (jnl_records (dst_journal s)), sts_epoch = dst_epoch s,
      sts_incarnation = dst_incarnation s, sts_sequence = dst_sequence s\<rparr>\<rparr>"

subsection \<open>Applying a journal record\<close>

definition note_rejected :: "durable_store \<Rightarrow> journal_record \<Rightarrow> error \<Rightarrow> durable_store" where
  "note_rejected s r e =
     s\<lparr>dst_rejected := dst_rejected s + 1,
       dst_rejected_reason :=
         (if dst_rejected_reason s = []
          then journal_record_type_name (jrc_type r) @ '' record at sequence '' @
               u64_to_string (jrc_sequence r) @ '' could not be applied: '' @ error_to_string e
          else dst_rejected_reason s)\<rparr>"

definition apply_campaign :: "durable_store \<Rightarrow> journal_record \<Rightarrow> durable_store" where
  "apply_campaign s r =
     (case json_find (jrc_data r) ''campaign'' of
        None \<Rightarrow> note_rejected s r (make_error EC_corrupt ''campaign record has no payload'' '''')
      | Some v \<Rightarrow>
          (case campaign_from_json v of
             Inl e \<Rightarrow> note_rejected s r e
           | Inr c \<Rightarrow> s\<lparr>dst_campaigns := table_put (dst_campaigns s) (cmp_id c) c\<rparr>))"

definition apply_attempt :: "durable_store \<Rightarrow> journal_record \<Rightarrow> durable_store" where
  "apply_attempt s r =
     (case json_find (jrc_data r) ''attempt'' of
        None \<Rightarrow> note_rejected s r (make_error EC_corrupt ''attempt record has no payload'' '''')
      | Some v \<Rightarrow>
          (case attempt_from_json v of
             Inl e \<Rightarrow> note_rejected s r e
           | Inr a \<Rightarrow> s\<lparr>dst_attempts := table_put (dst_attempts s) (att_id a) a\<rparr>))"

definition apply_provenance :: "durable_store \<Rightarrow> journal_record \<Rightarrow> durable_store" where
  "apply_provenance s r =
     (case json_find (jrc_data r) ''record'' of
        None \<Rightarrow> s
      | Some v \<Rightarrow>
          (case provenance_from_json v of
             Inl e \<Rightarrow> note_rejected s r e
           | Inr p \<Rightarrow> s\<lparr>dst_chain := prov_chain p, dst_sequence := prov_sequence p,
                       dst_provenance := dst_provenance s @ [p]\<rparr>))"

definition decisions_of :: "durable_store \<Rightarrow> string \<Rightarrow> decision list" where
  "decisions_of s key = (case table_get (dst_decisions s) key of None \<Rightarrow> [] | Some ds \<Rightarrow> ds)"

definition apply_decision :: "durable_store \<Rightarrow> journal_record \<Rightarrow> durable_store" where
  "apply_decision s r =
     (case json_find (jrc_data r) ''decision'' of
        None \<Rightarrow> s
      | Some v \<Rightarrow>
          (case decision_from_json v of
             Inl e \<Rightarrow> note_rejected s r e
           | Inr x \<Rightarrow> s\<lparr>dst_decisions := table_put (dst_decisions s) (dec_campaign x)
                         (decisions_of s (dec_campaign x) @ [x])\<rparr>))"

definition apply_policy :: "durable_store \<Rightarrow> journal_record \<Rightarrow> durable_store" where
  "apply_policy s r =
     (case json_find (jrc_data r) ''policy'' of
        None \<Rightarrow> s
      | Some v \<Rightarrow>
          (case policy_from_json v of
             Inl e \<Rightarrow> note_rejected s r e
           | Inr p \<Rightarrow> s\<lparr>dst_policies := table_put (dst_policies s) (pol_id p) p\<rparr>))"

definition apply_ticket :: "durable_store \<Rightarrow> journal_record \<Rightarrow> durable_store" where
  "apply_ticket s r =
     (case json_find (jrc_data r) ''ticket'' of
        None \<Rightarrow> s
      | Some v \<Rightarrow>
          (case ticket_from_json v of
             Inl e \<Rightarrow> note_rejected s r e
           | Inr t \<Rightarrow> s\<lparr>dst_tickets := table_put (dst_tickets s) (tik_campaign t) t\<rparr>))"

text \<open>A snapshot silently skips the items it cannot decode.\<close>

definition snapshot_items :: "(json \<Rightarrow> 'a result) \<Rightarrow> json \<Rightarrow> string \<Rightarrow> 'a list" where
  "snapshot_items dec v key =
     (case json_find v key of
        None \<Rightarrow> []
      | Some found \<Rightarrow> List.map_filter (\<lambda>x. case dec x of Inl e \<Rightarrow> None | Inr a \<Rightarrow> Some a) (json_items found))"

definition snapshot_uint :: "json \<Rightarrow> string \<Rightarrow> u64 \<Rightarrow> u64" where
  "snapshot_uint v key old =
     (case json_find v key of None \<Rightarrow> old | Some found \<Rightarrow> the_value (json_as_uint found) old)"

definition apply_snapshot :: "durable_store \<Rightarrow> journal_record \<Rightarrow> durable_store" where
  "apply_snapshot s r =
     (let v = jrc_data r
      in s\<lparr>dst_campaigns :=
             foldl (\<lambda>t c. table_put t (cmp_id c) c) [] (snapshot_items campaign_from_json v ''campaigns''),
           dst_attempts :=
             foldl (\<lambda>t a. table_put t (att_id a) a) [] (snapshot_items attempt_from_json v ''attempts''),
           dst_decisions := [],
           dst_provenance := snapshot_items provenance_from_json v ''provenance'',
           dst_chain :=
             (case json_find v ''provenance_chain'' of
                None \<Rightarrow> dst_chain s
              | Some found \<Rightarrow> the_value (fum_try (json_as_string found) digest_parse) (dst_chain s)),
           dst_sequence := snapshot_uint v ''provenance_sequence'' (dst_sequence s),
           dst_epoch := snapshot_uint v ''epoch'' (dst_epoch s),
           dst_incarnation := snapshot_uint v ''incarnation'' (dst_incarnation s)\<rparr>)"

definition apply_record :: "durable_store \<Rightarrow> journal_record \<Rightarrow> durable_store" where
  "apply_record s r =
     (case jrc_type r of
        JT_campaign \<Rightarrow> apply_campaign s r
      | JT_attempt \<Rightarrow> apply_attempt s r
      | JT_provenance \<Rightarrow> apply_provenance s r
      | JT_decision \<Rightarrow> apply_decision s r
      | JT_policy \<Rightarrow> apply_policy s r
      | JT_ticket \<Rightarrow> apply_ticket s r
      | JT_epoch \<Rightarrow> s\<lparr>dst_epoch := the_value (json_require_uint (jrc_data r) ''epoch'') (dst_epoch s)\<rparr>
      | JT_snapshot \<Rightarrow> apply_snapshot s r
      | JT_boot \<Rightarrow> s\<lparr>dst_incarnation := the_value (json_require_uint (jrc_data r) ''incarnation'') (dst_incarnation s)\<rparr>
      | JT_note \<Rightarrow> s
      | JT_shutdown \<Rightarrow> s)"

text \<open>\<open>recover\<close>: forget everything, apply the journal's records, take over its report.\<close>

definition cleared :: "durable_store \<Rightarrow> durable_store" where
  "cleared s =
     s\<lparr>dst_campaigns := [], dst_attempts := [], dst_decisions := [], dst_policies := [], dst_tickets := [],
       dst_provenance := [], dst_chain := [], dst_sequence := 0, dst_epoch := 1, dst_incarnation := 1,
       dst_rejected := 0, dst_rejected_reason := []\<rparr>"

definition recovery_report_of :: "durable_store \<Rightarrow> recovery_report" where
  "recovery_report_of s =
     (let report = (jnl_recovery (dst_journal s))
            \<lparr>rcv_rejected_records := dst_rejected s, rcv_rejected_reason := dst_rejected_reason s\<rparr>
      in if dst_rejected s > 0
         then report\<lparr>rcv_detail := rcv_detail report @ ''; '' @ dec_digits (dst_rejected s) @
                '' record(s) could not be applied: '' @ dst_rejected_reason s\<rparr>
         else report)"

definition recover :: "durable_store \<Rightarrow> durable_store" where
  "recover s =
     (let s1 = foldl apply_record (cleared s) (jnl_records (dst_journal s));
          report = recovery_report_of s1
      in rebuild_stats (s1\<lparr>dst_recovery := report,
           dst_epoch := (if rcv_last_epoch report > dst_epoch s1 then rcv_last_epoch report else dst_epoch s1)\<rparr>))"

subsection \<open>Opening\<close>

definition store_options_validate :: "store_options \<Rightarrow> status" where
  "store_options_validate opts =
     (if sto_directory opts = [] then fail EC_invalid_argument ''store directory is required'' ''''
      else if sto_max_campaigns opts = 0 \<or> sto_max_attempts opts = 0 \<or> sto_max_provenance opts = 0 \<or>
              sto_max_decisions opts = 0
      then fail EC_invalid_argument ''store bounds must be positive'' ''''
      else ok_status)"

text \<open>
  The repair of a damaged tail, over the content of the file and the answer of the rewrite: close the
  journal, write back the bytes before the damage, open again.
\<close>

definition repair_journal ::
    "disk \<Rightarrow> store_options \<Rightarrow> string \<Rightarrow> string \<Rightarrow> status \<Rightarrow> timestamp \<Rightarrow> journal \<Rightarrow> journal result" where
  "repair_journal d opts path bytes rewritten now j =
     (let recovery = jnl_recovery j
      in if \<not> rcv_truncated_tail recovery then Inr j
         else if \<not> sto_repair opts
         then fail EC_corrupt
                (''the journal tail is damaged and was not trusted; re-run with repair '' @
                 ''authorised to drop the unverifiable bytes'')
                (if rcv_damage_reason recovery = [] then rcv_detail recovery else rcv_damage_reason recovery)
         else if rcv_bytes_ignored recovery = 0 \<or> rcv_bytes_ignored recovery > length bytes
         then fail EC_corrupt ''the journal damage cannot be bounded for repair''
                (dec_digits (rcv_bytes_ignored recovery))
         else
           fum_try (fst (journal_close d j now)) (\<lambda>_.
           fum_try (fs_read_file bytes (jop_max_file_bytes (sto_journal opts) + 1048576)) (\<lambda>bytes.
           fum_try rewritten (\<lambda>_.
           fum_try (journal_open d path (sto_journal opts)
               (Some (take (length bytes - rcv_bytes_ignored recovery) bytes)) now) (\<lambda>j2.
           if rcv_truncated_tail (jnl_recovery j2)
           then fail EC_corrupt ''the journal is still damaged after repair'' ''''
           else Inr j2)))))"

text \<open>Recovery and the boot record of the new incarnation.\<close>

definition store_boot :: "disk \<Rightarrow> store_options \<Rightarrow> journal \<Rightarrow> timestamp \<Rightarrow> string \<Rightarrow> durable_store result" where
  "store_boot d opts j now pid =
     (let s = recover (new_store opts j)
      in fum_try (counter_try_next (rcv_last_boot_incarnation (dst_recovery s))) (\<lambda>incarnation.
         let payload = json_build [(''incarnation'', JUint incarnation), (''pid'', JString pid)];
             (status, j2) = journal_append d (dst_journal s) JT_boot payload now
         in fum_try status (\<lambda>_.
         Inr (s\<lparr>dst_journal := j2, dst_incarnation := incarnation,
                dst_stats := (dst_stats s)\<lparr>sts_incarnation := incarnation\<rparr>\<rparr>))))"

definition store_open ::
    "disk \<Rightarrow> store_options \<Rightarrow> status \<Rightarrow> string option \<Rightarrow> status \<Rightarrow> timestamp \<Rightarrow> string \<Rightarrow> durable_store result" where
  "store_open d opts made content rewritten now pid =
     fum_try (store_options_validate opts) (\<lambda>_.
     fum_try made (\<lambda>_.
     let path = fs_join (sto_directory opts) ''journal.fum''
     in fum_try (journal_open d path (sto_journal opts) content now) (\<lambda>opened.
     fum_try (repair_journal d opts path (case content of None \<Rightarrow> [] | Some bytes \<Rightarrow> bytes) rewritten now opened) (\<lambda>j.
     store_boot d opts j now pid))))"

subsection \<open>The operations\<close>

definition ensure_capacity :: "durable_store \<Rightarrow> journal_record_type \<Rightarrow> status" where
  "ensure_capacity s k =
     (case k of
        JT_campaign \<Rightarrow>
          if length (dst_campaigns s) \<ge> sto_max_campaigns (dst_options s)
          then fail EC_resource_exhausted ''campaign bound reached; compact or retire campaigns''
                 (dec_digits (sto_max_campaigns (dst_options s)))
          else ok_status
      | JT_attempt \<Rightarrow>
          if length (dst_attempts s) \<ge> sto_max_attempts (dst_options s)
          then fail EC_resource_exhausted ''attempt bound reached'' (dec_digits (sto_max_attempts (dst_options s)))
          else ok_status
      | JT_provenance \<Rightarrow>
          if length (dst_provenance s) \<ge> sto_max_provenance (dst_options s)
          then fail EC_resource_exhausted ''provenance ledger bound reached''
                 (dec_digits (sto_max_provenance (dst_options s)))
          else ok_status
      | _ \<Rightarrow> ok_status)"

text \<open>\<open>FUM_TRYV(journal_.append(...));\<close> and what follows it when it succeeds.\<close>

definition append_then ::
    "disk \<Rightarrow> durable_store \<Rightarrow> journal_record_type \<Rightarrow> json \<Rightarrow> timestamp \<Rightarrow>
     (durable_store \<Rightarrow> durable_store) \<Rightarrow> status \<times> durable_store" where
  "append_then d s k payload at_time f =
     (case journal_append d (dst_journal s) k payload at_time of
        (Inl e, j) \<Rightarrow> (Inl e, s\<lparr>dst_journal := j\<rparr>)
      | (Inr _, j) \<Rightarrow> (ok_status, f (s\<lparr>dst_journal := j\<rparr>)))"

definition put_campaign :: "disk \<Rightarrow> durable_store \<Rightarrow> campaign_record \<Rightarrow> timestamp \<Rightarrow> status \<times> durable_store" where
  "put_campaign d s c at_time =
     (case (if table_get (dst_campaigns s) (cmp_id c) = None then ensure_capacity s JT_campaign else ok_status) of
        Inl e \<Rightarrow> (Inl e, s)
      | Inr _ \<Rightarrow>
          append_then d s JT_campaign (json_build [(''campaign'', campaign_to_json c)]) at_time
            (\<lambda>s. rebuild_stats (s\<lparr>dst_campaigns := table_put (dst_campaigns s) (cmp_id c) c\<rparr>)))"

definition put_attempt :: "disk \<Rightarrow> durable_store \<Rightarrow> attempt_record \<Rightarrow> timestamp \<Rightarrow> status \<times> durable_store" where
  "put_attempt d s a at_time =
     (case (if table_get (dst_attempts s) (att_id a) = None then ensure_capacity s JT_attempt else ok_status) of
        Inl e \<Rightarrow> (Inl e, s)
      | Inr _ \<Rightarrow>
          append_then d s JT_attempt (json_build [(''attempt'', attempt_to_json a)]) at_time
            (\<lambda>s. rebuild_stats (s\<lparr>dst_attempts := table_put (dst_attempts s) (att_id a) a\<rparr>)))"

text \<open>The caller's record is completed in place: the operation also returns it.\<close>

definition chained_record :: "durable_store \<Rightarrow> provenance_record \<Rightarrow> u64 \<Rightarrow> provenance_record" where
  "chained_record s p sequence =
     (let p1 = p\<lparr>prov_sequence := sequence, prov_previous := dst_chain s\<rparr>
      in p1\<lparr>prov_chain := compute_chain p1 (dst_chain s)\<rparr>)"

definition append_provenance ::
    "disk \<Rightarrow> durable_store \<Rightarrow> provenance_record \<Rightarrow> timestamp \<Rightarrow> status \<times> provenance_record \<times> durable_store" where
  "append_provenance d s p at_time =
     (case ensure_capacity s JT_provenance of
        Inl e \<Rightarrow> (Inl e, p, s)
      | Inr _ \<Rightarrow>
          (case counter_try_next (dst_sequence s) of
             Inl e \<Rightarrow> (Inl e, p, s)
           | Inr sequence \<Rightarrow>
               (let r = chained_record s p sequence;
                    (status, s') = append_then d s JT_provenance
                      (json_build [(''record'', provenance_to_json r),
                         (''provenance_chain'', JString (prov_chain r)),
                         (''provenance_sequence'', JUint (prov_sequence r))]) at_time
                      (\<lambda>s. rebuild_stats (s\<lparr>dst_provenance := dst_provenance s @ [r],
                        dst_chain := prov_chain r, dst_sequence := prov_sequence r\<rparr>))
                in (status, r, s'))))"

text \<open>The list of the campaign is created, and its oldest decision dropped, before the append is tried.\<close>

definition append_decision :: "disk \<Rightarrow> durable_store \<Rightarrow> decision \<Rightarrow> timestamp \<Rightarrow> status \<times> durable_store" where
  "append_decision d s x at_time =
     (let old = decisions_of s (dec_campaign x);
          kept = (if length old \<ge> sto_max_decisions (dst_options s) then tl old else old);
          s1 = s\<lparr>dst_decisions := table_put (dst_decisions s) (dec_campaign x) kept\<rparr>
      in append_then d s1 JT_decision (json_build [(''decision'', decision_to_json x)]) at_time
           (\<lambda>s. rebuild_stats (s\<lparr>dst_decisions :=
              table_put (dst_decisions s) (dec_campaign x) (kept @ [x])\<rparr>)))"

definition put_ticket :: "disk \<Rightarrow> durable_store \<Rightarrow> preflight_ticket \<Rightarrow> timestamp \<Rightarrow> status \<times> durable_store" where
  "put_ticket d s t at_time =
     append_then d s JT_ticket (json_build [(''ticket'', ticket_to_json t)]) at_time
       (\<lambda>s. s\<lparr>dst_tickets := table_put (dst_tickets s) (tik_campaign t) t\<rparr>)"

definition put_policy :: "disk \<Rightarrow> durable_store \<Rightarrow> policy \<Rightarrow> timestamp \<Rightarrow> status \<times> durable_store" where
  "put_policy d s p at_time =
     append_then d s JT_policy (json_build [(''policy'', policy_to_json p)]) at_time
       (\<lambda>s. s\<lparr>dst_policies := table_put (dst_policies s) (pol_id p) p\<rparr>)"

definition set_epoch :: "disk \<Rightarrow> durable_store \<Rightarrow> u64 \<Rightarrow> timestamp \<Rightarrow> status \<times> durable_store" where
  "set_epoch d s epoch at_time =
     (if epoch \<le> dst_epoch s
      then (fail EC_fenced ''epoch must advance monotonically''
              (u64_to_string epoch @ '' <= '' @ u64_to_string (dst_epoch s)), s)
      else append_then d s JT_epoch (json_build [(''epoch'', JUint epoch)]) at_time
             (\<lambda>s. rebuild_stats (s\<lparr>dst_epoch := epoch\<rparr>)))"

definition store_note :: "disk \<Rightarrow> durable_store \<Rightarrow> string \<Rightarrow> string \<Rightarrow> timestamp \<Rightarrow> status \<times> durable_store" where
  "store_note d s key v at_time =
     append_then d s JT_note (json_build [(''key'', JString key), (''value'', JString v)]) at_time (\<lambda>s. s)"

subsection \<open>Compaction\<close>

definition snapshot_payload :: "durable_store \<Rightarrow> json" where
  "snapshot_payload s = json_build
     [(''campaigns'', json_list (\<lambda>(k, c). campaign_to_json c) (sort_key fst (dst_campaigns s))),
      (''attempts'', json_list (\<lambda>(k, a). attempt_to_json a) (sort_key fst (dst_attempts s))),
      (''provenance'', json_list provenance_to_json (dst_provenance s)),
      (''provenance_chain'', JString (dst_chain s)), (''provenance_sequence'', JUint (dst_sequence s)),
      (''epoch'', JUint (dst_epoch s)), (''incarnation'', JUint (dst_incarnation s))]"

text \<open>
  Over what the file system answers: the temporary file left behind when removing it failed, and the
  status of the final replacement.
\<close>

definition compact ::
    "disk \<Rightarrow> durable_store \<Rightarrow> timestamp \<Rightarrow> timestamp \<Rightarrow> string option \<Rightarrow> status \<Rightarrow> status \<times> durable_store" where
  "compact d s at_time now leftover replaced =
     (let opts = sto_journal (dst_options s);
          temporary = fs_join (sto_directory (dst_options s)) ''journal.compact'';
          target = jnl_path (dst_journal s);
          fresh = fum_try (journal_open d temporary opts leftover now) (\<lambda>j0.
            let (appended, j1) = journal_append d j0 JT_snapshot (snapshot_payload s) at_time
            in fum_try appended (\<lambda>_.
               fum_try (journal_sync d j1) (\<lambda>_.
               let (closed, j2) = journal_close d j1 now
               in fum_try closed (\<lambda>_. Inr j2))))
      in case fresh of
           Inl e \<Rightarrow> (Inl e, s)
         | Inr written \<Rightarrow>
             (case journal_close d (dst_journal s) now of
                (Inl e, j) \<Rightarrow> (Inl e, s\<lparr>dst_journal := j\<rparr>)
              | (Inr _, j) \<Rightarrow>
                  (case fum_try replaced (\<lambda>_.
                       journal_open d target opts (Some (fw_bytes (jnl_writer written))) now) of
                     Inl e \<Rightarrow> (Inl e, s\<lparr>dst_journal := empty_journal\<rparr>)
                   | Inr j2 \<Rightarrow> (ok_status, recover (s\<lparr>dst_journal := j2\<rparr>)))))"

subsection \<open>Reading\<close>

definition store_campaign :: "durable_store \<Rightarrow> campaign_id \<Rightarrow> campaign_record option" where
  "store_campaign s cid = table_get (dst_campaigns s) cid"

definition store_attempt :: "durable_store \<Rightarrow> attempt_id \<Rightarrow> attempt_record option" where
  "store_attempt s aid = table_get (dst_attempts s) aid"

definition store_campaigns :: "durable_store \<Rightarrow> campaign_record list" where
  "store_campaigns s = table_list cmp_id (dst_campaigns s)"

definition store_attempts :: "durable_store \<Rightarrow> attempt_record list" where
  "store_attempts s = table_list att_id (dst_attempts s)"

definition attempts_for :: "durable_store \<Rightarrow> campaign_id \<Rightarrow> attempt_record list" where
  "attempts_for s cid = sort_key att_id (filter (\<lambda>a. att_campaign a = cid) (map snd (dst_attempts s)))"

definition store_decisions :: "durable_store \<Rightarrow> campaign_id \<Rightarrow> decision list option" where
  "store_decisions s cid = table_get (dst_decisions s) cid"

definition store_policy :: "durable_store \<Rightarrow> policy_id \<Rightarrow> policy option" where
  "store_policy s pid = table_get (dst_policies s) pid"

definition store_ticket :: "durable_store \<Rightarrow> campaign_id \<Rightarrow> preflight_ticket option" where
  "store_ticket s cid = table_get (dst_tickets s) cid"

definition store_sync :: "disk \<Rightarrow> durable_store \<Rightarrow> status" where
  "store_sync d s = journal_sync d (dst_journal s)"

definition store_close :: "disk \<Rightarrow> durable_store \<Rightarrow> timestamp \<Rightarrow> status \<times> durable_store" where
  "store_close d s now =
     (let (status, j) = journal_close d (dst_journal s) now in (status, s\<lparr>dst_journal := j\<rparr>))"

end
