(* ===== verification/Store_Replay.thy ===== *)
theory Store_Replay
  imports Store_State Store_Recovery "HOL-Library.Sublist"
begin

text \<open>
  The store against its journal: the tables in memory are those that replaying the journal rebuilds, for
  every history of a store, across restarts, crashes and compactions.
\<close>

subsection \<open>Replaying is a function of the records\<close>

definition blank_options :: store_options where
  "blank_options = \<lparr>sto_directory = [], sto_journal = default_journal_options, sto_max_campaigns = 0,
     sto_max_attempts = 0, sto_max_provenance = 0, sto_max_decisions = 0, sto_repair = False\<rparr>"

text \<open>The part of a store that records act on.\<close>

definition store_view :: "durable_store \<Rightarrow> durable_store" where
  "store_view s = s\<lparr>dst_options := blank_options, dst_journal := empty_journal,
     dst_recovery := fresh_recovery, dst_stats := no_stats\<rparr>"

definition replay :: "journal_record list \<Rightarrow> durable_store" where
  "replay rs = foldl apply_record (new_store blank_options empty_journal) rs"

lemmas apply_defs = apply_record_def apply_campaign_def apply_attempt_def apply_provenance_def
  apply_decision_def apply_policy_def apply_ticket_def apply_snapshot_def

lemma store_view_fields [simp]:
  "dst_campaigns (store_view s) = dst_campaigns s" "dst_attempts (store_view s) = dst_attempts s"
  "dst_decisions (store_view s) = dst_decisions s" "dst_policies (store_view s) = dst_policies s"
  "dst_tickets (store_view s) = dst_tickets s" "dst_provenance (store_view s) = dst_provenance s"
  "dst_chain (store_view s) = dst_chain s" "dst_sequence (store_view s) = dst_sequence s"
  "dst_epoch (store_view s) = dst_epoch s" "dst_incarnation (store_view s) = dst_incarnation s"
  "dst_rejected (store_view s) = dst_rejected s" "dst_rejected_reason (store_view s) = dst_rejected_reason s"
  by (simp_all add: store_view_def)

lemma store_view_updates:
  "store_view (s\<lparr>dst_campaigns := c\<rparr>) = (store_view s)\<lparr>dst_campaigns := c\<rparr>"
  "store_view (s\<lparr>dst_attempts := a\<rparr>) = (store_view s)\<lparr>dst_attempts := a\<rparr>"
  "store_view (s\<lparr>dst_decisions := ds\<rparr>) = (store_view s)\<lparr>dst_decisions := ds\<rparr>"
  "store_view (s\<lparr>dst_policies := p\<rparr>) = (store_view s)\<lparr>dst_policies := p\<rparr>"
  "store_view (s\<lparr>dst_tickets := t\<rparr>) = (store_view s)\<lparr>dst_tickets := t\<rparr>"
  "store_view (s\<lparr>dst_provenance := l\<rparr>) = (store_view s)\<lparr>dst_provenance := l\<rparr>"
  "store_view (s\<lparr>dst_chain := h\<rparr>) = (store_view s)\<lparr>dst_chain := h\<rparr>"
  "store_view (s\<lparr>dst_sequence := q\<rparr>) = (store_view s)\<lparr>dst_sequence := q\<rparr>"
  "store_view (s\<lparr>dst_epoch := e\<rparr>) = (store_view s)\<lparr>dst_epoch := e\<rparr>"
  "store_view (s\<lparr>dst_incarnation := i\<rparr>) = (store_view s)\<lparr>dst_incarnation := i\<rparr>"
  by (simp_all add: store_view_def)

lemma decisions_of_view [simp]: "decisions_of (store_view s) key = decisions_of s key"
  by (simp add: decisions_of_def)

lemma note_rejected_view: "store_view (note_rejected s r e) = note_rejected (store_view s) r e"
  by (simp add: note_rejected_def store_view_def)

lemma apply_record_view: "store_view (apply_record s r) = apply_record (store_view s) r"
  by (cases "jrc_type r")
    (simp_all add: apply_defs Let_def store_view_updates note_rejected_view split: option.split sum.split)

lemma apply_records_view: "store_view (foldl apply_record s rs) = foldl apply_record (store_view s) rs"
  by (induction rs arbitrary: s) (simp_all add: apply_record_view)

lemma cleared_view: "store_view (cleared s) = new_store blank_options empty_journal"
  by (simp add: store_view_def cleared_def new_store_def)

lemma replay_view: "store_view (foldl apply_record (cleared s) rs) = replay rs"
  by (simp add: apply_records_view cleared_view replay_def)

lemma replay_Nil: "replay [] = new_store blank_options empty_journal"
  by (simp add: replay_def)

lemma replay_snoc: "replay (rs @ [r]) = apply_record (replay rs) r"
  by (simp add: replay_def)

text \<open>What the records say after their way through the file is what they said before.\<close>

lemma record_norm_fields [simp]:
  "jrc_type (record_norm r) = jrc_type r" "jrc_data (record_norm r) = json_norm (jrc_data r)"
  "jrc_sequence (record_norm r) = jrc_sequence r" "jrc_at (record_norm r) = jrc_at r"
  "jrc_previous (record_norm r) = jrc_previous r" "jrc_chain (record_norm r) = jrc_chain r"
  by (simp_all add: record_norm_def)

lemma snapshot_items_norm [norm_simps]:
  "(\<And>x. dec (json_norm x) = dec x) \<Longrightarrow> snapshot_items dec (json_norm v) key = snapshot_items dec v key"
  by (simp add: snapshot_items_def List.map_filter_def filter_map comp_def split: option.split)

lemma snapshot_uint_norm [norm_simps]: "snapshot_uint (json_norm v) key old = snapshot_uint v key old"
  by (simp add: snapshot_uint_def split: option.split)

lemma note_rejected_norm [simp]: "note_rejected s (record_norm r) e = note_rejected s r e"
  by (simp add: note_rejected_def)

lemma apply_record_norm: "apply_record s (record_norm r) = apply_record s r"
  by (cases "jrc_type r") (simp_all add: apply_defs Let_def norm_simps split: option.split sum.split)

lemma apply_record_frame [simp]:
  "dst_journal (apply_record s r) = dst_journal s" "dst_options (apply_record s r) = dst_options s"
  by (cases "jrc_type r"; simp add: apply_defs Let_def note_rejected_def split: option.split sum.split)+

lemma apply_records_frame [simp]:
  "dst_journal (foldl apply_record s rs) = dst_journal s" "dst_options (foldl apply_record s rs) = dst_options s"
  by (induction rs arbitrary: s) simp_all

lemma replay_norm: "replay (map record_norm rs) = replay rs"
proof -
  have "foldl apply_record s (map record_norm rs) = foldl apply_record s rs" for s
    by (induction rs arbitrary: s) (simp_all add: apply_record_norm)
  then show ?thesis by (simp add: replay_def)
qed

text \<open>Recovery rebuilds the replay of the journal's records, with the epoch of the report if that is later.\<close>

lemma recover_view:
  "store_view (recover s) =
    (let r = replay (jnl_records (dst_journal s)); e = rcv_last_epoch (jnl_recovery (dst_journal s))
     in if e > dst_epoch r then r\<lparr>dst_epoch := e\<rparr> else r)"
  and recover_fields [simp]:
  "dst_journal (recover s) = dst_journal s" "dst_options (recover s) = dst_options s"
proof -
  let ?s1 = "foldl apply_record (cleared s) (jnl_records (dst_journal s))"
  show jf: "dst_journal (recover s) = dst_journal s" "dst_options (recover s) = dst_options s"
    by (simp_all add: recover_def Let_def rebuild_stats_def cleared_def)
  have e: "rcv_last_epoch (recovery_report_of ?s1) = rcv_last_epoch (jnl_recovery (dst_journal s))"
    by (simp add: recovery_report_of_def Let_def cleared_def)
  have epoch: "dst_epoch ?s1 = dst_epoch (replay (jnl_records (dst_journal s)))"
    using replay_view [of s "jnl_records (dst_journal s)"] store_view_fields(9) by metis
  have "store_view (recover s) = (store_view ?s1)\<lparr>dst_epoch :=
      (if rcv_last_epoch (jnl_recovery (dst_journal s)) > dst_epoch ?s1
       then rcv_last_epoch (jnl_recovery (dst_journal s)) else dst_epoch ?s1)\<rparr>"
    by (simp add: recover_def Let_def rebuild_stats_def store_view_def e)
  then show "store_view (recover s) =
    (let r = replay (jnl_records (dst_journal s)); e = rcv_last_epoch (jnl_recovery (dst_journal s))
     in if e > dst_epoch r then r\<lparr>dst_epoch := e\<rparr> else r)"
    by (simp add: replay_view epoch Let_def)
qed

subsection \<open>Sound histories\<close>

definition ledger_sequence :: "provenance_record list \<Rightarrow> u64" where
  "ledger_sequence ps = (if ps = [] then 0 else prov_sequence (last ps))"

lemma ledger_sequence_simps [simp]: "ledger_sequence [] = 0" "ledger_sequence (ps @ [p]) = prov_sequence p"
  by (simp_all add: ledger_sequence_def)

definition store_sound :: "durable_store \<Rightarrow> bool" where
  "store_sound s \<longleftrightarrow>
     table_ok (dst_campaigns s) \<and>
     list_all (\<lambda>(k, c). k = cmp_id c \<and> campaign_wf c \<and> campaign_loaded c = c) (dst_campaigns s) \<and>
     table_ok (dst_attempts s) \<and> list_all (\<lambda>(k, a). k = att_id a \<and> attempt_storable a) (dst_attempts s) \<and>
     list_all provenance_wf (dst_provenance s) \<and> ledger_valid (dst_provenance s) \<and>
     dst_chain s = chain_head [] (dst_provenance s) \<and> ledger_sequence (dst_provenance s) = dst_sequence s \<and>
     list_all (\<lambda>p. prov_sequence p \<le> dst_sequence s) (dst_provenance s) \<and> dst_rejected s = 0"

definition store_within :: "store_options \<Rightarrow> durable_store \<Rightarrow> bool" where
  "store_within opts s \<longleftrightarrow>
     length (dst_campaigns s) \<le> sto_max_campaigns opts \<and> length (dst_attempts s) \<le> sto_max_attempts opts \<and>
     length (dst_provenance s) \<le> sto_max_provenance opts"

definition history_ok :: "store_options \<Rightarrow> journal_record list \<Rightarrow> bool" where
  "history_ok opts rs \<longleftrightarrow>
     store_sound (replay rs) \<and> store_within opts (replay rs) \<and>
     list_all (\<lambda>r. data_uint r ''epoch'' 0 \<le> dst_epoch (replay rs)) rs"

text \<open>Every record of a history was appended to a sound one.\<close>

definition history :: "store_options \<Rightarrow> journal_record list \<Rightarrow> bool" where
  "history opts rs \<longleftrightarrow> (\<forall>m. history_ok opts (take m rs))"

lemma history_now: "history opts rs \<Longrightarrow> history_ok opts rs"
  unfolding history_def by (drule spec [of _ "length rs"]) simp

lemma history_take: "history opts rs \<Longrightarrow> history opts (take n rs)"
  by (simp add: history_def)

lemma history_Nil: "history opts []"
  by (simp add: history_def history_ok_def replay_Nil store_sound_def store_within_def new_store_def table_ok_def
      ledger_valid_def chain_head_def)

lemma history_snoc: "history opts (rs @ [r]) \<longleftrightarrow> history opts rs \<and> history_ok opts (rs @ [r])"
proof
  assume h: "history opts (rs @ [r])"
  have "history_ok opts (take m rs)" for m
  proof (cases "m \<le> length rs")
    case True
    with h [unfolded history_def, rule_format, of m] show ?thesis by simp
  next
    case False
    with h [unfolded history_def, rule_format, of "length rs"] show ?thesis by simp
  qed
  with history_now [OF h] show "history opts rs \<and> history_ok opts (rs @ [r])" by (simp add: history_def)
next
  assume h: "history opts rs \<and> history_ok opts (rs @ [r])"
  show "history opts (rs @ [r])"
    unfolding history_def
  proof
    fix m
    show "history_ok opts (take m (rs @ [r]))"
      using h by (cases "m \<le> length rs") (auto simp: history_def)
  qed
qed

lemma data_uint_norm: "data_uint (record_norm r) key old = data_uint r key old"
  by (simp add: data_uint_def split: option.split)

lemma history_norm: "history opts (map record_norm rs) = history opts rs"
  by (simp add: history_def history_ok_def take_map replay_norm list_all_iff data_uint_norm)

lemma data_uint_cases: "data_uint r key old = old \<or> data_uint r key old = data_uint r key 0"
proof (cases "json_find (jrc_data r) key")
  case (Some v)
  then show ?thesis by (cases "json_as_uint v") (simp_all add: data_uint_def)
qed (simp add: data_uint_def)

text \<open>The scan for the newest boot record.\<close>

lemma scan_boot_epoch:
  "list_all (\<lambda>r. data_uint r ''epoch'' 0 \<le> b) rs \<Longrightarrow> e \<le> b \<Longrightarrow> fst (scan_boot rs (e, i)) \<le> b"
proof (induction rs "(e, i)" arbitrary: e i rule: scan_boot.induct)
  case (2 r rs epoch incarnation)
  have "data_uint r ''epoch'' epoch \<le> b"
    using data_uint_cases [of r "''epoch''" epoch] 2 by auto
  with 2 show ?case by (auto simp: Let_def)
qed simp

lemma scan_boot_incarnation: "snd (scan_boot rs (e, i)) = snd (scan_boot rs (e', i))"
  by (induction rs arbitrary: e e' i) (auto simp: Let_def)

definition boot_mark :: "journal_record list \<Rightarrow> u64" where
  "boot_mark rs = snd (scan_boot (rev rs) (0, 0))"

lemma boot_mark_plain:
  assumes "jrc_type r \<noteq> JT_boot" "jrc_type r \<noteq> JT_snapshot" "json_find (jrc_data r) ''incarnation'' = None"
  shows "boot_mark (rs @ [r]) = boot_mark rs"
  using assms scan_boot_incarnation [of "rev rs" "data_uint r ''epoch'' 0" 0 0]
  by (simp add: boot_mark_def Let_def data_uint_def split: option.splits)

lemma boot_mark_boot:
  assumes "jrc_type r = JT_boot \<or> jrc_type r = JT_snapshot" "json_find (jrc_data r) ''incarnation'' = Some (JUint i)"
  shows "boot_mark (rs @ [r]) = i"
  using assms by (auto simp: boot_mark_def Let_def data_uint_def)

lemma scan_boot_norm: "scan_boot (map record_norm rs) ei = scan_boot rs ei"
  by (induction rs ei rule: scan_boot.induct) (auto simp: Let_def data_uint_norm)

lemma boot_mark_norm: "boot_mark (map record_norm rs) = boot_mark rs"
  by (simp add: boot_mark_def rev_map scan_boot_norm)

subsection \<open>What one record does\<close>

lemma table_put_all: "list_all P t \<Longrightarrow> P (k, v) \<Longrightarrow> list_all P (table_put t k v)"
  unfolding table_put_def by (induction t) auto

lemma table_put_map: "map (apsnd f) (table_put t k v) = table_put (map (apsnd f) t) k (f v)"
  unfolding table_put_def by (induction t) auto

lemma table_get_map: "table_get (map (apsnd f) t) k = map_option f (table_get t k)"
  unfolding table_get_def by (induction t) auto

lemma length_table_put:
  "length (table_put t k v) = (if table_get t k = None then Suc (length t) else length t)"
  by (simp add: table_put_def table_get_def length_alist_update)

lemma decisions_of_put:
  "decisions_of (s\<lparr>dst_decisions := table_put t k ds\<rparr>) k' =
    (if k' = k then ds else case table_get t k' of None \<Rightarrow> [] | Some l \<Rightarrow> l)"
  by (simp add: decisions_of_def store_table.get_put)

lemma campaign_loaded_simps [simp]:
  "cmp_id (campaign_loaded c) = cmp_id c" "campaign_wf (campaign_loaded c) = campaign_wf c"
  "campaign_loaded (campaign_loaded c) = campaign_loaded c"
  by (simp_all add: campaign_loaded_def campaign_wf_def)

text \<open>The payload of each operation.\<close>

definition campaign_payload :: "campaign_record \<Rightarrow> json" where
  "campaign_payload c = json_build [(''campaign'', campaign_to_json c)]"

definition attempt_payload :: "attempt_record \<Rightarrow> json" where
  "attempt_payload a = json_build [(''attempt'', attempt_to_json a)]"

definition provenance_payload :: "provenance_record \<Rightarrow> json" where
  "provenance_payload p = json_build [(''record'', provenance_to_json p),
     (''provenance_chain'', JString (prov_chain p)), (''provenance_sequence'', JUint (prov_sequence p))]"

definition decision_payload :: "decision \<Rightarrow> json" where
  "decision_payload x = json_build [(''decision'', decision_to_json x)]"

definition policy_payload :: "policy \<Rightarrow> json" where
  "policy_payload p = json_build [(''policy'', policy_to_json p)]"

definition ticket_payload :: "preflight_ticket \<Rightarrow> json" where
  "ticket_payload t = json_build [(''ticket'', ticket_to_json t)]"

definition epoch_payload :: "u64 \<Rightarrow> json" where
  "epoch_payload e = json_build [(''epoch'', JUint e)]"

lemmas payload_defs = campaign_payload_def attempt_payload_def provenance_payload_def decision_payload_def
  policy_payload_def ticket_payload_def epoch_payload_def

lemma apply_payload:
  "jrc_type r = JT_campaign \<Longrightarrow> jrc_data r = campaign_payload c \<Longrightarrow> campaign_wf c \<Longrightarrow>
     apply_record v r = v\<lparr>dst_campaigns := table_put (dst_campaigns v) (cmp_id c) (campaign_loaded c)\<rparr>"
  "jrc_type r = JT_attempt \<Longrightarrow> jrc_data r = attempt_payload a \<Longrightarrow> attempt_storable a \<Longrightarrow>
     apply_record v r = v\<lparr>dst_attempts := table_put (dst_attempts v) (att_id a) a\<rparr>"
  "jrc_type r = JT_provenance \<Longrightarrow> jrc_data r = provenance_payload p \<Longrightarrow> provenance_wf p \<Longrightarrow>
     apply_record v r = v\<lparr>dst_chain := prov_chain p, dst_sequence := prov_sequence p,
       dst_provenance := dst_provenance v @ [p]\<rparr>"
  "jrc_type r = JT_decision \<Longrightarrow> jrc_data r = decision_payload x \<Longrightarrow> decision_wf x \<Longrightarrow>
     apply_record v r = v\<lparr>dst_decisions := table_put (dst_decisions v) (dec_campaign x)
       (decisions_of v (dec_campaign x) @ [x])\<rparr>"
  "jrc_type r = JT_policy \<Longrightarrow> jrc_data r = policy_payload q \<Longrightarrow> policy_wf q \<Longrightarrow>
     apply_record v r = v\<lparr>dst_policies := table_put (dst_policies v) (pol_id q) q\<rparr>"
  "jrc_type r = JT_ticket \<Longrightarrow> jrc_data r = ticket_payload t \<Longrightarrow> ticket_wf t \<Longrightarrow>
     apply_record v r = v\<lparr>dst_tickets := table_put (dst_tickets v) (tik_campaign t) t\<rparr>"
  "jrc_type r = JT_epoch \<Longrightarrow> jrc_data r = epoch_payload e \<Longrightarrow> apply_record v r = v\<lparr>dst_epoch := e\<rparr>"
  by (simp_all add: apply_defs payload_defs campaign_io.dec_enc attempt_io.dec_enc provenance_io.dec_enc
      decision_io.dec_enc policy_io.dec_enc ticket_io.dec_enc json_require_uint_def json_require_def)

lemma payload_marks [simp]:
  "json_find (campaign_payload c) ''incarnation'' = None" "json_find (campaign_payload c) ''epoch'' = None"
  "json_find (attempt_payload a) ''incarnation'' = None" "json_find (attempt_payload a) ''epoch'' = None"
  "json_find (provenance_payload p) ''incarnation'' = None" "json_find (provenance_payload p) ''epoch'' = None"
  "json_find (decision_payload x) ''incarnation'' = None" "json_find (decision_payload x) ''epoch'' = None"
  "json_find (policy_payload q) ''incarnation'' = None" "json_find (policy_payload q) ''epoch'' = None"
  "json_find (ticket_payload t) ''incarnation'' = None" "json_find (ticket_payload t) ''epoch'' = None"
  "json_find (epoch_payload e) ''incarnation'' = None" "json_find (epoch_payload e) ''epoch'' = Some (JUint e)"
  by (simp_all add: payload_defs)

lemma history_ok_snoc:
  assumes "history_ok opts rs" "store_sound (apply_record (replay rs) r)" "store_within opts (apply_record (replay rs) r)"
    "dst_epoch (replay rs) \<le> dst_epoch (apply_record (replay rs) r)"
    "data_uint r ''epoch'' 0 \<le> dst_epoch (apply_record (replay rs) r)"
  shows "history_ok opts (rs @ [r])"
  using assms by (auto simp: history_ok_def replay_snoc list_all_iff)

lemma data_uint_missing: "json_find (jrc_data r) key = None \<Longrightarrow> data_uint r key old = old"
  by (simp add: data_uint_def)

subsection \<open>The memory and the journal\<close>

definition store_matches :: "durable_store \<Rightarrow> durable_store \<Rightarrow> bool" where
  "store_matches s v \<longleftrightarrow>
     dst_campaigns v = map (apsnd campaign_loaded) (dst_campaigns s) \<and> dst_attempts v = dst_attempts s \<and>
     dst_policies v = dst_policies s \<and> dst_tickets v = dst_tickets s \<and>
     dst_provenance v = dst_provenance s \<and> dst_chain v = dst_chain s \<and> dst_sequence v = dst_sequence s \<and>
     dst_epoch v = dst_epoch s \<and> dst_incarnation v = dst_incarnation s \<and>
     (\<forall>key. suffix (decisions_of s key) (decisions_of v key) \<and>
        min (sto_max_decisions (dst_options s)) (length (decisions_of v key)) \<le> length (decisions_of s key))"

definition store_inv :: "durable_store \<Rightarrow> bool" where
  "store_inv s \<longleftrightarrow>
     (let rs = jnl_records (dst_journal s)
      in journal_run (dst_journal s) \<and> jnl_options (dst_journal s) = sto_journal (dst_options s) \<and>
         store_options_validate (dst_options s) = ok_status \<and>
         history (dst_options s) rs \<and> store_matches s (replay rs) \<and> boot_mark rs = dst_incarnation s)"

text \<open>The records of a store are within the bounds of the text parser and of memory.\<close>

definition record_fits :: "journal_record \<Rightarrow> bool" where
  "record_fits r \<longleftrightarrow> data_fits (jrc_data r) \<and> ts_ok (jrc_at r) \<and>
     length (record_body (jrc_sequence r) (jrc_type r) (jrc_at r) (jrc_previous r) (jrc_data r)) < 9223372036854775808"

definition store_fits :: "durable_store \<Rightarrow> bool" where
  "store_fits s \<longleftrightarrow> list_all record_fits (jnl_records (dst_journal s))"

lemma append_run:
  assumes "journal_run j" "journal_append d j k payload t = (Inr (), j')"
    "list_all record_fits (jnl_records j')"
  obtains r where "journal_run j'" "jnl_records j' = jnl_records j @ [r]" "jrc_type r = k" "jrc_data r = payload"
    "jnl_options j' = jnl_options j" "jnl_path j' = jnl_path j"
proof -
  let ?r = "next_record j k payload t"
  have "write_record d j k payload t False = (Inr (), j')" using assms(2) by (simp add: journal_append_def)
  then have j': "jnl_records j' = jnl_records j @ [?r]" "jnl_options j' = jnl_options j" "jnl_path j' = jnl_path j"
    by (rule write_record_acknowledged; simp)+
  then have "record_fits ?r" using assms(3) by simp
  then have "data_fits payload" "ts_ok t" "payload_small j k payload t"
    by (simp_all add: record_fits_def next_record_def Let_def payload_small_def)
  with assms have "journal_run j'" by (blast intro: journal_run.appended)
  moreover have "jrc_type ?r = k" "jrc_data ?r = payload" by (simp_all add: next_record_def Let_def)
  ultimately show thesis using j' by (intro that)
qed

lemma store_inv_append:
  assumes inv: "store_inv s" and app: "append_then d s0 k payload t f = (Inr (), s')" and fits: "store_fits s'"
    and s0: "dst_journal s0 = dst_journal s"
    and frame: "\<And>j. dst_journal (f (s0\<lparr>dst_journal := j\<rparr>)) = j"
      "\<And>j. dst_options (f (s0\<lparr>dst_journal := j\<rparr>)) = dst_options s"
      "\<And>j. dst_incarnation (f (s0\<lparr>dst_journal := j\<rparr>)) = dst_incarnation s"
    and plain: "k \<noteq> JT_boot" "k \<noteq> JT_snapshot" "json_find payload ''incarnation'' = None"
    and ok: "\<And>r. jrc_type r = k \<Longrightarrow> jrc_data r = payload \<Longrightarrow>
      history_ok (dst_options s) (jnl_records (dst_journal s) @ [r])"
    and memory: "\<And>r j. jrc_type r = k \<Longrightarrow> jrc_data r = payload \<Longrightarrow>
      store_matches (f (s0\<lparr>dst_journal := j\<rparr>)) (apply_record (replay (jnl_records (dst_journal s))) r)"
  shows "store_inv s'"
proof -
  from app obtain j' where j': "journal_append d (dst_journal s) k payload t = (Inr (), j')"
    and s': "s' = f (s0\<lparr>dst_journal := j'\<rparr>)"
    by (auto simp: append_then_def s0 split: prod.splits sum.splits)
  have small: "list_all record_fits (jnl_records j')" using fits by (simp add: store_fits_def s' frame)
  have run: "journal_run (dst_journal s)" using inv by (simp add: store_inv_def Let_def)
  obtain r where r: "journal_run j'" "jnl_records j' = jnl_records (dst_journal s) @ [r]"
      "jrc_type r = k" "jrc_data r = payload" "jnl_options j' = jnl_options (dst_journal s)"
    by (rule append_run [OF run j' small])
  have "history (dst_options s) (jnl_records j')"
    using inv ok [OF r(3,4)] by (simp add: store_inv_def Let_def r(2) history_snoc)
  moreover have "boot_mark (jnl_records j') = dst_incarnation s"
    using inv boot_mark_plain [of r] plain r by (simp add: store_inv_def Let_def)
  ultimately show ?thesis
    using inv r memory [OF r(3,4)] by (simp add: store_inv_def Let_def s' frame replay_snoc)
qed

subsection \<open>Every operation keeps the invariant\<close>

lemma store_inv_parts:
  assumes "store_inv s"
  shows "store_sound (replay (jnl_records (dst_journal s)))"
    "store_within (dst_options s) (replay (jnl_records (dst_journal s)))"
    "history_ok (dst_options s) (jnl_records (dst_journal s))"
    "store_matches s (replay (jnl_records (dst_journal s)))"
  using assms history_now [of "dst_options s" "jnl_records (dst_journal s)"]
  by (auto simp: store_inv_def Let_def history_ok_def)

lemma rebuild_stats_simps [simp]:
  "dst_journal (rebuild_stats s) = dst_journal s" "dst_options (rebuild_stats s) = dst_options s"
  "dst_campaigns (rebuild_stats s) = dst_campaigns s" "dst_attempts (rebuild_stats s) = dst_attempts s"
  "dst_policies (rebuild_stats s) = dst_policies s" "dst_tickets (rebuild_stats s) = dst_tickets s"
  "dst_provenance (rebuild_stats s) = dst_provenance s" "dst_chain (rebuild_stats s) = dst_chain s"
  "dst_sequence (rebuild_stats s) = dst_sequence s" "dst_epoch (rebuild_stats s) = dst_epoch s"
  "dst_incarnation (rebuild_stats s) = dst_incarnation s" "dst_decisions (rebuild_stats s) = dst_decisions s"
  "decisions_of (rebuild_stats s) key = decisions_of s key"
  by (simp_all add: rebuild_stats_def decisions_of_def)

lemma decisions_of_frame [simp]:
  "decisions_of (s\<lparr>dst_journal := j\<rparr>) key = decisions_of s key"
  "decisions_of (s\<lparr>dst_campaigns := c\<rparr>) key = decisions_of s key"
  "decisions_of (s\<lparr>dst_attempts := a\<rparr>) key = decisions_of s key"
  "decisions_of (s\<lparr>dst_policies := p\<rparr>) key = decisions_of s key"
  "decisions_of (s\<lparr>dst_tickets := t\<rparr>) key = decisions_of s key"
  "decisions_of (s\<lparr>dst_provenance := l\<rparr>) key = decisions_of s key"
  "decisions_of (s\<lparr>dst_chain := h\<rparr>) key = decisions_of s key"
  "decisions_of (s\<lparr>dst_sequence := q\<rparr>) key = decisions_of s key"
  "decisions_of (s\<lparr>dst_epoch := e\<rparr>) key = decisions_of s key"
  "decisions_of (s\<lparr>dst_incarnation := i\<rparr>) key = decisions_of s key"
  by (simp_all add: decisions_of_def)

lemma put_campaign_inv:
  assumes inv: "store_inv s" and op: "put_campaign d s c t = (Inr (), s')" and c: "campaign_wf c" "store_fits s'"
  shows "store_inv s'"
proof -
  let ?f = "\<lambda>s. rebuild_stats (s\<lparr>dst_campaigns := table_put (dst_campaigns s) (cmp_id c) c\<rparr>)"
  note parts = store_inv_parts [OF inv]
  from op have app: "append_then d s JT_campaign (campaign_payload c) t ?f = (Inr (), s')"
    and room: "table_get (dst_campaigns s) (cmp_id c) = None \<longrightarrow>
      length (dst_campaigns s) < sto_max_campaigns (dst_options s)"
    by (auto simp: put_campaign_def campaign_payload_def ensure_capacity_def fail_def split: sum.splits if_splits)
  show ?thesis
  proof (rule store_inv_append [OF inv app])
    fix r :: journal_record assume r: "jrc_type r = JT_campaign" "jrc_data r = campaign_payload c"
    note eff = apply_payload(1) [OF r c(1)]
    show "history_ok (dst_options s) (jnl_records (dst_journal s) @ [r])"
    proof (rule history_ok_snoc [OF parts(3)])
      show "store_sound (apply_record (replay (jnl_records (dst_journal s))) r)"
        using parts(1) c(1) by (simp add: eff store_sound_def store_table.ok_put table_put_all)
      have "length (dst_campaigns (replay (jnl_records (dst_journal s)))) = length (dst_campaigns s)"
        "(table_get (dst_campaigns (replay (jnl_records (dst_journal s)))) (cmp_id c) = None) =
         (table_get (dst_campaigns s) (cmp_id c) = None)"
        using parts(4) by (simp_all add: store_matches_def table_get_map)
      then show "store_within (dst_options s) (apply_record (replay (jnl_records (dst_journal s))) r)"
        using parts(2) room by (auto simp: eff store_within_def length_table_put)
    qed (simp_all add: eff data_uint_missing r)
    show "store_matches (?f (s\<lparr>dst_journal := j\<rparr>)) (apply_record (replay (jnl_records (dst_journal s))) r)" for j
      using parts(4) by (simp add: eff store_matches_def table_put_map)
  qed (use c in \<open>simp_all\<close>)
qed

lemma put_attempt_inv:
  assumes inv: "store_inv s" and op: "put_attempt d s a t = (Inr (), s')" and a: "attempt_storable a" "store_fits s'"
  shows "store_inv s'"
proof -
  let ?f = "\<lambda>s. rebuild_stats (s\<lparr>dst_attempts := table_put (dst_attempts s) (att_id a) a\<rparr>)"
  note parts = store_inv_parts [OF inv]
  from op have app: "append_then d s JT_attempt (attempt_payload a) t ?f = (Inr (), s')"
    and room: "table_get (dst_attempts s) (att_id a) = None \<longrightarrow>
      length (dst_attempts s) < sto_max_attempts (dst_options s)"
    by (auto simp: put_attempt_def attempt_payload_def ensure_capacity_def fail_def split: sum.splits if_splits)
  show ?thesis
  proof (rule store_inv_append [OF inv app])
    fix r :: journal_record assume r: "jrc_type r = JT_attempt" "jrc_data r = attempt_payload a"
    note eff = apply_payload(2) [OF r a(1)]
    show "history_ok (dst_options s) (jnl_records (dst_journal s) @ [r])"
    proof (rule history_ok_snoc [OF parts(3)])
      show "store_sound (apply_record (replay (jnl_records (dst_journal s))) r)"
        using parts(1) a(1) by (simp add: eff store_sound_def store_table.ok_put table_put_all)
      show "store_within (dst_options s) (apply_record (replay (jnl_records (dst_journal s))) r)"
        using parts(2,4) room by (auto simp: eff store_within_def store_matches_def length_table_put)
    qed (simp_all add: eff data_uint_missing r)
    show "store_matches (?f (s\<lparr>dst_journal := j\<rparr>)) (apply_record (replay (jnl_records (dst_journal s))) r)" for j
      using parts(4) by (simp add: eff store_matches_def)
  qed (use a in \<open>simp_all\<close>)
qed

lemma chain_head_snoc: "chain_head h (rs @ [r]) = prov_chain r"
  by (simp add: chain_head_def)

lemma append_provenance_inv:
  assumes inv: "store_inv s" and op: "append_provenance d s p t = (Inr (), q, s')"
    and q: "provenance_wf q" "store_fits s'"
  shows "store_inv s'"
proof -
  let ?f = "\<lambda>s. rebuild_stats (s\<lparr>dst_provenance := dst_provenance s @ [q], dst_chain := prov_chain q,
    dst_sequence := prov_sequence q\<rparr>)"
  note parts = store_inv_parts [OF inv]
  from op obtain n where app: "append_then d s JT_provenance (provenance_payload q) t ?f = (Inr (), s')"
    and room: "length (dst_provenance s) < sto_max_provenance (dst_options s)"
    and n: "counter_try_next (dst_sequence s) = Inr n" and q_def: "q = chained_record s p n"
    by (auto simp: append_provenance_def provenance_payload_def ensure_capacity_def fail_def Let_def
        split: sum.splits if_splits prod.splits)
  have qf: "prov_sequence q = n" "prov_previous q = dst_chain s" "prov_chain q = compute_chain q (dst_chain s)"
    by (simp_all add: q_def chained_record_def Let_def)
  have later: "dst_sequence s < n" using counter_try_next_less [OF n] by simp
  show ?thesis
  proof (rule store_inv_append [OF inv app])
    fix r :: journal_record assume r: "jrc_type r = JT_provenance" "jrc_data r = provenance_payload q"
    note eff = apply_payload(3) [OF r q(1)]
    show "history_ok (dst_options s) (jnl_records (dst_journal s) @ [r])"
    proof (rule history_ok_snoc [OF parts(3)])
      show "store_sound (apply_record (replay (jnl_records (dst_journal s))) r)"
        using parts(1,4) q(1) later
        by (fastforce simp: eff store_sound_def store_matches_def qf(1,2) qf(3) [symmetric] ledger_valid_append
            chain_head_snoc list_all_iff)
      show "store_within (dst_options s) (apply_record (replay (jnl_records (dst_journal s))) r)"
        using parts(2,4) room by (auto simp: eff store_within_def store_matches_def)
    qed (simp_all add: eff data_uint_missing r)
    show "store_matches (?f (s\<lparr>dst_journal := j\<rparr>)) (apply_record (replay (jnl_records (dst_journal s))) r)" for j
      using parts(4) by (simp add: eff store_matches_def)
  qed (use q in \<open>simp_all\<close>)
qed

lemma append_decision_inv:
  assumes inv: "store_inv s" and op: "append_decision d s x t = (Inr (), s')" and x: "decision_wf x" "store_fits s'"
  shows "store_inv s'"
proof -
  let ?k = "dec_campaign x"
  define kept where "kept = (if length (decisions_of s ?k) \<ge> sto_max_decisions (dst_options s)
    then tl (decisions_of s ?k) else decisions_of s ?k)"
  let ?f = "\<lambda>s. rebuild_stats (s\<lparr>dst_decisions := table_put (dst_decisions s) ?k (kept @ [x])\<rparr>)"
  let ?s0 = "s\<lparr>dst_decisions := table_put (dst_decisions s) ?k kept\<rparr>"
  note parts = store_inv_parts [OF inv]
  let ?v = "replay (jnl_records (dst_journal s))"
  from op have app: "append_then d ?s0 JT_decision (decision_payload x) t ?f = (Inr (), s')"
    by (simp add: append_decision_def decision_payload_def Let_def kept_def [symmetric])
  have bound: "0 < sto_max_decisions (dst_options s)"
    using inv by (auto simp: store_inv_def Let_def store_options_validate_def fail_def split: if_splits)
  have old: "suffix (decisions_of s key) (decisions_of ?v key)"
    "min (sto_max_decisions (dst_options s)) (length (decisions_of ?v key)) \<le> length (decisions_of s key)" for key
    using parts(4) by (simp_all add: store_matches_def)
  have kept: "suffix (kept @ [x]) (decisions_of ?v ?k @ [x])"
    "min (sto_max_decisions (dst_options s)) (Suc (length (decisions_of ?v ?k))) \<le> Suc (length kept)"
    using old [of ?k] bound suffix_order.trans [OF suffix_tl old(1)] by (auto simp: kept_def)
  have get_v: "(case table_get (dst_decisions ?v) key of None \<Rightarrow> [] | Some l \<Rightarrow> l) = decisions_of ?v key" for key
    by (simp add: decisions_of_def)
  show ?thesis
  proof (rule store_inv_append [OF inv app])
    fix r :: journal_record assume r: "jrc_type r = JT_decision" "jrc_data r = decision_payload x"
    note eff = apply_payload(4) [OF r x(1)]
    show "history_ok (dst_options s) (jnl_records (dst_journal s) @ [r])"
      by (rule history_ok_snoc [OF parts(3)])
        (use parts in \<open>simp_all add: eff data_uint_missing r store_sound_def store_within_def\<close>)
    have mem: "decisions_of (?f (?s0\<lparr>dst_journal := j\<rparr>)) key =
        (if key = ?k then kept @ [x] else decisions_of s key)" for j key
      by (simp add: decisions_of_put store_table.get_put) (simp add: decisions_of_def)
    have rep: "decisions_of (apply_record ?v r) key =
        (if key = ?k then decisions_of ?v ?k @ [x] else decisions_of ?v key)" for key
      by (simp add: eff decisions_of_put get_v)
    show "store_matches (?f (?s0\<lparr>dst_journal := j\<rparr>)) (apply_record ?v r)" for j
      unfolding store_matches_def mem rep
      using parts(4) old kept by (auto simp: eff store_matches_def)
  qed (use x in \<open>simp_all\<close>)
qed

lemma put_policy_inv:
  assumes inv: "store_inv s" and op: "put_policy d s q t = (Inr (), s')" and q: "policy_wf q" "store_fits s'"
  shows "store_inv s'"
proof -
  note parts = store_inv_parts [OF inv]
  show ?thesis
  proof (rule store_inv_append [OF inv op [unfolded put_policy_def policy_payload_def [symmetric]]])
    fix r :: journal_record assume r: "jrc_type r = JT_policy" "jrc_data r = policy_payload q"
    note eff = apply_payload(5) [OF r q(1)]
    show "history_ok (dst_options s) (jnl_records (dst_journal s) @ [r])"
      by (rule history_ok_snoc [OF parts(3)])
        (use parts in \<open>simp_all add: eff data_uint_missing r store_sound_def store_within_def\<close>)
    show "store_matches (s\<lparr>dst_journal := j, dst_policies := table_put (dst_policies (s\<lparr>dst_journal := j\<rparr>)) (pol_id q) q\<rparr>)
        (apply_record (replay (jnl_records (dst_journal s))) r)" for j
      using parts(4) by (simp add: eff store_matches_def)
  qed (use q in \<open>simp_all\<close>)
qed

lemma put_ticket_inv:
  assumes inv: "store_inv s" and op: "put_ticket d s k t = (Inr (), s')" and k: "ticket_wf k" "store_fits s'"
  shows "store_inv s'"
proof -
  note parts = store_inv_parts [OF inv]
  show ?thesis
  proof (rule store_inv_append [OF inv op [unfolded put_ticket_def ticket_payload_def [symmetric]]])
    fix r :: journal_record assume r: "jrc_type r = JT_ticket" "jrc_data r = ticket_payload k"
    note eff = apply_payload(6) [OF r k(1)]
    show "history_ok (dst_options s) (jnl_records (dst_journal s) @ [r])"
      by (rule history_ok_snoc [OF parts(3)])
        (use parts in \<open>simp_all add: eff data_uint_missing r store_sound_def store_within_def\<close>)
    show "store_matches (s\<lparr>dst_journal := j, dst_tickets := table_put (dst_tickets (s\<lparr>dst_journal := j\<rparr>)) (tik_campaign k) k\<rparr>)
        (apply_record (replay (jnl_records (dst_journal s))) r)" for j
      using parts(4) by (simp add: eff store_matches_def)
  qed (use k in \<open>simp_all\<close>)
qed

lemma set_epoch_inv:
  assumes inv: "store_inv s" and op: "set_epoch d s e t = (Inr (), s')" and fits: "store_fits s'"
  shows "store_inv s'"
proof -
  let ?f = "\<lambda>s. rebuild_stats (s\<lparr>dst_epoch := e\<rparr>)"
  note parts = store_inv_parts [OF inv]
  from op have later: "dst_epoch s < e" and app: "append_then d s JT_epoch (epoch_payload e) t ?f = (Inr (), s')"
    by (auto simp: set_epoch_def epoch_payload_def fail_def split: if_splits)
  show ?thesis
  proof (rule store_inv_append [OF inv app fits])
    fix r :: journal_record assume r: "jrc_type r = JT_epoch" "jrc_data r = epoch_payload e"
    note eff = apply_payload(7) [OF r]
    have "dst_epoch (replay (jnl_records (dst_journal s))) = dst_epoch s"
      using parts(4) by (simp add: store_matches_def)
    then show "history_ok (dst_options s) (jnl_records (dst_journal s) @ [r])"
      using later by (intro history_ok_snoc [OF parts(3)])
        (use parts in \<open>simp_all add: eff data_uint_def r store_sound_def store_within_def\<close>)
    show "store_matches (?f (s\<lparr>dst_journal := j\<rparr>)) (apply_record (replay (jnl_records (dst_journal s))) r)" for j
      using parts(4) by (simp add: eff store_matches_def)
  qed simp_all
qed

lemma store_note_inv:
  assumes inv: "store_inv s" and op: "store_note d s key v t = (Inr (), s')" and fits: "store_fits s'"
  shows "store_inv s'"
proof -
  note parts = store_inv_parts [OF inv]
  show ?thesis
  proof (rule store_inv_append [OF inv op [unfolded store_note_def] fits])
    fix r :: journal_record
    assume r: "jrc_type r = JT_note" "jrc_data r = json_build [(''key'', JString key), (''value'', JString v)]"
    have eff: "apply_record (replay (jnl_records (dst_journal s))) r = replay (jnl_records (dst_journal s))"
      by (simp add: apply_record_def r)
    show "history_ok (dst_options s) (jnl_records (dst_journal s) @ [r])"
      by (rule history_ok_snoc [OF parts(3)]) (use parts in \<open>simp_all add: eff data_uint_missing r\<close>)
    show "store_matches (s\<lparr>dst_journal := j\<rparr>) (apply_record (replay (jnl_records (dst_journal s))) r)" for j
      using parts(4) by (simp add: eff store_matches_def)
  qed simp_all
qed

subsection \<open>Opening\<close>

lemma journal_open_replayed:
  assumes "journal_open d path opts content now = Inr j"
  obtains st rest where "jnl_recovery j = recovery_of st rest" "jnl_records j = rps_records st"
    "jnl_tail_damaged j = (rps_damage st \<noteq> None)"
  using assms by (auto simp: journal_open_def fum_try_Inr_iff case_prod_beta)

lemma recovery_of_simps:
  "rcv_last_epoch (recovery_of st rest) = fst (scan_boot (rev (rps_records st)) (0, 0))"
  "rcv_last_boot_incarnation (recovery_of st rest) = boot_mark (rps_records st)"
  "rcv_truncated_tail (recovery_of st rest) = (rps_damage st \<noteq> None)"
  "rcv_bytes_ignored (recovery_of st rest) = length rest"
  by (simp_all add: recovery_of_def boot_mark_def Let_def case_prod_beta)

lemma journal_open_scan:
  assumes "journal_open d path opts content now = Inr j"
  shows "rcv_last_epoch (jnl_recovery j) = fst (scan_boot (rev (jnl_records j)) (0, 0))"
    "rcv_last_boot_incarnation (jnl_recovery j) = boot_mark (jnl_records j)"
    "rcv_truncated_tail (jnl_recovery j) = jnl_tail_damaged j"
  using journal_open_replayed [OF assms]
  by (metis (no_types, lifting) recovery_of_simps)+

lemma replay_loop_rest:
  "replay_loop opts tot rest st = Inr (st', rest') \<Longrightarrow> length rest' \<le> length rest"
proof (induction opts tot rest st arbitrary: st' rest' rule: replay_loop.induct)
  case (1 opts tot rest st)
  show ?case
  proof (cases "rest = []")
    case True
    with 1(2) show ?thesis by (simp add: replay_loop_stops)
  next
    case False
    note step = 1(2) [unfolded replay_loop.simps [of opts tot rest st]]
    show ?thesis
    proof (cases "read_frame opts (tot - length rest) (rps_chain st) (rps_last_sequence st) (rps_replayed st) rest")
      case (Frame_record r n)
      with step False 1(1) [OF False Frame_record refl, of st' rest'] show ?thesis
        by (auto simp: Let_def split: if_splits)
    qed (use step False in auto)
  qed
qed

lemma journal_open_ignored:
  assumes "journal_open d path opts (Some bytes) now = Inr j" "header_bytes \<le> length bytes"
  shows "rcv_bytes_ignored (jnl_recovery j) + header_bytes \<le> length bytes"
proof -
  from assms(1) obtain offset st rest where off: "check_header path bytes = Inr offset"
    and loop: "replay_loop opts (length bytes) (drop offset bytes) replay_start = Inr (st, rest)"
    and j: "jnl_recovery j = recovery_of st rest"
    by (auto simp: journal_open_def fum_try_Inr_iff fs_read_file_def split: prod.splits)
  have "offset = header_bytes" using off assms(2) by (auto simp: check_header_def split: if_splits)
  with replay_loop_rest [OF loop] assms(2) show ?thesis
    by (simp add: j recovery_of_def Let_def case_prod_beta)
qed

lemma store_boot_inv:
  assumes j: "journal_run j" "jnl_options j = sto_journal opts" "history opts (jnl_records j)"
      "rcv_last_epoch (jnl_recovery j) = fst (scan_boot (rev (jnl_records j)) (0, 0))"
      "rcv_last_boot_incarnation (jnl_recovery j) = boot_mark (jnl_records j)"
    and opts: "store_options_validate opts = ok_status"
    and boot: "store_boot d opts j now pid = Inr s" and fits: "store_fits s"
  shows "store_inv s \<and> dst_options s = opts \<and> unat (dst_incarnation s) = unat (boot_mark (jnl_records j)) + 1 \<and>
    store_view s = (replay (jnl_records j))\<lparr>dst_incarnation := dst_incarnation s\<rparr>"
proof -
  let ?s = "recover (new_store opts j)" and ?v = "replay (jnl_records j)"
  have e: "rcv_last_epoch (jnl_recovery j) \<le> dst_epoch ?v"
    unfolding j(4) using history_now [OF j(3)]
    by (intro scan_boot_epoch) (simp_all add: history_ok_def)
  have jn: "dst_journal (new_store opts j) = j" "dst_options (new_store opts j) = opts"
    by (simp_all add: new_store_def)
  have view: "store_view ?s = ?v"
    using recover_view [of "new_store opts j"] e by (simp add: jn Let_def not_less)
  have inc: "rcv_last_boot_incarnation (dst_recovery ?s) = boot_mark (jnl_records j)"
    by (simp add: recover_def Let_def rebuild_stats_def recovery_report_of_def cleared_def jn j(5))
  from boot obtain i where i: "counter_try_next (boot_mark (jnl_records j)) = Inr i"
    and boot_i: "fum_try (fst (journal_append d j JT_boot (json_build [(''incarnation'', JUint i), (''pid'', JString pid)]) now))
      (\<lambda>_. Inr (?s\<lparr>dst_journal := snd (journal_append d j JT_boot (json_build [(''incarnation'', JUint i), (''pid'', JString pid)]) now),
        dst_incarnation := i, dst_stats := (dst_stats ?s)\<lparr>sts_incarnation := i\<rparr>\<rparr>)) = Inr s"
    by (auto simp: store_boot_def Let_def inc jn fum_try_Inr_iff case_prod_beta)
  then obtain j2 where app: "journal_append d j JT_boot (json_build [(''incarnation'', JUint i), (''pid'', JString pid)]) now = (Inr (), j2)"
    and s: "s = ?s\<lparr>dst_journal := j2, dst_incarnation := i, dst_stats := (dst_stats ?s)\<lparr>sts_incarnation := i\<rparr>\<rparr>"
    by (cases "journal_append d j JT_boot (json_build [(''incarnation'', JUint i), (''pid'', JString pid)]) now")
      (auto simp: fum_try_Inr_iff)
  have small: "list_all record_fits (jnl_records j2)" using fits by (simp add: store_fits_def s)
  obtain r where r: "journal_run j2" "jnl_records j2 = jnl_records j @ [r]" "jrc_type r = JT_boot"
      "jrc_data r = json_build [(''incarnation'', JUint i), (''pid'', JString pid)]" "jnl_options j2 = jnl_options j"
    by (rule append_run [OF j(1) app small])
  have eff: "apply_record ?v r = ?v\<lparr>dst_incarnation := i\<rparr>"
    by (simp add: apply_record_def r json_require_uint_def json_require_def)
  have "history_ok opts (jnl_records j @ [r])"
    by (rule history_ok_snoc [OF history_now [OF j(3)]])
      (use history_now [OF j(3)] in \<open>simp_all add: eff data_uint_missing r history_ok_def store_sound_def store_within_def\<close>)
  then have hist: "history opts (jnl_records j @ [r])" using j(3) by (simp add: history_snoc)
  have sv: "store_view s = ?v\<lparr>dst_incarnation := i\<rparr>"
    unfolding view [symmetric] by (simp add: s store_view_def)
  have loaded: "map (apsnd campaign_loaded) (dst_campaigns ?v) = dst_campaigns ?v"
    using history_now [OF j(3)]
    by (auto simp: history_ok_def store_sound_def list_all_iff intro!: map_idI split: prod.splits)
  have fields: "dst_campaigns s = dst_campaigns ?v" "dst_attempts s = dst_attempts ?v"
    "dst_policies s = dst_policies ?v" "dst_tickets s = dst_tickets ?v" "dst_provenance s = dst_provenance ?v"
    "dst_chain s = dst_chain ?v" "dst_sequence s = dst_sequence ?v" "dst_epoch s = dst_epoch ?v"
    "dst_decisions s = dst_decisions ?v" "dst_incarnation s = i"
    using arg_cong [OF sv, of dst_campaigns] arg_cong [OF sv, of dst_attempts] arg_cong [OF sv, of dst_policies]
      arg_cong [OF sv, of dst_tickets] arg_cong [OF sv, of dst_provenance] arg_cong [OF sv, of dst_chain]
      arg_cong [OF sv, of dst_sequence] arg_cong [OF sv, of dst_epoch] arg_cong [OF sv, of dst_decisions]
      arg_cong [OF sv, of dst_incarnation] by simp_all
  then have dec: "decisions_of s key = decisions_of ?v key" for key by (simp add: decisions_of_def)
  have matches: "store_matches s (apply_record ?v r)"
    by (simp add: store_matches_def eff fields loaded dec)
  have opt: "dst_options s = opts" by (simp add: s jn)
  have "store_inv s"
    using r j(2) hist matches boot_mark_boot [of r i "jnl_records j"] opts
    by (simp add: store_inv_def Let_def opt) (simp add: s replay_snoc fields)
  with opt sv counter_try_next_less [OF i] fields show ?thesis by simp
qed

lemma repair_undamaged: "\<not> rcv_truncated_tail (jnl_recovery j) \<Longrightarrow> repair_journal d opts path bytes rewritten now j = Inr j"
  by (simp add: repair_journal_def Let_def)

lemma store_open_steps:
  assumes "store_open d opts made content rewritten now pid = Inr s"
  obtains opened j where "store_options_validate opts = ok_status"
    "journal_open d (fs_join (sto_directory opts) ''journal.fum'') (sto_journal opts) content now = Inr opened"
    "repair_journal d opts (fs_join (sto_directory opts) ''journal.fum'')
       (case content of None \<Rightarrow> [] | Some bytes \<Rightarrow> bytes) rewritten now opened = Inr j"
    "store_boot d opts j now pid = Inr s"
  using assms by (auto simp: store_open_def Let_def fum_try_Inr_iff)

lemma store_open_fresh:
  assumes op: "store_open d opts made content rewritten now pid = Inr s" and fresh: "content = None \<or> content = Some []"
    and ok: "options_ok (sto_journal opts)" and fits: "store_fits s"
  shows "store_inv s \<and> dst_options s = opts"
proof -
  from op obtain opened j where opts: "store_options_validate opts = ok_status"
    and opened: "journal_open d (fs_join (sto_directory opts) ''journal.fum'') (sto_journal opts) content now = Inr opened"
    and repair: "repair_journal d opts (fs_join (sto_directory opts) ''journal.fum'')
       (case content of None \<Rightarrow> [] | Some bytes \<Rightarrow> bytes) rewritten now opened = Inr j"
    and boot: "store_boot d opts j now pid = Inr s"
    by (rule store_open_steps)
  from journal_open_fresh [OF opened fresh ok]
  have w: "journal_wf opened" "jnl_records opened = []" "jnl_options opened = sto_journal opts" by auto
  have j: "j = opened"
    using repair w(1) by (simp add: repair_undamaged journal_open_scan(3) [OF opened] journal_wf_def)
  have run: "journal_run j" unfolding j by (rule journal_run.created [OF opened fresh ok])
  have "history opts (jnl_records j)" by (simp add: j w(2) history_Nil)
  with store_boot_inv [OF run _ _ _ _ opts boot fits] show ?thesis
    by (simp add: j w(3) journal_open_scan [OF opened])
qed

text \<open>What opening any prefix of a store's file, repaired or not, recovers.\<close>

lemma journal_reopened:
  assumes j0: "journal_run j0" "header_bytes \<le> n" and hist: "history opts (jnl_records j0)"
    and opts: "jnl_options j0 = sto_journal opts"
    and opened: "journal_open d path (sto_journal opts) (Some (take n (fw_bytes (jnl_writer j0)))) now = Inr opened"
    and repair: "repair_journal d opts path (take n (fw_bytes (jnl_writer j0))) rewritten now opened = Inr j"
  obtains m where "journal_run j" "jnl_records j = map record_norm (take m (jnl_records j0))"
    "jnl_options j = sto_journal opts"
    "rcv_last_epoch (jnl_recovery j) = fst (scan_boot (rev (jnl_records j)) (0, 0))"
    "rcv_last_boot_incarnation (jnl_recovery j) = boot_mark (jnl_records j)"
    "length (fw_bytes (jnl_writer j0)) \<le> n \<longrightarrow> m = length (jnl_records j0)"
proof -
  note wf = journal_run_wf [OF j0(1)]
  have part: "\<exists>m. jnl_records jj = map record_norm (take m (jnl_records j0)) \<and> jnl_options jj = sto_journal opts \<and>
      (length (fw_bytes (jnl_writer j0)) \<le> k \<longrightarrow> m = length (jnl_records j0) \<and> \<not> jnl_tail_damaged jj)"
    if jj: "journal_open d path (sto_journal opts) (Some (take k (fw_bytes (jnl_writer j0)))) now = Inr jj" "header_bytes \<le> k"
    for jj k
  proof -
    from journal_open_cut [OF wf jj(2), of d path now] jj(1) opts
    have c: "jnl_records jj = map record_norm (take (whole_frames [] (jnl_records j0) (k - header_bytes)) (jnl_records j0))"
      "jnl_tail_damaged jj = torn [] (jnl_records j0) (k - header_bytes)" "jnl_options jj = sto_journal opts"
      by auto
    have "whole_frames [] (jnl_records j0) (k - header_bytes) = length (jnl_records j0) \<and>
        \<not> torn [] (jnl_records j0) (k - header_bytes)" if "length (fw_bytes (jnl_writer j0)) \<le> k"
    proof -
      have "length (frames [] (jnl_records j0)) \<le> k - header_bytes"
        using that journal_run_file [OF j0(1)] by simp
      then show ?thesis using whole_frames_all torn_whole by blast
    qed
    with c show ?thesis by auto
  qed
  have scan: "rcv_truncated_tail (jnl_recovery jj) = jnl_tail_damaged jj"
    if "journal_open d path (sto_journal opts) (Some b) now = Inr jj" for jj b
    using journal_open_scan(3) [OF that] .
  show thesis
  proof (cases "jnl_tail_damaged opened")
    case False
    then have j: "j = opened" using repair by (simp add: repair_undamaged scan [OF opened])
    have "journal_run j" unfolding j
      by (rule journal_run.restarted [OF j0 opened [folded opts]]) (rule False)
    with part [OF opened j0(2)] journal_open_scan [OF opened] that show thesis unfolding j by blast
  next
    case True
    let ?bytes = "take n (fw_bytes (jnl_writer j0))"
    define k where "k = length ?bytes - rcv_bytes_ignored (jnl_recovery opened)"
    have len: "header_bytes \<le> length ?bytes" using j0 journal_run_file [OF j0(1)] by simp
    have k: "header_bytes \<le> k" "k \<le> n"
      using journal_open_ignored [OF opened len] by (auto simp: k_def)
    have rd: "fs_read_file ?bytes b = Inr bs \<Longrightarrow> bs = ?bytes" for b bs
      by (simp add: fs_read_file_def fum_try_Inr_iff)
    from repair True obtain "journal_open d path (sto_journal opts) (Some (take k ?bytes)) now = Inr j"
      and clean: "\<not> rcv_truncated_tail (jnl_recovery j)"
      by (auto simp: repair_journal_def Let_def scan [OF opened] fum_try_Inr_iff k_def fail_def dest!: rd
          split: if_splits)
    then have again: "journal_open d path (sto_journal opts) (Some (take k (fw_bytes (jnl_writer j0)))) now = Inr j"
      using k by (simp add: min_absorb1)
    have "journal_run j"
      by (rule journal_run.restarted [OF j0(1) k(1) again [folded opts]]) (use clean scan [OF again] in simp)
    moreover have "\<not> length (fw_bytes (jnl_writer j0)) \<le> n" using part [OF opened j0(2)] True by auto
    ultimately show thesis using part [OF again k(1)] journal_open_scan [OF again] that by blast
  qed
qed

lemma store_open_again:
  assumes j0: "journal_run j0" "header_bytes \<le> n" and hist: "history opts (jnl_records j0)"
    and opts: "jnl_options j0 = sto_journal opts"
    and op: "store_open d opts made (Some (take n (fw_bytes (jnl_writer j0)))) rewritten now pid = Inr s'"
    and fits: "store_fits s'"
  shows "store_inv s' \<and> dst_options s' = opts \<and>
    (\<exists>m. store_view s' = (replay (take m (jnl_records j0)))\<lparr>dst_incarnation := dst_incarnation s'\<rparr> \<and>
       unat (dst_incarnation s') = unat (boot_mark (take m (jnl_records j0))) + 1 \<and>
       (length (fw_bytes (jnl_writer j0)) \<le> n \<longrightarrow> m = length (jnl_records j0)))"
proof -
  from op obtain opened j where valid: "store_options_validate opts = ok_status"
    and opened: "journal_open d (fs_join (sto_directory opts) ''journal.fum'') (sto_journal opts)
      (Some (take n (fw_bytes (jnl_writer j0)))) now = Inr opened"
    and repair: "repair_journal d opts (fs_join (sto_directory opts) ''journal.fum'')
       (take n (fw_bytes (jnl_writer j0))) rewritten now opened = Inr j"
    and boot: "store_boot d opts j now pid = Inr s'"
    by (rule store_open_steps) simp
  obtain m where m: "journal_run j" "jnl_records j = map record_norm (take m (jnl_records j0))"
    "jnl_options j = sto_journal opts"
    "rcv_last_epoch (jnl_recovery j) = fst (scan_boot (rev (jnl_records j)) (0, 0))"
    "rcv_last_boot_incarnation (jnl_recovery j) = boot_mark (jnl_records j)"
    "length (fw_bytes (jnl_writer j0)) \<le> n \<longrightarrow> m = length (jnl_records j0)"
    by (rule journal_reopened [OF j0 hist opts opened repair])
  have h: "history opts (jnl_records j)" using hist by (simp add: m(2) history_norm history_take)
  from store_boot_inv [OF m(1,3) h m(4,5) valid boot fits] m(6)
  show ?thesis by (auto simp: m(2) replay_norm boot_mark_norm)
qed

subsection \<open>Compaction\<close>

lemma record_fits_norm: "record_fits (record_norm r) = record_fits r"
  by (simp add: record_fits_def data_fits_norm_iff record_body_norm)

lemma store_matches_view:
  assumes "store_view s = replay rs" "store_sound (replay rs)"
  shows "store_matches s (replay rs)"
proof -
  have "map (apsnd campaign_loaded) (dst_campaigns (replay rs)) = dst_campaigns (replay rs)"
    using assms(2) by (auto simp: store_sound_def list_all_iff intro!: map_idI split: prod.splits)
  then show ?thesis
    unfolding assms(1) [symmetric] by (simp add: store_matches_def)
qed

lemma foldl_table_put_distinct:
  "distinct (map fst t @ map key xs) \<Longrightarrow>
   foldl (\<lambda>t x. table_put t (key x) x) t xs = t @ map (\<lambda>x. (key x, x)) xs"
proof (induction xs arbitrary: t)
  case (Cons x xs)
  have "table_put t (key x) x = t @ [(key x, x)]"
    using Cons.prems unfolding table_put_def by (induction t) auto
  with Cons show ?case by simp
qed simp

lemma snapshot_items_read:
  assumes "json_find v name = Some (JArray (map enc xs))" "\<And>x. x \<in> set xs \<Longrightarrow> dec (enc x) = Inr (load x)"
  shows "snapshot_items dec v name = map load xs"
proof -
  have "List.map_filter (\<lambda>x. case dec x of Inl e \<Rightarrow> None | Inr a \<Rightarrow> Some a) (map enc xs) = map load xs"
    using assms(2) by (induction xs) (auto simp: List.map_filter_simps)
  with assms(1) show ?thesis by (simp add: snapshot_items_def)
qed

lemma snapshot_payload_members:
  "json_find (snapshot_payload s) ''campaigns'' = Some (JArray (map (\<lambda>(k, c). campaign_to_json c) (sort_key fst (dst_campaigns s))))"
  "json_find (snapshot_payload s) ''attempts'' = Some (JArray (map (\<lambda>(k, a). attempt_to_json a) (sort_key fst (dst_attempts s))))"
  "json_find (snapshot_payload s) ''provenance'' = Some (JArray (map provenance_to_json (dst_provenance s)))"
  "json_find (snapshot_payload s) ''provenance_chain'' = Some (JString (dst_chain s))"
  "json_find (snapshot_payload s) ''provenance_sequence'' = Some (JUint (dst_sequence s))"
  "json_find (snapshot_payload s) ''epoch'' = Some (JUint (dst_epoch s))"
  "json_find (snapshot_payload s) ''incarnation'' = Some (JUint (dst_incarnation s))"
  by (simp_all add: snapshot_payload_def)

text \<open>A sound memory: what a snapshot can write and read back.\<close>

lemma store_inv_tables:
  assumes "store_inv s"
  shows "table_ok (dst_campaigns s)" "\<And>k c. (k, c) \<in> set (dst_campaigns s) \<Longrightarrow> k = cmp_id c \<and> campaign_wf c"
    "table_ok (dst_attempts s)" "\<And>k a. (k, a) \<in> set (dst_attempts s) \<Longrightarrow> k = att_id a \<and> attempt_storable a"
    "\<And>p. p \<in> set (dst_provenance s) \<Longrightarrow> provenance_wf p" "ledger_valid (dst_provenance s)"
    "dst_chain s = chain_head [] (dst_provenance s)" "\<And>p. p \<in> set (dst_provenance s) \<Longrightarrow> prov_sequence p \<le> dst_sequence s"
    "store_within (dst_options s) s" "dst_sequence s = ledger_sequence (dst_provenance s)"
proof -
  note parts = store_inv_parts [OF assms]
  have m: "dst_campaigns (replay (jnl_records (dst_journal s))) = map (apsnd campaign_loaded) (dst_campaigns s)"
    using parts(4) by (simp add: store_matches_def)
  have keys: "map fst (map (apsnd campaign_loaded) (dst_campaigns s)) = map fst (dst_campaigns s)" by simp
  show "table_ok (dst_campaigns s)" using parts(1) by (simp add: store_sound_def m table_ok_def comp_def)
  show "k = cmp_id c \<and> campaign_wf c" if "(k, c) \<in> set (dst_campaigns s)" for k c
    using parts(1) that by (auto simp: store_sound_def m list_all_iff)
  show "store_within (dst_options s) s"
    using parts(2,4) by (auto simp: store_within_def store_matches_def)
qed (use store_inv_parts [OF assms] in \<open>auto simp: store_sound_def store_matches_def list_all_iff\<close>)

definition compacted_campaigns :: "durable_store \<Rightarrow> campaign_record table" where
  "compacted_campaigns s = map (apsnd campaign_loaded) (sort_key fst (dst_campaigns s))"

lemma apply_snapshot_payload:
  assumes "store_inv s" "jrc_type r = JT_snapshot" "jrc_data r = snapshot_payload s"
  shows "apply_record v r = v\<lparr>dst_campaigns := compacted_campaigns s, dst_attempts := sort_key fst (dst_attempts s),
    dst_decisions := [], dst_provenance := dst_provenance s, dst_chain := dst_chain s,
    dst_sequence := dst_sequence s, dst_epoch := dst_epoch s, dst_incarnation := dst_incarnation s\<rparr>"
proof -
  note t = store_inv_tables [OF assms(1)]
  have c: "snapshot_items campaign_from_json (snapshot_payload s) ''campaigns'' =
      map (campaign_loaded \<circ> snd) (sort_key fst (dst_campaigns s))"
    by (rule snapshot_items_read [OF snapshot_payload_members(1)]) (use t(2) in \<open>auto simp: campaign_io.dec_enc\<close>)
  have a: "snapshot_items attempt_from_json (snapshot_payload s) ''attempts'' = map snd (sort_key fst (dst_attempts s))"
    by (rule snapshot_items_read [OF snapshot_payload_members(2)]) (use t(4) in \<open>auto simp: attempt_io.dec_enc\<close>)
  have p: "snapshot_items provenance_from_json (snapshot_payload s) ''provenance'' = map id (dst_provenance s)"
    by (rule snapshot_items_read [OF snapshot_payload_members(3)]) (use t(5) in \<open>auto simp: provenance_io.dec_enc\<close>)
  have keys: "map cmp_id (map (campaign_loaded \<circ> snd) (sort_key fst (dst_campaigns s))) = map fst (sort_key fst (dst_campaigns s))"
    "map att_id (map snd (sort_key fst (dst_attempts s))) = map fst (sort_key fst (dst_attempts s))"
    using t(2,4) by auto
  have sorted: "distinct (map fst (sort_key fst (dst_campaigns s)))" "distinct (map fst (sort_key fst (dst_attempts s)))"
    using t(1,3) by (simp_all add: table_ok_def distinct_map)
  have d1: "distinct (map fst [] @ map cmp_id (map (campaign_loaded \<circ> snd) (sort_key fst (dst_campaigns s))))"
    unfolding keys(1) list.map append_Nil by (rule sorted(1))
  have d2: "distinct (map fst [] @ map att_id (map snd (sort_key fst (dst_attempts s))))"
    unfolding keys(2) list.map append_Nil by (rule sorted(2))
  have "foldl (\<lambda>t c. table_put t (cmp_id c) c) [] (map (campaign_loaded \<circ> snd) (sort_key fst (dst_campaigns s))) =
      compacted_campaigns s"
    unfolding foldl_table_put_distinct [OF d1] using t(2) by (auto simp: compacted_campaigns_def)
  moreover have "foldl (\<lambda>t a. table_put t (att_id a) a) [] (map snd (sort_key fst (dst_attempts s))) = sort_key fst (dst_attempts s)"
    unfolding foldl_table_put_distinct [OF d2] using t(4) by (auto intro!: map_idI)
  moreover have "valid_digest (dst_chain s)"
    using t(5,7) by (auto simp: chain_head_def provenance_wf_def)
  ultimately show ?thesis
    by (simp add: apply_record_def apply_snapshot_def assms(2,3) c a p snapshot_payload_members snapshot_uint_def)
qed

lemma journal_close_run:
  assumes "journal_run j" "journal_close d j now = (Inr (), j2)"
  obtains j1 where "journal_append d j JT_shutdown (json_build [(''reason'', JString ''clean shutdown'')]) now = (Inr (), j1)"
    "fw_bytes (jnl_writer j2) = fw_bytes (jnl_writer j1)" "jnl_records j2 = jnl_records j1"
proof -
  let ?p = "json_build [(''reason'', JString ''clean shutdown'')]"
  have j: "jnl_open j" "\<not> jnl_tail_damaged j" using journal_run_wf [OF assms(1)] by (auto simp: journal_wf_def)
  obtain a j1 where w: "write_record d j JT_shutdown ?p now True = (a, j1)" by force
  have "journal_append d j JT_shutdown ?p now = (a, j1)"
    using w j by (simp add: journal_append_def write_record_def)
  moreover have "a = Inr ()" "fw_bytes (jnl_writer j2) = fw_bytes (jnl_writer j1)" "jnl_records j2 = jnl_records j1"
    using assms(2) j w by (auto simp: journal_close_def Let_def writer_close_def fum_try_Inr_iff split: if_splits)
  ultimately show thesis using that by blast
qed

lemma compact_steps:
  assumes "compact d s t now leftover replaced = (Inr (), s')"
  obtains j0 j1 j2 j3 where
    "journal_open d (fs_join (sto_directory (dst_options s)) ''journal.compact'') (sto_journal (dst_options s)) leftover now = Inr j0"
    "journal_append d j0 JT_snapshot (snapshot_payload s) t = (Inr (), j1)" "journal_close d j1 now = (Inr (), j2)"
    "journal_open d (jnl_path (dst_journal s)) (sto_journal (dst_options s)) (Some (fw_bytes (jnl_writer j2))) now = Inr j3"
    "s' = recover (s\<lparr>dst_journal := j3\<rparr>)"
  using assms by (auto simp: compact_def Let_def fum_try_Inr_iff case_prod_beta prod_eq_iff split: sum.splits prod.splits)

text \<open>The two records of the compacted journal fit the bounds.\<close>

definition snapshot_fits :: "durable_store \<Rightarrow> timestamp \<Rightarrow> timestamp \<Rightarrow> bool" where
  "snapshot_fits s t now \<longleftrightarrow>
     data_fits (snapshot_payload s) \<and> ts_ok t \<and> ts_ok now \<and>
     (let body = record_body 1 JT_snapshot t [] (snapshot_payload s)
      in length body < 9223372036854775808 \<and>
         length (record_body 2 JT_shutdown now (digest_of_text (''|'' @ body))
           (json_build [(''reason'', JString ''clean shutdown'')])) < 9223372036854775808)"

lemma compact_journal:
  assumes run: "journal_run (dst_journal s)" and jo: "jnl_options (dst_journal s) = sto_journal (dst_options s)"
    and op: "compact d s t now leftover replaced = (Inr (), s')"
    and fresh: "leftover = None \<or> leftover = Some []" and fits: "snapshot_fits s t now"
  obtains j3 r1 r2 where "s' = recover (s\<lparr>dst_journal := j3\<rparr>)" "journal_run j3"
    "jnl_options j3 = sto_journal (dst_options s)" "jnl_records j3 = map record_norm [r1, r2]"
    "jrc_type r1 = JT_snapshot" "jrc_data r1 = snapshot_payload s" "jrc_type r2 = JT_shutdown"
    "jrc_data r2 = json_build [(''reason'', JString ''clean shutdown'')]"
    "rcv_last_epoch (jnl_recovery j3) = fst (scan_boot (rev (jnl_records j3)) (0, 0))" "jrc_previous r1 = []"
proof -
  let ?opts = "sto_journal (dst_options s)" and ?p = "json_build [(''reason'', JString ''clean shutdown'')]"
  from op obtain j0 j1 j2 j3 where
    j0: "journal_open d (fs_join (sto_directory (dst_options s)) ''journal.compact'') ?opts leftover now = Inr j0"
    and j1: "journal_append d j0 JT_snapshot (snapshot_payload s) t = (Inr (), j1)"
    and j2: "journal_close d j1 now = (Inr (), j2)"
    and j3: "journal_open d (jnl_path (dst_journal s)) ?opts (Some (fw_bytes (jnl_writer j2))) now = Inr j3"
    and s': "s' = recover (s\<lparr>dst_journal := j3\<rparr>)"
    by (rule compact_steps)
  have ok: "options_ok ?opts" using journal_run_wf [OF run] jo by (simp add: journal_wf_def)
  from journal_open_fresh [OF j0 fresh ok]
  have w0: "journal_wf j0" "jnl_records j0 = []" "jnl_options j0 = ?opts" by auto
  then have z0: "jnl_chain j0 = []" "jnl_last_sequence j0 = 0"
    by (simp_all add: journal_wf_def last_chain_def last_seq_def)
  have run0: "journal_run j0" by (rule journal_run.created [OF j0 fresh ok])
  let ?r1 = "next_record j0 JT_snapshot (snapshot_payload s) t"
  have small0: "payload_small j0 JT_snapshot (snapshot_payload s) t"
    using fits by (simp add: snapshot_fits_def Let_def payload_small_def z0)
  have f0: "data_fits (snapshot_payload s)" "ts_ok t" "ts_ok now" using fits by (simp_all add: snapshot_fits_def)
  from write_record_wf [OF w0(1) j1 [unfolded journal_append_def] f0(1,2) small0] w0
  have w1: "journal_wf j1" "jnl_records j1 = [?r1]" "jnl_options j1 = ?opts" by auto
  have run1: "journal_run j1" by (rule journal_run.appended [OF run0 j1 f0(1,2) small0])
  obtain j4 where j4: "journal_append d j1 JT_shutdown ?p now = (Inr (), j4)"
    and bytes: "fw_bytes (jnl_writer j2) = fw_bytes (jnl_writer j4)"
    by (rule journal_close_run [OF run1 j2])
  have z1: "jnl_last_sequence j1 = 1"
    "jnl_chain j1 = digest_of_text (''|'' @ record_body 1 JT_snapshot t [] (snapshot_payload s))"
    using w1 by (simp_all add: journal_wf_def last_chain_def last_seq_def next_record_def Let_def z0)
  let ?r2 = "next_record j1 JT_shutdown ?p now"
  have small1: "payload_small j1 JT_shutdown ?p now"
    using fits by (simp add: snapshot_fits_def Let_def payload_small_def z1)
  have fp: "data_fits ?p" by (simp add: data_fits_def json_build_eq)
  from write_record_wf [OF w1(1) j4 [unfolded journal_append_def] fp f0(3) small1] w1
  have w4: "journal_wf j4" "jnl_records j4 = [?r1, ?r2]" "jnl_options j4 = ?opts" by auto
  have run4: "journal_run j4" by (rule journal_run.appended [OF run1 j4 fp f0(3) small1])
  let ?n = "length (fw_bytes (jnl_writer j4))"
  have n: "header_bytes \<le> ?n" using journal_run_file [OF run4] by simp
  have again: "journal_open d (jnl_path (dst_journal s)) (jnl_options j4) (Some (take ?n (fw_bytes (jnl_writer j4)))) now = Inr j3"
    using j3 by (simp add: bytes w4(3))
  have frames: "length (frames [] (jnl_records j4)) \<le> ?n - header_bytes"
    using journal_run_file [OF run4] by simp
  from journal_open_cut [OF w4(1) n, of d "jnl_path (dst_journal s)" now] again
  have c: "jnl_records j3 = map record_norm (jnl_records j4)" "\<not> jnl_tail_damaged j3" "jnl_options j3 = ?opts"
    by (simp_all add: whole_frames_all [OF frames] torn_whole [OF frames] w4(3))
  have "journal_run j3" by (rule journal_run.restarted [OF run4 n again c(2)])
  with c w4(2) s' journal_open_scan [OF j3] show thesis
    by (intro that [of j3 ?r1 ?r2]) (simp_all add: next_record_def Let_def z0)
qed

lemma compact_inv:
  assumes inv: "store_inv s" and op: "compact d s t now leftover replaced = (Inr (), s')"
    and fresh: "leftover = None \<or> leftover = Some []" and fits: "snapshot_fits s t now"
  shows "store_inv s' \<and> dst_options s' = dst_options s \<and>
    store_view s' = (new_store blank_options empty_journal)\<lparr>dst_campaigns := compacted_campaigns s,
      dst_attempts := sort_key fst (dst_attempts s), dst_provenance := dst_provenance s, dst_chain := dst_chain s,
      dst_sequence := dst_sequence s, dst_epoch := dst_epoch s, dst_incarnation := dst_incarnation s\<rparr> \<and>
    map jrc_type (jnl_records (dst_journal s')) = [JT_snapshot, JT_shutdown] \<and>
    jrc_previous (hd (jnl_records (dst_journal s'))) = []"
proof -
  let ?opts = "dst_options s"
  have run: "journal_run (dst_journal s)" and jo: "jnl_options (dst_journal s) = sto_journal ?opts"
    and valid: "store_options_validate ?opts = ok_status"
    using inv by (simp_all add: store_inv_def Let_def)
  obtain j3 r1 r2 where s': "s' = recover (s\<lparr>dst_journal := j3\<rparr>)" and run3: "journal_run j3"
    and o3: "jnl_options j3 = sto_journal ?opts" and recs: "jnl_records j3 = map record_norm [r1, r2]"
    and r: "jrc_type r1 = JT_snapshot" "jrc_data r1 = snapshot_payload s" "jrc_type r2 = JT_shutdown"
      "jrc_data r2 = json_build [(''reason'', JString ''clean shutdown'')]"
    and scan: "rcv_last_epoch (jnl_recovery j3) = fst (scan_boot (rev (jnl_records j3)) (0, 0))"
    and prev: "jrc_previous r1 = []"
    by (rule compact_journal [OF run jo op fresh fits])
  note t = store_inv_tables [OF inv]
  let ?v = "(new_store blank_options empty_journal)\<lparr>dst_campaigns := compacted_campaigns s,
      dst_attempts := sort_key fst (dst_attempts s), dst_provenance := dst_provenance s, dst_chain := dst_chain s,
      dst_sequence := dst_sequence s, dst_epoch := dst_epoch s, dst_incarnation := dst_incarnation s\<rparr>"
  have blank: "(new_store blank_options empty_journal)\<lparr>dst_decisions := []\<rparr> = new_store blank_options empty_journal"
    by (simp add: new_store_def)
  have v1: "replay [r1] = ?v"
    using apply_snapshot_payload [OF inv r(1,2), of "new_store blank_options empty_journal"]
    by (simp add: replay_def new_store_def)
  have v2: "replay [r1, r2] = ?v"
    using v1 by (simp add: replay_def) (simp add: apply_record_def r)
  have "store_sound ?v" "store_within ?opts ?v"
    using t by (auto simp: store_sound_def store_within_def table_ok_def compacted_campaigns_def list_all_iff
        new_store_def distinct_map comp_def)
  then have h: "history_ok ?opts [r1]" "history_ok ?opts [r1, r2]" and sound: "store_sound ?v"
    by (simp_all add: history_ok_def v1 v2 data_uint_def r snapshot_payload_members)
  have hist: "history ?opts [r1, r2]"
    using history_snoc [of ?opts "[]" r1] history_snoc [of ?opts "[r1]" r2] h history_Nil by simp
  have "boot_mark [r1, r2] = dst_incarnation s"
    by (simp add: boot_mark_def Let_def r data_uint_def snapshot_payload_members)
  then have mark: "boot_mark (jnl_records j3) = dst_incarnation s" by (simp only: recs boot_mark_norm)
  have "rcv_last_epoch (jnl_recovery j3) = dst_epoch s"
    unfolding scan recs rev_map scan_boot_norm by (simp add: Let_def r data_uint_def snapshot_payload_members)
  then have view: "store_view s' = ?v"
    using recover_view [of "s\<lparr>dst_journal := j3\<rparr>"] by (simp add: s' Let_def recs replay_norm [of "[r1, r2]", simplified] v2)
  have rep: "replay (jnl_records j3) = ?v" by (simp only: recs replay_norm v2)
  have "store_matches s' (replay (jnl_records j3))"
    by (rule store_matches_view) (simp_all add: view rep sound)
  moreover have "history ?opts (jnl_records j3)" using hist by (simp only: recs history_norm)
  moreover have "dst_incarnation s' = dst_incarnation s"
    using arg_cong [OF view, of dst_incarnation] by simp
  ultimately have "store_inv s'"
    using run3 o3 valid mark by (simp add: store_inv_def Let_def s')
  with view recs r prev show ?thesis by (simp add: s')
qed

end
