(* ===== verification/Store_Runs.thy ===== *)
theory Store_Runs
  imports Store_Replay
begin

text \<open>
  The life of a store: created on an empty file, changed by acknowledged operations, compacted, shut down,
  and opened again after a crash that kept some prefix of its file.  Its properties over every such life.
\<close>

inductive store_step :: "durable_store \<Rightarrow> durable_store \<Rightarrow> bool" where
  campaign: "put_campaign d s c t = (Inr (), s') \<Longrightarrow> campaign_wf c \<Longrightarrow> store_fits s' \<Longrightarrow> store_step s s'"
| attempt: "put_attempt d s a t = (Inr (), s') \<Longrightarrow> attempt_storable a \<Longrightarrow> store_fits s' \<Longrightarrow> store_step s s'"
| provenance: "append_provenance d s p t = (Inr (), q, s') \<Longrightarrow> provenance_wf q \<Longrightarrow> store_fits s' \<Longrightarrow>
    store_step s s'"
| decision: "append_decision d s x t = (Inr (), s') \<Longrightarrow> decision_wf x \<Longrightarrow> store_fits s' \<Longrightarrow> store_step s s'"
| policy: "put_policy d s y t = (Inr (), s') \<Longrightarrow> policy_wf y \<Longrightarrow> store_fits s' \<Longrightarrow> store_step s s'"
| ticket: "put_ticket d s k t = (Inr (), s') \<Longrightarrow> ticket_wf k \<Longrightarrow> store_fits s' \<Longrightarrow> store_step s s'"
| epoch: "set_epoch d s e t = (Inr (), s') \<Longrightarrow> store_fits s' \<Longrightarrow> store_step s s'"
| noted: "store_note d s key v t = (Inr (), s') \<Longrightarrow> store_fits s' \<Longrightarrow> store_step s s'"
| compaction: "compact d s t now leftover replaced = (Inr (), s') \<Longrightarrow> leftover = None \<or> leftover = Some [] \<Longrightarrow>
    snapshot_fits s t now \<Longrightarrow> store_step s s'"

text \<open>The file of a store, as it is or after a clean shutdown.\<close>

inductive store_file :: "durable_store \<Rightarrow> string \<Rightarrow> bool" where
  running: "store_file s (fw_bytes (jnl_writer (dst_journal s)))"
| shut_down: "store_close d s now = (Inr (), s') \<Longrightarrow> store_fits s' \<Longrightarrow>
    store_file s (fw_bytes (jnl_writer (dst_journal s')))"

inductive store_run :: "durable_store \<Rightarrow> bool" where
  created: "store_open d opts made content rewritten now pid = Inr s \<Longrightarrow> content = None \<or> content = Some [] \<Longrightarrow>
    options_ok (sto_journal opts) \<Longrightarrow> store_fits s \<Longrightarrow> store_run s"
| stepped: "store_run s \<Longrightarrow> store_step s s' \<Longrightarrow> store_run s'"
| reopened: "store_run s \<Longrightarrow> store_file s bytes \<Longrightarrow> header_bytes \<le> n \<Longrightarrow>
    store_open d (dst_options s) made (Some (take n bytes)) rewritten now pid = Inr s' \<Longrightarrow> store_fits s' \<Longrightarrow>
    store_run s'"

inductive_cases store_fileE: "store_file s bytes"

lemma store_step_inv: "store_step s s' \<Longrightarrow> store_inv s \<Longrightarrow> store_inv s'"
  by (induction rule: store_step.induct)
    (blast intro: put_campaign_inv put_attempt_inv append_provenance_inv append_decision_inv put_policy_inv
      put_ticket_inv set_epoch_inv store_note_inv dest: compact_inv)+

text \<open>A file of a store is the file of a journal whose records are the store's, or those and a shutdown record.\<close>

lemma store_file_journal:
  assumes "store_file s bytes" "store_inv s"
  obtains j rs where "journal_run j" "jnl_records j = jnl_records (dst_journal s) @ rs"
    "jnl_options j = sto_journal (dst_options s)" "history (dst_options s) (jnl_records j)"
    "replay (jnl_records j) = replay (jnl_records (dst_journal s))"
    "boot_mark (jnl_records j) = boot_mark (jnl_records (dst_journal s))" "bytes = fw_bytes (jnl_writer j)"
proof -
  from assms(1) consider (running) "bytes = fw_bytes (jnl_writer (dst_journal s))" |
    (shut_down) d now s' where "bytes = fw_bytes (jnl_writer (dst_journal s'))"
      "store_close d s now = (Inr (), s')" "store_fits s'"
    by (rule store_fileE)
  then show thesis
  proof cases
    case running
    with assms(2) that [of "dst_journal s" "[]"] show thesis by (simp add: store_inv_def Let_def)
  next
    case shut_down
    let ?p = "json_build [(''reason'', JString ''clean shutdown'')]" and ?rs = "jnl_records (dst_journal s)"
    have run: "journal_run (dst_journal s)" and o: "jnl_options (dst_journal s) = sto_journal (dst_options s)"
      and h: "history (dst_options s) ?rs"
      using assms(2) by (simp_all add: store_inv_def Let_def)
    from shut_down(2) obtain j2 where j2: "journal_close d (dst_journal s) now = (Inr (), j2)" "dst_journal s' = j2"
      by (auto simp: store_close_def split: prod.splits)
    obtain j1 where j1: "journal_append d (dst_journal s) JT_shutdown ?p now = (Inr (), j1)"
      "fw_bytes (jnl_writer j2) = fw_bytes (jnl_writer j1)" "jnl_records j2 = jnl_records j1"
      by (rule journal_close_run [OF run j2(1)])
    have small: "list_all record_fits (jnl_records j1)" using shut_down(3) by (simp add: store_fits_def j2(2) j1(3))
    obtain r where r: "journal_run j1" "jnl_records j1 = ?rs @ [r]" "jrc_type r = JT_shutdown" "jrc_data r = ?p"
      "jnl_options j1 = jnl_options (dst_journal s)"
      by (rule append_run [OF run j1(1) small])
    have eff: "apply_record v r = v" for v by (simp add: apply_record_def r)
    have "history_ok (dst_options s) (?rs @ [r])"
      by (rule history_ok_snoc [OF history_now [OF h]])
        (use history_now [OF h] in \<open>simp_all add: eff data_uint_missing r history_ok_def\<close>)
    with that [of j1 "[r]"] r o h shut_down(1) j1 j2 boot_mark_plain [of r ?rs] show thesis
      by (simp add: history_snoc replay_snoc eff)
  qed
qed

lemma store_run_inv: "store_run s \<Longrightarrow> store_inv s"
proof (induction rule: store_run.induct)
  case (created d opts made content rewritten now pid s)
  then show ?case using store_open_fresh by blast
next
  case (stepped s s')
  then show ?case by (rule_tac store_step_inv)
next
  case (reopened s bytes n d made rewritten now pid s')
  from store_file_journal [OF reopened(2) reopened(6)] obtain j where
    j: "journal_run j" "jnl_options j = sto_journal (dst_options s)"
      "history (dst_options s) (jnl_records j)" "bytes = fw_bytes (jnl_writer j)"
    by metis
  from store_open_again [OF j(1) reopened(3) j(3,2) reopened(4) [unfolded j(4)] reopened(5)]
  show ?case by blast
qed

subsection \<open>Properties\<close>

text \<open>
  C24: a restart gives back the state.  After any sequence of acknowledged operations on storable records, crashes,
  repairs and compactions, opening the file of the store again, as it is or after a clean shutdown, rebuilds the
  campaigns (their skew assessments apart), attempts, policies, tickets, the ledger with its head and sequence, and
  the epoch; the decisions that were in memory are a suffix of those read back; and the next incarnation
  starts.  Storable leaves out what \<open>attempt_codec\<close> shows to be lost, an attempt that is rolling back, and an append
  whose sync failed is not acknowledged: what it can cost is \<open>journal_lost_after_failed_sync\<close>.
\<close>

theorem store_restart:
  assumes "store_run s" "store_file s bytes"
    "store_open d (dst_options s) made (Some bytes) rewritten now pid = Inr s'" "store_fits s'"
  shows "dst_campaigns s' = map (apsnd campaign_loaded) (dst_campaigns s) \<and> dst_attempts s' = dst_attempts s \<and>
    dst_policies s' = dst_policies s \<and> dst_tickets s' = dst_tickets s \<and> dst_provenance s' = dst_provenance s \<and>
    dst_chain s' = dst_chain s \<and> dst_sequence s' = dst_sequence s \<and> dst_epoch s' = dst_epoch s \<and>
    (\<forall>key. suffix (decisions_of s key) (decisions_of s' key)) \<and>
    unat (dst_incarnation s') = unat (dst_incarnation s) + 1"
proof -
  note inv = store_run_inv [OF assms(1)]
  obtain j rs where j: "journal_run j" "jnl_records j = jnl_records (dst_journal s) @ rs"
    "jnl_options j = sto_journal (dst_options s)" "history (dst_options s) (jnl_records j)"
    "replay (jnl_records j) = replay (jnl_records (dst_journal s))"
    "boot_mark (jnl_records j) = boot_mark (jnl_records (dst_journal s))" "bytes = fw_bytes (jnl_writer j)"
    by (rule store_file_journal [OF assms(2) inv])
  have n: "header_bytes \<le> length bytes" using journal_run_file [OF j(1)] by (simp add: j(7))
  have "store_open d (dst_options s) made (Some (take (length bytes) (fw_bytes (jnl_writer j)))) rewritten now pid = Inr s'"
    using assms(3) by (simp add: j(7))
  from store_open_again [OF j(1) n j(4,3) this assms(4)] j(5-7)
  have view: "store_view s' = (replay (jnl_records (dst_journal s)))\<lparr>dst_incarnation := dst_incarnation s'\<rparr>"
    and inc: "unat (dst_incarnation s') = unat (boot_mark (jnl_records (dst_journal s))) + 1"
    by auto
  have m: "store_matches s (replay (jnl_records (dst_journal s)))" "boot_mark (jnl_records (dst_journal s)) = dst_incarnation s"
    using inv by (simp_all add: store_inv_def Let_def)
  have "decisions_of s' key = decisions_of (replay (jnl_records (dst_journal s))) key" for key
    using arg_cong [OF view, of "\<lambda>v. decisions_of v key"] by simp
  with m inc arg_cong [OF view, of dst_campaigns] arg_cong [OF view, of dst_attempts] arg_cong [OF view, of dst_policies]
    arg_cong [OF view, of dst_tickets] arg_cong [OF view, of dst_provenance] arg_cong [OF view, of dst_chain]
    arg_cong [OF view, of dst_sequence] arg_cong [OF view, of dst_epoch]
  show ?thesis by (simp add: store_matches_def)
qed

text \<open>
  C25: after a crash the store is in a state it went through.  Opening any prefix of a store's file, with or
  without the authorised repair, gives the replay of the first records of its history, and its ledger verifies.
\<close>

theorem store_crash_prefix:
  assumes "store_run s" "header_bytes \<le> n"
    "store_open d (dst_options s) made (Some (take n (fw_bytes (jnl_writer (dst_journal s))))) rewritten now pid = Inr s'"
    "store_fits s'"
  shows "\<exists>m. store_view s' = (replay (take m (jnl_records (dst_journal s))))\<lparr>dst_incarnation := dst_incarnation s'\<rparr> \<and>
    lv_valid (verify_ledger (dst_provenance s'))"
proof -
  have i: "journal_run (dst_journal s)" "history (dst_options s) (jnl_records (dst_journal s))"
    "jnl_options (dst_journal s) = sto_journal (dst_options s)"
    using store_run_inv [OF assms(1)] by (simp_all add: store_inv_def Let_def)
  from store_open_again [OF i(1) assms(2) i(2,3) assms(3,4)] store_inv_tables(6) [of s']
  show ?thesis by (auto simp: verify_ledger_iff)
qed

text \<open>
  C26: the provenance ledger of a store always verifies, its head and its sequence number are exactly those of its
  last record (the empty digest and zero when there is none), no record has a larger sequence number, and every
  campaign and attempt stands under its own identifier.
\<close>

theorem store_ledger_verifies:
  assumes "store_run s"
  shows "lv_valid (verify_ledger (dst_provenance s)) \<and> dst_chain s = chain_head [] (dst_provenance s) \<and>
    dst_sequence s = (if dst_provenance s = [] then 0 else prov_sequence (last (dst_provenance s))) \<and>
    (\<forall>p \<in> set (dst_provenance s). prov_sequence p \<le> dst_sequence s) \<and>
    (\<forall>(k, c) \<in> set (dst_campaigns s). k = cmp_id c) \<and> (\<forall>(k, a) \<in> set (dst_attempts s). k = att_id a)"
  using store_inv_tables [OF store_run_inv [OF assms]] by (auto simp: verify_ledger_iff ledger_sequence_def)

text \<open>
  C27: the number of campaigns, attempts and ledger records of a store never exceeds the configured bounds,
  across restarts and compactions.
\<close>

theorem store_bounds_kept:
  assumes "store_run s"
  shows "length (dst_campaigns s) \<le> sto_max_campaigns (dst_options s) \<and>
    length (dst_attempts s) \<le> sto_max_attempts (dst_options s) \<and>
    length (dst_provenance s) \<le> sto_max_provenance (dst_options s)"
  using store_inv_tables(9) [OF store_run_inv [OF assms]] by (simp add: store_within_def)

text \<open>
  C28: what compaction keeps.  A compaction that succeeds keeps every campaign (its skew assessment apart),
  every attempt, the ledger, the epoch and the incarnation, and loses every decision, policy and
  preflight ticket; the compacted journal starts from the empty chain, not from the head of the old one.
\<close>

theorem compact_contents:
  assumes "store_run s" "compact d s t now leftover replaced = (Inr (), s')"
    "leftover = None \<or> leftover = Some []" "snapshot_fits s t now"
  shows "(\<forall>key. table_get (dst_campaigns s') key = map_option campaign_loaded (table_get (dst_campaigns s) key) \<and>
      table_get (dst_attempts s') key = table_get (dst_attempts s) key \<and>
      store_decisions s' key = None \<and> store_policy s' key = None \<and> store_ticket s' key = None) \<and>
    dst_provenance s' = dst_provenance s \<and> dst_chain s' = dst_chain s \<and> dst_sequence s' = dst_sequence s \<and>
    dst_epoch s' = dst_epoch s \<and> dst_incarnation s' = dst_incarnation s \<and>
    jrc_previous (hd (jnl_records (dst_journal s'))) = []"
proof -
  note inv = store_run_inv [OF assms(1)]
  note t = store_inv_tables [OF inv]
  from compact_inv [OF inv assms(2-4)]
  have view: "store_view s' = (new_store blank_options empty_journal)\<lparr>dst_campaigns := compacted_campaigns s,
      dst_attempts := sort_key fst (dst_attempts s), dst_provenance := dst_provenance s, dst_chain := dst_chain s,
      dst_sequence := dst_sequence s, dst_epoch := dst_epoch s, dst_incarnation := dst_incarnation s\<rparr>"
    and prev: "jrc_previous (hd (jnl_records (dst_journal s'))) = []" by auto
  have "table_get (compacted_campaigns s) key = map_option campaign_loaded (table_get (dst_campaigns s) key)" for key
    using t(1) by (simp add: compacted_campaigns_def table_get_map) (simp add: table_get_def table_ok_def map_of_sort_key)
  moreover have "table_get (sort_key fst (dst_attempts s)) key = table_get (dst_attempts s) key" for key
    using t(3) by (simp add: table_get_def table_ok_def map_of_sort_key)
  moreover have "dst_campaigns s' = compacted_campaigns s" "dst_attempts s' = sort_key fst (dst_attempts s)"
    "dst_policies s' = []" "dst_tickets s' = []" "dst_decisions s' = []" "dst_provenance s' = dst_provenance s"
    "dst_chain s' = dst_chain s" "dst_sequence s' = dst_sequence s" "dst_epoch s' = dst_epoch s"
    "dst_incarnation s' = dst_incarnation s"
    using arg_cong [OF view, of dst_campaigns] arg_cong [OF view, of dst_attempts]
    arg_cong [OF view, of dst_policies] arg_cong [OF view, of dst_tickets] arg_cong [OF view, of dst_provenance]
    arg_cong [OF view, of dst_chain] arg_cong [OF view, of dst_sequence] arg_cong [OF view, of dst_epoch]
    arg_cong [OF view, of dst_decisions] arg_cong [OF view, of dst_incarnation]
    by (simp_all add: new_store_def)
  ultimately show ?thesis
    using prev by (simp add: store_decisions_def store_policy_def store_ticket_def) (simp add: table_get_def)
qed

subsection \<open>A store with room\<close>

lemma append_escaped_bound: "length (append_escaped t) \<le> length (append_escaped []) + 6 * length t"
proof -
  have "length (escape_char c) \<le> 6" for c by (simp add: escape_char_def)
  then have "length (concat (map escape_char t)) \<le> 6 * length t"
    by (induction t) (simp_all add: add_mono)
  then show ?thesis by (simp add: append_escaped_def)
qed

lemma record_body_chain:
  "length (record_body q k t chain data) \<le> length (record_body q k t [] data) + 6 * length chain"
  using append_escaped_bound [of chain]
  by (simp add: record_body_json json_dump_def record_json_def member_text_def json_pad_def)

lemma last_chain_length:
  "records_follow opts chain ls first rs \<Longrightarrow> length chain \<le> 64 \<Longrightarrow> length (last_chain chain rs) \<le> 64"
proof (induction rs arbitrary: chain ls first)
  case (Cons r rs)
  then have "length (jrc_chain r) \<le> 64"
    by (auto simp: record_follows_def Let_def digest_of_text_def length_sha256_hex)
  with Cons have "length (last_chain (jrc_chain r) rs) \<le> 64" by auto
  then show ?case by (simp add: last_chain_def split: if_splits)
qed (simp add: last_chain_def)

definition roomy :: "journal \<Rightarrow> nat \<Rightarrow> bool" where
  "roomy j n \<longleftrightarrow> journal_run j \<and> jnl_options j = default_journal_options \<and> length (jnl_records j) = n \<and>
     jnl_last_sequence j = word_of_nat n \<and> length (fw_bytes (jnl_writer j)) \<le> 24 + 9000 * n"

lemma roomy_append:
  assumes "roomy j n" "n \<le> 100" "length (record_body (word_of_nat n + 1) k t [] data) \<le> 8000" "data_fits data" "ts_ok t"
  obtains j' where "journal_append Disk_ok j k data t = (Inr (), j')" "roomy j' (n + 1)"
    "jnl_records j' = jnl_records j @ [next_record j k data t]"
proof -
  have run: "journal_run j" and o: "jnl_options j = default_journal_options" and c: "length (jnl_records j) = n"
    and q: "jnl_last_sequence j = word_of_nat n" and len: "length (fw_bytes (jnl_writer j)) \<le> 24 + 9000 * n"
    using assms(1) by (simp_all add: roomy_def)
  note w = journal_run_wf [OF run, unfolded journal_wf_def]
  have chain: "length (jnl_chain j) \<le> 64" using w last_chain_length [of _ "[]"] by auto
  then have body: "length (record_body (jnl_last_sequence j + 1) k t (jnl_chain j) data) \<le> 8400"
    using record_body_chain [of "jnl_last_sequence j + 1" k t "jnl_chain j" data] assms(3) by (simp add: q)
  then have frame: "length (record_frame (jnl_chain j) (next_record j k data t)) \<le> 8444"
    by (simp add: next_record_frame Let_def frame_bytes_def record_magic_def length_sha256)
  have "unat (jnl_last_sequence j) = n" using assms(2) by (simp add: q unat_of_nat take_bit_nat_eq_self)
  then have q': "jnl_last_sequence j \<noteq> u64_max" using assms(2) by auto
  have "\<exists>j'. journal_append Disk_ok j k data t = (Inr (), j')"
  proof -
    have "length (fw_bytes (jnl_writer j)) + length (record_frame (jnl_chain j) (next_record j k data t)) \<le> 924024 + 8444"
      using len frame assms(2) by linarith
    then have "length (fw_bytes (jnl_writer j)) + length (record_frame (jnl_chain j) (next_record j k data t))
        \<le> unat (jop_max_file_bytes (jnl_options j))" by (simp add: o default_journal_options_def)
    then show ?thesis
      using append_healthy(2) [of j k t data] w q' body c assms(2) by (auto simp: o default_journal_options_def)
  qed
  then obtain j' where j': "journal_append Disk_ok j k data t = (Inr (), j')" by blast
  have small: "payload_small j k data t" using body by (simp add: payload_small_def)
  from write_record_wf [OF journal_run_wf [OF run] j' [unfolded journal_append_def] assms(4,5) small]
  have r: "jnl_records j' = jnl_records j @ [next_record j k data t]" "jnl_options j' = jnl_options j" "journal_wf j'"
    by auto
  have run': "journal_run j'" by (rule journal_run.appended [OF run j' assms(4,5) small])
  have "length (frames [] (jnl_records j')) = length (frames [] (jnl_records j)) +
      length (record_frame (jnl_chain j) (next_record j k data t))"
    using w by (simp add: r(1) frames_append)
  then have "length (fw_bytes (jnl_writer j')) \<le> 24 + 9000 * (n + 1)"
    using journal_run_file [OF run] journal_run_file [OF run'] len frame by simp
  moreover have "jnl_last_sequence j' = word_of_nat (n + 1)"
    using r(3) by (simp add: journal_wf_def r(1) last_seq_def next_record_def Let_def q add.commute)
  ultimately have "roomy j' (n + 1)" using run' r(1,2) o c by (simp add: roomy_def)
  with that j' r(1) show thesis by blast
qed

definition shutdown_payload :: json where
  "shutdown_payload = json_build [(''reason'', JString ''clean shutdown'')]"

lemma roomy_close:
  assumes "roomy j n" "n \<le> 100" "length (record_body (word_of_nat n + 1) JT_shutdown t [] shutdown_payload) \<le> 8000" "ts_ok t"
  obtains j1 j2 where "journal_append Disk_ok j JT_shutdown shutdown_payload t = (Inr (), j1)" "roomy j1 (n + 1)"
    "journal_close Disk_ok j t = (Inr (), j2)" "fw_bytes (jnl_writer j2) = fw_bytes (jnl_writer j1)"
    "jnl_records j1 = jnl_records j @ [next_record j JT_shutdown shutdown_payload t]"
proof -
  have fits: "data_fits shutdown_payload" by (simp add: data_fits_def shutdown_payload_def json_build_eq)
  obtain j1 where j1: "journal_append Disk_ok j JT_shutdown shutdown_payload t = (Inr (), j1)" "roomy j1 (n + 1)"
    "jnl_records j1 = jnl_records j @ [next_record j JT_shutdown shutdown_payload t]"
    by (rule roomy_append [OF assms(1-3) fits assms(4)])
  have j: "jnl_open j" "\<not> jnl_tail_damaged j"
    using assms(1) journal_run_wf [of j] by (auto simp: roomy_def journal_wf_def)
  then have "write_record Disk_ok j JT_shutdown shutdown_payload t True = (Inr (), j1)"
    using j1(1) by (simp add: journal_append_def write_record_def)
  moreover have "fw_open (jnl_writer j1)"
    using j1(2) journal_run_wf [of j1] by (auto simp: roomy_def journal_wf_def)
  ultimately obtain j2 where "journal_close Disk_ok j t = (Inr (), j2)" "fw_bytes (jnl_writer j2) = fw_bytes (jnl_writer j1)"
    using j by (auto simp: journal_close_def Let_def shutdown_payload_def [symmetric] writer_sync_def writer_flush_def
        writer_close_def)
  with that j1 show thesis by blast
qed

text \<open>A journal that has room opens again, with all its records.\<close>

lemma roomy_open:
  assumes "roomy j n"
  obtains j' where "journal_open d path default_journal_options (Some (fw_bytes (jnl_writer j))) now = Inr j'"
    "roomy j' n" "jnl_records j' = map record_norm (jnl_records j)" "jnl_chain j' = jnl_chain j"
    "\<not> rcv_truncated_tail (jnl_recovery j')"
proof -
  have run: "journal_run j" and o: "jnl_options j = default_journal_options" using assms by (simp_all add: roomy_def)
  note wf = journal_run_wf [OF run]
  let ?n = "length (fw_bytes (jnl_writer j))"
  have n: "header_bytes \<le> ?n" "length (frames [] (jnl_records j)) \<le> ?n - header_bytes"
    using journal_run_file [OF run] by simp_all
  from journal_open_cut [OF wf n(1), of d path now] obtain j' where
    op: "journal_open d path (jnl_options j) (Some (take ?n (fw_bytes (jnl_writer j)))) now = Inr j'" and
    j': "jnl_records j' = map record_norm (jnl_records j)" "\<not> jnl_tail_damaged j'"
      "rcv_truncated_tail (jnl_recovery j') = jnl_tail_damaged j'" "jnl_options j' = jnl_options j"
      "jnl_chain j' = last_chain [] (jnl_records j)" "jnl_last_sequence j' = last_seq 0 (jnl_records j)"
      "fw_bytes (jnl_writer j') = fw_bytes (jnl_writer j)"
    by (auto simp: whole_frames_all [OF n(2)] torn_whole [OF n(2)])
  have "journal_run j'" by (rule journal_run.restarted [OF run n(1) op j'(2)])
  with op j' o wf assms show thesis by (intro that [of j']) (auto simp: roomy_def journal_wf_def)
qed

definition boot_payload :: "u64 \<Rightarrow> string \<Rightarrow> json" where
  "boot_payload i pid = json_build [(''incarnation'', JUint i), (''pid'', JString pid)]"

lemma next_record_fits:
  assumes "roomy j n" "length (record_body (word_of_nat n + 1) k t [] data) \<le> 8000" "data_fits data" "ts_ok t"
  shows "record_fits (next_record j k data t)"
proof -
  have chain: "length (jnl_chain j) \<le> 64"
    using assms(1) journal_run_wf [of j] last_chain_length [of _ "[]"] by (auto simp: roomy_def journal_wf_def)
  have q: "jnl_last_sequence j = word_of_nat n" using assms(1) by (simp add: roomy_def)
  show ?thesis
    using assms(2-4) record_body_chain [of "jnl_last_sequence j + 1" k t "jnl_chain j" data] chain
    by (simp add: record_fits_def next_record_def Let_def q)
qed

lemma roomy_boot:
  assumes j: "roomy j n" "n \<le> 100" "list_all record_fits (jnl_records j)"
    and body: "length (record_body (word_of_nat n + 1) JT_boot t [] (boot_payload (i + 1) pid)) \<le> 8000" and t: "ts_ok t"
    and i: "rcv_last_boot_incarnation (jnl_recovery j) = i" "i \<noteq> u64_max"
  obtains s where "store_boot Disk_ok opts j t pid = Inr s" "roomy (dst_journal s) (n + 1)" "store_fits s"
    "dst_options s = opts"
    "jnl_records (dst_journal s) = jnl_records j @ [next_record j JT_boot (boot_payload (i + 1) pid) t]"
proof -
  have fits: "data_fits (boot_payload (i + 1) pid)" by (simp add: data_fits_def boot_payload_def json_build_eq)
  obtain j' where j': "journal_append Disk_ok j JT_boot (boot_payload (i + 1) pid) t = (Inr (), j')" "roomy j' (n + 1)"
    "jnl_records j' = jnl_records j @ [next_record j JT_boot (boot_payload (i + 1) pid) t]"
    by (rule roomy_append [OF j(1,2) body fits t])
  have jn: "dst_journal (new_store opts j) = j" "dst_options (new_store opts j) = opts"
    by (simp_all add: new_store_def)
  have inc: "rcv_last_boot_incarnation (dst_recovery (recover (new_store opts j))) = i"
    by (simp add: recover_def Let_def rebuild_stats_def recovery_report_of_def cleared_def jn i(1))
  let ?s = "(recover (new_store opts j))\<lparr>dst_journal := j', dst_incarnation := i + 1,
    dst_stats := (dst_stats (recover (new_store opts j)))\<lparr>sts_incarnation := i + 1\<rparr>\<rparr>"
  have "store_boot Disk_ok opts j t pid = Inr ?s"
    using i(2) j'(1) by (simp add: store_boot_def Let_def inc jn counter_try_next_def boot_payload_def)
  moreover have "store_fits ?s"
    using j(3) next_record_fits [OF j(1) body fits t] by (simp add: store_fits_def j'(3))
  ultimately show thesis using that [of ?s] j' jn by simp
qed

subsection \<open>Witnesses\<close>

definition sample_options :: store_options where
  "sample_options = \<lparr>sto_directory = ''d'', sto_journal = default_journal_options, sto_max_campaigns = 4096,
     sto_max_attempts = 262144, sto_max_provenance = 100000, sto_max_decisions = 512, sto_repair = False\<rparr>"

definition blank_journal :: "string \<Rightarrow> journal" where
  "blank_journal path = sample_empty\<lparr>jnl_path := path, jnl_writer := (jnl_writer sample_empty)\<lparr>fw_path := path\<rparr>\<rparr>"

lemma blank_journal_opened:
  "journal_open Disk_ok path default_journal_options None 0 = Inr (blank_journal path)"
  by (simp add: journal_open_def journal_options_validate_def default_journal_options_def check_header_def
      header_bytes_def replay_loop_stops writer_open_append_def writer_append_def disk_accepts_def
      writer_sync_def writer_flush_def add_u64_def length_file_header sample_empty_def blank_journal_def)

lemma blank_journal_roomy: "roomy (blank_journal path) 0"
proof -
  have "journal_run (blank_journal path)"
    by (rule journal_run.created [OF blank_journal_opened]) (simp_all add: default_options_ok)
  then show ?thesis
    by (simp add: roomy_def blank_journal_def sample_empty_def length_file_header header_bytes_def)
qed

lemma sample_bodies:
  "length (record_body 1 JT_boot 0 [] (boot_payload 1 ''1'')) \<le> 8000"
  "length (record_body 2 JT_boot 0 [] (boot_payload 2 ''1'')) \<le> 8000"
  "length (record_body 2 JT_shutdown 0 [] shutdown_payload) \<le> 8000"
  by code_simp+

definition sample_store :: durable_store where
  "sample_store = the_value (store_boot Disk_ok sample_options (blank_journal ''d/journal.fum'') 0 ''1'')
     (new_store sample_options empty_journal)"

lemma sample_boot_mark [simp]: "rcv_last_boot_incarnation (jnl_recovery (blank_journal path)) = 0"
  by (simp add: blank_journal_def sample_empty_def recovery_of_def)

lemma sample_store_booted:
  "store_boot Disk_ok sample_options (blank_journal ''d/journal.fum'') 0 ''1'' = Inr sample_store"
  "roomy (dst_journal sample_store) 1" "store_fits sample_store" "dst_options sample_store = sample_options"
  "jnl_records (dst_journal sample_store) =
     [next_record (blank_journal ''d/journal.fum'') JT_boot (boot_payload 1 ''1'') 0]"
proof -
  have body: "length (record_body (word_of_nat 0 + 1) JT_boot 0 [] (boot_payload (0 + 1) ''1'')) \<le> 8000"
    using sample_bodies(1) by simp
  have recs: "jnl_records (blank_journal path) = []" for path by (simp add: blank_journal_def sample_empty_def)
  obtain s where "store_boot Disk_ok sample_options (blank_journal ''d/journal.fum'') 0 ''1'' = Inr s"
    "roomy (dst_journal s) (0 + 1)" "store_fits s" "dst_options s = sample_options"
    "jnl_records (dst_journal s) = jnl_records (blank_journal ''d/journal.fum'') @
      [next_record (blank_journal ''d/journal.fum'') JT_boot (boot_payload (0 + 1) ''1'') 0]"
    by (rule roomy_boot [OF blank_journal_roomy _ _ body]) (simp_all add: recs)
  then show "store_boot Disk_ok sample_options (blank_journal ''d/journal.fum'') 0 ''1'' = Inr sample_store"
    "roomy (dst_journal sample_store) 1" "store_fits sample_store" "dst_options sample_store = sample_options"
    "jnl_records (dst_journal sample_store) =
       [next_record (blank_journal ''d/journal.fum'') JT_boot (boot_payload 1 ''1'') 0]"
    by (simp_all add: sample_store_def recs)
qed

lemma sample_store_open:
  "store_open Disk_ok sample_options ok_status None ok_status 0 ''1'' = Inr sample_store"
proof -
  have v: "store_options_validate sample_options = ok_status"
    by (simp add: store_options_validate_def sample_options_def)
  have p: "fs_join (sto_directory sample_options) ''journal.fum'' = ''d/journal.fum''"
    by (simp add: sample_options_def fs_join_def)
  have o: "sto_journal sample_options = default_journal_options" by (simp add: sample_options_def)
  have "\<not> rcv_truncated_tail (jnl_recovery (blank_journal path))" for path
    by (simp add: blank_journal_def sample_empty_def recovery_of_simps)
  then show ?thesis
    by (simp add: store_open_def v Let_def p o blank_journal_opened repair_undamaged sample_store_booted(1))
qed

lemma sample_store_run: "store_run sample_store"
  by (rule store_run.created [OF sample_store_open])
    (simp_all add: sample_store_booted sample_options_def default_options_ok)

lemma sample_store_boot_mark: "boot_mark (jnl_records (dst_journal sample_store)) = 1"
proof -
  have "boot_mark ([] @ [next_record (blank_journal ''d/journal.fum'') JT_boot (boot_payload 1 ''1'') 0]) = 1"
    by (rule boot_mark_boot) (simp_all add: next_record_def Let_def boot_payload_def)
  then show ?thesis by (simp add: sample_store_booted)
qed

lemma sample_store_reopened:
  obtains s' where "store_open Disk_ok sample_options ok_status
      (Some (fw_bytes (jnl_writer (dst_journal sample_store)))) ok_status 0 ''1'' = Inr s'" "store_fits s'"
proof -
  let ?p = "''d/journal.fum''"
  obtain j where j: "journal_open Disk_ok ?p default_journal_options
      (Some (fw_bytes (jnl_writer (dst_journal sample_store)))) 0 = Inr j" "roomy j 1"
    "jnl_records j = map record_norm (jnl_records (dst_journal sample_store))" "\<not> rcv_truncated_tail (jnl_recovery j)"
    by (rule roomy_open [OF sample_store_booted(2)])
  have fits: "list_all record_fits (jnl_records j)"
    using sample_store_booted(3) by (simp add: j(3) store_fits_def list.pred_map comp_def record_fits_norm)
  have mark: "rcv_last_boot_incarnation (jnl_recovery j) = 1"
    using journal_open_scan(2) [OF j(1)] sample_store_boot_mark by (simp add: j(3) boot_mark_norm)
  have body: "length (record_body (word_of_nat 1 + 1) JT_boot 0 [] (boot_payload (1 + 1) ''1'')) \<le> 8000"
    using sample_bodies(2) by simp
  obtain s' where s': "store_boot Disk_ok sample_options j 0 ''1'' = Inr s'" "store_fits s'"
    by (rule roomy_boot [OF j(2) _ fits body _ mark, of sample_options]) simp_all
  have v: "store_options_validate sample_options = ok_status"
    by (simp add: store_options_validate_def sample_options_def)
  have p: "fs_join (sto_directory sample_options) ''journal.fum'' = ?p"
    by (simp add: sample_options_def fs_join_def)
  have o: "sto_journal sample_options = default_journal_options" by (simp add: sample_options_def)
  from s' that [of s'] show thesis
    by (simp add: store_open_def v Let_def p o j(1) repair_undamaged [OF j(4)])
qed

theorem store_restart_witness:
  "\<exists>s'. store_open Disk_ok sample_options ok_status
      (Some (fw_bytes (jnl_writer (dst_journal sample_store)))) ok_status 0 ''1'' = Inr s' \<and>
    unat (dst_incarnation s') = unat (dst_incarnation sample_store) + 1"
proof -
  obtain s' where s': "store_open Disk_ok sample_options ok_status
      (Some (fw_bytes (jnl_writer (dst_journal sample_store)))) ok_status 0 ''1'' = Inr s'" "store_fits s'"
    by (rule sample_store_reopened)
  from store_restart [OF sample_store_run store_file.running s'(1) [folded sample_store_booted(4)] s'(2)] s'(1)
  show ?thesis by blast
qed

theorem store_crash_prefix_witness:
  "\<exists>n s'. store_open Disk_ok sample_options ok_status
      (Some (take n (fw_bytes (jnl_writer (dst_journal sample_store))))) ok_status 0 ''1'' = Inr s' \<and>
    lv_valid (verify_ledger (dst_provenance s'))"
proof -
  let ?b = "fw_bytes (jnl_writer (dst_journal sample_store))"
  obtain s' where s': "store_open Disk_ok sample_options ok_status (Some ?b) ok_status 0 ''1'' = Inr s'" "store_fits s'"
    by (rule sample_store_reopened)
  have n: "header_bytes \<le> length ?b"
    using journal_run_file [of "dst_journal sample_store"] sample_store_booted(2) by (simp add: roomy_def)
  have "store_open Disk_ok sample_options ok_status (Some (take (length ?b) ?b)) ok_status 0 ''1'' = Inr s'"
    using s'(1) by simp
  with store_crash_prefix [OF sample_store_run n this [folded sample_store_booted(4)] s'(2)] show ?thesis by blast
qed

theorem store_ledger_verifies_witness: "lv_valid (verify_ledger (dst_provenance sample_store))"
  using store_ledger_verifies [OF sample_store_run] by simp

theorem store_bounds_kept_witness: "length (dst_campaigns sample_store) \<le> 4096"
  using store_bounds_kept [OF sample_store_run] by (simp add: sample_store_booted(4) sample_options_def)

lemma sample_store_fields:
  "dst_campaigns sample_store = []" "dst_attempts sample_store = []" "dst_provenance sample_store = []"
  "dst_chain sample_store = []" "dst_sequence sample_store = 0" "dst_epoch sample_store = 1"
  "dst_incarnation sample_store = 1"
proof -
  let ?j = "blank_journal ''d/journal.fum''"
  have j: "jnl_records ?j = []" "jnl_options ?j = sto_journal sample_options"
    by (simp_all add: blank_journal_def sample_empty_def sample_options_def)
  have v: "store_options_validate sample_options = ok_status"
    by (simp add: store_options_validate_def sample_options_def)
  have run: "journal_run ?j" using blank_journal_roomy by (simp add: roomy_def)
  have mark: "boot_mark [] = 0" by (simp add: boot_mark_def)
  from store_boot_inv [OF run j(2) _ _ _ v sample_store_booted(1,3)] journal_open_scan [OF blank_journal_opened] mark
  have "store_view sample_store = (replay [])\<lparr>dst_incarnation := dst_incarnation sample_store\<rparr>"
    and i: "store_inv sample_store" by (simp_all add: j history_Nil)
  then have view: "store_view sample_store = (new_store blank_options empty_journal)\<lparr>dst_incarnation := dst_incarnation sample_store\<rparr>"
    by (simp add: replay_Nil)
  show "dst_campaigns sample_store = []" "dst_attempts sample_store = []" "dst_provenance sample_store = []"
    "dst_chain sample_store = []" "dst_sequence sample_store = 0" "dst_epoch sample_store = 1"
    using arg_cong [OF view, of dst_campaigns] arg_cong [OF view, of dst_attempts] arg_cong [OF view, of dst_provenance]
      arg_cong [OF view, of dst_chain] arg_cong [OF view, of dst_sequence] arg_cong [OF view, of dst_epoch]
    by (simp_all add: new_store_def)
  show "dst_incarnation sample_store = 1"
    using i sample_store_boot_mark by (simp add: store_inv_def Let_def)
qed

definition sample_snapshot :: json where
  "sample_snapshot = json_build
     [(''campaigns'', JArray []), (''attempts'', JArray []), (''provenance'', JArray []),
      (''provenance_chain'', JString []), (''provenance_sequence'', JUint 0), (''epoch'', JUint 1),
      (''incarnation'', JUint 1)]"

lemma sample_snapshot_payload: "snapshot_payload sample_store = sample_snapshot"
  by (simp add: snapshot_payload_def sample_snapshot_def sample_store_fields)

lemma sample_snapshot_body: "length (record_body 1 JT_snapshot 0 [] sample_snapshot) \<le> 8000"
  by code_simp

lemma sample_snapshot_data: "data_fits sample_snapshot"
  by (simp add: data_fits_def sample_snapshot_def json_build_eq)

lemma sample_snapshot_fits: "snapshot_fits sample_store 0 0"
proof -
  let ?chain = "digest_of_text (''|'' @ record_body 1 JT_snapshot 0 [] sample_snapshot)"
  have "length (record_body 2 JT_shutdown 0 ?chain shutdown_payload) \<le> 8000 + 6 * 64"
    using record_body_chain [of 2 JT_shutdown 0 ?chain shutdown_payload] sample_bodies(3)
    by (simp add: digest_of_text_def length_sha256_hex)
  then show ?thesis
    using sample_snapshot_body sample_snapshot_data
    by (simp add: snapshot_fits_def sample_snapshot_payload Let_def shutdown_payload_def)
qed

lemma sample_compacted:
  obtains s' where "compact Disk_ok sample_store 0 0 None ok_status = (Inr (), s')"
proof -
  let ?j0 = "blank_journal ''d/journal.compact''"
  have body0: "length (record_body (word_of_nat 0 + 1) JT_snapshot 0 [] sample_snapshot) \<le> 8000"
    using sample_snapshot_body by simp
  have body1: "length (record_body (word_of_nat 1 + 1) JT_shutdown 0 [] shutdown_payload) \<le> 8000"
    using sample_bodies(3) by simp
  obtain j1 where j1: "journal_append Disk_ok ?j0 JT_snapshot sample_snapshot 0 = (Inr (), j1)" "roomy j1 (0 + 1)"
    by (rule roomy_append [OF blank_journal_roomy _ body0 sample_snapshot_data]) simp_all
  obtain j4 j2 where j2: "journal_close Disk_ok j1 0 = (Inr (), j2)" "roomy j4 (1 + 1)"
    "fw_bytes (jnl_writer j2) = fw_bytes (jnl_writer j4)"
    by (rule roomy_close [OF j1(2) [unfolded add_0] _ body1]) simp_all
  obtain js where js: "journal_close Disk_ok (dst_journal sample_store) 0 = (Inr (), js)"
    by (rule roomy_close [OF sample_store_booted(2) _ body1]) simp_all
  obtain j3 where j3: "journal_open Disk_ok (jnl_path (dst_journal sample_store)) default_journal_options
      (Some (fw_bytes (jnl_writer j4))) 0 = Inr j3"
    by (rule roomy_open [OF j2(2)])
  have o: "sto_journal sample_options = default_journal_options" "sto_directory sample_options = ''d''"
    by (simp_all add: sample_options_def)
  have p: "fs_join ''d'' ''journal.compact'' = ''d/journal.compact''" by (simp add: fs_join_def)
  have "fw_open (jnl_writer j1)"
    using j1(2) journal_run_wf [of j1] by (auto simp: roomy_def journal_wf_def)
  then have sync: "journal_sync Disk_ok j1 = ok_status"
    by (simp add: journal_sync_def writer_sync_def writer_flush_def)
  show thesis
    by (rule that [of "recover (sample_store\<lparr>dst_journal := j3\<rparr>)"])
      (simp add: compact_def Let_def sample_store_booted(4) o p blank_journal_opened sample_snapshot_payload
        j1(1) sync j2 js j3)
qed

theorem compact_contents_witness:
  "\<exists>s'. compact Disk_ok sample_store 0 0 None ok_status = (Inr (), s') \<and> dst_incarnation s' = 1 \<and>
    store_policy s' ''p'' = None"
proof -
  obtain s' where s': "compact Disk_ok sample_store 0 0 None ok_status = (Inr (), s')"
    by (rule sample_compacted)
  from compact_contents [OF sample_store_run s' _ sample_snapshot_fits] s' show ?thesis
    by (simp add: sample_store_fields)
qed

subsection \<open>Refused operations\<close>

lemma append_then_refused:
  "append_then d s k payload t f = (Inl e, s') \<Longrightarrow> \<exists>j. s' = s\<lparr>dst_journal := j\<rparr>"
  by (auto simp: append_then_def split: prod.splits sum.splits)

lemma store_view_journal: "store_view (s\<lparr>dst_journal := j\<rparr>) = store_view s"
  by (simp add: store_view_def)

text \<open>
  C29: the memory never runs ahead of the journal.  An operation that is refused, by a bound, by the epoch
  fence, by the journal or by the disk, leaves every table as it was; only \<open>append_decision\<close> does not: at its
  bound it has already dropped the oldest decision of the campaign when the append fails.
\<close>

theorem store_refused_operations:
  "(put_campaign d s c t = (Inl e, s') \<or> put_attempt d s a t = (Inl e, s') \<or>
    append_provenance d s p t = (Inl e, q, s') \<or> put_ticket d s k t = (Inl e, s') \<or>
    put_policy d s y t = (Inl e, s') \<or> set_epoch d s i t = (Inl e, s') \<or> store_note d s key v t = (Inl e, s') \<longrightarrow>
      store_view s' = store_view s) \<and>
   (append_decision d s x t = (Inl e, s') \<longrightarrow>
      decisions_of s' (dec_campaign x) =
        (if length (decisions_of s (dec_campaign x)) \<ge> sto_max_decisions (dst_options s)
         then tl (decisions_of s (dec_campaign x)) else decisions_of s (dec_campaign x)) \<and>
      (\<forall>cid. cid \<noteq> dec_campaign x \<longrightarrow> decisions_of s' cid = decisions_of s cid))"
proof (intro conjI impI)
  assume "put_campaign d s c t = (Inl e, s') \<or> put_attempt d s a t = (Inl e, s') \<or>
    append_provenance d s p t = (Inl e, q, s') \<or> put_ticket d s k t = (Inl e, s') \<or>
    put_policy d s y t = (Inl e, s') \<or> set_epoch d s i t = (Inl e, s') \<or> store_note d s key v t = (Inl e, s')"
  then show "store_view s' = store_view s"
    by (elim disjE)
      (auto simp: put_campaign_def put_attempt_def append_provenance_def put_ticket_def put_policy_def set_epoch_def
        store_note_def store_view_journal Let_def dest!: append_then_refused split: sum.splits if_splits prod.splits)
next
  let ?k = "dec_campaign x"
  let ?kept = "if length (decisions_of s ?k) \<ge> sto_max_decisions (dst_options s)
    then tl (decisions_of s ?k) else decisions_of s ?k"
  assume "append_decision d s x t = (Inl e, s')"
  then obtain j where "s' = s\<lparr>dst_decisions := table_put (dst_decisions s) ?k ?kept, dst_journal := j\<rparr>"
    by (auto simp: append_decision_def Let_def dest!: append_then_refused)
  then have s': "decisions_of s' cid = (if cid = ?k then ?kept else decisions_of s cid)" for cid
    by (simp add: decisions_of_put) (simp add: decisions_of_def)
  show "decisions_of s' ?k = ?kept" by (simp add: s')
  show "\<forall>cid. cid \<noteq> ?k \<longrightarrow> decisions_of s' cid = decisions_of s cid" by (simp add: s')
qed

definition sample_decision :: decision where
  "sample_decision =
     \<lparr>dec_id = ''d1'', dec_kind = DK_admit, dec_outcome = DO_allow, dec_campaign = ''c'', dec_generation = 1,
      dec_authority = ''ops'', dec_incarnation = 1, dec_epoch = 1, dec_policy = ''p'', dec_policy_revision = 1,
      dec_inputs = [], dec_evidence = [], dec_selected = [], dec_rejected = [], dec_rationale = [], dec_at = 0\<rparr>"

definition sample_full_store :: durable_store where
  "sample_full_store = (new_store (sample_options\<lparr>sto_max_decisions := 1\<rparr>) empty_journal)
     \<lparr>dst_decisions := [(''c'', [sample_decision])]\<rparr>"

theorem store_refused_operations_witness:
  "store_view (snd (store_note Disk_ok sample_full_store ''k'' ''v'' 0)) = store_view sample_full_store \<and>
   decisions_of sample_full_store ''c'' = [sample_decision] \<and>
   decisions_of (snd (append_decision Disk_ok sample_full_store sample_decision 0)) ''c'' = []"
proof -
  have closed: "journal_append Disk_ok empty_journal k p 0 = (fail EC_closed ''journal is not open'' [], empty_journal)" for k p
    by (simp add: journal_append_def write_record_def empty_journal_def)
  have j: "dst_journal sample_full_store = empty_journal" by (simp add: sample_full_store_def new_store_def)
  obtain e s1 where n: "store_note Disk_ok sample_full_store ''k'' ''v'' 0 = (Inl e, s1)"
    by (simp add: store_note_def append_then_def j closed fail_def)
  obtain e2 s2 where a: "append_decision Disk_ok sample_full_store sample_decision 0 = (Inl e2, s2)"
    by (simp add: append_decision_def append_then_def j closed fail_def Let_def)
  have old: "decisions_of sample_full_store ''c'' = [sample_decision]"
    "sto_max_decisions (dst_options sample_full_store) = 1" "dec_campaign sample_decision = ''c''"
    by (simp_all add: sample_full_store_def new_store_def decisions_of_def table_get_def sample_decision_def)
  from store_refused_operations [of Disk_ok sample_full_store undefined 0 e s1]
    store_refused_operations [of Disk_ok sample_full_store undefined 0 e2 s2 _ _ _ _ _ _ _ _ sample_decision] n a old
  show ?thesis by simp
qed

end
