(* ===== verification/Engine_State.thy ===== *)
theory Engine_State
  imports Store_Runs Engine_Planner Engine_Preflight Engine_Verification Engine_Reconcile "HOL-Library.State_Monad"
begin

text \<open>
  The state of the engine (\<open>engine/engine.hpp\<close>) and the vocabulary of its operations.  An operation is a
  state transformer over the engine; the systems behind the ports, the clocks, the disk and the worker pool are
  functions over a world \<open>'w\<close> the engine carries along, so every call may answer differently from
  the one before.  An operation that can fail returns a result, and \<open>try_op\<close> is \<open>FUM_TRY\<close>.
  The diagnostics of the logger have no counterpart.
\<close>

subsection \<open>Ports\<close>

type_synonym ('w, 'a) call = "'w \<Rightarrow> 'a \<times> 'w"

record 'w adapter_port =
  adp_kind :: adapter_kind
  adp_claims :: adapter_claims
  adp_observe :: "target_id \<Rightarrow> timestamp \<Rightarrow> u64 \<Rightarrow> ('w, target_observation result) call"
  adp_prepare :: "target_operation \<Rightarrow> ('w, prepare_outcome result) call"
  adp_activate :: "target_operation \<Rightarrow> ('w, activate_outcome result) call"
  adp_verify :: "target_operation \<Rightarrow> ('w, verify_outcome result) call"
  adp_rollback :: "target_operation \<Rightarrow> ('w, rollback_outcome result) call"

record 'w drain_port =
  drp_acquire :: "drain_request \<Rightarrow> ('w, drain_ticket result) call"
  drp_release :: "drain_ticket \<Rightarrow> ('w, status) call"

text \<open>A port that is not integrated is \<open>None\<close>.\<close>

record 'w dependencies =
  dep_inventory :: "(timestamp \<Rightarrow> u64 \<Rightarrow> ('w, target_descriptor list result) call) option"
  dep_compatibility :: "(compatibility_query \<Rightarrow> ('w, compatibility_verdict result) call) option"
  dep_rollout :: "(rollout_request \<Rightarrow> ('w, rollout_admission result) call) option"
  dep_drain :: "'w drain_port option"
  dep_configuration :: "(configuration_delivery \<Rightarrow> ('w, status) call) option"
  dep_health :: "(target_id \<Rightarrow> timestamp \<Rightarrow> u64 \<Rightarrow> ('w, health_report result) call) option"
  dep_artifacts :: "(artifact_descriptor \<Rightarrow> ('w, artifact_payload result) call) option"
  dep_adapters :: "'w adapter_port adapter_registry"
  dep_clock :: "(('w, timestamp) call) option"

text \<open>What the engine reaches without a port: the system clock, the disk, files, the worker pool.\<close>

record 'w platform =
  plf_system_clock :: "('w, timestamp) call"
  plf_disk :: "('w, disk) call"
  plf_artifact_file :: "string \<Rightarrow> ('w, u64 result \<times> string option) call"
  plf_directory :: "string \<Rightarrow> ('w, status) call"
  plf_journal_file :: "string \<Rightarrow> ('w, string option) call"
  plf_rewrite :: "string \<Rightarrow> ('w, status) call"
  plf_submit :: "('w, status) call"
  plf_process_id :: string

subsection \<open>Configuration, work items and outcomes\<close>

datatype executor_kind = EX_deterministic_inline | EX_thread_pool

fun executor_kind_name :: "executor_kind \<Rightarrow> string" where
  "executor_kind_name EX_deterministic_inline = ''deterministic-inline''"
| "executor_kind_name EX_thread_pool = ''thread-pool''"

definition parse_executor_kind :: "string \<Rightarrow> executor_kind result" where
  "parse_executor_kind t =
     (if t = ''deterministic-inline'' then Inr EX_deterministic_inline
      else if t = ''thread-pool'' then Inr EX_thread_pool
      else fail EC_invalid_argument ''unknown executor kind'' t)"

record engine_config =
  cfg_store :: store_options
  cfg_policy :: policy
  cfg_executor :: executor_kind
  cfg_worker_threads :: nat
  cfg_max_queue :: nat
  cfg_max_work_items :: nat
  cfg_max_iterations :: nat
  cfg_require_health_gate :: bool

record start_options =
  sop_dry_run :: bool
  sop_allow_irreversible :: bool
  sop_max_parallel :: u32
  sop_reason :: string

datatype operation_kind = OP_prepare | OP_activate | OP_verify | OP_rollback

fun operation_kind_name :: "operation_kind \<Rightarrow> string" where
  "operation_kind_name OP_prepare = ''prepare''"
| "operation_kind_name OP_activate = ''activate''"
| "operation_kind_name OP_verify = ''verify''"
| "operation_kind_name OP_rollback = ''rollback''"

record work_item =
  wki_kind :: operation_kind
  wki_campaign :: campaign_id
  wki_generation :: u64
  wki_epoch :: u64
  wki_stage :: stage_id
  wki_target :: target_id
  wki_attempt :: attempt_id
  wki_artifact :: artifact_descriptor
  wki_descriptor :: target_descriptor
  wki_strategy :: strategy_kind
  wki_payload_path :: string
  wki_rollout_change :: string
  wki_service_removal :: bool

record operation_outcome =
  opo_kind :: operation_kind
  opo_prepare :: prepare_outcome
  opo_activate :: activate_outcome
  opo_verify :: verify_outcome
  opo_rollback :: rollback_outcome
  opo_health :: health_report
  opo_has_health :: bool
  opo_skipped :: bool
  opo_gate_refused :: bool
  opo_gate_reason :: string

definition no_outcome :: "operation_kind \<Rightarrow> operation_outcome" where
  "no_outcome k =
     \<lparr>opo_kind = k, opo_prepare = no_prepare, opo_activate = no_activate, opo_verify = no_verify,
      opo_rollback = no_rollback_outcome, opo_health = no_health, opo_has_health = False,
      opo_skipped = False, opo_gate_refused = False, opo_gate_reason = []\<rparr>"

definition outcome_to_json :: "operation_outcome \<Rightarrow> json" where
  "outcome_to_json r = json_build
     ([(''kind'', JString (operation_kind_name (opo_kind r))),
       (''skipped_because_applied'', JBool (opo_skipped r)),
       (''gate_refused'', JBool (opo_gate_refused r)), (''gate_reason'', JString (opo_gate_reason r)),
       (case opo_kind r of
          OP_prepare \<Rightarrow> (''prepare'', prepare_to_json (opo_prepare r))
        | OP_activate \<Rightarrow> (''activate'', activate_to_json (opo_activate r))
        | OP_verify \<Rightarrow> (''verify'', verify_to_json (opo_verify r))
        | OP_rollback \<Rightarrow> (''rollback'', rollback_outcome_to_json (opo_rollback r)))] @
      (if opo_has_health r then [(''health'', health_to_json (opo_health r))] else []))"

record campaign_status =
  cst_campaign :: campaign_record
  cst_attempts :: "attempt_record list"
  cst_in_flight :: nat
  cst_ticket_current :: bool
  cst_ticket_detail :: string
  cst_skew :: skew_assessment
  cst_decisions :: "decision list"

definition campaign_status_to_json :: "campaign_status \<Rightarrow> json" where
  "campaign_status_to_json c = json_build
     [(''campaign'', campaign_to_json (cst_campaign c)),
      (''attempts'', json_list attempt_to_json (cst_attempts c)),
      (''in_flight'', JUint (word_of_nat (cst_in_flight c))),
      (''ticket_current'', JBool (cst_ticket_current c)),
      (''ticket_detail'', JString (cst_ticket_detail c)),
      (''skew'', assessment_to_json (cst_skew c)),
      (''decisions'', json_list decision_to_json (cst_decisions c))]"

subsection \<open>The engine\<close>

record 'w engine =
  eng_config :: engine_config
  eng_deps :: "'w dependencies"
  eng_platform :: "'w platform"
  eng_policy :: policy
  eng_store :: durable_store
  eng_incarnation :: u64
  eng_epoch :: u64
  eng_attempt_sequence :: u64
  eng_decision_sequence :: u64
  eng_drain_tickets :: "drain_ticket table"
  eng_rollout_changes :: "string table"
  eng_shutting_down :: bool
  eng_admissions :: u64
  eng_driver_active :: bool
  eng_pool_mode :: bool
  eng_inventory :: inventory_snapshot
  eng_payload_path :: string
  eng_integrity :: integrity_assessment
  eng_reconciliation :: reconcile_report
  eng_world :: 'w

type_synonym ('w, 'a) engine_op = "('w engine, 'a) state"

definition reads :: "('s \<Rightarrow> 'a) \<Rightarrow> ('s, 'a) state" where
  "reads f = State (\<lambda>s. (f s, s))"

definition changes :: "('s \<Rightarrow> 's) \<Rightarrow> ('s, unit) state" where
  "changes f = State (\<lambda>s. ((), f s))"

text \<open>A call that leaves the engine.\<close>

definition call :: "('w, 'a) call \<Rightarrow> ('w, 'a) engine_op" where
  "call f = State (\<lambda>s. let (x, w) = f (eng_world s) in (x, s\<lparr>eng_world := w\<rparr>))"

definition try_op :: "('s, 'a result) state \<Rightarrow> ('a \<Rightarrow> ('s, 'b result) state) \<Rightarrow> ('s, 'b result) state" where
  "try_op m f = do { r \<leftarrow> m; case r of Inl e \<Rightarrow> State_Monad.return (Inl e) | Inr x \<Rightarrow> f x }"

definition ok_op :: "'a \<Rightarrow> ('s, 'a result) state" where
  "ok_op x = State_Monad.return (Inr x)"

definition stop :: "error_code \<Rightarrow> string \<Rightarrow> string \<Rightarrow> ('s, 'a result) state" where
  "stop c m d = State_Monad.return (fail c m d)"

text \<open>A loop over a vector whose body may fail.\<close>

fun each_op :: "('a \<Rightarrow> ('s, status) state) \<Rightarrow> 'a list \<Rightarrow> ('s, status) state" where
  "each_op f [] = ok_op ()"
| "each_op f (x # xs) = try_op (f x) (\<lambda>_. each_op f xs)"

text \<open>A loop over a vector that carries a value along.\<close>

fun fold_op :: "('a \<Rightarrow> 'b \<Rightarrow> ('s, 'b) state) \<Rightarrow> 'a list \<Rightarrow> 'b \<Rightarrow> ('s, 'b) state" where
  "fold_op f [] b = State_Monad.return b"
| "fold_op f (x # xs) b = do { b' \<leftarrow> f x b; fold_op f xs b' }"

definition clock_now :: "('w, timestamp) engine_op" where
  "clock_now = do {
     e \<leftarrow> reads id;
     call (case dep_clock (eng_deps e) of Some clock \<Rightarrow> clock | None \<Rightarrow> plf_system_clock (eng_platform e))
   }"

text \<open>A store operation, with what the disk does to its write.\<close>

definition store_op :: "(disk \<Rightarrow> durable_store \<Rightarrow> 'a \<times> durable_store) \<Rightarrow> ('w, 'a) engine_op" where
  "store_op f = do {
     platform \<leftarrow> reads eng_platform;
     d \<leftarrow> call (plf_disk platform);
     State (\<lambda>s. let (r, st) = f d (eng_store s) in (r, s\<lparr>eng_store := st\<rparr>))
   }"

definition engine_put_campaign :: "campaign_record \<Rightarrow> timestamp \<Rightarrow> ('w, status) engine_op" where
  "engine_put_campaign c now = store_op (\<lambda>d st. put_campaign d st c now)"

definition engine_put_attempt :: "attempt_record \<Rightarrow> timestamp \<Rightarrow> ('w, status) engine_op" where
  "engine_put_attempt a now = store_op (\<lambda>d st. put_attempt d st a now)"

definition engine_put_ticket :: "preflight_ticket \<Rightarrow> timestamp \<Rightarrow> ('w, status) engine_op" where
  "engine_put_ticket t now = store_op (\<lambda>d st. put_ticket d st t now)"

text \<open>\<open>if (auto next = counter.try_next(); next.has_value()) counter = next.value();\<close>\<close>

definition advance :: "u64 \<Rightarrow> u64" where
  "advance n = the_value (counter_try_next n) n"

subsection \<open>Decisions\<close>

fun expected_state_for :: "operation_kind \<Rightarrow> attempt_state" where
  "expected_state_for OP_prepare = AS_preparing"
| "expected_state_for OP_activate = AS_activating"
| "expected_state_for OP_verify = AS_verifying"
| "expected_state_for OP_rollback = AS_rolling_back"

fun decision_kind_for :: "upgrade_state \<Rightarrow> decision_kind" where
  "decision_kind_for US_validated = DK_admit"
| "decision_kind_for US_prepared = DK_stage"
| "decision_kind_for US_staged = DK_stage"
| "decision_kind_for US_activating = DK_activate"
| "decision_kind_for US_verifying = DK_verify"
| "decision_kind_for US_completed = DK_verify"
| "decision_kind_for US_blocked = DK_block"
| "decision_kind_for US_paused = DK_pause"
| "decision_kind_for US_failed = DK_block"
| "decision_kind_for US_rollback_planned = DK_rollback"
| "decision_kind_for US_rolling_back = DK_rollback"
| "decision_kind_for US_rolled_back = DK_rollback"
| "decision_kind_for US_proposed = DK_plan"

definition decision_of ::
    "'w engine \<Rightarrow> timestamp \<Rightarrow> decision_kind \<Rightarrow> campaign_record \<Rightarrow> decision_outcome \<Rightarrow> string \<Rightarrow> string \<Rightarrow>
     decision_input list \<Rightarrow> rejected_alternative list \<Rightarrow> decision_evidence list \<Rightarrow> decision" where
  "decision_of e now kind c outcome selected rationale inputs rejected evidence =
     \<lparr>dec_id = ''dec-'' @ u64_to_string (eng_incarnation e) @ ''-'' @ u64_to_string (eng_decision_sequence e + 1),
      dec_kind = kind, dec_outcome = outcome, dec_campaign = cmp_id c, dec_generation = cmp_generation c,
      dec_authority = cmp_authority c, dec_incarnation = eng_incarnation e, dec_epoch = cmp_epoch c,
      dec_policy = pol_id (eng_policy e), dec_policy_revision = pol_revision (eng_policy e),
      dec_inputs = inputs, dec_evidence = evidence, dec_selected = selected, dec_rejected = rejected,
      dec_rationale = rationale, dec_at = now\<rparr>"

definition make_decision ::
    "decision_kind \<Rightarrow> campaign_record \<Rightarrow> decision_outcome \<Rightarrow> string \<Rightarrow> string \<Rightarrow>
     decision_input list \<Rightarrow> rejected_alternative list \<Rightarrow> decision_evidence list \<Rightarrow> ('w, decision) engine_op" where
  "make_decision kind c outcome selected rationale inputs rejected evidence = do {
     now \<leftarrow> clock_now;
     e \<leftarrow> reads id;
     State_Monad.return (decision_of e now kind c outcome selected rationale inputs rejected evidence)
   }"

text \<open>The status of the append is ignored: a decision that cannot be stored is lost.\<close>

definition record_decision :: "decision \<Rightarrow> ('w, unit) engine_op" where
  "record_decision x = do {
     now \<leftarrow> clock_now;
     let x = (if dec_at x = 0 then x\<lparr>dec_at := now\<rparr> else x);
     changes (\<lambda>e. e\<lparr>eng_decision_sequence := advance (eng_decision_sequence e)\<rparr>);
     status \<leftarrow> store_op (\<lambda>d st. append_decision d st x now);
     State_Monad.return ()
   }"

definition decide ::
    "decision_kind \<Rightarrow> campaign_record \<Rightarrow> decision_outcome \<Rightarrow> string \<Rightarrow> string \<Rightarrow>
     decision_input list \<Rightarrow> rejected_alternative list \<Rightarrow> decision_evidence list \<Rightarrow> ('w, unit) engine_op" where
  "decide kind c outcome selected rationale inputs rejected evidence =
     do { x \<leftarrow> make_decision kind c outcome selected rationale inputs rejected evidence; record_decision x }"

definition input_of :: "string \<Rightarrow> string \<Rightarrow> decision_input" where
  "input_of name v = \<lparr>din_name = name, din_value = v\<rparr>"

definition alternative_of :: "string \<Rightarrow> string \<Rightarrow> rejected_alternative" where
  "alternative_of action reason = \<lparr>rej_action = action, rej_reason = reason\<rparr>"

end
