(* ===== verification/Engine_Guards.thy ===== *)
theory Engine_Guards
  imports Engine_State
begin

text \<open>
  Guards and moves (\<open>engine/engine_exec.cpp\<close>): when a preflight ticket is current, the skew of the live
  versions, the guards of a campaign, the one function that changes a campaign's state, identities of attempts,
  ledger records, and the fence every result has to pass.
\<close>

subsection \<open>Tickets and skew\<close>

definition ticket_current :: "'w engine \<Rightarrow> campaign_record \<Rightarrow> timestamp \<Rightarrow> bool \<times> string" where
  "ticket_current e c now =
     (let t = cmp_ticket c
      in if \<not> tik_passed t then (False, ''no passing preflight ticket is recorded'')
         else if tik_generation t \<noteq> cmp_generation c
         then (False, ''the ticket was issued for generation '' @ u64_to_string (tik_generation t) @
                 '' but the campaign is at generation '' @ u64_to_string (cmp_generation c))
         else if tik_incarnation t \<noteq> eng_incarnation e
         then (False, ''the ticket was issued in incarnation '' @ u64_to_string (tik_incarnation t) @
                 '' but this incarnation is '' @ u64_to_string (eng_incarnation e))
         else if tik_epoch t \<noteq> eng_epoch e
         then (False, ''the ticket was issued under epoch '' @ u64_to_string (tik_epoch t) @
                 '' but the current epoch is '' @ u64_to_string (eng_epoch e))
         else if \<not> tik_expires_at t > now
         then (False, ''the ticket expired at '' @ to_iso8601 (tik_expires_at t))
         else if \<not> int_verified (eng_integrity e) \<or> int_declared (eng_integrity e) \<noteq> art_digest (cmp_artifact c)
         then (False, ''artifact integrity is not verified for this digest in the current incarnation'')
         else (True, ''ticket is current''))"

definition plan_targets :: "upgrade_plan \<Rightarrow> target_id list" where
  "plan_targets p = concat (map stg_targets (pln_stages p))"

definition target_upgraded :: "attempt_record list \<Rightarrow> target_id \<Rightarrow> bool" where
  "target_upgraded as t \<longleftrightarrow>
     list_ex (\<lambda>a. att_target a = t \<and> (att_state a = AS_verified \<or> att_state a = AS_activated)) as"

text \<open>The version a target is known, or taken, to run; unknown targets count as version zero.\<close>

definition live_version :: "'w engine \<Rightarrow> campaign_record \<Rightarrow> attempt_record list \<Rightarrow> target_id \<Rightarrow> version" where
  "live_version e c as t =
     (if target_upgraded as t then art_version (cmp_artifact c)
      else case inv_find (eng_inventory e) t of
        None \<Rightarrow> empty_version
      | Some d \<Rightarrow> tgt_installed_version d)"

definition assess_current_skew :: "'w engine \<Rightarrow> campaign_record \<Rightarrow> skew_assessment" where
  "assess_current_skew e c =
     (let as = attempts_for (eng_store e) (cmp_id c);
          targets = plan_targets (cmp_plan c);
          live = map (\<lambda>t. (t, live_version e c as t)) targets;
          known = length (filter (\<lambda>t. target_upgraded as t \<or> inv_find (eng_inventory e) t \<noteq> None) targets);
          assessment = assess_skew (pln_skew_budget (cmp_plan c)) live (art_version (cmp_artifact c))
      in if known = 0 \<and> live \<noteq> []
         then assessment\<lparr>sa_within_budget := False,
                sa_summary := ''skew could not be assessed: no inventory has been resolved in this incarnation''\<rparr>
         else assessment)"

subsection \<open>The guards of a campaign\<close>

definition latest_attempt_for :: "attempt_record list \<Rightarrow> stage_id \<Rightarrow> target_id \<Rightarrow> attempt_record option" where
  "latest_attempt_for as stage target =
     foldl (\<lambda>latest a.
       if att_stage a = stage \<and> att_target a = target
       then (case latest of
               None \<Rightarrow> Some a
             | Some b \<Rightarrow> if att_id b < att_id a then Some a else Some b)
       else latest) None as"

text \<open>An attempt that changed its target, even when it was given up later.\<close>

definition attempt_touched :: "attempt_record \<Rightarrow> bool" where
  "attempt_touched a \<longleftrightarrow>
     att_state a = AS_activated \<or> att_state a = AS_verified \<or> att_state a = AS_rolling_back \<or>
     (att_state a = AS_failed \<and> att_activation_observed a) \<or>
     (att_state a = AS_abandoned \<and> att_activation_observed a) \<or>
     (att_state a = AS_aborted \<and> att_activation_observed a)"

definition active_plan_stage :: "campaign_record \<Rightarrow> stage_plan option" where
  "active_plan_stage c =
     (if cmp_active_stage c < length (pln_stages (cmp_plan c))
      then Some (pln_stages (cmp_plan c) ! cmp_active_stage c) else None)"

text \<open>
  \<open>campaign.stages[campaign.active_stage]\<close>: the code indexes without a check in some places; an index out
  of range, which reading this as \<open>None\<close> stands for, is excluded by an invariant of the engine.
\<close>

definition active_progress :: "campaign_record \<Rightarrow> stage_progress option" where
  "active_progress c =
     (if cmp_active_stage c < length (cmp_stages c) then Some (cmp_stages c ! cmp_active_stage c) else None)"

definition active_stage_state_is :: "campaign_record \<Rightarrow> stage_state \<Rightarrow> bool" where
  "active_stage_state_is c st \<longleftrightarrow> (case active_progress c of None \<Rightarrow> False | Some p \<Rightarrow> spg_state p = st)"

definition adapters_support_strategy :: "'w engine \<Rightarrow> campaign_record \<Rightarrow> bool" where
  "adapters_support_strategy e c =
     list_all (\<lambda>t. case inv_find (eng_inventory e) t of
         None \<Rightarrow> False
       | Some d \<Rightarrow> claims_support (tgt_claims d) (pln_strategy (cmp_plan c))) (plan_targets (cmp_plan c))"

definition adapters_support_rollback :: "'w engine \<Rightarrow> campaign_record \<Rightarrow> bool" where
  "adapters_support_rollback e c =
     list_all (\<lambda>t. case inv_find (eng_inventory e) t of
         None \<Rightarrow> False
       | Some d \<Rightarrow> acl_supports_rollback (tgt_claims d)) (plan_targets (cmp_plan c))"

definition drain_satisfied :: "'w engine \<Rightarrow> campaign_record \<Rightarrow> bool" where
  "drain_satisfied e c =
     (case active_plan_stage c of
        None \<Rightarrow> True
      | Some stage \<Rightarrow>
          if stg_requires_service_removal stage \<and> dep_drain (eng_deps e) \<noteq> None
          then table_get (eng_drain_tickets e) (stg_id stage) \<noteq> None else True)"

definition stage_activated :: "attempt_record list \<Rightarrow> stage_plan \<Rightarrow> bool" where
  "stage_activated as stage \<longleftrightarrow>
     stg_targets stage \<noteq> [] \<and>
     list_all (\<lambda>t. case latest_attempt_for as (stg_id stage) t of
         None \<Rightarrow> False
       | Some a \<Rightarrow> att_state a = AS_activated \<or> att_state a = AS_verified) (stg_targets stage)"

definition stage_verified_fresh :: "attempt_record list \<Rightarrow> stage_plan \<Rightarrow> timestamp \<Rightarrow> u64 \<Rightarrow> bool" where
  "stage_verified_fresh as stage now current \<longleftrightarrow>
     stg_targets stage \<noteq> [] \<and>
     list_all (\<lambda>t. case latest_attempt_for as (stg_id stage) t of
         None \<Rightarrow> False
       | Some a \<Rightarrow> att_state a = AS_verified \<and>
           fre_fresh (evaluate_freshness (att_evidence_at a) (att_evidence_validity a) (att_owner a) now current))
       (stg_targets stage)"

definition guards_at :: "'w engine \<Rightarrow> timestamp \<Rightarrow> campaign_record \<Rightarrow> transition_guards" where
  "guards_at e now c =
     (let as = attempts_for (eng_store e) (cmp_id c)
      in no_guards\<lparr>
           g_preflight_current := fst (ticket_current e c now),
           g_artifact_integrity_verified :=
             int_verified (eng_integrity e) \<and> int_declared (eng_integrity e) = art_digest (cmp_artifact c),
           g_rollback_plan_recorded := cmp_rollback_plan c \<noteq> [],
           g_irreversible_acknowledged :=
             pln_irreversible_steps (cmp_plan c) = [] \<or> cmp_irreversible_acknowledged c,
           g_rollback_eligible := cmp_rollback_eligible c,
           g_failure_recorded := cmp_failure_reason c \<noteq> [],
           g_adapter_supports_strategy := adapters_support_strategy e c,
           g_all_stages_complete :=
             cmp_stages c \<noteq> [] \<and> list_all (\<lambda>p. spg_state p = SS_completed) (cmp_stages c),
           g_staging_complete := active_stage_state_is c SS_prepared,
           g_skew_within_budget := sa_within_budget (assess_current_skew e c),
           g_drain_satisfied := drain_satisfied e c,
           g_rollback_complete :=
             list_ex (\<lambda>a. att_state a = AS_rolled_back) as \<and> \<not> list_ex attempt_touched as,
           g_activation_complete :=
             (case active_plan_stage c of None \<Rightarrow> False | Some stage \<Rightarrow> stage_activated as stage),
           g_verification_fresh_passed :=
             (case active_plan_stage c of
                None \<Rightarrow> False
              | Some stage \<Rightarrow> stage_verified_fresh as stage now (eng_incarnation e))\<rparr>)"

definition guards_locked :: "campaign_record \<Rightarrow> ('w, transition_guards) engine_op" where
  "guards_locked c = do { now \<leftarrow> clock_now; e \<leftarrow> reads id; State_Monad.return (guards_at e now c) }"

subsection \<open>Moves\<close>

text \<open>
  The campaign is passed by reference: the copy that comes back has moved even when storing it failed.
\<close>

definition moved_campaign :: "campaign_record \<Rightarrow> upgrade_state \<Rightarrow> timestamp \<Rightarrow> campaign_record" where
  "moved_campaign c to now =
     (let c1 = c\<lparr>cmp_state := to, cmp_revision := advance (cmp_revision c), cmp_updated_at := now\<rparr>
      in if to = US_completed \<or> to = US_rolled_back
         then c1\<lparr>cmp_block_reason := [], cmp_failure_reason := []\<rparr> else c1)"

definition transition_locked ::
    "campaign_record \<Rightarrow> upgrade_state \<Rightarrow> transition_guards \<Rightarrow> ('w, status \<times> campaign_record) engine_op" where
  "transition_locked c to g =
     (let verdict = evaluate_transition (cmp_state c) to g
      in if \<not> tv_allowed verdict
         then do {
           decide DK_block c DO_deny (''transition to '' @ upgrade_state_name to) (explain_verdict verdict) [] [] [];
           State_Monad.return
             (fail EC_precondition_failed
                (''transition refused: '' @ upgrade_state_name (cmp_state c) @ '' -> '' @ upgrade_state_name to)
                (explain_verdict verdict), c)
         }
         else if cmp_state c = to then State_Monad.return (ok_status, c)
         else do {
           now \<leftarrow> clock_now;
           let c' = moved_campaign c to now;
           stored \<leftarrow> engine_put_campaign c' now;
           case stored of
             Inl e \<Rightarrow> State_Monad.return (Inl e, c')
           | Inr _ \<Rightarrow> do {
               decide (decision_kind_for to) c' DO_allow (''enter '' @ upgrade_state_name to) (tv_reason verdict) [] [] [];
               State_Monad.return (ok_status, c')
             }
         })"

text \<open>\<open>FUM_TRYV(transition_locked(campaign, to, guards));\<close>\<close>

definition try_move ::
    "campaign_record \<Rightarrow> upgrade_state \<Rightarrow> transition_guards \<Rightarrow>
     (campaign_record \<Rightarrow> ('w, 'a result) engine_op) \<Rightarrow> ('w, 'a result) engine_op" where
  "try_move c to g f = do {
     (status, c') \<leftarrow> transition_locked c to g;
     case status of Inl e \<Rightarrow> State_Monad.return (Inl e) | Inr _ \<Rightarrow> f c'
   }"

text \<open>\<open>static_cast<void>(transition_locked(campaign, to, guards));\<close>\<close>

definition move_if_possible ::
    "campaign_record \<Rightarrow> upgrade_state \<Rightarrow> transition_guards \<Rightarrow> ('w, campaign_record) engine_op" where
  "move_if_possible c to g = do { (status, c') \<leftarrow> transition_locked c to g; State_Monad.return c' }"

definition fail_locked :: "campaign_record \<Rightarrow> string \<Rightarrow> ('w, status) engine_op" where
  "fail_locked c reason = do {
     let c = c\<lparr>cmp_failure_reason := reason\<rparr>;
     g \<leftarrow> guards_locked c;
     let target = (if cmp_state c = US_proposed then US_blocked else US_failed);
     (status, c') \<leftarrow> transition_locked c target (g\<lparr>g_failure_recorded := True\<rparr>);
     State_Monad.return
       (case status of
          Inl e \<Rightarrow> if err_code e \<noteq> EC_precondition_failed then Inl e else ok_status
        | Inr _ \<Rightarrow> ok_status)
   }"

subsection \<open>Attempts and the ledger\<close>

definition allocate_attempt :: "campaign_record \<Rightarrow> stage_id \<Rightarrow> target_id \<Rightarrow> ('w, attempt_id) engine_op" where
  "allocate_attempt c stage target = do {
     sequence \<leftarrow> reads eng_attempt_sequence;
     changes (\<lambda>e. e\<lparr>eng_attempt_sequence := advance sequence\<rparr>);
     State_Monad.return
       (cmp_id c @ ''/'' @ stage @ ''/'' @ target @ ''/a'' @ u64_to_string (sequence + 1))
   }"

definition provenance_of ::
    "'w engine \<Rightarrow> work_item \<Rightarrow> provenance_outcome \<Rightarrow> string \<Rightarrow> timestamp \<Rightarrow> u64 \<Rightarrow> provenance_record" where
  "provenance_of e item outcome detail now sequence =
     \<lparr>prov_id = wki_campaign item @ ''/'' @ wki_target item @ ''/'' @ u64_to_string sequence,
      prov_sequence = 0, prov_campaign = wki_campaign item, prov_generation = wki_generation item,
      prov_stage = wki_stage item, prov_attempt = wki_attempt item, prov_target = wki_target item,
      prov_component = art_component (wki_artifact item), prov_artifact = art_id (wki_artifact item),
      prov_build = art_build (wki_artifact item),
      prov_from_version = tgt_installed_version (wki_descriptor item),
      prov_to_version = art_version (wki_artifact item), prov_digest = art_digest (wki_artifact item),
      prov_outcome = outcome, prov_authority = tgt_authority (wki_descriptor item),
      prov_incarnation = eng_incarnation e, prov_recorded_at = now, prov_previous = [], prov_chain = [],
      prov_detail = detail\<rparr>"

definition append_provenance_locked ::
    "work_item \<Rightarrow> provenance_outcome \<Rightarrow> string \<Rightarrow> timestamp \<Rightarrow> ('w, status) engine_op" where
  "append_provenance_locked item outcome detail now = do {
     e \<leftarrow> reads id;
     case counter_try_next (dst_sequence (eng_store e)) of
       Inl err \<Rightarrow> State_Monad.return (Inl err)
     | Inr sequence \<Rightarrow>
         store_op (\<lambda>d st.
           let (status, p, st') = append_provenance d st (provenance_of e item outcome detail now sequence) now
           in (status, st'))
   }"

subsection \<open>The fence\<close>

text \<open>The campaign states in which the result of an operation is accepted.\<close>

fun state_accepts :: "operation_kind \<Rightarrow> upgrade_state \<Rightarrow> bool" where
  "state_accepts OP_prepare s = (s = US_prepared \<or> s = US_staged)"
| "state_accepts OP_activate s = (s = US_staged \<or> s = US_activating)"
| "state_accepts OP_verify s = (s = US_activating \<or> s = US_verifying)"
| "state_accepts OP_rollback s = (s = US_rolling_back)"

definition check_fence :: "'w engine \<Rightarrow> work_item \<Rightarrow> attempt_state \<Rightarrow> status" where
  "check_fence e item expected =
     (case store_attempt (eng_store e) (wki_attempt item) of
        None \<Rightarrow> fail EC_fenced ''the attempt no longer exists'' (wki_attempt item)
      | Some a \<Rightarrow>
          if att_generation a \<noteq> wki_generation item
          then fail EC_fenced ''the attempt belongs to an older campaign generation''
                 (u64_to_string (att_generation a) @ '' != '' @ u64_to_string (wki_generation item))
          else if att_owner a \<noteq> eng_incarnation e
          then fail EC_fenced ''the attempt is owned by another incarnation''
                 (u64_to_string (att_owner a) @ '' != '' @ u64_to_string (eng_incarnation e))
          else if att_state a \<noteq> expected
          then fail EC_fenced ''the attempt state moved''
                 (attempt_state_name (att_state a) @ '' != '' @ attempt_state_name expected)
          else
            (case store_campaign (eng_store e) (wki_campaign item) of
               None \<Rightarrow> fail EC_fenced ''the campaign no longer exists'' (wki_campaign item)
             | Some c \<Rightarrow>
                 if cmp_generation c \<noteq> wki_generation item
                 then fail EC_fenced ''the campaign generation moved''
                        (u64_to_string (cmp_generation c) @ '' != '' @ u64_to_string (wki_generation item))
                 else if cmp_epoch c \<noteq> wki_epoch item
                 then fail EC_fenced ''the campaign epoch moved''
                        (u64_to_string (cmp_epoch c) @ '' != '' @ u64_to_string (wki_epoch item))
                 else if \<not> state_accepts (wki_kind item) (cmp_state c)
                 then fail EC_fenced ''the campaign state no longer accepts this operation''
                        (operation_kind_name (wki_kind item) @ '' in state '' @ upgrade_state_name (cmp_state c))
                 else ok_status))"

end
