(* ===== verification/Engine_Work.thy ===== *)
theory Engine_Work
  imports Engine_Guards
begin

text \<open>
  Planning the next work items (\<open>plan_work_locked\<close> of \<open>engine/engine_exec.cpp\<close>): which campaigns
  are running, which moves their state allows, which attempts are created or claimed, and the bounds on the
  number of items and on parallel activations.
\<close>

definition campaign_running :: "upgrade_state \<Rightarrow> bool" where
  "campaign_running s \<longleftrightarrow>
     s = US_prepared \<or> s = US_staged \<or> s = US_activating \<or> s = US_verifying \<or> s = US_rolling_back"

text \<open>The item an engine emits for a target of a stage.\<close>

definition item_of ::
    "'w engine \<Rightarrow> campaign_record \<Rightarrow> stage_id \<Rightarrow> target_descriptor \<Rightarrow> target_id \<Rightarrow> operation_kind \<Rightarrow> attempt_id \<Rightarrow>
     work_item" where
  "item_of e c stage d target kind attempt =
     \<lparr>wki_kind = kind, wki_campaign = cmp_id c, wki_generation = cmp_generation c, wki_epoch = cmp_epoch c,
      wki_stage = stage, wki_target = target, wki_attempt = attempt, wki_artifact = cmp_artifact c,
      wki_descriptor = d, wki_strategy = cmp_strategy c, wki_payload_path = eng_payload_path e,
      wki_rollout_change = [], wki_service_removal = False\<rparr>"

text \<open>The claiming incarnation owns the attempt from here on.\<close>

definition claimed_attempt :: "attempt_record \<Rightarrow> attempt_state \<Rightarrow> timestamp \<Rightarrow> u64 \<Rightarrow> attempt_record" where
  "claimed_attempt a st now owner =
     a\<lparr>att_state := st, att_updated_at := now, att_owner := owner, att_revision := advance (att_revision a)\<rparr>"

subsection \<open>Rollback\<close>

definition needs_rollback :: "attempt_record \<Rightarrow> bool" where
  "needs_rollback a \<longleftrightarrow>
     att_state a = AS_verified \<or> att_state a = AS_activated \<or>
     (att_state a = AS_failed \<and> att_activation_observed a)"

definition plan_rollback_target ::
    "timestamp \<Rightarrow> nat \<Rightarrow> campaign_record \<Rightarrow> stage_id \<Rightarrow> target_id \<Rightarrow> work_item list \<Rightarrow>
     ('w, work_item list) engine_op" where
  "plan_rollback_target now budget c stage target out =
     (if length out \<ge> budget then State_Monad.return out
      else do {
        e \<leftarrow> reads id;
        case (inv_find (eng_inventory e) target,
              latest_attempt_for (attempts_for (eng_store e) (cmp_id c)) stage target) of
          (Some d, Some a) \<Rightarrow>
            if needs_rollback a
            then do {
              status \<leftarrow> engine_put_attempt (claimed_attempt a AS_rolling_back now (eng_incarnation e)) now;
              State_Monad.return (out @ [item_of e c stage d target OP_rollback (att_id a)])
            }
            else State_Monad.return out
        | _ \<Rightarrow> State_Monad.return out
      })"

definition plan_rollback ::
    "timestamp \<Rightarrow> nat \<Rightarrow> campaign_record \<Rightarrow> work_item list \<Rightarrow> ('w, work_item list) engine_op" where
  "plan_rollback now budget c out =
     fold_op (\<lambda>stage out. fold_op (plan_rollback_target now budget c (stg_id stage)) (stg_targets stage) out)
       (pln_stages (cmp_plan c)) out"

subsection \<open>Preparing, activating and verifying\<close>

definition new_attempt ::
    "'w engine \<Rightarrow> campaign_record \<Rightarrow> stage_id \<Rightarrow> target_descriptor \<Rightarrow> target_id \<Rightarrow> attempt_id \<Rightarrow> timestamp \<Rightarrow>
     attempt_record" where
  "new_attempt e c stage d target i now =
     \<lparr>att_id = i, att_campaign = cmp_id c, att_generation = cmp_generation c, att_stage = stage,
      att_target = target, att_artifact = art_id (cmp_artifact c), att_build = art_build (cmp_artifact c),
      att_from_version = tgt_installed_version d, att_to_version = art_version (cmp_artifact c),
      att_state = AS_preparing, att_owner = eng_incarnation e, att_authority = tgt_authority d,
      att_revision = 1, att_operation_index = 1, att_completed_operations = [],
      att_activation_observed = False, att_retries = 0, att_last_error = [], att_started_at = now,
      att_updated_at = now, att_evidence_at = 0, att_evidence_validity = 0,
      att_observed_version = empty_version, att_observed_build = []\<rparr>"

definition staging_phase :: "campaign_record \<Rightarrow> bool" where
  "staging_phase c \<longleftrightarrow>
     cmp_state c = US_prepared \<or> (cmp_state c = US_staged \<and> active_stage_state_is c SS_pending)"

definition activation_limit :: "'w engine \<Rightarrow> stage_plan \<Rightarrow> target_descriptor \<Rightarrow> nat" where
  "activation_limit e stage d =
     (let adapter_limit = (if acl_max_parallel (tgt_claims d) = 0 then 1 else acl_max_parallel (tgt_claims d))
      in min (min (unat (stg_max_parallel stage)) (unat (pol_max_concurrent_activations (eng_policy e))))
           (unat adapter_limit))"

definition count_in_state :: "attempt_record list \<Rightarrow> stage_id \<Rightarrow> attempt_state \<Rightarrow> nat" where
  "count_in_state as stage st = length (filter (\<lambda>a. att_stage a = stage \<and> att_state a = st) as)"

text \<open>The local copy of the attempts follows the claims made in the pass.\<close>

definition mark_state :: "attempt_id \<Rightarrow> attempt_state \<Rightarrow> attempt_record list \<Rightarrow> attempt_record list" where
  "mark_state i st as = map (\<lambda>a. if att_id a = i then a\<lparr>att_state := st\<rparr> else a) as"

definition plan_stage_target ::
    "timestamp \<Rightarrow> nat \<Rightarrow> campaign_record \<Rightarrow> stage_plan \<Rightarrow> target_id \<Rightarrow> attempt_record list \<times> work_item list \<Rightarrow>
     ('w, attempt_record list \<times> work_item list) engine_op" where
  "plan_stage_target now budget c stage target acc =
     (let (as, out) = acc
      in if length out \<ge> budget then State_Monad.return acc
      else do {
        e \<leftarrow> reads id;
        case inv_find (eng_inventory e) target of
          None \<Rightarrow> State_Monad.return acc
        | Some d \<Rightarrow>
            let item = (\<lambda>kind i. (item_of e c (stg_id stage) d target kind i)
                  \<lparr>wki_service_removal := stg_requires_service_removal stage,
                    wki_rollout_change := (case table_get (eng_rollout_changes e) (cmp_id c) of
                      None \<Rightarrow> [] | Some change \<Rightarrow> change)\<rparr>)
            in if staging_phase c
               then (case latest_attempt_for as (stg_id stage) target of
                   None \<Rightarrow>
                     if length (filter (\<lambda>a. att_stage a = stg_id stage \<and> att_target a = target) as)
                          \<ge> unat (pol_max_attempts_per_target (eng_policy e))
                     then State_Monad.return acc
                     else do {
                       i \<leftarrow> allocate_attempt c (stg_id stage) target;
                       let a = new_attempt e c (stg_id stage) d target i now;
                       status \<leftarrow> engine_put_attempt a now;
                       State_Monad.return (as @ [a], out @ [item OP_prepare i])
                     }
                 | Some a \<Rightarrow>
                     if att_state a = AS_preparing \<and> att_owner a = eng_incarnation e
                     then State_Monad.return (as, out @ [item OP_prepare (att_id a)])
                     else State_Monad.return acc)
               else (case latest_attempt_for as (stg_id stage) target of
                   None \<Rightarrow> State_Monad.return acc
                 | Some a \<Rightarrow>
                     if (cmp_state c = US_staged \<or> cmp_state c = US_activating) \<and> att_state a = AS_prepared
                     then (if count_in_state as (stg_id stage) AS_activating \<ge> activation_limit e stage d
                       then State_Monad.return acc
                       else do {
                         status \<leftarrow> engine_put_attempt (claimed_attempt a AS_activating now (eng_incarnation e)) now;
                         State_Monad.return
                           (mark_state (att_id a) AS_activating as, out @ [item OP_activate (att_id a)])
                       })
                     else if (cmp_state c = US_activating \<or> cmp_state c = US_verifying) \<and> att_state a = AS_activated
                     then do {
                       status \<leftarrow> engine_put_attempt (claimed_attempt a AS_verifying now (eng_incarnation e)) now;
                       State_Monad.return
                         (mark_state (att_id a) AS_verifying as, out @ [item OP_verify (att_id a)])
                     }
                     else State_Monad.return acc)
      })"

subsection \<open>A campaign\<close>

text \<open>A campaign resumed with its stage already prepared goes straight back to staging.\<close>

definition resume_staging :: "campaign_record \<Rightarrow> ('w, campaign_record) engine_op" where
  "resume_staging c =
     (if cmp_state c = US_prepared \<and> active_stage_state_is c SS_prepared
      then do { g \<leftarrow> guards_locked c; move_if_possible c US_staged (g\<lparr>g_staging_complete := True\<rparr>) }
      else State_Monad.return c)"

text \<open>One that resumes with its attempts activated moves on to verification.\<close>

definition resume_activation :: "campaign_record \<Rightarrow> ('w, campaign_record) engine_op" where
  "resume_activation c =
     (if cmp_state c = US_staged \<or> cmp_state c = US_activating
      then do {
        g \<leftarrow> guards_locked c;
        if g_activation_complete g
        then do {
          c' \<leftarrow> (if cmp_state c = US_staged then move_if_possible c US_activating g else State_Monad.return c);
          move_if_possible c' US_verifying g
        }
        else State_Monad.return c
      }
      else State_Monad.return c)"

text \<open>A staged campaign whose live versions left the skew budget is blocked; the answer says whether to go on.\<close>

definition hold_for_skew :: "campaign_record \<Rightarrow> ('w, bool) engine_op" where
  "hold_for_skew c =
     (if cmp_state c \<noteq> US_staged then State_Monad.return False
      else do {
        e \<leftarrow> reads id;
        let skew = assess_current_skew e c;
        let budget = pln_skew_budget (cmp_plan c);
        if sa_within_budget skew then State_Monad.return False
        else do {
          let c = c\<lparr>cmp_last_skew := skew,
                    cmp_block_reason := ''version skew budget exceeded before activation: '' @ sa_summary skew\<rparr>;
          g \<leftarrow> guards_locked c;
          (status, c') \<leftarrow> transition_locked c US_blocked (g\<lparr>g_failure_recorded := True\<rparr>);
          (case status of
             Inl err \<Rightarrow> State_Monad.return True
           | Inr _ \<Rightarrow> do {
               decide DK_block c' DO_deny ''hold the stage'' (cmp_block_reason c')
                 [input_of ''worst_distance'' (u32_to_string (sa_worst_distance skew)),
                  input_of ''budget''
                    (u32_to_string (sk_max_major budget) @ '' major / '' @ u32_to_string (sk_max_minor budget) @
                     '' minor / '' @ u32_to_string (sk_max_patch budget) @ '' patch'')]
                 [alternative_of ''activate the stage''
                    ''the live version mix would exceed the declared skew budget''] [];
               State_Monad.return True
             })
        }
      })"

definition plan_campaign ::
    "timestamp \<Rightarrow> nat \<Rightarrow> campaign_record \<Rightarrow> work_item list \<Rightarrow> ('w, work_item list) engine_op" where
  "plan_campaign now budget c out =
     (case (campaign_running (cmp_state c), active_plan_stage c) of
        (True, Some stage) \<Rightarrow> do {
          c \<leftarrow> resume_staging c;
          c \<leftarrow> resume_activation c;
          if cmp_state c = US_rolling_back then plan_rollback now budget c out
          else do {
            held \<leftarrow> hold_for_skew c;
            if held then State_Monad.return out
            else do {
              as \<leftarrow> reads (\<lambda>e. attempts_for (eng_store e) (cmp_id c));
              (as, out) \<leftarrow> fold_op (plan_stage_target now budget c stage) (stg_targets stage) (as, out);
              State_Monad.return out
            }
          }
        }
      | _ \<Rightarrow> State_Monad.return out)"

fun plan_campaigns ::
    "timestamp \<Rightarrow> nat \<Rightarrow> campaign_record list \<Rightarrow> work_item list \<Rightarrow> ('w, work_item list) engine_op" where
  "plan_campaigns now budget [] out = State_Monad.return out"
| "plan_campaigns now budget (c # cs) out = do {
     stopping \<leftarrow> reads eng_shutting_down;
     if length out \<ge> budget \<or> stopping then State_Monad.return out
     else do { out \<leftarrow> plan_campaign now budget c out; plan_campaigns now budget cs out }
   }"

definition plan_work :: "nat \<Rightarrow> ('w, work_item list) engine_op" where
  "plan_work budget = do {
     now \<leftarrow> clock_now;
     campaigns \<leftarrow> reads (\<lambda>e. store_campaigns (eng_store e));
     plan_campaigns now budget campaigns []
   }"

end
