(* ===== verification/Engine_Commit.thy ===== *)
theory Engine_Commit
  imports Engine_Work
begin

text \<open>
  Executing a work item (\<open>engine/engine_run.cpp\<close>): the adapter call with its gates and retries, and the
  fenced commit of what the adapter reported.
\<close>

subsection \<open>Committing a result\<close>

definition join_failures :: "string list \<Rightarrow> string" where
  "join_failures fs = join_with ''; '' (take 4 fs) @ (if length fs > 4 then ''; ...'' else [])"

definition find_progress :: "campaign_record \<Rightarrow> stage_id \<Rightarrow> stage_progress option" where
  "find_progress c i = List.find (\<lambda>p. spg_id p = i) (cmp_stages c)"

text \<open>Whether the latest attempts of the item's stage are all in a state, read when it is asked.\<close>

definition stage_all :: "'w engine \<Rightarrow> campaign_record \<Rightarrow> stage_id \<Rightarrow> (attempt_state \<Rightarrow> bool) \<Rightarrow> bool" where
  "stage_all e c i P =
     (case (find_progress c i, List.find (\<lambda>s. stg_id s = i) (rev (pln_stages (cmp_plan c)))) of
        (Some progress, Some stage) \<Rightarrow>
          stg_targets stage \<noteq> [] \<and>
          list_all (\<lambda>t. case latest_attempt_for (attempts_for (eng_store e) (cmp_id c)) i t of
              None \<Rightarrow> False
            | Some a \<Rightarrow> P (att_state a)) (stg_targets stage)
      | _ \<Rightarrow> False)"

definition commit_prepare ::
    "work_item \<Rightarrow> prepare_outcome \<Rightarrow> timestamp \<Rightarrow> attempt_record \<Rightarrow> campaign_record \<Rightarrow> ('w, status) engine_op" where
  "commit_prepare item p now a c =
     (if po_prepared p \<or> po_already_prepared p
      then try_op (engine_put_attempt (a\<lparr>att_state := AS_prepared, att_last_error := [], att_updated_at := now,
               att_revision := advance (att_revision a)\<rparr>) now) (\<lambda>_. do {
        e \<leftarrow> reads id;
        if stage_all e c (wki_stage item)
             (\<lambda>s. s = AS_prepared \<or> s = AS_activated \<or> s = AS_verified \<or> s = AS_rolled_back)
        then do {
          let c = c\<lparr>cmp_revision := advance (cmp_revision c), cmp_updated_at := now,
                    cmp_stages := map (\<lambda>g. if spg_id g = wki_stage item then g\<lparr>spg_state := SS_prepared\<rparr> else g)
                      (cmp_stages c)\<rparr>;
          try_op (engine_put_campaign c now) (\<lambda>_. do {
            g \<leftarrow> guards_locked c;
            if cmp_state c = US_prepared
            then do { c' \<leftarrow> move_if_possible c US_staged (g\<lparr>g_staging_complete := True\<rparr>); ok_op () }
            else ok_op ()
          })
        }
        else ok_op ()
      })
      else try_op (engine_put_attempt (a\<lparr>att_state := AS_failed, att_last_error := po_detail p,
               att_updated_at := now\<rparr>) now) (\<lambda>_.
        fail_locked c (''prepare failed on '' @ wki_target item @ '': '' @ po_detail p)))"

definition commit_refused ::
    "work_item \<Rightarrow> string \<Rightarrow> timestamp \<Rightarrow> attempt_record \<Rightarrow> campaign_record \<Rightarrow> ('w, status) engine_op" where
  "commit_refused item reason now a c =
     try_op (engine_put_attempt (a\<lparr>att_state := AS_prepared, att_last_error := reason, att_updated_at := now\<rparr>) now)
       (\<lambda>_. do {
         let c = c\<lparr>cmp_block_reason := reason\<rparr>;
         g \<leftarrow> guards_locked c;
         c \<leftarrow> move_if_possible c US_blocked (g\<lparr>g_failure_recorded := True\<rparr>);
         decide DK_block c DO_deny ''hold activation'' reason
           [input_of ''target'' (wki_target item), input_of ''gate'' ''pre-activation health'']
           [alternative_of ''activate anyway'' ''the health gate is a hard precondition for activation''] [];
         ok_op ()
       })"

text \<open>After an activation: the move to \<open>activating\<close>, the skew budget, the move to \<open>verifying\<close>.\<close>

definition after_activation :: "work_item \<Rightarrow> campaign_record \<Rightarrow> ('w, status) engine_op" where
  "after_activation item c = do {
     c \<leftarrow> (if cmp_state c = US_staged
          then do {
            g \<leftarrow> guards_locked c;
            c' \<leftarrow> move_if_possible c US_activating g;
            e \<leftarrow> reads id;
            State_Monad.return
              (case store_campaign (eng_store e) (wki_campaign item) of None \<Rightarrow> c' | Some stored \<Rightarrow> stored)
          }
          else State_Monad.return c);
     e \<leftarrow> reads id;
     let skew = assess_current_skew e c;
     let c = c\<lparr>cmp_last_skew := skew\<rparr>;
     if \<not> sa_within_budget skew
     then do {
       let c = c\<lparr>cmp_block_reason := ''version skew budget exceeded after activating '' @ wki_target item @
                 '': '' @ sa_summary skew\<rparr>;
       g \<leftarrow> guards_locked c;
       c' \<leftarrow> move_if_possible c US_blocked (g\<lparr>g_failure_recorded := True\<rparr>);
       ok_op ()
     }
     else do {
       g \<leftarrow> guards_locked c;
       if g_activation_complete g
       then do { c' \<leftarrow> move_if_possible c US_verifying g; ok_op () }
       else ok_op ()
     }
   }"

definition commit_activate ::
    "work_item \<Rightarrow> operation_outcome \<Rightarrow> timestamp \<Rightarrow> attempt_record \<Rightarrow> campaign_record \<Rightarrow> ('w, status) engine_op" where
  "commit_activate item outcome now a c =
     (let act = opo_activate outcome
      in if opo_gate_refused outcome then commit_refused item (opo_gate_reason outcome) now a c
      else if ao_activated act \<or> ao_already_active act
      then try_op (engine_put_attempt (a\<lparr>att_state := AS_activated, att_activation_observed := True,
               att_last_error := [], att_updated_at := now, att_revision := advance (att_revision a)\<rparr>) now) (\<lambda>_.
           try_op (append_provenance_locked item PO_applied (ao_detail act) now) (\<lambda>_.
           after_activation item c))
      else try_op (engine_put_attempt (a\<lparr>att_state := AS_failed, att_last_error := ao_detail act,
               att_updated_at := now\<rparr>) now) (\<lambda>_.
           fail_locked c (''activation failed on '' @ wki_target item @ '': '' @ ao_detail act)))"

text \<open>A verified stage: the next one starts, or the campaign tries to complete.\<close>

definition complete_stage :: "timestamp \<Rightarrow> campaign_record \<Rightarrow> campaign_record" where
  "complete_stage now c =
     c\<lparr>cmp_stages := (cmp_stages c)[cmp_active_stage c :=
           (cmp_stages c ! cmp_active_stage c)\<lparr>spg_state := SS_completed, spg_completed_at := now\<rparr>],
       cmp_revision := advance (cmp_revision c), cmp_updated_at := now\<rparr>"

definition next_stage :: "campaign_record \<Rightarrow> campaign_record" where
  "next_stage c =
     (let i = cmp_active_stage c + 1
      in c\<lparr>cmp_active_stage := i, cmp_stages := (cmp_stages c)[i := (cmp_stages c ! i)\<lparr>spg_state := SS_pending\<rparr>]\<rparr>)"

definition finish_stage :: "timestamp \<Rightarrow> campaign_record \<Rightarrow> ('w, status) engine_op" where
  "finish_stage now c = do {
     let c = complete_stage now c;
     if cmp_active_stage c + 1 < length (cmp_stages c)
     then do {
       let c = next_stage c;
       try_op (engine_put_campaign c now) (\<lambda>_. do {
         g \<leftarrow> guards_locked c;
         c' \<leftarrow> move_if_possible c US_staged g;
         ok_op ()
       })
     }
     else try_op (engine_put_campaign c now) (\<lambda>_. do {
       g \<leftarrow> guards_locked c;
       (completed, c') \<leftarrow> transition_locked c US_completed g;
       case completed of
         Inr _ \<Rightarrow> ok_op ()
       | Inl e \<Rightarrow> do {
           decide DK_verify c' DO_defer ''hold campaign completion'' (error_to_string e)
             [input_of ''verification'' ''fresh and passed'',
              input_of ''stages'' (dec_digits (length (cmp_stages c')))] [] [];
           ok_op ()
         }
     })
   }"

definition verification_of :: "'w engine \<Rightarrow> work_item \<Rightarrow> operation_outcome \<Rightarrow> timestamp \<Rightarrow> verification_result" where
  "verification_of e item outcome now = assess_verification
     \<lparr>vfi_artifact = Some (wki_artifact item), vfi_outcome = opo_verify outcome,
      vfi_policy = Some (eng_policy e), vfi_now = now, vfi_incarnation = eng_incarnation e,
      vfi_require_health = pol_require_health_gate (eng_policy e), vfi_health = opo_health outcome\<rparr>"

definition commit_verify ::
    "work_item \<Rightarrow> operation_outcome \<Rightarrow> timestamp \<Rightarrow> attempt_record \<Rightarrow> campaign_record \<Rightarrow> ('w, status) engine_op" where
  "commit_verify item outcome now a c = do {
     e \<leftarrow> reads id;
     let v = opo_verify outcome;
     let verification = verification_of e item outcome now;
     if vfr_verified verification
     then try_op (engine_put_attempt (a\<lparr>att_state := AS_verified, att_evidence_at := vo_observed_at v,
              att_evidence_validity := vo_validity v, att_observed_version := vo_observed_version v,
              att_observed_build := vo_observed_build v, att_last_error := [], att_updated_at := now,
              att_revision := advance (att_revision a)\<rparr>) now) (\<lambda>_.
          try_op (append_provenance_locked item PO_verified (vfr_summary verification) now) (\<lambda>_. do {
            e \<leftarrow> reads id;
            if stage_all e c (wki_stage item) (\<lambda>s. s = AS_verified) then finish_stage now c else ok_op ()
          }))
     else if att_retries a < pol_max_retries_per_operation (eng_policy e)
     then engine_put_attempt (a\<lparr>att_retries := att_retries a + 1, att_state := AS_activated,
              att_last_error := join_failures (vfr_failures verification), att_updated_at := now,
              att_operation_index := advance (att_operation_index a)\<rparr>) now
     else try_op (engine_put_attempt (a\<lparr>att_state := AS_failed,
              att_last_error := join_failures (vfr_failures verification), att_updated_at := now\<rparr>) now) (\<lambda>_.
          fail_locked c (''verification failed on '' @ wki_target item @ '': '' @
            join_failures (vfr_failures verification)))
   }"

definition commit_rollback ::
    "work_item \<Rightarrow> rollback_outcome \<Rightarrow> timestamp \<Rightarrow> attempt_record \<Rightarrow> campaign_record \<Rightarrow> ('w, status) engine_op" where
  "commit_rollback item r now a c =
     (if ro_rolled_back r \<or> ro_already_rolled_back r
      then try_op (engine_put_attempt (a\<lparr>att_state := AS_rolled_back, att_last_error := [],
               att_updated_at := now, att_revision := advance (att_revision a)\<rparr>) now) (\<lambda>_.
           try_op (append_provenance_locked item PO_rolled_back (ro_detail r) now) (\<lambda>_. do {
             g \<leftarrow> guards_locked c;
             if g_rollback_complete g
             then do {
               let c = c\<lparr>cmp_rollback_performed := True\<rparr>;
               try_op (engine_put_campaign c now) (\<lambda>_. do {
                 c' \<leftarrow> move_if_possible c US_rolled_back g;
                 ok_op ()
               })
             }
             else ok_op ()
           }))
      else try_op (engine_put_attempt (a\<lparr>att_state := AS_failed, att_last_error := ro_detail r,
               att_updated_at := now\<rparr>) now) (\<lambda>_. do {
             let c = c\<lparr>cmp_failure_reason := ''rollback failed on '' @ wki_target item @ '': '' @ ro_detail r\<rparr>;
             g \<leftarrow> guards_locked c;
             c' \<leftarrow> move_if_possible c US_failed (g\<lparr>g_failure_recorded := True\<rparr>);
             ok_op ()
           }))"

definition commit_locked ::
    "work_item \<Rightarrow> operation_outcome \<Rightarrow> attempt_record \<Rightarrow> campaign_record \<Rightarrow> ('w, status) engine_op" where
  "commit_locked item outcome a c = do {
     now \<leftarrow> clock_now;
     case wki_kind item of
       OP_prepare \<Rightarrow> commit_prepare item (opo_prepare outcome) now a c
     | OP_activate \<Rightarrow> commit_activate item outcome now a c
     | OP_verify \<Rightarrow> commit_verify item outcome now a c
     | OP_rollback \<Rightarrow> commit_rollback item (opo_rollback outcome) now a c
   }"

definition commit_item :: "work_item \<Rightarrow> operation_outcome \<Rightarrow> ('w, status) engine_op" where
  "commit_item item outcome = do {
     e \<leftarrow> reads id;
     case (store_attempt (eng_store e) (wki_attempt item), store_campaign (eng_store e) (wki_campaign item)) of
       (Some a, Some c) \<Rightarrow>
         (case check_fence e item (expected_state_for (wki_kind item)) of
            Inl err \<Rightarrow> do {
              decide DK_fence c DO_deny
                (''reject the stale '' @ operation_kind_name (wki_kind item) @ '' result'') (error_to_string err)
                [input_of ''attempt'' (wki_attempt item), input_of ''operation'' (operation_kind_name (wki_kind item))]
                [] [];
              State_Monad.return (Inl err)
            }
          | Inr _ \<Rightarrow> commit_locked item outcome a c)
     | _ \<Rightarrow> stop EC_fenced ''the attempt or campaign disappeared before commit'' (wki_attempt item)
   }"

end
