(* ===== verification/Engine_Execute.thy ===== *)
theory Engine_Execute
  imports Engine_Commit
begin

text \<open>
  Running work items (\<open>engine/engine_run.cpp\<close>): the maintenance ticket and the health gate before an
  activation, the adapter calls with their bounded retries, the lost acknowledgement, and the drivers that plan and
  run items until nothing is ready.
\<close>

definition is_retryable :: "error_code \<Rightarrow> bool" where
  "is_retryable code \<longleftrightarrow>
     code = EC_timeout \<or> code = EC_io_error \<or> code = EC_internal \<or> code = EC_resource_exhausted"

text \<open>The outcome of an item whose target names an adapter nobody registered.\<close>

definition missing_adapter :: "work_item \<Rightarrow> operation_outcome" where
  "missing_adapter item =
     (let detail = ''no adapter is registered for '' @ tgt_adapter (wki_descriptor item);
          outcome = no_outcome (wki_kind item)
      in case wki_kind item of
           OP_prepare \<Rightarrow> outcome\<lparr>opo_prepare := no_prepare\<lparr>po_detail := detail\<rparr>\<rparr>
         | OP_activate \<Rightarrow> outcome\<lparr>opo_activate := no_activate\<lparr>ao_detail := detail\<rparr>\<rparr>
         | OP_verify \<Rightarrow> outcome\<lparr>opo_verify := no_verify\<lparr>vo_detail := detail\<rparr>\<rparr>
         | OP_rollback \<Rightarrow> outcome\<lparr>opo_rollback := no_rollback_outcome\<lparr>ro_detail := detail\<rparr>\<rparr>)"

definition operation_for :: "'w engine \<Rightarrow> work_item \<Rightarrow> timestamp \<Rightarrow> target_operation" where
  "operation_for e item now =
     \<lparr>top_fence = \<lparr>fen_campaign = wki_campaign item, fen_generation = wki_generation item,
        fen_incarnation = eng_incarnation e, fen_attempt = wki_attempt item,
        fen_authority = tgt_authority (wki_descriptor item)\<rparr>,
      top_key = \<lparr>opk_campaign = wki_campaign item, opk_generation = wki_generation item,
        opk_stage = wki_stage item, opk_target = wki_target item,
        opk_operation = operation_kind_name (wki_kind item),
        opk_index = (case store_attempt (eng_store e) (wki_attempt item) of
          None \<Rightarrow> 1 | Some a \<Rightarrow> att_operation_index a)\<rparr>,
      top_target = wki_descriptor item, top_artifact = wki_artifact item,
      top_payload_path = wki_payload_path item, top_strategy = wki_strategy item, top_now = now,
      top_epoch = wki_epoch item, top_retry = False\<rparr>"

subsection \<open>Gates before an activation\<close>

text \<open>The maintenance ticket is kept under the stage: the first target of a stage acquires it.\<close>

definition drain_gate :: "work_item \<Rightarrow> timestamp \<Rightarrow> ('w, status) engine_op" where
  "drain_gate item now = do {
     e \<leftarrow> reads id;
     case dep_drain (eng_deps e) of
       None \<Rightarrow> ok_op ()
     | Some drain \<Rightarrow>
         if wki_kind item \<noteq> OP_activate \<or> \<not> wki_service_removal item then ok_op ()
         else if table_get (eng_drain_tickets e) (wki_stage item) \<noteq> None then ok_op ()
         else try_op (call (drp_acquire drain
                \<lparr>dr_target = wki_target item, dr_component = art_component (wki_artifact item),
                 dr_reason = ''upgrade campaign '' @ wki_campaign item, dr_correlation = wki_attempt item,
                 dr_at = now\<rparr>)) (\<lambda>ticket. do {
              changes (\<lambda>e. e\<lparr>eng_drain_tickets := table_put (eng_drain_tickets e) (wki_stage item) ticket\<rparr>);
              ok_op ()
            })
   }"

definition judge_health :: "'w engine \<Rightarrow> timestamp \<Rightarrow> health_report \<Rightarrow> operation_outcome \<Rightarrow> operation_outcome" where
  "judge_health e now report outcome =
     (let outcome = outcome\<lparr>opo_health := report, opo_has_health := True\<rparr>;
          freshness = evaluate_freshness (hr_observed_at report) (hr_validity report) (hr_incarnation report)
            now (eng_incarnation e)
      in if \<not> fre_fresh freshness
         then outcome\<lparr>opo_gate_refused := True,
                opo_gate_reason := ''health evidence is not fresh: '' @ fre_reason freshness\<rparr>
         else if \<not> hr_healthy report
         then outcome\<lparr>opo_gate_refused := True,
                opo_gate_reason := ''the health gate reports the target unhealthy: '' @ hr_detail report\<rparr>
         else outcome)"

definition observed_health :: "policy \<Rightarrow> target_observation \<Rightarrow> health_report" where
  "observed_health p v =
     \<lparr>hr_healthy = obs_healthy v, hr_checks = [''adapter observation''], hr_detail = obs_health_detail v,
      hr_observed_at = obs_observed_at v, hr_validity = pol_health_validity p, hr_incarnation = obs_incarnation v\<rparr>"

definition health_gate ::
    "'w adapter_port \<Rightarrow> work_item \<Rightarrow> timestamp \<Rightarrow> operation_outcome \<Rightarrow> ('w, operation_outcome) engine_op" where
  "health_gate adapter item now outcome = do {
     e \<leftarrow> reads id;
     if wki_kind item \<noteq> OP_activate \<or> \<not> pol_require_health_gate (eng_policy e)
     then State_Monad.return outcome
     else (case dep_health (eng_deps e) of
       Some probe \<Rightarrow> do {
         probed \<leftarrow> call (probe (wki_target item) now (eng_incarnation e));
         State_Monad.return (case probed of
             Inr report \<Rightarrow> judge_health e now report outcome
           | Inl err \<Rightarrow> outcome\<lparr>opo_gate_refused := True,
               opo_gate_reason := ''the health probe failed: '' @ error_to_string err\<rparr>)
       }
     | None \<Rightarrow> do {
         observed \<leftarrow> call (adp_observe adapter (wki_target item) now (eng_incarnation e));
         State_Monad.return (case observed of
             Inr v \<Rightarrow>
               if \<not> obs_health_known v then outcome\<lparr>opo_gate_refused := False\<rparr>
               else judge_health e now (observed_health (eng_policy e) v) outcome
           | Inl err \<Rightarrow> outcome\<lparr>opo_gate_refused := True,
               opo_gate_reason :=
                 ''the target could not be observed for a health gate: '' @ error_to_string err\<rparr>)
       })
   }"

subsection \<open>Adapter calls\<close>

text \<open>
  \<open>for (;;)\<close>: call, and again while the failure may pass and retries are left.  What the last failure leaves
  in the outcome is \<open>failed\<close>.
\<close>

lemma unat_Suc_retries: "r < n \<Longrightarrow> unat (r + 1) = Suc (unat (r :: u32))"
proof -
  assume "r < n"
  then have "1 + r \<noteq> 0"
    by (metis add.commute eq_neg_iff_add_eq_0 word_not_simps(3))
  then show ?thesis by (simp add: unatSuc add.commute)
qed

lemma retries_left: "\<not> n \<le> r \<Longrightarrow> unat n - unat (r + 1 :: u32) < unat n - unat r"
  using unat_Suc_retries [of r n] by (simp add: not_le word_less_nat_alt)

function retry_call ::
    "(target_operation \<Rightarrow> ('w, 'a result) call) \<Rightarrow> (error \<Rightarrow> 'a) \<Rightarrow> u32 \<Rightarrow> u32 \<Rightarrow> target_operation \<Rightarrow>
     ('w, 'a) engine_op" where
  "retry_call f failed limit retries operation = do {
     answer \<leftarrow> call (f operation);
     case answer of
       Inr x \<Rightarrow> State_Monad.return x
     | Inl err \<Rightarrow>
         if \<not> is_retryable (err_code err) \<or> retries \<ge> limit then State_Monad.return (failed err)
         else retry_call f failed limit (retries + 1) (operation\<lparr>top_retry := True\<rparr>)
   }"
  by auto
termination
  by (relation "measure (\<lambda>(f, failed, limit, retries, operation). unat limit - unat retries)")
    (auto simp: retries_left)

declare retry_call.simps [simp del]

text \<open>
  A lost acknowledgement is not a failure: before an activation is repeated the target is observed, and one that
  already runs the version counts as activated.
\<close>

definition already_applied :: "target_observation \<Rightarrow> activate_outcome" where
  "already_applied v =
     no_activate\<lparr>ao_activated := True, ao_already_active := True, ao_observed_version := obs_version v,
       ao_observed_build := obs_build v,
       ao_detail := ''the activation had already taken effect; the acknowledgement was lost''\<rparr>"

function activate_call ::
    "'w adapter_port \<Rightarrow> work_item \<Rightarrow> timestamp \<Rightarrow> u64 \<Rightarrow> u32 \<Rightarrow> u32 \<Rightarrow> target_operation \<Rightarrow>
     ('w, activate_outcome \<times> bool) engine_op" where
  "activate_call adapter item now current limit retries operation = do {
     answer \<leftarrow> call (adp_activate adapter operation);
     case answer of
       Inr x \<Rightarrow> State_Monad.return (x, False)
     | Inl err \<Rightarrow>
         if \<not> is_retryable (err_code err) \<or> retries \<ge> limit
         then State_Monad.return (no_activate\<lparr>ao_detail := error_to_string err\<rparr>, False)
         else do {
           observed \<leftarrow> call (adp_observe adapter (wki_target item) now current);
           case observed of
             Inr v \<Rightarrow>
               if ver_eq (obs_version v) (art_version (wki_artifact item))
               then State_Monad.return (already_applied v, True)
               else activate_call adapter item now current limit (retries + 1) (operation\<lparr>top_retry := True\<rparr>)
           | Inl _ \<Rightarrow> activate_call adapter item now current limit (retries + 1) (operation\<lparr>top_retry := True\<rparr>)
         }
   }"
  by auto
termination
  by (relation "measure (\<lambda>(adapter, item, now, current, limit, retries, operation). unat limit - unat retries)")
    (auto simp: retries_left)

declare activate_call.simps [simp del]

definition deliver_configuration :: "work_item \<Rightarrow> verify_outcome \<Rightarrow> ('w, verify_outcome) engine_op" where
  "deliver_configuration item v = do {
     e \<leftarrow> reads id;
     case dep_configuration (eng_deps e) of
       None \<Rightarrow> State_Monad.return v
     | Some deliver \<Rightarrow>
         if \<not> vo_verified v then State_Monad.return v
         else do {
           at_time \<leftarrow> clock_now;
           delivered \<leftarrow> call (deliver
             \<lparr>cd_target = wki_target item, cd_component = art_component (wki_artifact item),
              cd_version = art_version (wki_artifact item), cd_build = art_build (wki_artifact item),
              cd_revision = art_build (wki_artifact item), cd_at = at_time\<rparr>);
           State_Monad.return (case delivered of
               Inr _ \<Rightarrow> v
             | Inl err \<Rightarrow> v\<lparr>vo_verified := False,
                 vo_detail := vo_detail v @ ''; configuration delivery failed: '' @ error_to_string err\<rparr>)
         }
   }"

definition perform ::
    "'w adapter_port \<Rightarrow> work_item \<Rightarrow> timestamp \<Rightarrow> target_operation \<Rightarrow> operation_outcome \<Rightarrow>
     ('w, operation_outcome) engine_op" where
  "perform adapter item now operation outcome = do {
     e \<leftarrow> reads id;
     let limit = pol_max_retries_per_operation (eng_policy e);
     case wki_kind item of
       OP_prepare \<Rightarrow> do {
         p \<leftarrow> retry_call (adp_prepare adapter) (\<lambda>err. no_prepare\<lparr>po_detail := error_to_string err\<rparr>) limit 0 operation;
         State_Monad.return (outcome\<lparr>opo_prepare := p\<rparr>)
       }
     | OP_activate \<Rightarrow> do {
         (act, skipped) \<leftarrow> activate_call adapter item now (eng_incarnation e) limit 0 operation;
         State_Monad.return (outcome\<lparr>opo_activate := act, opo_skipped := skipped\<rparr>)
       }
     | OP_verify \<Rightarrow> do {
         v \<leftarrow> retry_call (adp_verify adapter) (\<lambda>err. no_verify\<lparr>vo_detail := error_to_string err\<rparr>) limit 0 operation;
         v \<leftarrow> deliver_configuration item v;
         State_Monad.return (outcome\<lparr>opo_verify := v\<rparr>)
       }
     | OP_rollback \<Rightarrow> do {
         r \<leftarrow> retry_call (adp_rollback adapter) (\<lambda>err. no_rollback_outcome\<lparr>ro_detail := error_to_string err\<rparr>)
               limit 0 operation;
         State_Monad.return (outcome\<lparr>opo_rollback := r\<rparr>)
       }
   }"

text \<open>Everything an item does before its commit.\<close>

definition run_item :: "'w adapter_port \<Rightarrow> work_item \<Rightarrow> timestamp \<Rightarrow> ('w, operation_outcome) engine_op" where
  "run_item adapter item now = do {
     e \<leftarrow> reads id;
     let operation = operation_for e item now;
     drained \<leftarrow> drain_gate item now;
     case drained of
       Inl err \<Rightarrow> State_Monad.return ((no_outcome (wki_kind item))\<lparr>opo_gate_refused := True,
         opo_gate_reason := ''the Drain/Maintenance Fabric refused a maintenance ticket: '' @ error_to_string err\<rparr>)
     | Inr _ \<Rightarrow> do {
         outcome \<leftarrow> health_gate adapter item now (no_outcome (wki_kind item));
         if opo_gate_refused outcome then State_Monad.return outcome
         else perform adapter item now operation outcome
       }
   }"

definition execute_item :: "work_item \<Rightarrow> ('w, status) engine_op" where
  "execute_item item = do {
     now \<leftarrow> clock_now;
     e \<leftarrow> reads id;
     case registry_find (dep_adapters (eng_deps e)) (tgt_adapter (wki_descriptor item)) of
       None \<Rightarrow> commit_item item (missing_adapter item)
     | Some adapter \<Rightarrow> do { outcome \<leftarrow> run_item adapter item now; commit_item item outcome }
   }"

subsection \<open>Drivers\<close>

definition drain_still_needed :: "'w engine \<Rightarrow> stage_id \<Rightarrow> bool" where
  "drain_still_needed e key =
     list_ex (\<lambda>c. list_ex (\<lambda>p. spg_id p = key \<and> \<not> stage_state_is_terminal (spg_state p)) (cmp_stages c))
       (store_campaigns (eng_store e))"

text \<open>A release that fails is only logged; the ticket is gone all the same.\<close>

fun release_tickets :: "'w drain_port \<Rightarrow> drain_ticket list \<Rightarrow> ('w, unit) engine_op" where
  "release_tickets drain [] = State_Monad.return ()"
| "release_tickets drain (t # ts) = do { status \<leftarrow> call (drp_release drain t); release_tickets drain ts }"

definition release_finished_drains :: "('w, unit) engine_op" where
  "release_finished_drains = do {
     e \<leftarrow> reads id;
     let released = filter (\<lambda>(k, t). \<not> drain_still_needed e k) (sort_key fst (eng_drain_tickets e));
     changes (\<lambda>e. e\<lparr>eng_drain_tickets := filter (\<lambda>(k, t). drain_still_needed e k) (eng_drain_tickets e)\<rparr>);
     case dep_drain (eng_deps e) of
       None \<Rightarrow> State_Monad.return ()
     | Some drain \<Rightarrow> release_tickets drain (map snd released)
   }"

text \<open>
  A batch, one item after the other.  With the pool executor the items of a batch run at the same time: the commits
  are still one after the other, and the steps of the engine allow them in any order.
\<close>

fun execute_batch :: "work_item list \<Rightarrow> ('w, unit) engine_op" where
  "execute_batch [] = State_Monad.return ()"
| "execute_batch (item # items) = do { status \<leftarrow> execute_item item; execute_batch items }"

fun run_loop :: "nat \<Rightarrow> nat \<Rightarrow> bool \<Rightarrow> u64 \<Rightarrow> ('w, status) engine_op" where
  "run_loop bound 0 report_exhaustion admitted =
     (if report_exhaustion
      then stop EC_resource_exhausted ''the execution driver reached its iteration bound without going idle''
             (dec_digits bound)
      else ok_op ())"
| "run_loop bound (Suc n) report_exhaustion admitted = do {
     e \<leftarrow> reads id;
     if eng_shutting_down e then stop EC_cancelled ''the engine is shutting down'' ''''
     else do {
       items \<leftarrow> plan_work (cfg_max_work_items (eng_config e));
       if items = []
       then do {
         release_finished_drains;
         admissions \<leftarrow> reads eng_admissions;
         if report_exhaustion \<and> admissions \<noteq> admitted then run_loop bound n report_exhaustion admissions
         else ok_op ()
       }
       else do { execute_batch items; run_loop bound n report_exhaustion admitted }
     }
   }"

definition run_steps_bounded :: "nat \<Rightarrow> bool \<Rightarrow> ('w, status) engine_op" where
  "run_steps_bounded bound report_exhaustion = do {
     e \<leftarrow> reads id;
     if eng_shutting_down e then stop EC_cancelled ''the engine is shutting down'' ''''
     else run_loop bound bound report_exhaustion (eng_admissions e)
   }"

definition run_steps :: "nat \<Rightarrow> ('w, status) engine_op" where
  "run_steps bound = run_steps_bounded bound False"

definition has_in_flight :: "'w engine \<Rightarrow> bool" where
  "has_in_flight e = list_ex (\<lambda>a. attempt_state_is_in_flight (att_state a)) (store_attempts (eng_store e))"

definition is_idle :: "'w engine \<Rightarrow> bool" where
  "is_idle e \<longleftrightarrow> \<not> eng_driver_active e \<and> \<not> has_in_flight e"

text \<open>Waiting returns when the engine is idle; until another thread makes it so there is no answer.\<close>

definition wait_for_idle :: "('w, status option) engine_op" where
  "wait_for_idle = reads (\<lambda>e. if is_idle e then Some ok_status else None)"

text \<open>The loop of the pool driver, over a bound on its passes; \<open>None\<close> is a bound that was too small.\<close>

fun driver_loop :: "nat \<Rightarrow> ('w, status option) engine_op" where
  "driver_loop 0 = State_Monad.return None"
| "driver_loop (Suc n) = do {
     e \<leftarrow> reads id;
     status \<leftarrow> run_steps_bounded (cfg_max_iterations (eng_config e)) True;
     e' \<leftarrow> reads id;
     if eng_admissions e' = eng_admissions e \<or> eng_shutting_down e'
     then do { changes (\<lambda>e. e\<lparr>eng_driver_active := False\<rparr>); State_Monad.return (Some status) }
     else driver_loop n
   }"

definition run_until_idle :: "('w, status option) engine_op" where
  "run_until_idle = do {
     e \<leftarrow> reads id;
     if eng_driver_active e then wait_for_idle
     else do {
       changes (\<lambda>e. e\<lparr>eng_driver_active := True\<rparr>);
       status \<leftarrow> run_steps_bounded (cfg_max_iterations (eng_config e)) True;
       changes (\<lambda>e. e\<lparr>eng_driver_active := False\<rparr>);
       State_Monad.return (Some status)
     }
   }"

definition shutdown :: "('w, status) engine_op" where
  "shutdown = do {
     e \<leftarrow> reads id;
     if eng_shutting_down e then ok_op ()
     else do {
       now \<leftarrow> call (plf_system_clock (eng_platform e));
       changes (\<lambda>e. e\<lparr>eng_shutting_down := True, eng_driver_active := False\<rparr>);
       store_op (\<lambda>d st. store_close d st now)
     }
   }"

end
