(* ===== verification/Engine_Commands.thy ===== *)
theory Engine_Commands
  imports Engine_Execute
begin

text \<open>
  Opening the engine and what its operators ask of it (\<open>engine/engine.cpp\<close>, \<open>engine/engine_ops.cpp\<close>):
  reconciliation after a restart, the inventory, planning, preflight, start, pause, resume, abort and rollback.
  What a command does in one region under the engine's mutex is one definition.
\<close>

subsection \<open>Inventory, artifact and compatibility\<close>

definition inventory_fresh :: "'w engine \<Rightarrow> timestamp \<Rightarrow> bool" where
  "inventory_fresh e now =
     fre_fresh (evaluate_freshness (inv_observed_at (eng_inventory e)) (inv_validity (eng_inventory e))
       (inv_incarnation (eng_inventory e)) now (eng_incarnation e))"

definition take_inventory :: "timestamp \<Rightarrow> target_descriptor list \<Rightarrow> ('w, status) engine_op" where
  "take_inventory now targets = do {
     e \<leftarrow> reads id;
     let snapshot = \<lparr>inv_revision = the_value (counter_try_next (inv_revision (eng_inventory e))) 1,
       inv_incarnation = eng_incarnation e, inv_observed_at = now,
       inv_validity = pol_inventory_validity (eng_policy e), inv_targets = sort_key tgt_id targets\<rparr>;
     case map_result target_validate (inv_targets snapshot) of
       Inl err \<Rightarrow> State_Monad.return (Inl err)
     | Inr _ \<Rightarrow> do { changes (\<lambda>e. e\<lparr>eng_inventory := snapshot\<rparr>); ok_op () }
   }"

text \<open>An engine without an inventory source is never opened.\<close>

definition refresh_inventory :: "timestamp \<Rightarrow> bool \<Rightarrow> ('w, status) engine_op" where
  "refresh_inventory now force = do {
     e \<leftarrow> reads id;
     if \<not> force \<and> inventory_fresh e now then ok_op ()
     else case dep_inventory (eng_deps e) of
       None \<Rightarrow> ok_op ()
     | Some resolve \<Rightarrow> try_op (call (resolve now (eng_incarnation e))) (take_inventory now)
   }"

definition inventory_known :: "'w engine \<Rightarrow> inventory_snapshot result" where
  "inventory_known e =
     (if inv_targets (eng_inventory e) = [] \<and> inv_observed_at (eng_inventory e) = 0
      then fail EC_stale ''no inventory has been resolved yet'' ''''
      else Inr (eng_inventory e))"

definition resolve_artifact :: "artifact_descriptor \<Rightarrow> ('w, (integrity_assessment \<times> string) result) engine_op" where
  "resolve_artifact a = do {
     e \<leftarrow> reads id;
     case dep_artifacts (eng_deps e) of
       None \<Rightarrow> stop EC_not_integrated ''artifact source is not integrated; artifact bytes cannot be resolved'' ''''
     | Some resolve \<Rightarrow> try_op (call (resolve a)) (\<lambda>payload.
         if \<not> apl_present payload
         then stop EC_not_found ''artifact payload is not present'' (apl_detail payload)
         else do {
           (size, content) \<leftarrow> call (plf_artifact_file (eng_platform e) (apl_path payload));
           let assessment = verify_artifact_file a (apl_path payload) size content;
           changes (\<lambda>e. e\<lparr>eng_integrity := assessment, eng_payload_path := apl_path payload\<rparr>);
           ok_op (assessment, apl_path payload)
         })
   }"

definition compatibility_query_for ::
    "'w engine \<Rightarrow> upgrade_plan \<Rightarrow> target_descriptor \<Rightarrow> timestamp \<Rightarrow> compatibility_query" where
  "compatibility_query_for e p d now =
     \<lparr>cq_component = pln_component p, cq_from_version = tgt_installed_version d,
      cq_to_version = art_version (pln_artifact p), cq_to_build = art_build (pln_artifact p),
      cq_platform = tgt_platform d, cq_capabilities = tgt_capabilities d, cq_strategy = pln_strategy p,
      cq_incarnation = eng_incarnation e, cq_at = now\<rparr>"

definition query_target ::
    "(compatibility_query \<Rightarrow> ('w, compatibility_verdict result) call) \<Rightarrow> upgrade_plan \<Rightarrow> inventory_snapshot \<Rightarrow>
     timestamp \<Rightarrow> target_id \<Rightarrow> (string \<rightharpoonup> compatibility_verdict) \<Rightarrow>
     ('w, string \<rightharpoonup> compatibility_verdict) engine_op" where
  "query_target ask p snap now t verdicts =
     (case (verdicts t, inv_find snap t) of
        (None, Some d) \<Rightarrow> do {
          e \<leftarrow> reads id;
          answer \<leftarrow> call (ask (compatibility_query_for e p d now));
          State_Monad.return (verdicts(t \<mapsto>
            (case answer of
               Inr v \<Rightarrow> v
             | Inl err \<Rightarrow> no_verdict\<lparr>cv_answered := False, cv_detail := error_to_string err\<rparr>)))
        }
      | _ \<Rightarrow> State_Monad.return verdicts)"

definition query_compatibility ::
    "upgrade_plan \<Rightarrow> inventory_snapshot \<Rightarrow> timestamp \<Rightarrow> ('w, string \<rightharpoonup> compatibility_verdict) engine_op" where
  "query_compatibility p snap now = do {
     e \<leftarrow> reads id;
     case dep_compatibility (eng_deps e) of
       None \<Rightarrow> State_Monad.return Map.empty
     | Some ask \<Rightarrow> fold_op (query_target ask p snap now) (plan_targets p) Map.empty
   }"

subsection \<open>Planning\<close>

definition engine_plan :: "upgrade_plan_request \<Rightarrow> ('w, upgrade_plan result) engine_op" where
  "engine_plan req = do {
     now \<leftarrow> clock_now;
     try_op (refresh_inventory now False) (\<lambda>_. do {
       e \<leftarrow> reads id;
       State_Monad.return (build_plan req (eng_inventory e) (Some (eng_policy e)) now)
     })
   }"

definition new_campaign ::
    "'w engine \<Rightarrow> upgrade_plan_request \<Rightarrow> upgrade_plan \<Rightarrow> timestamp \<Rightarrow> campaign_record" where
  "new_campaign e req p now =
     \<lparr>cmp_id = pln_campaign p, cmp_generation = 1, cmp_epoch = eng_epoch e, cmp_authority = req_authority req,
      cmp_component = req_component req, cmp_state = US_proposed, cmp_strategy = req_strategy req,
      cmp_artifact = req_artifact req, cmp_plan = p,
      cmp_stages = map (\<lambda>stage. \<lparr>spg_id = stg_id stage, spg_state = SS_pending, spg_attempts = [],
        spg_started_at = 0, spg_completed_at = 0, spg_detail = []\<rparr>) (pln_stages p),
      cmp_active_stage = 0, cmp_revision = 1, cmp_owner_incarnation = eng_incarnation e,
      cmp_created_at = now, cmp_updated_at = now,
      cmp_irreversible_acknowledged = req_acknowledge_irreversible req,
      cmp_acknowledged_steps = req_acknowledged_steps req, cmp_block_reason = [], cmp_failure_reason = [],
      cmp_pause_reason = [], cmp_rollback_plan = [], cmp_rollback_artifact = [],
      cmp_rollback_eligible = rbc_reversible (art_rollback (req_artifact req)),
      cmp_rollback_performed = False, cmp_attempts_started = 0, cmp_decisions_recorded = 0,
      cmp_ticket = no_ticket, cmp_last_skew = skew_initial\<rparr>"

text \<open>Between the check of the identity and the insertion the mutex is released.\<close>

definition insert_campaign :: "campaign_record \<Rightarrow> upgrade_plan \<Rightarrow> timestamp \<Rightarrow> ('w, status) engine_op" where
  "insert_campaign c p now =
     try_op (engine_put_campaign c now) (\<lambda>_. do {
       decide DK_plan c (if plan_executable p then DO_allow else DO_deny)
         (if plan_executable p then ''campaign created with an executable plan''
          else ''campaign created with a rejected plan'')
         (if plan_executable p then ''the plan passed every planning gate''
          else ''the plan carries '' @ dec_digits (length (pln_rejections p)) @ '' rejection(s)'')
         [input_of ''strategy'' (strategy_kind_name (pln_strategy p)),
          input_of ''stages'' (dec_digits (length (pln_stages p))),
          input_of ''targets'' (dec_digits (plan_target_count p)),
          input_of ''plan_fingerprint'' (plan_fingerprint p)] [] [];
       ok_op ()
     })"

definition create_campaign :: "upgrade_plan_request \<Rightarrow> ('w, upgrade_plan result) engine_op" where
  "create_campaign req = do {
     now \<leftarrow> clock_now;
     try_op (engine_plan req) (\<lambda>p. do {
       e \<leftarrow> reads id;
       if store_campaign (eng_store e) (pln_campaign p) \<noteq> None
       then stop EC_already_exists ''a campaign with this identity already exists'' (pln_campaign p)
       else try_op (insert_campaign (new_campaign e req p now) p now) (\<lambda>_. ok_op p)
     })
   }"

subsection \<open>Preflight\<close>

definition preflight_input_for ::
    "'w engine \<Rightarrow> campaign_record \<Rightarrow> inventory_snapshot \<Rightarrow> timestamp \<Rightarrow>
     (integrity_assessment \<times> string) result \<Rightarrow> (string \<rightharpoonup> compatibility_verdict) \<Rightarrow> preflight_input" where
  "preflight_input_for e c snap now integrity verdicts =
     \<lparr>pfi_campaign = Some c, pfi_plan = Some (cmp_plan c), pfi_policy = Some (eng_policy e),
      pfi_inventory = snap,
      pfi_integrity = (case integrity of
        Inr (i, path) \<Rightarrow> i | Inl err \<Rightarrow> no_integrity\<lparr>int_detail := error_to_string err\<rparr>),
      pfi_payload = (case integrity of
        Inr (i, path) \<Rightarrow> no_payload\<lparr>apl_path := path, apl_bytes := int_bytes i, apl_present := True\<rparr>
      | Inl err \<Rightarrow> no_payload\<lparr>apl_present := False, apl_detail := error_to_string err\<rparr>),
      pfi_verdicts = verdicts, pfi_now = now, pfi_incarnation = eng_incarnation e, pfi_epoch = eng_epoch e,
      pfi_registry_integrated = (dep_compatibility (eng_deps e) \<noteq> None),
      pfi_drain_integrated = (dep_drain (eng_deps e) \<noteq> None),
      pfi_source_integrated = (dep_artifacts (eng_deps e) \<noteq> None), pfi_evidence_fresh = True\<rparr>"

definition preflight_admit ::
    "preflight_report \<Rightarrow> timestamp \<Rightarrow> campaign_record \<Rightarrow> ('w, campaign_record result) engine_op" where
  "preflight_admit report now c = do {
     let c = c\<lparr>cmp_ticket := report_ticket report\<rparr>;
     g \<leftarrow> guards_locked c;
     let g = g\<lparr>g_preflight_current := True,
               g_artifact_integrity_verified := int_verified (pfr_integrity report)\<rparr>;
     let c = c\<lparr>cmp_revision := advance (cmp_revision c), cmp_updated_at := now\<rparr>;
     try_op (engine_put_campaign c now) (\<lambda>_.
     try_op (engine_put_ticket (report_ticket report) now) (\<lambda>_.
       if cmp_state c = US_proposed \<or> cmp_state c = US_blocked \<or> cmp_state c = US_paused
       then try_move c US_validated g ok_op
       else ok_op c))
   }"

definition preflight_refuse ::
    "preflight_report \<Rightarrow> timestamp \<Rightarrow> campaign_record \<Rightarrow> ('w, campaign_record result) engine_op" where
  "preflight_refuse report now c = do {
     let c = c\<lparr>cmp_ticket := no_ticket, cmp_revision := advance (cmp_revision c), cmp_updated_at := now,
       cmp_block_reason := (case pfr_blockers report of [] \<Rightarrow> ''preflight failed'' | b # _ \<Rightarrow> b)\<rparr>;
     try_op (engine_put_campaign c now) (\<lambda>_.
       if cmp_state c = US_proposed
       then do { g \<leftarrow> guards_locked c; try_move c US_blocked (g\<lparr>g_failure_recorded := True\<rparr>) ok_op }
       else ok_op c)
   }"

definition preflight_commit ::
    "campaign_id \<Rightarrow> digest \<Rightarrow> u64 \<Rightarrow> preflight_report \<Rightarrow> timestamp \<Rightarrow> ('w, status) engine_op" where
  "preflight_commit cid digest revision report now = do {
     e \<leftarrow> reads id;
     case store_campaign (eng_store e) cid of
       None \<Rightarrow> stop EC_not_found ''campaign disappeared during preflight'' cid
     | Some c \<Rightarrow>
         let c = c\<lparr>cmp_last_skew := pfr_skew report\<rparr>
         in try_op (if pfr_passed report then preflight_admit report now c else preflight_refuse report now c) (\<lambda>c. do {
           decide DK_preflight c (if pfr_passed report then DO_allow else DO_deny)
             (if pfr_passed report then ''admit the campaign for execution'' else ''refuse execution'')
             (if pfr_passed report then ''every preflight gate passed''
              else ''preflight blockers: '' @ (case pfr_blockers report of [] \<Rightarrow> ''unspecified'' | b # _ \<Rightarrow> b))
             [input_of ''blockers'' (dec_digits (length (pfr_blockers report))),
              input_of ''targets'' (dec_digits (length (pfr_targets report))),
              input_of ''artifact_digest'' digest, input_of ''inventory_revision'' (u64_to_string revision)] []
             [\<lparr>dev_id = ''inventory/'' @ u64_to_string revision, dev_source = ''inventory-probe'',
               dev_summary = ''inventory revision '' @ u64_to_string revision\<rparr>,
              \<lparr>dev_id = ''integrity/'' @ take 16 digest, dev_source = ''artifact-integrity'',
               dev_summary = int_detail (pfr_integrity report)\<rparr>];
           ok_op ()
         })
   }"

definition preflight :: "campaign_id \<Rightarrow> ('w, preflight_report result) engine_op" where
  "preflight cid = do {
     now \<leftarrow> clock_now;
     e \<leftarrow> reads id;
     case store_campaign (eng_store e) cid of
       None \<Rightarrow> stop EC_not_found ''unknown campaign'' cid
     | Some c \<Rightarrow> try_op (refresh_inventory now True) (\<lambda>_. do {
         snap \<leftarrow> reads eng_inventory;
         integrity \<leftarrow> resolve_artifact (cmp_artifact c);
         verdicts \<leftarrow> query_compatibility (cmp_plan c) snap now;
         e \<leftarrow> reads id;
         let report = run_preflight (preflight_input_for e c snap now integrity verdicts);
         try_op (preflight_commit cid (art_digest (cmp_artifact c)) (inv_revision snap) report now) (\<lambda>_. ok_op report)
       })
   }"

subsection \<open>Start\<close>

definition rollback_plan_text :: "campaign_record \<Rightarrow> bool \<Rightarrow> string" where
  "rollback_plan_text c supported =
     (let rb = art_rollback (cmp_artifact c)
      in if \<not> rbc_reversible rb
         then ''no rollback: the artifact declares the boundary '' @ [CHR 0x27] @
              (if rbc_boundary rb = [] then ''unspecified'' else rbc_boundary rb) @ [CHR 0x27] @ '' and cannot be reversed''
         else if \<not> supported
         then ''no rollback: at least one target adapter does not claim rollback support''
         else if rbc_rollback_artifact rb \<noteq> []
         then ''restore artifact '' @ rbc_rollback_artifact rb @
              '' on every activated target through the adapter rollback path''
         else ''re-activate the previously installed build on every activated target through the '' @
              ''adapter rollback path'')"

definition step_list :: "step_id list \<Rightarrow> string" where
  "step_list steps = foldl (\<lambda>out step. (if out \<noteq> [] then out @ '', '' else out) @ step) [] steps"

definition plan_rejected_detail :: "upgrade_plan \<Rightarrow> string" where
  "plan_rejected_detail p =
     (case pln_rejections p of
        [] \<Rightarrow> ''unspecified rejection''
      | r # _ \<Rightarrow> plan_rejection_name (prj_code r) @ '': '' @ prj_detail r)"

text \<open>What has to hold before a campaign may be admitted, in the order of the code.\<close>

definition start_refusal :: "'w engine \<Rightarrow> campaign_record \<Rightarrow> timestamp \<Rightarrow> status" where
  "start_refusal e c now =
     (if upgrade_state_is_terminal (cmp_state c)
      then fail EC_precondition_failed ''the campaign is already terminal'' (upgrade_state_name (cmp_state c))
      else if upgrade_state_is_active (cmp_state c)
      then fail EC_precondition_failed ''the campaign is already executing'' (upgrade_state_name (cmp_state c))
      else if \<not> plan_executable (cmp_plan c)
      then fail EC_precondition_failed ''the plan is rejected and cannot be executed'' (plan_rejected_detail (cmp_plan c))
      else if \<not> fst (ticket_current e c now)
      then fail EC_stale ''preflight is not current; run preflight before starting'' (snd (ticket_current e c now))
      else ok_status)"

definition start_record :: "'w engine \<Rightarrow> campaign_record \<Rightarrow> start_options \<Rightarrow> campaign_record" where
  "start_record e c options =
     (let supported = adapters_support_rollback e c;
          rb = art_rollback (cmp_artifact c);
          c = c\<lparr>cmp_rollback_eligible := rbc_reversible rb \<and> supported,
                cmp_rollback_artifact := rbc_rollback_artifact rb,
                cmp_rollback_plan := rollback_plan_text c supported\<rparr>
      in if sop_allow_irreversible options \<and> \<not> cmp_irreversible_acknowledged c
         then c\<lparr>cmp_irreversible_acknowledged := True,
                cmp_acknowledged_steps := pln_irreversible_steps (cmp_plan c)\<rparr>
         else c)"

text \<open>The new execution generation; the ticket is bound to it again.\<close>

definition start_generation :: "'w engine \<Rightarrow> campaign_record \<Rightarrow> timestamp \<Rightarrow> campaign_record" where
  "start_generation e c now =
     (let generation = advance (cmp_generation c)
      in c\<lparr>cmp_generation := generation, cmp_owner_incarnation := eng_incarnation e,
           cmp_ticket := (cmp_ticket c)\<lparr>tik_generation := generation\<rparr>, cmp_updated_at := now,
           cmp_revision := advance (cmp_revision c)\<rparr>)"

text \<open>The moves of a started campaign: released, validated again if it was held, prepared.\<close>

definition start_moves :: "campaign_record \<Rightarrow> transition_guards \<Rightarrow> ('w, campaign_record result) engine_op" where
  "start_moves c g =
     (let prepare = (\<lambda>c g. if cmp_state c = US_validated then try_move c US_prepared g ok_op else ok_op c)
      in if cmp_state c = US_paused \<or> cmp_state c = US_blocked
         then try_move (c\<lparr>cmp_pause_reason := [], cmp_block_reason := []\<rparr>) US_validated
                (g\<lparr>g_manual_release_required := True\<rparr>)
                (\<lambda>c. prepare c (g\<lparr>g_manual_release_required := True\<rparr>))
         else prepare c g)"

definition start_admit :: "campaign_id \<Rightarrow> start_options \<Rightarrow> timestamp \<Rightarrow> ('w, string result) engine_op" where
  "start_admit cid options now = do {
     e \<leftarrow> reads id;
     case store_campaign (eng_store e) cid of
       None \<Rightarrow> stop EC_not_found ''unknown campaign'' cid
     | Some stored \<Rightarrow>
         try_op (State_Monad.return (start_refusal e stored now)) (\<lambda>_. do {
           let c = start_record e stored options;
           g \<leftarrow> guards_locked c;
           let acknowledged = (pln_irreversible_steps (cmp_plan c) = [] \<or> cmp_irreversible_acknowledged c);
           let g = g\<lparr>g_rollback_plan_recorded := True, g_irreversible_acknowledged := acknowledged\<rparr>;
           if \<not> acknowledged
           then stop EC_irreversible
             (''the plan contains irreversible steps that the operator has not '' @ ''acknowledged'')
             (step_list (pln_irreversible_steps (cmp_plan c)))
           else if cmp_state c = US_proposed
           then stop EC_precondition_failed ''a campaign must pass preflight before it can start''
             (upgrade_state_name (cmp_state c))
           else do {
             e \<leftarrow> reads id;
             let previous = cmp_generation c;
             let c = start_generation e c now;
             try_op (engine_put_campaign c now) (\<lambda>_.
             try_op (engine_put_ticket (cmp_ticket c) now) (\<lambda>_. do {
               decide DK_admit c DO_allow ''admit the campaign for execution''
                 ''preflight is current and the rollback plan is recorded''
                 [input_of ''previous_generation'' (u64_to_string previous),
                  input_of ''execution_generation'' (u64_to_string (cmp_generation c)),
                  input_of ''rollback_eligible'' (if cmp_rollback_eligible c then ''true'' else ''false''),
                  input_of ''rollback_plan'' (cmp_rollback_plan c),
                  input_of ''ticket_fingerprint'' (tik_fingerprint (cmp_ticket c))]
                 [alternative_of ''execute without a rollback plan''
                    ''rollback readiness must be known before the first activation''] [];
               try_op (start_moves c g) (\<lambda>c. do {
                 e \<leftarrow> reads id;
                 ok_op (case table_get (eng_rollout_changes e) (cmp_id c) of None \<Rightarrow> [] | Some change \<Rightarrow> change)
               })
             }))
           }
         })
   }"

definition rollout_request_for ::
    "'w engine \<Rightarrow> campaign_id \<Rightarrow> start_options \<Rightarrow> timestamp \<Rightarrow> rollout_request" where
  "rollout_request_for e cid options now =
     (let r = \<lparr>rr_campaign = cid, rr_authority = [], rr_component = [], rr_description = sop_reason options,
               rr_target_count = 0, rr_incarnation = eng_incarnation e, rr_at = now\<rparr>
      in case store_campaign (eng_store e) cid of
           None \<Rightarrow> r
         | Some c \<Rightarrow> r\<lparr>rr_authority := cmp_authority c, rr_component := cmp_component c,
             rr_description := pln_description (cmp_plan c), rr_target_count := plan_target_count (cmp_plan c)\<rparr>)"

definition start_rollout ::
    "campaign_id \<Rightarrow> start_options \<Rightarrow> timestamp \<Rightarrow> string \<Rightarrow> ('w, status) engine_op" where
  "start_rollout cid options now change = do {
     e \<leftarrow> reads id;
     case dep_rollout (eng_deps e) of
       None \<Rightarrow> ok_op ()
     | Some admit \<Rightarrow>
         if change \<noteq> [] \<or> sop_dry_run options then ok_op ()
         else try_op (call (admit (rollout_request_for e cid options now))) (\<lambda>admission.
           if \<not> ra_admitted admission
           then stop EC_policy_denied ''the Change Planner/Rollout Fabric refused admission'' (ra_detail admission)
           else do {
             changes (\<lambda>e. e\<lparr>eng_rollout_changes := table_put (eng_rollout_changes e) cid (ra_change_id admission)\<rparr>);
             ok_op ()
           })
   }"

definition start_driver :: "('w, status) engine_op" where
  "start_driver = do {
     changes (\<lambda>e. e\<lparr>eng_admissions := eng_admissions e + 1\<rparr>);
     e \<leftarrow> reads id;
     if \<not> eng_pool_mode e \<or> eng_driver_active e then ok_op ()
     else do {
       changes (\<lambda>e. e\<lparr>eng_driver_active := True\<rparr>);
       submitted \<leftarrow> call (plf_submit (eng_platform e));
       case submitted of
         Inr _ \<Rightarrow> ok_op ()
       | Inl err \<Rightarrow> do { changes (\<lambda>e. e\<lparr>eng_driver_active := False\<rparr>); State_Monad.return (Inl err) }
     }
   }"

definition refuse_after_shutdown :: "('w, 'a result) engine_op \<Rightarrow> ('w, 'a result) engine_op" where
  "refuse_after_shutdown m = do {
     stopping \<leftarrow> reads eng_shutting_down;
     if stopping then stop EC_cancelled ''the engine has been shut down'' '''' else m
   }"

definition start :: "campaign_id \<Rightarrow> start_options \<Rightarrow> ('w, status) engine_op" where
  "start cid options = refuse_after_shutdown (do {
     now \<leftarrow> clock_now;
     try_op (start_admit cid options now) (\<lambda>change.
     try_op (start_rollout cid options now change) (\<lambda>_.
       if sop_dry_run options then ok_op () else start_driver))
   })"

end
