(* ===== verification/Engine_Control.thy ===== *)
theory Engine_Control
  imports Engine_Commands
begin

text \<open>
  The rest of the operator's commands (\<open>engine/engine_ops.cpp\<close>): pause, resume, abort and rollback;
  opening an engine with its reconciliation (\<open>engine/engine.cpp\<close>); and what can be asked of a running one.
\<close>

subsection \<open>Pause, resume, abort\<close>

definition retire_attempt :: "attempt_state \<Rightarrow> string \<Rightarrow> timestamp \<Rightarrow> attempt_record \<Rightarrow> ('w, status) engine_op" where
  "retire_attempt st reason now a =
     (if \<not> attempt_state_is_in_flight (att_state a) then ok_op ()
      else engine_put_attempt (a\<lparr>att_state := st, att_last_error := reason, att_updated_at := now,
             att_revision := advance (att_revision a)\<rparr>) now)"

definition retire_in_flight :: "campaign_id \<Rightarrow> attempt_state \<Rightarrow> string \<Rightarrow> timestamp \<Rightarrow> ('w, status) engine_op" where
  "retire_in_flight cid st reason now = do {
     as \<leftarrow> reads (\<lambda>e. attempts_for (eng_store e) cid);
     each_op (retire_attempt st reason now) as
   }"

definition active_stage_text :: "campaign_record \<Rightarrow> string" where
  "active_stage_text c = dec_digits (cmp_active_stage c + 1)"

text \<open>In-flight operations cannot commit into a paused campaign: they are abandoned.\<close>

definition pause_campaign :: "campaign_record \<Rightarrow> string \<Rightarrow> timestamp \<Rightarrow> ('w, status) engine_op" where
  "pause_campaign c reason now =
     (if cmp_state c = US_paused then ok_op ()
      else if \<not> upgrade_state_permits_pause (cmp_state c)
      then stop EC_precondition_failed
        ''a campaign can only be paused at a stage boundary; the current state does not allow it''
        (upgrade_state_name (cmp_state c))
      else do {
        let c = c\<lparr>cmp_pause_reason := (if reason = [] then ''paused by operator'' else reason)\<rparr>;
        g \<leftarrow> guards_locked c;
        try_move c US_paused (g\<lparr>g_manual_release_required := True\<rparr>) (\<lambda>c.
          try_op (retire_in_flight (cmp_id c) AS_abandoned
                    ''the campaign was paused while this operation was in flight'' now) (\<lambda>_. do {
            decide DK_pause c DO_allow ''pause at a stage boundary'' (cmp_pause_reason c)
              [input_of ''state'' (upgrade_state_name (cmp_state c)),
               input_of ''active_stage'' (active_stage_text c)] [] [];
            ok_op ()
          }))
      })"

definition with_campaign ::
    "campaign_id \<Rightarrow> (campaign_record \<Rightarrow> ('w, 'a result) engine_op) \<Rightarrow> ('w, 'a result) engine_op" where
  "with_campaign cid f = do {
     e \<leftarrow> reads id;
     case store_campaign (eng_store e) cid of
       None \<Rightarrow> stop EC_not_found ''unknown campaign'' cid
     | Some c \<Rightarrow> f c
   }"

definition pause :: "campaign_id \<Rightarrow> string \<Rightarrow> ('w, status) engine_op" where
  "pause cid reason = refuse_after_shutdown (do {
     now \<leftarrow> clock_now;
     with_campaign cid (\<lambda>c. pause_campaign c reason now)
   })"

definition resume_campaign :: "campaign_record \<Rightarrow> timestamp \<Rightarrow> ('w, status) engine_op" where
  "resume_campaign c now = do {
     e \<leftarrow> reads id;
     if cmp_state c = US_staged \<or> cmp_state c = US_activating \<or> cmp_state c = US_verifying \<or>
        cmp_state c = US_rolling_back
     then ok_op ()
     else if cmp_state c \<noteq> US_paused \<and> cmp_state c \<noteq> US_blocked \<and> cmp_state c \<noteq> US_validated \<and>
             cmp_state c \<noteq> US_prepared
     then stop EC_precondition_failed ''only a paused or blocked campaign can be resumed''
            (upgrade_state_name (cmp_state c))
     else if \<not> fst (ticket_current e c now)
     then stop EC_stale ''a fresh preflight is required before this campaign can be resumed''
            (snd (ticket_current e c now))
     else do {
       g \<leftarrow> guards_locked c;
       let g = g\<lparr>g_manual_release_required := True\<rparr>;
       let c = c\<lparr>cmp_pause_reason := [], cmp_block_reason := []\<rparr>;
       try_op (if cmp_state c = US_paused \<or> cmp_state c = US_blocked then try_move c US_validated g ok_op else ok_op c)
         (\<lambda>c. let g = g\<lparr>g_rollback_plan_recorded := (cmp_rollback_plan c \<noteq> []),
                        g_irreversible_acknowledged :=
                          (pln_irreversible_steps (cmp_plan c) = [] \<or> cmp_irreversible_acknowledged c)\<rparr>
           in try_move c US_prepared g (\<lambda>c. do {
             decide DK_resume c DO_allow ''resume execution''
               ''the operator released the campaign and preflight is still current''
               [input_of ''active_stage'' (active_stage_text c)] [] [];
             ok_op ()
           }))
     }
   }"

definition resume :: "campaign_id \<Rightarrow> ('w, status) engine_op" where
  "resume cid = refuse_after_shutdown (do {
     now \<leftarrow> clock_now;
     with_campaign cid (\<lambda>c. resume_campaign c now)
   })"

definition abort_campaign :: "campaign_record \<Rightarrow> string \<Rightarrow> timestamp \<Rightarrow> ('w, status) engine_op" where
  "abort_campaign c reason now =
     (if upgrade_state_is_terminal (cmp_state c)
      then stop EC_precondition_failed ''the campaign is already terminal'' (upgrade_state_name (cmp_state c))
      else try_op (retire_in_flight (cmp_id c) AS_aborted
                     ''the campaign was aborted while this operation was in flight'' now) (\<lambda>_. do {
        let c = c\<lparr>cmp_failure_reason := (if reason = [] then ''aborted by operator'' else reason)\<rparr>;
        g \<leftarrow> guards_locked c;
        let target = (if cmp_state c = US_proposed then US_blocked else US_failed);
        try_move c target (g\<lparr>g_failure_recorded := True\<rparr>) (\<lambda>c. do {
          decide DK_abort c DO_allow ''abort execution'' (cmp_failure_reason c)
            [input_of ''state'' (upgrade_state_name (cmp_state c))] [] [];
          ok_op ()
        })
      }))"

definition abort :: "campaign_id \<Rightarrow> string \<Rightarrow> ('w, status) engine_op" where
  "abort cid reason = refuse_after_shutdown (do {
     now \<leftarrow> clock_now;
     with_campaign cid (\<lambda>c. abort_campaign c reason now)
   })"

subsection \<open>Rollback\<close>

definition crossed_boundary :: "campaign_record \<Rightarrow> attempt_record list \<Rightarrow> bool" where
  "crossed_boundary c as \<longleftrightarrow>
     (\<not> rbc_reversible (art_rollback (cmp_artifact c)) \<and> list_ex attempt_touched as) \<or>
     (cmp_strategy c = SK_control_plane_generation_handoff \<and> list_ex (\<lambda>a. att_state a = AS_verified) as)"

text \<open>The refusals that follow the one that records a decision, in the order of the code.\<close>

definition rollback_refusal :: "'w engine \<Rightarrow> campaign_record \<Rightarrow> attempt_record list \<Rightarrow> status" where
  "rollback_refusal e c as =
     (if \<not> rbc_reversible (art_rollback (cmp_artifact c))
      then fail EC_irreversible ''rollback is refused: the artifact declares the upgrade irreversible''
             (rbc_boundary (art_rollback (cmp_artifact c)))
      else if \<not> adapters_support_rollback e c
      then fail EC_unsupported ''rollback is refused: a target adapter does not claim rollback support'' ''''
      else if \<not> list_ex attempt_touched as
      then fail EC_precondition_failed ''rollback is refused: no target has been activated by this campaign'' ''''
      else ok_status)"

definition rollback_report :: "'w engine \<Rightarrow> campaign_record \<Rightarrow> timestamp \<Rightarrow> preflight_report" where
  "rollback_report e c now =
     empty_report\<lparr>pfr_campaign := cmp_id c, pfr_generation := cmp_generation c,
       pfr_incarnation := eng_incarnation e, pfr_epoch := cmp_epoch c, pfr_passed := True,
       pfr_issued_at := now, pfr_expires_at := now, pfr_policy := pol_id (eng_policy e),
       pfr_policy_revision := pol_revision (eng_policy e), pfr_fingerprint := cmp_rollback_plan c\<rparr>"

definition rollback_moves ::
    "campaign_record \<Rightarrow> transition_guards \<Rightarrow> bool \<Rightarrow> ('w, campaign_record result) engine_op" where
  "rollback_moves c g execute =
     try_op (if cmp_state c \<noteq> US_failed
             then (if cmp_state c = US_proposed
               then stop EC_precondition_failed ''a proposed campaign has nothing to roll back'' ''''
               else try_move c US_failed g ok_op)
             else ok_op c) (\<lambda>c.
       try_move c US_rollback_planned g (\<lambda>c.
       if execute then try_move c US_rolling_back g ok_op else ok_op c))"

definition rollback_campaign ::
    "campaign_record \<Rightarrow> bool \<Rightarrow> timestamp \<Rightarrow> ('w, preflight_report result) engine_op" where
  "rollback_campaign c execute now = do {
     e \<leftarrow> reads id;
     let as = attempts_for (eng_store e) (cmp_id c);
     let boundary = rbc_boundary (art_rollback (cmp_artifact c));
     if cmp_state c = US_rolled_back
     then stop EC_precondition_failed ''the campaign is already rolled back'' ''''
     else if crossed_boundary c as
     then do {
       decide DK_rollback c DO_deny ''refuse rollback''
         ''the campaign crossed an irreversible boundary and cannot be reversed''
         [input_of ''rollback_eligible'' ''false'', input_of ''boundary'' boundary]
         [alternative_of ''roll the targets back''
            (''the declared irreversible boundary forbids returning to the '' @ ''previous version'')] [];
       stop EC_irreversible ''rollback is refused: the campaign crossed an irreversible boundary'' boundary
     }
     else try_op (State_Monad.return (rollback_refusal e c as)) (\<lambda>_. do {
       g \<leftarrow> guards_locked c;
       try_op (rollback_moves c (g\<lparr>g_rollback_eligible := True, g_failure_recorded := True\<rparr>) execute) (\<lambda>c. do {
         decide DK_rollback c DO_allow
           (if execute then ''execute the recorded rollback plan'' else ''plan a rollback'')
           (if cmp_rollback_plan c = [] then ''restore the previous version on every activated target''
            else cmp_rollback_plan c)
           [input_of ''activated_targets'' (dec_digits (length (filter attempt_touched as))),
            input_of ''rollback_artifact'' (cmp_rollback_artifact c)]
           [alternative_of ''leave the targets on the new version''
              ''the operator requested a rollback and it is eligible''] [];
         e \<leftarrow> reads id;
         ok_op (rollback_report e c now)
       })
     })
   }"

definition rollback :: "campaign_id \<Rightarrow> bool \<Rightarrow> ('w, preflight_report result) engine_op" where
  "rollback cid execute = refuse_after_shutdown (do {
     now \<leftarrow> clock_now;
     with_campaign cid (\<lambda>c. rollback_campaign c execute now)
   })"

subsection \<open>Opening\<close>

definition reconcile_abandon :: "timestamp \<Rightarrow> reconcile_action \<Rightarrow> ('w, status) engine_op" where
  "reconcile_abandon now action = do {
     e \<leftarrow> reads id;
     case store_attempt (eng_store e) (rca_subject action) of
       None \<Rightarrow> ok_op ()
     | Some a \<Rightarrow> engine_put_attempt (a\<lparr>att_state := AS_abandoned, att_revision := advance (att_revision a),
         att_last_error := rca_reason action, att_updated_at := now\<rparr>) now
   }"

definition reconcile_interrupted :: "reconcile_action \<Rightarrow> ('w, status) engine_op" where
  "reconcile_interrupted action = do {
     e \<leftarrow> reads id;
     case store_campaign (eng_store e) (rca_subject action) of
       None \<Rightarrow> ok_op ()
     | Some c \<Rightarrow> do {
         g \<leftarrow> guards_locked c;
         try_move (c\<lparr>cmp_block_reason := rca_reason action, cmp_failure_reason := rca_reason action\<rparr>) US_blocked
           (g\<lparr>g_failure_recorded := True\<rparr>) (\<lambda>c. ok_op ())
       }
   }"

definition reconcile_invalidate :: "timestamp \<Rightarrow> reconcile_action \<Rightarrow> ('w, status) engine_op" where
  "reconcile_invalidate now action = do {
     e \<leftarrow> reads id;
     case store_campaign (eng_store e) (rca_subject action) of
       None \<Rightarrow> ok_op ()
     | Some c \<Rightarrow> do {
         let c = c\<lparr>cmp_ticket := no_ticket, cmp_revision := advance (cmp_revision c), cmp_updated_at := now\<rparr>;
         try_op (engine_put_campaign c now) (\<lambda>_. do {
           decide DK_reconcile c DO_deny ''invalidate preflight ticket'' (rca_reason action) [] [] [];
           ok_op ()
         })
       }
   }"

definition reconcile_one :: "timestamp \<Rightarrow> reconcile_action \<Rightarrow> ('w, status) engine_op" where
  "reconcile_one now action =
     (case rca_kind action of
        RK_abandon_attempt \<Rightarrow> reconcile_abandon now action
      | RK_block_campaign \<Rightarrow> reconcile_interrupted action
      | RK_invalidate_ticket \<Rightarrow> reconcile_invalidate now action
      | RK_note \<Rightarrow> ok_op ())"

definition apply_reconciliation :: "timestamp \<Rightarrow> ('w, status) engine_op" where
  "apply_reconciliation now = do {
     e \<leftarrow> reads id;
     let report = plan_reconciliation (store_campaigns (eng_store e)) (store_attempts (eng_store e))
           (eng_incarnation e) now;
     changes (\<lambda>e. e\<lparr>eng_reconciliation := report\<rparr>);
     each_op (reconcile_one now) (rcr_actions report)
   }"

definition open_store :: "('w, durable_store result) engine_op" where
  "open_store = do {
     e \<leftarrow> reads id;
     let options = cfg_store (eng_config e);
     let path = fs_join (sto_directory options) ''journal.fum'';
     made \<leftarrow> call (plf_directory (eng_platform e) (sto_directory options));
     content \<leftarrow> call (plf_journal_file (eng_platform e) path);
     rewritten \<leftarrow> call (plf_rewrite (eng_platform e) path);
     d \<leftarrow> call (plf_disk (eng_platform e));
     at_time \<leftarrow> call (plf_system_clock (eng_platform e));
     State_Monad.return
       (store_open d options made content rewritten at_time (plf_process_id (eng_platform e)))
   }"

text \<open>The part of \<open>initialize\<close> over the opened store.\<close>

definition adopt_store :: "durable_store \<Rightarrow> timestamp \<Rightarrow> ('w, status) engine_op" where
  "adopt_store st now = do {
     changes (\<lambda>e. e\<lparr>eng_store := st, eng_incarnation := dst_incarnation st\<rparr>);
     case counter_try_next (dst_epoch st) of
       Inl err \<Rightarrow> State_Monad.return (Inl err)
     | Inr epoch \<Rightarrow> do {
         changes (\<lambda>e. e\<lparr>eng_epoch := epoch\<rparr>);
         e \<leftarrow> reads id;
         try_op (store_op (\<lambda>d st. set_epoch d st epoch now)) (\<lambda>_.
         try_op (store_op (\<lambda>d st. put_policy d st (eng_policy e) now)) (\<lambda>_. do {
           changes (\<lambda>e. if cfg_executor (eng_config e) = EX_thread_pool then e\<lparr>eng_pool_mode := True\<rparr> else e);
           apply_reconciliation now
         }))
       }
   }"

definition initialize :: "('w, status) engine_op" where
  "initialize = do { now \<leftarrow> clock_now; try_op open_store (\<lambda>st. adopt_store st now) }"

definition new_engine :: "engine_config \<Rightarrow> 'w dependencies \<Rightarrow> 'w platform \<Rightarrow> 'w \<Rightarrow> 'w engine" where
  "new_engine config deps platform w =
     \<lparr>eng_config = config, eng_deps = deps, eng_platform = platform, eng_policy = cfg_policy config,
      eng_store = new_store (cfg_store config) empty_journal, eng_incarnation = 1, eng_epoch = 1,
      eng_attempt_sequence = 0, eng_decision_sequence = 0, eng_drain_tickets = [], eng_rollout_changes = [],
      eng_shutting_down = False, eng_admissions = 0, eng_driver_active = False, eng_pool_mode = False,
      eng_inventory = \<lparr>inv_revision = 0, inv_incarnation = 0, inv_observed_at = 0, inv_validity = 0, inv_targets = []\<rparr>,
      eng_payload_path = [], eng_integrity = no_integrity,
      eng_reconciliation = \<lparr>rcr_actions = [], rcr_abandoned = 0, rcr_blocked = 0, rcr_invalidated = 0,
        rcr_incarnation = 0\<rparr>, eng_world = w\<rparr>"

text \<open>An engine that fails to initialize is shut down by its destructor.\<close>

definition engine_open ::
    "engine_config \<Rightarrow> 'w dependencies \<Rightarrow> 'w platform \<Rightarrow> 'w \<Rightarrow> 'w engine result \<times> 'w" where
  "engine_open config deps platform w =
     (case policy_validate (cfg_policy config) of
        Inl err \<Rightarrow> (Inl err, w)
      | Inr _ \<Rightarrow>
          if sto_directory (cfg_store config) = []
          then (fail EC_invalid_argument ''an engine requires a state directory for durable state'' '''', w)
          else if dep_inventory deps = None
          then (fail EC_not_integrated ''an inventory source is required to resolve upgrade targets'' '''', w)
          else if cfg_worker_threads config = 0
          then (fail EC_invalid_argument ''worker_threads must be at least 1'' '''', w)
          else
            (case run_state initialize (new_engine config deps platform w) of
               (Inr _, e) \<Rightarrow> (Inr e, eng_world e)
             | (Inl err, e) \<Rightarrow> (Inl err, eng_world (snd (run_state shutdown e)))))"

end
