(* ===== verification/Engine_Queries.thy ===== *)
theory Engine_Queries
  imports Engine_Control
begin

text \<open>
  What can be asked of a running engine (\<open>engine/engine_ops.cpp\<close>): the status of campaigns, the explanation
  for an operator, the ledger and the statistics.  None of it changes the durable state.
\<close>

definition status_of :: "'w engine \<Rightarrow> campaign_record \<Rightarrow> timestamp \<Rightarrow> campaign_status" where
  "status_of e c now =
     (let as = attempts_for (eng_store e) (cmp_id c); (current, detail) = ticket_current e c now
      in \<lparr>cst_campaign = c, cst_attempts = as,
          cst_in_flight = length (filter (\<lambda>a. attempt_state_is_in_flight (att_state a)) as),
          cst_ticket_current = current, cst_ticket_detail = detail,
          cst_skew = assess_current_skew e c, cst_decisions = []\<rparr>)"

definition engine_status :: "campaign_id \<Rightarrow> ('w, campaign_status result) engine_op" where
  "engine_status cid = with_campaign cid (\<lambda>c. do {
     now \<leftarrow> clock_now;
     e \<leftarrow> reads id;
     ok_op ((status_of e c now)\<lparr>cst_decisions :=
       (case store_decisions (eng_store e) cid of None \<Rightarrow> [] | Some ds \<Rightarrow> ds)\<rparr>)
   })"

definition engine_campaigns :: "('w, campaign_status list result) engine_op" where
  "engine_campaigns = do {
     now \<leftarrow> clock_now;
     e \<leftarrow> reads id;
     ok_op (map (\<lambda>c. status_of e c now) (store_campaigns (eng_store e)))
   }"

definition newline :: string where
  "newline = [CHR 0x0A]"

definition flag_text :: "bool \<Rightarrow> string" where
  "flag_text b = (if b then ''true'' else ''false'')"

definition explain_head :: "'w engine \<Rightarrow> campaign_record \<Rightarrow> string" where
  "explain_head e c = concat
     [''campaign '', cmp_id c, newline,
      ''  component: '', cmp_component c, newline,
      ''  state: '', upgrade_state_name (cmp_state c), newline,
      ''  strategy: '', strategy_kind_name (cmp_strategy c), newline,
      ''  artifact: '', art_id (cmp_artifact c), '' version '', ver_text (art_version (cmp_artifact c)),
      '' build '', art_build (cmp_artifact c), newline,
      ''  digest: '', art_digest (cmp_artifact c), newline,
      ''  generation: '', u64_to_string (cmp_generation c), '' epoch: '', u64_to_string (cmp_epoch c),
      '' authority: '', cmp_authority c, newline,
      ''  owner incarnation: '', u64_to_string (cmp_owner_incarnation c),
      '' (current '', u64_to_string (eng_incarnation e), '')'', newline,
      ''  plan fingerprint: '', plan_fingerprint (cmp_plan c), newline]"

definition explain_rejections :: "upgrade_plan \<Rightarrow> string" where
  "explain_rejections p =
     (if plan_executable p then []
      else ''  plan rejections:'' @ newline @
        concat (map (\<lambda>r. ''    '' @ plan_rejection_name (prj_code r) @ '' ['' @ prj_subject r @ ''] '' @
          prj_detail r @ newline) (pln_rejections p)))"

definition explain_stages :: "campaign_record \<Rightarrow> string" where
  "explain_stages c = ''  stages:'' @ newline @
     concat (map (\<lambda>(i, p). ''    '' @ dec_digits (i + 1) @ ''. '' @ spg_id p @ '' state='' @
       stage_state_name (spg_state p) @ (if i = cmp_active_stage c then '' (active)'' else []) @ newline)
       (zip [0..<length (cmp_stages c)] (cmp_stages c)))"

definition explain_attempts :: "attempt_record list \<Rightarrow> string" where
  "explain_attempts as = ''  attempts:'' @ newline @
     concat (map (\<lambda>a. ''    '' @ att_id a @ '' target='' @ att_target a @ '' state='' @
       attempt_state_name (att_state a) @ '' retries='' @ u32_to_string (att_retries a) @
       (if att_last_error a \<noteq> [] then '' error='' @ att_last_error a else []) @ newline) as)"

definition explain_decisions :: "decision list \<Rightarrow> string" where
  "explain_decisions ds =
     (if ds = [] then []
      else ''  decisions:'' @ newline @
        concat (map (\<lambda>d. ''    ['' @ decision_outcome_name (dec_outcome d) @ ''] '' @
          decision_kind_name (dec_kind d) @ '' '' @ dec_selected d @ '' -- '' @ dec_rationale d @
          '' (fingerprint '' @ take 16 (decision_fingerprint d) @ '')'' @ newline) ds))"

definition explain_text :: "'w engine \<Rightarrow> campaign_status \<Rightarrow> string" where
  "explain_text e st =
     (let c = cst_campaign st
      in explain_head e c @ explain_rejections (cmp_plan c) @ explain_stages c @ explain_attempts (cst_attempts st) @
         ''  rollback: eligible='' @ flag_text (cmp_rollback_eligible c) @ '' plan='' @ cmp_rollback_plan c @ newline @
         (if pln_irreversible_steps (cmp_plan c) \<noteq> []
          then ''  irreversible steps: '' @ step_list (pln_irreversible_steps (cmp_plan c)) @
               '' acknowledged='' @ flag_text (cmp_irreversible_acknowledged c) @ newline else []) @
         ''  ticket: '' @ cst_ticket_detail st @ newline @ ''  skew: '' @ sa_summary (cst_skew st) @ newline @
         (if cmp_block_reason c \<noteq> [] then ''  blocked: '' @ cmp_block_reason c @ newline else []) @
         (if cmp_failure_reason c \<noteq> [] then ''  failure: '' @ cmp_failure_reason c @ newline else []) @
         explain_decisions (cst_decisions st))"

definition explain :: "campaign_id \<Rightarrow> ('w, string result) engine_op" where
  "explain cid = try_op (engine_status cid) (\<lambda>st. do { e \<leftarrow> reads id; ok_op (explain_text e st) })"

definition engine_inventory :: "('w, inventory_snapshot result) engine_op" where
  "engine_inventory = do {
     now \<leftarrow> clock_now;
     try_op (refresh_inventory now False) (\<lambda>_. do { e \<leftarrow> reads id; ok_op (eng_inventory e) })
   }"

text \<open>The records of a campaign, or all of them; none when the ledger does not verify.\<close>

definition engine_provenance :: "'w engine \<Rightarrow> campaign_id \<Rightarrow> provenance_record list result" where
  "engine_provenance e cid =
     (let ledger = dst_provenance (eng_store e); verification = verify_ledger ledger
      in if \<not> lv_valid verification
         then fail EC_integrity_failure ''the provenance ledger failed verification'' (lv_reason verification)
         else Inr (filter (\<lambda>p. cid = [] \<or> prov_campaign p = cid) ledger))"

definition engine_decisions :: "'w engine \<Rightarrow> campaign_id \<Rightarrow> decision list" where
  "engine_decisions e cid = (case store_decisions (eng_store e) cid of None \<Rightarrow> [] | Some ds \<Rightarrow> ds)"

definition adapter_stats :: "adapter_id \<times> 'w adapter_port \<Rightarrow> json" where
  "adapter_stats entry =
     (case entry of (i, adapter) \<Rightarrow> json_build
        [(''adapter_id'', JString i), (''kind'', JString (adapter_kind_name (adp_kind adapter))),
         (''strategies'', json_list (\<lambda>s. JString (strategy_kind_name s))
            (filter (claims_support (adp_claims adapter))
               [SK_in_place, SK_restart_based, SK_redundant_pair_rolling, SK_control_plane_generation_handoff]))])"

text \<open>The statistics; those of the worker pool are an argument.\<close>

definition engine_stats :: "'w engine \<Rightarrow> json option \<Rightarrow> json" where
  "engine_stats e pool =
     (let ledger = verify_ledger (dst_provenance (eng_store e))
      in json_build
        ([(''incarnation'', JUint (eng_incarnation e)), (''epoch'', JUint (eng_epoch e)),
          (''executor'', JString (executor_kind_name (cfg_executor (eng_config e)))),
          (''store'', stats_to_json (dst_stats (eng_store e))),
          (''recovery'', recovery_to_json (dst_recovery (eng_store e))),
          (''reconciliation'', reconcile_to_json (eng_reconciliation e)),
          (''in_flight'', JBool (has_in_flight e)),
          (''adapters'', json_list adapter_stats (dep_adapters (eng_deps e)))] @
         (case pool of None \<Rightarrow> [] | Some stats \<Rightarrow> [(''worker_pool'', stats)]) @
         [(''provenance_ledger'', json_build
            [(''valid'', JBool (lv_valid ledger)), (''records'', JUint (word_of_nat (lv_records ledger))),
             (''reason'', JString (lv_reason ledger))])]))"

end
