(* ===== verification/Engine_Frames.thy ===== *)
theory Engine_Frames
  imports Engine_Queries
begin

text \<open>
  What the operations of the engine leave alone.  \<open>leaves f m\<close> says that the observation \<open>f\<close> of the
  state is the same after \<open>m\<close> as before; it is closed under every way the operations are put together, so the
  frame of an operation follows from the frames of the store operations and the calls in it.
\<close>

definition leaves :: "('s \<Rightarrow> 'b) \<Rightarrow> ('s, 'a) state \<Rightarrow> bool" where
  "leaves f m = state_io_rel (\<lambda>s s'. f s' = f s) m"

named_theorems leaves_rules \<open>frames of the combinators and operations\<close>

lemma leavesD: "leaves f m \<Longrightarrow> run_state m s = (x, s') \<Longrightarrow> f s' = f s"
  unfolding leaves_def by blast

lemma leavesI: "(\<And>s x s'. run_state m s = (x, s') \<Longrightarrow> f s' = f s) \<Longrightarrow> leaves f m"
  unfolding leaves_def by blast

lemma leaves_snd: "leaves f m \<Longrightarrow> f (snd (run_state m s)) = f s"
  by (rule leavesD [where f = f and m = m and x = "fst (run_state m s)"]) simp_all

lemma leaves_return [leaves_rules]: "leaves f (State_Monad.return x)"
  by (rule leavesI) simp

lemma leaves_reads [leaves_rules]: "leaves f (reads g)"
  by (rule leavesI) (simp add: reads_def)

lemma leaves_bind [leaves_rules]: "leaves f m \<Longrightarrow> (\<And>x. leaves f (g x)) \<Longrightarrow> leaves f (State_Monad.bind m g)"
proof (rule leavesI)
  assume m: "leaves f m" and g: "\<And>x. leaves f (g x)"
  fix s x s' assume run: "run_state (State_Monad.bind m g) s = (x, s')"
  obtain y s1 where s1: "run_state m s = (y, s1)" by force
  with run have "run_state (g y) s1 = (x, s')" by simp
  with leavesD [OF g] leavesD [OF m s1] show "f s' = f s" by metis
qed

lemma leaves_if [leaves_rules]: "leaves f m \<Longrightarrow> leaves f n \<Longrightarrow> leaves f (if b then m else n)"
  by simp

lemma leaves_let [leaves_rules]: "(\<And>x. leaves f (g x)) \<Longrightarrow> leaves f (let x = a in g x)"
  by simp

lemma leaves_option [leaves_rules]:
  "leaves f m \<Longrightarrow> (\<And>x. leaves f (n x)) \<Longrightarrow> leaves f (case v of None \<Rightarrow> m | Some x \<Rightarrow> n x)"
  by (cases v) simp_all

lemma leaves_sum [leaves_rules]:
  "(\<And>x. leaves f (m x)) \<Longrightarrow> (\<And>x. leaves f (n x)) \<Longrightarrow> leaves f (case v of Inl x \<Rightarrow> m x | Inr x \<Rightarrow> n x)"
  by (cases v) simp_all

lemma leaves_prod [leaves_rules]: "(\<And>x y. leaves f (m x y)) \<Longrightarrow> leaves f (case v of (x, y) \<Rightarrow> m x y)"
  by (cases v) simp

lemma leaves_list [leaves_rules]:
  "leaves f m \<Longrightarrow> (\<And>x xs. leaves f (n x xs)) \<Longrightarrow> leaves f (case v of [] \<Rightarrow> m | x # xs \<Rightarrow> n x xs)"
  by (cases v) simp_all

lemma leaves_bool [leaves_rules]:
  "leaves f m \<Longrightarrow> leaves f n \<Longrightarrow> leaves f (case v of True \<Rightarrow> m | False \<Rightarrow> n)"
  by (cases v) simp_all

lemma leaves_operation_kind [leaves_rules]:
  "leaves f m1 \<Longrightarrow> leaves f m2 \<Longrightarrow> leaves f m3 \<Longrightarrow> leaves f m4 \<Longrightarrow>
   leaves f (case v of OP_prepare \<Rightarrow> m1 | OP_activate \<Rightarrow> m2 | OP_verify \<Rightarrow> m3 | OP_rollback \<Rightarrow> m4)"
  by (cases v) simp_all

lemma leaves_try [leaves_rules]: "leaves f m \<Longrightarrow> (\<And>x. leaves f (g x)) \<Longrightarrow> leaves f (try_op m g)"
  unfolding try_op_def by (intro leaves_rules)

lemma leaves_ok [leaves_rules]: "leaves f (ok_op x)" "leaves f (stop c m d)"
  unfolding ok_op_def stop_def by (intro leaves_rules)+

lemma leaves_each [leaves_rules]: "(\<And>x. leaves f (g x)) \<Longrightarrow> leaves f (each_op g xs)"
  by (induction xs) (simp_all add: leaves_rules)

lemma leaves_fold [leaves_rules]: "(\<And>x b. leaves f (g x b)) \<Longrightarrow> leaves f (fold_op g xs b)"
  by (induction xs arbitrary: b) (simp_all add: leaves_rules)

lemma leaves_changes: "(\<And>s. f (g s) = f s) \<Longrightarrow> leaves f (changes g)"
  by (rule leavesI) (auto simp: changes_def)

lemma leaves_call: "(\<And>e w. f (eng_world_update (\<lambda>_. w) e) = f e) \<Longrightarrow> leaves f (call g)"
  by (rule leavesI) (auto simp: call_def split: prod.splits)

lemma leaves_store_op:
  assumes "\<And>e w. f (eng_world_update (\<lambda>_. w) e) = f e"
    and "\<And>d e r st. g d (eng_store e) = (r, st) \<Longrightarrow> f (eng_store_update (\<lambda>_. st) e) = f e"
  shows "leaves f (store_op g)"
  unfolding store_op_def
  by (intro leaves_rules leaves_call assms(1)) (rule leavesI, auto simp: assms(2) split: prod.splits)

subsection \<open>Store operations\<close>

text \<open>Observations of the tables: what an engine operation can be asked about.\<close>

definition tables :: "'w engine \<Rightarrow> campaign_record table \<times> attempt_record table \<times> provenance_record list \<times> digest \<times> u64" where
  "tables e = (dst_campaigns (eng_store e), dst_attempts (eng_store e), dst_provenance (eng_store e),
     dst_chain (eng_store e), dst_sequence (eng_store e))"

definition engine_constants :: "'w engine \<Rightarrow> 'w dependencies \<times> policy \<times> u64 \<times> u64 \<times> inventory_snapshot" where
  "engine_constants e = (eng_deps e, eng_policy e, eng_incarnation e, eng_epoch e, eng_inventory e)"

abbreviation engine_campaigns_table :: "'w engine \<Rightarrow> campaign_record table" where
  "engine_campaigns_table e \<equiv> dst_campaigns (eng_store e)"

abbreviation engine_attempts_table :: "'w engine \<Rightarrow> attempt_record table" where
  "engine_attempts_table e \<equiv> dst_attempts (eng_store e)"

lemma rebuild_stats_tables [simp]:
  "dst_campaigns (rebuild_stats s) = dst_campaigns s" "dst_attempts (rebuild_stats s) = dst_attempts s"
  "dst_provenance (rebuild_stats s) = dst_provenance s" "dst_chain (rebuild_stats s) = dst_chain s"
  "dst_sequence (rebuild_stats s) = dst_sequence s"
  by (simp_all add: rebuild_stats_def)

lemma append_then_cases:
  assumes "append_then d s k payload t f = (r, s')"
  obtains e j where "r = Inl e" "s' = s\<lparr>dst_journal := j\<rparr>"
  | j where "r = Inr ()" "s' = f (s\<lparr>dst_journal := j\<rparr>)"
  using assms by (auto simp: append_then_def split: prod.splits sum.splits)

lemma put_campaign_tables:
  assumes "put_campaign d s c t = (r, s')"
  shows "(dst_campaigns s' = table_put (dst_campaigns s) (cmp_id c) c \<and> r = Inr () \<or>
      dst_campaigns s' = dst_campaigns s \<and> (\<exists>e. r = Inl e)) \<and>
    dst_attempts s' = dst_attempts s \<and> dst_provenance s' = dst_provenance s \<and> dst_chain s' = dst_chain s \<and>
    dst_sequence s' = dst_sequence s"
  using assms unfolding put_campaign_def
  by (auto split: sum.splits if_splits elim!: append_then_cases)

lemma put_attempt_tables:
  assumes "put_attempt d s a t = (r, s')"
  shows "(dst_attempts s' = table_put (dst_attempts s) (att_id a) a \<and> r = Inr () \<or>
      dst_attempts s' = dst_attempts s \<and> (\<exists>e. r = Inl e)) \<and>
    dst_campaigns s' = dst_campaigns s \<and> dst_provenance s' = dst_provenance s \<and> dst_chain s' = dst_chain s \<and>
    dst_sequence s' = dst_sequence s"
  using assms unfolding put_attempt_def
  by (auto split: sum.splits if_splits elim!: append_then_cases)

lemma append_decision_tables:
  "append_decision d s x t = (r, s') \<Longrightarrow>
   dst_campaigns s' = dst_campaigns s \<and> dst_attempts s' = dst_attempts s \<and> dst_provenance s' = dst_provenance s \<and>
   dst_chain s' = dst_chain s \<and> dst_sequence s' = dst_sequence s"
  unfolding append_decision_def Let_def by (elim append_then_cases) simp_all

lemma put_ticket_tables:
  "put_ticket d s x t = (r, s') \<Longrightarrow>
   dst_campaigns s' = dst_campaigns s \<and> dst_attempts s' = dst_attempts s \<and> dst_provenance s' = dst_provenance s \<and>
   dst_chain s' = dst_chain s \<and> dst_sequence s' = dst_sequence s"
  unfolding put_ticket_def by (elim append_then_cases) simp_all

lemma put_policy_tables:
  "put_policy d s x t = (r, s') \<Longrightarrow>
   dst_campaigns s' = dst_campaigns s \<and> dst_attempts s' = dst_attempts s \<and> dst_provenance s' = dst_provenance s \<and>
   dst_chain s' = dst_chain s \<and> dst_sequence s' = dst_sequence s"
  unfolding put_policy_def by (elim append_then_cases) simp_all

lemma set_epoch_tables:
  "set_epoch d s x t = (r, s') \<Longrightarrow>
   dst_campaigns s' = dst_campaigns s \<and> dst_attempts s' = dst_attempts s \<and> dst_provenance s' = dst_provenance s \<and>
   dst_chain s' = dst_chain s \<and> dst_sequence s' = dst_sequence s"
  unfolding set_epoch_def by (auto split: if_splits elim!: append_then_cases)

lemma store_close_tables:
  "store_close d s now = (r, s') \<Longrightarrow>
   dst_campaigns s' = dst_campaigns s \<and> dst_attempts s' = dst_attempts s \<and> dst_provenance s' = dst_provenance s \<and>
   dst_chain s' = dst_chain s \<and> dst_sequence s' = dst_sequence s"
  by (auto simp: store_close_def split: prod.splits)

lemma append_provenance_tables:
  assumes "append_provenance d s p t = (r, q, s')"
  shows "dst_campaigns s' = dst_campaigns s \<and> dst_attempts s' = dst_attempts s \<and>
    (dst_provenance s' = dst_provenance s \<and> dst_chain s' = dst_chain s \<and> dst_sequence s' = dst_sequence s \<or>
     (\<exists>n. counter_try_next (dst_sequence s) = Inr n \<and> dst_provenance s' = dst_provenance s @ [chained_record s p n] \<and>
       dst_chain s' = prov_chain (chained_record s p n) \<and> dst_sequence s' = n))"
proof (cases "ensure_capacity s JT_provenance")
  case Inl
  with assms show ?thesis by (simp add: append_provenance_def)
next
  case cap: (Inr u)
  show ?thesis
  proof (cases "counter_try_next (dst_sequence s)")
    case Inl
    with assms cap show ?thesis by (simp add: append_provenance_def)
  next
    case (Inr n)
    with assms cap have "append_then d s JT_provenance
        (json_build [(''record'', provenance_to_json (chained_record s p n)),
           (''provenance_chain'', JString (prov_chain (chained_record s p n))),
           (''provenance_sequence'', JUint (prov_sequence (chained_record s p n)))]) t
        (\<lambda>s'. rebuild_stats (s'\<lparr>dst_provenance := dst_provenance s' @ [chained_record s p n],
          dst_chain := prov_chain (chained_record s p n), dst_sequence := prov_sequence (chained_record s p n)\<rparr>)) = (r, s')"
      by (auto simp: append_provenance_def Let_def split: prod.splits)
    then show ?thesis
      by (cases rule: append_then_cases) (auto simp: Inr chained_record_def Let_def)
  qed
qed

subsection \<open>Operations that do not touch the tables\<close>

lemma leaves_clock: "(\<And>e w. f (eng_world_update (\<lambda>_. w) e) = f e) \<Longrightarrow> leaves f clock_now"
  unfolding clock_now_def by (intro leaves_rules leaves_call)

lemmas leaves_calls = leaves_call leaves_clock

lemma tables_simps [simp]:
  "tables (eng_world_update g e) = tables e" "engine_constants (eng_world_update g e) = engine_constants e"
  "tables (eng_decision_sequence_update h e) = tables e"
  "engine_constants (eng_decision_sequence_update h e) = engine_constants e"
  "engine_constants (eng_store_update k e) = engine_constants e"
  by (simp_all add: tables_def engine_constants_def)

lemma tables_store_op:
  assumes "\<And>d s r s'. g d s = (r, s') \<Longrightarrow> dst_campaigns s' = dst_campaigns s \<and> dst_attempts s' = dst_attempts s \<and>
    dst_provenance s' = dst_provenance s \<and> dst_chain s' = dst_chain s \<and> dst_sequence s' = dst_sequence s"
  shows "leaves tables (store_op g)"
  by (rule leaves_store_op, simp) (drule assms, simp add: tables_def)

lemma constants_store_op [leaves_rules]: "leaves engine_constants (store_op g)"
  by (rule leaves_store_op) simp_all

lemma tables_changes:
  "leaves tables (changes (\<lambda>e. e\<lparr>eng_decision_sequence := f e\<rparr>))"
  "leaves tables (changes (\<lambda>e. e\<lparr>eng_attempt_sequence := g e\<rparr>))"
  "leaves tables (changes (\<lambda>e. e\<lparr>eng_drain_tickets := h e\<rparr>))"
  "leaves engine_constants (changes (\<lambda>e. e\<lparr>eng_decision_sequence := f e\<rparr>))"
  "leaves engine_constants (changes (\<lambda>e. e\<lparr>eng_attempt_sequence := g e\<rparr>))"
  "leaves engine_constants (changes (\<lambda>e. e\<lparr>eng_drain_tickets := h e\<rparr>))"
  by (rule leaves_changes, simp add: tables_def engine_constants_def)+

lemma world_calls:
  "leaves tables (call f)" "leaves engine_constants (call f)" "leaves tables clock_now"
  "leaves engine_constants clock_now"
  by (rule leaves_call leaves_clock; simp)+

lemmas table_frames = leaves_rules world_calls tables_changes

lemma record_decision_tables: "leaves tables (record_decision x)" "leaves engine_constants (record_decision x)"
  unfolding record_decision_def
  by (intro table_frames tables_store_op, erule append_decision_tables) (intro table_frames)

lemma decide_tables: "leaves tables (decide k c oc sel rat inp rej evd)"
  "leaves engine_constants (decide k c oc sel rat inp rej evd)"
  unfolding decide_def make_decision_def by (intro table_frames record_decision_tables)+

lemma put_ticket_frame: "leaves tables (engine_put_ticket t now)" "leaves engine_constants (engine_put_ticket t now)"
  unfolding engine_put_ticket_def
  by (intro table_frames tables_store_op, erule put_ticket_tables) (intro table_frames)

lemma guards_frame: "leaves tables (guards_locked c)" "leaves engine_constants (guards_locked c)"
  unfolding guards_locked_def by (intro table_frames)+

text \<open>Every observation that reads less.\<close>

lemma leaves_less:
  assumes "leaves g m" "\<And>s s'. g s' = g s \<Longrightarrow> f s' = f s"
  shows "leaves f m"
  by (rule leavesI, rule assms(2), rule leavesD [OF assms(1)])

lemma leaves_tables_part:
  assumes "leaves tables m"
  shows "leaves (\<lambda>e. dst_campaigns (eng_store e)) m" "leaves (\<lambda>e. dst_attempts (eng_store e)) m"
    "leaves (\<lambda>e. dst_provenance (eng_store e)) m"
  by (rule leaves_less [OF assms], simp add: tables_def)+

subsection \<open>Operations that leave the campaigns alone\<close>

definition quiet :: "('w, 'a) engine_op \<Rightarrow> bool" where
  "quiet m = leaves engine_campaigns_table m"

lemma quiet_tables: "leaves tables m \<Longrightarrow> quiet m"
  unfolding quiet_def by (rule leaves_tables_part)

lemma campaigns_store_op:
  assumes "\<And>d s r s'. g d s = (r, s') \<Longrightarrow> dst_campaigns s' = dst_campaigns s"
  shows "leaves engine_campaigns_table (store_op g)"
  by (rule leaves_store_op, simp) (drule assms, simp)

lemma campaigns_changes:
  "leaves engine_campaigns_table (changes (\<lambda>e. e\<lparr>eng_attempt_sequence := f1 e\<rparr>))"
  "leaves engine_campaigns_table (changes (\<lambda>e. e\<lparr>eng_drain_tickets := f2 e\<rparr>))"
  "leaves engine_campaigns_table (changes (\<lambda>e. e\<lparr>eng_inventory := f3 e\<rparr>))"
  "leaves engine_campaigns_table (changes (\<lambda>e. e\<lparr>eng_integrity := f4 e, eng_payload_path := f5 e\<rparr>))"
  "leaves engine_campaigns_table (changes (\<lambda>e. e\<lparr>eng_rollout_changes := f6 e\<rparr>))"
  "leaves engine_campaigns_table (changes (\<lambda>e. e\<lparr>eng_admissions := f7 e\<rparr>))"
  "leaves engine_campaigns_table (changes (\<lambda>e. e\<lparr>eng_driver_active := f8 e\<rparr>))"
  "leaves engine_campaigns_table (changes (\<lambda>e. e\<lparr>eng_shutting_down := f9 e, eng_driver_active := f10 e\<rparr>))"
  "leaves engine_campaigns_table (changes (\<lambda>e. e\<lparr>eng_reconciliation := f11 e\<rparr>))"
  "leaves engine_campaigns_table (changes (\<lambda>e. e\<lparr>eng_epoch := f12 e\<rparr>))"
  by (rule leaves_changes, simp)+

lemma campaigns_calls: "leaves engine_campaigns_table (call f)" "leaves engine_campaigns_table clock_now"
  by (rule leaves_call leaves_clock; simp)+

lemma campaigns_of_tables:
  "leaves engine_campaigns_table (decide k c oc sel rat inp rej evd)"
  "leaves engine_campaigns_table (record_decision x)"
  "leaves engine_campaigns_table (engine_put_ticket t now)"
  "leaves engine_campaigns_table (guards_locked c)"
  by (rule leaves_tables_part(1), rule decide_tables record_decision_tables put_ticket_frame guards_frame)+

lemma campaigns_put_attempt: "leaves engine_campaigns_table (engine_put_attempt a now)"
  unfolding engine_put_attempt_def by (rule campaigns_store_op) (drule put_attempt_tables, simp)

lemma campaigns_append_provenance: "leaves engine_campaigns_table (append_provenance_locked item oc detail now)"
  unfolding append_provenance_locked_def
  by (intro leaves_rules campaigns_store_op) (auto split: prod.splits dest: append_provenance_tables)

lemmas campaign_frames = leaves_rules campaigns_changes campaigns_calls campaigns_of_tables campaigns_put_attempt
  campaigns_append_provenance

lemma quiet_basic:
  "quiet clock_now" "quiet (reads g)" "quiet (decide k c oc sel rat inp rej evd)" "quiet (engine_put_ticket t now)"
  "quiet (guards_locked c)" "quiet (engine_put_attempt a now)" "quiet (append_provenance_locked item po detail now)"
  "quiet (call h)"
  unfolding quiet_def by (rule campaign_frames)+

lemma quiet_allocate: "quiet (allocate_attempt c stage target)"
  unfolding quiet_def allocate_attempt_def by (intro campaign_frames)

lemma quiet_plan_rollback: "quiet (plan_rollback now budget c out)"
  unfolding quiet_def plan_rollback_def plan_rollback_target_def by (intro campaign_frames)

lemma quiet_plan_stage_target: "quiet (plan_stage_target now budget c stage target acc)"
  using quiet_allocate unfolding quiet_def plan_stage_target_def by (intro campaign_frames) 

lemma quiet_retire: "quiet (retire_in_flight cid st reason now)"
  unfolding quiet_def retire_in_flight_def retire_attempt_def by (intro campaign_frames)

lemma quiet_drain_gate: "quiet (drain_gate item now)"
  unfolding quiet_def drain_gate_def by (intro campaign_frames)

lemma quiet_health_gate: "quiet (health_gate adapter item now outcome)"
  unfolding quiet_def health_gate_def by (intro campaign_frames)

lemma leaves_if_cases: "(b \<Longrightarrow> leaves f m) \<Longrightarrow> (\<not> b \<Longrightarrow> leaves f n) \<Longrightarrow> leaves f (if b then m else n)"
  by simp

lemmas campaign_cases = leaves_return leaves_bind leaves_sum leaves_if_cases campaigns_calls

lemma quiet_retry_call: "quiet (retry_call f failed limit retries operation)"
  unfolding quiet_def
  by (induction f failed limit retries operation rule: retry_call.induct)
    (subst retry_call.simps, intro campaign_cases, blast)

lemma quiet_activate_call: "quiet (activate_call adapter item now current limit retries operation)"
  unfolding quiet_def
  by (induction adapter item now current limit retries operation rule: activate_call.induct)
    (subst activate_call.simps, intro campaign_cases, blast+)

lemma quiet_deliver: "quiet (deliver_configuration item v)"
  unfolding quiet_def deliver_configuration_def by (intro campaign_frames)

lemma quiet_perform: "quiet (perform adapter item now operation outcome)"
  unfolding quiet_def perform_def
  by (intro campaign_frames quiet_retry_call [unfolded quiet_def] quiet_activate_call [unfolded quiet_def]
      quiet_deliver [unfolded quiet_def])

lemma quiet_run_item: "quiet (run_item adapter item now)"
  unfolding quiet_def run_item_def
  by (intro campaign_frames quiet_drain_gate [unfolded quiet_def] quiet_health_gate [unfolded quiet_def]
      quiet_perform [unfolded quiet_def])

lemma leaves_release_tickets: "leaves engine_campaigns_table (release_tickets drain ts)"
  by (induction ts) (simp_all, intro campaign_frames, (intro campaign_frames)?)

lemma quiet_release_finished_drains: "quiet release_finished_drains"
  unfolding quiet_def release_finished_drains_def by (intro campaign_frames leaves_release_tickets)

lemma quiet_inventory: "quiet (refresh_inventory now force)"
  unfolding quiet_def refresh_inventory_def take_inventory_def by (intro campaign_frames)

lemma quiet_artifact: "quiet (resolve_artifact a)"
  unfolding quiet_def resolve_artifact_def by (intro campaign_frames)

lemma quiet_compatibility: "quiet (query_compatibility p snap now)"
  unfolding quiet_def query_compatibility_def query_target_def by (intro campaign_frames)

lemma quiet_engine_plan: "quiet (engine_plan req)"
  unfolding quiet_def engine_plan_def
  by (intro campaign_frames quiet_inventory [unfolded quiet_def])

lemma quiet_start_rollout: "quiet (start_rollout cid options now change)"
  unfolding quiet_def start_rollout_def by (intro campaign_frames)

lemma quiet_start_driver: "quiet start_driver"
  unfolding quiet_def start_driver_def by (intro campaign_frames)

lemma quiet_shutdown: "quiet shutdown"
  unfolding quiet_def shutdown_def
  by (intro campaign_frames campaigns_store_op) (drule store_close_tables, simp)

end
