(* ===== verification/Engine_Orders.thy ===== *)
theory Engine_Orders
  imports Engine_Frames
begin

text \<open>
  How the stored campaigns evolve.  An order on campaign records that contains the engine's bookkeeping and the
  moves into a set of states is a contract (the locale \<open>campaign_order\<close>); every operation of the engine is
  proved once to move each stored campaign along any such order, and the interpretations at the end say
  what that means for the lifecycle, for the stage indices, and for what stays as it is.
\<close>

subsection \<open>Tables of campaigns\<close>

definition keyed :: "campaign_record table \<Rightarrow> bool" where
  "keyed t \<longleftrightarrow> table_ok t \<and> (\<forall>k c. table_get t k = Some c \<longrightarrow> cmp_id c = k)"

text \<open>The copy of campaign \<open>k\<close> an operation holds: what is stored leads to it.\<close>

definition carried ::
    "(campaign_record \<Rightarrow> campaign_record \<Rightarrow> bool) \<Rightarrow> campaign_id \<Rightarrow> campaign_record \<Rightarrow> campaign_record table \<Rightarrow> bool" where
  "carried le k c t \<longleftrightarrow> cmp_id c = k \<and> (\<exists>c1. table_get t k = Some c1 \<and> le c1 c)"

definition evolves_at ::
    "(campaign_record \<Rightarrow> campaign_record \<Rightarrow> bool) \<Rightarrow> campaign_id \<Rightarrow> campaign_record table \<Rightarrow> campaign_record table \<Rightarrow> bool" where
  "evolves_at le k t t' \<longleftrightarrow>
     (\<forall>k'. k' \<noteq> k \<longrightarrow> table_get t' k' = table_get t k') \<and>
     (case table_get t k of None \<Rightarrow> table_get t' k = None | Some c \<Rightarrow> \<exists>c'. table_get t' k = Some c' \<and> le c c')"

definition evolves ::
    "(campaign_record \<Rightarrow> campaign_record \<Rightarrow> bool) \<Rightarrow> (campaign_record \<Rightarrow> bool) \<Rightarrow> campaign_record table \<Rightarrow>
     campaign_record table \<Rightarrow> bool" where
  "evolves le born t t' \<longleftrightarrow>
     (\<forall>k. case table_get t k of
        None \<Rightarrow> (\<forall>c'. table_get t' k = Some c' \<longrightarrow> (\<exists>b. born b \<and> le b c'))
      | Some c \<Rightarrow> \<exists>c'. table_get t' k = Some c' \<and> le c c')"

text \<open>An operation on one campaign: from a table where \<open>P\<close> holds to one where \<open>Q\<close> does.\<close>

definition keeps ::
    "(campaign_record \<Rightarrow> campaign_record \<Rightarrow> bool) \<Rightarrow> campaign_id \<Rightarrow> (campaign_record table \<Rightarrow> bool) \<Rightarrow>
     ('w, 'a) engine_op \<Rightarrow> ('a \<Rightarrow> campaign_record table \<Rightarrow> bool) \<Rightarrow> bool" where
  "keeps le k P m Q \<longleftrightarrow>
     (\<forall>e x e'. keyed (engine_campaigns_table e) \<longrightarrow> P (engine_campaigns_table e) \<longrightarrow> run_state m e = (x, e') \<longrightarrow>
        keyed (engine_campaigns_table e') \<and>
        evolves_at le k (engine_campaigns_table e) (engine_campaigns_table e') \<and> Q x (engine_campaigns_table e'))"

definition on_success :: "('a \<Rightarrow> 't \<Rightarrow> bool) \<Rightarrow> 'a result \<Rightarrow> 't \<Rightarrow> bool" where
  "on_success Q r t = (case r of Inl e \<Rightarrow> True | Inr x \<Rightarrow> Q x t)"

definition anything :: "'a \<Rightarrow> 't \<Rightarrow> bool" where
  "anything x t = True"

text \<open>A condition that a refused operation meets.\<close>

definition forgiving :: "('a result \<Rightarrow> 't \<Rightarrow> bool) \<Rightarrow> bool" where
  "forgiving R \<longleftrightarrow> (\<forall>err t. R (Inl err) t)"

text \<open>An operation of the engine.\<close>

definition evolving ::
    "(campaign_record \<Rightarrow> campaign_record \<Rightarrow> bool) \<Rightarrow> (campaign_record \<Rightarrow> bool) \<Rightarrow> ('w, 'a) engine_op \<Rightarrow> bool" where
  "evolving le born m \<longleftrightarrow>
     (\<forall>e x e'. keyed (engine_campaigns_table e) \<longrightarrow> run_state m e = (x, e') \<longrightarrow>
        keyed (engine_campaigns_table e') \<and>
        evolves le born (engine_campaigns_table e) (engine_campaigns_table e'))"

text \<open>
  What the engine writes about a campaign without moving it: the identity, the plan and the state stay, the stages
  keep their identities, and the active stage advances by at most one, inside the stages.
\<close>

definition bookkeeping :: "campaign_record \<Rightarrow> campaign_record \<Rightarrow> bool" where
  "bookkeeping c c' \<longleftrightarrow>
     cmp_id c' = cmp_id c \<and> cmp_state c' = cmp_state c \<and> cmp_plan c' = cmp_plan c \<and>
     cmp_artifact c' = cmp_artifact c \<and> cmp_epoch c' = cmp_epoch c \<and>
     map spg_id (cmp_stages c') = map spg_id (cmp_stages c) \<and>
     (cmp_active_stage c' = cmp_active_stage c \<or>
      cmp_active_stage c' = Suc (cmp_active_stage c) \<and> cmp_active_stage c' < length (cmp_stages c))"

lemma moved_campaign_fields [simp]:
  "cmp_id (moved_campaign c to now) = cmp_id c" "cmp_state (moved_campaign c to now) = to"
  "cmp_plan (moved_campaign c to now) = cmp_plan c" "cmp_artifact (moved_campaign c to now) = cmp_artifact c"
  "cmp_epoch (moved_campaign c to now) = cmp_epoch c" "cmp_stages (moved_campaign c to now) = cmp_stages c"
  "cmp_active_stage (moved_campaign c to now) = cmp_active_stage c"
  by (simp_all add: moved_campaign_def Let_def)

lemma keyed_put: "keyed t \<Longrightarrow> keyed (table_put t (cmp_id c) c)"
  by (auto simp: keyed_def store_table.get_put store_table.ok_put split: if_splits)

lemma bookkeeping_refl [simp]: "bookkeeping c c"
  by (simp add: bookkeeping_def)

lemma forgivings: "forgiving anything" "forgiving (on_success Q)"
  by (simp_all add: forgiving_def anything_def on_success_def)

lemma keepsD:
  "keeps le k P m Q \<Longrightarrow> keyed (engine_campaigns_table e) \<Longrightarrow> P (engine_campaigns_table e) \<Longrightarrow>
   run_state m e = (x, e') \<Longrightarrow>
   keyed (engine_campaigns_table e') \<and> evolves_at le k (engine_campaigns_table e) (engine_campaigns_table e') \<and>
   Q x (engine_campaigns_table e')"
  unfolding keeps_def by blast

lemma keepsI:
  "(\<And>e x e'. keyed (engine_campaigns_table e) \<Longrightarrow> P (engine_campaigns_table e) \<Longrightarrow> run_state m e = (x, e') \<Longrightarrow>
     keyed (engine_campaigns_table e') \<and> evolves_at le k (engine_campaigns_table e) (engine_campaigns_table e') \<and>
     Q x (engine_campaigns_table e')) \<Longrightarrow> keeps le k P m Q"
  unfolding keeps_def by blast

subsection \<open>The contract\<close>

locale campaign_order =
  fixes le :: "campaign_record \<Rightarrow> campaign_record \<Rightarrow> bool" and reached :: "upgrade_state set"
  assumes le_refl: "le c c"
    and le_trans: "le a b \<Longrightarrow> le b c \<Longrightarrow> le a c"
    and le_id: "le a b \<Longrightarrow> cmp_id b = cmp_id a"
    and le_bookkeeping: "bookkeeping c c' \<Longrightarrow> le c c'"
    and le_move: "to \<in> reached \<Longrightarrow> cmp_state c \<noteq> to \<Longrightarrow> tv_allowed (evaluate_transition (cmp_state c) to g) \<Longrightarrow>
      le c (moved_campaign c to now)"
begin

lemma evolves_at_refl: "evolves_at le k t t"
  by (auto simp: evolves_at_def le_refl split: option.split)

lemma evolves_at_trans: "evolves_at le k t1 t2 \<Longrightarrow> evolves_at le k t2 t3 \<Longrightarrow> evolves_at le k t1 t3"
  by (auto simp: evolves_at_def split: option.splits intro: le_trans)

lemma carried_le: "carried le k c t \<Longrightarrow> le c d \<Longrightarrow> carried le k d t"
  by (auto simp: carried_def le_id intro: le_trans)

lemma carried_bookkeeping: "carried le k c t \<Longrightarrow> bookkeeping c d \<Longrightarrow> carried le k d t"
  by (rule carried_le [OF _ le_bookkeeping])

lemma carried_stored: "keyed t \<Longrightarrow> table_get t k = Some c \<Longrightarrow> carried le k c t"
  by (auto simp: carried_def keyed_def le_refl)

lemma keeps_pre: "keeps le k P' m Q \<Longrightarrow> (\<And>t. P t \<Longrightarrow> P' t) \<Longrightarrow> keeps le k P m Q"
  unfolding keeps_def by blast

lemma keeps_post: "keeps le k P m Q' \<Longrightarrow> (\<And>x t. Q' x t \<Longrightarrow> Q x t) \<Longrightarrow> keeps le k P m Q"
  unfolding keeps_def by blast

lemma keeps_bind:
  assumes "keeps le k P m Q" "\<And>x. keeps le k (Q x) (f x) R"
  shows "keeps le k P (State_Monad.bind m f) R"
proof (rule keepsI)
  fix e x e'
  assume e: "keyed (engine_campaigns_table e)" "P (engine_campaigns_table e)" "run_state (State_Monad.bind m f) e = (x, e')"
  obtain y e1 where y: "run_state m e = (y, e1)" by force
  with e have f: "run_state (f y) e1 = (x, e')" by simp
  from keepsD [OF assms(1) e(1,2) y] have q: "keyed (engine_campaigns_table e1)" "Q y (engine_campaigns_table e1)"
    "evolves_at le k (engine_campaigns_table e) (engine_campaigns_table e1)" by auto
  from keepsD [OF assms(2) q(1,2) f] q(3) show "keyed (engine_campaigns_table e') \<and>
      evolves_at le k (engine_campaigns_table e) (engine_campaigns_table e') \<and> R x (engine_campaigns_table e')"
    by (auto intro: evolves_at_trans)
qed

lemma keeps_quiet: "quiet m \<Longrightarrow> keeps le k P m (\<lambda>_. P)"
  by (rule keepsI) (auto simp: quiet_def dest!: leavesD intro: evolves_at_refl)

lemma keeps_quiet_any: "quiet m \<Longrightarrow> keeps le k P m anything"
  by (rule keeps_post [OF keeps_quiet]) (simp_all add: anything_def)

lemma keeps_quiet_bind: "quiet m \<Longrightarrow> (\<And>x. keeps le k P (f x) R) \<Longrightarrow> keeps le k P (State_Monad.bind m f) R"
  by (rule keeps_bind [OF keeps_quiet])

lemma keeps_return: "(\<And>t. P t \<Longrightarrow> Q x t) \<Longrightarrow> keeps le k P (State_Monad.return x) Q"
  by (rule keepsI) (auto intro: evolves_at_refl)

lemma keeps_done:
  "keeps le k P (State_Monad.return x) anything" "keeps le k P (ok_op y) anything"
  "forgiving R \<Longrightarrow> keeps le k P (stop code m d) R" "forgiving R \<Longrightarrow> keeps le k P (State_Monad.return (Inl err)) R"
  unfolding ok_op_def stop_def fail_def by (rule keeps_return; simp add: anything_def forgiving_def)+

lemma keeps_give:
  "bookkeeping c d \<Longrightarrow> keeps le k (carried le k c) (State_Monad.return d) (carried le k)"
  "bookkeeping c d \<Longrightarrow> keeps le k (carried le k c) (ok_op d) (on_success (carried le k))"
  unfolding ok_op_def by (rule keeps_return; simp add: on_success_def carried_bookkeeping)+

lemma keeps_try:
  assumes "keeps le k P m (on_success Q)" "\<And>x. keeps le k (Q x) (f x) R" "forgiving R"
  shows "keeps le k P (try_op m f) R"
  unfolding try_op_def
proof (rule keeps_bind [OF assms(1)])
  fix r
  show "keeps le k (on_success Q r) (case r of Inl e \<Rightarrow> State_Monad.return (Inl e) | Inr x \<Rightarrow> f x) R"
  proof (cases r)
    case (Inl err)
    then show ?thesis using assms(3) by (simp add: keeps_done)
  next
    case (Inr x)
    then show ?thesis by (simp, intro keeps_pre [OF assms(2)]) (simp add: on_success_def)
  qed
qed

lemma keeps_quiet_try:
  assumes "quiet m" "\<And>x. keeps le k P (f x) R" "forgiving R"
  shows "keeps le k P (try_op m f) R"
  by (rule keeps_try [where Q = "\<lambda>_. P", OF keeps_post [OF keeps_quiet [OF assms(1)]] assms(2,3)])
    (simp add: on_success_def split: sum.split)

lemma keeps_if:
  "(b \<Longrightarrow> keeps le k P m Q) \<Longrightarrow> (\<not> b \<Longrightarrow> keeps le k P n Q) \<Longrightarrow> keeps le k P (if b then m else n) Q"
  by simp

lemma keeps_let: "keeps le k P (f a) Q \<Longrightarrow> keeps le k P (Let a f) Q"
  by simp

lemma keeps_sum:
  "(\<And>x. keeps le k P (f x) Q) \<Longrightarrow> (\<And>y. keeps le k P (g y) Q) \<Longrightarrow>
   keeps le k P (case s of Inl x \<Rightarrow> f x | Inr y \<Rightarrow> g y) Q"
  by (simp split: sum.split)

lemma keeps_put:
  assumes "bookkeeping c d"
  shows "keeps le k (carried le k c) (engine_put_campaign d now) (\<lambda>_. carried le k d)"
proof (rule keeps_pre [where P' = "carried le k d"])
  show "carried le k c t \<Longrightarrow> carried le k d t" for t
    by (rule carried_bookkeeping [OF _ assms])
  show "keeps le k (carried le k d) (engine_put_campaign d now) (\<lambda>_. carried le k d)"
  proof (rule keepsI)
    fix e x e'
    assume e: "keyed (engine_campaigns_table e)" "carried le k d (engine_campaigns_table e)"
      "run_state (engine_put_campaign d now) e = (x, e')"
    have d: "cmp_id d = k" using e(2) by (simp add: carried_def)
    obtain c1 where c1: "table_get (engine_campaigns_table e) k = Some c1" "le c1 d"
      using e(2) by (auto simp: carried_def)
    from e(3) obtain dk st r where p: "put_campaign dk (eng_store e) d now = (r, st)" "eng_store e' = st"
      by (auto simp: engine_put_campaign_def store_op_def reads_def call_def split: prod.splits)
    from put_campaign_tables [OF p(1)] p(2) d have
      "engine_campaigns_table e' = table_put (engine_campaigns_table e) k d \<or>
       engine_campaigns_table e' = engine_campaigns_table e"
      by auto
    then show "keyed (engine_campaigns_table e') \<and>
        evolves_at le k (engine_campaigns_table e) (engine_campaigns_table e') \<and> carried le k d (engine_campaigns_table e')"
    proof
      assume put: "engine_campaigns_table e' = table_put (engine_campaigns_table e) k d"
      then show ?thesis
        using e(1) c1 d keyed_put [OF e(1), of d]
        by (auto simp: evolves_at_def carried_def store_table.get_put le_refl)
    next
      assume same: "engine_campaigns_table e' = engine_campaigns_table e"
      then show ?thesis using e(1,2) by (simp add: evolves_at_refl)
    qed
  qed
qed

lemma keeps_try_put:
  assumes "bookkeeping c d" "\<And>x. keeps le k (carried le k d) (f x) R" "forgiving R"
  shows "keeps le k (carried le k c) (try_op (engine_put_campaign d now) f) R"
  by (rule keeps_try [where Q = "\<lambda>_. carried le k d", OF keeps_post [OF keeps_put [OF assms(1)]] assms(2,3)])
    (simp add: on_success_def split: sum.split)

end

subsection \<open>Moves\<close>

context campaign_order
begin

lemma keeps_transition:
  assumes "bookkeeping c d" "to \<in> reached"
  shows "keeps le k (carried le k c) (transition_locked d to g) (\<lambda>x. carried le k (snd x))"
proof (rule keeps_pre [where P' = "carried le k d"])
  show "carried le k c t \<Longrightarrow> carried le k d t" for t
    by (rule carried_bookkeeping [OF _ assms(1)])
  have put: "keeps le k (carried le k d) (engine_put_campaign (moved_campaign d to now) now)
      (\<lambda>_. carried le k (moved_campaign d to now))"
    if "cmp_state d \<noteq> to" "tv_allowed (evaluate_transition (cmp_state d) to g)" for now
    by (rule keeps_pre [OF keeps_put [OF bookkeeping_refl]]) (rule carried_le [OF _ le_move [OF assms(2) that]])
  show "keeps le k (carried le k d) (transition_locked d to g) (\<lambda>x. carried le k (snd x))"
    unfolding transition_locked_def Let_def
    by (intro keeps_if keeps_quiet_bind quiet_basic keeps_bind [OF put] keeps_sum keeps_return) simp_all
qed

lemma keeps_transition_bind:
  assumes "bookkeeping c d" "to \<in> reached" "\<And>s c'. keeps le k (carried le k c') (f s c') R"
  shows "keeps le k (carried le k c) (State_Monad.bind (transition_locked d to g) (\<lambda>(s, c'). f s c')) R"
  by (rule keeps_bind [OF keeps_transition [OF assms(1,2)]]) (simp add: case_prod_beta assms(3))

lemma keeps_try_move:
  assumes "bookkeeping c d" "to \<in> reached" "\<And>c'. keeps le k (carried le k c') (f c') R" "forgiving R"
  shows "keeps le k (carried le k c) (try_move d to g f) R"
  unfolding try_move_def
  by (intro keeps_transition_bind assms(1,2) keeps_sum keeps_done assms(3,4))

lemma keeps_move:
  assumes "bookkeeping c d" "to \<in> reached"
  shows "keeps le k (carried le k c) (move_if_possible d to g) (carried le k)"
  unfolding move_if_possible_def by (intro keeps_transition_bind assms keeps_give) simp

lemma keeps_move_bind:
  assumes "bookkeeping c d" "to \<in> reached" "\<And>c'. keeps le k (carried le k c') (f c') R"
  shows "keeps le k (carried le k c) (State_Monad.bind (move_if_possible d to g) f) R"
  by (rule keeps_bind [OF keeps_move [OF assms(1,2)] assms(3)])

lemma quiet_return: "quiet (State_Monad.return r)"
  by (simp add: quiet_def leaves_return)

text \<open>The steps an operation is made of, in the order the code makes them.\<close>

lemma keeps_clock:
  "(\<And>now. keeps le k P (f now) R) \<Longrightarrow> keeps le k P (State_Monad.bind clock_now f) R"
  "(\<And>x. keeps le k P (g x) R) \<Longrightarrow> keeps le k P (State_Monad.bind (reads h) g) R"
  "(\<And>x. keeps le k P (gs x) R) \<Longrightarrow> keeps le k P (State_Monad.bind (guards_locked c) gs) R"
  "(\<And>x. keeps le k P (ds x) R) \<Longrightarrow> keeps le k P (State_Monad.bind (decide kd cd oc sel rat inp rej evd) ds) R"
  by (rule keeps_quiet_bind; simp add: quiet_basic)+

lemma keeps_try_attempt:
  "(\<And>x. keeps le k P (f x) R) \<Longrightarrow> forgiving R \<Longrightarrow> keeps le k P (try_op (engine_put_attempt a now) f) R"
  "(\<And>x. keeps le k P (f x) R) \<Longrightarrow> forgiving R \<Longrightarrow> keeps le k P (try_op (engine_put_ticket tk now) f) R"
  "(\<And>x. keeps le k P (f x) R) \<Longrightarrow> forgiving R \<Longrightarrow>
     keeps le k P (try_op (append_provenance_locked item po detail now) f) R"
  "(\<And>x. keeps le k P (f x) R) \<Longrightarrow> forgiving R \<Longrightarrow> keeps le k P (try_op (State_Monad.return r) f) R"
  "(\<And>x. keeps le k P (f x) R) \<Longrightarrow> forgiving R \<Longrightarrow> keeps le k P (try_op (retire_in_flight cid st reason now) f) R"
  by (rule keeps_quiet_try; simp add: quiet_basic quiet_retire quiet_return)+

lemma keeps_put_attempt: "keeps le k P (engine_put_attempt a now) anything"
  by (rule keeps_quiet_any) (rule quiet_basic)

lemma keeps_try_branch:
  assumes "keeps le k P (if b then m1 else m2) (on_success (carried le k))"
    "\<And>c. keeps le k (carried le k c) (f c) R" "forgiving R"
  shows "keeps le k P (try_op (if b then m1 else m2) f) R"
  by (rule keeps_try [OF assms])

lemmas keeps_steps = keeps_if keeps_let keeps_sum keeps_clock keeps_try_attempt keeps_put_attempt keeps_try_put
  keeps_try_move keeps_move_bind keeps_transition_bind keeps_try_branch keeps_give keeps_done forgivings

end


subsection \<open>Results\<close>

lemma map_update_same: "f x = f (xs ! i) \<Longrightarrow> map f (xs[i := x]) = map f xs"
  by (metis list_update_beyond list_update_id map_update not_le)

lemma bookkeeping_complete: "bookkeeping c (complete_stage now c)"
  by (simp add: bookkeeping_def complete_stage_def map_update_same)

lemma bookkeeping_next: "cmp_active_stage c + 1 < length (cmp_stages c) \<Longrightarrow> bookkeeping c (next_stage c)"
  by (simp add: bookkeeping_def next_stage_def Let_def map_update_same)

lemma bookkeeping_trans_complete:
  "cmp_active_stage (complete_stage now c) + 1 < length (cmp_stages (complete_stage now c)) \<Longrightarrow>
   bookkeeping c (next_stage (complete_stage now c))"
  using bookkeeping_complete [of c now] bookkeeping_next [of "complete_stage now c"]
  by (auto simp: bookkeeping_def complete_stage_def)

lemma map_id_updates [simp]:
  "map spg_id (map (\<lambda>p. if spg_id p = i then p\<lparr>spg_state := s\<rparr> else p) ps) = map spg_id ps"
  by (induction ps) auto

lemma store_campaign_get: "store_campaign s k = table_get (dst_campaigns s) k"
  by (simp add: store_campaign_def)

context campaign_order
begin

lemma keeps_fail: "{US_blocked, US_failed} \<subseteq> reached \<Longrightarrow> keeps le k (carried le k c) (fail_locked c reason) anything"
  unfolding fail_locked_def by (intro keeps_steps) (auto simp: bookkeeping_def)

lemma keeps_commit_prepare:
  assumes "{US_blocked, US_failed, US_staged} \<subseteq> reached"
  shows "keeps le k (carried le k c) (commit_prepare item p now a c) anything"
  using assms unfolding commit_prepare_def
  by (intro keeps_steps keeps_fail) (auto simp: bookkeeping_def)

lemma keeps_commit_refused:
  assumes "US_blocked \<in> reached"
  shows "keeps le k (carried le k c) (commit_refused item reason now a c) anything"
  using assms unfolding commit_refused_def by (intro keeps_steps) (auto simp: bookkeeping_def)

lemma keeps_read_stored:
  assumes "wki_campaign item = k"
  shows "keeps le k (carried le k c)
    (do { e \<leftarrow> reads id;
          State_Monad.return (case store_campaign (eng_store e) (wki_campaign item) of None \<Rightarrow> c | Some stored \<Rightarrow> stored) })
    (carried le k)"
  by (rule keepsI) (auto simp: reads_def assms store_campaign_get evolves_at_refl carried_stored split: option.split)

lemma keeps_after_activation:
  assumes "{US_activating, US_blocked, US_verifying} \<subseteq> reached" "wki_campaign item = k"
  shows "keeps le k (carried le k c) (after_activation item c) anything"
  unfolding after_activation_def
  apply (rule keeps_bind [where Q = "carried le k"])
   apply (rule keeps_if)
    apply (rule keeps_clock keeps_move_bind bookkeeping_refl)+
  using assms(1) apply blast
   apply (rule keeps_read_stored [OF assms(2)])
   apply (rule keeps_give bookkeeping_refl)+
  using assms(1) by (intro keeps_steps) (auto simp: bookkeeping_def)

lemma keeps_commit_activate:
  assumes "{US_activating, US_blocked, US_verifying, US_failed} \<subseteq> reached" "wki_campaign item = k"
  shows "keeps le k (carried le k c) (commit_activate item outcome now a c) anything"
  using assms unfolding commit_activate_def
  by (intro keeps_steps keeps_commit_refused keeps_fail keeps_after_activation) (auto simp: bookkeeping_def)

lemma keeps_finish_stage:
  assumes "{US_staged, US_completed} \<subseteq> reached"
  shows "keeps le k (carried le k c) (finish_stage now c) anything"
  using assms unfolding finish_stage_def
  by (intro keeps_steps) (auto intro: bookkeeping_trans_complete bookkeeping_complete)

lemma keeps_commit_verify:
  assumes "{US_staged, US_completed, US_blocked, US_failed} \<subseteq> reached"
  shows "keeps le k (carried le k c) (commit_verify item outcome now a c) anything"
  using assms unfolding commit_verify_def
  by (intro keeps_steps keeps_finish_stage keeps_fail) (auto simp: bookkeeping_def)

lemma keeps_commit_rollback:
  assumes "{US_rolled_back, US_failed} \<subseteq> reached"
  shows "keeps le k (carried le k c) (commit_rollback item r now a c) anything"
  using assms unfolding commit_rollback_def by (intro keeps_steps) (auto simp: bookkeeping_def)

end


subsection \<open>Commits and planning\<close>

context campaign_order
begin

text \<open>An operation that reads its campaign from the store.\<close>

lemma keeps_stored:
  assumes "\<And>e c. table_get (engine_campaigns_table e) k = Some c \<Longrightarrow> keeps le k (carried le k c) (f e) anything"
    and "\<And>e. table_get (engine_campaigns_table e) k = None \<Longrightarrow> quiet (f e)"
  shows "keeps le k (\<lambda>_. True) (State_Monad.bind (reads id) f) anything"
proof (rule keepsI)
  fix e x e'
  assume e: "keyed (engine_campaigns_table e)" "run_state (State_Monad.bind (reads id) f) e = (x, e')"
  then have run: "run_state (f e) e = (x, e')" by (simp add: reads_def)
  show "keyed (engine_campaigns_table e') \<and>
      evolves_at le k (engine_campaigns_table e) (engine_campaigns_table e') \<and> anything x (engine_campaigns_table e')"
  proof (cases "table_get (engine_campaigns_table e) k")
    case None
    from leavesD [OF assms(2) [OF None, unfolded quiet_def] run] e(1) show ?thesis
      by (simp add: evolves_at_refl anything_def)
  next
    case (Some c)
    from keepsD [OF assms(1) [OF Some] e(1) carried_stored [OF e(1) Some] run] show ?thesis .
  qed
qed

lemma keeps_with_campaign:
  assumes "\<And>c. keeps le k (carried le k c) (f c) anything"
  shows "keeps le k (\<lambda>_. True) (with_campaign k f) anything"
  unfolding with_campaign_def
  by (rule keeps_stored) (simp_all add: store_campaign_get assms quiet_def stop_def leaves_return)

lemma keeps_commit_locked:
  assumes "{US_activating, US_blocked, US_verifying, US_failed, US_staged, US_rolled_back} \<subseteq> reached"
    and "wki_kind item = OP_verify \<Longrightarrow> US_completed \<in> reached" "wki_campaign item = k"
  shows "keeps le k (carried le k c) (commit_locked item outcome a c) anything"
  using assms unfolding commit_locked_def
  by (cases "wki_kind item")
    (simp_all, (intro keeps_clock keeps_commit_prepare keeps_commit_activate keeps_commit_verify keeps_commit_rollback; simp)+)

lemma keeps_commit_item:
  assumes "{US_activating, US_blocked, US_verifying, US_failed, US_staged, US_rolled_back} \<subseteq> reached"
    and "wki_kind item = OP_verify \<Longrightarrow> US_completed \<in> reached"
  shows "keeps le (wki_campaign item) (\<lambda>_. True) (commit_item item outcome) anything"
  unfolding commit_item_def
proof (rule keeps_stored, goal_cases)
  case (1 e c)
  then show ?case
    using assms
    by (auto simp: store_campaign_get split: option.split sum.split
        intro!: keeps_done forgivings keeps_clock keeps_commit_locked)
next
  case (2 e)
  then show ?case
    by (auto simp: store_campaign_get quiet_def stop_def leaves_return split: option.split)
qed

lemma keeps_resume_staging:
  assumes "US_staged \<in> reached"
  shows "keeps le k (carried le k c) (resume_staging c) (carried le k)"
  using assms unfolding resume_staging_def by (intro keeps_if keeps_clock keeps_move keeps_give) simp_all

lemma keeps_resume_activation:
  assumes "{US_activating, US_verifying} \<subseteq> reached"
  shows "keeps le k (carried le k c) (resume_activation c) (carried le k)"
  unfolding resume_activation_def
  apply (intro keeps_if keeps_clock keeps_give bookkeeping_refl)
  apply (rule keeps_bind [where Q = "carried le k"])
   apply (intro keeps_if keeps_move keeps_give bookkeeping_refl)
  using assms apply blast
  apply (intro keeps_move bookkeeping_refl)
  using assms by blast

lemma keeps_hold:
  assumes "US_blocked \<in> reached"
  shows "keeps le k (carried le k c) (hold_for_skew c) anything"
  using assms unfolding hold_for_skew_def Let_def
  by (intro keeps_steps) (auto simp: bookkeeping_def)

lemma keeps_plan_campaign:
  assumes "{US_staged, US_activating, US_verifying, US_blocked} \<subseteq> reached"
  shows "keeps le k (carried le k c) (plan_campaign now budget c out) anything"
proof -
  have targets: "quiet (fold_op (plan_stage_target now budget d stage) ts acc)" for d stage ts acc
    using quiet_plan_stage_target unfolding quiet_def by (intro leaves_fold) blast
  have body: "keeps le k (carried le k c) (do {
          c \<leftarrow> resume_staging c;
          c \<leftarrow> resume_activation c;
          if cmp_state c = US_rolling_back then plan_rollback now budget c out
          else do {
            held \<leftarrow> hold_for_skew c;
            if held then State_Monad.return out
            else do {
              as \<leftarrow> reads (\<lambda>e. attempts_for (eng_store e) (cmp_id c));
              (as, out) \<leftarrow> fold_op (plan_stage_target now budget c stage) (stg_targets stage) (as, out);
              State_Monad.return out
            }
          }
        }) anything" for stage
    using assms
    apply -
    apply (rule keeps_bind [OF keeps_resume_staging], blast)
    apply (rule keeps_bind [OF keeps_resume_activation], blast)
    apply (rule keeps_if)
     apply (rule keeps_quiet_any, rule quiet_plan_rollback)
    apply (rule keeps_bind [OF keeps_hold], blast)
    apply (intro keeps_if keeps_done keeps_clock)
    apply (rule keeps_quiet_bind [OF targets])
    apply (simp add: case_prod_beta keeps_done)
    done
  then show ?thesis
    unfolding plan_campaign_def
    by (cases "campaign_running (cmp_state c)"; cases "active_plan_stage c") (simp_all only: prod.case bool.case option.case keeps_done)
qed

lemma carried_elsewhere:
  "carried le k c t \<Longrightarrow> evolves_at le k' t t' \<Longrightarrow> k \<noteq> k' \<Longrightarrow> carried le k c t'"
  by (auto simp: carried_def evolves_at_def)

end


subsection \<open>Commands\<close>

lemma forgiving_success [simp]: "forgiving (on_success Q)" "forgiving anything"
  by (simp_all add: forgivings)

context campaign_order
begin

lemma keeps_pause:
  assumes "US_paused \<in> reached"
  shows "keeps le k (carried le k c) (pause_campaign c reason now) anything"
  using assms unfolding pause_campaign_def by (intro keeps_steps) (auto simp: bookkeeping_def)

lemma keeps_resume:
  assumes "{US_validated, US_prepared} \<subseteq> reached"
  shows "keeps le k (carried le k c) (resume_campaign c now) anything"
  using assms unfolding resume_campaign_def by (intro keeps_steps) (auto simp: bookkeeping_def)

lemma keeps_abort:
  assumes "{US_blocked, US_failed} \<subseteq> reached"
  shows "keeps le k (carried le k c) (abort_campaign c reason now) anything"
  using assms unfolding abort_campaign_def by (intro keeps_steps) (auto simp: bookkeeping_def)

lemma keeps_rollback_moves:
  assumes "{US_failed, US_rollback_planned, US_rolling_back} \<subseteq> reached"
  shows "keeps le k (carried le k c) (rollback_moves c g execute) (on_success (carried le k))"
  using assms unfolding rollback_moves_def by (intro keeps_steps) auto

lemma keeps_rollback:
  assumes "{US_failed, US_rollback_planned, US_rolling_back} \<subseteq> reached"
  shows "keeps le k (carried le k c) (rollback_campaign c execute now) anything"
  unfolding rollback_campaign_def Let_def
  by (intro keeps_steps keeps_try [OF keeps_rollback_moves [OF assms]])

lemma keeps_start_moves:
  assumes "{US_validated, US_prepared} \<subseteq> reached"
  shows "keeps le k (carried le k c) (start_moves c g) (on_success (carried le k))"
  using assms unfolding start_moves_def Let_def by (intro keeps_steps) (auto simp: bookkeeping_def)

lemma start_bookkeeping: "bookkeeping c (start_generation e (start_record e' c options) now)"
  by (simp add: bookkeeping_def start_generation_def start_record_def Let_def)

lemma keeps_start_admit:
  assumes "{US_validated, US_prepared} \<subseteq> reached"
  shows "keeps le cid (\<lambda>_. True) (start_admit cid options now) anything"
  unfolding start_admit_def Let_def
proof (rule keeps_stored, goal_cases)
  case (1 e c)
  then show ?case
    by (simp add: store_campaign_get)
      (intro keeps_steps keeps_try [OF keeps_start_moves [OF assms]] start_bookkeeping)
next
  case (2 e)
  then show ?case by (simp add: store_campaign_get quiet_def stop_def leaves_return)
qed

lemma keeps_preflight_admit:
  assumes "US_validated \<in> reached" "bookkeeping c0 c"
  shows "keeps le k (carried le k c0) (preflight_admit report now c) (on_success (carried le k))"
  using assms unfolding preflight_admit_def by (intro keeps_steps) (auto simp: bookkeeping_def)

lemma keeps_preflight_refuse:
  assumes "US_blocked \<in> reached" "bookkeeping c0 c"
  shows "keeps le k (carried le k c0) (preflight_refuse report now c) (on_success (carried le k))"
  using assms unfolding preflight_refuse_def by (intro keeps_steps) (auto simp: bookkeeping_def)

lemma keeps_preflight_commit:
  assumes "{US_validated, US_blocked} \<subseteq> reached"
  shows "keeps le cid (\<lambda>_. True) (preflight_commit cid digest revision report now) anything"
  unfolding preflight_commit_def Let_def
proof (rule keeps_stored, goal_cases)
  case (1 e c)
  then have stored: "store_campaign (eng_store e) cid = Some c" by (simp add: store_campaign_get)
  from assms show ?case
    unfolding stored option.case
    apply (intro keeps_try_branch keeps_if keeps_preflight_admit keeps_preflight_refuse keeps_clock keeps_done forgivings)
    apply (simp_all add: bookkeeping_def)
    done
next
  case (2 e)
  then show ?case by (simp add: store_campaign_get quiet_def stop_def leaves_return)
qed

lemma keeps_reconcile_interrupted:
  assumes "US_blocked \<in> reached"
  shows "keeps le (rca_subject action) (\<lambda>_. True) (reconcile_interrupted action) anything"
  unfolding reconcile_interrupted_def
proof (rule keeps_stored, goal_cases)
  case (1 e c)
  then show ?case using assms
    by (simp add: store_campaign_get) (intro keeps_steps; simp add: bookkeeping_def)
next
  case (2 e)
  then show ?case by (simp add: store_campaign_get quiet_def ok_op_def leaves_return)
qed

lemma keeps_reconcile_invalidate:
  "keeps le (rca_subject action) (\<lambda>_. True) (reconcile_invalidate now action) anything"
  unfolding reconcile_invalidate_def
proof (rule keeps_stored, goal_cases)
  case (1 e c)
  then show ?case
    by (simp add: store_campaign_get) (intro keeps_steps; simp add: bookkeeping_def)
next
  case (2 e)
  then show ?case by (simp add: store_campaign_get quiet_def ok_op_def leaves_return)
qed

end


subsection \<open>The engine as a whole\<close>

text \<open>What a campaign is when it is created.\<close>

definition newborn :: "campaign_record \<Rightarrow> bool" where
  "newborn c \<longleftrightarrow> cmp_state c = US_proposed \<and> cmp_active_stage c = 0 \<and>
     map spg_id (cmp_stages c) = map stg_id (pln_stages (cmp_plan c))"

lemma newborn_campaign: "newborn (new_campaign e req p now)"
  by (simp add: newborn_def new_campaign_def)

lemma evolvingD:
  "evolving le born m \<Longrightarrow> keyed (engine_campaigns_table e) \<Longrightarrow> run_state m e = (x, e') \<Longrightarrow>
   keyed (engine_campaigns_table e') \<and> evolves le born (engine_campaigns_table e) (engine_campaigns_table e')"
  unfolding evolving_def by blast

definition evolving_from ::
    "(campaign_record \<Rightarrow> campaign_record \<Rightarrow> bool) \<Rightarrow> (campaign_record \<Rightarrow> bool) \<Rightarrow> 'w engine \<Rightarrow> ('w, 'a) engine_op \<Rightarrow>
     bool" where
  "evolving_from le born e m \<longleftrightarrow>
     (keyed (engine_campaigns_table e) \<longrightarrow> (\<forall>x e'. run_state m e = (x, e') \<longrightarrow>
        keyed (engine_campaigns_table e') \<and>
        evolves le born (engine_campaigns_table e) (engine_campaigns_table e')))"

lemma table_list_get:
  assumes "keyed t" "c \<in> set (table_list cmp_id t)"
  shows "table_get t (cmp_id c) = Some c"
proof -
  from assms(2) obtain k where k: "(k, c) \<in> set t" by (auto simp: table_list_def)
  with assms(1) have "table_get t k = Some c" by (simp add: keyed_def table_ok_def table_get_def)
  moreover from this assms(1) have "cmp_id c = k" by (simp add: keyed_def)
  ultimately show ?thesis by simp
qed

lemma table_list_distinct:
  assumes "keyed t"
  shows "distinct (map cmp_id (table_list cmp_id t))"
proof -
  have key: "cmp_id c = k" if "(k, c) \<in> set t" for k c
  proof -
    from that assms have "table_get t k = Some c" by (simp add: keyed_def table_ok_def table_get_def)
    with assms show ?thesis by (simp add: keyed_def)
  qed
  then have "map cmp_id (map snd t) = map fst t" by (auto intro: key)
  then have "distinct (map cmp_id (map snd t))" using assms by (simp only: keyed_def table_ok_def)
  moreover have "mset (map cmp_id (table_list cmp_id t)) = mset (map cmp_id (map snd t))"
    by (simp only: table_list_def mset_map mset_sort)
  ultimately show ?thesis using mset_eq_imp_distinct_iff by blast
qed

context campaign_order
begin

lemma evolves_refl: "evolves le born t t"
  by (auto simp: evolves_def le_refl split: option.split)

lemma evolves_trans:
  assumes "evolves le born t1 t2" "evolves le born t2 t3"
  shows "evolves le born t1 t3"
  unfolding evolves_def
proof
  fix k
  note at = assms [unfolded evolves_def, THEN spec, of k]
  show "case table_get t1 k of
      None \<Rightarrow> (\<forall>c'. table_get t3 k = Some c' \<longrightarrow> (\<exists>b. born b \<and> le b c'))
    | Some c \<Rightarrow> \<exists>c'. table_get t3 k = Some c' \<and> le c c'"
  proof (cases "table_get t2 k")
    case None
    with at show ?thesis by (auto split: option.splits)
  next
    case (Some c2)
    with at(2) obtain c3 where c3: "table_get t3 k = Some c3" "le c2 c3" by auto
    show ?thesis
    proof (cases "table_get t1 k")
      case None
      with at(1) Some obtain b where "born b" "le b c2" by auto
      with c3 None show ?thesis by (auto intro: le_trans)
    next
      case (Some c1)
      with at(1) \<open>table_get t2 k = Some c2\<close> have "le c1 c2" by auto
      with c3 Some show ?thesis by (auto intro: le_trans)
    qed
  qed
qed

lemma evolves_of_at: "evolves_at le k t t' \<Longrightarrow> evolves le born t t'"
  unfolding evolves_def evolves_at_def
proof
  fix k'
  assume at: "(\<forall>k'. k' \<noteq> k \<longrightarrow> table_get t' k' = table_get t k') \<and>
     (case table_get t k of None \<Rightarrow> table_get t' k = None | Some c \<Rightarrow> \<exists>c'. table_get t' k = Some c' \<and> le c c')"
  then show "case table_get t k' of
      None \<Rightarrow> (\<forall>c'. table_get t' k' = Some c' \<longrightarrow> (\<exists>b. born b \<and> le b c'))
    | Some c \<Rightarrow> \<exists>c'. table_get t' k' = Some c' \<and> le c c'"
    by (cases "k' = k") (auto simp: le_refl split: option.splits)
qed

lemma evolving_keeps: "keeps le k (\<lambda>_. True) m Q \<Longrightarrow> evolving le born m"
  unfolding evolving_def by (blast dest: keepsD intro: evolves_of_at)

lemma evolving_quiet: "quiet m \<Longrightarrow> evolving le born m"
  by (rule evolving_keeps [OF keeps_quiet_any])

lemma evolving_bind:
  assumes "evolving le born m" "\<And>x. evolving le born (f x)"
  shows "evolving le born (State_Monad.bind m f)"
  unfolding evolving_def
proof (intro allI impI)
  fix e x e'
  assume e: "keyed (engine_campaigns_table e)" "run_state (State_Monad.bind m f) e = (x, e')"
  obtain y e1 where y: "run_state m e = (y, e1)" by force
  with e have f: "run_state (f y) e1 = (x, e')" by simp
  from evolvingD [OF assms(1) e(1) y] evolvingD [OF assms(2) _ f]
  show "keyed (engine_campaigns_table e') \<and> evolves le born (engine_campaigns_table e) (engine_campaigns_table e')"
    by (auto intro: evolves_trans)
qed

lemma evolving_return: "evolving le born (State_Monad.return x)" "evolving le born (ok_op y)"
    "evolving le born (stop c m d)"
  by (rule evolving_quiet; simp add: quiet_def leaves_return leaves_ok)+

lemma evolving_reads: "(\<And>x. evolving le born (f x)) \<Longrightarrow> evolving le born (State_Monad.bind (reads g) f)"
  by (rule evolving_bind [OF evolving_quiet]) (simp_all add: quiet_basic)

lemma evolving_if: "evolving le born m \<Longrightarrow> evolving le born n \<Longrightarrow> evolving le born (if b then m else n)"
  by simp

lemma evolving_sum:
  "(\<And>x. evolving le born (f x)) \<Longrightarrow> (\<And>y. evolving le born (g y)) \<Longrightarrow>
   evolving le born (case s of Inl x \<Rightarrow> f x | Inr y \<Rightarrow> g y)"
  by (simp split: sum.split)

lemma evolving_try:
  "evolving le born m \<Longrightarrow> (\<And>x. evolving le born (f x)) \<Longrightarrow> evolving le born (try_op m f)"
  unfolding try_op_def by (intro evolving_bind evolving_sum evolving_return)

lemma evolving_each: "(\<And>x. evolving le born (f x)) \<Longrightarrow> evolving le born (each_op f xs)"
  by (induction xs) (simp_all add: evolving_return evolving_try)

lemma evolving_shutdown_guard: "evolving le born m \<Longrightarrow> evolving le born (refuse_after_shutdown m)"
  unfolding refuse_after_shutdown_def by (intro evolving_reads evolving_if evolving_return)

lemma evolving_clock: "(\<And>now. evolving le born (f now)) \<Longrightarrow> evolving le born (State_Monad.bind clock_now f)"
  by (rule evolving_bind [OF evolving_quiet [OF quiet_basic(1)]])

lemma evolving_pause: "US_paused \<in> reached \<Longrightarrow> evolving le born (pause cid reason)"
  unfolding pause_def
  by (intro evolving_shutdown_guard evolving_clock evolving_keeps [OF keeps_with_campaign] keeps_pause)

lemma evolving_resume: "{US_validated, US_prepared} \<subseteq> reached \<Longrightarrow> evolving le born (resume cid)"
  unfolding resume_def
  by (intro evolving_shutdown_guard evolving_clock evolving_keeps [OF keeps_with_campaign] keeps_resume)

lemma evolving_abort: "{US_blocked, US_failed} \<subseteq> reached \<Longrightarrow> evolving le born (abort cid reason)"
  unfolding abort_def
  by (intro evolving_shutdown_guard evolving_clock evolving_keeps [OF keeps_with_campaign] keeps_abort)

lemma evolving_rollback:
  "{US_failed, US_rollback_planned, US_rolling_back} \<subseteq> reached \<Longrightarrow> evolving le born (rollback cid execute)"
  unfolding rollback_def
  by (intro evolving_shutdown_guard evolving_clock evolving_keeps [OF keeps_with_campaign] keeps_rollback)

lemma evolving_reconciliation: "US_blocked \<in> reached \<Longrightarrow> evolving le born (apply_reconciliation now)"
proof -
  assume blocked: "US_blocked \<in> reached"
  have one: "evolving le born (reconcile_one now action)" for action
    unfolding reconcile_one_def reconcile_abandon_def
    by (cases "rca_kind action")
      (auto intro!: evolving_keeps [OF keeps_reconcile_interrupted [OF blocked]]
        evolving_keeps [OF keeps_reconcile_invalidate] evolving_reads evolving_return
        evolving_quiet [OF quiet_basic(6)] split: option.split)
  show ?thesis
    unfolding apply_reconciliation_def Let_def
    by (intro evolving_reads evolving_bind evolving_each one evolving_quiet)
      (simp add: quiet_def campaigns_changes)
qed

lemma evolving_plan_campaigns:
  assumes "{US_staged, US_activating, US_verifying, US_blocked} \<subseteq> reached"
  shows "keyed (engine_campaigns_table e) \<Longrightarrow>
    \<forall>c\<in>set cs. carried le (cmp_id c) c (engine_campaigns_table e) \<Longrightarrow> distinct (map cmp_id cs) \<Longrightarrow>
    run_state (plan_campaigns now budget cs out) e = (x, e') \<Longrightarrow>
    keyed (engine_campaigns_table e') \<and> evolves le born (engine_campaigns_table e) (engine_campaigns_table e')"
proof (induction cs arbitrary: e out)
  case Nil
  then show ?case by (simp add: evolves_refl)
next
  case (Cons c cs)
  show ?case
  proof (cases "length out \<ge> budget \<or> eng_shutting_down e")
    case True
    with Cons.prems show ?thesis by (simp add: reads_def evolves_refl)
  next
    case False
    obtain out1 e1 where c: "run_state (plan_campaign now budget c out) e = (out1, e1)" by force
    with Cons.prems(4) False have rest: "run_state (plan_campaigns now budget cs out1) e1 = (x, e')"
      by (simp add: reads_def)
    from keepsD [OF keeps_plan_campaign [OF assms] Cons.prems(1) _ c] Cons.prems(2)
    have c1: "keyed (engine_campaigns_table e1)"
      "evolves_at le (cmp_id c) (engine_campaigns_table e) (engine_campaigns_table e1)" by auto
    have "\<forall>d\<in>set cs. carried le (cmp_id d) d (engine_campaigns_table e1)"
    proof
      fix d assume d: "d \<in> set cs"
      then have "cmp_id d \<noteq> cmp_id c" using Cons.prems(3) by (auto simp: image_iff)
      with d Cons.prems(2) c1(2) show "carried le (cmp_id d) d (engine_campaigns_table e1)"
        by (auto intro: carried_elsewhere)
    qed
    from Cons.IH [OF c1(1) this _ rest] Cons.prems(3) evolves_of_at [OF c1(2)] show ?thesis
      by (auto intro: evolves_trans)
  qed
qed

lemma evolving_plan_work:
  assumes "{US_staged, US_activating, US_verifying, US_blocked} \<subseteq> reached"
  shows "evolving le born (plan_work budget)"
  unfolding plan_work_def
proof (rule evolving_clock)
  fix now
  show "evolving le born (do {
     campaigns \<leftarrow> reads (\<lambda>e. store_campaigns (eng_store e));
     plan_campaigns now budget campaigns [] })"
    unfolding evolving_def
  proof (intro allI impI)
    fix e x e'
    assume e: "keyed (engine_campaigns_table e)" "run_state (do {
       campaigns \<leftarrow> reads (\<lambda>e. store_campaigns (eng_store e)); plan_campaigns now budget campaigns [] }) e = (x, e')"
    then have run: "run_state (plan_campaigns now budget (table_list cmp_id (engine_campaigns_table e)) []) e = (x, e')"
      by (simp add: reads_def store_campaigns_def)
    show "keyed (engine_campaigns_table e') \<and> evolves le born (engine_campaigns_table e) (engine_campaigns_table e')"
      by (rule evolving_plan_campaigns [OF assms e(1) _ table_list_distinct [OF e(1)] run])
        (blast intro: carried_stored [OF e(1)] table_list_get [OF e(1)])
  qed
qed

text \<open>The same from one state only: what a check before a write establishes.\<close>

lemma evolving_put_new:
  assumes "newborn c" "table_get (engine_campaigns_table e) (cmp_id c) = None"
  shows "evolving_from le newborn e (engine_put_campaign c now)"
  unfolding evolving_from_def
proof (intro impI allI)
  fix x e'
  assume e: "keyed (engine_campaigns_table e)" "run_state (engine_put_campaign c now) e = (x, e')"
  from e(2) obtain dk st r where p: "put_campaign dk (eng_store e) c now = (r, st)" "eng_store e' = st"
    by (auto simp: engine_put_campaign_def store_op_def reads_def call_def split: prod.splits)
  from put_campaign_tables [OF p(1)] p(2) have
    "engine_campaigns_table e' = table_put (engine_campaigns_table e) (cmp_id c) c \<or>
     engine_campaigns_table e' = engine_campaigns_table e"
    by auto
  then show "keyed (engine_campaigns_table e') \<and> evolves le newborn (engine_campaigns_table e) (engine_campaigns_table e')"
  proof
    assume put: "engine_campaigns_table e' = table_put (engine_campaigns_table e) (cmp_id c) c"
    have get: "table_get (engine_campaigns_table e') k =
        (if k = cmp_id c then Some c else table_get (engine_campaigns_table e) k)" for k
      by (simp add: put store_table.get_put)
    have "case table_get (engine_campaigns_table e) k of
        None \<Rightarrow> (\<forall>c'. table_get (engine_campaigns_table e') k = Some c' \<longrightarrow> (\<exists>b. newborn b \<and> le b c'))
      | Some c \<Rightarrow> \<exists>c'. table_get (engine_campaigns_table e') k = Some c' \<and> le c c'" for k
      using assms le_refl by (cases "k = cmp_id c") (auto simp: get split: option.split)
    moreover have "keyed (engine_campaigns_table e')" using keyed_put [OF e(1), of c] put by simp
    ultimately show ?thesis unfolding evolves_def by blast
  next
    assume "engine_campaigns_table e' = engine_campaigns_table e"
    with e(1) show ?thesis by (simp add: evolves_refl)
  qed
qed

lemma evolving_from_bind:
  assumes "evolving_from le born e m" "\<And>x. evolving le born (f x)"
  shows "evolving_from le born e (State_Monad.bind m f)"
  unfolding evolving_from_def
proof (intro allI impI)
  fix x e'
  assume e: "keyed (engine_campaigns_table e)" "run_state (State_Monad.bind m f) e = (x, e')"
  obtain y e1 where y: "run_state m e = (y, e1)" by force
  with e have f: "run_state (f y) e1 = (x, e')" by simp
  have "keyed (engine_campaigns_table e1) \<and> evolves le born (engine_campaigns_table e) (engine_campaigns_table e1)"
    using assms(1) e(1) y unfolding evolving_from_def by blast
  with evolvingD [OF assms(2) _ f]
  show "keyed (engine_campaigns_table e') \<and> evolves le born (engine_campaigns_table e) (engine_campaigns_table e')"
    by (auto intro: evolves_trans)
qed

lemma evolving_from_try:
  "evolving_from le born e m \<Longrightarrow> (\<And>x. evolving le born (f x)) \<Longrightarrow> evolving_from le born e (try_op m f)"
  unfolding try_op_def by (intro evolving_from_bind evolving_sum evolving_return)

lemma evolving_from_any: "evolving le born m \<Longrightarrow> evolving_from le born e m"
  unfolding evolving_def evolving_from_def by blast

lemma evolving_reads_from: "(\<And>e. evolving_from le born e (f e)) \<Longrightarrow> evolving le born (State_Monad.bind (reads id) f)"
  unfolding evolving_def evolving_from_def by (simp add: reads_def)

lemma evolving_create: "evolving le newborn (create_campaign req)"
proof -
  have id: "cmp_id (new_campaign e req p now) = pln_campaign p" for e :: "'b engine" and p now
    by (simp add: new_campaign_def)
  have "evolving_from le newborn e
      (if store_campaign (eng_store e) (pln_campaign p) \<noteq> None
       then stop EC_already_exists ''a campaign with this identity already exists'' (pln_campaign p)
       else try_op (insert_campaign (new_campaign e req p now) p now) (\<lambda>_. ok_op p))" for e p now
    unfolding insert_campaign_def
    by (auto simp: store_campaign_get id newborn_campaign
        intro!: evolving_from_any [OF evolving_return(3)] evolving_from_try evolving_put_new evolving_return evolving_bind
          evolving_quiet [OF quiet_basic(3)])
  then show ?thesis
    unfolding create_campaign_def
    by (intro evolving_clock evolving_try evolving_quiet [OF quiet_engine_plan] evolving_reads_from)
qed

end

end
