(* ===== verification/Engine_Runs.thy ===== *)
theory Engine_Runs
  imports Engine_Orders
begin

text \<open>
  The engine at work: what it does in one region under its mutex is a step, every command and driver is a sequence of
  such steps, and the steps of several threads interleave in any order.  The properties here hold in every run
  from a store, whatever the ports, the clocks and the disk answer.
\<close>

subsection \<open>Steps and runs\<close>

text \<open>
  The check and the insertion of \<open>create_campaign\<close> are one step here: in the code the mutex is released in
  between, so that two creations with the same identity at the same time both succeed and the second overwrites the
  first.  Anything may be committed: the item and the outcome of \<open>committed\<close> are arbitrary.
\<close>

inductive engine_step :: "'w engine \<Rightarrow> 'w engine \<Rightarrow> bool" where
  clock: "run_state clock_now e = (now, e') \<Longrightarrow> engine_step e e'"
| created: "run_state (create_campaign req) e = (p, e') \<Longrightarrow> engine_step e e'"
| inventory: "run_state (refresh_inventory now force) e = (r, e') \<Longrightarrow> engine_step e e'"
| artifact: "run_state (resolve_artifact a) e = (i, e') \<Longrightarrow> engine_step e e'"
| compatibility: "run_state (query_compatibility p snap now) e = (v, e') \<Longrightarrow> engine_step e e'"
| preflighted: "run_state (preflight_commit cid digest revision report now) e = (r, e') \<Longrightarrow> engine_step e e'"
| admitted: "run_state (start_admit cid options now) e = (c, e') \<Longrightarrow> engine_step e e'"
| rolled_out: "run_state (start_rollout cid options now change) e = (r, e') \<Longrightarrow> engine_step e e'"
| driver_started: "run_state start_driver e = (r, e') \<Longrightarrow> engine_step e e'"
| driver_set: "run_state (changes (\<lambda>e. e\<lparr>eng_driver_active := b\<rparr>)) e = (u, e') \<Longrightarrow> engine_step e e'"
| paused: "run_state (pause cid reason) e = (r, e') \<Longrightarrow> engine_step e e'"
| resumed: "run_state (resume cid) e = (r, e') \<Longrightarrow> engine_step e e'"
| aborted: "run_state (abort cid reason) e = (r, e') \<Longrightarrow> engine_step e e'"
| rollback_asked: "run_state (rollback cid execute) e = (r2, e') \<Longrightarrow> engine_step e e'"
| planned: "run_state (plan_work budget) e = (items, e') \<Longrightarrow> engine_step e e'"
| performed: "run_state (run_item adapter item now) e = (outcome, e') \<Longrightarrow> engine_step e e'"
| committed: "run_state (commit_item item outcome) e = (r, e') \<Longrightarrow> engine_step e e'"
| drains_released: "run_state release_finished_drains e = (u, e') \<Longrightarrow> engine_step e e'"
| stopped: "run_state shutdown e = (r, e') \<Longrightarrow> engine_step e e'"

inductive_cases engine_stepE: "engine_step e e'"

text \<open>A run of one incarnation, from the store it opened.\<close>

inductive engine_run :: "durable_store \<Rightarrow> 'w engine \<Rightarrow> bool" for st where
  opened: "run_state (adopt_store st now) e0 = (Inr (), e) \<Longrightarrow> engine_run st e"
| stepped: "engine_run st e \<Longrightarrow> engine_step e e' \<Longrightarrow> engine_run st e'"

subsection \<open>Commands and drivers are sequences of steps\<close>

definition stepping :: "('w, 'a) engine_op \<Rightarrow> bool" where
  "stepping m \<longleftrightarrow> (\<forall>e x e'. run_state m e = (x, e') \<longrightarrow> engine_step\<^sup>*\<^sup>* e e')"

lemma stepping_one: "(\<And>e x e'. run_state m e = (x, e') \<Longrightarrow> engine_step e e') \<Longrightarrow> stepping m"
  unfolding stepping_def by blast

lemma stepping_steps:
  "stepping clock_now" "stepping (create_campaign req)" "stepping (refresh_inventory now force)"
  "stepping (resolve_artifact a)" "stepping (query_compatibility p snap now)"
  "stepping (preflight_commit cid digest revision report now)" "stepping (start_admit cid options now)"
  "stepping (start_rollout cid options now change)" "stepping start_driver"
  "stepping (changes (\<lambda>e. e\<lparr>eng_driver_active := b\<rparr>))" "stepping (plan_work budget)"
  "stepping (run_item adapter item now)" "stepping (commit_item item outcome)" "stepping release_finished_drains"
  by (rule stepping_one, erule engine_step.intros)+

lemma stepping_return: "stepping (State_Monad.return x)" "stepping (ok_op y)" "stepping (stop c m d)" "stepping (reads f)"
  by (simp_all add: stepping_def ok_op_def stop_def reads_def)

lemma stepping_bind:
  assumes "stepping m" "\<And>x. stepping (f x)"
  shows "stepping (State_Monad.bind m f)"
  unfolding stepping_def
proof (intro allI impI)
  fix e x e'
  assume e: "run_state (State_Monad.bind m f) e = (x, e')"
  obtain y e1 where y: "run_state m e = (y, e1)" by force
  with e have "run_state (f y) e1 = (x, e')" by simp
  with y assms show "engine_step\<^sup>*\<^sup>* e e'" unfolding stepping_def by (meson rtranclp_trans)
qed

lemma stepping_if: "stepping m \<Longrightarrow> stepping n \<Longrightarrow> stepping (if b then m else n)"
  by simp

lemma stepping_option: "stepping m \<Longrightarrow> (\<And>x. stepping (n x)) \<Longrightarrow> stepping (case v of None \<Rightarrow> m | Some x \<Rightarrow> n x)"
  by (cases v) simp_all

lemma stepping_try: "stepping m \<Longrightarrow> (\<And>x. stepping (f x)) \<Longrightarrow> stepping (try_op m f)"
  unfolding try_op_def by (intro stepping_bind) (simp_all add: stepping_return split: sum.split)

lemmas stepping_rules = stepping_if stepping_option stepping_try stepping_bind stepping_return stepping_steps

lemma stepping_execute_item: "stepping (execute_item item)"
  unfolding execute_item_def by (intro stepping_rules)

lemma stepping_execute_batch: "stepping (execute_batch items)"
  by (induction items) (simp_all add: stepping_rules stepping_execute_item)

lemma stepping_run_loop: "stepping (run_loop bound n report admitted)"
proof (induction n arbitrary: admitted)
  case 0
  then show ?case by (simp add: stepping_return)
next
  case (Suc n)
  show ?case
    by (simp, intro stepping_if stepping_bind stepping_return stepping_steps stepping_execute_batch Suc.IH)
qed

lemma stepping_run_steps_bounded: "stepping (run_steps_bounded bound report)"
  unfolding run_steps_bounded_def by (intro stepping_bind stepping_if stepping_return stepping_run_loop)

lemma stepping_driver_loop: "stepping (driver_loop n)"
proof (induction n)
  case 0
  then show ?case by (simp add: stepping_return)
next
  case (Suc n)
  show ?case
    by (simp, intro stepping_if stepping_bind stepping_return stepping_steps stepping_run_steps_bounded Suc.IH)
qed

lemma stepping_preflight: "stepping (preflight cid)"
  unfolding preflight_def Let_def by (intro stepping_rules)

lemma stepping_start: "stepping (start cid options)"
  unfolding start_def refuse_after_shutdown_def by (intro stepping_rules)

lemma stepping_run_until_idle: "stepping run_until_idle"
  unfolding run_until_idle_def wait_for_idle_def by (intro stepping_rules stepping_run_steps_bounded)

lemma stepping_run_steps: "stepping (run_steps bound)"
  unfolding run_steps_def by (rule stepping_run_steps_bounded)

lemma engine_run_steps: "engine_step\<^sup>*\<^sup>* e e' \<Longrightarrow> engine_run st e \<Longrightarrow> engine_run st e'"
  by (induction rule: rtranclp_induct) (auto intro: engine_run.stepped)

lemma engine_run_command: "stepping m \<Longrightarrow> engine_run st e \<Longrightarrow> run_state m e = (x, e') \<Longrightarrow> engine_run st e'"
  unfolding stepping_def by (blast intro: engine_run_steps)

subsection \<open>What a run does to the campaigns\<close>

lemma quiet_driver_set: "quiet (changes (\<lambda>e. e\<lparr>eng_driver_active := b\<rparr>))"
  by (simp add: quiet_def campaigns_changes)

lemmas quiet_steps = quiet_basic quiet_inventory quiet_artifact quiet_compatibility quiet_start_rollout
  quiet_start_driver quiet_run_item quiet_release_finished_drains quiet_shutdown quiet_driver_set

context campaign_order
begin

lemma commit_evolving:
  assumes "- {US_completed} \<subseteq> reached" "wki_kind item = OP_verify \<Longrightarrow> US_completed \<in> reached"
  shows "evolving le newborn (commit_item item outcome)"
  by (rule evolving_keeps [OF keeps_commit_item]) (use assms in auto)

lemma step_evolving:
  assumes "- {US_completed} \<subseteq> reached"
  shows "evolving le newborn clock_now" "evolving le newborn (create_campaign req)"
    "evolving le newborn (refresh_inventory now force)" "evolving le newborn (resolve_artifact a)"
    "evolving le newborn (query_compatibility p snap now)"
    "evolving le newborn (preflight_commit cid digest revision report now)"
    "evolving le newborn (start_admit cid options now)" "evolving le newborn (start_rollout cid options now change)"
    "evolving le newborn start_driver" "evolving le newborn (changes (\<lambda>e. e\<lparr>eng_driver_active := b\<rparr>))"
    "evolving le newborn (pause cid reason)" "evolving le newborn (resume cid)" "evolving le newborn (abort cid reason)"
    "evolving le newborn (rollback cid execute)" "evolving le newborn (plan_work budget)"
    "evolving le newborn (run_item adapter item now)"
    "evolving le newborn release_finished_drains" "evolving le newborn shutdown"
proof -
  have sub: "S \<subseteq> reached" if "US_completed \<notin> S" for S
    by (rule subset_trans [OF _ assms]) (use that in auto)
  show "evolving le newborn (preflight_commit cid digest revision report now)"
    by (rule evolving_keeps, rule keeps_preflight_commit, rule sub) simp
  show "evolving le newborn (start_admit cid options now)"
    by (rule evolving_keeps, rule keeps_start_admit, rule sub) simp
  show "evolving le newborn (pause cid reason)"
    by (rule evolving_pause) (use sub [of "{US_paused}"] in simp)
  show "evolving le newborn (resume cid)" by (rule evolving_resume, rule sub) simp
  show "evolving le newborn (abort cid reason)" by (rule evolving_abort, rule sub) simp
  show "evolving le newborn (rollback cid execute)" by (rule evolving_rollback, rule sub) simp
  show "evolving le newborn (plan_work budget)" by (rule evolving_plan_work, rule sub) simp
qed ((rule evolving_create | rule evolving_quiet, rule quiet_steps)+)

text \<open>A step that is not the commit of a verification needs no order that contains completion.\<close>

lemma step_evolves:
  assumes "engine_step e e'" "keyed (engine_campaigns_table e)" "- {US_completed} \<subseteq> reached"
    and "\<And>item outcome r. run_state (commit_item item outcome) e = (r, e') \<Longrightarrow> wki_kind item = OP_verify \<Longrightarrow>
      US_completed \<in> reached"
  shows "keyed (engine_campaigns_table e') \<and> evolves le newborn (engine_campaigns_table e) (engine_campaigns_table e')"
  using assms(1)
proof (rule engine_stepE)
  fix item outcome r
  assume c: "run_state (commit_item item outcome) e = (r, e')"
  show ?thesis
    by (rule evolvingD [OF commit_evolving [OF assms(3)] assms(2) c]) (rule assms(4) [OF c])
qed (rule evolvingD [OF _ assms(2)], rule step_evolving [OF assms(3)], assumption)+

lemma adopt_evolves:
  assumes "reached = UNIV" "run_state (adopt_store st now) e0 = (Inr (), e)" "keyed (dst_campaigns st)"
  shows "keyed (engine_campaigns_table e) \<and> evolves le newborn (dst_campaigns st) (engine_campaigns_table e)"
proof -
  let ?e1 = "e0\<lparr>eng_store := st, eng_incarnation := dst_incarnation st\<rparr>"
  from assms(2) obtain epoch where run: "run_state (do {
         changes (\<lambda>e. e\<lparr>eng_epoch := epoch\<rparr>);
         e \<leftarrow> reads id;
         try_op (store_op (\<lambda>d st. set_epoch d st epoch now)) (\<lambda>_.
         try_op (store_op (\<lambda>d st. put_policy d st (eng_policy e) now)) (\<lambda>_. do {
           changes (\<lambda>e. if cfg_executor (eng_config e) = EX_thread_pool then e\<lparr>eng_pool_mode := True\<rparr> else e);
           apply_reconciliation now
         })) }) ?e1 = (Inr (), e)"
    by (auto simp: adopt_store_def changes_def split: sum.splits)
  have "evolving le newborn (do {
         changes (\<lambda>e. e\<lparr>eng_epoch := epoch\<rparr>);
         e \<leftarrow> reads id;
         try_op (store_op (\<lambda>d st. set_epoch d st epoch now)) (\<lambda>_.
         try_op (store_op (\<lambda>d st. put_policy d st (eng_policy e) now)) (\<lambda>_. do {
           changes (\<lambda>e. if cfg_executor (eng_config e) = EX_thread_pool then e\<lparr>eng_pool_mode := True\<rparr> else e);
           apply_reconciliation now
         })) })"
    apply (intro evolving_bind evolving_reads evolving_try)
    apply (rule evolving_quiet, simp add: quiet_def campaigns_changes)
    apply (rule evolving_quiet, rule quiet_basic)
    apply (rule evolving_quiet, simp only: quiet_def, rule campaigns_store_op, drule set_epoch_tables, simp)
    apply (rule evolving_quiet, simp only: quiet_def, rule campaigns_store_op, drule put_policy_tables, simp)
    apply (rule evolving_quiet, simp only: quiet_def, rule leaves_changes, simp)
    apply (rule evolving_reconciliation, simp add: assms(1))
    done
  from evolvingD [OF this _ run] assms(3) show ?thesis by simp
qed

lemma run_evolves:
  assumes "reached = UNIV" "engine_run st e" "keyed (dst_campaigns st)"
  shows "keyed (engine_campaigns_table e) \<and> evolves le newborn (dst_campaigns st) (engine_campaigns_table e)"
  using assms(2)
proof (induction rule: engine_run.induct)
  case (opened now e0 e)
  from adopt_evolves [OF assms(1) this assms(3)] show ?case .
next
  case (stepped e e')
  from step_evolves [OF stepped.hyps(2)] stepped.IH assms(1) show ?case by (auto intro: evolves_trans)
qed

text \<open>A stored campaign stands where the order led it, from where the store had it or from its creation.\<close>

lemma run_campaign:
  assumes "reached = UNIV" "engine_run st e" "keyed (dst_campaigns st)"
    "table_get (engine_campaigns_table e) k = Some c"
  obtains b where "table_get (dst_campaigns st) k = Some b \<or> table_get (dst_campaigns st) k = None \<and> newborn b" "le b c"
proof -
  from run_evolves [OF assms(1-3)] have "evolves le newborn (dst_campaigns st) (engine_campaigns_table e)" by simp
  then have "case table_get (dst_campaigns st) k of
      None \<Rightarrow> (\<forall>c'. table_get (engine_campaigns_table e) k = Some c' \<longrightarrow> (\<exists>b. newborn b \<and> le b c'))
    | Some c \<Rightarrow> \<exists>c'. table_get (engine_campaigns_table e) k = Some c' \<and> le c c'"
    unfolding evolves_def by blast
  with assms(4) that show thesis by (cases "table_get (dst_campaigns st) k") auto
qed

end

subsection \<open>The lifecycle\<close>

definition lifecycle_le :: "campaign_record \<Rightarrow> campaign_record \<Rightarrow> bool" where
  "lifecycle_le c c' \<longleftrightarrow> cmp_id c' = cmp_id c \<and> (\<exists>tr. lifecycle_run (cmp_state c) tr (cmp_state c'))"

lemma lifecycle_run_trans: "lifecycle_run t tr2 u \<Longrightarrow> lifecycle_run s tr1 t \<Longrightarrow> \<exists>tr. lifecycle_run s tr u"
  by (induction rule: lifecycle_run.induct) (blast intro: lifecycle_run.intros)+

interpretation lifecycle: campaign_order lifecycle_le UNIV
proof
  fix a b c :: campaign_record and to g now
  show "lifecycle_le c c" by (auto simp: lifecycle_le_def intro: lifecycle_run.start)
  show "lifecycle_le a c" if "lifecycle_le a b" "lifecycle_le b c"
    using that by (auto simp: lifecycle_le_def intro: lifecycle_run_trans)
  show "cmp_id b = cmp_id a" if "lifecycle_le a b" using that by (simp add: lifecycle_le_def)
  show "lifecycle_le c b" if "bookkeeping c b"
    using that by (auto simp: lifecycle_le_def bookkeeping_def intro: lifecycle_run.start)
  show "lifecycle_le c (moved_campaign c to now)" if "cmp_state c \<noteq> to" "tv_allowed (evaluate_transition (cmp_state c) to g)"
    using lifecycle_run.move [OF lifecycle_run.start lifecycle_step.step [OF that]] by (auto simp: lifecycle_le_def)
qed

subsection \<open>Stages\<close>

definition staged_well :: "campaign_record \<Rightarrow> bool" where
  "staged_well c \<longleftrightarrow>
     map spg_id (cmp_stages c) = map stg_id (pln_stages (cmp_plan c)) \<and>
     (cmp_stages c = [] \<and> cmp_active_stage c = 0 \<or> cmp_active_stage c < length (cmp_stages c))"

definition stages_le :: "campaign_record \<Rightarrow> campaign_record \<Rightarrow> bool" where
  "stages_le c c' \<longleftrightarrow> cmp_id c' = cmp_id c \<and> cmp_plan c' = cmp_plan c \<and> cmp_artifact c' = cmp_artifact c \<and>
     cmp_epoch c' = cmp_epoch c \<and> cmp_active_stage c \<le> cmp_active_stage c' \<and> (staged_well c \<longrightarrow> staged_well c')"

lemma bookkeeping_staged: "bookkeeping c b \<Longrightarrow> staged_well c \<Longrightarrow> staged_well b"
proof -
  assume b: "bookkeeping c b" and c: "staged_well c"
  then have l: "length (cmp_stages b) = length (cmp_stages c)"
    by (metis bookkeeping_def length_map)
  from b c l show ?thesis by (auto simp: bookkeeping_def staged_well_def)
qed

interpretation stages: campaign_order stages_le UNIV
proof
  fix a b c :: campaign_record and to g now
  show "stages_le c c" by (simp add: stages_le_def)
  show "stages_le a c" if "stages_le a b" "stages_le b c" using that by (auto simp: stages_le_def)
  show "cmp_id b = cmp_id a" if "stages_le a b" using that by (simp add: stages_le_def)
  show "stages_le c b" if "bookkeeping c b"
    using that bookkeeping_staged [OF that] by (auto simp: stages_le_def bookkeeping_def)
  show "stages_le c (moved_campaign c to now)" by (simp add: stages_le_def staged_well_def)
qed

text \<open>
  C10: the stages of a campaign fit its plan.  If the campaigns of the opened store have one progress entry per
  planned stage, under the same identity and in the same order, and an active stage among them, then so has
  every campaign stored in every state of the run, those created during it included; a campaign that was in the opened
  store still has its plan, its artifact and its epoch, and its active stage is not before the one it had; and no
  further step, of whatever kind, replaces the plan, the artifact or the epoch of any stored campaign or moves its
  active stage back.  So the unchecked accesses to the active stage stay within bounds.  (The creation of a
  campaign is one step here; two concurrent creations under one identity are not covered.)
\<close>

theorem engine_stages_fit_plan:
  assumes "engine_run st e" "keyed (dst_campaigns st)" "\<forall>k b. table_get (dst_campaigns st) k = Some b \<longrightarrow> staged_well b"
    and "table_get (dst_campaigns (eng_store e)) k = Some c"
  shows "staged_well c \<and>
    (case table_get (dst_campaigns st) k of
       None \<Rightarrow> True
     | Some b \<Rightarrow> cmp_plan c = cmp_plan b \<and> cmp_artifact c = cmp_artifact b \<and> cmp_epoch c = cmp_epoch b \<and>
         cmp_active_stage b \<le> cmp_active_stage c) \<and>
    (\<forall>e'. engine_step e e' \<longrightarrow>
       (\<exists>c'. table_get (dst_campaigns (eng_store e')) k = Some c' \<and> staged_well c' \<and>
          cmp_plan c' = cmp_plan c \<and> cmp_artifact c' = cmp_artifact c \<and> cmp_epoch c' = cmp_epoch c \<and>
          cmp_active_stage c \<le> cmp_active_stage c'))"
proof -
  have kept: "\<exists>c'. table_get (dst_campaigns (eng_store e')) k = Some c' \<and> stages_le c c'" if "engine_step e e'" for e'
  proof -
    have "keyed (engine_campaigns_table e)" using stages.run_evolves [OF refl assms(1,2)] by simp
    then have "evolves stages_le newborn (engine_campaigns_table e) (engine_campaigns_table e')"
      using stages.step_evolves [OF that] by simp
    then show ?thesis unfolding evolves_def using assms(4) by (auto dest: spec [of _ k])
  qed
  obtain b where b: "table_get (dst_campaigns st) k = Some b \<or> table_get (dst_campaigns st) k = None \<and> newborn b"
    "stages_le b c"
    by (rule stages.run_campaign [OF refl assms(1,2,4)])
  have "staged_well b"
  proof (cases "table_get (dst_campaigns st) k")
    case None
    with b(1) have "newborn b" by simp
    then show ?thesis by (cases "cmp_stages b") (auto simp: newborn_def staged_well_def)
  next
    case (Some b')
    with b(1) assms(3) show ?thesis by auto
  qed
  with b have here: "staged_well c" by (simp add: stages_le_def)
  have "\<exists>c'. table_get (dst_campaigns (eng_store e')) k = Some c' \<and> staged_well c' \<and> cmp_plan c' = cmp_plan c \<and>
      cmp_artifact c' = cmp_artifact c \<and> cmp_epoch c' = cmp_epoch c \<and> cmp_active_stage c \<le> cmp_active_stage c'"
    if "engine_step e e'" for e'
    using kept [OF that] here by (auto simp: stages_le_def)
  with here b show ?thesis by (auto simp: stages_le_def)
qed

end
