(* ===== verification/Engine_Recovery.thy ===== *)
theory Engine_Recovery
  imports Engine_Runs
begin

text \<open>
  What opening an engine does to the campaigns of the store, and the outcome of a single move.
\<close>

subsection \<open>One move\<close>

lemma run_put_campaign:
  assumes "run_state (engine_put_campaign c now) e = (Inr (), e')"
  shows "engine_campaigns_table e' = table_put (engine_campaigns_table e) (cmp_id c) c"
proof -
  from assms obtain dk st where p: "put_campaign dk (eng_store e) c now = (Inr (), st)" "eng_store e' = st"
    by (auto simp: engine_put_campaign_def store_op_def reads_def call_def split: prod.splits)
  from put_campaign_tables [OF p(1)] p(2) show ?thesis by auto
qed

lemma quiet_run: "quiet m \<Longrightarrow> run_state m e = (x, e') \<Longrightarrow> engine_campaigns_table e' = engine_campaigns_table e"
  unfolding quiet_def by (rule leavesD)

text \<open>A move that succeeds was allowed, and its campaign is stored in the new state.\<close>

lemma transition_success:
  assumes "run_state (transition_locked c to g) e = ((Inr u, c'), e')"
  shows "tv_allowed (evaluate_transition (cmp_state c) to g)"
    and "c' = c \<and> e' = e \<and> cmp_state c = to \<or>
      (\<exists>now. c' = moved_campaign c to now) \<and> cmp_state c \<noteq> to \<and>
      table_get (engine_campaigns_table e') (cmp_id c) = Some c'"
proof -
  show allowed: "tv_allowed (evaluate_transition (cmp_state c) to g)"
    using assms by (auto simp: transition_locked_def Let_def fail_def split: if_splits prod.splits)
  show "c' = c \<and> e' = e \<and> cmp_state c = to \<or>
      (\<exists>now. c' = moved_campaign c to now) \<and> cmp_state c \<noteq> to \<and>
      table_get (engine_campaigns_table e') (cmp_id c) = Some c'"
  proof (cases "cmp_state c = to")
    case True
    with assms allowed show ?thesis by (simp add: transition_locked_def Let_def)
  next
    case False
    obtain now e1 where n: "run_state clock_now e = (now, e1)" by force
    let ?c = "moved_campaign c to now"
    obtain r e2 where p: "run_state (engine_put_campaign ?c now) e1 = (r, e2)" by force
    show ?thesis
    proof (cases r)
      case (Inl err)
      with assms allowed False n p show ?thesis by (simp add: transition_locked_def Let_def)
    next
      case (Inr v)
      let ?d = "decide (decision_kind_for to) ?c DO_allow (''enter '' @ upgrade_state_name to)
        (tv_reason (evaluate_transition (cmp_state c) to g)) [] [] []"
      obtain e3 where d: "run_state ?d e2 = ((), e3)" by (cases "run_state ?d e2") auto
      from assms allowed False n p Inr d have "c' = ?c" "e' = e3"
        by (simp_all add: transition_locked_def Let_def)
      moreover have "engine_campaigns_table e2 = table_put (engine_campaigns_table e1) (cmp_id ?c) ?c"
        using p Inr by (intro run_put_campaign [where now = now]) simp
      moreover have "engine_campaigns_table e3 = engine_campaigns_table e2"
        by (rule quiet_run [OF quiet_basic(3) d])
      ultimately show ?thesis using False by (auto simp: store_table.get_put)
    qed
  qed
qed

subsection \<open>Interrupted campaigns\<close>

text \<open>The only move of the reconciliation goes to \<open>blocked\<close>.\<close>

definition settled_le :: "campaign_record \<Rightarrow> campaign_record \<Rightarrow> bool" where
  "settled_le c c' \<longleftrightarrow> cmp_id c' = cmp_id c \<and>
     (campaign_interrupted (cmp_state c') \<longrightarrow> campaign_interrupted (cmp_state c)) \<and>
     (cmp_state c = US_rolling_back \<longrightarrow> cmp_state c' = US_rolling_back)"

interpretation settled: campaign_order settled_le "{US_blocked}"
proof
  fix a b c :: campaign_record and to g now
  show "settled_le c c" by (simp add: settled_le_def)
  show "settled_le a c" if "settled_le a b" "settled_le b c" using that by (auto simp: settled_le_def)
  show "cmp_id b = cmp_id a" if "settled_le a b" using that by (simp add: settled_le_def)
  show "settled_le c b" if "bookkeeping c b" using that by (simp add: settled_le_def bookkeeping_def)
  show "settled_le c (moved_campaign c to now)"
    if "to \<in> {US_blocked}" "tv_allowed (evaluate_transition (cmp_state c) to g)"
    using that by (auto simp: settled_le_def campaign_interrupted_def evaluate_transition_spec)
qed

lemma reconcile_interrupted_success:
  assumes "run_state (reconcile_interrupted action) e = (Inr u, e')" "keyed (engine_campaigns_table e)"
    "table_get (engine_campaigns_table e) (rca_subject action) = Some c"
  shows "cmp_state c \<noteq> US_rolling_back \<and>
    (\<exists>c'. table_get (engine_campaigns_table e') (rca_subject action) = Some c' \<and> cmp_state c' = US_blocked)"
proof -
  have id: "cmp_id c = rca_subject action" using assms(2,3) by (simp add: keyed_def)
  obtain g e1 where g: "run_state (guards_locked c) e = (g, e1)" by force
  let ?d = "c\<lparr>cmp_block_reason := rca_reason action, cmp_failure_reason := rca_reason action\<rparr>"
  obtain s c' e2 where t: "run_state (transition_locked ?d US_blocked (g\<lparr>g_failure_recorded := True\<rparr>)) e1 = ((s, c'), e2)"
    by (metis surj_pair)
  have same: "engine_campaigns_table e1 = engine_campaigns_table e" by (rule quiet_run [OF quiet_basic(5) g])
  from assms(1,3) g t obtain v where s: "s = Inr v" "e2 = e'"
    by (cases s) (auto simp: reconcile_interrupted_def reads_def store_campaign_get try_move_def ok_op_def)
  note m = transition_success [OF t [unfolded s]]
  from m(1) have "cmp_state c \<noteq> US_rolling_back" by (auto simp: evaluate_transition_spec)
  moreover from m(2) have "\<exists>c'. table_get (engine_campaigns_table e') (rca_subject action) = Some c' \<and> cmp_state c' = US_blocked"
    using assms(3) same id by auto
  ultimately show ?thesis by simp
qed

text \<open>
  Every action either refuses, or leaves settled campaigns settled, and settles the one it names.
\<close>

lemma keeps_reconcile_one:
  "keeps settled_le (rca_subject action) (\<lambda>_. True) (reconcile_one now action) anything"
proof (cases "rca_kind action")
  case RK_abandon_attempt
  have "quiet (reconcile_abandon now action)"
    unfolding quiet_def reconcile_abandon_def by (intro campaign_frames)
  from settled.keeps_quiet_any [OF this] RK_abandon_attempt show ?thesis by (simp add: reconcile_one_def)
qed (simp_all add: reconcile_one_def settled.keeps_reconcile_interrupted settled.keeps_reconcile_invalidate
    settled.keeps_done)

lemma reconcile_actions_settle:
  assumes "run_state (each_op (reconcile_one now) actions) e = (Inr u, e')" "keyed (engine_campaigns_table e)"
    "table_get (engine_campaigns_table e) k = Some c"
  shows "\<exists>c'. table_get (engine_campaigns_table e') k = Some c' \<and> settled_le c c' \<and>
    ((\<exists>a\<in>set actions. rca_kind a = RK_block_campaign \<and> rca_subject a = k) \<longrightarrow>
       cmp_state c \<noteq> US_rolling_back \<and> \<not> campaign_interrupted (cmp_state c'))"
  using assms
proof (induction actions arbitrary: e c)
  case Nil
  then show ?case by (simp add: ok_op_def settled.le_refl)
next
  case (Cons a actions)
  obtain r e1 where r: "run_state (reconcile_one now a) e = (r, e1)" by force
  from Cons.prems(1) r obtain v where v: "r = Inr v" and rest: "run_state (each_op (reconcile_one now) actions) e1 = (Inr u, e')"
    by (cases r) (auto simp: try_op_def)
  from keepsD [OF keeps_reconcile_one Cons.prems(2) _ r]
  have e1: "keyed (engine_campaigns_table e1)"
    "evolves_at settled_le (rca_subject a) (engine_campaigns_table e) (engine_campaigns_table e1)" by auto
  obtain c1 where c1: "table_get (engine_campaigns_table e1) k = Some c1" "settled_le c c1"
    using e1(2) Cons.prems(3) settled.le_refl by (cases "k = rca_subject a") (auto simp: evolves_at_def split: option.splits)
  from Cons.IH [OF rest e1(1) c1(1)] obtain c2 where c2: "table_get (engine_campaigns_table e') k = Some c2" "settled_le c1 c2"
    "(\<exists>a\<in>set actions. rca_kind a = RK_block_campaign \<and> rca_subject a = k) \<longrightarrow>
       cmp_state c1 \<noteq> US_rolling_back \<and> \<not> campaign_interrupted (cmp_state c2)" by blast
  have "cmp_state c \<noteq> US_rolling_back \<and> \<not> campaign_interrupted (cmp_state c2)"
    if "rca_kind a = RK_block_campaign" "rca_subject a = k"
  proof -
    have "run_state (reconcile_interrupted a) e = (Inr v, e1)" using r v that(1) by (simp add: reconcile_one_def)
    from reconcile_interrupted_success [OF this Cons.prems(2)] Cons.prems(3) that(2) c1(1)
    have "cmp_state c \<noteq> US_rolling_back" "cmp_state c1 = US_blocked" by auto
    with c2(2) show ?thesis by (auto simp: settled_le_def campaign_interrupted_def)
  qed
  with c1(2) c2 show ?case
    by (intro exI [of _ c2]) (auto simp: settled_le_def)
qed

lemma interrupted_has_action:
  assumes "keyed t" "table_get t k = Some c" "campaign_interrupted (cmp_state c)"
  shows "\<exists>a\<in>set (rcr_actions (plan_reconciliation (table_list cmp_id t) as current now)).
    rca_kind a = RK_block_campaign \<and> rca_subject a = k"
proof -
  have id: "cmp_id c = k" using assms(1,2) by (simp add: keyed_def)
  have "(k, c) \<in> set t" using assms(2) by (simp add: table_get_def map_of_SomeD)
  then have "c \<in> set (table_list cmp_id t)" by (force simp: table_list_def)
  then have "k \<in> set (actions_on RK_block_campaign (plan_reconciliation (table_list cmp_id t) as current now))"
    using assms(3) id
    by (auto simp: plan_reconciliation_def Let_def reconcile_campaign_subjects reconcile_attempts_subjects)
  then show ?thesis by (auto simp: actions_on_def)
qed

text \<open>Before the reconciliation, opening changes no campaign.\<close>

lemma adopt_store_success:
  fixes e :: "'w engine"
  assumes "run_state (adopt_store st now) e0 = (Inr (), e)"
  obtains e1 e2 :: "'w engine" where "engine_campaigns_table e1 = dst_campaigns st" "engine_campaigns_table e2 = dst_campaigns st"
    "run_state (each_op (reconcile_one now) (rcr_actions (plan_reconciliation (store_campaigns (eng_store e1))
       (store_attempts (eng_store e1)) (eng_incarnation e1) now))) e2 = (Inr (), e)"
proof -
  let ?e0 = "e0\<lparr>eng_store := st, eng_incarnation := dst_incarnation st\<rparr>"
  from assms obtain epoch where ep: "counter_try_next (dst_epoch st) = Inr epoch"
    by (auto simp: adopt_store_def changes_def split: sum.splits)
  let ?ea = "?e0\<lparr>eng_epoch := epoch\<rparr>"
  obtain r1 eb where r1: "run_state (store_op (\<lambda>d st. set_epoch d st epoch now)) ?ea = (r1, eb)" by force
  obtain r2 ec where r2: "run_state (store_op (\<lambda>d st. put_policy d st (eng_policy ?ea) now)) eb = (r2, ec)" by force
  define mode where "mode = (\<lambda>e :: 'w engine. if cfg_executor (eng_config e) = EX_thread_pool then e\<lparr>eng_pool_mode := True\<rparr> else e)"
  let ?ed = "mode ec"
  let ?r = "plan_reconciliation (store_campaigns (eng_store ?ed)) (store_attempts (eng_store ?ed)) (eng_incarnation ?ed) now"
  from assms ep r1 r2 obtain u1 u2 where "r1 = Inr u1" "r2 = Inr u2" and
    run: "run_state (each_op (reconcile_one now) (rcr_actions ?r)) (?ed\<lparr>eng_reconciliation := ?r\<rparr>) = (Inr (), e)"
    by (cases r1; cases r2)
      (auto simp: adopt_store_def mode_def [symmetric] changes_def reads_def try_op_def apply_reconciliation_def Let_def)
  have "leaves engine_campaigns_table (store_op (\<lambda>d st. set_epoch d st epoch now))"
    by (rule campaigns_store_op) (drule set_epoch_tables, simp)
  from leavesD [OF this r1] have eb: "engine_campaigns_table eb = dst_campaigns st" by simp
  have "leaves engine_campaigns_table (store_op (\<lambda>d st. put_policy d st (eng_policy ?ea) now))"
    by (rule campaigns_store_op) (drule put_policy_tables, simp)
  from leavesD [OF this r2] eb have ec: "engine_campaigns_table ec = dst_campaigns st" by simp
  have ed: "engine_campaigns_table ?ed = dst_campaigns st" using ec by (simp add: mode_def)
  show thesis by (rule that [OF ed _ run]) (use ed in simp)
qed

text \<open>
  C9: an engine that opens has settled what the last process left in the middle.  After a
  successful opening no campaign of the store is activating, verifying or rolling back; and because the
  lifecycle has no move out of \<open>rolling_back\<close> that the reconciliation may take, opening succeeds only on a
  store without a campaign that was rolling back: a process that stops during a rollback leaves a state directory that
  no later process can open.
\<close>

theorem opening_settles_campaigns:
  fixes e :: "'w engine"
  assumes "run_state (adopt_store st now) e0 = (Inr (), e)" "keyed (dst_campaigns st)"
    "table_get (dst_campaigns st) k = Some c"
  shows "cmp_state c \<noteq> US_rolling_back \<and>
    (\<exists>c'. table_get (dst_campaigns (eng_store e)) k = Some c' \<and> \<not> campaign_interrupted (cmp_state c'))"
proof -
  obtain e1 e2 :: "'w engine" where t: "engine_campaigns_table e1 = dst_campaigns st" "engine_campaigns_table e2 = dst_campaigns st" and
    run: "run_state (each_op (reconcile_one now) (rcr_actions (plan_reconciliation (store_campaigns (eng_store e1))
       (store_attempts (eng_store e1)) (eng_incarnation e1) now))) e2 = (Inr (), e)"
    by (rule adopt_store_success [OF assms(1)])
  from reconcile_actions_settle [OF run, unfolded t, OF assms(2,3)] obtain c' where
    c': "table_get (engine_campaigns_table e) k = Some c'" "settled_le c c'"
    "(\<exists>a\<in>set (rcr_actions (plan_reconciliation (store_campaigns (eng_store e1)) (store_attempts (eng_store e1))
        (eng_incarnation e1) now)). rca_kind a = RK_block_campaign \<and> rca_subject a = k) \<longrightarrow>
       cmp_state c \<noteq> US_rolling_back \<and> \<not> campaign_interrupted (cmp_state c')" by blast
  show ?thesis
  proof (cases "campaign_interrupted (cmp_state c)")
    case True
    with interrupted_has_action [OF assms(2,3)] c'(1,3) show ?thesis
      by (simp add: store_campaigns_def t)
  next
    case False
    with c'(1,2) show ?thesis by (auto simp: settled_le_def campaign_interrupted_def)
  qed
qed

end
