(* ===== verification/Engine_Safety.thy ===== *)
theory Engine_Safety
  imports Engine_Recovery
begin

text \<open>
  What may be committed: the fence every result passes, that a result is committed once, and the evidence a
  completed campaign rests on.
\<close>

subsection \<open>The fence\<close>

definition fence_holds :: "'w engine \<Rightarrow> work_item \<Rightarrow> bool" where
  "fence_holds e item \<longleftrightarrow>
     (\<exists>a c. store_attempt (eng_store e) (wki_attempt item) = Some a \<and>
        store_campaign (eng_store e) (wki_campaign item) = Some c \<and>
        att_generation a = wki_generation item \<and> att_owner a = eng_incarnation e \<and>
        att_state a = expected_state_for (wki_kind item) \<and>
        cmp_generation c = wki_generation item \<and> cmp_epoch c = wki_epoch item \<and>
        state_accepts (wki_kind item) (cmp_state c))"

lemma check_fence_cases:
  assumes "\<not> fence_holds e item" "store_attempt (eng_store e) (wki_attempt item) = Some a"
    "store_campaign (eng_store e) (wki_campaign item) = Some c"
  shows "\<exists>err. check_fence e item (expected_state_for (wki_kind item)) = Inl err \<and> err_code err = EC_fenced"
  using assms by (simp add: check_fence_def fence_holds_def fail_def make_error_def)

lemma check_fence_passed:
  assumes "check_fence e item (expected_state_for (wki_kind item)) = Inr u"
  shows "fence_holds e item"
  using assms by (auto simp: check_fence_def fence_holds_def fail_def split: option.splits if_splits)

lemma fenced_unchanged:
  assumes "run_state (commit_item item outcome) e = (r, e')" "\<not> fence_holds e item"
  shows "(\<exists>err. r = Inl err \<and> err_code err = EC_fenced) \<and> tables e' = tables e"
proof (cases "store_attempt (eng_store e) (wki_attempt item) = None \<or> store_campaign (eng_store e) (wki_campaign item) = None")
  case True
  with assms(1) show ?thesis
    by (auto simp: commit_item_def reads_def stop_def fail_def make_error_def split: option.splits)
next
  case False
  then obtain a c where ac: "store_attempt (eng_store e) (wki_attempt item) = Some a"
    "store_campaign (eng_store e) (wki_campaign item) = Some c" by auto
  obtain err where err: "check_fence e item (expected_state_for (wki_kind item)) = Inl err" "err_code err = EC_fenced"
    using check_fence_cases [OF assms(2) ac] by blast
  let ?d = "decide DK_fence c DO_deny (''reject the stale '' @ operation_kind_name (wki_kind item) @ '' result'')
    (error_to_string err) [input_of ''attempt'' (wki_attempt item),
      input_of ''operation'' (operation_kind_name (wki_kind item))] [] []"
  obtain e1 where d: "run_state ?d e = ((), e1)" by (cases "run_state ?d e") auto
  from assms(1) ac err(1) d have "r = Inl err" "e' = e1" by (simp_all add: commit_item_def reads_def)
  with err(2) leavesD [OF decide_tables(1) d] show ?thesis by simp
qed

text \<open>
  C2: a stale result changes nothing.  The result of an operation is committed only while its attempt still
  belongs to the item's generation, is owned by this incarnation and is in the state of the operation, and the campaign
  still is at the generation and epoch of the item and accepts the operation in its state; otherwise the
  commit is refused as fenced, whatever the adapter reported, and no campaign, no attempt and no record of the
  ledger changes.
\<close>

theorem stale_result_fenced:
  assumes "run_state (commit_item item outcome) e = (r, e')" "\<not> fence_holds e item"
  shows "(\<exists>err. r = Inl err \<and> err_code err = EC_fenced) \<and>
    dst_campaigns (eng_store e') = dst_campaigns (eng_store e) \<and> dst_attempts (eng_store e') = dst_attempts (eng_store e) \<and>
    dst_provenance (eng_store e') = dst_provenance (eng_store e)"
  using fenced_unchanged [OF assms] by (simp add: tables_def)

subsection \<open>What a commit does to its attempt\<close>

definition attempts_view :: "'w engine \<Rightarrow> attempt_record table \<times> u64 \<times> 'w dependencies \<times> policy" where
  "attempts_view e = (dst_attempts (eng_store e), eng_incarnation e, eng_deps e, eng_policy e)"

lemma attempts_of_tables:
  assumes "leaves tables m" "leaves engine_constants m"
  shows "leaves attempts_view m"
  by (rule leavesI) (use leavesD [OF assms(1)] leavesD [OF assms(2)] in
      \<open>auto simp: attempts_view_def tables_def engine_constants_def\<close>)

lemma attempts_calls: "leaves attempts_view (call f)" "leaves attempts_view clock_now"
  by (rule leaves_call leaves_clock; simp add: attempts_view_def)+

lemma attempts_quiet_ops:
  "leaves attempts_view (decide k c oc sel rat inp rej evd)" "leaves attempts_view (guards_locked c)"
  "leaves attempts_view (engine_put_ticket t now)"
  by (rule attempts_of_tables, rule decide_tables guards_frame put_ticket_frame,
      rule decide_tables guards_frame put_ticket_frame)+

lemma attempts_put_campaign: "leaves attempts_view (engine_put_campaign c now)"
  unfolding engine_put_campaign_def
  by (rule leaves_store_op) (auto simp: attempts_view_def dest: put_campaign_tables)

lemma attempts_append_provenance: "leaves attempts_view (append_provenance_locked item po detail now)"
  unfolding append_provenance_locked_def
  by (intro leaves_rules leaves_store_op)
    (auto simp: attempts_view_def split: prod.splits dest: append_provenance_tables)

lemmas attempt_frames = leaves_rules attempts_calls attempts_quiet_ops attempts_put_campaign attempts_append_provenance

lemma attempts_transition: "leaves attempts_view (transition_locked c to g)"
  unfolding transition_locked_def Let_def by (intro attempt_frames)

lemma attempts_move: "leaves attempts_view (move_if_possible c to g)"
  unfolding move_if_possible_def by (intro attempt_frames attempts_transition)

lemma attempts_fail: "leaves attempts_view (fail_locked c reason)"
  unfolding fail_locked_def by (intro attempt_frames attempts_transition)

lemma attempts_after_activation: "leaves attempts_view (after_activation item c)"
  unfolding after_activation_def by (intro attempt_frames attempts_move)

lemma attempts_finish_stage: "leaves attempts_view (finish_stage now c)"
  unfolding finish_stage_def by (intro attempt_frames attempts_move attempts_transition)

text \<open>An operation that, when it succeeds, leaves attempt \<open>i\<close> in a state with \<open>P\<close>.\<close>

definition settles :: "attempt_id \<Rightarrow> (attempt_state \<Rightarrow> bool) \<Rightarrow> ('w, status) engine_op \<Rightarrow> bool" where
  "settles i P m \<longleftrightarrow> (\<forall>e u e'. run_state m e = (Inr u, e') \<longrightarrow>
     (\<exists>a. table_get (engine_attempts_table e') i = Some a \<and> P (att_state a)))"

lemma run_put_attempt:
  assumes "run_state (engine_put_attempt a now) e = (Inr u, e')"
  shows "engine_attempts_table e' = table_put (engine_attempts_table e) (att_id a) a"
proof -
  from assms obtain dk st where p: "put_attempt dk (eng_store e) a now = (Inr u, st)" "eng_store e' = st"
    by (auto simp: engine_put_attempt_def store_op_def reads_def call_def split: prod.splits)
  from put_attempt_tables [OF p(1)] p(2) show ?thesis by auto
qed

lemma settles_put: "att_id a = i \<Longrightarrow> P (att_state a) \<Longrightarrow> settles i P (engine_put_attempt a now)"
  by (auto simp: settles_def store_table.get_put dest!: run_put_attempt)

lemma settles_try:
  assumes "settles i P m" "\<And>x. leaves attempts_view (f x)"
  shows "settles i P (try_op m f)"
  unfolding settles_def
proof (intro allI impI)
  fix e u e'
  assume run: "run_state (try_op m f) e = (Inr u, e')"
  obtain r e1 where r: "run_state m e = (r, e1)" by force
  with run obtain v where v: "r = Inr v" "run_state (f v) e1 = (Inr u, e')"
    by (cases r) (auto simp: try_op_def)
  from assms(1) r v(1) obtain a where "table_get (engine_attempts_table e1) i = Some a" "P (att_state a)"
    unfolding settles_def by blast
  with leavesD [OF assms(2) v(2)] show "\<exists>a. table_get (engine_attempts_table e') i = Some a \<and> P (att_state a)"
    by (simp add: attempts_view_def)
qed

lemma settles_bind: "(\<And>x. settles i P (f x)) \<Longrightarrow> settles i P (State_Monad.bind m f)"
  by (auto simp: settles_def split: prod.splits)

lemma settles_if: "settles i P m \<Longrightarrow> settles i P n \<Longrightarrow> settles i P (if b then m else n)"
  by simp

lemma settles_let: "settles i P (f x) \<Longrightarrow> settles i P (Let x f)"
  by simp

lemmas settles_rules = settles_if settles_let settles_try settles_put

lemma commit_settles:
  assumes "att_id a = i"
  shows "settles i (\<lambda>s. s \<noteq> expected_state_for (wki_kind item)) (commit_locked item outcome a c)"
proof (cases "wki_kind item")
  case OP_prepare
  then show ?thesis
    unfolding commit_locked_def
    by (simp, intro settles_bind) (simp add: commit_prepare_def,
        intro settles_rules attempt_frames attempts_move attempts_fail conjI impI; simp add: assms)
next
  case OP_activate
  then show ?thesis
    unfolding commit_locked_def
    by (simp, intro settles_bind) (simp add: commit_activate_def commit_refused_def Let_def,
        intro settles_rules attempt_frames attempts_move attempts_fail attempts_after_activation conjI impI; simp add: assms)
next
  case OP_verify
  then show ?thesis
    unfolding commit_locked_def
    by (simp, intro settles_bind) (unfold commit_verify_def, intro settles_bind, unfold Let_def,
        intro settles_rules attempt_frames attempts_finish_stage attempts_fail; simp add: assms)
next
  case OP_rollback
  then show ?thesis
    unfolding commit_locked_def
    by (simp, intro settles_bind) (simp add: commit_rollback_def Let_def,
        intro settles_rules attempt_frames attempts_move conjI impI; simp add: assms)
qed

text \<open>What a commit did before it touched the campaign.\<close>

lemma commit_item_success:
  assumes "run_state (commit_item item outcome) e = (Inr u, e1)"
  obtains a c where "store_attempt (eng_store e) (wki_attempt item) = Some a"
    "store_campaign (eng_store e) (wki_campaign item) = Some c" "fence_holds e item"
    "run_state (commit_locked item outcome a c) e = (Inr u, e1)"
proof (cases "store_attempt (eng_store e) (wki_attempt item) = None \<or> store_campaign (eng_store e) (wki_campaign item) = None")
  case True
  with assms show thesis by (auto simp: commit_item_def reads_def stop_def fail_def split: option.splits)
next
  case False
  then obtain a c where ac: "store_attempt (eng_store e) (wki_attempt item) = Some a"
    "store_campaign (eng_store e) (wki_campaign item) = Some c" by auto
  show thesis
  proof (cases "check_fence e item (expected_state_for (wki_kind item))")
    case (Inl err)
    with assms ac show thesis by (auto simp: commit_item_def reads_def split: prod.splits)
  next
    case (Inr v)
    with assms ac check_fence_passed [OF Inr] that show thesis by (simp add: commit_item_def reads_def)
  qed
qed

lemma fence_closed_after_commit:
  assumes "run_state (commit_item item outcome) e = (Inr u, e1)"
    and "\<forall>i a. table_get (dst_attempts (eng_store e)) i = Some a \<longrightarrow> att_id a = i"
  shows "\<not> fence_holds e1 item"
proof -
  obtain a c where ac: "store_attempt (eng_store e) (wki_attempt item) = Some a"
    "run_state (commit_locked item outcome a c) e = (Inr u, e1)"
    by (rule commit_item_success [OF assms(1)])
  have "att_id a = wki_attempt item" using ac(1) assms(2) by (simp add: store_attempt_def)
  from commit_settles [OF this] ac(2) obtain a1 where "store_attempt (eng_store e1) (wki_attempt item) = Some a1"
    "att_state a1 \<noteq> expected_state_for (wki_kind item)"
    unfolding settles_def store_attempt_def by blast
  then show ?thesis by (auto simp: fence_holds_def)
qed


subsection \<open>Completion\<close>

text \<open>An order without the move to completion: only the commit of a verification can leave it.\<close>

definition uncompleted_le :: "campaign_record \<Rightarrow> campaign_record \<Rightarrow> bool" where
  "uncompleted_le c c' \<longleftrightarrow> cmp_id c' = cmp_id c \<and> (cmp_state c' = US_completed \<longrightarrow> cmp_state c = US_completed)"

interpretation uncompleted: campaign_order uncompleted_le "- {US_completed}"
proof
  fix a b c :: campaign_record and to g now
  show "uncompleted_le c c" by (simp add: uncompleted_le_def)
  show "uncompleted_le a c" if "uncompleted_le a b" "uncompleted_le b c" using that by (auto simp: uncompleted_le_def)
  show "cmp_id b = cmp_id a" if "uncompleted_le a b" using that by (simp add: uncompleted_le_def)
  show "uncompleted_le c b" if "bookkeeping c b" using that by (simp add: uncompleted_le_def bookkeeping_def)
  show "uncompleted_le c (moved_campaign c to now)" if "to \<in> - {US_completed}" using that by (simp add: uncompleted_le_def)
qed

definition is_completed :: "campaign_record table \<Rightarrow> campaign_id \<Rightarrow> bool" where
  "is_completed t k \<longleftrightarrow> (case table_get t k of None \<Rightarrow> False | Some c \<Rightarrow> cmp_state c = US_completed)"

lemma evolves_uncompleted: "evolves uncompleted_le newborn t t' \<Longrightarrow> is_completed t' k \<Longrightarrow> is_completed t k"
proof -
  assume ev: "evolves uncompleted_le newborn t t'" and c: "is_completed t' k"
  have "case table_get t k of
      None \<Rightarrow> (\<forall>c'. table_get t' k = Some c' \<longrightarrow> (\<exists>b. newborn b \<and> uncompleted_le b c'))
    | Some c \<Rightarrow> \<exists>c'. table_get t' k = Some c' \<and> uncompleted_le c c'"
    using ev unfolding evolves_def by blast
  with c show "is_completed t k"
    by (auto simp: is_completed_def uncompleted_le_def newborn_def split: option.splits)
qed

lemma keeps_uncompleted:
  assumes "keeps uncompleted_le k (carried uncompleted_le k c) m Q" "run_state m e = (x, e')"
    "keyed (engine_campaigns_table e)" "table_get (engine_campaigns_table e) k = Some c"
    "is_completed (engine_campaigns_table e') k"
  shows "cmp_state c = US_completed"
  using keepsD [OF assms(1,3) uncompleted.carried_stored [OF assms(3,4)] assms(2)] assms(4,5)
  by (auto simp: evolves_at_def is_completed_def uncompleted_le_def split: option.splits)

text \<open>The end of the last stage: completion is the move allowed by the guards of that moment.\<close>

definition completion_evidence :: "'w engine \<Rightarrow> campaign_record \<Rightarrow> bool" where
  "completion_evidence e c \<longleftrightarrow>
     cmp_stages c \<noteq> [] \<and> list_all (\<lambda>p. spg_state p = SS_completed) (cmp_stages c) \<and>
     (\<exists>stage now. active_plan_stage c = Some stage \<and>
        stage_verified_fresh (attempts_for (eng_store e) (cmp_id c)) stage now (eng_incarnation e))"

lemma completion_move:
  assumes "run_state (guards_locked c) e1 = (g, e2)" "run_state (transition_locked c US_completed g) e2 = ((Inr u, c'), e3)"
    and "cmp_state c \<noteq> US_completed"
  shows "cmp_state c = US_verifying \<and> cmp_state c' = US_completed \<and> completion_evidence e3 c' \<and>
    table_get (engine_campaigns_table e3) (cmp_id c) = Some c'"
proof -
  obtain now ec where n: "run_state clock_now e1 = (now, ec)" by force
  with assms(1) have g: "g = guards_at ec now c" "e2 = ec" by (auto simp: guards_locked_def reads_def)
  from transition_success [OF assms(2)] assms(3) obtain at_time where
    allowed: "tv_allowed (evaluate_transition (cmp_state c) US_completed g)" and c': "c' = moved_campaign c US_completed at_time"
    and stored: "table_get (engine_campaigns_table e3) (cmp_id c) = Some c'" by auto
  have spec: "cmp_state c = US_verifying" "g_verification_fresh_passed g" "g_all_stages_complete g"
    using allowed assms(3) by (cases "cmp_state c"; simp add: evaluate_transition_spec)+
  have same: "attempts_view e3 = attempts_view e2" by (rule leavesD [OF attempts_transition assms(2)])
  have "attempts_for (eng_store e3) i = attempts_for (eng_store ec) i" for i
    using same by (simp add: attempts_view_def attempts_for_def g(2))
  moreover have "eng_incarnation e3 = eng_incarnation ec" using same by (simp add: attempts_view_def g(2))
  ultimately show ?thesis
    using spec stored
    by (auto simp: completion_evidence_def c' g(1) guards_at_def Let_def active_plan_stage_def split: if_splits option.splits)
qed

lemma put_campaign_refused:
  assumes "run_state (engine_put_campaign c now) e = (Inl err, e')"
  shows "engine_campaigns_table e' = engine_campaigns_table e"
proof -
  from assms obtain dk st where p: "put_campaign dk (eng_store e) c now = (Inl err, st)" "eng_store e' = st"
    by (auto simp: engine_put_campaign_def store_op_def reads_def call_def split: prod.splits)
  from put_campaign_tables [OF p(1)] p(2) show ?thesis by auto
qed

lemma transition_refused:
  assumes "run_state (transition_locked c to g) e = ((Inl err, c'), e')"
  shows "engine_campaigns_table e' = engine_campaigns_table e"
proof (cases "tv_allowed (evaluate_transition (cmp_state c) to g)")
  case False
  let ?d = "decide DK_block c DO_deny (''transition to '' @ upgrade_state_name to)
    (explain_verdict (evaluate_transition (cmp_state c) to g)) [] [] []"
  obtain e1 where d: "run_state ?d e = ((), e1)" by (cases "run_state ?d e") auto
  with assms False have "e' = e1" by (simp add: transition_locked_def Let_def)
  with quiet_run [OF quiet_basic(3) d] show ?thesis by simp
next
  case True
  obtain now e1 where n: "run_state clock_now e = (now, e1)" by force
  let ?c = "moved_campaign c to now"
  obtain r e2 where p: "run_state (engine_put_campaign ?c now) e1 = (r, e2)" by force
  from assms True n p obtain err2 where "r = Inl err2" "e' = e2"
    by (cases r) (auto simp: transition_locked_def Let_def split: if_splits prod.splits)
  moreover have "engine_campaigns_table e2 = engine_campaigns_table e1"
    by (rule put_campaign_refused [of ?c now e1 err2]) (use p \<open>r = Inl err2\<close> in simp)
  ultimately show ?thesis using quiet_run [OF quiet_basic(1) n] by simp
qed

lemma completed_stage_fields [simp]:
  "cmp_id (complete_stage now c) = cmp_id c" "cmp_state (complete_stage now c) = cmp_state c"
  by (simp_all add: complete_stage_def)

lemma finish_stage_completes:
  assumes "run_state (finish_stage now c) e = (r, e')" "keyed (engine_campaigns_table e)"
    "table_get (engine_campaigns_table e) k = Some c" "cmp_state c \<noteq> US_completed"
    "is_completed (engine_campaigns_table e') k"
  shows "cmp_state c = US_verifying \<and>
    (\<exists>c'. table_get (engine_campaigns_table e') k = Some c' \<and> completion_evidence e' c')"
proof -
  let ?c = "complete_stage now c"
  have id: "cmp_id c = k" using assms(2,3) by (simp add: keyed_def)
  show ?thesis
  proof (cases "cmp_active_stage ?c + 1 < length (cmp_stages ?c)")
    case True
    have "keeps uncompleted_le k (carried uncompleted_le k c)
        (try_op (engine_put_campaign (next_stage ?c) now) (\<lambda>_. do {
           g \<leftarrow> guards_locked (next_stage ?c); c' \<leftarrow> move_if_possible (next_stage ?c) US_staged g; ok_op () })) anything"
      by (intro uncompleted.keeps_steps bookkeeping_trans_complete True) simp_all
    from keeps_uncompleted [OF this _ assms(2,3,5)] assms(1,4) True show ?thesis
      by (simp add: finish_stage_def Let_def)
  next
    case False
    obtain p e1 where p: "run_state (engine_put_campaign ?c now) e = (p, e1)" by force
    have put: "keeps uncompleted_le k (carried uncompleted_le k c) (engine_put_campaign ?c now) (\<lambda>_. carried uncompleted_le k ?c)"
      by (rule uncompleted.keeps_put [OF bookkeeping_complete])
    show ?thesis
    proof (cases p)
      case (Inl err)
      with assms(1) False p have "e' = e1" by (simp add: finish_stage_def Let_def try_op_def)
      with keeps_uncompleted [OF put p assms(2,3)] assms(4,5) show ?thesis by simp
    next
      case (Inr u)
      have t1: "table_get (engine_campaigns_table e1) k = Some ?c"
        using run_put_campaign [of ?c now e e1] p Inr id by (simp add: store_table.get_put)
      obtain g e2 where g: "run_state (guards_locked ?c) e1 = (g, e2)" by force
      obtain s c' e3 where t: "run_state (transition_locked ?c US_completed g) e2 = ((s, c'), e3)" by (metis surj_pair)
      have t2: "table_get (engine_campaigns_table e2) k = Some ?c"
        using quiet_run [OF quiet_basic(5) g] t1 by simp
      show ?thesis
      proof (cases s)
        case (Inl err)
        let ?d = "decide DK_verify c' DO_defer ''hold campaign completion'' (error_to_string err)
             [input_of ''verification'' ''fresh and passed'',
              input_of ''stages'' (dec_digits (length (cmp_stages c')))] [] []"
        obtain e4 where d: "run_state ?d e3 = ((), e4)" by (cases "run_state ?d e3") auto
        from assms(1) False p \<open>p = Inr u\<close> g t Inl d have "e' = e4"
          by (simp add: finish_stage_def Let_def try_op_def ok_op_def)
        moreover have "engine_campaigns_table e4 = engine_campaigns_table e2"
          using quiet_run [OF quiet_basic(3) d] transition_refused [of ?c US_completed g e2 err c' e3] t Inl by simp
        ultimately show ?thesis using assms(4,5) t2 by (simp add: is_completed_def)
      next
        case (Inr v)
        from assms(1) False p \<open>p = Inr u\<close> g t Inr have "e' = e3"
          by (simp add: finish_stage_def Let_def try_op_def ok_op_def)
        with completion_move [OF g t [unfolded Inr]] assms(4) id show ?thesis by auto
      qed
    qed
  qed
qed

text \<open>The verification that closed the campaign.\<close>

lemma commit_verify_completes:
  assumes "run_state (commit_verify item outcome now a c) e = (r, e')" "keyed (engine_campaigns_table e)"
    "table_get (engine_campaigns_table e) k = Some c" "cmp_state c \<noteq> US_completed"
    "is_completed (engine_campaigns_table e') k"
  shows "vfr_verified (verification_of e item outcome now) \<and> cmp_state c = US_verifying \<and>
    (\<exists>c'. table_get (engine_campaigns_table e') k = Some c' \<and> completion_evidence e' c')"
proof -
  let ?v = "verification_of e item outcome now"
  have fail: "keeps uncompleted_le k (carried uncompleted_le k c) (fail_locked c reason) anything" for reason
    by (rule uncompleted.keeps_fail) simp
  show ?thesis
  proof (cases "vfr_verified ?v")
    case False
    have "keeps uncompleted_le k (carried uncompleted_le k c)
      (if att_retries a < pol_max_retries_per_operation (eng_policy e)
       then engine_put_attempt (a\<lparr>att_retries := att_retries a + 1, att_state := AS_activated,
              att_last_error := join_failures (vfr_failures ?v), att_updated_at := now,
              att_operation_index := advance (att_operation_index a)\<rparr>) now
       else try_op (engine_put_attempt (a\<lparr>att_state := AS_failed,
              att_last_error := join_failures (vfr_failures ?v), att_updated_at := now\<rparr>) now) (\<lambda>_.
          fail_locked c (''verification failed on '' @ wki_target item @ '': '' @
            join_failures (vfr_failures ?v)))) anything"
      by (intro uncompleted.keeps_steps fail)
    from keeps_uncompleted [OF this _ assms(2,3,5)] assms(1,4) False show ?thesis
      by (simp add: commit_verify_def reads_def Let_def)
  next
    case True
    let ?a = "a\<lparr>att_state := AS_verified, att_evidence_at := vo_observed_at (opo_verify outcome),
              att_evidence_validity := vo_validity (opo_verify outcome),
              att_observed_version := vo_observed_version (opo_verify outcome),
              att_observed_build := vo_observed_build (opo_verify outcome), att_last_error := [], att_updated_at := now,
              att_revision := advance (att_revision a)\<rparr>"
    obtain r1 e1 where r1: "run_state (engine_put_attempt ?a now) e = (r1, e1)" by force
    obtain r2 e2 where r2: "run_state (append_provenance_locked item PO_verified (vfr_summary ?v) now) e1 = (r2, e2)" by force
    have same: "engine_campaigns_table e1 = engine_campaigns_table e" "engine_campaigns_table e2 = engine_campaigns_table e"
      using quiet_run [OF quiet_basic(6) r1] quiet_run [OF quiet_basic(7) r2] by simp_all
    have not: "\<not> is_completed (engine_campaigns_table e) k" using assms(3,4) by (simp add: is_completed_def)
    have "r1 \<noteq> Inl err" for err
      using assms(1,5) r1 True not same by (auto simp: commit_verify_def reads_def Let_def try_op_def)
    moreover have "r2 \<noteq> Inl err" for err
      using assms(1,5) r1 r2 True not same by (cases r1) (auto simp: commit_verify_def reads_def Let_def try_op_def)
    ultimately obtain u1 u2 where u: "r1 = Inr u1" "r2 = Inr u2" by (cases r1; cases r2) auto
    from assms(1) r1 r2 u True have last: "run_state (if stage_all e2 c (wki_stage item) (\<lambda>s. s = AS_verified)
        then finish_stage now c else ok_op ()) e2 = (r, e')"
      by (simp add: commit_verify_def reads_def Let_def try_op_def)
    then have "run_state (finish_stage now c) e2 = (r, e')"
      using assms(5) not same by (auto simp: ok_op_def split: if_splits)
    from finish_stage_completes [OF this _ _ assms(4,5)] True assms(2,3) same show ?thesis by simp
  qed
qed


end
