(* ===== verification/Engine_Contract.thy ===== *)
theory Engine_Contract
  imports Engine_Execute
begin

text \<open>
  What running an item does to the world behind the ports, from what each port call does to it.  The contract is an
  order on worlds: when every call the item may make moves the world along the order, so does the item, with all its
  gates and retries.
\<close>

text \<open>An operation of the engine that keeps its environment and moves the world along \<open>le\<close>.\<close>

definition moves ::
    "('w \<Rightarrow> 'w \<Rightarrow> bool) \<Rightarrow> 'w dependencies \<Rightarrow> 'w platform \<Rightarrow> policy \<Rightarrow> ('w, 'a) engine_op \<Rightarrow> bool" where
  "moves le deps platform p m \<longleftrightarrow>
     (\<forall>e x e'. eng_deps e = deps \<longrightarrow> eng_platform e = platform \<longrightarrow> eng_policy e = p \<longrightarrow> run_state m e = (x, e') \<longrightarrow>
        eng_deps e' = deps \<and> eng_platform e' = platform \<and> eng_policy e' = p \<and> eng_incarnation e' = eng_incarnation e \<and>
        le (eng_world e) (eng_world e'))"

lemma movesD:
  "moves le deps platform p m \<Longrightarrow> eng_deps e = deps \<Longrightarrow> eng_platform e = platform \<Longrightarrow> eng_policy e = p \<Longrightarrow>
   run_state m e = (x, e') \<Longrightarrow>
   eng_deps e' = deps \<and> eng_platform e' = platform \<and> eng_policy e' = p \<and> eng_incarnation e' = eng_incarnation e \<and>
   le (eng_world e) (eng_world e')"
  unfolding moves_def by blast

lemma moves_sum:
  "(\<And>x. moves le deps platform p (f x)) \<Longrightarrow> (\<And>y. moves le deps platform p (g y)) \<Longrightarrow>
   moves le deps platform p (case s of Inl x \<Rightarrow> f x | Inr y \<Rightarrow> g y)"
  by (cases s) simp_all

lemma moves_option:
  "moves le deps platform p m \<Longrightarrow> (\<And>y. v = Some y \<Longrightarrow> moves le deps platform p (g y)) \<Longrightarrow>
   moves le deps platform p (case v of None \<Rightarrow> m | Some y \<Rightarrow> g y)"
  by (cases v) simp_all

lemma moves_if:
  "moves le deps platform p m \<Longrightarrow> moves le deps platform p n \<Longrightarrow> moves le deps platform p (if b then m else n)"
  by simp

lemma moves_call: "(\<And>w. le w (snd (f w))) \<Longrightarrow> moves le deps platform p (call f)"
  unfolding moves_def call_def by (auto split: prod.splits) (metis snd_conv)

lemma moves_reads:
  assumes "\<And>e. eng_deps e = deps \<Longrightarrow> eng_platform e = platform \<Longrightarrow> eng_policy e = p \<Longrightarrow> moves le deps platform p (f e)"
  shows "moves le deps platform p (State_Monad.bind (reads id) f)"
  unfolding moves_def
proof (intro allI impI)
  fix e x e'
  assume e: "eng_deps e = deps" "eng_platform e = platform" "eng_policy e = p"
    and run: "run_state (State_Monad.bind (reads id) f) e = (x, e')"
  from run have "run_state (f e) e = (x, e')" by (simp add: reads_def)
  from movesD [OF assms [OF e] e this]
  show "eng_deps e' = deps \<and> eng_platform e' = platform \<and> eng_policy e' = p \<and> eng_incarnation e' = eng_incarnation e \<and>
      le (eng_world e) (eng_world e')" .
qed

subsection \<open>An order on worlds\<close>

locale world_order =
  fixes le :: "'w \<Rightarrow> 'w \<Rightarrow> bool"
  assumes le_refl: "le w w" and le_trans: "le u v \<Longrightarrow> le v w \<Longrightarrow> le u w"
begin

lemma moves_return: "moves le deps platform p (State_Monad.return x)" "moves le deps platform p (ok_op y)"
  by (auto simp: moves_def ok_op_def le_refl)

lemma moves_changes: "moves le deps platform p (changes (\<lambda>e. e\<lparr>eng_drain_tickets := f e\<rparr>))"
  by (auto simp: moves_def changes_def le_refl)

lemma moves_bind:
  assumes "moves le deps platform p m" "\<And>x. moves le deps platform p (f x)"
  shows "moves le deps platform p (State_Monad.bind m f)"
  unfolding moves_def
proof (intro allI impI)
  fix e x e'
  assume e: "eng_deps e = deps" "eng_platform e = platform" "eng_policy e = p" "run_state (State_Monad.bind m f) e = (x, e')"
  obtain y e1 where y: "run_state m e = (y, e1)" by force
  with e(4) have f: "run_state (f y) e1 = (x, e')" by simp
  note one = movesD [OF assms(1) e(1-3) y]
  from movesD [OF assms(2) _ _ _ f] one le_trans
  show "eng_deps e' = deps \<and> eng_platform e' = platform \<and> eng_policy e' = p \<and> eng_incarnation e' = eng_incarnation e \<and>
      le (eng_world e) (eng_world e')" by metis
qed

lemma moves_try:
  "moves le deps platform p m \<Longrightarrow> (\<And>x. moves le deps platform p (f x)) \<Longrightarrow> moves le deps platform p (try_op m f)"
  unfolding try_op_def by (intro moves_bind moves_sum moves_return)

lemmas moves_rules = moves_return moves_if moves_option moves_sum moves_try moves_bind moves_changes

lemma moves_retry:
  assumes "good operation" "\<And>op. good op \<Longrightarrow> good (op\<lparr>top_retry := True\<rparr>)" "\<And>op w. good op \<Longrightarrow> le w (snd (f op w))"
  shows "moves le deps platform p (retry_call f failed limit retries operation)"
  using assms
proof (induction f failed limit retries operation rule: retry_call.induct)
  case (1 f failed limit retries operation)
  have again: "moves le deps platform p (retry_call f failed limit (retries + 1) (operation\<lparr>top_retry := True\<rparr>))"
    if "\<not> (\<not> is_retryable (err_code err) \<or> limit \<le> retries)" for err :: error
    by (rule 1(1) [where x = err]) (use that 1(2-4) in simp_all)
  show ?case
    by (subst retry_call.simps, intro moves_bind moves_call moves_sum moves_return 1(4) 1(2))
      (auto intro: again moves_return)
qed

end

subsection \<open>The contract of the gates\<close>

text \<open>What the calls before an operation, and the ones it makes besides the operation itself, do to the world.\<close>

locale gate_contract = world_order le for le :: "'w \<Rightarrow> 'w \<Rightarrow> bool" +
  fixes adapter :: "'w adapter_port" and deps :: "'w dependencies" and platform :: "'w platform"
  assumes le_observe: "le w (snd (adp_observe adapter t now i w))"
    and le_drain: "dep_drain deps = Some d \<Longrightarrow> le w (snd (drp_acquire d r w))"
    and le_health: "dep_health deps = Some h \<Longrightarrow> le w (snd (h t now i w))"
    and le_deliver: "dep_configuration deps = Some f \<Longrightarrow> le w (snd (f x w))"
    and le_clock: "le w (snd ((case dep_clock deps of Some clock \<Rightarrow> clock | None \<Rightarrow> plf_system_clock platform) w))"
begin

lemma moves_clock: "moves le deps platform p clock_now"
  unfolding clock_now_def
  by (rule moves_reads, rule moves_call) (use le_clock in \<open>auto split: option.splits\<close>)

lemma moves_drain_gate: "moves le deps platform p (drain_gate item now)"
  unfolding drain_gate_def
  by (rule moves_reads, intro moves_rules moves_call) (simp add: le_drain)

lemma moves_health_gate: "moves le deps platform p (health_gate adapter item now outcome)"
  unfolding health_gate_def
  by (rule moves_reads, intro moves_rules moves_call) (simp_all add: le_observe le_health)

lemma moves_deliver: "moves le deps platform p (deliver_configuration item v)"
  unfolding deliver_configuration_def
  by (rule moves_reads, intro moves_rules moves_call moves_clock) (simp add: le_deliver)

end

subsection \<open>The contract of an item\<close>

text \<open>
  What the operations of one kind do, for the operations that are \<open>good\<close>: those an item builds, and their retries.
\<close>

locale item_contract = gate_contract le adapter deps platform
    for le :: "'w \<Rightarrow> 'w \<Rightarrow> bool" and adapter deps platform +
  fixes kind :: operation_kind and good :: "target_operation \<Rightarrow> bool"
  assumes good_retry: "good op \<Longrightarrow> good (op\<lparr>top_retry := True\<rparr>)"
    and le_prepare: "kind = OP_prepare \<Longrightarrow> good op \<Longrightarrow> le w (snd (adp_prepare adapter op w))"
    and le_activate: "kind = OP_activate \<Longrightarrow> good op \<Longrightarrow> le w (snd (adp_activate adapter op w))"
    and le_verify: "kind = OP_verify \<Longrightarrow> good op \<Longrightarrow> le w (snd (adp_verify adapter op w))"
    and le_rollback: "kind = OP_rollback \<Longrightarrow> good op \<Longrightarrow> le w (snd (adp_rollback adapter op w))"
begin

lemma moves_activate_call:
  assumes "kind = OP_activate" "good operation"
  shows "moves le deps platform p (activate_call adapter item now current limit retries operation)"
  using assms(2)
proof (induction "unat limit - unat retries" arbitrary: retries operation rule: less_induct)
  case less
  have again: "moves le deps platform p (activate_call adapter item now current limit (retries + 1) (operation\<lparr>top_retry := True\<rparr>))"
    if "\<not> (\<not> is_retryable (err_code err) \<or> limit \<le> retries)" for err :: error
    by (rule less(1)) (use that less(2) good_retry retries_left [of limit retries] in auto)
  show ?case
    by (subst activate_call.simps, intro moves_bind moves_call moves_sum le_activate [OF assms(1) less(2)])
      (auto intro!: moves_return moves_bind moves_call moves_sum le_observe intro: again)
qed

lemma moves_perform:
  assumes "wki_kind item = kind" "good operation"
  shows "moves le deps platform p (perform adapter item now operation outcome)"
proof (cases kind)
  case OP_prepare
  then show ?thesis using assms unfolding perform_def Let_def
    by (intro moves_reads) (auto intro!: moves_bind moves_return moves_retry [where good = good] good_retry le_prepare)
next
  case OP_activate
  with assms(1) have "wki_kind item = OP_activate" by simp
  then show ?thesis unfolding perform_def Let_def
    by simp (rule moves_reads, rule moves_bind, rule moves_activate_call [OF OP_activate assms(2)],
        simp add: case_prod_beta moves_return)
next
  case OP_verify
  with assms(1) have "wki_kind item = OP_verify" by simp
  then show ?thesis unfolding perform_def Let_def
    by simp (rule moves_reads, rule moves_bind, rule moves_retry [where good = good, OF assms(2) good_retry le_verify [OF OP_verify]],
        assumption, assumption, rule moves_bind, rule moves_deliver, rule moves_return)
next
  case OP_rollback
  then show ?thesis using assms unfolding perform_def Let_def
    by (intro moves_reads) (auto intro!: moves_bind moves_return moves_retry [where good = good] good_retry le_rollback)
qed

lemma item_moves:
  assumes "run_state (run_item adapter item now) e = (outcome, e')" "eng_deps e = deps" "eng_platform e = platform"
    and "wki_kind item = kind" "good (operation_for e item now)"
  shows "le (eng_world e) (eng_world e')"
proof -
  obtain d e1 where d: "run_state (drain_gate item now) e = (d, e1)" by force
  note s1 = movesD [OF moves_drain_gate assms(2,3) refl d]
  obtain h e2 where h: "run_state (health_gate adapter item now (no_outcome (wki_kind item))) e1 = (h, e2)" by force
  have s2: "eng_deps e2 = deps \<and> eng_platform e2 = platform \<and> le (eng_world e1) (eng_world e2)"
    using movesD [OF moves_health_gate _ _ refl h] s1 by simp
  show ?thesis
  proof (cases "has_value d \<and> \<not> opo_gate_refused h")
    case True
    with assms(1) d h have run: "run_state (perform adapter item now (operation_for e item now) h) e2 = (outcome, e')"
      by (cases d) (simp_all add: run_item_def reads_def Let_def)
    have "le (eng_world e2) (eng_world e')"
      using movesD [OF moves_perform [OF assms(4,5)] _ _ refl run] s2 by simp
    with s1 s2 le_trans show ?thesis by blast
  next
    case False
    with assms(1) d h have "e' = e1 \<or> e' = e2" by (cases d) (auto simp: run_item_def reads_def Let_def)
    with s1 s2 le_trans show ?thesis by blast
  qed
qed

end

end
