(* ===== verification/Engine_Limits.thy ===== *)
theory Engine_Limits
  imports Engine_Safety Engine_Contract
begin

text \<open>
  How much the engine does: how often an item activates its target, and how many items a pass emits.
\<close>

subsection \<open>Activations of an item\<close>

text \<open>
  A counter of the activation calls that reach the adapter: what the witnesses instantiate and a test would
  instrument.  The other ports do not touch it.
\<close>

definition activation_counter :: "('w \<Rightarrow> nat) \<Rightarrow> 'w adapter_port \<Rightarrow> 'w dependencies \<Rightarrow> 'w platform \<Rightarrow> bool" where
  "activation_counter acts adapter deps platform \<longleftrightarrow>
     (\<forall>op w. acts (snd (adp_activate adapter op w)) = acts w + 1) \<and>
     (\<forall>t now i w. acts (snd (adp_observe adapter t now i w)) = acts w) \<and>
     (\<forall>op w. acts (snd (adp_prepare adapter op w)) = acts w) \<and>
     (\<forall>op w. acts (snd (adp_verify adapter op w)) = acts w) \<and>
     (\<forall>op w. acts (snd (adp_rollback adapter op w)) = acts w) \<and>
     (\<forall>d r w. dep_drain deps = Some d \<longrightarrow> acts (snd (drp_acquire d r w)) = acts w) \<and>
     (\<forall>p t now i w. dep_health deps = Some p \<longrightarrow> acts (snd (p t now i w)) = acts w) \<and>
     (\<forall>f x w. dep_configuration deps = Some f \<longrightarrow> acts (snd (f x w)) = acts w) \<and>
     (\<forall>w. case dep_clock deps of
        Some clock \<Rightarrow> acts (snd (clock w)) = acts w
      | None \<Rightarrow> acts (snd (plf_system_clock platform w)) = acts w)"

lemma counterD:
  assumes "activation_counter acts adapter deps platform"
  shows "acts (snd (adp_activate adapter op w)) = acts w + 1" "acts (snd (adp_observe adapter t now i w)) = acts w"
    "acts (snd (adp_prepare adapter op w)) = acts w" "acts (snd (adp_verify adapter op w)) = acts w"
    "acts (snd (adp_rollback adapter op w)) = acts w"
    "dep_drain deps = Some d \<Longrightarrow> acts (snd (drp_acquire d r w)) = acts w"
    "dep_health deps = Some h \<Longrightarrow> acts (snd (h t now i w)) = acts w"
    "dep_configuration deps = Some f \<Longrightarrow> acts (snd (f x w)) = acts w"
    "dep_clock deps = Some clock \<Longrightarrow> acts (snd (clock w)) = acts w"
    "dep_clock deps = None \<Longrightarrow> acts (snd (plf_system_clock platform w)) = acts w"
  using assms by (simp_all add: activation_counter_def split: option.splits)

text \<open>Everything an item calls leaves the counter alone, except the activation itself.\<close>

lemma counter_gates:
  assumes "activation_counter acts adapter deps platform"
  shows "gate_contract (\<lambda>w w'. acts w' = acts w) adapter deps platform"
  by unfold_locales (auto simp: counterD [OF assms] split: option.split)

lemma counter_item:
  assumes "activation_counter acts adapter deps platform" "kind \<noteq> OP_activate"
  shows "item_contract (\<lambda>w w'. acts w' = acts w) adapter deps platform kind (\<lambda>op. True)"
  by (intro item_contract.intro counter_gates [OF assms(1)] item_contract_axioms.intro)
    (use assms(2) in \<open>simp_all add: counterD [OF assms(1)]\<close>)

lemma activate_call_counted:
  assumes "activation_counter acts adapter deps platform"
  shows "run_state (activate_call adapter item now current limit retries operation) e = (x, e') \<Longrightarrow>
    acts (eng_world e) < acts (eng_world e') \<and>
    acts (eng_world e') \<le> acts (eng_world e) + (unat limit - unat retries) + 1 \<and>
    (snd x \<longrightarrow> ver_eq (ao_observed_version (fst x)) (art_version (wki_artifact item)))"
  using assms
proof (induction adapter item now current limit retries operation arbitrary: e rule: activate_call.induct)
  case (1 adapter item now current limit retries operation)
  note count = counterD [OF "1.prems"(2)]
  obtain answer w1 where a: "adp_activate adapter operation (eng_world e) = (answer, w1)" by force
  have w1: "acts w1 = acts (eng_world e) + 1" using count(1) [of operation "eng_world e"] a by simp
  show ?case
  proof (cases answer)
    case (Inr out)
    with "1.prems"(1) a w1 show ?thesis by (subst (asm) activate_call.simps) (auto simp: call_def)
  next
    case (Inl err)
    show ?thesis
    proof (cases "\<not> is_retryable (err_code err) \<or> retries \<ge> limit")
      case True
      with "1.prems"(1) a w1 Inl show ?thesis by (subst (asm) activate_call.simps) (auto simp: call_def)
    next
      case False
      obtain observed w2 where o: "adp_observe adapter (wki_target item) now current w1 = (observed, w2)" by force
      have w2: "acts w2 = acts w1" using count(2) [of "wki_target item" now current w1] o by simp
      have left: "unat limit - unat retries = Suc (unat limit - unat (retries + 1))"
        using False unat_Suc_retries [of retries limit] by (auto simp: not_le word_less_nat_alt)
      have again: "acts (eng_world e) < acts (eng_world e') \<and>
          acts (eng_world e') \<le> acts (eng_world e) + (unat limit - unat retries) + 1 \<and>
          (snd x \<longrightarrow> ver_eq (ao_observed_version (fst x)) (art_version (wki_artifact item)))"
        if "run_state (activate_call adapter item now current limit (retries + 1) (operation\<lparr>top_retry := True\<rparr>))
            (e\<lparr>eng_world := w2\<rparr>) = (x, e')"
          "acts (eng_world (e\<lparr>eng_world := w2\<rparr>)) < acts (eng_world e') \<and>
            acts (eng_world e') \<le> acts (eng_world (e\<lparr>eng_world := w2\<rparr>)) + (unat limit - unat (retries + 1)) + 1 \<and>
            (snd x \<longrightarrow> ver_eq (ao_observed_version (fst x)) (art_version (wki_artifact item)))"
        using that w1 w2 left by auto
      show ?thesis
      proof (cases "\<exists>v. observed = Inr v \<and> ver_eq (obs_version v) (art_version (wki_artifact item))")
        case True
        with "1.prems"(1) a w1 w2 Inl False o show ?thesis
          by (subst (asm) activate_call.simps) (auto simp: call_def already_applied_def)
      next
        case other: False
        with "1.prems"(1) a Inl False o
        have run: "run_state (activate_call adapter item now current limit (retries + 1) (operation\<lparr>top_retry := True\<rparr>))
            (e\<lparr>eng_world := w2\<rparr>) = (x, e')"
          by (subst (asm) activate_call.simps) (auto simp: call_def split: sum.splits)
        show ?thesis
        proof (cases observed)
          case (Inl err2)
          show ?thesis by (rule again [OF run]) (rule "1.IH"(1) [OF False run "1.prems"(2)])
        next
          case (Inr v)
          with other have "\<not> ver_eq (obs_version v) (art_version (wki_artifact item))" by simp
          show ?thesis by (rule again [OF run]) (rule "1.IH"(1) [OF False run "1.prems"(2)])
        qed
      qed
    qed
  qed
qed

text \<open>What the gates before an activation established.\<close>

lemma health_gate_passed:
  assumes "run_state (health_gate adapter item now (no_outcome k)) e = (outcome, e')" "\<not> opo_gate_refused outcome"
    "wki_kind item = OP_activate" "pol_require_health_gate (eng_policy e)" "dep_health (eng_deps e) \<noteq> None"
  shows "opo_has_health outcome \<and> hr_healthy (opo_health outcome) \<and>
    fre_fresh (evaluate_freshness (hr_observed_at (opo_health outcome)) (hr_validity (opo_health outcome))
      (hr_incarnation (opo_health outcome)) now (eng_incarnation e))"
  using assms
  by (auto simp: health_gate_def reads_def call_def judge_health_def Let_def split: option.splits sum.splits if_splits prod.splits)

lemma run_item_counted:
  assumes "activation_counter acts adapter (eng_deps e) (eng_platform e)"
    and "run_state (run_item adapter item now) e = (outcome, e')"
  shows "acts (eng_world e') \<le> acts (eng_world e) + unat (pol_max_retries_per_operation (eng_policy e)) + 1 \<and>
    (wki_kind item \<noteq> OP_activate \<or> opo_gate_refused outcome \<longrightarrow> acts (eng_world e') = acts (eng_world e)) \<and>
    (acts (eng_world e') \<noteq> acts (eng_world e) \<and> pol_require_health_gate (eng_policy e) \<and> dep_health (eng_deps e) \<noteq> None \<longrightarrow>
       opo_has_health outcome \<and> hr_healthy (opo_health outcome) \<and>
       fre_fresh (evaluate_freshness (hr_observed_at (opo_health outcome)) (hr_validity (opo_health outcome))
         (hr_incarnation (opo_health outcome)) now (eng_incarnation e))) \<and>
    (opo_skipped outcome \<longrightarrow> ver_eq (ao_observed_version (opo_activate outcome)) (art_version (wki_artifact item)))"
proof -
  note count = assms(1)
  let ?deps = "eng_deps e" and ?plat = "eng_platform e" and ?p = "eng_policy e"
  obtain d e1 where d: "run_state (drain_gate item now) e = (d, e1)" by force
  note s1 = movesD [OF gate_contract.moves_drain_gate [OF counter_gates [OF count], where p = ?p] refl refl refl d]
  show ?thesis
  proof (cases d)
    case (Inl err)
    with assms(2) d have "outcome = (no_outcome (wki_kind item))\<lparr>opo_gate_refused := True,
         opo_gate_reason := ''the Drain/Maintenance Fabric refused a maintenance ticket: '' @ error_to_string err\<rparr>" "e' = e1"
      by (simp_all add: run_item_def reads_def Let_def)
    with s1 show ?thesis by (simp add: no_outcome_def)
  next
    case (Inr u)
    obtain h e2 where h: "run_state (health_gate adapter item now (no_outcome (wki_kind item))) e1 = (h, e2)" by force
    note s2 = movesD [OF gate_contract.moves_health_gate [OF counter_gates [OF count], where p = ?p] _ _ _ h]
    have same: "eng_deps e2 = ?deps" "eng_platform e2 = ?plat" "eng_policy e2 = ?p" "eng_incarnation e2 = eng_incarnation e"
      "acts (eng_world e2) = acts (eng_world e)"
      using s1 s2 by simp_all
    have kept: "\<not> opo_skipped h" "opo_kind h = wki_kind item"
      using h by (auto simp: health_gate_def reads_def call_def judge_health_def no_outcome_def Let_def
          split: option.splits sum.splits if_splits prod.splits)
    show ?thesis
    proof (cases "opo_gate_refused h")
      case True
      with assms(2) d h Inr have "outcome = h" "e' = e2" by (simp_all add: run_item_def reads_def Let_def)
      with True kept same show ?thesis by simp
    next
      case False
      with assms(2) d h Inr have run: "run_state (perform adapter item now (operation_for e item now) h) e2 = (outcome, e')"
        by (simp add: run_item_def reads_def Let_def)
      show ?thesis
      proof (cases "wki_kind item = OP_activate")
        case True
        obtain x e3 where x: "run_state (activate_call adapter item now (eng_incarnation e2) (pol_max_retries_per_operation ?p) 0
            (operation_for e item now)) e2 = (x, e3)" by (metis surj_pair)
        with run True same(3) have out: "outcome = h\<lparr>opo_activate := fst x, opo_skipped := snd x\<rparr>" "e' = e3"
          by (simp_all add: perform_def reads_def Let_def case_prod_beta)
        from activate_call_counted [OF count x] same(5)
        have bounds: "acts (eng_world e') \<le> acts (eng_world e) + unat (pol_max_retries_per_operation ?p) + 1"
          "snd x \<longrightarrow> ver_eq (ao_observed_version (fst x)) (art_version (wki_artifact item))"
          by (simp_all add: out)
        have "opo_has_health h \<and> hr_healthy (opo_health h) \<and>
            fre_fresh (evaluate_freshness (hr_observed_at (opo_health h)) (hr_validity (opo_health h))
              (hr_incarnation (opo_health h)) now (eng_incarnation e))"
          if "pol_require_health_gate ?p" "dep_health ?deps \<noteq> None"
          using health_gate_passed [OF h False True] that s1 by simp
        with bounds True False show ?thesis by (simp add: out)
      next
        case other: False
        from movesD [OF item_contract.moves_perform [OF counter_item [OF count other] refl, where p = ?p] same(1-3) run] same
        have "acts (eng_world e') = acts (eng_world e)" by simp
        moreover have "opo_skipped outcome = opo_skipped h"
          using run other by (cases "wki_kind item") (auto simp: perform_def reads_def Let_def split: prod.splits)
        ultimately show ?thesis using kept other by simp
      qed
    qed
  qed
qed

text \<open>
  C4: an item activates its target a bounded number of times, and only behind its gates.  Whatever the
  adapter and the other systems answer, running a work item calls the adapter's activation at most once more than the
  retries the policy allows; not at all when the item is no activation or a gate refused it; where the policy requires a
  health gate and a probe is integrated, only after a fresh and healthy report of this incarnation; and an
  activation is taken as done without a repetition (a lost acknowledgement) only when the observed version is the
  artifact's.
\<close>

theorem activation_gated_and_bounded:
  assumes "activation_counter acts adapter (eng_deps e) (eng_platform e)"
    and "run_state (run_item adapter item now) e = (outcome, e')"
  shows "acts (eng_world e') \<le> acts (eng_world e) + unat (pol_max_retries_per_operation (eng_policy e)) + 1 \<and>
    (wki_kind item \<noteq> OP_activate \<or> opo_gate_refused outcome \<longrightarrow> acts (eng_world e') = acts (eng_world e)) \<and>
    (acts (eng_world e') \<noteq> acts (eng_world e) \<and> pol_require_health_gate (eng_policy e) \<and> dep_health (eng_deps e) \<noteq> None \<longrightarrow>
       opo_has_health outcome \<and> hr_healthy (opo_health outcome) \<and>
       fre_fresh (evaluate_freshness (hr_observed_at (opo_health outcome)) (hr_validity (opo_health outcome))
         (hr_incarnation (opo_health outcome)) now (eng_incarnation e))) \<and>
    (opo_skipped outcome \<longrightarrow> ver_eq (ao_observed_version (opo_activate outcome)) (art_version (wki_artifact item)))"
  by (rule run_item_counted [OF assms])

subsection \<open>The items of a pass\<close>

lemma fold_op_invariant:
  assumes "\<And>x b e b' e'. P e b \<Longrightarrow> run_state (g x b) e = (b', e') \<Longrightarrow> P e' b'"
  shows "P e b \<Longrightarrow> run_state (fold_op g xs b) e = (b', e') \<Longrightarrow> P e' b'"
proof (induction xs arbitrary: b e)
  case (Cons x xs)
  obtain b1 e1 where step: "run_state (g x b) e = (b1, e1)" by force
  with Cons.prems(2) have "run_state (fold_op g xs b1) e1 = (b', e')" by simp
  with Cons.IH assms [OF Cons.prems(1) step] show ?case by blast
qed simp

definition activations :: "work_item list \<Rightarrow> nat" where
  "activations items = length (filter (\<lambda>i. wki_kind i = OP_activate) items)"

lemma activations_append: "activations (xs @ ys) = activations xs + activations ys"
  by (simp add: activations_def)

lemma activations_single: "activations [i] = (if wki_kind i = OP_activate then 1 else 0)"
  by (simp add: activations_def)

lemma latest_attempt_for_snoc:
  "latest_attempt_for (as @ [b]) s t =
     (if att_stage b = s \<and> att_target b = t
      then (case latest_attempt_for as s t of
              None \<Rightarrow> Some b
            | Some a \<Rightarrow> if att_id a < att_id b then Some b else Some a)
      else latest_attempt_for as s t)"
  by (simp add: latest_attempt_for_def)

lemma latest_attempt_for_SomeD:
  "latest_attempt_for as s t = Some a \<Longrightarrow> a \<in> set as \<and> att_stage a = s \<and> att_target a = t"
proof (induction as arbitrary: a rule: rev_induct)
  case Nil
  then show ?case by (simp add: latest_attempt_for_def)
next
  case (snoc b as)
  then show ?case
    by (cases "latest_attempt_for as s t") (auto simp: latest_attempt_for_snoc split: if_splits)
qed

lemma mark_state_ids [simp]: "map att_id (mark_state i s as) = map att_id as"
  by (induction as) (auto simp: mark_state_def)

lemma mark_state_other: "i \<notin> att_id ` set as \<Longrightarrow> mark_state i s as = as"
  unfolding mark_state_def by (rule map_idI) auto

lemma count_in_state_mark:
  assumes "distinct (map att_id as)" "a \<in> set as" "att_stage a = stage" "att_state a \<noteq> st"
  shows "count_in_state (mark_state (att_id a) st as) stage st = Suc (count_in_state as stage st)"
    and "st' \<noteq> st \<Longrightarrow> att_state a \<noteq> st' \<Longrightarrow>
      count_in_state (mark_state (att_id a) st as) stage st' = count_in_state as stage st'"
proof -
  from assms(2) obtain xs ys where as: "as = xs @ a # ys" by (meson split_list)
  with assms(1) have "att_id a \<notin> att_id ` set xs" "att_id a \<notin> att_id ` set ys" by auto
  note others = mark_state_other [OF this(1)] mark_state_other [OF this(2)]
  have split: "mark_state (att_id a) st as = xs @ a\<lparr>att_state := st\<rparr> # ys"
    using others unfolding as by (simp add: mark_state_def)
  show "count_in_state (mark_state (att_id a) st as) stage st = Suc (count_in_state as stage st)"
    "st' \<noteq> st \<Longrightarrow> att_state a \<noteq> st' \<Longrightarrow>
      count_in_state (mark_state (att_id a) st as) stage st' = count_in_state as stage st'"
    using assms(3,4) by (auto simp: split) (auto simp: as count_in_state_def)
qed

text \<open>
  What holds in a pass over the targets of a stage: the items are the campaign's and fit the budget, and the
  activations in flight (those of the store and those just started) stay within the limit unless they were
  above it before.
\<close>

definition pace :: "policy \<Rightarrow> stage_plan \<Rightarrow> nat" where
  "pace p stage = min (unat (stg_max_parallel stage)) (unat (pol_max_concurrent_activations p))"

definition paced ::
    "policy \<Rightarrow> nat \<Rightarrow> campaign_record \<Rightarrow> stage_plan \<Rightarrow> nat \<Rightarrow> work_item list \<Rightarrow> 'w engine \<Rightarrow>
     attempt_record list \<times> work_item list \<Rightarrow> bool" where
  "paced p budget c stage n out0 e acc \<longleftrightarrow>
     eng_policy e = p \<and>
     (\<exists>new. snd acc = out0 @ new \<and> length (snd acc) \<le> budget \<and> (\<forall>i \<in> set new. wki_campaign i = cmp_id c) \<and>
        (if staging_phase c then activations new = 0
         else distinct (map att_id (fst acc)) \<and> n + activations new \<le> count_in_state (fst acc) (stg_id stage) AS_activating \<and>
           n + activations new \<le> max n (pace p stage)))"

lemma policy_put_attempt:
  assumes "run_state (engine_put_attempt a now) e = (u, e')"
  shows "eng_policy e' = eng_policy e"
proof -
  have "leaves engine_constants (engine_put_attempt a now)"
    unfolding engine_put_attempt_def by (rule constants_store_op)
  from leavesD [OF this assms] show ?thesis by (simp add: engine_constants_def)
qed

lemma paced_kept:
  "paced p budget c stage n out0 e acc \<Longrightarrow> eng_policy e' = eng_policy e \<Longrightarrow> paced p budget c stage n out0 e' acc"
  by (simp add: paced_def)

lemma paced_item:
  assumes "paced p budget c stage n out0 e (as, out)" "length out < budget" "wki_campaign i = cmp_id c" "eng_policy e' = eng_policy e"
    and "wki_kind i \<noteq> OP_activate"
    and "\<not> staging_phase c \<Longrightarrow> distinct (map att_id as) \<Longrightarrow> distinct (map att_id as') \<and>
      count_in_state as (stg_id stage) AS_activating \<le> count_in_state as' (stg_id stage) AS_activating"
  shows "paced p budget c stage n out0 e' (as', out @ [i])"
proof -
  from assms(1) obtain new where new: "out = out0 @ new" "eng_policy e = p" "\<forall>i \<in> set new. wki_campaign i = cmp_id c"
    "if staging_phase c then activations new = 0
         else distinct (map att_id as) \<and> n + activations new \<le> count_in_state as (stg_id stage) AS_activating \<and>
           n + activations new \<le> max n (pace p stage)"
    unfolding paced_def fst_conv snd_conv by blast
  have "activations (new @ [i]) = activations new"
    using assms(5) by (simp add: activations_append activations_single)
  with new assms(2,3,4,6) show ?thesis
    unfolding paced_def by (intro conjI exI [where x = "new @ [i]"]) auto
qed

lemma paced_activation:
  assumes "paced p budget c stage n out0 e (as, out)" "length out < budget" "wki_campaign i = cmp_id c" "eng_policy e' = eng_policy e"
    and "\<not> staging_phase c" "wki_kind i = OP_activate" "latest_attempt_for as (stg_id stage) t = Some a" "att_state a = AS_prepared"
    and "count_in_state as (stg_id stage) AS_activating < activation_limit e stage d"
  shows "paced p budget c stage n out0 e' (mark_state (att_id a) AS_activating as, out @ [i])"
proof -
  from assms(1,5) obtain new where new: "out = out0 @ new" "eng_policy e = p" "\<forall>i \<in> set new. wki_campaign i = cmp_id c"
    "distinct (map att_id as)" "n + activations new \<le> count_in_state as (stg_id stage) AS_activating"
    by (auto simp: paced_def)
  have more: "activations (new @ [i]) = Suc (activations new)"
    using assms(6) by (simp add: activations_append activations_single)
  have limit: "activation_limit e stage d \<le> pace p stage"
    unfolding activation_limit_def pace_def Let_def new(2) by (rule min.cobounded1)
  from latest_attempt_for_SomeD [OF assms(7)] have "a \<in> set as" "att_stage a = stg_id stage" by simp_all
  from count_in_state_mark(1) [OF new(4) this, of AS_activating] assms(8)
  have "count_in_state (mark_state (att_id a) AS_activating as) (stg_id stage) AS_activating =
      Suc (count_in_state as (stg_id stage) AS_activating)" by simp
  with new more limit assms(2,3,4,5,9) show ?thesis
    unfolding paced_def by (intro conjI exI [where x = "new @ [i]"]) auto
qed


lemma paced_put:
  assumes "paced p budget c stage n out0 e acc" "run_state (engine_put_attempt a now) e = (u, e')"
  shows "paced p budget c stage n out0 e' acc"
  using paced_kept [OF assms(1)] policy_put_attempt [OF assms(2)] by blast

lemma paced_target:
  assumes "paced p budget c stage n out0 e acc"
    and "run_state (plan_stage_target now budget c stage target acc) e = (acc', e')"
  shows "paced p budget c stage n out0 e' acc'"
proof -
  obtain as out where acc: "acc = (as, out)" by force
  show ?thesis
  proof (cases "length out \<ge> budget")
    case True
    with assms acc show ?thesis by (simp add: plan_stage_target_def)
  next
    case room: False
    show ?thesis
    proof (cases "inv_find (eng_inventory e) target")
      case None
      with assms acc room show ?thesis by (simp add: plan_stage_target_def reads_def)
    next
      case (Some d)
      note unfolded = assms(2) [unfolded acc plan_stage_target_def reads_def]
      have small: "length out < budget" using room by simp
      note here = assms(1) [unfolded acc]
      note item = paced_item [OF here small]
      show ?thesis
      proof (cases "staging_phase c")
        case True
        with unfolded room Some here show ?thesis
          by (auto simp: allocate_attempt_def reads_def changes_def Let_def item_of_def
              split: option.splits if_splits prod.splits dest!: policy_put_attempt intro!: item)
      next
        case False
        show ?thesis
        proof (cases "latest_attempt_for as (stg_id stage) target")
          case None
          with unfolded room Some False assms(1) show ?thesis by (simp add: acc Let_def)
        next
          case (Some a)
          note a = latest_attempt_for_SomeD [OF Some]
          show ?thesis
          proof (cases "(cmp_state c = US_staged \<or> cmp_state c = US_activating) \<and> att_state a = AS_prepared")
            case True
            note activation = paced_activation [OF here small _ _ False _ Some]
            from unfolded room \<open>inv_find (eng_inventory e) target = Some d\<close> False Some True here show ?thesis
              by (auto simp: Let_def item_of_def not_le split: if_splits option.splits prod.splits
                  dest!: policy_put_attempt intro!: activation)
          next
            case other: False
            show ?thesis
            proof (cases "(cmp_state c = US_activating \<or> cmp_state c = US_verifying) \<and> att_state a = AS_activated")
              case True
              have same: "count_in_state (mark_state (att_id a) AS_verifying as) (stg_id stage) AS_activating =
                  count_in_state as (stg_id stage) AS_activating" if "distinct (map att_id as)"
                by (rule count_in_state_mark(2) [OF that]) (use a True in simp_all)
              from unfolded room \<open>inv_find (eng_inventory e) target = Some d\<close> False Some True other here show ?thesis
                by (auto simp: Let_def item_of_def same split: option.splits prod.splits
                  dest!: policy_put_attempt intro!: item)
            next
              case False
              with unfolded room \<open>inv_find (eng_inventory e) target = Some d\<close> \<open>\<not> staging_phase c\<close> Some other here
              show ?thesis by (auto simp: Let_def split: if_splits)
            qed
          qed
        qed
      qed
    qed
  qed
qed


lemma paced_stage:
  assumes "paced p budget c stage n out0 e acc"
    and "run_state (fold_op (plan_stage_target now budget c stage) targets acc) e = (acc', e')"
  shows "paced p budget c stage n out0 e' acc'"
  by (rule fold_op_invariant [where P = "paced p budget c stage n out0", OF _ assms]) (erule (1) paced_target)

text \<open>A pass that rolls back starts no activation.\<close>

lemma plan_rollback_target_items:
  assumes "run_state (plan_rollback_target now budget c stage target out) e = (out', e')"
  shows "\<exists>new. out' = out @ new \<and> length out' \<le> max (length out) budget \<and> activations new = 0 \<and>
    (\<forall>i \<in> set new. wki_campaign i = cmp_id c)"
  using assms
  by (auto simp: plan_rollback_target_def reads_def item_of_def activations_def Let_def
      split: if_splits option.splits prod.splits)

definition rolled :: "nat \<Rightarrow> campaign_record \<Rightarrow> work_item list \<Rightarrow> work_item list \<Rightarrow> bool" where
  "rolled budget c out0 out \<longleftrightarrow>
     (\<exists>new. out = out0 @ new \<and> length out \<le> budget \<and> activations new = 0 \<and> (\<forall>i \<in> set new. wki_campaign i = cmp_id c))"

lemma rolled_target:
  assumes "rolled budget c out0 out" "run_state (plan_rollback_target now budget c stage target out) e = (out', e')"
  shows "rolled budget c out0 out'"
proof -
  from assms(1) obtain old where "out = out0 @ old" "length out \<le> budget" "activations old = 0"
    "\<forall>i \<in> set old. wki_campaign i = cmp_id c" unfolding rolled_def by blast
  moreover from plan_rollback_target_items [OF assms(2)] obtain new where "out' = out @ new"
    "length out' \<le> max (length out) budget" "activations new = 0" "\<forall>i \<in> set new. wki_campaign i = cmp_id c" by blast
  ultimately show ?thesis
    unfolding rolled_def by (intro exI [where x = "old @ new"]) (auto simp: activations_append)
qed

lemma rolled_plan:
  assumes "rolled budget c out0 out" "run_state (plan_rollback now budget c out) e = (out', e')"
  shows "rolled budget c out0 out'"
  by (rule fold_op_invariant [where P = "\<lambda>_. rolled budget c out0", OF _ assms(1) assms(2) [unfolded plan_rollback_def]])
    (rule fold_op_invariant [where P = "\<lambda>_. rolled budget c out0", rotated], assumption+, erule (1) rolled_target)

subsection \<open>The items of a campaign\<close>

lemma transition_campaign:
  "run_state (transition_locked c to g) e = ((status, c'), e') \<Longrightarrow> cmp_id c' = cmp_id c \<and> cmp_plan c' = cmp_plan c"
  by (auto simp: transition_locked_def moved_campaign_def Let_def split: if_splits sum.splits prod.splits)

lemma move_campaign:
  "run_state (move_if_possible c to g) e = (c', e') \<Longrightarrow> cmp_id c' = cmp_id c \<and> cmp_plan c' = cmp_plan c"
  by (auto simp: move_if_possible_def split: prod.splits dest: transition_campaign)

lemma resume_staging_campaign: "run_state (resume_staging c) e = (c', e') \<Longrightarrow> cmp_id c' = cmp_id c"
  by (auto simp: resume_staging_def split: if_splits prod.splits dest!: move_campaign)

lemma resume_activation_campaign: "run_state (resume_activation c) e = (c', e') \<Longrightarrow> cmp_id c' = cmp_id c"
  by (auto simp: resume_activation_def split: if_splits prod.splits dest!: move_campaign)

lemma attempts_resume: "leaves attempts_view (resume_staging c)" "leaves attempts_view (resume_activation c)"
  unfolding resume_staging_def resume_activation_def by (intro attempt_frames attempts_move)+

lemma attempts_hold: "leaves attempts_view (hold_for_skew c)"
  unfolding hold_for_skew_def Let_def by (intro attempt_frames attempts_transition)

text \<open>
  C8: a pass respects the limits.  Planning the work of a campaign whose active stage is \<open>stage\<close>
  only adds items of that campaign, never more than the budget of the pass; and the activations in flight in the stage
  (the attempts the store holds as activating and those the pass starts) stay within the stage's parallelism and
  the policy's limit, or start none.
\<close>

theorem activations_in_flight_bounded:
  assumes "run_state (plan_campaign now budget c out) e = (out', e')"
    and "active_plan_stage c = Some stage" "length out \<le> budget"
    and "distinct (map att_id (attempts_for (eng_store e) (cmp_id c)))"
  shows "\<exists>new. out' = out @ new \<and> length out' \<le> budget \<and> (\<forall>i \<in> set new. wki_campaign i = cmp_id c) \<and>
    (activations new = 0 \<or>
     count_in_state (attempts_for (eng_store e) (cmp_id c)) (stg_id stage) AS_activating + activations new \<le>
       min (unat (stg_max_parallel stage)) (unat (pol_max_concurrent_activations (eng_policy e))))"
proof (cases "campaign_running (cmp_state c)")
  case False
  with assms show ?thesis by (simp add: plan_campaign_def activations_def)
next
  case True
  let ?n = "count_in_state (attempts_for (eng_store e) (cmp_id c)) (stg_id stage) AS_activating"
  obtain c1 e1 where one: "run_state (resume_staging c) e = (c1, e1)" by (metis surj_pair)
  obtain c2 e2 where two: "run_state (resume_activation c1) e1 = (c2, e2)" by (metis surj_pair)
  have id: "cmp_id c2 = cmp_id c"
    using resume_staging_campaign [OF one] resume_activation_campaign [OF two] by simp
  have view: "attempts_view e2 = attempts_view e"
    using leavesD [OF attempts_resume(1) one] leavesD [OF attempts_resume(2) two] by simp
  show ?thesis
  proof (cases "cmp_state c2 = US_rolling_back")
    case reverse: True
    with assms(1,2) True one two have run: "run_state (plan_rollback now budget c2 out) e2 = (out', e')"
      by (simp add: plan_campaign_def)
    have "rolled budget c2 out out" using assms(3) by (auto simp: rolled_def activations_def)
    from rolled_plan [OF this run] id show ?thesis by (auto simp: rolled_def)
  next
    case forward: False
    obtain held e3 where three: "run_state (hold_for_skew c2) e2 = (held, e3)" by (metis surj_pair)
    show ?thesis
    proof (cases held)
      case held: True
      with assms(1,2,3) True one two three forward show ?thesis by (simp add: plan_campaign_def activations_def)
    next
      case free: False
      have view3: "attempts_view e3 = attempts_view e" using view leavesD [OF attempts_hold three] by simp
      then have as: "attempts_for (eng_store e3) (cmp_id c2) = attempts_for (eng_store e) (cmp_id c)"
        and p: "eng_policy e3 = eng_policy e"
        by (simp_all add: attempts_view_def attempts_for_def id)
      obtain as' where run: "run_state (fold_op (plan_stage_target now budget c2 stage) (stg_targets stage)
          (attempts_for (eng_store e) (cmp_id c), out)) e3 = ((as', out'), e')"
        using assms(1,2) True one two three forward free
        by (auto simp: plan_campaign_def reads_def as split: prod.splits)
      have "paced (eng_policy e) budget c2 stage ?n out e3 (attempts_for (eng_store e) (cmp_id c), out)"
        using assms(3,4) p by (auto simp: paced_def activations_def)
      from paced_stage [OF this run] show ?thesis
        by (auto simp: paced_def pace_def id split: if_splits)
    qed
  qed
qed

end
