(* ===== verification/Engine_Moves.thy ===== *)
theory Engine_Moves
  imports Engine_Safety
begin

text \<open>
  Which call moves which campaign.  Every call that \<open>Engine\<close> makes under its mutex is named, the moves it may
  make are tabulated, and each step of the engine is shown to be one of these calls and to move
  every stored campaign at most as the table of this call allows.  The proof instantiates the order of
  \<open>Engine_Orders\<close> with the runs of the lifecycle into the states a call asks for.
\<close>

subsection \<open>The calls and their moves\<close>

text \<open>
  The calls that may move a campaign; everything else the engine does under its mutex is \<open>Call_other\<close>.
\<close>

datatype engine_call =
    Call_create | Call_preflight | Call_start | Call_pause | Call_resume | Call_abort | Call_rollback | Call_plan
  | Call_commit operation_kind | Call_other

fun performs :: "engine_call \<Rightarrow> 'w engine \<Rightarrow> 'w engine \<Rightarrow> bool" where
  "performs Call_create e e' = (\<exists>req r. run_state (create_campaign req) e = (r, e'))"
| "performs Call_preflight e e' = (\<exists>cid digest revision report now r. run_state (preflight_commit cid digest revision report now) e = (r, e'))"
| "performs Call_start e e' = (\<exists>cid options now r. run_state (start_admit cid options now) e = (r, e'))"
| "performs Call_pause e e' = (\<exists>cid reason r. run_state (pause cid reason) e = (r, e'))"
| "performs Call_resume e e' = (\<exists>cid r. run_state (resume cid) e = (r, e'))"
| "performs Call_abort e e' = (\<exists>cid reason r. run_state (abort cid reason) e = (r, e'))"
| "performs Call_rollback e e' = (\<exists>cid execute r. run_state (rollback cid execute) e = (r, e'))"
| "performs Call_plan e e' = (\<exists>budget r. run_state (plan_work budget) e = (r, e'))"
| "performs (Call_commit kind) e e' =
     (\<exists>item outcome r. run_state (commit_item item outcome) e = (r, e') \<and> wki_kind item = kind)"
| "performs Call_other e e' = engine_step e e'"

text \<open>The moves each call may make, from a state to a state.\<close>

fun may_move :: "engine_call \<Rightarrow> upgrade_state \<Rightarrow> upgrade_state \<Rightarrow> bool" where
  "may_move Call_create s t = False"
| "may_move Call_preflight s t =
     (t \<in> {US_validated, US_blocked} \<and>
      s \<in> {US_proposed, US_validated, US_prepared, US_staged, US_activating, US_verifying, US_blocked, US_paused})"
| "may_move Call_start s t =
     (t \<in> {US_validated, US_prepared} \<and> s \<in> {US_proposed, US_blocked, US_paused} \<or> t = US_prepared \<and> s = US_validated)"
| "may_move Call_pause s t = (t = US_paused \<and> s \<in> {US_validated, US_prepared, US_staged, US_blocked})"
| "may_move Call_resume s t =
     (t \<in> {US_validated, US_prepared} \<and> s \<in> {US_proposed, US_blocked, US_paused} \<or> t = US_prepared \<and> s = US_validated)"
| "may_move Call_abort s t =
     (t \<in> {US_blocked, US_failed} \<and>
        s \<in> {US_proposed, US_validated, US_prepared, US_staged, US_activating, US_verifying} \<or>
      t = US_failed \<and> s \<in> {US_blocked, US_paused, US_rolling_back})"
| "may_move Call_rollback s t =
     (t \<in> {US_failed, US_rollback_planned, US_rolling_back} \<and>
      s \<in> {US_validated, US_prepared, US_staged, US_activating, US_verifying, US_paused, US_blocked, US_failed,
             US_rollback_planned, US_rolling_back})"
| "may_move Call_plan s t =
     (t = US_blocked \<and> s \<in> {US_proposed, US_validated} \<or>
      t \<in> {US_staged, US_activating, US_verifying, US_blocked} \<and>
        s \<in> {US_prepared, US_staged, US_activating, US_verifying, US_paused})"
| "may_move (Call_commit OP_prepare) s t = (t \<in> {US_staged, US_blocked, US_failed} \<and> s \<in> {US_prepared, US_staged})"
| "may_move (Call_commit OP_activate) s t =
     (t \<in> {US_activating, US_verifying, US_blocked, US_failed} \<and> s \<in> {US_staged, US_activating})"
| "may_move (Call_commit OP_verify) s t =
     (t \<in> {US_blocked, US_failed} \<and> s \<in> {US_activating, US_verifying} \<or>
      t \<in> {US_staged, US_completed} \<and> s = US_verifying)"
| "may_move (Call_commit OP_rollback) s t = (t \<in> {US_rolled_back, US_failed} \<and> s = US_rolling_back)"
| "may_move Call_other s t = False"

text \<open>Several moves in one call: each is one the lifecycle allows, into a state the call asks for.\<close>

definition moved_within :: "upgrade_state set \<Rightarrow> campaign_record \<Rightarrow> campaign_record \<Rightarrow> bool" where
  "moved_within S c c' \<longleftrightarrow>
     cmp_id c' = cmp_id c \<and> (\<lambda>s t. t \<in> S \<and> (\<exists>g. lifecycle_spec s t g))\<^sup>*\<^sup>* (cmp_state c) (cmp_state c')"

lemma within_order: "campaign_order (moved_within S) S"
proof
  fix a b c :: campaign_record and to g now
  show "moved_within S c c" by (simp add: moved_within_def)
  show "moved_within S a c" if "moved_within S a b" "moved_within S b c"
    using that by (auto simp: moved_within_def)
  show "cmp_id b = cmp_id a" if "moved_within S a b" using that by (simp add: moved_within_def)
  show "moved_within S c b" if "bookkeeping c b" using that by (auto simp: moved_within_def bookkeeping_def)
  show "moved_within S c (moved_campaign c to now)"
    if "to \<in> S" "cmp_state c \<noteq> to" "tv_allowed (evaluate_transition (cmp_state c) to g)"
    using that by (auto simp: moved_within_def evaluate_transition_spec moved_campaign_def Let_def intro!: r_into_rtranclp)
qed

fun call_reaches :: "engine_call \<Rightarrow> upgrade_state set" where
  "call_reaches Call_create = {}"
| "call_reaches Call_preflight = {US_validated, US_blocked}"
| "call_reaches Call_start = {US_validated, US_prepared}"
| "call_reaches Call_pause = {US_paused}"
| "call_reaches Call_resume = {US_validated, US_prepared}"
| "call_reaches Call_abort = {US_blocked, US_failed}"
| "call_reaches Call_rollback = {US_failed, US_rollback_planned, US_rolling_back}"
| "call_reaches Call_plan = {US_staged, US_activating, US_verifying, US_blocked}"
| "call_reaches (Call_commit OP_prepare) = {US_staged, US_blocked, US_failed}"
| "call_reaches (Call_commit OP_activate) = {US_activating, US_verifying, US_blocked, US_failed}"
| "call_reaches (Call_commit OP_verify) = {US_staged, US_completed, US_blocked, US_failed}"
| "call_reaches (Call_commit OP_rollback) = {US_rolled_back, US_failed}"
| "call_reaches Call_other = {}"

fun call_from :: "engine_call \<Rightarrow> upgrade_state \<Rightarrow> bool" where
  "call_from (Call_commit kind) s = state_accepts kind s"
| "call_from cmd s = True"

lemma moves_closed:
  assumes "s = t \<or> may_move cmd s t" "u \<in> call_reaches cmd" "lifecycle_spec t u g" "call_from cmd s"
  shows "s = u \<or> may_move cmd s u"
proof -
  have "s = u \<or> may_move (Call_commit k) s u" if "cmd = Call_commit k" for k
    using assms unfolding that by (cases k; cases t) auto
  then show ?thesis
  proof (cases "\<exists>k. cmd = Call_commit k")
    case False
    with assms show ?thesis by (cases cmd; cases t; auto)
  qed blast
qed

lemma moved_within_may:
  assumes "moved_within (call_reaches cmd) c c'" "call_from cmd (cmp_state c)"
  shows "cmp_state c' = cmp_state c \<or> may_move cmd (cmp_state c) (cmp_state c')"
proof -
  have "(\<lambda>s t. t \<in> call_reaches cmd \<and> (\<exists>g. lifecycle_spec s t g))\<^sup>*\<^sup>* (cmp_state c) (cmp_state c')"
    using assms(1) by (simp add: moved_within_def)
  then have "cmp_state c = cmp_state c' \<or> may_move cmd (cmp_state c) (cmp_state c')"
    by (induction rule: rtranclp_induct) (use moves_closed assms(2) in blast)+
  then show ?thesis by auto
qed

lemma moved_within_none: "moved_within {} c c' \<Longrightarrow> cmp_id c' = cmp_id c \<and> cmp_state c' = cmp_state c"
  unfolding moved_within_def by (elim conjE, erule rtranclp.cases) simp_all

lemma evolves_Some: "evolves le born t t' \<Longrightarrow> table_get t k = Some c \<Longrightarrow> \<exists>c'. table_get t' k = Some c' \<and> le c c'"
  unfolding evolves_def by (drule spec [of _ k]) simp

lemma evolves_None:
  "evolves le born t t' \<Longrightarrow> table_get t k = None \<Longrightarrow> table_get t' k = Some c' \<Longrightarrow> \<exists>b. born b \<and> le b c'"
  unfolding evolves_def by (drule spec [of _ k]) simp

context campaign_order
begin

lemma keeps_commit_kind:
  assumes "call_reaches (Call_commit (wki_kind item)) \<subseteq> reached"
  shows "keeps le (wki_campaign item) (\<lambda>_. True) (commit_item item outcome) anything"
proof -
  have locked: "keeps le (wki_campaign item) (carried le (wki_campaign item) c) (commit_locked item outcome a c) anything" for a c
    using assms unfolding commit_locked_def
    by (cases "wki_kind item")
      (simp_all, (intro keeps_clock keeps_commit_prepare keeps_commit_activate keeps_commit_verify keeps_commit_rollback; simp)+)
  show ?thesis
    unfolding commit_item_def
  proof (rule keeps_stored, goal_cases)
    case (1 e c)
    then show ?case
      by (auto simp: store_campaign_get split: option.split sum.split
          intro!: keeps_done forgivings keeps_clock locked)
  next
    case (2 e)
    then show ?case
      by (auto simp: store_campaign_get quiet_def stop_def leaves_return split: option.split)
  qed
qed

end

lemma step_call:
  assumes "engine_step e e'" "keyed (engine_campaigns_table e)"
  shows "\<exists>cmd. performs cmd e e' \<and> (cmd \<noteq> Call_create \<longrightarrow>
      evolves (moved_within (call_reaches cmd)) (\<lambda>_. False) (engine_campaigns_table e) (engine_campaigns_table e')) \<and>
    (cmd = Call_create \<longrightarrow> evolves (moved_within {}) newborn (engine_campaigns_table e) (engine_campaigns_table e'))"
proof -
  note evolved = evolvingD [OF _ assms(2), THEN conjunct2]
  have other: "\<exists>cmd. performs cmd e e' \<and> (cmd \<noteq> Call_create \<longrightarrow>
      evolves (moved_within (call_reaches cmd)) (\<lambda>_. False) (engine_campaigns_table e) (engine_campaigns_table e')) \<and>
    (cmd = Call_create \<longrightarrow> evolves (moved_within {}) newborn (engine_campaigns_table e) (engine_campaigns_table e'))"
    if "quiet m" "run_state m e = (x, e')" for m :: "('a, 'b) engine_op" and x
    using evolved [OF campaign_order.evolving_quiet [OF within_order that(1)] that(2)] assms(1)
    by (intro exI [of _ Call_other]) simp
  show ?thesis
    using assms(1)
  proof (rule engine_stepE)
    fix req p assume r: "run_state (create_campaign req) e = (p, e')"
    from evolved [OF campaign_order.evolving_create [OF within_order] r] r show ?thesis
      by (intro exI [of _ Call_create]) (simp; blast)
  next
    fix cid digest revision report now r assume r: "run_state (preflight_commit cid digest revision report now) e = (r, e')"
    have "evolving (moved_within (call_reaches Call_preflight)) (\<lambda>_. False) (preflight_commit cid digest revision report now)"
      by (rule campaign_order.evolving_keeps [OF within_order campaign_order.keeps_preflight_commit [OF within_order]]) simp
    from evolved [OF this r] r show ?thesis by (intro exI [of _ Call_preflight]) (simp; blast)
  next
    fix cid options now c assume r: "run_state (start_admit cid options now) e = (c, e')"
    have "evolving (moved_within (call_reaches Call_start)) (\<lambda>_. False) (start_admit cid options now)"
      by (rule campaign_order.evolving_keeps [OF within_order campaign_order.keeps_start_admit [OF within_order]]) simp
    from evolved [OF this r] r show ?thesis by (intro exI [of _ Call_start]) (simp; blast)
  next
    fix cid reason r assume r: "run_state (pause cid reason) e = (r, e')"
    have "evolving (moved_within (call_reaches Call_pause)) (\<lambda>_. False) (pause cid reason)"
      by (rule campaign_order.evolving_pause [OF within_order]) simp
    from evolved [OF this r] r show ?thesis by (intro exI [of _ Call_pause]) (simp; blast)
  next
    fix cid r assume r: "run_state (resume cid) e = (r, e')"
    have "evolving (moved_within (call_reaches Call_resume)) (\<lambda>_. False) (resume cid)"
      by (rule campaign_order.evolving_resume [OF within_order]) simp
    from evolved [OF this r] r show ?thesis by (intro exI [of _ Call_resume]) (simp; blast)
  next
    fix cid reason r assume r: "run_state (abort cid reason) e = (r, e')"
    have "evolving (moved_within (call_reaches Call_abort)) (\<lambda>_. False) (abort cid reason)"
      by (rule campaign_order.evolving_abort [OF within_order]) simp
    from evolved [OF this r] r show ?thesis by (intro exI [of _ Call_abort]) (simp; blast)
  next
    fix cid execute r assume r: "run_state (rollback cid execute) e = (r, e')"
    have "evolving (moved_within (call_reaches Call_rollback)) (\<lambda>_. False) (rollback cid execute)"
      by (rule campaign_order.evolving_rollback [OF within_order]) simp
    from evolved [OF this r] r show ?thesis by (intro exI [of _ Call_rollback]) (simp; blast)
  next
    fix budget items assume r: "run_state (plan_work budget) e = (items, e')"
    have "evolving (moved_within (call_reaches Call_plan)) (\<lambda>_. False) (plan_work budget)"
      by (rule campaign_order.evolving_plan_work [OF within_order]) simp
    from evolved [OF this r] r show ?thesis by (intro exI [of _ Call_plan]) (simp; blast)
  next
    fix item outcome r assume r: "run_state (commit_item item outcome) e = (r, e')"
    let ?cmd = "Call_commit (wki_kind item)"
    have "evolving (moved_within (call_reaches ?cmd)) (\<lambda>_. False) (commit_item item outcome)"
      by (rule campaign_order.evolving_keeps [OF within_order campaign_order.keeps_commit_kind [OF within_order]]) simp
    from evolved [OF this r] r show ?thesis by (intro exI [of _ ?cmd]) (simp; blast)
  qed (rule other, rule quiet_steps, assumption)+
qed


text \<open>One call on one stored campaign.  The fence keeps the results of other states out.\<close>

lemma call_keeps_other_states:
  assumes "performs cmd e e'" "\<not> call_from cmd (cmp_state c)" "keyed (engine_campaigns_table e)"
    and "table_get (engine_campaigns_table e) k = Some c"
  shows "table_get (engine_campaigns_table e') k = Some c"
proof -
  obtain kind where "cmd = Call_commit kind" "\<not> state_accepts kind (cmp_state c)" using assms(2) by (cases cmd) auto
  with assms(1) obtain item outcome r where run: "run_state (commit_item item outcome) e = (r, e')"
    "\<not> state_accepts (wki_kind item) (cmp_state c)" by auto
  have "engine_campaigns_table e' = engine_campaigns_table e \<or> k \<noteq> wki_campaign item"
  proof (cases "fence_holds e item")
    case False
    with fenced_unchanged [OF run(1)] show ?thesis by (simp add: tables_def)
  next
    case True
    with run(2) assms(4) show ?thesis by (auto simp: fence_holds_def store_campaign_get)
  qed
  then show ?thesis
    using keepsD [OF campaign_order.keeps_commit_kind [OF within_order subset_refl] assms(3) _ run(1)] assms(4)
    by (auto simp: evolves_at_def)
qed

lemma call_moves:
  assumes "performs cmd e e'" "keyed (engine_campaigns_table e)" "table_get (engine_campaigns_table e) k = Some c"
    and "cmd \<noteq> Call_create \<longrightarrow>
      evolves (moved_within (call_reaches cmd)) (\<lambda>_. False) (engine_campaigns_table e) (engine_campaigns_table e')"
    and "cmd = Call_create \<longrightarrow> evolves (moved_within {}) newborn (engine_campaigns_table e) (engine_campaigns_table e')"
  shows "\<exists>c'. table_get (engine_campaigns_table e') k = Some c' \<and> cmp_id c' = cmp_id c \<and>
    (cmp_state c' = cmp_state c \<or> may_move cmd (cmp_state c) (cmp_state c'))"
proof (cases "cmd = Call_create")
  case True
  from evolves_Some [OF mp [OF assms(5) True] assms(3)] moved_within_none show ?thesis by blast
next
  case other: False
  from evolves_Some [OF mp [OF assms(4) other] assms(3)] obtain c' where
    c': "table_get (engine_campaigns_table e') k = Some c'" "moved_within (call_reaches cmd) c c'" by blast
  show ?thesis
  proof (cases "call_from cmd (cmp_state c)")
    case True
    from moved_within_may [OF c'(2) this] c' show ?thesis by (simp add: moved_within_def)
  next
    case False
    from call_keeps_other_states [OF assms(1) this assms(2,3)] show ?thesis by simp
  qed
qed

lemma call_creates:
  assumes "table_get (engine_campaigns_table e) k = None" "table_get (engine_campaigns_table e') k = Some c'"
    and "cmd \<noteq> Call_create \<longrightarrow>
      evolves (moved_within (call_reaches cmd)) (\<lambda>_. False) (engine_campaigns_table e) (engine_campaigns_table e')"
    and "cmd = Call_create \<longrightarrow> evolves (moved_within {}) newborn (engine_campaigns_table e) (engine_campaigns_table e')"
  shows "cmd = Call_create \<and> cmp_state c' = US_proposed"
proof (cases "cmd = Call_create")
  case True
  from evolves_None [OF mp [OF assms(4) True] assms(1,2)] moved_within_none newborn_def True show ?thesis by metis
next
  case False
  from evolves_None [OF mp [OF assms(3) False] assms(1,2)] show ?thesis by simp
qed


end
