(* ===== verification/Engine_Samples.thy ===== *)
theory Engine_Samples
  imports Engine_Recovery Engine_Moves Engine_Limits
begin

text \<open>
  A small engine on a healthy disk, and the witnesses of the properties of the engine: one store whose
  process stopped in the middle of an activation, one whose last target is being verified.
\<close>

subsection \<open>Room in a journal\<close>

text \<open>A bound on the text of a value that does not look at the characters of its strings.\<close>

function json_weight :: "json \<Rightarrow> nat" where
  "json_weight JNull = 4"
| "json_weight (JBool b) = 5"
| "json_weight (JInt i) = (if \<bar>i\<bar> < 10 ^ 19 then 20 else length (int_to_string i))"
| "json_weight (JUint w) = 20"
| "json_weight (JReal r) = length (append_real r)"
| "json_weight (JString s) = 6 * length s + 2"
| "json_weight (JArray xs) = 2 + sum_list (map (\<lambda>x. Suc (json_weight x)) xs)"
| "json_weight (JObject ms) = 2 + sum_list (map (\<lambda>m. 6 * length (fst m) + 4 + json_weight (snd m)) ms)"
  by pat_completeness auto
termination
proof (relation "measure size", goal_cases)
  case (2 xs x)
  then show ?case by (simp add: size_list_estimation' less_Suc_eq_le)
next
  case (3 ms m)
  then have "m \<in> set ms" by simp
  then have "size (snd m) < size_list (size_prod (\<lambda>_. 0) size) ms"
    by (rule size_list_estimation) (cases m, simp)
  then show ?case by simp
qed simp

lemma length_join_with: "length (join_with '','' ss) \<le> sum_list (map (\<lambda>s. Suc (length s)) ss)"
  by (induction "'',''" ss rule: join_with.induct) simp_all

lemma length_u64_to_string: "length (u64_to_string w) \<le> 20"
proof -
  have "unat w < 2 ^ LENGTH(64)" by (rule unsigned_less)
  then have "unat w < 10 ^ Suc 19" by simp
  from length_dec_digits_le [OF this] show ?thesis by (simp add: u64_to_string_def)
qed

lemma length_int_to_string:
  assumes "\<bar>i\<bar> < 10 ^ 19"
  shows "length (int_to_string i) \<le> 20"
proof -
  have "nat i < 10 ^ Suc 18" "nat (- i) < 10 ^ Suc 18" using assms by simp_all
  from this [THEN length_dec_digits_le] show ?thesis by (simp add: int_to_string_def)
qed

lemma length_append_escaped: "length (append_escaped s) \<le> 6 * length s + 2"
  using append_escaped_bound [of s] by (simp add: append_escaped_def)

lemma json_dump_weight: "length (json_dump_at 0 d v) \<le> json_weight v"
proof (induction v arbitrary: d rule: json_weight.induct)
  case (7 xs)
  have "sum_list (map (\<lambda>x. Suc (length (json_dump_at 0 (d + 1) x))) xs) \<le> sum_list (map (\<lambda>x. Suc (json_weight x)) xs)"
    by (rule sum_list_mono) (use 7 in simp)
  then show ?case
    using length_join_with [of "map (json_dump_at 0 (d + 1)) xs"] by (simp add: json_pad_def comp_def)
next
  case (8 ms)
  let ?f = "\<lambda>m. append_escaped (fst m) @ '':'' @ json_dump_at 0 (d + 1) (snd m)"
  have "sum_list (map (\<lambda>m. Suc (length (?f m))) ms) \<le> sum_list (map (\<lambda>m. 6 * length (fst m) + 4 + json_weight (snd m)) ms)"
  proof (rule sum_list_mono)
    fix m assume "m \<in> set ms"
    from 8 [OF this, of "d + 1"] length_append_escaped [of "fst m"]
    show "Suc (length (?f m)) \<le> 6 * length (fst m) + 4 + json_weight (snd m)" by simp
  qed
  then show ?case
    using length_join_with [of "map ?f ms"] by (simp add: json_pad_def comp_def)
next
  case (6 s)
  show ?case using length_append_escaped [of s] by simp
qed (simp_all add: length_u64_to_string length_int_to_string)

definition has_room :: "journal \<Rightarrow> nat \<Rightarrow> bool" where
  "has_room j n \<longleftrightarrow>
     jnl_open j \<and> \<not> jnl_tail_damaged j \<and> jnl_options j = default_journal_options \<and> fw_open (jnl_writer j) \<and>
     writer_wf (jnl_writer j) \<and> fw_limit (jnl_writer j) = 536870912 \<and> length (jnl_records j) = n \<and>
     jnl_last_sequence j = word_of_nat n \<and> length (jnl_chain j) \<le> 64 \<and>
     length (fw_bytes (jnl_writer j)) \<le> 24 + 110000 * n"

lemma record_body_weight:
  assumes "length (to_iso8601 t) \<le> 40" "length chain \<le> 64"
  shows "length (record_body q k t chain data) \<le> 1000 + json_weight data"
proof -
  have k: "length (journal_record_type_name k) \<le> 10" by (cases k) simp_all
  have "length (record_body q k t chain data) \<le> json_weight (record_json q k t chain data)"
    unfolding record_body_json json_dump_def by (rule json_dump_weight)
  also have "\<dots> \<le> 1000 + json_weight data"
    using assms k by (simp add: record_json_def)
  finally show ?thesis .
qed

lemma has_room_append:
  assumes "has_room j n" "n \<le> 1000" "json_weight data \<le> 100000" "length (to_iso8601 t) \<le> 40"
  obtains j' where "journal_append Disk_ok j k data t = (Inr (), j')" "has_room j' (Suc n)"
proof -
  have room: "jnl_open j" "\<not> jnl_tail_damaged j" "jnl_options j = default_journal_options" "fw_open (jnl_writer j)"
    "writer_wf (jnl_writer j)" "fw_limit (jnl_writer j) = 536870912" "length (jnl_records j) = n"
    "jnl_last_sequence j = word_of_nat n" "length (jnl_chain j) \<le> 64" "length (fw_bytes (jnl_writer j)) \<le> 24 + 110000 * n"
    using assms(1) by (simp_all add: has_room_def)
  have body: "length (record_body (jnl_last_sequence j + 1) k t (jnl_chain j) data) \<le> 101000"
    using record_body_weight [OF assms(4) room(9), of "jnl_last_sequence j + 1" k data] assms(3) by linarith
  then have frame: "length (record_frame (jnl_chain j) (next_record j k data t)) \<le> 101044"
    by (simp add: next_record_frame Let_def frame_bytes_def record_magic_def length_sha256)
  have "unat (jnl_last_sequence j) = n" using assms(2) by (simp add: room(8) unat_of_nat take_bit_nat_eq_self)
  then have q: "jnl_last_sequence j \<noteq> u64_max" using assms(2) by auto
  have space: "length (fw_bytes (jnl_writer j)) + length (record_frame (jnl_chain j) (next_record j k data t))
        \<le> unat (jop_max_file_bytes (jnl_options j))"
    using room(10) frame assms(2) by (simp add: room(3) default_journal_options_def)
  have size: "length (record_body (jnl_last_sequence j + 1) k t (jnl_chain j) data) \<le> unat (jop_max_record_bytes (jnl_options j))"
    using body by (simp add: room(3) default_journal_options_def)
  have opts: "options_ok (jnl_options j)" by (simp add: room(3) default_options_ok)
  have limit: "fw_limit (jnl_writer j) = jop_max_file_bytes (jnl_options j)"
    by (simp add: room(3,6) default_journal_options_def)
  have count: "length (jnl_records j) < jop_max_records (jnl_options j)"
    using assms(2) by (simp add: room(3,7) default_journal_options_def)
  from append_healthy(2) [OF room(1,2) opts room(4,5) limit q count size space]
  obtain j' where j': "journal_append Disk_ok j k data t = (Inr (), j')"
    "writer_append Disk_ok (jnl_writer j) (record_frame (jnl_chain j) (next_record j k data t)) = (Inr (), jnl_writer j')"
    by blast
  obtain w' where fields: "j' = j\<lparr>jnl_writer := w', jnl_records := jnl_records j @ [next_record j k data t],
       jnl_recovery := (jnl_recovery j)\<lparr>rcv_records_replayed := length (jnl_records j) + 1,
         rcv_empty := False, rcv_last_sequence := jnl_last_sequence j + 1\<rparr>,
       jnl_chain := jrc_chain (next_record j k data t), jnl_last_sequence := jnl_last_sequence j + 1\<rparr>"
    by (rule write_record_acknowledged [OF j'(1) [unfolded journal_append_def]])
  have "length (record_frame (jnl_chain j) (next_record j k data t)) < 2 ^ 64" using frame by simp
  note written = writer_append_ok [OF j'(2) room(5) this]
  have "has_room j' (Suc n)"
    unfolding has_room_def
    using room frame written
    by (simp add: fields next_record_def Let_def digest_of_text_def length_sha256_hex)
  with j'(1) show thesis by (rule that)
qed

lemma blank_journal_room: "has_room (blank_journal path) 0"
  by (simp add: has_room_def blank_journal_def sample_empty_def writer_wf_def length_file_header header_bytes_def)


subsection \<open>The engine\<close>

definition sample_config :: engine_config where
  "sample_config = \<lparr>cfg_store = sample_options, cfg_policy = sample_policy, cfg_executor = EX_deterministic_inline,
     cfg_worker_threads = 1, cfg_max_queue = 16, cfg_max_work_items = 64, cfg_max_iterations = 100,
     cfg_require_health_gate = True\<rparr>"

definition sample_deps :: "unit dependencies" where
  "sample_deps = \<lparr>dep_inventory = Some (\<lambda>now i w. (Inr (inv_targets sample_inventory), w)), dep_compatibility = None,
     dep_rollout = None, dep_drain = None, dep_configuration = None, dep_health = None, dep_artifacts = None,
     dep_adapters = [], dep_clock = Some (\<lambda>w. (2000, w))\<rparr>"

definition sample_platform :: "unit platform" where
  "sample_platform = \<lparr>plf_system_clock = (\<lambda>w. (2000, w)), plf_disk = (\<lambda>w. (Disk_ok, w)),
     plf_artifact_file = (\<lambda>p w. ((fail EC_io_error [] [], None), w)), plf_directory = (\<lambda>p w. (ok_status, w)),
     plf_journal_file = (\<lambda>p w. (None, w)), plf_rewrite = (\<lambda>p w. (ok_status, w)), plf_submit = (\<lambda>w. (ok_status, w)),
     plf_process_id = ''1''\<rparr>"

definition small_stage :: stage_plan where
  "small_stage = \<lparr>stg_id = ''s1'', stg_name = ''s1'', stg_targets = [''a1''], stg_steps = [],
     stg_requires_service_removal = False, stg_redundancy_group = [], stg_max_parallel = 1\<rparr>"

definition small_campaign :: "upgrade_state \<Rightarrow> campaign_record" where
  "small_campaign s = sample_campaign\<lparr>cmp_id := ''camp'', cmp_state := s, cmp_artifact := sample_artifact,
     cmp_plan := empty_plan\<lparr>pln_campaign := ''camp'', pln_stages := [small_stage]\<rparr>,
     cmp_stages := [\<lparr>spg_id = ''s1'', spg_state = SS_activating, spg_attempts = [''a''], spg_started_at = 0,
       spg_completed_at = 0, spg_detail = []\<rparr>], cmp_ticket := no_ticket, cmp_failure_reason := [],
     cmp_last_skew := skew_initial\<rparr>"

definition small_attempt :: "attempt_state \<Rightarrow> attempt_record" where
  "small_attempt s = sample_attempt\<lparr>att_id := ''a'', att_campaign := ''camp'', att_stage := ''s1'', att_target := ''a1'',
     att_state := s\<rparr>"

definition small_store :: "campaign_record \<Rightarrow> attempt_record list \<Rightarrow> durable_store" where
  "small_store c as = (new_store sample_options (blank_journal ''d/journal.fum''))
     \<lparr>dst_campaigns := [(cmp_id c, c)], dst_attempts := map (\<lambda>a. (att_id a, a)) as\<rparr>"

definition small_engine :: "unit engine" where
  "small_engine = new_engine sample_config sample_deps sample_platform ()"

text \<open>What the steps of the witnesses keep.\<close>

definition running :: "unit engine \<Rightarrow> nat \<Rightarrow> bool" where
  "running e n \<longleftrightarrow> eng_platform e = sample_platform \<and> eng_deps e = sample_deps \<and>
     has_room (dst_journal (eng_store e)) n"

lemma world_unit [simp]: "eng_world_update f (e :: unit engine) = e"
  by (cases e) simp

lemma sample_clock: "running e n \<Longrightarrow> run_state clock_now e = (2000, e)"
  by (simp add: running_def clock_now_def reads_def call_def sample_deps_def)

lemma sample_store_op:
  "running e n \<Longrightarrow> run_state (store_op f) e = (case f Disk_ok (eng_store e) of (r, st) \<Rightarrow> (r, e\<lparr>eng_store := st\<rparr>))"
  by (simp add: running_def store_op_def reads_def call_def sample_platform_def split: prod.split)

lemma iso_2000: "length (to_iso8601 2000) \<le> 40"
  by code_simp

lemma append_then_room:
  assumes "running e n" "n \<le> 1000" "json_weight payload \<le> 100000"
  shows "\<exists>j. has_room j (Suc n) \<and>
    (\<forall>f. append_then Disk_ok (eng_store e) k payload 2000 f = (Inr (), f (eng_store e\<lparr>dst_journal := j\<rparr>)))"
proof -
  have "has_room (dst_journal (eng_store e)) n" using assms(1) by (simp add: running_def)
  from has_room_append [OF this assms(2,3) iso_2000, of k] obtain j where
    "journal_append Disk_ok (dst_journal (eng_store e)) k payload 2000 = (Inr (), j)" "has_room j (Suc n)" by blast
  then show ?thesis by (intro exI [where x = j]) (simp add: append_then_def)
qed

lemma store_op_room:
  assumes "running e n" "n \<le> 1000" "json_weight payload \<le> 100000"
    and "f Disk_ok (eng_store e) = append_then Disk_ok (eng_store e) k payload 2000 g"
  shows "\<exists>j. has_room j (Suc n) \<and>
    run_state (store_op f) e = (Inr (), e\<lparr>eng_store := g (eng_store e\<lparr>dst_journal := j\<rparr>)\<rparr>)"
proof -
  from append_then_room [OF assms(1-3), of k] obtain j where
    "has_room j (Suc n)" "append_then Disk_ok (eng_store e) k payload 2000 g = (Inr (), g (eng_store e\<lparr>dst_journal := j\<rparr>))"
    by blast
  then show ?thesis by (intro exI [where x = j]) (simp add: sample_store_op [OF assms(1)] assms(4))
qed

lemma put_campaign_room:
  assumes "running e n" "n \<le> 1000" "json_weight (json_build [(''campaign'', campaign_to_json c)]) \<le> 100000"
    and "table_get (engine_campaigns_table e) (cmp_id c) = Some b"
  obtains j where "run_state (engine_put_campaign c 2000) e = (Inr (), e\<lparr>eng_store := rebuild_stats ((eng_store e)
      \<lparr>dst_journal := j, dst_campaigns := table_put (engine_campaigns_table e) (cmp_id c) c\<rparr>)\<rparr>)" "has_room j (Suc n)"
proof -
  have "put_campaign Disk_ok (eng_store e) c 2000 = append_then Disk_ok (eng_store e) JT_campaign
      (json_build [(''campaign'', campaign_to_json c)]) 2000
      (\<lambda>s. rebuild_stats (s\<lparr>dst_campaigns := table_put (dst_campaigns s) (cmp_id c) c\<rparr>))"
    using assms(4) by (simp add: put_campaign_def)
  from store_op_room [OF assms(1-3), of "\<lambda>d st. put_campaign d st c 2000", OF this] that show thesis
    by (auto simp: engine_put_campaign_def)
qed

lemma put_attempt_room:
  assumes "running e n" "n \<le> 1000" "json_weight (json_build [(''attempt'', attempt_to_json a)]) \<le> 100000"
    and "table_get (engine_attempts_table e) (att_id a) = Some b"
  obtains j where "run_state (engine_put_attempt a 2000) e = (Inr (), e\<lparr>eng_store := rebuild_stats ((eng_store e)
      \<lparr>dst_journal := j, dst_attempts := table_put (engine_attempts_table e) (att_id a) a\<rparr>)\<rparr>)" "has_room j (Suc n)"
proof -
  have "put_attempt Disk_ok (eng_store e) a 2000 = append_then Disk_ok (eng_store e) JT_attempt
      (json_build [(''attempt'', attempt_to_json a)]) 2000
      (\<lambda>s. rebuild_stats (s\<lparr>dst_attempts := table_put (dst_attempts s) (att_id a) a\<rparr>))"
    using assms(4) by (simp add: put_attempt_def)
  from store_op_room [OF assms(1-3), of "\<lambda>d st. put_attempt d st a 2000", OF this] that show thesis
    by (auto simp: engine_put_attempt_def)
qed

lemma set_epoch_room:
  assumes "running e n" "n \<le> 1000" "dst_epoch (eng_store e) < epoch"
  obtains j where "run_state (store_op (\<lambda>d st. set_epoch d st epoch 2000)) e = (Inr (), e\<lparr>eng_store := rebuild_stats ((eng_store e)
      \<lparr>dst_journal := j, dst_epoch := epoch\<rparr>)\<rparr>)" "has_room j (Suc n)"
proof -
  have "set_epoch Disk_ok (eng_store e) epoch 2000 = append_then Disk_ok (eng_store e) JT_epoch
      (json_build [(''epoch'', JUint epoch)]) 2000 (\<lambda>s. rebuild_stats (s\<lparr>dst_epoch := epoch\<rparr>))"
    using assms(3) by (auto simp: set_epoch_def)
  moreover have "json_weight (json_build [(''epoch'', JUint epoch)]) \<le> 100000" by (simp add: json_build_eq)
  ultimately show thesis
    using store_op_room [OF assms(1,2), of _ "\<lambda>d st. set_epoch d st epoch 2000"] that by fastforce
qed

lemma put_policy_room:
  assumes "running e n" "n \<le> 1000" "json_weight (json_build [(''policy'', policy_to_json p)]) \<le> 100000"
  obtains j where "run_state (store_op (\<lambda>d st. put_policy d st p 2000)) e = (Inr (), e\<lparr>eng_store := (eng_store e)
      \<lparr>dst_journal := j, dst_policies := table_put (dst_policies (eng_store e)) (pol_id p) p\<rparr>\<rparr>)" "has_room j (Suc n)"
proof -
  have "put_policy Disk_ok (eng_store e) p 2000 = append_then Disk_ok (eng_store e) JT_policy
      (json_build [(''policy'', policy_to_json p)]) 2000
      (\<lambda>s. s\<lparr>dst_policies := table_put (dst_policies s) (pol_id p) p\<rparr>)"
    by (simp add: put_policy_def)
  from store_op_room [OF assms, of "\<lambda>d st. put_policy d st p 2000", OF this] that show thesis by auto
qed

lemma iso_length: "length (to_iso8601 2000) = 30" "length (to_iso8601 0) = 30"
  by code_simp+

lemma text_lengths:
  "length (version_text_of 1 2 0 []) = 5" "length (version_text_of 1 1 0 []) = 5" "length (version_text_of 1 0 0 []) = 5"
  by (simp_all add: version_text_of_def u32_to_string_def dec_digits_small)

lemmas weigh = text_lengths json_build_eq attempt_to_json_def campaign_to_json_def policy_to_json_def artifact_to_json_def plan_to_json_def
  stage_to_json_def progress_to_json_def millis_json_def c_div_def skew_to_json_def schema_to_json_def rollback_to_json_def iso_length

lemmas empties = empty_artifact_def empty_plan_def no_rollback_def default_skew_budget_def no_signer_def sig_declared_def
  empty_version_def from_seconds_def sample_artifact_def make_version_def no_ticket_def

lemma sample_policy_weight: "json_weight (json_build [(''policy'', policy_to_json sample_policy)]) \<le> 100000"
  by (simp add: weigh empties sample_policy_def default_policy_def)

subsection \<open>Opening after a crash\<close>

text \<open>The process stopped while the campaign was activating: opening blocks it.\<close>

lemma small_store_fields:
  "dst_epoch (small_store c as) = 1" "dst_incarnation (small_store c as) = 1"
  "dst_campaigns (small_store c as) = [(cmp_id c, c)]" "dst_attempts (small_store c as) = map (\<lambda>a. (att_id a, a)) as"
  "dst_journal (small_store c as) = blank_journal ''d/journal.fum''"
  by (simp_all add: small_store_def new_store_def)

lemma blocked_after_crash:
  obtains e :: "unit engine" and c where
    "run_state (adopt_store (small_store (small_campaign US_activating) []) 2000) small_engine = (Inr (), e)"
    "table_get (engine_campaigns_table e) ''camp'' = Some c" "cmp_state c = US_blocked"
proof -
  let ?c = "small_campaign US_activating" and ?st = "small_store (small_campaign US_activating) []"
  let ?e0 = "small_engine\<lparr>eng_store := ?st, eng_incarnation := 1, eng_epoch := 2\<rparr>"
  have id: "cmp_id ?c = ''camp''" by (simp add: small_campaign_def)
  have r0: "running ?e0 0"
    by (simp add: running_def small_engine_def new_engine_def small_store_fields blank_journal_room)
  have p: "eng_policy ?e0 = sample_policy" "cfg_executor (eng_config ?e0) = EX_deterministic_inline"
    by (simp_all add: small_engine_def new_engine_def sample_config_def)
  obtain j1 where j1: "run_state (store_op (\<lambda>d st. set_epoch d st 2 2000)) ?e0 = (Inr (), ?e0\<lparr>eng_store := rebuild_stats (?st
      \<lparr>dst_journal := j1, dst_epoch := 2\<rparr>)\<rparr>)" "has_room j1 (Suc 0)"
    using set_epoch_room [OF r0, of 2] by (auto simp: small_store_fields)
  let ?e1 = "?e0\<lparr>eng_store := rebuild_stats (?st\<lparr>dst_journal := j1, dst_epoch := 2\<rparr>)\<rparr>"
  have r1: "running ?e1 (Suc 0)"
    using j1(2) r0 by (simp add: running_def rebuild_stats_def)
  obtain j2 where j2: "run_state (store_op (\<lambda>d st. put_policy d st sample_policy 2000)) ?e1 = (Inr (), ?e1\<lparr>eng_store :=
      (eng_store ?e1)\<lparr>dst_journal := j2, dst_policies := table_put (dst_policies (eng_store ?e1)) (pol_id sample_policy) sample_policy\<rparr>\<rparr>)"
    "has_room j2 (Suc (Suc 0))"
    by (rule put_policy_room [OF r1 _ sample_policy_weight]) simp
  define e2 where "e2 = ?e1\<lparr>eng_store :=
      (eng_store ?e1)\<lparr>dst_journal := j2, dst_policies := table_put (dst_policies (eng_store ?e1)) (pol_id sample_policy) sample_policy\<rparr>\<rparr>"
  have e2: "running e2 (Suc (Suc 0))" "engine_campaigns_table e2 = [(''camp'', ?c)]" "engine_attempts_table e2 = []"
    "eng_incarnation e2 = 1" "cfg_executor (eng_config e2) = EX_deterministic_inline"
    using r1 j2(2) p by (simp_all add: e2_def running_def rebuild_stats_def small_store_fields id)
  define why where "why = ''campaign was activating when incarnation '' @ u64_to_string 3 @
    '' stopped; it is blocked until an operator resumes it under a fresh preflight''"
  have plan: "plan_reconciliation (store_campaigns (eng_store e2)) (store_attempts (eng_store e2)) 1 2000 =
      \<lparr>rcr_actions = [\<lparr>rca_kind = RK_block_campaign, rca_subject = ''camp'', rca_reason = why\<rparr>], rcr_abandoned = 0,
        rcr_blocked = 1, rcr_invalidated = 0, rcr_incarnation = 1\<rparr>"
    by (simp add: plan_reconciliation_def store_campaigns_def store_attempts_def table_list_def e2 reconcile_block_def
        reconcile_ticket_def campaign_interrupted_def ticket_lapsed_def small_campaign_def sample_campaign_def no_ticket_def
        why_def Let_def)
  define e3 where "e3 = e2\<lparr>eng_reconciliation := \<lparr>rcr_actions = [\<lparr>rca_kind = RK_block_campaign, rca_subject = ''camp'', rca_reason = why\<rparr>],
    rcr_abandoned = 0, rcr_blocked = 1, rcr_invalidated = 0, rcr_incarnation = 1\<rparr>\<rparr>"
  have e3: "running e3 (Suc (Suc 0))" "engine_campaigns_table e3 = [(''camp'', ?c)]"
    using e2 by (simp_all add: e3_def running_def)
  let ?b = "?c\<lparr>cmp_block_reason := why, cmp_failure_reason := why\<rparr>"
  let ?g = "(guards_at e3 2000 ?c)\<lparr>g_failure_recorded := True\<rparr>"
  let ?m = "moved_campaign ?b US_blocked 2000"
  have guards: "run_state (guards_locked ?c) e3 = (guards_at e3 2000 ?c, e3)"
    by (simp add: guards_locked_def sample_clock [OF e3(1)] reads_def)
  have allowed: "tv_allowed (evaluate_transition US_activating US_blocked ?g)"
    by (simp add: evaluate_transition_spec)
  have weight: "json_weight (json_build [(''campaign'', campaign_to_json ?m)]) \<le> 100000"
    using length_u64_to_string [of 3]
    by (simp add: weigh empties moved_campaign_def small_campaign_def sample_campaign_def small_stage_def why_def)
  have there: "table_get (engine_campaigns_table e3) (cmp_id ?m) = Some ?c"
    by (simp add: e3(2) table_get_def moved_campaign_def id)
  obtain j3 where j3: "run_state (engine_put_campaign ?m 2000) e3 = (Inr (), e3\<lparr>eng_store := rebuild_stats ((eng_store e3)
      \<lparr>dst_journal := j3, dst_campaigns := table_put (engine_campaigns_table e3) (cmp_id ?m) ?m\<rparr>)\<rparr>)"
    by (rule put_campaign_room [OF e3(1) _ weight there]) simp_all
  let ?e4 = "e3\<lparr>eng_store := rebuild_stats ((eng_store e3)
      \<lparr>dst_journal := j3, dst_campaigns := table_put (engine_campaigns_table e3) (cmp_id ?m) ?m\<rparr>)\<rparr>"
  obtain e5 where e5: "run_state (decide (decision_kind_for US_blocked) ?m DO_allow (''enter '' @ upgrade_state_name US_blocked)
      (tv_reason (evaluate_transition US_activating US_blocked ?g)) [] [] []) ?e4 = ((), e5)"
    by (cases "run_state (decide (decision_kind_for US_blocked) ?m DO_allow (''enter '' @ upgrade_state_name US_blocked)
      (tv_reason (evaluate_transition US_activating US_blocked ?g)) [] [] []) ?e4") auto
  have kept: "engine_campaigns_table e5 = table_put (engine_campaigns_table e3) (cmp_id ?m) ?m"
    using leavesD [OF decide_tables(1) e5] by (simp add: tables_def rebuild_stats_def)
  have state: "cmp_state ?b = US_activating" by (simp add: small_campaign_def)
  have moved: "run_state (try_move ?b US_blocked ?g (\<lambda>c. ok_op ())) e3 = (Inr (), e5)"
    using allowed state e5
    by (simp add: try_move_def transition_locked_def sample_clock [OF e3(1)] j3 Let_def ok_op_def)
  have one: "run_state (reconcile_one 2000 \<lparr>rca_kind = RK_block_campaign, rca_subject = ''camp'', rca_reason = why\<rparr>) e3 =
      (Inr (), e5)"
    using moved by (simp add: reconcile_one_def reconcile_interrupted_def reads_def store_campaign_def e3(2) table_get_def guards)
  have recon: "run_state (apply_reconciliation 2000) e2 = (Inr (), e5)"
    using one by (simp add: apply_reconciliation_def reads_def changes_def plan e2(4) Let_def try_op_def ok_op_def e3_def)
  have "run_state (adopt_store ?st 2000) small_engine = (Inr (), e5)"
    using j1(1) j2(1) recon e2(5) p
    by (simp add: adopt_store_def changes_def reads_def small_store_fields counter_try_next_def try_op_def e2_def)
  moreover have "table_get (engine_campaigns_table e5) ''camp'' = Some ?m"
    by (simp add: kept e3(2) table_get_def table_put_def moved_campaign_def id)
  moreover have "cmp_state ?m = US_blocked" by (simp add: moved_campaign_def)
  ultimately show thesis by (rule that)
qed


lemma small_store_keyed: "keyed (dst_campaigns (small_store c as))"
  by (simp add: keyed_def table_ok_def small_store_fields table_get_def)

lemma small_campaign_id [simp]: "cmp_id (small_campaign s) = ''camp''" "cmp_state (small_campaign s) = s"
  by (simp_all add: small_campaign_def)

lemma small_store_get [simp]:
  "table_get (dst_campaigns (small_store (small_campaign s) as)) k = (if k = ''camp'' then Some (small_campaign s) else None)"
  by (simp add: small_store_fields table_get_def)

theorem engine_stages_fit_plan_witness:
  "\<exists>(e :: unit engine) c. engine_run (small_store (small_campaign US_activating) []) e \<and>
     table_get (dst_campaigns (eng_store e)) ''camp'' = Some c \<and> cmp_state c = US_blocked \<and> staged_well c \<and>
     cmp_plan c = cmp_plan (small_campaign US_activating)"
proof -
  obtain e :: "unit engine" and c where e:
    "run_state (adopt_store (small_store (small_campaign US_activating) []) 2000) small_engine = (Inr (), e)"
    "table_get (engine_campaigns_table e) ''camp'' = Some c" "cmp_state c = US_blocked"
    by (rule blocked_after_crash)
  have run: "engine_run (small_store (small_campaign US_activating) []) e" by (rule engine_run.opened [OF e(1)])
  have "staged_well (small_campaign US_activating)"
    by (simp add: staged_well_def small_campaign_def small_stage_def sample_campaign_def)
  then have "\<forall>k b. table_get (dst_campaigns (small_store (small_campaign US_activating) [])) k = Some b \<longrightarrow> staged_well b"
    by simp
  from engine_stages_fit_plan [OF run small_store_keyed this e(2)] run e(2,3) show ?thesis by auto
qed

theorem opening_settles_campaigns_witness:
  "\<exists>(e :: unit engine) c. table_get (dst_campaigns (eng_store e)) ''camp'' = Some c \<and> \<not> campaign_interrupted (cmp_state c) \<and>
     run_state (adopt_store (small_store (small_campaign US_activating) []) 2000) small_engine = (Inr (), e)"
proof -
  obtain e :: "unit engine" where e:
    "run_state (adopt_store (small_store (small_campaign US_activating) []) 2000) small_engine = (Inr (), e)"
    by (rule blocked_after_crash) blast
  have "table_get (dst_campaigns (small_store (small_campaign US_activating) [])) ''camp'' = Some (small_campaign US_activating)"
    by simp
  from opening_settles_campaigns [OF e small_store_keyed this] e show ?thesis by blast
qed


subsection \<open>A stale result\<close>

definition small_item :: "operation_kind \<Rightarrow> work_item" where
  "small_item k = \<lparr>wki_kind = k, wki_campaign = ''camp'', wki_generation = 1, wki_epoch = 2, wki_stage = ''s1'',
     wki_target = ''a1'', wki_attempt = ''a'', wki_artifact = sample_artifact, wki_descriptor = sample_target ''a1'' ''left'',
     wki_strategy = SK_in_place, wki_payload_path = [], wki_rollout_change = [], wki_service_removal = False\<rparr>"

definition verifying_engine :: "u64 \<Rightarrow> unit engine" where
  "verifying_engine i = small_engine
     \<lparr>eng_store := small_store (small_campaign US_verifying) [small_attempt AS_verifying], eng_incarnation := i\<rparr>"

lemma verifying_engine_fields:
  "eng_incarnation (verifying_engine i) = i" "eng_policy (verifying_engine i) = sample_policy"
  "engine_attempts_table (verifying_engine i) = [(''a'', small_attempt AS_verifying)]"
  "engine_campaigns_table (verifying_engine i) = [(''camp'', small_campaign US_verifying)]"
  by (simp_all add: verifying_engine_def small_engine_def new_engine_def sample_config_def small_store_fields small_attempt_def)

text \<open>The attempt of incarnation 1 reports to incarnation 2.\<close>

theorem stale_result_fenced_witness:
  "\<exists>e' err. run_state (commit_item (small_item OP_verify) (no_outcome OP_verify)) (verifying_engine 2) = (Inl err, e') \<and>
     err_code err = EC_fenced \<and> dst_attempts (eng_store e') = [(''a'', small_attempt AS_verifying)]"
proof -
  obtain r e' where run: "run_state (commit_item (small_item OP_verify) (no_outcome OP_verify)) (verifying_engine 2) = (r, e')"
    by (metis surj_pair)
  have "\<not> fence_holds (verifying_engine 2) (small_item OP_verify)"
    by (simp add: fence_holds_def verifying_engine_fields small_item_def store_attempt_def table_get_def small_attempt_def
        sample_attempt_def)
  from stale_result_fenced [OF run this] run show ?thesis by (auto simp: verifying_engine_fields)
qed

subsection \<open>A completion\<close>

definition small_outcome :: operation_outcome where
  "small_outcome = (no_outcome OP_verify)\<lparr>opo_verify := \<lparr>vo_verified = True, vo_healthy = True,
     vo_observed_version = make_version 1 2 0 [], vo_observed_build = ''build-2'', vo_checks = [], vo_detail = [],
     vo_observed_at = 2000, vo_validity = from_seconds 60, vo_incarnation = 1\<rparr>\<rparr>"

lemma append_provenance_room:
  assumes "running e n" "n \<le> 1000" "length (dst_provenance (eng_store e)) < sto_max_provenance (dst_options (eng_store e))"
    "dst_sequence (eng_store e) = 0" "dst_chain (eng_store e) = []"
    and p: "\<And>d. length d = 64 \<Longrightarrow> json_weight (provenance_to_json (p\<lparr>prov_sequence := 1, prov_previous := [], prov_chain := d\<rparr>)) \<le> 50000"
  obtains j r where "run_state (store_op (\<lambda>d st. let (status, p, st') = append_provenance d st p 2000 in (status, st'))) e =
      (Inr (), e\<lparr>eng_store := rebuild_stats ((eng_store e)\<lparr>dst_journal := j,
        dst_provenance := dst_provenance (eng_store e) @ [r], dst_chain := prov_chain r, dst_sequence := 1\<rparr>)\<rparr>)"
    "has_room j (Suc n)"
proof -
  let ?r = "chained_record (eng_store e) p 1"
  have r: "?r = p\<lparr>prov_sequence := 1, prov_previous := [], prov_chain := prov_chain ?r\<rparr>"
    by (simp add: chained_record_def Let_def assms(5))
  have len: "length (prov_chain ?r) = 64"
    by (simp add: chained_record_def Let_def compute_chain_def digest_of_text_def length_sha256_hex)
  have weight: "json_weight (json_build [(''record'', provenance_to_json ?r),
      (''provenance_chain'', JString (prov_chain ?r)), (''provenance_sequence'', JUint (prov_sequence ?r))]) \<le> 100000"
    using p [OF len, folded r] len by (simp add: json_build_eq)
  have seq: "prov_sequence ?r = 1" by (subst r) simp
  have "append_provenance Disk_ok (eng_store e) p 2000 =
      (let (status, s') = append_then Disk_ok (eng_store e) JT_provenance
        (json_build [(''record'', provenance_to_json ?r), (''provenance_chain'', JString (prov_chain ?r)),
           (''provenance_sequence'', JUint (prov_sequence ?r))]) 2000
        (\<lambda>s. rebuild_stats (s\<lparr>dst_provenance := dst_provenance s @ [?r], dst_chain := prov_chain ?r, dst_sequence := prov_sequence ?r\<rparr>))
       in (status, ?r, s'))"
    using assms(3,4) by (simp add: append_provenance_def ensure_capacity_def counter_try_next_def Let_def)
  then have "(let (status, p, st') = append_provenance Disk_ok (eng_store e) p 2000 in (status, st')) =
      append_then Disk_ok (eng_store e) JT_provenance
        (json_build [(''record'', provenance_to_json ?r), (''provenance_chain'', JString (prov_chain ?r)),
           (''provenance_sequence'', JUint (prov_sequence ?r))]) 2000
        (\<lambda>s. rebuild_stats (s\<lparr>dst_provenance := dst_provenance s @ [?r], dst_chain := prov_chain ?r, dst_sequence := prov_sequence ?r\<rparr>))"
    by (simp add: Let_def split: prod.split)
  from store_op_room [OF assms(1,2) weight, of "\<lambda>d st. let (status, p, st') = append_provenance d st p 2000 in (status, st')", OF this]
  show thesis by (auto simp: seq intro: that)
qed


lemma small_completion:
  obtains e' :: "unit engine" and c where
    "run_state (commit_item (small_item OP_verify) small_outcome) (verifying_engine 1) = (Inr (), e')"
    "table_get (engine_campaigns_table e') ''camp'' = Some c" "cmp_state c = US_completed"
proof -
  let ?e = "verifying_engine 1" and ?c = "small_campaign US_verifying" and ?i = "small_item OP_verify"
  have r0: "running ?e 0"
    by (simp add: running_def verifying_engine_def small_engine_def new_engine_def small_store_fields blank_journal_room)
  have found: "store_attempt (eng_store ?e) (wki_attempt ?i) = Some (small_attempt AS_verifying)"
    "store_campaign (eng_store ?e) (wki_campaign ?i) = Some ?c"
    by (simp_all add: store_attempt_def store_campaign_def verifying_engine_fields table_get_def small_item_def)
  have fence: "check_fence ?e ?i (expected_state_for (wki_kind ?i)) = Inr ()"
    using found
    by (simp add: check_fence_def small_item_def small_attempt_def sample_attempt_def small_campaign_def sample_campaign_def
        verifying_engine_fields)
  have verified: "vfr_verified (verification_of ?e ?i small_outcome 2000)"
    by (simp add: verification_of_def assess_verification_iff verification_holds_def small_item_def small_outcome_def
        evidence_current_def verifying_engine_fields sample_artifact_def no_outcome_def no_health_def from_seconds_def
        ver_eq_def ver_compare_def make_version_def Let_def)
  let ?v = "opo_verify small_outcome" and ?a0 = "small_attempt AS_verifying"
  define a where "a = ?a0\<lparr>att_state := AS_verified, att_evidence_at := vo_observed_at ?v,
              att_evidence_validity := vo_validity ?v, att_observed_version := vo_observed_version ?v,
              att_observed_build := vo_observed_build ?v, att_last_error := [], att_updated_at := 2000,
              att_revision := advance (att_revision ?a0)\<rparr>"
  have a_fields: "att_id a = ''a''" "att_campaign a = ''camp''" "att_stage a = ''s1''" "att_target a = ''a1''"
    "att_state a = AS_verified" "att_evidence_at a = 2000" "att_evidence_validity a = from_seconds 60" "att_owner a = 1"
    by (simp_all add: a_def small_attempt_def sample_attempt_def small_outcome_def)
  have wa: "json_weight (json_build [(''attempt'', attempt_to_json a)]) \<le> 100000"
    by (simp add: weigh a_def small_outcome_def small_attempt_def sample_attempt_def empties)
  have "table_get (engine_attempts_table ?e) (att_id a) = Some ?a0"
    by (simp add: verifying_engine_fields a_fields table_get_def)
  then obtain j1 where j1: "run_state (engine_put_attempt a 2000) ?e = (Inr (), ?e\<lparr>eng_store := rebuild_stats ((eng_store ?e)
      \<lparr>dst_journal := j1, dst_attempts := table_put (engine_attempts_table ?e) (att_id a) a\<rparr>)\<rparr>)" "has_room j1 (Suc 0)"
    using put_attempt_room [OF r0 _ wa] by auto
  define e1 where "e1 = ?e\<lparr>eng_store := rebuild_stats ((eng_store ?e)
      \<lparr>dst_journal := j1, dst_attempts := table_put (engine_attempts_table ?e) (att_id a) a\<rparr>)\<rparr>"
  have e1: "running e1 (Suc 0)" "engine_attempts_table e1 = [(''a'', a)]" "engine_campaigns_table e1 = [(''camp'', ?c)]"
    "dst_sequence (eng_store e1) = 0" "dst_chain (eng_store e1) = []" "dst_provenance (eng_store e1) = []"
    "dst_options (eng_store e1) = sample_options" "eng_incarnation e1 = 1"
    using r0 j1(2)
    by (simp_all add: e1_def running_def rebuild_stats_def verifying_engine_fields a_fields table_put_def)
      (simp_all add: verifying_engine_def small_store_def new_store_def)
  define detail where "detail = vfr_summary (verification_of ?e ?i small_outcome 2000)"
  have wp: "json_weight (provenance_to_json ((provenance_of e1 ?i PO_verified detail 2000 1)
      \<lparr>prov_sequence := 1, prov_previous := [], prov_chain := d\<rparr>)) \<le> 50000" if "length d = 64" for d
    using that length_u64_to_string [of 1] verified
    by (simp add: weigh provenance_to_json_def provenance_of_def small_item_def sample_target_def detail_def verification_of_def
        assess_verification_def verifying_engine_fields small_outcome_def empties Let_def)
  obtain j2 r where "run_state (store_op (\<lambda>d st.
      let (status, p, st') = append_provenance d st (provenance_of e1 ?i PO_verified detail 2000 1) 2000 in (status, st'))) e1 =
      (Inr (), e1\<lparr>eng_store := rebuild_stats ((eng_store e1)\<lparr>dst_journal := j2,
        dst_provenance := dst_provenance (eng_store e1) @ [r], dst_chain := prov_chain r, dst_sequence := 1\<rparr>)\<rparr>)"
    "has_room j2 (Suc (Suc 0))"
    by (rule append_provenance_room [OF e1(1) _ _ e1(4,5) wp]) (simp_all add: e1 sample_options_def)
  then obtain e2 where e2: "run_state (append_provenance_locked ?i PO_verified detail 2000) e1 = (Inr (), e2)"
    "running e2 (Suc (Suc 0))" "engine_attempts_table e2 = [(''a'', a)]" "engine_campaigns_table e2 = [(''camp'', ?c)]"
    "eng_incarnation e2 = 1"
    using e1 by (auto simp: append_provenance_locked_def reads_def counter_try_next_def running_def rebuild_stats_def)
  have as: "attempts_for (eng_store e) ''camp'' = [a]" if "engine_attempts_table e = [(''a'', a)]" for e :: "unit engine"
    by (simp add: attempts_for_def that a_fields)
  have all: "stage_all e2 ?c (wki_stage ?i) (\<lambda>s. s = AS_verified)"
    by (simp add: stage_all_def find_progress_def as [OF e2(3)] latest_attempt_for_def a_fields small_item_def
        small_campaign_def small_stage_def)
  define c1 where "c1 = complete_stage 2000 ?c"
  have c1: "cmp_id c1 = ''camp''" "cmp_state c1 = US_verifying" "cmp_active_stage c1 = 0" "length (cmp_stages c1) = 1"
    "cmp_stages c1 \<noteq> []" "list_all (\<lambda>p. spg_state p = SS_completed) (cmp_stages c1)" "active_plan_stage c1 = Some small_stage"
    by (simp_all add: c1_def complete_stage_def small_campaign_def sample_campaign_def active_plan_stage_def)
  have w1: "json_weight (json_build [(''campaign'', campaign_to_json c1)]) \<le> 100000"
    by (simp add: weigh c1_def complete_stage_def small_campaign_def sample_campaign_def empties small_stage_def)
  obtain j3 where j3: "run_state (engine_put_campaign c1 2000) e2 = (Inr (), e2\<lparr>eng_store := rebuild_stats ((eng_store e2)
      \<lparr>dst_journal := j3, dst_campaigns := table_put (engine_campaigns_table e2) (cmp_id c1) c1\<rparr>)\<rparr>)"
      "has_room j3 (Suc (Suc (Suc 0)))"
    by (rule put_campaign_room [OF e2(2) _ w1]) (simp_all add: e2(4) c1 table_get_def)
  define e3 where "e3 = e2\<lparr>eng_store := rebuild_stats ((eng_store e2)
      \<lparr>dst_journal := j3, dst_campaigns := table_put (engine_campaigns_table e2) (cmp_id c1) c1\<rparr>)\<rparr>"
  have e3: "running e3 (Suc (Suc (Suc 0)))" "engine_attempts_table e3 = [(''a'', a)]" "eng_incarnation e3 = 1"
    "engine_campaigns_table e3 = [(''camp'', c1)]"
    using e2 j3(2) by (simp_all add: e3_def running_def rebuild_stats_def c1 table_put_def)
  let ?g = "guards_at e3 2000 c1" and ?m = "moved_campaign c1 US_completed 2000"
  have guards: "run_state (guards_locked c1) e3 = (?g, e3)"
    by (simp add: guards_locked_def sample_clock [OF e3(1)] reads_def)
  have fresh: "stage_verified_fresh [a] small_stage 2000 1"
    by (simp add: stage_verified_fresh_def latest_attempt_for_def a_fields small_stage_def freshness_current
        evidence_current_def from_seconds_def)
  have "g_verification_fresh_passed ?g" "g_all_stages_complete ?g"
    using fresh c1 by (simp_all add: guards_at_def Let_def as [OF e3(2)] e3(3))
  then have allowed: "tv_allowed (evaluate_transition US_verifying US_completed ?g)"
    by (simp add: evaluate_transition_spec)
  have w2: "json_weight (json_build [(''campaign'', campaign_to_json ?m)]) \<le> 100000"
    by (simp add: weigh c1_def complete_stage_def moved_campaign_def small_campaign_def sample_campaign_def empties small_stage_def)
  have m: "cmp_id ?m = ''camp''" by (simp add: moved_campaign_def c1)
  obtain j4 where j4: "run_state (engine_put_campaign ?m 2000) e3 = (Inr (), e3\<lparr>eng_store := rebuild_stats ((eng_store e3)
      \<lparr>dst_journal := j4, dst_campaigns := table_put (engine_campaigns_table e3) (cmp_id ?m) ?m\<rparr>)\<rparr>)"
    by (rule put_campaign_room [OF e3(1) _ w2, where b = c1]) (simp_all add: e3(4) c1(1) table_get_def)
  let ?e4 = "e3\<lparr>eng_store := rebuild_stats ((eng_store e3)
      \<lparr>dst_journal := j4, dst_campaigns := table_put (engine_campaigns_table e3) (cmp_id ?m) ?m\<rparr>)\<rparr>"
  let ?d = "decide (decision_kind_for US_completed) ?m DO_allow (''enter '' @ upgrade_state_name US_completed)
      (tv_reason (evaluate_transition US_verifying US_completed ?g)) [] [] []"
  obtain e5 where e5: "run_state ?d ?e4 = ((), e5)" by (cases "run_state ?d ?e4") auto
  have kept: "engine_campaigns_table e5 = table_put (engine_campaigns_table e3) (cmp_id ?m) ?m"
    using leavesD [OF decide_tables(1) e5] by (simp add: tables_def rebuild_stats_def)
  have moved: "run_state (transition_locked c1 US_completed ?g) e3 = ((Inr (), ?m), e5)"
    using allowed e5 by (simp add: transition_locked_def c1(2) sample_clock [OF e3(1)] j4 Let_def)
  have put: "run_state (engine_put_campaign c1 2000) e2 = (Inr (), e3)" using j3(1) by (simp add: e3_def)
  have finished: "run_state (finish_stage 2000 ?c) e2 = (Inr (), e5)"
    using moved by (simp add: finish_stage_def c1_def [symmetric] c1(3,4) try_op_def put guards ok_op_def)
  have "run_state (commit_verify ?i small_outcome 2000 ?a0 ?c) ?e = (Inr (), e5)"
    using verified e2(1) all finished
    by (simp add: commit_verify_def reads_def Let_def a_def [symmetric] try_op_def j1 e1_def [symmetric] detail_def)
  then have "run_state (commit_item ?i small_outcome) ?e = (Inr (), e5)"
    using found fence
    by (simp add: commit_item_def reads_def commit_locked_def sample_clock [OF r0]) (simp add: small_item_def)
  moreover have "table_get (engine_campaigns_table e5) ''camp'' = Some ?m"
    by (simp add: kept e3(4) table_get_def table_put_def c1(1))
  moreover have "cmp_state ?m = US_completed" by (simp add: moved_campaign_def)
  ultimately show thesis by (rule that)
qed

lemma verifying_engine_keyed: "keyed (engine_campaigns_table (verifying_engine 1))"
  by (simp add: keyed_def table_ok_def verifying_engine_fields table_get_def)





subsection \<open>Limits\<close>

text \<open>An adapter that counts its activations and never acknowledges one.\<close>

definition deaf_adapter :: "nat adapter_port" where
  "deaf_adapter = \<lparr>adp_kind = AK_synthetic, adp_claims = tgt_claims (sample_target ''a1'' ''left''),
     adp_observe = (\<lambda>t now i w. (fail EC_timeout [] [], w)), adp_prepare = (\<lambda>op w. (fail EC_timeout [] [], w)),
     adp_activate = (\<lambda>op w. (fail EC_timeout [] [], w + 1)), adp_verify = (\<lambda>op w. (fail EC_timeout [] [], w)),
     adp_rollback = (\<lambda>op w. (fail EC_timeout [] [], w))\<rparr>"

definition counting_engine :: "nat engine" where
  "counting_engine = new_engine sample_config
     \<lparr>dep_inventory = None, dep_compatibility = None, dep_rollout = None, dep_drain = None, dep_configuration = None,
      dep_health = None, dep_artifacts = None, dep_adapters = [], dep_clock = Some (\<lambda>w. (2000, w))\<rparr>
     \<lparr>plf_system_clock = (\<lambda>w. (2000, w)), plf_disk = (\<lambda>w. (Disk_ok, w)),
      plf_artifact_file = (\<lambda>p w. ((fail EC_io_error [] [], None), w)), plf_directory = (\<lambda>p w. (ok_status, w)),
      plf_journal_file = (\<lambda>p w. (None, w)), plf_rewrite = (\<lambda>p w. (ok_status, w)), plf_submit = (\<lambda>w. (ok_status, w)),
      plf_process_id = ''1''\<rparr> 0"

theorem activation_gated_and_bounded_witness:
  "\<exists>outcome e'. run_state (run_item deaf_adapter (small_item OP_activate) 2000) counting_engine = (outcome, e') \<and>
     eng_world e' \<le> unat (pol_max_retries_per_operation sample_policy) + 1"
proof -
  obtain outcome e' where run: "run_state (run_item deaf_adapter (small_item OP_activate) 2000) counting_engine = (outcome, e')"
    by (metis surj_pair)
  have "activation_counter id deaf_adapter (eng_deps counting_engine) (eng_platform counting_engine)"
    by (simp add: activation_counter_def deaf_adapter_def counting_engine_def new_engine_def)
  from activation_gated_and_bounded [OF this run] run show ?thesis
    by (simp add: counting_engine_def new_engine_def sample_config_def)
qed

theorem activations_in_flight_bounded_witness:
  "\<exists>items e'. run_state (plan_campaign 2000 16 (small_campaign US_activating) [])
       (small_engine\<lparr>eng_store := small_store (small_campaign US_activating) [small_attempt AS_prepared]\<rparr>) = (items, e') \<and>
     length items \<le> 16 \<and> activations items \<le> 1"
proof -
  let ?e = "small_engine\<lparr>eng_store := small_store (small_campaign US_activating) [small_attempt AS_prepared]\<rparr>"
  obtain items e' where run: "run_state (plan_campaign 2000 16 (small_campaign US_activating) []) ?e = (items, e')"
    by (metis surj_pair)
  have stage: "active_plan_stage (small_campaign US_activating) = Some small_stage"
    by (simp add: active_plan_stage_def small_campaign_def sample_campaign_def)
  have as: "attempts_for (eng_store ?e) (cmp_id (small_campaign US_activating)) = [small_attempt AS_prepared]"
    by (simp add: attempts_for_def small_store_fields small_attempt_def)
  have ids: "distinct (map att_id (attempts_for (eng_store ?e) (cmp_id (small_campaign US_activating))))"
    unfolding as by simp
  from activations_in_flight_bounded [OF run stage _ ids] run show ?thesis
    by (auto simp: small_stage_def)
qed

end
