(* ===== verification/Runtime_Pool.thy ===== *)
theory Runtime_Pool
  imports Core_Result "HOL-Library.Multiset"
begin

text \<open>
  The bounded worker pool (\<open>runtime/worker_pool\<close>) as a state machine over its lock regions.  A worker is in one
  of the phases its loop has between two regions; the callers of \<open>drain\<close> wait on the condition variable
  \<open>idle_\<close>.  A step is one region (or one atomic access) of one thread, so every interleaving of the threads is a run.
  The condition variable of the workers is a step that is enabled while its predicate holds: every change that can
  make it true notifies.
\<close>

subsection \<open>State\<close>

record pool_options =
  plo_threads :: nat
  plo_max_queue :: nat

record pool_stats =
  pst_submitted :: u64
  pst_completed :: u64
  pst_rejected :: u64
  pst_discarded :: u64

text \<open>
  A worker waits for work, holds a task it took, retires it because of a cancellation, runs it, has returned
  from it, or has left its loop.
\<close>

datatype 'a worker_phase = W_waiting | W_holding 'a | W_retiring 'a | W_running 'a | W_returned 'a | W_exited

fun phase_task :: "'a worker_phase \<Rightarrow> 'a option" where
  "phase_task (W_holding a) = Some a"
| "phase_task (W_retiring a) = Some a"
| "phase_task (W_running a) = Some a"
| "phase_task (W_returned a) = Some a"
| "phase_task _ = None"

text \<open>A caller of \<open>drain\<close>: outside, blocked, notified (about to look again), or back with success.\<close>

datatype drain_phase = D_outside | D_blocked | D_notified | D_drained

record 'a pool =
  wpl_options :: pool_options
  wpl_queue :: "'a list"
  wpl_workers :: "'a worker_phase list"
  wpl_active :: nat
  wpl_stopping :: bool
  wpl_stopped :: bool
  wpl_cancel :: bool
  wpl_stats :: pool_stats
  wpl_drainers :: "drain_phase list"

definition pool_effective :: "pool_options \<Rightarrow> pool_options" where
  "pool_effective opts =
     \<lparr>plo_threads = (if plo_threads opts = 0 then 1 else plo_threads opts),
      plo_max_queue = (if plo_max_queue opts = 0 then 1 else plo_max_queue opts)\<rparr>"

text \<open>The threads that will call \<open>drain\<close> are not the pool's; there are \<open>callers\<close> of them.\<close>

definition new_pool :: "pool_options \<Rightarrow> nat \<Rightarrow> 'a pool" where
  "new_pool opts callers =
     (let opts = pool_effective opts
      in \<lparr>wpl_options = opts, wpl_queue = [], wpl_workers = replicate (plo_threads opts) W_waiting, wpl_active = 0,
          wpl_stopping = False, wpl_stopped = False, wpl_cancel = False,
          wpl_stats = \<lparr>pst_submitted = 0, pst_completed = 0, pst_rejected = 0, pst_discarded = 0\<rparr>,
          wpl_drainers = replicate callers D_outside\<rparr>)"

definition pool_idle :: "'a pool \<Rightarrow> bool" where
  "pool_idle p \<longleftrightarrow> wpl_queue p = [] \<and> wpl_active p = 0"

subsection \<open>Operations\<close>

text \<open>
  Submission: an empty \<open>std::function\<close> is \<open>None\<close>.  The atomic \<open>stopped_\<close> is read before the lock is
  taken; both refusals are \<open>closed\<close>.
\<close>

definition pool_reject :: "'a pool \<Rightarrow> 'a pool" where
  "pool_reject p = p\<lparr>wpl_stats := (wpl_stats p)\<lparr>pst_rejected := pst_rejected (wpl_stats p) + 1\<rparr>\<rparr>"

definition pool_submit :: "'a option \<Rightarrow> 'a pool \<Rightarrow> status \<times> 'a pool" where
  "pool_submit task p =
     (case task of
        None \<Rightarrow> (fail EC_invalid_argument ''task must be callable'' [], p)
      | Some a \<Rightarrow>
          if wpl_stopped p then (fail EC_closed ''worker pool is stopped'' [], pool_reject p)
          else if wpl_stopping p then (fail EC_closed ''worker pool is stopping'' [], pool_reject p)
          else if length (wpl_queue p) \<ge> plo_max_queue (wpl_options p)
          then (fail EC_resource_exhausted ''worker pool queue is full'' (dec_digits (length (wpl_queue p))), pool_reject p)
          else (ok_status, p\<lparr>wpl_queue := wpl_queue p @ [a],
                  wpl_stats := (wpl_stats p)\<lparr>pst_submitted := pst_submitted (wpl_stats p) + 1\<rparr>\<rparr>))"

definition set_worker :: "nat \<Rightarrow> 'a worker_phase \<Rightarrow> 'a pool \<Rightarrow> 'a pool" where
  "set_worker i w p = p\<lparr>wpl_workers := (wpl_workers p)[i := w]\<rparr>"

text \<open>The worker wakes with its predicate true: it leaves when the pool is stopping, else it takes the first task.\<close>

definition worker_wakes :: "nat \<Rightarrow> 'a pool \<Rightarrow> 'a pool" where
  "worker_wakes i p =
     (if wpl_stopping p then set_worker i W_exited p
      else case wpl_queue p of
        [] \<Rightarrow> p
      | a # rest \<Rightarrow> set_worker i (W_holding a) (p\<lparr>wpl_queue := rest, wpl_active := wpl_active p + 1\<rparr>))"

definition worker_decides :: "nat \<Rightarrow> 'a \<Rightarrow> 'a pool \<Rightarrow> 'a pool" where
  "worker_decides i a p = set_worker i (if wpl_cancel p then W_retiring a else W_running a) p"

definition notify_idle :: "'a pool \<Rightarrow> 'a pool" where
  "notify_idle p = p\<lparr>wpl_drainers := map (\<lambda>d. if d = D_blocked then D_notified else d) (wpl_drainers p)\<rparr>"

definition worker_leaves :: "nat \<Rightarrow> 'a pool \<Rightarrow> 'a pool" where
  "worker_leaves i p =
     (let p = set_worker i W_waiting (p\<lparr>wpl_active := wpl_active p - 1\<rparr>)
      in if pool_idle p then notify_idle p else p)"

definition worker_retires :: "nat \<Rightarrow> 'a pool \<Rightarrow> 'a pool" where
  "worker_retires i p = worker_leaves i
     (p\<lparr>wpl_stats := (wpl_stats p)\<lparr>pst_discarded := pst_discarded (wpl_stats p) + 1\<rparr>\<rparr>)"

definition worker_completes :: "nat \<Rightarrow> 'a pool \<Rightarrow> 'a pool" where
  "worker_completes i p = worker_leaves i
     (p\<lparr>wpl_stats := (wpl_stats p)\<lparr>pst_completed := pst_completed (wpl_stats p) + 1\<rparr>\<rparr>)"

text \<open>\<open>stop\<close>: the region that ends admission, and the store after the joins.\<close>

definition stop_begins :: "'a pool \<Rightarrow> 'a pool" where
  "stop_begins p =
     (if wpl_stopping p then p
      else p\<lparr>wpl_stopping := True, wpl_cancel := True, wpl_queue := [],
        wpl_stats := (wpl_stats p)\<lparr>pst_discarded := pst_discarded (wpl_stats p) + word_of_nat (length (wpl_queue p))\<rparr>\<rparr>)"

definition stop_ends :: "'a pool \<Rightarrow> 'a pool" where
  "stop_ends p = p\<lparr>wpl_stopped := True\<rparr>"

definition request_cancel :: "'a pool \<Rightarrow> 'a pool" where
  "request_cancel p = p\<lparr>wpl_cancel := True\<rparr>"

text \<open>\<open>drain\<close> refuses a thread of the pool; another thread returns at once or blocks.\<close>

definition drain_refused :: "bool \<Rightarrow> status" where
  "drain_refused on_pool_thread =
     (if on_pool_thread then fail EC_internal ''drain() must not be called from a pool worker thread'' [] else ok_status)"

definition drain_looks :: "nat \<Rightarrow> 'a pool \<Rightarrow> 'a pool" where
  "drain_looks k p = p\<lparr>wpl_drainers := (wpl_drainers p)[k := (if pool_idle p then D_drained else D_blocked)]\<rparr>"

definition pool_pending :: "'a pool \<Rightarrow> nat" where
  "pool_pending p = length (wpl_queue p)"

subsection \<open>Steps and runs\<close>

text \<open>What happened so far: the tasks accepted, returned from and discarded.\<close>

record 'a pool_history =
  phi_accepted :: "'a list"
  phi_returned :: "'a list"
  phi_discarded :: "'a list"

definition no_history :: "'a pool_history" where
  "no_history = \<lparr>phi_accepted = [], phi_returned = [], phi_discarded = []\<rparr>"

text \<open>
  \<open>ready h a\<close> says that task \<open>a\<close> may return after the history \<open>h\<close>: a task that waits for others returns
  only when they did.
\<close>

inductive pool_step ::
    "('a pool_history \<Rightarrow> 'a \<Rightarrow> bool) \<Rightarrow> 'a pool_history \<times> 'a pool \<Rightarrow> 'a pool_history \<times> 'a pool \<Rightarrow> bool"
  for ready where
  accepted: "pool_submit (Some a) p = (Inr (), p') \<Longrightarrow>
    pool_step ready (h, p) (h\<lparr>phi_accepted := phi_accepted h @ [a]\<rparr>, p')"
| rejected: "pool_submit task p = (Inl e, p') \<Longrightarrow> pool_step ready (h, p) (h, p')"
| wakes: "i < length (wpl_workers p) \<Longrightarrow> wpl_workers p ! i = W_waiting \<Longrightarrow> wpl_stopping p \<or> wpl_queue p \<noteq> [] \<Longrightarrow>
    pool_step ready (h, p) (h, worker_wakes i p)"
| decides: "i < length (wpl_workers p) \<Longrightarrow> wpl_workers p ! i = W_holding a \<Longrightarrow>
    pool_step ready (h, p) (h, worker_decides i a p)"
| retires: "i < length (wpl_workers p) \<Longrightarrow> wpl_workers p ! i = W_retiring a \<Longrightarrow>
    pool_step ready (h, p) (h\<lparr>phi_discarded := phi_discarded h @ [a]\<rparr>, worker_retires i p)"
| returns: "i < length (wpl_workers p) \<Longrightarrow> wpl_workers p ! i = W_running a \<Longrightarrow> ready h a \<Longrightarrow>
    pool_step ready (h, p) (h\<lparr>phi_returned := phi_returned h @ [a]\<rparr>, set_worker i (W_returned a) p)"
| completes: "i < length (wpl_workers p) \<Longrightarrow> wpl_workers p ! i = W_returned a \<Longrightarrow>
    pool_step ready (h, p) (h, worker_completes i p)"
| stop_starts: "\<not> wpl_stopped p \<Longrightarrow>
    pool_step ready (h, p) (h\<lparr>phi_discarded := phi_discarded h @ (if wpl_stopping p then [] else wpl_queue p)\<rparr>, stop_begins p)"
| stop_joined: "wpl_stopping p \<Longrightarrow> list_all (\<lambda>w. w = W_exited) (wpl_workers p) \<Longrightarrow>
    pool_step ready (h, p) (h, stop_ends p)"
| cancelled: "pool_step ready (h, p) (h, request_cancel p)"
| drains: "k < length (wpl_drainers p) \<Longrightarrow> wpl_drainers p ! k \<noteq> D_blocked \<Longrightarrow>
    pool_step ready (h, p) (h, drain_looks k p)"

inductive_cases pool_stepE [consumes 1, case_names accepted rejected wakes decides retires returns completes
    stop_starts stop_joined cancelled drains]: "pool_step ready (h, p) (h', p')"

inductive pool_run ::
    "('a pool_history \<Rightarrow> 'a \<Rightarrow> bool) \<Rightarrow> pool_options \<Rightarrow> 'a pool_history \<Rightarrow> 'a pool \<Rightarrow> bool" for ready opts where
  started: "pool_run ready opts no_history (new_pool opts callers)"
| stepped: "pool_run ready opts h p \<Longrightarrow> pool_step ready (h, p) (h', p') \<Longrightarrow> pool_run ready opts h' p'"

subsection \<open>Accounting\<close>

text \<open>
  Tasks that a worker has in hand and that have not returned yet.
\<close>

fun phase_open :: "'a worker_phase \<Rightarrow> 'a option" where
  "phase_open (W_holding a) = Some a"
| "phase_open (W_retiring a) = Some a"
| "phase_open (W_running a) = Some a"
| "phase_open _ = None"

definition count_workers :: "('a worker_phase \<Rightarrow> bool) \<Rightarrow> 'a pool \<Rightarrow> nat" where
  "count_workers P p = length (filter P (wpl_workers p))"

definition pool_accounts :: "pool_options \<Rightarrow> 'a pool_history \<Rightarrow> 'a pool \<Rightarrow> bool" where
  "pool_accounts opts h p \<longleftrightarrow>
     wpl_options p = pool_effective opts \<and> length (wpl_workers p) = plo_threads (pool_effective opts) \<and>
     length (wpl_queue p) \<le> plo_max_queue (pool_effective opts) \<and>
     wpl_active p = count_workers (\<lambda>w. phase_task w \<noteq> None) p \<and>
     mset (phi_accepted h) = mset (phi_returned h) + mset (phi_discarded h) + mset (wpl_queue p) +
       mset (List.map_filter phase_open (wpl_workers p)) \<and>
     pst_submitted (wpl_stats p) = word_of_nat (length (phi_accepted h)) \<and>
     pst_completed (wpl_stats p) + word_of_nat (count_workers (\<lambda>w. \<exists>a. w = W_returned a) p) =
       word_of_nat (length (phi_returned h)) \<and>
     pst_discarded (wpl_stats p) = word_of_nat (length (phi_discarded h)) \<and>
     (wpl_stopping p \<longrightarrow> wpl_queue p = [] \<and> wpl_cancel p) \<and>
     (wpl_stopped p \<longrightarrow> wpl_stopping p \<and> list_all (\<lambda>w. w = W_exited) (wpl_workers p))"


definition maybe_mset :: "'a option \<Rightarrow> 'a multiset" where
  "maybe_mset v = (case v of None \<Rightarrow> {#} | Some a \<Rightarrow> {#a#})"

lemma maybe_mset_simps [simp]: "maybe_mset None = {#}" "maybe_mset (Some a) = {#a#}"
  by (simp_all add: maybe_mset_def)

lemma mset_map_filter_update:
  "i < length ws \<Longrightarrow> mset (List.map_filter f (ws[i := w])) + maybe_mset (f (ws ! i)) =
     mset (List.map_filter f ws) + maybe_mset (f w)"
proof (induction ws arbitrary: i)
  case (Cons x ws)
  then show ?case by (cases i) (auto simp: List.map_filter_simps split: option.split)
qed simp

lemma length_filter_update:
  "i < length ws \<Longrightarrow> length (filter P (ws[i := w])) + (if P (ws ! i) then 1 else 0) =
     length (filter P ws) + (if P w then 1 else 0)"
proof (induction ws arbitrary: i)
  case (Cons x ws)
  then show ?case by (cases i) auto
qed simp

text \<open>Moving a worker between phases, in terms of what it has in hand.\<close>

definition open_tasks :: "'a pool \<Rightarrow> 'a multiset" where
  "open_tasks p = mset (List.map_filter phase_open (wpl_workers p))"

definition busy :: "'a pool \<Rightarrow> nat" where
  "busy p = count_workers (\<lambda>w. phase_task w \<noteq> None) p"

definition unreported :: "'a pool \<Rightarrow> nat" where
  "unreported p = count_workers (\<lambda>w. \<exists>a. w = W_returned a) p"

lemma set_worker_fields [simp]:
  "wpl_options (set_worker i w p) = wpl_options p" "wpl_queue (set_worker i w p) = wpl_queue p"
  "wpl_active (set_worker i w p) = wpl_active p" "wpl_stopping (set_worker i w p) = wpl_stopping p"
  "wpl_stopped (set_worker i w p) = wpl_stopped p" "wpl_cancel (set_worker i w p) = wpl_cancel p"
  "wpl_stats (set_worker i w p) = wpl_stats p" "wpl_drainers (set_worker i w p) = wpl_drainers p"
  "wpl_workers (set_worker i w p) = (wpl_workers p)[i := w]"
  by (simp_all add: set_worker_def)

lemma set_worker_counts:
  assumes "i < length (wpl_workers p)"
  shows "open_tasks (set_worker i w p) + maybe_mset (phase_open (wpl_workers p ! i)) = open_tasks p + maybe_mset (phase_open w)"
    "busy (set_worker i w p) + (if phase_task (wpl_workers p ! i) \<noteq> None then 1 else 0) =
       busy p + (if phase_task w \<noteq> None then 1 else 0)"
    "unreported (set_worker i w p) + (if \<exists>a. wpl_workers p ! i = W_returned a then 1 else 0) =
       unreported p + (if \<exists>a. w = W_returned a then 1 else 0)"
  using mset_map_filter_update [OF assms, of phase_open w]
    length_filter_update [OF assms, of "\<lambda>w. phase_task w \<noteq> None" w]
    length_filter_update [OF assms, of "\<lambda>w. \<exists>a. w = W_returned a" w]
  unfolding open_tasks_def busy_def unreported_def count_workers_def set_worker_fields by blast+

lemma pool_accounts_unfold:
  "pool_accounts opts h p \<longleftrightarrow>
     wpl_options p = pool_effective opts \<and> length (wpl_workers p) = plo_threads (pool_effective opts) \<and>
     length (wpl_queue p) \<le> plo_max_queue (pool_effective opts) \<and> wpl_active p = busy p \<and>
     mset (phi_accepted h) = mset (phi_returned h) + mset (phi_discarded h) + mset (wpl_queue p) + open_tasks p \<and>
     pst_submitted (wpl_stats p) = word_of_nat (length (phi_accepted h)) \<and>
     pst_completed (wpl_stats p) + word_of_nat (unreported p) = word_of_nat (length (phi_returned h)) \<and>
     pst_discarded (wpl_stats p) = word_of_nat (length (phi_discarded h)) \<and>
     (wpl_stopping p \<longrightarrow> wpl_queue p = [] \<and> wpl_cancel p) \<and>
     (wpl_stopped p \<longrightarrow> wpl_stopping p \<and> list_all (\<lambda>w. w = W_exited) (wpl_workers p))"
  by (simp add: pool_accounts_def open_tasks_def busy_def unreported_def)

text \<open>Changes that keep the workers keep the counts.\<close>

lemma counts_same_workers:
  "wpl_workers p' = wpl_workers p \<Longrightarrow> open_tasks p' = open_tasks p"
  "wpl_workers p' = wpl_workers p \<Longrightarrow> busy p' = busy p"
  "wpl_workers p' = wpl_workers p \<Longrightarrow> unreported p' = unreported p"
  by (simp_all add: open_tasks_def busy_def unreported_def count_workers_def)

lemma map_filter_waiting: "List.map_filter phase_open (replicate n W_waiting) = []"
  by (induction n) (simp_all add: List.map_filter_simps)

lemma new_pool_accounts: "pool_accounts opts no_history (new_pool opts callers)"
  by (simp add: pool_accounts_def new_pool_def no_history_def count_workers_def Let_def pool_effective_def
      map_filter_waiting)

lemma submit_accounts:
  assumes "pool_accounts opts h p" "pool_submit task p = (r, p')"
  shows "case r of Inl e \<Rightarrow> pool_accounts opts h p' | Inr u \<Rightarrow>
    (\<exists>a. task = Some a \<and> pool_accounts opts (h\<lparr>phi_accepted := phi_accepted h @ [a]\<rparr>) p')"
proof (cases task)
  case None
  with assms show ?thesis by (auto simp: pool_submit_def fail_def)
next
  case (Some a)
  have same: "open_tasks p' = open_tasks p" "busy p' = busy p" "unreported p' = unreported p"
    by (rule counts_same_workers, use assms(2) Some in \<open>auto simp: pool_submit_def pool_reject_def split: if_splits\<close>)+
  show ?thesis
    using assms Some same unfolding pool_accounts_unfold
    by (auto simp: pool_submit_def pool_reject_def fail_def split: if_splits)
qed

lemma worker_not_exited:
  assumes "i < length (wpl_workers p)" "wpl_workers p ! i \<noteq> W_exited"
  shows "\<not> list_all (\<lambda>w. w = W_exited) (wpl_workers p)"
  using assms by (auto simp: list_all_length)

lemma notify_idle_fields [simp]:
  "wpl_options (notify_idle p) = wpl_options p" "wpl_queue (notify_idle p) = wpl_queue p"
  "wpl_active (notify_idle p) = wpl_active p" "wpl_stopping (notify_idle p) = wpl_stopping p"
  "wpl_stopped (notify_idle p) = wpl_stopped p" "wpl_cancel (notify_idle p) = wpl_cancel p"
  "wpl_stats (notify_idle p) = wpl_stats p" "wpl_workers (notify_idle p) = wpl_workers p"
  by (simp_all add: notify_idle_def)

lemma worker_leaves_fields [simp]:
  "wpl_options (worker_leaves i p) = wpl_options p" "wpl_queue (worker_leaves i p) = wpl_queue p"
  "wpl_active (worker_leaves i p) = wpl_active p - 1" "wpl_stopping (worker_leaves i p) = wpl_stopping p"
  "wpl_stopped (worker_leaves i p) = wpl_stopped p" "wpl_cancel (worker_leaves i p) = wpl_cancel p"
  "wpl_stats (worker_leaves i p) = wpl_stats p" "wpl_workers (worker_leaves i p) = (wpl_workers p)[i := W_waiting]"
  by (simp_all add: worker_leaves_def Let_def)

lemma worker_leaves_counts:
  "open_tasks (worker_leaves i p) = open_tasks (set_worker i W_waiting p)"
  "busy (worker_leaves i p) = busy (set_worker i W_waiting p)"
  "unreported (worker_leaves i p) = unreported (set_worker i W_waiting p)"
  by (rule counts_same_workers, simp)+

lemma pool_step_accounts:
  assumes "pool_step ready (h, p) (h', p')" "pool_accounts opts h p"
  shows "pool_accounts opts h' p'"
  using assms(1)
proof (cases rule: pool_stepE)
  case (accepted a)
  with submit_accounts [OF assms(2) accepted(2)] show ?thesis by simp
next
  case (rejected task e)
  with submit_accounts [OF assms(2) rejected(2)] show ?thesis by simp
next
  case (wakes i)
  note counts = set_worker_counts [OF wakes(1)]
  show ?thesis
  proof (cases "wpl_stopping p")
    case True
    have "open_tasks (set_worker i W_exited p) = open_tasks p" "busy (set_worker i W_exited p) = busy p"
      "unreported (set_worker i W_exited p) = unreported p"
      using counts [of W_exited] wakes(2) by simp_all
    with assms(2) wakes True worker_not_exited [OF wakes(1)] show ?thesis
      unfolding pool_accounts_unfold by (simp add: worker_wakes_def)
  next
    case False
    with wakes obtain a rest where q: "wpl_queue p = a # rest" by (cases "wpl_queue p") auto
    let ?p = "p\<lparr>wpl_queue := rest, wpl_active := wpl_active p + 1\<rparr>"
    have p': "p' = set_worker i (W_holding a) ?p" using wakes False q by (simp add: worker_wakes_def)
    have same: "open_tasks ?p = open_tasks p" "busy ?p = busy p" "unreported ?p = unreported p"
      by (rule counts_same_workers, simp)+
    have "open_tasks p' = open_tasks p + {#a#}" "busy p' = busy p + 1" "unreported p' = unreported p"
      using set_worker_counts [of i ?p "W_holding a"] wakes(1,2) same by (simp_all add: p')
    with assms(2) wakes(1-4) False q worker_not_exited [OF wakes(1)] show ?thesis
      unfolding pool_accounts_unfold by (simp add: p')
  qed
next
  case (decides i a)
  let ?w = "if wpl_cancel p then W_retiring a else W_running a"
  have "open_tasks (set_worker i ?w p) = open_tasks p" "busy (set_worker i ?w p) = busy p"
    "unreported (set_worker i ?w p) = unreported p"
    using set_worker_counts [OF decides(1), of ?w] decides(2) by (simp_all split: if_splits)
  with assms(2) decides worker_not_exited [OF decides(1)] show ?thesis
    unfolding pool_accounts_unfold by (simp add: worker_decides_def)
next
  case (retires i a)
  let ?p = "p\<lparr>wpl_stats := (wpl_stats p)\<lparr>pst_discarded := pst_discarded (wpl_stats p) + 1\<rparr>\<rparr>"
  have same: "open_tasks ?p = open_tasks p" "busy ?p = busy p" "unreported ?p = unreported p"
    by (rule counts_same_workers, simp)+
  have "open_tasks p' + {#a#} = open_tasks p" "busy p' + 1 = busy p" "unreported p' = unreported p"
    using set_worker_counts [of i ?p W_waiting] retires(1,2) same
    by (simp_all add: retires(4) worker_retires_def worker_leaves_counts)
  with assms(2) retires worker_not_exited [OF retires(1)] show ?thesis
    unfolding pool_accounts_unfold by (auto simp: worker_retires_def)
next
  case (returns i a)
  have "open_tasks p' + {#a#} = open_tasks p" "busy p' = busy p" "unreported p' = unreported p + 1"
    using set_worker_counts [OF returns(1), of "W_returned a"] returns(2) by (simp_all add: returns(5))
  with assms(2) returns worker_not_exited [OF returns(1)] show ?thesis
    unfolding pool_accounts_unfold by auto
next
  case (completes i a)
  let ?p = "p\<lparr>wpl_stats := (wpl_stats p)\<lparr>pst_completed := pst_completed (wpl_stats p) + 1\<rparr>\<rparr>"
  have same: "open_tasks ?p = open_tasks p" "busy ?p = busy p" "unreported ?p = unreported p"
    by (rule counts_same_workers, simp)+
  have counts: "open_tasks p' = open_tasks p" "busy p' + 1 = busy p" "unreported p' + 1 = unreported p"
    using set_worker_counts [of i ?p W_waiting] completes(1,2) same
    by (simp_all add: completes(4) worker_completes_def worker_leaves_counts)
  have "pst_completed (wpl_stats p) + 1 + word_of_nat (unreported p') = pst_completed (wpl_stats p) + word_of_nat (unreported p)"
    by (simp flip: counts(3))
  with assms(2) completes worker_not_exited [OF completes(1)] counts show ?thesis
    unfolding pool_accounts_unfold by (auto simp: worker_completes_def)
next
  case stop_starts
  have same: "open_tasks (stop_begins p) = open_tasks p" "busy (stop_begins p) = busy p" "unreported (stop_begins p) = unreported p"
    by (rule counts_same_workers, simp add: stop_begins_def)+
  with assms(2) stop_starts show ?thesis
    unfolding pool_accounts_unfold by (auto simp: stop_begins_def)
next
  case stop_joined
  have same: "open_tasks (stop_ends p) = open_tasks p" "busy (stop_ends p) = busy p" "unreported (stop_ends p) = unreported p"
    by (rule counts_same_workers, simp add: stop_ends_def)+
  with assms(2) stop_joined show ?thesis
    unfolding pool_accounts_unfold by (simp add: stop_ends_def)
next
  case cancelled
  have same: "open_tasks (request_cancel p) = open_tasks p" "busy (request_cancel p) = busy p"
    "unreported (request_cancel p) = unreported p"
    by (rule counts_same_workers, simp add: request_cancel_def)+
  with assms(2) cancelled show ?thesis
    unfolding pool_accounts_unfold by (simp add: request_cancel_def)
next
  case (drains k)
  have same: "open_tasks (drain_looks k p) = open_tasks p" "busy (drain_looks k p) = busy p"
    "unreported (drain_looks k p) = unreported p"
    by (rule counts_same_workers, simp add: drain_looks_def)+
  with assms(2) drains show ?thesis
    unfolding pool_accounts_unfold by (simp add: drain_looks_def)
qed

lemma pool_run_accounts: "pool_run ready opts h p \<Longrightarrow> pool_accounts opts h p"
  by (induction rule: pool_run.induct) (blast intro: new_pool_accounts pool_step_accounts)+


lemma busy_split: "busy p = size (open_tasks p) + unreported p"
proof -
  have "length (filter (\<lambda>w. phase_task w \<noteq> None) ws) =
      length (List.map_filter phase_open ws) + length (filter (\<lambda>w. \<exists>a. w = W_returned a) ws)" for ws :: "'a worker_phase list"
  proof (induction ws)
    case (Cons w ws)
    then show ?case by (cases w) (simp_all add: List.map_filter_simps)
  qed (simp add: List.map_filter_simps)
  then show ?thesis by (simp add: busy_def open_tasks_def unreported_def count_workers_def)
qed

text \<open>
  C34: the pool loses no task and its figures are honest.  In every run, whatever the schedule of the
  workers, of the callers and of a stop or a cancellation, the accepted tasks are exactly those that returned, those that
  were discarded, those queued and those in the hands of a worker; the counters of the statistics add up at every
  moment (modulo their 64 bits); the queue and the number of active workers stay within their bounds.
\<close>

theorem pool_accounting:
  assumes "pool_run ready opts h p"
  shows "mset (phi_accepted h) = mset (phi_returned h) + mset (phi_discarded h) + mset (wpl_queue p) +
      mset (List.map_filter phase_open (wpl_workers p)) \<and>
    pst_submitted (wpl_stats p) = pst_completed (wpl_stats p) + pst_discarded (wpl_stats p) +
      word_of_nat (pool_pending p) + word_of_nat (wpl_active p) \<and>
    pool_pending p \<le> max 1 (plo_max_queue opts) \<and> wpl_active p \<le> max 1 (plo_threads opts)"
proof -
  have acc: "wpl_active p = busy p" "length (wpl_workers p) = plo_threads (pool_effective opts)"
    "mset (phi_accepted h) = mset (phi_returned h) + mset (phi_discarded h) + mset (wpl_queue p) + open_tasks p"
    "pst_submitted (wpl_stats p) = word_of_nat (length (phi_accepted h))"
    "pst_completed (wpl_stats p) + word_of_nat (unreported p) = word_of_nat (length (phi_returned h))"
    "pst_discarded (wpl_stats p) = word_of_nat (length (phi_discarded h))"
    "length (wpl_queue p) \<le> plo_max_queue (pool_effective opts)"
    using pool_run_accounts [OF assms] unfolding pool_accounts_unfold by simp_all
  have "length (phi_accepted h) = length (phi_returned h) + length (phi_discarded h) + length (wpl_queue p) + size (open_tasks p)"
    using arg_cong [OF acc(3), of size] by simp
  then have "pst_submitted (wpl_stats p) = pst_completed (wpl_stats p) + word_of_nat (unreported p) +
      pst_discarded (wpl_stats p) + word_of_nat (length (wpl_queue p)) + word_of_nat (size (open_tasks p))"
    by (simp add: acc(4-6))
  then have "pst_submitted (wpl_stats p) = pst_completed (wpl_stats p) + pst_discarded (wpl_stats p) +
      word_of_nat (pool_pending p) + word_of_nat (wpl_active p)"
    by (simp add: pool_pending_def acc(1) busy_split ac_simps)
  moreover have "wpl_active p \<le> length (wpl_workers p)"
    by (simp add: acc(1) busy_def count_workers_def)
  moreover have "plo_threads (pool_effective opts) = max 1 (plo_threads opts)" "plo_max_queue (pool_effective opts) = max 1 (plo_max_queue opts)"
    by (simp_all add: pool_effective_def)
  ultimately show ?thesis using acc(2,3,7) by (simp add: pool_pending_def open_tasks_def)
qed

subsection \<open>A batch and its latch\<close>

text \<open>
  \<open>run_steps_bounded\<close> of the engine submits the items of a batch and waits on a \<open>BatchLatch\<close> until each has
  called \<open>done\<close>, which is the last thing the task of an item does: the driver's task returns only after its batch.
\<close>

definition batch_ready :: "('a \<Rightarrow> 'a list) \<Rightarrow> 'a pool_history \<Rightarrow> 'a \<Rightarrow> bool" where
  "batch_ready batch h a \<longleftrightarrow> (\<forall>b \<in> set (batch a). b \<in> set (phi_returned h))"

lemma pool_step_history:
  assumes "pool_step ready (h, p) (h', p')"
  shows "set (phi_discarded h) \<subseteq> set (phi_discarded h')" "distinct (phi_accepted h') \<Longrightarrow> distinct (phi_accepted h)"
  using assms by (cases rule: pool_stepE; auto)+

lemma discarded_never_returned:
  assumes "pool_accounts opts h p" "distinct (phi_accepted h)" "b \<in> set (phi_discarded h)"
  shows "b \<notin> set (phi_returned h)"
proof
  assume "b \<in> set (phi_returned h)"
  then have "1 \<le> count (mset (phi_returned h)) b" "1 \<le> count (mset (phi_discarded h)) b"
    using assms(3) by (simp_all add: count_mset_gt_0 Suc_le_eq)
  moreover have "count (mset (phi_accepted h)) b \<le> 1" using assms(2) by (simp add: distinct_count_atmost_1)
  moreover have "mset (phi_accepted h) = mset (phi_returned h) + mset (phi_discarded h) + mset (wpl_queue p) + open_tasks p"
    using assms(1) unfolding pool_accounts_unfold by simp
  then have "count (mset (phi_accepted h)) b = count (mset (phi_returned h)) b + count (mset (phi_discarded h)) b +
      count (mset (wpl_queue p)) b + count (open_tasks p) b" by simp
  ultimately show False by linarith
qed

lemma submit_workers: "pool_submit task p = (r, p') \<Longrightarrow> wpl_workers p' = wpl_workers p"
  by (auto simp: pool_submit_def pool_reject_def split: option.splits if_splits)

lemma running_worker_kept:
  assumes "pool_step (batch_ready batch) (h, p) (h', p')" "i < length (wpl_workers p)" "wpl_workers p ! i = W_running a"
    and "b \<in> set (batch a)" "b \<notin> set (phi_returned h)"
  shows "i < length (wpl_workers p') \<and> wpl_workers p' ! i = W_running a"
  using assms
  by (cases rule: pool_stepE)
    (auto simp: worker_wakes_def worker_decides_def worker_retires_def worker_completes_def stop_begins_def stop_ends_def
      request_cancel_def drain_looks_def batch_ready_def nth_list_update submit_workers split: if_splits list.splits)

lemma stuck_batch_kept:
  assumes "(pool_step (batch_ready batch))\<^sup>*\<^sup>* (h, p) (h', p')" "pool_run (batch_ready batch) opts h p"
    "distinct (phi_accepted h')" "i < length (wpl_workers p)" "wpl_workers p ! i = W_running a"
    "b \<in> set (batch a)" "b \<in> set (phi_discarded h)"
  shows "pool_run (batch_ready batch) opts h' p' \<and> i < length (wpl_workers p') \<and> wpl_workers p' ! i = W_running a \<and>
    b \<in> set (phi_discarded h')"
  using assms(1,3)
proof (induction "(h', p')" arbitrary: h' p' rule: rtranclp_induct)
  case base
  with assms show ?case by simp
next
  case (step x)
  obtain h1 p1 where x: "x = (h1, p1)" by force
  note st = step.hyps(2) [unfolded x]
  have d: "distinct (phi_accepted h1)" by (rule pool_step_history(2) [OF st step.prems])
  from step.hyps(3) [OF x d] have IH: "pool_run (batch_ready batch) opts h1 p1" "i < length (wpl_workers p1)"
    "wpl_workers p1 ! i = W_running a" "b \<in> set (phi_discarded h1)" by simp_all
  have "b \<notin> set (phi_returned h1)" by (rule discarded_never_returned [OF pool_run_accounts [OF IH(1)] d IH(4)])
  from running_worker_kept [OF st IH(2,3) assms(6) this] pool_run.stepped [OF IH(1) st] pool_step_history(1) [OF st] IH(4)
  show ?case by blast
qed

text \<open>
  C35: stopping the pool in the middle of a batch never ends.  Once a stop (or a cancellation) has discarded a
  task of a batch, the task that waits for the batch never returns, in no continuation of the run: its worker
  stays in it, so the joins of \<open>stop\<close> never finish and the pool is never stopped.
\<close>

theorem stopped_batch_never_ends:
  assumes "pool_run (batch_ready batch) opts h p" "i < length (wpl_workers p)" "wpl_workers p ! i = W_running a"
    and "b \<in> set (batch a)" "b \<in> set (phi_discarded h)"
    and "(pool_step (batch_ready batch))\<^sup>*\<^sup>* (h, p) (h', p')" "distinct (phi_accepted h')"
  shows "wpl_workers p' ! i = W_running a \<and> a \<notin> set (phi_returned h') \<and> \<not> wpl_stopped p'"
proof -
  from stuck_batch_kept [OF assms(6,1,7,2-5)] have run: "pool_run (batch_ready batch) opts h' p'"
    and i: "i < length (wpl_workers p')" "wpl_workers p' ! i = W_running a" by simp_all
  note acc = pool_run_accounts [OF run, unfolded pool_accounts_unfold]
  have "\<not> wpl_stopped p'" using acc worker_not_exited [OF i(1)] i(2) by simp
  moreover have "a \<notin> set (phi_returned h')"
  proof
    assume "a \<in> set (phi_returned h')"
    then have one: "1 \<le> count (mset (phi_returned h')) a" by (simp add: count_mset_gt_0 Suc_le_eq)
    have "W_running a \<in> set (wpl_workers p')" using i by (metis nth_mem)
    then have "a \<in> set (List.map_filter phase_open (wpl_workers p'))" by (force simp: List.map_filter_def)
    then have two: "1 \<le> count (open_tasks p') a" by (simp add: open_tasks_def count_mset_gt_0 Suc_le_eq)
    have "count (mset (phi_accepted h')) a \<le> 1" using assms(7) by (simp add: distinct_count_atmost_1)
    moreover have "count (mset (phi_accepted h')) a = count (mset (phi_returned h')) a + count (mset (phi_discarded h')) a +
        count (mset (wpl_queue p')) a + count (open_tasks p') a" using acc by simp
    ultimately show False using one two by linarith
  qed
  ultimately show ?thesis using i by simp
qed


subsection \<open>A drain that misses the stop\<close>

lemma idle_workers_hold_nothing:
  assumes "pool_accounts opts h p" "wpl_active p = 0" "i < length (wpl_workers p)"
  shows "phase_task (wpl_workers p ! i) = None"
proof -
  have "filter (\<lambda>w. phase_task w \<noteq> None) (wpl_workers p) = []"
    using assms(1,2) unfolding pool_accounts_def count_workers_def by simp
  with assms(3) show ?thesis by (auto simp: filter_empty_conv)
qed

text \<open>In a stopped and idle pool the workers only leave, and nobody notifies the callers of \<open>drain\<close>.\<close>

lemma idle_stop_kept:
  assumes "pool_step ready (h, p) (h', p')" "pool_accounts opts h p"
    and "wpl_stopping p" "wpl_active p = 0" "k < length (wpl_drainers p)" "wpl_drainers p ! k = D_blocked"
  shows "wpl_stopping p' \<and> wpl_active p' = 0 \<and> k < length (wpl_drainers p') \<and> wpl_drainers p' ! k = D_blocked"
  using assms(1)
proof (cases rule: pool_stepE)
  case (accepted a)
  with assms(3) show ?thesis by (auto simp: pool_submit_def fail_def split: if_splits)
next
  case (rejected task e)
  then have "p' = p \<or> p' = pool_reject p" by (auto simp: pool_submit_def split: option.splits if_splits)
  with assms show ?thesis by (auto simp: pool_reject_def)
next
  case (wakes i)
  with assms show ?thesis by (simp add: worker_wakes_def)
next
  case (decides i a)
  with idle_workers_hold_nothing [OF assms(2,4)] show ?thesis by force
next
  case (retires i a)
  with idle_workers_hold_nothing [OF assms(2,4)] show ?thesis by force
next
  case (returns i a)
  with idle_workers_hold_nothing [OF assms(2,4)] show ?thesis by force
next
  case (completes i a)
  with idle_workers_hold_nothing [OF assms(2,4)] show ?thesis by force
next
  case stop_starts
  with assms show ?thesis by (simp add: stop_begins_def)
next
  case stop_joined
  with assms show ?thesis by (simp add: stop_ends_def)
next
  case cancelled
  with assms show ?thesis by (simp add: request_cancel_def)
next
  case (drains m)
  with assms show ?thesis by (auto simp: drain_looks_def nth_list_update)
qed

text \<open>
  A drain can miss a stop.  When a stop empties the queue while no worker is active, a caller blocked in
  \<open>drain\<close> stays blocked in every continuation, although what it waits for (an empty queue and no active worker) holds
  from then on: only a worker that leaves a task notifies it, and none will.
\<close>

theorem drain_misses_stop:
  assumes "pool_run ready opts h p" "wpl_stopping p" "wpl_active p = 0"
    and "k < length (wpl_drainers p)" "wpl_drainers p ! k = D_blocked"
    and "(pool_step ready)\<^sup>*\<^sup>* (h, p) (h', p')"
  shows "pool_idle p' \<and> wpl_drainers p' ! k = D_blocked"
proof -
  have "pool_run ready opts h' p' \<and> wpl_stopping p' \<and> wpl_active p' = 0 \<and> k < length (wpl_drainers p') \<and>
      wpl_drainers p' ! k = D_blocked"
    using assms(6)
  proof (induction "(h', p')" arbitrary: h' p' rule: rtranclp_induct)
    case base
    with assms show ?case by simp
  next
    case (step x)
    obtain h1 p1 where x: "x = (h1, p1)" by force
    from step.hyps(3) [OF x] have IH: "pool_run ready opts h1 p1" "wpl_stopping p1" "wpl_active p1 = 0"
      "k < length (wpl_drainers p1)" "wpl_drainers p1 ! k = D_blocked" by simp_all
    note st = step.hyps(2) [unfolded x]
    from idle_stop_kept [OF st pool_run_accounts [OF IH(1)] IH(2-5)] pool_run.stepped [OF IH(1) st] show ?case by blast
  qed
  with pool_run_accounts [of ready opts h' p'] show ?thesis
    unfolding pool_accounts_unfold by (simp add: pool_idle_def)
qed

subsection \<open>Witnesses\<close>

text \<open>Two workers; task 0 drives the batch of the tasks 1 and 2; the stop comes while 2 is queued.\<close>

definition duo :: pool_options where
  "duo = \<lparr>plo_threads = 2, plo_max_queue = 4\<rparr>"

definition duo_batch :: "nat \<Rightarrow> nat list" where
  "duo_batch a = (if a = 0 then [1, 2] else [])"

definition duo_state :: "nat list \<Rightarrow> nat worker_phase \<Rightarrow> nat worker_phase \<Rightarrow> nat \<Rightarrow> u64 \<Rightarrow> drain_phase \<Rightarrow> nat pool" where
  "duo_state q w v active submitted d =
     \<lparr>wpl_options = duo, wpl_queue = q, wpl_workers = [w, v], wpl_active = active, wpl_stopping = False,
      wpl_stopped = False, wpl_cancel = False,
      wpl_stats = \<lparr>pst_submitted = submitted, pst_completed = 0, pst_rejected = 0, pst_discarded = 0\<rparr>, wpl_drainers = [d]\<rparr>"

definition duo_history :: "nat list \<Rightarrow> nat pool_history" where
  "duo_history as = no_history\<lparr>phi_accepted := as\<rparr>"

lemma duo_start: "pool_run ready duo (duo_history []) (duo_state [] W_waiting W_waiting 0 0 D_outside)"
  using pool_run.started [of ready duo 1]
  by (simp add: duo_history_def duo_state_def no_history_def new_pool_def duo_def pool_effective_def Let_def numeral_2_eq_2)

lemma run_submit:
  "pool_run ready opts h p \<Longrightarrow> pool_submit (Some a) p = (Inr (), p') \<Longrightarrow>
   pool_run ready opts (h\<lparr>phi_accepted := phi_accepted h @ [a]\<rparr>) p'"
  by (erule pool_run.stepped, erule pool_step.accepted)

lemma run_take:
  assumes "pool_run ready opts h p" "i < length (wpl_workers p)" "wpl_workers p ! i = W_waiting"
    "\<not> wpl_stopping p" "wpl_queue p = a # q"
  shows "pool_run ready opts h (worker_decides i a (worker_wakes i p))"
proof -
  have "pool_step ready (h, p) (h, worker_wakes i p)" by (rule pool_step.wakes) (use assms in simp_all)
  then have run: "pool_run ready opts h (worker_wakes i p)" by (rule pool_run.stepped [OF assms(1)])
  have "pool_step ready (h, worker_wakes i p) (h, worker_decides i a (worker_wakes i p))"
    by (rule pool_step.decides) (use assms in \<open>simp_all add: worker_wakes_def\<close>)
  then show ?thesis by (rule pool_run.stepped [OF run])
qed

lemma duo_submit:
  assumes "pool_run ready duo (duo_history as) (duo_state q w v n m d)" "length q < 4"
  shows "pool_run ready duo (duo_history (as @ [a])) (duo_state (q @ [a]) w v n (m + 1) d)"
  using run_submit [OF assms(1), of a "duo_state (q @ [a]) w v n (m + 1) d"] assms(2)
  by (simp add: pool_submit_def duo_state_def duo_history_def duo_def)

lemma duo_running:
  "pool_run ready duo (duo_history [0, 1, 2]) (duo_state [2] (W_running 0) (W_running 1) 2 3 D_outside)"
proof -
  have "pool_run ready duo (duo_history [0]) (duo_state [0] W_waiting W_waiting 0 1 D_outside)"
    using duo_submit [OF duo_start, where a = 0] by simp
  from run_take [OF this, of 0 0 "[]"]
  have "pool_run ready duo (duo_history [0]) (duo_state [] (W_running 0) W_waiting 1 1 D_outside)"
    by (simp add: duo_state_def worker_wakes_def worker_decides_def set_worker_def)
  from duo_submit [OF this, where a = 1]
  have "pool_run ready duo (duo_history [0, 1]) (duo_state [1] (W_running 0) W_waiting 1 2 D_outside)" by simp
  from duo_submit [OF this, where a = 2]
  have "pool_run ready duo (duo_history [0, 1, 2]) (duo_state [1, 2] (W_running 0) W_waiting 1 3 D_outside)" by simp
  from run_take [OF this, of 1 1 "[2]"] show ?thesis
    by (simp add: duo_state_def worker_wakes_def worker_decides_def set_worker_def numeral_2_eq_2)
qed

theorem pool_accounting_witness:
  "\<exists>p. pool_run (batch_ready duo_batch) duo (duo_history [0, 1, 2]) p \<and>
     pst_submitted (wpl_stats p) = pst_completed (wpl_stats p) + pst_discarded (wpl_stats p) +
       word_of_nat (pool_pending p) + word_of_nat (wpl_active p) \<and>
     wpl_active p = 2"
proof -
  from pool_accounting [OF duo_running [of "batch_ready duo_batch"]] duo_running [of "batch_ready duo_batch"]
  show ?thesis by (intro exI [where x = "duo_state [2] (W_running 0) (W_running 1) 2 3 D_outside"] conjI)
      (simp_all add: duo_state_def)
qed

theorem stopped_batch_never_ends_witness:
  "\<exists>h p h' p'. pool_run (batch_ready duo_batch) duo h p \<and> wpl_stopping p \<and> phi_discarded h = [2] \<and>
     pool_step (batch_ready duo_batch) (h, p) (h', p') \<and> phi_returned h' = [1] \<and>
     wpl_workers p' ! 0 = W_running 0 \<and> \<not> wpl_stopped p'"
proof -
  let ?q = "duo_state [2] (W_running 0) (W_running 1) 2 3 D_outside"
  let ?h = "(duo_history [0, 1, 2])\<lparr>phi_discarded := [2]\<rparr>" and ?p = "stop_begins ?q"
  let ?h' = "?h\<lparr>phi_returned := [1]\<rparr>" and ?p' = "set_worker 1 (W_returned 1) ?p"
  have "pool_step (batch_ready duo_batch) (duo_history [0, 1, 2], ?q) ((duo_history [0, 1, 2])
      \<lparr>phi_discarded := phi_discarded (duo_history [0, 1, 2]) @ (if wpl_stopping ?q then [] else wpl_queue ?q)\<rparr>, ?p)"
    by (rule pool_step.stop_starts) (simp add: duo_state_def)
  from pool_run.stepped [OF duo_running this] have run: "pool_run (batch_ready duo_batch) duo ?h ?p"
    by (simp add: duo_history_def no_history_def duo_state_def)
  have p: "wpl_workers ?p = [W_running 0, W_running 1]" "wpl_stopping ?p"
    by (simp_all add: stop_begins_def duo_state_def)
  have "pool_step (batch_ready duo_batch) (?h, ?p) (?h\<lparr>phi_returned := phi_returned ?h @ [1]\<rparr>, ?p')"
    by (rule pool_step.returns) (use p in \<open>simp_all add: batch_ready_def duo_batch_def\<close>)
  then have step: "pool_step (batch_ready duo_batch) (?h, ?p) (?h', ?p')" by (simp add: duo_history_def no_history_def)
  have w: "0 < length (wpl_workers ?p)" "wpl_workers ?p ! 0 = W_running 0" "2 \<in> set (duo_batch 0)" "2 \<in> set (phi_discarded ?h)"
    "distinct (phi_accepted ?h')"
    using p by (simp_all add: duo_batch_def duo_history_def)
  from stopped_batch_never_ends [OF run w(1-4) r_into_rtranclp [of "pool_step (batch_ready duo_batch)" "(?h, ?p)" "(?h', ?p')", OF step] w(5)] run step p(2)
  show ?thesis by (intro exI [where x = ?h] exI [where x = ?p] exI [where x = ?h'] exI [where x = ?p'] conjI) simp_all
qed

text \<open>Here the caller of \<open>drain\<close> blocks on a queued task that no worker has taken yet.\<close>

theorem drain_misses_stop_witness:
  "\<exists>h p h' p'. pool_run (batch_ready duo_batch) duo h p \<and> pool_step (batch_ready duo_batch) (h, p) (h', p') \<and>
     pool_idle p' \<and> wpl_drainers p' ! 0 = D_blocked \<and> wpl_workers p' ! 0 = W_exited"
proof -
  let ?r = "batch_ready duo_batch"
  have "pool_run ?r duo (duo_history [1]) (duo_state [1] W_waiting W_waiting 0 1 D_outside)"
    using duo_submit [OF duo_start, where a = 1] by simp
  moreover have "pool_step ?r (duo_history [1], duo_state [1] W_waiting W_waiting 0 1 D_outside)
      (duo_history [1], drain_looks 0 (duo_state [1] W_waiting W_waiting 0 1 D_outside))"
    by (rule pool_step.drains) (simp_all add: duo_state_def)
  ultimately have "pool_run ?r duo (duo_history [1]) (drain_looks 0 (duo_state [1] W_waiting W_waiting 0 1 D_outside))"
    by (rule pool_run.stepped)
  then have blocked: "pool_run ?r duo (duo_history [1]) (duo_state [1] W_waiting W_waiting 0 1 D_blocked)"
    by (simp add: drain_looks_def duo_state_def pool_idle_def)
  let ?q = "duo_state [1] W_waiting W_waiting 0 1 D_blocked"
  let ?h = "(duo_history [1])\<lparr>phi_discarded := [1]\<rparr>" and ?p = "stop_begins ?q"
  have "pool_step ?r (duo_history [1], ?q) ((duo_history [1])
      \<lparr>phi_discarded := phi_discarded (duo_history [1]) @ (if wpl_stopping ?q then [] else wpl_queue ?q)\<rparr>, ?p)"
    by (rule pool_step.stop_starts) (simp add: duo_state_def)
  from pool_run.stepped [OF blocked this] have run: "pool_run ?r duo ?h ?p"
    by (simp add: duo_history_def no_history_def duo_state_def)
  have p: "wpl_workers ?p = [W_waiting, W_waiting]" "wpl_stopping ?p" "wpl_active ?p = 0" "0 < length (wpl_drainers ?p)"
    "wpl_drainers ?p ! 0 = D_blocked"
    by (simp_all add: stop_begins_def duo_state_def)
  have step: "pool_step ?r (?h, ?p) (?h, worker_wakes 0 ?p)" by (rule pool_step.wakes) (use p in simp_all)
  have exited: "wpl_workers (worker_wakes 0 ?p) ! 0 = W_exited" using p by (simp add: worker_wakes_def)
  from drain_misses_stop [OF run p(2-5) r_into_rtranclp [of "pool_step ?r" "(?h, ?p)" "(?h, worker_wakes 0 ?p)", OF step]] run step exited
  show ?thesis by blast
qed

end
