(* ===== verification/Adapter_Synthetic.thy ===== *)
theory Adapter_Synthetic
  imports Store_State Ports
begin

text \<open>
  The synthetic target adapter (\<open>adapters/synthetic_adapter\<close>): the targets it simulates, the fault programme,
  the gates and the five operations of a target adapter.  Every operation is one region under the lock of
  the adapter, so it is a function on the adapter; the activation and the verification also wait on a gate
  before they take the lock, which is a step of its own.
\<close>

subsection \<open>Faults\<close>

datatype synthetic_fault =
    SF_none | SF_prepare_failure | SF_prepare_timeout | SF_activate_failure | SF_activate_timeout_effect
  | SF_activate_timeout_noop | SF_activate_wrong_version | SF_verify_failure | SF_verify_unhealthy
  | SF_verify_stale | SF_verify_foreign_incarnation | SF_rollback_failure | SF_observe_failure | SF_crash_target

fun synthetic_fault_name :: "synthetic_fault \<Rightarrow> string" where
  "synthetic_fault_name SF_none = ''none''"
| "synthetic_fault_name SF_prepare_failure = ''prepare-failure''"
| "synthetic_fault_name SF_prepare_timeout = ''prepare-timeout''"
| "synthetic_fault_name SF_activate_failure = ''activate-failure''"
| "synthetic_fault_name SF_activate_timeout_effect = ''activate-timeout-effect''"
| "synthetic_fault_name SF_activate_timeout_noop = ''activate-timeout-noop''"
| "synthetic_fault_name SF_activate_wrong_version = ''activate-wrong-version''"
| "synthetic_fault_name SF_verify_failure = ''verify-failure''"
| "synthetic_fault_name SF_verify_unhealthy = ''verify-unhealthy''"
| "synthetic_fault_name SF_verify_stale = ''verify-stale''"
| "synthetic_fault_name SF_verify_foreign_incarnation = ''verify-foreign-incarnation''"
| "synthetic_fault_name SF_rollback_failure = ''rollback-failure''"
| "synthetic_fault_name SF_observe_failure = ''observe-failure''"
| "synthetic_fault_name SF_crash_target = ''crash-target''"

datatype fault_scope = FS_prepare | FS_activate | FS_verify | FS_rollback | FS_observe

fun synthetic_fault_scope :: "synthetic_fault \<Rightarrow> fault_scope" where
  "synthetic_fault_scope SF_prepare_failure = FS_prepare"
| "synthetic_fault_scope SF_prepare_timeout = FS_prepare"
| "synthetic_fault_scope SF_activate_failure = FS_activate"
| "synthetic_fault_scope SF_activate_timeout_effect = FS_activate"
| "synthetic_fault_scope SF_activate_timeout_noop = FS_activate"
| "synthetic_fault_scope SF_activate_wrong_version = FS_activate"
| "synthetic_fault_scope SF_crash_target = FS_activate"
| "synthetic_fault_scope SF_verify_failure = FS_verify"
| "synthetic_fault_scope SF_verify_unhealthy = FS_verify"
| "synthetic_fault_scope SF_verify_stale = FS_verify"
| "synthetic_fault_scope SF_verify_foreign_incarnation = FS_verify"
| "synthetic_fault_scope SF_rollback_failure = FS_rollback"
| "synthetic_fault_scope SF_observe_failure = FS_observe"
| "synthetic_fault_scope SF_none = FS_observe"

subsection \<open>State\<close>

record synthetic_target =
  syt_id :: target_id
  syt_component :: component_id
  syt_display_name :: string
  syt_version :: version
  syt_build :: build_id
  syt_platform :: string
  syt_capabilities :: "string list"
  syt_healthy :: bool
  syt_health_detail :: string
  syt_health_validity :: duration
  syt_health_age_offset :: duration
  syt_process_alive :: bool
  syt_generation_capable :: bool
  syt_redundancy_group :: string
  syt_authority :: authority_id

definition default_synthetic_target :: synthetic_target where
  "default_synthetic_target =
     \<lparr>syt_id = [], syt_component = [], syt_display_name = [], syt_version = empty_version, syt_build = [],
      syt_platform = ''synthetic/x86_64'', syt_capabilities = [], syt_healthy = True,
      syt_health_detail = ''synthetic health ok'', syt_health_validity = from_seconds 30,
      syt_health_age_offset = 0, syt_process_alive = True, syt_generation_capable = False,
      syt_redundancy_group = [], syt_authority = []\<rparr>"

record target_state =
  sst_target :: synthetic_target
  sst_staged_version :: version
  sst_staged_build :: build_id
  sst_previous_version :: version
  sst_previous_build :: build_id
  sst_faults :: "synthetic_fault list"
  sst_persistent :: synthetic_fault
  sst_completed :: "string list"

definition new_target_state :: "synthetic_target \<Rightarrow> target_state" where
  "new_target_state t =
     \<lparr>sst_target = t, sst_staged_version = empty_version, sst_staged_build = [],
      sst_previous_version = empty_version, sst_previous_build = [], sst_faults = [],
      sst_persistent = SF_none, sst_completed = []\<rparr>"

record adapter_counters =
  syc_prepare :: u64
  syc_activate :: u64
  syc_verify :: u64
  syc_rollback :: u64
  syc_observe :: u64
  syc_faults :: u64
  syc_duplicates :: u64

text \<open>A gate is shared between the adapter and the test that opens it: the adapter holds its address.\<close>

record synthetic_gate =
  sgt_open :: bool
  sgt_reached :: bool

record synthetic_adapter =
  sya_id :: adapter_id
  sya_kind :: adapter_kind
  sya_claims :: adapter_claims
  sya_targets :: "target_state table"
  sya_activate_gates :: "nat list"
  sya_verify_gates :: "nat list"
  sya_gates :: "synthetic_gate list"
  sya_counters :: adapter_counters
  sya_log :: "string list"

definition no_calls :: adapter_counters where
  "no_calls = \<lparr>syc_prepare = 0, syc_activate = 0, syc_verify = 0, syc_rollback = 0, syc_observe = 0,
     syc_faults = 0, syc_duplicates = 0\<rparr>"

definition new_synthetic_adapter :: "adapter_id \<Rightarrow> adapter_kind \<Rightarrow> synthetic_adapter" where
  "new_synthetic_adapter i k =
     \<lparr>sya_id = i, sya_kind = k,
      sya_claims = \<lparr>acl_strategies = [SK_in_place, SK_restart_based, SK_redundant_pair_rolling],
        acl_supports_prepare = True, acl_supports_rollback = True, acl_supports_health_probe = True,
        acl_supports_version_observation = True, acl_supports_generation_handoff = False,
        acl_requires_service_removal = False, acl_max_parallel = 1, acl_declared_limits = []\<rparr>,
      sya_targets = [], sya_activate_gates = [], sya_verify_gates = [], sya_gates = [],
      sya_counters = no_calls, sya_log = []\<rparr>"

subsection \<open>Programming the targets\<close>

definition set_claims :: "adapter_claims \<Rightarrow> synthetic_adapter \<Rightarrow> synthetic_adapter" where
  "set_claims c s = s\<lparr>sya_claims := c\<rparr>"

definition add_target :: "synthetic_target \<Rightarrow> synthetic_adapter \<Rightarrow> synthetic_adapter" where
  "add_target t s =
     (let t = (if syt_authority t = [] then t\<lparr>syt_authority := ''synthetic-authority''\<rparr> else t)
      in s\<lparr>sya_targets := table_put (sya_targets s) (syt_id t) (new_target_state t)\<rparr>)"

definition remove_target :: "target_id \<Rightarrow> synthetic_adapter \<Rightarrow> synthetic_adapter" where
  "remove_target i s = s\<lparr>sya_targets := filter (\<lambda>(k, st). k \<noteq> i) (sya_targets s)\<rparr>"

text \<open>The setters look the target up and leave an unknown one alone.\<close>

definition change_target :: "target_id \<Rightarrow> (target_state \<Rightarrow> target_state) \<Rightarrow> synthetic_adapter \<Rightarrow> synthetic_adapter" where
  "change_target i f s =
     (case table_get (sya_targets s) i of
        None \<Rightarrow> s
      | Some st \<Rightarrow> s\<lparr>sya_targets := table_put (sya_targets s) i (f st)\<rparr>)"

definition enqueue_fault :: "target_id \<Rightarrow> synthetic_fault \<Rightarrow> synthetic_adapter \<Rightarrow> synthetic_adapter" where
  "enqueue_fault i fault = change_target i (\<lambda>st. st\<lparr>sst_faults := sst_faults st @ [fault]\<rparr>)"

definition set_persistent_fault :: "target_id \<Rightarrow> synthetic_fault \<Rightarrow> synthetic_adapter \<Rightarrow> synthetic_adapter" where
  "set_persistent_fault i fault = change_target i (\<lambda>st. st\<lparr>sst_persistent := fault\<rparr>)"

definition clear_faults :: "target_id \<Rightarrow> synthetic_adapter \<Rightarrow> synthetic_adapter" where
  "clear_faults i = change_target i (\<lambda>st. st\<lparr>sst_faults := [], sst_persistent := SF_none\<rparr>)"

definition change_simulated :: "target_id \<Rightarrow> (synthetic_target \<Rightarrow> synthetic_target) \<Rightarrow> synthetic_adapter \<Rightarrow> synthetic_adapter" where
  "change_simulated i f = change_target i (\<lambda>st. st\<lparr>sst_target := f (sst_target st)\<rparr>)"

definition set_health :: "target_id \<Rightarrow> bool \<Rightarrow> string \<Rightarrow> synthetic_adapter \<Rightarrow> synthetic_adapter" where
  "set_health i healthy detail = change_simulated i (\<lambda>t. t\<lparr>syt_healthy := healthy, syt_health_detail := detail\<rparr>)"

definition set_health_validity :: "target_id \<Rightarrow> duration \<Rightarrow> synthetic_adapter \<Rightarrow> synthetic_adapter" where
  "set_health_validity i validity = change_simulated i (\<lambda>t. t\<lparr>syt_health_validity := validity\<rparr>)"

definition set_health_age_offset :: "target_id \<Rightarrow> duration \<Rightarrow> synthetic_adapter \<Rightarrow> synthetic_adapter" where
  "set_health_age_offset i offset = change_simulated i (\<lambda>t. t\<lparr>syt_health_age_offset := offset\<rparr>)"

definition set_process_alive :: "target_id \<Rightarrow> bool \<Rightarrow> synthetic_adapter \<Rightarrow> synthetic_adapter" where
  "set_process_alive i alive = change_simulated i (\<lambda>t. t\<lparr>syt_process_alive := alive\<rparr>)"

definition set_version :: "target_id \<Rightarrow> version \<Rightarrow> build_id \<Rightarrow> synthetic_adapter \<Rightarrow> synthetic_adapter" where
  "set_version i v b = change_simulated i (\<lambda>t. t\<lparr>syt_version := v, syt_build := b\<rparr>)"

subsection \<open>Gates\<close>

definition gate_next_activate :: "nat \<Rightarrow> synthetic_adapter \<Rightarrow> synthetic_adapter" where
  "gate_next_activate g s = s\<lparr>sya_activate_gates := sya_activate_gates s @ [g]\<rparr>"

definition gate_next_verify :: "nat \<Rightarrow> synthetic_adapter \<Rightarrow> synthetic_adapter" where
  "gate_next_verify g s = s\<lparr>sya_verify_gates := sya_verify_gates s @ [g]\<rparr>"

definition open_gate :: "nat \<Rightarrow> synthetic_adapter \<Rightarrow> synthetic_adapter" where
  "open_gate g s = s\<lparr>sya_gates := (sya_gates s)[g := (sya_gates s ! g)\<lparr>sgt_open := True\<rparr>]\<rparr>"

definition mark_reached :: "nat \<Rightarrow> synthetic_adapter \<Rightarrow> synthetic_adapter" where
  "mark_reached g s = s\<lparr>sya_gates := (sya_gates s)[g := (sya_gates s ! g)\<lparr>sgt_reached := True\<rparr>]\<rparr>"

text \<open>The queue of gates is one for all targets: the target of the call is not looked at.\<close>

definition take_gate :: "bool \<Rightarrow> synthetic_adapter \<Rightarrow> nat option \<times> synthetic_adapter" where
  "take_gate activate s =
     (case (if activate then sya_activate_gates s else sya_verify_gates s) of
        [] \<Rightarrow> (None, s)
      | g # gs \<Rightarrow> (Some g, if activate then s\<lparr>sya_activate_gates := gs\<rparr> else s\<lparr>sya_verify_gates := gs\<rparr>))"

text \<open>
  What a call does before it takes the lock: it takes a gate, marks it as reached and waits until it is open.
\<close>

definition reach_gate :: "bool \<Rightarrow> synthetic_adapter \<Rightarrow> nat option \<times> synthetic_adapter" where
  "reach_gate activate s =
     (case take_gate activate s of
        (None, s) \<Rightarrow> (None, s)
      | (Some g, s) \<Rightarrow> (Some g, mark_reached g s))"

definition may_pass :: "nat option \<Rightarrow> synthetic_adapter \<Rightarrow> bool" where
  "may_pass gate s = (case gate of None \<Rightarrow> True | Some g \<Rightarrow> sgt_open (sya_gates s ! g))"

subsection \<open>The fault programme and repeated operations\<close>

fun take_fault :: "fault_scope \<Rightarrow> synthetic_fault list \<Rightarrow> (synthetic_fault \<times> synthetic_fault list) option" where
  "take_fault scope [] = None"
| "take_fault scope (x # xs) =
     (if synthetic_fault_scope x = scope then Some (x, xs)
      else map_option (\<lambda>(f, rest). (f, x # rest)) (take_fault scope xs))"

definition count_fault :: "adapter_counters \<Rightarrow> adapter_counters" where
  "count_fault c = c\<lparr>syc_faults := syc_faults c + 1\<rparr>"

definition next_fault ::
    "fault_scope \<Rightarrow> target_state \<Rightarrow> adapter_counters \<Rightarrow> synthetic_fault \<times> target_state \<times> adapter_counters" where
  "next_fault scope st c =
     (case take_fault scope (sst_faults st) of
        Some (f, rest) \<Rightarrow> (f, st\<lparr>sst_faults := rest\<rparr>, count_fault c)
      | None \<Rightarrow>
          if sst_persistent st \<noteq> SF_none \<and> synthetic_fault_scope (sst_persistent st) = scope
          then (sst_persistent st, st, count_fault c)
          else (SF_none, st, c))"

definition already_done ::
    "string \<Rightarrow> target_state \<Rightarrow> adapter_counters \<Rightarrow> bool \<times> target_state \<times> adapter_counters" where
  "already_done key st c =
     (if key \<in> set (sst_completed st) then (True, st, c\<lparr>syc_duplicates := syc_duplicates c + 1\<rparr>)
      else let done_ops = sst_completed st @ [key]
        in (False, st\<lparr>sst_completed := (if length done_ops > 128 then tl done_ops else done_ops)\<rparr>, c))"

text \<open>The frame of an operation: find the target, take its next fault, run the body on its state.\<close>

definition with_target ::
    "target_id \<Rightarrow> fault_scope \<Rightarrow>
     (synthetic_fault \<Rightarrow> target_state \<Rightarrow> adapter_counters \<Rightarrow> 'a result \<times> target_state \<times> adapter_counters) \<Rightarrow>
     synthetic_adapter \<Rightarrow> 'a result \<times> synthetic_adapter" where
  "with_target i scope body s =
     (case table_get (sya_targets s) i of
        None \<Rightarrow> (fail EC_not_found ''the synthetic adapter does not know this target'' i, s)
      | Some st \<Rightarrow>
          (let (fault, st, c) = next_fault scope st (sya_counters s);
               (r, st, c) = body fault st c
           in (r, s\<lparr>sya_targets := table_put (sya_targets s) i st, sya_counters := c\<rparr>)))"

subsection \<open>Operations\<close>

definition synthetic_observation ::
    "adapter_id \<Rightarrow> target_id \<Rightarrow> timestamp \<Rightarrow> u64 \<Rightarrow> synthetic_target \<Rightarrow> target_observation" where
  "synthetic_observation source i now incarnation t =
     \<lparr>obs_target = i, obs_version = syt_version t, obs_build = syt_build t,
      obs_healthy = (syt_healthy t \<and> syt_process_alive t), obs_health_known = True,
      obs_health_detail = (if syt_process_alive t then syt_health_detail t
        else ''the synthetic target process is down''),
      obs_observed_at = now + (- syt_health_age_offset t), obs_incarnation = incarnation, obs_source = source\<rparr>"

definition observe_body ::
    "adapter_id \<Rightarrow> target_id \<Rightarrow> timestamp \<Rightarrow> u64 \<Rightarrow> synthetic_fault \<Rightarrow> target_state \<Rightarrow> adapter_counters \<Rightarrow>
     target_observation result \<times> target_state \<times> adapter_counters" where
  "observe_body source i now incarnation fault st c =
     (if fault = SF_observe_failure
      then (fail EC_timeout ''the synthetic target did not answer the observation'' [], st, c)
      else (Inr (synthetic_observation source i now incarnation (sst_target st)), st, c))"

definition synthetic_observe ::
    "target_id \<Rightarrow> timestamp \<Rightarrow> u64 \<Rightarrow> synthetic_adapter \<Rightarrow> target_observation result \<times> synthetic_adapter" where
  "synthetic_observe i now incarnation s =
     (let s = s\<lparr>sya_counters := (sya_counters s)\<lparr>syc_observe := syc_observe (sya_counters s) + 1\<rparr>\<rparr>
      in with_target i FS_observe (observe_body (sya_id s) i now incarnation) s)"

text \<open>Each call on an operation is logged, known target or not.\<close>

definition log_call :: "string \<Rightarrow> target_operation \<Rightarrow> synthetic_adapter \<Rightarrow> synthetic_adapter" where
  "log_call what op s = s\<lparr>sya_log := sya_log s @ [what @ '' '' @ operation_key_to_string (top_key op)]\<rparr>"

definition prepare_body ::
    "target_operation \<Rightarrow> synthetic_fault \<Rightarrow> target_state \<Rightarrow> adapter_counters \<Rightarrow>
     prepare_outcome result \<times> target_state \<times> adapter_counters" where
  "prepare_body op fault st c =
     (if fault = SF_prepare_failure
      then (fail EC_io_error ''the synthetic target refused the staged artifact'' [], st, c)
      else if fault = SF_prepare_timeout
      then (fail EC_timeout ''the synthetic target lost the prepare acknowledgement'' [], st, c)
      else
        (let (duplicate, st, c) = already_done (''prepare:'' @ operation_key_to_string (top_key op)) st c
         in (Inr \<lparr>po_prepared = True, po_already_prepared = duplicate,
               po_detail = (if duplicate then ''the artifact was already staged (idempotent repeat)''
                 else ''staged '' @ ver_text (art_version (top_artifact op))),
               po_steps = [''write-payload'', ''verify-digest'']\<rparr>,
             st\<lparr>sst_staged_version := art_version (top_artifact op), sst_staged_build := art_build (top_artifact op)\<rparr>,
             c)))"

definition synthetic_prepare ::
    "target_operation \<Rightarrow> synthetic_adapter \<Rightarrow> prepare_outcome result \<times> synthetic_adapter" where
  "synthetic_prepare op s =
     (let s = log_call ''prepare'' op
            (s\<lparr>sya_counters := (sya_counters s)\<lparr>syc_prepare := syc_prepare (sya_counters s) + 1\<rparr>\<rparr>)
      in with_target (tgt_id (top_target op)) FS_prepare (prepare_body op) s)"

text \<open>The effect of an activation on its target.\<close>

definition apply_activation :: "artifact_descriptor \<Rightarrow> target_state \<Rightarrow> target_state" where
  "apply_activation a st =
     st\<lparr>sst_previous_version := syt_version (sst_target st), sst_previous_build := syt_build (sst_target st),
        sst_target := (sst_target st)\<lparr>syt_version := art_version a, syt_build := art_build a\<rparr>\<rparr>"

definition activate_body ::
    "adapter_claims \<Rightarrow> target_operation \<Rightarrow> synthetic_fault \<Rightarrow> target_state \<Rightarrow> adapter_counters \<Rightarrow>
     activate_outcome result \<times> target_state \<times> adapter_counters" where
  "activate_body claims op fault st c =
     (case fault of
        SF_activate_failure \<Rightarrow>
          (fail EC_io_error ''the synthetic target refused the activation'' [], st, c)
      | SF_activate_timeout_noop \<Rightarrow>
          (fail EC_timeout ''the synthetic target lost the activation acknowledgement'' [], st, c)
      | SF_activate_timeout_effect \<Rightarrow>
          (fail EC_timeout
             ''the synthetic target applied the activation but the acknowledgement was lost'' [],
           apply_activation (top_artifact op) st, c)
      | SF_crash_target \<Rightarrow>
          (let st = apply_activation (top_artifact op) st
           in (fail EC_timeout ''the synthetic target crashed after applying the activation'' [],
               st\<lparr>sst_target := (sst_target st)\<lparr>syt_process_alive := False, syt_healthy := False,
                 syt_health_detail := ''the synthetic target crashed during activation''\<rparr>\<rparr>, c))
      | SF_activate_wrong_version \<Rightarrow>
          (Inr \<lparr>ao_activated = True, ao_already_active = False, ao_restart_performed = False,
             ao_observed_version = syt_version (sst_target st), ao_observed_build = syt_build (sst_target st),
             ao_detail = ''the installer exited successfully but the running version did not change''\<rparr>, st, c)
      | _ \<Rightarrow>
          (let (duplicate, st, c) = already_done (''activate:'' @ operation_key_to_string (top_key op)) st c;
               st = apply_activation (top_artifact op) st;
               st = st\<lparr>sst_target := (sst_target st)\<lparr>syt_process_alive := True\<rparr>\<rparr>
           in (Inr \<lparr>ao_activated = True, ao_already_active = duplicate,
                 ao_restart_performed = acl_supports_health_probe claims,
                 ao_observed_version = syt_version (sst_target st), ao_observed_build = syt_build (sst_target st),
                 ao_detail = (if duplicate then ''the activation was already applied (idempotent repeat)''
                   else ''activated '' @ ver_text (art_version (top_artifact op)))\<rparr>, st, c)))"

text \<open>The part of an activation under the lock, after the gate.\<close>

definition synthetic_activate ::
    "target_operation \<Rightarrow> synthetic_adapter \<Rightarrow> activate_outcome result \<times> synthetic_adapter" where
  "synthetic_activate op s =
     (let s = log_call ''activate'' op
            (s\<lparr>sya_counters := (sya_counters s)\<lparr>syc_activate := syc_activate (sya_counters s) + 1\<rparr>\<rparr>)
      in with_target (tgt_id (top_target op)) FS_activate (activate_body (sya_claims s) op) s)"

definition verify_report :: "target_operation \<Rightarrow> synthetic_target \<Rightarrow> verify_outcome" where
  "verify_report op t =
     no_verify\<lparr>vo_observed_version := syt_version t, vo_observed_build := syt_build t,
       vo_healthy := syt_healthy t \<and> syt_process_alive t,
       vo_observed_at := top_now op + (- syt_health_age_offset t), vo_validity := syt_health_validity t,
       vo_incarnation := fen_incarnation (top_fence op), vo_checks := [''version'', ''health'']\<rparr>"

definition previous_incarnation :: "u64 \<Rightarrow> u64" where
  "previous_incarnation i = (if i = 0 then 1 else i - 1)"

definition verify_answer :: "target_operation \<Rightarrow> synthetic_target \<Rightarrow> synthetic_fault \<Rightarrow> verify_outcome" where
  "verify_answer op t fault =
     (let outcome = verify_report op t
      in case fault of
           SF_verify_failure \<Rightarrow>
             outcome\<lparr>vo_verified := False, vo_detail := ''the synthetic verification rejected the target''\<rparr>
         | SF_verify_unhealthy \<Rightarrow>
             outcome\<lparr>vo_verified := True, vo_healthy := False,
               vo_detail := ''the synthetic target reports unhealthy after activation''\<rparr>
         | SF_verify_stale \<Rightarrow>
             outcome\<lparr>vo_verified := True, vo_observed_at := top_now op + (- syt_health_validity t * 4),
               vo_detail := ''the verification evidence is older than its validity window''\<rparr>
         | SF_verify_foreign_incarnation \<Rightarrow>
             outcome\<lparr>vo_verified := True, vo_incarnation := previous_incarnation (vo_incarnation outcome),
               vo_detail := ''the verification evidence belongs to a previous incarnation''\<rparr>
         | _ \<Rightarrow>
             outcome\<lparr>vo_verified := True,
               vo_detail := ''the synthetic target runs '' @ ver_text (syt_version t) @ '' and is healthy''\<rparr>)"

definition synthetic_verify ::
    "target_operation \<Rightarrow> synthetic_adapter \<Rightarrow> verify_outcome result \<times> synthetic_adapter" where
  "synthetic_verify op s =
     (let s = log_call ''verify'' op
            (s\<lparr>sya_counters := (sya_counters s)\<lparr>syc_verify := syc_verify (sya_counters s) + 1\<rparr>\<rparr>)
      in with_target (tgt_id (top_target op)) FS_verify
           (\<lambda>fault st c. (Inr (verify_answer op (sst_target st) fault), st, c)) s)"

definition rollback_body ::
    "target_operation \<Rightarrow> synthetic_fault \<Rightarrow> target_state \<Rightarrow> adapter_counters \<Rightarrow>
     rollback_outcome result \<times> target_state \<times> adapter_counters" where
  "rollback_body op fault st c =
     (if fault = SF_rollback_failure
      then (fail EC_io_error ''the synthetic target refused the rollback'' [], st, c)
      else
        (let (duplicate, st, c) = already_done (''rollback:'' @ operation_key_to_string (top_key op)) st c;
             t = sst_target st;
             t = (if ver_empty (sst_previous_version st) then t
                  else t\<lparr>syt_version := sst_previous_version st, syt_build := sst_previous_build st\<rparr>);
             t = t\<lparr>syt_process_alive := True\<rparr>
         in (Inr \<lparr>ro_rolled_back = True, ro_already_rolled_back = duplicate, ro_observed_version = syt_version t,
               ro_observed_build = syt_build t,
               ro_detail = (if duplicate then ''the rollback was already applied (idempotent repeat)''
                 else ''restored '' @ ver_text (syt_version t))\<rparr>,
             st\<lparr>sst_target := t\<rparr>, c)))"

definition synthetic_rollback ::
    "target_operation \<Rightarrow> synthetic_adapter \<Rightarrow> rollback_outcome result \<times> synthetic_adapter" where
  "synthetic_rollback op s =
     (let s = log_call ''rollback'' op
            (s\<lparr>sya_counters := (sya_counters s)\<lparr>syc_rollback := syc_rollback (sya_counters s) + 1\<rparr>\<rparr>)
      in with_target (tgt_id (top_target op)) FS_rollback (rollback_body op) s)"

definition synthetic_process_alive :: "target_id \<Rightarrow> synthetic_adapter \<Rightarrow> bool result" where
  "synthetic_process_alive i s =
     (case table_get (sya_targets s) i of
        None \<Rightarrow> fail EC_not_found ''the synthetic adapter does not know this target'' i
      | Some st \<Rightarrow> Inr (syt_process_alive (sst_target st)))"

definition version_of :: "target_id \<Rightarrow> synthetic_adapter \<Rightarrow> version" where
  "version_of i s =
     (case table_get (sya_targets s) i of None \<Rightarrow> empty_version | Some st \<Rightarrow> syt_version (sst_target st))"

definition build_of :: "target_id \<Rightarrow> synthetic_adapter \<Rightarrow> build_id" where
  "build_of i s = (case table_get (sya_targets s) i of None \<Rightarrow> [] | Some st \<Rightarrow> syt_build (sst_target st))"

subsection \<open>Calls and steps\<close>

datatype synthetic_call =
    Call_observe target_id timestamp u64
  | Call_prepare target_operation
  | Call_activate target_operation
  | Call_verify target_operation
  | Call_rollback target_operation

fun run_call :: "synthetic_call \<Rightarrow> synthetic_adapter \<Rightarrow> synthetic_adapter" where
  "run_call (Call_observe i now incarnation) s = snd (synthetic_observe i now incarnation s)"
| "run_call (Call_prepare op) s = snd (synthetic_prepare op s)"
| "run_call (Call_activate op) s = snd (synthetic_activate op s)"
| "run_call (Call_verify op) s = snd (synthetic_verify op s)"
| "run_call (Call_rollback op) s = snd (synthetic_rollback op s)"

text \<open>What the threads of the engine and a test do to an adapter, in any order.\<close>

inductive synthetic_step :: "synthetic_adapter \<Rightarrow> synthetic_adapter \<Rightarrow> bool" where
  called: "synthetic_step s (run_call c s)"
| reaches: "synthetic_step s (snd (reach_gate activate s))"
| claims: "synthetic_step s (set_claims c s)"
| added: "synthetic_step s (add_target t s)"
| removed: "synthetic_step s (remove_target i s)"
| queued: "synthetic_step s (enqueue_fault i f s)"
| persistent: "synthetic_step s (set_persistent_fault i f s)"
| cleared: "synthetic_step s (clear_faults i s)"
| simulated: "synthetic_step s (change_simulated i g s)"
| made_gate: "synthetic_step s (s\<lparr>sya_gates := sya_gates s @ [\<lparr>sgt_open = False, sgt_reached = False\<rparr>]\<rparr>)"
| gated: "g < length (sya_gates s) \<Longrightarrow> synthetic_step s (if activate then gate_next_activate g s else gate_next_verify g s)"
| opened: "g < length (sya_gates s) \<Longrightarrow> synthetic_step s (open_gate g s)"

inductive synthetic_run :: "synthetic_adapter \<Rightarrow> bool" where
  created: "synthetic_run (new_synthetic_adapter i k)"
| stepped: "synthetic_run s \<Longrightarrow> synthetic_step s s' \<Longrightarrow> synthetic_run s'"

subsection \<open>The fault programme\<close>

lemma take_fault_Some:
  "take_fault scope xs = Some (f, rest) \<Longrightarrow>
     synthetic_fault_scope f = scope \<and>
     filter (\<lambda>f. synthetic_fault_scope f = scope) xs = f # filter (\<lambda>f. synthetic_fault_scope f = scope) rest \<and>
     filter (\<lambda>f. synthetic_fault_scope f \<noteq> scope) rest = filter (\<lambda>f. synthetic_fault_scope f \<noteq> scope) xs"
  by (induction xs arbitrary: rest) (auto split: if_splits option.splits)

lemma take_fault_None:
  "take_fault scope xs = None \<longleftrightarrow> filter (\<lambda>f. synthetic_fault_scope f = scope) xs = []"
  by (induction xs) (auto split: option.splits)

text \<open>The faults a target still has for the operations of a scope: its queue, then for ever the persistent one.\<close>

definition pending_faults :: "fault_scope \<Rightarrow> target_state \<Rightarrow> synthetic_fault list" where
  "pending_faults scope st = filter (\<lambda>f. synthetic_fault_scope f = scope) (sst_faults st)"

definition standing_fault :: "fault_scope \<Rightarrow> target_state \<Rightarrow> synthetic_fault" where
  "standing_fault scope st =
     (if synthetic_fault_scope (sst_persistent st) = scope then sst_persistent st else SF_none)"

text \<open>
  Faults are injected in the order they were queued, scope by scope.  An operation takes the oldest
  fault queued for its scope, or else the persistent fault of that scope, or none; it leaves the faults of every
  other scope as they are, in their order; and the count of injected faults grows by one exactly when the
  operation took a queued fault or met a persistent one.
\<close>

theorem faults_in_order:
  "case next_fault scope st c of (f, st', c') \<Rightarrow>
     f # pending_faults scope st' = (if pending_faults scope st = [] then [standing_fault scope st] else pending_faults scope st) \<and>
     (\<forall>other. other = scope \<or> pending_faults other st' = pending_faults other st) \<and>
     st' = st\<lparr>sst_faults := sst_faults st'\<rparr> \<and>
     syc_faults c' = syc_faults c +
       (if pending_faults scope st = [] \<and> standing_fault scope st = SF_none then 0 else 1)"
proof (cases "take_fault scope (sst_faults st)")
  case None
  then have "pending_faults scope st = []" by (simp add: take_fault_None pending_faults_def)
  with None show ?thesis by (simp add: next_fault_def standing_fault_def count_fault_def)
next
  case (Some p)
  obtain f rest where p: "p = (f, rest)" by force
  note found = take_fault_Some [OF Some [unfolded p]]
  have other: "filter (\<lambda>f. synthetic_fault_scope f = other) rest = filter (\<lambda>f. synthetic_fault_scope f = other) (sst_faults st)"
    if "other \<noteq> scope" for other
    using arg_cong [OF conjunct2 [OF conjunct2 [OF found]], of "filter (\<lambda>f. synthetic_fault_scope f = other)"] that
    by (simp add: filter_filter) (metis (mono_tags, lifting) filter_cong)
  show ?thesis using Some p found other by (auto simp: next_fault_def pending_faults_def count_fault_def)
qed

subsection \<open>Frames\<close>

lemma next_fault_frame:
  assumes "next_fault scope st c = (f, st', c')"
  shows "st' = st\<lparr>sst_faults := sst_faults st'\<rparr>" "c' = c\<lparr>syc_faults := syc_faults c'\<rparr>"
  using assms by (auto simp: next_fault_def count_fault_def split: option.splits if_splits)

lemma already_done_frame:
  assumes "already_done key st c = (d, st', c')"
  shows "st' = st\<lparr>sst_completed := sst_completed st'\<rparr>" "c' = c\<lparr>syc_duplicates := syc_duplicates c'\<rparr>"
    "d \<longleftrightarrow> key \<in> set (sst_completed st)" "\<not> d \<Longrightarrow> key \<in> set (sst_completed st')"
  using assms by (auto simp: already_done_def Let_def tl_append split: if_splits list.splits)

text \<open>The memory of an adapter for repeated operations is bounded and holds no key twice.\<close>

definition memory_ok :: "target_state \<Rightarrow> bool" where
  "memory_ok st \<longleftrightarrow> distinct (sst_completed st) \<and> length (sst_completed st) \<le> 128"

lemma already_done_memory:
  assumes "already_done key st c = (d, st', c')" "memory_ok st"
  shows "memory_ok st'"
  using assms by (auto simp: already_done_def memory_ok_def Let_def distinct_tl split: if_splits)

definition calls_logged :: "adapter_counters \<Rightarrow> u64" where
  "calls_logged c = syc_prepare c + syc_activate c + syc_verify c + syc_rollback c"

definition adapter_ok :: "synthetic_adapter \<Rightarrow> bool" where
  "adapter_ok s \<longleftrightarrow>
     (\<forall>i st. table_get (sya_targets s) i = Some st \<longrightarrow> memory_ok st) \<and>
     word_of_nat (length (sya_log s)) = calls_logged (sya_counters s)"

lemma with_target_ok:
  assumes "with_target i scope body s = (r, s')"
    and "\<And>f st c r st' c'. memory_ok st \<Longrightarrow> body f st c = (r, st', c') \<Longrightarrow> memory_ok st' \<and> calls_logged c' = calls_logged c"
    and "\<forall>i st. table_get (sya_targets s) i = Some st \<longrightarrow> memory_ok st"
  shows "(\<forall>i st. table_get (sya_targets s') i = Some st \<longrightarrow> memory_ok st) \<and> sya_log s' = sya_log s \<and>
    calls_logged (sya_counters s') = calls_logged (sya_counters s)"
proof (cases "table_get (sya_targets s) i")
  case None
  with assms(1,3) show ?thesis by (simp add: with_target_def)
next
  case (Some st)
  obtain f st1 c1 where f: "next_fault scope st (sya_counters s) = (f, st1, c1)" by (rule prod_cases3)
  obtain r2 st2 c2 where b: "body f st1 c1 = (r2, st2, c2)" by (rule prod_cases3)
  have s': "s' = s\<lparr>sya_targets := table_put (sya_targets s) i st2, sya_counters := c2\<rparr>"
    using assms(1) Some f b by (simp add: with_target_def)
  have "memory_ok st" using assms(3) Some by blast
  then have "memory_ok st1" using next_fault_frame(1) [OF f] by (metis memory_ok_def target_state.select_convs(8) target_state.surjective target_state.update_convs(6))
  from assms(2) [OF this b] have "memory_ok st2" "calls_logged c2 = calls_logged c1" by simp_all
  moreover have "calls_logged c1 = calls_logged (sya_counters s)"
    by (subst next_fault_frame(2) [OF f]) (simp add: calls_logged_def)
  ultimately show ?thesis using assms(3) by (simp add: s' store_table.get_put)
qed

lemma done_ok:
  assumes "memory_ok st" "already_done key st c = (d, st', c')"
  shows "memory_ok st' \<and> calls_logged c' = calls_logged c"
proof
  show "memory_ok st'" by (rule already_done_memory [OF assms(2,1)])
  show "calls_logged c' = calls_logged c"
    by (subst already_done_frame(2) [OF assms(2)]) (simp add: calls_logged_def)
qed

lemma memory_ok_fields [simp]:
  "memory_ok (st\<lparr>sst_target := t\<rparr>) = memory_ok st"
  "memory_ok (st\<lparr>sst_staged_version := v, sst_staged_build := b\<rparr>) = memory_ok st"
  "memory_ok (st\<lparr>sst_faults := fs\<rparr>) = memory_ok st" "memory_ok (st\<lparr>sst_persistent := f\<rparr>) = memory_ok st"
  "memory_ok (apply_activation a st) = memory_ok st"
  by (simp_all add: memory_ok_def apply_activation_def)

lemma observe_body_ok:
  assumes "memory_ok st" "observe_body source i now incarnation f st c = (r, st', c')"
  shows "memory_ok st' \<and> calls_logged c' = calls_logged c"
  using assms by (simp add: observe_body_def split: if_splits)

lemma prepare_body_ok:
  assumes "memory_ok st" "prepare_body op f st c = (r, st', c')"
  shows "memory_ok st' \<and> calls_logged c' = calls_logged c"
  using assms(2) done_ok [OF assms(1), of "''prepare:'' @ operation_key_to_string (top_key op)" c] assms(1)
  by (auto simp: prepare_body_def Let_def split: if_splits prod.splits)

lemma activate_body_ok:
  assumes "memory_ok st" "activate_body claims op f st c = (r, st', c')"
  shows "memory_ok st' \<and> calls_logged c' = calls_logged c"
  using assms(2) done_ok [OF assms(1), of "''activate:'' @ operation_key_to_string (top_key op)" c] assms(1)
  by (cases f) (auto simp: activate_body_def Let_def split: prod.splits)

lemma rollback_body_ok:
  assumes "memory_ok st" "rollback_body op f st c = (r, st', c')"
  shows "memory_ok st' \<and> calls_logged c' = calls_logged c"
  using assms(2) done_ok [OF assms(1), of "''rollback:'' @ operation_key_to_string (top_key op)" c] assms(1)
  by (auto simp: rollback_body_def Let_def split: if_splits prod.splits)

text \<open>An operation: one more call in its counter and, unless it is an observation, one more line in the log.\<close>

lemma logged_ok:
  assumes "adapter_ok s" "with_target i scope body (log_call what op (s\<lparr>sya_counters := c\<rparr>)) = (r, s')"
    and "calls_logged c = calls_logged (sya_counters s) + 1"
    and "\<And>f st c r st' c'. memory_ok st \<Longrightarrow> body f st c = (r, st', c') \<Longrightarrow> memory_ok st' \<and> calls_logged c' = calls_logged c"
  shows "adapter_ok s'"
proof -
  have targets: "\<forall>i st. table_get (sya_targets (log_call what op (s\<lparr>sya_counters := c\<rparr>))) i = Some st \<longrightarrow> memory_ok st"
    using assms(1) by (simp add: adapter_ok_def log_call_def)
  from with_target_ok [OF assms(2) assms(4) targets] assms(1,3)
  show ?thesis by (simp add: adapter_ok_def log_call_def)
qed

lemma run_call_ok:
  assumes "adapter_ok s"
  shows "adapter_ok (run_call c s)"
proof (cases c)
  case (Call_observe i now incarnation)
  let ?c = "(sya_counters s)\<lparr>syc_observe := syc_observe (sya_counters s) + 1\<rparr>"
  obtain r s' where r: "synthetic_observe i now incarnation s = (r, s')" by (rule prod.exhaust)
  then have w: "with_target i FS_observe (observe_body (sya_id s) i now incarnation) (s\<lparr>sya_counters := ?c\<rparr>) = (r, s')"
    by (simp add: synthetic_observe_def)
  have "(\<forall>i st. table_get (sya_targets s') i = Some st \<longrightarrow> memory_ok st) \<and> sya_log s' = sya_log (s\<lparr>sya_counters := ?c\<rparr>) \<and>
      calls_logged (sya_counters s') = calls_logged (sya_counters (s\<lparr>sya_counters := ?c\<rparr>))"
    by (rule with_target_ok [OF w observe_body_ok]) (use assms in \<open>simp_all add: adapter_ok_def\<close>)
  then have "adapter_ok s'" using assms by (simp add: adapter_ok_def calls_logged_def)
  with r show ?thesis by (simp add: Call_observe)
next
  case (Call_prepare op)
  let ?c = "(sya_counters s)\<lparr>syc_prepare := syc_prepare (sya_counters s) + 1\<rparr>"
  obtain r s' where r: "synthetic_prepare op s = (r, s')" by (rule prod.exhaust)
  then have w: "with_target (tgt_id (top_target op)) FS_prepare (prepare_body op) (log_call ''prepare'' op (s\<lparr>sya_counters := ?c\<rparr>)) = (r, s')"
    by (simp add: synthetic_prepare_def log_call_def)
  have "adapter_ok s'"
    by (rule logged_ok [OF assms w]) (simp add: calls_logged_def, erule prepare_body_ok, assumption)
  with r show ?thesis by (simp add: Call_prepare)
next
  case (Call_activate op)
  let ?c = "(sya_counters s)\<lparr>syc_activate := syc_activate (sya_counters s) + 1\<rparr>"
  obtain r s' where r: "synthetic_activate op s = (r, s')" by (rule prod.exhaust)
  then have w: "with_target (tgt_id (top_target op)) FS_activate (activate_body (sya_claims s) op) (log_call ''activate'' op (s\<lparr>sya_counters := ?c\<rparr>)) = (r, s')"
    by (simp add: synthetic_activate_def log_call_def)
  have "adapter_ok s'"
    by (rule logged_ok [OF assms w]) (simp add: calls_logged_def, erule activate_body_ok, assumption)
  with r show ?thesis by (simp add: Call_activate)
next
  case (Call_verify op)
  let ?c = "(sya_counters s)\<lparr>syc_verify := syc_verify (sya_counters s) + 1\<rparr>"
  obtain r s' where r: "synthetic_verify op s = (r, s')" by (rule prod.exhaust)
  then have w: "with_target (tgt_id (top_target op)) FS_verify (\<lambda>fault st c. (Inr (verify_answer op (sst_target st) fault), st, c)) (log_call ''verify'' op (s\<lparr>sya_counters := ?c\<rparr>)) = (r, s')"
    by (simp add: synthetic_verify_def log_call_def)
  have "adapter_ok s'"
    by (rule logged_ok [OF assms w]) (auto simp: calls_logged_def)
  with r show ?thesis by (simp add: Call_verify)
next
  case (Call_rollback op)
  let ?c = "(sya_counters s)\<lparr>syc_rollback := syc_rollback (sya_counters s) + 1\<rparr>"
  obtain r s' where r: "synthetic_rollback op s = (r, s')" by (rule prod.exhaust)
  then have w: "with_target (tgt_id (top_target op)) FS_rollback (rollback_body op) (log_call ''rollback'' op (s\<lparr>sya_counters := ?c\<rparr>)) = (r, s')"
    by (simp add: synthetic_rollback_def log_call_def)
  have "adapter_ok s'"
    by (rule logged_ok [OF assms w]) (simp add: calls_logged_def, erule rollback_body_ok, assumption)
  with r show ?thesis by (simp add: Call_rollback)
qed

lemma synthetic_step_ok:
  assumes "synthetic_step s s'" "adapter_ok s"
  shows "adapter_ok s'"
  using assms
proof (cases rule: synthetic_step.cases)
  case (called c)
  with assms run_call_ok show ?thesis by simp
next
  case (added t)
  with assms show ?thesis
    by (auto simp: adapter_ok_def add_target_def Let_def store_table.get_put new_target_state_def memory_ok_def)
next
  case (removed i)
  have "map_of (filter (\<lambda>(k, st). k \<noteq> i) t) j = (if j = i then None else map_of t j)" for t :: "target_state table" and j
    by (induction t) auto
  with assms removed show ?thesis by (auto simp: adapter_ok_def remove_target_def table_get_def split: if_splits)
qed (auto simp: adapter_ok_def set_claims_def enqueue_fault_def set_persistent_fault_def clear_faults_def
    change_simulated_def change_target_def reach_gate_def take_gate_def mark_reached_def open_gate_def
    gate_next_activate_def gate_next_verify_def store_table.get_put memory_ok_def split: option.splits prod.splits list.splits)

lemma synthetic_run_ok: "synthetic_run s \<Longrightarrow> adapter_ok s"
proof (induction rule: synthetic_run.induct)
  case (created i k)
  show ?case
    by (simp add: adapter_ok_def new_synthetic_adapter_def store_table.get_empty no_calls_def calls_logged_def)
next
  case (stepped s s')
  with synthetic_step_ok show ?case by blast
qed

text \<open>
  An adapter remembers the operations of a target within a bound, and its log misses no call.  However the
  calls of the engine, the fault programme and the gates interleave, the memory of completed operations of a target
  holds at most 128 keys and none twice, and the log of operations has exactly as many lines as there were calls of
  prepare, activate, verify and rollback (counted in 64 bits), whether or not the target was known.
\<close>

theorem adapter_memory_bounded:
  assumes "synthetic_run s"
  shows "(case table_get (sya_targets s) i of
       None \<Rightarrow> True
     | Some st \<Rightarrow> distinct (sst_completed st) \<and> length (sst_completed st) \<le> 128) \<and>
    word_of_nat (length (sya_log s)) =
      syc_prepare (sya_counters s) + syc_activate (sya_counters s) + syc_verify (sya_counters s) + syc_rollback (sya_counters s)"
  using synthetic_run_ok [OF assms]
  by (simp add: adapter_ok_def memory_ok_def calls_logged_def split: option.split)

subsection \<open>Activation and rollback\<close>

text \<open>Calls that neither activate nor roll back the target.\<close>

fun bystander :: "target_id \<Rightarrow> synthetic_call \<Rightarrow> bool" where
  "bystander i (Call_activate op) \<longleftrightarrow> tgt_id (top_target op) \<noteq> i"
| "bystander i (Call_rollback op) \<longleftrightarrow> tgt_id (top_target op) \<noteq> i"
| "bystander i _ \<longleftrightarrow> True"

definition fault_free :: "fault_scope \<Rightarrow> target_state \<Rightarrow> bool" where
  "fault_free scope st \<longleftrightarrow> pending_faults scope st = [] \<and> standing_fault scope st = SF_none"

lemma fault_free_next: "fault_free scope st \<Longrightarrow> next_fault scope st c = (SF_none, st, c)"
  by (auto simp: fault_free_def next_fault_def pending_faults_def standing_fault_def take_fault_None [symmetric] split: if_splits)

text \<open>What a rollback depends on.\<close>

definition undo_view :: "target_state \<Rightarrow> (version \<times> build_id \<times> version \<times> build_id) \<times> bool \<times> bool" where
  "undo_view st =
     ((syt_version (sst_target st), syt_build (sst_target st), sst_previous_version st, sst_previous_build st),
      fault_free FS_activate st, fault_free FS_rollback st)"

lemma undo_view_fields [simp]:
  "undo_view (st\<lparr>sst_completed := ks\<rparr>) = undo_view st"
  "undo_view (st\<lparr>sst_staged_version := v, sst_staged_build := b\<rparr>) = undo_view st"
  by (simp_all add: undo_view_def fault_free_def pending_faults_def standing_fault_def)

lemma already_done_view: "already_done key st c = (d, st', c') \<Longrightarrow> undo_view st' = undo_view st"
  by (auto simp: already_done_def Let_def split: if_splits)

lemma next_fault_view:
  assumes "next_fault scope st c = (f, st', c')" "scope \<noteq> FS_activate" "scope \<noteq> FS_rollback"
  shows "undo_view st' = undo_view st"
proof (cases "take_fault scope (sst_faults st)")
  case None
  with assms(1) show ?thesis by (auto simp: next_fault_def split: if_splits)
next
  case (Some p)
  obtain g rest where p: "p = (g, rest)" by force
  with Some assms(1) have st': "st' = st\<lparr>sst_faults := rest\<rparr>" by (simp add: next_fault_def)
  have other: "filter (\<lambda>f. synthetic_fault_scope f = other) rest = filter (\<lambda>f. synthetic_fault_scope f = other) (sst_faults st)"
    if "other \<noteq> scope" for other
    using arg_cong [OF conjunct2 [OF conjunct2 [OF take_fault_Some [OF Some [unfolded p]]]],
        of "filter (\<lambda>f. synthetic_fault_scope f = other)"] that
    by (simp add: filter_filter) (metis (mono_tags, lifting) filter_cong)
  show ?thesis using other [of FS_activate] other [of FS_rollback] assms(2,3)
    by (simp add: st' undo_view_def fault_free_def pending_faults_def standing_fault_def)
qed

lemma with_target_eq:
  "table_get (sya_targets s) i = Some st \<Longrightarrow> next_fault scope st (sya_counters s) = (f, st1, c1) \<Longrightarrow>
   body f st1 c1 = (r, st2, c2) \<Longrightarrow>
   with_target i scope body s = (r, s\<lparr>sya_targets := table_put (sya_targets s) i st2, sya_counters := c2\<rparr>)"
  by (simp add: with_target_def)

lemma with_target_view:
  assumes "with_target j scope body s = (r, s')" "table_get (sya_targets s) i = Some st"
    and "j = i \<Longrightarrow> scope \<noteq> FS_activate \<and> scope \<noteq> FS_rollback"
    and "\<And>f st c r st' c'. j = i \<Longrightarrow> body f st c = (r, st', c') \<Longrightarrow> undo_view st' = undo_view st"
  shows "\<exists>st'. table_get (sya_targets s') i = Some st' \<and> undo_view st' = undo_view st"
proof (cases "j = i")
  case True
  obtain f st1 c1 where f: "next_fault scope st (sya_counters s) = (f, st1, c1)" by (rule prod_cases3)
  obtain r2 st2 c2 where b: "body f st1 c1 = (r2, st2, c2)" by (rule prod_cases3)
  have "s' = s\<lparr>sya_targets := table_put (sya_targets s) i st2, sya_counters := c2\<rparr>"
    using assms(1,2) True f b by (simp add: with_target_def)
  moreover have "undo_view st2 = undo_view st"
    using assms(4) [OF True b] next_fault_view [OF f] assms(3) [OF True] by simp
  ultimately show ?thesis by (simp add: store_table.get_put)
next
  case False
  with assms(1,2) show ?thesis
    by (auto simp: with_target_def store_table.get_put split: option.splits prod.splits)
qed

lemma bystander_view:
  assumes "bystander i c" "table_get (sya_targets s) i = Some st"
  shows "\<exists>st'. table_get (sya_targets (run_call c s)) i = Some st' \<and> undo_view st' = undo_view st"
proof (cases c)
  case (Call_observe j now incarnation)
  obtain r s' where r: "synthetic_observe j now incarnation s = (r, s')" by (rule prod.exhaust)
  have body: "undo_view st' = undo_view st" if "observe_body source k t n f st c = (r, st', c')" for source k t n f st c r st' c'
    using that by (simp add: observe_body_def split: if_splits)
  from r with_target_view [OF r [unfolded synthetic_observe_def Let_def], of i st] body assms(2) show ?thesis
    by (simp add: Call_observe)
next
  case (Call_prepare op)
  obtain r s' where r: "synthetic_prepare op s = (r, s')" by (rule prod.exhaust)
  have body: "undo_view st' = undo_view st" if "prepare_body op f st c = (r, st', c')" for f st c r st' c'
    using that by (auto simp: prepare_body_def Let_def dest: already_done_view split: if_splits prod.splits)
  from r with_target_view [OF r [unfolded synthetic_prepare_def Let_def], of i st] body assms(2) show ?thesis
    by (simp add: Call_prepare log_call_def)
next
  case (Call_verify op)
  obtain r s' where r: "synthetic_verify op s = (r, s')" by (rule prod.exhaust)
  with with_target_view [OF r [unfolded synthetic_verify_def Let_def], of i st] assms(2) show ?thesis
    by (simp add: Call_verify log_call_def)
next
  case (Call_activate op)
  obtain r s' where r: "synthetic_activate op s = (r, s')" by (rule prod.exhaust)
  with with_target_view [OF r [unfolded synthetic_activate_def Let_def], of i st] assms show ?thesis
    by (simp add: Call_activate log_call_def)
next
  case (Call_rollback op)
  obtain r s' where r: "synthetic_rollback op s = (r, s')" by (rule prod.exhaust)
  with with_target_view [OF r [unfolded synthetic_rollback_def Let_def], of i st] assms show ?thesis
    by (simp add: Call_rollback log_call_def)
qed

definition run_calls :: "synthetic_call list \<Rightarrow> synthetic_adapter \<Rightarrow> synthetic_adapter" where
  "run_calls cs s = foldl (\<lambda>s c. run_call c s) s cs"

lemma bystanders_view:
  "list_all (bystander i) cs \<Longrightarrow> table_get (sya_targets s) i = Some st \<Longrightarrow>
   \<exists>st'. table_get (sya_targets (run_calls cs s)) i = Some st' \<and> undo_view st' = undo_view st"
proof (induction cs arbitrary: s st)
  case (Cons c cs)
  from bystander_view [of i c s st] Cons.prems obtain st1 where
    st1: "table_get (sya_targets (run_call c s)) i = Some st1" "undo_view st1 = undo_view st" by auto
  from Cons.IH [OF _ st1(1)] Cons.prems(1) st1(2) show ?case by (simp add: run_calls_def)
qed (simp add: run_calls_def)

lemma activate_effect:
  assumes "table_get (sya_targets s) i = Some st" "tgt_id (top_target op) = i" "fault_free FS_activate st"
  shows "\<exists>r s' st'. synthetic_activate op s = (Inr r, s') \<and> ao_activated r \<and>
    ao_already_active r = (''activate:'' @ operation_key_to_string (top_key op) \<in> set (sst_completed st)) \<and>
    (''activate:'' @ operation_key_to_string (top_key op)) \<in> set (sst_completed st') \<and>
    ao_observed_version r = art_version (top_artifact op) \<and>
    table_get (sya_targets s') i = Some st' \<and>
    undo_view st' = ((art_version (top_artifact op), art_build (top_artifact op), syt_version (sst_target st), syt_build (sst_target st)),
      True, fault_free FS_rollback st)"
proof -
  let ?key = "''activate:'' @ operation_key_to_string (top_key op)"
  define s0 where "s0 = log_call ''activate'' op (s\<lparr>sya_counters := (sya_counters s)\<lparr>syc_activate := syc_activate (sya_counters s) + 1\<rparr>\<rparr>)"
  obtain d st1 c1 where d: "already_done ?key st (sya_counters s0) = (d, st1, c1)" by (rule prod_cases3)
  define st2 where "st2 = (apply_activation (top_artifact op) st1)\<lparr>sst_target :=
    (sst_target (apply_activation (top_artifact op) st1))\<lparr>syt_process_alive := True\<rparr>\<rparr>"
  have get: "table_get (sya_targets s0) i = Some st" using assms(1) by (simp add: s0_def log_call_def)
  note frame = already_done_frame [OF d]
  have same: "sst_target st1 = sst_target st" "sst_faults st1 = sst_faults st" "sst_persistent st1 = sst_persistent st"
    by (subst frame(1); simp)+
  have completed: "?key \<in> set (sst_completed st2)"
    using frame(3,4) d by (cases d) (auto simp: st2_def apply_activation_def already_done_def Let_def split: if_splits)
  have view: "undo_view st2 = ((art_version (top_artifact op), art_build (top_artifact op), syt_version (sst_target st), syt_build (sst_target st)),
      True, fault_free FS_rollback st)"
    using assms(3) by (simp add: st2_def undo_view_def apply_activation_def same fault_free_def pending_faults_def standing_fault_def split: if_splits)
  have "\<exists>restart detail. activate_body (sya_claims s0) op SF_none st (sya_counters s0) =
      (Inr \<lparr>ao_activated = True, ao_already_active = d, ao_restart_performed = restart,
         ao_observed_version = art_version (top_artifact op), ao_observed_build = art_build (top_artifact op),
         ao_detail = detail\<rparr>, st2, c1)"
    using d by (simp add: activate_body_def st2_def apply_activation_def)
  then obtain restart detail where body: "activate_body (sya_claims s0) op SF_none st (sya_counters s0) =
      (Inr \<lparr>ao_activated = True, ao_already_active = d, ao_restart_performed = restart,
         ao_observed_version = art_version (top_artifact op), ao_observed_build = art_build (top_artifact op),
         ao_detail = detail\<rparr>, st2, c1)" by blast
  have "synthetic_activate op s = with_target i FS_activate (activate_body (sya_claims s0) op) s0"
    by (simp add: synthetic_activate_def s0_def assms(2) Let_def)
  with with_target_eq [where body = "activate_body (sya_claims s0) op", OF get fault_free_next [OF assms(3)] body] completed view frame(3) show ?thesis
    by (simp add: store_table.get_put)
qed

lemma rollback_effect:
  assumes "table_get (sya_targets s) i = Some st" "tgt_id (top_target op) = i" "fault_free FS_rollback st"
  shows "\<exists>r s' st'. synthetic_rollback op s = (Inr r, s') \<and> ro_rolled_back r \<and> table_get (sya_targets s') i = Some st' \<and>
    ro_observed_version r = syt_version (sst_target st') \<and> ro_observed_build r = syt_build (sst_target st') \<and>
    syt_process_alive (sst_target st') \<and>
    (syt_version (sst_target st'), syt_build (sst_target st')) =
      (if ver_empty (sst_previous_version st) then (syt_version (sst_target st), syt_build (sst_target st))
       else (sst_previous_version st, sst_previous_build st))"
proof -
  let ?key = "''rollback:'' @ operation_key_to_string (top_key op)"
  define s0 where "s0 = log_call ''rollback'' op (s\<lparr>sya_counters := (sya_counters s)\<lparr>syc_rollback := syc_rollback (sya_counters s) + 1\<rparr>\<rparr>)"
  obtain d st1 c1 where d: "already_done ?key st (sya_counters s0) = (d, st1, c1)" by (rule prod_cases3)
  have get: "table_get (sya_targets s0) i = Some st" using assms(1) by (simp add: s0_def log_call_def)
  have same: "sst_target st1 = sst_target st" "sst_previous_version st1 = sst_previous_version st"
    "sst_previous_build st1 = sst_previous_build st"
    by (subst already_done_frame(1) [OF d]; simp)+
  define t where "t = (if ver_empty (sst_previous_version st) then sst_target st
    else (sst_target st)\<lparr>syt_version := sst_previous_version st, syt_build := sst_previous_build st\<rparr>)\<lparr>syt_process_alive := True\<rparr>"
  have "\<exists>detail. rollback_body op SF_none st (sya_counters s0) =
      (Inr \<lparr>ro_rolled_back = True, ro_already_rolled_back = d, ro_observed_version = syt_version t,
         ro_observed_build = syt_build t, ro_detail = detail\<rparr>, st1\<lparr>sst_target := t\<rparr>, c1)"
    using d by (simp add: rollback_body_def same t_def Let_def)
  then obtain detail where body: "rollback_body op SF_none st (sya_counters s0) =
      (Inr \<lparr>ro_rolled_back = True, ro_already_rolled_back = d, ro_observed_version = syt_version t,
         ro_observed_build = syt_build t, ro_detail = detail\<rparr>, st1\<lparr>sst_target := t\<rparr>, c1)" by blast
  have "synthetic_rollback op s = with_target i FS_rollback (rollback_body op) s0"
    by (simp add: synthetic_rollback_def s0_def assms(2) Let_def)
  with with_target_eq [where body = "rollback_body op", OF get fault_free_next [OF assms(3)] body] show ?thesis
    by (simp add: store_table.get_put) (simp add: t_def)
qed

text \<open>
  C36: a rollback restores what the last activation replaced, and only that.  After an undisturbed activation
  of a target that ran a version, whatever else is called that does not activate or roll back this target, a rollback
  brings back the version and the build it ran before.  But when the same activation is delivered twice (the adapter
  reports the repeat as already applied), the version and build to go back to have become the new ones: the rollback
  answers that it rolled back and reports the new version and build as what the target runs, which it still does.
\<close>

theorem rollback_restores:
  assumes "table_get (sya_targets s) i = Some st" "tgt_id (top_target op) = i" "tgt_id (top_target back) = i"
    and "fault_free FS_activate st" "fault_free FS_rollback st"
    and "\<not> ver_empty (syt_version (sst_target st))" "list_all (bystander i) calls"
  shows "(\<exists>r s'. synthetic_rollback back (run_calls calls (run_call (Call_activate op) s)) = (Inr r, s') \<and>
      ro_rolled_back r \<and>
      version_of i s' = syt_version (sst_target st) \<and> ro_observed_version r = syt_version (sst_target st) \<and>
      build_of i s' = syt_build (sst_target st) \<and> ro_observed_build r = syt_build (sst_target st)) \<and>
    (\<exists>a t r s'. synthetic_activate op (run_call (Call_activate op) s) = (Inr a, t) \<and> ao_already_active a \<and>
      synthetic_rollback back (run_calls calls t) = (Inr r, s') \<and>
      ro_rolled_back r \<and> version_of i s' = art_version (top_artifact op) \<and> build_of i s' = art_build (top_artifact op) \<and>
      ro_observed_version r = art_version (top_artifact op) \<and> ro_observed_build r = art_build (top_artifact op))"
proof -
  obtain a s1 st1 where one: "synthetic_activate op s = (Inr a, s1)" "table_get (sya_targets s1) i = Some st1"
    "''activate:'' @ operation_key_to_string (top_key op) \<in> set (sst_completed st1)"
    "undo_view st1 = ((art_version (top_artifact op), art_build (top_artifact op), syt_version (sst_target st), syt_build (sst_target st)),
      True, True)"
    using activate_effect [OF assms(1,2,4)] assms(5) by auto
  have free1: "fault_free FS_activate st1" "syt_version (sst_target st1) = art_version (top_artifact op)"
    "syt_build (sst_target st1) = art_build (top_artifact op)" "fault_free FS_rollback st1"
    using one(4) by (simp_all add: undo_view_def)
  obtain b s2 st2 where two: "synthetic_activate op s1 = (Inr b, s2)" "ao_already_active b" "table_get (sya_targets s2) i = Some st2"
    "undo_view st2 = ((art_version (top_artifact op), art_build (top_artifact op), art_version (top_artifact op), art_build (top_artifact op)),
      True, True)"
    using activate_effect [OF one(2) assms(2) free1(1)] one(3) free1(2-4) by auto
  obtain u where u: "table_get (sya_targets (run_calls calls s1)) i = Some u" "undo_view u = undo_view st1"
    using bystanders_view [OF assms(7) one(2)] by blast
  obtain v where v: "table_get (sya_targets (run_calls calls s2)) i = Some v" "undo_view v = undo_view st2"
    using bystanders_view [OF assms(7) two(3)] by blast
  have "fault_free FS_rollback u" "fault_free FS_rollback v" using u(2) v(2) one(4) two(4) by (simp_all add: undo_view_def)
  from rollback_effect [OF u(1) assms(3) this(1)] rollback_effect [OF v(1) assms(3) this(2)] one two u v assms(6)
  show ?thesis by (auto simp: version_of_def build_of_def undo_view_def split: if_splits)
qed

end
