(* ===== verification/Adapter_Fabric.thy ===== *)
theory Adapter_Fabric
  imports Adapter_Synthetic Engine_Contract Engine_Samples
begin

text \<open>
  The synthetic stand-ins for the other fabric systems (\<open>adapters/synthetic_adapter\<close>), and the world made of
  them: a fabric holds the adapters, the stand-ins and a manual clock, and every port of the engine is a function on
  it.  The properties of this theory are about the engine and the synthetic adapter together.
\<close>

subsection \<open>Compatibility registry\<close>

record matrix_entry =
  cme_component :: component_id
  cme_from :: version
  cme_to :: version
  cme_compatible :: bool
  cme_reason :: string
  cme_rollback_supported :: bool
  cme_rollback_boundary :: string

record synthetic_registry =
  syr_revision :: string
  syr_entries :: "matrix_entry list"
  syr_answered :: bool
  syr_has_failure :: bool
  syr_failure :: error_code
  syr_default :: bool
  syr_queries :: nat

definition new_synthetic_registry :: "string \<Rightarrow> synthetic_registry" where
  "new_synthetic_registry revision =
     \<lparr>syr_revision = revision, syr_entries = [], syr_answered = True, syr_has_failure = False,
      syr_failure = EC_ok, syr_default = False, syr_queries = 0\<rparr>"

definition add_entry :: "matrix_entry \<Rightarrow> synthetic_registry \<Rightarrow> synthetic_registry" where
  "add_entry x s = s\<lparr>syr_entries := syr_entries s @ [x]\<rparr>"

definition set_revision :: "string \<Rightarrow> synthetic_registry \<Rightarrow> synthetic_registry" where
  "set_revision t s = s\<lparr>syr_revision := t\<rparr>"

definition set_answered :: "bool \<Rightarrow> synthetic_registry \<Rightarrow> synthetic_registry" where
  "set_answered b s = s\<lparr>syr_answered := b\<rparr>"

text \<open>Only the code is stored: nothing ever sets the flag that the query looks at.\<close>

definition set_query_failure :: "error_code \<Rightarrow> synthetic_registry \<Rightarrow> synthetic_registry" where
  "set_query_failure code s = s\<lparr>syr_failure := code\<rparr>"

definition set_default_compatible :: "bool \<Rightarrow> synthetic_registry \<Rightarrow> synthetic_registry" where
  "set_default_compatible b s = s\<lparr>syr_default := b\<rparr>"

definition entry_covers :: "compatibility_query \<Rightarrow> matrix_entry \<Rightarrow> bool" where
  "entry_covers q x \<longleftrightarrow> cme_component x = cq_component q \<and> ver_eq (cme_from x) (cq_from_version q) \<and>
     ver_eq (cme_to x) (cq_to_version q)"

definition synthetic_verdict :: "synthetic_registry \<Rightarrow> compatibility_query \<Rightarrow> compatibility_verdict" where
  "synthetic_verdict s q =
     (let v = no_verdict\<lparr>cv_answered := syr_answered s, cv_registry_revision := syr_revision s,
            cv_registry_policy := ''synthetic-compatibility-policy'', cv_validity := from_seconds 300\<rparr>
      in if \<not> syr_answered s then v\<lparr>cv_detail := ''the synthetic registry declines to answer''\<rparr>
         else
           (let v = v\<lparr>cv_constraints := [''component='' @ cq_component q, ''from='' @ ver_text (cq_from_version q),
                  ''to='' @ ver_text (cq_to_version q), ''platform='' @ cq_platform q], cv_compatible := syr_default s\<rparr>;
                v = (case List.find (entry_covers q) (syr_entries s) of
                  Some x \<Rightarrow>
                    v\<lparr>cv_compatible := cme_compatible x, cv_rollback_supported := cme_rollback_supported x,
                      cv_rollback_boundary := cme_rollback_boundary x,
                      cv_rollback_artifact_known := cme_rollback_supported x,
                      cv_blockers := (if cme_compatible x then []
                        else [if cme_reason x = [] then ''declared incompatible by the registry'' else cme_reason x])\<rparr>
                | None \<Rightarrow>
                    if syr_default s then v
                    else v\<lparr>cv_blockers := [''no compatibility entry covers '' @ ver_text (cq_from_version q) @
                      '' -> '' @ ver_text (cq_to_version q)]\<rparr>)
            in v\<lparr>cv_detail := (if cv_compatible v then ''compatible'' else ''incompatible'')\<rparr>))"

definition registry_query ::
    "compatibility_query \<Rightarrow> synthetic_registry \<Rightarrow> compatibility_verdict result \<times> synthetic_registry" where
  "registry_query q s =
     (let s = s\<lparr>syr_queries := syr_queries s + 1\<rparr>
      in if syr_has_failure s
         then (fail (syr_failure s) ''the synthetic compatibility registry refused the query'' [], s)
         else (Inr (synthetic_verdict s q), s))"

subsection \<open>Inventory\<close>

record synthetic_inventory =
  sin_targets :: "target_descriptor list"
  sin_has_failure :: bool
  sin_failure :: error_code
  sin_fail_next :: bool
  sin_resolves :: nat

definition new_inventory :: synthetic_inventory where
  "new_inventory = \<lparr>sin_targets = [], sin_has_failure = False, sin_failure = EC_ok, sin_fail_next = False, sin_resolves = 0\<rparr>"

definition set_targets :: "target_descriptor list \<Rightarrow> synthetic_inventory \<Rightarrow> synthetic_inventory" where
  "set_targets ds s = s\<lparr>sin_targets := ds\<rparr>"

fun replace_descriptor :: "target_descriptor \<Rightarrow> target_descriptor list \<Rightarrow> target_descriptor list" where
  "replace_descriptor d [] = [d]"
| "replace_descriptor d (x # xs) = (if tgt_id x = tgt_id d then d # xs else x # replace_descriptor d xs)"

definition inventory_add_target :: "target_descriptor \<Rightarrow> synthetic_inventory \<Rightarrow> synthetic_inventory" where
  "inventory_add_target d s = s\<lparr>sin_targets := replace_descriptor d (sin_targets s)\<rparr>"

definition inventory_set_failure :: "error_code \<Rightarrow> synthetic_inventory \<Rightarrow> synthetic_inventory" where
  "inventory_set_failure code s = s\<lparr>sin_failure := code, sin_has_failure := (code \<noteq> EC_ok)\<rparr>"

definition set_fail_next :: "bool \<Rightarrow> synthetic_inventory \<Rightarrow> synthetic_inventory" where
  "set_fail_next b s = s\<lparr>sin_fail_next := b\<rparr>"

definition inventory_resolve ::
    "timestamp \<Rightarrow> u64 \<Rightarrow> synthetic_inventory \<Rightarrow> target_descriptor list result \<times> synthetic_inventory" where
  "inventory_resolve now incarnation s =
     (let s = s\<lparr>sin_resolves := sin_resolves s + 1\<rparr>
      in if sin_has_failure s then (fail (sin_failure s) ''the synthetic inventory source failed'' [], s)
         else if sin_fail_next s
         then (fail EC_io_error ''the synthetic inventory source failed once'' [], s\<lparr>sin_fail_next := False\<rparr>)
         else (Inr (sin_targets s), s))"

subsection \<open>Artifact source\<close>

text \<open>
  The source writes its payloads into a temporary directory of its own: \<open>sas_files\<close> is what that directory holds.
  The answer of the file system to a write is an argument.
\<close>

record artifact_source =
  sas_directory :: string
  sas_files :: "string table"
  sas_paths :: "string table"
  sas_missing :: "string list"
  sas_has_failure :: bool
  sas_failure :: error_code

definition new_artifact_source :: "string option \<Rightarrow> artifact_source" where
  "new_artifact_source directory =
     \<lparr>sas_directory = (case directory of Some d \<Rightarrow> d | None \<Rightarrow> ''fum-artifacts-fallback''), sas_files = [], sas_paths = [],
      sas_missing = [], sas_has_failure = False, sas_failure = EC_ok\<rparr>"

definition publish :: "status \<Rightarrow> artifact_descriptor \<Rightarrow> string \<Rightarrow> bool \<Rightarrow> artifact_source \<Rightarrow> status \<times> artifact_source" where
  "publish written a payload corrupt s =
     (if sas_directory s = [] then (fail EC_io_error ''the synthetic artifact source has no directory'' [], s)
      else
        (let path = fs_join (sas_directory s) (art_id a @ ''.bin'');
             bytes = (if corrupt then payload @ ''-corrupted'' else payload)
         in case written of
              Inl e \<Rightarrow> (Inl e, s)
            | Inr _ \<Rightarrow> (ok_status, s\<lparr>sas_files := table_put (sas_files s) path bytes,
                sas_paths := table_put (sas_paths s) (art_id a) path,
                sas_missing := filter (\<lambda>k. k \<noteq> art_id a) (sas_missing s)\<rparr>)))"

definition set_missing :: "artifact_id \<Rightarrow> artifact_source \<Rightarrow> artifact_source" where
  "set_missing i s = s\<lparr>sas_missing := i # sas_missing s\<rparr>"

definition artifact_set_failure :: "error_code \<Rightarrow> artifact_source \<Rightarrow> artifact_source" where
  "artifact_set_failure code s = s\<lparr>sas_failure := code, sas_has_failure := (code \<noteq> EC_ok)\<rparr>"

definition artifact_resolve :: "artifact_descriptor \<Rightarrow> artifact_source \<Rightarrow> artifact_payload result" where
  "artifact_resolve a s =
     (if sas_has_failure s then fail (sas_failure s) ''the synthetic artifact source failed'' []
      else case (table_get (sas_paths s) (art_id a), art_id a \<in> set (sas_missing s)) of
        (Some path, False) \<Rightarrow>
          Inr \<lparr>apl_path = path,
            apl_bytes = (case table_get (sas_files s) path of None \<Rightarrow> 0 | Some b \<Rightarrow> word_of_nat (length b)),
            apl_present = True, apl_detail = ''resolved''\<rparr>
      | _ \<Rightarrow> Inr (no_payload\<lparr>apl_detail := ''the synthetic artifact source has no bytes for '' @ art_id a\<rparr>))"

subsection \<open>Health probe\<close>

record health_entry =
  hen_healthy :: bool
  hen_detail :: string
  hen_validity :: duration
  hen_age_offset :: duration
  hen_foreign :: bool

definition default_health :: health_entry where
  "default_health = \<lparr>hen_healthy = True, hen_detail = ''synthetic health ok'', hen_validity = from_seconds 30,
     hen_age_offset = 0, hen_foreign = False\<rparr>"

record health_probe =
  shp_entries :: "health_entry table"
  shp_has_failure :: bool
  shp_failure :: error_code
  shp_probes :: nat

definition new_health_probe :: health_probe where
  "new_health_probe = \<lparr>shp_entries = [], shp_has_failure = False, shp_failure = EC_ok, shp_probes = 0\<rparr>"

text \<open>\<open>entries_[key]\<close> makes a default entry for an unknown key.\<close>

definition health_entry_of :: "health_probe \<Rightarrow> target_id \<Rightarrow> health_entry" where
  "health_entry_of s i = (case table_get (shp_entries s) i of None \<Rightarrow> default_health | Some x \<Rightarrow> x)"

definition change_health :: "target_id \<Rightarrow> (health_entry \<Rightarrow> health_entry) \<Rightarrow> health_probe \<Rightarrow> health_probe" where
  "change_health i f s = s\<lparr>shp_entries := table_put (shp_entries s) i (f (health_entry_of s i))\<rparr>"

definition probe_set_health :: "target_id \<Rightarrow> bool \<Rightarrow> string \<Rightarrow> health_probe \<Rightarrow> health_probe" where
  "probe_set_health i healthy detail = change_health i (\<lambda>x. x\<lparr>hen_healthy := healthy, hen_detail := detail\<rparr>)"

definition probe_set_validity :: "target_id \<Rightarrow> duration \<Rightarrow> health_probe \<Rightarrow> health_probe" where
  "probe_set_validity i v = change_health i (\<lambda>x. x\<lparr>hen_validity := v\<rparr>)"

definition probe_set_age_offset :: "target_id \<Rightarrow> duration \<Rightarrow> health_probe \<Rightarrow> health_probe" where
  "probe_set_age_offset i v = change_health i (\<lambda>x. x\<lparr>hen_age_offset := v\<rparr>)"

definition probe_set_foreign :: "target_id \<Rightarrow> bool \<Rightarrow> health_probe \<Rightarrow> health_probe" where
  "probe_set_foreign i b = change_health i (\<lambda>x. x\<lparr>hen_foreign := b\<rparr>)"

definition probe_set_failure :: "error_code \<Rightarrow> health_probe \<Rightarrow> health_probe" where
  "probe_set_failure code s = s\<lparr>shp_failure := code, shp_has_failure := (code \<noteq> EC_ok)\<rparr>"

definition probe_clear :: "health_probe \<Rightarrow> health_probe" where
  "probe_clear s = s\<lparr>shp_entries := []\<rparr>"

definition probe_report :: "health_entry \<Rightarrow> timestamp \<Rightarrow> u64 \<Rightarrow> health_report" where
  "probe_report x now incarnation =
     \<lparr>hr_healthy = hen_healthy x, hr_checks = [''synthetic-liveness'', ''synthetic-readiness''],
      hr_detail = hen_detail x, hr_observed_at = now + (- hen_age_offset x), hr_validity = hen_validity x,
      hr_incarnation = (if hen_foreign x then previous_incarnation incarnation else incarnation)\<rparr>"

definition probe_health :: "target_id \<Rightarrow> timestamp \<Rightarrow> u64 \<Rightarrow> health_probe \<Rightarrow> health_report result \<times> health_probe" where
  "probe_health i now incarnation s =
     (let s = s\<lparr>shp_probes := shp_probes s + 1\<rparr>
      in if shp_has_failure s then (fail (shp_failure s) ''the synthetic health probe failed'' [], s)
         else (Inr (probe_report (health_entry_of s i) now incarnation), s))"

subsection \<open>Drain, rollout, configuration, ledger\<close>

record drain_fabric =
  sdf_refuse :: bool
  sdf_detail :: string
  sdf_still_drained :: bool
  sdf_acquisitions :: nat
  sdf_releases :: nat
  sdf_counter :: nat

definition new_drain_fabric :: drain_fabric where
  "new_drain_fabric = \<lparr>sdf_refuse = False, sdf_detail = [], sdf_still_drained = True, sdf_acquisitions = 0,
     sdf_releases = 0, sdf_counter = 0\<rparr>"

definition set_refuse :: "bool \<Rightarrow> string \<Rightarrow> drain_fabric \<Rightarrow> drain_fabric" where
  "set_refuse b detail s = s\<lparr>sdf_refuse := b, sdf_detail := detail\<rparr>"

definition set_still_drained :: "bool \<Rightarrow> drain_fabric \<Rightarrow> drain_fabric" where
  "set_still_drained b s = s\<lparr>sdf_still_drained := b\<rparr>"

definition drain_acquire :: "drain_request \<Rightarrow> drain_fabric \<Rightarrow> drain_ticket result \<times> drain_fabric" where
  "drain_acquire r s =
     (if sdf_refuse s then (fail EC_policy_denied ''the synthetic drain fabric refused'' (sdf_detail s), s)
      else
        (let s = s\<lparr>sdf_acquisitions := sdf_acquisitions s + 1, sdf_counter := sdf_counter s + 1\<rparr>
         in (Inr \<lparr>dt_ticket = ''drain-'' @ dec_digits (sdf_counter s), dt_target = dr_target r, dt_acquired_at = dr_at r,
               dt_expires_at = dr_at r + from_seconds 300, dt_validity = from_seconds 300, dt_valid = True,
               dt_detail = ''drained for upgrade''\<rparr>, s)))"

definition drain_release :: "drain_ticket \<Rightarrow> drain_fabric \<Rightarrow> status \<times> drain_fabric" where
  "drain_release t s = (ok_status, s\<lparr>sdf_releases := sdf_releases s + 1\<rparr>)"

definition still_drained :: "drain_ticket \<Rightarrow> drain_fabric \<Rightarrow> bool result" where
  "still_drained t s = Inr (sdf_still_drained s)"

record rollout_fabric =
  srf_admit :: bool
  srf_detail :: string
  srf_admissions :: nat
  srf_counter :: nat

definition new_rollout_fabric :: rollout_fabric where
  "new_rollout_fabric = \<lparr>srf_admit = True, srf_detail = [], srf_admissions = 0, srf_counter = 0\<rparr>"

definition set_admit :: "bool \<Rightarrow> string \<Rightarrow> rollout_fabric \<Rightarrow> rollout_fabric" where
  "set_admit b detail s = s\<lparr>srf_admit := b, srf_detail := detail\<rparr>"

definition rollout_admit :: "rollout_request \<Rightarrow> rollout_fabric \<Rightarrow> rollout_admission result \<times> rollout_fabric" where
  "rollout_admit r s =
     (let s = s\<lparr>srf_admissions := srf_admissions s + 1, srf_counter := srf_counter s + 1\<rparr>
      in (Inr \<lparr>ra_admitted = srf_admit s,
            ra_change_id = (if srf_admit s then ''change-'' @ dec_digits (srf_counter s) else []),
            ra_window = ''synthetic-window'', ra_constraints = (if srf_admit s then [] else [srf_detail s]),
            ra_detail = (if srf_admit s then ''admitted'' else srf_detail s)\<rparr>, s))"

definition stage_started :: "string \<Rightarrow> stage_id \<Rightarrow> target_id list \<Rightarrow> timestamp \<Rightarrow> rollout_fabric \<Rightarrow> status \<times> rollout_fabric" where
  "stage_started change stage ts now s = (ok_status, s)"

definition stage_completed :: "string \<Rightarrow> stage_id \<Rightarrow> timestamp \<Rightarrow> rollout_fabric \<Rightarrow> status \<times> rollout_fabric" where
  "stage_completed change stage now s = (ok_status, s)"

definition rollout_release :: "string \<Rightarrow> timestamp \<Rightarrow> rollout_fabric \<Rightarrow> status \<times> rollout_fabric" where
  "rollout_release change now s = (ok_status, s)"

record configuration_fabric =
  scf_has_failure :: bool
  scf_failure :: error_code
  scf_deliveries :: nat
  scf_versions :: "string list"

definition new_configuration_fabric :: configuration_fabric where
  "new_configuration_fabric = \<lparr>scf_has_failure = False, scf_failure = EC_ok, scf_deliveries = 0, scf_versions = []\<rparr>"

definition configuration_set_failure :: "error_code \<Rightarrow> configuration_fabric \<Rightarrow> configuration_fabric" where
  "configuration_set_failure code s = s\<lparr>scf_failure := code, scf_has_failure := (code \<noteq> EC_ok)\<rparr>"

definition deliver :: "configuration_delivery \<Rightarrow> configuration_fabric \<Rightarrow> status \<times> configuration_fabric" where
  "deliver d s =
     (if scf_has_failure s then (fail (scf_failure s) ''the synthetic configuration fabric refused delivery'' [], s)
      else (ok_status, s\<lparr>scf_deliveries := scf_deliveries s + 1,
        scf_versions := scf_versions s @ [cd_target d @ ''@'' @ ver_text (cd_version d)]\<rparr>))"

definition current_revision :: "target_id \<Rightarrow> configuration_fabric \<Rightarrow> string result" where
  "current_revision i s = Inr ''synthetic-config-revision''"

record synthetic_ledger =
  slg_records :: "provenance_record list"
  slg_has_failure :: bool
  slg_failure :: error_code

definition new_ledger :: synthetic_ledger where
  "new_ledger = \<lparr>slg_records = [], slg_has_failure = False, slg_failure = EC_ok\<rparr>"

definition ledger_set_failure :: "error_code \<Rightarrow> synthetic_ledger \<Rightarrow> synthetic_ledger" where
  "ledger_set_failure code s = s\<lparr>slg_failure := code, slg_has_failure := (code \<noteq> EC_ok)\<rparr>"

definition ledger_append :: "provenance_record \<Rightarrow> synthetic_ledger \<Rightarrow> status \<times> synthetic_ledger" where
  "ledger_append r s =
     (if slg_has_failure s then (fail (slg_failure s) ''the synthetic provenance ledger refused the record'' [], s)
      else (ok_status, s\<lparr>slg_records := slg_records s @ [r]\<rparr>))"

subsection \<open>The manual clock\<close>

definition manual_start :: timestamp where
  "manual_start = 1700000000 * 1000000000"

definition advance_clock :: "duration \<Rightarrow> timestamp \<Rightarrow> timestamp" where
  "advance_clock delta now = now + delta"

subsection \<open>A fabric\<close>

text \<open>
  Adapters are objects that live as long as the registry that shares them: an object for every identity.  Port
  calls that wait on a gate answer once the gate has been opened.
\<close>

record fabric =
  fab_adapters :: "adapter_id \<Rightarrow> synthetic_adapter"
  fab_registry :: synthetic_registry
  fab_inventory :: synthetic_inventory
  fab_artifacts :: artifact_source
  fab_probe :: health_probe
  fab_drain :: drain_fabric
  fab_rollout :: rollout_fabric
  fab_configuration :: configuration_fabric
  fab_clock :: timestamp

definition on_part :: "('w \<Rightarrow> 's) \<Rightarrow> ('s \<Rightarrow> 'w \<Rightarrow> 'w) \<Rightarrow> ('s, 'a) call \<Rightarrow> ('w, 'a) call" where
  "on_part get put f w = (let (r, x) = f (get w) in (r, put x w))"

definition adapter_call :: "adapter_id \<Rightarrow> (synthetic_adapter \<Rightarrow> 'a \<times> synthetic_adapter) \<Rightarrow> (fabric, 'a) call" where
  "adapter_call i = on_part (\<lambda>w. fab_adapters w i) (\<lambda>a w. w\<lparr>fab_adapters := (fab_adapters w)(i := a)\<rparr>)"

definition synthetic_port :: "adapter_id \<Rightarrow> adapter_kind \<Rightarrow> adapter_claims \<Rightarrow> fabric adapter_port" where
  "synthetic_port i kind claims =
     \<lparr>adp_kind = kind, adp_claims = claims,
      adp_observe = (\<lambda>t now incarnation. adapter_call i (synthetic_observe t now incarnation)),
      adp_prepare = (\<lambda>op. adapter_call i (synthetic_prepare op)),
      adp_activate = (\<lambda>op. adapter_call i (\<lambda>a. synthetic_activate op (snd (reach_gate True a)))),
      adp_verify = (\<lambda>op. adapter_call i (\<lambda>a. synthetic_verify op (snd (reach_gate False a)))),
      adp_rollback = (\<lambda>op. adapter_call i (synthetic_rollback op))\<rparr>"

definition fabric_dependencies :: "fabric adapter_port adapter_registry \<Rightarrow> fabric dependencies" where
  "fabric_dependencies adapters =
     \<lparr>dep_inventory = Some (\<lambda>now i. on_part fab_inventory (\<lambda>s w. w\<lparr>fab_inventory := s\<rparr>) (inventory_resolve now i)),
      dep_compatibility = Some (\<lambda>q. on_part fab_registry (\<lambda>s w. w\<lparr>fab_registry := s\<rparr>) (registry_query q)),
      dep_rollout = Some (\<lambda>r. on_part fab_rollout (\<lambda>s w. w\<lparr>fab_rollout := s\<rparr>) (rollout_admit r)),
      dep_drain = Some \<lparr>drp_acquire = (\<lambda>r. on_part fab_drain (\<lambda>s w. w\<lparr>fab_drain := s\<rparr>) (drain_acquire r)),
        drp_release = (\<lambda>t. on_part fab_drain (\<lambda>s w. w\<lparr>fab_drain := s\<rparr>) (drain_release t))\<rparr>,
      dep_configuration = Some (\<lambda>d. on_part fab_configuration (\<lambda>s w. w\<lparr>fab_configuration := s\<rparr>) (deliver d)),
      dep_health = Some (\<lambda>t now i. on_part fab_probe (\<lambda>s w. w\<lparr>fab_probe := s\<rparr>) (probe_health t now i)),
      dep_artifacts = Some (\<lambda>a w. (artifact_resolve a (fab_artifacts w), w)),
      dep_adapters = adapters, dep_clock = Some (\<lambda>w. (fab_clock w, w))\<rparr>"

subsection \<open>What an item does to the targets\<close>

lemma next_fault_target: "next_fault scope st c = (f, st', c') \<Longrightarrow> sst_target st' = sst_target st"
  by (auto simp: next_fault_def split: option.splits if_splits)

lemma already_done_target: "already_done key st c = (d, st', c') \<Longrightarrow> sst_target st' = sst_target st"
  by (auto simp: already_done_def Let_def split: if_splits)

lemma with_target_version:
  assumes "\<And>f st c r st' c'. body f st c = (r, st', c') \<Longrightarrow> P (syt_version (sst_target st)) (syt_version (sst_target st'))"
  shows "version_of u (snd (with_target i scope body s)) = version_of u s \<or>
    u = i \<and> P (version_of u s) (version_of u (snd (with_target i scope body s)))"
proof (cases "table_get (sya_targets s) i")
  case None
  then show ?thesis by (simp add: with_target_def)
next
  case (Some st)
  obtain f st1 c1 where f: "next_fault scope st (sya_counters s) = (f, st1, c1)" by (rule prod_cases3)
  obtain r st2 c2 where b: "body f st1 c1 = (r, st2, c2)" by (rule prod_cases3)
  from assms [OF b] next_fault_target [OF f] show ?thesis
    by (simp add: with_target_eq [where body = body, OF Some f b] version_of_def store_table.get_put Some)
qed

lemma with_target_same_version:
  assumes "\<And>f st c r st' c'. body f st c = (r, st', c') \<Longrightarrow> syt_version (sst_target st') = syt_version (sst_target st)"
  shows "version_of u (snd (with_target i scope body s)) = version_of u s"
  using with_target_version [where P = "\<lambda>v v'. v' = v" and body = body and u = u and i = i and scope = scope and s = s] assms
  by metis

lemma log_call_version [simp]: "version_of u (log_call what op s) = version_of u s"
  "version_of u (s\<lparr>sya_counters := c\<rparr>) = version_of u s"
  by (simp_all add: version_of_def log_call_def)

lemma reach_gate_frame [simp]:
  "sya_targets (snd (reach_gate b s)) = sya_targets s" "sya_counters (snd (reach_gate b s)) = sya_counters s"
  "sya_log (snd (reach_gate b s)) = sya_log s" "sya_claims (snd (reach_gate b s)) = sya_claims s"
  by (auto simp: reach_gate_def take_gate_def mark_reached_def split: list.split prod.split)

lemma reach_gate_version [simp]: "version_of u (snd (reach_gate b s)) = version_of u s"
  by (simp add: version_of_def)

lemma observe_version: "version_of u (snd (synthetic_observe t now i s)) = version_of u s"
  unfolding synthetic_observe_def Let_def
  by (subst with_target_same_version) (auto simp: observe_body_def split: if_splits)

lemma prepare_version: "version_of u (snd (synthetic_prepare op s)) = version_of u s"
  unfolding synthetic_prepare_def Let_def
  by (subst with_target_same_version) (auto simp: prepare_body_def dest: already_done_target split: if_splits prod.splits)

lemma verify_version: "version_of u (snd (synthetic_verify op s)) = version_of u s"
  unfolding synthetic_verify_def Let_def
  by (subst with_target_same_version) auto

lemma activate_version:
  "version_of u (snd (synthetic_activate op s)) = version_of u s \<or>
   u = tgt_id (top_target op) \<and> version_of u (snd (synthetic_activate op s)) = art_version (top_artifact op)"
proof -
  have "syt_version (sst_target st') = syt_version (sst_target st) \<or> syt_version (sst_target st') = art_version (top_artifact op)"
    if "activate_body claims op f st c = (r, st', c')" for claims f st c r st' c'
    using that by (cases f) (auto simp: activate_body_def apply_activation_def split: prod.splits)
  note moved = with_target_version [where P = "\<lambda>v v'. v' = v \<or> v' = art_version (top_artifact op)" and
      body = "activate_body (sya_claims s) op", OF this]
  let ?s = "log_call ''activate'' op (s\<lparr>sya_counters := (sya_counters s)\<lparr>syc_activate := syc_activate (sya_counters s) + 1\<rparr>\<rparr>)"
  have eq: "synthetic_activate op s = with_target (tgt_id (top_target op)) FS_activate (activate_body (sya_claims s) op) ?s"
    by (simp add: synthetic_activate_def log_call_def)
  have "version_of u (snd (synthetic_activate op s)) = version_of u ?s \<or> u = tgt_id (top_target op) \<and>
      (version_of u (snd (synthetic_activate op s)) = version_of u ?s \<or>
       version_of u (snd (synthetic_activate op s)) = art_version (top_artifact op))"
    using moved [where u = u and s = ?s and i = "tgt_id (top_target op)" and scope = FS_activate] by (simp only: eq)
  then show ?thesis by auto
qed

lemma rollback_version:
  "version_of u (snd (synthetic_rollback op s)) = version_of u s \<or> u = tgt_id (top_target op)"
proof -
  let ?s = "log_call ''rollback'' op (s\<lparr>sya_counters := (sya_counters s)\<lparr>syc_rollback := syc_rollback (sya_counters s) + 1\<rparr>\<rparr>)"
  from with_target_version [where P = "\<lambda>v v'. True" and body = "rollback_body op" and u = u and
      i = "tgt_id (top_target op)" and scope = FS_rollback and s = ?s] show ?thesis
    by (simp add: synthetic_rollback_def Let_def)
qed

text \<open>The contract between the engine and a synthetic adapter for the items of one target.\<close>

definition fabric_le :: "adapter_id \<Rightarrow> operation_kind \<Rightarrow> target_id \<Rightarrow> artifact_descriptor \<Rightarrow> fabric \<Rightarrow> fabric \<Rightarrow> bool" where
  "fabric_le i k t a w w' \<longleftrightarrow>
     (\<forall>j. j = i \<or> fab_adapters w' j = fab_adapters w j) \<and>
     (\<forall>u. version_of u (fab_adapters w' i) = version_of u (fab_adapters w i) \<or>
        u = t \<and> (k = OP_activate \<and> version_of u (fab_adapters w' i) = art_version a \<or> k = OP_rollback))"

definition item_operation :: "target_id \<Rightarrow> artifact_descriptor \<Rightarrow> target_operation \<Rightarrow> bool" where
  "item_operation t a op \<longleftrightarrow> tgt_id (top_target op) = t \<and> top_artifact op = a"

lemma adapter_call_world:
  "fab_adapters (snd (adapter_call i f w)) = (fab_adapters w)(i := snd (f (fab_adapters w i)))"
  by (simp add: adapter_call_def on_part_def split: prod.split)

lemma on_part_snd: "snd (on_part get put f w) = put (snd (f (get w))) w"
  by (simp add: on_part_def split: prod.split)

interpretation synthetic_item: item_contract "fabric_le i k t a" "synthetic_port i kind claims"
    "fabric_dependencies reg" platform k "item_operation t a" for i k t a kind claims reg platform
proof (unfold_locales, goal_cases)
  case (2 u v w)
  then show ?case unfolding fabric_le_def by metis
next
  case (10 op w)
  with activate_version [of _ op "snd (reach_gate True (fab_adapters w i))"] show ?case
    by (auto simp: fabric_le_def synthetic_port_def adapter_call_world item_operation_def)
next
  case (12 op w)
  with rollback_version [of _ op "fab_adapters w i"] show ?case
    by (auto simp: fabric_le_def synthetic_port_def adapter_call_world item_operation_def)
qed (auto simp: fabric_le_def fabric_dependencies_def synthetic_port_def adapter_call_world on_part_snd
    item_operation_def observe_version prepare_version verify_version)


subsection \<open>Lost acknowledgements\<close>

text \<open>What a target is, as far as activations, observations and rollbacks of it go.\<close>

definition programme :: "target_state \<Rightarrow> synthetic_fault list \<times> synthetic_fault list \<times> synthetic_fault list \<times> synthetic_fault" where
  "programme st = (pending_faults FS_activate st, pending_faults FS_observe st, pending_faults FS_rollback st, sst_persistent st)"

lemma next_fault_programme:
  assumes "pending_faults scope st = f # fs"
  shows "\<exists>st'. next_fault scope st c = (f, st', count_fault c) \<and> pending_faults scope st' = fs \<and>
    (\<forall>other. other = scope \<or> pending_faults other st' = pending_faults other st) \<and>
    st' = st\<lparr>sst_faults := sst_faults st'\<rparr>"
proof -
  from assms obtain rest where t: "take_fault scope (sst_faults st) = Some (f, rest)"
    using take_fault_None [of scope "sst_faults st"] take_fault_Some [of scope "sst_faults st"]
    by (cases "take_fault scope (sst_faults st)") (auto simp: pending_faults_def)
  have other: "filter (\<lambda>f. synthetic_fault_scope f = other) rest = filter (\<lambda>f. synthetic_fault_scope f = other) (sst_faults st)"
    if "other \<noteq> scope" for other
    using arg_cong [OF conjunct2 [OF conjunct2 [OF take_fault_Some [OF t]]], of "filter (\<lambda>f. synthetic_fault_scope f = other)"] that
    by (simp add: filter_filter) (metis (mono_tags, lifting) filter_cong)
  have "pending_faults scope (st\<lparr>sst_faults := rest\<rparr>) = fs"
    using take_fault_Some [OF t] assms by (simp add: pending_faults_def)
  with t other show ?thesis by (auto simp: next_fault_def pending_faults_def)
qed

lemma apply_activation_fields [simp]:
  "syt_version (sst_target (apply_activation a st)) = art_version a"
  "syt_build (sst_target (apply_activation a st)) = art_build a"
  "sst_previous_version (apply_activation a st) = syt_version (sst_target st)"
  "sst_previous_build (apply_activation a st) = syt_build (sst_target st)"
  "sst_faults (apply_activation a st) = sst_faults st" "sst_persistent (apply_activation a st) = sst_persistent st"
  by (simp_all add: apply_activation_def)

lemma lost_activation:
  assumes "table_get (sya_targets s) t = Some st" "tgt_id (top_target op) = t"
    "pending_faults FS_activate st = SF_activate_timeout_effect # fs"
  shows "\<exists>err s' st'. synthetic_activate op s = (Inl err, s') \<and> err_code err = EC_timeout \<and>
    table_get (sya_targets s') t = Some st' \<and> syc_activate (sya_counters s') = syc_activate (sya_counters s) + 1 \<and>
    syt_version (sst_target st') = art_version (top_artifact op) \<and>
    sst_previous_version st' = syt_version (sst_target st) \<and>
    programme st' = (fs, pending_faults FS_observe st, pending_faults FS_rollback st, sst_persistent st)"
proof -
  define s0 where "s0 = log_call ''activate'' op (s\<lparr>sya_counters := (sya_counters s)\<lparr>syc_activate := syc_activate (sya_counters s) + 1\<rparr>\<rparr>)"
  have get: "table_get (sya_targets s0) t = Some st" using assms(1) by (simp add: s0_def log_call_def)
  obtain st1 where st1: "next_fault FS_activate st (sya_counters s0) = (SF_activate_timeout_effect, st1, count_fault (sya_counters s0))"
    "pending_faults FS_activate st1 = fs" "\<forall>other. other = FS_activate \<or> pending_faults other st1 = pending_faults other st"
    "st1 = st\<lparr>sst_faults := sst_faults st1\<rparr>"
    using next_fault_programme [OF assms(3)] by blast
  have same: "sst_target st1 = sst_target st" "sst_persistent st1 = sst_persistent st" by (subst st1(4); simp)+
  have body: "activate_body (sya_claims s0) op SF_activate_timeout_effect st1 (count_fault (sya_counters s0)) =
      (fail EC_timeout ''the synthetic target applied the activation but the acknowledgement was lost'' [],
       apply_activation (top_artifact op) st1, count_fault (sya_counters s0))"
    by (simp add: activate_body_def)
  have "synthetic_activate op s = with_target t FS_activate (activate_body (sya_claims s0) op) s0"
    by (simp add: synthetic_activate_def s0_def assms(2) Let_def)
  with with_target_eq [where body = "activate_body (sya_claims s0) op", OF get st1(1) body]
  show ?thesis
    using st1(2) spec [OF st1(3), of FS_observe] spec [OF st1(3), of FS_rollback]
    by (simp add: store_table.get_put fail_def make_error_def same programme_def pending_faults_def count_fault_def)
      (simp add: s0_def log_call_def)
qed

lemma answered_observation:
  assumes "table_get (sya_targets s) t = Some st" "fault_free FS_observe st"
  shows "\<exists>v s'. synthetic_observe t now i s = (Inr v, s') \<and> obs_version v = syt_version (sst_target st) \<and>
    table_get (sya_targets s') t = Some st \<and> syc_activate (sya_counters s') = syc_activate (sya_counters s)"
proof -
  define s0 where "s0 = s\<lparr>sya_counters := (sya_counters s)\<lparr>syc_observe := syc_observe (sya_counters s) + 1\<rparr>\<rparr>"
  have get: "table_get (sya_targets s0) t = Some st" using assms(1) by (simp add: s0_def)
  have body: "observe_body (sya_id s) t now i SF_none st (sya_counters s0) =
      (Inr (synthetic_observation (sya_id s) t now i (sst_target st)), st, sya_counters s0)" by (simp add: observe_body_def)
  have "synthetic_observe t now i s = with_target t FS_observe (observe_body (sya_id s) t now i) s0"
    by (simp add: synthetic_observe_def s0_def Let_def)
  with with_target_eq [where body = "observe_body (sya_id s) t now i", OF get fault_free_next [OF assms(2)] body]
  show ?thesis by (simp add: store_table.get_put synthetic_observation_def) (simp add: s0_def)
qed

text \<open>A call of the port, as the engine runs it.\<close>

definition with_adapter :: "adapter_id \<Rightarrow> synthetic_adapter \<Rightarrow> fabric engine \<Rightarrow> fabric engine" where
  "with_adapter i a e = e\<lparr>eng_world := (eng_world e)\<lparr>fab_adapters := (fab_adapters (eng_world e))(i := a)\<rparr>\<rparr>"

lemma with_adapter_fields [simp]:
  "fab_adapters (eng_world (with_adapter i a e)) i = a" "eng_policy (with_adapter i a e) = eng_policy e"
  by (simp_all add: with_adapter_def)

lemma port_calls:
  "run_state (call (adp_observe (synthetic_port i kind claims) t now k)) e =
     (case synthetic_observe t now k (fab_adapters (eng_world e) i) of (r, a) \<Rightarrow> (r, with_adapter i a e))"
  "run_state (call (adp_activate (synthetic_port i kind claims) op)) e =
     (case synthetic_activate op (snd (reach_gate True (fab_adapters (eng_world e) i))) of (r, a) \<Rightarrow> (r, with_adapter i a e))"
  "run_state (call (adp_rollback (synthetic_port i kind claims) op)) e =
     (case synthetic_rollback op (fab_adapters (eng_world e) i) of (r, a) \<Rightarrow> (r, with_adapter i a e))"
  by (simp_all add: call_def synthetic_port_def adapter_call_def on_part_def with_adapter_def split: prod.split)

text \<open>
  C31: a lost acknowledgement is recognised.  When the adapter applies an activation but its answer is lost, and a
  retry is allowed and the target answers the observation, the engine makes exactly one activation call, reports the
  item as activated without a repetition, the target runs the version of the artifact, and the adapter still knows
  the version to go back to.
\<close>

theorem lost_acknowledgement_recognised:
  assumes "run_state (activate_call (synthetic_port i kind claims) item now current limit 0 op) e = (x, e')" "0 < limit"
    and "tgt_id (top_target op) = wki_target item" "top_artifact op = wki_artifact item"
    and "table_get (sya_targets (fab_adapters (eng_world e) i)) (wki_target item) = Some st"
    and "pending_faults FS_activate st = SF_activate_timeout_effect # fs" "fault_free FS_observe st"
  shows "snd x \<and> ao_activated (fst x) \<and> ao_already_active (fst x) \<and>
    syc_activate (sya_counters (fab_adapters (eng_world e') i)) = syc_activate (sya_counters (fab_adapters (eng_world e) i)) + 1 \<and>
    (\<exists>st'. table_get (sya_targets (fab_adapters (eng_world e') i)) (wki_target item) = Some st' \<and>
       syt_version (sst_target st') = art_version (wki_artifact item) \<and>
       sst_previous_version st' = syt_version (sst_target st))"
proof -
  let ?s = "snd (reach_gate True (fab_adapters (eng_world e) i))"
  have limit: "limit \<noteq> 0" using assms(2) by auto
  have get: "table_get (sya_targets ?s) (wki_target item) = Some st" using assms(5) by simp
  obtain err s1 st1 where a: "synthetic_activate op ?s = (Inl err, s1)" "err_code err = EC_timeout"
    "table_get (sya_targets s1) (wki_target item) = Some st1" "syc_activate (sya_counters s1) = syc_activate (sya_counters ?s) + 1"
    "syt_version (sst_target st1) = art_version (wki_artifact item)" "sst_previous_version st1 = syt_version (sst_target st)"
    "programme st1 = (fs, pending_faults FS_observe st, pending_faults FS_rollback st, sst_persistent st)"
    using lost_activation [OF get assms(3,6)] assms(4) by auto
  have "fault_free FS_observe st1" using a(7) assms(7) by (simp add: programme_def fault_free_def standing_fault_def split: if_splits)
  from answered_observation [OF a(3) this, of now current] obtain v s2 where
    o: "synthetic_observe (wki_target item) now current s1 = (Inr v, s2)" "obs_version v = art_version (wki_artifact item)"
      "table_get (sya_targets s2) (wki_target item) = Some st1" "syc_activate (sya_counters s2) = syc_activate (sya_counters s1)"
    using a(5) by auto
  have "x = (already_applied v, True) \<and> fab_adapters (eng_world e') i = s2"
    using assms(1) [unfolded activate_call.simps [of "synthetic_port i kind claims" item now current limit 0 op]]
      a(1,2) o(1,2) limit
    by (auto simp: port_calls is_retryable_def)
  with a o show ?thesis by (simp add: already_applied_def)
qed

lemma failed_observation:
  assumes "table_get (sya_targets s) t = Some st" "pending_faults FS_observe st = SF_observe_failure # gs"
  shows "\<exists>err s' st'. synthetic_observe t now i s = (Inl err, s') \<and> table_get (sya_targets s') t = Some st' \<and>
    undo_view st' = undo_view st"
proof -
  define s0 where "s0 = s\<lparr>sya_counters := (sya_counters s)\<lparr>syc_observe := syc_observe (sya_counters s) + 1\<rparr>\<rparr>"
  have get: "table_get (sya_targets s0) t = Some st" using assms(1) by (simp add: s0_def)
  obtain st1 where st1: "next_fault FS_observe st (sya_counters s0) = (SF_observe_failure, st1, count_fault (sya_counters s0))"
    using next_fault_programme [OF assms(2)] by blast
  have body: "observe_body (sya_id s) t now i SF_observe_failure st1 (count_fault (sya_counters s0)) =
      (fail EC_timeout ''the synthetic target did not answer the observation'' [], st1, count_fault (sya_counters s0))"
    by (simp add: observe_body_def)
  have "synthetic_observe t now i s = with_target t FS_observe (observe_body (sya_id s) t now i) s0"
    by (simp add: synthetic_observe_def s0_def Let_def)
  with with_target_eq [where body = "observe_body (sya_id s) t now i", OF get st1 body] next_fault_view [OF st1]
  show ?thesis by (simp add: store_table.get_put fail_def)
qed

lemma programme_view:
  assumes "programme st = ([], os, [], SF_none)"
  shows "fault_free FS_activate st \<and> fault_free FS_rollback st"
  using assms by (simp add: programme_def fault_free_def standing_fault_def)

text \<open>
  C32: a lost acknowledgement and a lost observation make the rollback a sham.  When the answer of an applied
  activation is lost and the observation that would recognise it is lost too, the engine repeats the activation; the
  adapter takes the version it runs by then as the one to go back to.  The item is reported as activated, and the
  rollback that the engine asks for later succeeds and says so, while the target keeps running the version that was to be
  rolled back.
\<close>

theorem lost_observation_defeats_rollback:
  assumes "run_state (activate_call (synthetic_port i kind claims) item now current limit 0 op) e = (x, e1)" "0 < limit"
    and "run_state (retry_call (adp_rollback (synthetic_port i kind claims)) failed bound 0 back) e1 = (r, e2)"
    and "tgt_id (top_target op) = wki_target item" "tgt_id (top_target back) = wki_target item"
    and "table_get (sya_targets (fab_adapters (eng_world e) i)) (wki_target item) = Some st"
    and "programme st = ([SF_activate_timeout_effect], SF_observe_failure # fs, [], SF_none)"
    and "\<not> ver_empty (art_version (top_artifact op))"
  shows "ao_activated (fst x) \<and> ro_rolled_back r \<and> ro_observed_version r = art_version (top_artifact op) \<and>
    version_of (wki_target item) (fab_adapters (eng_world e2) i) = art_version (top_artifact op)"
proof -
  let ?s = "snd (reach_gate True (fab_adapters (eng_world e) i))" and ?t = "wki_target item"
  have limit: "limit \<noteq> 0" using assms(2) by auto
  have get: "table_get (sya_targets ?s) ?t = Some st" using assms(6) by simp
  have "pending_faults FS_activate st = [SF_activate_timeout_effect]" using assms(7) by (simp add: programme_def)
  then obtain err s1 st1 where a: "synthetic_activate op ?s = (Inl err, s1)" "err_code err = EC_timeout"
    "table_get (sya_targets s1) ?t = Some st1" "syt_version (sst_target st1) = art_version (top_artifact op)"
    "programme st1 = ([], SF_observe_failure # fs, [], SF_none)"
    using lost_activation [OF get assms(4)] assms(7) by (auto simp: programme_def)
  have "pending_faults FS_observe st1 = SF_observe_failure # fs" using a(5) by (simp add: programme_def)
  from failed_observation [OF a(3) this, of now current] obtain err2 s2 st2 where
    o: "synthetic_observe ?t now current s1 = (Inl err2, s2)" "table_get (sya_targets s2) ?t = Some st2"
      "undo_view st2 = undo_view st1" by blast
  have free: "fault_free FS_activate st2" "fault_free FS_rollback st2" "syt_version (sst_target st2) = art_version (top_artifact op)"
    using o(3) programme_view [OF a(5)] a(4) by (simp_all add: undo_view_def)
  let ?op = "op\<lparr>top_retry := True\<rparr>" and ?s2 = "snd (reach_gate True s2)"
  have "table_get (sya_targets ?s2) ?t = Some st2" using o(2) by simp
  from activate_effect [OF this _ free(1), of ?op] assms(4) free(2,3) obtain y s3 st3 where
    y: "synthetic_activate ?op ?s2 = (Inr y, s3)" "ao_activated y" "table_get (sya_targets s3) ?t = Some st3"
      "fault_free FS_rollback st3" "sst_previous_version st3 = art_version (top_artifact op)"
    by (auto simp: undo_view_def)
  have one: "x = (y, False) \<and> fab_adapters (eng_world e1) i = s3"
    using assms(1) [unfolded activate_call.simps [of "synthetic_port i kind claims" item now current limit 0 op]] a(1,2) o(1) y(1) limit
    by (auto simp: port_calls is_retryable_def activate_call.simps [of "synthetic_port i kind claims" item now current limit 1 ?op])
  from rollback_effect [OF y(3) assms(5) y(4)] obtain z s4 st4 where
    z: "synthetic_rollback back s3 = (Inr z, s4)" "ro_rolled_back z" "table_get (sya_targets s4) ?t = Some st4"
      "ro_observed_version z = syt_version (sst_target st4)" "syt_version (sst_target st4) = art_version (top_artifact op)"
    using y(5) assms(8) by auto
  have "r = z \<and> fab_adapters (eng_world e2) i = s4"
    using assms(3) one z(1) by (subst (asm) retry_call.simps) (auto simp: port_calls)
  with one y(2) z show ?thesis by (simp add: version_of_def)
qed

subsection \<open>Evidence\<close>

lemma previous_incarnation_differs: "previous_incarnation i \<noteq> i"
  by (simp add: previous_incarnation_def)

text \<open>
  C33: no programmed verification fault gets past the engine.  The engine counts a target as verified on what the
  adapter answers exactly when no failed, stale or foreign verification was injected, the version is the artifact's, a
  build is known and agrees, the evidence, set back by the programmed age, is inside its validity, and, where the policy
  requires health, no unhealthy answer was injected, the target is healthy with its process alive, and a health report that
  the probe gave is healthy and fresh in this incarnation.  Where the policy does not require health, an unhealthy
  answer is accepted.
\<close>

theorem synthetic_evidence_judged:
  assumes "vfi_artifact inp = Some a" "vfi_policy inp = Some p" "vfi_outcome inp = verify_answer op t fault"
    and "vfi_incarnation inp = fen_incarnation (top_fence op)" "top_now op \<le> vfi_now inp"
  shows "vfr_verified (assess_verification inp) \<longleftrightarrow>
    fault \<notin> {SF_verify_failure, SF_verify_stale, SF_verify_foreign_incarnation} \<and>
    ver_eq (syt_version t) (art_version a) \<and> syt_build t \<noteq> [] \<and> (art_build a = [] \<or> syt_build t = art_build a) \<and>
    0 < syt_health_validity t \<and> top_now op - syt_health_age_offset t \<le> vfi_now inp \<and>
    vfi_now inp \<le> top_now op - syt_health_age_offset t + syt_health_validity t \<and>
    (vfi_require_health inp \<longrightarrow>
       fault \<noteq> SF_verify_unhealthy \<and> syt_healthy t \<and> syt_process_alive t \<and>
       (hr_observed_at (vfi_health inp) = 0 \<or>
        hr_healthy (vfi_health inp) \<and> hr_incarnation (vfi_health inp) = fen_incarnation (top_fence op) \<and>
        0 < hr_validity (vfi_health inp) \<and> hr_observed_at (vfi_health inp) \<le> vfi_now inp \<and>
        vfi_now inp \<le> hr_observed_at (vfi_health inp) + hr_validity (vfi_health inp)))"
proof -
  have stale: "\<not> (0 < v \<and> vfi_now inp \<le> top_now op + - v * 4 + v)" for v :: int using assms(5) by auto
  show ?thesis
    unfolding assess_verification_iff verification_holds_def Let_def
    using assms(1-4) stale [of "syt_health_validity t"] previous_incarnation_differs [of "fen_incarnation (top_fence op)"]
    by (cases fault) (auto simp: verify_answer_def verify_report_def evidence_current_def Let_def)
qed

subsection \<open>Witnesses\<close>

text \<open>One adapter with one target, \<open>a1\<close>, that runs 1.1.0; the artifact is 1.2.0.\<close>

definition old_target :: synthetic_target where
  "old_target = default_synthetic_target\<lparr>syt_id := ''a1'', syt_version := make_version 1 1 0 [], syt_build := ''build-1''\<rparr>"

definition faulty_state :: "synthetic_fault list \<Rightarrow> target_state" where
  "faulty_state faults = (new_target_state old_target)\<lparr>sst_faults := faults\<rparr>"

definition one_target :: "synthetic_fault list \<Rightarrow> synthetic_adapter" where
  "one_target faults = (new_synthetic_adapter ''adapter'' AK_synthetic)\<lparr>sya_targets := [(''a1'', faulty_state faults)]\<rparr>"

definition one_fabric :: "synthetic_fault list \<Rightarrow> fabric" where
  "one_fabric faults =
     \<lparr>fab_adapters = (\<lambda>i. one_target faults), fab_registry = new_synthetic_registry ''r1'', fab_inventory = new_inventory,
      fab_artifacts = new_artifact_source (Some ''d''), fab_probe = new_health_probe, fab_drain = new_drain_fabric,
      fab_rollout = new_rollout_fabric, fab_configuration = new_configuration_fabric, fab_clock = manual_start\<rparr>"

definition fabric_platform :: "fabric platform" where
  "fabric_platform = \<lparr>plf_system_clock = (\<lambda>w. (fab_clock w, w)), plf_disk = (\<lambda>w. (Disk_ok, w)),
     plf_artifact_file = (\<lambda>p w. ((fail EC_io_error [] [], None), w)), plf_directory = (\<lambda>p w. (ok_status, w)),
     plf_journal_file = (\<lambda>p w. (None, w)), plf_rewrite = (\<lambda>p w. (ok_status, w)), plf_submit = (\<lambda>w. (ok_status, w)),
     plf_process_id = ''1''\<rparr>"

definition fabric_engine :: "synthetic_fault list \<Rightarrow> fabric engine" where
  "fabric_engine faults = new_engine sample_config (fabric_dependencies []) fabric_platform (one_fabric faults)"

lemma one_target_get: "table_get (sya_targets (fab_adapters (eng_world (fabric_engine faults)) i)) ''a1'' = Some (faulty_state faults)"
  by (simp add: fabric_engine_def new_engine_def one_fabric_def one_target_def table_get_def)

definition item_op :: target_operation where
  "item_op = operation_for (fabric_engine []) (small_item OP_activate) manual_start"

lemma item_op_fields [simp]:
  "tgt_id (top_target item_op) = ''a1''" "top_artifact item_op = sample_artifact" "wki_target (small_item k) = ''a1''"
  "wki_artifact (small_item k) = sample_artifact" "wki_kind (small_item k) = k" "tgt_id (wki_descriptor (small_item k)) = ''a1''"
  by (simp_all add: item_op_def operation_for_def small_item_def)

lemma sample_version: "art_version sample_artifact = make_version 1 2 0 []"
  by (simp add: sample_artifact_def)

lemma old_state_fields:
  "syt_version (sst_target (faulty_state faults)) = make_version 1 1 0 []" "sst_persistent (faulty_state faults) = SF_none"
  "sst_faults (faulty_state faults) = faults" "syt_build (sst_target (faulty_state faults)) = ''build-1''"
  by (simp_all add: faulty_state_def new_target_state_def old_target_def)

lemma versions_nonempty: "\<not> ver_empty (make_version a b c p)"
  by (simp add: ver_empty_def make_version_def version_text_of_def)


theorem lost_acknowledgement_recognised_witness:
  "\<exists>x e' st'. run_state (activate_call (synthetic_port ''adapter'' AK_synthetic (tgt_claims (sample_target ''a1'' [])))
       (small_item OP_activate) manual_start 1 2 0 item_op) (fabric_engine [SF_activate_timeout_effect]) = (x, e') \<and>
     snd x \<and> table_get (sya_targets (fab_adapters (eng_world e') ''adapter'')) ''a1'' = Some st' \<and>
     syt_version (sst_target st') = make_version 1 2 0 [] \<and> sst_previous_version st' = make_version 1 1 0 []"
proof -
  let ?port = "synthetic_port ''adapter'' AK_synthetic (tgt_claims (sample_target ''a1'' []))"
  let ?e = "fabric_engine [SF_activate_timeout_effect]" and ?st = "faulty_state [SF_activate_timeout_effect]"
  obtain x e' where run: "run_state (activate_call ?port (small_item OP_activate) manual_start 1 2 0 item_op) ?e = (x, e')"
    by (rule prod.exhaust)
  have st: "pending_faults FS_activate ?st = SF_activate_timeout_effect # []" "fault_free FS_observe ?st"
    by (simp_all add: pending_faults_def fault_free_def standing_fault_def old_state_fields)
  from lost_acknowledgement_recognised [OF run _ _ _ _ st] one_target_get [of "[SF_activate_timeout_effect]" "''adapter''"] run
  show ?thesis by (auto simp: old_state_fields sample_version)
qed

theorem lost_observation_defeats_rollback_witness:
  "\<exists>x e1 r e2. run_state (activate_call (synthetic_port ''adapter'' AK_synthetic (tgt_claims (sample_target ''a1'' [])))
       (small_item OP_activate) manual_start 1 2 0 item_op)
       (fabric_engine [SF_activate_timeout_effect, SF_observe_failure]) = (x, e1) \<and>
     run_state (retry_call (adp_rollback (synthetic_port ''adapter'' AK_synthetic (tgt_claims (sample_target ''a1'' []))))
       (\<lambda>err. no_rollback_outcome) 2 0 item_op) e1 = (r, e2) \<and>
     ro_rolled_back r \<and> version_of ''a1'' (fab_adapters (eng_world e2) ''adapter'') = make_version 1 2 0 []"
proof -
  let ?port = "synthetic_port ''adapter'' AK_synthetic (tgt_claims (sample_target ''a1'' []))"
  let ?e = "fabric_engine [SF_activate_timeout_effect, SF_observe_failure]"
  let ?st = "faulty_state [SF_activate_timeout_effect, SF_observe_failure]"
  obtain x e1 where run: "run_state (activate_call ?port (small_item OP_activate) manual_start 1 2 0 item_op) ?e = (x, e1)"
    by (rule prod.exhaust)
  obtain r e2 where undone: "run_state (retry_call (adp_rollback ?port) (\<lambda>err. no_rollback_outcome) 2 0 item_op) e1 = (r, e2)"
    by (rule prod.exhaust)
  have st: "programme ?st = ([SF_activate_timeout_effect], SF_observe_failure # [], [], SF_none)"
    by (simp add: programme_def pending_faults_def old_state_fields)
  have "table_get (sya_targets (fab_adapters (eng_world ?e) ''adapter'')) (wki_target (small_item OP_activate)) = Some ?st"
    by (simp add: one_target_get)
  from lost_observation_defeats_rollback [OF run _ undone _ _ this st] run undone
  show ?thesis by (simp add: sample_version versions_nonempty)
qed

definition evidence_input :: "synthetic_fault \<Rightarrow> verification_input" where
  "evidence_input fault =
     \<lparr>vfi_artifact = Some (sample_artifact\<lparr>art_version := make_version 1 1 0 [], art_build := ''build-1''\<rparr>),
      vfi_outcome = verify_answer item_op old_target fault, vfi_policy = Some sample_policy, vfi_now = manual_start,
      vfi_incarnation = fen_incarnation (top_fence item_op), vfi_require_health = True, vfi_health = no_health\<rparr>"

theorem synthetic_evidence_judged_witness:
  "vfr_verified (assess_verification (evidence_input SF_none)) \<and>
   \<not> vfr_verified (assess_verification (evidence_input SF_verify_stale)) \<and>
   \<not> vfr_verified (assess_verification (evidence_input SF_verify_unhealthy)) \<and>
   vfr_verified (assess_verification ((evidence_input SF_verify_unhealthy)\<lparr>vfi_require_health := False\<rparr>))"
proof -
  let ?a = "sample_artifact\<lparr>art_version := make_version 1 1 0 [], art_build := ''build-1''\<rparr>"
  have inp: "vfi_artifact (evidence_input f) = Some ?a" "vfi_policy (evidence_input f) = Some sample_policy"
    "vfi_outcome (evidence_input f) = verify_answer item_op old_target f"
    "vfi_incarnation (evidence_input f) = fen_incarnation (top_fence item_op)" "top_now item_op \<le> vfi_now (evidence_input f)"
    "hr_observed_at (vfi_health (evidence_input f)) = 0" "vfi_require_health (evidence_input f)" for f
    by (simp_all add: evidence_input_def item_op_def operation_for_def no_health_def)
  note judged = synthetic_evidence_judged [of "evidence_input f" ?a sample_policy item_op old_target f for f, OF inp(1-5)]
  have lax: "vfr_verified (assess_verification ((evidence_input SF_verify_unhealthy)\<lparr>vfi_require_health := False\<rparr>))"
    by (subst synthetic_evidence_judged [of _ ?a sample_policy item_op old_target SF_verify_unhealthy])
      (simp_all add: inp evidence_input_def item_op_def operation_for_def old_target_def default_synthetic_target_def from_seconds_def)
  show ?thesis
    using lax
    by (simp add: judged inp(6,7))
      (simp add: old_target_def default_synthetic_target_def evidence_input_def item_op_def operation_for_def from_seconds_def)
qed

theorem rollback_restores_witness:
  "\<exists>r s'. synthetic_rollback item_op (run_call (Call_activate item_op) (one_target [])) = (Inr r, s') \<and>
     ro_rolled_back r \<and> version_of ''a1'' s' = make_version 1 1 0 [] \<and> build_of ''a1'' s' = ''build-1''"
proof -
  have get: "table_get (sya_targets (one_target [])) ''a1'' = Some (faulty_state [])"
    by (simp add: one_target_def table_get_def)
  have free: "fault_free scope (faulty_state [])" for scope
    by (simp add: fault_free_def pending_faults_def standing_fault_def old_state_fields)
  from conjunct1 [OF rollback_restores [OF get item_op_fields(1,1) free free, of "[]"]] show ?thesis
    by (simp add: old_state_fields versions_nonempty run_calls_def) blast
qed

theorem adapter_memory_bounded_witness:
  "length (sya_log (run_call (Call_observe ''a1'' 0 1) (run_call (Call_verify item_op) (new_synthetic_adapter ''adapter'' AK_synthetic)))) = 1 \<and>
   word_of_nat (length (sya_log (run_call (Call_observe ''a1'' 0 1) (run_call (Call_verify item_op) (new_synthetic_adapter ''adapter'' AK_synthetic))))) =
     syc_verify (sya_counters (run_call (Call_observe ''a1'' 0 1) (run_call (Call_verify item_op) (new_synthetic_adapter ''adapter'' AK_synthetic))))"
proof -
  let ?s = "run_call (Call_observe ''a1'' 0 1) (run_call (Call_verify item_op) (new_synthetic_adapter ''adapter'' AK_synthetic))"
  have run: "synthetic_run ?s"
    by (rule synthetic_run.stepped [OF _ synthetic_step.called], rule synthetic_run.stepped [OF synthetic_run.created synthetic_step.called])
  have s: "sya_log ?s = [''verify '' @ operation_key_to_string (top_key item_op)]" "syc_prepare (sya_counters ?s) = 0"
    "syc_activate (sya_counters ?s) = 0" "syc_rollback (sya_counters ?s) = 0"
    by (simp_all add: synthetic_verify_def synthetic_observe_def with_target_def new_synthetic_adapter_def table_get_def
        log_call_def no_calls_def)
  from adapter_memory_bounded [OF run, of "''a1''"] show ?thesis by (simp add: s del: run_call.simps)
qed

end
