(* ===== verification/Core_Numbers.thy ===== *)
theory Core_Numbers
  imports Prelude
begin

text \<open>
  Numbers read by the standard library, where the code uses it.
\<close>

text \<open>
  \<open>std::stoull\<close> (and \<open>std::stoul\<close>, of the same width): leading white space, an optional sign, the longest run
  of digits; what follows is ignored, and a minus negates modulo 2^64.  \<open>None\<close> is the exception.
\<close>

definition is_space :: "char \<Rightarrow> bool" where
  "is_space c \<longleftrightarrow> c = CHR '' '' \<or> CHR 0x09 \<le> c \<and> c \<le> CHR 0x0D"

definition leading_number :: "string \<Rightarrow> u64 option" where
  "leading_number t =
     (let ds = takeWhile is_digit t
      in if ds = [] \<or> dec_value ds \<ge> 2 ^ 64 then None else Some (word_of_nat (dec_value ds)))"

definition stoull :: "string \<Rightarrow> u64 option" where
  "stoull t =
     (case dropWhile is_space t of
        [] \<Rightarrow> None
      | c # rest \<Rightarrow>
          if c = CHR ''-'' then map_option uminus (leading_number rest)
          else if c = CHR ''+'' then leading_number rest
          else leading_number (c # rest))"

lemma is_space_digit: "is_digit c \<Longrightarrow> \<not> is_space c"
  by (auto simp: is_space_def is_digit_iff less_eq_char_def)

lemma stoull_digits:
  assumes "n < 2 ^ 64"
  shows "stoull (dec_digits n) = Some (word_of_nat n)"
proof -
  obtain c rest where d: "dec_digits n = c # rest" using dec_digits_not_Nil by (cases "dec_digits n") auto
  have all: "\<forall>x \<in> set (c # rest). is_digit x" using dec_digits_all_digits [of n] by (simp add: d)
  then have c: "is_digit c" "\<not> is_space c" using is_space_digit by auto
  then have sign: "c \<noteq> CHR ''-''" "c \<noteq> CHR ''+''" by (auto simp: is_digit_def less_eq_char_def)
  have digits: "takeWhile is_digit rest = rest" using all by (simp add: takeWhile_eq_all_conv)
  have "dec_value (c # rest) = n" by (metis d dec_value_dec_digits)
  with c sign assms show ?thesis by (simp add: stoull_def d leading_number_def Let_def digits)
qed

end
