(* ===== verification/Cli_Commands.thy ===== *)
theory Cli_Commands
  imports Engine_Queries Core_Numbers
begin

text \<open>
  The command line (\<open>cli/main.cpp\<close>, \<open>cli/commands.cpp\<close>): the arguments, what each command asks of the
  engine and prints, and the exit code of the process.  Output is the text written to the two streams; an exit code
  of \<open>None\<close> is a process that still waits for the engine to become idle.
\<close>

subsection \<open>Options and arguments\<close>

record cli_options =
  clo_command :: string
  clo_campaign :: string
  clo_request_path :: string
  clo_reason :: string
  clo_allow_irreversible :: bool
  clo_dry_run :: bool
  clo_plan_only :: bool
  clo_parallel :: u32

record assembly_options =
  aso_state_directory :: string
  aso_inventory_path :: string
  aso_registry_path :: string
  aso_artifacts_path :: string
  aso_control_plane :: string
  aso_drain :: bool
  aso_configuration :: bool
  aso_rollout :: bool
  aso_executor :: executor_kind
  aso_worker_threads :: u64
  aso_verbose :: bool

definition default_assembly :: assembly_options where
  "default_assembly =
     \<lparr>aso_state_directory = [], aso_inventory_path = [], aso_registry_path = [], aso_artifacts_path = [],
      aso_control_plane = [], aso_drain = True, aso_configuration = False, aso_rollout = False,
      aso_executor = EX_deterministic_inline, aso_worker_threads = 4, aso_verbose = False\<rparr>"

definition default_options :: cli_options where
  "default_options =
     \<lparr>clo_command = [], clo_campaign = [], clo_request_path = [], clo_reason = [], clo_allow_irreversible = False,
      clo_dry_run = False, clo_plan_only = False, clo_parallel = 0\<rparr>"

record parsed_arguments =
  pra_command :: cli_options
  pra_assembly :: assembly_options
  pra_executor :: string
  pra_threads :: u64
  pra_help :: bool
  pra_valid :: bool
  pra_error :: string

definition default_arguments :: parsed_arguments where
  "default_arguments =
     \<lparr>pra_command = default_options, pra_assembly = default_assembly\<lparr>aso_state_directory := ''fum-state''\<rparr>,
      pra_executor = ''deterministic-inline'', pra_threads = 4, pra_help = False, pra_valid = True, pra_error = []\<rparr>"

definition argument_error :: "string \<Rightarrow> parsed_arguments \<Rightarrow> parsed_arguments" where
  "argument_error e p = p\<lparr>pra_valid := False, pra_error := e\<rparr>"

text \<open>An option with a value: what it does to the arguments parsed so far.\<close>

definition value_option :: "string \<Rightarrow> (string \<Rightarrow> parsed_arguments \<Rightarrow> parsed_arguments) option" where
  "value_option a =
     (if a = ''--state'' then Some (\<lambda>v p. p\<lparr>pra_assembly := (pra_assembly p)\<lparr>aso_state_directory := v\<rparr>\<rparr>)
      else if a = ''--inventory'' then Some (\<lambda>v p. p\<lparr>pra_assembly := (pra_assembly p)\<lparr>aso_inventory_path := v\<rparr>\<rparr>)
      else if a = ''--registry'' then Some (\<lambda>v p. p\<lparr>pra_assembly := (pra_assembly p)\<lparr>aso_registry_path := v\<rparr>\<rparr>)
      else if a = ''--artifacts'' then Some (\<lambda>v p. p\<lparr>pra_assembly := (pra_assembly p)\<lparr>aso_artifacts_path := v\<rparr>\<rparr>)
      else if a = ''--control-plane'' then Some (\<lambda>v p. p\<lparr>pra_assembly := (pra_assembly p)\<lparr>aso_control_plane := v\<rparr>\<rparr>)
      else if a = ''--request'' then Some (\<lambda>v p. p\<lparr>pra_command := (pra_command p)\<lparr>clo_request_path := v\<rparr>\<rparr>)
      else if a = ''--campaign'' then Some (\<lambda>v p. p\<lparr>pra_command := (pra_command p)\<lparr>clo_campaign := v\<rparr>\<rparr>)
      else if a = ''--reason'' then Some (\<lambda>v p. p\<lparr>pra_command := (pra_command p)\<lparr>clo_reason := v\<rparr>\<rparr>)
      else if a = ''--executor'' then Some (\<lambda>v p. p\<lparr>pra_executor := v\<rparr>)
      else if a = ''--threads'' then Some (\<lambda>v p.
        (case stoull v of None \<Rightarrow> argument_error ''invalid --threads value'' p | Some n \<Rightarrow> p\<lparr>pra_threads := n\<rparr>))
      else if a = ''--parallel'' then Some (\<lambda>v p.
        (case stoull v of None \<Rightarrow> argument_error ''invalid --parallel value'' p
         | Some n \<Rightarrow> p\<lparr>pra_command := (pra_command p)\<lparr>clo_parallel := ucast n\<rparr>\<rparr>))
      else None)"

definition flag_option :: "string \<Rightarrow> (parsed_arguments \<Rightarrow> parsed_arguments) option" where
  "flag_option a =
     (if a = ''--json'' then Some id
      else if a = ''--verbose'' then Some (\<lambda>p. p\<lparr>pra_assembly := (pra_assembly p)\<lparr>aso_verbose := True\<rparr>\<rparr>)
      else if a = ''--allow-irreversible'' then Some (\<lambda>p. p\<lparr>pra_command := (pra_command p)\<lparr>clo_allow_irreversible := True\<rparr>\<rparr>)
      else if a = ''--dry-run'' then Some (\<lambda>p. p\<lparr>pra_command := (pra_command p)\<lparr>clo_dry_run := True\<rparr>\<rparr>)
      else if a = ''--plan-only'' then Some (\<lambda>p. p\<lparr>pra_command := (pra_command p)\<lparr>clo_plan_only := True\<rparr>\<rparr>)
      else None)"

fun parse_loop :: "string list \<Rightarrow> parsed_arguments \<Rightarrow> parsed_arguments" where
  "parse_loop [] p = (if clo_command (pra_command p) = [] then p\<lparr>pra_help := True\<rparr> else p)"
| "parse_loop (a # rest) p =
     (if a \<noteq> [] \<and> hd a \<noteq> CHR ''-''
      then
        (if clo_command (pra_command p) = []
         then
           (let p = p\<lparr>pra_command := (pra_command p)\<lparr>clo_command := a\<rparr>\<rparr>
            in if a = ''help'' then p\<lparr>pra_help := True\<rparr> else parse_loop rest p)
         else argument_error (''unexpected argument: '' @ a) p)
      else if a = ''--help'' \<or> a = ''-h'' then p\<lparr>pra_help := True\<rparr>
      else case flag_option a of
        Some f \<Rightarrow> parse_loop rest (f p)
      | None \<Rightarrow>
          (case value_option a of
             None \<Rightarrow> argument_error (''unrecognized option: '' @ a) p
           | Some f \<Rightarrow>
               (case rest of
                  [] \<Rightarrow> argument_error (''missing value for '' @ a) p
                | v # rest' \<Rightarrow>
                    (let p = f v p in if pra_valid p then parse_loop rest' p else p))))"

text \<open>The arguments after the name of the program.\<close>

definition parse_arguments :: "string list \<Rightarrow> parsed_arguments" where
  "parse_arguments args =
     (if args = [] then default_arguments\<lparr>pra_help := True\<rparr> else parse_loop args default_arguments)"

text \<open>The flag for JSON is looked for again, among all arguments.\<close>

definition json_requested :: "string list \<Rightarrow> bool" where
  "json_requested args \<longleftrightarrow> list_ex (\<lambda>a. a = ''--json'') args"

subsection \<open>Exit codes and errors\<close>

fun exit_code_for :: "error_code \<Rightarrow> nat" where
  "exit_code_for EC_not_found = 4"
| "exit_code_for EC_incompatible = 3"
| "exit_code_for EC_irreversible = 3"
| "exit_code_for EC_policy_denied = 3"
| "exit_code_for EC_precondition_failed = 3"
| "exit_code_for EC_stale = 3"
| "exit_code_for EC_fenced = 3"
| "exit_code_for EC_not_integrated = 5"
| "exit_code_for EC_unsupported = 5"
| "exit_code_for _ = 1"

text \<open>Reading the request file and the statistics of the worker pool are calls of the context.\<close>

record 'w cli_context =
  clc_json :: bool
  clc_read :: "string \<Rightarrow> ('w, string result) call"
  clc_pool_stats :: "json option"

record cli_end =
  cle_out :: string
  cle_err :: string
  cle_code :: "nat option"

definition report_error :: "'w cli_context \<Rightarrow> error \<Rightarrow> cli_end" where
  "report_error ctx e =
     (if clc_json ctx
      then \<lparr>cle_out = json_dump (json_build
              [(''ok'', JBool False), (''error_code'', JString (error_code_name (err_code e))),
               (''message'', JString (err_message e)), (''detail'', JString (err_detail e))]) @ newline,
            cle_err = [], cle_code = Some (exit_code_for (err_code e))\<rparr>
      else \<lparr>cle_out = [], cle_err = ''error: '' @ error_to_string e @ newline,
            cle_code = Some (exit_code_for (err_code e))\<rparr>)"

definition finish :: "string \<Rightarrow> nat \<Rightarrow> ('w, cli_end) engine_op" where
  "finish out code = State_Monad.return \<lparr>cle_out = out, cle_err = [], cle_code = Some code\<rparr>"

text \<open>\<open>if (!x.has_value()) return report_error(context, x.error());\<close>\<close>

definition cli_try :: "'w cli_context \<Rightarrow> ('w, 'a result) engine_op \<Rightarrow> ('a \<Rightarrow> ('w, cli_end) engine_op) \<Rightarrow> ('w, cli_end) engine_op" where
  "cli_try ctx m f = do {
     r \<leftarrow> m;
     case r of Inl e \<Rightarrow> State_Monad.return (report_error ctx e) | Inr x \<Rightarrow> f x
   }"

text \<open>Output written before the rest runs.\<close>

definition after_output :: "string \<Rightarrow> string \<Rightarrow> ('w, cli_end) engine_op \<Rightarrow> ('w, cli_end) engine_op" where
  "after_output out err m = do {
     x \<leftarrow> m;
     State_Monad.return (x\<lparr>cle_out := out @ cle_out x, cle_err := err @ cle_err x\<rparr>)
   }"

text \<open>Running until the engine is idle may never return.\<close>

definition cli_run :: "'w cli_context \<Rightarrow> ('w, cli_end) engine_op \<Rightarrow> ('w, cli_end) engine_op" where
  "cli_run ctx m = do {
     ran \<leftarrow> run_until_idle;
     case ran of
       None \<Rightarrow> State_Monad.return \<lparr>cle_out = [], cle_err = [], cle_code = None\<rparr>
     | Some (Inl e) \<Rightarrow> State_Monad.return (report_error ctx e)
     | Some (Inr _) \<Rightarrow> m
   }"

definition load_request :: "'w cli_context \<Rightarrow> string \<Rightarrow> ('w, upgrade_plan_request result) engine_op" where
  "load_request ctx path =
     (if path = [] then stop EC_invalid_argument ''a plan request file is required (--request)'' ''''
      else try_op (call (clc_read ctx path)) (\<lambda>text.
        State_Monad.return (fum_try (json_parse_object default_limits text) request_from_json)))"

subsection \<open>Printing\<close>

definition dump_pretty :: "json \<Rightarrow> string" where
  "dump_pretty v = json_dump_at 2 0 v @ newline"

definition plan_stage_lines :: "nat \<Rightarrow> stage_plan \<Rightarrow> string" where
  "plan_stage_lines i s =
     ''    '' @ dec_digits (i + 1) @ ''. '' @ stg_name s @ '' targets='' @ dec_digits (length (stg_targets s)) @
     '' max_parallel='' @ u32_to_string (stg_max_parallel s) @
     (if stg_requires_service_removal s then '' requires-service-removal'' else []) @ newline @
     concat (map (\<lambda>t. ''        - '' @ t @ newline) (stg_targets s))"

definition print_plan :: "bool \<Rightarrow> upgrade_plan \<Rightarrow> string" where
  "print_plan json p =
     (if json then dump_pretty (plan_to_json p)
      else
        (let a = pln_artifact p
         in concat
          [''plan for campaign '', pln_campaign p, newline, ''  component:   '', pln_component p, newline,
           ''  artifact:    '', art_id a, '' '', ver_text (art_version a), '' build '', art_build a, newline,
           ''  digest:      '', art_digest a, newline,
           ''  strategy:    '', strategy_kind_name (pln_strategy p), newline,
           ''  authority:   '', pln_authority p, newline,
           ''  policy:      '', pln_policy p, ''@'', u64_to_string (pln_policy_revision p), newline,
           ''  fingerprint: '', plan_fingerprint p, newline,
           ''  stages:      '', dec_digits (length (pln_stages p)), newline] @
          concat (map (\<lambda>(i, s). plan_stage_lines i s) (zip [0..<length (pln_stages p)] (pln_stages p))) @
          (if pln_irreversible_steps p \<noteq> []
           then ''  irreversible steps:'' @ newline @
             concat (map (\<lambda>s. ''    - '' @ s @ newline) (pln_irreversible_steps p)) else []) @
          (if \<not> plan_executable p
           then ''  rejections:'' @ newline @
             concat (map (\<lambda>r. ''    - '' @ plan_rejection_name (prj_code r) @ '' ['' @ prj_subject r @ ''] '' @
               prj_detail r @ newline) (pln_rejections p)) @
             ''result: plan is NOT executable'' @ newline
           else ''result: plan is executable'' @ newline)))"

definition print_preflight :: "bool \<Rightarrow> preflight_report \<Rightarrow> string" where
  "print_preflight json r =
     (if json then dump_pretty (report_to_json r)
      else concat
        [''preflight for campaign '', pfr_campaign r, '' generation '', u64_to_string (pfr_generation r), newline,
         ''  passed:      '', flag_text (pfr_passed r), newline,
         ''  integrity:   '', (if int_verified (pfr_integrity r) then ''verified'' else ''not verified''),
         '' ('', int_detail (pfr_integrity r), '')'', newline,
         ''  issued:      '', to_iso8601 (pfr_issued_at r), newline,
         ''  expires:     '', to_iso8601 (pfr_expires_at r), newline,
         ''  fingerprint: '', pfr_fingerprint r, newline, ''  skew:        '', sa_summary (pfr_skew r), newline] @
        concat (map (\<lambda>v. ''    target '' @ ptv_target v @ '': '' @
          (if ptv_admissible v then ''admissible'' else ''not admissible'') @ newline @
          concat (map (\<lambda>t. ''        - '' @ t @ newline) (ptv_reasons v))) (pfr_targets r)) @
        (if pfr_blockers r \<noteq> []
         then ''  blockers:'' @ newline @ concat (map (\<lambda>b. ''    - '' @ b @ newline) (pfr_blockers r)) else []))"

definition print_status :: "bool \<Rightarrow> campaign_status \<Rightarrow> string" where
  "print_status json st =
     (if json then dump_pretty (campaign_status_to_json st)
      else
        (let c = cst_campaign st
         in concat
          [cmp_id c, '': '', upgrade_state_name (cmp_state c), '' generation='', u64_to_string (cmp_generation c),
           '' epoch='', u64_to_string (cmp_epoch c), '' stage='', dec_digits (cmp_active_stage c + 1), ''/'',
           dec_digits (length (cmp_stages c)), '' in_flight='', dec_digits (cst_in_flight st), newline,
           (if cmp_block_reason c \<noteq> [] then ''  blocked: '' @ cmp_block_reason c @ newline else []),
           (if cmp_failure_reason c \<noteq> [] then ''  failure: '' @ cmp_failure_reason c @ newline else []),
           ''  ticket:  '', cst_ticket_detail st, newline, ''  skew:    '', sa_summary (cst_skew st), newline]))"

definition inventory_document :: "inventory_snapshot \<Rightarrow> json" where
  "inventory_document s = json_build
     [(''revision'', JUint (inv_revision s)), (''observed_at'', JString (to_iso8601 (inv_observed_at s))),
      (''incarnation'', JUint (inv_incarnation s)), (''targets'', json_list target_to_json (inv_targets s))]"

definition inventory_line :: "target_descriptor \<Rightarrow> string" where
  "inventory_line d =
     ''  '' @ tgt_id d @ '' '' @ tgt_component d @ '' version '' @ ver_text (tgt_installed_version d) @ '' build '' @
     tgt_installed_build d @ '' platform '' @ tgt_platform d @ '' adapter '' @ tgt_adapter d @ '' strategies'' @
     concat (map (\<lambda>s. if claims_support (tgt_claims d) s then '' '' @ strategy_kind_name s else [])
       [SK_in_place, SK_restart_based, SK_redundant_pair_rolling, SK_control_plane_generation_handoff]) @ newline"

definition print_inventory :: "bool \<Rightarrow> inventory_snapshot \<Rightarrow> string" where
  "print_inventory json s =
     (if json then dump_pretty (inventory_document s)
      else ''inventory revision '' @ u64_to_string (inv_revision s) @ '' observed '' @ to_iso8601 (inv_observed_at s) @
        newline @ concat (map inventory_line (inv_targets s)))"

definition provenance_line :: "provenance_record \<Rightarrow> string" where
  "provenance_line r =
     u64_to_string (prov_sequence r) @ '' '' @ to_iso8601 (prov_recorded_at r) @ '' '' @
     provenance_outcome_name (prov_outcome r) @ '' campaign '' @ prov_campaign r @ '' gen '' @
     u64_to_string (prov_generation r) @ '' target '' @ prov_target r @ '' '' @ ver_text (prov_from_version r) @
     '' -> '' @ ver_text (prov_to_version r) @ '' artifact '' @ prov_artifact r @ '' digest '' @
     take 16 (prov_digest r) @ '' authority '' @ prov_authority r @ newline"

subsection \<open>Commands\<close>

text \<open>
  A ticket is bound to the incarnation that issued it, so a command that needs a current one asks for preflight again
  in this process.
\<close>

definition with_current_preflight ::
    "'w cli_context \<Rightarrow> campaign_id \<Rightarrow> ('w, cli_end) engine_op \<Rightarrow> ('w, cli_end) engine_op" where
  "with_current_preflight ctx cid m =
     cli_try ctx (engine_status cid) (\<lambda>st.
       if cst_ticket_current st then m
       else cli_try ctx (preflight cid) (\<lambda>r.
         if \<not> pfr_passed r
         then after_output []
           (if clc_json ctx then []
            else ''preflight refused the campaign:'' @ newline @ concat (map (\<lambda>b. ''  - '' @ b @ newline) (pfr_blockers r)))
           (State_Monad.return (report_error ctx (make_error EC_precondition_failed
             ''preflight refused the campaign in this process incarnation''
             (case pfr_blockers r of [] \<Rightarrow> ''unspecified'' | b # _ \<Rightarrow> b))))
         else after_output
           (if clc_json ctx then []
            else ''preflight (re-issued in this process): passed, fingerprint '' @ take 16 (pfr_fingerprint r) @ newline)
           [] m))"

definition start_options_of :: "cli_options \<Rightarrow> bool \<Rightarrow> start_options" where
  "start_options_of opts dry =
     \<lparr>sop_dry_run = dry, sop_allow_irreversible = clo_allow_irreversible opts, sop_max_parallel = clo_parallel opts,
      sop_reason = clo_reason opts\<rparr>"

text \<open>The end of a command that ran a campaign: its status, and success only in a terminal state.\<close>

definition report_campaign :: "'w cli_context \<Rightarrow> campaign_id \<Rightarrow> ('w, cli_end) engine_op" where
  "report_campaign ctx cid =
     cli_try ctx (engine_status cid) (\<lambda>st. finish (print_status (clc_json ctx) st)
       (if upgrade_state_is_terminal (cmp_state (cst_campaign st)) then 0 else 3))"

definition command_plan :: "'w cli_context \<Rightarrow> cli_options \<Rightarrow> ('w, cli_end) engine_op" where
  "command_plan ctx opts =
     cli_try ctx (load_request ctx (clo_request_path opts)) (\<lambda>request.
     cli_try ctx (engine_plan request) (\<lambda>p.
       finish (print_plan (clc_json ctx) p) (if plan_executable p then 0 else 3)))"

definition command_create :: "'w cli_context \<Rightarrow> cli_options \<Rightarrow> ('w, cli_end) engine_op" where
  "command_create ctx opts =
     cli_try ctx (load_request ctx (clo_request_path opts)) (\<lambda>request.
     cli_try ctx (create_campaign request) (\<lambda>p.
       finish (if clc_json ctx then dump_pretty (plan_to_json p)
               else ''created campaign '' @ pln_campaign p @ newline)
         (if plan_executable p then 0 else 3)))"

definition command_run :: "'w cli_context \<Rightarrow> cli_options \<Rightarrow> ('w, cli_end) engine_op" where
  "command_run ctx opts =
     cli_try ctx (load_request ctx (clo_request_path opts)) (\<lambda>request.
     cli_try ctx (create_campaign request) (\<lambda>p.
     cli_try ctx (preflight (req_campaign request)) (\<lambda>r.
       after_output (if clc_json ctx then [] else print_preflight False r) []
         (if \<not> pfr_passed r then finish [] 3
          else cli_try ctx (start (req_campaign request) (start_options_of opts False)) (\<lambda>_.
            cli_run ctx (report_campaign ctx (req_campaign request)))))))"

definition command_preflight :: "'w cli_context \<Rightarrow> cli_options \<Rightarrow> ('w, cli_end) engine_op" where
  "command_preflight ctx opts =
     cli_try ctx (preflight (clo_campaign opts)) (\<lambda>r.
       finish (print_preflight (clc_json ctx) r) (if pfr_passed r then 0 else 3))"

definition command_start :: "'w cli_context \<Rightarrow> cli_options \<Rightarrow> ('w, cli_end) engine_op" where
  "command_start ctx opts =
     with_current_preflight ctx (clo_campaign opts)
       (cli_try ctx (start (clo_campaign opts) (start_options_of opts (clo_dry_run opts))) (\<lambda>_.
          if clo_dry_run opts
          then finish (''admission accepted (dry run; nothing was executed)'' @ newline) 0
          else cli_run ctx (report_campaign ctx (clo_campaign opts))))"

definition applied :: "cli_options \<Rightarrow> ('w, cli_end) engine_op" where
  "applied opts = finish (clo_command opts @ '' applied to '' @ clo_campaign opts @ newline) 0"

definition command_pause :: "'w cli_context \<Rightarrow> cli_options \<Rightarrow> ('w, cli_end) engine_op" where
  "command_pause ctx opts = cli_try ctx (pause (clo_campaign opts) (clo_reason opts)) (\<lambda>_. applied opts)"

definition command_resume :: "'w cli_context \<Rightarrow> cli_options \<Rightarrow> ('w, cli_end) engine_op" where
  "command_resume ctx opts =
     with_current_preflight ctx (clo_campaign opts) (cli_try ctx (resume (clo_campaign opts)) (\<lambda>_. applied opts))"

definition command_abort :: "'w cli_context \<Rightarrow> cli_options \<Rightarrow> ('w, cli_end) engine_op" where
  "command_abort ctx opts = cli_try ctx (abort (clo_campaign opts) (clo_reason opts)) (\<lambda>_. applied opts)"

definition command_rollback :: "'w cli_context \<Rightarrow> cli_options \<Rightarrow> ('w, cli_end) engine_op" where
  "command_rollback ctx opts =
     cli_try ctx (rollback (clo_campaign opts) (\<not> clo_plan_only opts)) (\<lambda>r.
       after_output ((if clo_plan_only opts then ''rollback planned: '' else ''rollback started: '') @ pfr_fingerprint r @ newline) []
         (if clo_plan_only opts then finish [] 0
          else cli_run ctx (cli_try ctx (engine_status (clo_campaign opts)) (\<lambda>st.
            finish (print_status (clc_json ctx) st) 0))))"

definition command_status :: "'w cli_context \<Rightarrow> cli_options \<Rightarrow> ('w, cli_end) engine_op" where
  "command_status ctx opts =
     (if clo_campaign opts = []
      then cli_try ctx engine_campaigns (\<lambda>sts.
        if clc_json ctx then finish (dump_pretty (json_list campaign_status_to_json sts)) 0
        else finish ((if sts = [] then ''no campaigns'' @ newline else []) @ concat (map (print_status False) sts)) 0)
      else cli_try ctx (engine_status (clo_campaign opts)) (\<lambda>st. finish (print_status (clc_json ctx) st) 0))"

definition command_explain :: "'w cli_context \<Rightarrow> cli_options \<Rightarrow> ('w, cli_end) engine_op" where
  "command_explain ctx opts =
     cli_try ctx (explain (clo_campaign opts)) (\<lambda>text.
       if clc_json ctx
       then do {
         st \<leftarrow> engine_status (clo_campaign opts);
         finish (dump_pretty (json_build
           ([(''campaign'', JString (clo_campaign opts)), (''explanation'', JString text)] @
            (case st of Inr x \<Rightarrow> [(''status'', campaign_status_to_json x)] | Inl _ \<Rightarrow> [])))) 0
       }
       else finish text 0)"

definition command_inventory :: "'w cli_context \<Rightarrow> cli_options \<Rightarrow> ('w, cli_end) engine_op" where
  "command_inventory ctx opts =
     cli_try ctx engine_inventory (\<lambda>s. finish (print_inventory (clc_json ctx) s) 0)"

definition command_provenance :: "'w cli_context \<Rightarrow> cli_options \<Rightarrow> ('w, cli_end) engine_op" where
  "command_provenance ctx opts =
     cli_try ctx (reads (\<lambda>e. engine_provenance e (clo_campaign opts))) (\<lambda>rs.
       finish (if clc_json ctx then dump_pretty (json_list provenance_to_json rs)
               else concat (map provenance_line rs)) 0)"

definition command_decisions :: "'w cli_context \<Rightarrow> cli_options \<Rightarrow> ('w, cli_end) engine_op" where
  "command_decisions ctx opts =
     cli_try ctx (reads (\<lambda>e. Inr (engine_decisions e (clo_campaign opts)))) (\<lambda>ds.
       finish (if clc_json ctx then dump_pretty (json_list decision_to_json ds)
               else concat (map (\<lambda>d. explain_decision d @ newline) ds)) 0)"

definition command_stats :: "'w cli_context \<Rightarrow> ('w, cli_end) engine_op" where
  "command_stats ctx = do {
     e \<leftarrow> reads id;
     finish (dump_pretty (engine_stats e (clc_pool_stats ctx))) 0
   }"

definition run_command :: "'w cli_context \<Rightarrow> cli_options \<Rightarrow> ('w, cli_end) engine_op" where
  "run_command ctx opts =
     (if clo_command opts = ''plan'' then command_plan ctx opts
      else if clo_command opts = ''create'' then command_create ctx opts
      else if clo_command opts = ''run'' then command_run ctx opts
      else if clo_command opts = ''preflight'' then command_preflight ctx opts
      else if clo_command opts = ''start'' then command_start ctx opts
      else if clo_command opts = ''pause'' then command_pause ctx opts
      else if clo_command opts = ''resume'' then command_resume ctx opts
      else if clo_command opts = ''abort'' then command_abort ctx opts
      else if clo_command opts = ''rollback'' then command_rollback ctx opts
      else if clo_command opts = ''status'' then command_status ctx opts
      else if clo_command opts = ''explain'' then command_explain ctx opts
      else if clo_command opts = ''inventory'' then command_inventory ctx opts
      else if clo_command opts = ''provenance'' then command_provenance ctx opts
      else if clo_command opts = ''decisions'' then command_decisions ctx opts
      else if clo_command opts = ''stats'' then command_stats ctx
      else State_Monad.return
        \<lparr>cle_out = [], cle_err = ''unknown command: '' @ clo_command opts @ newline, cle_code = Some 2\<rparr>)"

subsection \<open>Success\<close>

lemma report_error_code: "cle_code (report_error ctx e) = Some (exit_code_for (err_code e))"
  by (simp add: report_error_def)

lemma exit_code_nonzero [simp]: "exit_code_for k \<noteq> 0"
  by (cases k) simp_all

lemma cli_try_zero:
  assumes "run_state (cli_try ctx m f) e = (x, e')" "cle_code x = Some 0"
  shows "\<exists>y e1. run_state m e = (Inr y, e1) \<and> run_state (f y) e1 = (x, e')"
proof -
  obtain r e1 where r: "run_state m e = (r, e1)" by force
  with assms show ?thesis by (cases r) (auto simp: cli_try_def report_error_code)
qed

lemma after_output_zero:
  assumes "run_state (after_output out err m) e = (x, e')" "cle_code x = Some 0"
  shows "\<exists>y. run_state m e = (y, e') \<and> cle_code y = Some 0"
proof -
  obtain y e1 where y: "run_state m e = (y, e1)" by force
  with assms show ?thesis by (auto simp: after_output_def)
qed

lemma cli_run_zero:
  assumes "run_state (cli_run ctx m) e = (x, e')" "cle_code x = Some 0"
  shows "\<exists>e1. run_state run_until_idle e = (Some ok_status, e1) \<and> run_state m e1 = (x, e')"
proof -
  obtain r e1 where r: "run_state run_until_idle e = (r, e1)" by force
  with assms show ?thesis
    by (cases r) (auto simp: cli_run_def report_error_code split: sum.splits)
qed

lemma current_preflight_zero:
  assumes "run_state (with_current_preflight ctx cid m) e = (x, e')" "cle_code x = Some 0"
  shows "\<exists>y e1. run_state m e1 = (y, e') \<and> cle_code y = Some 0"
proof -
  obtain st e1 where st: "run_state (engine_status cid) e = (Inr st, e1)"
    and rest: "run_state (if cst_ticket_current st then m else cli_try ctx (preflight cid) (\<lambda>r.
         if \<not> pfr_passed r
         then after_output []
           (if clc_json ctx then []
            else ''preflight refused the campaign:'' @ newline @ concat (map (\<lambda>b. ''  - '' @ b @ newline) (pfr_blockers r)))
           (State_Monad.return (report_error ctx (make_error EC_precondition_failed
             ''preflight refused the campaign in this process incarnation''
             (case pfr_blockers r of [] \<Rightarrow> ''unspecified'' | b # _ \<Rightarrow> b))))
         else after_output
           (if clc_json ctx then []
            else ''preflight (re-issued in this process): passed, fingerprint '' @ take 16 (pfr_fingerprint r) @ newline)
           [] m)) e1 = (x, e')"
    using cli_try_zero [OF assms(1) [unfolded with_current_preflight_def] assms(2)] by blast
  show ?thesis
  proof (cases "cst_ticket_current st")
    case True
    with rest assms(2) show ?thesis by auto
  next
    case False
    with rest have "run_state (cli_try ctx (preflight cid) (\<lambda>r.
         if \<not> pfr_passed r
         then after_output []
           (if clc_json ctx then []
            else ''preflight refused the campaign:'' @ newline @ concat (map (\<lambda>b. ''  - '' @ b @ newline) (pfr_blockers r)))
           (State_Monad.return (report_error ctx (make_error EC_precondition_failed
             ''preflight refused the campaign in this process incarnation''
             (case pfr_blockers r of [] \<Rightarrow> ''unspecified'' | b # _ \<Rightarrow> b))))
         else after_output
           (if clc_json ctx then []
            else ''preflight (re-issued in this process): passed, fingerprint '' @ take 16 (pfr_fingerprint r) @ newline)
           [] m)) e1 = (x, e')" by simp
    from cli_try_zero [OF this assms(2)] after_output_zero [OF _ assms(2)] show ?thesis
      by (fastforce simp: report_error_code split: if_splits)
  qed
qed

lemma report_campaign_zero:
  assumes "run_state (report_campaign ctx cid) e = (x, e')" "cle_code x = Some 0"
  shows "\<exists>c. store_campaign (eng_store e') cid = Some c \<and> upgrade_state_is_terminal (cmp_state c)"
proof -
  obtain st e1 where st: "run_state (engine_status cid) e = (Inr st, e1)"
    and fin: "run_state (finish (print_status (clc_json ctx) st)
      (if upgrade_state_is_terminal (cmp_state (cst_campaign st)) then 0 else 3) :: ('a, cli_end) engine_op) e1 = (x, e')"
    using cli_try_zero [OF assms(1) [unfolded report_campaign_def] assms(2)] by blast
  have "e' = e1" "upgrade_state_is_terminal (cmp_state (cst_campaign st))"
    using fin assms(2) by (auto simp: finish_def split: if_splits)
  moreover have "store_campaign (eng_store e1) cid = Some (cst_campaign st)"
    using st by (auto simp: engine_status_def with_campaign_def clock_now_def call_def reads_def stop_def ok_op_def fail_def
        status_of_def Let_def split: option.splits prod.splits)
  ultimately show ?thesis by auto
qed

text \<open>
  Success means done.  When \<open>start\<close> (not a dry run) or \<open>run\<close> exits with the code 0, the campaign it was
  asked for is stored as completed or as rolled back: a campaign that is blocked, paused, failed or still on its way never
  exits with success, nor does any refusal.
\<close>

theorem success_means_terminal:
  assumes "run_state (run_command ctx opts) e = (x, e')" "cle_code x = Some 0"
    and "clo_command opts = ''start'' \<and> \<not> clo_dry_run opts \<or> clo_command opts = ''run''"
  shows "\<exists>cid c. (clo_command opts = ''start'' \<longrightarrow> cid = clo_campaign opts) \<and> store_campaign (eng_store e') cid = Some c \<and>
    (cmp_state c = US_completed \<or> cmp_state c = US_rolled_back)"
  using assms(3)
proof (elim disjE conjE)
  assume s: "clo_command opts = ''start''" "\<not> clo_dry_run opts"
  with assms(1) have "run_state (command_start ctx opts) e = (x, e')" by (simp add: run_command_def)
  from current_preflight_zero [OF this [unfolded command_start_def] assms(2)] s(2) obtain y e1 where
    y: "run_state (cli_try ctx (start (clo_campaign opts) (start_options_of opts False)) (\<lambda>_.
      cli_run ctx (report_campaign ctx (clo_campaign opts)))) e1 = (y, e')" "cle_code y = Some 0" by auto
  from cli_try_zero [OF y] obtain e2 where "run_state (cli_run ctx (report_campaign ctx (clo_campaign opts))) e2 = (y, e')" by auto
  from cli_run_zero [OF this y(2)] report_campaign_zero [OF _ y(2)] s(1) show ?thesis
    by (auto simp: upgrade_state_is_terminal_def)
next
  assume s: "clo_command opts = ''run''"
  with assms(1) have "run_state (command_run ctx opts) e = (x, e')" by (simp add: run_command_def)
  from cli_try_zero [OF this [unfolded command_run_def] assms(2)] obtain request e1 where
    "run_state (cli_try ctx (create_campaign request) (\<lambda>p. cli_try ctx (preflight (req_campaign request)) (\<lambda>r.
       after_output (if clc_json ctx then [] else print_preflight False r) []
         (if \<not> pfr_passed r then finish [] 3
          else cli_try ctx (start (req_campaign request) (start_options_of opts False)) (\<lambda>_.
            cli_run ctx (report_campaign ctx (req_campaign request))))))) e1 = (x, e')" by blast
  from cli_try_zero [OF this assms(2)] obtain e2 where
    "run_state (cli_try ctx (preflight (req_campaign request)) (\<lambda>r.
       after_output (if clc_json ctx then [] else print_preflight False r) []
         (if \<not> pfr_passed r then finish [] 3
          else cli_try ctx (start (req_campaign request) (start_options_of opts False)) (\<lambda>_.
            cli_run ctx (report_campaign ctx (req_campaign request)))))) e2 = (x, e')" by blast
  from cli_try_zero [OF this assms(2)] obtain r e3 where
    "run_state (after_output (if clc_json ctx then [] else print_preflight False r) []
         (if \<not> pfr_passed r then finish [] 3
          else cli_try ctx (start (req_campaign request) (start_options_of opts False)) (\<lambda>_.
            cli_run ctx (report_campaign ctx (req_campaign request))))) e3 = (x, e')" by blast
  from after_output_zero [OF this assms(2)] obtain y where
    y: "run_state (cli_try ctx (start (req_campaign request) (start_options_of opts False)) (\<lambda>_.
       cli_run ctx (report_campaign ctx (req_campaign request)))) e3 = (y, e')" "cle_code y = Some 0"
    by (auto simp: finish_def split: if_splits)
  from cli_try_zero [OF y] obtain e4 where "run_state (cli_run ctx (report_campaign ctx (req_campaign request))) e4 = (y, e')" by auto
  from cli_run_zero [OF this y(2)] obtain e5 where "run_state (report_campaign ctx (req_campaign request)) e5 = (y, e')" by blast
  from report_campaign_zero [OF this y(2)] s show ?thesis by (auto simp: upgrade_state_is_terminal_def)
qed

subsection \<open>Arguments\<close>

text \<open>The arguments that ask for given options.\<close>

definition render_arguments :: "cli_options \<Rightarrow> assembly_options \<Rightarrow> string \<Rightarrow> u64 \<Rightarrow> string list" where
  "render_arguments opts a executor threads =
     [clo_command opts] @
     (if aso_verbose a then [''--verbose''] else []) @
     (if clo_allow_irreversible opts then [''--allow-irreversible''] else []) @
     (if clo_dry_run opts then [''--dry-run''] else []) @ (if clo_plan_only opts then [''--plan-only''] else []) @
     [''--state'', aso_state_directory a, ''--inventory'', aso_inventory_path a, ''--registry'', aso_registry_path a,
      ''--artifacts'', aso_artifacts_path a, ''--control-plane'', aso_control_plane a,
      ''--request'', clo_request_path opts, ''--campaign'', clo_campaign opts, ''--reason'', clo_reason opts,
      ''--executor'', executor, ''--threads'', u64_to_string threads, ''--parallel'', u32_to_string (clo_parallel opts)]"

definition asked_arguments :: "cli_options \<Rightarrow> assembly_options \<Rightarrow> string \<Rightarrow> u64 \<Rightarrow> parsed_arguments" where
  "asked_arguments opts a executor threads =
     \<lparr>pra_command = opts, pra_assembly = a\<lparr>aso_drain := True, aso_configuration := False, aso_rollout := False,
        aso_executor := EX_deterministic_inline, aso_worker_threads := 4\<rparr>,
      pra_executor = executor, pra_threads = threads, pra_help = False, pra_valid = True, pra_error = []\<rparr>"

lemma parse_flag:
  "flag_option a = Some f \<Longrightarrow> hd a = CHR ''-'' \<Longrightarrow> a \<noteq> ''--help'' \<Longrightarrow> a \<noteq> ''-h'' \<Longrightarrow>
   parse_loop (a # rest) p = parse_loop rest (f p)"
  by simp

lemma parse_value:
  "value_option a = Some f \<Longrightarrow> flag_option a = None \<Longrightarrow> hd a = CHR ''-'' \<Longrightarrow> a \<noteq> ''--help'' \<Longrightarrow> a \<noteq> ''-h'' \<Longrightarrow>
   pra_valid (f v p) \<Longrightarrow> parse_loop (a # v # rest) p = parse_loop rest (f v p)"
  by simp

lemma value_options:
  "value_option ''--state'' = Some (\<lambda>v p. p\<lparr>pra_assembly := (pra_assembly p)\<lparr>aso_state_directory := v\<rparr>\<rparr>)"
  "value_option ''--inventory'' = Some (\<lambda>v p. p\<lparr>pra_assembly := (pra_assembly p)\<lparr>aso_inventory_path := v\<rparr>\<rparr>)"
  "value_option ''--registry'' = Some (\<lambda>v p. p\<lparr>pra_assembly := (pra_assembly p)\<lparr>aso_registry_path := v\<rparr>\<rparr>)"
  "value_option ''--artifacts'' = Some (\<lambda>v p. p\<lparr>pra_assembly := (pra_assembly p)\<lparr>aso_artifacts_path := v\<rparr>\<rparr>)"
  "value_option ''--control-plane'' = Some (\<lambda>v p. p\<lparr>pra_assembly := (pra_assembly p)\<lparr>aso_control_plane := v\<rparr>\<rparr>)"
  "value_option ''--request'' = Some (\<lambda>v p. p\<lparr>pra_command := (pra_command p)\<lparr>clo_request_path := v\<rparr>\<rparr>)"
  "value_option ''--campaign'' = Some (\<lambda>v p. p\<lparr>pra_command := (pra_command p)\<lparr>clo_campaign := v\<rparr>\<rparr>)"
  "value_option ''--reason'' = Some (\<lambda>v p. p\<lparr>pra_command := (pra_command p)\<lparr>clo_reason := v\<rparr>\<rparr>)"
  "value_option ''--executor'' = Some (\<lambda>v p. p\<lparr>pra_executor := v\<rparr>)"
  by (simp_all add: value_option_def)

lemma number_options:
  "pra_valid p \<Longrightarrow> value_option ''--threads'' = Some f \<Longrightarrow> f (u64_to_string n) p = p\<lparr>pra_threads := n\<rparr>"
  "pra_valid p \<Longrightarrow> value_option ''--parallel'' = Some g \<Longrightarrow>
     g (u32_to_string m) p = p\<lparr>pra_command := (pra_command p)\<lparr>clo_parallel := m\<rparr>\<rparr>"
  "value_option ''--threads'' \<noteq> None" "value_option ''--parallel'' \<noteq> None"
proof -
  have n: "stoull (u64_to_string n) = Some n"
  proof -
    have "unat n < 2 ^ LENGTH(64)" by (rule unsigned_less)
    then have "unat n < 2 ^ 64" by simp
    from stoull_digits [OF this] show ?thesis by (simp add: u64_to_string_def)
  qed
  have m: "stoull (u32_to_string m) = Some (word_of_nat (unat m))"
  proof -
    have "unat m < 2 ^ LENGTH(32)" by (rule unsigned_less)
    then have "unat m < 2 ^ 64" by simp
    from stoull_digits [OF this] show ?thesis by (simp add: u32_to_string_def)
  qed
  have cast: "ucast (word_of_nat (unat m) :: u64) = m"
    by (rule bit_word_eqI) (simp add: bit_simps)
  show "pra_valid p \<Longrightarrow> value_option ''--threads'' = Some f \<Longrightarrow> f (u64_to_string n) p = p\<lparr>pra_threads := n\<rparr>"
    by (auto simp: value_option_def n)
  show "pra_valid p \<Longrightarrow> value_option ''--parallel'' = Some g \<Longrightarrow>
      g (u32_to_string m) p = p\<lparr>pra_command := (pra_command p)\<lparr>clo_parallel := m\<rparr>\<rparr>"
    by (auto simp: value_option_def m cast)
qed (simp_all add: value_option_def)

lemma flags_parsed:
  "parse_loop ((if b then [''--verbose''] else []) @ rest) p =
     parse_loop rest (p\<lparr>pra_assembly := (pra_assembly p)\<lparr>aso_verbose := b \<or> aso_verbose (pra_assembly p)\<rparr>\<rparr>)"
  "parse_loop ((if b then [''--allow-irreversible''] else []) @ rest) p =
     parse_loop rest (p\<lparr>pra_command := (pra_command p)\<lparr>clo_allow_irreversible := b \<or> clo_allow_irreversible (pra_command p)\<rparr>\<rparr>)"
  "parse_loop ((if b then [''--dry-run''] else []) @ rest) p =
     parse_loop rest (p\<lparr>pra_command := (pra_command p)\<lparr>clo_dry_run := b \<or> clo_dry_run (pra_command p)\<rparr>\<rparr>)"
  "parse_loop ((if b then [''--plan-only''] else []) @ rest) p =
     parse_loop rest (p\<lparr>pra_command := (pra_command p)\<lparr>clo_plan_only := b \<or> clo_plan_only (pra_command p)\<rparr>\<rparr>)"
  by (cases b; simp add: flag_option_def)+

lemma values_parsed:
  assumes "pra_valid p"
  shows "parse_loop (''--state'' # v # rest) p = parse_loop rest (p\<lparr>pra_assembly := (pra_assembly p)\<lparr>aso_state_directory := v\<rparr>\<rparr>)"
    "parse_loop (''--inventory'' # v # rest) p = parse_loop rest (p\<lparr>pra_assembly := (pra_assembly p)\<lparr>aso_inventory_path := v\<rparr>\<rparr>)"
    "parse_loop (''--registry'' # v # rest) p = parse_loop rest (p\<lparr>pra_assembly := (pra_assembly p)\<lparr>aso_registry_path := v\<rparr>\<rparr>)"
    "parse_loop (''--artifacts'' # v # rest) p = parse_loop rest (p\<lparr>pra_assembly := (pra_assembly p)\<lparr>aso_artifacts_path := v\<rparr>\<rparr>)"
    "parse_loop (''--control-plane'' # v # rest) p = parse_loop rest (p\<lparr>pra_assembly := (pra_assembly p)\<lparr>aso_control_plane := v\<rparr>\<rparr>)"
    "parse_loop (''--request'' # v # rest) p = parse_loop rest (p\<lparr>pra_command := (pra_command p)\<lparr>clo_request_path := v\<rparr>\<rparr>)"
    "parse_loop (''--campaign'' # v # rest) p = parse_loop rest (p\<lparr>pra_command := (pra_command p)\<lparr>clo_campaign := v\<rparr>\<rparr>)"
    "parse_loop (''--reason'' # v # rest) p = parse_loop rest (p\<lparr>pra_command := (pra_command p)\<lparr>clo_reason := v\<rparr>\<rparr>)"
    "parse_loop (''--executor'' # v # rest) p = parse_loop rest (p\<lparr>pra_executor := v\<rparr>)"
    "parse_loop (''--threads'' # u64_to_string n # rest) p = parse_loop rest (p\<lparr>pra_threads := n\<rparr>)"
    "parse_loop (''--parallel'' # u32_to_string m # rest) p =
       parse_loop rest (p\<lparr>pra_command := (pra_command p)\<lparr>clo_parallel := m\<rparr>\<rparr>)"
  using assms number_options(3,4)
  by (auto simp: value_options number_options(1,2) [OF assms] flag_option_def simp del: dec_digits.simps)

text \<open>
  C37: the command line says what was asked.  Whatever options are asked for, with any texts as their values (also
  texts that look like options), the arguments that ask for them parse to exactly these options, as long as the command
  is a word of its own.
\<close>

theorem arguments_roundtrip:
  assumes "clo_command opts \<noteq> []" "hd (clo_command opts) \<noteq> CHR ''-''" "clo_command opts \<noteq> ''help''"
  shows "parse_arguments (render_arguments opts a executor threads) = asked_arguments opts a executor threads"
proof -
  have "parse_arguments (render_arguments opts a executor threads) = parse_loop (tl (render_arguments opts a executor threads))
      (default_arguments\<lparr>pra_command := default_options\<lparr>clo_command := clo_command opts\<rparr>\<rparr>)"
    using assms by (simp add: parse_arguments_def render_arguments_def default_arguments_def default_options_def)
  also have "\<dots> = asked_arguments opts a executor threads"
    using assms(1)
    by (simp add: render_arguments_def flags_parsed values_parsed default_arguments_def default_options_def
        default_assembly_def asked_arguments_def del: parse_loop.simps(2))
  finally show ?thesis .
qed

theorem arguments_roundtrip_witness:
  "render_arguments (default_options\<lparr>clo_command := ''pause'', clo_campaign := ''c-1'', clo_reason := ''--json'', clo_parallel := 3\<rparr>)
       default_assembly ''thread-pool'' 8 ! 16 = ''--json'' \<and>
   parse_arguments (render_arguments (default_options\<lparr>clo_command := ''pause'', clo_campaign := ''c-1'', clo_reason := ''--json'', clo_parallel := 3\<rparr>)
       default_assembly ''thread-pool'' 8) =
     asked_arguments (default_options\<lparr>clo_command := ''pause'', clo_campaign := ''c-1'', clo_reason := ''--json'', clo_parallel := 3\<rparr>)
       default_assembly ''thread-pool'' 8"
proof
  show "render_arguments (default_options\<lparr>clo_command := ''pause'', clo_campaign := ''c-1'', clo_reason := ''--json'', clo_parallel := 3\<rparr>)
       default_assembly ''thread-pool'' 8 ! 16 = ''--json''"
    by (simp add: render_arguments_def default_options_def default_assembly_def)
qed (rule arguments_roundtrip; simp add: default_options_def)

end
