(* ===== verification/Local_Transport.thy ===== *)
theory Local_Transport
  imports Store_Frames
begin

text \<open>
  The framed transport of the local-process adapter (\<open>adapters/local_process/framed_transport\<close>): a message is a
  frame of its length, its checksum and its bytes, over a socket that may take or deliver any part of what it is given.
  The socket calls of the operating system are a record of functions over a world \<open>'w\<close>.
\<close>

subsection \<open>Sockets\<close>

type_synonym u16 = "16 word"

text \<open>
  A handle is an integer, negative when there is none.  \<open>skc_send\<close> answers the number of bytes taken or a number
  that is not positive; \<open>skc_recv\<close> answers the bytes it wrote into the buffer, none when the peer has closed, and
  \<open>None\<close> for an error.  \<open>skc_runtime\<close> is what the one initialisation of the socket library answered.
\<close>

record 'w socket_calls =
  skc_runtime :: status
  skc_socket :: "'w \<Rightarrow> int \<times> 'w"
  skc_connect :: "int \<Rightarrow> u16 \<Rightarrow> 'w \<Rightarrow> bool \<times> 'w"
  skc_bind :: "int \<Rightarrow> u16 \<Rightarrow> 'w \<Rightarrow> bool \<times> 'w"
  skc_listen :: "int \<Rightarrow> 'w \<Rightarrow> bool \<times> 'w"
  skc_sockname :: "int \<Rightarrow> 'w \<Rightarrow> u16 option \<times> 'w"
  skc_accept :: "int \<Rightarrow> 'w \<Rightarrow> int \<times> 'w"
  skc_send :: "int \<Rightarrow> string \<Rightarrow> 'w \<Rightarrow> int \<times> 'w"
  skc_recv :: "int \<Rightarrow> nat \<Rightarrow> 'w \<Rightarrow> string option \<times> 'w"
  skc_close :: "int \<Rightarrow> 'w \<Rightarrow> 'w"

definition close_handle :: "'w socket_calls \<Rightarrow> int \<Rightarrow> 'w \<Rightarrow> 'w" where
  "close_handle k h w = (if h = -1 then w else skc_close k h w)"

text \<open>A call is never given more than one MiB at a time.\<close>

function send_all :: "'w socket_calls \<Rightarrow> int \<Rightarrow> string \<Rightarrow> 'w \<Rightarrow> status \<times> 'w" where
  "send_all k h data w =
     (if data = [] then (ok_status, w)
      else let (r, w) = skc_send k h (take (2 ^ 20) data) w
        in if r \<le> 0 then (fail EC_io_error ''socket send failed'' [], w)
           else send_all k h (drop (nat r) data) w)"
  by pat_completeness auto

termination
  by (relation "measure (\<lambda>(k, h, data, w). length data)") auto

declare send_all.simps [simp del]

text \<open>\<open>None\<close> is a peer that closed before the last byte.\<close>

function receive_exact :: "'w socket_calls \<Rightarrow> int \<Rightarrow> nat \<Rightarrow> 'w \<Rightarrow> string option result \<times> 'w" where
  "receive_exact k h n w =
     (if n = 0 then (Inr (Some []), w)
      else case skc_recv k h n w of
        (None, w) \<Rightarrow> (fail EC_io_error ''socket receive failed'' [], w)
      | (Some bytes, w) \<Rightarrow>
          if bytes = [] then (Inr None, w)
          else case receive_exact k h (n - length bytes) w of
            (r, w) \<Rightarrow> (map_sum id (map_option ((@) (take n bytes))) r, w))"
  by pat_completeness auto

termination
  by (relation "measure (\<lambda>(k, h, n, w). n)") auto

declare receive_exact.simps [simp del]

subsection \<open>Frames\<close>

definition put_be :: "u32 \<Rightarrow> string" where
  "put_be v = map (\<lambda>i. char_of (unat (drop_bit (8 * i) v AND 0xFF))) [3, 2, 1, 0]"

definition read_be :: "string \<Rightarrow> nat \<Rightarrow> u32" where
  "read_be header n =
     push_bit 24 (byte_u32 (header ! n)) OR push_bit 16 (byte_u32 (header ! (n + 1))) OR
     push_bit 8 (byte_u32 (header ! (n + 2))) OR byte_u32 (header ! (n + 3))"

definition encode_frame :: "string \<Rightarrow> string" where
  "encode_frame payload = put_be (word_of_nat (length payload)) @ put_be (crc32c payload) @ payload"

definition max_frame_bytes :: u32 where
  "max_frame_bytes = 1024 * 1024"

subsection \<open>Connections\<close>

record tcp_connection =
  tcn_handle :: int

definition no_connection :: tcp_connection where
  "no_connection = \<lparr>tcn_handle = -1\<rparr>"

definition connection_close :: "'w socket_calls \<Rightarrow> tcp_connection \<Rightarrow> 'w \<Rightarrow> tcp_connection \<times> 'w" where
  "connection_close k c w =
     (if tcn_handle c \<ge> 0 then (no_connection, close_handle k (tcn_handle c) w) else (c, w))"

definition connect_loopback :: "'w socket_calls \<Rightarrow> u16 \<Rightarrow> 'w \<Rightarrow> tcp_connection result \<times> 'w" where
  "connect_loopback k port w =
     (case skc_runtime k of
        Inl e \<Rightarrow> (Inl e, w)
      | Inr _ \<Rightarrow>
          (let (h, w) = skc_socket k w
           in if h = -1 then (fail EC_io_error ''could not create a socket'' [], w)
              else case skc_connect k h port w of
                (False, w) \<Rightarrow>
                  (fail EC_io_error ''could not connect to the loopback endpoint'' (dec_digits (unat port)), close_handle k h w)
              | (True, w) \<Rightarrow> (Inr \<lparr>tcn_handle = h\<rparr>, w)))"

definition send_message :: "'w socket_calls \<Rightarrow> tcp_connection \<Rightarrow> string \<Rightarrow> 'w \<Rightarrow> status \<times> 'w" where
  "send_message k c payload w =
     (if tcn_handle c < 0 then (fail EC_closed ''the connection is closed'' [], w)
      else if length payload > unat max_frame_bytes
      then (fail EC_resource_exhausted ''frame exceeds the transport bound'' (dec_digits (length payload)), w)
      else send_all k (tcn_handle c) (encode_frame payload) w)"

definition closing :: "'w socket_calls \<Rightarrow> tcp_connection \<Rightarrow> 'a result \<Rightarrow> 'w \<Rightarrow> 'a result \<times> tcp_connection \<times> 'w" where
  "closing k c r w = (let (c, w) = connection_close k c w in (r, c, w))"

text \<open>The checksum of what arrived decides; a short or a wrong frame closes the connection.\<close>

definition checked_payload ::
    "'w socket_calls \<Rightarrow> tcp_connection \<Rightarrow> u32 \<Rightarrow> string \<Rightarrow> 'w \<Rightarrow> string result \<times> tcp_connection \<times> 'w" where
  "checked_payload k c crc payload w =
     (if crc32c payload \<noteq> crc then closing k c (fail EC_integrity_failure ''frame checksum mismatch'' []) w
      else (Inr payload, c, w))"

definition receive_message ::
    "'w socket_calls \<Rightarrow> tcp_connection \<Rightarrow> u32 \<Rightarrow> 'w \<Rightarrow> string result \<times> tcp_connection \<times> 'w" where
  "receive_message k c max_bytes w =
     (if tcn_handle c < 0 then (fail EC_closed ''the connection is closed'' [], c, w)
      else case receive_exact k (tcn_handle c) 8 w of
        (Inl e, w) \<Rightarrow> (Inl e, c, w)
      | (Inr None, w) \<Rightarrow> (fail EC_closed ''the peer closed the connection'' [], c, w)
      | (Inr (Some header), w) \<Rightarrow>
          (let len = read_be header 0; crc = read_be header 4; limit = min max_bytes max_frame_bytes
           in if len > limit
              then closing k c (fail EC_resource_exhausted ''frame exceeds the permitted bound''
                     (u32_to_string len @ '' > '' @ u32_to_string limit)) w
              else case receive_exact k (tcn_handle c) (unat len) w of
                (Inl e, w) \<Rightarrow> (Inl e, c, w)
              | (Inr None, w) \<Rightarrow> closing k c (fail EC_io_error ''the peer closed mid-frame'' []) w
              | (Inr (Some payload), w) \<Rightarrow> checked_payload k c crc payload w))"

subsection \<open>Listeners\<close>

record tcp_listener =
  tls_handle :: int
  tls_port :: u16

definition bind_loopback :: "'w socket_calls \<Rightarrow> u16 \<Rightarrow> 'w \<Rightarrow> tcp_listener result \<times> 'w" where
  "bind_loopback k port w =
     (case skc_runtime k of
        Inl e \<Rightarrow> (Inl e, w)
      | Inr _ \<Rightarrow>
          (let (h, w) = skc_socket k w
           in if h = -1 then (fail EC_io_error ''could not create a listener socket'' [], w)
              else case skc_bind k h port w of
                (False, w) \<Rightarrow>
                  (fail EC_io_error ''could not bind the loopback endpoint'' (dec_digits (unat port)), close_handle k h w)
              | (True, w) \<Rightarrow>
                  (case skc_listen k h w of
                     (False, w) \<Rightarrow> (fail EC_io_error ''could not listen on the loopback endpoint'' [], close_handle k h w)
                   | (True, w) \<Rightarrow>
                       (case skc_sockname k h w of
                          (None, w) \<Rightarrow> (fail EC_io_error ''could not read the bound endpoint'' [], close_handle k h w)
                        | (Some bound, w) \<Rightarrow> (Inr \<lparr>tls_handle = h, tls_port = bound\<rparr>, w)))))"

definition accept_one :: "'w socket_calls \<Rightarrow> tcp_listener \<Rightarrow> 'w \<Rightarrow> tcp_connection result \<times> 'w" where
  "accept_one k l w =
     (if tls_handle l < 0 then (fail EC_closed ''the listener is closed'' [], w)
      else let (h, w) = skc_accept k (tls_handle l) w
        in if h = -1 then (fail EC_io_error ''accept failed'' [], w) else (Inr \<lparr>tcn_handle = h\<rparr>, w))"

definition listener_close :: "'w socket_calls \<Rightarrow> tcp_listener \<Rightarrow> 'w \<Rightarrow> tcp_listener \<times> 'w" where
  "listener_close k l w =
     (if tls_handle l \<ge> 0 then (l\<lparr>tls_handle := -1\<rparr>, close_handle k (tls_handle l) w) else (l, w))"

subsection \<open>Reading a frame back\<close>

lemma put_be_bytes:
  "put_be v = [char_of (unat (drop_bit 24 v AND 0xFF)), char_of (unat (drop_bit 16 v AND 0xFF)),
    char_of (unat (drop_bit 8 v AND 0xFF)), char_of (unat (v AND 0xFF))]"
  by (simp add: put_be_def)

lemma length_put_be [simp]: "length (put_be v) = 4"
  by (simp add: put_be_def)

lemma length_encode_frame [simp]: "length (encode_frame p) = length p + 8"
  by (simp add: encode_frame_def)

lemma read_put_be:
  assumes "n = length xs"
  shows "read_be (xs @ put_be v @ ys) n = v"
proof -
  have m: "(0xFF :: u32) = mask 8" by (simp add: mask_eq_exp_minus_1)
  have "read_be (xs @ put_be v @ ys) n =
      push_bit 24 (drop_bit 24 v AND 0xFF) OR push_bit 16 (drop_bit 16 v AND 0xFF) OR
      push_bit 8 (drop_bit 8 v AND 0xFF) OR (v AND 0xFF)"
    unfolding assms read_be_def put_be_bytes by (simp add: nth_append byte_u32_char)
  also have "\<dots> = v"
  proof (rule bit_eqI)
    fix n assume "possible_bit TYPE(32 word) n"
    consider "n < 8" | "8 \<le> n" "n < 16" | "16 \<le> n" "n < 24" | "24 \<le> n" by linarith
    then show "bit (push_bit 24 (drop_bit 24 v AND 0xFF) OR push_bit 16 (drop_bit 16 v AND 0xFF) OR
      push_bit 8 (drop_bit 8 v AND 0xFF) OR (v AND 0xFF)) n = bit v n"
      unfolding m by cases (auto simp: bit_simps dest: bit_imp_le_length)
  qed
  finally show ?thesis .
qed

lemma byte_u32_bit: "bit (byte_u32 c) n \<Longrightarrow> n < 8"
proof -
  assume "bit (byte_u32 c) n"
  then have "bit (of_char c :: nat) n" by (simp add: byte_u32_def bit_simps)
  moreover have "(of_char c :: nat) < 2 ^ 8" by simp
  ultimately show "n < 8" by (metis bit_take_bit_iff take_bit_nat_eq_self)
qed

lemma char_of_byte_u32: "char_of (unat (byte_u32 c)) = c"
  by (simp add: unat_byte_u32)

lemma put_read_be:
  assumes "length xs = 4"
  shows "put_be (read_be xs 0) = xs"
proof -
  obtain a b c d where xs: "xs = [a, b, c, d]"
    using assms by (auto simp: length_Suc_conv numeral_eq_Suc)
  have m: "(0xFF :: u32) = mask 8" by (simp add: mask_eq_exp_minus_1)
  let ?w = "push_bit 24 (byte_u32 a) OR push_bit 16 (byte_u32 b) OR push_bit 8 (byte_u32 c) OR byte_u32 d"
  note bits = byte_u32_bit
  have "drop_bit 24 ?w AND 0xFF = byte_u32 a" "drop_bit 16 ?w AND 0xFF = byte_u32 b"
      "drop_bit 8 ?w AND 0xFF = byte_u32 c" "?w AND 0xFF = byte_u32 d"
    unfolding m by (rule bit_word_eqI; auto simp: bit_simps dest: bits bit_imp_le_length)+
  then show ?thesis by (simp add: xs read_be_def put_be_bytes char_of_byte_u32)
qed

subsection \<open>Streams\<close>

text \<open>
  What the code relies on of a connected socket: \<open>incoming w\<close> are the bytes that will still arrive on it, every
  receive takes a non-empty front part of them that fits the buffer, and answers nothing only at their end; a send takes
  a front part of what it is given.
\<close>

definition delivers :: "'w socket_calls \<Rightarrow> int \<Rightarrow> ('w \<Rightarrow> string) \<Rightarrow> bool" where
  "delivers k h incoming \<longleftrightarrow>
     (\<forall>n w. 0 < n \<longrightarrow> (\<exists>bytes w'. skc_recv k h n w = (Some bytes, w') \<and> incoming w = bytes @ incoming w' \<and>
        length bytes \<le> n \<and> (bytes = [] \<longrightarrow> incoming w = [])))"

definition transmits :: "'w socket_calls \<Rightarrow> int \<Rightarrow> ('w \<Rightarrow> string) \<Rightarrow> bool" where
  "transmits k h outgoing \<longleftrightarrow>
     (\<forall>data w. \<exists>r w'. skc_send k h data w = (r, w') \<and> outgoing w' = outgoing w @ take (nat r) data \<and> nat r \<le> length data)"

lemma send_all_spec:
  assumes "transmits k h outgoing" "send_all k h data w = (r, w')"
  shows "\<exists>n. outgoing w' = outgoing w @ take n data \<and> (r = ok_status \<longrightarrow> length data \<le> n)"
  using assms(2)
proof (induction "length data" arbitrary: data w rule: less_induct)
  case less
  show ?case
  proof (cases "data = []")
    case True
    with less.prems show ?thesis by (simp add: send_all.simps [of k h "[]"])
  next
    case False
    obtain m w1 where m: "skc_send k h (take (2 ^ 20) data) w = (m, w1)" by fastforce
    with assms(1) have out: "outgoing w1 = outgoing w @ take (nat m) (take (2 ^ 20) data)"
        "nat m \<le> length (take (2 ^ 20) data)" unfolding transmits_def by (metis prod.inject)+
    from out(2) have "nat m \<le> 2 ^ 20" by simp
    with out(1) have out: "outgoing w1 = outgoing w @ take (nat m) data" by (simp add: min_absorb1)
    show ?thesis
    proof (cases "m \<le> 0")
      case True
      with less.prems m False have "w' = w1" "r \<noteq> ok_status" by (auto simp: send_all.simps [of k h data] fail_def)
      with out show ?thesis by blast
    next
      case pos: False
      with less.prems m False have rest: "send_all k h (drop (nat m) data) w1 = (r, w')"
        by (simp add: send_all.simps [of k h data])
      from less.hyps [OF _ rest] pos False obtain n where
        "outgoing w' = outgoing w1 @ take n (drop (nat m) data)" "r = ok_status \<longrightarrow> length (drop (nat m) data) \<le> n" by auto
      with out show ?thesis by (intro exI [of _ "nat m + n"]) (auto simp: take_add)
    qed
  qed
qed

lemma receive_exact_spec:
  assumes "delivers k h incoming" "receive_exact k h n w = (r, w')"
  shows "if n \<le> length (incoming w) then r = Inr (Some (take n (incoming w))) \<and> incoming w' = drop n (incoming w)
    else r = Inr None"
  using assms(2)
proof (induction n arbitrary: w r w' rule: less_induct)
  case (less n)
  show ?case
  proof (cases "n = 0")
    case True
    with less.prems show ?thesis by (simp add: receive_exact.simps [of k h 0])
  next
    case False
    with assms(1) obtain bytes w1 where b: "skc_recv k h n w = (Some bytes, w1)" "incoming w = bytes @ incoming w1"
        "length bytes \<le> n" "bytes = [] \<longrightarrow> incoming w = []" unfolding delivers_def by blast
    show ?thesis
    proof (cases "bytes = []")
      case True
      with b less.prems False show ?thesis by (auto simp: receive_exact.simps [of k h n])
    next
      case some: False
      obtain r1 w2 where r1: "receive_exact k h (n - length bytes) w1 = (r1, w2)" by fastforce
      from less.prems False some b(1,3) r1 have r: "r = map_sum id (map_option ((@) bytes)) r1" "w' = w2"
        by (auto simp: receive_exact.simps [of k h n])
      from less.IH [OF _ r1] some False have
        "if n - length bytes \<le> length (incoming w1)
         then r1 = Inr (Some (take (n - length bytes) (incoming w1))) \<and> incoming w2 = drop (n - length bytes) (incoming w1)
         else r1 = Inr None" by auto
      with r b show ?thesis by (auto split: if_splits)
    qed
  qed
qed

text \<open>What a receive answers, read off the bytes that arrive.\<close>

lemma receive_message_spec:
  assumes "delivers k (tcn_handle c) incoming" "0 \<le> tcn_handle c" "receive_message k c m w = (r, c', w')"
  defines "q \<equiv> incoming w"
  defines "len \<equiv> read_be (take 8 q) 0"
  shows "if length q < 8 then (\<exists>e. r = Inl e)
    else if len \<le> min m max_frame_bytes \<and> unat len \<le> length (drop 8 q) \<and> crc32c (take (unat len) (drop 8 q)) = read_be (take 8 q) 4
    then r = Inr (take (unat len) (drop 8 q)) \<and> c' = c \<and> incoming w' = drop (unat len) (drop 8 q)
    else (\<exists>e. r = Inl e) \<and> c' = no_connection"
proof -
  let ?h = "tcn_handle c"
  obtain r1 w1 where r1: "receive_exact k ?h 8 w = (r1, w1)" by fastforce
  note head = receive_exact_spec [OF assms(1) r1, folded q_def]
  show ?thesis
  proof (cases "8 \<le> length q")
    case False
    with head r1 assms(2,3) show ?thesis by (auto simp: receive_message_def fail_def)
  next
    case True
    with head have h: "r1 = Inr (Some (take 8 q))" "incoming w1 = drop 8 q" by simp_all
    obtain r2 w2 where r2: "receive_exact k ?h (unat len) w1 = (r2, w2)" by fastforce
    note body = receive_exact_spec [OF assms(1) r2, unfolded h(2)]
    have result: "receive_message k c m w = (if len > min m max_frame_bytes
        then closing k c (fail EC_resource_exhausted ''frame exceeds the permitted bound''
               (u32_to_string len @ '' > '' @ u32_to_string (min m max_frame_bytes))) w1
        else case r2 of Inl e \<Rightarrow> (Inl e, c, w2)
          | Inr None \<Rightarrow> closing k c (fail EC_io_error ''the peer closed mid-frame'' []) w2
          | Inr (Some payload) \<Rightarrow> checked_payload k c (read_be (take 8 q) 4) payload w2)"
      using assms(2) r2
      by (cases r2) (auto simp: receive_message_def r1 h(1) len_def Let_def split: option.split)
    define limit where "limit = min m max_frame_bytes"
    show ?thesis
      using True result [unfolded assms(3)] body assms(2) unfolding limit_def [symmetric]
      by (auto simp: closing_def connection_close_def checked_payload_def no_connection_def fail_def not_le
          split: if_splits)
  qed
qed


lemma framed_fields:
  assumes "length p \<le> unat (min m max_frame_bytes)"
  shows "read_be (take 8 (encode_frame p @ rest)) 0 = word_of_nat (length p)"
    "read_be (take 8 (encode_frame p @ rest)) 4 = crc32c p" "unat (word_of_nat (length p) :: u32) = length p"
    "(word_of_nat (length p) :: u32) \<le> min m max_frame_bytes"
proof -
  have header: "take 8 (encode_frame p @ rest) = put_be (word_of_nat (length p)) @ put_be (crc32c p)"
    by (simp add: encode_frame_def)
  show "read_be (take 8 (encode_frame p @ rest)) 0 = word_of_nat (length p)"
    unfolding header using read_put_be [of 0 "[]"] by simp
  show "read_be (take 8 (encode_frame p @ rest)) 4 = crc32c p"
    unfolding header using read_put_be [of 4 "put_be (word_of_nat (length p))" _ "[]"] by simp
  have "length p < 2 ^ LENGTH(32)" using assms unsigned_less [of "min m max_frame_bytes"] by (rule le_less_trans)
  then show n: "unat (word_of_nat (length p) :: u32) = length p" by (simp add: unat_of_nat take_bit_nat_eq_self)
  show "(word_of_nat (length p) :: u32) \<le> min m max_frame_bytes" using assms by (simp only: word_le_nat_alt n)
qed

lemma frame_of_fields:
  assumes "8 \<le> length q" "unat (read_be (take 8 q) 0) \<le> length (drop 8 q)"
    and "crc32c (take (unat (read_be (take 8 q) 0)) (drop 8 q)) = read_be (take 8 q) 4"
  shows "encode_frame (take (unat (read_be (take 8 q) 0)) (drop 8 q)) @ drop (unat (read_be (take 8 q) 0)) (drop 8 q) = q"
proof -
  let ?len = "read_be (take 8 q) 0"
  have four: "read_be (take 8 q) 0 = read_be (take 4 q) 0" "read_be (take 8 q) 4 = read_be (take 4 (drop 4 q)) 0"
    using assms(1) by (simp_all add: read_be_def)
  have n: "length (take (unat ?len) (drop 8 q)) = unat ?len" using assms(2) by simp
  have "encode_frame (take (unat ?len) (drop 8 q)) = put_be ?len @ put_be (read_be (take 8 q) 4) @ take (unat ?len) (drop 8 q)"
    unfolding encode_frame_def n assms(3) by simp
  also have "\<dots> = take 4 q @ take 4 (drop 4 q) @ take (unat ?len) (drop 8 q)"
    using assms(1) put_read_be [of "take 4 q"] put_read_be [of "take 4 (drop 4 q)"] by (simp add: four)
  finally have frame: "encode_frame (take (unat ?len) (drop 8 q)) = take 8 q @ take (unat ?len) (drop 8 q)"
    by (simp add: append_assoc [symmetric] take_add [symmetric])
  show ?thesis by (simp only: frame append_assoc append_take_drop_id)
qed

lemma receive_frames_exact:
  assumes "delivers k (tcn_handle c) incoming" "0 \<le> tcn_handle c" "receive_message k c m w = (r, c', w')"
  shows "(r = Inr p \<longleftrightarrow> length p \<le> unat (min m max_frame_bytes) \<and> take (length p + 8) (incoming w) = encode_frame p) \<and>
    (r = Inr p \<longrightarrow> c' = c \<and> incoming w = encode_frame p @ incoming w') \<and>
    (8 \<le> length (incoming w) \<and> (\<exists>e. r = Inl e) \<longrightarrow> tcn_handle c' = -1)"
proof -
  let ?q = "incoming w"
  let ?len = "read_be (take 8 ?q) 0"
  note spec = receive_message_spec [OF assms]
  have sound: "length p \<le> unat (min m max_frame_bytes) \<and> c' = c \<and> ?q = encode_frame p @ incoming w'" if "r = Inr p"
  proof -
    from spec that have *: "8 \<le> length ?q" "?len \<le> min m max_frame_bytes" "unat ?len \<le> length (drop 8 ?q)"
      "crc32c (take (unat ?len) (drop 8 ?q)) = read_be (take 8 ?q) 4" "p = take (unat ?len) (drop 8 ?q)" "c' = c"
      "incoming w' = drop (unat ?len) (drop 8 ?q)" by (auto split: if_splits)
    from frame_of_fields [OF *(1,3,4)] *(2,3,5-7) show ?thesis by (simp add: word_le_nat_alt)
  qed
  have complete: "r = Inr p" if "length p \<le> unat (min m max_frame_bytes)" "take (length p + 8) ?q = encode_frame p"
  proof -
    have q: "?q = encode_frame p @ drop (length p + 8) ?q" using append_take_drop_id [of "length p + 8" ?q] that(2) by simp
    note fields = framed_fields(1,2) [of p m "drop (length p + 8) ?q", OF that(1), folded q] framed_fields(3,4) [OF that(1)]
    have "take (length p) (drop 8 ?q) = p" by (subst q) (simp add: encode_frame_def)
    moreover have "length p \<le> length (drop 8 ?q)" by (subst q) simp
    moreover have "\<not> length ?q < 8" by (subst q) simp
    ultimately show ?thesis using spec fields by (simp del: min_less_iff_disj min_le_iff_disj)
  qed
  show ?thesis
  proof (intro conjI impI)
    show "r = Inr p \<longleftrightarrow> length p \<le> unat (min m max_frame_bytes) \<and> take (length p + 8) ?q = encode_frame p"
      using sound complete by (metis append_eq_conv_conj length_encode_frame)
  next
    assume "8 \<le> length ?q \<and> (\<exists>e. r = Inl e)"
    with spec show "tcn_handle c' = -1" by (auto simp: no_connection_def split: if_splits)
  qed (use sound in blast)+
qed

text \<open>
  C38: a receive accepts frames and nothing else.  Over a socket that delivers its bytes in any pieces, a
  receive answers a message exactly when the bytes that arrive begin with the frame of this message and it is within the
  bound; it then leaves what follows the frame.  When a header arrived and no message is answered, be it too
  long, cut short or changed, the connection is closed, so that nothing after it is ever read as a frame.
\<close>

theorem frames_exact:
  assumes "delivers k (tcn_handle c) incoming" "0 \<le> tcn_handle c" "receive_message k c m w = (r, c', w')"
  shows "(r = Inr p \<longleftrightarrow> length p \<le> unat (min m max_frame_bytes) \<and> take (length p + 8) (incoming w) = encode_frame p) \<and>
    (r = Inr p \<longrightarrow> c' = c \<and> incoming w = encode_frame p @ incoming w') \<and>
    (8 \<le> length (incoming w) \<and> (\<exists>e. r = Inl e) \<longrightarrow> tcn_handle c' = -1)"
  by (rule receive_frames_exact [OF assms])

text \<open>
  A message survives the transport.  When a send reports success, what went out is one frame, however the socket
  cut it; on any socket where these bytes arrive, in whatever pieces and whatever follows them, a receive
  answers the message and leaves exactly what follows.
\<close>

theorem message_roundtrip:
  assumes "transmits k (tcn_handle c) outgoing" "send_message k c p w = (ok_status, w')"
    and "delivers k' (tcn_handle d) incoming" "0 \<le> tcn_handle d" "max_frame_bytes \<le> m"
    and "outgoing w' @ rest = outgoing w @ incoming v"
  shows "\<exists>v'. receive_message k' d m v = (Inr p, d, v') \<and> incoming v' = rest"
proof -
  from assms(2) have small: "length p \<le> unat max_frame_bytes" and sent: "send_all k (tcn_handle c) (encode_frame p) w = (ok_status, w')"
    by (auto simp: send_message_def fail_def split: if_splits)
  from send_all_spec [OF assms(1) sent] have "outgoing w' = outgoing w @ encode_frame p" by auto
  with assms(6) have arrives: "incoming v = encode_frame p @ rest" by simp
  obtain r d' v' where got: "receive_message k' d m v = (r, d', v')" by (rule prod_cases3)
  from receive_frames_exact [OF assms(3,4) got, of p] small assms(5) arrives show ?thesis
    by (simp add: got min_absorb2)
qed


subsection \<open>Witnesses\<close>

text \<open>A pipe: the bytes in flight, and how many of them each call moves at most.\<close>

definition pipe_limit :: "nat list \<times> string \<Rightarrow> nat \<Rightarrow> nat" where
  "pipe_limit w n = (case fst w of [] \<Rightarrow> n | s # _ \<Rightarrow> min n (max 1 s))"

definition pipe_calls :: "(nat list \<times> string) socket_calls" where
  "pipe_calls =
     \<lparr>skc_runtime = ok_status, skc_socket = (\<lambda>w. (3, w)), skc_connect = (\<lambda>h port w. (True, w)),
      skc_bind = (\<lambda>h port w. (True, w)), skc_listen = (\<lambda>h w. (True, w)), skc_sockname = (\<lambda>h w. (Some 4000, w)),
      skc_accept = (\<lambda>h w. (4, w)),
      skc_send = (\<lambda>h d w. (int (pipe_limit w (length d)), (tl (fst w), snd w @ take (pipe_limit w (length d)) d))),
      skc_recv = (\<lambda>h n w. (Some (take (pipe_limit w n) (snd w)), (tl (fst w), drop (pipe_limit w n) (snd w)))),
      skc_close = (\<lambda>h w. w)\<rparr>"

lemma pipe_limit_bound: "pipe_limit w n \<le> n" "0 < n \<Longrightarrow> 0 < pipe_limit w n"
  by (auto simp: pipe_limit_def split: list.split)

lemma pipe_streams: "delivers pipe_calls h snd" "transmits pipe_calls h snd"
proof -
  show "delivers pipe_calls h snd"
    unfolding delivers_def
  proof (intro allI impI)
    fix n :: nat and w :: "nat list \<times> string"
    assume "0 < n"
    then have "0 < pipe_limit w n" "pipe_limit w n \<le> n" by (simp_all add: pipe_limit_bound)
    then show "\<exists>bytes w'. skc_recv pipe_calls h n w = (Some bytes, w') \<and> snd w = bytes @ snd w' \<and>
        length bytes \<le> n \<and> (bytes = [] \<longrightarrow> snd w = [])"
      by (simp add: pipe_calls_def)
  qed
  show "transmits pipe_calls h snd" by (simp add: transmits_def pipe_calls_def pipe_limit_bound)
qed

theorem frames_exact_witness:
  "\<exists>c' w'. receive_message pipe_calls \<lparr>tcn_handle = 3\<rparr> max_frame_bytes ([1, 2, 3], encode_frame ''ok'' @ ''x'') =
     (Inr ''ok'', c', w') \<and> snd w' = ''x'' \<and> c' = \<lparr>tcn_handle = 3\<rparr>"
proof -
  let ?c = "\<lparr>tcn_handle = 3\<rparr>" and ?w = "([1, 2, 3], encode_frame ''ok'' @ ''x'')"
  obtain r c' w' where got: "receive_message pipe_calls ?c max_frame_bytes ?w = (r, c', w')" by (rule prod_cases3)
  have "delivers pipe_calls (tcn_handle ?c) snd" by (rule pipe_streams)
  from frames_exact [OF this _ got, of "''ok''"] have "r = Inr ''ok''" "c' = ?c" "snd w' = ''x''"
    by (simp_all add: max_frame_bytes_def)
  with got show ?thesis by blast
qed

theorem message_roundtrip_witness:
  "\<exists>w' v'. send_message pipe_calls \<lparr>tcn_handle = 3\<rparr> ''ok'' ([], []) = (ok_status, w') \<and>
     receive_message pipe_calls \<lparr>tcn_handle = 4\<rparr> max_frame_bytes ([1, 2], snd w' @ ''x'') =
       (Inr ''ok'', \<lparr>tcn_handle = 4\<rparr>, v') \<and> snd v' = ''x''"
proof -
  let ?c = "\<lparr>tcn_handle = 3\<rparr>" and ?d = "\<lparr>tcn_handle = 4\<rparr>"
  have frame: "encode_frame ''ok'' \<noteq> []" by (simp add: encode_frame_def)
  have sent: "send_message pipe_calls ?c ''ok'' ([], []) = (ok_status, ([], encode_frame ''ok''))"
    using frame
    by (simp add: send_message_def max_frame_bytes_def send_all.simps [of _ _ "encode_frame ''ok''"]
        send_all.simps [of _ _ "[]"] pipe_calls_def pipe_limit_def)
  have "transmits pipe_calls (tcn_handle ?c) snd" "delivers pipe_calls (tcn_handle ?d) snd" by (rule pipe_streams)+
  from message_roundtrip [OF this(1) sent this(2), where m = max_frame_bytes and v = "([1, 2], encode_frame ''ok'' @ ''x'')" and rest = "''x''"]
  obtain v' where "receive_message pipe_calls ?d max_frame_bytes ([1, 2], encode_frame ''ok'' @ ''x'') = (Inr ''ok'', ?d, v')"
    "snd v' = ''x''" by auto
  with sent show ?thesis by (intro exI [of _ "([], encode_frame ''ok'')"] exI [of _ v']) simp
qed

end
