(* ===== verification/Local_Server.thy ===== *)
theory Local_Server
  imports Local_Transport Core_Json_Roundtrip Core_Time
begin

text \<open>
  The protocol between the local-process adapter and the control plane it manages
  (\<open>adapters/local_process/control_plane_protocol\<close>), and the control plane of the repository that serves it
  (\<open>test_control_plane_main\<close>): its arguments, its package, its answers, the documents it writes.
\<close>

subsection \<open>Protocol\<close>

definition make_request :: "string \<Rightarrow> u64 \<Rightarrow> u64 \<Rightarrow> string \<Rightarrow> json" where
  "make_request command request_id incarnation token = json_build
     [(''protocol'', JString ''1''), (''command'', JString command), (''request_id'', JUint request_id),
      (''incarnation'', JUint incarnation), (''token'', JString token)]"

text \<open>The connection is a local of the caller, so it ends with the call.\<close>

definition send_command ::
    "'w socket_calls \<Rightarrow> tcp_connection \<Rightarrow> json \<Rightarrow> 'w \<Rightarrow> json result \<times> tcp_connection \<times> 'w" where
  "send_command k c request w =
     (case send_message k c (json_dump request) w of
        (Inl e, w) \<Rightarrow> (Inl e, c, w)
      | (Inr _, w) \<Rightarrow>
          (case receive_message k c max_frame_bytes w of
             (Inl e, c, w) \<Rightarrow> (Inl e, c, w)
           | (Inr response, c, w) \<Rightarrow> (json_parse default_limits response, c, w)))"

definition decode_request :: "string \<Rightarrow> json result" where
  "decode_request payload = json_parse_object default_limits payload"

subsection \<open>The control plane\<close>

record control_options =
  cpo_state_directory :: string
  cpo_port :: u16
  cpo_token :: string
  cpo_target :: string

record control_package =
  cpk_version :: string
  cpk_build :: string
  cpk_component :: string
  cpk_healthy :: bool
  cpk_startup_delay :: int
  cpk_crash :: bool

text \<open>
  The port is read with \<open>std::atoi\<close>, a function of the standard library that is given here as an argument; its
  behaviour on numbers out of range is not defined.
\<close>

fun control_parse :: "(string \<Rightarrow> int) \<Rightarrow> string list \<Rightarrow> control_options \<Rightarrow> control_options result" where
  "control_parse atoi [] opts = Inr opts"
| "control_parse atoi [a] opts = fail EC_invalid_argument ''unrecognized control plane argument'' a"
| "control_parse atoi (a # v # rest) opts =
     (if a = ''--state'' then control_parse atoi rest (opts\<lparr>cpo_state_directory := v\<rparr>)
      else if a = ''--port'' then control_parse atoi rest (opts\<lparr>cpo_port := word_of_int (atoi v)\<rparr>)
      else if a = ''--token'' then control_parse atoi rest (opts\<lparr>cpo_token := v\<rparr>)
      else if a = ''--target'' then control_parse atoi rest (opts\<lparr>cpo_target := v\<rparr>)
      else fail EC_invalid_argument ''unrecognized control plane argument'' a)"

definition parse_control_options :: "(string \<Rightarrow> int) \<Rightarrow> string list \<Rightarrow> control_options result" where
  "parse_control_options atoi args =
     fum_try (control_parse atoi args \<lparr>cpo_state_directory = [], cpo_port = 0, cpo_token = [], cpo_target = []\<rparr>) (\<lambda>opts.
       if cpo_state_directory opts = [] then fail EC_invalid_argument ''--state is required'' [] else Inr opts)"

definition result_or :: "'a result \<Rightarrow> 'a \<Rightarrow> 'a" where
  "result_or r d = (case r of Inl _ \<Rightarrow> d | Inr x \<Rightarrow> x)"

definition member_or :: "(json \<Rightarrow> 'a result) \<Rightarrow> json option \<Rightarrow> string \<Rightarrow> 'a \<Rightarrow> 'a \<Rightarrow> 'a" where
  "member_or as v key missing unreadable =
     (case Option.bind v (\<lambda>v. json_find v key) of None \<Rightarrow> missing | Some x \<Rightarrow> result_or (as x) unreadable)"

definition read_package :: "json \<Rightarrow> control_package" where
  "read_package doc =
     (let behavior = json_find doc ''behavior''
      in \<lparr>cpk_version = result_or (json_require_string doc ''version'') ''0.0.0'',
          cpk_build = result_or (json_require_string doc ''build'') ''unknown'',
          cpk_component = result_or (json_require_string doc ''component'') ''unknown'',
          cpk_healthy = member_or json_as_bool behavior ''healthy'' True True,
          cpk_startup_delay = member_or json_as_int behavior ''startup_delay_ms'' 0 0,
          cpk_crash = member_or json_as_bool behavior ''crash_on_start'' False False\<rparr>)"

text \<open>The answer of the file system to the read is an argument, \<open>None\<close> when there is no such file.\<close>

definition load_package :: "string \<Rightarrow> (string \<Rightarrow> string result option) \<Rightarrow> control_package result" where
  "load_package directory read =
     (let path = fs_join directory ''package.json''
      in case read path of
           None \<Rightarrow> fail EC_not_found ''no package descriptor is installed'' path
         | Some r \<Rightarrow> fum_try r (\<lambda>text. fum_try (json_parse_object default_limits text) (\<lambda>doc. Inr (read_package doc))))"

definition fresh_incarnation :: "u32 \<Rightarrow> u32 \<Rightarrow> timestamp \<Rightarrow> u64 \<Rightarrow> u64" where
  "fresh_incarnation first second now pid =
     (let v = ((push_bit 32 (ucast first) XOR ucast second) XOR word_of_int now) XOR push_bit 17 pid
      in if v = 0 then 1 else v)"

definition runtime_document :: "u64 \<Rightarrow> u64 \<Rightarrow> control_package \<Rightarrow> string \<Rightarrow> u16 \<Rightarrow> timestamp \<Rightarrow> json" where
  "runtime_document pid incarnation p target port now = json_build
     [(''pid'', JUint pid), (''incarnation'', JUint incarnation), (''version'', JString (cpk_version p)),
      (''build'', JString (cpk_build p)), (''component'', JString (cpk_component p)), (''target'', JString target),
      (''port'', JUint (ucast port)), (''started_at'', JString (to_iso8601 now))]"

definition ready_line :: "u16 \<Rightarrow> u64 \<Rightarrow> string" where
  "ready_line port incarnation = ''READY '' @ dec_digits (unat port) @ '' '' @ u64_to_string incarnation"

definition error_response :: "string \<Rightarrow> json" where
  "error_response message = json_build [(''ok'', JBool False), (''error'', JString message)]"

definition shutdown_response :: json where
  "shutdown_response = json_build [(''ok'', JBool True), (''detail'', JString ''shutting down'')]"

definition status_response :: "string \<Rightarrow> u64 \<Rightarrow> control_package \<Rightarrow> u64 \<Rightarrow> json" where
  "status_response command incarnation p pid = json_build
     [(''ok'', JBool True), (''command'', JString command), (''incarnation'', JUint incarnation),
      (''version'', JString (cpk_version p)), (''build'', JString (cpk_build p)), (''healthy'', JBool (cpk_healthy p)),
      (''pid'', JString (u64_to_string pid)), (''protocol'', JString ''1'')]"

text \<open>What a request does: an answer on the connection, an answer after which the process ends, or a crash.\<close>

datatype control_action = CA_answer json | CA_shutdown json | CA_crash

definition serve_request :: "control_options \<Rightarrow> control_package \<Rightarrow> u64 \<Rightarrow> u64 \<Rightarrow> string \<Rightarrow> control_action" where
  "serve_request opts p incarnation pid payload =
     (case decode_request payload of
        Inl _ \<Rightarrow> CA_answer (error_response ''malformed request document'')
      | Inr request \<Rightarrow>
          (case json_require_string request ''command'' of
             Inl _ \<Rightarrow> CA_answer (error_response ''request has no command'')
           | Inr command \<Rightarrow>
               (let expected = result_or (json_require_uint request ''incarnation'') incarnation;
                    token = result_or (json_require_string request ''token'') []
                in if command = ''crash'' then CA_crash
                   else if command = ''shutdown'' then CA_shutdown shutdown_response
                   else if cpo_token opts \<noteq> [] \<and> token \<noteq> cpo_token opts then CA_answer (error_response ''token mismatch'')
                   else if expected \<noteq> incarnation
                   then CA_answer (error_response (''fenced: command belongs to incarnation '' @ u64_to_string expected @
                          '' but this process is incarnation '' @ u64_to_string incarnation))
                   else CA_answer (status_response command incarnation p pid))))"

text \<open>
  A connection: requests are served until a frame does not arrive.  A client that never stops asking keeps the loop
  busy for ever, the value \<open>None\<close>; otherwise the action that ended the process, if one did.
\<close>

partial_function (option) serve_connection ::
    "'w socket_calls \<Rightarrow> (string \<Rightarrow> control_action) \<Rightarrow> tcp_connection \<Rightarrow> 'w \<Rightarrow> (control_action option \<times> tcp_connection \<times> 'w) option" where
  "serve_connection k serve c w =
     (case receive_message k c max_frame_bytes w of
        (Inl _, c, w) \<Rightarrow> Some (None, c, w)
      | (Inr payload, c, w) \<Rightarrow>
          (case serve payload of
             CA_crash \<Rightarrow> Some (Some CA_crash, c, w)
           | CA_shutdown r \<Rightarrow> Some (Some (CA_shutdown r), c, snd (send_message k c (json_dump r) w))
           | CA_answer r \<Rightarrow> serve_connection k serve c (snd (send_message k c (json_dump r) w))))"

text \<open>The process: it accepts connections one after the other until it is told to end.\<close>

partial_function (option) serve_listener ::
    "'w socket_calls \<Rightarrow> (string \<Rightarrow> control_action) \<Rightarrow> tcp_listener \<Rightarrow> 'w \<Rightarrow> (control_action \<times> 'w) option" where
  "serve_listener k serve l w =
     (case accept_one k l w of
        (Inl _, w) \<Rightarrow> serve_listener k serve l w
      | (Inr c, w) \<Rightarrow>
          (case serve_connection k serve c w of
             None \<Rightarrow> None
           | Some (None, c, w) \<Rightarrow> serve_listener k serve l (snd (connection_close k c w))
           | Some (Some action, c, w) \<Rightarrow>
               Some (action, if action = CA_crash then w else snd (listener_close k l (snd (connection_close k c w))))))"

end
