(* ===== verification/Local_Supervisor.thy ===== *)
theory Local_Supervisor
  imports Core_Time Core_Result
begin

text \<open>
  The supervision of a child process (\<open>adapters/local_process/process_supervisor\<close>), as the code is built for
  Windows; elsewhere every operation answers \<open>unsupported\<close>.  The calls of the system are a record of functions over a
  world \<open>'w\<close>; handles are numbers.
\<close>

subsection \<open>State\<close>

text \<open>
  \<open>prc_peek\<close> answers how many bytes wait in the pipe, \<open>prc_read\<close> some of them, \<open>prc_signalled\<close> whether the process
  has ended, now or within the given milliseconds.
\<close>

record 'w process_calls =
  prc_pipe :: "'w \<Rightarrow> (nat \<times> nat) option \<times> 'w"
  prc_inherit :: "nat \<Rightarrow> 'w \<Rightarrow> bool \<times> 'w"
  prc_create :: "string \<Rightarrow> string option \<Rightarrow> nat \<Rightarrow> 'w \<Rightarrow> (u64 \<times> nat \<times> nat) option \<times> 'w"
  prc_last_error :: "'w \<Rightarrow> string"
  prc_close :: "nat \<Rightarrow> 'w \<Rightarrow> 'w"
  prc_peek :: "nat \<Rightarrow> 'w \<Rightarrow> nat option \<times> 'w"
  prc_read :: "nat \<Rightarrow> nat \<Rightarrow> 'w \<Rightarrow> string option \<times> 'w"
  prc_signalled :: "nat \<Rightarrow> int option \<Rightarrow> 'w \<Rightarrow> bool \<times> 'w"
  prc_exit_code :: "nat \<Rightarrow> 'w \<Rightarrow> u32 \<times> 'w"
  prc_terminate :: "nat \<Rightarrow> 'w \<Rightarrow> bool \<times> 'w"
  prc_clock :: "'w \<Rightarrow> timestamp \<times> 'w"
  prc_sleep :: "'w \<Rightarrow> 'w"

record start_request =
  srq_executable :: string
  srq_arguments :: "string list"
  srq_working_directory :: string
  srq_ready_prefix :: string
  srq_readiness_bound :: duration

record started_process =
  stp_pid :: u64
  stp_ready_line :: string
  stp_trailing :: string

record process_supervisor =
  psv_pid :: u64
  psv_process :: "nat option"
  psv_thread :: "nat option"
  psv_read :: "nat option"
  psv_exit_code :: int
  psv_exited :: bool
  psv_captured :: string

definition new_supervisor :: process_supervisor where
  "new_supervisor = \<lparr>psv_pid = 0, psv_process = None, psv_thread = None, psv_read = None, psv_exit_code = -1,
     psv_exited = False, psv_captured = []\<rparr>"

subsection \<open>Starting\<close>

definition quote_argument :: "string \<Rightarrow> string" where
  "quote_argument a =
     (if list_ex (\<lambda>c. c = CHR '' '' \<or> c = CHR 0x22 \<or> c = CHR 0x09) a
      then CHR 0x22 # concat (map (\<lambda>c. if c = CHR 0x22 then [CHR 0x5C, CHR 0x22] else [c]) a) @ [CHR 0x22]
      else a)"

definition command_line :: "start_request \<Rightarrow> string" where
  "command_line r =
     quote_argument (srq_executable r) @ concat (map (\<lambda>a. CHR '' '' # quote_argument a) (srq_arguments r))"

definition close_handles :: "'w process_calls \<Rightarrow> process_supervisor \<Rightarrow> 'w \<Rightarrow> process_supervisor \<times> 'w" where
  "close_handles k s w =
     (let close = (\<lambda>h w. case h of None \<Rightarrow> w | Some h \<Rightarrow> prc_close k h w)
      in (s\<lparr>psv_pid := 0, psv_process := None, psv_thread := None, psv_read := None\<rparr>,
          close (psv_process s) (close (psv_thread s) (close (psv_read s) w))))"

definition supervisor_start ::
    "'w process_calls \<Rightarrow> start_request \<Rightarrow> process_supervisor \<Rightarrow> 'w \<Rightarrow> status \<times> process_supervisor \<times> 'w" where
  "supervisor_start k r s w =
     (let (s, w) = close_handles k s w;
          s = s\<lparr>psv_exited := False, psv_exit_code := -1, psv_captured := []\<rparr>
      in case prc_pipe k w of
           (None, w) \<Rightarrow> (fail EC_io_error ''could not create the child output pipe'' [], s, w)
         | (Some (reading, writing), w) \<Rightarrow>
             (case prc_inherit k reading w of
                (False, w) \<Rightarrow>
                  (fail EC_io_error ''could not configure the child output pipe'' [], s,
                   prc_close k writing (prc_close k reading w))
              | (True, w) \<Rightarrow>
                  (case prc_create k (command_line r)
                      (if srq_working_directory r = [] then None else Some (srq_working_directory r)) writing w of
                     (None, w) \<Rightarrow>
                       (let w = prc_close k reading (prc_close k writing w)
                        in (fail EC_io_error ''could not start the target process''
                              (srq_executable r @ '' (error '' @ prc_last_error k w @ '')''), s, w))
                   | (Some (pid, process, thread), w) \<Rightarrow>
                       (ok_status, s\<lparr>psv_read := Some reading, psv_process := Some process, psv_thread := Some thread,
                          psv_pid := pid\<rparr>, prc_close k writing w))))"

subsection \<open>Readiness\<close>

definition line_end :: char where
  "line_end = CHR 0x0A"

definition strip_line :: "string \<Rightarrow> string" where
  "strip_line l = rev (dropWhile (\<lambda>c. c = CHR 0x0D \<or> c = CHR '' '') (rev l))"

datatype ready_scan = RS_ready string string | RS_pending string string

text \<open>
  The lines complete so far: the first that begins with the prefix ends the scan, with what follows it; the others are
  collected; what has no end of line yet stays in the buffer.
\<close>

function scan_lines :: "string \<Rightarrow> string \<Rightarrow> string \<Rightarrow> ready_scan" where
  "scan_lines ready_prefix buffer trailing =
     (if line_end \<in> set buffer
      then
        (let line = strip_line (takeWhile (\<lambda>c. c \<noteq> line_end) buffer);
             rest = tl (dropWhile (\<lambda>c. c \<noteq> line_end) buffer)
         in if take (length ready_prefix) line = ready_prefix then RS_ready line rest
            else scan_lines ready_prefix rest (if line = [] then trailing else trailing @ line @ [line_end]))
      else RS_pending buffer trailing)"
  by pat_completeness auto

termination
proof (relation "measure (\<lambda>(p, buffer, t). length buffer)", simp, clarsimp)
  fix buffer :: string
  assume "line_end \<in> set buffer"
  then have "dropWhile (\<lambda>c. c \<noteq> line_end) buffer \<noteq> []" by simp
  then have "0 < length (dropWhile (\<lambda>c. c \<noteq> line_end) buffer)" by simp
  moreover have "length (dropWhile (\<lambda>c. c \<noteq> line_end) buffer) \<le> length buffer" by (rule length_dropWhile_le)
  ultimately show "length (dropWhile (\<lambda>c. c \<noteq> line_end) buffer) - Suc 0 < length buffer" by linarith
qed

declare scan_lines.simps [simp del]

text \<open>
  A poll: the next piece of output, or the end of the child.  The bound is looked at after every poll, so the loop
  ends when the clock passes it; \<open>None\<close> is a loop under a clock that never does.
\<close>

datatype poll = P_ready started_process | P_stopped error | P_again string string

definition poll_output ::
    "'w process_calls \<Rightarrow> start_request \<Rightarrow> nat \<Rightarrow> nat \<Rightarrow> string \<Rightarrow> string \<Rightarrow> process_supervisor \<Rightarrow> 'w \<Rightarrow>
     poll \<times> process_supervisor \<times> 'w" where
  "poll_output k r reading process buffer trailing s w =
     (case prc_peek k reading w of
        (None, w) \<Rightarrow> (P_stopped (make_error EC_io_error ''could not poll the child output pipe'' []), s, w)
      | (Some available, w) \<Rightarrow>
          if available > 0
          then
            (case prc_read k reading (min available 512) w of
               (None, w) \<Rightarrow> (P_again buffer trailing, s, w)
             | (Some chunk, w) \<Rightarrow>
                 if chunk = [] then (P_again buffer trailing, s, w)
                 else
                   (let s = s\<lparr>psv_captured := psv_captured s @ chunk\<rparr>
                    in case scan_lines (srq_ready_prefix r) (buffer @ chunk) trailing of
                         RS_ready line rest \<Rightarrow>
                           (P_ready \<lparr>stp_pid = psv_pid s, stp_ready_line = line, stp_trailing = rest\<rparr>, s, w)
                       | RS_pending buffer trailing \<Rightarrow> (P_again buffer trailing, s, w)))
          else
            (case prc_signalled k process None w of
               (False, w) \<Rightarrow> (P_again buffer trailing, s, w)
             | (True, w) \<Rightarrow>
                 (let (code, w) = prc_exit_code k process w;
                      s = s\<lparr>psv_exit_code := sint code, psv_exited := True\<rparr>
                  in (P_stopped (make_error EC_io_error ''the target process exited before reporting readiness''
                        (''exit code '' @ int_to_string (sint code) @ ''; output: '' @ psv_captured s)), s, w))))"

partial_function (option) await_loop ::
    "'w process_calls \<Rightarrow> start_request \<Rightarrow> timestamp \<Rightarrow> nat \<Rightarrow> nat \<Rightarrow> string \<Rightarrow> string \<Rightarrow> process_supervisor \<Rightarrow> 'w \<Rightarrow>
     (started_process result \<times> process_supervisor \<times> 'w) option" where
  "await_loop k r started reading process buffer trailing s w =
     (case poll_output k r reading process buffer trailing s w of
        (P_ready p, s, w) \<Rightarrow> Some (Inr p, s, w)
      | (P_stopped e, s, w) \<Rightarrow> Some (Inl e, s, w)
      | (P_again buffer trailing, s, w) \<Rightarrow>
          (case prc_clock k w of
             (now, w) \<Rightarrow>
               if now - started > srq_readiness_bound r
               then Some (fail EC_timeout ''the target process did not report readiness in time'' (psv_captured s), s, w)
               else await_loop k r started reading process buffer trailing s (prc_sleep k w)))"

definition await_ready ::
    "'w process_calls \<Rightarrow> start_request \<Rightarrow> process_supervisor \<Rightarrow> 'w \<Rightarrow>
     (started_process result \<times> process_supervisor \<times> 'w) option" where
  "await_ready k r s w =
     (case (psv_process s, psv_read s) of
        (Some process, Some reading) \<Rightarrow>
          (let (now, w) = prc_clock k w in await_loop k r now reading process [] [] s w)
      | _ \<Rightarrow> Some (fail EC_precondition_failed ''no child process is running'' [], s, w))"

subsection \<open>Ending\<close>

definition note_exit :: "'w process_calls \<Rightarrow> nat \<Rightarrow> process_supervisor \<Rightarrow> 'w \<Rightarrow> u32 \<times> process_supervisor \<times> 'w" where
  "note_exit k process s w =
     (let (code, w) = prc_exit_code k process w in (code, s\<lparr>psv_exit_code := sint code, psv_exited := True\<rparr>, w))"

definition supervisor_running :: "'w process_calls \<Rightarrow> process_supervisor \<Rightarrow> 'w \<Rightarrow> bool \<times> process_supervisor \<times> 'w" where
  "supervisor_running k s w =
     (case psv_process s of
        None \<Rightarrow> (False, s, w)
      | Some process \<Rightarrow>
          if psv_exited s then (False, s, w)
          else case prc_signalled k process None w of
            (True, w) \<Rightarrow> (False, snd (note_exit k process s w))
          | (False, w) \<Rightarrow> (True, s, w))"

text \<open>A bound is given to the system in whole milliseconds, at least one, in the 32 bits of its argument.\<close>

definition wait_millis :: "duration \<Rightarrow> int" where
  "wait_millis d = max 1 (c_div d 1000000) mod 2 ^ 32"

definition wait_exit :: "'w process_calls \<Rightarrow> duration \<Rightarrow> process_supervisor \<Rightarrow> 'w \<Rightarrow> u64 result \<times> process_supervisor \<times> 'w" where
  "wait_exit k bound s w =
     (case psv_process s of
        None \<Rightarrow> (fail EC_precondition_failed ''no child process is running'' [], s, w)
      | Some process \<Rightarrow>
          (case prc_signalled k process (Some (wait_millis bound)) w of
             (False, w) \<Rightarrow> (fail EC_timeout ''the target process did not exit in time'' [], s, w)
           | (True, w) \<Rightarrow> (let (code, s, w) = note_exit k process s w in (Inr (ucast code), s, w))))"

definition supervisor_kill :: "'w process_calls \<Rightarrow> process_supervisor \<Rightarrow> 'w \<Rightarrow> status \<times> process_supervisor \<times> 'w" where
  "supervisor_kill k s w =
     (case psv_process s of
        None \<Rightarrow> (ok_status, s, w)
      | Some process \<Rightarrow>
          (case supervisor_running k s w of
             (False, s, w) \<Rightarrow> (ok_status, s, w)
           | (True, s, w) \<Rightarrow>
               (case prc_terminate k process w of
                  (False, w) \<Rightarrow> (fail EC_io_error ''could not terminate the target process'' [], s, w)
                | (True, w) \<Rightarrow> (ok_status, snd (note_exit k process s (snd (prc_signalled k process (Some (2 ^ 32 - 1)) w)))))))"

definition supervisor_stop ::
    "'w process_calls \<Rightarrow> duration \<Rightarrow> process_supervisor \<Rightarrow> 'w \<Rightarrow> status \<times> process_supervisor \<times> 'w" where
  "supervisor_stop k grace s w =
     (case psv_process s of
        None \<Rightarrow> (ok_status, s, w)
      | Some process \<Rightarrow>
          (case supervisor_running k s w of
             (False, s, w) \<Rightarrow> (ok_status, s, w)
           | (True, s, w) \<Rightarrow>
               (case prc_signalled k process (Some (wait_millis grace)) w of
                  (False, w) \<Rightarrow> supervisor_kill k s w
                | (True, w) \<Rightarrow> (ok_status, snd (note_exit k process s w)))))"

definition supervisor_destroy :: "'w process_calls \<Rightarrow> process_supervisor \<Rightarrow> 'w \<Rightarrow> 'w" where
  "supervisor_destroy k s w = (let (_, s, w) = supervisor_kill k s w in snd (close_handles k s w))"

subsection \<open>Lines\<close>

lemma scan_split:
  "line_end \<in> set buffer \<Longrightarrow>
     buffer = takeWhile (\<lambda>c. c \<noteq> line_end) buffer @ line_end # tl (dropWhile (\<lambda>c. c \<noteq> line_end) buffer)"
proof -
  assume "line_end \<in> set buffer"
  then have "dropWhile (\<lambda>c. c \<noteq> line_end) buffer \<noteq> []" by simp
  moreover from hd_dropWhile [OF this] have "hd (dropWhile (\<lambda>c. c \<noteq> line_end) buffer) = line_end" by simp
  ultimately have "dropWhile (\<lambda>c. c \<noteq> line_end) buffer = line_end # tl (dropWhile (\<lambda>c. c \<noteq> line_end) buffer)"
    by (cases "dropWhile (\<lambda>c. c \<noteq> line_end) buffer") auto
  then show ?thesis by (metis takeWhile_dropWhile_id)
qed

text \<open>A scan of more output goes on where the scan of the first part stopped.\<close>

lemma scan_append:
  "scan_lines ready_prefix (buffer @ further) trailing =
     (case scan_lines ready_prefix buffer trailing of
        RS_ready line rest \<Rightarrow> RS_ready line (rest @ further)
      | RS_pending left trailing \<Rightarrow> scan_lines ready_prefix (left @ further) trailing)"
proof (induction ready_prefix buffer trailing rule: scan_lines.induct)
  case (1 ready_prefix buffer trailing)
  show ?case
  proof (cases "line_end \<in> set buffer")
    case False
    then show ?thesis by (simp add: scan_lines.simps [of ready_prefix buffer])
  next
    case True
    let ?rest = "tl (dropWhile (\<lambda>c. c \<noteq> line_end) buffer)"
    have ne: "dropWhile (\<lambda>c. c \<noteq> line_end) buffer \<noteq> []" using True by simp
    have t: "takeWhile (\<lambda>c. c \<noteq> line_end) (buffer @ further) = takeWhile (\<lambda>c. c \<noteq> line_end) buffer"
      using True by (auto simp: takeWhile_append1)
    have d: "tl (dropWhile (\<lambda>c. c \<noteq> line_end) (buffer @ further)) = ?rest @ further"
      using True ne by (auto simp: dropWhile_append1)
    show ?thesis
      using True 1 [OF True refl refl]
      by (simp add: scan_lines.simps [of ready_prefix buffer] scan_lines.simps [of ready_prefix "buffer @ further"] t d Let_def)
  qed
qed

lemma scan_ready_prefix:
  "scan_lines ready_prefix buffer trailing = RS_ready line rest \<Longrightarrow> take (length ready_prefix) line = ready_prefix"
proof (induction ready_prefix buffer trailing rule: scan_lines.induct)
  case (1 ready_prefix buffer trailing)
  from "1.prems" show ?case
    by (subst (asm) scan_lines.simps) (auto simp: Let_def split: if_splits dest: "1.IH" [OF _ refl refl])
qed

text \<open>The output as it comes, piece by piece.\<close>

primrec scan_pieces :: "string \<Rightarrow> string list \<Rightarrow> string \<Rightarrow> string \<Rightarrow> ready_scan" where
  "scan_pieces ready_prefix [] buffer trailing = RS_pending buffer trailing"
| "scan_pieces ready_prefix (piece # pieces) buffer trailing =
     (case scan_lines ready_prefix (buffer @ piece) trailing of
        RS_ready line rest \<Rightarrow> RS_ready line (rest @ concat pieces)
      | RS_pending left trailing \<Rightarrow> scan_pieces ready_prefix pieces left trailing)"

lemma scan_pieces_whole:
  "scan_lines ready_prefix buffer trailing = RS_pending buffer trailing \<Longrightarrow>
   scan_pieces ready_prefix pieces buffer trailing = scan_lines ready_prefix (buffer @ concat pieces) trailing"
proof (induction pieces arbitrary: buffer trailing)
  case (Cons piece pieces)
  show ?case
  proof (cases "scan_lines ready_prefix (buffer @ piece) trailing")
    case (RS_ready line rest)
    with scan_append [of ready_prefix "buffer @ piece" "concat pieces" trailing] show ?thesis by simp
  next
    case (RS_pending left t)
    then have "scan_lines ready_prefix left t = RS_pending left t"
      using scan_append [of ready_prefix "buffer @ piece" "[]" trailing] by simp
    from Cons.IH [OF this] RS_pending scan_append [of ready_prefix "buffer @ piece" "concat pieces" trailing]
    show ?thesis by simp
  qed
qed simp

subsection \<open>The wait for readiness\<close>

text \<open>
  What the wait relies on of the system clock: \<open>time w\<close> is what it reads, no call takes it back, and sleeping
  moves it on.
\<close>

definition clock_advances :: "'w process_calls \<Rightarrow> ('w \<Rightarrow> timestamp) \<Rightarrow> bool" where
  "clock_advances k time \<longleftrightarrow>
     (\<forall>w. fst (prc_clock k w) = time w \<and> time w \<le> time (snd (prc_clock k w)) \<and> time w < time (prc_sleep k w)) \<and>
     (\<forall>h w. time w \<le> time (snd (prc_peek k h w))) \<and> (\<forall>h n w. time w \<le> time (snd (prc_read k h n w))) \<and>
     (\<forall>h m w. time w \<le> time (snd (prc_signalled k h m w))) \<and> (\<forall>h w. time w \<le> time (snd (prc_exit_code k h w)))"

lemma poll_time:
  assumes "clock_advances k time" "poll_output k r reading process buffer trailing s w = (a, s', w')"
  shows "time w \<le> time w'"
proof -
  have peek: "prc_peek k h v = (x, v') \<Longrightarrow> time v \<le> time v'" for h v x v'
    using assms(1) by (metis clock_advances_def snd_conv)
  have rd: "prc_read k h n v = (y, v') \<Longrightarrow> time v \<le> time v'" for h n v y v'
    using assms(1) by (metis clock_advances_def snd_conv)
  have sig: "prc_signalled k h m v = (z, v') \<Longrightarrow> time v \<le> time v'" for h m v z v'
    using assms(1) by (metis clock_advances_def snd_conv)
  have code: "prc_exit_code k h v = (u, v') \<Longrightarrow> time v \<le> time v'" for h v u v'
    using assms(1) by (metis clock_advances_def snd_conv)
  from assms(2) show ?thesis
    unfolding poll_output_def Let_def
    by (auto split: prod.splits option.splits if_splits ready_scan.splits bool.splits dest!: peek rd sig code)
qed

lemma poll_ready:
  "poll_output k r reading process buffer trailing s w = (P_ready p, s', w') \<Longrightarrow>
     take (length (srq_ready_prefix r)) (stp_ready_line p) = srq_ready_prefix r \<and> stp_pid p = psv_pid s"
  unfolding poll_output_def Let_def
  by (auto split: prod.splits option.splits if_splits ready_scan.splits bool.splits dest: scan_ready_prefix)

lemma poll_pid:
  "poll_output k r reading process buffer trailing s w = (a, s', w') \<Longrightarrow> psv_pid s' = psv_pid s"
  unfolding poll_output_def Let_def
  by (auto split: prod.splits option.splits if_splits ready_scan.splits bool.splits)

lemma await_loop_returns:
  assumes "clock_advances k time"
  shows "\<exists>x s' w'. await_loop k r started reading process buffer trailing s w = Some (x, s', w') \<and>
    (\<forall>p. x = Inr p \<longrightarrow> take (length (srq_ready_prefix r)) (stp_ready_line p) = srq_ready_prefix r \<and> stp_pid p = psv_pid s)"
proof (induction "nat (started + srq_readiness_bound r + 1 - time w)" arbitrary: buffer trailing s w rule: less_induct)
  case less
  obtain a s1 w1 where p: "poll_output k r reading process buffer trailing s w = (a, s1, w1)" by (rule prod_cases3)
  note time1 = poll_time [OF assms p]
  show ?case
  proof (cases a)
    case (P_ready x)
    with poll_ready p show ?thesis by (subst await_loop.simps) fastforce
  next
    case (P_stopped e)
    with p show ?thesis by (subst await_loop.simps) simp
  next
    case (P_again b t)
    obtain now w2 where c: "prc_clock k w1 = (now, w2)" by force
    from assms have clock: "now = time w1" "time w1 \<le> time w2" "time w2 < time (prc_sleep k w2)"
      using c by (simp_all add: clock_advances_def) (metis fst_conv snd_conv)+
    show ?thesis
    proof (cases "now - started > srq_readiness_bound r")
      case True
      with P_again p c show ?thesis by (subst await_loop.simps) (simp add: fail_def)
    next
      case False
      then have "nat (started + srq_readiness_bound r + 1 - time (prc_sleep k w2)) < nat (started + srq_readiness_bound r + 1 - time w)"
        using clock time1 by auto
      from less.hyps [OF this, of b t s1] poll_pid [OF p] show ?thesis
        using False P_again p c by (subst await_loop.simps) simp
    qed
  qed
qed

text \<open>
  The wait for readiness ends.  Under a clock that moves on, whatever the child writes or does, the wait
  returns: with a line that begins with the agreed prefix, with the end of the child, or with the bound exceeded; and
  the line it finds does not depend on how the output was cut into pieces.
\<close>

theorem await_ready_returns:
  assumes "clock_advances k time"
  shows "(\<exists>x s' w'. await_ready k r s w = Some (x, s', w') \<and>
      (\<forall>p. x = Inr p \<longrightarrow> take (length (srq_ready_prefix r)) (stp_ready_line p) = srq_ready_prefix r \<and> stp_pid p = psv_pid s)) \<and>
    scan_pieces (srq_ready_prefix r) pieces [] [] = scan_lines (srq_ready_prefix r) (concat pieces) []"
proof
  show "scan_pieces (srq_ready_prefix r) pieces [] [] = scan_lines (srq_ready_prefix r) (concat pieces) []"
    by (subst scan_pieces_whole) (simp_all add: scan_lines.simps)
  show "\<exists>x s' w'. await_ready k r s w = Some (x, s', w') \<and>
      (\<forall>p. x = Inr p \<longrightarrow> take (length (srq_ready_prefix r)) (stp_ready_line p) = srq_ready_prefix r \<and> stp_pid p = psv_pid s)"
  proof (cases "psv_process s = None \<or> psv_read s = None")
    case True
    then show ?thesis by (auto simp: await_ready_def fail_def split: option.split)
  next
    case False
    then obtain process reading where h: "psv_process s = Some process" "psv_read s = Some reading" by auto
    obtain now w1 where "prc_clock k w = (now, w1)" by force
    with h await_loop_returns [OF assms, of r now reading process "[]" "[]" s w1] show ?thesis by (simp add: await_ready_def)
  qed
qed

subsection \<open>Ended processes\<close>

lemma exited_not_running: "psv_exited s \<or> psv_process s = None \<Longrightarrow> supervisor_running k s w = (False, s, w)"
  by (auto simp: supervisor_running_def split: option.split)

lemma running_keeps: "supervisor_running k s w = (b, s', w') \<Longrightarrow>
    psv_pid s' = psv_pid s \<and> psv_process s' = psv_process s \<and> (\<not> b \<longrightarrow> psv_exited s' \<or> psv_process s' = None)"
  by (auto simp: supervisor_running_def note_exit_def split: option.splits if_splits prod.splits bool.splits)

lemma kill_ends:
  assumes "supervisor_kill k s w = (ok_status, s', w')"
  shows "psv_exited s' \<or> psv_process s' = None"
proof (cases "psv_process s")
  case None
  with assms show ?thesis by (simp add: supervisor_kill_def)
next
  case (Some process)
  obtain b s1 w1 where r: "supervisor_running k s w = (b, s1, w1)" by (rule prod_cases3)
  show ?thesis
  proof (cases b)
    case True
    with assms Some r show ?thesis
      by (auto simp: supervisor_kill_def note_exit_def fail_def split: prod.splits bool.splits)
  next
    case False
    with assms Some r have "s' = s1" by (simp add: supervisor_kill_def)
    with running_keeps [OF r] False show ?thesis by metis
  qed
qed

lemma stop_ends_process:
  assumes "supervisor_stop k grace s w = (ok_status, s', w')"
  shows "psv_exited s' \<or> psv_process s' = None"
proof (cases "psv_process s")
  case None
  with assms show ?thesis by (simp add: supervisor_stop_def)
next
  case (Some process)
  obtain b s1 w1 where r: "supervisor_running k s w = (b, s1, w1)" by (rule prod_cases3)
  show ?thesis
  proof (cases b)
    case True
    obtain z w2 where z: "prc_signalled k process (Some (wait_millis grace)) w1 = (z, w2)" by force
    show ?thesis
    proof (cases z)
      case True
      with assms Some r \<open>b\<close> z show ?thesis by (auto simp: supervisor_stop_def note_exit_def split: prod.splits)
    next
      case False
      with assms Some r \<open>b\<close> z have "supervisor_kill k s1 w2 = (ok_status, s', w')" by (simp add: supervisor_stop_def)
      then show ?thesis by (rule kill_ends)
    qed
  next
    case False
    with assms Some r have "s' = s1" by (simp add: supervisor_stop_def)
    with running_keeps [OF r] False show ?thesis by metis
  qed
qed

text \<open>A stop or a kill that reports success has left no process: nothing runs afterwards, whatever the world does.\<close>

theorem stopped_process_stays_down:
  assumes "supervisor_stop k grace s w = (ok_status, s', w') \<or> supervisor_kill k s w = (ok_status, s', w')"
  shows "fst (supervisor_running k s' v) = False"
  using assms stop_ends_process kill_ends exited_not_running by (metis fst_conv)


subsection \<open>Witness\<close>

text \<open>A child that writes two pieces, the second with the end of its line; the world is the time and what is left to read.\<close>

definition sample_processes :: "(int \<times> string list) process_calls" where
  "sample_processes =
     \<lparr>prc_pipe = (\<lambda>w. (Some (1, 2), w)), prc_inherit = (\<lambda>h w. (True, w)), prc_create = (\<lambda>c d h w. (Some (77, 3, 4), w)),
      prc_last_error = (\<lambda>w. ''0''), prc_close = (\<lambda>h w. w), prc_peek = (\<lambda>h w. (Some (length (concat (snd w))), w)),
      prc_read = (\<lambda>h n w. (Some (hd (snd w)), (fst w, tl (snd w)))), prc_signalled = (\<lambda>h m w. (False, w)),
      prc_exit_code = (\<lambda>h w. (0, w)), prc_terminate = (\<lambda>h w. (True, w)), prc_clock = (\<lambda>w. (fst w, w)),
      prc_sleep = (\<lambda>w. (fst w + 1, snd w))\<rparr>"

definition sample_start :: start_request where
  "sample_start = \<lparr>srq_executable = ''cp'', srq_arguments = [], srq_working_directory = [], srq_ready_prefix = ''READY'',
     srq_readiness_bound = 20\<rparr>"

theorem await_ready_returns_witness:
  "clock_advances sample_processes fst \<and>
   (\<exists>x s' w'. await_ready sample_processes sample_start (new_supervisor\<lparr>psv_process := Some 3, psv_read := Some 1, psv_pid := 77\<rparr>)
        (0, [''REA'', ''DY 4000 9'' @ [line_end]]) = Some (x, s', w') \<and> (\<forall>p. x = Inr p \<longrightarrow> stp_pid p = 77)) \<and>
   scan_pieces ''READY'' [''REA'', ''DY 4000 9'' @ [line_end]] [] [] = RS_ready ''READY 4000 9'' []"
proof -
  have clock: "clock_advances sample_processes fst" by (simp add: clock_advances_def sample_processes_def)
  have "scan_lines ''READY'' (''READY 4000 9'' @ [line_end]) [] = RS_ready ''READY 4000 9'' []"
    by (simp add: scan_lines.simps line_end_def strip_line_def)
  with clock await_ready_returns [OF clock, of sample_start "new_supervisor\<lparr>psv_process := Some 3, psv_read := Some 1, psv_pid := 77\<rparr>"
      "(0, [''REA'', ''DY 4000 9'' @ [line_end]])" "[''REA'', ''DY 4000 9'' @ [line_end]]"]
  show ?thesis by (auto simp: sample_start_def)
qed

end
