(* ===== verification/Local_Process.thy ===== *)
theory Local_Process
  imports Local_Server Local_Supervisor Core_Numbers Ports Store_State
begin

text \<open>
  The local-process adapter (\<open>adapters/local_process/local_process_adapter\<close>): it stages a package into a slot,
  stops the process, switches the pointer of the installed build, starts the process again and asks it what it runs.
  Every operation is one region under the lock of its target, a function on the state of the target and a world
  \<open>'w\<close>; its value is \<open>None\<close> when the wait for readiness never returns.  The diagnostics of the logger have no
  counterpart.
\<close>

subsection \<open>State\<close>

record local_options =
  lop_executable :: string
  lop_token :: string
  lop_readiness_bound :: duration
  lop_shutdown_grace :: duration
  lop_keep_running :: bool

definition default_local_options :: local_options where
  "default_local_options = \<lparr>lop_executable = [], lop_token = ''local-process-token'', lop_readiness_bound = from_seconds 20,
     lop_shutdown_grace = from_seconds 5, lop_keep_running = True\<rparr>"

record local_target =
  lpt_id :: target_id
  lpt_component :: component_id
  lpt_display_name :: string
  lpt_version :: version
  lpt_build :: build_id
  lpt_platform :: string
  lpt_capabilities :: "string list"
  lpt_authority :: authority_id
  lpt_root :: string
  lpt_healthy :: bool
  lpt_generation_capable :: bool
  lpt_redundancy_group :: string

record local_behavior =
  lpb_healthy :: bool
  lpb_startup_delay :: int
  lpb_crash :: bool

record local_state =
  lps_target :: local_target
  lps_options :: local_options
  lps_behavior :: local_behavior
  lps_supervisor :: process_supervisor
  lps_port :: u16
  lps_incarnation :: u64
  lps_restarts :: nat
  lps_sequence :: u64
  lps_drop_activate :: bool
  lps_drop_prepare :: bool
  lps_verify_stale :: bool
  lps_wrong_incarnation :: bool
  lps_current_build :: string
  lps_previous_build :: string
  lps_staged_ready :: bool
  lps_staged_build :: build_id
  lps_staged_version :: version

record local_adapter =
  lad_id :: adapter_id
  lad_options :: local_options
  lad_claims :: adapter_claims
  lad_targets :: "local_state table"

definition new_local_adapter :: "adapter_id \<Rightarrow> local_options \<Rightarrow> local_adapter" where
  "new_local_adapter i opts =
     \<lparr>lad_id = i, lad_options = opts,
      lad_claims = \<lparr>acl_strategies = [SK_in_place, SK_restart_based], acl_supports_prepare = True,
        acl_supports_rollback = True, acl_supports_health_probe = True, acl_supports_version_observation = True,
        acl_supports_generation_handoff = False, acl_requires_service_removal = False, acl_max_parallel = 1,
        acl_declared_limits =
          [''one control-plane process per target: activations are serialised on the target'',
           ''redundant-pair rolling and generation handoff are not claimed by this adapter'']\<rparr>,
      lad_targets = []\<rparr>"

definition new_local_state :: "local_options \<Rightarrow> local_target \<Rightarrow> local_state" where
  "new_local_state opts t =
     \<lparr>lps_target = t, lps_options = opts, lps_behavior = \<lparr>lpb_healthy = lpt_healthy t, lpb_startup_delay = 0, lpb_crash = False\<rparr>,
      lps_supervisor = new_supervisor, lps_port = 0, lps_incarnation = 0, lps_restarts = 0, lps_sequence = 0,
      lps_drop_activate = False, lps_drop_prepare = False, lps_verify_stale = False, lps_wrong_incarnation = False,
      lps_current_build = [], lps_previous_build = [], lps_staged_ready = False, lps_staged_build = [],
      lps_staged_version = empty_version\<rparr>"

definition local_add_target :: "local_target \<Rightarrow> local_adapter \<Rightarrow> local_adapter" where
  "local_add_target t a = a\<lparr>lad_targets := table_put (lad_targets a) (lpt_id t) (new_local_state (lad_options a) t)\<rparr>"

definition local_set_claims :: "adapter_claims \<Rightarrow> local_adapter \<Rightarrow> local_adapter" where
  "local_set_claims c a = a\<lparr>lad_claims := c\<rparr>"

definition change_local :: "target_id \<Rightarrow> (local_state \<Rightarrow> local_state) \<Rightarrow> local_adapter \<Rightarrow> local_adapter" where
  "change_local i f a =
     (case table_get (lad_targets a) i of
        None \<Rightarrow> a
      | Some st \<Rightarrow> a\<lparr>lad_targets := table_put (lad_targets a) i (f st)\<rparr>)"

definition local_set_behavior :: "target_id \<Rightarrow> local_behavior \<Rightarrow> local_adapter \<Rightarrow> local_adapter" where
  "local_set_behavior i b = change_local i (\<lambda>st. st\<lparr>lps_behavior := b\<rparr>)"

definition drop_next_activate_acknowledgement :: "target_id \<Rightarrow> local_adapter \<Rightarrow> local_adapter" where
  "drop_next_activate_acknowledgement i = change_local i (\<lambda>st. st\<lparr>lps_drop_activate := True\<rparr>)"

definition drop_next_prepare_acknowledgement :: "target_id \<Rightarrow> local_adapter \<Rightarrow> local_adapter" where
  "drop_next_prepare_acknowledgement i = change_local i (\<lambda>st. st\<lparr>lps_drop_prepare := True\<rparr>)"

definition local_set_verify_stale :: "target_id \<Rightarrow> bool \<Rightarrow> local_adapter \<Rightarrow> local_adapter" where
  "local_set_verify_stale i b = change_local i (\<lambda>st. st\<lparr>lps_verify_stale := b\<rparr>)"

definition local_set_wrong_incarnation :: "target_id \<Rightarrow> bool \<Rightarrow> local_adapter \<Rightarrow> local_adapter" where
  "local_set_wrong_incarnation i b = change_local i (\<lambda>st. st\<lparr>lps_wrong_incarnation := b\<rparr>)"

definition slots_directory :: "local_target \<Rightarrow> string \<Rightarrow> string" where
  "slots_directory t build = fs_join (fs_join (lpt_root t) ''slots'') build"

definition slot_path :: "target_id \<Rightarrow> build_id \<Rightarrow> local_adapter \<Rightarrow> string" where
  "slot_path i build a =
     (case table_get (lad_targets a) i of None \<Rightarrow> [] | Some st \<Rightarrow> slots_directory (lps_target st) build)"

definition local_restarts :: "target_id \<Rightarrow> local_adapter \<Rightarrow> nat" where
  "local_restarts i a = (case table_get (lad_targets a) i of None \<Rightarrow> 0 | Some st \<Rightarrow> lps_restarts st)"

definition pointer_file :: "local_target \<Rightarrow> string" where
  "pointer_file t = fs_join (lpt_root t) ''current.json''"

definition previous_file :: "local_target \<Rightarrow> string" where
  "previous_file t = fs_join (lpt_root t) ''previous.json''"

definition installed_executable :: "local_target \<Rightarrow> string \<Rightarrow> string" where
  "installed_executable t build = fs_join (slots_directory t build) ''control-plane.exe''"

definition behavior_json :: "local_behavior \<Rightarrow> json" where
  "behavior_json b = json_build
     [(''healthy'', JBool (lpb_healthy b)), (''startup_delay_ms'', JInt (lpb_startup_delay b)),
      (''crash_on_start'', JBool (lpb_crash b))]"

subsection \<open>The host and the operations on it\<close>

record 'w local_host =
  lht_sockets :: "'w socket_calls"
  lht_processes :: "'w process_calls"
  lht_exists :: "string \<Rightarrow> 'w \<Rightarrow> bool \<times> 'w"
  lht_read :: "string \<Rightarrow> u64 \<Rightarrow> 'w \<Rightarrow> string result \<times> 'w"
  lht_ensure_directory :: "string \<Rightarrow> 'w \<Rightarrow> status \<times> 'w"
  lht_copy :: "string \<Rightarrow> string \<Rightarrow> 'w \<Rightarrow> status \<times> 'w"
  lht_write_atomic :: "string \<Rightarrow> string \<Rightarrow> 'w \<Rightarrow> status \<times> 'w"
  lht_artifact_file :: "string \<Rightarrow> 'w \<Rightarrow> (u64 result \<times> string option) \<times> 'w"

type_synonym ('w, 'a) local_op = "local_state \<Rightarrow> 'w \<Rightarrow> ('a \<times> local_state \<times> 'w) option"

definition lp_return :: "'a \<Rightarrow> ('w, 'a) local_op" where
  "lp_return x st w = Some (x, st, w)"

definition lp_then :: "('w, 'a) local_op \<Rightarrow> ('a \<Rightarrow> ('w, 'b) local_op) \<Rightarrow> ('w, 'b) local_op" where
  "lp_then m f st w = (case m st w of None \<Rightarrow> None | Some (x, st, w) \<Rightarrow> f x st w)"

definition lp_try :: "('w, 'a result) local_op \<Rightarrow> ('a \<Rightarrow> ('w, 'b result) local_op) \<Rightarrow> ('w, 'b result) local_op" where
  "lp_try m f = lp_then m (\<lambda>r. case r of Inl e \<Rightarrow> lp_return (Inl e) | Inr x \<Rightarrow> f x)"

definition lp_fail :: "error_code \<Rightarrow> string \<Rightarrow> string \<Rightarrow> ('w, 'a result) local_op" where
  "lp_fail code message detail = lp_return (fail code message detail)"

definition lp_state :: "(local_state \<Rightarrow> ('w, 'a) local_op) \<Rightarrow> ('w, 'a) local_op" where
  "lp_state f st w = f st st w"

definition lp_change :: "(local_state \<Rightarrow> local_state) \<Rightarrow> ('w, 'a) local_op \<Rightarrow> ('w, 'a) local_op" where
  "lp_change f m st w = m (f st) w"

definition lp_world :: "('w \<Rightarrow> 'a \<times> 'w) \<Rightarrow> ('w, 'a) local_op" where
  "lp_world f st w = (let (x, w) = f w in Some (x, st, w))"

definition lp_supervised :: "(process_supervisor \<Rightarrow> 'w \<Rightarrow> 'a \<times> process_supervisor \<times> 'w) \<Rightarrow> ('w, 'a) local_op" where
  "lp_supervised f st w = (let (x, s, w) = f (lps_supervisor st) w in Some (x, st\<lparr>lps_supervisor := s\<rparr>, w))"

definition lp_waiting ::
    "(process_supervisor \<Rightarrow> 'w \<Rightarrow> ('a \<times> process_supervisor \<times> 'w) option) \<Rightarrow> ('w, 'a) local_op" where
  "lp_waiting f st w =
     (case f (lps_supervisor st) w of None \<Rightarrow> None | Some (x, s, w) \<Rightarrow> Some (x, st\<lparr>lps_supervisor := s\<rparr>, w))"

definition lp_running :: "'w local_host \<Rightarrow> ('w, bool) local_op" where
  "lp_running host = lp_supervised (supervisor_running (lht_processes host))"

subsection \<open>Commands to the process\<close>

definition ensure_link :: "'w local_host \<Rightarrow> ('w, status) local_op" where
  "ensure_link host = lp_then (lp_running host) (\<lambda>up. lp_state (\<lambda>st.
     if \<not> up \<or> lps_port st = 0 then lp_fail EC_not_found ''the target process is not running'' [] else lp_return ok_status))"

definition judge_response :: "string \<Rightarrow> json \<Rightarrow> json result" where
  "judge_response command response =
     (case json_find response ''ok'' of
        Some (JBool ok) \<Rightarrow>
          if ok then Inr response
          else fail EC_precondition_failed (''the control plane rejected the command: '' @ command)
            (case json_find response ''error'' of None \<Rightarrow> [] | Some e \<Rightarrow> result_or (json_as_string e) [])
      | _ \<Rightarrow> fail EC_corrupt ''the control plane returned a malformed response'' [])"

text \<open>A connection for every command, closed when the command returns.\<close>

definition exchange :: "'w socket_calls \<Rightarrow> u16 \<Rightarrow> json \<Rightarrow> 'w \<Rightarrow> json result \<times> 'w" where
  "exchange k port request w =
     (case connect_loopback k port w of
        (Inl e, w) \<Rightarrow> (Inl e, w)
      | (Inr c, w) \<Rightarrow> (let (r, c, w) = send_command k c request w in (r, snd (connection_close k c w))))"

definition local_command :: "'w local_host \<Rightarrow> string \<Rightarrow> ('w, json result) local_op" where
  "local_command host command =
     lp_try (ensure_link host) (\<lambda>_. lp_state (\<lambda>st.
       lp_change (\<lambda>st. case counter_try_next (lps_sequence st) of Inl _ \<Rightarrow> st | Inr n \<Rightarrow> st\<lparr>lps_sequence := n\<rparr>)
         (lp_try (lp_world (exchange (lht_sockets host) (lps_port st)
              (make_request command (lps_sequence st) (lps_incarnation st) (lop_token (lps_options st)))))
            (\<lambda>response. lp_return (judge_response command response)))))"

subsection \<open>Starting and stopping the process\<close>

definition parse_ready_line :: "string \<Rightarrow> (u16 \<times> u64) result" where
  "parse_ready_line line =
     (case str_find line (CHR '' '') 0 of
        None \<Rightarrow> fail EC_corrupt ''the target readiness line is malformed'' line
      | Some first \<Rightarrow>
          (case str_find line (CHR '' '') (first + 1) of
             None \<Rightarrow> fail EC_corrupt ''the target readiness line has no port'' line
           | Some second \<Rightarrow>
               (let port_text = substr line (first + 1) (second - first - 1)
                in case (stoull port_text, stoull (drop (second + 1) line)) of
                     (Some port, Some incarnation) \<Rightarrow>
                       if port = 0 \<or> port > 65535
                       then fail EC_corrupt ''the target reported an out-of-range port'' port_text
                       else Inr (ucast port, incarnation)
                   | _ \<Rightarrow> fail EC_corrupt ''the target readiness line is not numeric'' line)))"

definition start_process :: "'w local_host \<Rightarrow> string \<Rightarrow> ('w, status) local_op" where
  "start_process host build = lp_state (\<lambda>st.
     let t = lps_target st;
         executable = installed_executable t build;
         state_directory = fs_join (lpt_root t) ''state'';
         request = \<lparr>srq_executable = executable,
           srq_arguments = [''--state'', state_directory, ''--port'', ''0'', ''--token'', lop_token (lps_options st),
             ''--target'', lpt_id t],
           srq_working_directory = slots_directory t build, srq_ready_prefix = ''READY'',
           srq_readiness_bound = lop_readiness_bound (lps_options st)\<rparr>
     in lp_then (lp_world (lht_exists host executable)) (\<lambda>there.
        if \<not> there then lp_fail EC_not_found ''the staged slot has no executable'' executable
        else
          lp_try (lp_world (lht_ensure_directory host state_directory)) (\<lambda>_.
          lp_try (lp_supervised (supervisor_start (lht_processes host) request)) (\<lambda>_.
          lp_try (lp_waiting (await_ready (lht_processes host) request)) (\<lambda>ready.
            case parse_ready_line (stp_ready_line ready) of
              Inl e \<Rightarrow> lp_return (Inl e)
            | Inr (port, incarnation) \<Rightarrow>
                lp_change (\<lambda>st. st\<lparr>lps_port := port, lps_incarnation := incarnation, lps_current_build := build,
                    lps_restarts := lps_restarts st + 1\<rparr>)
                  (lp_return ok_status))))))"

definition stop_process :: "'w local_host \<Rightarrow> ('w, status) local_op" where
  "stop_process host =
     lp_then (lp_running host) (\<lambda>up.
     lp_then (if up then lp_then (local_command host ''shutdown'') (\<lambda>_. lp_return ()) else lp_return ()) (\<lambda>_.
     lp_then (lp_state (\<lambda>st.
       if psv_pid (lps_supervisor st) \<noteq> 0
       then lp_then (lp_supervised (supervisor_stop (lht_processes host) (lop_shutdown_grace (lps_options st)))) (\<lambda>r.
         case r of Inl _ \<Rightarrow> lp_supervised (supervisor_kill (lht_processes host)) | Inr _ \<Rightarrow> lp_return ok_status)
       else lp_return ok_status)) (\<lambda>r.
     case r of
       Inl e \<Rightarrow> lp_return (Inl e)
     | Inr _ \<Rightarrow> lp_change (\<lambda>st. st\<lparr>lps_port := 0\<rparr>) (lp_return ok_status))))"

subsection \<open>The operations of the adapter\<close>

text \<open>The staged package: the payload, or a descriptor made from the artifact when there is none.\<close>

definition package_bytes :: "local_behavior \<Rightarrow> artifact_descriptor \<Rightarrow> string \<Rightarrow> string" where
  "package_bytes b a payload =
     (if payload = []
      then json_dump (json_build
        [(''version'', JString (ver_text (art_version a))), (''build'', JString (art_build a)),
         (''component'', JString (art_component a)), (''behavior'', behavior_json b)])
      else payload)"

definition write_package :: "'w local_host \<Rightarrow> artifact_descriptor \<Rightarrow> string \<Rightarrow> ('w, string) local_op" where
  "write_package host a payload = lp_state (\<lambda>st.
     let slot = slots_directory (lps_target st) (art_build a);
         executable = installed_executable (lps_target st) (art_build a)
     in lp_then (lp_world (lht_ensure_directory host slot)) (\<lambda>_.
        lp_then (lp_world (lht_exists host executable)) (\<lambda>there.
        lp_then (if there then lp_return ok_status
          else lp_world (lht_copy host (lop_executable (lps_options st)) executable)) (\<lambda>_.
        lp_then (lp_world (lht_write_atomic host (fs_join slot ''package.json'')
            (package_bytes (lps_behavior st) a payload))) (\<lambda>_.
        lp_return slot)))))"

definition prepare_local :: "'w local_host \<Rightarrow> target_operation \<Rightarrow> ('w, prepare_outcome result) local_op" where
  "prepare_local host op =
     (let a = top_artifact op
      in lp_try (if top_payload_path op \<noteq> [] then lp_world (lht_read host (top_payload_path op) (8 * 1024 * 1024))
                 else lp_return (Inr [])) (\<lambda>payload.
         lp_then (write_package host a payload) (\<lambda>slot.
         lp_then (lp_world (lht_artifact_file host (fs_join slot ''package.json''))) (\<lambda>(size, content).
           let assessment = verify_artifact_file a (fs_join slot ''package.json'') size content
           in if \<not> int_verified assessment
              then lp_fail EC_integrity_failure ''the staged package does not match the artifact descriptor'' (int_detail assessment)
              else lp_change (\<lambda>st. st\<lparr>lps_staged_ready := True, lps_staged_build := art_build a, lps_staged_version := art_version a\<rparr>)
                (lp_state (\<lambda>st.
                   if lps_drop_prepare st
                   then lp_change (\<lambda>st. st\<lparr>lps_drop_prepare := False\<rparr>)
                     (lp_fail EC_timeout ''the prepare took effect but the acknowledgement was lost'' [])
                   else lp_return (Inr \<lparr>po_prepared = True, po_already_prepared = False,
                     po_detail = ''staged build '' @ art_build a @ '' into '' @ slot,
                     po_steps = [''copy-executable'', ''write-package-descriptor'', ''verify-digest'']\<rparr>)))))))"

text \<open>Before the switch the pointer is kept as the previous one; what fails here is passed over.\<close>

definition keep_previous :: "'w local_host \<Rightarrow> ('w, unit) local_op" where
  "keep_previous host = lp_state (\<lambda>st.
     let pointer = pointer_file (lps_target st)
     in lp_then (lp_world (lht_exists host pointer)) (\<lambda>there.
        if \<not> there then lp_return ()
        else
          lp_then (lp_world (lht_copy host pointer (previous_file (lps_target st)))) (\<lambda>_.
          lp_then (lp_world (lht_read host pointer (64 * 1024))) (\<lambda>text.
            case fum_try (fum_try text (json_parse_object default_limits)) (\<lambda>doc. json_require_string doc ''build'') of
              Inl _ \<Rightarrow> lp_return ()
            | Inr build \<Rightarrow> lp_change (\<lambda>st. st\<lparr>lps_previous_build := build\<rparr>) (lp_return ())))))"

definition pointer_record :: "target_operation \<Rightarrow> json" where
  "pointer_record op =
     (let a = top_artifact op
      in json_build
        [(''version'', JString (ver_text (art_version a))), (''build'', JString (art_build a)),
         (''artifact_id'', JString (art_id a)), (''digest'', JString (art_digest a)),
         (''activated_at'', JString (to_iso8601 (top_now op)))])"

definition identity_of :: "json \<Rightarrow> (version \<times> build_id) result" where
  "identity_of response =
     fum_try (json_require_string response ''version'') (\<lambda>v. fum_try (version_parse v) (\<lambda>version.
     fum_try (json_require_string response ''build'') (\<lambda>b. fum_try (parse_id b) (\<lambda>build. Inr (version, build)))))"

definition activate_local :: "'w local_host \<Rightarrow> target_operation \<Rightarrow> ('w, activate_outcome result) local_op" where
  "activate_local host op = lp_state (\<lambda>st.
     let a = top_artifact op; t = lps_target st; build = art_build a
     in lp_then (lp_world (lht_exists host (installed_executable t build))) (\<lambda>there.
        if \<not> there
        then lp_fail EC_precondition_failed ''the slot for this build has not been prepared'' (slots_directory t build)
        else lp_then (if lps_current_build st = build then lp_running host else lp_return False) (\<lambda>active.
          if active
          then lp_return (Inr \<lparr>ao_activated = True, ao_already_active = True, ao_restart_performed = False,
                 ao_observed_version = art_version a, ao_observed_build = art_build a,
                 ao_detail = ''the target already runs this build''\<rparr>)
          else
            lp_then (keep_previous host) (\<lambda>_.
            lp_try (stop_process host) (\<lambda>_.
            lp_try (lp_world (lht_write_atomic host (pointer_file t) (json_dump (pointer_record op)))) (\<lambda>_.
            lp_try (start_process host build) (\<lambda>_.
            lp_state (\<lambda>st.
              if lps_drop_activate st
              then lp_change (\<lambda>st. st\<lparr>lps_drop_activate := False\<rparr>)
                (lp_fail EC_timeout ''the activation took effect but the acknowledgement was lost'' [])
              else
                lp_try (local_command host ''hello'') (\<lambda>hello.
                lp_try (lp_return (identity_of hello)) (\<lambda>(version, observed).
                lp_state (\<lambda>st.
                  lp_return (Inr \<lparr>ao_activated = (\<not> ver_empty version), ao_already_active = False,
                    ao_restart_performed = True, ao_observed_version = version, ao_observed_build = observed,
                    ao_detail = ''restarted the control plane on build '' @ build @ '' (pid '' @
                      u64_to_string (psv_pid (lps_supervisor st)) @ '')''\<rparr>))))))))))))"

definition verify_started :: "target_operation \<Rightarrow> local_state \<Rightarrow> verify_outcome" where
  "verify_started op st =
     no_verify\<lparr>vo_observed_at := (if lps_verify_stale st then top_now op + from_seconds (-3600) else top_now op),
       vo_validity := from_seconds 30,
       vo_incarnation :=
         (let i = fen_incarnation (top_fence op)
          in if lps_wrong_incarnation st then (if i = 0 then 1 else i - 1) else i)\<rparr>"

definition verify_reported :: "verify_outcome \<Rightarrow> u64 \<Rightarrow> json \<Rightarrow> verify_outcome result" where
  "verify_reported outcome incarnation response =
     fum_try (identity_of response) (\<lambda>(version, build).
     fum_try (json_require_bool response ''healthy'') (\<lambda>healthy.
     fum_try (json_require_string response ''pid'') (\<lambda>pid.
       Inr (outcome\<lparr>vo_observed_version := version, vo_observed_build := build, vo_healthy := healthy,
         vo_checks := [''control-plane-status'', ''running-build-matches-slot''], vo_verified := True,
         vo_detail := ''the control plane reports '' @ the_value (json_require_string response ''version'') [] @ '' / '' @ build @
           '' alive as pid '' @ pid @ '' on incarnation '' @ u64_to_string incarnation @
           (if healthy then [] else ''; reported unhealthy'')\<rparr>))))"

definition verify_local :: "'w local_host \<Rightarrow> target_operation \<Rightarrow> ('w, verify_outcome result) local_op" where
  "verify_local host op = lp_state (\<lambda>st.
     let outcome = verify_started op st
     in lp_then (local_command host ''status'') (\<lambda>r.
        case r of
          Inl e \<Rightarrow> lp_return (Inr (outcome\<lparr>vo_verified := False, vo_healthy := False, vo_detail := error_to_string e\<rparr>))
        | Inr response \<Rightarrow> lp_return (verify_reported outcome (lps_incarnation st) response)))"

definition rollback_local :: "'w local_host \<Rightarrow> target_operation \<Rightarrow> ('w, rollback_outcome result) local_op" where
  "rollback_local host op = lp_state (\<lambda>st.
     let t = lps_target st
     in lp_then (lp_world (lht_exists host (previous_file t))) (\<lambda>there.
        if \<not> there
        then lp_fail EC_precondition_failed ''the target has no recorded previous build to restore'' (previous_file t)
        else
          lp_try (lp_world (lht_read host (previous_file t) (64 * 1024))) (\<lambda>text.
          lp_try (lp_return (json_parse_object default_limits text)) (\<lambda>doc.
          lp_try (lp_return (json_require_string doc ''build'')) (\<lambda>build.
          lp_try (lp_return (json_require_string doc ''version'')) (\<lambda>version_text.
          lp_then (lp_world (lht_exists host (installed_executable t build))) (\<lambda>there.
            if \<not> there
            then lp_fail EC_precondition_failed ''the previous build slot is no longer present'' (slots_directory t build)
            else
              lp_try (stop_process host) (\<lambda>_.
              lp_try (lp_world (lht_write_atomic host (pointer_file t) text)) (\<lambda>_.
              lp_try (start_process host build) (\<lambda>_.
              lp_try (local_command host ''hello'') (\<lambda>_.
              lp_try (lp_return (version_parse version_text)) (\<lambda>version.
              lp_try (lp_return (parse_id build)) (\<lambda>observed.
              lp_state (\<lambda>st.
                lp_return (Inr \<lparr>ro_rolled_back = True, ro_already_rolled_back = False, ro_observed_version = version,
                  ro_observed_build = observed,
                  ro_detail = ''restored build '' @ build @ '' (pid '' @
                    u64_to_string (psv_pid (lps_supervisor st)) @ '')''\<rparr>)))))))))))))))"

definition installed_version :: "'w local_host \<Rightarrow> ('w, version result) local_op" where
  "installed_version host = lp_state (\<lambda>st.
     let pointer = pointer_file (lps_target st)
     in lp_then (lp_world (lht_exists host pointer)) (\<lambda>there.
        if \<not> there then lp_fail EC_not_found ''the target has no installed build pointer'' pointer
        else
          lp_try (lp_world (lht_read host pointer (64 * 1024))) (\<lambda>text.
          lp_return (fum_try (json_parse_object default_limits text) (\<lambda>doc.
            fum_try (json_require_string doc ''version'') version_parse)))))"

definition observation_now :: "adapter_id \<Rightarrow> target_id \<Rightarrow> timestamp \<Rightarrow> u64 \<Rightarrow> target_observation" where
  "observation_now source i now incarnation =
     \<lparr>obs_target = i, obs_version = empty_version, obs_build = [], obs_healthy = False, obs_health_known = True,
      obs_health_detail = [], obs_observed_at = now, obs_incarnation = incarnation, obs_source = source\<rparr>"

definition observe_reported :: "target_observation \<Rightarrow> u64 \<Rightarrow> json \<Rightarrow> target_observation result" where
  "observe_reported t incarnation response =
     fum_try (identity_of response) (\<lambda>(version, build).
     fum_try (json_require_bool response ''healthy'') (\<lambda>healthy.
       Inr (t\<lparr>obs_version := version, obs_build := build, obs_healthy := healthy,
         obs_health_detail := ''the control plane answered on incarnation '' @ u64_to_string incarnation\<rparr>)))"

definition observe_local ::
    "'w local_host \<Rightarrow> adapter_id \<Rightarrow> target_id \<Rightarrow> timestamp \<Rightarrow> u64 \<Rightarrow> ('w, target_observation result) local_op" where
  "observe_local host source i now incarnation =
     (let t = observation_now source i now incarnation
      in lp_then (lp_running host) (\<lambda>up. lp_state (\<lambda>st.
         lp_then (if up \<and> lps_port st \<noteq> 0 then local_command host ''status''
                  else lp_fail EC_not_found ''the target process is not running'' []) (\<lambda>r.
           case r of
             Inr response \<Rightarrow> lp_return (observe_reported t (lps_incarnation st) response)
           | Inl _ \<Rightarrow>
               lp_then (installed_version host) (\<lambda>v.
                 lp_return (Inr (t\<lparr>obs_version := result_or v empty_version, obs_healthy := False, obs_health_known := False,
                   obs_health_detail := ''the target process is not running''\<rparr>)))))))"

definition crash_local :: "'w local_host \<Rightarrow> ('w, status) local_op" where
  "crash_local host =
     lp_then (lp_running host) (\<lambda>up.
     lp_then (if up then lp_then (local_command host ''crash'') (\<lambda>_. lp_return ()) else lp_return ()) (\<lambda>_.
     lp_then (lp_supervised (wait_exit (lht_processes host) (from_seconds 10))) (\<lambda>r.
       case r of Inl _ \<Rightarrow> lp_supervised (supervisor_kill (lht_processes host)) | Inr _ \<Rightarrow> lp_return ok_status)))"

definition restart_local :: "'w local_host \<Rightarrow> ('w, status) local_op" where
  "restart_local host = lp_state (\<lambda>st.
     if lps_current_build st = [] then lp_fail EC_precondition_failed ''the target has never been started'' []
     else lp_try (stop_process host) (\<lambda>_. start_process host (lps_current_build st)))"

subsection \<open>The adapter\<close>

definition with_local ::
    "target_id \<Rightarrow> ('w, 'a result) local_op \<Rightarrow> local_adapter \<Rightarrow> 'w \<Rightarrow> ('a result \<times> local_adapter \<times> 'w) option" where
  "with_local i body a w =
     (case table_get (lad_targets a) i of
        None \<Rightarrow> Some (fail EC_not_found ''the local-process adapter does not know this target'' i, a, w)
      | Some st \<Rightarrow>
          (case body st w of
             None \<Rightarrow> None
           | Some (r, st, w) \<Rightarrow> Some (r, a\<lparr>lad_targets := table_put (lad_targets a) i st\<rparr>, w)))"

definition local_prepare :: "'w local_host \<Rightarrow> target_operation \<Rightarrow> local_adapter \<Rightarrow> 'w \<Rightarrow> (prepare_outcome result \<times> local_adapter \<times> 'w) option" where
  "local_prepare host op = with_local (tgt_id (top_target op)) (prepare_local host op)"

definition local_activate :: "'w local_host \<Rightarrow> target_operation \<Rightarrow> local_adapter \<Rightarrow> 'w \<Rightarrow> (activate_outcome result \<times> local_adapter \<times> 'w) option" where
  "local_activate host op = with_local (tgt_id (top_target op)) (activate_local host op)"

definition local_verify :: "'w local_host \<Rightarrow> target_operation \<Rightarrow> local_adapter \<Rightarrow> 'w \<Rightarrow> (verify_outcome result \<times> local_adapter \<times> 'w) option" where
  "local_verify host op = with_local (tgt_id (top_target op)) (verify_local host op)"

definition local_rollback :: "'w local_host \<Rightarrow> target_operation \<Rightarrow> local_adapter \<Rightarrow> 'w \<Rightarrow> (rollback_outcome result \<times> local_adapter \<times> 'w) option" where
  "local_rollback host op = with_local (tgt_id (top_target op)) (rollback_local host op)"

definition local_observe ::
    "'w local_host \<Rightarrow> target_id \<Rightarrow> timestamp \<Rightarrow> u64 \<Rightarrow> local_adapter \<Rightarrow> 'w \<Rightarrow> (target_observation result \<times> local_adapter \<times> 'w) option" where
  "local_observe host i now incarnation a = with_local i (observe_local host (lad_id a) i now incarnation) a"

definition local_process_alive :: "'w local_host \<Rightarrow> target_id \<Rightarrow> local_adapter \<Rightarrow> 'w \<Rightarrow> (bool result \<times> local_adapter \<times> 'w) option" where
  "local_process_alive host i = with_local i (lp_then (lp_running host) (\<lambda>up. lp_return (Inr up)))"

definition kill_target_process :: "'w local_host \<Rightarrow> target_id \<Rightarrow> local_adapter \<Rightarrow> 'w \<Rightarrow> (status \<times> local_adapter \<times> 'w) option" where
  "kill_target_process host i = with_local i (lp_supervised (supervisor_kill (lht_processes host)))"

definition crash_target_process :: "'w local_host \<Rightarrow> target_id \<Rightarrow> local_adapter \<Rightarrow> 'w \<Rightarrow> (status \<times> local_adapter \<times> 'w) option" where
  "crash_target_process host i = with_local i (crash_local host)"

definition restart_target_process :: "'w local_host \<Rightarrow> target_id \<Rightarrow> local_adapter \<Rightarrow> 'w \<Rightarrow> (status \<times> local_adapter \<times> 'w) option" where
  "restart_target_process host i = with_local i (restart_local host)"

subsection \<open>Runtime facts\<close>

record runtime_facts =
  rtf_pid :: u64
  rtf_incarnation :: u64
  rtf_version :: version
  rtf_build :: build_id
  rtf_alive :: bool
  rtf_port :: u16
  rtf_current_build :: string
  rtf_detail :: string

text \<open>What cannot be read is left at its default.\<close>

definition facts_of_pointer :: "string result \<Rightarrow> runtime_facts \<Rightarrow> runtime_facts" where
  "facts_of_pointer text f =
     (case fum_try text (json_parse_object default_limits) of
        Inl _ \<Rightarrow> f
      | Inr doc \<Rightarrow>
          f\<lparr>rtf_version := result_or (fum_try (json_require_string doc ''version'') version_parse) (rtf_version f),
            rtf_build := result_or (fum_try (json_require_string doc ''build'') parse_id) (rtf_build f)\<rparr>)"

definition facts_local :: "'w local_host \<Rightarrow> ('w, runtime_facts result) local_op" where
  "facts_local host = lp_state (\<lambda>before. lp_then (lp_running host) (\<lambda>up. lp_state (\<lambda>st.
     let t = lps_target st; runtime = fs_join (lpt_root t) ''state/runtime.json'';
         f = \<lparr>rtf_pid = psv_pid (lps_supervisor before), rtf_incarnation = lps_incarnation st, rtf_version = empty_version,
              rtf_build = [], rtf_alive = up, rtf_port = lps_port st, rtf_current_build = lps_current_build st,
              rtf_detail = []\<rparr>
     in lp_then (lp_world (lht_exists host (pointer_file t))) (\<lambda>there.
        lp_then (if there then lp_then (lp_world (lht_read host (pointer_file t) (64 * 1024))) (\<lambda>text. lp_return (facts_of_pointer text f))
                 else lp_return f) (\<lambda>f.
        lp_then (lp_world (lht_exists host runtime)) (\<lambda>there.
          if \<not> there then lp_return (Inr f)
          else lp_then (lp_world (lht_read host runtime (64 * 1024))) (\<lambda>text.
            lp_return (Inr (f\<lparr>rtf_detail := result_or text []\<rparr>)))))))))"

definition local_runtime_facts :: "'w local_host \<Rightarrow> target_id \<Rightarrow> local_adapter \<Rightarrow> 'w \<Rightarrow> (runtime_facts result \<times> local_adapter \<times> 'w) option" where
  "local_runtime_facts host i = with_local i (facts_local host)"

text \<open>
  The destructor asks the processes to stop unless they are to be kept; then the targets go, and the supervisor of
  each kills what still runs.
\<close>

primrec stop_all :: "'w local_host \<Rightarrow> target_id list \<Rightarrow> local_adapter \<Rightarrow> 'w \<Rightarrow> (local_adapter \<times> 'w) option" where
  "stop_all host [] a w = Some (a, w)"
| "stop_all host (i # is) a w =
     (case with_local i (stop_process host) a w of None \<Rightarrow> None | Some (_, a, w) \<Rightarrow> stop_all host is a w)"

definition destroy_targets :: "'w local_host \<Rightarrow> local_adapter \<Rightarrow> 'w \<Rightarrow> 'w" where
  "destroy_targets host a w =
     fold (\<lambda>(i, st). supervisor_destroy (lht_processes host) (lps_supervisor st)) (lad_targets a) w"

definition local_destroy :: "'w local_host \<Rightarrow> local_adapter \<Rightarrow> 'w \<Rightarrow> 'w option" where
  "local_destroy host a w =
     (if lop_keep_running (lad_options a) then Some (destroy_targets host a w)
      else map_option (\<lambda>(a, w). destroy_targets host a w) (stop_all host (map fst (lad_targets a)) a w))"

end
