(* ===== verification/Local_Safety.thy ===== *)
theory Local_Safety
  imports Local_Process
begin

text \<open>
  What the operations of the local-process adapter leave alone, what they do to the files that say which build is
  installed and which one came before, and what a rollback therefore goes back to.
\<close>

subsection \<open>What the calls of the host leave alone\<close>

text \<open>\<open>f\<close> is a part of the world, such as the content of some files.\<close>

definition sockets_keep :: "('w \<Rightarrow> 'x) \<Rightarrow> 'w socket_calls \<Rightarrow> bool" where
  "sockets_keep f k \<longleftrightarrow>
     (\<forall>w. f (snd (skc_socket k w)) = f w) \<and> (\<forall>h p w. f (snd (skc_connect k h p w)) = f w) \<and>
     (\<forall>h d w. f (snd (skc_send k h d w)) = f w) \<and> (\<forall>h n w. f (snd (skc_recv k h n w)) = f w) \<and>
     (\<forall>h w. f (skc_close k h w) = f w)"

definition processes_keep :: "('w \<Rightarrow> 'x) \<Rightarrow> 'w process_calls \<Rightarrow> bool" where
  "processes_keep f k \<longleftrightarrow>
     (\<forall>w. f (snd (prc_pipe k w)) = f w) \<and> (\<forall>h w. f (snd (prc_inherit k h w)) = f w) \<and>
     (\<forall>c d h w. f (snd (prc_create k c d h w)) = f w) \<and> (\<forall>h w. f (prc_close k h w) = f w) \<and>
     (\<forall>h w. f (snd (prc_peek k h w)) = f w) \<and> (\<forall>h n w. f (snd (prc_read k h n w)) = f w) \<and>
     (\<forall>h m w. f (snd (prc_signalled k h m w)) = f w) \<and> (\<forall>h w. f (snd (prc_exit_code k h w)) = f w) \<and>
     (\<forall>h w. f (snd (prc_terminate k h w)) = f w) \<and> (\<forall>w. f (snd (prc_clock k w)) = f w) \<and>
     (\<forall>w. f (prc_sleep k w) = f w)"

lemma sockets_keepD:
  assumes "sockets_keep f k"
  shows "skc_socket k w = (x1, w') \<Longrightarrow> f w' = f w" "skc_connect k h p w = (x2, w') \<Longrightarrow> f w' = f w"
    "skc_send k h d w = (x3, w') \<Longrightarrow> f w' = f w" "skc_recv k h n w = (x4, w') \<Longrightarrow> f w' = f w"
    "f (skc_close k h w) = f w"
  using assms unfolding sockets_keep_def by (metis snd_conv)+

lemma processes_keepD:
  assumes "processes_keep f k"
  shows "prc_pipe k w = (x1, w') \<Longrightarrow> f w' = f w" "prc_inherit k h w = (x2, w') \<Longrightarrow> f w' = f w"
    "prc_create k c d h w = (x3, w') \<Longrightarrow> f w' = f w" "f (prc_close k h w) = f w"
    "prc_peek k h w = (x4, w') \<Longrightarrow> f w' = f w" "prc_read k h n w = (x5, w') \<Longrightarrow> f w' = f w"
    "prc_signalled k h m w = (x6, w') \<Longrightarrow> f w' = f w" "prc_exit_code k h w = (x7, w') \<Longrightarrow> f w' = f w"
    "prc_terminate k h w = (x8, w') \<Longrightarrow> f w' = f w" "prc_clock k w = (x9, w') \<Longrightarrow> f w' = f w"
    "f (prc_sleep k w) = f w"
  using assms unfolding processes_keep_def by (metis snd_conv)+

lemma send_all_keeps:
  assumes "sockets_keep f k" "send_all k h data w = (r, w')"
  shows "f w' = f w"
  using assms(2)
proof (induction "length data" arbitrary: data w rule: less_induct)
  case less
  show ?case
  proof (cases "data = []")
    case True
    with less.prems show ?thesis by (simp add: send_all.simps [of k h "[]"])
  next
    case False
    obtain n w1 where n: "skc_send k h (take (2 ^ 20) data) w = (n, w1)" by fastforce
    note w1 = sockets_keepD(3) [OF assms(1) n]
    show ?thesis
    proof (cases "n \<le> 0")
      case True
      with less.prems n False w1 show ?thesis by (auto simp: send_all.simps [of k h data])
    next
      case pos: False
      with less.prems n False have rest: "send_all k h (drop (nat n) data) w1 = (r, w')"
        by (simp add: send_all.simps [of k h data])
      from less.hyps [OF _ rest] pos False w1 show ?thesis by simp
    qed
  qed
qed

lemma receive_exact_keeps:
  assumes "sockets_keep f k" "receive_exact k h n w = (r, w')"
  shows "f w' = f w"
  using assms(2)
proof (induction n arbitrary: w r w' rule: less_induct)
  case (less n)
  obtain bytes w1 where b: "skc_recv k h n w = (bytes, w1)" by force
  note w1 = sockets_keepD(4) [OF assms(1) b]
  show ?case
  proof (cases "n = 0 \<or> bytes = None \<or> bytes = Some []")
    case True
    with less.prems b w1 show ?thesis by (auto simp: receive_exact.simps [of k h n] split: if_splits)
  next
    case False
    then obtain bs where bs: "bytes = Some bs" "bs \<noteq> []" "n \<noteq> 0" by auto
    obtain r2 w2 where rest: "receive_exact k h (n - length bs) w1 = (r2, w2)" by force
    with less.prems b bs have "w' = w2" by (auto simp: receive_exact.simps [of k h n])
    with less.IH [OF _ rest] bs w1 show ?thesis by simp
  qed
qed

lemma close_keeps: "sockets_keep f k \<Longrightarrow> f (snd (connection_close k c w)) = f w"
  by (simp add: connection_close_def close_handle_def sockets_keepD(5))

lemma connect_keeps:
  assumes "connect_loopback k port w = (r, w')" "sockets_keep f k"
  shows "f w' = f w"
proof -
  note keep = sockets_keepD [OF assms(2)]
  from assms(1) show ?thesis
    by (auto simp: connect_loopback_def close_handle_def keep(5) split: sum.splits prod.splits if_splits bool.splits
        dest!: keep(1,2))
qed

lemma send_keeps: "send_message k c p w = (r, w') \<Longrightarrow> sockets_keep f k \<Longrightarrow> f w' = f w"
  by (auto simp: send_message_def split: if_splits dest: send_all_keeps)

lemma receive_keeps:
  assumes "receive_message k c m w = (r, c', w')" "sockets_keep f k"
  shows "f w' = f w"
proof -
  have exact: "receive_exact k h n v = (x, v') \<Longrightarrow> f v' = f v" for h n v x v'
    using receive_exact_keeps [OF assms(2)] by blast
  have closed: "closing k c e v = (x, y, v') \<Longrightarrow> f v' = f v" for e :: "string result" and v x y v'
    using close_keeps [OF assms(2), of c v] by (auto simp: closing_def split: prod.splits)
  have checked: "checked_payload k c crc payload v = (x, y, v') \<Longrightarrow> f v' = f v" for crc payload v x y v'
    using closed by (auto simp: checked_payload_def split: if_splits)
  from assms(1) show ?thesis
    by (auto simp: receive_message_def Let_def split: if_splits prod.splits sum.splits option.splits
        dest!: exact closed checked)
qed

lemma exchange_keeps:
  assumes "exchange k port request w = (r, w')" "sockets_keep f k"
  shows "f w' = f w"
proof -
  have send: "send_message k c p v = (x, v') \<Longrightarrow> f v' = f v" for c p v x v'
    by (rule send_keeps [OF _ assms(2)])
  have receive: "receive_message k c m v = (x, y, v') \<Longrightarrow> f v' = f v" for c m v x y v'
    by (rule receive_keeps [OF _ assms(2)])
  have connect: "connect_loopback k port v = (x, v') \<Longrightarrow> f v' = f v" for v x v'
    by (rule connect_keeps [OF _ assms(2)])
  have command: "send_command k c request v = (x, y, v') \<Longrightarrow> f v' = f v" for c v x y v'
    by (auto simp: send_command_def split: prod.splits sum.splits dest!: send receive)
  from assms(1) show ?thesis
    by (auto simp: exchange_def close_keeps [OF assms(2)] split: prod.splits sum.splits dest!: connect command)
qed

lemma close_handles_keeps: "close_handles k s w = (s', w') \<Longrightarrow> processes_keep f k \<Longrightarrow> f w' = f w"
  by (auto simp: close_handles_def Let_def processes_keepD(4) split: option.splits)

lemma supervisor_start_keeps:
  assumes "supervisor_start k r s w = (x, s', w')" "processes_keep f k"
  shows "f w' = f w"
proof -
  note keep = processes_keepD [OF assms(2)]
  obtain s1 w1 where c: "close_handles k s w = (s1, w1)" by force
  obtain p w2 where p: "prc_pipe k w1 = (p, w2)" by force
  note w2 = close_handles_keeps [OF c assms(2)] keep(1) [OF p]
  show ?thesis
  proof (cases p)
    case None
    with assms(1) c p w2 show ?thesis by (simp add: supervisor_start_def)
  next
    case (Some h)
    obtain reading writing where h: "h = (reading, writing)" by force
    obtain b w3 where b: "prc_inherit k reading w2 = (b, w3)" by force
    obtain q w4 where q: "prc_create k (command_line r)
        (if srq_working_directory r = [] then None else Some (srq_working_directory r)) writing w3 = (q, w4)" by force
    note w4 = w2 keep(2) [OF b] keep(3) [OF q]
    show ?thesis
      using assms(1) c p b q w4 Some h
      by (cases b; cases q) (auto simp: supervisor_start_def Let_def keep(4))
  qed
qed

lemma poll_keeps:
  assumes "poll_output k r reading process buffer trailing s w = (a, s', w')" "processes_keep f k"
  shows "f w' = f w"
proof -
  note keep = processes_keepD [OF assms(2)]
  from assms(1) show ?thesis
    unfolding poll_output_def Let_def
    by (auto split: prod.splits option.splits if_splits ready_scan.splits bool.splits dest!: keep(5-8))
qed

lemma await_loop_keeps:
  assumes "await_loop k r started reading process buffer trailing s w = Some y" "processes_keep f k"
  shows "f (snd (snd y)) = f w"
proof -
  let ?P = "\<lambda>k r started reading process buffer trailing s w (y :: started_process result \<times> process_supervisor \<times> _).
    processes_keep f k \<longrightarrow> f (snd (snd y)) = f w"
  have "?P k r started reading process buffer trailing s w y"
  proof (rule await_loop.raw_induct [where P = ?P, OF _ assms(1)], rule impI)
    fix loop and k :: "'a process_calls" and r :: start_request and started reading process buffer trailing
    fix s :: process_supervisor and w and y :: "started_process result \<times> process_supervisor \<times> 'a"
    assume IH: "\<And>k r started reading process buffer trailing s w y.
        loop k r started reading process buffer trailing s w = Some y \<Longrightarrow> ?P k r started reading process buffer trailing s w y"
      and body: "(case poll_output k r reading process buffer trailing s w of
          (P_ready p, s, w) \<Rightarrow> Some (Inr p, s, w) | (P_stopped e, s, w) \<Rightarrow> Some (Inl e, s, w)
        | (P_again buffer trailing, s, w) \<Rightarrow>
            case prc_clock k w of (now, w) \<Rightarrow>
              if srq_readiness_bound r < now - started
              then Some (fail EC_timeout ''the target process did not report readiness in time'' (psv_captured s), s, w)
              else loop k r started reading process buffer trailing s (prc_sleep k w)) = Some y"
      and kept: "processes_keep f k"
    note keep = processes_keepD [OF kept]
    obtain a s1 w1 where p: "poll_output k r reading process buffer trailing s w = (a, s1, w1)" by (rule prod_cases3)
    note w1 = poll_keeps [OF p kept]
    show "f (snd (snd y)) = f w"
    proof (cases a)
      case (P_again b t)
      obtain now w2 where c: "prc_clock k w1 = (now, w2)" by (rule prod.exhaust)
      have w2: "f w2 = f w" using keep(10) [OF c] w1 by simp
      show ?thesis
      proof (cases "srq_readiness_bound r < now - started")
        case True
        with body p P_again c w2 show ?thesis by auto
      next
        case False
        with body p P_again c have "loop k r started reading process b t s1 (prc_sleep k w2) = Some y" by simp
        from IH [OF this] kept keep(11) [of w2] w2 show ?thesis by simp
      qed
    qed (use body p w1 in auto)
  qed
  with assms(2) show ?thesis by simp
qed

lemma await_ready_keeps:
  assumes "await_ready k r s w = Some (x, s', w')" "processes_keep f k"
  shows "f w' = f w"
proof (cases "psv_process s = None \<or> psv_read s = None")
  case True
  with assms(1) show ?thesis by (auto simp: await_ready_def split: option.splits)
next
  case False
  then obtain process reading where h: "psv_process s = Some process" "psv_read s = Some reading" by auto
  obtain now w1 where c: "prc_clock k w = (now, w1)" by (rule prod.exhaust)
  with assms(1) h have "await_loop k r now reading process [] [] s w1 = Some (x, s', w')" by (simp add: await_ready_def)
  from await_loop_keeps [OF this assms(2)] processes_keepD(10) [OF assms(2) c] show ?thesis by simp
qed

lemma running_keeps_world:
  assumes "supervisor_running k s w = (b, s', w')" "processes_keep f k"
  shows "f w' = f w"
proof -
  note keep = processes_keepD [OF assms(2)]
  from assms(1) show ?thesis
    by (auto simp: supervisor_running_def note_exit_def split: option.splits if_splits prod.splits bool.splits dest!: keep(7,8))
qed

lemma kill_keeps:
  assumes "supervisor_kill k s w = (x, s', w')" "processes_keep f k"
  shows "f w' = f w"
proof -
  note keep = processes_keepD [OF assms(2)]
  have running: "supervisor_running k u v = (b, u', v') \<Longrightarrow> f v' = f v" for u v b u' v'
    by (rule running_keeps_world [OF _ assms(2)])
  have "f (snd (prc_signalled k h m v)) = f v" for h m v by (metis keep(7) prod.collapse)
  with assms(1) show ?thesis
    by (auto simp: supervisor_kill_def note_exit_def split: option.splits prod.splits bool.splits dest!: running keep(8,9))
qed

lemma stop_keeps:
  assumes "supervisor_stop k g s w = (x, s', w')" "processes_keep f k"
  shows "f w' = f w"
proof -
  note keep = processes_keepD [OF assms(2)]
  have running: "supervisor_running k u v = (b, u', v') \<Longrightarrow> f v' = f v" for u v b u' v'
    by (rule running_keeps_world [OF _ assms(2)])
  have kill: "supervisor_kill k u v = (b, u', v') \<Longrightarrow> f v' = f v" for u v b u' v'
    by (rule kill_keeps [OF _ assms(2)])
  from assms(1) show ?thesis
    by (auto simp: supervisor_stop_def note_exit_def split: option.splits prod.splits bool.splits dest!: running kill keep(7,8))
qed

subsection \<open>What the operations leave alone\<close>

definition lp_keeps :: "('w \<Rightarrow> 'x) \<Rightarrow> ('w, 'a) local_op \<Rightarrow> bool" where
  "lp_keeps f m \<longleftrightarrow> (\<forall>st w x st' w'. m st w = Some (x, st', w') \<longrightarrow> f w' = f w \<and> lps_target st' = lps_target st)"

named_theorems lp_rules "operations that leave a part of the world and the target alone"

lemma lp_keeps_return [lp_rules]: "lp_keeps f (lp_return x)"
  by (simp add: lp_keeps_def lp_return_def)

lemma lp_keeps_fail [lp_rules]: "lp_keeps f (lp_fail c m d)"
  unfolding lp_fail_def by (rule lp_keeps_return)

lemma lp_keeps_then [lp_rules]:
  assumes "lp_keeps f m" "\<And>x. lp_keeps f (g x)"
  shows "lp_keeps f (lp_then m g)"
  using assms unfolding lp_keeps_def lp_then_def by (auto split: option.splits)

lemma lp_keeps_try [lp_rules]:
  assumes "lp_keeps f m" "\<And>x. lp_keeps f (g x)"
  shows "lp_keeps f (lp_try m g)"
  unfolding lp_try_def by (rule lp_keeps_then [OF assms(1)]) (auto split: sum.split intro: assms(2) lp_keeps_return)

lemma lp_keeps_state [lp_rules]: "(\<And>st. lp_keeps f (g st)) \<Longrightarrow> lp_keeps f (lp_state g)"
  unfolding lp_keeps_def lp_state_def by blast

lemma lp_keeps_change [lp_rules]:
  "(\<And>st. lps_target (c st) = lps_target st) \<Longrightarrow> lp_keeps f m \<Longrightarrow> lp_keeps f (lp_change c m)"
  unfolding lp_keeps_def lp_change_def by metis

lemma lp_keeps_world: "(\<And>w x w'. g w = (x, w') \<Longrightarrow> f w' = f w) \<Longrightarrow> lp_keeps f (lp_world g)"
  unfolding lp_keeps_def lp_world_def by (auto split: prod.splits)

lemma lp_keeps_supervised:
  "(\<And>s w x s' w'. g s w = (x, s', w') \<Longrightarrow> f w' = f w) \<Longrightarrow> lp_keeps f (lp_supervised g)"
  unfolding lp_keeps_def lp_supervised_def by (auto split: prod.splits)

lemma lp_keeps_waiting:
  "(\<And>s w x s' w'. g s w = Some (x, s', w') \<Longrightarrow> f w' = f w) \<Longrightarrow> lp_keeps f (lp_waiting g)"
  unfolding lp_keeps_def lp_waiting_def by (auto split: prod.splits option.splits)

lemma lp_keeps_if [lp_rules]: "lp_keeps f m \<Longrightarrow> lp_keeps f n \<Longrightarrow> lp_keeps f (if b then m else n)"
  by simp

text \<open>A host that leaves a part of the world alone, except by writing and copying files.\<close>

definition host_keeps :: "('w \<Rightarrow> 'x) \<Rightarrow> 'w local_host \<Rightarrow> bool" where
  "host_keeps f host \<longleftrightarrow>
     sockets_keep f (lht_sockets host) \<and> processes_keep f (lht_processes host) \<and>
     (\<forall>p w. f (snd (lht_exists host p w)) = f w) \<and> (\<forall>p n w. f (snd (lht_read host p n w)) = f w) \<and>
     (\<forall>p w. f (snd (lht_ensure_directory host p w)) = f w)"

lemma host_keepsD:
  assumes "host_keeps f host"
  shows "sockets_keep f (lht_sockets host)" "processes_keep f (lht_processes host)"
    "lht_exists host p w = (x1, w') \<Longrightarrow> f w' = f w" "lht_read host p n w = (x2, w') \<Longrightarrow> f w' = f w"
    "lht_ensure_directory host p w = (x3, w') \<Longrightarrow> f w' = f w"
  using assms unfolding host_keeps_def by (metis snd_conv)+

lemma running_lp_keeps: "host_keeps f host \<Longrightarrow> lp_keeps f (lp_running host)"
  unfolding lp_running_def by (rule lp_keeps_supervised) (rule running_keeps_world [OF _ host_keepsD(2)])

lemma command_lp_keeps:
  assumes "host_keeps f host"
  shows "lp_keeps f (local_command host c)"
proof -
  have "lp_keeps f (lp_world (exchange (lht_sockets host) p r))" for p r
    by (rule lp_keeps_world) (rule exchange_keeps [OF _ host_keepsD(1) [OF assms]])
  then show ?thesis
    unfolding local_command_def ensure_link_def
    by (intro lp_rules running_lp_keeps [OF assms]) (auto split: sum.split)
qed

lemma start_lp_keeps:
  assumes "host_keeps f host"
  shows "lp_keeps f (start_process host build)"
proof -
  have world: "lp_keeps f (lp_world (lht_exists host p))" "lp_keeps f (lp_world (lht_ensure_directory host p))" for p
    by (rule lp_keeps_world, rule host_keepsD(3,5) [OF assms], assumption)+
  have start: "lp_keeps f (lp_supervised (supervisor_start (lht_processes host) r))" for r
    by (rule lp_keeps_supervised) (rule supervisor_start_keeps [OF _ host_keepsD(2) [OF assms]])
  have await: "lp_keeps f (lp_waiting (await_ready (lht_processes host) r))" for r
    by (rule lp_keeps_waiting) (rule await_ready_keeps [OF _ host_keepsD(2) [OF assms]])
  have noted: "lp_keeps f (case p of Inl e \<Rightarrow> lp_return (Inl e)
      | Inr (port, i) \<Rightarrow> lp_change (\<lambda>st. st\<lparr>lps_port := port, lps_incarnation := i, lps_current_build := build,
          lps_restarts := lps_restarts st + 1\<rparr>) (lp_return ok_status))" for p
    by (auto split: sum.split intro!: lp_rules)
  show ?thesis
    unfolding start_process_def Let_def by (intro lp_rules world start await noted)
qed

lemma stop_lp_keeps:
  assumes "host_keeps f host"
  shows "lp_keeps f (stop_process host)"
proof -
  have kill: "lp_keeps f (lp_supervised (supervisor_kill (lht_processes host)))"
    by (rule lp_keeps_supervised) (rule kill_keeps [OF _ host_keepsD(2) [OF assms]])
  have stop: "lp_keeps f (lp_supervised (supervisor_stop (lht_processes host) g))" for g
    by (rule lp_keeps_supervised) (rule stop_keeps [OF _ host_keepsD(2) [OF assms]])
  have ends: "lp_keeps f (case r of Inl e \<Rightarrow> lp_return (Inl e) | Inr u \<Rightarrow> lp_change (\<lambda>st. st\<lparr>lps_port := 0\<rparr>) (lp_return ok_status))"
    and falls: "lp_keeps f (case r of Inl e \<Rightarrow> lp_supervised (supervisor_kill (lht_processes host)) | Inr u \<Rightarrow> lp_return ok_status)"
    for r :: status
    by (auto split: sum.split intro!: lp_rules kill)
  show ?thesis
    unfolding stop_process_def
    by (intro lp_rules running_lp_keeps [OF assms] command_lp_keeps [OF assms] stop ends falls)
qed

subsection \<open>The files of a target\<close>

text \<open>
  \<open>get w p\<close> is the content of the file \<open>p\<close>.  What the adapter relies on for its two files, the pointer to the
  installed build and its predecessor: a read gives the content, a copy makes the two equal, an atomic write that
  succeeds replaces the content, one that fails leaves it or replaces it, and nothing else (the process neither) touches them.
\<close>

definition installed :: "('w \<Rightarrow> string \<Rightarrow> string option) \<Rightarrow> local_target \<Rightarrow> 'w \<Rightarrow> string option \<times> string option" where
  "installed get t w = (get w (pointer_file t), get w (previous_file t))"

definition host_files :: "('w \<Rightarrow> string \<Rightarrow> string option) \<Rightarrow> local_target \<Rightarrow> 'w local_host \<Rightarrow> bool" where
  "host_files get t host \<longleftrightarrow>
     host_keeps (installed get t) host \<and>
     (\<forall>p w b w'. p \<in> {pointer_file t, previous_file t} \<and> lht_exists host p w = (b, w') \<longrightarrow> (b \<longleftrightarrow> get w p \<noteq> None)) \<and>
     (\<forall>p n w x w'. p \<in> {pointer_file t, previous_file t} \<and> lht_read host p n w = (Inr x, w') \<longrightarrow> get w p = Some x) \<and>
     (\<forall>w r w' x. lht_copy host (pointer_file t) (previous_file t) w = (r, w') \<and> get w (pointer_file t) = Some x \<longrightarrow>
        installed get t w' = (Some x, Some x)) \<and>
     (\<forall>x w w'. lht_write_atomic host (pointer_file t) x w = (ok_status, w') \<longrightarrow>
        installed get t w' = (Some x, get w (previous_file t))) \<and>
     (\<forall>x w r w'. lht_write_atomic host (pointer_file t) x w = (r, w') \<longrightarrow>
        installed get t w' \<in> {installed get t w, (Some x, get w (previous_file t))})"

lemma host_filesD:
  assumes "host_files get t host"
  shows "host_keeps (installed get t) host"
    "lht_exists host (pointer_file t) w = (b, w') \<Longrightarrow> b \<longleftrightarrow> get w (pointer_file t) \<noteq> None"
    "lht_exists host (previous_file t) w = (b, w') \<Longrightarrow> b \<longleftrightarrow> get w (previous_file t) \<noteq> None"
    "lht_read host (pointer_file t) n w = (Inr x, w') \<Longrightarrow> get w (pointer_file t) = Some x"
    "lht_read host (previous_file t) n w = (Inr x, w') \<Longrightarrow> get w (previous_file t) = Some x"
    "lht_copy host (pointer_file t) (previous_file t) w = (r, w') \<Longrightarrow> get w (pointer_file t) = Some x \<Longrightarrow>
       installed get t w' = (Some x, Some x)"
    "lht_write_atomic host (pointer_file t) x w = (ok_status, w') \<Longrightarrow> installed get t w' = (Some x, get w (previous_file t))"
    "lht_write_atomic host (pointer_file t) x w = (r, w') \<Longrightarrow>
       installed get t w' \<in> {installed get t w, (Some x, get w (previous_file t))}"
proof -
  note rest = assms [unfolded host_files_def, THEN conjunct2]
  note last = rest [THEN conjunct2, THEN conjunct2]
  show "host_keeps (installed get t) host" by (rule assms [unfolded host_files_def, THEN conjunct1])
  show "lht_exists host (pointer_file t) w = (b, w') \<Longrightarrow> b \<longleftrightarrow> get w (pointer_file t) \<noteq> None"
    "lht_exists host (previous_file t) w = (b, w') \<Longrightarrow> b \<longleftrightarrow> get w (previous_file t) \<noteq> None"
    by (rule rest [THEN conjunct1, rule_format]; simp)+
  show "lht_read host (pointer_file t) n w = (Inr x, w') \<Longrightarrow> get w (pointer_file t) = Some x"
    "lht_read host (previous_file t) n w = (Inr x, w') \<Longrightarrow> get w (previous_file t) = Some x"
    by (rule rest [THEN conjunct2, THEN conjunct1, rule_format]; simp)+
  show "lht_copy host (pointer_file t) (previous_file t) w = (r, w') \<Longrightarrow> get w (pointer_file t) = Some x \<Longrightarrow>
      installed get t w' = (Some x, Some x)"
    by (rule last [THEN conjunct1, rule_format]) simp
  show "lht_write_atomic host (pointer_file t) x w = (ok_status, w') \<Longrightarrow> installed get t w' = (Some x, get w (previous_file t))"
    by (rule last [THEN conjunct2, THEN conjunct1, rule_format])
  show "lht_write_atomic host (pointer_file t) x w = (r, w') \<Longrightarrow>
      installed get t w' \<in> {installed get t w, (Some x, get w (previous_file t))}"
    by (rule last [THEN conjunct2, THEN conjunct2, rule_format])
qed

lemma lp_then_Some:
  "lp_then m g st w = Some y \<longleftrightarrow> (\<exists>x st1 w1. m st w = Some (x, st1, w1) \<and> g x st1 w1 = Some y)"
  by (auto simp: lp_then_def split: option.splits)

lemma lp_try_Some:
  "lp_try m g st w = Some (Inr y, st', w') \<longleftrightarrow>
     (\<exists>x st1 w1. m st w = Some (Inr x, st1, w1) \<and> g x st1 w1 = Some (Inr y, st', w'))"
proof
  assume "lp_try m g st w = Some (Inr y, st', w')"
  then obtain r st1 w1 where "m st w = Some (r, st1, w1)"
      "(case r of Inl e \<Rightarrow> lp_return (Inl e) | Inr x \<Rightarrow> g x) st1 w1 = Some (Inr y, st', w')"
    unfolding lp_try_def lp_then_Some by blast
  then show "\<exists>x st1 w1. m st w = Some (Inr x, st1, w1) \<and> g x st1 w1 = Some (Inr y, st', w')"
    by (cases r) (auto simp: lp_return_def)
next
  assume "\<exists>x st1 w1. m st w = Some (Inr x, st1, w1) \<and> g x st1 w1 = Some (Inr y, st', w')"
  then show "lp_try m g st w = Some (Inr y, st', w')" by (auto simp: lp_try_def lp_then_def)
qed

lemma lp_simps [simp]:
  "lp_return x st w = Some (x, st, w)" "lp_state h st w = h st st w" "lp_change c m st w = m (c st) w"
  "lp_fail code a b st w = Some (fail code a b, st, w)"
  by (simp_all add: lp_return_def lp_state_def lp_change_def lp_fail_def)

lemma lp_world_Some: "lp_world g st w = Some (x, st', w') \<longleftrightarrow> g w = (x, w') \<and> st' = st"
  by (auto simp: lp_world_def split: prod.splits)

lemma lp_keepsD: "lp_keeps f m \<Longrightarrow> m st w = Some (x, st', w') \<Longrightarrow> f w' = f w \<and> lps_target st' = lps_target st"
  unfolding lp_keeps_def by blast

lemma keep_previous_files:
  assumes "host_files get t host" "lps_target st = t" "keep_previous host st w = Some (u, st', w')"
  shows "lps_target st' = t \<and> installed get t w' =
    (get w (pointer_file t), case get w (pointer_file t) of None \<Rightarrow> get w (previous_file t) | Some x \<Rightarrow> Some x)"
proof -
  note laws = host_filesD [OF assms(1)]
  note keep = host_keepsD [OF laws(1)]
  from assms(2,3) obtain b st1 w1 where b: "lht_exists host (pointer_file t) w = (b, w1)"
    and rest: "(if \<not> b then lp_return () else
          lp_then (lp_world (lht_copy host (pointer_file t) (previous_file t))) (\<lambda>_.
          lp_then (lp_world (lht_read host (pointer_file t) (64 * 1024))) (\<lambda>text.
            case fum_try (fum_try text (json_parse_object default_limits)) (\<lambda>doc. json_require_string doc ''build'') of
              Inl _ \<Rightarrow> lp_return ()
            | Inr build \<Rightarrow> lp_change (\<lambda>st. st\<lparr>lps_previous_build := build\<rparr>) (lp_return ())))) st w1 = Some (u, st', w')"
    unfolding keep_previous_def by (auto simp: lp_then_Some lp_world_Some Let_def)
  have same: "installed get t w1 = installed get t w" by (rule keep(3) [OF b])
  show ?thesis
  proof (cases "get w (pointer_file t)")
    case None
    with laws(2) [OF b] rest same assms(2) show ?thesis by (simp add: installed_def)
  next
    case (Some x)
    with laws(2) [OF b] have "b" by simp
    with rest obtain r w2 bod w3 where c: "lht_copy host (pointer_file t) (previous_file t) w1 = (r, w2)"
      and d: "lht_read host (pointer_file t) (64 * 1024) w2 = (bod, w3)"
      and fin: "(case fum_try (fum_try bod (json_parse_object default_limits)) (\<lambda>doc. json_require_string doc ''build'') of
              Inl _ \<Rightarrow> lp_return ()
            | Inr build \<Rightarrow> lp_change (\<lambda>st. st\<lparr>lps_previous_build := build\<rparr>) (lp_return ())) st w3 = Some (u, st', w')"
      by (auto simp: lp_then_Some lp_world_Some)
    from fin assms(2) have "w' = w3" "lps_target st' = t" by (auto split: sum.splits)
    moreover have "get w1 (pointer_file t) = Some x" using same Some by (simp add: installed_def)
    from laws(6) [OF c this] keep(4) [OF d] have "installed get t w3 = (Some x, Some x)" by simp
    ultimately show ?thesis using Some by simp
  qed
qed

text \<open>An activation that reports success by a restart has moved the pointer to its build and kept the one before.\<close>

lemma activate_local_files:
  assumes "host_files get t host" "lps_target st = t" "activate_local host op st w = Some (Inr out, st', w')"
    and "\<not> ao_already_active out"
  shows "lps_target st' = t \<and> installed get t w' = (Some (json_dump (pointer_record op)),
    case get w (pointer_file t) of None \<Rightarrow> get w (previous_file t) | Some x \<Rightarrow> Some x)"
proof -
  note laws = host_filesD [OF assms(1)]
  note keep = host_keepsD [OF laws(1)]
  note started = lp_keepsD [OF start_lp_keeps [OF laws(1)]] and stopped = lp_keepsD [OF stop_lp_keeps [OF laws(1)]]
    and asked = lp_keepsD [OF command_lp_keeps [OF laws(1)]] and runs = lp_keepsD [OF running_lp_keeps [OF laws(1)]]
  from assms(2-4) obtain w1 act st2 w2 st3 w3 st4 w4 w5 st6 w6 where
    h1: "lht_exists host (installed_executable t (art_build (top_artifact op))) w = (True, w1)"
    and h2: "(if lps_current_build st = art_build (top_artifact op) then lp_running host else lp_return False) st w1 = Some (act, st2, w2)"
    and h3: "keep_previous host st2 w2 = Some ((), st3, w3)"
    and h4: "stop_process host st3 w3 = Some (Inr (), st4, w4)"
    and h5: "lht_write_atomic host (pointer_file t) (json_dump (pointer_record op)) w4 = (Inr (), w5)"
    and h6: "start_process host (art_build (top_artifact op)) st4 w5 = Some (Inr (), st6, w6)"
    and h7: "(if lps_drop_activate st6
              then lp_change (\<lambda>st. st\<lparr>lps_drop_activate := False\<rparr>)
                (lp_fail EC_timeout ''the activation took effect but the acknowledgement was lost'' [])
              else
                lp_try (local_command host ''hello'') (\<lambda>hello.
                lp_try (lp_return (identity_of hello)) (\<lambda>(version, observed).
                lp_state (\<lambda>st.
                  lp_return (Inr \<lparr>ao_activated = (\<not> ver_empty version), ao_already_active = False,
                    ao_restart_performed = True, ao_observed_version = version, ao_observed_build = observed,
                    ao_detail = ''restarted the control plane on build '' @ art_build (top_artifact op) @ '' (pid '' @
                      u64_to_string (psv_pid (lps_supervisor st)) @ '')''\<rparr>))))) st6 w6 = Some (Inr out, st', w')"
    unfolding activate_local_def Let_def
    by (auto simp: lp_then_Some lp_try_Some lp_world_Some fail_def split: if_splits)
  have s2: "installed get t w2 = installed get t w" "lps_target st2 = t"
    using h2 keep(3) [OF h1] runs assms(2) by (auto split: if_splits)
  from keep_previous_files [OF assms(1) s2(2) h3] s2(1) have s3: "lps_target st3 = t" "installed get t w3 =
      (get w (pointer_file t), case get w (pointer_file t) of None \<Rightarrow> get w (previous_file t) | Some x \<Rightarrow> Some x)"
    by (simp_all add: installed_def split: option.split)
  from stopped [OF h4] s3 have s4: "lps_target st4 = t" "installed get t w4 = installed get t w3" by simp_all
  from started [OF h6] laws(7) [OF h5] s3 s4 have s6: "lps_target st6 = t" "installed get t w6 =
      (Some (json_dump (pointer_record op)), case get w (pointer_file t) of None \<Rightarrow> get w (previous_file t) | Some x \<Rightarrow> Some x)"
    by (simp_all add: installed_def)
  from h7 obtain hello where "local_command host ''hello'' st6 w6 = Some (Inr hello, st', w')"
    by (auto simp: lp_try_Some fail_def split: if_splits prod.splits)
  from asked [OF this] s6 show ?thesis by simp
qed

text \<open>A rollback that reports success goes to what the previous file says, and makes it the pointer.\<close>

lemma rollback_local_files:
  assumes "host_files get t host" "lps_target st = t" "rollback_local host op st w = Some (Inr out, st', w')"
  shows "\<exists>bod doc. get w (previous_file t) = Some bod \<and> json_parse_object default_limits bod = Inr doc \<and>
    json_require_string doc ''build'' = Inr (ro_observed_build out) \<and>
    fum_try (json_require_string doc ''version'') version_parse = Inr (ro_observed_version out) \<and>
    installed get t w' = (Some bod, Some bod)"
proof -
  note laws = host_filesD [OF assms(1)]
  note keep = host_keepsD [OF laws(1)]
  note started = lp_keepsD [OF start_lp_keeps [OF laws(1)]] and stopped = lp_keepsD [OF stop_lp_keeps [OF laws(1)]]
    and asked = lp_keepsD [OF command_lp_keeps [OF laws(1)]]
  from assms(2,3) obtain w1 bod w2 doc build version_text w3 st4 w4 w5 st6 w6 hello where
    h1: "lht_exists host (previous_file t) w = (True, w1)"
    and h2: "lht_read host (previous_file t) (64 * 1024) w1 = (Inr bod, w2)"
    and doc: "json_parse_object default_limits bod = Inr doc" "json_require_string doc ''build'' = Inr build"
      "json_require_string doc ''version'' = Inr version_text"
    and h3: "lht_exists host (installed_executable t build) w2 = (True, w3)"
    and h4: "stop_process host st w3 = Some (Inr (), st4, w4)"
    and h5: "lht_write_atomic host (pointer_file t) bod w4 = (Inr (), w5)"
    and h6: "start_process host build st4 w5 = Some (Inr (), st6, w6)"
    and h7: "local_command host ''hello'' st6 w6 = Some (Inr hello, st', w')"
    and out: "version_parse version_text = Inr (ro_observed_version out)" "parse_id build = Inr (ro_observed_build out)"
    unfolding rollback_local_def Let_def
    by (auto simp: lp_then_Some lp_try_Some lp_world_Some fail_def split: if_splits)
  have s3: "installed get t w3 = installed get t w"
    using keep(3) [OF h1] keep(4) [OF h2] keep(3) [OF h3] by simp
  from stopped [OF h4] s3 have s4: "installed get t w4 = installed get t w" by simp
  from keep(3) [OF h1] laws(5) [OF h2] have bod: "get w (previous_file t) = Some bod" by (simp add: installed_def)
  from started [OF h6] asked [OF h7] laws(7) [OF h5] s4 bod have "installed get t w' = (Some bod, Some bod)"
    by (simp add: installed_def)
  moreover from out(2) have "build = ro_observed_build out" by (simp add: parse_id_iff)
  ultimately show ?thesis using bod doc out(1) by auto
qed

end
