(* ===== verification/Local_Rollback.thy ===== *)
theory Local_Rollback
  imports Local_Safety Engine_Planner
begin

text \<open>
  What an attempt to activate leaves in the files of a target, whatever its outcome, what the rollback after it
  goes back to, and what happens when an attempt that failed half way is repeated.  Last, a host on which all of it runs.
\<close>

subsection \<open>What an attempt leaves behind\<close>

text \<open>\<open>R\<close> is what an operation on the target \<open>t\<close> may do to the world; it is reflexive and transitive.\<close>

definition lp_moves :: "local_target \<Rightarrow> ('w \<Rightarrow> 'w \<Rightarrow> bool) \<Rightarrow> ('w, 'a) local_op \<Rightarrow> bool" where
  "lp_moves t R m \<longleftrightarrow> reflp R \<and> transp R \<and>
     (\<forall>st w x st' w'. lps_target st = t \<and> m st w = Some (x, st', w') \<longrightarrow> lps_target st' = t \<and> R w w')"

named_theorems move_rules "operations that move the world only as permitted"

lemma lp_movesD: "lp_moves t R m \<Longrightarrow> lps_target st = t \<Longrightarrow> m st w = Some (x, st', w') \<Longrightarrow> lps_target st' = t \<and> R w w'"
  unfolding lp_moves_def by blast

lemma lp_moves_keeps:
  assumes "lp_keeps f m" "reflp R" "transp R" "\<And>w w'. f w' = f w \<Longrightarrow> R w w'"
  shows "lp_moves t R m"
  using assms unfolding lp_moves_def lp_keeps_def by metis

lemma lp_moves_return: "reflp R \<Longrightarrow> transp R \<Longrightarrow> lp_moves t R (lp_return x)"
  unfolding lp_moves_def lp_return_def by (auto simp: reflpD)

lemma lp_moves_then [move_rules]:
  assumes m: "lp_moves t R m" and g: "\<And>x. lp_moves t R (g x)"
  shows "lp_moves t R (lp_then m g)"
  unfolding lp_moves_def
proof (intro conjI allI impI)
  show "reflp R" "transp R" using m by (simp_all add: lp_moves_def)
  fix st w x st' w' assume *: "lps_target st = t \<and> lp_then m g st w = Some (x, st', w')"
  then obtain y st1 w1 where 1: "m st w = Some (y, st1, w1)" and 2: "g y st1 w1 = Some (x, st', w')"
    by (auto simp: lp_then_Some)
  from lp_movesD [OF m _ 1] * have 3: "lps_target st1 = t" "R w w1" by simp_all
  from lp_movesD [OF g 3(1) 2] have "lps_target st' = t" "R w1 w'" by simp_all
  with 3(2) \<open>transp R\<close> show "lps_target st' = t" "R w w'" by (auto dest: transpD)
qed

lemma lp_moves_try [move_rules]:
  assumes "lp_moves t R m" "\<And>x. lp_moves t R (g x)"
  shows "lp_moves t R (lp_try m g)"
proof -
  have "lp_moves t R (lp_return (Inl e))" for e using assms(1) by (intro lp_moves_return) (simp_all add: lp_moves_def)
  then show ?thesis unfolding lp_try_def by (intro lp_moves_then [OF assms(1)]) (auto split: sum.split intro: assms(2))
qed

lemma lp_moves_at:
  assumes "\<And>st. lps_target st = t \<Longrightarrow> lp_moves t R (g st)" "reflp R" "transp R"
  shows "lp_moves t R (lp_state g)"
  using assms unfolding lp_moves_def lp_state_def by blast

lemma lp_moves_state [move_rules]:
  assumes "\<And>st. lp_moves t R (g st)"
  shows "lp_moves t R (lp_state g)"
  using assms unfolding lp_moves_def lp_state_def by blast

lemma lp_moves_change [move_rules]:
  assumes "\<And>st. lps_target (c st) = lps_target st" "lp_moves t R m"
  shows "lp_moves t R (lp_change c m)"
  using assms unfolding lp_moves_def lp_change_def by metis

lemma lp_moves_if [move_rules]: "lp_moves t R m \<Longrightarrow> lp_moves t R n \<Longrightarrow> lp_moves t R (if b then m else n)"
  by simp

text \<open>An activation moves the pointer to its build or leaves it, whatever its outcome.\<close>

definition pointer_moves :: "('w \<Rightarrow> string \<Rightarrow> string option) \<Rightarrow> local_target \<Rightarrow> string \<Rightarrow> 'w \<Rightarrow> 'w \<Rightarrow> bool" where
  "pointer_moves get t new w w' \<longleftrightarrow> get w' (pointer_file t) \<in> {get w (pointer_file t), Some new}"

lemma pointer_moves_order: "reflp (pointer_moves get t new)" "transp (pointer_moves get t new)"
  by (auto simp: pointer_moves_def reflp_def transp_def)

lemma activate_local_pointer:
  assumes "host_files get t host"
  shows "lp_moves t (pointer_moves get t (json_dump (pointer_record op))) (activate_local host op)"
proof -
  let ?R = "pointer_moves get t (json_dump (pointer_record op))"
  note laws = host_filesD [OF assms]
  note keep = host_keepsD [OF laws(1)]
  have keeps: "lp_moves t ?R m" if "lp_keeps (installed get t) m" for m :: "('a, 'b) local_op"
    by (rule lp_moves_keeps [OF that pointer_moves_order]) (simp add: pointer_moves_def installed_def)
  have there: "lp_moves t ?R (lp_world (lht_exists host p))" for p
    by (intro keeps lp_keeps_world) (rule keep(3))
  have previous: "lp_moves t ?R (keep_previous host)"
    unfolding lp_moves_def
  proof (intro conjI allI impI)
    fix st w u st' w' assume "lps_target st = t \<and> keep_previous host st w = Some (u, st', w')"
    then show "lps_target st' = t" "?R w w'"
      using keep_previous_files [OF assms, of st w u st' w'] by (simp_all add: pointer_moves_def installed_def)
  qed (rule pointer_moves_order)+
  have switch: "lp_moves t ?R (lp_world (lht_write_atomic host (pointer_file t) (json_dump (pointer_record op))))"
    unfolding lp_moves_def
  proof (intro conjI allI impI)
    fix st w u st' w'
    assume *: "lps_target st = t \<and> lp_world (lht_write_atomic host (pointer_file t) (json_dump (pointer_record op))) st w =
      Some (u, st', w')"
    then have "lht_write_atomic host (pointer_file t) (json_dump (pointer_record op)) w = (u, w')"
      by (simp add: lp_world_Some)
    from laws(8) [OF this] * show "lps_target st' = t" "?R w w'"
      by (auto simp: pointer_moves_def installed_def lp_world_Some)
  qed (rule pointer_moves_order)+
  note basic = keeps [OF running_lp_keeps [OF laws(1)]] keeps [OF start_lp_keeps [OF laws(1)]]
    keeps [OF stop_lp_keeps [OF laws(1)]] keeps [OF command_lp_keeps [OF laws(1)]]
    keeps [OF lp_keeps_return] keeps [OF lp_keeps_fail]
  have last: "lp_moves t ?R (case x of (version, observed) \<Rightarrow> lp_state (g version observed))"
    if "\<And>v b st. lp_moves t ?R (g v b st)" for x and g :: "version \<Rightarrow> string \<Rightarrow> local_state \<Rightarrow> ('a, 'b) local_op"
    using that by (auto split: prod.split intro: move_rules)
  show ?thesis
    unfolding activate_local_def Let_def
  proof (rule lp_moves_at [OF _ pointer_moves_order], goal_cases)
    case (1 st)
    show ?case unfolding 1 by (intro move_rules there previous switch basic last) simp
  qed
qed


subsection \<open>Rolling back\<close>

lemma with_local_Some:
  assumes "with_local i body a w = Some (r, a', w')" "table_get (lad_targets a) i = Some st"
  obtains st' where "body st w = Some (r, st', w')" "table_get (lad_targets a') i = Some st'"
  using assms by (auto simp: with_local_def store_table.get_put split: option.splits prod.splits)

text \<open>
  C39: a rollback undoes an activation.  On a host whose files behave (the copy that keeps the pointer included, whose
  result the code does not look at), when an activation has reported a restart on a new build and the rollback after it
  reports success, the pointer of the installed build is what it was before the activation, to the byte, and the build
  and the version the rollback reports are those this pointer names.
\<close>

theorem local_rollback_returns:
  assumes "host_files get t host" "table_get (lad_targets a) (tgt_id (top_target op)) = Some st" "lps_target st = t"
    and "get w (pointer_file t) = Some before"
    and "local_activate host op a w = Some (Inr out, a1, w1)" "\<not> ao_already_active out"
    and "tgt_id (top_target back_op) = tgt_id (top_target op)" "local_rollback host back_op a1 w1 = Some (Inr r, a2, w2)"
  shows "get w2 (pointer_file t) = Some before \<and>
    (\<exists>doc. json_parse_object default_limits before = Inr doc \<and> json_require_string doc ''build'' = Inr (ro_observed_build r) \<and>
      fum_try (json_require_string doc ''version'') version_parse = Inr (ro_observed_version r))"
proof -
  from assms(5,2) obtain st1 where act: "activate_local host op st w = Some (Inr out, st1, w1)"
    and st1: "table_get (lad_targets a1) (tgt_id (top_target op)) = Some st1"
    unfolding local_activate_def by (rule with_local_Some)
  from assms(8) st1 obtain st2 where undo: "rollback_local host back_op st1 w1 = Some (Inr r, st2, w2)"
    unfolding local_rollback_def assms(7) by (rule with_local_Some)
  from activate_local_files [OF assms(1,3) act assms(6)] assms(4)
  have "lps_target st1 = t" "get w1 (previous_file t) = Some before" by (simp_all add: installed_def)
  with rollback_local_files [OF assms(1) _ undo] show ?thesis by (auto simp: installed_def)
qed

text \<open>
  C40: a repeated activation defeats the rollback.  When a first attempt failed after it had switched the
  pointer, the attempt that follows and succeeds keeps the pointer of the new build as the previous one: the
  rollback that then reports success has put the new build in place again and reports it as the one restored, and neither
  of the two files names the build before the upgrade any more.
\<close>

theorem retried_activation_defeats_rollback:
  assumes "host_files get t host" "table_get (lad_targets a) (tgt_id (top_target op)) = Some st" "lps_target st = t"
    and "local_activate host op a w = Some (Inl e, a1, w1)" "get w1 (pointer_file t) \<noteq> get w (pointer_file t)"
    and "local_activate host op a1 w1 = Some (Inr out, a2, w2)" "\<not> ao_already_active out"
    and "tgt_id (top_target back_op) = tgt_id (top_target op)" "local_rollback host back_op a2 w2 = Some (Inr r, a3, w3)"
    and "json_within default_limits (pointer_record op)" "length (json_dump (pointer_record op)) \<le> lim_input_bytes default_limits"
  shows "ro_observed_build r = art_build (top_artifact op) \<and>
    get w3 (pointer_file t) = Some (json_dump (pointer_record op)) \<and> get w3 (previous_file t) = get w3 (pointer_file t)"
proof -
  let ?new = "json_dump (pointer_record op)"
  from assms(4,2) obtain st1 where one: "activate_local host op st w = Some (Inl e, st1, w1)"
    and st1: "table_get (lad_targets a1) (tgt_id (top_target op)) = Some st1"
    unfolding local_activate_def by (rule with_local_Some)
  from assms(6) st1 obtain st2 where two: "activate_local host op st1 w1 = Some (Inr out, st2, w2)"
    and st2: "table_get (lad_targets a2) (tgt_id (top_target op)) = Some st2"
    unfolding local_activate_def by (rule with_local_Some)
  from assms(9) st2 obtain st3 where undo: "rollback_local host back_op st2 w2 = Some (Inr r, st3, w3)"
    unfolding local_rollback_def assms(8) by (rule with_local_Some)
  from lp_movesD [OF activate_local_pointer [OF assms(1)] assms(3) one] assms(5)
  have 1: "lps_target st1 = t" "get w1 (pointer_file t) = Some ?new" by (auto simp: pointer_moves_def)
  from activate_local_files [OF assms(1) 1(1) two assms(7)] 1(2)
  have 2: "lps_target st2 = t" "get w2 (previous_file t) = Some ?new" by (simp_all add: installed_def)
  from rollback_local_files [OF assms(1) 2(1) undo] 2(2) obtain doc where
    doc: "json_parse_object default_limits ?new = Inr doc" "json_require_string doc ''build'' = Inr (ro_observed_build r)"
      "installed get t w3 = (Some ?new, Some ?new)" by auto
  from json_parse_dump_at [OF assms(10), of 0] assms(11)
  have "json_parse default_limits ?new = Inr (json_norm (pointer_record op))" by (simp add: json_dump_def)
  with doc(1) have "doc = json_norm (pointer_record op)" by (auto simp: json_parse_object_def fail_def split: if_splits)
  with doc(2) have "ro_observed_build r = art_build (top_artifact op)"
    by (simp add: pointer_record_def Let_def codec_simps)
  with doc(3) show ?thesis by (simp add: installed_def)
qed

subsection \<open>The readiness line\<close>

lemma ready_line_numbers:
  "stoull (dec_digits (unat port)) = Some (ucast (port :: u16))" "stoull (u64_to_string i) = Some i"
proof -
  have "unat port < 2 ^ 16" using unsigned_less [of port] by simp
  then show "stoull (dec_digits (unat port)) = Some (ucast port)" by (subst stoull_digits) simp_all
  show "stoull (u64_to_string i) = Some i"
    unfolding u64_to_string_def using unsigned_less [of i] by (subst stoull_digits) simp_all
qed

lemma parse_ready_line_text:
  assumes "port \<noteq> 0"
  shows "parse_ready_line (ready_line port i) = Inr (port, i)"
proof -
  let ?p = "dec_digits (unat port)"
  have no: "CHR '' '' \<notin> set ?p" using dec_digits_all_digits [of "unat port"] by (auto simp: is_digit_def less_eq_char_def)
  have first: "str_find (ready_line port i) (CHR '' '') 0 = Some 5"
    by (simp add: str_find_def ready_line_def)
  have "str_find (ready_line port i) (CHR '' '') 6 = map_option ((+) 6) (index_of (CHR '' '') (?p @ CHR '' '' # u64_to_string i))"
    by (simp add: str_find_def ready_line_def)
  then have second: "str_find (ready_line port i) (CHR '' '') 6 = Some (6 + length ?p)" by (simp add: index_of_append [OF no])
  have "substr (ready_line port i) 6 (length ?p) = ?p" "drop (6 + length ?p + 1) (ready_line port i) = u64_to_string i"
    by (simp_all add: substr_def ready_line_def numeral_eq_Suc)
  moreover have "ucast port \<noteq> (0 :: u64)" "\<not> (ucast port :: u64) > 65535"
  proof -
    have small: "unat port < 2 ^ 16" using unsigned_less [of port] by simp
    then have u: "unat (ucast port :: u64) = unat port" by (simp add: unsigned_ucast_eq take_bit_nat_eq_self)
    then show "ucast port \<noteq> (0 :: u64)" using assms by (metis unat_eq_zero)
    show "\<not> (ucast port :: u64) > 65535" using small by (simp add: word_less_nat_alt u)
  qed
  moreover have "ucast (ucast port :: u64) = port"
    by (rule bit_word_eqI) (auto simp: bit_simps dest: bit_imp_le_length)
  ultimately show ?thesis by (simp add: parse_ready_line_def first second ready_line_numbers Let_def)
qed

subsection \<open>A host\<close>

text \<open>
  The world of the samples: the pointer, the file before it, the bytes on their way to the adapter, and which
  of the next process creations succeed.  Every command is answered with the same document, every process that is
  created reports readiness at once, and it ends when it is waited for.
\<close>

type_synonym sample_world = "string option \<times> string option \<times> string \<times> bool list"

definition build_doc :: "string \<Rightarrow> json" where
  "build_doc build = json_build [(''ok'', JBool True), (''version'', JString ''1.2.0''), (''build'', JString build)]"

definition sample_answer :: string where
  "sample_answer = json_dump (build_doc ''build-2'')"

definition sample_before :: string where
  "sample_before = json_dump (build_doc ''build-1'')"

definition sample_sockets :: "sample_world socket_calls" where
  "sample_sockets =
     \<lparr>skc_runtime = ok_status, skc_socket = (\<lambda>w. (3, w)), skc_connect = (\<lambda>h port w. (True, w)),
      skc_bind = (\<lambda>h port w. (True, w)), skc_listen = (\<lambda>h w. (True, w)), skc_sockname = (\<lambda>h w. (Some 4000, w)),
      skc_accept = (\<lambda>h w. (4, w)),
      skc_send = (\<lambda>h d (p, q, s, c). (int (length d), (p, q, encode_frame sample_answer, c))),
      skc_recv = (\<lambda>h n (p, q, s, c). (Some (take n s), (p, q, drop n s, c))), skc_close = (\<lambda>h w. w)\<rparr>"

definition sample_child :: "sample_world process_calls" where
  "sample_child =
     \<lparr>prc_pipe = (\<lambda>w. (Some (5, 6), w)), prc_inherit = (\<lambda>h w. (True, w)),
      prc_create = (\<lambda>l d h (p, q, s, c). (if c \<noteq> [] \<and> hd c then Some (77, 3, 4) else None, (p, q, s, tl c))),
      prc_last_error = (\<lambda>w. ''0''), prc_close = (\<lambda>h w. w), prc_peek = (\<lambda>h w. (Some 15, w)),
      prc_read = (\<lambda>h n w. (Some (''READY 4000 9'' @ [line_end]), w)), prc_signalled = (\<lambda>h m w. (m \<noteq> None, w)),
      prc_exit_code = (\<lambda>h w. (0, w)), prc_terminate = (\<lambda>h w. (True, w)), prc_clock = (\<lambda>w. (0, w)),
      prc_sleep = (\<lambda>w. w)\<rparr>"

definition pick_file :: "string \<Rightarrow> sample_world \<Rightarrow> string option" where
  "pick_file path w =
     (if path = ''r/current.json'' then fst w else if path = ''r/previous.json'' then fst (snd w) else Some [])"

definition sample_host :: "sample_world local_host" where
  "sample_host =
     \<lparr>lht_sockets = sample_sockets, lht_processes = sample_child, lht_exists = (\<lambda>p w. (pick_file p w \<noteq> None, w)),
      lht_read = (\<lambda>p n w. (case pick_file p w of None \<Rightarrow> fail EC_not_found [] [] | Some x \<Rightarrow> Inr x, w)),
      lht_ensure_directory = (\<lambda>p w. (ok_status, w)), lht_copy = (\<lambda>x y (p, q, r). (ok_status, (p, p, r))),
      lht_write_atomic = (\<lambda>path x (p, q, r). (ok_status, (Some x, q, r))),
      lht_artifact_file = (\<lambda>p w. ((Inr 0, Some []), w))\<rparr>"

definition sample_local :: local_target where
  "sample_local =
     \<lparr>lpt_id = ''a1'', lpt_component = ''svc'', lpt_display_name = ''a1'', lpt_version = make_version 1 1 0 [],
      lpt_build = ''build-1'', lpt_platform = ''linux'', lpt_capabilities = [], lpt_authority = ''ops'', lpt_root = ''r'',
      lpt_healthy = True, lpt_generation_capable = False, lpt_redundancy_group = []\<rparr>"

definition sample_adapter :: local_adapter where
  "sample_adapter = local_add_target sample_local (new_local_adapter ''local'' default_local_options)"

definition sample_upgrade :: target_operation where
  "sample_upgrade =
     \<lparr>top_fence = \<lparr>fen_campaign = ''camp'', fen_generation = 1, fen_incarnation = 1, fen_attempt = ''at'', fen_authority = ''ops''\<rparr>,
      top_key = \<lparr>opk_campaign = ''camp'', opk_generation = 1, opk_stage = ''stage'', opk_target = ''a1'', opk_operation = ''activate'', opk_index = 0\<rparr>,
      top_target = sample_target ''a1'' [], top_artifact = sample_artifact, top_payload_path = [], top_strategy = SK_in_place,
      top_now = 0, top_epoch = 1, top_retry = False\<rparr>"

lemma sample_paths [simp]:
  "pointer_file sample_local = ''r/current.json''" "previous_file sample_local = ''r/previous.json''"
  by (simp_all add: pointer_file_def previous_file_def sample_local_def fs_join_def)

lemma sample_socket_calls [simp]:
  "skc_runtime sample_sockets = ok_status" "skc_socket sample_sockets w = (3, w)" "skc_connect sample_sockets h port w = (True, w)"
  "skc_send sample_sockets h d (p, q, s, c) = (int (length d), (p, q, encode_frame sample_answer, c))"
  "skc_recv sample_sockets h n (p, q, s, c) = (Some (take n s), (p, q, drop n s, c))" "skc_close sample_sockets h w = w"
  by (simp_all add: sample_sockets_def)

lemma sample_child_calls [simp]:
  "prc_pipe sample_child w = (Some (5, 6), w)" "prc_inherit sample_child h w = (True, w)"
  "prc_create sample_child l d h (p, q, s, x # c) = (if x then Some (77, 3, 4) else None, (p, q, s, c))"
  "prc_close sample_child h w = w" "prc_peek sample_child h w = (Some 15, w)"
  "prc_read sample_child h n w = (Some (''READY 4000 9'' @ [line_end]), w)" "prc_signalled sample_child h m w = (m \<noteq> None, w)"
  "prc_exit_code sample_child h w = (0, w)" "prc_clock sample_child w = (0, w)"
  by (simp_all add: sample_child_def)

lemma sample_host_calls [simp]:
  "lht_sockets sample_host = sample_sockets" "lht_processes sample_host = sample_child"
  "lht_exists sample_host p w = (pick_file p w \<noteq> None, w)"
  "lht_read sample_host p n w = (case pick_file p w of None \<Rightarrow> fail EC_not_found [] [] | Some x \<Rightarrow> Inr x, w)"
  "lht_ensure_directory sample_host p w = (ok_status, w)" "lht_copy sample_host x y (a, b, r) = (ok_status, (a, a, r))"
  "lht_write_atomic sample_host path z (a, b, r) = (ok_status, (Some z, b, r))"
  by (simp_all add: sample_host_def)

lemma sample_files [simp]:
  "pick_file ''r/current.json'' w = fst w" "pick_file ''r/previous.json'' w = fst (snd w)"
  "pick_file (installed_executable sample_local b) w = Some []"
proof -
  have "last (installed_executable sample_local b) = CHR ''e''" by (simp add: installed_executable_def fs_join_def)
  then have "installed_executable sample_local b \<noteq> ''r/current.json''" "installed_executable sample_local b \<noteq> ''r/previous.json''"
    by auto
  then show "pick_file (installed_executable sample_local b) w = Some []" by (simp add: pick_file_def)
qed (simp_all add: pick_file_def)

lemma sample_host_files: "host_files (\<lambda>w p. pick_file p w) sample_local sample_host"
proof -
  have "host_keeps (installed (\<lambda>w p. pick_file p w) sample_local) sample_host"
    by (auto simp: host_keeps_def sockets_keep_def processes_keep_def installed_def sample_host_def sample_sockets_def
        sample_child_def pick_file_def)
  then show ?thesis
    by (auto simp: host_files_def sample_host_def pick_file_def installed_def fail_def split: option.splits)
qed

lemma build_doc_parse:
  assumes "b \<in> {''build-1'', ''build-2''}"
  shows "json_parse_object default_limits (json_dump (build_doc b)) = Inr (json_norm (build_doc b))"
proof -
  have "json_within default_limits (build_doc b)" 
    using assms by (auto simp: json_within_def build_doc_def json_build_eq default_limits_def)
  moreover have "length (json_dump (build_doc b)) \<le> 100" using assms by (elim insertE emptyE; simp only:; code_simp)
  ultimately have "json_parse default_limits (json_dump (build_doc b)) = Inr (json_norm (build_doc b))"
    using json_parse_dump_at [of default_limits "build_doc b" 0] by (simp add: json_dump_def default_limits_def)
  then show ?thesis by (simp add: json_parse_object_def build_doc_def)
qed



lemma sample_answer_parse: "json_parse default_limits sample_answer = Inr (json_norm (build_doc ''build-2''))"
  using build_doc_parse [of "''build-2''"]
  by (auto simp: json_parse_object_def sample_answer_def fum_try_Inr_iff fail_def split: if_splits)

lemma sample_answer_length: "length sample_answer \<le> 100"
  unfolding sample_answer_def by code_simp

abbreviation sample_stream :: "sample_world \<Rightarrow> string" where
  "sample_stream w \<equiv> fst (snd (snd w))"

lemma sample_delivers: "delivers sample_sockets h sample_stream"
  by (auto simp: delivers_def sample_sockets_def)

lemma sample_receive:
  "receive_message sample_sockets \<lparr>tcn_handle = 3\<rparr> max_frame_bytes (p, q, encode_frame sample_answer, c) =
     (Inr sample_answer, \<lparr>tcn_handle = 3\<rparr>, (p, q, [], c))"
proof -
  let ?w = "(p, q, encode_frame sample_answer, c)"
  obtain r d w' where got: "receive_message sample_sockets \<lparr>tcn_handle = 3\<rparr> max_frame_bytes ?w = (r, d, w')"
    by (rule prod_cases3)
  have small: "length sample_answer \<le> unat (min max_frame_bytes max_frame_bytes)"
    using sample_answer_length by (simp add: max_frame_bytes_def)
  note fields = framed_fields(1,2) [OF small, where rest = "[]", simplified] framed_fields(3,4) [OF small, simplified]
  have "take (length sample_answer) (drop 8 (encode_frame sample_answer)) = sample_answer"
    "length (drop 8 (encode_frame sample_answer)) = length sample_answer" by (simp_all add: encode_frame_def)
  with receive_message_spec [OF sample_delivers _ got] fields
  have *: "r = Inr sample_answer" "d = \<lparr>tcn_handle = 3\<rparr>" "sample_stream w' = []" by simp_all
  have "sockets_keep (\<lambda>(p, q, s, c). (p, q, c)) sample_sockets" by (simp add: sockets_keep_def sample_sockets_def split_beta)
  from receive_keeps [OF got this] have "(case w' of (p, q, s, c) \<Rightarrow> (p, q, c)) = (p, q, c)" by simp
  with * got show ?thesis by (cases w') auto
qed

lemma sample_exchange:
  assumes "length (json_dump request) \<le> 2000"
  shows "exchange sample_sockets port request (p, q, s, c) = (Inr (json_norm (build_doc ''build-2'')), (p, q, [], c))"
proof -
  let ?f = "encode_frame (json_dump request)"
  have ne: "?f \<noteq> []" by (metis add_is_0 length_encode_frame list.size(3) zero_neq_numeral)
  have "length ?f \<le> 2 ^ 20" using assms by simp
  with ne have "send_all sample_sockets 3 ?f (p, q, s, c) = (ok_status, (p, q, encode_frame sample_answer, c))"
    by (simp add: send_all.simps [of _ _ ?f] send_all.simps [of _ _ "[]"] del: length_encode_frame)
  with assms have "send_message sample_sockets \<lparr>tcn_handle = 3\<rparr> (json_dump request) (p, q, s, c) =
      (ok_status, (p, q, encode_frame sample_answer, c))" by (simp add: send_message_def max_frame_bytes_def)
  then show ?thesis
    by (simp add: exchange_def connect_loopback_def send_command_def sample_receive sample_answer_parse
        connection_close_def close_handle_def)
qed

definition up :: "u64 \<Rightarrow> local_state \<Rightarrow> bool" where
  "up n st \<longleftrightarrow> lps_target st = sample_local \<and> lps_options st = default_local_options \<and> \<not> lps_drop_activate st \<and> lps_sequence st = n \<and>
     lps_port st = 4000 \<and> lps_incarnation st = 9 \<and> psv_process (lps_supervisor st) = Some 3 \<and>
     psv_pid (lps_supervisor st) = 77 \<and> \<not> psv_exited (lps_supervisor st)"

definition down :: "u64 \<Rightarrow> local_state \<Rightarrow> bool" where
  "down n st \<longleftrightarrow> lps_target st = sample_local \<and> lps_options st = default_local_options \<and> \<not> lps_drop_activate st \<and> lps_sequence st = n \<and>
     psv_process (lps_supervisor st) = None \<and> psv_pid (lps_supervisor st) = 0"

lemma sample_running:
  "up n st \<Longrightarrow> lp_running sample_host st w = Some (True, st, w)"
  "down n st \<Longrightarrow> lp_running sample_host st w = Some (False, st, w)"
  by (simp_all add: up_def down_def lp_running_def lp_supervised_def supervisor_running_def)

lemma request_length:
  assumes "n \<in> {0, 1, 2}" "command \<in> {''hello'', ''shutdown''}"
  shows "length (json_dump (make_request command n 9 (lop_token default_local_options))) \<le> 2000"
  using assms by (elim insertE emptyE; simp only:; code_simp)

lemma sample_command:
  assumes "up n st" "n \<in> {0, 1, 2}" "command \<in> {''hello'', ''shutdown''}"
  shows "\<exists>st'. local_command sample_host command st (p, q, s, c) =
    Some (Inr (json_norm (build_doc ''build-2'')), st', (p, q, [], c)) \<and> up (n + 1) st'"
proof -
  have nxt: "counter_try_next n = Inr (n + 1)" using assms(2) by (auto simp: counter_try_next_def fail_def)
  have ok: "judge_response command (json_norm (build_doc ''build-2'')) = Inr (json_norm (build_doc ''build-2''))"
    by (simp add: judge_response_def build_doc_def json_build_eq)
  from sample_exchange [OF request_length [OF assms(2,3)]] assms(1) ok nxt show ?thesis
    by (simp add: local_command_def ensure_link_def lp_try_def lp_then_def sample_running(1) [OF assms(1)] lp_world_def) (simp add: up_def)
qed


lemma sample_start:
  assumes "lps_target st = sample_local" "lps_options st = default_local_options" "\<not> lps_drop_activate st"
  shows "\<exists>st'. start_process sample_host b st (p, q, s, True # c) = Some (ok_status, st', (p, q, s, c)) \<and> up (lps_sequence st) st'"
    "\<exists>e st'. start_process sample_host b st (p, q, s, False # c) = Some (Inl e, st', (p, q, s, c)) \<and> down (lps_sequence st) st'"
proof -
  have scan: "scan_lines ''READY'' (''READY 4000 9'' @ [line_end]) [] = RS_ready ''READY 4000 9'' []"
    by (simp add: scan_lines.simps line_end_def strip_line_def)
  have "ready_line 4000 9 = ''READY 4000 9''" by (simp add: ready_line_def u64_to_string_def dec_digits.simps) code_simp
  with parse_ready_line_text [of 4000 9] have ready: "parse_ready_line ''READY 4000 9'' = Inr (4000, 9)" by simp
  have wait: "await_loop sample_child r 0 5 3 [] [] v w =
      Some (Inr \<lparr>stp_pid = psv_pid v, stp_ready_line = ''READY 4000 9'', stp_trailing = []\<rparr>,
        v\<lparr>psv_captured := psv_captured v @ ''READY 4000 9'' @ [line_end]\<rparr>, w)"
    if "srq_ready_prefix r = ''READY''" for r v w
    by (subst await_loop.simps) (simp add: poll_output_def that scan [simplified] Let_def)
  let ?v = "\<lparr>psv_pid = 77, psv_process = Some 3, psv_thread = Some 4, psv_read = Some 5, psv_exit_code = -1, psv_exited = False,
      psv_captured = []\<rparr>"
  have born: "supervisor_start sample_child r v (p, q, s, True # c) = (ok_status, ?v, (p, q, s, c))" for r v
    by (cases v) (simp add: supervisor_start_def close_handles_def Let_def split: option.split)
  have stillborn: "\<exists>e. supervisor_start sample_child r v (p, q, s, False # c) =
      (Inl e, ?v\<lparr>psv_pid := 0, psv_process := None, psv_thread := None, psv_read := None\<rparr>, (p, q, s, c))" for r v
    by (cases v) (simp add: supervisor_start_def close_handles_def Let_def fail_def split: option.split)
  note steps = start_process_def Let_def lp_then_def lp_try_def lp_world_def lp_supervised_def lp_waiting_def
  show "\<exists>st'. start_process sample_host b st (p, q, s, True # c) = Some (ok_status, st', (p, q, s, c)) \<and> up (lps_sequence st) st'"
    using assms by (simp add: steps born await_ready_def wait ready up_def)
  show "\<exists>e st'. start_process sample_host b st (p, q, s, False # c) = Some (Inl e, st', (p, q, s, c)) \<and> down (lps_sequence st) st'"
  proof -
    define r where "r = \<lparr>srq_executable = installed_executable sample_local b,
           srq_arguments = [''--state'', fs_join ''r'' ''state'', ''--port'', ''0'', ''--token'', lop_token default_local_options,
             ''--target'', ''a1''],
           srq_working_directory = slots_directory sample_local b, srq_ready_prefix = ''READY'',
           srq_readiness_bound = lop_readiness_bound default_local_options\<rparr>"
    from stillborn [of r "lps_supervisor st"] obtain e where "supervisor_start sample_child r (lps_supervisor st) (p, q, s, False # c) =
      (Inl e, ?v\<lparr>psv_pid := 0, psv_process := None, psv_thread := None, psv_read := None\<rparr>, (p, q, s, c))" by blast
    moreover have "lpt_root sample_local = ''r''" "lpt_id sample_local = ''a1''" by (simp_all add: sample_local_def)
    ultimately show ?thesis using assms by (simp add: steps r_def down_def)
  qed
qed

lemma sample_stop:
  "down n st \<Longrightarrow> \<exists>st'. stop_process sample_host st w = Some (ok_status, st', w) \<and> down n st'"
  "up n st \<Longrightarrow> n \<in> {0, 1, 2} \<Longrightarrow> \<exists>st'. stop_process sample_host st (p, q, s, c) = Some (ok_status, st', (p, q, [], c)) \<and>
     lps_target st' = sample_local \<and> lps_options st' = default_local_options \<and> \<not> lps_drop_activate st' \<and> lps_sequence st' = n + 1"
proof -
  assume "down n st"
  then show "\<exists>st'. stop_process sample_host st w = Some (ok_status, st', w) \<and> down n st'"
    by (simp add: stop_process_def lp_then_def sample_running(2)) (simp add: down_def)
next
  assume st: "up n st" "n \<in> {0, 1, 2}"
  from sample_command [OF st, of "''shutdown''" p q s c] obtain st1 where
    1: "local_command sample_host ''shutdown'' st (p, q, s, c) = Some (Inr (json_norm (build_doc ''build-2'')), st1, (p, q, [], c))"
      "up (n + 1) st1" by auto
  then show "\<exists>st'. stop_process sample_host st (p, q, s, c) = Some (ok_status, st', (p, q, [], c)) \<and>
     lps_target st' = sample_local \<and> lps_options st' = default_local_options \<and> \<not> lps_drop_activate st' \<and> lps_sequence st' = n + 1"
    by (simp add: stop_process_def lp_then_def sample_running(1) [OF st(1)] lp_supervised_def supervisor_stop_def supervisor_running_def
        note_exit_def up_def)
qed


lemma sample_keep:
  assumes "down n st"
  shows "\<exists>st'. keep_previous sample_host st (Some x, q, s, c) = Some ((), st', (Some x, Some x, s, c)) \<and> down n st'"
proof -
  have "lps_target st = sample_local" using assms by (simp add: down_def)
  then show ?thesis using assms
    by (simp add: keep_previous_def Let_def lp_then_def lp_world_def down_def split: sum.split)
qed

lemma sample_identity:
  assumes "b \<in> {''build-1'', ''build-2''}"
  shows "identity_of (json_norm (build_doc b)) = Inr (make_version 1 2 0 [], b)"
    "json_require_string (build_doc b) ''version'' = Inr ''1.2.0''"
    "json_require_string (build_doc b) ''build'' = Inr b" "version_parse ''1.2.0'' = Inr (make_version 1 2 0 [])" "valid_id b"
proof -
  show v: "version_parse ''1.2.0'' = Inr (make_version 1 2 0 [])"
  proof -
    have t: "version_text_of 1 2 0 [] = ''1.2.0''" by code_simp
    have "version_parse (version_text_of 1 2 0 []) = Inr (make_version 1 2 0 [])" by (rule version_parse_render) (simp_all add: t)
    then show ?thesis by (simp only: t)
  qed
  show i: "valid_id b" using assms by (elim insertE emptyE; simp only:; code_simp)
  show "json_require_string (build_doc b) ''version'' = Inr ''1.2.0''" "json_require_string (build_doc b) ''build'' = Inr b"
    by (simp_all add: build_doc_def codec_simps)
  then show "identity_of (json_norm (build_doc b)) = Inr (make_version 1 2 0 [], b)"
    by (simp add: identity_of_def v i)
qed

definition sample_pointer :: string where
  "sample_pointer = json_dump (pointer_record sample_upgrade)"

lemma sample_activate:
  assumes "down n st" "n \<in> {0, 1}"
  shows "\<exists>out st'. activate_local sample_host sample_upgrade st (Some x, q, s, True # c) =
      Some (Inr out, st', (Some sample_pointer, Some x, [], c)) \<and> \<not> ao_already_active out \<and> up (n + 1) st'"
    "\<exists>e st'. activate_local sample_host sample_upgrade st (Some x, q, s, False # c) =
      Some (Inl e, st', (Some sample_pointer, Some x, s, c)) \<and> down n st'"
proof -
  have build: "art_build (top_artifact sample_upgrade) = ''build-2''" by (simp add: sample_upgrade_def sample_artifact_def)
  have target: "lps_target st = sample_local" using assms(1) by (simp add: down_def)
  show "\<exists>out st'. activate_local sample_host sample_upgrade st (Some x, q, s, True # c) =
      Some (Inr out, st', (Some sample_pointer, Some x, [], c)) \<and> \<not> ao_already_active out \<and> up (n + 1) st'"
  proof -
    from sample_keep [OF assms(1)] obtain st1 where
      1: "keep_previous sample_host st (Some x, q, s, True # c) = Some ((), st1, (Some x, Some x, s, True # c))" "down n st1" by blast
    from sample_stop(1) [OF 1(2)] obtain st2 where
      2: "stop_process sample_host st1 (Some x, Some x, s, True # c) = Some (ok_status, st2, (Some x, Some x, s, True # c))"
        "down n st2" by blast
    then have "lps_target st2 = sample_local" "lps_options st2 = default_local_options" "\<not> lps_drop_activate st2" "lps_sequence st2 = n"
      by (simp_all add: down_def)
    from sample_start(1) [OF this(1-3)] this(4) obtain st3 where
      3: "start_process sample_host ''build-2'' st2 (Some sample_pointer, Some x, s, True # c) =
        Some (ok_status, st3, (Some sample_pointer, Some x, s, c))" "up n st3" by blast
    from sample_command [OF 3(2), of "''hello''"] assms(2) obtain st4 where
      4: "local_command sample_host ''hello'' st3 (Some sample_pointer, Some x, s, c) =
        Some (Inr (json_norm (build_doc ''build-2'')), st4, (Some sample_pointer, Some x, [], c))" "up (n + 1) st4" by blast
    have "\<not> lps_drop_activate st3" using 3(2) by (simp add: up_def)
    with 1 2 3 4 build target show ?thesis
      by (simp add: activate_local_def Let_def lp_then_def lp_try_def lp_world_def sample_running(2) [OF assms(1)] sample_identity
          sample_pointer_def [symmetric])
  qed
  show "\<exists>e st'. activate_local sample_host sample_upgrade st (Some x, q, s, False # c) =
      Some (Inl e, st', (Some sample_pointer, Some x, s, c)) \<and> down n st'"
  proof -
    from sample_keep [OF assms(1)] obtain st1 where
      1: "keep_previous sample_host st (Some x, q, s, False # c) = Some ((), st1, (Some x, Some x, s, False # c))" "down n st1" by blast
    from sample_stop(1) [OF 1(2)] obtain st2 where
      2: "stop_process sample_host st1 (Some x, Some x, s, False # c) = Some (ok_status, st2, (Some x, Some x, s, False # c))"
        "down n st2" by blast
    then have "lps_target st2 = sample_local" "lps_options st2 = default_local_options" "\<not> lps_drop_activate st2" "lps_sequence st2 = n"
      by (simp_all add: down_def)
    from sample_start(2) [OF this(1-3)] this(4) obtain e st3 where
      3: "start_process sample_host ''build-2'' st2 (Some sample_pointer, Some x, s, False # c) =
        Some (Inl e, st3, (Some sample_pointer, Some x, s, c))" "down n st3" by blast
    with 1 2 build target show ?thesis
      by (simp add: activate_local_def Let_def lp_then_def lp_try_def lp_world_def sample_running(2) [OF assms(1)]
          sample_pointer_def [symmetric])
  qed
qed


lemma sample_rollback:
  assumes "up n st" "n \<in> {0, 1}" "json_parse_object default_limits old = Inr doc"
    and "json_require_string doc ''build'' = Inr b" "json_require_string doc ''version'' = Inr ''1.2.0''"
    and "b \<in> {''build-1'', ''build-2''}"
  shows "\<exists>out st'. rollback_local sample_host op st (p, Some old, s, True # c) = Some (Inr out, st', (Some old, Some old, [], c))"
proof -
  note id = sample_identity [OF assms(6)]
  have target: "lps_target st = sample_local" using assms(1) by (simp add: up_def)
  from sample_stop(2) [OF assms(1)] assms(2) obtain st1 where
    1: "stop_process sample_host st (p, Some old, s, True # c) = Some (ok_status, st1, (p, Some old, [], True # c))"
      "lps_target st1 = sample_local" "lps_options st1 = default_local_options" "\<not> lps_drop_activate st1"
      "lps_sequence st1 = n + 1" by blast
  from sample_start(1) [OF 1(2-4)] 1(5) obtain st2 where
    2: "start_process sample_host b st1 (Some old, Some old, [], True # c) = Some (ok_status, st2, (Some old, Some old, [], c))"
      "up (n + 1) st2" by metis
  have "n + 1 \<in> {0, 1, 2}" using assms(2) by auto
  with sample_command [OF 2(2), of "''hello''" "Some old" "Some old" "[]" c] obtain st3 where
    3: "local_command sample_host ''hello'' st2 (Some old, Some old, [], c) =
      Some (Inr (json_norm (build_doc ''build-2'')), st3, (Some old, Some old, [], c))" by blast
  from 1(1) 2 3 assms(3-5) target id(4,5) show ?thesis
    by (simp add: rollback_local_def Let_def lp_then_def lp_try_def lp_world_def)
qed

lemma sample_start_state:
  "table_get (lad_targets sample_adapter) ''a1'' = Some (new_local_state default_local_options sample_local)"
  "down 0 (new_local_state default_local_options sample_local)"
  by (simp_all add: sample_adapter_def local_add_target_def new_local_adapter_def store_table.get_put down_def
      new_local_state_def new_supervisor_def) (simp add: sample_local_def)

lemma sample_upgrade_target [simp]: "tgt_id (top_target sample_upgrade) = ''a1''"
  by (simp add: sample_upgrade_def sample_target_def)

theorem local_rollback_returns_witness:
  "\<exists>a2 w2 r. (case local_activate sample_host sample_upgrade sample_adapter (Some sample_before, None, [], [True, True]) of
       None \<Rightarrow> None | Some (x, a, w) \<Rightarrow> local_rollback sample_host sample_upgrade a w) = Some (Inr r, a2, w2) \<and>
     fst w2 = Some sample_before \<and> ro_observed_build r = ''build-1''"
proof -
  let ?st = "new_local_state default_local_options sample_local" and ?w = "(Some sample_before, None, [], [True, True])"
  from sample_activate(1) [OF sample_start_state(2), of sample_before None "[]" "[True]"] obtain out st1 where
    1: "activate_local sample_host sample_upgrade ?st ?w = Some (Inr out, st1, (Some sample_pointer, Some sample_before, [], [True]))"
      "\<not> ao_already_active out" "up 1 st1" by auto
  have doc: "json_parse_object default_limits sample_before = Inr (json_norm (build_doc ''build-1''))"
    unfolding sample_before_def by (rule build_doc_parse) simp
  from sample_rollback [OF 1(3) _ doc, of "''build-1''" sample_upgrade "Some sample_pointer" "[]" "[]"] sample_identity(2,3) [of "''build-1''"]
  obtain r st2 where 2: "rollback_local sample_host sample_upgrade st1 (Some sample_pointer, Some sample_before, [], [True]) =
      Some (Inr r, st2, (Some sample_before, Some sample_before, [], []))" by auto
  let ?a1 = "sample_adapter\<lparr>lad_targets := table_put (lad_targets sample_adapter) ''a1'' st1\<rparr>"
  have act: "local_activate sample_host sample_upgrade sample_adapter ?w =
      Some (Inr out, ?a1, (Some sample_pointer, Some sample_before, [], [True]))"
    using sample_start_state(1) 1(1) by (simp add: local_activate_def with_local_def)
  have "table_get (lad_targets ?a1) ''a1'' = Some st1" by (simp add: store_table.get_put)
  with 2 obtain a2 where undo:
    "local_rollback sample_host sample_upgrade ?a1 (Some sample_pointer, Some sample_before, [], [True]) =
      Some (Inr r, a2, (Some sample_before, Some sample_before, [], []))"
    by (simp add: local_rollback_def with_local_def)
  have get: "table_get (lad_targets sample_adapter) (tgt_id (top_target sample_upgrade)) = Some ?st" "lps_target ?st = sample_local"
    using sample_start_state(1) by (simp_all add: new_local_state_def)
  from local_rollback_returns [OF sample_host_files get _ act 1(2) refl undo] doc sample_identity(3) [of "''build-1''"]
  have "ro_observed_build r = ''build-1''" by simp
  with act undo show ?thesis by simp
qed


lemma sample_pointer_parse:
  "json_within default_limits (pointer_record sample_upgrade)" "length sample_pointer \<le> lim_input_bytes default_limits"
  "json_parse_object default_limits sample_pointer = Inr (json_norm (pointer_record sample_upgrade))"
  "json_require_string (pointer_record sample_upgrade) ''version'' = Inr ''1.2.0''"
  "json_require_string (pointer_record sample_upgrade) ''build'' = Inr ''build-2''" 
proof -
  have iso: "to_iso8601 0 = ''1970-01-01T00:00:00.000000000Z''" "ver_text (make_version 1 2 0 []) = ''1.2.0''" by code_simp+
  have r: "pointer_record sample_upgrade = json_build
      [(''version'', JString ''1.2.0''), (''build'', JString ''build-2''), (''artifact_id'', JString ''art-2''),
       (''digest'', JString ''sha256:00''), (''activated_at'', JString ''1970-01-01T00:00:00.000000000Z'')]"
    by (simp add: pointer_record_def Let_def sample_upgrade_def sample_artifact_def iso)
  show w: "json_within default_limits (pointer_record sample_upgrade)"
    by (simp add: r json_within_def json_build_eq default_limits_def)
  have "length sample_pointer \<le> 300" unfolding sample_pointer_def r by code_simp
  then show l: "length sample_pointer \<le> lim_input_bytes default_limits" by (simp add: default_limits_def)
  have "json_parse default_limits sample_pointer = Inr (json_norm (pointer_record sample_upgrade))"
    using json_parse_dump_at [OF w, of 0] l by (simp add: json_dump_def sample_pointer_def)
  then show "json_parse_object default_limits sample_pointer = Inr (json_norm (pointer_record sample_upgrade))"
    by (simp add: json_parse_object_def r)
  show "json_require_string (pointer_record sample_upgrade) ''version'' = Inr ''1.2.0''"
    "json_require_string (pointer_record sample_upgrade) ''build'' = Inr ''build-2''"
    by (simp_all add: r codec_simps)
qed

theorem retried_activation_defeats_rollback_witness:
  "\<exists>e a1 w1 x a2 w2 r a3 w3.
     local_activate sample_host sample_upgrade sample_adapter (Some sample_before, None, [], [False, True, True]) =
       Some (Inl e, a1, w1) \<and>
     local_activate sample_host sample_upgrade a1 w1 = Some (Inr x, a2, w2) \<and>
     local_rollback sample_host sample_upgrade a2 w2 = Some (Inr r, a3, w3) \<and>
     ro_observed_build r = ''build-2'' \<and> fst w3 \<noteq> Some sample_before"
proof -
  let ?st = "new_local_state default_local_options sample_local" and ?w = "(Some sample_before, None, [], [False, True, True])"
  from sample_activate(2) [OF sample_start_state(2), of sample_before None "[]" "[True, True]"] obtain e st1 where
    1: "activate_local sample_host sample_upgrade ?st ?w = Some (Inl e, st1, (Some sample_pointer, Some sample_before, [], [True, True]))"
      "down 0 st1" by auto
  from sample_activate(1) [OF 1(2), of sample_pointer "Some sample_before" "[]" "[True]"] obtain x st2 where
    2: "activate_local sample_host sample_upgrade st1 (Some sample_pointer, Some sample_before, [], [True, True]) =
      Some (Inr x, st2, (Some sample_pointer, Some sample_pointer, [], [True]))" "\<not> ao_already_active x" "up 1 st2" by auto
  from sample_rollback [OF 2(3) _ sample_pointer_parse(3), of "''build-2''" sample_upgrade "Some sample_pointer" "[]" "[]"]
    sample_pointer_parse(4,5)
  obtain r st3 where 3: "rollback_local sample_host sample_upgrade st2 (Some sample_pointer, Some sample_pointer, [], [True]) =
      Some (Inr r, st3, (Some sample_pointer, Some sample_pointer, [], []))" by auto
  let ?a1 = "sample_adapter\<lparr>lad_targets := table_put (lad_targets sample_adapter) ''a1'' st1\<rparr>"
  let ?a2 = "?a1\<lparr>lad_targets := table_put (lad_targets ?a1) ''a1'' st2\<rparr>"
  have one: "local_activate sample_host sample_upgrade sample_adapter ?w =
      Some (Inl e, ?a1, (Some sample_pointer, Some sample_before, [], [True, True]))"
    using sample_start_state(1) 1(1) by (simp add: local_activate_def with_local_def)
  have two: "local_activate sample_host sample_upgrade ?a1 (Some sample_pointer, Some sample_before, [], [True, True]) =
      Some (Inr x, ?a2, (Some sample_pointer, Some sample_pointer, [], [True]))"
    using 2(1) by (simp add: local_activate_def with_local_def store_table.get_put)
  from 3 obtain a3 where undo:
    "local_rollback sample_host sample_upgrade ?a2 (Some sample_pointer, Some sample_pointer, [], [True]) =
      Some (Inr r, a3, (Some sample_pointer, Some sample_pointer, [], []))"
    by (simp add: local_rollback_def with_local_def store_table.get_put)
  have get: "table_get (lad_targets sample_adapter) (tgt_id (top_target sample_upgrade)) = Some ?st" "lps_target ?st = sample_local"
    using sample_start_state(1) by (simp_all add: new_local_state_def)
  have differ: "sample_pointer \<noteq> sample_before"
  proof
    assume "sample_pointer = sample_before"
    then have "json_norm (pointer_record sample_upgrade) = json_norm (build_doc ''build-1'')"
      using sample_pointer_parse(3) build_doc_parse [of "''build-1''"] by (simp add: sample_before_def)
    then have "json_require_string (json_norm (pointer_record sample_upgrade)) ''build'' =
        json_require_string (json_norm (build_doc ''build-1'')) ''build''" by simp
    then show False using sample_pointer_parse(5) sample_identity(3) [of "''build-1''"] by simp
  qed
  have "ro_observed_build r = art_build (top_artifact sample_upgrade)"
    using retried_activation_defeats_rollback [OF sample_host_files get one _ two 2(2) refl undo sample_pointer_parse(1)]
      sample_pointer_parse(2) differ by (simp add: sample_pointer_def)
  then have "ro_observed_build r = ''build-2''" by (simp add: sample_upgrade_def sample_artifact_def)
  with one two undo differ show ?thesis by (metis fst_conv option.inject)
qed

end
