(* ===== verification/Spec2Isabelle.thy ===== *)
theory Spec2Isabelle
  imports Core_Crc Core_Hash Core_Ids Core_Json Core_Json_Text Core_Json_Parse Core_Time Core_Result
    Model_Version Model_Skew Model_Lifecycle Model_Artifact Model_Target Model_Policy
    Model_Provenance Model_Decision Model_Plan Model_Campaign Ports Engine_Planner
    Engine_Preflight Engine_Verification Engine_Reconcile Core_Fs Core_Json_Roundtrip
    Store_Journal Store_Frames Store_Recovery Model_Codecs Store_State Store_Replay Store_Runs
    Engine_State Engine_Guards Engine_Work Engine_Commit Engine_Execute Engine_Commands
    Engine_Control Engine_Queries Engine_Frames Engine_Orders Engine_Runs Engine_Recovery
    Engine_Safety Engine_Contract Engine_Limits Engine_Moves Engine_Samples Runtime_Pool
    Adapter_Synthetic Adapter_Fabric Core_Numbers Cli_Commands Local_Transport Local_Server
    Local_Supervisor Local_Process Local_Safety Local_Rollback
begin

text \<open>
  Fabric Upgrade Manager: a runtime that plans, gates, executes, verifies and rolls back upgrade
  campaigns over a fleet of targets.  This development translates the C++ sources under \<open>src/src\<close>
  and \<open>src/include/fum\<close> into HOL definitions and proves what makes them correct.

  The program has four layers, a worker pool, a synthetic fabric and a local-process adapter to run against, and a
  command line.  \<open>core\<close> holds the vocabulary (results, CRC-32C, SHA-256, identifiers,
  JSON, time).  \<open>model\<close> holds the data and its rules (versions, skew budgets, the campaign lifecycle,
  artifacts, targets, policies, provenance, decisions, plans, campaign records), each with a JSON form
  and a validation.  \<open>ports\<close> names the interfaces to the systems outside the repository.  \<open>engine\<close>
  decides: the planner turns a request into stages, preflight turns a plan into a ticket, the
  verification judges an activation, the reconciliation repairs the records after a restart, and the engine runs the
  campaigns over the durable store: it emits work items, calls the adapters, commits what they report behind a fence.

  Conventions.  A \<open>struct\<close> or \<open>class\<close> is a \<open>record\<close> whose fields carry a prefix of the type, an
  \<open>enum\<close> is a \<open>datatype\<close>; 64-, 32- and 8-bit unsigned integers are words that wrap, timestamps and durations
  are integers of nanoseconds (\<open>int64_t\<close> in the code; the lemmas state the range where it matters); text is a
  list of characters, one per byte.  \<open>Result<T>\<close> is the sum \<open>error + 'a\<close> and \<open>FUM_TRY\<close> is \<open>fum_try\<close>, so
  that every early return is a branch.  A pointer that may be null is an option.  A
  \<open>std::sort\<close> is \<open>sort_key\<close>, which fixes the order of equal keys where the code leaves it open; the
  property on planning shows where that cannot be seen.  The clock and the adapters' answers are arguments.

  Theories, in the order of the code:

  \<^item> \<open>Prelude\<close>, \<open>Core_Result\<close>: shared lemmas on lists, options, decimal text; error codes and results
    (\<open>core/result\<close>, \<open>core/checked\<close>).
  \<^item> \<open>Core_Crc\<close>, \<open>Core_Hash\<close>: the checksum against its bit-serial definition; the SHA-256 stream against
    the one-shot definition over the padded message; hexadecimal text.
  \<^item> \<open>Core_Ids\<close>: identifier validation, digests, counters that refuse to wrap, fence tokens.
  \<^item> \<open>Core_Json\<close>, \<open>Core_Json_Text\<close>, \<open>Core_Json_Parse\<close>: JSON values and typed access, the renderer, the
    bounded recursive-descent parser.  The parser runs on fuel, twice the length of its input plus one.
  \<^item> \<open>Core_Json_Roundtrip\<close>: that fuel is enough for every input, more never changes the answer, and every value
    within the limits, without reals or repeated members, reads back from its rendering.
  \<^item> \<open>Core_Fs\<close>: joining paths, the bounded read, the append-only writer over a disk that may cut a write or
    fail a flush or a sync.
  \<^item> \<open>Core_Time\<close>: the calendar conversion, rendering and parsing of timestamps.
  \<^item> \<open>Model_Version\<close>, \<open>Model_Skew\<close>: versions, constraints, ranges; the skew budget and assessment.
  \<^item> \<open>Model_Lifecycle\<close>: campaign states, guards, the rule table, its meaning state by state and the runs
    of the lifecycle as a step relation.
  \<^item> \<open>Model_Artifact\<close>, \<open>Model_Target\<close>, \<open>Model_Policy\<close>, \<open>Model_Provenance\<close>, \<open>Model_Decision\<close>: the model
    types, their JSON forms with round trips, validation, integrity checks, evidence freshness, the ledger.
  \<^item> \<open>Model_Plan\<close>, \<open>Model_Campaign\<close>: plans, tickets, campaign and attempt records (\<open>model/campaign\<close>).
  \<^item> \<open>Ports\<close>: requests and outcomes of the ports, idempotency keys, the adapter registry.
  \<^item> \<open>Engine_Planner\<close>, \<open>Engine_Preflight\<close>, \<open>Engine_Verification\<close>, \<open>Engine_Reconcile\<close>: the
    decisions of the engine, each against the statement of what it decides.
  \<^item> \<open>Store_Journal\<close>, \<open>Store_Frames\<close>, \<open>Store_Recovery\<close>: the journal file, its frames read back, its invariant
    over creation, appends and restarts, and what a crash or a failing disk leaves.

  \<^item> \<open>Model_Codecs\<close>: the contract of a JSON codec (a locale), interpreted on the record types the store writes.
  \<^item> \<open>Store_State\<close>: the durable store (\<open>store/state\<close>): its tables, what a journal record does to them,
    recovery, opening with or without repair, every operation, compaction.
  \<^item> \<open>Store_Replay\<close>: the replay of a history, the invariant that relates the memory of a store to its journal,
    and that every operation, restart and compaction keeps it.
  \<^item> \<open>Store_Runs\<close>: the steps and runs of a store, and what holds in all of them: a restart gives the state back, a
    crash gives a state of the past, the ledger verifies, the bounds hold.
  \<^item> \<open>Engine_State\<close>: the state of the engine, its ports and what it reaches without a port, work items and
    outcomes, and the operations as state transformers.  Everything outside the engine (ports, clocks, the disk, files,
    the statistics of the worker pool) is a function over a world \<open>'w\<close> that the engine carries along, so two calls may answer
    differently.
  \<^item> \<open>Engine_Guards\<close>, \<open>Engine_Work\<close>: \<open>engine/engine_exec.cpp\<close>, the guards, the moves of a campaign, the fence,
    the planning of work.
  \<^item> \<open>Engine_Commit\<close>, \<open>Engine_Execute\<close>: \<open>engine/engine_run.cpp\<close>, the commit of a result, gates, calls with
    retries, drivers.  The pool executor runs the items of a batch at the same time; their commits are serialised by the
    mutex, so a run of the engine allows them in any order.
  \<^item> \<open>Engine_Commands\<close>, \<open>Engine_Control\<close>, \<open>Engine_Queries\<close>: \<open>engine/engine.cpp\<close> and
    \<open>engine/engine_ops.cpp\<close>, opening, the commands of the operator, the queries.
  \<^item> \<open>Engine_Frames\<close>: what each operation leaves alone.
  \<^item> \<open>Engine_Orders\<close>: a contract for statements about the whole engine (the locale \<open>campaign_order\<close>): an order on
    campaign records that the bookkeeping and the allowed moves respect is respected by every operation.
  \<^item> \<open>Engine_Runs\<close>: the steps of an engine (planning, an item, a commit, a command, a stop), its runs from an
    opened store, that every command and driver is a sequence of steps, and two interpretations of the contract: along
    the runs of the lifecycle, and along the stages of a campaign, which fit its plan.
  \<^item> \<open>Engine_Recovery\<close>: what opening does to the campaigns the last process left in the middle.
  \<^item> \<open>Engine_Safety\<close>: the fence, commits that happen once, completion only on evidence (a third interpretation of
    the contract, by an order that leaves out the move to completed).
  \<^item> \<open>Engine_Moves\<close>: the calls the engine makes under its mutex, the moves each may make, and that every step is one of
    them and moves every stored campaign as the table of this call allows (a family of interpretations of the contract, one
    for each set of states a call asks for).
  \<^item> \<open>Engine_Contract\<close>: a contract for what running an item does to the world of the ports (the locale
    \<open>item_contract\<close>): what the calls of an adapter and the gates are bounded by bounds the item.
  \<^item> \<open>Engine_Limits\<close>: bounds on the activations of an item and of a stage.
  \<^item> \<open>Engine_Samples\<close>: an engine on a healthy disk that opens after a crash, fences a stale result and completes a
    campaign, the witnesses of the properties of the engine.

  \<^item> \<open>Runtime_Pool\<close>: the worker pool (\<open>runtime/worker_pool\<close>) as a step relation over its lock regions: its accounting
    holds in every interleaving, and a stop or a cancellation in the middle of a batch never ends.
  \<^item> \<open>Adapter_Synthetic\<close>, \<open>Adapter_Fabric\<close>: \<open>adapters/synthetic_adapter\<close>, the synthetic target adapter with its
    fault programme and gates, the stand-ins for the other systems, and the world made of them.  Over that world the
    contract of an item is interpreted, and the engine and the adapter are taken together: what an item changes, what the
    engine makes of a lost acknowledgement, which evidence it accepts.
  \<^item> \<open>Core_Numbers\<close>, \<open>Cli_Commands\<close>: the standard library's reading of numbers; the command line (\<open>cli\<close>): arguments,
    commands, output, exit codes, and that the commands that run a campaign succeed only when it is completed or rolled
    back.
  \<^item> \<open>Local_Transport\<close>, \<open>Local_Server\<close>, \<open>Local_Supervisor\<close>, \<open>Local_Process\<close>: \<open>adapters/local_process\<close>, the framed
    transport, the requests and the answers of the test control plane, the supervisor of a child process, and the adapter
    that stages, switches and restarts a real process.  The calls of the operating system (sockets, processes, the clock,
    files) are records of functions over a world; an operation that waits is an option, \<open>None\<close> when it never returns.
  \<^item> \<open>Local_Safety\<close>, \<open>Local_Rollback\<close>: what the operations of the adapter leave alone, what they do to its two files, that a
    rollback undoes an activation and that a repeated activation defeats it.

  The engine's operations are atomic at the size of its lock regions, and a run takes them in any order, so the
  properties of the runs hold for every schedule of the threads.  One operation is larger than a lock region:
  \<open>create_campaign\<close> looks for the identity and inserts the record in two regions; the model takes them
  together, and two creations of the same identity that overlap are outside it.

  Not modelled: the operating system under \<open>adapters/local_process\<close>, the build of that adapter for other systems than
  Windows (it answers that it is unsupported), the loop and the files of the test control plane; the system calls of \<open>core/fs\<close> and the diagnostics of \<open>core/log\<close>; the assembly of the
  command line's ports from files; the pool's spurious wakeups and a stop from one of its own threads; the examples,
  benchmarks and tests.
\<close>

end
